(* ===== verification/Prelude.thy ===== *)
theory Prelude
  imports Main
    "HOL-Library.AList"
    "HOL-Library.Monad_Syntax"
    "HOL-Library.Char_ord"
    "HOL-Library.List_Lexorder"
begin

text \<open>
  What the component theories share: the integer types of the Rust sources and their wrapping and
  saturating operations, clock values, the ASCII string operations of \<^verbatim>\<open>str\<close>, hash
  maps as association lists, the interface of a map as a locale, and the generic notion of a state
  machine with an invariant.

  Conventions. The release profile (\<^verbatim>\<open>src/Cargo.toml\<close>) leaves overflow checks off, so an
  unsigned addition wraps; a counter is a \<^typ>\<open>nat\<close> and the wrap-around is written out with
  the width. An \<^verbatim>\<open>Instant\<close> or a UTC time is an \<^typ>\<open>int\<close> (the Linux
  representation is a signed time stamp), a \<^verbatim>\<open>Duration\<close> a \<^typ>\<open>nat\<close>, both
  in nanoseconds unless the field name says otherwise. The current time is an argument \<open>now\<close> of
  every operation that reads a clock. Text is a \<^typ>\<open>string\<close>; case conversion and trimming act
  on the ASCII range.
\<close>

section \<open>Collections\<close>

named_theorems hmap_simps \<open>equations of the hash-map operations\<close>
named_theorems arith_defs \<open>definitions of the machine arithmetic\<close>

section \<open>Machine arithmetic\<close>

type_synonym instant = int
type_synonym duration = nat

definition u32_max :: nat where
  "u32_max = 2 ^ 32 - 1"

definition u64_max :: nat where
  "u64_max = 2 ^ 64 - 1"

definition wrap_add :: "nat \<Rightarrow> nat \<Rightarrow> nat \<Rightarrow> nat" where
  \<comment> \<open>unsigned addition at width \<open>w\<close>, release profile\<close>
  [arith_defs]: "wrap_add w a b = (a + b) mod 2 ^ w"

definition wrap_sub :: "nat \<Rightarrow> nat \<Rightarrow> nat \<Rightarrow> nat" where
  [arith_defs]: "wrap_sub w a b = (a + 2 ^ w - b mod 2 ^ w) mod 2 ^ w"

definition sat_add :: "nat \<Rightarrow> nat \<Rightarrow> nat \<Rightarrow> nat" where
  [arith_defs]: "sat_add w a b = min (a + b) (2 ^ w - 1)"

definition sat_mul :: "nat \<Rightarrow> nat \<Rightarrow> nat \<Rightarrow> nat" where
  [arith_defs]: "sat_mul w a b = min (a * b) (2 ^ w - 1)"

lemma wrap_add_bound [simp]: "wrap_add w a b < 2 ^ w"
  by (simp add: wrap_add_def)

lemma wrap_add_exact: "a + b < 2 ^ w \<Longrightarrow> wrap_add w a b = a + b"
  by (simp add: wrap_add_def)

lemma wrap_sub_exact:
  assumes "b \<le> a" and "a < 2 ^ w"
  shows "wrap_sub w a b = a - b"
proof -
  have "b mod 2 ^ w = b" using assms by simp
  then have "wrap_sub w a b = (a + 2 ^ w - b) mod 2 ^ w"
    by (simp add: wrap_sub_def)
  also have "a + 2 ^ w - b = (a - b) + 2 ^ w"
    using assms by simp
  also have "\<dots> mod 2 ^ w = (a - b) mod 2 ^ w"
    by simp
  finally show ?thesis using assms by simp
qed

lemma wrap_sub_underflow:
  assumes "0 < w"
  shows "wrap_sub w 0 1 = 2 ^ w - 1"
proof -
  have "(1::nat) < 2 ^ w" using assms by (metis one_less_numeral_iff one_less_power semiring_norm(76))
  then show ?thesis by (simp add: wrap_sub_def)
qed

lemma sat_add_bound [simp]: "sat_add w a b < 2 ^ w"
proof -
  have "(0::nat) < 2 ^ w" by simp
  then have "(2::nat) ^ w - 1 < 2 ^ w" by linarith
  then show ?thesis unfolding sat_add_def by (rule min.strict_coboundedI2)
qed

lemma sat_mul_le_mult [simp]: "sat_mul w a b \<le> a * b"
  by (simp add: sat_mul_def)

lemma sat_mul_mono: "b \<le> c \<Longrightarrow> sat_mul w a b \<le> sat_mul w a c"
  by (auto simp: sat_mul_def min_def intro: order_trans [OF mult_le_mono2])

section \<open>Clocks\<close>

definition elapsed :: "instant \<Rightarrow> instant \<Rightarrow> duration" where
  \<comment> \<open>\<open>now.duration_since(earlier)\<close> and \<open>earlier.elapsed()\<close>: saturates at zero\<close>
  "elapsed now earlier = nat (now - earlier)"

definition nanos_per_sec :: nat where
  "nanos_per_sec = 1000000000"

definition from_secs :: "nat \<Rightarrow> duration" where
  "from_secs s = s * nanos_per_sec"

definition as_secs :: "duration \<Rightarrow> nat" where
  "as_secs d = d div nanos_per_sec"

definition as_millis_u64 :: "duration \<Rightarrow> nat" where
  \<comment> \<open>\<open>d.as_millis() as u64\<close>\<close>
  "as_millis_u64 d = (d div 1000000) mod 2 ^ 64"

definition duration_max :: duration where
  "duration_max = u64_max * nanos_per_sec + 999999999"

definition duration_mul :: "duration \<Rightarrow> nat \<Rightarrow> duration option" where
  \<comment> \<open>\<open>Duration * u32\<close> panics on overflow\<close>
  "duration_mul d k = (if d * k \<le> duration_max then Some (d * k) else None)"

lemma as_secs_from_secs [simp]: "as_secs (from_secs s) = s"
  by (simp add: as_secs_def from_secs_def nanos_per_sec_def)

lemma elapsed_self [simp]: "elapsed t t = 0"
  by (simp add: elapsed_def)

lemma elapsed_mono: "now \<le> now' \<Longrightarrow> elapsed now t \<le> elapsed now' t"
  by (simp add: elapsed_def)

lemma elapsed_less_iff: "0 < d \<Longrightarrow> elapsed now t < d \<longleftrightarrow> now < t + int d"
  by (auto simp: elapsed_def)

lemma elapsed_ge_iff: "0 < d \<Longrightarrow> d \<le> elapsed now t \<longleftrightarrow> t + int d \<le> now"
  by (auto simp: elapsed_def)

section \<open>Strings\<close>

definition is_ascii_upper :: "char \<Rightarrow> bool" where
  "is_ascii_upper c \<longleftrightarrow> CHR ''A'' \<le> c \<and> c \<le> CHR ''Z''"

definition ascii_lower :: "char \<Rightarrow> char" where
  "ascii_lower c = (if is_ascii_upper c then char_of (of_char c + 32 :: nat) else c)"

definition to_lowercase :: "string \<Rightarrow> string" where
  \<comment> \<open>\<open>to_ascii_lowercase\<close>, and \<open>to_lowercase\<close> on ASCII text\<close>
  "to_lowercase s = map ascii_lower s"

definition is_space :: "char \<Rightarrow> bool" where
  "is_space c \<longleftrightarrow> c \<in> {CHR '' '', CHR 0x09, CHR 0x0A, CHR 0x0B, CHR 0x0C, CHR 0x0D}"

definition trim_start :: "string \<Rightarrow> string" where
  "trim_start s = dropWhile is_space s"

definition trim :: "string \<Rightarrow> string" where
  "trim s = rev (dropWhile is_space (rev (dropWhile is_space s)))"

fun starts_with :: "string \<Rightarrow> string \<Rightarrow> bool" where
  \<comment> \<open>\<open>s.starts_with(p)\<close>\<close>
  "starts_with s [] = True"
| "starts_with [] (p # ps) = False"
| "starts_with (c # s) (p # ps) = (c = p \<and> starts_with s ps)"

fun str_contains :: "string \<Rightarrow> string \<Rightarrow> bool" where
  \<comment> \<open>\<open>s.contains(p)\<close>\<close>
  "str_contains [] p = (p = [])"
| "str_contains (c # s) p = (starts_with (c # s) p \<or> str_contains s p)"

definition or_else :: "'a option \<Rightarrow> 'a option \<Rightarrow> 'a option" where
  \<comment> \<open>\<open>a.or(b)\<close> and \<open>a.or_else(|| b)\<close>\<close>
  "or_else a b = (case a of Some x \<Rightarrow> Some x | None \<Rightarrow> b)"

definition non_blank :: "string option \<Rightarrow> string option" where
  \<comment> \<open>\<open>.filter(|s| !s.trim().is_empty())\<close>\<close>
  "non_blank s = (case s of Some t \<Rightarrow> if trim t \<noteq> [] then Some t else None | None \<Rightarrow> None)"

definition strip_suffix :: "string \<Rightarrow> string \<Rightarrow> string option" where
  "strip_suffix s p =
     (if starts_with (rev s) (rev p) then Some (take (length s - length p) s) else None)"

lemma starts_with_iff: "starts_with s p \<longleftrightarrow> (\<exists>t. s = p @ t)"
  by (induction s p rule: starts_with.induct) auto

lemma starts_with_append [simp]: "starts_with (p @ s) p"
  by (simp add: starts_with_iff)

lemma str_contains_iff: "str_contains s p \<longleftrightarrow> (\<exists>u v. s = u @ p @ v)"
proof (induction s)
  case Nil
  then show ?case by auto
next
  case (Cons c s)
  show ?case
  proof
    assume "str_contains (c # s) p"
    then consider "starts_with (c # s) p" | "str_contains s p" by auto
    then show "\<exists>u v. c # s = u @ p @ v"
    proof cases
      case 1
      then obtain v where "c # s = [] @ p @ v" by (auto simp: starts_with_iff)
      then show ?thesis by blast
    next
      case 2
      then obtain u v where "c # s = (c # u) @ p @ v" using Cons by auto
      then show ?thesis by blast
    qed
  next
    assume "\<exists>u v. c # s = u @ p @ v"
    then obtain u v where uv: "c # s = u @ p @ v" by blast
    show "str_contains (c # s) p"
    proof (cases u)
      case Nil
      with uv have "starts_with (c # s) p" by (simp add: starts_with_iff)
      then show ?thesis by simp
    next
      case (Cons d u')
      with uv have "s = u' @ p @ v" by simp
      then show ?thesis using Cons.IH by auto
    qed
  qed
qed

lemma strip_suffix_Some_iff: "strip_suffix s p = Some t \<longleftrightarrow> s = t @ p"
proof
  assume "strip_suffix s p = Some t"
  then have "starts_with (rev s) (rev p)" and t: "t = take (length s - length p) s"
    by (auto simp: strip_suffix_def split: if_splits)
  then obtain q where "rev s = rev p @ q" by (auto simp: starts_with_iff)
  then have "s = rev q @ p" by (metis rev_append rev_rev_ident)
  then show "s = t @ p" using t by simp
next
  assume "s = t @ p"
  then show "strip_suffix s p = Some t"
    by (simp add: strip_suffix_def)
qed

lemma dropWhile_is_Nil_iff: "dropWhile P xs = [] \<longleftrightarrow> (\<forall>x \<in> set xs. P x)"
  by (induction xs) auto

lemma trim_eq_Nil_iff: "trim s = [] \<longleftrightarrow> (\<forall>c \<in> set s. is_space c)"
proof -
  have "trim s = [] \<longleftrightarrow> (\<forall>c \<in> set (dropWhile is_space s). is_space c)"
    by (simp add: trim_def dropWhile_is_Nil_iff)
  also have "\<dots> \<longleftrightarrow> dropWhile is_space s = []"
    by (metis dropWhile_is_Nil_iff dropWhile_idem)
  finally show ?thesis by (simp add: dropWhile_is_Nil_iff)
qed

lemma colon_split:
  "CHR '':'' \<notin> set a \<Longrightarrow> CHR '':'' \<notin> set b \<Longrightarrow> a @ CHR '':'' # x = b @ CHR '':'' # y \<Longrightarrow>
     a = b \<and> x = y"
proof (induction a arbitrary: b)
  case Nil
  then show ?case by (cases b) auto
next
  case (Cons c a)
  then obtain b' where "b = c # b'" by (cases b) auto
  then show ?case using Cons by auto
qed

subsection \<open>Decimal numbers\<close>

definition digit_char :: "nat \<Rightarrow> char" where
  "digit_char d = char_of (48 + d)"

fun show_nat :: "nat \<Rightarrow> string" where
  \<comment> \<open>\<open>format!("{}", n)\<close>\<close>
  "show_nat n =
     (if n < 10 then [digit_char n] else show_nat (n div 10) @ [digit_char (n mod 10)])"

declare show_nat.simps [simp del]

definition show_int :: "int \<Rightarrow> string" where
  "show_int n = (if n < 0 then ''-'' @ show_nat (nat (- n)) else show_nat (nat n))"

definition parse_digit :: "char \<Rightarrow> nat option" where
  "parse_digit c =
     (if CHR ''0'' \<le> c \<and> c \<le> CHR ''9'' then Some (of_char c - 48) else None)"

fun parse_digits :: "nat \<Rightarrow> string \<Rightarrow> nat option" where
  "parse_digits acc [] = Some acc"
| "parse_digits acc (c # cs) =
     (case parse_digit c of None \<Rightarrow> None | Some d \<Rightarrow> parse_digits (10 * acc + d) cs)"

definition parse_u64 :: "string \<Rightarrow> nat option" where
  \<comment> \<open>\<open>s.parse::<u64>().ok()\<close>: an optional plus sign, then digits, at most \<open>u64::MAX\<close>\<close>
  "parse_u64 s =
     (let ds = (case s of [] \<Rightarrow> [] | c # cs \<Rightarrow> if c = CHR ''+'' then cs else s)
      in if ds = [] then None
         else case parse_digits 0 ds of
                None \<Rightarrow> None
              | Some n \<Rightarrow> if n \<le> u64_max then Some n else None)"

lemma parse_digit_digit_char: "d < 10 \<Longrightarrow> parse_digit (digit_char d) = Some d"
proof -
  assume d: "d < 10"
  then have "(of_char (digit_char d) :: nat) = 48 + d"
    by (simp add: digit_char_def of_char_of)
  then show ?thesis using d
    by (simp add: parse_digit_def less_eq_char_def)
qed

lemma parse_digits_append:
  "parse_digits acc (xs @ ys) =
     (case parse_digits acc xs of None \<Rightarrow> None | Some a \<Rightarrow> parse_digits a ys)"
  by (induction xs arbitrary: acc) (auto split: option.split)

lemma parse_show_nat: "parse_digits 0 (show_nat n) = Some n"
proof (induction n rule: show_nat.induct)
  case (1 n)
  show ?case
  proof (cases "n < 10")
    case True
    then show ?thesis
      by (simp add: show_nat.simps [of n] parse_digit_digit_char)
  next
    case False
    then have "parse_digits 0 (show_nat (n div 10)) = Some (n div 10)"
      using 1 by blast
    then show ?thesis using False
      by (simp add: show_nat.simps [of n] parse_digits_append parse_digit_digit_char)
  qed
qed

lemma show_nat_inject [simp]: "show_nat m = show_nat n \<longleftrightarrow> m = n"
  by (metis option.inject parse_show_nat)

section \<open>Lists\<close>

lemma nth_update_if: "xs[i := v] ! j = (if i = j \<and> j < length xs then v else xs ! j)"
  by (cases "i < length xs") (auto simp: nth_list_update list_update_beyond)

fun first_index :: "('a \<Rightarrow> bool) \<Rightarrow> 'a list \<Rightarrow> nat option" where
  \<comment> \<open>\<open>xs.iter().position(P)\<close>\<close>
  "first_index P [] = None"
| "first_index P (x # xs) = (if P x then Some 0 else map_option Suc (first_index P xs))"

lemma first_index_None_iff: "first_index P xs = None \<longleftrightarrow> (\<forall>x \<in> set xs. \<not> P x)"
  by (induction xs) auto

lemma first_index_SomeD:
  "first_index P xs = Some i \<Longrightarrow> i < length xs \<and> P (xs ! i) \<and> (\<forall>j < i. \<not> P (xs ! j))"
proof (induction xs arbitrary: i)
  case (Cons x xs)
  show ?case
  proof (cases "P x")
    case True
    then show ?thesis using Cons.prems by simp
  next
    case False
    then obtain k where k: "i = Suc k" "first_index P xs = Some k" using Cons.prems by auto
    then show ?thesis using Cons.IH [OF k(2)] False by (auto simp: less_Suc_eq_0_disj)
  qed
qed simp

lemma first_index_distinct:
  assumes "distinct (map f xs)" and "i < length xs"
  shows "first_index (\<lambda>x. f x = f (xs ! i)) xs = Some i"
proof (cases "first_index (\<lambda>x. f x = f (xs ! i)) xs")
  case None
  then show ?thesis using assms(2) by (auto simp: first_index_None_iff)
next
  case (Some j)
  then have "j < length xs" "map f xs ! j = map f xs ! i" using assms(2) by (auto dest: first_index_SomeD)
  then have "j = i" using assms nth_eq_iff_index_eq [of "map f xs" j i] by simp
  then show ?thesis using Some by simp
qed

section \<open>Hash maps\<close>

text \<open>
  The content of a \<^verbatim>\<open>HashMap\<close> or a \<^verbatim>\<open>DashMap\<close> (the concurrent map with
  the same interface) is an association list with distinct keys. The order of the list stands for
  the unspecified iteration order.
\<close>

type_synonym ('k, 'v) hmap = "('k \<times> 'v) list"

definition hm_wf :: "('k, 'v) hmap \<Rightarrow> bool" where
  "hm_wf m \<longleftrightarrow> distinct (map fst m)"

definition hm_get :: "('k, 'v) hmap \<Rightarrow> 'k \<Rightarrow> 'v option" where
  "hm_get m k = map_of m k"

definition hm_insert :: "('k, 'v) hmap \<Rightarrow> 'k \<Rightarrow> 'v \<Rightarrow> ('k, 'v) hmap" where
  "hm_insert m k v = AList.update k v m"

definition hm_remove :: "('k, 'v) hmap \<Rightarrow> 'k \<Rightarrow> ('k, 'v) hmap" where
  "hm_remove m k = AList.delete k m"

definition hm_retain :: "('k \<Rightarrow> 'v \<Rightarrow> bool) \<Rightarrow> ('k, 'v) hmap \<Rightarrow> ('k, 'v) hmap" where
  "hm_retain P m = filter (\<lambda>(k, v). P k v) m"

abbreviation hm_contains :: "('k, 'v) hmap \<Rightarrow> 'k \<Rightarrow> bool" where
  "hm_contains m k \<equiv> hm_get m k \<noteq> None"

definition hm_upsert :: "('k, 'v) hmap \<Rightarrow> 'k \<Rightarrow> 'v \<Rightarrow> ('v \<Rightarrow> 'v) \<Rightarrow> ('k, 'v) hmap" where
  \<comment> \<open>\<open>entry(k).or_insert(d)\<close> followed by an update of the entry in place\<close>
  "hm_upsert m k d f =
     hm_insert m k (f (case hm_get m k of None \<Rightarrow> d | Some v \<Rightarrow> v))"

lemma hm_get_Nil [simp, hmap_simps]: "hm_get [] k = None"
  by (simp add: hm_get_def)

lemma hm_wf_Nil [simp]: "hm_wf []"
  by (simp add: hm_wf_def)

lemma hm_wf_insert [simp]: "hm_wf m \<Longrightarrow> hm_wf (hm_insert m k v)"
  by (simp add: hm_wf_def hm_insert_def distinct_update)

lemma hm_wf_remove [simp]: "hm_wf m \<Longrightarrow> hm_wf (hm_remove m k)"
  by (simp add: hm_wf_def hm_remove_def distinct_delete)

lemma hm_wf_retain [simp]: "hm_wf m \<Longrightarrow> hm_wf (hm_retain P m)"
  by (simp add: hm_wf_def hm_retain_def distinct_map_filter)

lemma hm_get_retain:
  assumes "hm_wf m"
  shows "hm_get (hm_retain P m) k =
    (case hm_get m k of None \<Rightarrow> None | Some v \<Rightarrow> if P k v then Some v else None)"
  using assms unfolding hm_wf_def hm_get_def hm_retain_def
  by (induction m) (auto split: option.splits simp: map_of_eq_None_iff)

text \<open>The interface of a map, as the registries use it.\<close>

locale hash_map =
  fixes wf :: "'m \<Rightarrow> bool"
    and get :: "'m \<Rightarrow> 'k \<Rightarrow> 'v option"
    and ins :: "'m \<Rightarrow> 'k \<Rightarrow> 'v \<Rightarrow> 'm"
    and rem :: "'m \<Rightarrow> 'k \<Rightarrow> 'm"
    and ret :: "('k \<Rightarrow> 'v \<Rightarrow> bool) \<Rightarrow> 'm \<Rightarrow> 'm"
  assumes get_ins: "get (ins m k v) l = (if l = k then Some v else get m l)"
    and get_rem: "get (rem m k) l = (if l = k then None else get m l)"
    and get_ret: "wf m \<Longrightarrow> get (ret P m) k =
          (case get m k of None \<Rightarrow> None | Some v \<Rightarrow> if P k v then Some v else None)"
    and wf_ins: "wf m \<Longrightarrow> wf (ins m k v)"
    and wf_rem: "wf m \<Longrightarrow> wf (rem m k)"
    and wf_ret: "wf m \<Longrightarrow> wf (ret P m)"
begin

lemma all_entries_ins:
  "(\<And>l w. get m l = Some w \<Longrightarrow> P l w) \<Longrightarrow> P k v \<Longrightarrow> get (ins m k v) l = Some w \<Longrightarrow> P l w"
  by (auto simp: get_ins split: if_splits)

lemma all_entries_rem:
  "(\<And>l w. get m l = Some w \<Longrightarrow> P l w) \<Longrightarrow> get (rem m k) l = Some w \<Longrightarrow> P l w"
  by (auto simp: get_rem split: if_splits)

lemma ret_sound: "wf m \<Longrightarrow> get (ret P m) k = Some v \<Longrightarrow> P k v \<and> get m k = Some v"
  by (auto simp: get_ret split: option.splits if_splits)

lemma ret_keeps: "wf m \<Longrightarrow> get m k = Some v \<Longrightarrow> P k v \<Longrightarrow> get (ret P m) k = Some v"
  by (simp add: get_ret)

lemma rem_after_ins: "get (rem (ins m k v) k) = (get m)(k := None)"
  by (auto simp: get_ins get_rem)

end

interpretation hm: hash_map hm_wf hm_get hm_insert hm_remove hm_retain
proof unfold_locales
  fix m :: "('k \<times> 'v) list" and k l v
  show "hm_get (hm_insert m k v) l = (if l = k then Some v else hm_get m l)"
    by (simp add: hm_get_def hm_insert_def update_conv')
  show "hm_get (hm_remove m k) l = (if l = k then None else hm_get m l)"
    by (simp add: hm_get_def hm_remove_def delete_conv')
qed (auto simp: hm_get_retain)

lemmas [simp, hmap_simps] = hm.get_ins hm.get_rem

lemma hm_get_upsert [simp, hmap_simps]:
  "hm_get (hm_upsert m k d f) l =
     (if l = k then Some (f (case hm_get m k of None \<Rightarrow> d | Some v \<Rightarrow> v)) else hm_get m l)"
  by (simp add: hm_upsert_def)

lemma hm_wf_upsert [simp]: "hm_wf m \<Longrightarrow> hm_wf (hm_upsert m k d f)"
  by (simp add: hm_upsert_def)

lemma hm_entries_get: "hm_wf m \<Longrightarrow> (k, v) \<in> set m \<longleftrightarrow> hm_get m k = Some v"
  by (simp add: hm_wf_def hm_get_def)

lemma length_hm_insert:
  "length (hm_insert m k v) = (if hm_contains m k then length m else Suc (length m))"
  unfolding hm_insert_def hm_get_def by (induction m) auto

lemma length_hm_remove_le: "length (hm_remove m k) \<le> length m"
  by (simp add: hm_remove_def length_delete_le)

lemma length_hm_retain_le: "length (hm_retain P m) \<le> length m"
  by (simp add: hm_retain_def)

definition hm_count :: "('v \<Rightarrow> bool) \<Rightarrow> ('k, 'v) hmap \<Rightarrow> nat" where
  "hm_count P m = length (filter (\<lambda>(k, v). P v) m)"

lemma hm_count_Nil [simp]: "hm_count P [] = 0"
  by (simp add: hm_count_def)

lemma hm_count_le: "hm_count P m \<le> length m"
  by (simp add: hm_count_def)

lemma hm_count_insert:
  "hm_count P (hm_insert m k v) + (case hm_get m k of Some w \<Rightarrow> if P w then 1 else 0 | None \<Rightarrow> 0) =
     hm_count P m + (if P v then 1 else 0)"
proof (induction m)
  case (Cons kv m)
  then show ?case
    by (cases kv) (auto simp: hm_count_def hm_insert_def hm_get_def split: option.splits if_splits)
qed (simp add: hm_count_def hm_insert_def hm_get_def)

lemma hm_count_remove:
  "hm_wf m \<Longrightarrow>
   hm_count P (hm_remove m k) + (case hm_get m k of Some w \<Rightarrow> if P w then 1 else 0 | None \<Rightarrow> 0) =
     hm_count P m"
proof (induction m)
  case (Cons kv m)
  obtain k' v where kv: "kv = (k', v)" by (cases kv)
  have wf: "hm_wf m" "k' \<notin> fst ` set m" using Cons.prems by (auto simp: hm_wf_def kv)
  show ?case
  proof (cases "k' = k")
    case True
    then have "AList.delete k m = m" using wf(2) by simp
    then show ?thesis using True by (simp add: hm_count_def hm_remove_def hm_get_def kv)
  next
    case False
    then show ?thesis using Cons.IH [OF wf(1)]
      by (simp add: hm_count_def hm_remove_def hm_get_def kv)
  qed
qed (simp add: hm_count_def hm_remove_def hm_get_def)

lemma hm_get_foldl_insert:
  assumes "hm_wf saved"
  shows "hm_get (foldl (\<lambda>m (k, v). if live v then hm_insert m k (conv v) else m) m saved) k =
    (case hm_get saved k of
       Some v \<Rightarrow> if live v then Some (conv v) else hm_get m k
     | None \<Rightarrow> hm_get m k)"
  using assms
proof (induction saved arbitrary: m)
  case Nil
  then show ?case by simp
next
  case (Cons kv saved)
  obtain k' v where kv: "kv = (k', v)" by (cases kv)
  have wf: "hm_wf saved" "k' \<notin> fst ` set saved" using Cons.prems by (auto simp: hm_wf_def kv)
  then have "hm_get saved k' = None" by (simp add: hm_get_def map_of_eq_None_iff)
  then show ?case using Cons.IH [OF wf(1)]
    by (auto simp: kv hm_get_def [of "(k', v) # saved"] hm_get_def [of saved, symmetric]
        split: option.split)
qed

definition hm_collect :: "('k \<times> 'v) list \<Rightarrow> ('k, 'v) hmap" where
  \<comment> \<open>\<open>collect()\<close> into a map: a later pair replaces an earlier one with the same key\<close>
  "hm_collect kvs = foldl (\<lambda>m (k, v). hm_insert m k v) [] kvs"

lemma hm_collect_snoc [simp]: "hm_collect (kvs @ [(k, v)]) = hm_insert (hm_collect kvs) k v"
  by (simp add: hm_collect_def)

lemma hm_get_collect: "hm_get (hm_collect kvs) k = map_of (rev kvs) k"
proof (induction kvs rule: rev_induct)
  case Nil
  then show ?case by (simp add: hm_collect_def)
next
  case (snoc kv kvs)
  then show ?case by (cases kv) auto
qed

lemma hm_get_collect_distinct:
  "distinct (map fst kvs) \<Longrightarrow> hm_get (hm_collect kvs) k = map_of kvs k"
proof -
  assume d: "distinct (map fst kvs)"
  have "map_of (rev kvs) = map_of kvs"
    using d by (intro map_of_eqI) (auto simp: rev_map [symmetric])
  then show ?thesis by (simp add: hm_get_collect)
qed

section \<open>State machines\<close>

inductive reachable :: "('s \<Rightarrow> bool) \<Rightarrow> ('s \<Rightarrow> 'e \<Rightarrow> 's \<Rightarrow> bool) \<Rightarrow> 's \<Rightarrow> bool"
  for init :: "'s \<Rightarrow> bool" and step :: "'s \<Rightarrow> 'e \<Rightarrow> 's \<Rightarrow> bool" where
  reach_init: "init s \<Longrightarrow> reachable init step s"
| reach_step: "reachable init step s \<Longrightarrow> step s e t \<Longrightarrow> reachable init step t"

locale invariant_system =
  fixes init :: "'s \<Rightarrow> bool"
    and step :: "'s \<Rightarrow> 'e \<Rightarrow> 's \<Rightarrow> bool"
    and inv :: "'s \<Rightarrow> bool"
  assumes inv_init: "init s \<Longrightarrow> inv s"
    and inv_step: "inv s \<Longrightarrow> step s e t \<Longrightarrow> inv t"
begin

lemma reachable_inv: "reachable init step s \<Longrightarrow> inv s"
  by (induction rule: reachable.induct) (auto intro: inv_init inv_step)

end

end
