(* ===== verification/CircuitBreaker.thy ===== *)
theory CircuitBreaker
  imports Prelude
begin

text \<open>
  The per-backend circuit breaker of \<^verbatim>\<open>src/crates/crab-proxy/src/circuit_breaker.rs\<close>:
  the breaker record and its operations, the registry keyed by backend name, and the
  classification of upstream failures. A \<^const>\<open>None\<close> result of an operation is the panic of an
  overflowing \<^verbatim>\<open>Duration\<close> multiplication.
\<close>

section \<open>Data\<close>

datatype failure_kind = RateLimit | QuotaExhausted | Transient

datatype circuit_state = Closed | Degraded | Open | HalfOpen

record circuit_breaker_config =
  failure_threshold :: nat
  degradation_threshold :: nat
  reset_timeout :: duration
  half_open_requests :: nat
  max_backoff_multiplier :: nat
  backoff_escalation_count :: nat
  cooldown_by_kind :: "(failure_kind, duration) hmap"

definition default_circuit_breaker_config :: circuit_breaker_config where
  "default_circuit_breaker_config =
     \<lparr>failure_threshold = 12, degradation_threshold = 7, reset_timeout = from_secs 30,
      half_open_requests = 1, max_backoff_multiplier = 4, backoff_escalation_count = 3,
      cooldown_by_kind = []\<rparr>"

record circuit_breaker =
  cb_name :: string
  cb_state :: circuit_state
  cb_failure_count :: nat
  cb_success_count :: nat
  cb_open_cycle_count :: nat
  cb_last_failure_time :: "instant option"
  cb_last_failure_kind :: "failure_kind option"
  cb_config :: circuit_breaker_config

definition cb_new :: "string \<Rightarrow> circuit_breaker_config \<Rightarrow> circuit_breaker" where
  "cb_new name config =
     \<lparr>cb_name = name, cb_state = Closed, cb_failure_count = 0, cb_success_count = 0,
      cb_open_cycle_count = 0, cb_last_failure_time = None, cb_last_failure_kind = None,
      cb_config = config\<rparr>"

section \<open>Operations of one breaker\<close>

definition cb_kind_cooldown :: "circuit_breaker \<Rightarrow> duration option" where
  "cb_kind_cooldown b =
     Option.bind (cb_last_failure_kind b) (hm_get (cooldown_by_kind (cb_config b)))"

definition cb_effective_cooldown :: "circuit_breaker \<Rightarrow> duration option" where
  "cb_effective_cooldown b =
     (case cb_kind_cooldown b of
        Some kind_cooldown \<Rightarrow> Some kind_cooldown
      | None \<Rightarrow>
          (let base = reset_timeout (cb_config b) in
           if cb_open_cycle_count b \<le> backoff_escalation_count (cb_config b) then Some base
           else
             let escalation = cb_open_cycle_count b - backoff_escalation_count (cb_config b);
                 multiplier = 2 ^ min escalation 6
             in do {
                  timeout \<leftarrow> duration_mul base multiplier;
                  mx \<leftarrow> duration_mul base (max_backoff_multiplier (cb_config b));
                  Some (min timeout mx)
                }))"

definition cb_should_transition_to_half_open :: "circuit_breaker \<Rightarrow> instant \<Rightarrow> bool option" where
  "cb_should_transition_to_half_open b now =
     (if cb_state b \<noteq> Open then Some False
      else case cb_last_failure_time b of
             Some last_at \<Rightarrow> do {
               cooldown \<leftarrow> cb_effective_cooldown b;
               Some (cooldown \<le> elapsed now last_at)
             }
           | None \<Rightarrow> Some True)"

definition cb_can_execute :: "circuit_breaker \<Rightarrow> instant \<Rightarrow> bool option" where
  "cb_can_execute b now =
     (case cb_state b of
        Closed \<Rightarrow> Some True
      | Degraded \<Rightarrow> Some True
      | Open \<Rightarrow> cb_should_transition_to_half_open b now
      | HalfOpen \<Rightarrow> Some True)"

definition cb_get_state :: "circuit_breaker \<Rightarrow> instant \<Rightarrow> circuit_state option" where
  "cb_get_state b now =
     (if cb_state b = Open
      then do {
        half_open \<leftarrow> cb_should_transition_to_half_open b now;
        Some (if half_open then HalfOpen else cb_state b)
      }
      else Some (cb_state b))"

definition cb_reset :: "circuit_breaker \<Rightarrow> circuit_breaker" where
  "cb_reset b =
     b\<lparr>cb_state := Closed, cb_failure_count := 0, cb_success_count := 0,
       cb_open_cycle_count := 0, cb_last_failure_time := None, cb_last_failure_kind := None\<rparr>"

definition cb_transition_to_open :: "circuit_breaker \<Rightarrow> circuit_breaker option" where
  \<comment> \<open>the cooldown is computed for the log line, so its panic is one of this function\<close>
  "cb_transition_to_open b =
     (let b' = b\<lparr>cb_state := Open,
                 cb_open_cycle_count := wrap_add 32 (cb_open_cycle_count b) 1\<rparr>
      in do { cooldown \<leftarrow> cb_effective_cooldown b'; Some b' })"

definition cb_on_success :: "circuit_breaker \<Rightarrow> circuit_breaker" where
  "cb_on_success b0 =
     (let b = b0\<lparr>cb_success_count := wrap_add 32 (cb_success_count b0) 1\<rparr> in
      case cb_state b of
        Open \<Rightarrow> cb_reset b
      | HalfOpen \<Rightarrow> cb_reset b
      | Degraded \<Rightarrow>
          (let b' = b\<lparr>cb_failure_count := cb_failure_count b - 1\<rparr> in
           if cb_failure_count b' \<le> degradation_threshold (cb_config b')
           then b'\<lparr>cb_state := Closed\<rparr> else b')
      | Closed \<Rightarrow> b\<lparr>cb_failure_count := cb_failure_count b - 1\<rparr>)"

definition cb_record_failure :: "circuit_breaker \<Rightarrow> failure_kind \<Rightarrow> instant \<Rightarrow> circuit_breaker" where
  "cb_record_failure b kind now =
     b\<lparr>cb_failure_count := wrap_add 32 (cb_failure_count b) 1,
       cb_last_failure_time := Some now, cb_last_failure_kind := Some kind\<rparr>"

definition cb_on_failure ::
    "circuit_breaker \<Rightarrow> failure_kind \<Rightarrow> instant \<Rightarrow> (circuit_breaker \<times> circuit_state) option" where
  "cb_on_failure b0 kind now =
     (let b = cb_record_failure b0 kind now;
          ret = (\<lambda>r. map_option (\<lambda>x. (x, cb_state x)) r)
      in
      if kind = QuotaExhausted \<and> 1 \<le> cb_failure_count b then ret (cb_transition_to_open b)
      else case cb_state b of
             HalfOpen \<Rightarrow> ret (cb_transition_to_open b)
           | Degraded \<Rightarrow>
               (if failure_threshold (cb_config b) \<le> cb_failure_count b
                then ret (cb_transition_to_open b) else ret (Some b))
           | Closed \<Rightarrow>
               (if failure_threshold (cb_config b) \<le> cb_failure_count b
                then ret (cb_transition_to_open b)
                else if degradation_threshold (cb_config b) \<le> cb_failure_count b
                then ret (Some (b\<lparr>cb_state := Degraded\<rparr>))
                else ret (Some b))
           | Open \<Rightarrow> ret (Some b))"

definition cb_retry_after_ms :: "circuit_breaker \<Rightarrow> instant \<Rightarrow> nat option" where
  "cb_retry_after_ms b now =
     do {
       ok \<leftarrow> cb_can_execute b now;
       if ok then Some 0
       else case cb_last_failure_time b of
              Some last_at \<Rightarrow> do {
                cooldown \<leftarrow> cb_effective_cooldown b;
                Some (if cooldown \<le> elapsed now last_at then 0
                      else as_millis_u64 (cooldown - elapsed now last_at))
              }
            | None \<Rightarrow> map_option as_millis_u64 (cb_effective_cooldown b)
     }"

record circuit_breaker_snapshot =
  cbs_name :: string
  cbs_state :: circuit_state
  cbs_failure_count :: nat
  cbs_open_cycle_count :: nat
  cbs_retry_after_ms :: nat

definition cb_snapshot :: "circuit_breaker \<Rightarrow> instant \<Rightarrow> circuit_breaker_snapshot option" where
  "cb_snapshot b now =
     do {
       st \<leftarrow> cb_get_state b now;
       retry \<leftarrow> cb_retry_after_ms b now;
       Some \<lparr>cbs_name = cb_name b, cbs_state = st, cbs_failure_count = cb_failure_count b,
             cbs_open_cycle_count = cb_open_cycle_count b, cbs_retry_after_ms = retry\<rparr>
     }"

section \<open>The registry\<close>

record circuit_breaker_registry =
  cbr_breakers :: "(string, circuit_breaker) hmap"
  cbr_default_config :: circuit_breaker_config

definition cbr_new :: "circuit_breaker_config \<Rightarrow> circuit_breaker_registry" where
  "cbr_new config = \<lparr>cbr_breakers = [], cbr_default_config = config\<rparr>"

definition cbr_get ::
    "circuit_breaker_registry \<Rightarrow> string \<Rightarrow> circuit_breaker_registry \<times> circuit_breaker" where
  "cbr_get r backend =
     (case hm_get (cbr_breakers r) backend of
        Some b \<Rightarrow> (r, b)
      | None \<Rightarrow>
          (let b = cb_new backend (cbr_default_config r)
           in (r\<lparr>cbr_breakers := hm_insert (cbr_breakers r) backend b\<rparr>, b)))"

definition cbr_can_execute :: "circuit_breaker_registry \<Rightarrow> string \<Rightarrow> instant \<Rightarrow> bool option" where
  "cbr_can_execute r backend now =
     (case hm_get (cbr_breakers r) backend of
        Some b \<Rightarrow> cb_can_execute b now
      | None \<Rightarrow> Some True)"

definition cbr_on_failure ::
    "circuit_breaker_registry \<Rightarrow> string \<Rightarrow> failure_kind \<Rightarrow> instant \<Rightarrow>
     circuit_breaker_registry option" where
  "cbr_on_failure r backend kind now =
     (let (r1, b) = cbr_get r backend in
      do {
        (b', st) \<leftarrow> cb_on_failure b kind now;
        Some (r1\<lparr>cbr_breakers := hm_insert (cbr_breakers r1) backend b'\<rparr>)
      })"

definition cbr_on_success ::
    "circuit_breaker_registry \<Rightarrow> string \<Rightarrow> circuit_breaker_registry" where
  "cbr_on_success r backend =
     (let (r1, b) = cbr_get r backend in
      r1\<lparr>cbr_breakers := hm_insert (cbr_breakers r1) backend (cb_on_success b)\<rparr>)"

fun cb_snapshots :: "(string \<times> circuit_breaker) list \<Rightarrow> instant \<Rightarrow> circuit_breaker_snapshot list option" where
  "cb_snapshots [] now = Some []"
| "cb_snapshots ((k, b) # bs) now =
     do { s \<leftarrow> cb_snapshot b now; ss \<leftarrow> cb_snapshots bs now; Some (s # ss) }"

definition cbr_snapshots ::
    "circuit_breaker_registry \<Rightarrow> instant \<Rightarrow> circuit_breaker_snapshot list option" where
  "cbr_snapshots r now = cb_snapshots (cbr_breakers r) now"

section \<open>Classification of upstream failures\<close>

definition quota_patterns :: "string list" where
  "quota_patterns =
     [''daily'', ''monthly'', ''quota'', ''billing'', ''credit'', ''hard-limit'',
      ''insufficient'', ''payment'', ''usage limit'', ''exceeded daily'', ''exceeded monthly'']"

definition classify_429 :: "string option \<Rightarrow> failure_kind" where
  "classify_429 body =
     (let body_lower = to_lowercase (case body of None \<Rightarrow> '''' | Some t \<Rightarrow> t) in
      if \<exists>p \<in> set quota_patterns. str_contains body_lower p then QuotaExhausted else RateLimit)"

definition classify_failure :: "nat \<Rightarrow> string option \<Rightarrow> failure_kind" where
  "classify_failure status body =
     (if status \<in> {408, 500, 502, 503, 504} then Transient
      else if status = 429 then classify_429 body
      else Transient)"

definition parse_retry_after :: "string \<Rightarrow> duration option" where
  "parse_retry_after value = map_option from_secs (parse_u64 (trim value))"

section \<open>The breaker as a state machine\<close>

datatype cb_event = CbSuccess | CbFailure failure_kind instant

fun cb_apply :: "circuit_breaker \<Rightarrow> cb_event \<Rightarrow> circuit_breaker option" where
  "cb_apply b CbSuccess = Some (cb_on_success b)"
| "cb_apply b (CbFailure kind now) = map_option fst (cb_on_failure b kind now)"

fun cb_run :: "circuit_breaker \<Rightarrow> cb_event list \<Rightarrow> circuit_breaker option" where
  "cb_run b [] = Some b"
| "cb_run b (e # es) = do { b' \<leftarrow> cb_apply b e; cb_run b' es }"

definition cb_step :: "circuit_breaker \<Rightarrow> cb_event \<Rightarrow> circuit_breaker \<Rightarrow> bool" where
  "cb_step b e b' \<longleftrightarrow> cb_apply b e = Some b'"

definition cb_config_ok :: "circuit_breaker_config \<Rightarrow> bool" where
  \<comment> \<open>thresholds in order, and no cooldown multiplication overflows\<close>
  "cb_config_ok c \<longleftrightarrow>
     0 < degradation_threshold c \<and> degradation_threshold c < failure_threshold c \<and>
     failure_threshold c \<le> u32_max \<and>
     reset_timeout c * 64 \<le> duration_max \<and>
     reset_timeout c * max_backoff_multiplier c \<le> duration_max"

definition cb_init :: "circuit_breaker \<Rightarrow> bool" where
  "cb_init b \<longleftrightarrow> (\<exists>n c. cb_config_ok c \<and> b = cb_new n c)"

definition cb_inv :: "circuit_breaker \<Rightarrow> bool" where
  "cb_inv b \<longleftrightarrow>
     cb_config_ok (cb_config b) \<and>
     cb_state b \<noteq> HalfOpen \<and>
     (cb_state b = Closed \<longrightarrow> cb_failure_count b \<le> degradation_threshold (cb_config b)) \<and>
     (cb_state b = Degraded \<longrightarrow>
        degradation_threshold (cb_config b) \<le> cb_failure_count b \<and>
        cb_failure_count b < failure_threshold (cb_config b)) \<and>
     (cb_state b = Open \<longrightarrow> cb_last_failure_time b \<noteq> None) \<and>
     cb_failure_count b \<le> u32_max"

section \<open>Helper lemmas\<close>

lemmas cb_op_defs = cb_on_success_def cb_on_failure_def cb_record_failure_def
  cb_transition_to_open_def cb_reset_def

lemma pow2_min6_le: "(2::nat) ^ min n 6 \<le> 64"
proof -
  have "(2::nat) ^ min n 6 \<le> 2 ^ 6" by (rule power_increasing) simp_all
  then show ?thesis by simp
qed

lemma effective_cooldown_no_panic:
  assumes "cb_config_ok (cb_config b)"
  shows "\<exists>d. cb_effective_cooldown b = Some d"
proof -
  have "reset_timeout (cb_config b) * 2 ^ min n 6 \<le> duration_max" for n
    using assms pow2_min6_le [of n] unfolding cb_config_ok_def
    by (meson le_trans mult_le_mono2)
  then show ?thesis
    using assms by (auto simp: cb_effective_cooldown_def duration_mul_def cb_config_ok_def Let_def
        split: option.split)
qed

lemma transition_to_open_no_panic:
  assumes "cb_config_ok (cb_config b)"
  shows "cb_transition_to_open b =
    Some (b\<lparr>cb_state := Open, cb_open_cycle_count := wrap_add 32 (cb_open_cycle_count b) 1\<rparr>)"
  using effective_cooldown_no_panic
    [of "b\<lparr>cb_state := Open, cb_open_cycle_count := wrap_add 32 (cb_open_cycle_count b) 1\<rparr>"] assms
  by (auto simp: cb_transition_to_open_def)

lemma u32_max_eq: "u32_max = 4294967295"
  by (simp add: u32_max_def)

lemma wrap_add_32_le [simp]: "wrap_add 32 a b \<le> u32_max"
  using wrap_add_bound [of 32 a b] by (simp add: u32_max_eq)

lemma wrap_succ_32: "n < u32_max \<Longrightarrow> wrap_add 32 n 1 = n + 1"
  by (rule wrap_add_exact) (simp add: u32_max_eq)

lemma cb_config_on_success [simp]: "cb_config (cb_on_success b) = cb_config b"
  by (simp add: cb_op_defs Let_def split: circuit_state.split)

lemma cb_on_failure_ok:
  assumes "cb_config_ok (cb_config b)"
  shows "\<exists>b'. cb_on_failure b kind now = Some (b', cb_state b') \<and> cb_config b' = cb_config b \<and>
    cb_last_failure_time b' = Some now \<and> cb_last_failure_kind b' = Some kind \<and>
    cb_failure_count b' = wrap_add 32 (cb_failure_count b) 1"
  using assms
  by (cases "cb_state b")
    (auto simp: cb_on_failure_def cb_record_failure_def transition_to_open_no_panic Let_def)

lemma cb_inv_new: "cb_init b \<Longrightarrow> cb_inv b"
  by (auto simp: cb_init_def cb_inv_def cb_new_def cb_config_ok_def)

lemma cb_inv_on_success: "cb_inv b \<Longrightarrow> cb_inv (cb_on_success b)"
  by (cases "cb_state b") (auto simp: cb_inv_def cb_on_success_def cb_reset_def Let_def)

lemma cb_inv_on_failure:
  assumes "cb_inv b" and "cb_on_failure b kind now = Some (b', st)"
  shows "cb_inv b'"
proof -
  have cfg: "cb_config_ok (cb_config b)" using assms(1) by (simp add: cb_inv_def)
  have succ: "cb_failure_count b < failure_threshold (cb_config b) \<Longrightarrow>
      wrap_add 32 (cb_failure_count b) 1 = cb_failure_count b + 1"
    using cfg by (intro wrap_succ_32) (simp add: cb_config_ok_def)
  show ?thesis
    using assms cfg succ
    by (cases "cb_state b")
      (auto simp: cb_inv_def cb_on_failure_def cb_record_failure_def transition_to_open_no_panic
        Let_def cb_config_ok_def split: if_splits)
qed

lemma cb_step_inv: "cb_inv b \<Longrightarrow> cb_step b e b' \<Longrightarrow> cb_inv b'"
  by (cases e) (auto simp: cb_step_def intro: cb_inv_on_success cb_inv_on_failure)

interpretation cb_sys: invariant_system cb_init cb_step cb_inv
  by unfold_locales (auto intro: cb_inv_new cb_step_inv)

lemma cb_run_append: "cb_run b (es @ fs) = Option.bind (cb_run b es) (\<lambda>b'. cb_run b' fs)"
  by (induction es arbitrary: b) (auto simp: Option.bind_eq_None_conv split: Option.bind_split)

lemma cb_run_reachable:
  "reachable cb_init cb_step b \<Longrightarrow> cb_run b es = Some b' \<Longrightarrow> reachable cb_init cb_step b'"
proof (induction es arbitrary: b)
  case Nil
  then show ?case by simp
next
  case (Cons e es)
  then obtain b1 where "cb_apply b e = Some b1" and "cb_run b1 es = Some b'"
    by (auto split: Option.bind_splits)
  then show ?case using Cons.IH [of b1] Cons.prems(1)
    by (auto simp: cb_step_def intro: reachable.reach_step)
qed

subsection \<open>Runs of failures\<close>

definition cb_after :: "circuit_breaker_config \<Rightarrow> nat \<Rightarrow> circuit_breaker \<Rightarrow> bool" where
  "cb_after c m b \<longleftrightarrow>
     cb_config b = c \<and> cb_failure_count b = m \<and>
     cb_state b = (if failure_threshold c \<le> m then Open
                   else if degradation_threshold c \<le> m then Degraded else Closed)"

lemma cb_after_failure:
  assumes "cb_config_ok c" and "cb_after c m b" and "kind \<noteq> QuotaExhausted" and "m < u32_max"
  shows "\<exists>b'. cb_apply b (CbFailure kind now) = Some b' \<and> cb_after c (Suc m) b'"
proof -
  have cfg: "cb_config_ok (cb_config b)" using assms(1,2) by (simp add: cb_after_def)
  have "wrap_add 32 (cb_failure_count b) 1 = Suc m"
    using assms(2,4) wrap_succ_32 by (simp add: cb_after_def)
  then show ?thesis
    using assms cfg
    by (auto simp: cb_after_def cb_on_failure_def cb_record_failure_def transition_to_open_no_panic
        Let_def cb_config_ok_def split: if_splits)
qed

lemma cb_after_failures:
  assumes "cb_config_ok c" and "cb_after c m b" and "m + length fs \<le> u32_max"
    and "\<forall>(k, t) \<in> set fs. k \<noteq> QuotaExhausted"
  shows "\<exists>b'. cb_run b (map (\<lambda>(k, t). CbFailure k t) fs) = Some b' \<and> cb_after c (m + length fs) b'"
  using assms(2-)
proof (induction fs arbitrary: m b)
  case Nil
  then show ?case by simp
next
  case (Cons f fs)
  obtain k t where f: "f = (k, t)" by force
  have "k \<noteq> QuotaExhausted" and "m < u32_max" using Cons.prems f by auto
  then obtain b1 where "cb_apply b (CbFailure k t) = Some b1" and "cb_after c (Suc m) b1"
    using cb_after_failure [OF assms(1) Cons.prems(1)] by blast
  then show ?case using Cons.IH [of "Suc m" b1] Cons.prems f by auto
qed

subsection \<open>Runs without quota failures\<close>

definition cb_calm :: "circuit_breaker_config \<Rightarrow> circuit_breaker \<Rightarrow> bool" where
  "cb_calm c b \<longleftrightarrow>
     cb_config b = c \<and> cb_state b \<noteq> HalfOpen \<and> cb_open_cycle_count b \<le> 1 \<and>
     (cb_state b \<noteq> Open \<longrightarrow> cb_open_cycle_count b = 0)"

fun is_quota_failure :: "cb_event \<Rightarrow> bool" where
  "is_quota_failure (CbFailure kind now) = (kind = QuotaExhausted)"
| "is_quota_failure CbSuccess = False"

lemma cb_calm_apply:
  assumes "cb_config_ok c" and "cb_calm c b" and "\<not> is_quota_failure e"
  shows "\<exists>b'. cb_apply b e = Some b' \<and> cb_calm c b'"
proof (cases e)
  case CbSuccess
  then show ?thesis using assms
    by (cases "cb_state b") (auto simp: cb_calm_def cb_on_success_def cb_reset_def Let_def)
next
  case (CbFailure k t)
  moreover have "cb_config_ok (cb_config b)" using assms(1,2) by (simp add: cb_calm_def)
  ultimately show ?thesis using assms
    by (cases "cb_state b") (auto simp: cb_calm_def cb_on_failure_def cb_record_failure_def
        transition_to_open_no_panic wrap_add_def Let_def)
qed

lemma cb_calm_run:
  assumes "cb_config_ok c" and "cb_calm c b" and "\<forall>e \<in> set es. \<not> is_quota_failure e"
  shows "\<exists>b'. cb_run b es = Some b' \<and> cb_calm c b'"
  using assms(2,3)
proof (induction es arbitrary: b)
  case Nil
  then show ?case by simp
next
  case (Cons e es)
  then obtain b1 where "cb_apply b e = Some b1" and "cb_calm c b1"
    using cb_calm_apply [OF assms(1)] by (metis list.set_intros(1))
  then show ?case using Cons.IH [of b1] Cons.prems by auto
qed

lemma cb_calm_new: "cb_calm c (cb_new n c)"
  by (simp add: cb_calm_def cb_new_def)

subsection \<open>Recovery\<close>

lemma cb_success_degraded:
  "cb_state b = Degraded \<Longrightarrow>
   cb_failure_count (cb_on_success b) = cb_failure_count b - 1 \<and>
   cb_state (cb_on_success b) =
     (if cb_failure_count b - 1 \<le> degradation_threshold (cb_config b) then Closed else Degraded)"
  by (simp add: cb_on_success_def Let_def)

lemma cb_success_closed: "cb_state b = Closed \<Longrightarrow> cb_state (cb_on_success b) = Closed"
  by (simp add: cb_on_success_def Let_def)

lemma cb_successes_closed:
  "cb_state b = Closed \<Longrightarrow> \<exists>b'. cb_run b (replicate k CbSuccess) = Some b' \<and> cb_state b' = Closed"
  by (induction k arbitrary: b) (auto simp: cb_success_closed)

lemma cb_successes_degraded:
  assumes "cb_state b = Degraded" and "d = degradation_threshold (cb_config b)"
  shows "\<exists>b'. cb_run b (replicate k CbSuccess) = Some b' \<and>
    cb_state b' = (if k < max 1 (cb_failure_count b - d) then Degraded else Closed)"
  using assms
proof (induction k arbitrary: b)
  case 0
  then show ?case by simp
next
  case (Suc k)
  note s = cb_success_degraded [OF Suc.prems(1)]
  show ?case
  proof (cases "cb_failure_count b - 1 \<le> d")
    case True
    then have "cb_state (cb_on_success b) = Closed" using s Suc.prems by simp
    moreover have "max 1 (cb_failure_count b - d) = 1" using True by simp
    ultimately show ?thesis using cb_successes_closed [of "cb_on_success b" k] by auto
  next
    case False
    then have deg: "cb_state (cb_on_success b) = Degraded" using s Suc.prems by simp
    have "max 1 (cb_failure_count (cb_on_success b) - d) = cb_failure_count b - d - 1"
      using False s by simp
    then show ?thesis using Suc.IH [OF deg] Suc.prems False by auto
  qed
qed

section \<open>Properties\<close>

text \<open>
  C26. In every reachable breaker the stored state agrees with the failure counter: HALF_OPEN is
  never stored, a closed breaker has at most \<^const>\<open>degradation_threshold\<close> failures, a degraded
  one lies between the two thresholds, and an open one has a failure time.
\<close>

theorem circuit_state_matches_failures:
  assumes "reachable cb_init cb_step b"
  shows "cb_state b \<noteq> HalfOpen \<and>
    (cb_state b = Closed \<longrightarrow> cb_failure_count b \<le> degradation_threshold (cb_config b)) \<and>
    (cb_state b = Degraded \<longrightarrow> degradation_threshold (cb_config b) \<le> cb_failure_count b \<and>
       cb_failure_count b < failure_threshold (cb_config b)) \<and>
    (cb_state b = Open \<longrightarrow> cb_last_failure_time b \<noteq> None)"
  using cb_sys.reachable_inv [OF assms] by (simp add: cb_inv_def)

lemma default_config_ok: "cb_config_ok default_circuit_breaker_config"
  by (simp add: cb_config_ok_def default_circuit_breaker_config_def u32_max_def duration_max_def
      u64_max_def from_secs_def nanos_per_sec_def)

lemma reachable_new: "cb_config_ok c \<Longrightarrow> reachable cb_init cb_step (cb_new n c)"
  by (rule reachable.reach_init) (auto simp: cb_init_def)

theorem circuit_state_matches_failures_witness:
  "\<exists>b. cb_run (cb_new ''b'' default_circuit_breaker_config) [CbFailure Transient 1, CbFailure QuotaExhausted 2] = Some b \<and>
     cb_state b = Open \<and> cb_last_failure_time b \<noteq> None"
proof -
  let ?b0 = "cb_new ''b'' default_circuit_breaker_config"
  let ?es = "[CbFailure Transient 1, CbFailure QuotaExhausted 2]"
  have "case cb_run ?b0 ?es of Some b \<Rightarrow> cb_state b = Open | None \<Rightarrow> False"
    by (simp add: cb_on_failure_def cb_record_failure_def cb_transition_to_open_def cb_effective_cooldown_def
        cb_kind_cooldown_def cb_new_def default_circuit_breaker_config_def duration_mul_def duration_max_def
        from_secs_def nanos_per_sec_def wrap_add_def sat_add_def u32_max_def u64_max_def Let_def)
  then obtain b where b: "cb_run ?b0 ?es = Some b" "cb_state b = Open" by (auto split: option.splits)
  then show ?thesis
    using circuit_state_matches_failures [OF cb_run_reachable [OF reachable_new [OF default_config_ok] b(1)]] by auto
qed

text \<open>
  From a new breaker, \<open>n\<close> consecutive failures that are not quota failures, at any times, leave
  it closed below the degradation threshold, degraded below the failure threshold and open from
  there on, with the counter at \<open>n\<close>; no operation panics.
\<close>

theorem consecutive_failures_determine_state:
  assumes "cb_config_ok c" and "length fs \<le> u32_max"
    and "\<forall>(k, t) \<in> set fs. k \<noteq> QuotaExhausted"
  shows "\<exists>b. cb_run (cb_new name c) (map (\<lambda>(k, t). CbFailure k t) fs) = Some b \<and>
    cb_failure_count b = length fs \<and>
    cb_state b = (if failure_threshold c \<le> length fs then Open
                  else if degradation_threshold c \<le> length fs then Degraded else Closed)"
proof -
  have "cb_after c 0 (cb_new name c)"
    using assms(1) by (simp add: cb_after_def cb_new_def cb_config_ok_def)
  then show ?thesis
    using cb_after_failures [OF assms(1), of 0 "cb_new name c" fs] assms(2,3)
    by (auto simp: cb_after_def)
qed

theorem consecutive_failures_determine_state_witness:
  "\<exists>b. cb_run (cb_new ''b'' default_circuit_breaker_config)
         (map (\<lambda>(k, t). CbFailure k t) (replicate 12 (Transient, 5))) = Some b \<and>
     cb_failure_count b = 12 \<and> cb_state b = Open"
  using consecutive_failures_determine_state [OF default_config_ok,
      of "replicate 12 (Transient, 5)" "''b''"]
  by (simp add: default_circuit_breaker_config_def u32_max_def)

text \<open>
  The adaptive backoff never escalates. In any run without quota failures (the data plane
  reports none: it classifies with an absent body) the breaker opens at most once before it is
  reset, so with the default escalation count the cooldown is always the base timeout.
\<close>

theorem backoff_never_escalates:
  assumes "cb_config_ok c" and "1 \<le> backoff_escalation_count c" and "cooldown_by_kind c = []"
    and "\<forall>e \<in> set es. \<not> is_quota_failure e"
  shows "\<exists>b. cb_run (cb_new name c) es = Some b \<and> cb_open_cycle_count b \<le> 1 \<and>
    cb_effective_cooldown b = Some (reset_timeout c)"
proof -
  obtain b where "cb_run (cb_new name c) es = Some b" and calm: "cb_calm c b"
    using cb_calm_run [OF assms(1) cb_calm_new assms(4)] by blast
  moreover have "cb_effective_cooldown b = Some (reset_timeout c)"
    using calm assms(2,3)
    by (auto simp: cb_calm_def cb_effective_cooldown_def cb_kind_cooldown_def Let_def
        split: option.split Option.bind_split)
  ultimately show ?thesis using calm by (auto simp: cb_calm_def)
qed

theorem backoff_never_escalates_witness:
  "\<exists>b. cb_run (cb_new ''b'' default_circuit_breaker_config)
         (replicate 100 (CbFailure Transient 9)) = Some b \<and> cb_open_cycle_count b \<le> 1 \<and>
     cb_effective_cooldown b = Some (from_secs 30)"
  using backoff_never_escalates [OF default_config_ok,
      of "replicate 100 (CbFailure Transient 9)" "''b''"]
  by (simp add: default_circuit_breaker_config_def)

text \<open>
  A reachable open breaker lets a request through exactly when its cooldown has passed since
  the last failure, and the retry hint is honest: one millisecond after the hinted delay the
  request is let through.
\<close>

theorem open_breaker_blocks_until_cooldown:
  assumes "reachable cb_init cb_step b" and "cb_state b = Open"
    and "cb_effective_cooldown b = Some d" and "d div 1000000 < 2 ^ 64"
  shows "\<exists>t. cb_last_failure_time b = Some t \<and>
    (\<forall>now. cb_can_execute b now = Some (d = 0 \<or> t + int d \<le> now)) \<and>
    (\<forall>now r. t \<le> now \<longrightarrow> cb_retry_after_ms b now = Some r \<longrightarrow>
       cb_can_execute b (now + (int r + 1) * 1000000) = Some True)"
proof -
  obtain t where t: "cb_last_failure_time b = Some t"
    using cb_sys.reachable_inv [OF assms(1)] assms(2) by (auto simp: cb_inv_def)
  have can: "cb_can_execute b now = Some (d = 0 \<or> t + int d \<le> now)" for now
    using assms(2,3) t
    by (auto simp: cb_can_execute_def cb_should_transition_to_half_open_def elapsed_def)
  have "cb_can_execute b (now + (int r + 1) * 1000000) = Some True"
    if "t \<le> now" and r: "cb_retry_after_ms b now = Some r" for now r
  proof (cases "d = 0 \<or> t + int d \<le> now")
    case True
    then show ?thesis by (auto simp: can)
  next
    case False
    let ?rest = "d - elapsed now t"
    have "?rest div 1000000 \<le> d div 1000000" by (simp add: div_le_mono)
    then have "r = ?rest div 1000000"
      using r False t assms(3,4)
      by (auto simp: cb_retry_after_ms_def can as_millis_u64_def elapsed_def split: if_splits)
    then have "?rest < (r + 1) * 1000000"
      using dividend_less_div_times [of 1000000 ?rest] by simp
    then have "int d - (now - t) < (int r + 1) * 1000000"
      using that(1) False by (auto simp: elapsed_def)
    then show ?thesis by (simp add: can)
  qed
  then show ?thesis using t can by blast
qed

lemma quota_failure_opens:
  "cb_run (cb_new n default_circuit_breaker_config) [CbFailure QuotaExhausted t] =
     Some ((cb_new n default_circuit_breaker_config)
       \<lparr>cb_state := Open, cb_failure_count := 1, cb_open_cycle_count := 1,
        cb_last_failure_time := Some t, cb_last_failure_kind := Some QuotaExhausted\<rparr>)"
  using default_config_ok
  by (simp add: cb_on_failure_def cb_record_failure_def transition_to_open_no_panic cb_new_def
      wrap_add_def Let_def)

theorem open_breaker_blocks_until_cooldown_witness:
  "\<exists>b. cb_run (cb_new ''b'' default_circuit_breaker_config) [CbFailure QuotaExhausted 7] = Some b \<and>
     cb_can_execute b 8 = Some False \<and> cb_can_execute b 30000000007 = Some True"
proof -
  let ?b = "(cb_new ''b'' default_circuit_breaker_config)
       \<lparr>cb_state := Open, cb_failure_count := 1, cb_open_cycle_count := 1,
        cb_last_failure_time := Some 7, cb_last_failure_kind := Some QuotaExhausted\<rparr>"
  have r: "reachable cb_init cb_step ?b"
    by (rule cb_run_reachable [OF reachable_new [OF default_config_ok] quota_failure_opens])
  have "cb_effective_cooldown ?b = Some (from_secs 30)"
    by (simp add: cb_effective_cooldown_def cb_kind_cooldown_def cb_new_def
        default_circuit_breaker_config_def)
  with r show ?thesis
    using open_breaker_blocks_until_cooldown [of ?b "from_secs 30"] quota_failure_opens [of "''b''" 7]
    by (auto simp: from_secs_def nanos_per_sec_def)
qed

text \<open>
  Recovery is gradual: a degraded breaker needs as many successes as its counter exceeds the
  degradation threshold (at least one), is degraded before and closed from then on.
\<close>

theorem degraded_recovers_gradually:
  assumes "cb_state b = Degraded"
  shows "\<exists>b'. cb_run b (replicate k CbSuccess) = Some b' \<and>
    cb_state b' =
      (if k < max 1 (cb_failure_count b - degradation_threshold (cb_config b))
       then Degraded else Closed)"
  using cb_successes_degraded [OF assms] by blast

theorem degraded_recovers_gradually_witness:
  "\<exists>b'. cb_run ((cb_new ''b'' default_circuit_breaker_config)
           \<lparr>cb_state := Degraded, cb_failure_count := 10\<rparr>) (replicate 3 CbSuccess) = Some b' \<and>
     cb_state b' = Closed"
  using degraded_recovers_gradually [of "(cb_new ''b'' default_circuit_breaker_config)
      \<lparr>cb_state := Degraded, cb_failure_count := 10\<rparr>" 3]
  by (simp add: cb_new_def default_circuit_breaker_config_def)

end
