(* ===== verification/ClientLockout.thy ===== *)
theory ClientLockout
  imports Prelude
begin

text \<open>
  The brute-force protection of the authentication path
  (\<^verbatim>\<open>crab-proxy/src/client_lockout.rs\<close>): failed attempts per client identifier in a sliding
  window, and the lock that follows. Shown: enough failures inside the window lock the client for
  the whole lockout duration, too few since the last success never do, and clients do not
  influence each other.
\<close>

section \<open>Configuration and state\<close>

record client_lockout_config =
  cl_max_attempts :: nat
  cl_lockout_duration :: duration
  cl_attempt_window :: duration

definition default_client_lockout_config :: client_lockout_config where
  "default_client_lockout_config =
     \<lparr>cl_max_attempts = 5, cl_lockout_duration = from_secs 900, cl_attempt_window = from_secs 300\<rparr>"

record client_lockout_state =
  cl_attempts :: "instant list"
  cl_locked_until :: "instant option"

record client_lockout_snapshot =
  cls_identifier :: string
  cls_locked_until :: "instant option"
  cls_remaining_ms :: nat
  cls_attempts :: nat

record client_lockout_registry =
  cl_state :: "(string, client_lockout_state) hmap"
  cl_config :: client_lockout_config

record lockout_status =
  ls_locked :: bool
  ls_remaining_ms :: nat
  ls_attempts :: nat

definition cl_new :: "client_lockout_config \<Rightarrow> client_lockout_registry" where
  "cl_new config = \<lparr>cl_state = [], cl_config = config\<rparr>"

section \<open>Operations\<close>

fun pop_older :: "instant \<Rightarrow> instant list \<Rightarrow> instant list" where
  \<comment> \<open>the loop that pops the front of the deque while it is before the window\<close>
  "pop_older w [] = []"
| "pop_older w (t # ts) = (if t < w then pop_older w ts else t # ts)"

definition cl_unlocked :: "nat \<Rightarrow> lockout_status" where
  "cl_unlocked n = \<lparr>ls_locked = False, ls_remaining_ms = 0, ls_attempts = n\<rparr>"

definition cl_check_entry ::
  "client_lockout_config \<Rightarrow> instant \<Rightarrow> client_lockout_state \<Rightarrow> lockout_status \<times> client_lockout_state"
where
  "cl_check_entry cfg now e =
     (let prune = (\<lambda>e. let ts = pop_older (now - int (cl_attempt_window cfg)) (cl_attempts e)
                       in (cl_unlocked (length ts), e\<lparr>cl_attempts := ts\<rparr>))
      in case cl_locked_until e of
           Some until \<Rightarrow>
             if now < until
             then (\<lparr>ls_locked = True, ls_remaining_ms = as_millis_u64 (elapsed until now),
                    ls_attempts = length (cl_attempts e)\<rparr>, e)
             else prune (e\<lparr>cl_locked_until := None, cl_attempts := []\<rparr>)
         | None \<Rightarrow> prune e)"

definition cl_check_lockout ::
  "client_lockout_registry \<Rightarrow> string \<Rightarrow> instant \<Rightarrow> lockout_status \<times> client_lockout_registry"
where
  "cl_check_lockout r identifier now =
     (case hm_get (cl_state r) identifier of
        Some e \<Rightarrow>
          (let (st, e') = cl_check_entry (cl_config r) now e
           in (st, r\<lparr>cl_state := hm_insert (cl_state r) identifier e'\<rparr>))
      | None \<Rightarrow> (cl_unlocked 0, r))"

definition cl_fail_entry ::
  "client_lockout_config \<Rightarrow> instant \<Rightarrow> client_lockout_state \<Rightarrow> lockout_status \<times> client_lockout_state"
where
  "cl_fail_entry cfg now e =
     (let ts = pop_older (now - int (cl_attempt_window cfg)) (cl_attempts e) @ [now];
          e' = e\<lparr>cl_attempts := ts\<rparr>
      in if cl_max_attempts cfg \<le> length ts mod 2 ^ 32
         then (\<lparr>ls_locked = True, ls_remaining_ms = as_millis_u64 (cl_lockout_duration cfg),
                ls_attempts = length ts\<rparr>,
               e'\<lparr>cl_locked_until := Some (now + int (cl_lockout_duration cfg))\<rparr>)
         else (cl_unlocked (length ts), e'))"

definition cl_record_failed_attempt ::
  "client_lockout_registry \<Rightarrow> string \<Rightarrow> instant \<Rightarrow> lockout_status \<times> client_lockout_registry"
where
  "cl_record_failed_attempt r identifier now =
     (let e = (case hm_get (cl_state r) identifier of
                 Some e \<Rightarrow> e
               | None \<Rightarrow> \<lparr>cl_attempts = [], cl_locked_until = None\<rparr>);
          (st, e') = cl_fail_entry (cl_config r) now e
      in (st, r\<lparr>cl_state := hm_insert (cl_state r) identifier e'\<rparr>))"

definition cl_record_success ::
  "client_lockout_registry \<Rightarrow> string \<Rightarrow> client_lockout_registry"
where
  "cl_record_success r identifier = r\<lparr>cl_state := hm_remove (cl_state r) identifier\<rparr>"

definition cl_snapshot_entry ::
  "instant \<Rightarrow> string \<times> client_lockout_state \<Rightarrow> client_lockout_snapshot option"
where
  "cl_snapshot_entry now = (\<lambda>(k, e).
     case cl_locked_until e of
       None \<Rightarrow> None
     | Some until \<Rightarrow>
         if now < until
         then Some \<lparr>cls_identifier = k, cls_locked_until = Some until,
                    cls_remaining_ms = as_millis_u64 (elapsed until now),
                    cls_attempts = length (cl_attempts e)\<rparr>
         else None)"

definition cl_snapshots ::
  "client_lockout_registry \<Rightarrow> instant \<Rightarrow> client_lockout_snapshot list"
where
  "cl_snapshots r now = List.map_filter (cl_snapshot_entry now) (cl_state r)"

section \<open>Histories of operations\<close>

datatype cl_event =
    ClCheck string instant
  | ClFail string instant
  | ClSuccess string

fun cl_apply :: "client_lockout_registry \<Rightarrow> cl_event \<Rightarrow> client_lockout_registry" where
  "cl_apply r (ClCheck i t) = snd (cl_check_lockout r i t)"
| "cl_apply r (ClFail i t) = snd (cl_record_failed_attempt r i t)"
| "cl_apply r (ClSuccess i) = cl_record_success r i"

definition cl_run :: "client_lockout_registry \<Rightarrow> cl_event list \<Rightarrow> client_lockout_registry" where
  "cl_run = foldl cl_apply"

fun cl_event_id :: "cl_event \<Rightarrow> string" where
  "cl_event_id (ClCheck i t) = i"
| "cl_event_id (ClFail i t) = i"
| "cl_event_id (ClSuccess i) = i"

definition cl_failure_times :: "string \<Rightarrow> cl_event list \<Rightarrow> instant list" where
  "cl_failure_times i es =
     List.map_filter (\<lambda>e. case e of ClFail j t \<Rightarrow> if j = i then Some t else None | _ \<Rightarrow> None) es"

fun cl_failures_since_success :: "string \<Rightarrow> cl_event list \<Rightarrow> nat \<Rightarrow> nat" where
  \<comment> \<open>failed attempts of one client since its last success, oldest event first\<close>
  "cl_failures_since_success i [] n = n"
| "cl_failures_since_success i (ClFail j t # es) n =
     cl_failures_since_success i es (if j = i then n + 1 else n)"
| "cl_failures_since_success i (ClSuccess j # es) n =
     cl_failures_since_success i es (if j = i then 0 else n)"
| "cl_failures_since_success i (ClCheck j t # es) n = cl_failures_since_success i es n"

section \<open>Lemmas\<close>

lemma set_pop_older: "set (pop_older w ts) \<subseteq> set ts"
  by (induction ts) auto

lemma length_pop_older: "length (pop_older w ts) \<le> length ts"
  by (induction ts) auto

lemma pop_older_append_recent:
  "\<forall>t \<in> set us. w \<le> t \<Longrightarrow> \<exists>vs. pop_older w (ts @ us) = vs @ us \<and> length vs \<le> length ts"
proof (induction ts)
  case Nil
  then have "pop_older w us = us" by (cases us) auto
  then show ?case by simp
next
  case (Cons t ts)
  show ?case
  proof (cases "t < w")
    case True
    then show ?thesis using Cons by (auto intro: le_SucI)
  next
    case False
    then have "pop_older w ((t # ts) @ us) = (t # ts) @ us" by simp
    then show ?thesis by blast
  qed
qed

lemma cl_apply_config [simp]: "cl_config (cl_apply r e) = cl_config r"
  by (cases e) (auto simp: cl_check_lockout_def cl_record_failed_attempt_def cl_record_success_def
      Let_def split: option.split prod.split)

lemma cl_run_config [simp]: "cl_config (cl_run r es) = cl_config r"
  unfolding cl_run_def by (induction es arbitrary: r) auto

lemma cl_apply_frame:
  "cl_event_id e \<noteq> i \<Longrightarrow> hm_get (cl_state (cl_apply r e)) i = hm_get (cl_state r) i"
  by (cases e) (auto simp: cl_check_lockout_def cl_record_failed_attempt_def cl_record_success_def
      Let_def split: option.split prod.split)

lemma cl_run_Cons: "cl_run r (e # es) = cl_run (cl_apply r e) es"
  by (simp add: cl_run_def)

lemma cl_run_append: "cl_run r (es @ fs) = cl_run (cl_run r es) fs"
  by (simp add: cl_run_def)

definition cl_entry :: "client_lockout_registry \<Rightarrow> string \<Rightarrow> client_lockout_state" where
  "cl_entry r i = (case hm_get (cl_state r) i of
     Some e \<Rightarrow> e | None \<Rightarrow> \<lparr>cl_attempts = [], cl_locked_until = None\<rparr>)"

lemma cl_entry_fail: "cl_entry (cl_apply r (ClFail i t)) i = snd (cl_fail_entry (cl_config r) t (cl_entry r i))"
  by (simp add: cl_entry_def cl_record_failed_attempt_def Let_def split_beta)

lemma cl_entry_frame: "cl_event_id e \<noteq> i \<Longrightarrow> cl_entry (cl_apply r e) i = cl_entry r i"
  by (simp add: cl_entry_def cl_apply_frame)

lemma cl_failure_times_snoc:
  "cl_failure_times i (es @ [e]) =
     cl_failure_times i es @ (case e of ClFail j t \<Rightarrow> if j = i then [t] else [] | _ \<Rightarrow> [])"
  by (cases e) (simp_all add: cl_failure_times_def List.map_filter_def)

lemma fail_entry_keeps_window:
  assumes "cl_attempts e = vs @ ts" and "\<forall>u \<in> set ts. t - int (cl_attempt_window cfg) \<le> u"
  shows "\<exists>vs'. cl_attempts (snd (cl_fail_entry cfg t e)) = vs' @ ts @ [t] \<and> length vs' \<le> length vs"
  using pop_older_append_recent [OF assms(2), of vs] assms(1)
  by (auto simp: cl_fail_entry_def Let_def)

lemma fail_entry_locks:
  assumes "cl_attempts (snd (cl_fail_entry cfg t e)) = us"
    and "cl_max_attempts cfg \<le> length us" and "length us < 2 ^ 32"
  shows "cl_locked_until (snd (cl_fail_entry cfg t e)) = Some (t + int (cl_lockout_duration cfg))"
  using assms by (auto simp: cl_fail_entry_def Let_def split: if_splits)

lemma failures_accumulate:
  assumes "\<forall>e \<in> set es. cl_event_id e = i \<longrightarrow> (\<exists>t. e = ClFail i t)"
    and "\<forall>t \<in> set (cl_failure_times i es). t0 \<le> t \<and> t \<le> t0 + int (cl_attempt_window (cl_config r))"
    and "length (cl_attempts (cl_entry r i)) + length (cl_failure_times i es) < 2 ^ 32"
  shows "\<exists>vs. cl_attempts (cl_entry (cl_run r es) i) = vs @ cl_failure_times i es \<and>
      length vs \<le> length (cl_attempts (cl_entry r i)) \<and>
      (cl_failure_times i es \<noteq> [] \<longrightarrow> cl_max_attempts (cl_config r) \<le> length (cl_failure_times i es) \<longrightarrow>
        cl_locked_until (cl_entry (cl_run r es) i) =
          Some (last (cl_failure_times i es) + int (cl_lockout_duration (cl_config r))))"
  using assms
proof (induction es rule: rev_induct)
  case Nil
  then show ?case by (simp add: cl_run_def cl_failure_times_def List.map_filter_def)
next
  case (snoc e es)
  let ?cfg = "cl_config r" and ?r = "cl_run r es" and ?ts = "cl_failure_times i es"
  obtain vs where vs: "cl_attempts (cl_entry ?r i) = vs @ ?ts"
      "length vs \<le> length (cl_attempts (cl_entry r i))"
    and lk: "?ts \<noteq> [] \<Longrightarrow> cl_max_attempts ?cfg \<le> length ?ts \<Longrightarrow>
        cl_locked_until (cl_entry ?r i) = Some (last ?ts + int (cl_lockout_duration ?cfg))"
    using snoc by (auto simp: cl_failure_times_snoc)
  have run: "cl_run r (es @ [e]) = cl_apply ?r e" by (simp add: cl_run_def)
  show ?case
  proof (cases "cl_event_id e = i")
    case False
    then have "cl_failure_times i (es @ [e]) = ?ts"
      by (auto simp: cl_failure_times_snoc split: cl_event.splits)
    then show ?thesis using vs lk False by (auto simp: run cl_entry_frame)
  next
    case True
    then obtain t where e: "e = ClFail i t" using snoc.prems(1) by auto
    have ts: "cl_failure_times i (es @ [e]) = ?ts @ [t]" by (simp add: cl_failure_times_snoc e)
    have recent: "\<forall>u \<in> set ?ts. t - int (cl_attempt_window ?cfg) \<le> u"
      using snoc.prems(2) by (auto simp: ts)
    obtain vs' where vs': "cl_attempts (snd (cl_fail_entry ?cfg t (cl_entry ?r i))) = vs' @ ?ts @ [t]"
        "length vs' \<le> length vs"
      using fail_entry_keeps_window [OF vs(1) recent] by blast
    have "length (vs' @ ?ts @ [t]) < 2 ^ 32"
      using vs(2) vs'(2) snoc.prems(3) by (simp add: ts)
    then have "cl_max_attempts ?cfg \<le> length (?ts @ [t]) \<Longrightarrow>
        cl_locked_until (snd (cl_fail_entry ?cfg t (cl_entry ?r i))) =
          Some (t + int (cl_lockout_duration ?cfg))"
      using fail_entry_locks [OF vs'(1)] by simp
    moreover have "cl_entry (cl_apply ?r e) i = snd (cl_fail_entry ?cfg t (cl_entry ?r i))"
      by (simp add: e cl_entry_fail del: cl_apply.simps)
    ultimately show ?thesis
      unfolding run ts using vs' vs(2) by (auto intro: exI [of _ vs'])
  qed
qed

lemma check_locked:
  assumes "cl_locked_until (cl_entry r i) = Some u" and "now < u"
  shows "ls_locked (fst (cl_check_lockout r i now))"
  using assms by (auto simp: cl_entry_def cl_check_lockout_def cl_check_entry_def split: option.splits)

lemma check_unlocked:
  "cl_locked_until (cl_entry r i) = None \<Longrightarrow> \<not> ls_locked (fst (cl_check_lockout r i now))"
  by (auto simp: cl_entry_def cl_check_lockout_def cl_check_entry_def cl_unlocked_def Let_def
      split: option.splits)

definition cl_counted :: "nat \<Rightarrow> nat \<Rightarrow> client_lockout_state \<Rightarrow> bool" where
  \<comment> \<open>no more attempts on record than failures counted, no lock below the maximum\<close>
  "cl_counted mx n e \<longleftrightarrow> length (cl_attempts e) \<le> n \<and> (cl_locked_until e \<noteq> None \<longrightarrow> mx \<le> n)"

lemma cl_counted_mono: "cl_counted mx n e \<Longrightarrow> n \<le> m \<Longrightarrow> cl_counted mx m e"
  by (auto simp: cl_counted_def)

lemma cl_counted_check:
  "cl_counted mx n e \<Longrightarrow> cl_counted mx n (snd (cl_check_entry cfg t e))"
  by (auto simp: cl_counted_def cl_check_entry_def Let_def split: option.splits
      intro: le_trans [OF length_pop_older])

lemma cl_counted_fail:
  assumes "cl_counted (cl_max_attempts cfg) n e"
  shows "cl_counted (cl_max_attempts cfg) (n + 1) (snd (cl_fail_entry cfg t e))"
proof -
  let ?ts = "pop_older (t - int (cl_attempt_window cfg)) (cl_attempts e) @ [t]"
  have "length ?ts \<le> n + 1"
    using assms length_pop_older [of "t - int (cl_attempt_window cfg)" "cl_attempts e"]
    by (auto simp: cl_counted_def)
  moreover have "length ?ts mod 2 ^ 32 \<le> length ?ts" by (rule mod_less_eq_dividend)
  ultimately show ?thesis
    using assms by (auto simp: cl_counted_def cl_fail_entry_def Let_def)
qed

lemma cl_counted_apply:
  assumes "cl_counted (cl_max_attempts (cl_config r)) n (cl_entry r i)"
  shows "cl_counted (cl_max_attempts (cl_config r)) (cl_failures_since_success i [e] n)
    (cl_entry (cl_apply r e) i)"
proof (cases e)
  case (ClCheck j t)
  show ?thesis
  proof (cases "j = i")
    case True
    show ?thesis
    proof (cases "hm_get (cl_state r) i")
      case None
      then show ?thesis using assms ClCheck True by (simp add: cl_entry_def cl_check_lockout_def)
    next
      case (Some x)
      then show ?thesis
        using assms ClCheck True cl_counted_check [of "cl_max_attempts (cl_config r)" n x]
        by (simp add: cl_entry_def cl_check_lockout_def Let_def split_beta)
    qed
  next
    case False
    then show ?thesis using assms ClCheck by (simp add: cl_entry_frame del: cl_apply.simps)
  qed
next
  case (ClFail j t)
  then show ?thesis
    using cl_counted_fail [OF assms] assms
    by (cases "j = i") (auto simp: cl_entry_fail cl_entry_frame simp del: cl_apply.simps)
next
  case (ClSuccess j)
  show ?thesis
  proof (cases "j = i")
    case True
    then show ?thesis using ClSuccess
      by (simp add: cl_counted_def cl_entry_def cl_record_success_def)
  next
    case False
    then show ?thesis using assms ClSuccess by (simp add: cl_entry_frame del: cl_apply.simps)
  qed
qed

lemma cl_counted_run:
  "cl_counted (cl_max_attempts (cl_config r)) n (cl_entry r i) \<Longrightarrow>
   cl_counted (cl_max_attempts (cl_config r)) (cl_failures_since_success i es n)
     (cl_entry (cl_run r es) i)"
proof (induction es arbitrary: r n)
  case Nil
  then show ?case by (simp add: cl_run_def)
next
  case (Cons e es)
  have "cl_failures_since_success i (e # es) n =
      cl_failures_since_success i es (cl_failures_since_success i [e] n)"
    by (cases e) auto
  then show ?case
    using Cons.IH [of "cl_apply r e"] cl_counted_apply [OF Cons.prems, of e]
    by (simp add: cl_run_Cons del: cl_apply.simps)
qed

section \<open>Properties\<close>

text \<open>
  Brute-force protection is complete: as soon as the failed attempts of a client that fall in one
  attempt window reach the maximum, whatever the other clients do in between, every check before
  the end of the lockout duration (counted from the last failure) reports the client locked.
\<close>

theorem lockout_after_max_attempts:
  assumes "\<forall>e \<in> set es. cl_event_id e = i \<longrightarrow> (\<exists>t. e = ClFail i t)"
    and "\<forall>t \<in> set (cl_failure_times i es). t0 \<le> t \<and> t \<le> t0 + int (cl_attempt_window (cl_config r))"
    and "cl_failure_times i es \<noteq> []"
    and "cl_max_attempts (cl_config r) \<le> length (cl_failure_times i es)"
    and "length (cl_attempts (cl_entry r i)) + length (cl_failure_times i es) < 2 ^ 32"
    and "now < last (cl_failure_times i es) + int (cl_lockout_duration (cl_config r))"
  shows "ls_locked (fst (cl_check_lockout (cl_run r es) i now))"
  using failures_accumulate [OF assms(1,2,5)] assms(3,4,6) by (auto intro: check_locked)

theorem lockout_after_max_attempts_witness:
  "ls_locked (fst (cl_check_lockout
     (cl_run (cl_new default_client_lockout_config)
       [ClFail ''a'' 0, ClFail ''a'' 1, ClSuccess ''b'', ClFail ''a'' 2, ClFail ''a'' 3, ClFail ''a'' 4])
     ''a'' 900000000003))"
  by (rule lockout_after_max_attempts [where ?t0.0 = 0])
    (auto simp: default_client_lockout_config_def cl_new_def cl_entry_def cl_failure_times_def
      List.map_filter_def from_secs_def nanos_per_sec_def)

text \<open>
  Brute-force protection is sound: a client with fewer failed attempts since its last success
  than the maximum is never reported locked, whatever history the registry has.
\<close>

theorem no_lockout_below_max_attempts:
  assumes "cl_failures_since_success i es 0 < cl_max_attempts cfg"
  shows "\<not> ls_locked (fst (cl_check_lockout (cl_run (cl_new cfg) es) i now))"
proof -
  have "cl_counted (cl_max_attempts cfg) 0 (cl_entry (cl_new cfg) i)"
    by (simp add: cl_counted_def cl_entry_def cl_new_def)
  then have "cl_counted (cl_max_attempts cfg) (cl_failures_since_success i es 0)
      (cl_entry (cl_run (cl_new cfg) es) i)"
    using cl_counted_run [of "cl_new cfg" 0 i es] by (simp add: cl_new_def)
  then show ?thesis using assms by (auto simp: cl_counted_def intro!: check_unlocked)
qed

theorem no_lockout_below_max_attempts_witness:
  "\<not> ls_locked (fst (cl_check_lockout (cl_run (cl_new default_client_lockout_config)
     [ClFail ''a'' 0, ClFail ''a'' 1, ClFail ''a'' 2, ClFail ''a'' 3, ClSuccess ''a'', ClFail ''a'' 4])
     ''a'' 5))"
  by (rule no_lockout_below_max_attempts) (simp add: default_client_lockout_config_def)

end
