(* ===== verification/ModelLockout.thy ===== *)
theory ModelLockout
  imports Prelude
begin

text \<open>
  The per-model lockout registry (\<^verbatim>\<open>crab-proxy/src/model_lockout.rs\<close>): cooldowns per
  profile, backend and model with stepwise backoff, and locks until the next UTC midnight. Shown:
  how long a recorded failure locks a model, how repeated failures climb the backoff steps, and
  that cleaning up never unlocks anything.
\<close>

section \<open>State\<close>

definition lockout_backoff_steps :: "nat list" where
  "lockout_backoff_steps = [60, 120, 300, 600, 1200]"

record model_lockout_entry =
  ml_reason :: string
  ml_until :: instant
  ml_locked_at :: instant
  ml_failure_count :: nat
  ml_reset_after :: duration

record model_lockout_snapshot =
  mls_key :: string
  mls_reason :: string
  mls_remaining_ms :: nat
  mls_failure_count :: nat

record failure_state =
  fs_failure_count :: nat
  fs_last_failure_at :: instant
  fs_reset_after :: duration

record model_lockout_registry =
  ml_locks :: "(string, model_lockout_entry) hmap"
  ml_failure_states :: "(string, failure_state) hmap"

definition ml_new :: model_lockout_registry where
  "ml_new = \<lparr>ml_locks = [], ml_failure_states = []\<rparr>"

section \<open>Operations\<close>

definition lockout_key :: "string \<Rightarrow> string \<Rightarrow> string \<Rightarrow> string" where
  "lockout_key profile backend model = profile @ '':'' @ backend @ '':'' @ model"

definition ml_is_locked ::
  "model_lockout_registry \<Rightarrow> string \<Rightarrow> string \<Rightarrow> string \<Rightarrow> instant \<Rightarrow> bool \<times> model_lockout_registry"
where
  "ml_is_locked r profile backend model now =
     (let key = lockout_key profile backend model
      in case hm_get (ml_locks r) key of
           Some e \<Rightarrow>
             if now < ml_until e then (True, r)
             else (False, r\<lparr>ml_locks := hm_remove (ml_locks r) key\<rparr>)
         | None \<Rightarrow> (False, r))"

definition ml_count_failure :: "instant \<Rightarrow> failure_state \<Rightarrow> failure_state" where
  "ml_count_failure now st =
     (let n = (if fs_reset_after st < elapsed now (fs_last_failure_at st) then 0
               else fs_failure_count st)
      in st\<lparr>fs_failure_count := wrap_add 32 n 1, fs_last_failure_at := now\<rparr>)"

definition ml_cooldown_secs :: "nat \<Rightarrow> nat \<Rightarrow> nat" where
  "ml_cooldown_secs failure_count max_backoff_level =
     (let backoff_idx = min (wrap_sub 32 failure_count 1) (max_backoff_level mod 2 ^ 32);
          step_idx = min backoff_idx (length lockout_backoff_steps - 1)
      in lockout_backoff_steps ! step_idx)"

definition ml_record_failure ::
  "model_lockout_registry \<Rightarrow> string \<Rightarrow> string \<Rightarrow> string \<Rightarrow> string \<Rightarrow> duration \<Rightarrow> nat \<Rightarrow> instant
     \<Rightarrow> model_lockout_registry"
where
  "ml_record_failure r profile backend model reason base_cooldown max_backoff_level now =
     (let key = lockout_key profile backend model;
          st0 = \<lparr>fs_failure_count = 0, fs_last_failure_at = now, fs_reset_after = base_cooldown\<rparr>;
          states = hm_upsert (ml_failure_states r) key st0 (ml_count_failure now);
          failure_count = (case hm_get states key of Some st \<Rightarrow> fs_failure_count st | None \<Rightarrow> 0);
          until = now + int (from_secs (ml_cooldown_secs failure_count max_backoff_level));
          r' = r\<lparr>ml_failure_states := states\<rparr>;
          entry = \<lparr>ml_reason = reason, ml_until = until, ml_locked_at = now,
                   ml_failure_count = failure_count, ml_reset_after = base_cooldown\<rparr>
      in case hm_get (ml_locks r) key of
           Some e \<Rightarrow>
             if until < ml_until e then r'
             else r'\<lparr>ml_locks := hm_insert (ml_locks r) key entry\<rparr>
         | None \<Rightarrow> r'\<lparr>ml_locks := hm_insert (ml_locks r) key entry\<rparr>)"

definition next_midnight_utc :: "nat \<Rightarrow> instant \<Rightarrow> instant" where
  \<comment> \<open>the system clock in seconds since the epoch, and the monotonic clock\<close>
  "next_midnight_utc unix_secs now =
     (let next_midnight = (unix_secs div 86400 + 1) * 86400;
          remaining = next_midnight - unix_secs
      in now + int (from_secs remaining))"

definition ml_lock_until_midnight ::
  "model_lockout_registry \<Rightarrow> string \<Rightarrow> string \<Rightarrow> string \<Rightarrow> string \<Rightarrow> nat \<Rightarrow> instant
     \<Rightarrow> model_lockout_registry"
where
  "ml_lock_until_midnight r profile backend model reason unix_secs now =
     r\<lparr>ml_locks := hm_insert (ml_locks r) (lockout_key profile backend model)
        \<lparr>ml_reason = reason, ml_until = next_midnight_utc unix_secs now, ml_locked_at = now,
         ml_failure_count = 1, ml_reset_after = from_secs 1800\<rparr>\<rparr>"

definition ml_clear ::
  "model_lockout_registry \<Rightarrow> string \<Rightarrow> string \<Rightarrow> string \<Rightarrow> model_lockout_registry"
where
  "ml_clear r profile backend model =
     (let key = lockout_key profile backend model
      in r\<lparr>ml_locks := hm_remove (ml_locks r) key,
           ml_failure_states := hm_remove (ml_failure_states r) key\<rparr>)"

definition ml_snapshots :: "model_lockout_registry \<Rightarrow> instant \<Rightarrow> model_lockout_snapshot list" where
  "ml_snapshots r now =
     map (\<lambda>(k, e). \<lparr>mls_key = k, mls_reason = ml_reason e,
                     mls_remaining_ms = as_millis_u64 (elapsed (ml_until e) now),
                     mls_failure_count = ml_failure_count e\<rparr>)
       (filter (\<lambda>(k, e). now < ml_until e) (ml_locks r))"

definition ml_cleanup :: "model_lockout_registry \<Rightarrow> instant \<Rightarrow> model_lockout_registry option" where
  \<comment> \<open>\<open>None\<close> when doubling a reset duration overflows and panics\<close>
  "ml_cleanup r now =
     (if \<exists>(k, st) \<in> set (ml_failure_states r). duration_mul (fs_reset_after st) 2 = None then None
      else Some
        \<lparr>ml_locks = hm_retain (\<lambda>k e. now < ml_until e) (ml_locks r),
         ml_failure_states =
           hm_retain (\<lambda>k st. elapsed now (fs_last_failure_at st) \<le> fs_reset_after st * 2)
             (ml_failure_states r)\<rparr>)"

section \<open>Lemmas\<close>

definition ml_failures :: "model_lockout_registry \<Rightarrow> string \<Rightarrow> nat" where
  "ml_failures r key = (case hm_get (ml_failure_states r) key of
     Some st \<Rightarrow> fs_failure_count st | None \<Rightarrow> 0)"

definition ml_locked_at_time :: "model_lockout_registry \<Rightarrow> string \<Rightarrow> instant \<Rightarrow> bool" where
  "ml_locked_at_time r key now =
     (case hm_get (ml_locks r) key of Some e \<Rightarrow> now < ml_until e | None \<Rightarrow> False)"

lemma ml_is_locked_result: "fst (ml_is_locked r p b m now) = ml_locked_at_time r (lockout_key p b m) now"
  by (simp add: ml_is_locked_def ml_locked_at_time_def Let_def split: option.split)

lemma ml_record_failure_states:
  "ml_failure_states (ml_record_failure r p b m why base lvl now) =
     hm_upsert (ml_failure_states r) (lockout_key p b m)
       \<lparr>fs_failure_count = 0, fs_last_failure_at = now, fs_reset_after = base\<rparr>
       (ml_count_failure now)"
  by (simp add: ml_record_failure_def Let_def split: option.split)

lemma ml_record_failure_locked:
  "ml_locked_at_time (ml_record_failure r p b m why base lvl t) k now \<longleftrightarrow>
     ml_locked_at_time r k now \<or>
     k = lockout_key p b m \<and>
     now < t + int (from_secs (ml_cooldown_secs
       (ml_failures (ml_record_failure r p b m why base lvl t) k) lvl))"
  by (auto simp: ml_failures_def ml_record_failure_states ml_locked_at_time_def
      ml_record_failure_def Let_def split: option.splits if_splits)

lemma nth_backoff_ge: "k < 5 \<Longrightarrow> 60 \<le> lockout_backoff_steps ! k \<and> lockout_backoff_steps ! k \<le> 1200"
  by (auto simp: lockout_backoff_steps_def less_Suc_eq numeral_eq_Suc)

lemma ml_cooldown_bounds: "60 \<le> ml_cooldown_secs n lvl \<and> ml_cooldown_secs n lvl \<le> 1200"
  unfolding ml_cooldown_secs_def Let_def
  by (rule nth_backoff_ge) (simp add: lockout_backoff_steps_def min_def)

lemma last_step_index: "length lockout_backoff_steps - 1 = 4"
  by (simp add: lockout_backoff_steps_def)

lemma ml_cooldown_eq:
  assumes "0 < n" and "n < 2 ^ 32" and "lvl < 2 ^ 32"
  shows "ml_cooldown_secs n lvl = lockout_backoff_steps ! min (n - 1) (min lvl 4)"
proof -
  have "wrap_sub 32 n 1 = n - 1" using assms by (intro wrap_sub_exact) auto
  then show ?thesis using assms
    unfolding ml_cooldown_secs_def last_step_index by (simp add: min.assoc)
qed

fun ml_record_failures ::
  "model_lockout_registry \<Rightarrow> string \<Rightarrow> string \<Rightarrow> string \<Rightarrow> string \<Rightarrow> duration \<Rightarrow> nat \<Rightarrow> instant list
     \<Rightarrow> model_lockout_registry"
where
  "ml_record_failures r p b m why base lvl [] = r"
| "ml_record_failures r p b m why base lvl (t # ts) =
     ml_record_failures (ml_record_failure r p b m why base lvl t) p b m why base lvl ts"

fun ml_burst :: "duration \<Rightarrow> instant list \<Rightarrow> bool" where
  \<comment> \<open>consecutive failures at most the reset duration apart\<close>
  "ml_burst d (t # u # ts) = (t \<le> u \<and> elapsed u t \<le> d \<and> ml_burst d (u # ts))"
| "ml_burst d ts = True"

lemma ml_count_first:
  assumes "hm_get (ml_failure_states r) (lockout_key p b m) = None"
  shows "hm_get (ml_failure_states (ml_record_failure r p b m why base lvl t)) (lockout_key p b m) =
    Some \<lparr>fs_failure_count = 1, fs_last_failure_at = t, fs_reset_after = base\<rparr>"
  using assms by (simp add: ml_record_failure_states ml_count_failure_def wrap_add_def)

lemma ml_count_next:
  assumes "hm_get (ml_failure_states r) (lockout_key p b m) =
      Some \<lparr>fs_failure_count = n, fs_last_failure_at = t, fs_reset_after = base\<rparr>"
    and "elapsed u t \<le> base" and "n + 1 < 2 ^ 32"
  shows "hm_get (ml_failure_states (ml_record_failure r p b m why base lvl u)) (lockout_key p b m) =
    Some \<lparr>fs_failure_count = n + 1, fs_last_failure_at = u, fs_reset_after = base\<rparr>"
  using assms by (simp add: ml_record_failure_states ml_count_failure_def wrap_add_exact)

lemma ml_burst_count:
  assumes "hm_get (ml_failure_states r) (lockout_key p b m) =
      Some \<lparr>fs_failure_count = n, fs_last_failure_at = t, fs_reset_after = base\<rparr>"
    and "ml_burst base (t # ts)" and "n + length ts < 2 ^ 32"
  shows "hm_get (ml_failure_states (ml_record_failures r p b m why base lvl ts)) (lockout_key p b m) =
    Some \<lparr>fs_failure_count = n + length ts, fs_last_failure_at = last (t # ts), fs_reset_after = base\<rparr>"
  using assms
proof (induction ts arbitrary: r n t)
  case Nil
  then show ?case by simp
next
  case (Cons u ts)
  have "hm_get (ml_failure_states (ml_record_failure r p b m why base lvl u)) (lockout_key p b m) =
      Some \<lparr>fs_failure_count = n + 1, fs_last_failure_at = u, fs_reset_after = base\<rparr>"
    using Cons.prems by (intro ml_count_next) auto
  then show ?case
    using Cons.IH [of "ml_record_failure r p b m why base lvl u" "n + 1" u] Cons.prems by auto
qed

lemma ml_record_failures_append:
  "ml_record_failures r p b m why base lvl (ts @ us) =
     ml_record_failures (ml_record_failures r p b m why base lvl ts) p b m why base lvl us"
  by (induction ts arbitrary: r) auto

lemma lockout_key_inject:
  assumes "CHR '':'' \<notin> set p \<union> set b \<union> set p' \<union> set b'"
  shows "lockout_key p b m = lockout_key p' b' m' \<longleftrightarrow> p = p' \<and> b = b' \<and> m = m'"
  using assms unfolding lockout_key_def by (auto dest: colon_split)

lemma cleanup_keeps_locks:
  assumes "hm_wf (ml_locks r)" and "ml_cleanup r t = Some r'" and "t \<le> now"
  shows "fst (ml_is_locked r' p b m now) = fst (ml_is_locked r p b m now)"
proof -
  have "ml_locks r' = hm_retain (\<lambda>k e. t < ml_until e) (ml_locks r)"
    using assms(2) by (auto simp: ml_cleanup_def split: if_splits)
  then show ?thesis using assms(1,3)
    by (auto simp: ml_is_locked_result ml_locked_at_time_def hm_get_retain split: option.splits)
qed

section \<open>Properties\<close>

text \<open>
  A recorded failure locks exactly the model it names, for the backoff step of its failure
  count (between one and twenty minutes), and never shortens a lock: afterwards a model is locked
  at a time iff it was locked before or it is the failing model and its cooldown still runs.
\<close>

theorem model_failure_lock:
  assumes "CHR '':'' \<notin> set p \<union> set b \<union> set p' \<union> set b'"
  shows "\<exists>secs. 60 \<le> secs \<and> secs \<le> 1200 \<and>
    secs = ml_cooldown_secs
      (ml_failures (ml_record_failure r p b m why base lvl t) (lockout_key p b m)) lvl \<and>
    (fst (ml_is_locked (ml_record_failure r p b m why base lvl t) p' b' m' now) \<longleftrightarrow>
       fst (ml_is_locked r p' b' m' now) \<or>
       (p' = p \<and> b' = b \<and> m' = m \<and> now < t + int (from_secs secs)))"
proof -
  have "lockout_key p' b' m' = lockout_key p b m \<longleftrightarrow> p' = p \<and> b' = b \<and> m' = m"
    using assms by (intro lockout_key_inject) auto
  then show ?thesis
    by (auto simp: ml_is_locked_result ml_record_failure_locked ml_cooldown_bounds)
qed

theorem model_failure_lock_witness:
  "\<exists>secs. 60 \<le> secs \<and> secs \<le> 1200 \<and>
    secs = ml_cooldown_secs
      (ml_failures (ml_record_failure ml_new ''p'' ''b'' ''m:1'' ''x'' 0 4 0)
        (lockout_key ''p'' ''b'' ''m:1'')) 4 \<and>
    (fst (ml_is_locked (ml_record_failure ml_new ''p'' ''b'' ''m:1'' ''x'' 0 4 0) ''p'' ''b'' ''m:1'' 9) \<longleftrightarrow>
       fst (ml_is_locked ml_new ''p'' ''b'' ''m:1'' 9) \<or>
       (''p'' = ''p'' \<and> ''b'' = ''b'' \<and> ''m:1'' = ''m:1'' \<and> 9 < 0 + int (from_secs secs)))"
  by (rule model_failure_lock) simp

text \<open>
  Repeated failures of one model, each at most the reset duration after the one before, climb
  the backoff steps: after \<open>k\<close> of them the model stays locked for at least the step
  \<open>min (k - 1) level\<close>, where the fifth step is the last.
\<close>

theorem failure_burst_climbs_steps:
  assumes "hm_get (ml_failure_states r) (lockout_key p b m) = None"
    and "ts \<noteq> []" and "ml_burst base ts" and "length ts < 2 ^ 32" and "lvl < 2 ^ 32"
    and "now < last ts +
      int (from_secs (lockout_backoff_steps ! min (length ts - 1) (min lvl 4)))"
  shows "fst (ml_is_locked (ml_record_failures r p b m why base lvl ts) p b m now)"
proof -
  let ?k = "lockout_key p b m"
  obtain t us where ts: "ts = t # us" using assms(2) by (cases ts) auto
  have fin: "hm_get (ml_failure_states (ml_record_failures r p b m why base lvl ts)) ?k =
      Some \<lparr>fs_failure_count = length ts, fs_last_failure_at = last ts, fs_reset_after = base\<rparr>"
    using ml_burst_count [OF ml_count_first [OF assms(1)], where ts = us] assms(3,4)
    by (simp add: ts)
  obtain vs u where vs: "ts = vs @ [u]" using assms(2) by (cases ts rule: rev_cases) auto
  have "ml_failures (ml_record_failures r p b m why base lvl ts) ?k = length ts"
    using fin by (simp add: ml_failures_def)
  moreover have "ml_record_failures r p b m why base lvl ts =
      ml_record_failure (ml_record_failures r p b m why base lvl vs) p b m why base lvl u"
    by (simp add: vs ml_record_failures_append)
  moreover have "ml_cooldown_secs (length ts) lvl = lockout_backoff_steps ! min (length ts - 1) (min lvl 4)"
    using assms by (intro ml_cooldown_eq) auto
  ultimately show ?thesis
    using assms(6) by (simp add: ml_is_locked_result ml_record_failure_locked vs)
qed

theorem failure_burst_climbs_steps_witness:
  "fst (ml_is_locked (ml_record_failures ml_new ''p'' ''b'' ''m'' ''x'' 100 9 [0, 50, 90])
     ''p'' ''b'' ''m'' 300000000000)"
  by (rule failure_burst_climbs_steps)
    (auto simp: ml_new_def elapsed_def from_secs_def nanos_per_sec_def lockout_backoff_steps_def)

text \<open>
  A quota lock ends at the first UTC midnight after the call: a whole number of days since the
  epoch, at most one day away, and the model is locked exactly until then.
\<close>

theorem midnight_lock_ends_at_midnight:
  "\<exists>secs. 0 < secs \<and> secs \<le> 86400 \<and> (unix_secs + secs) mod 86400 = 0 \<and>
     (\<forall>now. fst (ml_is_locked (ml_lock_until_midnight r p b m why unix_secs t) p b m now) \<longleftrightarrow>
        now < t + int (from_secs secs))"
proof -
  define secs where "secs = (unix_secs div 86400 + 1) * 86400 - unix_secs"
  then have until: "next_midnight_utc unix_secs t = t + int (from_secs secs)"
    by (simp add: next_midnight_utc_def Let_def)
  have "unix_secs < (unix_secs div 86400 + 1) * 86400"
    using dividend_less_div_times [of 86400 unix_secs] by simp
  then have "0 < secs" and sum: "unix_secs + secs = (unix_secs div 86400 + 1) * 86400"
    by (auto simp: secs_def)
  have "secs \<le> 86400" using div_times_less_eq_dividend [of unix_secs 86400] by (simp add: secs_def)
  moreover have "(unix_secs + secs) mod 86400 = 0" unfolding sum by (rule mod_mult_self2_is_0)
  ultimately show ?thesis using \<open>0 < secs\<close>
    by (intro exI [of _ secs])
      (simp add: ml_is_locked_result ml_locked_at_time_def ml_lock_until_midnight_def until)
qed

end
