(* ===== verification/Text.thy ===== *)
theory Text
  imports Prelude
begin

text \<open>
  More operations of \<^verbatim>\<open>str\<close> that the request-shaping components use (suffix tests,
  prefix stripping, joining, splitting at white space and at a separator, lines), with their laws
  and those of trimming and lower-casing.
\<close>

section \<open>Operations\<close>

definition ends_with :: "string \<Rightarrow> string \<Rightarrow> bool" where
  \<comment> \<open>\<open>s.ends_with(p)\<close>\<close>
  "ends_with s p = starts_with (rev s) (rev p)"

lemma ends_with_iff: "ends_with s p \<longleftrightarrow> (\<exists>t. s = t @ p)"
  unfolding ends_with_def starts_with_iff by (metis rev_append rev_rev_ident)

definition strip_prefix :: "string \<Rightarrow> string \<Rightarrow> string option" where
  "strip_prefix s p = (if starts_with s p then Some (drop (length p) s) else None)"

definition nl :: string where
  "nl = [CHR 0x0A]"

function split_whitespace :: "string \<Rightarrow> string list" where
  \<comment> \<open>the maximal runs of characters that are not white space\<close>
  "split_whitespace s =
     (let t = dropWhile is_space s in
      if t = [] then []
      else takeWhile (\<lambda>c. \<not> is_space c) t # split_whitespace (dropWhile (\<lambda>c. \<not> is_space c) t))"
  by pat_completeness auto

termination split_whitespace
proof (relation "measure length", simp)
  fix s t :: string
  assume t: "t = dropWhile is_space s" "t \<noteq> []"
  then have "\<not> is_space (hd t)" using hd_dropWhile by blast
  then have "dropWhile (\<lambda>c. \<not> is_space c) t = dropWhile (\<lambda>c. \<not> is_space c) (tl t)"
    using t(2) by (cases t) auto
  also have "length \<dots> \<le> length (tl t)" by (rule length_dropWhile_le)
  also have "\<dots> < length t" using t(2) by (cases t) auto
  also have "\<dots> \<le> length s" using t(1) by (simp add: length_dropWhile_le)
  finally show "(dropWhile (\<lambda>c. \<not> is_space c) t, s) \<in> measure length" by simp
qed

declare split_whitespace.simps [simp del]

fun join :: "string \<Rightarrow> string list \<Rightarrow> string" where
  \<comment> \<open>\<open>parts.join(sep)\<close>\<close>
  "join sep [] = []"
| "join sep [s] = s"
| "join sep (s # t # ss) = s @ sep @ join sep (t # ss)"

fun split_on :: "char \<Rightarrow> string \<Rightarrow> string list" where
  \<comment> \<open>\<open>s.split(c)\<close>\<close>
  "split_on c [] = [[]]"
| "split_on c (d # s) =
     (if d = c then [] # split_on c s
      else (case split_on c s of [] \<Rightarrow> [[d]] | p # ps \<Rightarrow> (d # p) # ps))"

section \<open>Laws\<close>

lemma set_map_filter: "set (List.map_filter f xs) = {y. \<exists>x \<in> set xs. f x = Some y}"
  by (force simp: List.map_filter_def)

lemma strip_prefix_Some_iff: "strip_prefix s p = Some t \<longleftrightarrow> s = p @ t"
  by (auto simp: strip_prefix_def starts_with_iff)

lemma split_on_not_Nil [simp]: "split_on c s \<noteq> []"
  by (induction s) (auto split: list.split)

lemma join_split_on: "join [c] (split_on c s) = s"
proof (induction s)
  case (Cons d s)
  obtain p ps where "split_on c s = p # ps" by (cases "split_on c s") auto
  then show ?case using Cons by (cases ps) auto
qed simp

lemma split_on_no_sep: "p \<in> set (split_on c s) \<Longrightarrow> c \<notin> set p"
  by (induction s arbitrary: p) (auto split: if_splits list.splits)

lemma dropWhile_hd: "t \<noteq> [] \<Longrightarrow> \<not> P (hd t) \<Longrightarrow> dropWhile P t = t"
  by (cases t) auto

lemma trim_idem [simp]: "trim (trim s) = trim s"
proof -
  let ?a = "dropWhile is_space s"
  let ?b = "dropWhile is_space (rev ?a)"
  have t: "trim s = rev ?b" by (simp add: trim_def)
  have "dropWhile is_space (rev ?b) = rev ?b"
  proof (cases "?b = []")
    case False
    then have a: "?a \<noteq> []" by (metis dropWhile.simps(1) rev.simps(1))
    obtain u where "rev ?a = u @ ?b" by (metis takeWhile_dropWhile_id)
    then have "?a = rev ?b @ rev u" by (metis rev_append rev_rev_ident)
    then have "hd (rev ?b) = hd ?a" using False by (metis Nil_is_rev_conv hd_append2)
    moreover have "\<not> is_space (hd ?a)" using a hd_dropWhile by blast
    ultimately show ?thesis using False by (intro dropWhile_hd) auto
  next
    case True
    then show ?thesis by (simp only: rev.simps dropWhile.simps)
  qed
  then have "trim (rev ?b) = rev ?b" by (simp add: trim_def)
  then show ?thesis using t by simp
qed

lemma trim_Nil [simp]: "trim [] = []"
  by (simp add: trim_def)

lemma ascii_lower_idem [simp]: "ascii_lower (ascii_lower c) = ascii_lower c"
proof (cases "is_ascii_upper c")
  case True
  then have "65 \<le> (of_char c :: nat)" "(of_char c :: nat) \<le> 90"
    by (auto simp: is_ascii_upper_def less_eq_char_def)
  then have "(of_char (char_of (of_char c + 32 :: nat)) :: nat) = of_char c + 32"
    by (simp add: of_char_of)
  then have "\<not> is_ascii_upper (char_of (of_char c + 32 :: nat))"
    using \<open>65 \<le> of_char c\<close> by (simp add: is_ascii_upper_def less_eq_char_def)
  then show ?thesis using True by (simp add: ascii_lower_def)
qed (simp add: ascii_lower_def)

lemma to_lowercase_idem [simp]: "to_lowercase (to_lowercase s) = to_lowercase s"
  by (simp add: to_lowercase_def)

lemma is_space_of_char:
  "is_space c \<longleftrightarrow> (of_char c :: nat) = 32 \<or> (9 \<le> (of_char c :: nat) \<and> (of_char c :: nat) \<le> 13)"
proof
  assume "(of_char c :: nat) = 32 \<or> (9 \<le> (of_char c :: nat) \<and> (of_char c :: nat) \<le> 13)"
  then have "(of_char c :: nat) \<in> {32, 9, 10, 11, 12, 13}" by auto
  then have "c \<in> char_of ` {32, 9, 10, 11, 12, 13 :: nat}"
    by (metis char_of_char imageI)
  then show "is_space c" by (simp add: is_space_def char_of_def bit_iff_odd)
qed (auto simp: is_space_def)

lemma is_space_lower [simp]: "is_space (ascii_lower c) = is_space c"
proof (cases "is_ascii_upper c")
  case True
  then have "65 \<le> (of_char c :: nat)" "(of_char c :: nat) \<le> 90"
    by (auto simp: is_ascii_upper_def less_eq_char_def)
  then show ?thesis using True by (simp add: is_space_of_char ascii_lower_def of_char_of)
qed (simp add: ascii_lower_def)

lemma trim_to_lowercase: "trim (to_lowercase s) = to_lowercase (trim s)"
proof -
  have "is_space \<circ> ascii_lower = is_space" by auto
  then show ?thesis by (simp add: trim_def to_lowercase_def dropWhile_map rev_map)
qed

end
