(* ===== verification/Json.thy ===== *)
theory Json
  imports Text Complex_Main
begin

text \<open>
  JSON values as the sources see them through \<^verbatim>\<open>serde_json::Value\<close>: the tree, object
  lookup, a pointer of object keys and the typed accessors. The parser itself is not part of the
  repository; a definition that parses takes it as an argument.
\<close>

datatype json =
    JNull
  | JBool bool
  | JInt int
  | JFloat rat
  | JStr string
  | JArr "json list"
  | JObj "(string \<times> json) list"

type_synonym json_parser = "string \<Rightarrow> json option"

fun json_get :: "json \<Rightarrow> string \<Rightarrow> json option" where
  "json_get (JObj kvs) k = map_of kvs k"
| "json_get _ k = None"

fun json_pointer :: "json \<Rightarrow> string list \<Rightarrow> json option" where
  \<comment> \<open>\<open>Value::pointer\<close> on a path of object keys\<close>
  "json_pointer v [] = Some v"
| "json_pointer v (k # ks) = (case json_get v k of None \<Rightarrow> None | Some w \<Rightarrow> json_pointer w ks)"

fun as_str :: "json \<Rightarrow> string option" where
  "as_str (JStr s) = Some s"
| "as_str _ = None"

fun as_i64 :: "json \<Rightarrow> int option" where
  "as_i64 (JInt n) = (if - (2 ^ 63) \<le> n \<and> n < 2 ^ 63 then Some n else None)"
| "as_i64 _ = None"

fun as_u64 :: "json \<Rightarrow> nat option" where
  "as_u64 (JInt n) = (if 0 \<le> n \<and> n < 2 ^ 64 then Some (nat n) else None)"
| "as_u64 _ = None"

fun as_bool :: "json \<Rightarrow> bool option" where
  "as_bool (JBool b) = Some b"
| "as_bool _ = None"

fun as_array :: "json \<Rightarrow> json list option" where
  "as_array (JArr vs) = Some vs"
| "as_array _ = None"

fun as_object :: "json \<Rightarrow> (string \<times> json) list option" where
  "as_object (JObj kvs) = Some kvs"
| "as_object _ = None"

definition json_get_str :: "json \<Rightarrow> string \<Rightarrow> string option" where
  \<comment> \<open>\<open>v.get(k).and_then(|x| x.as_str())\<close>\<close>
  "json_get_str v k = Option.bind (json_get v k) as_str"

definition has_role :: "string \<Rightarrow> json \<Rightarrow> bool" where
  \<comment> \<open>\<open>m.get("role").and_then(|r| r.as_str()) == Some(role)\<close>\<close>
  "has_role role m \<longleftrightarrow> json_get_str m ''role'' = Some role"

fun json_insert :: "json \<Rightarrow> string \<Rightarrow> json \<Rightarrow> json" where
  \<comment> \<open>\<open>if let Some(obj) = v.as_object_mut() { obj.insert(k, w) }\<close>\<close>
  "json_insert (JObj kvs) k w = JObj (AList.update k w kvs)"
| "json_insert v k w = v"

fun json_remove :: "json \<Rightarrow> string \<Rightarrow> json" where
  "json_remove (JObj kvs) k = JObj (AList.delete k kvs)"
| "json_remove v k = v"

definition eq_ignore_ascii_case :: "string \<Rightarrow> string \<Rightarrow> bool" where
  "eq_ignore_ascii_case a b \<longleftrightarrow> to_lowercase a = to_lowercase b"

lemma as_i64_bound: "as_i64 v = Some n \<Longrightarrow> - (2 ^ 63) \<le> n \<and> n < 2 ^ 63"
  by (cases v) (auto split: if_splits)

lemma json_get_SomeD: "json_get v k = Some w \<Longrightarrow> \<exists>kvs. v = JObj kvs \<and> map_of kvs k = Some w"
  by (cases v) auto

lemma json_get_insert:
  "json_get (json_insert v k w) l =
     (if l = k \<and> as_object v \<noteq> None then Some w else json_get v l)"
  by (cases v) (auto simp: update_conv')

lemma json_get_remove:
  "json_get (json_remove v k) l = (if l = k then None else json_get v l)"
  by (cases v) (auto simp: delete_conv')

lemma json_get_str_insert_other [simp]:
  "l \<noteq> k \<Longrightarrow> json_get_str (json_insert v k w) l = json_get_str v l"
  by (simp add: json_get_str_def json_get_insert)

end
