(* ===== verification/RateLimitPolicy.thy ===== *)
theory RateLimitPolicy
  imports CircuitBreaker Json
begin

text \<open>
  Upstream errors turned into decisions: the fallback policy
  (\<^verbatim>\<open>crab-proxy/src/fallback_policy.rs\<close>) and the detection of Codex capacity errors with their
  cooldowns (\<^verbatim>\<open>crab-proxy/src/codex_rate_limit.rs\<close>). The JSON parser is the argument
  \<open>from_str\<close>. Shown: the priority chain of the fallback decision and the cooldown a rate limit
  leads to, for every body and header.
\<close>

section \<open>Fallback decision\<close>

record fallback_decision =
  should_fallback :: bool
  fd_cooldown :: duration
  fd_reason :: string
  fd_failure_kind :: failure_kind

definition check_fallback_error ::
  "nat \<Rightarrow> string option \<Rightarrow> string option \<Rightarrow> fallback_decision"
where
  "check_fallback_error status body retry_after_header =
     (let kind = classify_failure status body in
      if status = 401 then
        \<lparr>should_fallback = False, fd_cooldown = from_secs 31536000,
         fd_reason = ''upstream key unauthorized (401)'', fd_failure_kind = Transient\<rparr>
      else if status = 429 then
        (if kind = QuotaExhausted then
           \<lparr>should_fallback = True, fd_cooldown = from_secs 3600,
            fd_reason = ''429 quota exhausted'', fd_failure_kind = QuotaExhausted\<rparr>
         else case Option.bind retry_after_header parse_retry_after of
           Some d \<Rightarrow>
             \<lparr>should_fallback = True, fd_cooldown = d,
              fd_reason = ''429 rate limited (retry-after: '' @ show_nat (as_secs d) @ ''s)'',
              fd_failure_kind = RateLimit\<rparr>
         | None \<Rightarrow>
             \<lparr>should_fallback = True, fd_cooldown = from_secs 60,
              fd_reason = ''429 rate limited (no retry-after)'', fd_failure_kind = RateLimit\<rparr>)
      else if status \<in> {408, 500, 502, 503, 504} then
        \<lparr>should_fallback = True, fd_cooldown = from_secs 5,
         fd_reason = ''transient error ('' @ show_nat status @ '')'', fd_failure_kind = Transient\<rparr>
      else if status = 400 then
        \<lparr>should_fallback = True, fd_cooldown = 0,
         fd_reason = ''bad request (400)'', fd_failure_kind = Transient\<rparr>
      else
        \<lparr>should_fallback = True, fd_cooldown = from_secs 5,
         fd_reason = ''unexpected error ('' @ show_nat status @ '')'', fd_failure_kind = Transient\<rparr>)"

section \<open>Codex capacity errors\<close>

definition codex_high_demand_fallback_secs :: nat where
  "codex_high_demand_fallback_secs = 900"

record rate_limit_classification =
  is_rate_limit :: bool
  effective_status :: nat
  rl_cooldown :: "duration option"

definition rl_none :: "nat \<Rightarrow> rate_limit_classification" where
  "rl_none status = \<lparr>is_rate_limit = False, effective_status = status, rl_cooldown = None\<rparr>"

definition codex_model_scope :: "string \<Rightarrow> string" where
  "codex_model_scope model =
     (let m = to_lowercase (trim model)
      in if str_contains m ''spark'' then ''spark''
         else if str_contains m ''codex'' then ''codex''
         else ''default'')"

definition body_text :: "string option \<Rightarrow> string" where
  "body_text body = trim (case body of Some b \<Rightarrow> b | None \<Rightarrow> [])"

definition message_patterns :: "string list" where
  "message_patterns =
     [''high demand'', ''experiencing high'', ''usage limit'', ''usage_limit'', ''at capacity'',
      ''rate limit'', ''too many requests'']"

definition message_indicates_codex_rate_limit :: "string \<Rightarrow> bool" where
  "message_indicates_codex_rate_limit msg =
     list_ex (str_contains (to_lowercase msg)) message_patterns"

definition json_indicates_codex_rate_limit :: "json \<Rightarrow> bool" where
  "json_indicates_codex_rate_limit v \<longleftrightarrow>
     (case Option.bind (json_pointer v [''error'', ''type'']) as_str of
        Some t \<Rightarrow> eq_ignore_ascii_case t ''usage_limit_reached''
      | None \<Rightarrow> False) \<or>
     list_ex (\<lambda>path. case Option.bind (json_pointer v path) as_str of
                       Some msg \<Rightarrow> message_indicates_codex_rate_limit msg
                     | None \<Rightarrow> False)
       [[''error'', ''message''], [''message''], [''detail'']]"

definition body_indicates_codex_rate_limit :: "json_parser \<Rightarrow> string \<Rightarrow> bool" where
  "body_indicates_codex_rate_limit from_str body =
     (let lower = to_lowercase body in
      if lower = [] then False
      else if str_contains lower ''usage_limit_reached'' then True
      else if str_contains lower ''high demand'' \<or> str_contains lower ''experiencing high'' then True
      else if str_contains lower ''selected model is at capacity'' \<or>
              str_contains lower ''model is at capacity'' \<or>
              str_contains lower ''at capacity. please try'' then True
      else (case from_str body of
              Some v \<Rightarrow> json_indicates_codex_rate_limit v
            | None \<Rightarrow> False) \<or>
           message_indicates_codex_rate_limit body)"

definition resets_at_delay :: "json \<Rightarrow> instant \<Rightarrow> duration option" where
  \<comment> \<open>the \<open>resets_at\<close> branch: \<open>now\<close> is the system time since the epoch\<close>
  "resets_at_delay err now =
     (case Option.bind (json_get err ''resets_at'') as_i64 of
        Some n \<Rightarrow>
          if 0 < n \<and> now < n * int nanos_per_sec then Some (nat (n * int nanos_per_sec - now))
          else None
      | None \<Rightarrow> None)"

definition resets_in_delay :: "json \<Rightarrow> duration option" where
  "resets_in_delay err =
     (case Option.bind (json_get err ''resets_in_seconds'') as_i64 of
        Some n \<Rightarrow> if 0 < n then Some (from_secs (nat n)) else None
      | None \<Rightarrow> None)"

definition parse_codex_retry_after ::
  "json_parser \<Rightarrow> string \<Rightarrow> instant \<Rightarrow> duration option"
where
  "parse_codex_retry_after from_str body now =
     Option.bind (from_str body) (\<lambda>v. Option.bind (json_get v ''error'') (\<lambda>err.
       if (case Option.bind (json_get err ''type'') as_str of
             Some t \<Rightarrow> \<not> eq_ignore_ascii_case t ''usage_limit_reached''
           | None \<Rightarrow> False) \<and> \<not> body_indicates_codex_rate_limit from_str body
       then None
       else case resets_at_delay err now of
              Some d \<Rightarrow> Some d
            | None \<Rightarrow> resets_in_delay err))"

definition cooldown_from_headers_and_body ::
  "json_parser \<Rightarrow> string option \<Rightarrow> string option \<Rightarrow> nat \<Rightarrow> instant \<Rightarrow> duration"
where
  "cooldown_from_headers_and_body from_str body retry_after_header default_secs now =
     (let header = (case Option.bind retry_after_header parse_retry_after of
                      Some d \<Rightarrow> d
                    | None \<Rightarrow> from_secs (max default_secs 1))
      in case body of
           Some text \<Rightarrow>
             if trim text = [] then header
             else (case parse_codex_retry_after from_str text now of
                     Some d \<Rightarrow> d
                   | None \<Rightarrow>
                       if body_indicates_codex_rate_limit from_str text
                       then from_secs (max codex_high_demand_fallback_secs default_secs)
                       else header)
         | None \<Rightarrow> header)"

definition classify_upstream_rate_limit ::
  "json_parser \<Rightarrow> nat \<Rightarrow> string option \<Rightarrow> string option \<Rightarrow> bool \<Rightarrow> bool \<Rightarrow> nat \<Rightarrow> instant
     \<Rightarrow> rate_limit_classification"
where
  "classify_upstream_rate_limit from_str status body retry_after_header codex_context mimo_context
     default_cooldown_secs now =
     (if status = 429 \<or> body_indicates_codex_rate_limit from_str (body_text body)
      then \<lparr>is_rate_limit = True, effective_status = 429,
            rl_cooldown = Some (cooldown_from_headers_and_body from_str body retry_after_header
                                  default_cooldown_secs now)\<rparr>
      else if (codex_context \<or> mimo_context) \<and> status = 503
      then \<lparr>is_rate_limit = True, effective_status = 429,
            rl_cooldown = Some (from_secs (max default_cooldown_secs 1))\<rparr>
      else rl_none status)"

definition resolve_codex_cooldown_secs :: "json_parser \<Rightarrow> string \<Rightarrow> nat \<Rightarrow> instant \<Rightarrow> nat" where
  "resolve_codex_cooldown_secs from_str body default_secs now =
     (case parse_codex_retry_after from_str body now of
        Some d \<Rightarrow> max (as_secs d) 1
      | None \<Rightarrow>
          if body_indicates_codex_rate_limit from_str body
          then max codex_high_demand_fallback_secs default_secs
          else max default_secs 1)"

definition codex_retry_budget :: "nat \<Rightarrow> nat \<Rightarrow> nat" where
  "codex_retry_budget pool_len max_budget =
     (if pool_len = 0 then 0
      else if pool_len = 1 then 1
      else min (pool_len - 1) max_budget mod 2 ^ 8)"

definition pool_scaled_retry_budget :: "nat \<Rightarrow> nat \<Rightarrow> nat" where
  "pool_scaled_retry_budget pool_len max_budget = codex_retry_budget pool_len max_budget"

definition upstream_rate_limit_scope :: "bool \<Rightarrow> bool \<Rightarrow> string \<Rightarrow> string option" where
  "upstream_rate_limit_scope codex mimo upstream_model =
     (if codex \<or> mimo then Some (codex_model_scope upstream_model) else None)"

section \<open>Lemmas\<close>

lemma resets_at_delay_SomeD:
  "resets_at_delay err now = Some d \<Longrightarrow> 0 < d \<and> (now + int d) mod int nanos_per_sec = 0"
  by (auto simp: resets_at_delay_def split: option.splits if_splits)

lemma parse_codex_retry_after_pos: "parse_codex_retry_after from_str body now = Some d \<Longrightarrow> 0 < d"
  by (auto simp: parse_codex_retry_after_def resets_in_delay_def from_secs_def nanos_per_sec_def
      Option.bind_eq_Some_conv dest: resets_at_delay_SomeD split: option.splits if_splits)

lemma codex_retry_budget_le:
  "m < 2 ^ 8 \<Longrightarrow> codex_retry_budget n m = (if n \<le> 1 then n else min (n - 1) m)"
  by (auto simp: codex_retry_budget_def min_def)

lemma classify_quota_iff:
  "classify_failure 429 body = QuotaExhausted \<longleftrightarrow>
     (\<exists>b. body = Some b \<and> (\<exists>pat \<in> set quota_patterns. str_contains (to_lowercase b) pat))"
proof (cases body)
  case None
  then show ?thesis
    by (simp add: classify_failure_def classify_429_def quota_patterns_def to_lowercase_def)
next
  case (Some b)
  then show ?thesis
    by (simp add: classify_failure_def classify_429_def list_ex_iff)
qed

section \<open>Properties\<close>

text \<open>
  The fallback policy follows its priority chain: an unauthorized key is the only error that
  does not fall back, a quota body of a 429 wins over its Retry-After header, the header over the
  default minute, and the decision is a quota one exactly for a 429 whose body names a quota.
\<close>

theorem fallback_priority_chain:
  "(should_fallback (check_fallback_error status body hdr) \<longleftrightarrow> status \<noteq> 401) \<and>
   (fd_failure_kind (check_fallback_error status body hdr) = QuotaExhausted \<longleftrightarrow>
      status = 429 \<and> (\<exists>b. body = Some b \<and>
        (\<exists>pat \<in> set quota_patterns. str_contains (to_lowercase b) pat))) \<and>
   fd_cooldown (check_fallback_error status body hdr) =
     (if status = 401 then from_secs 31536000
      else if status = 429 then
        (if fd_failure_kind (check_fallback_error status body hdr) = QuotaExhausted
         then from_secs 3600
         else case Option.bind hdr parse_retry_after of Some d \<Rightarrow> d | None \<Rightarrow> from_secs 60)
      else if status = 400 then 0
      else from_secs 5)"
  by (cases body)
    (auto simp: check_fallback_error_def Let_def classify_quota_iff split: option.split)

text \<open>
  A response classified as a rate limit reports 429 and carries a cooldown, which is positive
  unless it comes from a Retry-After header; a response that is no rate limit keeps its status. For
  a 429 with a non-blank body the cooldown is the announced reset when the body announces one, at
  least the fifteen minutes of the high-demand fallback when the body only signals pressure, and
  the header or the pool default otherwise.
\<close>

theorem rate_limit_cooldown:
  assumes "trim text \<noteq> []"
    and "classify_upstream_rate_limit from_str status (Some text) hdr codex mimo dflt now = c"
  shows "(is_rate_limit c \<longleftrightarrow>
      status = 429 \<or> body_indicates_codex_rate_limit from_str (trim text) \<or>
      (codex \<or> mimo) \<and> status = 503) \<and>
    (if is_rate_limit c
     then effective_status c = 429 \<and> (\<exists>d. rl_cooldown c = Some d \<and> (hdr = None \<longrightarrow> 0 < d))
     else c = rl_none status) \<and>
    (status = 429 \<longrightarrow> rl_cooldown c = Some
      (case parse_codex_retry_after from_str text now of
         Some d \<Rightarrow> d
       | None \<Rightarrow>
           if body_indicates_codex_rate_limit from_str text then from_secs (max 900 dflt)
           else case Option.bind hdr parse_retry_after of
                  Some d \<Rightarrow> d | None \<Rightarrow> from_secs (max dflt 1)))"
proof -
  have pos: "0 < cooldown_from_headers_and_body from_str (Some text) None dflt now"
    by (auto simp: cooldown_from_headers_and_body_def codex_high_demand_fallback_secs_def Let_def
        from_secs_def nanos_per_sec_def dest: parse_codex_retry_after_pos split: option.split)
  have dflt: "0 < from_secs (max dflt 1)" by (simp add: from_secs_def nanos_per_sec_def)
  have body: "cooldown_from_headers_and_body from_str (Some text) hdr dflt now =
      (case parse_codex_retry_after from_str text now of
         Some d \<Rightarrow> d
       | None \<Rightarrow>
           if body_indicates_codex_rate_limit from_str text then from_secs (max 900 dflt)
           else case Option.bind hdr parse_retry_after of
                  Some d \<Rightarrow> d | None \<Rightarrow> from_secs (max dflt 1))"
    using assms(1)
    by (simp add: cooldown_from_headers_and_body_def codex_high_demand_fallback_secs_def Let_def
        split: option.split)
  show ?thesis
    using assms(2) pos dflt unfolding classify_upstream_rate_limit_def body_text_def body [symmetric]
    by (cases "status = 429 \<or> body_indicates_codex_rate_limit from_str (trim text)";
        cases "(codex \<or> mimo) \<and> status = 503") (auto simp: rl_none_def)
qed

theorem rate_limit_cooldown_witness:
  "let from_str = (\<lambda>s. Some (JObj [(''error'', JObj [(''resets_in_seconds'', JInt 60)])]));
       c = classify_upstream_rate_limit from_str 429 (Some ''{}'') (Some ''5'') True False 30 0
   in is_rate_limit c \<and> effective_status c = 429 \<and> rl_cooldown c = Some (from_secs 60)"
  using rate_limit_cooldown [OF _ refl, of "''{}''"
      "\<lambda>s. Some (JObj [(''error'', JObj [(''resets_in_seconds'', JInt 60)])])" 429 "Some ''5''" True False 30 0]
  by (simp add: trim_eq_Nil_iff is_space_def parse_codex_retry_after_def resets_at_delay_def
      resets_in_delay_def)

end
