(* ===== verification/LimiterSpec.thy ===== *)
theory LimiterSpec
  imports Prelude
begin

text \<open>
  What a concurrency limiter promises, as an interface: a request of key \<open>k\<close> is admitted exactly
  while fewer than \<open>cap k\<close> guards are held (zero means unlimited), an admission adds one guard to
  its own key only and a release removes at most one. The client lemma: no sequence of requests
  and releases takes a key above its cap. The compare-and-swap loop both limiters use is modelled
  as interleaved atomic steps of several threads.
\<close>

section \<open>The interface\<close>

datatype 'k lim_req = LimAcquire 'k | LimRelease nat

fun lim_step ::
  "('s \<Rightarrow> 'k \<Rightarrow> bool \<times> 's) \<Rightarrow> ('s \<Rightarrow> nat \<Rightarrow> 's) \<Rightarrow> 's \<Rightarrow> 'k lim_req \<Rightarrow> 's"
where
  "lim_step acquire release s (LimAcquire k) = snd (acquire s k)"
| "lim_step acquire release s (LimRelease i) = release s i"

definition lim_run ::
  "('s \<Rightarrow> 'k \<Rightarrow> bool \<times> 's) \<Rightarrow> ('s \<Rightarrow> nat \<Rightarrow> 's) \<Rightarrow> 's \<Rightarrow> 'k lim_req list \<Rightarrow> 's"
where
  "lim_run acquire release = foldl (lim_step acquire release)"

locale concurrency_limiter =
  fixes inv :: "'s \<Rightarrow> bool"
    and cap :: "'k \<Rightarrow> nat"
    and held :: "'s \<Rightarrow> 'k \<Rightarrow> nat"
    and acquire :: "'s \<Rightarrow> 'k \<Rightarrow> bool \<times> 's"
    and release :: "'s \<Rightarrow> nat \<Rightarrow> 's"
  assumes acquire_iff:
      "inv s \<Longrightarrow> held s k + 1 < 2 ^ 64 \<Longrightarrow> fst (acquire s k) \<longleftrightarrow> cap k = 0 \<or> held s k < cap k"
    and acquire_inv: "inv s \<Longrightarrow> held s k + 1 < 2 ^ 64 \<Longrightarrow> inv (snd (acquire s k))"
    and acquire_held: "inv s \<Longrightarrow> held s k + 1 < 2 ^ 64 \<Longrightarrow>
          held (snd (acquire s k)) l = held s l + (if fst (acquire s k) \<and> l = k then 1 else 0)"
    and release_inv: "inv s \<Longrightarrow> (\<forall>k. held s k < 2 ^ 64) \<Longrightarrow> inv (release s i)"
    and release_held: "inv s \<Longrightarrow> held (release s i) l \<le> held s l"
begin

definition within :: "'s \<Rightarrow> bool" where
  "within s \<longleftrightarrow> inv s \<and> (\<forall>k. 0 < cap k \<longrightarrow> held s k \<le> cap k)"

lemma within_step:
  assumes "within s" and "\<forall>k. held s k + 1 < 2 ^ 64"
  shows "within (lim_step acquire release s r)"
    and "held (lim_step acquire release s r) k \<le> held s k + 1"
proof -
  have s: "inv s" using assms(1) by (simp add: within_def)
  show "held (lim_step acquire release s r) k \<le> held s k + 1"
  proof (cases r)
    case (LimAcquire l)
    then show ?thesis using acquire_held [OF s, of l k] assms(2) by auto
  next
    case (LimRelease i)
    then show ?thesis using release_held [OF s, of i k] by simp
  qed
  show "within (lim_step acquire release s r)"
  proof (cases r)
    case (LimAcquire l)
    have *: "held (snd (acquire s l)) k \<le> cap k" if "0 < cap k" for k
      using acquire_held [OF s, of l k] acquire_iff [OF s, of l] assms that
      by (auto simp: within_def Suc_le_eq split: if_splits)
    then show ?thesis using LimAcquire acquire_inv [OF s, of l] assms(2) by (simp add: within_def)
  next
    case (LimRelease i)
    have "\<forall>k. held s k < 2 ^ 64" using assms(2) by (meson add_lessD1)
    moreover have "held (release s i) k \<le> cap k" if "0 < cap k" for k
      using release_held [OF s, of i k] assms(1) that by (auto simp: within_def intro: order_trans)
    ultimately show ?thesis
      using LimRelease release_inv [OF s] by (simp add: within_def)
  qed
qed

lemma never_exceeds_cap:
  "within s \<Longrightarrow> (\<forall>k. held s k + length rs < 2 ^ 64) \<Longrightarrow> within (lim_run acquire release s rs)"
proof (induction rs arbitrary: s)
  case Nil
  then show ?case by (simp add: lim_run_def)
next
  case (Cons r rs)
  have room: "\<forall>k. held s k + 1 < 2 ^ 64"
  proof
    fix k show "held s k + 1 < 2 ^ 64" using Cons.prems(2) by (auto dest: spec [of _ k])
  qed
  let ?t = "lim_step acquire release s r"
  have "\<forall>k. held ?t k + length rs < 2 ^ 64"
  proof
    fix k
    have "held ?t k \<le> held s k + 1" by (rule within_step(2) [OF Cons.prems(1) room])
    moreover have "held s k + length (r # rs) < 2 ^ 64" using Cons.prems(2) by blast
    ultimately show "held ?t k + length rs < 2 ^ 64" by simp
  qed
  then show ?case
    using Cons.IH [OF within_step(1) [OF Cons.prems(1) room]] by (simp add: lim_run_def)
qed

end

section \<open>The compare-and-swap loop\<close>

text \<open>
  One slot shared by any number of threads. A thread loads the in-flight count, loads the maximum,
  compares, and swaps; the swap succeeds only if the count is the one loaded (and may fail
  spuriously); a holder later decrements the count. Each constructor is a point between two atomic
  accesses.
\<close>

datatype cas_pc = CasIdle | CasLoaded nat | CasSwap nat | CasHeld | CasRejected | CasDone

record cas_state =
  cas_inflight :: nat
  cas_threads :: "cas_pc list"

inductive cas_step :: "nat \<Rightarrow> cas_state \<Rightarrow> nat \<Rightarrow> cas_state \<Rightarrow> bool"
  for mx :: nat where
  cas_load: "i < length (cas_threads s) \<Longrightarrow> cas_threads s ! i = CasIdle \<Longrightarrow>
     cas_step mx s i (s\<lparr>cas_threads := (cas_threads s)[i := CasLoaded (cas_inflight s)]\<rparr>)"
| cas_reject: "i < length (cas_threads s) \<Longrightarrow> cas_threads s ! i = CasLoaded c \<Longrightarrow>
     0 < mx \<Longrightarrow> mx \<le> c \<Longrightarrow>
     cas_step mx s i (s\<lparr>cas_threads := (cas_threads s)[i := CasRejected]\<rparr>)"
| cas_pass: "i < length (cas_threads s) \<Longrightarrow> cas_threads s ! i = CasLoaded c \<Longrightarrow>
     \<not> (0 < mx \<and> mx \<le> c) \<Longrightarrow>
     cas_step mx s i (s\<lparr>cas_threads := (cas_threads s)[i := CasSwap c]\<rparr>)"
| cas_success: "i < length (cas_threads s) \<Longrightarrow> cas_threads s ! i = CasSwap c \<Longrightarrow>
     cas_inflight s = c \<Longrightarrow>
     cas_step mx s i \<lparr>cas_inflight = wrap_add 64 c 1, cas_threads = (cas_threads s)[i := CasHeld]\<rparr>"
| cas_retry: "i < length (cas_threads s) \<Longrightarrow> cas_threads s ! i = CasSwap c \<Longrightarrow>
     cas_step mx s i (s\<lparr>cas_threads := (cas_threads s)[i := CasIdle]\<rparr>)"
| cas_release: "i < length (cas_threads s) \<Longrightarrow> cas_threads s ! i = CasHeld \<Longrightarrow>
     cas_step mx s i \<lparr>cas_inflight = wrap_sub 64 (cas_inflight s) 1,
                     cas_threads = (cas_threads s)[i := CasDone]\<rparr>"

definition cas_init :: "cas_state \<Rightarrow> bool" where
  "cas_init s \<longleftrightarrow> cas_inflight s = 0 \<and> (\<forall>p \<in> set (cas_threads s). p = CasIdle) \<and>
     length (cas_threads s) < 2 ^ 64"

abbreviation cas_holders :: "cas_state \<Rightarrow> nat" where
  "cas_holders s \<equiv> count_list (cas_threads s) CasHeld"

definition cas_inv :: "nat \<Rightarrow> cas_state \<Rightarrow> bool" where
  "cas_inv mx s \<longleftrightarrow> length (cas_threads s) < 2 ^ 64 \<and> cas_inflight s = cas_holders s \<and>
     (0 < mx \<longrightarrow> cas_holders s \<le> mx) \<and>
     (\<forall>c. CasSwap c \<in> set (cas_threads s) \<longrightarrow> 0 < mx \<longrightarrow> c < mx)"

lemma count_list_update:
  assumes "i < length xs"
  shows "count_list (xs[i := y]) z + (if xs ! i = z then 1 else 0) =
    count_list xs z + (if y = z then 1 else 0)"
  using assms
proof (induction xs arbitrary: i)
  case (Cons x xs)
  show ?case
  proof (cases i)
    case 0
    then show ?thesis by simp
  next
    case (Suc j)
    then show ?thesis using Cons.IH [of j] Cons.prems by (cases "y = z"; cases "xs ! j = z") auto
  qed
qed simp

lemma count_list_update_other:
  "i < length xs \<Longrightarrow> xs ! i \<noteq> z \<Longrightarrow> y \<noteq> z \<Longrightarrow> count_list (xs[i := y]) z = count_list xs z"
  using count_list_update [of i xs y z] by simp

lemma count_list_less_length:
  assumes "i < length xs" and "xs ! i \<noteq> z"
  shows "count_list xs z < length xs"
proof -
  have "count_list (xs[i := z]) z = count_list xs z + 1"
    using count_list_update [of i xs z z] assms by simp
  then show ?thesis using count_le_length [of "xs[i := z]" z] by simp
qed

lemma count_list_delete_nth:
  "i < length xs \<Longrightarrow>
   count_list (take i xs @ drop (Suc i) xs) z + (if xs ! i = z then 1 else 0) = count_list xs z"
proof (induction xs arbitrary: i)
  case (Cons x xs)
  show ?case
  proof (cases i)
    case 0
    then show ?thesis by simp
  next
    case (Suc j)
    then show ?thesis using Cons.IH [of j] Cons.prems by (cases "xs ! j = z") auto
  qed
qed simp

lemma cas_inv_init: "cas_init s \<Longrightarrow> cas_inv mx s"
  by (auto simp: cas_init_def cas_inv_def count_list_0_iff)

lemma cas_inv_step:
  assumes "cas_inv mx s" and "cas_step mx s i t"
  shows "cas_inv mx t"
  using assms(2,1)
proof (cases rule: cas_step.cases)
  case cas_load
  then show ?thesis using assms(1)
    by (auto simp: cas_inv_def count_list_update_other dest!: set_update_subset_insert [THEN subsetD])
next
  case (cas_reject c)
  then show ?thesis using assms(1)
    by (auto simp: cas_inv_def count_list_update_other dest!: set_update_subset_insert [THEN subsetD])
next
  case (cas_pass c)
  then show ?thesis using assms(1)
    by (auto simp: cas_inv_def count_list_update_other dest!: set_update_subset_insert [THEN subsetD])
next
  case (cas_success c)
  have "c < mx" if "0 < mx"
    using assms(1) cas_success that nth_mem [of i "cas_threads s"] by (auto simp: cas_inv_def)
  moreover have cnt: "count_list ((cas_threads s)[i := CasHeld]) CasHeld = cas_holders s + 1"
    using count_list_update [of i "cas_threads s" CasHeld CasHeld] cas_success by simp
  moreover have "cas_holders s < length (cas_threads s)"
    using cas_success by (intro count_list_less_length) auto
  moreover have "wrap_add 64 c 1 = c + 1"
    using assms(1) cas_success calculation(3) by (intro wrap_add_exact) (auto simp: cas_inv_def)
  ultimately show ?thesis using assms(1) cas_success
    by (auto simp: cas_inv_def dest!: set_update_subset_insert [THEN subsetD])
next
  case (cas_retry c)
  then show ?thesis using assms(1)
    by (auto simp: cas_inv_def count_list_update_other dest!: set_update_subset_insert [THEN subsetD])
next
  case cas_release
  have cnt: "count_list ((cas_threads s)[i := CasDone]) CasHeld + 1 = cas_holders s"
    using count_list_update [of i "cas_threads s" CasDone CasHeld] cas_release by simp
  have "cas_holders s < 2 ^ 64"
    using assms(1) count_le_length [of "cas_threads s" CasHeld] by (simp add: cas_inv_def)
  then have "wrap_sub 64 (cas_holders s) 1 = cas_holders s - 1"
    using cnt by (intro wrap_sub_exact) auto
  then show ?thesis using assms(1) cas_release cnt
    by (auto simp: cas_inv_def dest!: set_update_subset_insert [THEN subsetD])
qed

interpretation cas_sys: invariant_system cas_init "cas_step mx" "cas_inv mx" for mx
  by unfold_locales (auto intro: cas_inv_init cas_inv_step)

section \<open>Properties\<close>

text \<open>
  In every interleaving of the compare-and-swap loop the in-flight count is the number of
  threads that hold a guard, and it never exceeds a positive maximum.
\<close>

theorem cas_loop_respects_limit:
  assumes "reachable cas_init (cas_step mx) s"
  shows "cas_inflight s = cas_holders s \<and> (0 < mx \<longrightarrow> cas_holders s \<le> mx)"
  using cas_sys.reachable_inv [OF assms] by (simp add: cas_inv_def)

lemma cas_race_reachable:
  "reachable cas_init (cas_step 1) \<lparr>cas_inflight = 1, cas_threads = [CasHeld, CasSwap 0]\<rparr>"
proof -
  let ?s0 = "\<lparr>cas_inflight = 0, cas_threads = [CasIdle, CasIdle]\<rparr>"
  have "reachable cas_init (cas_step 1) ?s0" by (rule reach_init) (simp add: cas_init_def)
  then have "reachable cas_init (cas_step 1) \<lparr>cas_inflight = 0, cas_threads = [CasLoaded 0, CasIdle]\<rparr>"
    by (rule reach_step) (use cas_load [of 0 ?s0 1] in simp)
  then have "reachable cas_init (cas_step 1) \<lparr>cas_inflight = 0, cas_threads = [CasLoaded 0, CasLoaded 0]\<rparr>"
    by (rule reach_step)
      (use cas_load [of 1 "\<lparr>cas_inflight = 0, cas_threads = [CasLoaded 0, CasIdle]\<rparr>" 1] in simp)
  then have "reachable cas_init (cas_step 1) \<lparr>cas_inflight = 0, cas_threads = [CasSwap 0, CasLoaded 0]\<rparr>"
    by (rule reach_step)
      (use cas_pass [of 0 "\<lparr>cas_inflight = 0, cas_threads = [CasLoaded 0, CasLoaded 0]\<rparr>" 0 1] in simp)
  then have "reachable cas_init (cas_step 1) \<lparr>cas_inflight = 0, cas_threads = [CasSwap 0, CasSwap 0]\<rparr>"
    by (rule reach_step)
      (use cas_pass [of 1 "\<lparr>cas_inflight = 0, cas_threads = [CasSwap 0, CasLoaded 0]\<rparr>" 0 1] in simp)
  then show ?thesis
    by (rule reach_step)
      (use cas_success [of 0 "\<lparr>cas_inflight = 0, cas_threads = [CasSwap 0, CasSwap 0]\<rparr>" 0 1] in
        \<open>simp add: wrap_add_def\<close>)
qed

theorem cas_loop_respects_limit_witness:
  "cas_inflight \<lparr>cas_inflight = 1, cas_threads = [CasHeld, CasSwap 0]\<rparr> =
     cas_holders \<lparr>cas_inflight = 1, cas_threads = [CasHeld, CasSwap 0]\<rparr>"
  using cas_loop_respects_limit [OF cas_race_reachable] by blast

end
