(* ===== verification/ClientKeyLimiter.thy ===== *)
theory ClientKeyLimiter
  imports LimiterSpec
begin

text \<open>
  The per-client-key concurrency limiter (\<^verbatim>\<open>crab-proxy/src/client_key_limiter.rs\<close>). The
  slots are shared objects (\<^verbatim>\<open>Arc\<close>): the limiter keeps a heap of slots and a map from
  tokens to their addresses, and a guard keeps the address it was given. Shown: as long as a token
  keeps its key the limiter implements the interface of \<open>LimiterSpec\<close>; renaming a key while
  requests are in flight loses their capacity for good.
\<close>

section \<open>State\<close>

record stored_key =
  sk_id :: string
  sk_name :: string
  sk_key_hash :: string
  sk_enabled :: bool
  sk_domain :: "string option"
  sk_project_id :: "string option"
  sk_pipeline :: "string option"
  sk_upstream_profile :: "string option"
  sk_max_concurrent :: nat
  sk_rpm_limit :: nat

datatype client_key_limit_error = CkExceeded

record client_key_slot =
  ck_inflight :: nat
  ck_max_concurrent :: nat
  ck_consumer :: string
  ck_key_id :: string

record client_key_limiter =
  ck_heap :: "client_key_slot list"
  ck_slots :: "(string, nat) hmap"

record client_key_guard =
  ckg_token :: string
  ckg_slot :: nat

definition ck_new :: client_key_limiter where
  "ck_new = \<lparr>ck_heap = [], ck_slots = []\<rparr>"

section \<open>Operations\<close>

definition ck_alloc ::
  "client_key_limiter \<Rightarrow> string \<Rightarrow> nat \<Rightarrow> stored_key \<Rightarrow> client_key_limiter"
where
  \<comment> \<open>a fresh slot with the given count, entered under the token\<close>
  "ck_alloc l token inflight key =
     \<lparr>ck_heap = ck_heap l @ [\<lparr>ck_inflight = inflight, ck_max_concurrent = sk_max_concurrent key,
                             ck_consumer = sk_name key, ck_key_id = sk_id key\<rparr>],
      ck_slots = hm_insert (ck_slots l) token (length (ck_heap l))\<rparr>"

definition ck_sync_key ::
  "client_key_limiter \<Rightarrow> string \<Rightarrow> stored_key \<Rightarrow> client_key_limiter"
where
  "ck_sync_key l token key =
     (case hm_get (ck_slots l) token of
        Some a \<Rightarrow>
          (let slot = ck_heap l ! a in
           if ck_consumer slot \<noteq> sk_name key \<or> ck_key_id slot \<noteq> sk_id key
           then ck_alloc l token (ck_inflight slot) key
           else l\<lparr>ck_heap := (ck_heap l)[a := slot\<lparr>ck_max_concurrent := sk_max_concurrent key\<rparr>]\<rparr>)
      | None \<Rightarrow> ck_alloc l token 0 key)"

definition ck_sync_all_keys ::
  "client_key_limiter \<Rightarrow> (string, stored_key) hmap \<Rightarrow> client_key_limiter"
where
  "ck_sync_all_keys l keys = foldl (\<lambda>l (token, key). ck_sync_key l token key) l keys"

definition ck_remove_key :: "client_key_limiter \<Rightarrow> string \<Rightarrow> client_key_limiter" where
  "ck_remove_key l token = l\<lparr>ck_slots := hm_remove (ck_slots l) token\<rparr>"

definition ck_get_inflight :: "client_key_limiter \<Rightarrow> string \<Rightarrow> nat" where
  "ck_get_inflight l token =
     (case hm_get (ck_slots l) token of Some a \<Rightarrow> ck_inflight (ck_heap l ! a) | None \<Rightarrow> 0)"

definition ck_try_acquire ::
  "client_key_limiter \<Rightarrow> string \<Rightarrow> stored_key
     \<Rightarrow> ((client_key_limit_error + client_key_guard) \<times> client_key_limiter) option"
where
  \<comment> \<open>\<open>None\<close> stands for the panic of \<open>expect("slot just synced")\<close>; the loop is taken at its
    successful swap\<close>
  "ck_try_acquire l token key =
     (let l' = ck_sync_key l token key
      in case hm_get (ck_slots l') token of
           None \<Rightarrow> None
         | Some a \<Rightarrow>
             (let slot = ck_heap l' ! a; current = ck_inflight slot; mx = ck_max_concurrent slot
              in if 0 < mx \<and> mx \<le> current then Some (Inl CkExceeded, l')
                 else Some (Inr \<lparr>ckg_token = token, ckg_slot = a\<rparr>,
                            l'\<lparr>ck_heap := (ck_heap l')
                                 [a := slot\<lparr>ck_inflight := wrap_add 64 current 1\<rparr>]\<rparr>)))"

definition ck_release :: "client_key_limiter \<Rightarrow> client_key_guard \<Rightarrow> client_key_limiter" where
  "ck_release l g =
     (let slot = ck_heap l ! ckg_slot g
      in l\<lparr>ck_heap := (ck_heap l)
             [ckg_slot g := slot\<lparr>ck_inflight := wrap_sub 64 (ck_inflight slot) 1\<rparr>]\<rparr>)"

section \<open>The limiter with its live guards\<close>

record ck_world =
  cw_limiter :: client_key_limiter
  cw_guards :: "client_key_guard list"

definition cw_acquire ::
  "(string \<Rightarrow> stored_key) \<Rightarrow> ck_world \<Rightarrow> string \<Rightarrow> bool \<times> ck_world"
where
  "cw_acquire keyof w token =
     (case ck_try_acquire (cw_limiter w) token (keyof token) of
        Some (Inr g, l) \<Rightarrow> (True, \<lparr>cw_limiter = l, cw_guards = cw_guards w @ [g]\<rparr>)
      | Some (Inl e, l) \<Rightarrow> (False, w\<lparr>cw_limiter := l\<rparr>)
      | None \<Rightarrow> (False, w))"

definition cw_release :: "ck_world \<Rightarrow> nat \<Rightarrow> ck_world" where
  \<comment> \<open>the drop of the guard at a position\<close>
  "cw_release w i =
     (if i < length (cw_guards w)
      then \<lparr>cw_limiter = ck_release (cw_limiter w) (cw_guards w ! i),
            cw_guards = take i (cw_guards w) @ drop (Suc i) (cw_guards w)\<rparr>
      else w)"

definition cw_held :: "ck_world \<Rightarrow> string \<Rightarrow> nat" where
  "cw_held w token = count_list (map ckg_token (cw_guards w)) token"

definition cw_inv :: "(string \<Rightarrow> stored_key) \<Rightarrow> ck_world \<Rightarrow> bool" where
  "cw_inv keyof w \<longleftrightarrow>
     (\<forall>t a. hm_get (ck_slots (cw_limiter w)) t = Some a \<longrightarrow>
        a < length (ck_heap (cw_limiter w)) \<and>
        ck_consumer (ck_heap (cw_limiter w) ! a) = sk_name (keyof t) \<and>
        ck_key_id (ck_heap (cw_limiter w) ! a) = sk_id (keyof t) \<and>
        ck_inflight (ck_heap (cw_limiter w) ! a) = cw_held w t) \<and>
     (\<forall>t u a. hm_get (ck_slots (cw_limiter w)) t = Some a \<longrightarrow>
        hm_get (ck_slots (cw_limiter w)) u = Some a \<longrightarrow> t = u) \<and>
     (\<forall>g \<in> set (cw_guards w). hm_get (ck_slots (cw_limiter w)) (ckg_token g) = Some (ckg_slot g))"

lemmas ck_defs = ck_sync_key_def ck_alloc_def Let_def

lemma cw_held_absent:
  assumes "cw_inv keyof w" and "hm_get (ck_slots (cw_limiter w)) t = None"
  shows "cw_held w t = 0"
  using assms by (force simp: cw_inv_def cw_held_def count_list_0_iff)

lemma cw_inv_sync:
  assumes "cw_inv keyof w"
  shows "cw_inv keyof (w\<lparr>cw_limiter := ck_sync_key (cw_limiter w) t (keyof t)\<rparr>)"
proof (cases "hm_get (ck_slots (cw_limiter w)) t")
  case None
  have fresh: "hm_get (ck_slots (cw_limiter w)) u \<noteq> Some (length (ck_heap (cw_limiter w)))" for u
    using assms by (auto simp: cw_inv_def)
  then show ?thesis
    using assms None cw_held_absent [OF assms None]
    by (auto simp: cw_inv_def ck_defs cw_held_def nth_append less_Suc_eq)
next
  case (Some a)
  then have "ck_sync_key (cw_limiter w) t (keyof t) = (cw_limiter w)\<lparr>ck_heap := (ck_heap (cw_limiter w))
      [a := (ck_heap (cw_limiter w) ! a)\<lparr>ck_max_concurrent := sk_max_concurrent (keyof t)\<rparr>]\<rparr>"
    using assms by (auto simp: cw_inv_def ck_sync_key_def Let_def)
  then show ?thesis using assms by (auto simp: cw_inv_def cw_held_def nth_update_if)
qed

lemma ck_sync_slot:
  assumes "cw_inv keyof w"
  shows "\<exists>a. hm_get (ck_slots (ck_sync_key (cw_limiter w) t (keyof t))) t = Some a \<and>
    ck_max_concurrent (ck_heap (ck_sync_key (cw_limiter w) t (keyof t)) ! a) = sk_max_concurrent (keyof t)"
  using assms by (cases "hm_get (ck_slots (cw_limiter w)) t") (auto simp: cw_inv_def ck_defs)

lemma cw_acquire_cases:
  assumes "cw_inv keyof w" and "cw_held w t + 1 < 2 ^ 64"
  obtains l a where "l = ck_sync_key (cw_limiter w) t (keyof t)"
    and "cw_inv keyof (w\<lparr>cw_limiter := l\<rparr>)" and "hm_get (ck_slots l) t = Some a"
    and "cw_acquire keyof w t =
      (if 0 < sk_max_concurrent (keyof t) \<and> sk_max_concurrent (keyof t) \<le> cw_held w t
       then (False, w\<lparr>cw_limiter := l\<rparr>)
       else (True, \<lparr>cw_limiter = l\<lparr>ck_heap := (ck_heap l)
                     [a := (ck_heap l ! a)\<lparr>ck_inflight := cw_held w t + 1\<rparr>]\<rparr>,
                    cw_guards = cw_guards w @ [\<lparr>ckg_token = t, ckg_slot = a\<rparr>]\<rparr>))"
proof -
  let ?l = "ck_sync_key (cw_limiter w) t (keyof t)"
  obtain a where a: "hm_get (ck_slots ?l) t = Some a"
      "ck_max_concurrent (ck_heap ?l ! a) = sk_max_concurrent (keyof t)"
    using ck_sync_slot [OF assms(1)] by blast
  have inv: "cw_inv keyof (w\<lparr>cw_limiter := ?l\<rparr>)" by (rule cw_inv_sync [OF assms(1)])
  then have "ck_inflight (ck_heap ?l ! a) = cw_held w t"
    using a(1) by (auto simp: cw_inv_def cw_held_def)
  then show thesis
    using a assms(2) inv that [OF refl inv a(1)]
    by (simp add: cw_acquire_def ck_try_acquire_def Let_def wrap_add_exact)
qed

lemma cw_acquire_inv:
  assumes "cw_inv keyof w" and "cw_held w t + 1 < 2 ^ 64"
  shows "cw_inv keyof (snd (cw_acquire keyof w t))"
proof -
  obtain l a where l: "cw_inv keyof (w\<lparr>cw_limiter := l\<rparr>)" "hm_get (ck_slots l) t = Some a"
    and acq: "cw_acquire keyof w t =
      (if 0 < sk_max_concurrent (keyof t) \<and> sk_max_concurrent (keyof t) \<le> cw_held w t
       then (False, w\<lparr>cw_limiter := l\<rparr>)
       else (True, \<lparr>cw_limiter = l\<lparr>ck_heap := (ck_heap l)
                     [a := (ck_heap l ! a)\<lparr>ck_inflight := cw_held w t + 1\<rparr>]\<rparr>,
                    cw_guards = cw_guards w @ [\<lparr>ckg_token = t, ckg_slot = a\<rparr>]\<rparr>))"
    using cw_acquire_cases [OF assms] by metis
  show ?thesis
    unfolding acq using l by (auto simp: cw_inv_def cw_held_def nth_update_if)
qed

lemma cw_acquire_held:
  assumes "cw_inv keyof w" and "cw_held w t + 1 < 2 ^ 64"
  shows "cw_held (snd (cw_acquire keyof w t)) u =
      cw_held w u + (if fst (cw_acquire keyof w t) \<and> u = t then 1 else 0)"
    and "fst (cw_acquire keyof w t) \<longleftrightarrow>
      sk_max_concurrent (keyof t) = 0 \<or> cw_held w t < sk_max_concurrent (keyof t)"
  by (rule cw_acquire_cases [OF assms], simp add: cw_held_def)
    (rule cw_acquire_cases [OF assms], auto)

lemma cw_release_held:
  "cw_held (cw_release w i) t \<le> cw_held w t"
  using count_list_delete_nth [of i "map ckg_token (cw_guards w)" t]
  by (auto simp: cw_release_def cw_held_def take_map drop_map)

lemma cw_release_inv:
  assumes "cw_inv keyof w" and "\<forall>t. cw_held w t < 2 ^ 64"
  shows "cw_inv keyof (cw_release w i)"
proof (cases "i < length (cw_guards w)")
  case True
  define g where "g = cw_guards w ! i"
  define gs where "gs = take i (cw_guards w) @ drop (Suc i) (cw_guards w)"
  have rel: "cw_release w i = \<lparr>cw_limiter = ck_release (cw_limiter w) g, cw_guards = gs\<rparr>"
    using True by (simp add: cw_release_def g_def gs_def)
  have cnt: "count_list (map ckg_token gs) t + (if ckg_token g = t then 1 else 0) = cw_held w t" for t
    using count_list_delete_nth [of i "map ckg_token (cw_guards w)" t] True
    by (simp add: cw_held_def g_def gs_def take_map drop_map)
  have g: "hm_get (ck_slots (cw_limiter w)) (ckg_token g) = Some (ckg_slot g)"
    using assms(1) nth_mem [OF True] by (simp add: cw_inv_def g_def)
  have sub: "set gs \<subseteq> set (cw_guards w)"
    by (auto simp: gs_def dest: in_set_takeD in_set_dropD)
  have "count_list (map ckg_token gs) t =
      (if a = ckg_slot g then wrap_sub 64 (cw_held w t) 1 else cw_held w t)"
    if t: "hm_get (ck_slots (cw_limiter w)) t = Some a" for t a
  proof (cases "t = ckg_token g")
    case True
    then show ?thesis
      using t g cnt [of t] assms(2) wrap_sub_exact [of 1 "cw_held w t" 64] by auto
  next
    case False
    then have "a \<noteq> ckg_slot g" using t g assms(1) by (auto simp: cw_inv_def)
    then show ?thesis using False cnt [of t] by auto
  qed
  then show ?thesis
    using assms(1) sub unfolding rel
    by (auto simp: cw_inv_def ck_release_def cw_held_def Let_def nth_update_if)
next
  case False
  then show ?thesis using assms(1) by (simp add: cw_release_def)
qed

interpretation ck: concurrency_limiter "cw_inv keyof" "\<lambda>t. sk_max_concurrent (keyof t)" cw_held
  "cw_acquire keyof" cw_release for keyof
proof unfold_locales
  fix w t u i
  show "cw_inv keyof w \<Longrightarrow> cw_held w t + 1 < 2 ^ 64 \<Longrightarrow> fst (cw_acquire keyof w t) \<longleftrightarrow>
      sk_max_concurrent (keyof t) = 0 \<or> cw_held w t < sk_max_concurrent (keyof t)"
    by (rule cw_acquire_held(2))
  show "cw_inv keyof w \<Longrightarrow> cw_held w t + 1 < 2 ^ 64 \<Longrightarrow>
      cw_held (snd (cw_acquire keyof w t)) u =
        cw_held w u + (if fst (cw_acquire keyof w t) \<and> u = t then 1 else 0)"
    by (rule cw_acquire_held(1))
qed (auto intro: cw_acquire_inv cw_release_inv cw_release_held)

definition cw_new :: ck_world where
  "cw_new = \<lparr>cw_limiter = ck_new, cw_guards = []\<rparr>"

lemma cw_new_within: "ck.within keyof cw_new"
  by (simp add: ck.within_def cw_inv_def cw_new_def ck_new_def cw_held_def)

definition cw_drop_all :: "ck_world \<Rightarrow> ck_world" where
  \<comment> \<open>every request in flight ends\<close>
  "cw_drop_all w = ((\<lambda>w. cw_release w 0) ^^ length (cw_guards w)) w"

lemma cw_release_first: "cw_guards (cw_release w 0) = tl (cw_guards w)"
  by (cases "cw_guards w") (auto simp: cw_release_def)

lemma cw_drop_all_guards: "cw_guards (((\<lambda>w. cw_release w 0) ^^ n) w) = drop n (cw_guards w)"
  by (induction n) (simp_all add: cw_release_first drop_Suc tl_drop)

lemma cw_drop_all_frame:
  assumes "b \<notin> ckg_slot ` set (cw_guards w)"
  shows "ck_heap (cw_limiter (((\<lambda>w. cw_release w 0) ^^ n) w)) ! b = ck_heap (cw_limiter w) ! b \<and>
    ck_slots (cw_limiter (((\<lambda>w. cw_release w 0) ^^ n) w)) = ck_slots (cw_limiter w)"
proof (induction n)
  case (Suc n)
  let ?v = "((\<lambda>w. cw_release w 0) ^^ n) w"
  have "ckg_slot (cw_guards ?v ! 0) \<noteq> b" if "0 < length (cw_guards ?v)"
  proof -
    have "cw_guards ?v ! 0 \<in> set (cw_guards ?v)" using that by (rule nth_mem)
    then have "cw_guards ?v ! 0 \<in> set (cw_guards w)"
      by (auto simp: cw_drop_all_guards dest: in_set_dropD)
    then show ?thesis using assms by auto
  qed
  then show ?case using Suc by (auto simp: cw_release_def ck_release_def Let_def)
qed simp

section \<open>Properties\<close>

text \<open>
  C24. Over any history of requests and guard drops, with every token keeping its key, the number
  of live guards of a token never exceeds a positive limit, the reported in-flight count is that
  number, and the next request is admitted exactly if there is room.
\<close>

theorem client_key_limit_holds:
  assumes "length rs < 2 ^ 64 - 1" and "w = lim_run (cw_acquire keyof) cw_release cw_new rs"
  shows "(0 < sk_max_concurrent (keyof t) \<longrightarrow> cw_held w t \<le> sk_max_concurrent (keyof t)) \<and>
    ck_get_inflight (cw_limiter w) t = cw_held w t \<and>
    (cw_held w t + 1 < 2 ^ 64 \<longrightarrow>
      (fst (cw_acquire keyof w t) \<longleftrightarrow>
        sk_max_concurrent (keyof t) = 0 \<or> cw_held w t < sk_max_concurrent (keyof t)))"
proof -
  have "cw_held cw_new k + length rs < 2 ^ 64" for k
    using assms(1) by (simp add: cw_held_def cw_new_def)
  then have w: "ck.within keyof w"
    unfolding assms(2) by (intro ck.never_exceeds_cap [OF cw_new_within]) blast
  then have inv: "cw_inv keyof w" by (simp add: ck.within_def)
  then have "ck_get_inflight (cw_limiter w) t = cw_held w t"
    using cw_held_absent [OF inv] by (auto simp: ck_get_inflight_def cw_inv_def split: option.split)
  then show ?thesis
    using w ck.acquire_iff [OF inv, of t] by (simp add: ck.within_def)
qed

definition sample_key :: "nat \<Rightarrow> stored_key" where
  "sample_key mx = \<lparr>sk_id = ''i'', sk_name = ''n'', sk_key_hash = ''h'', sk_enabled = True,
     sk_domain = None, sk_project_id = None, sk_pipeline = None, sk_upstream_profile = None,
     sk_max_concurrent = mx, sk_rpm_limit = 0\<rparr>"

theorem client_key_limit_holds_witness:
  "let w = lim_run (cw_acquire (\<lambda>t. sample_key 1)) cw_release cw_new [LimAcquire ''t'', LimAcquire ''t'']
   in cw_held w ''t'' \<le> 1 \<and> ck_get_inflight (cw_limiter w) ''t'' = cw_held w ''t''"
  using client_key_limit_holds [OF _ refl, of "[LimAcquire ''t'', LimAcquire ''t'']"
      "\<lambda>t. sample_key 1" "''t''"]
  by (simp add: Let_def sample_key_def)

text \<open>
  Renaming a client key while its requests are in flight loses their capacity: the new slot
  inherits the count of the old one, the old guards decrement the old slot, and after all of them
  are gone the limiter still reports the old number in flight and, if the limit was used up,
  refuses every request.
\<close>

theorem rename_leaks_capacity:
  assumes "cw_inv keyof w" and "hm_get (ck_slots (cw_limiter w)) t = Some a"
    and "sk_name key \<noteq> sk_name (keyof t)"
    and "v = cw_drop_all (w\<lparr>cw_limiter := ck_sync_key (cw_limiter w) t key\<rparr>)"
  shows "cw_guards v = [] \<and> ck_get_inflight (cw_limiter v) t = cw_held w t \<and>
    (0 < sk_max_concurrent key \<and> sk_max_concurrent key \<le> cw_held w t \<longrightarrow>
      map_option fst (ck_try_acquire (cw_limiter v) t key) = Some (Inl CkExceeded))"
proof -
  let ?l = "ck_sync_key (cw_limiter w) t key" and ?b = "length (ck_heap (cw_limiter w))"
  let ?w = "w\<lparr>cw_limiter := ?l\<rparr>"
  have slot: "a < ?b" "ck_consumer (ck_heap (cw_limiter w) ! a) = sk_name (keyof t)"
      "ck_inflight (ck_heap (cw_limiter w) ! a) = cw_held w t"
    using assms(1,2) by (auto simp: cw_inv_def)
  have l: "?l = ck_alloc (cw_limiter w) t (cw_held w t) key"
    using assms(2,3) slot by (auto simp: ck_sync_key_def Let_def)
  have "?b \<notin> ckg_slot ` set (cw_guards ?w)" using assms(1) by (fastforce simp: cw_inv_def)
  then have v: "ck_heap (cw_limiter v) ! ?b = ck_heap ?l ! ?b" "ck_slots (cw_limiter v) = ck_slots ?l"
    using cw_drop_all_frame [of ?b ?w] by (auto simp: assms(4) cw_drop_all_def)
  have gone: "cw_guards v = []" by (simp add: assms(4) cw_drop_all_def cw_drop_all_guards)
  have here: "hm_get (ck_slots (cw_limiter v)) t = Some ?b"
    and at: "ck_heap (cw_limiter v) ! ?b = \<lparr>ck_inflight = cw_held w t,
        ck_max_concurrent = sk_max_concurrent key, ck_consumer = sk_name key, ck_key_id = sk_id key\<rparr>"
    by (simp_all add: v l ck_alloc_def)
  have "ck_sync_key (cw_limiter v) t key = cw_limiter v"
  proof -
    have "(ck_heap (cw_limiter v))[?b := ck_heap (cw_limiter v) ! ?b] = ck_heap (cw_limiter v)" by simp
    then show ?thesis using here by (simp add: ck_sync_key_def at Let_def)
  qed
  then show ?thesis using gone here at
    by (auto simp: ck_get_inflight_def ck_try_acquire_def Let_def)
qed

theorem rename_leaks_capacity_witness:
  "\<exists>w v. w = snd (cw_acquire (\<lambda>t. sample_key 1) cw_new ''t'') \<and>
     v = cw_drop_all (w\<lparr>cw_limiter := ck_sync_key (cw_limiter w) ''t'' ((sample_key 1)\<lparr>sk_name := ''m''\<rparr>)\<rparr>) \<and>
     cw_guards v = [] \<and>
     map_option fst (ck_try_acquire (cw_limiter v) ''t'' ((sample_key 1)\<lparr>sk_name := ''m''\<rparr>)) =
       Some (Inl CkExceeded)"
proof -
  let ?k = "\<lambda>t::string. sample_key 1" and ?key = "(sample_key 1)\<lparr>sk_name := ''m''\<rparr>"
  let ?w = "snd (cw_acquire ?k cw_new ''t'')"
  have inv: "cw_inv ?k cw_new" using cw_new_within [of ?k] by (simp add: ck.within_def)
  have "cw_inv ?k ?w" by (rule cw_acquire_inv [OF inv]) (simp add: cw_held_def cw_new_def)
  moreover have "hm_get (ck_slots (cw_limiter ?w)) ''t'' = Some 0" "cw_held ?w ''t'' = 1"
    by (simp_all add: cw_acquire_def ck_try_acquire_def ck_sync_key_def ck_alloc_def cw_new_def
        ck_new_def sample_key_def Let_def hm_insert_def hm_get_def cw_held_def)
  moreover have "sk_name ?key \<noteq> sk_name (?k ''t'')" by (simp add: sample_key_def)
  ultimately show ?thesis
    using rename_leaks_capacity [of ?k ?w "''t''" 0 ?key, OF _ _ _ refl] by (auto simp: sample_key_def)
qed

end
