(* ===== verification/DeepseekModel.thy ===== *)
theory DeepseekModel
  imports Text
begin

text \<open>
  The thinking suffixes of DeepSeek V4 model names
  (\<^verbatim>\<open>src/crates/crab-reasoning/src/normalize.rs\<close>), shared by the client detection and
  the per-user concurrency limiter.
\<close>

section \<open>Parsing the suffix\<close>

record v4_suffix_parse =
  base_model :: string
  thinking_mode_override :: "string option"
  reasoning_effort_override :: "string option"
  matched :: bool

fun try_suffixes :: "string \<Rightarrow> (string \<times> string \<times> string option) list \<Rightarrow> v4_suffix_parse" where
  "try_suffixes model [] =
     \<lparr>base_model = model, thinking_mode_override = None, reasoning_effort_override = None,
      matched = False\<rparr>"
| "try_suffixes model ((suffix, thinking, effort) # rest) =
     (case strip_suffix model suffix of
        Some base \<Rightarrow>
          if starts_with base ''deepseek-v4-''
          then \<lparr>base_model = base, thinking_mode_override = Some thinking,
                reasoning_effort_override = effort, matched = True\<rparr>
          else try_suffixes model rest
      | None \<Rightarrow> try_suffixes model rest)"

definition parse_deepseek_v4_thinking_suffix :: "string \<Rightarrow> v4_suffix_parse" where
  "parse_deepseek_v4_thinking_suffix model =
     try_suffixes model [(''-none'', ''disabled'', None), (''-max'', ''enabled'', Some ''max'')]"

definition is_deepseek_v4_model :: "string \<Rightarrow> bool" where
  "is_deepseek_v4_model model =
     starts_with (base_model (parse_deepseek_v4_thinking_suffix model)) ''deepseek-v4-''"

section \<open>Laws\<close>

lemma v4_suffix_base:
  "base_model (parse_deepseek_v4_thinking_suffix m) = m \<and>
     \<not> matched (parse_deepseek_v4_thinking_suffix m) \<or>
   (\<exists>suffix \<in> {''-none'', ''-max''}.
      m = base_model (parse_deepseek_v4_thinking_suffix m) @ suffix \<and>
      starts_with (base_model (parse_deepseek_v4_thinking_suffix m)) ''deepseek-v4-'')"
  unfolding parse_deepseek_v4_thinking_suffix_def try_suffixes.simps
  by (auto simp: strip_suffix_Some_iff split: option.split)

lemma is_deepseek_v4_model_iff: "is_deepseek_v4_model m \<longleftrightarrow> starts_with m ''deepseek-v4-''"
proof -
  have "starts_with (b @ t) ''deepseek-v4-''" if "starts_with b ''deepseek-v4-''" for b t
    using that unfolding starts_with_iff by auto
  then show ?thesis unfolding is_deepseek_v4_model_def
    using v4_suffix_base [of m] by metis
qed

end
