(* ===== verification/UserIdLimiter.thy ===== *)
theory UserIdLimiter
  imports LimiterSpec DeepseekModel
begin

text \<open>
  The per-user concurrency limiter for DeepSeek upstreams
  (\<^verbatim>\<open>crab-proxy/src/upstream_user_id_limiter.rs\<close>). Slots are shared objects addressed in a heap;
  \<open>release\<close> is split at its atomic accesses. Shown: run one operation at a time the limiter
  implements the interface of \<open>LimiterSpec\<close> and frees idle slots; interleaved, the removal of an
  idle slot can race with an acquisition and let the limit be exceeded.
\<close>

section \<open>Tiers\<close>

datatype deepseek_concurrency_tier = Pro | Flash

fun tier_as_str :: "deepseek_concurrency_tier \<Rightarrow> string" where
  "tier_as_str Pro = ''pro''"
| "tier_as_str Flash = ''flash''"

record deepseek_user_concurrency_config =
  duc_enabled :: bool
  v4_pro_per_user_id :: nat
  v4_flash_per_user_id :: nat

definition default_user_concurrency_config :: deepseek_user_concurrency_config where
  "default_user_concurrency_config =
     \<lparr>duc_enabled = False, v4_pro_per_user_id = 500, v4_flash_per_user_id = 2500\<rparr>"

fun tier_max_for :: "deepseek_concurrency_tier \<Rightarrow> deepseek_user_concurrency_config \<Rightarrow> nat" where
  "tier_max_for Pro cfg = v4_pro_per_user_id cfg"
| "tier_max_for Flash cfg = v4_flash_per_user_id cfg"

definition classify_deepseek_v4_tier :: "string \<Rightarrow> deepseek_concurrency_tier option" where
  "classify_deepseek_v4_tier model =
     (let base = base_model (parse_deepseek_v4_thinking_suffix model)
      in if \<not> starts_with base ''deepseek-v4-'' then None
         else if str_contains base ''flash'' then Some Flash
         else Some Pro)"

section \<open>The limiter\<close>

datatype user_id_limit_error = UidExceeded

record tier_slot =
  ts_inflight :: nat
  ts_max :: nat

record user_id_limiter =
  ul_enabled :: bool
  ul_pro_max :: nat
  ul_flash_max :: nat
  ul_pro_total :: nat
  ul_flash_total :: nat
  ul_heap :: "tier_slot list"
  ul_slots :: "(string, nat) hmap"

record user_id_guard =
  ug_slot_key :: string
  ug_tier :: deepseek_concurrency_tier
  ug_slot :: nat

definition ul_new :: "deepseek_user_concurrency_config \<Rightarrow> user_id_limiter" where
  "ul_new cfg =
     \<lparr>ul_enabled = duc_enabled cfg, ul_pro_max = v4_pro_per_user_id cfg,
      ul_flash_max = v4_flash_per_user_id cfg, ul_pro_total = 0, ul_flash_total = 0,
      ul_heap = [], ul_slots = []\<rparr>"

definition ul_configure ::
  "user_id_limiter \<Rightarrow> deepseek_user_concurrency_config \<Rightarrow> user_id_limiter"
where
  "ul_configure l cfg =
     l\<lparr>ul_enabled := duc_enabled cfg, ul_pro_max := v4_pro_per_user_id cfg,
       ul_flash_max := v4_flash_per_user_id cfg\<rparr>"

definition uid_slot_key :: "string \<Rightarrow> deepseek_concurrency_tier \<Rightarrow> string" where
  "uid_slot_key user_id tier = tier_as_str tier @ '':'' @ user_id"

fun ul_max_for_tier :: "user_id_limiter \<Rightarrow> deepseek_concurrency_tier \<Rightarrow> nat" where
  "ul_max_for_tier l Pro = ul_pro_max l"
| "ul_max_for_tier l Flash = ul_flash_max l"

definition ul_sync_slot ::
  "user_id_limiter \<Rightarrow> string \<Rightarrow> deepseek_concurrency_tier \<Rightarrow> nat \<times> user_id_limiter"
where
  "ul_sync_slot l user_id tier =
     (let key = uid_slot_key user_id tier; mx = ul_max_for_tier l tier
      in case hm_get (ul_slots l) key of
           Some a \<Rightarrow> (a, l\<lparr>ul_heap := (ul_heap l)[a := (ul_heap l ! a)\<lparr>ts_max := mx\<rparr>]\<rparr>)
         | None \<Rightarrow>
             (length (ul_heap l),
              l\<lparr>ul_heap := ul_heap l @ [\<lparr>ts_inflight = 0, ts_max = mx\<rparr>],
                ul_slots := hm_insert (ul_slots l) key (length (ul_heap l))\<rparr>))"

fun ul_bump_up :: "user_id_limiter \<Rightarrow> deepseek_concurrency_tier \<Rightarrow> user_id_limiter" where
  \<comment> \<open>\<open>bump_tier_total\<close> with delta 1\<close>
  "ul_bump_up l Pro = l\<lparr>ul_pro_total := wrap_add 64 (ul_pro_total l) 1\<rparr>"
| "ul_bump_up l Flash = l\<lparr>ul_flash_total := wrap_add 64 (ul_flash_total l) 1\<rparr>"

fun ul_bump_down :: "user_id_limiter \<Rightarrow> deepseek_concurrency_tier \<Rightarrow> user_id_limiter" where
  \<comment> \<open>\<open>bump_tier_total\<close> with delta -1\<close>
  "ul_bump_down l Pro = l\<lparr>ul_pro_total := wrap_sub 64 (ul_pro_total l) 1\<rparr>"
| "ul_bump_down l Flash = l\<lparr>ul_flash_total := wrap_sub 64 (ul_flash_total l) 1\<rparr>"

definition ul_cas_slot ::
  "user_id_limiter \<Rightarrow> string \<Rightarrow> deepseek_concurrency_tier \<Rightarrow> nat
     \<Rightarrow> (user_id_limit_error + user_id_guard) \<times> user_id_limiter"
where
  \<comment> \<open>the loop of \<open>try_acquire\<close> on the slot it was given, at its successful swap\<close>
  "ul_cas_slot l user_id tier a =
     (let slot = ul_heap l ! a; current = ts_inflight slot; mx = ts_max slot
      in if 0 < mx \<and> mx \<le> current then (Inl UidExceeded, l)
         else (Inr \<lparr>ug_slot_key = uid_slot_key user_id tier, ug_tier = tier, ug_slot = a\<rparr>,
               ul_bump_up (l\<lparr>ul_heap := (ul_heap l)
                              [a := slot\<lparr>ts_inflight := wrap_add 64 current 1\<rparr>]\<rparr>) tier))"

definition ul_try_acquire ::
  "user_id_limiter \<Rightarrow> string \<Rightarrow> deepseek_concurrency_tier
     \<Rightarrow> (user_id_limit_error + user_id_guard) \<times> user_id_limiter"
where
  "ul_try_acquire l user_id tier =
     (if \<not> ul_enabled l
      then (Inr \<lparr>ug_slot_key = [], ug_tier = tier, ug_slot = length (ul_heap l)\<rparr>,
            l\<lparr>ul_heap := ul_heap l @ [\<lparr>ts_inflight = 0, ts_max = 0\<rparr>]\<rparr>)
      else let (a, l') = ul_sync_slot l user_id tier in ul_cas_slot l' user_id tier a)"

definition ul_release_decrement :: "user_id_limiter \<Rightarrow> user_id_guard \<Rightarrow> user_id_limiter" where
  \<comment> \<open>first access of \<open>release\<close>: the decrement and the tier total\<close>
  "ul_release_decrement l g =
     (let slot = ul_heap l ! ug_slot g; prev = ts_inflight slot;
          l' = l\<lparr>ul_heap := (ul_heap l)[ug_slot g := slot\<lparr>ts_inflight := wrap_sub 64 prev 1\<rparr>]\<rparr>
      in if 0 < prev then ul_bump_down l' (ug_tier g) else l')"

definition ul_release_check :: "user_id_limiter \<Rightarrow> user_id_guard \<Rightarrow> bool" where
  \<comment> \<open>second access: idle, and still the slot of the map\<close>
  "ul_release_check l g \<longleftrightarrow>
     ul_enabled l \<and> ts_inflight (ul_heap l ! ug_slot g) = 0 \<and>
     hm_get (ul_slots l) (ug_slot_key g) = Some (ug_slot g)"

definition ul_release_remove :: "user_id_limiter \<Rightarrow> user_id_guard \<Rightarrow> user_id_limiter" where
  \<comment> \<open>third access, after the read guard of the map is dropped\<close>
  "ul_release_remove l g = l\<lparr>ul_slots := hm_remove (ul_slots l) (ug_slot_key g)\<rparr>"

definition ul_release :: "user_id_limiter \<Rightarrow> user_id_guard \<Rightarrow> user_id_limiter" where
  "ul_release l g =
     (if ug_slot_key g = [] then l
      else let l' = ul_release_decrement l g
           in if ul_release_check l' g then ul_release_remove l' g else l')"

section \<open>The limiter with its live guards\<close>

record ul_world =
  uw_limiter :: user_id_limiter
  uw_guards :: "user_id_guard list"

type_synonym user_tier = "string \<times> deepseek_concurrency_tier"

definition uw_acquire :: "ul_world \<Rightarrow> user_tier \<Rightarrow> bool \<times> ul_world" where
  "uw_acquire w ut =
     (case ul_try_acquire (uw_limiter w) (fst ut) (snd ut) of
        (Inr g, l) \<Rightarrow> (True, \<lparr>uw_limiter = l, uw_guards = uw_guards w @ [g]\<rparr>)
      | (Inl e, l) \<Rightarrow> (False, w\<lparr>uw_limiter := l\<rparr>))"

definition uw_release :: "ul_world \<Rightarrow> nat \<Rightarrow> ul_world" where
  "uw_release w i =
     (if i < length (uw_guards w)
      then \<lparr>uw_limiter = ul_release (uw_limiter w) (uw_guards w ! i),
            uw_guards = take i (uw_guards w) @ drop (Suc i) (uw_guards w)\<rparr>
      else w)"

definition uw_held_key :: "ul_world \<Rightarrow> string \<Rightarrow> nat" where
  "uw_held_key w k = count_list (map ug_slot_key (uw_guards w)) k"

definition uw_held :: "ul_world \<Rightarrow> user_tier \<Rightarrow> nat" where
  "uw_held w ut = uw_held_key w (uid_slot_key (fst ut) (snd ut))"

definition uw_inv :: "deepseek_user_concurrency_config \<Rightarrow> ul_world \<Rightarrow> bool" where
  "uw_inv cfg w \<longleftrightarrow>
     ul_enabled (uw_limiter w) \<and>
     ul_pro_max (uw_limiter w) = v4_pro_per_user_id cfg \<and>
     ul_flash_max (uw_limiter w) = v4_flash_per_user_id cfg \<and>
     (\<forall>k a. hm_get (ul_slots (uw_limiter w)) k = Some a \<longrightarrow>
        a < length (ul_heap (uw_limiter w)) \<and>
        ts_inflight (ul_heap (uw_limiter w) ! a) = uw_held_key w k) \<and>
     (\<forall>k l a. hm_get (ul_slots (uw_limiter w)) k = Some a \<longrightarrow>
        hm_get (ul_slots (uw_limiter w)) l = Some a \<longrightarrow> k = l) \<and>
     (\<forall>g \<in> set (uw_guards w). (\<exists>u t. ug_slot_key g = uid_slot_key u t) \<and>
        hm_get (ul_slots (uw_limiter w)) (ug_slot_key g) = Some (ug_slot g))"

section \<open>Lemmas\<close>

lemma uid_slot_key_inject [simp]:
  "uid_slot_key u t = uid_slot_key v s \<longleftrightarrow> u = v \<and> t = s"
  by (cases t; cases s) (auto simp: uid_slot_key_def)

lemma uid_slot_key_not_empty [simp]: "uid_slot_key u t \<noteq> []"
  by (cases t) (simp_all add: uid_slot_key_def)

lemma ul_bump_frame [simp]:
  "ul_heap (ul_bump_up l t) = ul_heap l" "ul_slots (ul_bump_up l t) = ul_slots l"
  "ul_enabled (ul_bump_up l t) = ul_enabled l" "ul_pro_max (ul_bump_up l t) = ul_pro_max l"
  "ul_flash_max (ul_bump_up l t) = ul_flash_max l"
  "ul_heap (ul_bump_down l t) = ul_heap l" "ul_slots (ul_bump_down l t) = ul_slots l"
  "ul_enabled (ul_bump_down l t) = ul_enabled l" "ul_pro_max (ul_bump_down l t) = ul_pro_max l"
  "ul_flash_max (ul_bump_down l t) = ul_flash_max l"
  by (cases t, simp_all)+

lemma uw_inv_max: "uw_inv cfg w \<Longrightarrow> ul_max_for_tier (uw_limiter w) t = tier_max_for t cfg"
  by (cases t) (auto simp: uw_inv_def)

lemma uw_held_absent:
  "uw_inv cfg w \<Longrightarrow> hm_get (ul_slots (uw_limiter w)) k = None \<Longrightarrow> uw_held_key w k = 0"
  by (force simp: uw_inv_def uw_held_key_def count_list_0_iff)

lemma uw_sync:
  assumes "uw_inv cfg w"
  obtains a l where "ul_sync_slot (uw_limiter w) u t = (a, l)" and "uw_inv cfg (w\<lparr>uw_limiter := l\<rparr>)"
    and "hm_get (ul_slots l) (uid_slot_key u t) = Some a" and "ts_max (ul_heap l ! a) = tier_max_for t cfg"
proof (cases "hm_get (ul_slots (uw_limiter w)) (uid_slot_key u t)")
  case None
  let ?a = "length (ul_heap (uw_limiter w))"
  have fresh: "hm_get (ul_slots (uw_limiter w)) k \<noteq> Some ?a" for k
    using assms by (auto simp: uw_inv_def)
  let ?l = "snd (ul_sync_slot (uw_limiter w) u t)"
  have sync: "ul_sync_slot (uw_limiter w) u t = (?a, ?l)"
    using None by (simp add: ul_sync_slot_def Let_def)
  have "uw_inv cfg (w\<lparr>uw_limiter := ?l\<rparr>)"
    using assms None fresh uw_held_absent [OF assms None]
    by (auto simp: uw_inv_def ul_sync_slot_def uw_held_key_def nth_append less_Suc_eq Let_def)
  then show thesis
    using that [OF sync] None uw_inv_max [OF assms] by (simp add: ul_sync_slot_def Let_def)
next
  case (Some a)
  let ?l = "snd (ul_sync_slot (uw_limiter w) u t)"
  have sync: "ul_sync_slot (uw_limiter w) u t = (a, ?l)"
    using Some by (simp add: ul_sync_slot_def Let_def)
  have "uw_inv cfg (w\<lparr>uw_limiter := ?l\<rparr>)"
    using assms Some by (auto simp: uw_inv_def ul_sync_slot_def uw_held_key_def nth_update_if Let_def)
  moreover have "a < length (ul_heap (uw_limiter w))" using assms Some by (auto simp: uw_inv_def)
  ultimately show thesis
    using that [OF sync] Some uw_inv_max [OF assms] by (simp add: ul_sync_slot_def Let_def)
qed

lemma uw_acquire_cases:
  assumes "uw_inv cfg w" and "uw_held w (u, t) + 1 < 2 ^ 64"
  obtains a l where "uw_inv cfg (w\<lparr>uw_limiter := l\<rparr>)" and "hm_get (ul_slots l) (uid_slot_key u t) = Some a"
    and "uw_acquire w (u, t) =
      (if 0 < tier_max_for t cfg \<and> tier_max_for t cfg \<le> uw_held w (u, t)
       then (False, w\<lparr>uw_limiter := l\<rparr>)
       else (True, \<lparr>uw_limiter = ul_bump_up (l\<lparr>ul_heap := (ul_heap l)
                     [a := (ul_heap l ! a)\<lparr>ts_inflight := uw_held w (u, t) + 1\<rparr>]\<rparr>) t,
                    uw_guards = uw_guards w @
                      [\<lparr>ug_slot_key = uid_slot_key u t, ug_tier = t, ug_slot = a\<rparr>]\<rparr>))"
proof -
  obtain a l where s: "ul_sync_slot (uw_limiter w) u t = (a, l)" "uw_inv cfg (w\<lparr>uw_limiter := l\<rparr>)"
      "hm_get (ul_slots l) (uid_slot_key u t) = Some a" "ts_max (ul_heap l ! a) = tier_max_for t cfg"
    using uw_sync [OF assms(1)] by metis
  have "ts_inflight (ul_heap l ! a) = uw_held w (u, t)"
    using s(2,3) by (auto simp: uw_inv_def uw_held_def uw_held_key_def)
  moreover have "ul_enabled (uw_limiter w)" using assms(1) by (simp add: uw_inv_def)
  ultimately show thesis
    using that [OF s(2,3)] s assms(2)
    by (simp add: uw_acquire_def ul_try_acquire_def ul_cas_slot_def Let_def wrap_add_exact)
qed

lemma uw_acquire_inv:
  assumes "uw_inv cfg w" and "uw_held w ut + 1 < 2 ^ 64"
  shows "uw_inv cfg (snd (uw_acquire w ut))"
proof -
  obtain u t where ut: "ut = (u, t)" by (cases ut)
  show ?thesis
    by (rule uw_acquire_cases [OF assms(1), of u t])
      (use assms(2) ut in \<open>auto simp: uw_inv_def uw_held_def uw_held_key_def nth_update_if\<close>)
qed

lemma uw_acquire_held:
  assumes "uw_inv cfg w" and "uw_held w ut + 1 < 2 ^ 64"
  shows "uw_held (snd (uw_acquire w ut)) vt =
      uw_held w vt + (if fst (uw_acquire w ut) \<and> vt = ut then 1 else 0)"
    and "fst (uw_acquire w ut) \<longleftrightarrow>
      tier_max_for (snd ut) cfg = 0 \<or> uw_held w ut < tier_max_for (snd ut) cfg"
proof -
  obtain u t v s where ut: "ut = (u, t)" "vt = (v, s)" by (cases ut, cases vt)
  show "uw_held (snd (uw_acquire w ut)) vt =
      uw_held w vt + (if fst (uw_acquire w ut) \<and> vt = ut then 1 else 0)"
    by (rule uw_acquire_cases [OF assms(1), of u t])
      (use assms(2) ut in \<open>auto simp: uw_held_def uw_held_key_def\<close>)
  show "fst (uw_acquire w ut) \<longleftrightarrow>
      tier_max_for (snd ut) cfg = 0 \<or> uw_held w ut < tier_max_for (snd ut) cfg"
    by (rule uw_acquire_cases [OF assms(1), of u t]) (use assms(2) ut in auto)
qed

lemma uw_release_held: "uw_held (uw_release w i) ut \<le> uw_held w ut"
  using count_list_delete_nth [of i "map ug_slot_key (uw_guards w)" "uid_slot_key (fst ut) (snd ut)"]
  by (auto simp: uw_release_def uw_held_def uw_held_key_def take_map drop_map)

lemma uw_release_counts:
  assumes "uw_inv cfg w" and "\<forall>ut. uw_held w ut < 2 ^ 64" and "i < length (uw_guards w)"
    and "g = uw_guards w ! i" and "gs = take i (uw_guards w) @ drop (Suc i) (uw_guards w)"
  shows "hm_get (ul_slots (uw_limiter w)) k = Some a \<Longrightarrow> count_list (map ug_slot_key gs) k =
      (if a = ug_slot g then wrap_sub 64 (uw_held_key w k) 1 else uw_held_key w k)"
    and "ug_slot_key g \<noteq> []" and "hm_get (ul_slots (uw_limiter w)) (ug_slot_key g) = Some (ug_slot g)"
proof -
  have "g \<in> set (uw_guards w)" using assms(3,4) by simp
  then obtain u t where ut: "ug_slot_key g = uid_slot_key u t"
    and g: "hm_get (ul_slots (uw_limiter w)) (ug_slot_key g) = Some (ug_slot g)"
    using assms(1) by (auto simp: uw_inv_def)
  show "hm_get (ul_slots (uw_limiter w)) (ug_slot_key g) = Some (ug_slot g)" by (rule g)
  show "ug_slot_key g \<noteq> []" using ut by simp
  assume k: "hm_get (ul_slots (uw_limiter w)) k = Some a"
  have cnt: "count_list (map ug_slot_key gs) k + (if ug_slot_key g = k then 1 else 0) = uw_held_key w k"
    using count_list_delete_nth [of i "map ug_slot_key (uw_guards w)" k] assms(3)
    by (simp add: uw_held_key_def assms(4,5) take_map drop_map)
  show "count_list (map ug_slot_key gs) k =
      (if a = ug_slot g then wrap_sub 64 (uw_held_key w k) 1 else uw_held_key w k)"
  proof (cases "ug_slot_key g = k")
    case True
    have "uw_held_key w k < 2 ^ 64"
      using assms(2) True ut by (metis fst_conv snd_conv uw_held_def)
    then show ?thesis
      using True k g cnt wrap_sub_exact [of 1 "uw_held_key w k" 64] by auto
  next
    case False
    then have "a \<noteq> ug_slot g" using k g assms(1) by (auto simp: uw_inv_def)
    then show ?thesis using False cnt by auto
  qed
qed

lemma uw_release_inv:
  assumes "uw_inv cfg w" and "\<forall>ut. uw_held w ut < 2 ^ 64"
  shows "uw_inv cfg (uw_release w i)"
proof (cases "i < length (uw_guards w)")
  case True
  define g where "g = uw_guards w ! i"
  define gs where "gs = take i (uw_guards w) @ drop (Suc i) (uw_guards w)"
  define l where "l = ul_release_decrement (uw_limiter w) g"
  note cnt = uw_release_counts [OF assms True g_def gs_def]
  have rel: "uw_release w i = \<lparr>uw_limiter =
      (if ul_release_check l g then ul_release_remove l g else l), uw_guards = gs\<rparr>"
    using True cnt(2) by (simp add: uw_release_def ul_release_def l_def Let_def flip: g_def gs_def)
  have sub: "set gs \<subseteq> set (uw_guards w)"
    by (auto simp: gs_def dest: in_set_takeD in_set_dropD)
  have l_frame: "ul_slots l = ul_slots (uw_limiter w)" "ul_enabled l = ul_enabled (uw_limiter w)"
      "ul_pro_max l = ul_pro_max (uw_limiter w)" "ul_flash_max l = ul_flash_max (uw_limiter w)"
      "ul_heap l = (ul_heap (uw_limiter w))[ug_slot g := (ul_heap (uw_limiter w) ! ug_slot g)
        \<lparr>ts_inflight := wrap_sub 64 (ts_inflight (ul_heap (uw_limiter w) ! ug_slot g)) 1\<rparr>]"
    by (simp_all add: l_def ul_release_decrement_def Let_def)
  have inv_l: "uw_inv cfg \<lparr>uw_limiter = l, uw_guards = gs\<rparr>"
    using assms(1) cnt(1) sub
    by (auto simp: uw_inv_def uw_held_key_def l_frame nth_update_if)
  show ?thesis
  proof (cases "ul_release_check l g")
    case False
    then show ?thesis using inv_l by (simp add: rel)
  next
    case chk: True
    then have "ts_inflight (ul_heap l ! ug_slot g) = 0"
      and "hm_get (ul_slots l) (ug_slot_key g) = Some (ug_slot g)" by (auto simp: ul_release_check_def)
    then have "count_list (map ug_slot_key gs) (ug_slot_key g) = 0"
      using inv_l by (auto simp: uw_inv_def uw_held_key_def)
    then have "\<forall>h \<in> set gs. ug_slot_key h \<noteq> ug_slot_key g"
      by (metis count_list_0_iff imageI list.set_map)
    then show ?thesis
      using inv_l chk by (auto simp: rel uw_inv_def ul_release_remove_def uw_held_key_def split: if_splits)
  qed
next
  case False
  then show ?thesis using assms(1) by (simp add: uw_release_def)
qed

interpretation ul: concurrency_limiter "uw_inv cfg" "\<lambda>ut. tier_max_for (snd ut) cfg" uw_held
  uw_acquire uw_release for cfg
proof unfold_locales
  fix w ut vt
  show "uw_inv cfg w \<Longrightarrow> uw_held w ut + 1 < 2 ^ 64 \<Longrightarrow> fst (uw_acquire w ut) \<longleftrightarrow>
      tier_max_for (snd ut) cfg = 0 \<or> uw_held w ut < tier_max_for (snd ut) cfg"
    by (rule uw_acquire_held(2))
  show "uw_inv cfg w \<Longrightarrow> uw_held w ut + 1 < 2 ^ 64 \<Longrightarrow> uw_held (snd (uw_acquire w ut)) vt =
      uw_held w vt + (if fst (uw_acquire w ut) \<and> vt = ut then 1 else 0)"
    by (rule uw_acquire_held(1))
qed (auto intro: uw_acquire_inv uw_release_inv uw_release_held)

definition uw_new :: "deepseek_user_concurrency_config \<Rightarrow> ul_world" where
  "uw_new cfg = \<lparr>uw_limiter = ul_new cfg, uw_guards = []\<rparr>"

lemma uw_new_within: "duc_enabled cfg \<Longrightarrow> ul.within cfg (uw_new cfg)"
  by (simp add: ul.within_def uw_inv_def uw_new_def ul_new_def uw_held_def uw_held_key_def)

section \<open>Properties\<close>

text \<open>
  With the limiter enabled and its operations run one at a time, no history of acquisitions
  and releases takes a user above the limit of the tier, the two tiers of a user are counted
  apart, and a slot of the map always counts its live guards.
\<close>

theorem user_id_limit_holds:
  assumes "duc_enabled cfg" and "length rs < 2 ^ 64"
    and "w = lim_run uw_acquire uw_release (uw_new cfg) rs"
  shows "(0 < tier_max_for t cfg \<longrightarrow> uw_held w (u, t) \<le> tier_max_for t cfg) \<and>
    (\<forall>a. hm_get (ul_slots (uw_limiter w)) (uid_slot_key u t) = Some a \<longrightarrow>
       ts_inflight (ul_heap (uw_limiter w) ! a) = uw_held w (u, t)) \<and>
    (hm_get (ul_slots (uw_limiter w)) (uid_slot_key u t) = None \<longrightarrow> uw_held w (u, t) = 0)"
proof -
  have "uw_held (uw_new cfg) k + length rs < 2 ^ 64" for k
    using assms(2) by (simp add: uw_held_def uw_held_key_def uw_new_def)
  then have w: "ul.within cfg w"
    unfolding assms(3) by (intro ul.never_exceeds_cap [OF uw_new_within [OF assms(1)]]) blast
  then have inv: "uw_inv cfg w" by (simp add: ul.within_def)
  then show ?thesis
    using w uw_held_absent [OF inv, of "uid_slot_key u t"]
    by (auto simp: ul.within_def uw_inv_def uw_held_def)
qed

definition one_per_user :: deepseek_user_concurrency_config where
  "one_per_user = \<lparr>duc_enabled = True, v4_pro_per_user_id = 1, v4_flash_per_user_id = 1\<rparr>"

theorem user_id_limit_holds_witness:
  "uw_held (lim_run uw_acquire uw_release (uw_new one_per_user)
     [LimAcquire (''u'', Pro), LimAcquire (''u'', Pro), LimAcquire (''u'', Flash)]) (''u'', Pro) \<le> 1"
  using user_id_limit_holds [OF _ _ refl, of one_per_user
      "[LimAcquire (''u'', Pro), LimAcquire (''u'', Pro), LimAcquire (''u'', Flash)]" Pro "''u''"]
  by (simp add: one_per_user_def)

text \<open>
  The check of an idle slot and its removal are not atomic: between them a second request can
  acquire the slot, which the removal then takes out of the map, so that a third request is
  admitted on a fresh slot. With a limit of one, two guards of one user are live at once.
\<close>

theorem idle_slot_removal_race:
  "\<exists>g1 g2 g3 l1 l2 l3 l4 l5.
     ul_try_acquire (ul_new one_per_user) ''u'' Pro = (Inr g1, l1) \<and>
     l2 = ul_release_decrement l1 g1 \<and> ul_release_check l2 g1 \<and>
     ul_try_acquire l2 ''u'' Pro = (Inr g2, l3) \<and>
     l4 = ul_release_remove l3 g1 \<and>
     ul_try_acquire l4 ''u'' Pro = (Inr g3, l5) \<and>
     ug_slot_key g2 = ug_slot_key g3 \<and> ug_slot g2 \<noteq> ug_slot g3 \<and>
     ts_inflight (ul_heap l5 ! ug_slot g2) = 1 \<and> ts_inflight (ul_heap l5 ! ug_slot g3) = 1 \<and>
     ul_max_for_tier l5 Pro = 1"
  by (simp add: ul_try_acquire_def ul_new_def one_per_user_def ul_sync_slot_def ul_cas_slot_def
      ul_release_decrement_def ul_release_check_def ul_release_remove_def uid_slot_key_def Let_def
      hm_get_def hm_insert_def hm_remove_def wrap_add_def wrap_sub_def)

end
