(* ===== verification/F64.thy ===== *)
theory F64
  imports Complex_Main "HOL-Library.Log_Nat"
begin

text \<open>
  IEEE 754 binary64 arithmetic on finite values, which the sources use for quota percentages,
  token buckets and scores. A value is the rational it denotes; every operation is the exact one
  followed by rounding to nearest, ties to even, with the exponent range of subnormals at the
  bottom. Overflow to infinity and NaN do not arise from the values of this code (parsed JSON
  numbers and counters) and are left out.
\<close>

type_synonym f64 = rat

definition pow2 :: "int \<Rightarrow> rat" where
  "pow2 k = (if 0 \<le> k then 2 ^ nat k else 1 / 2 ^ nat (- k))"

definition f64_exponent :: "rat \<Rightarrow> int" where
  \<comment> \<open>the exponent of a non-zero value, from the bit lengths of numerator and denominator\<close>
  "f64_exponent q =
     (let (n, d) = quotient_of \<bar>q\<bar>;
          k = int (floorlog 2 (nat n)) - int (floorlog 2 (nat d))
      in if pow2 k \<le> \<bar>q\<bar> then k else k - 1)"

definition round_half_even :: "rat \<Rightarrow> int" where
  "round_half_even x =
     (let f = \<lfloor>x\<rfloor>; r = x - of_int f
      in if r < 1 / 2 then f else if 1 / 2 < r then f + 1 else if even f then f else f + 1)"

definition f64_round :: "rat \<Rightarrow> f64" where
  "f64_round q =
     (if q = 0 then 0
      else let u = pow2 (max (f64_exponent q) (- 1022) - 52)
           in of_int (round_half_even (q / u)) * u)"

definition f64_add :: "f64 \<Rightarrow> f64 \<Rightarrow> f64" where
  "f64_add a b = f64_round (a + b)"

definition f64_sub :: "f64 \<Rightarrow> f64 \<Rightarrow> f64" where
  "f64_sub a b = f64_round (a - b)"

definition f64_mul :: "f64 \<Rightarrow> f64 \<Rightarrow> f64" where
  "f64_mul a b = f64_round (a * b)"

definition f64_div :: "f64 \<Rightarrow> f64 \<Rightarrow> f64" where
  "f64_div a b = f64_round (a / b)"

definition f64_of_nat :: "nat \<Rightarrow> f64" where
  \<comment> \<open>\<open>n as f64\<close>\<close>
  "f64_of_nat n = f64_round (of_nat n)"

definition f64_to_u64 :: "f64 \<Rightarrow> nat" where
  \<comment> \<open>\<open>x as u64\<close> and \<open>x as usize\<close>: truncating and saturating\<close>
  "f64_to_u64 x = min (nat \<lfloor>x\<rfloor>) (2 ^ 64 - 1)"

section \<open>Powers of two\<close>

lemma pow2_pos [simp]: "0 < pow2 k"
  by (simp add: pow2_def)

lemma pow2_nonzero [simp]: "pow2 k \<noteq> 0"
  using pow2_pos [of k] by linarith

lemma pow2_nat: "pow2 (int n) = 2 ^ n"
  by (simp add: pow2_def)

lemma pow2_Suc: "pow2 (k + 1) = 2 * pow2 k"
proof (cases "0 \<le> k")
  case True
  then have "nat (k + 1) = Suc (nat k)" by simp
  then show ?thesis using True by (simp add: pow2_def)
next
  case False
  then obtain m where m: "nat (- k) = Suc m" by (metis Suc_pred neg_0_less_iff_less not_le zero_less_nat_eq)
  then have "nat (- (k + 1)) = m" by simp
  then show ?thesis using False m by (cases "k = -1") (simp_all add: pow2_def)
qed

lemma pow2_add_nat: "pow2 (k + int n) = pow2 k * 2 ^ n"
proof (induction n)
  case (Suc n)
  have "pow2 (k + int (Suc n)) = pow2 ((k + int n) + 1)" by (simp add: ac_simps)
  then show ?case using Suc by (simp add: pow2_Suc)
qed simp

lemma pow2_mono: "j \<le> k \<Longrightarrow> pow2 j \<le> pow2 k"
proof -
  assume "j \<le> k"
  then have "pow2 k = pow2 j * 2 ^ nat (k - j)" using pow2_add_nat [of j "nat (k - j)"] by simp
  then show ?thesis by simp
qed

section \<open>Rounding\<close>

lemma round_half_even_of_int [simp]: "round_half_even (of_int n) = n"
  by (simp add: round_half_even_def)

lemma round_half_even_error: "\<bar>of_int (round_half_even x) - x\<bar> \<le> 1 / 2"
proof -
  have "of_int \<lfloor>x\<rfloor> \<le> x" "x < of_int \<lfloor>x\<rfloor> + 1" by linarith+
  then show ?thesis by (auto simp: round_half_even_def Let_def)
qed

lemma round_half_even_nonneg: "0 \<le> x \<Longrightarrow> 0 \<le> round_half_even x"
proof -
  assume "0 \<le> x"
  then have "0 \<le> \<lfloor>x\<rfloor>" by simp
  then show ?thesis by (auto simp: round_half_even_def Let_def)
qed

lemma f64_round_0 [simp]: "f64_round 0 = 0"
  by (simp add: f64_round_def)

lemma f64_round_nonneg: "0 \<le> q \<Longrightarrow> 0 \<le> f64_round q"
  by (simp add: f64_round_def Let_def round_half_even_nonneg less_imp_le)

lemma f64_round_grid:
  \<comment> \<open>a multiple of its unit in the last place is representable\<close>
  assumes "q = of_int m * pow2 (max (f64_exponent q) (- 1022) - 52)"
  shows "f64_round q = q"
proof -
  have "q / pow2 (max (f64_exponent q) (- 1022) - 52) = of_int m"
    by (subst (1) assms) simp
  then show ?thesis using assms [symmetric] by (simp add: f64_round_def Let_def)
qed

lemma floorlog_2_bounds:
  assumes "0 < n"
  shows "2 ^ (floorlog 2 n - 1) \<le> n" and "n < 2 ^ floorlog 2 n" and "0 < floorlog 2 n"
  using floorlog_bounds [of n 2] assms by (auto simp: floorlog_def)

lemma f64_exponent_of_nat_le:
  assumes "0 < n" and "n < 2 ^ b"
  shows "f64_exponent (of_nat n) \<le> int b - 1"
proof -
  let ?k = "floorlog 2 n"
  have quot: "quotient_of \<bar>of_nat n :: rat\<bar> = (int n, 1)"
    using quotient_of_int [of "int n"] by simp
  have one: "floorlog 2 (nat 1) = 1" "nat (int n) = n" by (simp_all add: floorlog_def)
  have "2 ^ (?k - 1) < (2::nat) ^ b" using floorlog_2_bounds(1) [OF assms(1)] assms(2) by linarith
  then have kb: "?k - 1 < b" by (simp add: power_strict_increasing_iff)
  have e: "f64_exponent (of_nat n) \<le> int ?k - 1"
    unfolding f64_exponent_def quot Let_def prod.case one by simp
  then show ?thesis using kb floorlog_2_bounds(3) [OF assms(1)] by linarith
qed

lemma f64_round_of_nat:
  assumes "n < 2 ^ 53"
  shows "f64_round (of_nat n) = of_nat n"
proof (cases "n = 0")
  case False
  let ?e = "max (f64_exponent (of_nat n)) (- 1022) - 52"
  have "?e \<le> 0" using f64_exponent_of_nat_le [of n 53] assms False by simp
  then have "pow2 ?e * 2 ^ nat (- ?e) = 1"
    using pow2_add_nat [of ?e "nat (- ?e)"] by (simp add: pow2_def)
  then have "(of_nat n :: rat) = of_int (int n * 2 ^ nat (- ?e)) * pow2 ?e"
    by (simp add: mult.assoc mult.commute [of _ "pow2 ?e"])
  then show ?thesis by (rule f64_round_grid)
qed simp

lemma f64_of_nat_exact: "n < 2 ^ 53 \<Longrightarrow> f64_of_nat n = of_nat n"
  by (simp add: f64_of_nat_def f64_round_of_nat)

section \<open>Rounding below an integer\<close>

lemma pow2_diff: "pow2 (int m - int n) = 2 ^ m / 2 ^ n"
  using pow2_add_nat [of "int m - int n" n] by (simp add: pow2_nat field_simps)

lemma f64_exponent_less:
  assumes "0 < q" and "q < 2 ^ b"
  shows "f64_exponent q < int b"
proof -
  obtain n d where quot: "quotient_of q = (n, d)" by (cases "quotient_of q")
  have d: "0 < d" using quot quotient_of_denom_pos by blast
  have q: "q = of_int n / of_int d" using quot quotient_of_div by blast
  then have n: "0 < n" using assms(1) d by (simp add: zero_less_divide_iff)
  let ?a = "floorlog 2 (nat n)" and ?c = "floorlog 2 (nat d)"
  have na: "2 ^ (?a - 1) \<le> nat n" "0 < ?a" and dc: "nat d < 2 ^ ?c"
    using floorlog_2_bounds [of "nat n"] floorlog_2_bounds(2) [of "nat d"] n d by auto
  have "of_nat (2 ^ (?a - 1)) \<le> (of_nat (nat n) :: rat)" "(of_nat (nat d) :: rat) < of_nat (2 ^ ?c)"
    using na(1) dc by (simp_all only: of_nat_le_iff of_nat_less_iff)
  then have "(2 :: rat) ^ (?a - 1) \<le> of_int n" "of_int d < (2 :: rat) ^ ?c"
    using n d by simp_all
  then have "(2 :: rat) ^ (?a - 1) / 2 ^ ?c \<le> q"
    unfolding q using d n by (intro frac_le) auto
  then have low: "pow2 (int ?a - 1 - int ?c) \<le> q"
    using pow2_diff [of "?a - 1" ?c] na(2) by (simp add: of_nat_diff)
  have small: "j < int b" if "pow2 j \<le> q" for j
  proof (rule ccontr)
    assume "\<not> j < int b"
    then have "pow2 (int b) \<le> pow2 j" by (intro pow2_mono) simp
    then show False using that assms(2) by (simp add: pow2_nat)
  qed
  have "\<bar>q\<bar> = q" using assms(1) by simp
  then show ?thesis
    using small [of "int ?a - int ?c"] small [OF low]
    by (auto simp: f64_exponent_def quot Let_def)
qed

lemma round_half_even_le: "x \<le> of_int j \<Longrightarrow> round_half_even x \<le> j"
proof -
  assume x: "x \<le> of_int j"
  show "round_half_even x \<le> j"
  proof (cases "x = of_int j")
    case False
    then have "\<lfloor>x\<rfloor> < j" using x by (metis floor_less_iff order_le_less)
    then show ?thesis by (auto simp: round_half_even_def Let_def)
  qed simp
qed

lemma f64_round_le_nat:
  assumes "q \<le> of_nat k" and "k < 2 ^ 53"
  shows "f64_round q \<le> of_nat k"
proof (cases "q \<le> 0")
  case True
  let ?u = "pow2 (max (f64_exponent q) (- 1022) - 52)"
  have "round_half_even (q / ?u) \<le> 0"
    using True by (intro round_half_even_le) (simp add: divide_nonpos_pos)
  then have "of_int (round_half_even (q / ?u)) * ?u \<le> 0"
    by (intro mult_nonpos_nonneg) (simp_all add: less_imp_le)
  then show ?thesis by (auto simp: f64_round_def Let_def)
next
  case False
  let ?e = "max (f64_exponent q) (- 1022) - 52"
  have "q < 2 ^ 53" using assms by (metis le_less_trans of_nat_less_iff of_nat_numeral of_nat_power)
  then have "f64_exponent q < 53" using False f64_exponent_less [of q 53] by simp
  then have "pow2 ?e * 2 ^ nat (- ?e) = 1"
    using pow2_add_nat [of ?e "nat (- ?e)"] by (simp add: pow2_def)
  then have grid: "(of_nat k :: rat) = of_int (int k * 2 ^ nat (- ?e)) * pow2 ?e"
    by (simp add: mult.assoc mult.commute [of _ "pow2 ?e"])
  then have "q / pow2 ?e \<le> of_int (int k * 2 ^ nat (- ?e))"
    using assms(1) by (simp add: divide_le_eq del: of_int_mult)
  then have "round_half_even (q / pow2 ?e) \<le> int k * 2 ^ nat (- ?e)" by (rule round_half_even_le)
  then have "of_int (round_half_even (q / pow2 ?e)) * pow2 ?e \<le> of_int (int k * 2 ^ nat (- ?e)) * pow2 ?e"
    by (intro mult_right_mono) (simp_all add: less_imp_le del: of_int_mult)
  then show ?thesis using grid False by (simp add: f64_round_def Let_def del: of_int_mult)
qed

end
