(* ===== verification/QuotaCache.thy ===== *)
theory QuotaCache
  imports Prelude F64
begin

text \<open>
  The cache of Codex account quotas (\<^verbatim>\<open>crab-proxy/src/codex_quota_cache.rs\<close>) with the quota
  snapshot it stores (\<^verbatim>\<open>crab-control/src/codex_wham.rs\<close>). The usage request goes to a
  remote service: its outcome (the parsed snapshot, or none) and whether a fetch permit is free are
  arguments. Shown: a 429 takes a key out of selection for exactly five minutes, whatever its
  snapshot says, and a snapshot on its own decides by its worst window.
\<close>

section \<open>Snapshots\<close>

record codex_quota_snapshot =
  session_used_percent :: "f64 option"
  weekly_used_percent :: "f64 option"
  session_reset_at :: "int option"
  weekly_reset_at :: "int option"
  limit_reached :: bool

definition min_remaining_percent :: "codex_quota_snapshot \<Rightarrow> f64 option" where
  "min_remaining_percent s =
     (let worst = foldl (\<lambda>acc x. Some (case acc of None \<Rightarrow> x | Some a \<Rightarrow> max a x)) None
                    (List.map_filter id [session_used_percent s, weekly_used_percent s])
      in map_option (\<lambda>used. max (f64_sub 100 used) 0) worst)"

definition snapshot_is_exhausted :: "codex_quota_snapshot \<Rightarrow> f64 \<Rightarrow> bool" where
  "snapshot_is_exhausted s threshold_percent =
     (if limit_reached s then True
      else case min_remaining_percent s of
             Some remaining \<Rightarrow> remaining \<le> threshold_percent
           | None \<Rightarrow> False)"

section \<open>The cache\<close>

definition exhausted_ttl_secs :: nat where
  "exhausted_ttl_secs = 300"

definition default_cache_ttl_secs :: nat where
  "default_cache_ttl_secs = 60"

record quota_entry =
  qe_snapshot :: codex_quota_snapshot
  qe_fetched_at :: instant
  qe_marked_exhausted :: bool
  qe_exhausted_at :: "instant option"

definition qe_is_stale :: "quota_entry \<Rightarrow> duration \<Rightarrow> instant \<Rightarrow> bool" where
  "qe_is_stale e ttl now \<longleftrightarrow> ttl < elapsed now (qe_fetched_at e)"

definition qe_is_exhausted :: "quota_entry \<Rightarrow> f64 \<Rightarrow> instant \<Rightarrow> bool" where
  "qe_is_exhausted e threshold_percent now =
     (if qe_marked_exhausted e
      then (case qe_exhausted_at e of
              Some t \<Rightarrow> \<not> (from_secs exhausted_ttl_secs < elapsed now t)
            | None \<Rightarrow> True)
      else snapshot_is_exhausted (qe_snapshot e) threshold_percent)"

definition qe_remaining_percent :: "quota_entry \<Rightarrow> f64" where
  "qe_remaining_percent e =
     (if qe_marked_exhausted e then 0
      else case min_remaining_percent (qe_snapshot e) of Some r \<Rightarrow> r | None \<Rightarrow> 100)"

record codex_quota_cache =
  qc_entries :: "(string, quota_entry) hmap"

definition qc_new :: codex_quota_cache where
  "qc_new = \<lparr>qc_entries = []\<rparr>"

definition qc_is_exhausted :: "codex_quota_cache \<Rightarrow> string \<Rightarrow> f64 \<Rightarrow> instant \<Rightarrow> bool" where
  "qc_is_exhausted c key_id threshold_percent now =
     (case hm_get (qc_entries c) key_id of
        Some e \<Rightarrow> qe_is_exhausted e threshold_percent now
      | None \<Rightarrow> False)"

definition qc_headroom_percent :: "codex_quota_cache \<Rightarrow> string \<Rightarrow> f64 option" where
  "qc_headroom_percent c key_id = map_option qe_remaining_percent (hm_get (qc_entries c) key_id)"

definition qc_mark_exhausted_from_429 ::
  "codex_quota_cache \<Rightarrow> string \<Rightarrow> instant \<Rightarrow> codex_quota_cache"
where
  "qc_mark_exhausted_from_429 c key_id now =
     c\<lparr>qc_entries := hm_insert (qc_entries c) key_id
        (case hm_get (qc_entries c) key_id of
           Some e \<Rightarrow> e\<lparr>qe_marked_exhausted := True, qe_exhausted_at := Some now\<rparr>
         | None \<Rightarrow>
             \<lparr>qe_snapshot = \<lparr>session_used_percent = None, weekly_used_percent = None,
                             session_reset_at = None, weekly_reset_at = None, limit_reached = True\<rparr>,
              qe_fetched_at = now, qe_marked_exhausted = True, qe_exhausted_at = Some now\<rparr>)\<rparr>"

definition qc_fetch_and_update ::
  "codex_quota_cache \<Rightarrow> string \<Rightarrow> bool \<Rightarrow> codex_quota_snapshot option \<Rightarrow> instant
     \<Rightarrow> codex_quota_snapshot option \<times> codex_quota_cache"
where
  \<comment> \<open>\<open>permit\<close>: a fetch permit is free; \<open>response\<close>: what the usage service answers, parsed\<close>
  "qc_fetch_and_update c key_id permit response now =
     (let fetch = (if \<not> permit then (None, c)
                   else case response of
                          None \<Rightarrow> (None, c)
                        | Some s \<Rightarrow>
                            (Some s, c\<lparr>qc_entries := hm_insert (qc_entries c) key_id
                               \<lparr>qe_snapshot = s, qe_fetched_at = now, qe_marked_exhausted = False,
                                qe_exhausted_at = None\<rparr>\<rparr>))
      in case hm_get (qc_entries c) key_id of
           Some e \<Rightarrow>
             if \<not> qe_is_stale e (from_secs default_cache_ttl_secs) now then (Some (qe_snapshot e), c)
             else fetch
         | None \<Rightarrow> fetch)"

definition qc_refresh_key ::
  "codex_quota_cache \<Rightarrow> string \<Rightarrow> bool \<Rightarrow> codex_quota_snapshot option \<Rightarrow> instant
     \<Rightarrow> codex_quota_cache"
where
  "qc_refresh_key c key_id permit response now =
     (let fetch = snd (qc_fetch_and_update c key_id permit response now)
      in case hm_get (qc_entries c) key_id of
           Some e \<Rightarrow>
             if \<not> qe_is_stale e (from_secs default_cache_ttl_secs) now then c else fetch
         | None \<Rightarrow> fetch)"

definition qc_remove :: "codex_quota_cache \<Rightarrow> string \<Rightarrow> codex_quota_cache" where
  "qc_remove c key_id = c\<lparr>qc_entries := hm_remove (qc_entries c) key_id\<rparr>"

record cache_stats =
  cst_total :: nat
  cst_exhausted :: nat
  cst_stale :: nat

definition qc_stats :: "codex_quota_cache \<Rightarrow> instant \<Rightarrow> cache_stats" where
  "qc_stats c now =
     \<lparr>cst_total = length (qc_entries c),
      cst_exhausted = length (filter (\<lambda>(k, e). qe_is_exhausted e 2 now) (qc_entries c)),
      cst_stale = length (filter (\<lambda>(k, e). qe_is_stale e (from_secs default_cache_ttl_secs) now)
                            (qc_entries c))\<rparr>"

section \<open>Lemmas\<close>

lemma min_remaining_percent_cases:
  "min_remaining_percent s =
     (case (session_used_percent s, weekly_used_percent s) of
        (None, None) \<Rightarrow> None
      | (Some a, None) \<Rightarrow> Some (max (f64_sub 100 a) 0)
      | (None, Some b) \<Rightarrow> Some (max (f64_sub 100 b) 0)
      | (Some a, Some b) \<Rightarrow> Some (max (f64_sub 100 (max a b)) 0))"
  by (simp add: min_remaining_percent_def List.map_filter_def Let_def split: option.split)

lemma qe_remaining_nonneg: "0 \<le> qe_remaining_percent e"
  by (auto simp: qe_remaining_percent_def min_remaining_percent_cases split: option.split)

lemma qc_mark_frame:
  "k \<noteq> key_id \<Longrightarrow> hm_get (qc_entries (qc_mark_exhausted_from_429 c key_id now)) k = hm_get (qc_entries c) k"
  by (simp add: qc_mark_exhausted_from_429_def)

lemma qc_refresh_is_fetch:
  "qc_refresh_key c key_id permit response now = snd (qc_fetch_and_update c key_id permit response now)"
  by (auto simp: qc_refresh_key_def qc_fetch_and_update_def Let_def split: option.split)

section \<open>Properties\<close>

text \<open>
  A 429 marks its key, and only its key, exhausted for exactly five minutes, whatever quota
  the cached snapshot shows and whatever the threshold; its headroom counts as zero from then on.
\<close>

theorem mark_429_exhausts_five_minutes:
  "qc_is_exhausted (qc_mark_exhausted_from_429 c key_id t) k thr now =
     (if k = key_id then now \<le> t + int (from_secs 300) else qc_is_exhausted c k thr now) \<and>
   qc_headroom_percent (qc_mark_exhausted_from_429 c key_id t) k =
     (if k = key_id then Some 0 else qc_headroom_percent c k)"
proof -
  have "(from_secs 300 < elapsed now t) = (\<not> now \<le> t + int (from_secs 300))"
    by (auto simp: elapsed_def from_secs_def nanos_per_sec_def)
  then show ?thesis
    by (auto simp: qc_is_exhausted_def qc_headroom_percent_def qc_mark_exhausted_from_429_def
        qe_is_exhausted_def qe_remaining_percent_def exhausted_ttl_secs_def split: option.split)
qed

end
