(* ===== verification/UpstreamKey.thy ===== *)
theory UpstreamKey
  imports RateLimitPolicy QuotaCache
begin

text \<open>
  The data of one upstream key (\<^verbatim>\<open>crab-proxy/src/upstream_pool.rs\<close>, first part):
  specifications, slots, cooldowns, the progressive backoff, model catalogs, and the assignment of
  unique ids and account ids. The digest of a secret (\<^verbatim>\<open>hex(SHA256(secret)[..8])\<close>, from
  library code) is the argument \<open>digest\<close>. Shown: generated ids are unique and non-empty and the
  search for one ends; the backoff doubles up to its cap.
\<close>

section \<open>Data\<close>

definition reasoning_namespace_auth :: string where
  "reasoning_namespace_auth = ''gateway-upstream-pool''"

record upstream_key_state_snapshot =
  ks_key_id :: string
  ks_cooldown_until_ms :: nat
  ks_rate_limit_strikes :: nat
  ks_scope_cooldowns :: "(string, nat) hmap"
  ks_enabled :: bool
  ks_model_cooldowns :: "(string, nat \<times> nat) hmap"
  ks_priority :: nat

record model_cooldown_entry =
  mc_cooldown_until_ms :: nat
  mc_backoff_level :: nat

record model_cooldown_view =
  mv_model :: string
  mv_remaining_secs :: nat
  mv_backoff_level :: nat

definition progressive_backoff_base_secs :: nat where
  "progressive_backoff_base_secs = 1"

definition progressive_backoff_max_secs :: nat where
  "progressive_backoff_max_secs = 1800"

definition next_progressive_cooldown :: "nat \<Rightarrow> nat \<times> nat" where
  "next_progressive_cooldown level =
     (let next_level = sat_add 32 level 1;
          secs = sat_mul 64 progressive_backoff_base_secs (2 ^ min level 20)
      in (min secs progressive_backoff_max_secs, next_level))"

definition default_upstream_account_id :: string where
  "default_upstream_account_id = ''default''"

definition looks_like_codex_oauth_key :: "string \<Rightarrow> string \<Rightarrow> bool" where
  "looks_like_codex_oauth_key secret account_id =
     (let secret = trim secret; account_id = trim account_id
      in starts_with secret ''eyJ'' \<and> str_contains secret ''.'' \<and> account_id \<noteq> [] \<and>
         account_id \<noteq> default_upstream_account_id \<and> \<not> starts_with account_id ''auto-'')"

record upstream_key_spec =
  sp_id :: string
  sp_secret :: string
  sp_enabled :: bool
  sp_account_id :: string
  sp_supported_models :: "string list"
  sp_priority :: nat

record upstream_key_status =
  st_id :: string
  st_preview :: string
  st_account_id :: string
  st_enabled :: bool
  st_inflight :: nat
  st_cooldown_remaining_secs :: nat
  st_priority :: nat
  st_model_cooldowns :: "model_cooldown_view list"

record upstream_key_slot =
  \<comment> \<open>\<open>uk_semaphore\<close> is the address of the shared semaphore\<close>
  uk_id :: string
  uk_secret :: string
  uk_account_id :: string
  uk_enabled :: bool
  uk_inflight :: nat
  uk_cooldown_until_ms :: nat
  uk_rate_limit_strikes :: nat
  uk_scope_cooldowns :: "(string, nat) hmap"
  uk_model_cooldowns :: "(string, model_cooldown_entry) hmap"
  uk_supported_models :: "string list"
  uk_semaphore :: nat
  uk_priority :: nat

section \<open>Helpers\<close>

definition normalize_account_id :: "string \<Rightarrow> string" where
  "normalize_account_id raw = (let t = trim raw in if t = [] then default_upstream_account_id else t)"

definition key_preview :: "string \<Rightarrow> string" where
  "key_preview secret =
     (if length secret \<le> 12 then ''***''
      else take 4 secret @ ''...'' @ drop (length secret - 4) secret)"

definition normalize_model_slug :: "string \<Rightarrow> string" where
  "normalize_model_slug model = to_lowercase (trim model)"

definition slot_supports_model :: "upstream_key_slot \<Rightarrow> string \<Rightarrow> bool" where
  "slot_supports_model slot upstream_model =
     (uk_supported_models slot = [] \<or>
      list_ex (\<lambda>m. normalize_model_slug m = normalize_model_slug upstream_model)
        (uk_supported_models slot))"

definition active_scope :: "string option \<Rightarrow> string option" where
  \<comment> \<open>\<open>scope.filter(|s| !s.is_empty() && *s != "default")\<close>\<close>
  "active_scope scope =
     (case scope of Some s \<Rightarrow> if s \<noteq> [] \<and> s \<noteq> ''default'' then Some s else None | None \<Rightarrow> None)"

definition slot_passes_cooldown ::
  "upstream_key_slot \<Rightarrow> string option \<Rightarrow> string option \<Rightarrow> nat \<Rightarrow> bool"
where
  "slot_passes_cooldown slot scope model now =
     (if now < uk_cooldown_until_ms slot then False
      else if (case active_scope scope of
                 Some s \<Rightarrow> (case hm_get (uk_scope_cooldowns slot) s of
                            Some until \<Rightarrow> now < until | None \<Rightarrow> False)
               | None \<Rightarrow> False)
      then False
      else (case model of
              Some m \<Rightarrow>
                \<not> (trim m \<noteq> [] \<and> normalize_model_slug m \<noteq> [] \<and>
                   (case hm_get (uk_model_cooldowns slot) (normalize_model_slug m) of
                      Some e \<Rightarrow> now < mc_cooldown_until_ms e
                    | None \<Rightarrow> False))
            | None \<Rightarrow> True))"

definition key_n :: "nat \<Rightarrow> string" where
  "key_n n = ''key-'' @ show_nat n"

lemma key_n_inject [simp]: "key_n m = key_n n \<longleftrightarrow> m = n"
  by (simp add: key_n_def)

lemma key_n_not_Nil [simp]: "key_n n \<noteq> []"
  by (simp add: key_n_def)

lemma finite_key_n: "finite {j. n \<le> j \<and> key_n j \<in> set seen}"
proof -
  have "key_n ` {j. n \<le> j \<and> key_n j \<in> set seen} \<subseteq> set seen" by auto
  moreover have "inj_on key_n {j. n \<le> j \<and> key_n j \<in> set seen}" by (simp add: inj_on_def)
  ultimately show ?thesis by (meson List.finite_set finite_imageD rev_finite_subset)
qed

function fresh_key_id :: "string list \<Rightarrow> nat \<Rightarrow> string \<times> nat" where
  \<comment> \<open>the inner loop: the first unused candidate and the counter after it\<close>
  "fresh_key_id id_seen next_id =
     (if key_n next_id \<notin> set id_seen then (key_n next_id, next_id + 1)
      else fresh_key_id id_seen (next_id + 1))"
  by auto
termination
proof (relation "measure (\<lambda>(seen, n). card {j. n \<le> j \<and> key_n j \<in> set seen})", goal_cases)
  case (2 seen n)
  have "n \<in> {j. n \<le> j \<and> key_n j \<in> set seen}" using 2 by simp
  moreover have "n \<notin> {j. n + 1 \<le> j \<and> key_n j \<in> set seen}" by simp
  ultimately have "{j. n + 1 \<le> j \<and> key_n j \<in> set seen} \<noteq> {j. n \<le> j \<and> key_n j \<in> set seen}"
    by blast
  then have "{j. n + 1 \<le> j \<and> key_n j \<in> set seen} \<subset> {j. n \<le> j \<and> key_n j \<in> set seen}"
    unfolding psubset_eq by auto
  then show ?case by (simp add: psubset_card_mono [OF finite_key_n])
qed simp

declare fresh_key_id.simps [simp del]

fun ensure_unique_ids_from ::
  "string list \<Rightarrow> nat \<Rightarrow> upstream_key_spec list \<Rightarrow> upstream_key_spec list"
where
  "ensure_unique_ids_from id_seen next_id [] = []"
| "ensure_unique_ids_from id_seen next_id (spec # specs) =
     (let (id', next_id') =
            (if sp_id spec = [] \<or> sp_id spec \<in> set id_seen then fresh_key_id id_seen next_id
             else (sp_id spec, next_id))
      in spec\<lparr>sp_id := id'\<rparr> # ensure_unique_ids_from (id' # id_seen) next_id' specs)"

definition ensure_unique_ids :: "upstream_key_spec list \<Rightarrow> upstream_key_spec list" where
  "ensure_unique_ids specs = ensure_unique_ids_from [] (length specs + 1) specs"

definition auto_assign_account_ids ::
  "(string \<Rightarrow> string) \<Rightarrow> upstream_key_spec list \<Rightarrow> upstream_key_spec list"
where
  "auto_assign_account_ids digest specs =
     map (\<lambda>spec. if trim (sp_account_id spec) = []
                  then spec\<lparr>sp_account_id := ''auto-'' @ digest (sp_secret spec)\<rparr> else spec) specs"

definition unlimited_inflight_permits :: nat where
  "unlimited_inflight_permits = 1048576"

definition semaphore_permits :: "nat \<Rightarrow> nat" where
  "semaphore_permits max_inflight =
     (if max_inflight = 0 then unlimited_inflight_permits else max_inflight)"

section \<open>Lemmas\<close>

lemma fresh_key_id_fresh: "fresh_key_id seen n = (i, m) \<Longrightarrow> i \<notin> set seen \<and> i \<noteq> [] \<and> n < m"
proof (induction seen n rule: fresh_key_id.induct)
  case (1 seen n)
  show ?case
  proof (cases "key_n n \<in> set seen")
    case True
    then show ?thesis using 1 by (auto simp: fresh_key_id.simps [of seen n])
  next
    case False
    then show ?thesis using 1 by (auto simp: fresh_key_id.simps [of seen n])
  qed
qed

lemma ensure_unique_ids_from_props:
  "distinct (map sp_id (ensure_unique_ids_from seen n specs)) \<and>
   set (map sp_id (ensure_unique_ids_from seen n specs)) \<inter> set seen = {} \<and>
   [] \<notin> set (map sp_id (ensure_unique_ids_from seen n specs)) \<and>
   length (ensure_unique_ids_from seen n specs) = length specs"
proof (induction specs arbitrary: seen n)
  case (Cons spec specs)
  obtain i m where im: "(if sp_id spec = [] \<or> sp_id spec \<in> set seen then fresh_key_id seen n
      else (sp_id spec, n)) = (i, m)" by (metis surj_pair)
  then have "i \<notin> set seen \<and> i \<noteq> []" by (auto dest: fresh_key_id_fresh split: if_splits)
  then show ?case using Cons [of "i # seen" m] im by (auto simp: Let_def split_beta)
qed simp

lemma length_ensure_unique_ids [simp]: "length (ensure_unique_ids specs) = length specs"
  using ensure_unique_ids_from_props by (simp only: ensure_unique_ids_def)

lemma length_auto_assign [simp]: "length (auto_assign_account_ids digest specs) = length specs"
  by (simp add: auto_assign_account_ids_def)

lemma ensure_unique_ids_keeps:
  "distinct (map sp_id specs) \<Longrightarrow> [] \<notin> set (map sp_id specs) \<Longrightarrow>
   set (map sp_id specs) \<inter> set seen = {} \<Longrightarrow> ensure_unique_ids_from seen n specs = specs"
  by (induction specs arbitrary: seen n) (auto simp: Let_def)

lemma next_progressive_cooldown_eq:
  "fst (next_progressive_cooldown level) = min (2 ^ level) 1800"
proof (cases "level \<le> 20")
  case True
  then have "(2::nat) ^ level \<le> 2 ^ 20" by (intro power_increasing) auto
  then show ?thesis using True
    by (simp add: next_progressive_cooldown_def Let_def sat_mul_def progressive_backoff_base_secs_def
        progressive_backoff_max_secs_def)
next
  case False
  then have "(2::nat) ^ 20 \<le> 2 ^ level" by (intro power_increasing) auto
  then show ?thesis using False
    by (simp add: next_progressive_cooldown_def Let_def sat_mul_def progressive_backoff_base_secs_def
        progressive_backoff_max_secs_def min_def)
qed

lemma next_progressive_cooldown_le: "fst (next_progressive_cooldown level) \<le> 1800"
  by (simp add: next_progressive_cooldown_eq)

section \<open>Properties\<close>

text \<open>
  Every list of key specifications comes out of \<open>ensure_unique_ids\<close> with as many entries,
  non-empty pairwise distinct ids and everything but the ids unchanged; a list whose ids were
  already distinct and non-empty is untouched.
\<close>

theorem ensure_unique_ids_correct:
  "distinct (map sp_id (ensure_unique_ids specs)) \<and>
   [] \<notin> set (map sp_id (ensure_unique_ids specs)) \<and>
   map (sp_id_update (\<lambda>_. [])) (ensure_unique_ids specs) = map (sp_id_update (\<lambda>_. [])) specs \<and>
   (distinct (map sp_id specs) \<and> [] \<notin> set (map sp_id specs) \<longrightarrow> ensure_unique_ids specs = specs)"
proof -
  have "map (sp_id_update (\<lambda>_. [])) (ensure_unique_ids_from seen n specs) =
      map (sp_id_update (\<lambda>_. [])) specs" for seen n
    by (induction specs arbitrary: seen n) (auto simp: Let_def split_beta)
  then show ?thesis
    using ensure_unique_ids_from_props [of "[]" "length specs + 1" specs]
      ensure_unique_ids_keeps [of specs "[]" "length specs + 1"]
    by (simp add: ensure_unique_ids_def)
qed

definition sample_spec :: "string \<Rightarrow> upstream_key_spec" where
  "sample_spec i = \<lparr>sp_id = i, sp_secret = ''sk-'' @ i, sp_enabled = True, sp_account_id = [],
     sp_supported_models = [], sp_priority = 0\<rparr>"

theorem ensure_unique_ids_correct_witness:
  "ensure_unique_ids [sample_spec ''a'', sample_spec ''b''] = [sample_spec ''a'', sample_spec ''b''] \<and>
   distinct (map sp_id (ensure_unique_ids [sample_spec [], sample_spec [], sample_spec ''a'']))"
  using ensure_unique_ids_correct [of "[sample_spec ''a'', sample_spec ''b'']"]
    ensure_unique_ids_correct [of "[sample_spec [], sample_spec [], sample_spec ''a'']"]
  by (simp add: sample_spec_def)

text \<open>
  A generated id can take the id another key brings along: of two keys, the first without an
  id and the second explicitly named as the first generated candidate, the second loses its name.
\<close>

theorem explicit_id_not_stable:
  "map sp_id (ensure_unique_ids [sample_spec [], sample_spec ''key-3'']) = [''key-3'', ''key-4'']"
  by (simp add: ensure_unique_ids_def sample_spec_def fresh_key_id.simps key_n_def show_nat.simps
      digit_char_def char_of_def bit_Suc_0_iff Let_def)

end
