(* ===== verification/UpstreamPool.thy ===== *)
theory UpstreamPool
  imports UpstreamKey
begin

text \<open>
  The pool of upstream keys (\<^verbatim>\<open>crab-proxy/src/upstream_pool.rs\<close>, second part): construction,
  status, selection by priority, score and round robin, permits and in-flight counts, cooldown
  reports and key rotation. Semaphores are shared between generations of a pool, so they live in a
  store addressed by the slots; the store entry is the number of free permits. \<open>now\<close> is the wall
  clock in milliseconds, \<open>inst\<close> the monotonic clock the quota cache reads.
\<close>

section \<open>State\<close>

type_synonym sem_store = "nat list"

record upstream_key_pool =
  up_slots :: "upstream_key_slot list"
  up_rr :: nat
  up_cooldown_secs :: nat
  up_max_inflight :: nat
  up_quota_cache :: "codex_quota_cache option"
  up_state_dirty :: bool
  up_model_rr :: "(string, nat) hmap"

record upstream_key_guard =
  \<comment> \<open>the slot index in its pool and the semaphore the permit belongs to\<close>
  ukg_index :: nat
  ukg_permit :: nat

datatype pool_acquire_failure =
    PoolEmpty
  | AllDisabled
  | AllInCooldown nat
  | AllInflightFull
  | NoModelSupport
  | AllAccountsExcluded
  | Unavailable

fun paf_reason :: "pool_acquire_failure \<Rightarrow> string" where
  "paf_reason PoolEmpty = ''empty''"
| "paf_reason AllDisabled = ''all_disabled''"
| "paf_reason (AllInCooldown s) = ''all_in_cooldown''"
| "paf_reason AllInflightFull = ''all_inflight_full''"
| "paf_reason NoModelSupport = ''no_model_support''"
| "paf_reason AllAccountsExcluded = ''all_accounts_excluded''"
| "paf_reason Unavailable = ''unavailable''"

section \<open>Construction\<close>

definition slot_of_spec :: "nat \<Rightarrow> nat \<Rightarrow> upstream_key_spec \<Rightarrow> upstream_key_slot" where
  \<comment> \<open>a fresh slot for the specification at a position, with its semaphore\<close>
  "slot_of_spec i sem spec =
     \<lparr>uk_id = (if sp_id spec = [] then key_n (i + 1) else sp_id spec),
      uk_secret = sp_secret spec, uk_account_id = normalize_account_id (sp_account_id spec),
      uk_enabled = sp_enabled spec, uk_inflight = 0, uk_cooldown_until_ms = 0,
      uk_rate_limit_strikes = 0, uk_scope_cooldowns = [], uk_model_cooldowns = [],
      uk_supported_models = sp_supported_models spec, uk_semaphore = sem,
      uk_priority = sp_priority spec\<rparr>"

definition up_new ::
  "(string \<Rightarrow> string) \<Rightarrow> upstream_key_spec list \<Rightarrow> nat \<Rightarrow> nat \<Rightarrow> sem_store
     \<Rightarrow> upstream_key_pool \<times> sem_store"
where
  "up_new digest specs cooldown_secs max_inflight sems =
     (let specs = ensure_unique_ids (auto_assign_account_ids digest specs)
      in (\<lparr>up_slots = map (\<lambda>i. slot_of_spec i (length sems + i) (specs ! i)) [0..<length specs],
           up_rr = 0, up_cooldown_secs = cooldown_secs, up_max_inflight = max_inflight,
           up_quota_cache = None, up_state_dirty = False, up_model_rr = []\<rparr>,
          sems @ replicate (length specs) (semaphore_permits max_inflight)))"

definition up_from_secrets ::
  "(string \<Rightarrow> string) \<Rightarrow> string list \<Rightarrow> nat \<Rightarrow> nat \<Rightarrow> sem_store \<Rightarrow> upstream_key_pool \<times> sem_store"
where
  "up_from_secrets digest secrets cooldown_secs max_inflight sems =
     up_new digest
       (map (\<lambda>i. \<lparr>sp_id = key_n (i + 1), sp_secret = secrets ! i, sp_enabled = True,
                  sp_account_id = [], sp_supported_models = [], sp_priority = 0\<rparr>)
          [0..<length secrets])
       cooldown_secs max_inflight sems"

definition up_set_quota_cache ::
  "upstream_key_pool \<Rightarrow> codex_quota_cache \<Rightarrow> upstream_key_pool"
where
  "up_set_quota_cache p cache =
     (case up_quota_cache p of None \<Rightarrow> p\<lparr>up_quota_cache := Some cache\<rparr> | Some _ \<Rightarrow> p)"

definition slot_available :: "nat \<Rightarrow> upstream_key_slot \<Rightarrow> bool" where
  "slot_available now s \<longleftrightarrow> uk_enabled s \<and> uk_cooldown_until_ms s \<le> now"

definition up_available_count :: "upstream_key_pool \<Rightarrow> nat \<Rightarrow> nat" where
  "up_available_count p now = length (filter (slot_available now) (up_slots p))"

definition up_available_key_ids :: "upstream_key_pool \<Rightarrow> nat \<Rightarrow> string list" where
  "up_available_key_ids p now = map uk_id (filter (slot_available now) (up_slots p))"

section \<open>Diagnosis and status\<close>

record diagnose_state =
  dg_has_enabled :: bool
  dg_min_cooldown_remaining :: nat
  dg_all_enabled_in_cooldown :: bool
  dg_has_available_not_full :: bool

definition diagnose_slot ::
  "sem_store \<Rightarrow> nat \<Rightarrow> diagnose_state \<Rightarrow> upstream_key_slot \<Rightarrow> diagnose_state"
where
  \<comment> \<open>the body of the loop over the slots\<close>
  "diagnose_slot sems now d slot =
     (let enabled = uk_enabled slot; until = uk_cooldown_until_ms slot; in_cooldown = now < until;
          remaining = (until - now + 999) div 1000
      in d\<lparr>dg_has_enabled := dg_has_enabled d \<or> enabled,
           dg_min_cooldown_remaining :=
             (if enabled \<and> in_cooldown then min (dg_min_cooldown_remaining d) remaining
              else dg_min_cooldown_remaining d),
           dg_all_enabled_in_cooldown :=
             dg_all_enabled_in_cooldown d \<and> \<not> (enabled \<and> \<not> in_cooldown),
           dg_has_available_not_full :=
             dg_has_available_not_full d \<or>
             (enabled \<and> \<not> in_cooldown \<and> 0 < sems ! uk_semaphore slot)\<rparr>)"

definition up_diagnose_acquire_failure ::
  "upstream_key_pool \<Rightarrow> sem_store \<Rightarrow> nat \<Rightarrow> pool_acquire_failure"
where
  "up_diagnose_acquire_failure p sems now =
     (if up_slots p = [] then PoolEmpty
      else let d = foldl (diagnose_slot sems now)
                     \<lparr>dg_has_enabled = False, dg_min_cooldown_remaining = u64_max,
                      dg_all_enabled_in_cooldown = True, dg_has_available_not_full = False\<rparr>
                     (up_slots p)
           in if \<not> dg_has_enabled d then AllDisabled
              else if dg_all_enabled_in_cooldown d
              then AllInCooldown (min (dg_min_cooldown_remaining d) 3600)
              else if \<not> dg_has_available_not_full d then AllInflightFull
              else Unavailable)"

definition slot_status :: "nat \<Rightarrow> upstream_key_slot \<Rightarrow> upstream_key_status" where
  "slot_status now s =
     \<lparr>st_id = uk_id s, st_preview = key_preview (uk_secret s), st_account_id = uk_account_id s,
      st_enabled = uk_enabled s, st_inflight = uk_inflight s,
      st_cooldown_remaining_secs =
        (if now < uk_cooldown_until_ms s then (uk_cooldown_until_ms s - now) div 1000 else 0),
      st_priority = uk_priority s,
      st_model_cooldowns =
        map (\<lambda>(m, e). \<lparr>mv_model = m, mv_remaining_secs = (mc_cooldown_until_ms e - now) div 1000,
                        mv_backoff_level = mc_backoff_level e\<rparr>)
          (filter (\<lambda>(m, e). now < mc_cooldown_until_ms e) (uk_model_cooldowns s))\<rparr>"

definition up_list_status :: "upstream_key_pool \<Rightarrow> nat \<Rightarrow> upstream_key_status list" where
  "up_list_status p now = map (slot_status now) (up_slots p)"

definition spec_of_slot :: "upstream_key_slot \<Rightarrow> upstream_key_spec" where
  "spec_of_slot s =
     \<lparr>sp_id = uk_id s, sp_secret = uk_secret s, sp_enabled = uk_enabled s,
      sp_account_id =
        (if uk_account_id s = default_upstream_account_id then [] else uk_account_id s),
      sp_supported_models = uk_supported_models s, sp_priority = uk_priority s\<rparr>"

definition up_to_specs :: "upstream_key_pool \<Rightarrow> upstream_key_spec list" where
  "up_to_specs p = map spec_of_slot (up_slots p)"

definition up_update_models_catalog ::
  "upstream_key_pool \<Rightarrow> (string, string list) hmap \<Rightarrow> upstream_key_pool"
where
  "up_update_models_catalog p catalog =
     p\<lparr>up_slots := map (\<lambda>s. case hm_get catalog (uk_id s) of
                               Some models \<Rightarrow> s\<lparr>uk_supported_models := remdups_adj (sort models)\<rparr>
                             | None \<Rightarrow> s) (up_slots p)\<rparr>"

definition up_admin_secret :: "upstream_key_pool \<Rightarrow> nat \<Rightarrow> string option" where
  "up_admin_secret p now = map_option uk_secret (List.find (slot_available now) (up_slots p))"

section \<open>Finding slots\<close>

definition slot_index :: "upstream_key_pool \<Rightarrow> string \<Rightarrow> nat option" where
  \<comment> \<open>\<open>slots.iter().find(|s| s.id == key_id)\<close>\<close>
  "slot_index p key_id = first_index (\<lambda>s. uk_id s = key_id) (up_slots p)"

definition update_slot ::
  "upstream_key_pool \<Rightarrow> nat \<Rightarrow> (upstream_key_slot \<Rightarrow> upstream_key_slot) \<Rightarrow> upstream_key_pool"
where
  "update_slot p i f = p\<lparr>up_slots := (up_slots p)[i := f (up_slots p ! i)]\<rparr>"

definition up_key_exists :: "upstream_key_pool \<Rightarrow> string \<Rightarrow> bool" where
  "up_key_exists p key_id \<longleftrightarrow> list_ex (\<lambda>s. uk_id s = key_id) (up_slots p)"

definition up_secret_by_id :: "upstream_key_pool \<Rightarrow> string \<Rightarrow> string option" where
  "up_secret_by_id p key_id =
     map_option (\<lambda>i. uk_secret (up_slots p ! i)) (slot_index p key_id)"

definition up_inflight_of :: "upstream_key_pool \<Rightarrow> string \<Rightarrow> nat" where
  "up_inflight_of p key_id =
     (case slot_index p key_id of
        Some i \<Rightarrow> uk_inflight (up_slots p ! i)
      | None \<Rightarrow> u64_max)"

section \<open>Acquiring a key\<close>

definition take_permit ::
  "upstream_key_pool \<Rightarrow> sem_store \<Rightarrow> nat \<Rightarrow> upstream_key_guard option \<times> upstream_key_pool \<times> sem_store"
where
  \<comment> \<open>\<open>try_acquire_owned\<close> on the semaphore of a slot and the in-flight increment\<close>
  "take_permit p sems i =
     (let a = uk_semaphore (up_slots p ! i) in
      if sems ! a = 0 then (None, p, sems)
      else (Some \<lparr>ukg_index = i, ukg_permit = a\<rparr>,
            update_slot p i (\<lambda>s. s\<lparr>uk_inflight := wrap_add 64 (uk_inflight s) 1\<rparr>),
            sems[a := sems ! a - 1]))"

definition up_acquire_specific_scoped ::
  "upstream_key_pool \<Rightarrow> sem_store \<Rightarrow> string \<Rightarrow> string option \<Rightarrow> nat
     \<Rightarrow> upstream_key_guard option \<times> upstream_key_pool \<times> sem_store"
where
  "up_acquire_specific_scoped p sems key_id scope now =
     (case first_index (\<lambda>s. uk_id s = key_id \<and> uk_enabled s \<and> slot_passes_cooldown s scope None now)
             (up_slots p) of
        None \<Rightarrow> (None, p, sems)
      | Some i \<Rightarrow> take_permit p sems i)"

definition up_acquire_specific ::
  "upstream_key_pool \<Rightarrow> sem_store \<Rightarrow> string \<Rightarrow> nat
     \<Rightarrow> upstream_key_guard option \<times> upstream_key_pool \<times> sem_store"
where
  "up_acquire_specific p sems key_id now = up_acquire_specific_scoped p sems key_id None now"

definition up_acquire_with_binding_async_scoped ::
  "upstream_key_pool \<Rightarrow> sem_store \<Rightarrow> string \<Rightarrow> string option \<Rightarrow> nat
     \<Rightarrow> (upstream_key_pool \<times> sem_store) option
     \<Rightarrow> upstream_key_guard option \<times> upstream_key_pool \<times> sem_store"
where
  \<comment> \<open>\<open>resume\<close>: the state in which the awaited permit is granted, or none on a timeout\<close>
  "up_acquire_with_binding_async_scoped p sems key_id scope now resume =
     (case up_acquire_specific_scoped p sems key_id scope now of
        (Some g, p', sems') \<Rightarrow> (Some g, p', sems')
      | (None, p', sems') \<Rightarrow>
          (case first_index (\<lambda>s. uk_id s = key_id \<and> uk_enabled s \<and> slot_passes_cooldown s scope None now)
                  (up_slots p') of
             None \<Rightarrow> (None, p', sems')
           | Some i \<Rightarrow>
               (case resume of
                  Some (q, qsems) \<Rightarrow> take_permit q qsems i
                | None \<Rightarrow> (None, p', sems'))))"

definition next_model_rr_index ::
  "upstream_key_pool \<Rightarrow> string \<Rightarrow> nat \<Rightarrow> nat \<times> upstream_key_pool"
where
  "next_model_rr_index p model n =
     (let model_key = normalize_model_slug model in
      if model_key = [] \<or> n = 0
      then (up_rr p mod max n 1, p\<lparr>up_rr := wrap_add 64 (up_rr p) 1\<rparr>)
      else let c = (case hm_get (up_model_rr p) model_key of Some c \<Rightarrow> c | None \<Rightarrow> 0)
           in (c mod n, p\<lparr>up_model_rr := hm_insert (up_model_rr p) model_key (wrap_add 64 c 1)\<rparr>))"

record acquire_policy =
  \<comment> \<open>the arguments the selection passes share\<close>
  ap_excluded :: "string option"
  ap_scope :: "string option"
  ap_model :: "string option"
  ap_fill_first :: bool
  ap_require_explicit_catalog :: bool
  ap_accept :: "upstream_key_slot \<Rightarrow> bool"
  ap_max_strikes :: "nat option"
  ap_quota_threshold :: "f64 option"

definition slot_is_oauth :: "upstream_key_slot \<Rightarrow> bool" where
  "slot_is_oauth s = looks_like_codex_oauth_key (uk_secret s) (uk_account_id s)"

definition slot_eligible ::
  "upstream_key_pool \<Rightarrow> acquire_policy \<Rightarrow> nat \<Rightarrow> instant \<Rightarrow> upstream_key_slot \<Rightarrow> bool"
where
  \<comment> \<open>the conditions of the candidate loop, the priority apart\<close>
  "slot_eligible p ap now inst s \<longleftrightarrow>
     uk_enabled s \<and>
     slot_passes_cooldown s (ap_scope ap) (ap_model ap) now \<and>
     ap_excluded ap \<noteq> Some (uk_account_id s) \<and>
     \<not> (ap_require_explicit_catalog ap \<and> uk_supported_models s = []) \<and>
     ap_accept ap s \<and>
     \<not> (case ap_max_strikes ap of Some mx \<Rightarrow> mx < uk_rate_limit_strikes s | None \<Rightarrow> False) \<and>
     \<not> (case (ap_quota_threshold ap, up_quota_cache p) of
          (Some thr, Some cache) \<Rightarrow> slot_is_oauth s \<and> qc_is_exhausted cache (uk_id s) thr inst
        | _ \<Rightarrow> False)"

definition bucket_candidates ::
  "upstream_key_pool \<Rightarrow> acquire_policy \<Rightarrow> nat \<Rightarrow> instant \<Rightarrow> nat \<Rightarrow> nat list"
where
  "bucket_candidates p ap now inst priority =
     filter (\<lambda>i. uk_priority (up_slots p ! i) = priority \<and> slot_eligible p ap now inst (up_slots p ! i))
       [0..<length (up_slots p)]"

definition quota_penalty :: "upstream_key_pool \<Rightarrow> upstream_key_slot \<Rightarrow> nat" where
  "quota_penalty p s =
     (case up_quota_cache p of
        None \<Rightarrow> 0
      | Some cache \<Rightarrow>
          if slot_is_oauth s then
            (case qc_headroom_percent cache (uk_id s) of
               Some headroom \<Rightarrow>
                 wrap_add 64 (f64_to_u64 (f64_div (f64_sub 100 headroom) 8))
                   (if headroom \<le> 10 then 10 else if headroom \<le> 25 then 4 else 0)
             | None \<Rightarrow> 4)
          else 0)"

definition slot_score :: "upstream_key_pool \<Rightarrow> bool \<Rightarrow> upstream_key_slot \<Rightarrow> nat" where
  "slot_score p fill_first s =
     (if fill_first
      then wrap_add 64 (wrap_add 64 (sat_mul 32 (uk_rate_limit_strikes s) 1000) (uk_inflight s))
             (quota_penalty p s)
      else wrap_add 64 (uk_inflight s) (quota_penalty p s))"

fun best_candidate :: "(nat \<Rightarrow> nat) \<Rightarrow> nat list \<Rightarrow> nat option \<Rightarrow> nat \<Rightarrow> nat option" where
  \<comment> \<open>the scan: the first strictly smaller score wins\<close>
  "best_candidate score [] best_idx best_score = best_idx"
| "best_candidate score (i # is) best_idx best_score =
     (if score i < best_score then best_candidate score is (Some i) (score i)
      else best_candidate score is best_idx best_score)"

definition scan_order :: "nat \<Rightarrow> nat list \<Rightarrow> nat list" where
  "scan_order start candidates =
     map (\<lambda>offset. candidates ! ((start + offset) mod length candidates)) [0..<length candidates]"

fun acquire_buckets ::
  "upstream_key_pool \<Rightarrow> sem_store \<Rightarrow> acquire_policy \<Rightarrow> nat \<Rightarrow> instant \<Rightarrow> nat list
     \<Rightarrow> upstream_key_guard option \<times> upstream_key_pool \<times> sem_store"
where
  "acquire_buckets p sems ap now inst [] = (None, p, sems)"
| "acquire_buckets p sems ap now inst (priority # priorities) =
     (let candidates = bucket_candidates p ap now inst priority in
      if candidates = [] then acquire_buckets p sems ap now inst priorities
      else let (start, p') = next_model_rr_index p (case ap_model ap of Some m \<Rightarrow> m | None \<Rightarrow> [])
                               (length candidates)
           in case best_candidate (\<lambda>i. slot_score p' (ap_fill_first ap) (up_slots p' ! i))
                     (scan_order start candidates) None u64_max of
                Some idx \<Rightarrow> take_permit p' sems idx
              | None \<Rightarrow> acquire_buckets p' sems ap now inst priorities)"

definition pool_priorities :: "upstream_key_pool \<Rightarrow> nat list" where
  "pool_priorities p = remdups_adj (sort (map uk_priority (filter uk_enabled (up_slots p))))"

definition acquire_scored_pass ::
  "upstream_key_pool \<Rightarrow> sem_store \<Rightarrow> acquire_policy \<Rightarrow> nat \<Rightarrow> instant
     \<Rightarrow> upstream_key_guard option \<times> upstream_key_pool \<times> sem_store"
where
  "acquire_scored_pass p sems ap now inst = acquire_buckets p sems ap now inst (pool_priorities p)"

definition acquire_scored ::
  "upstream_key_pool \<Rightarrow> sem_store \<Rightarrow> string option \<Rightarrow> string option \<Rightarrow> string option \<Rightarrow> bool \<Rightarrow> bool
     \<Rightarrow> (upstream_key_slot \<Rightarrow> bool) \<Rightarrow> nat \<Rightarrow> instant
     \<Rightarrow> upstream_key_guard option \<times> upstream_key_pool \<times> sem_store"
where
  "acquire_scored p sems excluded scope model fill_first require_explicit accept now inst =
     (if up_slots p = [] then (None, p, sems)
      else let ap = \<lparr>ap_excluded = excluded, ap_scope = scope, ap_model = model,
                     ap_fill_first = fill_first, ap_require_explicit_catalog = require_explicit,
                     ap_accept = accept, ap_max_strikes = None,
                     ap_quota_threshold = map_option (\<lambda>_. 2) (up_quota_cache p)\<rparr>
           in if fill_first then
                (case acquire_scored_pass p sems (ap\<lparr>ap_max_strikes := Some 0\<rparr>) now inst of
                   (Some g, p', sems') \<Rightarrow> (Some g, p', sems')
                 | (None, p', sems') \<Rightarrow> acquire_scored_pass p' sems' ap now inst)
              else acquire_scored_pass p sems ap now inst)"

definition up_acquire_excluding_account ::
  "upstream_key_pool \<Rightarrow> sem_store \<Rightarrow> string option \<Rightarrow> nat \<Rightarrow> instant
     \<Rightarrow> upstream_key_guard option \<times> upstream_key_pool \<times> sem_store"
where
  "up_acquire_excluding_account p sems excluded now inst =
     acquire_scored p sems excluded None None False False (\<lambda>_. True) now inst"

definition up_acquire ::
  "upstream_key_pool \<Rightarrow> sem_store \<Rightarrow> nat \<Rightarrow> instant
     \<Rightarrow> upstream_key_guard option \<times> upstream_key_pool \<times> sem_store"
where
  "up_acquire p sems now inst = up_acquire_excluding_account p sems None now inst"

definition up_acquire_excluding_key ::
  "upstream_key_pool \<Rightarrow> sem_store \<Rightarrow> string \<Rightarrow> nat \<Rightarrow> instant
     \<Rightarrow> upstream_key_guard option \<times> upstream_key_pool \<times> sem_store"
where
  "up_acquire_excluding_key p sems excluded_key_id now inst =
     acquire_scored p sems None None None False False (\<lambda>s. uk_id s \<noteq> excluded_key_id) now inst"

definition explicit_catalog_mode :: "upstream_key_pool \<Rightarrow> string \<Rightarrow> bool" where
  "explicit_catalog_mode p model \<longleftrightarrow>
     model \<noteq> [] \<and> list_ex (\<lambda>s. uk_enabled s \<and> uk_supported_models s \<noteq> []) (up_slots p)"

definition up_acquire_codex_for_model_excluding ::
  "upstream_key_pool \<Rightarrow> sem_store \<Rightarrow> string \<Rightarrow> string option \<Rightarrow> bool \<Rightarrow> string list \<Rightarrow> nat \<Rightarrow> instant
     \<Rightarrow> upstream_key_guard option \<times> upstream_key_pool \<times> sem_store"
where
  "up_acquire_codex_for_model_excluding p sems upstream_model excluded_account fill_first exclude_keys
     now inst =
     (let scope = codex_model_scope upstream_model; model = trim upstream_model;
          accept = (\<lambda>s. uk_id s \<notin> set exclude_keys \<and> slot_is_oauth s \<and> slot_supports_model s model)
      in if explicit_catalog_mode p model then
           (case acquire_scored p sems excluded_account (Some scope) (Some model) fill_first True accept
                   now inst of
              (Some g, p', sems') \<Rightarrow> (Some g, p', sems')
            | (None, p', sems') \<Rightarrow>
                acquire_scored p' sems' excluded_account (Some scope) (Some model) fill_first False
                  accept now inst)
         else acquire_scored p sems excluded_account (Some scope) (Some model) fill_first False accept
                now inst)"

definition up_acquire_codex_for_model ::
  "upstream_key_pool \<Rightarrow> sem_store \<Rightarrow> string \<Rightarrow> string option \<Rightarrow> bool \<Rightarrow> nat \<Rightarrow> instant
     \<Rightarrow> upstream_key_guard option \<times> upstream_key_pool \<times> sem_store"
where
  "up_acquire_codex_for_model p sems upstream_model excluded_account fill_first now inst =
     (let scope = codex_model_scope upstream_model; model = trim upstream_model;
          accept = (\<lambda>s. slot_is_oauth s \<and> slot_supports_model s model)
      in if explicit_catalog_mode p model then
           (case acquire_scored p sems excluded_account (Some scope) (Some model) fill_first True accept
                   now inst of
              (Some g, p', sems') \<Rightarrow> (Some g, p', sems')
            | (None, p', sems') \<Rightarrow>
                acquire_scored p' sems' excluded_account (Some scope) (Some model) fill_first False
                  accept now inst)
         else acquire_scored p sems excluded_account (Some scope) (Some model) fill_first False accept
                now inst)"

definition acquire_with_model_policy ::
  "upstream_key_pool \<Rightarrow> sem_store \<Rightarrow> string \<Rightarrow> bool \<Rightarrow> bool \<Rightarrow> nat \<Rightarrow> instant
     \<Rightarrow> upstream_key_guard option \<times> upstream_key_pool \<times> sem_store"
where
  "acquire_with_model_policy p sems upstream_model codex_oauth_only require_explicit now inst =
     acquire_scored p sems None None (Some upstream_model) False require_explicit
       (\<lambda>s. if codex_oauth_only \<and> \<not> slot_is_oauth s then False
            else if require_explicit
            then uk_supported_models s \<noteq> [] \<and> slot_supports_model s upstream_model
            else uk_supported_models s = [] \<or> slot_supports_model s upstream_model)
       now inst"

definition up_acquire_for_upstream_model ::
  "upstream_key_pool \<Rightarrow> sem_store \<Rightarrow> string \<Rightarrow> bool \<Rightarrow> nat \<Rightarrow> instant
     \<Rightarrow> upstream_key_guard option \<times> upstream_key_pool \<times> sem_store"
where
  "up_acquire_for_upstream_model p sems upstream_model codex_oauth_only now inst =
     (let model = trim upstream_model in
      if explicit_catalog_mode p model then
        (case acquire_with_model_policy p sems model codex_oauth_only True now inst of
           (Some g, p', sems') \<Rightarrow> (Some g, p', sems')
         | (None, p', sems') \<Rightarrow> acquire_with_model_policy p' sems' model codex_oauth_only False now inst)
      else acquire_scored p sems None None (Some model) False False
             (\<lambda>s. (\<not> codex_oauth_only \<or> slot_is_oauth s) \<and> slot_supports_model s model) now inst)"

definition up_acquire_codex_oauth ::
  "upstream_key_pool \<Rightarrow> sem_store \<Rightarrow> nat \<Rightarrow> instant
     \<Rightarrow> upstream_key_guard option \<times> upstream_key_pool \<times> sem_store"
where
  "up_acquire_codex_oauth p sems now inst = up_acquire_for_upstream_model p sems [] True now inst"

definition up_release :: "upstream_key_pool \<Rightarrow> nat \<Rightarrow> upstream_key_pool" where
  "up_release p index =
     (if index < length (up_slots p)
      then update_slot p index (\<lambda>s. s\<lparr>uk_inflight := wrap_sub 64 (uk_inflight s) 1\<rparr>)
      else p)"

definition drop_guard ::
  "upstream_key_pool \<Rightarrow> sem_store \<Rightarrow> upstream_key_guard \<Rightarrow> upstream_key_pool \<times> sem_store"
where
  \<comment> \<open>dropping a guard: the release, then the permit goes back to its semaphore\<close>
  "drop_guard p sems g =
     (up_release p (ukg_index g), sems[ukg_permit g := sems ! ukg_permit g + 1])"

section \<open>Reports\<close>

definition up_report_rate_limited_for ::
  "upstream_key_pool \<Rightarrow> string \<Rightarrow> nat \<Rightarrow> string option \<Rightarrow> nat \<Rightarrow> upstream_key_pool"
where
  "up_report_rate_limited_for p key_id cooldown_secs scope now =
     (let until = wrap_add 64 now (sat_mul 64 cooldown_secs 1000) in
      case slot_index p key_id of
        None \<Rightarrow> p
      | Some i \<Rightarrow>
          (update_slot p i (\<lambda>s. s\<lparr>uk_cooldown_until_ms := until,
              uk_rate_limit_strikes := wrap_add 32 (uk_rate_limit_strikes s) 1,
              uk_scope_cooldowns := (case active_scope scope of
                 Some sc \<Rightarrow> hm_insert (uk_scope_cooldowns s) sc until
               | None \<Rightarrow> uk_scope_cooldowns s)\<rparr>))\<lparr>up_state_dirty := True\<rparr>)"

definition up_report_rate_limited :: "upstream_key_pool \<Rightarrow> string \<Rightarrow> nat \<Rightarrow> upstream_key_pool" where
  "up_report_rate_limited p key_id now =
     up_report_rate_limited_for p key_id (up_cooldown_secs p) None now"

definition next_model_cooldown ::
  "upstream_key_slot \<Rightarrow> string \<Rightarrow> nat \<Rightarrow> nat \<Rightarrow> model_cooldown_entry"
where
  "next_model_cooldown s model_key cooldown_secs now =
     (let (backoff_secs, next_level) =
            (case hm_get (uk_model_cooldowns s) model_key of
               Some e \<Rightarrow>
                 if now < mc_cooldown_until_ms e then next_progressive_cooldown (mc_backoff_level e)
                 else (max cooldown_secs progressive_backoff_base_secs, 1)
             | None \<Rightarrow> (max cooldown_secs progressive_backoff_base_secs, 1))
      in \<lparr>mc_cooldown_until_ms = wrap_add 64 now (sat_mul 64 backoff_secs 1000),
          mc_backoff_level = next_level\<rparr>)"

definition up_report_rate_limited_for_model ::
  "upstream_key_pool \<Rightarrow> string \<Rightarrow> string \<Rightarrow> nat \<Rightarrow> string option \<Rightarrow> nat \<Rightarrow> upstream_key_pool"
where
  "up_report_rate_limited_for_model p key_id model cooldown_secs scope now =
     (case slot_index p key_id of
        None \<Rightarrow> p
      | Some i \<Rightarrow>
          (let model_key = normalize_model_slug model;
               scope_until = wrap_add 64 now (sat_mul 64 cooldown_secs 1000)
           in (update_slot p i (\<lambda>s. s\<lparr>
                 uk_model_cooldowns :=
                   (if model_key = [] then uk_model_cooldowns s
                    else hm_insert (uk_model_cooldowns s) model_key
                           (next_model_cooldown s model_key cooldown_secs now)),
                 uk_rate_limit_strikes := wrap_add 32 (uk_rate_limit_strikes s) 1,
                 uk_scope_cooldowns := (case active_scope scope of
                    Some sc \<Rightarrow> hm_insert (uk_scope_cooldowns s) sc scope_until
                  | None \<Rightarrow> uk_scope_cooldowns s)\<rparr>))\<lparr>up_state_dirty := True\<rparr>))"

definition up_record_key_success :: "upstream_key_pool \<Rightarrow> string \<Rightarrow> upstream_key_pool" where
  "up_record_key_success p key_id =
     (case slot_index p key_id of
        None \<Rightarrow> p
      | Some i \<Rightarrow>
          (let prev = uk_rate_limit_strikes (up_slots p ! i);
               p' = update_slot p i (\<lambda>s. s\<lparr>uk_rate_limit_strikes := 0\<rparr>)
           in if 0 < prev then p'\<lparr>up_state_dirty := True\<rparr> else p'))"

definition up_record_model_success ::
  "upstream_key_pool \<Rightarrow> string \<Rightarrow> string \<Rightarrow> upstream_key_pool"
where
  "up_record_model_success p key_id model =
     (let p = up_record_key_success p key_id; model_key = normalize_model_slug model in
      if model_key = [] then p
      else case slot_index p key_id of
             None \<Rightarrow> p
           | Some i \<Rightarrow>
               (let removed = hm_contains (uk_model_cooldowns (up_slots p ! i)) model_key;
                    p' = update_slot p i (\<lambda>s. s\<lparr>uk_model_cooldowns :=
                           hm_remove (uk_model_cooldowns s) model_key\<rparr>)
                in if removed then p'\<lparr>up_state_dirty := True\<rparr> else p'))"

definition up_reset_model_cooldowns ::
  "upstream_key_pool \<Rightarrow> string \<Rightarrow> string option \<Rightarrow> nat \<times> upstream_key_pool"
where
  "up_reset_model_cooldowns p key_id model =
     (case slot_index p key_id of
        None \<Rightarrow> (0, p)
      | Some i \<Rightarrow>
          (let mc = uk_model_cooldowns (up_slots p ! i);
               mark = (\<lambda>removed p'. if 0 < removed then p'\<lparr>up_state_dirty := True\<rparr> else p')
           in case model of
                Some m \<Rightarrow>
                  (let mk = normalize_model_slug m in
                   if mk = [] then (0, p)
                   else let removed = (if hm_contains mc mk then 1 else 0)
                        in (removed, mark removed (update_slot p i
                              (\<lambda>s. s\<lparr>uk_model_cooldowns := hm_remove mc mk\<rparr>))))
              | None \<Rightarrow>
                  (length mc, mark (length mc) (update_slot p i (\<lambda>s. s\<lparr>uk_model_cooldowns := []\<rparr>)))))"

definition up_report_unauthorized :: "upstream_key_pool \<Rightarrow> string \<Rightarrow> upstream_key_pool" where
  "up_report_unauthorized p key_id =
     (case slot_index p key_id of
        None \<Rightarrow> p
      | Some i \<Rightarrow> (update_slot p i (\<lambda>s. s\<lparr>uk_enabled := False\<rparr>))\<lparr>up_state_dirty := True\<rparr>)"

definition up_set_enabled :: "upstream_key_pool \<Rightarrow> string \<Rightarrow> bool \<Rightarrow> bool \<times> upstream_key_pool" where
  "up_set_enabled p key_id enabled =
     (case slot_index p key_id of
        None \<Rightarrow> (False, p)
      | Some i \<Rightarrow> (True, (update_slot p i (\<lambda>s. s\<lparr>uk_enabled := enabled\<rparr>))\<lparr>up_state_dirty := True\<rparr>))"

definition up_set_priority :: "upstream_key_pool \<Rightarrow> string \<Rightarrow> nat \<Rightarrow> bool \<times> upstream_key_pool" where
  "up_set_priority p key_id priority =
     (case slot_index p key_id of
        None \<Rightarrow> (False, p)
      | Some i \<Rightarrow> (True, (update_slot p i (\<lambda>s. s\<lparr>uk_priority := priority\<rparr>))\<lparr>up_state_dirty := True\<rparr>))"

definition up_rotate_after_rate_limit_for ::
  "upstream_key_pool \<Rightarrow> sem_store \<Rightarrow> string \<Rightarrow> nat \<Rightarrow> string option \<Rightarrow> bool \<Rightarrow> nat \<Rightarrow> instant
     \<Rightarrow> upstream_key_guard option \<times> upstream_key_pool \<times> sem_store"
where
  "up_rotate_after_rate_limit_for p sems key_id cooldown_secs scope fill_first now inst =
     (let p = up_report_rate_limited_for p key_id cooldown_secs scope now in
      case slot_index p key_id of
        None \<Rightarrow> (None, p, sems)
      | Some i \<Rightarrow>
          (let excluded = uk_account_id (up_slots p ! i) in
           if scope \<noteq> None
           then acquire_scored p sems (Some excluded) scope None fill_first False (\<lambda>_. True) now inst
           else up_acquire_excluding_account p sems (Some excluded) now inst))"

definition up_rotate_after_rate_limit ::
  "upstream_key_pool \<Rightarrow> sem_store \<Rightarrow> string \<Rightarrow> nat \<Rightarrow> instant
     \<Rightarrow> upstream_key_guard option \<times> upstream_key_pool \<times> sem_store"
where
  "up_rotate_after_rate_limit p sems key_id now inst =
     up_rotate_after_rate_limit_for p sems key_id (up_cooldown_secs p) None False now inst"

end
