(* ===== verification/UpstreamPoolSelect.thy ===== *)
theory UpstreamPoolSelect
  imports UpstreamPool LimiterSpec
begin

text \<open>
  Correctness of key selection. Every selection ends in one attempt at the permit of the best
  eligible key: lowest priority number first, lowest score within it. Shown: what an acquired key
  satisfies and what acquiring changes, when no key is returned, that rotation leaves the limited
  account, and that permits and in-flight counts are conserved over any history of one pool.
\<close>

section \<open>The scan\<close>

lemma best_candidate_spec:
  assumes "\<forall>j. b = Some j \<longrightarrow> score j = m"
  shows "case best_candidate score is b m of
     Some i \<Rightarrow> (i \<in> set is \<and> score i < m \<or> b = Some i) \<and> score i \<le> m \<and> (\<forall>k \<in> set is. score i \<le> score k)
   | None \<Rightarrow> b = None \<and> (\<forall>k \<in> set is. m \<le> score k)"
  using assms
proof (induction "is" arbitrary: b m)
  case Nil
  then show ?case by (auto split: option.split)
next
  case (Cons x xs)
  show ?case
  proof (cases "score x < m")
    case True
    then show ?thesis using Cons.IH [of "Some x" "score x"] by (auto split: option.splits)
  next
    case False
    then show ?thesis using Cons.IH [OF Cons.prems] by (auto split: option.splits)
  qed
qed

lemma best_candidate_SomeD:
  assumes "best_candidate score is None m = Some i"
  shows "i \<in> set is" and "score i < m" and "\<forall>k \<in> set is. score i \<le> score k"
  using best_candidate_spec [of None score m "is"] assms by auto

lemma best_candidate_NoneD:
  assumes "best_candidate score is None m = None"
  shows "\<forall>k \<in> set is. m \<le> score k"
  using best_candidate_spec [of None score m "is"] assms by auto

lemma scan_order_rotate: "c \<noteq> [] \<Longrightarrow> scan_order s c = rotate s c"
  by (intro nth_equalityI) (auto simp: scan_order_def nth_rotate)

lemma set_scan_order [simp]: "c \<noteq> [] \<Longrightarrow> set (scan_order s c) = set c"
  by (simp add: scan_order_rotate)

section \<open>Pools that differ in their rotation counters only\<close>

definition same_core :: "upstream_key_pool \<Rightarrow> upstream_key_pool \<Rightarrow> bool" where
  "same_core p q \<longleftrightarrow> up_slots q = up_slots p \<and> up_quota_cache q = up_quota_cache p \<and>
     up_cooldown_secs q = up_cooldown_secs p \<and> up_max_inflight q = up_max_inflight p \<and>
     up_state_dirty q = up_state_dirty p"

lemma same_core_refl [simp]: "same_core p p"
  by (simp add: same_core_def)

lemma same_core_trans: "same_core p q \<Longrightarrow> same_core q r \<Longrightarrow> same_core p r"
  by (simp add: same_core_def)

lemma same_core_rr: "same_core p (snd (next_model_rr_index p model n))"
  by (simp add: same_core_def next_model_rr_index_def Let_def)

lemma same_core_score: "same_core p q \<Longrightarrow> slot_score q ff s = slot_score p ff s"
  by (simp add: same_core_def slot_score_def quota_penalty_def)

lemma same_core_candidates:
  "same_core p q \<Longrightarrow> bucket_candidates q ap now inst = bucket_candidates p ap now inst"
  by (simp add: same_core_def bucket_candidates_def slot_eligible_def fun_eq_iff)

section \<open>The best eligible key\<close>

definition eligible_at ::
  "upstream_key_pool \<Rightarrow> acquire_policy \<Rightarrow> nat \<Rightarrow> instant \<Rightarrow> nat \<Rightarrow> bool"
where
  "eligible_at p ap now inst i \<longleftrightarrow>
     i < length (up_slots p) \<and> slot_eligible p ap now inst (up_slots p ! i)"

definition score_at :: "upstream_key_pool \<Rightarrow> acquire_policy \<Rightarrow> nat \<Rightarrow> nat" where
  "score_at p ap i = slot_score p (ap_fill_first ap) (up_slots p ! i)"

definition best_eligible ::
  "upstream_key_pool \<Rightarrow> acquire_policy \<Rightarrow> nat \<Rightarrow> instant \<Rightarrow> nat \<Rightarrow> bool"
where
  "best_eligible p ap now inst i \<longleftrightarrow>
     eligible_at p ap now inst i \<and> score_at p ap i < u64_max \<and>
     (\<forall>k. eligible_at p ap now inst k \<longrightarrow> score_at p ap k < u64_max \<longrightarrow>
        uk_priority (up_slots p ! i) < uk_priority (up_slots p ! k) \<or>
        uk_priority (up_slots p ! i) = uk_priority (up_slots p ! k) \<and> score_at p ap i \<le> score_at p ap k)"

lemma bucket_candidates_iff:
  "i \<in> set (bucket_candidates p ap now inst pr) \<longleftrightarrow>
     eligible_at p ap now inst i \<and> uk_priority (up_slots p ! i) = pr"
  by (auto simp: bucket_candidates_def eligible_at_def)

lemma acquire_buckets_cases:
  assumes "sorted_wrt (<) ps"
    and "\<forall>k. eligible_at p ap now inst k \<longrightarrow> score_at p ap k < u64_max \<longrightarrow>
      uk_priority (up_slots p ! k) \<in> set ps"
  shows "(\<exists>q. same_core p q \<and> acquire_buckets p sems ap now inst ps = (None, q, sems) \<and>
      (\<forall>k. eligible_at p ap now inst k \<longrightarrow> u64_max \<le> score_at p ap k)) \<or>
    (\<exists>i q. same_core p q \<and> best_eligible p ap now inst i \<and>
      acquire_buckets p sems ap now inst ps = take_permit q sems i)"
  using assms
proof (induction ps arbitrary: p)
  case Nil
  then have "\<forall>k. eligible_at p ap now inst k \<longrightarrow> u64_max \<le> score_at p ap k"
    by (auto simp: not_less)
  then show ?case by auto
next
  case (Cons pr ps)
  let ?c = "bucket_candidates p ap now inst pr"
  have later: "\<forall>k. eligible_at p ap now inst k \<longrightarrow> score_at p ap k < u64_max \<longrightarrow>
      uk_priority (up_slots p ! k) \<noteq> pr \<longrightarrow> uk_priority (up_slots p ! k) \<in> set ps \<and>
        pr < uk_priority (up_slots p ! k)"
    using Cons.prems by fastforce
  show ?case
  proof (cases "?c = []")
    case True
    then have "\<forall>k. eligible_at p ap now inst k \<longrightarrow> uk_priority (up_slots p ! k) \<noteq> pr"
      using bucket_candidates_iff [of _ p ap now inst pr] by auto
    then show ?thesis using Cons.IH [of p] Cons.prems(1) later True by simp
  next
    case False
    obtain st q where rr: "next_model_rr_index p (case ap_model ap of Some m \<Rightarrow> m | None \<Rightarrow> [])
        (length ?c) = (st, q)" by (metis surj_pair)
    then have core: "same_core p q" using same_core_rr by (metis snd_conv)
    have sc: "(\<lambda>i. slot_score q (ap_fill_first ap) (up_slots q ! i)) = score_at p ap"
      using core by (simp add: fun_eq_iff score_at_def same_core_score) (simp add: same_core_def)
    let ?best = "best_candidate (score_at p ap) (scan_order st ?c) None u64_max"
    have unfold: "acquire_buckets p sems ap now inst (pr # ps) =
        (case ?best of Some idx \<Rightarrow> take_permit q sems idx
         | None \<Rightarrow> acquire_buckets q sems ap now inst ps)"
      using False rr by (simp add: sc Let_def)
    show ?thesis
    proof (cases ?best)
      case (Some i)
      have i: "i \<in> set ?c" "score_at p ap i < u64_max" "\<forall>k \<in> set ?c. score_at p ap i \<le> score_at p ap k"
        using best_candidate_SomeD [OF Some] False by auto
      then have "best_eligible p ap now inst i"
        using later by (auto simp: best_eligible_def bucket_candidates_iff)
      then show ?thesis using core unfold Some by auto
    next
      case None
      have "\<forall>k \<in> set ?c. u64_max \<le> score_at p ap k"
        using best_candidate_NoneD [OF None] False by auto
      then have none: "\<forall>k. eligible_at p ap now inst k \<longrightarrow> score_at p ap k < u64_max \<longrightarrow>
          uk_priority (up_slots p ! k) \<in> set ps"
        using later by (force simp: bucket_candidates_iff)
      have eq: "eligible_at q ap now inst = eligible_at p ap now inst" "score_at q ap = score_at p ap"
          "up_slots q = up_slots p"
        using core same_core_score [OF core]
        by (auto simp: fun_eq_iff eligible_at_def slot_eligible_def score_at_def same_core_def)
      have "best_eligible q ap now inst = best_eligible p ap now inst"
        by (simp add: fun_eq_iff best_eligible_def eq)
      then have "(\<exists>r. same_core q r \<and> acquire_buckets q sems ap now inst ps = (None, r, sems) \<and>
            (\<forall>k. eligible_at p ap now inst k \<longrightarrow> u64_max \<le> score_at p ap k)) \<or>
          (\<exists>i r. same_core q r \<and> best_eligible p ap now inst i \<and>
            acquire_buckets q sems ap now inst ps = take_permit r sems i)"
        using Cons.IH [of q] Cons.prems(1) none by (simp add: eq)
      moreover have "acquire_buckets p sems ap now inst (pr # ps) = acquire_buckets q sems ap now inst ps"
        using unfold None by (simp del: acquire_buckets.simps)
      ultimately show ?thesis
        using same_core_trans [OF core] by (auto simp del: acquire_buckets.simps)
    qed
  qed
qed

lemma sorted_wrt_remdups_adj:
  "sorted (xs :: nat list) \<Longrightarrow> sorted_wrt (<) (remdups_adj xs)"
  by (induction xs rule: remdups_adj.induct) (auto simp: less_le)

lemma acquire_scored_pass_cases:
  "(\<exists>q. same_core p q \<and> acquire_scored_pass p sems ap now inst = (None, q, sems) \<and>
      (\<forall>k. eligible_at p ap now inst k \<longrightarrow> u64_max \<le> score_at p ap k)) \<or>
   (\<exists>i q. same_core p q \<and> best_eligible p ap now inst i \<and>
      acquire_scored_pass p sems ap now inst = take_permit q sems i)"
  unfolding acquire_scored_pass_def
proof (rule acquire_buckets_cases)
  show "sorted_wrt (<) (pool_priorities p)"
    by (simp add: pool_priorities_def sorted_wrt_remdups_adj)
  show "\<forall>k. eligible_at p ap now inst k \<longrightarrow> score_at p ap k < u64_max \<longrightarrow>
      uk_priority (up_slots p ! k) \<in> set (pool_priorities p)"
    by (auto simp: pool_priorities_def eligible_at_def slot_eligible_def)
qed

section \<open>Attempts\<close>

definition attempt ::
  "upstream_key_pool \<Rightarrow> sem_store \<Rightarrow> (nat \<Rightarrow> bool)
     \<Rightarrow> upstream_key_guard option \<times> upstream_key_pool \<times> sem_store \<Rightarrow> bool"
where
  \<comment> \<open>the outcome of a selection: nothing changed but rotation counters, or the permit of a key
    that satisfies \<open>ok\<close> was taken\<close>
  "attempt p sems ok r \<longleftrightarrow>
     (\<exists>q. same_core p q \<and> r = (None, q, sems)) \<or>
     (\<exists>q i. same_core p q \<and> ok i \<and> i < length (up_slots p) \<and>
        0 < sems ! uk_semaphore (up_slots p ! i) \<and> r = take_permit q sems i)"

lemma attempt_take_permit:
  assumes "same_core p q" and "ok i" and "i < length (up_slots p)"
  shows "attempt p sems ok (take_permit q sems i)"
proof (cases "sems ! uk_semaphore (up_slots p ! i) = 0")
  case True
  then have "take_permit q sems i = (None, q, sems)"
    using assms(1) by (simp add: take_permit_def same_core_def)
  then show ?thesis using assms(1) by (auto simp: attempt_def)
next
  case False
  then show ?thesis using assms by (auto simp: attempt_def)
qed

lemma attempt_mono: "attempt p sems ok r \<Longrightarrow> (\<And>i. ok i \<Longrightarrow> ok' i) \<Longrightarrow> attempt p sems ok' r"
  by (auto simp: attempt_def)

lemma attempt_core: "same_core p q \<Longrightarrow> attempt q sems ok r \<Longrightarrow> attempt p sems ok r"
  by (auto simp: attempt_def same_core_def)

lemma attempt_SomeD:
  assumes "attempt p sems ok (Some g, p', sems')"
  shows "ok (ukg_index g)" and "ukg_index g < length (up_slots p)"
    and "ukg_permit g = uk_semaphore (up_slots p ! ukg_index g)" and "0 < sems ! ukg_permit g"
    and "sems' = sems[ukg_permit g := sems ! ukg_permit g - 1]"
    and "up_slots p' = (up_slots p)[ukg_index g := (up_slots p ! ukg_index g)
           \<lparr>uk_inflight := wrap_add 64 (uk_inflight (up_slots p ! ukg_index g)) 1\<rparr>]"
    and "up_max_inflight p' = up_max_inflight p"
  using assms by (auto simp: attempt_def take_permit_def same_core_def update_slot_def Let_def
      split: if_splits)

lemma attempt_NoneD:
  assumes "attempt p sems ok (None, p', sems')"
  shows "same_core p p'" and "sems' = sems"
  using assms by (auto simp: attempt_def take_permit_def same_core_def Let_def split: if_splits)

lemma attempt_retry:
  assumes "attempt p sems ok r" and "\<And>q. same_core p q \<Longrightarrow> attempt q sems ok (F q sems)"
  shows "attempt p sems ok
    (case r of (Some g, p', s') \<Rightarrow> (Some g, p', s') | (None, p', s') \<Rightarrow> F p' s')"
proof (cases r)
  case (fields x p' s')
  show ?thesis
  proof (cases x)
    case None
    then have "same_core p p'" "s' = sems" using assms(1) attempt_NoneD fields by metis+
    then show ?thesis using assms(2) fields None by (auto intro: attempt_core)
  next
    case (Some g)
    then show ?thesis using assms(1) fields by simp
  qed
qed

lemma attempt_scored_pass:
  "attempt p sems (best_eligible p ap now inst) (acquire_scored_pass p sems ap now inst)"
proof -
  have "i < length (up_slots p)" if "best_eligible p ap now inst i" for i
    using that by (simp add: best_eligible_def eligible_at_def)
  then show ?thesis
    using acquire_scored_pass_cases [of p sems ap now inst]
    by (elim disjE exE conjE) (auto simp: attempt_def [of _ _ _ "(None, _, _)"] intro: attempt_take_permit)
qed

definition base_policy ::
  "string option \<Rightarrow> string option \<Rightarrow> string option \<Rightarrow> bool \<Rightarrow> bool \<Rightarrow> (upstream_key_slot \<Rightarrow> bool)
     \<Rightarrow> codex_quota_cache option \<Rightarrow> acquire_policy"
where
  \<comment> \<open>the policy of the last pass of \<open>acquire_scored\<close>\<close>
  "base_policy excluded scope model fill_first require_explicit accept cache =
     \<lparr>ap_excluded = excluded, ap_scope = scope, ap_model = model, ap_fill_first = fill_first,
      ap_require_explicit_catalog = require_explicit, ap_accept = accept, ap_max_strikes = None,
      ap_quota_threshold = map_option (\<lambda>_. 2) cache\<rparr>"

lemma eligible_relax_strikes:
  "eligible_at p (ap\<lparr>ap_max_strikes := ms\<rparr>) now inst i \<Longrightarrow> ap_max_strikes ap = None \<Longrightarrow>
     eligible_at p ap now inst i"
  by (auto simp: eligible_at_def slot_eligible_def)

lemma eligible_core: "same_core p q \<Longrightarrow> eligible_at q ap now inst = eligible_at p ap now inst"
  by (simp add: fun_eq_iff eligible_at_def slot_eligible_def same_core_def)

lemma attempt_acquire_scored:
  "attempt p sems
     (eligible_at p (base_policy ex sc mo ff req acc (up_quota_cache p)) now inst)
     (acquire_scored p sems ex sc mo ff req acc now inst)"
proof -
  let ?ap = "base_policy ex sc mo ff req acc (up_quota_cache p)"
  have pass: "attempt q sems (eligible_at p ?ap now inst)
      (acquire_scored_pass q sems (?ap\<lparr>ap_max_strikes := ms\<rparr>) now inst)"
    if "same_core p q" for q ms
  proof (rule attempt_mono [OF attempt_scored_pass])
    fix i assume "best_eligible q (?ap\<lparr>ap_max_strikes := ms\<rparr>) now inst i"
    then have "eligible_at p (?ap\<lparr>ap_max_strikes := ms\<rparr>) now inst i"
      using eligible_core [OF that] by (simp add: best_eligible_def)
    then show "eligible_at p ?ap now inst i"
      by (rule eligible_relax_strikes) (simp add: base_policy_def)
  qed
  have None: "?ap\<lparr>ap_max_strikes := None\<rparr> = ?ap" by (simp add: base_policy_def)
  show ?thesis
  proof (cases "up_slots p = []")
    case True
    then show ?thesis by (auto simp: acquire_scored_def attempt_def)
  next
    case False
    have eq: "acquire_scored p sems ex sc mo ff req acc now inst =
        (if ff then
           (case acquire_scored_pass p sems (?ap\<lparr>ap_max_strikes := Some 0\<rparr>) now inst of
              (Some g, p', s') \<Rightarrow> (Some g, p', s')
            | (None, p', s') \<Rightarrow> acquire_scored_pass p' s' ?ap now inst)
         else acquire_scored_pass p sems ?ap now inst)"
      using False unfolding acquire_scored_def base_policy_def Let_def by simp
    have two: "attempt p sems (eligible_at p ?ap now inst)
        (case acquire_scored_pass p sems (?ap\<lparr>ap_max_strikes := Some 0\<rparr>) now inst of
           (Some g, p', s') \<Rightarrow> (Some g, p', s')
         | (None, p', s') \<Rightarrow> acquire_scored_pass p' s' ?ap now inst)"
    proof (rule attempt_retry)
      show "attempt p sems (eligible_at p ?ap now inst)
          (acquire_scored_pass p sems (?ap\<lparr>ap_max_strikes := Some 0\<rparr>) now inst)"
        by (rule pass) simp
      show "attempt q sems (eligible_at p ?ap now inst) (acquire_scored_pass q sems ?ap now inst)"
        if "same_core p q" for q
        using pass [OF that, of None] by (simp add: None)
    qed
    have one: "attempt p sems (eligible_at p ?ap now inst) (acquire_scored_pass p sems ?ap now inst)"
      using pass [OF same_core_refl, of None] by (simp add: None)
    show ?thesis
    proof (cases ff)
      case True
      then show ?thesis unfolding eq if_P [OF True] by (intro two)
    next
      case False
      then show ?thesis unfolding eq if_not_P [OF False] by (intro one)
    qed
  qed
qed

lemma attempt_specific:
  "attempt p sems (\<lambda>i. uk_id (up_slots p ! i) = key_id \<and> uk_enabled (up_slots p ! i) \<and>
       slot_passes_cooldown (up_slots p ! i) scope None now)
     (up_acquire_specific_scoped p sems key_id scope now)"
proof (cases "first_index (\<lambda>s. uk_id s = key_id \<and> uk_enabled s \<and> slot_passes_cooldown s scope None now)
    (up_slots p)")
  case None
  then show ?thesis by (auto simp: up_acquire_specific_scoped_def attempt_def)
next
  case (Some i)
  then show ?thesis
    using first_index_SomeD [OF Some]
    by (auto simp: up_acquire_specific_scoped_def intro!: attempt_take_permit)
qed

section \<open>Conservation of permits\<close>

record pool_world =
  \<comment> \<open>one pool with its semaphores and the guards alive\<close>
  pw_pool :: upstream_key_pool
  pw_sems :: sem_store
  pw_guards :: "upstream_key_guard list"

definition pw_gain ::
  "pool_world \<Rightarrow> upstream_key_guard option \<times> upstream_key_pool \<times> sem_store \<Rightarrow> pool_world"
where
  "pw_gain w r =
     (case r of (g, p, sems) \<Rightarrow>
        \<lparr>pw_pool = p, pw_sems = sems,
         pw_guards = (case g of Some x \<Rightarrow> x # pw_guards w | None \<Rightarrow> pw_guards w)\<rparr>)"

definition pw_drop :: "pool_world \<Rightarrow> nat \<Rightarrow> pool_world" where
  "pw_drop w i =
     (case drop_guard (pw_pool w) (pw_sems w) (pw_guards w ! i) of (p, sems) \<Rightarrow>
        \<lparr>pw_pool = p, pw_sems = sems,
         pw_guards = take i (pw_guards w) @ drop (Suc i) (pw_guards w)\<rparr>)"

inductive pool_step :: "pool_world \<Rightarrow> unit \<Rightarrow> pool_world \<Rightarrow> bool" where
  step_scored: "pool_step w () (pw_gain w
     (acquire_scored (pw_pool w) (pw_sems w) ex sc mo ff req acc now inst))"
| step_specific: "pool_step w () (pw_gain w
     (up_acquire_specific_scoped (pw_pool w) (pw_sems w) key_id scope now))"
| step_drop: "i < length (pw_guards w) \<Longrightarrow> pool_step w () (pw_drop w i)"
| step_limited: "pool_step w ()
     (w\<lparr>pw_pool := up_report_rate_limited_for (pw_pool w) key_id secs scope now\<rparr>)"
| step_limited_model: "pool_step w ()
     (w\<lparr>pw_pool := up_report_rate_limited_for_model (pw_pool w) key_id model secs scope now\<rparr>)"
| step_success: "pool_step w () (w\<lparr>pw_pool := up_record_model_success (pw_pool w) key_id model\<rparr>)"
| step_unauthorized: "pool_step w () (w\<lparr>pw_pool := up_report_unauthorized (pw_pool w) key_id\<rparr>)"
| step_enable: "pool_step w () (w\<lparr>pw_pool := snd (up_set_enabled (pw_pool w) key_id b)\<rparr>)"
| step_priority: "pool_step w () (w\<lparr>pw_pool := snd (up_set_priority (pw_pool w) key_id pr)\<rparr>)"

definition guards_at :: "pool_world \<Rightarrow> nat \<Rightarrow> nat" where
  "guards_at w i = count_list (map ukg_index (pw_guards w)) i"

definition pool_cap :: "pool_world \<Rightarrow> nat" where
  "pool_cap w = semaphore_permits (up_max_inflight (pw_pool w))"

definition pool_inv :: "pool_world \<Rightarrow> bool" where
  "pool_inv w \<longleftrightarrow>
     pool_cap w < 2 ^ 64 \<and>
     distinct (map uk_semaphore (up_slots (pw_pool w))) \<and>
     (\<forall>i < length (up_slots (pw_pool w)).
        uk_semaphore (up_slots (pw_pool w) ! i) < length (pw_sems w) \<and>
        uk_inflight (up_slots (pw_pool w) ! i) = guards_at w i \<and>
        pw_sems w ! uk_semaphore (up_slots (pw_pool w) ! i) + guards_at w i = pool_cap w) \<and>
     (\<forall>g \<in> set (pw_guards w). ukg_index g < length (up_slots (pw_pool w)) \<and>
        ukg_permit g = uk_semaphore (up_slots (pw_pool w) ! ukg_index g))"

definition pool_init :: "pool_world \<Rightarrow> bool" where
  "pool_init w \<longleftrightarrow>
     (\<exists>digest specs secs mx sems. semaphore_permits mx < 2 ^ 64 \<and>
        up_new digest specs secs mx sems = (pw_pool w, pw_sems w) \<and> pw_guards w = [])"

lemma pool_init_inv: "pool_init w \<Longrightarrow> pool_inv w"
proof -
  assume "pool_init w"
  then obtain digest specs secs mx sems where cap: "semaphore_permits mx < 2 ^ 64"
    and new: "up_new digest specs secs mx sems = (pw_pool w, pw_sems w)" and gs: "pw_guards w = []"
    by (auto simp: pool_init_def)
  let ?sp = "ensure_unique_ids (auto_assign_account_ids digest specs)"
  have slots: "up_slots (pw_pool w) =
      map (\<lambda>i. slot_of_spec i (length sems + i) (?sp ! i)) [0..<length ?sp]"
    and sems: "pw_sems w = sems @ replicate (length ?sp) (semaphore_permits mx)"
    and mx: "up_max_inflight (pw_pool w) = mx"
    using new [symmetric] by (simp_all add: up_new_def Let_def)
  have "map uk_semaphore (up_slots (pw_pool w)) = map (\<lambda>i. length sems + i) [0..<length ?sp]"
    by (simp add: slots slot_of_spec_def comp_def)
  then have "distinct (map uk_semaphore (up_slots (pw_pool w)))" by (simp add: distinct_map)
  then show ?thesis
    using cap by (simp add: pool_inv_def pool_cap_def mx gs guards_at_def slots sems slot_of_spec_def
        nth_append)
qed

lemma pool_inv_sem_iff:
  assumes "pool_inv w" and "i < length (up_slots (pw_pool w))" and "j < length (up_slots (pw_pool w))"
  shows "uk_semaphore (up_slots (pw_pool w) ! i) = uk_semaphore (up_slots (pw_pool w) ! j) \<longleftrightarrow> i = j"
  using assms nth_eq_iff_index_eq [of "map uk_semaphore (up_slots (pw_pool w))" i j]
  by (auto simp: pool_inv_def)

lemma pool_inv_slotI:
  \<comment> \<open>a change of the count and the permits of one slot\<close>
  assumes w: "pool_inv w" and i: "i < length (up_slots (pw_pool w))"
    and a: "a = uk_semaphore (up_slots (pw_pool w) ! i)"
    and slots: "up_slots (pw_pool v) = (up_slots (pw_pool w))[i := (up_slots (pw_pool w) ! i)\<lparr>uk_inflight := n\<rparr>]"
    and sems: "pw_sems v = (pw_sems w)[a := m]" and mx: "up_max_inflight (pw_pool v) = up_max_inflight (pw_pool w)"
    and n: "guards_at v i = n" and m: "m + n = pool_cap w"
    and others: "\<And>j. j \<noteq> i \<Longrightarrow> guards_at v j = guards_at w j"
    and guards: "\<And>g. g \<in> set (pw_guards v) \<Longrightarrow> g \<in> set (pw_guards w) \<or> ukg_index g = i \<and> ukg_permit g = a"
  shows "pool_inv v"
proof -
  have cap: "pool_cap v = pool_cap w" by (simp add: pool_cap_def mx)
  have len: "length (up_slots (pw_pool v)) = length (up_slots (pw_pool w))" by (simp add: slots)
  have sem: "uk_semaphore (up_slots (pw_pool v) ! j) = uk_semaphore (up_slots (pw_pool w) ! j)" for j
    by (simp add: slots nth_update_if)
  have "map uk_semaphore (up_slots (pw_pool v)) = map uk_semaphore (up_slots (pw_pool w))"
    by (intro nth_equalityI) (simp_all add: len sem)
  moreover have "uk_semaphore (up_slots (pw_pool w) ! j) < length (pw_sems v) \<and>
      uk_inflight (up_slots (pw_pool v) ! j) = guards_at v j \<and>
      pw_sems v ! uk_semaphore (up_slots (pw_pool w) ! j) + guards_at v j = pool_cap w"
    if j: "j < length (up_slots (pw_pool w))" for j
  proof -
    have "uk_semaphore (up_slots (pw_pool w) ! j) < length (pw_sems w)"
        "uk_inflight (up_slots (pw_pool w) ! j) = guards_at w j"
        "pw_sems w ! uk_semaphore (up_slots (pw_pool w) ! j) + guards_at w j = pool_cap w"
      using w j by (auto simp: pool_inv_def)
    then show ?thesis
      using i j n m others [of j] pool_inv_sem_iff [OF w i j]
      by (cases "j = i") (auto simp: slots sems a nth_update_if)
  qed
  moreover have "ukg_index g < length (up_slots (pw_pool w)) \<and>
      ukg_permit g = uk_semaphore (up_slots (pw_pool w) ! ukg_index g)" if "g \<in> set (pw_guards v)" for g
    using guards [OF that] w i a by (auto simp: pool_inv_def)
  ultimately show ?thesis using w by (simp add: pool_inv_def cap len sem)
qed

lemma pool_inv_gain:
  assumes "pool_inv w" and "attempt (pw_pool w) (pw_sems w) ok r"
  shows "pool_inv (pw_gain w r)"
proof -
  obtain x p' sems' where r: "r = (x, p', sems')" by (cases r)
  show ?thesis
  proof (cases x)
    case None
    then have "same_core (pw_pool w) p'" "sems' = pw_sems w"
      using assms(2) attempt_NoneD r by metis+
    then show ?thesis using assms(1) None
      by (simp add: r pw_gain_def pool_inv_def pool_cap_def guards_at_def same_core_def)
  next
    case (Some g)
    note f = attempt_SomeD [OF assms(2) [unfolded r Some]]
    let ?i = "ukg_index g"
    have i: "uk_inflight (up_slots (pw_pool w) ! ?i) = guards_at w ?i"
        "pw_sems w ! ukg_permit g + guards_at w ?i = pool_cap w"
      using assms(1) f(2,3) by (auto simp: pool_inv_def)
    then have "guards_at w ?i + 1 < 2 ^ 64" using f(4) assms(1) by (simp add: pool_inv_def)
    then have "wrap_add 64 (guards_at w ?i) 1 = guards_at w ?i + 1" by (rule wrap_add_exact)
    then show ?thesis using i f
      by (intro pool_inv_slotI [OF assms(1) f(2,3), where n = "guards_at w ?i + 1"
            and m = "pw_sems w ! ukg_permit g - 1"])
        (auto simp: pw_gain_def r Some guards_at_def)
  qed
qed

lemma pool_inv_drop:
  assumes "pool_inv w" and "i < length (pw_guards w)"
  shows "pool_inv (pw_drop w i)"
proof -
  let ?g = "pw_guards w ! i" and ?gs = "take i (pw_guards w) @ drop (Suc i) (pw_guards w)"
  let ?k = "ukg_index (pw_guards w ! i)"
  have g: "?k < length (up_slots (pw_pool w))" "ukg_permit ?g = uk_semaphore (up_slots (pw_pool w) ! ?k)"
    using assms nth_mem [OF assms(2)] by (auto simp: pool_inv_def)
  have cnt: "count_list (map ukg_index ?gs) j + (if ?k = j then 1 else 0) = guards_at w j" for j
    using count_list_delete_nth [of i "map ukg_index (pw_guards w)" j] assms(2)
    by (simp add: guards_at_def take_map drop_map)
  have k: "uk_inflight (up_slots (pw_pool w) ! ?k) = guards_at w ?k"
      "pw_sems w ! ukg_permit ?g + guards_at w ?k = pool_cap w" "pool_cap w < 2 ^ 64"
    using assms(1) g by (auto simp: pool_inv_def)
  then have "wrap_sub 64 (guards_at w ?k) 1 = guards_at w ?k - 1" and pos: "1 \<le> guards_at w ?k"
    using cnt [of ?k] by (auto intro!: wrap_sub_exact)
  moreover have "guards_at (pw_drop w i) j = guards_at w j - (if ?k = j then 1 else 0)" for j
  proof -
    have "pw_guards (pw_drop w i) = ?gs" by (simp add: pw_drop_def drop_guard_def)
    then show ?thesis
      using cnt [of j] unfolding guards_at_def by (cases "?k = j") (simp_all del: map_append)
  qed
  ultimately show ?thesis
    using k g
    by (intro pool_inv_slotI [OF assms(1) g, where n = "guards_at w ?k - 1"
          and m = "pw_sems w ! ukg_permit ?g + 1"])
      (auto simp: pw_drop_def drop_guard_def up_release_def update_slot_def
        dest: in_set_takeD in_set_dropD)
qed

definition same_counts :: "upstream_key_pool \<Rightarrow> upstream_key_pool \<Rightarrow> bool" where
  \<comment> \<open>neither a semaphore nor an in-flight count changed\<close>
  "same_counts p q \<longleftrightarrow> map uk_semaphore (up_slots q) = map uk_semaphore (up_slots p) \<and>
     map uk_inflight (up_slots q) = map uk_inflight (up_slots p) \<and>
     up_max_inflight q = up_max_inflight p"

lemma pool_inv_same_counts:
  assumes "pool_inv w" and "same_counts (pw_pool w) q"
  shows "pool_inv (w\<lparr>pw_pool := q\<rparr>)"
proof -
  have len: "length (up_slots q) = length (up_slots (pw_pool w))"
    using assms(2) by (auto simp: same_counts_def dest: map_eq_imp_length_eq)
  have "uk_semaphore (up_slots q ! i) = uk_semaphore (up_slots (pw_pool w) ! i) \<and>
      uk_inflight (up_slots q ! i) = uk_inflight (up_slots (pw_pool w) ! i)"
    if "i < length (up_slots q)" for i
    using assms(2) that len unfolding same_counts_def by (metis nth_map)
  then show ?thesis
    using assms len by (auto simp: pool_inv_def same_counts_def guards_at_def pool_cap_def)
qed

lemma same_counts_update:
  assumes "\<And>s. uk_semaphore (f s) = uk_semaphore s \<and> uk_inflight (f s) = uk_inflight s"
  shows "same_counts p ((update_slot p i f)\<lparr>up_state_dirty := b\<rparr>)" and "same_counts p (update_slot p i f)"
proof -
  have "map uk_semaphore ((up_slots p)[i := f (up_slots p ! i)]) = map uk_semaphore (up_slots p)"
    "map uk_inflight ((up_slots p)[i := f (up_slots p ! i)]) = map uk_inflight (up_slots p)"
    using assms by (auto intro!: nth_equalityI simp: nth_update_if)
  then show "same_counts p ((update_slot p i f)\<lparr>up_state_dirty := b\<rparr>)" "same_counts p (update_slot p i f)"
    by (simp_all add: same_counts_def update_slot_def)
qed

lemma same_counts_refl [simp]: "same_counts p p"
  by (simp add: same_counts_def)

lemma same_counts_trans: "same_counts p q \<Longrightarrow> same_counts q r \<Longrightarrow> same_counts p r"
  by (simp add: same_counts_def)

lemma same_counts_key_success: "same_counts p (up_record_key_success p key_id)"
  by (auto simp: up_record_key_success_def Let_def split: option.split intro!: same_counts_update)

lemma same_counts_reports:
  "same_counts p (up_report_rate_limited_for p key_id secs scope now)"
  "same_counts p (up_report_rate_limited_for_model p key_id model secs scope now)"
  "same_counts p (up_report_unauthorized p key_id)"
  "same_counts p (snd (up_set_enabled p key_id b))"
  "same_counts p (snd (up_set_priority p key_id pr))"
  by (auto simp: up_report_rate_limited_for_def up_report_rate_limited_for_model_def
      up_report_unauthorized_def up_set_enabled_def up_set_priority_def Let_def
      split: option.split intro!: same_counts_update)

lemma same_counts_model_success: "same_counts p (up_record_model_success p key_id model)"
proof -
  let ?p = "up_record_key_success p key_id"
  have "same_counts ?p (up_record_model_success p key_id model)"
    by (auto simp: up_record_model_success_def Let_def split: option.split intro!: same_counts_update)
  then show ?thesis by (rule same_counts_trans [OF same_counts_key_success])
qed

lemma pool_inv_step:
  assumes "pool_inv w" and "pool_step w e v"
  shows "pool_inv v"
  using assms(2,1)
  by cases (auto intro: pool_inv_gain attempt_acquire_scored attempt_specific pool_inv_drop
      pool_inv_same_counts same_counts_reports same_counts_model_success)

interpretation pool_sys: invariant_system pool_init pool_step pool_inv
  by unfold_locales (auto intro: pool_init_inv pool_inv_step)

section \<open>Rate-limit reports\<close>

lemma report_slots:
  assumes "slot_index p key_id = Some i"
  shows "up_slots (up_report_rate_limited_for p key_id secs scope now) =
    (up_slots p)[i := (up_slots p ! i)\<lparr>
       uk_cooldown_until_ms := wrap_add 64 now (sat_mul 64 secs 1000),
       uk_rate_limit_strikes := wrap_add 32 (uk_rate_limit_strikes (up_slots p ! i)) 1,
       uk_scope_cooldowns := (case active_scope scope of
          Some sc \<Rightarrow> hm_insert (uk_scope_cooldowns (up_slots p ! i)) sc
                        (wrap_add 64 now (sat_mul 64 secs 1000))
        | None \<Rightarrow> uk_scope_cooldowns (up_slots p ! i))\<rparr>]"
  using assms by (simp add: up_report_rate_limited_for_def update_slot_def Let_def)

lemma report_slot_index:
  "slot_index (up_report_rate_limited_for p key_id secs scope now) k = slot_index p k"
proof (cases "slot_index p key_id")
  case None
  then show ?thesis by (simp add: up_report_rate_limited_for_def Let_def)
next
  case (Some i)
  have "first_index (\<lambda>s. uk_id s = k) xs = first_index (\<lambda>s. s = k) (map uk_id xs)" for xs
    by (induction xs) auto
  moreover have "map uk_id (up_slots (up_report_rate_limited_for p key_id secs scope now)) =
      map uk_id (up_slots p)"
    by (intro nth_equalityI) (auto simp: report_slots [OF Some] nth_update_if)
  ultimately show ?thesis unfolding slot_index_def by metis
qed

lemma rotate_attempt:
  assumes "slot_index p key_id = Some i"
    and "q = up_report_rate_limited_for p key_id secs scope now"
  shows "attempt q sems (\<lambda>k. uk_account_id (up_slots q ! k) \<noteq> uk_account_id (up_slots q ! i))
    (up_rotate_after_rate_limit_for p sems key_id secs scope ff now inst)"
proof -
  have acq: "attempt q sems (\<lambda>k. uk_account_id (up_slots q ! k) \<noteq> uk_account_id (up_slots q ! i))
      (acquire_scored q sems (Some (uk_account_id (up_slots q ! i))) sc None f False (\<lambda>_. True) now inst)" for sc f
    by (rule attempt_mono [OF attempt_acquire_scored])
      (auto simp: eligible_at_def slot_eligible_def base_policy_def)
  have "up_rotate_after_rate_limit_for p sems key_id secs scope ff now inst =
      acquire_scored q sems (Some (uk_account_id (up_slots q ! i))) scope None
        (ff \<and> scope \<noteq> None) False (\<lambda>_. True) now inst"
    using assms(1) unfolding assms(2)
    by (auto simp: up_rotate_after_rate_limit_for_def up_acquire_excluding_account_def
        report_slot_index Let_def)
  then show ?thesis using acq by simp
qed

section \<open>Properties\<close>

text \<open>
  C1. A key handed out by the scored selection was enabled, out of every cooldown that applies, of
  an account other than the excluded one, accepted by the caller's filter and (for an OAuth key)
  not exhausted in the quota cache; its semaphore had a free permit, which is taken, its in-flight
  count grows by one, and no other slot changes.
\<close>

theorem acquired_key_sound:
  assumes "acquire_scored p sems ex sc mo ff req acc now inst = (Some g, p', sems')"
  defines "s \<equiv> up_slots p ! ukg_index g"
  shows "ukg_index g < length (up_slots p) \<and> uk_enabled s \<and> slot_passes_cooldown s sc mo now \<and>
    ex \<noteq> Some (uk_account_id s) \<and> acc s \<and> (req \<longrightarrow> uk_supported_models s \<noteq> []) \<and>
    (\<forall>cache. up_quota_cache p = Some cache \<longrightarrow> slot_is_oauth s \<longrightarrow>
       \<not> qc_is_exhausted cache (uk_id s) 2 inst) \<and>
    ukg_permit g = uk_semaphore s \<and> 0 < sems ! ukg_permit g \<and>
    sems' = sems[ukg_permit g := sems ! ukg_permit g - 1] \<and>
    up_slots p' = (up_slots p)[ukg_index g := s\<lparr>uk_inflight := wrap_add 64 (uk_inflight s) 1\<rparr>]"
proof -
  have "attempt p sems (eligible_at p (base_policy ex sc mo ff req acc (up_quota_cache p)) now inst)
      (Some g, p', sems')"
    using attempt_acquire_scored [of p sems ex sc mo ff req acc now inst] assms(1) by simp
  note f = attempt_SomeD [OF this]
  have el: "slot_eligible p (base_policy ex sc mo ff req acc (up_quota_cache p)) now inst s"
    using f(1) by (simp add: eligible_at_def s_def)
  show ?thesis
    using f(2-6) el unfolding s_def [symmetric]
    by (auto simp: slot_eligible_def base_policy_def)
qed

definition demo_slot :: "string \<Rightarrow> nat \<Rightarrow> nat \<Rightarrow> nat \<Rightarrow> upstream_key_slot" where
  "demo_slot i prio n sem = \<lparr>uk_id = i, uk_secret = ''sk'', uk_account_id = i, uk_enabled = True,
     uk_inflight = n, uk_cooldown_until_ms = 0, uk_rate_limit_strikes = 0, uk_scope_cooldowns = [],
     uk_model_cooldowns = [], uk_supported_models = [], uk_semaphore = sem, uk_priority = prio\<rparr>"

definition demo_pool :: "upstream_key_slot list \<Rightarrow> upstream_key_pool" where
  "demo_pool slots = \<lparr>up_slots = slots, up_rr = 0, up_cooldown_secs = 60, up_max_inflight = 1,
     up_quota_cache = None, up_state_dirty = False, up_model_rr = []\<rparr>"

lemmas acquire_eval = acquire_scored_def acquire_scored_pass_def pool_priorities_def
  bucket_candidates_def slot_eligible_def next_model_rr_index_def scan_order_def slot_score_def
  quota_penalty_def take_permit_def update_slot_def slot_passes_cooldown_def active_scope_def
  normalize_model_slug_def trim_def to_lowercase_def demo_pool_def demo_slot_def u64_max_def
  wrap_add_def Let_def upt_conv_Cons

lemma demo_acquire:
  "acquire_scored (demo_pool [demo_slot ''a'' 0 0 0, demo_slot ''b'' 1 0 1]) [1, 1] None None None
     False False (\<lambda>_. True) 5 0 =
   (Some \<lparr>ukg_index = 0, ukg_permit = 0\<rparr>,
    (demo_pool [demo_slot ''a'' 0 1 0, demo_slot ''b'' 1 0 1])\<lparr>up_rr := 1\<rparr>, [0, 1])"
  by (simp add: acquire_eval)

theorem acquired_key_sound_witness:
  "slot_passes_cooldown (demo_slot ''a'' 0 0 0) None None 5 \<and>
   up_slots ((demo_pool [demo_slot ''a'' 0 1 0, demo_slot ''b'' 1 0 1])\<lparr>up_rr := 1\<rparr>) =
     [demo_slot ''a'' 0 1 0, demo_slot ''b'' 1 0 1]"
  using acquired_key_sound [OF demo_acquire] by (simp add: demo_pool_def demo_slot_def wrap_add_def)

text \<open>
  C2. Outside fill-first mode the selection settles on the best eligible key: no eligible key has
  a smaller priority number, and none of the same priority a smaller score (in-flight requests plus
  quota penalty). It fails only when no key is eligible or when the best one has no permit left;
  then nothing changes but the rotation counters.
\<close>

theorem acquire_takes_best:
  assumes "ap = base_policy ex sc mo False req acc (up_quota_cache p)" and "up_slots p \<noteq> []"
    and "acquire_scored p sems ex sc mo False req acc now inst = (r, p', sems')"
  shows "case r of
      Some g \<Rightarrow> best_eligible p ap now inst (ukg_index g)
    | None \<Rightarrow> same_core p p' \<and> sems' = sems \<and>
        ((\<forall>k. eligible_at p ap now inst k \<longrightarrow> u64_max \<le> score_at p ap k) \<or>
         (\<exists>i. best_eligible p ap now inst i \<and> sems ! uk_semaphore (up_slots p ! i) = 0))"
proof -
  have "acquire_scored_pass p sems ap now inst = (r, p', sems')"
    using assms by (simp add: acquire_scored_def base_policy_def Let_def)
  then show ?thesis
    using acquire_scored_pass_cases [of p sems ap now inst]
    by (auto simp: take_permit_def same_core_def update_slot_def Let_def split: if_splits option.split)
qed

theorem acquire_takes_best_witness:
  "best_eligible (demo_pool [demo_slot ''a'' 0 0 0, demo_slot ''b'' 1 0 1])
     (base_policy None None None False False (\<lambda>_. True) None) 5 0 0"
  using acquire_takes_best [OF refl _ demo_acquire] by (simp add: demo_pool_def)

text \<open>
  The selection gives up on the first saturated key: with a free key of lower priority in the
  pool, a saturated key of higher priority makes the request fail without the free key being tried,
  and the diagnosis can only call the pool unavailable.
\<close>

theorem saturated_bucket_hides_free_key:
  "let p = demo_pool [demo_slot ''a'' 0 1 0, demo_slot ''b'' 1 0 1]; sems = [0, 1]
   in fst (up_acquire p sems 5 0) = None \<and>
      fst (up_acquire_specific p sems ''b'' 5) = Some \<lparr>ukg_index = 1, ukg_permit = 1\<rparr> \<and>
      up_diagnose_acquire_failure p sems 5 = Unavailable"
  by (simp add: up_acquire_def up_acquire_excluding_account_def up_acquire_specific_def
      up_acquire_specific_scoped_def up_diagnose_acquire_failure_def diagnose_slot_def acquire_eval)



text \<open>
  C4. Rotating after a rate limit cools the limited key down until the end of the cooldown, counts
  a strike, and hands out a key of a different account or none.
\<close>

theorem rotation_leaves_account:
  assumes "slot_index p key_id = Some i" and "now + secs * 1000 < 2 ^ 64"
    and "up_rotate_after_rate_limit_for p sems key_id secs scope ff now inst = (r, p', sems')"
  shows "uk_cooldown_until_ms (up_slots p' ! i) = now + secs * 1000 \<and>
    uk_rate_limit_strikes (up_slots p' ! i) = wrap_add 32 (uk_rate_limit_strikes (up_slots p ! i)) 1 \<and>
    (\<forall>g. r = Some g \<longrightarrow> ukg_index g \<noteq> i \<and>
       uk_account_id (up_slots p ! ukg_index g) \<noteq> uk_account_id (up_slots p ! i))"
proof -
  let ?q = "up_report_rate_limited_for p key_id secs scope now"
  have i: "i < length (up_slots p)" using assms(1) by (auto simp: slot_index_def dest: first_index_SomeD)
  have until: "wrap_add 64 now (sat_mul 64 secs 1000) = now + secs * 1000"
    using assms(2) by (simp add: sat_mul_def wrap_add_def)
  have att: "attempt ?q sems (\<lambda>k. uk_account_id (up_slots ?q ! k) \<noteq> uk_account_id (up_slots ?q ! i))
      (r, p', sems')"
    using rotate_attempt [OF assms(1) refl] assms(3) by metis
  have acc: "uk_account_id (up_slots ?q ! k) = uk_account_id (up_slots p ! k)" for k
    by (simp add: report_slots [OF assms(1)] nth_update_if)
  show ?thesis
  proof (cases r)
    case None
    then have "same_core ?q p'" using att attempt_NoneD by blast
    then show ?thesis using None i
      by (simp add: same_core_def report_slots [OF assms(1)] until)
  next
    case (Some g)
    note f = attempt_SomeD [OF att [unfolded Some]]
    have "ukg_index g \<noteq> i" using f(1) by auto
    then show ?thesis using Some i f(1,6)
      by (simp add: acc report_slots [OF assms(1)] until)
  qed
qed

theorem rotation_leaves_account_witness:
  "\<exists>r p' sems'. up_rotate_after_rate_limit_for (demo_pool [demo_slot ''a'' 0 0 0, demo_slot ''b'' 1 0 1])
      [1, 1] ''a'' 30 None False 5 0 = (r, p', sems') \<and>
    uk_cooldown_until_ms (up_slots p' ! 0) = 30005"
proof -
  obtain r p' sems' where r: "up_rotate_after_rate_limit_for
      (demo_pool [demo_slot ''a'' 0 0 0, demo_slot ''b'' 1 0 1]) [1, 1] ''a'' 30 None False 5 0 =
      (r, p', sems')" by (metis surj_pair)
  show ?thesis using rotation_leaves_account [OF _ _ r, of 0] r
    by (simp add: slot_index_def demo_pool_def demo_slot_def)
qed

text \<open>
  A cooldown of \<open>2^64\<close> milliseconds or more (a Retry-After header may carry any 64-bit number of
  seconds) wraps around: the reported key is free again at once instead of cooling down.
\<close>

theorem huge_cooldown_wraps:
  assumes "slot_index p key_id = Some i" and "0 < now" and "now < 2 ^ 64" and "u64_max \<le> secs * 1000"
  shows "uk_cooldown_until_ms (up_slots (up_report_rate_limited_for p key_id secs scope now) ! i) = now - 1"
proof -
  have i: "i < length (up_slots p)" using assms(1) by (auto simp: slot_index_def dest: first_index_SomeD)
  have "sat_mul 64 secs 1000 = 2 ^ 64 - 1" using assms(4) by (simp add: sat_mul_def u64_max_def min_def)
  then have "wrap_add 64 now (sat_mul 64 secs 1000) = (now - 1 + 2 ^ 64) mod 2 ^ 64"
    using assms(2) by (simp add: wrap_add_def ac_simps)
  also have "\<dots> = now - 1" using assms(3) by simp
  finally show ?thesis using i by (simp add: report_slots [OF assms(1)])
qed

theorem huge_cooldown_wraps_witness:
  "let p = up_report_rate_limited_for (demo_pool [demo_slot ''a'' 0 0 0]) ''a'' u64_max None 1700000000000
   in uk_cooldown_until_ms (up_slots p ! 0) = 1699999999999"
  using huge_cooldown_wraps [of "demo_pool [demo_slot ''a'' 0 0 0]" "''a''" 0 1700000000000 u64_max None]
  by (simp add: slot_index_def demo_pool_def demo_slot_def u64_max_def)

end
