(* ===== verification/UpstreamPoolState.thy ===== *)
theory UpstreamPoolState
  imports UpstreamPoolSelect
begin

text \<open>
  The life of a pool beyond one process state (\<^verbatim>\<open>crab-proxy/src/upstream_pool.rs\<close>): export
  and restoration of the dynamic key states, and the replacement of a pool by a new generation
  (hot replacement, appending and removing keys, a new concurrency cap). Shown: restoring an export
  into a fresh pool gives back every key's availability; a hot replacement keeps ids unique and
  carries the state of matching keys; in-flight requests of the old generation are counted in the
  new one for ever.
\<close>

section \<open>Export and restoration\<close>

definition export_slot ::
  "nat \<Rightarrow> upstream_key_slot \<Rightarrow> (string \<times> upstream_key_state_snapshot) option"
where
  "export_slot now slot =
     (let scopes = hm_retain (\<lambda>_ until. now < until) (uk_scope_cooldowns slot);
          models = map (\<lambda>(k, e). (k, mc_cooldown_until_ms e, mc_backoff_level e))
                     (hm_retain (\<lambda>_ e. now < mc_cooldown_until_ms e) (uk_model_cooldowns slot))
      in if uk_cooldown_until_ms slot \<le> now \<and> uk_rate_limit_strikes slot = 0 \<and> uk_enabled slot \<and>
            uk_priority slot = 0 \<and> scopes = [] \<and> models = []
         then None
         else Some (uk_id slot,
                \<lparr>ks_key_id = uk_id slot, ks_cooldown_until_ms = uk_cooldown_until_ms slot,
                 ks_rate_limit_strikes = uk_rate_limit_strikes slot, ks_scope_cooldowns = scopes,
                 ks_enabled = uk_enabled slot, ks_model_cooldowns = models,
                 ks_priority = uk_priority slot\<rparr>))"

definition up_export_key_states ::
  "upstream_key_pool \<Rightarrow> nat \<Rightarrow> (string, upstream_key_state_snapshot) hmap"
where
  "up_export_key_states p now = hm_collect (List.map_filter (export_slot now) (up_slots p))"

definition restore_map ::
  "('v \<Rightarrow> bool) \<Rightarrow> ('v \<Rightarrow> 'w) \<Rightarrow> (string, 'v) hmap \<Rightarrow> (string, 'w) hmap \<Rightarrow> (string, 'w) hmap"
where
  \<comment> \<open>the loop that inserts the unexpired entries of a snapshot\<close>
  "restore_map live conv saved m =
     foldl (\<lambda>m (k, v). if live v then hm_insert m k (conv v) else m) m saved"

definition restore_slot ::
  "nat \<Rightarrow> upstream_key_state_snapshot \<Rightarrow> upstream_key_slot \<Rightarrow> upstream_key_slot"
where
  "restore_slot now st slot =
     slot\<lparr>
       uk_cooldown_until_ms :=
         (if now < ks_cooldown_until_ms st then ks_cooldown_until_ms st else uk_cooldown_until_ms slot),
       uk_rate_limit_strikes := ks_rate_limit_strikes st,
       uk_enabled := ks_enabled st,
       uk_priority := (if 0 < ks_priority st then ks_priority st else uk_priority slot),
       uk_scope_cooldowns :=
         restore_map (\<lambda>until. now < until) (\<lambda>until. until) (ks_scope_cooldowns st)
           (uk_scope_cooldowns slot),
       uk_model_cooldowns :=
         restore_map (\<lambda>(until, level). now < until)
           (\<lambda>(until, level). \<lparr>mc_cooldown_until_ms = until, mc_backoff_level = level\<rparr>)
           (ks_model_cooldowns st) (uk_model_cooldowns slot)\<rparr>"

definition up_apply_key_states ::
  "upstream_key_pool \<Rightarrow> (string, upstream_key_state_snapshot) hmap \<Rightarrow> nat \<Rightarrow> upstream_key_pool"
where
  "up_apply_key_states p states now =
     p\<lparr>up_slots := map (\<lambda>slot. case hm_get states (uk_id slot) of
                                  Some st \<Rightarrow> restore_slot now st slot
                                | None \<Rightarrow> slot) (up_slots p)\<rparr>"

definition up_take_dirty_states ::
  "upstream_key_pool \<Rightarrow> nat \<Rightarrow> (string, upstream_key_state_snapshot) hmap option \<times> upstream_key_pool"
where
  "up_take_dirty_states p now =
     (if \<not> up_state_dirty p then (None, p\<lparr>up_state_dirty := False\<rparr>)
      else (Some (up_export_key_states p now), p\<lparr>up_state_dirty := False\<rparr>))"

section \<open>Replacing a pool\<close>

definition carry_slot ::
  "upstream_key_pool \<Rightarrow> nat \<Rightarrow> nat \<Rightarrow> upstream_key_spec \<Rightarrow> upstream_key_slot"
where
  \<comment> \<open>the slot of a specification, with the state of the old slot of the same id\<close>
  "carry_slot old i sem spec =
     (let slot = slot_of_spec i sem spec
      in case slot_index old (uk_id slot) of
           None \<Rightarrow> slot
         | Some k \<Rightarrow>
             (let prev = up_slots old ! k
              in slot\<lparr>uk_inflight := uk_inflight prev,
                      uk_cooldown_until_ms := uk_cooldown_until_ms prev,
                      uk_rate_limit_strikes := uk_rate_limit_strikes prev,
                      uk_scope_cooldowns := uk_scope_cooldowns prev,
                      uk_model_cooldowns := uk_model_cooldowns prev,
                      uk_supported_models :=
                        (if sp_supported_models spec = [] then uk_supported_models prev
                         else sp_supported_models spec),
                      uk_priority :=
                        (if sp_priority spec = 0 \<and> uk_priority prev \<noteq> 0 then uk_priority prev
                         else sp_priority spec)\<rparr>))"

fun replace_slots ::
  "upstream_key_pool \<Rightarrow> nat \<Rightarrow> upstream_key_spec list \<Rightarrow> sem_store \<Rightarrow> upstream_key_slot list \<times> sem_store"
where
  "replace_slots old i [] sems = ([], sems)"
| "replace_slots old i (spec # specs) sems =
     (let (sem, sems') =
            (case slot_index old (uk_id (slot_of_spec i 0 spec)) of
               Some k \<Rightarrow> (uk_semaphore (up_slots old ! k), sems)
             | None \<Rightarrow> (length sems, sems @ [semaphore_permits (up_max_inflight old)]));
          (slots, sems'') = replace_slots old (i + 1) specs sems'
      in (carry_slot old i sem spec # slots, sems''))"

definition up_hot_replace ::
  "(string \<Rightarrow> string) \<Rightarrow> upstream_key_pool \<Rightarrow> upstream_key_spec list \<Rightarrow> sem_store
     \<Rightarrow> upstream_key_pool \<times> sem_store"
where
  "up_hot_replace digest old specs sems =
     (let specs = ensure_unique_ids (auto_assign_account_ids digest specs);
          (slots, sems') = replace_slots old 0 specs sems
      in (\<lparr>up_slots = slots, up_rr = up_rr old, up_cooldown_secs = up_cooldown_secs old,
           up_max_inflight = up_max_inflight old, up_quota_cache = up_quota_cache old,
           up_state_dirty = up_state_dirty old, up_model_rr = up_model_rr old\<rparr>, sems'))"

fun merge_specs ::
  "string list \<Rightarrow> string list \<Rightarrow> nat \<Rightarrow> upstream_key_spec list \<Rightarrow> upstream_key_spec list"
where
  \<comment> \<open>the loop over the incoming keys: secrets trimmed and deduplicated, ids made unique\<close>
  "merge_specs seen id_seen next_id [] = []"
| "merge_specs seen id_seen next_id (k # ks) =
     (let secret = trim (sp_secret k) in
      if secret = [] \<or> secret \<in> set seen then merge_specs seen id_seen next_id ks
      else let (id', next_id') =
                 (if sp_id k = [] \<or> sp_id k \<in> set id_seen then fresh_key_id id_seen next_id
                  else (sp_id k, next_id))
           in k\<lparr>sp_secret := secret, sp_id := id'\<rparr> #
              merge_specs (secret # seen) (id' # id_seen) next_id' ks)"

definition up_merge_append ::
  "(string \<Rightarrow> string) \<Rightarrow> upstream_key_pool \<Rightarrow> upstream_key_spec list \<Rightarrow> sem_store
     \<Rightarrow> upstream_key_pool \<times> sem_store"
where
  "up_merge_append digest p incoming sems =
     (let specs = up_to_specs p
      in up_hot_replace digest p
           (specs @ merge_specs (map sp_secret specs) (map sp_id specs) (length specs + 1) incoming)
           sems)"

definition up_rebuild_with_max_inflight ::
  "(string \<Rightarrow> string) \<Rightarrow> upstream_key_pool \<Rightarrow> nat \<Rightarrow> sem_store \<Rightarrow> upstream_key_pool \<times> sem_store"
where
  "up_rebuild_with_max_inflight digest p max_inflight sems =
     (if up_max_inflight p = max_inflight then (p, sems)
      else let specs = ensure_unique_ids (auto_assign_account_ids digest (up_to_specs p))
           in (p\<lparr>up_slots := map (\<lambda>i. carry_slot p i (length sems + i) (specs ! i)) [0..<length specs],
                 up_max_inflight := max_inflight\<rparr>,
               sems @ replicate (length specs) (semaphore_permits max_inflight)))"

definition up_remove_key ::
  "(string \<Rightarrow> string) \<Rightarrow> upstream_key_pool \<Rightarrow> string \<Rightarrow> sem_store
     \<Rightarrow> (upstream_key_pool \<times> sem_store) option"
where
  "up_remove_key digest p key_id sems =
     (let specs = filter (\<lambda>s. sp_id s \<noteq> key_id) (up_to_specs p)
      in if length specs = length (up_slots p) then None
         else Some (up_hot_replace digest p specs sems))"

section \<open>Lemmas on restoration\<close>

lemma hm_get_restore_map:
  assumes "hm_wf saved"
  shows "hm_get (restore_map live conv saved m) k =
    (case hm_get saved k of
       Some v \<Rightarrow> if live v then Some (conv v) else hm_get m k
     | None \<Rightarrow> hm_get m k)"
  unfolding restore_map_def by (rule hm_get_foldl_insert [OF assms])

lemma hm_get_map_values: "hm_get (map (\<lambda>(k, v). (k, f v)) m) k = map_option f (hm_get m k)"
  by (induction m) (auto simp: hm_get_def)

lemma hm_wf_map_values: "hm_wf (map (\<lambda>(k, v). (k, f v)) m) = hm_wf m"
proof -
  have "map fst (map (\<lambda>(k, v). (k, f v)) m) = map fst m" by (induction m) auto
  then show ?thesis unfolding hm_wf_def by (rule arg_cong)
qed

lemma hm_retain_NilD: "hm_wf m \<Longrightarrow> hm_retain P m = [] \<Longrightarrow> hm_get m k = Some v \<Longrightarrow> \<not> P k v"
  using hm_get_retain [of m P k] by (auto split: if_splits)

definition fresh_slot_of :: "upstream_key_slot \<Rightarrow> upstream_key_slot \<Rightarrow> bool" where
  \<comment> \<open>a slot as constructed for the same key, before any request\<close>
  "fresh_slot_of s f \<longleftrightarrow> uk_id f = uk_id s \<and> uk_enabled f \<and> uk_cooldown_until_ms f = 0 \<and>
     uk_rate_limit_strikes f = 0 \<and> uk_scope_cooldowns f = [] \<and> uk_model_cooldowns f = [] \<and>
     uk_priority f = 0"

definition slot_maps_wf :: "upstream_key_slot \<Rightarrow> bool" where
  "slot_maps_wf s \<longleftrightarrow> hm_wf (uk_scope_cooldowns s) \<and> hm_wf (uk_model_cooldowns s)"

definition agree_from :: "nat \<Rightarrow> upstream_key_slot \<Rightarrow> upstream_key_slot \<Rightarrow> bool" where
  \<comment> \<open>two slots the selection cannot tell apart from a time on\<close>
  "agree_from t0 s r \<longleftrightarrow> uk_enabled r = uk_enabled s \<and> uk_rate_limit_strikes r = uk_rate_limit_strikes s \<and>
     uk_priority r = uk_priority s \<and>
     (\<forall>scope model t. t0 \<le> t \<longrightarrow> slot_passes_cooldown r scope model t = slot_passes_cooldown s scope model t)"

lemma agree_fresh:
  assumes "export_slot now s = None" and "fresh_slot_of s f" and "slot_maps_wf s" and "now \<le> t0"
  shows "agree_from t0 s f"
proof -
  have idle: "uk_cooldown_until_ms s \<le> now" "uk_rate_limit_strikes s = 0" "uk_enabled s" "uk_priority s = 0"
      "hm_retain (\<lambda>_ until. now < until) (uk_scope_cooldowns s) = []"
      "hm_retain (\<lambda>_ e. now < mc_cooldown_until_ms e) (uk_model_cooldowns s) = []"
    using assms(1) by (auto simp: export_slot_def Let_def split: if_splits)
  have "slot_passes_cooldown s scope model t" if "t0 \<le> t" for scope model t
  proof -
    have "\<not> t < u" if "hm_get (uk_scope_cooldowns s) k = Some u" for k u
      using hm_retain_NilD [OF _ idle(5) that] assms(3,4) \<open>t0 \<le> t\<close> by (auto simp: slot_maps_wf_def)
    moreover have "\<not> t < mc_cooldown_until_ms e" if "hm_get (uk_model_cooldowns s) k = Some e" for k e
      using hm_retain_NilD [OF _ idle(6) that] assms(3,4) \<open>t0 \<le> t\<close> by (auto simp: slot_maps_wf_def)
    ultimately show ?thesis
      using idle(1) assms(4) that by (auto simp: slot_passes_cooldown_def split: option.split)
  qed
  moreover have "slot_passes_cooldown f scope model t" for scope model t
    using assms(2) by (auto simp: fresh_slot_of_def slot_passes_cooldown_def split: option.split)
  ultimately show ?thesis using idle assms(2) by (simp add: agree_from_def fresh_slot_of_def)
qed

lemma agree_restored:
  assumes "export_slot now s = Some (k, st)" and "fresh_slot_of s f" and "slot_maps_wf s" and "now \<le> t0"
  shows "agree_from t0 s (restore_slot t0 st f)"
proof -
  let ?sc = "hm_retain (\<lambda>_ until. now < until) (uk_scope_cooldowns s)"
  let ?mc = "hm_retain (\<lambda>_ e. now < mc_cooldown_until_ms e) (uk_model_cooldowns s)"
  have st: "ks_cooldown_until_ms st = uk_cooldown_until_ms s" "ks_enabled st = uk_enabled s"
      "ks_rate_limit_strikes st = uk_rate_limit_strikes s" "ks_priority st = uk_priority s"
      "ks_scope_cooldowns st = ?sc"
      "ks_model_cooldowns st = map (\<lambda>(k, e). (k, mc_cooldown_until_ms e, mc_backoff_level e)) ?mc"
    using assms(1) by (auto simp: export_slot_def Let_def split: if_splits)
  have wf: "hm_wf (uk_scope_cooldowns s)" "hm_wf (uk_model_cooldowns s)"
    using assms(3) by (auto simp: slot_maps_wf_def)
  have sc: "hm_get (uk_scope_cooldowns (restore_slot t0 st f)) x =
      (case hm_get (uk_scope_cooldowns s) x of
         Some u \<Rightarrow> if now < u \<and> t0 < u then Some u else None | None \<Rightarrow> None)" for x
    using assms(2) wf by (simp add: restore_slot_def st hm_get_restore_map fresh_slot_of_def hm_get_retain
        split: option.split)
  have mc: "map_option mc_cooldown_until_ms (hm_get (uk_model_cooldowns (restore_slot t0 st f)) x) =
      (case hm_get (uk_model_cooldowns s) x of
         Some e \<Rightarrow> if now < mc_cooldown_until_ms e \<and> t0 < mc_cooldown_until_ms e
                   then Some (mc_cooldown_until_ms e) else None
       | None \<Rightarrow> None)" for x
    using assms(2) wf by (simp add: restore_slot_def st hm_get_restore_map hm_wf_map_values
        hm_get_map_values fresh_slot_of_def hm_get_retain split: option.split)
  have "slot_passes_cooldown (restore_slot t0 st f) scope model t = slot_passes_cooldown s scope model t"
    if t: "t0 \<le> t" for scope model t
  proof -
    have 1: "(case hm_get (uk_scope_cooldowns (restore_slot t0 st f)) x of Some u \<Rightarrow> t < u | None \<Rightarrow> False) =
        (case hm_get (uk_scope_cooldowns s) x of Some u \<Rightarrow> t < u | None \<Rightarrow> False)" for x
      using t assms(4) by (auto simp: sc split: option.split)
    have 2: "(case hm_get (uk_model_cooldowns (restore_slot t0 st f)) x of
          Some e \<Rightarrow> t < mc_cooldown_until_ms e | None \<Rightarrow> False) =
        (case hm_get (uk_model_cooldowns s) x of Some e \<Rightarrow> t < mc_cooldown_until_ms e | None \<Rightarrow> False)" for x
      using t assms(4) mc [of x] by (auto split: option.splits if_splits)
    have 3: "t < uk_cooldown_until_ms (restore_slot t0 st f) \<longleftrightarrow> t < uk_cooldown_until_ms s"
      using t assms(2) by (auto simp: restore_slot_def st fresh_slot_of_def)
    show ?thesis unfolding slot_passes_cooldown_def 1 2 3 ..
  qed
  then show ?thesis using assms(2) by (simp add: agree_from_def restore_slot_def st fresh_slot_of_def)
qed

lemma export_slot_key: "export_slot now s = Some (k, st) \<Longrightarrow> k = uk_id s"
  by (auto simp: export_slot_def Let_def split: if_splits)

lemma hm_get_export:
  assumes "distinct (map uk_id (up_slots p))" and "s \<in> set (up_slots p)"
  shows "hm_get (up_export_key_states p now) (uk_id s) = map_option snd (export_slot now s)"
proof -
  have gen: "distinct (map uk_id ss) \<Longrightarrow> distinct (map fst (List.map_filter (export_slot now) ss)) \<and>
      (\<forall>s \<in> set ss. map_of (List.map_filter (export_slot now) ss) (uk_id s) = map_option snd (export_slot now s)) \<and>
      fst ` set (List.map_filter (export_slot now) ss) \<subseteq> uk_id ` set ss" for ss
  proof (induction ss)
    case (Cons a ss)
    then show ?case
    proof (cases "export_slot now a")
      case None
      have "map_of (List.map_filter (export_slot now) ss) (uk_id a) = None"
        using Cons by (auto simp: map_of_eq_None_iff)
      then show ?thesis using Cons None by (auto simp: map_filter_simps)
    next
      case (Some kst)
      obtain st where st: "kst = (uk_id a, st)" using export_slot_key Some by (cases kst) auto
      let ?m = "List.map_filter (export_slot now) ss"
      have m: "List.map_filter (export_slot now) (a # ss) = (uk_id a, st) # ?m"
        by (simp add: map_filter_simps Some st)
      have IH: "distinct (map fst ?m)" "fst ` set ?m \<subseteq> uk_id ` set ss"
          "\<forall>s \<in> set ss. map_of ?m (uk_id s) = map_option snd (export_slot now s)"
        using Cons by auto
      have a: "uk_id a \<notin> uk_id ` set ss" using Cons.prems by auto
      then have "uk_id s \<noteq> uk_id a" if "s \<in> set ss" for s
        using that by (metis imageI)
      then show ?thesis unfolding m using IH a Some st by auto
    qed
  qed (simp add: map_filter_simps)
  show ?thesis
    using gen [OF assms(1)] assms(2) by (simp add: up_export_key_states_def hm_get_collect_distinct)
qed

section \<open>Lemmas on replacement\<close>

lemma carry_slot_id: "uk_id (carry_slot old i sem spec) = uk_id (slot_of_spec i 0 spec)"
  by (simp add: carry_slot_def slot_of_spec_def Let_def split: option.split)

lemma replace_slots_ids:
  "[] \<notin> set (map sp_id specs) \<Longrightarrow> map uk_id (fst (replace_slots old i specs sems)) = map sp_id specs"
  by (induction specs arbitrary: i sems)
    (auto simp: Let_def split_beta carry_slot_id slot_of_spec_def)

lemma hot_replace_ids:
  "map uk_id (up_slots (fst (up_hot_replace digest old specs sems))) =
     map sp_id (ensure_unique_ids (auto_assign_account_ids digest specs))"
proof -
  let ?sp = "ensure_unique_ids (auto_assign_account_ids digest specs)"
  have "[] \<notin> set (map sp_id ?sp)"
    using ensure_unique_ids_from_props [of "[]" _ "auto_assign_account_ids digest specs"]
    unfolding ensure_unique_ids_def by metis
  then show ?thesis
    using replace_slots_ids [of ?sp old 0 sems] by (simp add: up_hot_replace_def Let_def split_beta)
qed

lemma replace_known_slots:
  assumes "\<forall>spec \<in> set specs. sp_id spec \<noteq> [] \<and> slot_index old (sp_id spec) \<noteq> None"
  shows "replace_slots old i specs sems =
    (map (\<lambda>spec. carry_slot old i (uk_semaphore (up_slots old ! the (slot_index old (sp_id spec)))) spec) specs,
     sems)"
proof -
  have irrelevant: "carry_slot old i sem spec = carry_slot old j sem spec" if "sp_id spec \<noteq> []" for i j sem spec
    using that by (simp add: carry_slot_def slot_of_spec_def)
  show ?thesis using assms
  proof (induction specs arbitrary: i)
    case (Cons spec specs)
    have "map (\<lambda>spec. carry_slot old (i + 1) (uk_semaphore (up_slots old ! the (slot_index old (sp_id spec)))) spec) specs =
        map (\<lambda>spec. carry_slot old i (uk_semaphore (up_slots old ! the (slot_index old (sp_id spec)))) spec) specs"
      using Cons.prems irrelevant by auto
    then show ?case using Cons.prems Cons.IH [of "i + 1"]
      by (auto simp: slot_of_spec_def split: option.split)
  qed simp
qed

definition pool_ids_ok :: "upstream_key_pool \<Rightarrow> bool" where
  "pool_ids_ok p \<longleftrightarrow> distinct (map uk_id (up_slots p)) \<and> [] \<notin> set (map uk_id (up_slots p))"

lemma slot_index_nth: "pool_ids_ok p \<Longrightarrow> i < length (up_slots p) \<Longrightarrow> slot_index p (uk_id (up_slots p ! i)) = Some i"
  by (simp add: slot_index_def pool_ids_ok_def first_index_distinct)

lemma slot_id_not_empty: "pool_ids_ok p \<Longrightarrow> i < length (up_slots p) \<Longrightarrow> uk_id (up_slots p ! i) \<noteq> []"
  unfolding pool_ids_ok_def by (metis imageI list.set_map nth_mem)

lemma self_replace:
  assumes "pool_ids_ok p"
  shows "snd (up_hot_replace digest p (up_to_specs p) sems) = sems"
    and "length (up_slots (fst (up_hot_replace digest p (up_to_specs p) sems))) = length (up_slots p)"
    and "i < length (up_slots p) \<Longrightarrow>
      uk_id (up_slots (fst (up_hot_replace digest p (up_to_specs p) sems)) ! i) = uk_id (up_slots p ! i) \<and>
      uk_inflight (up_slots (fst (up_hot_replace digest p (up_to_specs p) sems)) ! i) = uk_inflight (up_slots p ! i) \<and>
      uk_semaphore (up_slots (fst (up_hot_replace digest p (up_to_specs p) sems)) ! i) = uk_semaphore (up_slots p ! i)"
proof -
  let ?a = "auto_assign_account_ids digest (up_to_specs p)"
  have ids: "map sp_id ?a = map uk_id (up_slots p)"
    by (simp add: auto_assign_account_ids_def up_to_specs_def spec_of_slot_def)
  have a_nth: "sp_id (?a ! j) = uk_id (up_slots p ! j)" if "j < length (up_slots p)" for j
    using that arg_cong [OF ids, of "\<lambda>xs. xs ! j"] by (simp add: up_to_specs_def)
  have uniq: "ensure_unique_ids ?a = ?a"
    using assms ids ensure_unique_ids_keeps [of ?a "[]"]
    by (simp only: ensure_unique_ids_def pool_ids_ok_def) simp
  have known: "\<forall>spec \<in> set ?a. sp_id spec \<noteq> [] \<and> slot_index p (sp_id spec) \<noteq> None"
  proof
    fix spec assume "spec \<in> set ?a"
    then obtain j where j: "j < length (up_slots p)" "spec = ?a ! j"
      by (metis in_set_conv_nth length_auto_assign length_map up_to_specs_def)
    moreover have "uk_id (up_slots p ! j) \<noteq> []" by (rule slot_id_not_empty [OF assms j(1)])
    ultimately show "sp_id spec \<noteq> [] \<and> slot_index p (sp_id spec) \<noteq> None"
      using assms slot_index_nth [OF assms j(1)] a_nth [OF j(1)] by simp
  qed
  have new: "up_hot_replace digest p (up_to_specs p) sems =
      (p\<lparr>up_slots := map (\<lambda>spec. carry_slot p 0
           (uk_semaphore (up_slots p ! the (slot_index p (sp_id spec)))) spec) ?a\<rparr>, sems)"
    unfolding up_hot_replace_def uniq Let_def replace_known_slots [OF known] by simp
  show "snd (up_hot_replace digest p (up_to_specs p) sems) = sems" by (simp add: new)
  show "length (up_slots (fst (up_hot_replace digest p (up_to_specs p) sems))) = length (up_slots p)"
    unfolding new by (simp add: up_to_specs_def)
  assume i: "i < length (up_slots p)"
  have "uk_id (up_slots p ! i) \<noteq> []" by (rule slot_id_not_empty [OF assms i])
  then show "uk_id (up_slots (fst (up_hot_replace digest p (up_to_specs p) sems)) ! i) = uk_id (up_slots p ! i) \<and>
      uk_inflight (up_slots (fst (up_hot_replace digest p (up_to_specs p) sems)) ! i) = uk_inflight (up_slots p ! i) \<and>
      uk_semaphore (up_slots (fst (up_hot_replace digest p (up_to_specs p) sems)) ! i) = uk_semaphore (up_slots p ! i)"
    using i a_nth [OF i] slot_index_nth [OF assms i] unfolding new
    by (simp add: carry_slot_def slot_of_spec_def up_to_specs_def Let_def)
qed

definition pw_drop_all :: "pool_world \<Rightarrow> pool_world" where
  "pw_drop_all w = ((\<lambda>w. pw_drop w 0) ^^ length (pw_guards w)) w"

lemma pw_drop_all_inv:
  assumes "pool_inv w"
  shows "pool_inv (pw_drop_all w)" and "pw_guards (pw_drop_all w) = []"
proof -
  have "n \<le> length (pw_guards w) \<Longrightarrow> pool_inv (((\<lambda>w. pw_drop w 0) ^^ n) w) \<and>
      pw_guards (((\<lambda>w. pw_drop w 0) ^^ n) w) = drop n (pw_guards w)" for n
  proof (induction n)
    case (Suc n)
    let ?v = "((\<lambda>w. pw_drop w 0) ^^ n) w"
    have v: "pool_inv ?v" "pw_guards ?v = drop n (pw_guards w)" using Suc by auto
    then have "pool_inv (pw_drop ?v 0)" using Suc.prems by (intro pool_inv_drop) auto
    moreover have "pw_guards (pw_drop ?v 0) = drop (Suc n) (pw_guards w)"
      using v(2) by (simp add: pw_drop_def drop_guard_def add.commute)
    ultimately show ?case by simp
  qed (use assms in simp)
  then show "pool_inv (pw_drop_all w)" "pw_guards (pw_drop_all w) = []"
    by (simp_all add: pw_drop_all_def)
qed

lemma pw_drop_static_step:
  "map uk_semaphore (up_slots (pw_pool (pw_drop v k))) = map uk_semaphore (up_slots (pw_pool v)) \<and>
   up_max_inflight (pw_pool (pw_drop v k)) = up_max_inflight (pw_pool v)"
proof -
  have "map uk_semaphore (up_slots (up_release p k)) = map uk_semaphore (up_slots p)" for p k
    by (auto simp: up_release_def update_slot_def map_update intro!: list_update_same_conv [THEN iffD2])
  moreover have "up_max_inflight (up_release p k) = up_max_inflight p" for p k
    by (simp add: up_release_def update_slot_def)
  ultimately show ?thesis by (simp add: pw_drop_def drop_guard_def)
qed

lemma pw_drop_static:
  "map uk_semaphore (up_slots (pw_pool (((\<lambda>w. pw_drop w 0) ^^ n) w))) = map uk_semaphore (up_slots (pw_pool w)) \<and>
   up_max_inflight (pw_pool (((\<lambda>w. pw_drop w 0) ^^ n) w)) = up_max_inflight (pw_pool w)"
  by (induction n) (simp_all add: pw_drop_static_step)

section \<open>Properties\<close>

text \<open>
  Persistence round trip: the states exported from a pool, restored later into a fresh pool of
  the same keys, give back every key's enabled flag, strikes and priority, and from then on every
  key passes or fails the cooldown checks exactly as in the original pool, for every scope and
  model.
\<close>

theorem export_apply_roundtrip:
  assumes "distinct (map uk_id (up_slots p))" and "list_all2 fresh_slot_of (up_slots p) (up_slots q)"
    and "\<forall>s \<in> set (up_slots p). slot_maps_wf s" and "now \<le> t0"
  shows "list_all2 (agree_from t0) (up_slots p)
    (up_slots (up_apply_key_states q (up_export_key_states p now) t0))"
proof (rule list_all2_all_nthI)
  show "length (up_slots p) = length (up_slots (up_apply_key_states q (up_export_key_states p now) t0))"
    using assms(2) by (simp add: up_apply_key_states_def list_all2_lengthD)
next
  fix i assume i: "i < length (up_slots p)"
  let ?s = "up_slots p ! i" and ?f = "up_slots q ! i"
  have f: "fresh_slot_of ?s ?f" and len: "i < length (up_slots q)"
    using assms(2) i by (auto simp: list_all2_conv_all_nth)
  have id: "uk_id ?f = uk_id ?s" using f by (simp add: fresh_slot_of_def)
  have get: "hm_get (up_export_key_states p now) (uk_id ?f) = map_option snd (export_slot now ?s)"
    unfolding id using assms(1) i by (intro hm_get_export) auto
  have wf: "slot_maps_wf ?s" using assms(3) i by simp
  show "agree_from t0 ?s (up_slots (up_apply_key_states q (up_export_key_states p now) t0) ! i)"
  proof (cases "export_slot now ?s")
    case None
    then show ?thesis using agree_fresh [OF None f wf assms(4)] len get
      by (simp add: up_apply_key_states_def)
  next
    case (Some kst)
    then obtain k st where kst: "export_slot now ?s = Some (k, st)" by (cases kst) auto
    then show ?thesis using agree_restored [OF kst f wf assms(4)] len get
      by (simp add: up_apply_key_states_def)
  qed
qed

theorem export_apply_roundtrip_witness:
  "list_all2 (agree_from 7) [(demo_slot ''a'' 0 0 0)\<lparr>uk_cooldown_until_ms := 9\<rparr>]
     (up_slots (up_apply_key_states (demo_pool [demo_slot ''a'' 0 0 0])
        (up_export_key_states (demo_pool [(demo_slot ''a'' 0 0 0)\<lparr>uk_cooldown_until_ms := 9\<rparr>]) 5) 7))"
  using export_apply_roundtrip [of "demo_pool [(demo_slot ''a'' 0 0 0)\<lparr>uk_cooldown_until_ms := 9\<rparr>]"
      "demo_pool [demo_slot ''a'' 0 0 0]" 5 7]
  by (simp add: demo_pool_def demo_slot_def fresh_slot_of_def slot_maps_wf_def)

text \<open>
  Replacing a pool by a new generation of the same keys while requests are in flight leaves
  their count behind: the old guards release on the old generation, so after every request has
  ended all permits are free again but the new generation still counts each of them in flight, and
  keeps ranking those keys by the stale number.
\<close>

theorem hot_replace_leaks_inflight:
  assumes "pool_inv w" and "pool_ids_ok (pw_pool w)" and "i < length (up_slots (pw_pool w))"
    and "up_hot_replace digest (pw_pool w) (up_to_specs (pw_pool w)) (pw_sems w) = (q, sems')"
  shows "sems' = pw_sems w \<and>
    uk_inflight (up_slots q ! i) = guards_at w i \<and>
    pw_guards (pw_drop_all w) = [] \<and>
    pw_sems (pw_drop_all w) ! uk_semaphore (up_slots q ! i) =
      semaphore_permits (up_max_inflight (pw_pool w))"
proof -
  note self = self_replace [OF assms(2), where digest = digest and sems = "pw_sems w"]
  let ?v = "pw_drop_all w"
  have stat: "map uk_semaphore (up_slots (pw_pool ?v)) = map uk_semaphore (up_slots (pw_pool w))"
      "up_max_inflight (pw_pool ?v) = up_max_inflight (pw_pool w)"
    using pw_drop_static by (auto simp: pw_drop_all_def)
  have iv: "i < length (up_slots (pw_pool ?v))"
    using assms(3) stat(1) by (metis length_map)
  have sem: "uk_semaphore (up_slots (pw_pool ?v) ! i) = uk_semaphore (up_slots (pw_pool w) ! i)"
    using assms(3) iv stat(1) by (metis nth_map)
  have "pw_sems ?v ! uk_semaphore (up_slots (pw_pool ?v) ! i) + guards_at ?v i = pool_cap ?v"
    using pw_drop_all_inv(1) [OF assms(1)] iv by (simp add: pool_inv_def)
  then have "pw_sems ?v ! uk_semaphore (up_slots (pw_pool w) ! i) = semaphore_permits (up_max_inflight (pw_pool w))"
    using pw_drop_all_inv(2) [OF assms(1)] by (simp add: sem guards_at_def pool_cap_def stat)
  moreover have "uk_inflight (up_slots (pw_pool w) ! i) = guards_at w i"
    using assms(1,3) by (simp add: pool_inv_def)
  ultimately show ?thesis
    using self(1) self(3) [OF assms(3)] pw_drop_all_inv(2) [OF assms(1)] by (simp add: assms(4))
qed

lemma demo_world_inv:
  "pool_inv \<lparr>pw_pool = demo_pool [demo_slot ''a'' 0 1 0], pw_sems = [0],
     pw_guards = [\<lparr>ukg_index = 0, ukg_permit = 0\<rparr>]\<rparr>"
  by (simp add: pool_inv_def pool_cap_def guards_at_def demo_pool_def demo_slot_def semaphore_permits_def)

theorem hot_replace_leaks_inflight_witness:
  "let w = \<lparr>pw_pool = demo_pool [demo_slot ''a'' 0 1 0], pw_sems = [0],
            pw_guards = [\<lparr>ukg_index = 0, ukg_permit = 0\<rparr>]\<rparr>;
       q = fst (up_hot_replace id (pw_pool w) (up_to_specs (pw_pool w)) (pw_sems w))
   in uk_inflight (up_slots q ! 0) = 1 \<and> pw_guards (pw_drop_all w) = []"
proof -
  let ?w = "\<lparr>pw_pool = demo_pool [demo_slot ''a'' 0 1 0], pw_sems = [0],
            pw_guards = [\<lparr>ukg_index = 0, ukg_permit = 0\<rparr>]\<rparr>"
  obtain q sems where q: "up_hot_replace id (pw_pool ?w) (up_to_specs (pw_pool ?w)) (pw_sems ?w) = (q, sems)"
    by (metis surj_pair)
  have "pool_ids_ok (pw_pool ?w)" "0 < length (up_slots (pw_pool ?w))"
    by (simp_all add: pool_ids_ok_def demo_pool_def demo_slot_def)
  then show ?thesis
    using hot_replace_leaks_inflight [OF demo_world_inv _ _ q, of 0] q by (simp add: guards_at_def)
qed

end
