(* ===== verification/KeyBinding.thy ===== *)
theory KeyBinding
  imports Prelude
begin

text \<open>
  Conversation-level key binding (\<^verbatim>\<open>crab-proxy/src/key_binding.rs\<close>): sessions bound to
  upstream keys with an idle lifetime, and the reverse index of sessions per key. The cache is a
  moka cache whose capacity evictions happen at its own pace: an eviction is a step of its own. The
  eviction listener captured a clone of the index map, which is a second map with its own content.
  Shown: without evictions the index counts the bindings exactly; an eviction makes it drift and
  reconciliation repairs it; the least loaded key is found.
\<close>

section \<open>Binding keys\<close>

definition resolve_mimo_binding_key ::
  "string option \<Rightarrow> string option \<Rightarrow> string option \<Rightarrow> string option"
where
  \<comment> \<open>of the request context: conversation id, prompt cache key, session fingerprint\<close>
  "resolve_mimo_binding_key conversation_id prompt_cache_key session_fingerprint =
     (case non_blank conversation_id of
        Some s \<Rightarrow> Some (''conv:'' @ s)
      | None \<Rightarrow>
          (case non_blank prompt_cache_key of
             Some s \<Rightarrow> Some (''pck:'' @ s)
           | None \<Rightarrow> map_option (\<lambda>s. ''sfp:'' @ s) (non_blank session_fingerprint)))"

definition mimo_binding_key_kind :: "string \<Rightarrow> string" where
  "mimo_binding_key_kind bind_key =
     (if starts_with bind_key ''conv:'' then ''conv''
      else if starts_with bind_key ''pck:'' then ''pck''
      else if starts_with bind_key ''sfp:'' then ''sfp''
      else ''unknown'')"

definition codex_session_key :: "string \<Rightarrow> string" where
  "codex_session_key session_id = ''codex:'' @ session_id"

section \<open>The store\<close>

record key_binding =
  kb_key_id :: string
  kb_bound_at_ms :: nat
  kb_last_used_ms :: nat
  kb_transient_failures :: nat

record key_binding_store =
  \<comment> \<open>\<open>kbs_listener_sessions\<close> is the map the eviction listener captured\<close>
  kbs_cache :: "(string, key_binding) hmap"
  kbs_ttl_ms :: nat
  kbs_key_sessions :: "(string, nat) hmap"
  kbs_listener_sessions :: "(string, nat) hmap"

definition kbs_new :: "nat \<Rightarrow> key_binding_store" where
  "kbs_new ttl_secs =
     \<lparr>kbs_cache = [], kbs_ttl_ms = sat_mul 64 ttl_secs 1000, kbs_key_sessions = [],
      kbs_listener_sessions = []\<rparr>"

definition decrement_count :: "(string, nat) hmap \<Rightarrow> string \<Rightarrow> (string, nat) hmap" where
  "decrement_count sessions key_id =
     (case hm_get sessions key_id of
        Some c \<Rightarrow> if c - 1 = 0 then hm_remove sessions key_id else hm_insert sessions key_id (c - 1)
      | None \<Rightarrow> sessions)"

definition kbs_decrement_key_count :: "key_binding_store \<Rightarrow> string \<Rightarrow> key_binding_store" where
  "kbs_decrement_key_count st key_id =
     st\<lparr>kbs_key_sessions := decrement_count (kbs_key_sessions st) key_id\<rparr>"

definition kbs_increment_key_count :: "key_binding_store \<Rightarrow> string \<Rightarrow> key_binding_store" where
  "kbs_increment_key_count st key_id =
     st\<lparr>kbs_key_sessions := hm_insert (kbs_key_sessions st) key_id
        (case hm_get (kbs_key_sessions st) key_id of Some c \<Rightarrow> sat_add 32 c 1 | None \<Rightarrow> 1)\<rparr>"

definition kbs_evict_size :: "key_binding_store \<Rightarrow> string \<Rightarrow> key_binding_store" where
  \<comment> \<open>a capacity eviction of the entry of one session, with the listener\<close>
  "kbs_evict_size st session_id =
     (case hm_get (kbs_cache st) session_id of
        None \<Rightarrow> st
      | Some b \<Rightarrow>
          st\<lparr>kbs_cache := hm_remove (kbs_cache st) session_id,
             kbs_listener_sessions := decrement_count (kbs_listener_sessions st) (kb_key_id b)\<rparr>)"

definition kbs_get ::
  "key_binding_store \<Rightarrow> string \<Rightarrow> nat \<Rightarrow> key_binding option \<times> key_binding_store"
where
  "kbs_get st session_id now =
     (case hm_get (kbs_cache st) session_id of
        None \<Rightarrow> (None, st)
      | Some b \<Rightarrow>
          if 0 < kbs_ttl_ms st \<and> kbs_ttl_ms st < now - kb_last_used_ms b
          then (None, kbs_decrement_key_count
                  (st\<lparr>kbs_cache := hm_remove (kbs_cache st) session_id\<rparr>) (kb_key_id b))
          else (Some b, st))"

definition kbs_put :: "key_binding_store \<Rightarrow> string \<Rightarrow> string \<Rightarrow> nat \<Rightarrow> key_binding_store" where
  "kbs_put st session_id key_id now =
     (let (is_new_binding, st1) =
            (case hm_get (kbs_cache st) session_id of
               Some b \<Rightarrow>
                 if kb_key_id b \<noteq> key_id then (True, kbs_decrement_key_count st (kb_key_id b))
                 else (False, st)
             | None \<Rightarrow> (True, st));
          st2 = st1\<lparr>kbs_cache := hm_insert (kbs_cache st1) session_id
                  \<lparr>kb_key_id = key_id, kb_bound_at_ms = now, kb_last_used_ms = now,
                   kb_transient_failures = 0\<rparr>\<rparr>
      in if is_new_binding then kbs_increment_key_count st2 key_id else st2)"

definition kbs_touch :: "key_binding_store \<Rightarrow> string \<Rightarrow> nat \<Rightarrow> key_binding_store" where
  "kbs_touch st session_id now =
     (case hm_get (kbs_cache st) session_id of
        Some b \<Rightarrow> st\<lparr>kbs_cache := hm_insert (kbs_cache st) session_id (b\<lparr>kb_last_used_ms := now\<rparr>)\<rparr>
      | None \<Rightarrow> st)"

definition kbs_record_failure ::
  "key_binding_store \<Rightarrow> string \<Rightarrow> string \<Rightarrow> nat \<Rightarrow> nat option \<times> key_binding_store"
where
  "kbs_record_failure st session_id key_id now =
     (case hm_get (kbs_cache st) session_id of
        None \<Rightarrow> (None, st)
      | Some b \<Rightarrow>
          if kb_key_id b \<noteq> key_id then (None, st)
          else let count = sat_add 32 (kb_transient_failures b) 1
               in (Some count, st\<lparr>kbs_cache := hm_insert (kbs_cache st) session_id
                     (b\<lparr>kb_last_used_ms := now, kb_transient_failures := count\<rparr>)\<rparr>))"

definition kbs_reset_failures ::
  "key_binding_store \<Rightarrow> string \<Rightarrow> string \<Rightarrow> nat \<Rightarrow> key_binding_store"
where
  "kbs_reset_failures st session_id key_id now =
     (case hm_get (kbs_cache st) session_id of
        Some b \<Rightarrow>
          if kb_key_id b = key_id
          then st\<lparr>kbs_cache := hm_insert (kbs_cache st) session_id
                 (b\<lparr>kb_last_used_ms := now, kb_transient_failures := 0\<rparr>)\<rparr>
          else st
      | None \<Rightarrow> st)"

definition kbs_remove :: "key_binding_store \<Rightarrow> string \<Rightarrow> key_binding_store" where
  "kbs_remove st session_id =
     (case hm_get (kbs_cache st) session_id of
        Some b \<Rightarrow> kbs_decrement_key_count
                    (st\<lparr>kbs_cache := hm_remove (kbs_cache st) session_id\<rparr>) (kb_key_id b)
      | None \<Rightarrow> st)"

definition kbs_len :: "key_binding_store \<Rightarrow> nat" where
  "kbs_len st = length (kbs_cache st)"

definition count_bindings :: "(string, key_binding) hmap \<Rightarrow> (string, nat) hmap" where
  \<comment> \<open>the first loop of the reconciliation\<close>
  "count_bindings cache =
     foldl (\<lambda>m (s, b). hm_upsert m (kb_key_id b) 0 (\<lambda>c. wrap_add 32 c 1)) [] cache"

definition kbs_reconcile_key_sessions :: "key_binding_store \<Rightarrow> key_binding_store" where
  "kbs_reconcile_key_sessions st =
     st\<lparr>kbs_key_sessions :=
          foldl (\<lambda>m (k, c). if 0 < c then hm_insert m k c else m) [] (count_bindings (kbs_cache st))\<rparr>"

definition kbs_effective_ttl_secs :: "key_binding_store \<Rightarrow> nat" where
  "kbs_effective_ttl_secs st = kbs_ttl_ms st div 1000"

definition kbs_diagnostic_snapshot :: "key_binding_store \<Rightarrow> nat \<times> nat \<times> bool" where
  "kbs_diagnostic_snapshot st =
     (let cache_entries = length (kbs_cache st);
          index_sum = foldl (wrap_add 32) 0 (map snd (kbs_key_sessions st))
      in (cache_entries, index_sum, index_sum = cache_entries))"

definition kbs_count_sessions_for_key :: "key_binding_store \<Rightarrow> string \<Rightarrow> nat" where
  "kbs_count_sessions_for_key st key_id =
     (case hm_get (kbs_key_sessions st) key_id of Some c \<Rightarrow> c | None \<Rightarrow> 0)"

fun first_min :: "('a \<Rightarrow> nat) \<Rightarrow> 'a list \<Rightarrow> 'a option" where
  \<comment> \<open>\<open>min_by_key\<close>: the first of the smallest\<close>
  "first_min f [] = None"
| "first_min f (x # xs) =
     (case first_min f xs of None \<Rightarrow> Some x | Some y \<Rightarrow> if f y < f x then Some y else Some x)"

definition kbs_least_loaded_key ::
  "key_binding_store \<Rightarrow> string list \<Rightarrow> nat \<Rightarrow> string option"
where
  "kbs_least_loaded_key st available_keys max_sessions =
     (if max_sessions = 0 then (case available_keys of [] \<Rightarrow> None | k # _ \<Rightarrow> Some k)
      else map_option fst (first_min snd
             (map (\<lambda>kid. (kid, kbs_count_sessions_for_key st kid))
               (filter (\<lambda>kid. kbs_count_sessions_for_key st kid < max_sessions) available_keys))))"

section \<open>The store as a state machine\<close>

inductive kbs_step :: "key_binding_store \<Rightarrow> unit \<Rightarrow> key_binding_store \<Rightarrow> bool" where
  kbs_step_get: "kbs_step st () (snd (kbs_get st s now))"
| kbs_step_put: "length (kbs_cache st) < 50000 \<or> hm_contains (kbs_cache st) s \<Longrightarrow>
     kbs_step st () (kbs_put st s k now)"
| kbs_step_touch: "kbs_step st () (kbs_touch st s now)"
| kbs_step_failure: "kbs_step st () (snd (kbs_record_failure st s k now))"
| kbs_step_reset: "kbs_step st () (kbs_reset_failures st s k now)"
| kbs_step_remove: "kbs_step st () (kbs_remove st s)"
| kbs_step_reconcile: "kbs_step st () (kbs_reconcile_key_sessions st)"

abbreviation bound_to :: "key_binding_store \<Rightarrow> string \<Rightarrow> nat" where
  "bound_to st k \<equiv> hm_count (\<lambda>b. kb_key_id b = k) (kbs_cache st)"

definition kbs_wf :: "key_binding_store \<Rightarrow> bool" where
  "kbs_wf st \<longleftrightarrow> hm_wf (kbs_cache st) \<and> length (kbs_cache st) \<le> 50000"

definition kbs_index_ok :: "key_binding_store \<Rightarrow> bool" where
  "kbs_index_ok st \<longleftrightarrow>
     (\<forall>k. hm_get (kbs_key_sessions st) k = (if bound_to st k = 0 then None else Some (bound_to st k)))"

definition kbs_inv :: "key_binding_store \<Rightarrow> bool" where
  "kbs_inv st \<longleftrightarrow> kbs_wf st \<and> kbs_index_ok st"

lemma bound_to_le: "kbs_wf st \<Longrightarrow> bound_to st k \<le> 50000"
  using hm_count_le [of "\<lambda>b. kb_key_id b = k" "kbs_cache st"] by (simp add: kbs_wf_def)

lemma bound_to_pos:
  "hm_get (kbs_cache st) s = Some b \<Longrightarrow> 0 < bound_to st (kb_key_id b)"
proof -
  assume "hm_get (kbs_cache st) s = Some b"
  then have "(s, b) \<in> set (kbs_cache st)" by (simp add: hm_get_def map_of_SomeD)
  then have "(s, b) \<in> set (filter (\<lambda>(s, c). kb_key_id c = kb_key_id b) (kbs_cache st))" by simp
  then show ?thesis unfolding hm_count_def by (metis length_pos_if_in_set)
qed

lemma hm_get_decrement:
  "hm_get (decrement_count m k) l =
     (if l = k then (case hm_get m k of Some c \<Rightarrow> if c - 1 = 0 then None else Some (c - 1) | None \<Rightarrow> None)
      else hm_get m l)"
  by (auto simp: decrement_count_def split: option.split)

lemma kbs_inv_same_keys:
  \<comment> \<open>rewriting a binding without changing its key\<close>
  assumes "kbs_inv st" and "hm_get (kbs_cache st) s = Some b" and "kb_key_id c = kb_key_id b"
  shows "kbs_inv (st\<lparr>kbs_cache := hm_insert (kbs_cache st) s c\<rparr>)"
proof -
  have "hm_count (\<lambda>b. kb_key_id b = k) (hm_insert (kbs_cache st) s c) = bound_to st k" for k
    using hm_count_insert [of "\<lambda>b. kb_key_id b = k" "kbs_cache st" s c] assms(2,3) by simp
  then show ?thesis
    using assms by (simp add: kbs_inv_def kbs_wf_def kbs_index_ok_def length_hm_insert)
qed

lemma kbs_inv_unbind:
  assumes "kbs_inv st" and "hm_get (kbs_cache st) s = Some b"
  shows "kbs_inv (kbs_decrement_key_count (st\<lparr>kbs_cache := hm_remove (kbs_cache st) s\<rparr>) (kb_key_id b))"
proof -
  have wf: "hm_wf (kbs_cache st)" using assms(1) by (simp add: kbs_inv_def kbs_wf_def)
  have cnt: "hm_count (\<lambda>b. kb_key_id b = k) (hm_remove (kbs_cache st) s) =
      bound_to st k - (if k = kb_key_id b then 1 else 0)" for k
    using hm_count_remove [OF wf, of "\<lambda>b. kb_key_id b = k" s] assms(2) by (auto split: if_splits)
  then show ?thesis
    using assms(1) wf length_hm_remove_le [of "kbs_cache st" s]
    by (auto simp: kbs_inv_def kbs_wf_def kbs_index_ok_def kbs_decrement_key_count_def
        hm_get_decrement split: if_splits)
qed

lemma kbs_inv_bind:
  assumes "kbs_inv st" and "hm_get (kbs_cache st) s = None" and "length (kbs_cache st) < 50000"
  shows "kbs_inv (kbs_increment_key_count (st\<lparr>kbs_cache := hm_insert (kbs_cache st) s b\<rparr>) (kb_key_id b))"
proof -
  have cnt: "hm_count (\<lambda>b. kb_key_id b = k) (hm_insert (kbs_cache st) s b) =
      bound_to st k + (if k = kb_key_id b then 1 else 0)" for k
    using hm_count_insert [of "\<lambda>b. kb_key_id b = k" "kbs_cache st" s b] assms(2) by auto
  have "sat_add 32 (bound_to st k) 1 = bound_to st k + 1" for k
    using bound_to_le [of st k] assms(1) by (simp add: sat_add_def kbs_inv_def)
  then show ?thesis
    using assms by (auto simp: kbs_inv_def kbs_wf_def kbs_index_ok_def kbs_increment_key_count_def
        length_hm_insert cnt split: if_splits)
qed

lemma kbs_inv_rebind:
  assumes "kbs_inv st" and "hm_get (kbs_cache st) s = Some b" and "kb_key_id b \<noteq> kb_key_id c"
  shows "kbs_inv (kbs_increment_key_count ((kbs_decrement_key_count st (kb_key_id b))
    \<lparr>kbs_cache := hm_insert (kbs_cache st) s c\<rparr>) (kb_key_id c))"
proof -
  have pos: "0 < bound_to st (kb_key_id b)" by (rule bound_to_pos [OF assms(2)])
  have cnt: "hm_count (\<lambda>b. kb_key_id b = k) (hm_insert (kbs_cache st) s c) =
      (if k = kb_key_id c then bound_to st k + 1
       else if k = kb_key_id b then bound_to st k - 1 else bound_to st k)" for k
    using hm_count_insert [of "\<lambda>b. kb_key_id b = k" "kbs_cache st" s c] assms(2,3) by auto
  have "sat_add 32 (bound_to st k) 1 = bound_to st k + 1" for k
    using bound_to_le [of st k] assms(1) by (simp add: sat_add_def kbs_inv_def)
  then show ?thesis
    using assms pos by (auto simp: kbs_inv_def kbs_wf_def kbs_index_ok_def kbs_increment_key_count_def
        kbs_decrement_key_count_def hm_get_decrement length_hm_insert cnt split: if_splits)
qed

lemma kbs_inv_put:
  assumes "kbs_inv st" and "length (kbs_cache st) < 50000 \<or> hm_contains (kbs_cache st) s"
  shows "kbs_inv (kbs_put st s k now)"
proof -
  let ?c = "\<lparr>kb_key_id = k, kb_bound_at_ms = now, kb_last_used_ms = now, kb_transient_failures = 0\<rparr>"
  show ?thesis
  proof (cases "hm_get (kbs_cache st) s")
    case None
    then show ?thesis using assms kbs_inv_bind [OF assms(1) None, of ?c] by (simp add: kbs_put_def)
  next
    case (Some b)
    show ?thesis
    proof (cases "kb_key_id b = k")
      case True
      then show ?thesis using kbs_inv_same_keys [OF assms(1) Some, of ?c] Some by (simp add: kbs_put_def)
    next
      case False
      then show ?thesis using kbs_inv_rebind [OF assms(1) Some, of ?c] Some
        by (simp add: kbs_put_def kbs_decrement_key_count_def)
    qed
  qed
qed

lemma count_bindings_correct:
  assumes "length cache < 2 ^ 32"
  shows "hm_wf (count_bindings cache) \<and>
    hm_get (count_bindings cache) k =
      (if hm_count (\<lambda>b. kb_key_id b = k) cache = 0 then None
       else Some (hm_count (\<lambda>b. kb_key_id b = k) cache))"
  using assms
proof (induction cache rule: rev_induct)
  case Nil
  then show ?case by (simp add: count_bindings_def)
next
  case (snoc x xs)
  obtain s b where x: "x = (s, b)" by (cases x)
  have IH: "hm_wf (count_bindings xs)" "hm_get (count_bindings xs) k =
      (if hm_count (\<lambda>b. kb_key_id b = k) xs = 0 then None else Some (hm_count (\<lambda>b. kb_key_id b = k) xs))"
    using snoc by auto
  have step: "count_bindings (xs @ [x]) =
      hm_upsert (count_bindings xs) (kb_key_id b) 0 (\<lambda>c. wrap_add 32 c 1)"
    by (simp add: count_bindings_def x)
  have cnt: "hm_count (\<lambda>b. kb_key_id b = k) (xs @ [x]) =
      hm_count (\<lambda>b. kb_key_id b = k) xs + (if kb_key_id b = k then 1 else 0)"
    by (simp add: hm_count_def x)
  have "wrap_add 32 (hm_count (\<lambda>b. kb_key_id b = k) xs) 1 = hm_count (\<lambda>b. kb_key_id b = k) xs + 1"
    using snoc.prems hm_count_le [of "\<lambda>b. kb_key_id b = k" xs] by (intro wrap_add_exact) auto
  then show ?case using IH by (auto simp: step cnt wrap_add_def)
qed

lemma reconcile_establishes_inv: "kbs_wf st \<Longrightarrow> kbs_inv (kbs_reconcile_key_sessions st)"
proof -
  assume wf: "kbs_wf st"
  then have len: "length (kbs_cache st) < 2 ^ 32" by (simp add: kbs_wf_def)
  note cb = count_bindings_correct [OF len]
  have "hm_get (kbs_key_sessions (kbs_reconcile_key_sessions st)) k =
      (if bound_to st k = 0 then None else Some (bound_to st k))" for k
    using cb [of k] hm_get_foldl_insert [of "count_bindings (kbs_cache st)" "\<lambda>c. 0 < c" "\<lambda>c. c" "[]" k]
    by (simp add: kbs_reconcile_key_sessions_def)
  then show ?thesis using wf
    by (simp add: kbs_inv_def kbs_index_ok_def kbs_wf_def kbs_reconcile_key_sessions_def)
qed

lemma kbs_step_inv:
  assumes "kbs_inv st" and "kbs_step st e st'"
  shows "kbs_inv st'"
  using assms(2,1)
proof cases
  case (kbs_step_get s now)
  then show ?thesis using assms(1) kbs_inv_unbind [OF assms(1)]
    by (auto simp: kbs_get_def split: option.split)
next
  case (kbs_step_put s k now)
  then show ?thesis using kbs_inv_put [OF assms(1)] by blast
next
  case (kbs_step_touch s now)
  then show ?thesis using assms(1) kbs_inv_same_keys [OF assms(1)]
    by (auto simp: kbs_touch_def split: option.split)
next
  case (kbs_step_failure s k now)
  then show ?thesis using assms(1) kbs_inv_same_keys [OF assms(1)]
    by (auto simp: kbs_record_failure_def Let_def split: option.split)
next
  case (kbs_step_reset s k now)
  then show ?thesis using assms(1) kbs_inv_same_keys [OF assms(1)]
    by (auto simp: kbs_reset_failures_def split: option.split)
next
  case (kbs_step_remove s)
  then show ?thesis using assms(1) kbs_inv_unbind [OF assms(1)]
    by (auto simp: kbs_remove_def split: option.split)
next
  case kbs_step_reconcile
  then show ?thesis using assms(1) by (auto simp: kbs_inv_def [of st] intro: reconcile_establishes_inv)
qed

definition kbs_init :: "key_binding_store \<Rightarrow> bool" where
  "kbs_init st \<longleftrightarrow> (\<exists>ttl. st = kbs_new ttl)"

interpretation kbs_sys: invariant_system kbs_init kbs_step kbs_inv
proof unfold_locales
  fix st assume "kbs_init st"
  then show "kbs_inv st"
    by (auto simp: kbs_init_def kbs_new_def kbs_inv_def kbs_wf_def kbs_index_ok_def)
qed (rule kbs_step_inv)

lemma first_min_None_iff: "first_min f xs = None \<longleftrightarrow> xs = []"
  by (cases xs) (auto split: option.splits)

lemma first_min_SomeD:
  "first_min f xs = Some x \<Longrightarrow> x \<in> set xs \<and> (\<forall>y \<in> set xs. f x \<le> f y)"
proof (induction xs arbitrary: x)
  case (Cons a xs)
  show ?case
  proof (cases "first_min f xs")
    case None
    then show ?thesis using Cons.prems by (simp add: first_min_None_iff)
  next
    case (Some y)
    note min = Cons.IH [OF Some]
    show ?thesis
      using Cons.prems Some min by (auto split: if_splits dest: order_trans [of "f a" "f y"])
  qed
qed simp

section \<open>Properties\<close>

text \<open>
  As long as the cache evicts nothing, the number of sessions reported for a key is exactly
  the number of sessions bound to it, through every lookup with expiry, binding, rebinding,
  refresh, failure report and removal.
\<close>

theorem session_counts_exact:
  assumes "reachable kbs_init kbs_step st"
  shows "kbs_count_sessions_for_key st k = bound_to st k"
  using kbs_sys.reachable_inv [OF assms]
  by (auto simp: kbs_inv_def kbs_index_ok_def kbs_count_sessions_for_key_def)

theorem session_counts_exact_witness:
  "kbs_count_sessions_for_key (kbs_put (kbs_put (kbs_new 60) ''s'' ''a'' 0) ''s'' ''b'' 1) ''a'' =
     bound_to (kbs_put (kbs_put (kbs_new 60) ''s'' ''a'' 0) ''s'' ''b'' 1) ''a''"
proof -
  have r0: "reachable kbs_init kbs_step (kbs_new 60)" by (rule reach_init) (auto simp: kbs_init_def)
  have r1: "reachable kbs_init kbs_step (kbs_put (kbs_new 60) ''s'' ''a'' 0)"
    by (rule reach_step [OF r0], rule kbs_step_put) (simp add: kbs_new_def)
  have "reachable kbs_init kbs_step (kbs_put (kbs_put (kbs_new 60) ''s'' ''a'' 0) ''s'' ''b'' 1)"
    by (rule reach_step [OF r1], rule kbs_step_put)
      (simp add: kbs_put_def kbs_new_def kbs_increment_key_count_def length_hm_insert)
  then show ?thesis by (rule session_counts_exact)
qed

text \<open>
  A capacity eviction makes the reverse index drift: the listener updates its own clone of the
  index, so the evicted session keeps being counted for its key until the next reconciliation,
  which restores exact counts from any state.
\<close>

theorem eviction_drifts_until_reconciled:
  assumes "kbs_inv st" and "hm_get (kbs_cache st) s = Some b"
  defines "st' \<equiv> kbs_evict_size st s"
  shows "kbs_count_sessions_for_key st' (kb_key_id b) = bound_to st' (kb_key_id b) + 1 \<and>
    kbs_count_sessions_for_key (kbs_reconcile_key_sessions st') k = bound_to st' k"
proof -
  have wf: "hm_wf (kbs_cache st)" using assms(1) by (simp add: kbs_inv_def kbs_wf_def)
  have st': "st' = st\<lparr>kbs_cache := hm_remove (kbs_cache st) s,
      kbs_listener_sessions := decrement_count (kbs_listener_sessions st) (kb_key_id b)\<rparr>"
    by (simp add: st'_def kbs_evict_size_def assms(2))
  have "bound_to st' (kb_key_id b) + 1 = bound_to st (kb_key_id b)"
    using hm_count_remove [OF wf, of "\<lambda>c. kb_key_id c = kb_key_id b" s] assms(2) by (simp add: st')
  moreover have "kbs_count_sessions_for_key st' (kb_key_id b) = bound_to st (kb_key_id b)"
    using assms(1) by (auto simp: st' kbs_count_sessions_for_key_def kbs_inv_def kbs_index_ok_def)
  moreover have "kbs_wf st'"
    using assms(1) length_hm_remove_le [of "kbs_cache st" s] by (auto simp: st' kbs_inv_def kbs_wf_def)
  then have "kbs_inv (kbs_reconcile_key_sessions st')" by (rule reconcile_establishes_inv)
  then have "kbs_count_sessions_for_key (kbs_reconcile_key_sessions st') k =
      bound_to (kbs_reconcile_key_sessions st') k"
    by (auto simp: kbs_inv_def kbs_index_ok_def kbs_count_sessions_for_key_def)
  ultimately show ?thesis by (simp add: kbs_reconcile_key_sessions_def)
qed

theorem eviction_drifts_until_reconciled_witness:
  "kbs_count_sessions_for_key (kbs_evict_size (kbs_put (kbs_new 60) ''s'' ''a'' 0) ''s'') ''a'' = 1"
proof -
  let ?st = "kbs_put (kbs_new 60) ''s'' ''a'' 0"
  have "kbs_inv (kbs_new 60)" by (rule kbs_sys.inv_init) (auto simp: kbs_init_def)
  then have inv: "kbs_inv ?st" by (rule kbs_inv_put) (simp add: kbs_new_def)
  have "hm_get (kbs_cache ?st) ''s'' = Some \<lparr>kb_key_id = ''a'', kb_bound_at_ms = 0, kb_last_used_ms = 0,
      kb_transient_failures = 0\<rparr>"
    by (simp add: kbs_put_def kbs_new_def kbs_increment_key_count_def)
  note drift = eviction_drifts_until_reconciled [OF inv this, of "''a''"]
  have "bound_to (kbs_evict_size ?st ''s'') ''a'' = 0"
    by (simp add: kbs_evict_size_def kbs_put_def kbs_new_def kbs_increment_key_count_def hm_remove_def
        hm_insert_def hm_get_def hm_count_def)
  then show ?thesis using drift by simp
qed

text \<open>
  The least loaded key is one of the available keys, has fewer sessions than the maximum, and
  no available key below the maximum has fewer; none is returned exactly when every available key
  is full.
\<close>

theorem least_loaded_key_minimal:
  assumes "0 < max_sessions"
  shows "case kbs_least_loaded_key st available max_sessions of
      Some k \<Rightarrow> k \<in> set available \<and> kbs_count_sessions_for_key st k < max_sessions \<and>
        (\<forall>l \<in> set available. kbs_count_sessions_for_key st k \<le> kbs_count_sessions_for_key st l)
    | None \<Rightarrow> (\<forall>l \<in> set available. max_sessions \<le> kbs_count_sessions_for_key st l)"
proof -
  let ?c = "kbs_count_sessions_for_key st"
  let ?xs = "map (\<lambda>kid. (kid, ?c kid)) (filter (\<lambda>kid. ?c kid < max_sessions) available)"
  have eq: "kbs_least_loaded_key st available max_sessions = map_option fst (first_min snd ?xs)"
    using assms by (simp add: kbs_least_loaded_key_def)
  show ?thesis
  proof (cases "first_min snd ?xs")
    case None
    then show ?thesis by (auto simp: eq first_min_None_iff filter_empty_conv not_less)
  next
    case (Some kc)
    have kc: "kc \<in> set ?xs" "\<forall>y \<in> set ?xs. snd kc \<le> snd y" using first_min_SomeD [OF Some] by auto
    have "?c (fst kc) \<le> ?c l" if "l \<in> set available" for l
      using kc that by (cases "?c l < max_sessions") force+
    then show ?thesis using kc(1) by (auto simp: eq Some)
  qed
qed

theorem least_loaded_key_minimal_witness:
  "kbs_least_loaded_key (kbs_put (kbs_new 60) ''s'' ''a'' 0) [''a'', ''b''] 2 = Some ''b'' \<and>
   kbs_count_sessions_for_key (kbs_put (kbs_new 60) ''s'' ''a'' 0) ''b'' < 2"
proof -
  have "kbs_least_loaded_key (kbs_put (kbs_new 60) ''s'' ''a'' 0) [''a'', ''b''] 2 = Some ''b''"
    by (simp add: kbs_least_loaded_key_def kbs_count_sessions_for_key_def kbs_put_def kbs_new_def
        kbs_increment_key_count_def)
  then show ?thesis
    using least_loaded_key_minimal [where max_sessions = 2 and available = "[''a'', ''b'']"
        and st = "kbs_put (kbs_new 60) ''s'' ''a'' 0"] by simp
qed

end
