(* ===== verification/Selector.thy ===== *)
theory Selector
  imports Json "HOL-Library.Word" "HOL-Library.Multiset"
begin

unbundle bit_operations_syntax

text \<open>
  The credential selectors of \<^verbatim>\<open>crates/crab-auth/src/selector/\<close>: when a credential is
  blocked for a model, the fill-first and the round-robin selector, the session cache and the
  selector that adds session affinity to another one. The trait \<^verbatim>\<open>Selector\<close> is the locale
  \<^verbatim>\<open>selector\<close>; session affinity maps any selector to a selector, a sublocale. One call of
  \<^verbatim>\<open>pick\<close> reads the clock once.
\<close>

section \<open>Credentials\<close>

datatype provider = Claude | Codex | Gemini | Xai | Kimi | Antigravity

fun provider_as_str :: "provider \<Rightarrow> string" where
  "provider_as_str Claude = ''claude''"
| "provider_as_str Codex = ''codex''"
| "provider_as_str Gemini = ''gemini''"
| "provider_as_str Xai = ''xai''"
| "provider_as_str Kimi = ''kimi''"
| "provider_as_str Antigravity = ''antigravity''"

definition provider_from_str :: "string \<Rightarrow> string + provider" where
  "provider_from_str s =
     (if s = ''claude'' then Inr Claude
      else if s = ''codex'' then Inr Codex
      else if s = ''gemini'' then Inr Gemini
      else if s = ''xai'' then Inr Xai
      else if s = ''kimi'' then Inr Kimi
      else if s = ''antigravity'' then Inr Antigravity
      else Inl (''unknown provider: '' @ s))"

record token_record =
  tr_id :: string
  tr_provider :: provider
  tr_access_token :: string
  tr_refresh_token :: "string option"
  tr_id_token :: "string option"
  tr_email :: "string option"
  tr_expired_at :: "instant option"
  tr_last_refresh :: "instant option"
  tr_disabled :: bool
  tr_metadata :: "(string, json) hmap"
  tr_file_path :: "string option"

record auth_model_state =
  ms_disabled :: bool
  ms_unavailable :: bool
  ms_next_retry_after :: "instant option"
  ms_quota_exceeded :: bool
  ms_next_recover_at :: "instant option"

record auth_entry =
  ae_record :: token_record
  ae_model_states :: "(string, auth_model_state) hmap"
  ae_next_retry_after :: "instant option"
  ae_unavailable :: bool
  ae_priority :: int

definition auth_from_record :: "token_record \<Rightarrow> auth_entry" where
  "auth_from_record r = \<lparr>ae_record = r, ae_model_states = [], ae_next_retry_after = None,
     ae_unavailable = False, ae_priority = 0\<rparr>"

record selection_context =
  sx_provider :: string
  sx_model :: string
  sx_session_id :: "string option"
  sx_is_websocket :: bool

abbreviation auth_id :: "auth_entry \<Rightarrow> string" where
  "auth_id a \<equiv> tr_id (ae_record a)"

section \<open>Availability\<close>

datatype block_reason =
    BrDisabled
  | BrUnavailable
  | BrModelDisabled
  | BrModelCooldown instant
  | BrQuotaExceeded instant
  | BrGlobalCooldown instant

fun strip_first_suffix :: "string \<Rightarrow> string list \<Rightarrow> string" where
  \<comment> \<open>the loop over the suffixes\<close>
  "strip_first_suffix lower [] = lower"
| "strip_first_suffix lower (suffix # ss) =
     (case strip_suffix lower suffix of Some base \<Rightarrow> base | None \<Rightarrow> strip_first_suffix lower ss)"

definition canonical_model_key :: "string \<Rightarrow> string" where
  "canonical_model_key model =
     strip_first_suffix (to_lowercase model) [''-thinking'', ''-max'', ''-none'', ''-extended'']"

definition pending :: "bool \<Rightarrow> instant option \<Rightarrow> instant \<Rightarrow> instant option" where
  \<comment> \<open>a flag whose time limit lies in the future\<close>
  "pending flag limit now =
     (case limit of Some until \<Rightarrow> if flag \<and> now < until then Some until else None | None \<Rightarrow> None)"

definition is_blocked_for_model :: "auth_entry \<Rightarrow> string \<Rightarrow> instant \<Rightarrow> block_reason option" where
  "is_blocked_for_model auth model now =
     (if tr_disabled (ae_record auth) then Some BrDisabled
      else
        let model_state = (case hm_get (ae_model_states auth) model of
                             Some st \<Rightarrow> Some st
                           | None \<Rightarrow> hm_get (ae_model_states auth) (canonical_model_key model));
            blocked_by_model = (case model_state of
                None \<Rightarrow> None
              | Some st \<Rightarrow>
                  if ms_disabled st then Some BrModelDisabled
                  else case pending (ms_unavailable st) (ms_next_retry_after st) now of
                         Some until \<Rightarrow> Some (BrModelCooldown until)
                       | None \<Rightarrow>
                           map_option BrQuotaExceeded
                             (pending (ms_quota_exceeded st) (ms_next_recover_at st) now))
        in case blocked_by_model of
             Some r \<Rightarrow> Some r
           | None \<Rightarrow> map_option BrGlobalCooldown
                       (pending (ae_unavailable auth) (ae_next_retry_after auth) now))"

definition fnv_prime :: "64 word" where
  "fnv_prime = 0x100000001b3"

definition fnv64a_hash :: "8 word list \<Rightarrow> 64 word" where
  "fnv64a_hash data =
     foldl (\<lambda>hash byte. (hash XOR ucast byte) * fnv_prime)
       0xcbf29ce484222325 data"

section \<open>Fill-first and round-robin selection\<close>

definition top_available :: "string \<Rightarrow> auth_entry list \<Rightarrow> instant \<Rightarrow> (nat \<times> auth_entry) list" where
  \<comment> \<open>the unblocked entries of the highest priority with their indices, sorted by id; the common
    part of the two selectors\<close>
  "top_available model auths now =
     (let available = filter (\<lambda>(i, a). is_blocked_for_model a model now = None)
                        (enumerate 0 auths);
          max_priority = (if available = [] then 0 else Max (set (map (\<lambda>(i, a). ae_priority a) available)))
      in sort_key (\<lambda>(i, a). auth_id a)
           (filter (\<lambda>(i, a). ae_priority a = max_priority) available))"

definition ff_pick :: "unit \<Rightarrow> selection_context \<Rightarrow> auth_entry list \<Rightarrow> instant \<Rightarrow> nat option \<times> unit"
where
  "ff_pick sel ctx auths now =
     (case top_available (sx_model ctx) auths now of [] \<Rightarrow> (None, ()) | (i, a) # _ \<Rightarrow> (Some i, ()))"

record round_robin_selector =
  rr_cursors :: "(string, nat) hmap"
  rr_max_keys :: nat

definition rr_with_max_keys :: "nat \<Rightarrow> round_robin_selector" where
  "rr_with_max_keys max_keys = \<lparr>rr_cursors = [], rr_max_keys = max_keys\<rparr>"

definition rr_new :: round_robin_selector where
  "rr_new = rr_with_max_keys 1024"

definition cursor_wrap :: nat where
  "cursor_wrap = (2 ^ 64 - 1) div 2"

definition rr_cursor_key :: "selection_context \<Rightarrow> string" where
  "rr_cursor_key ctx = sx_provider ctx @ '':'' @ canonical_model_key (sx_model ctx)"

definition rr_live_cursors :: "round_robin_selector \<Rightarrow> (string, nat) hmap" where
  \<comment> \<open>a full cursor map is cleared\<close>
  "rr_live_cursors sel = (if rr_max_keys sel \<le> length (rr_cursors sel) then [] else rr_cursors sel)"

definition rr_cursor :: "round_robin_selector \<Rightarrow> string \<Rightarrow> nat" where
  "rr_cursor sel key = (case hm_get (rr_live_cursors sel) key of Some c \<Rightarrow> c | None \<Rightarrow> 0)"

definition rr_pick ::
  "round_robin_selector \<Rightarrow> selection_context \<Rightarrow> auth_entry list \<Rightarrow> instant
     \<Rightarrow> nat option \<times> round_robin_selector"
where
  "rr_pick sel ctx auths now =
     (let available = top_available (sx_model ctx) auths now
      in if available = [] then (None, sel)
         else
           let cursor_key = rr_cursor_key ctx;
               cursor = rr_cursor sel cursor_key
           in (Some (fst (available ! (cursor mod length available))),
               sel\<lparr>rr_cursors := hm_insert (rr_live_cursors sel) cursor_key
                     (wrap_add 64 cursor 1 mod cursor_wrap)\<rparr>))"

section \<open>Session cache and session affinity\<close>

record session_entry =
  se_auth_id :: string
  se_expires_at :: instant

record session_cache =
  sc_entries :: "(string, session_entry) hmap"
  sc_ttl :: duration

definition sc_new :: "duration \<Rightarrow> session_cache" where
  "sc_new ttl = \<lparr>sc_entries = [], sc_ttl = ttl\<rparr>"

definition sc_get :: "session_cache \<Rightarrow> string \<Rightarrow> instant \<Rightarrow> string option" where
  "sc_get c key now =
     (case hm_get (sc_entries c) key of
        Some e \<Rightarrow> if now < se_expires_at e then Some (se_auth_id e) else None
      | None \<Rightarrow> None)"

definition chrono_ttl :: "duration \<Rightarrow> duration" where
  \<comment> \<open>\<open>chrono::Duration::from_std\<close> fails above \<open>i64::MAX\<close> milliseconds\<close>
  "chrono_ttl d = (if d \<le> (2 ^ 63 - 1) * 10 ^ 6 then d else from_secs 300)"

definition sc_get_and_refresh :: "session_cache \<Rightarrow> string \<Rightarrow> instant \<Rightarrow> string option \<times> session_cache"
where
  "sc_get_and_refresh c key now =
     (case hm_get (sc_entries c) key of
        Some e \<Rightarrow>
          if now < se_expires_at e
          then (Some (se_auth_id e), c\<lparr>sc_entries := hm_insert (sc_entries c) key
                  (e\<lparr>se_expires_at := now + int (chrono_ttl (sc_ttl c))\<rparr>)\<rparr>)
          else (None, c)
      | None \<Rightarrow> (None, c))"

definition sc_insert :: "session_cache \<Rightarrow> string \<Rightarrow> string \<Rightarrow> instant \<Rightarrow> session_cache" where
  "sc_insert c key aid now =
     c\<lparr>sc_entries := hm_insert (sc_entries c) key
         \<lparr>se_auth_id = aid, se_expires_at = now + int (chrono_ttl (sc_ttl c))\<rparr>\<rparr>"

definition sc_invalidate_auth :: "session_cache \<Rightarrow> string \<Rightarrow> session_cache" where
  "sc_invalidate_auth c aid =
     c\<lparr>sc_entries := hm_retain (\<lambda>k e. se_auth_id e \<noteq> aid) (sc_entries c)\<rparr>"

definition sc_sweep :: "session_cache \<Rightarrow> instant \<Rightarrow> session_cache" where
  "sc_sweep c now = c\<lparr>sc_entries := hm_retain (\<lambda>k e. now < se_expires_at e) (sc_entries c)\<rparr>"

definition sc_len :: "session_cache \<Rightarrow> nat" where
  "sc_len c = length (sc_entries c)"

record 'f session_affinity_selector =
  sa_cache :: session_cache
  sa_fallback :: 'f

definition sa_new :: "'f \<Rightarrow> duration \<Rightarrow> 'f session_affinity_selector" where
  "sa_new fallback ttl = \<lparr>sa_cache = sc_new ttl, sa_fallback = fallback\<rparr>"

definition sa_cache_key :: "string \<Rightarrow> string \<Rightarrow> string \<Rightarrow> string" where
  "sa_cache_key prov session_id model = prov @ ''::'' @ session_id @ ''::'' @ model"

type_synonym 'f picker =
  "'f \<Rightarrow> selection_context \<Rightarrow> auth_entry list \<Rightarrow> instant \<Rightarrow> nat option \<times> 'f"

definition sa_hit :: "session_cache \<Rightarrow> selection_context \<Rightarrow> string \<Rightarrow> auth_entry list \<Rightarrow> instant \<Rightarrow> nat option"
where
  \<comment> \<open>the bound credential, if the binding lives and the credential is not blocked\<close>
  "sa_hit c ctx key auths now =
     (case sc_get c key now of
        Some aid \<Rightarrow>
          first_index (\<lambda>a. auth_id a = aid \<and> is_blocked_for_model a (sx_model ctx) now = None) auths
      | None \<Rightarrow> None)"

definition sa_pick :: "'f picker \<Rightarrow> 'f session_affinity_selector picker" where
  "sa_pick fallback_pick sel ctx auths now =
     (case sx_session_id ctx of
        None \<Rightarrow>
          (case fallback_pick (sa_fallback sel) ctx auths now of
             (r, f) \<Rightarrow> (r, sel\<lparr>sa_fallback := f\<rparr>))
      | Some session_id \<Rightarrow>
          let key = sa_cache_key (sx_provider ctx) session_id (sx_model ctx)
          in case sa_hit (sa_cache sel) ctx key auths now of
               Some idx \<Rightarrow> (Some idx, sel)
             | None \<Rightarrow>
                 (case fallback_pick (sa_fallback sel) ctx auths now of
                    (None, f) \<Rightarrow> (None, sel\<lparr>sa_fallback := f\<rparr>)
                  | (Some idx, f) \<Rightarrow>
                      (Some idx,
                       sel\<lparr>sa_fallback := f,
                           sa_cache := sc_insert (sa_cache sel) key (auth_id (auths ! idx)) now\<rparr>)))"

definition sa_mark_result ::
  "('f \<Rightarrow> nat \<Rightarrow> auth_entry \<Rightarrow> bool \<Rightarrow> nat option \<Rightarrow> 'f) \<Rightarrow> 'f session_affinity_selector
     \<Rightarrow> nat \<Rightarrow> auth_entry \<Rightarrow> bool \<Rightarrow> nat option \<Rightarrow> 'f session_affinity_selector"
where
  "sa_mark_result fallback_mark sel auth_idx auth success status_code =
     (let sel' = (if \<not> success \<and> status_code = Some 429
                  then sel\<lparr>sa_cache := sc_invalidate_auth (sa_cache sel) (auth_id auth)\<rparr> else sel)
      in sel'\<lparr>sa_fallback := fallback_mark (sa_fallback sel') auth_idx auth success status_code\<rparr>)"

definition rr_mark_result ::
  "round_robin_selector \<Rightarrow> nat \<Rightarrow> auth_entry \<Rightarrow> bool \<Rightarrow> nat option \<Rightarrow> round_robin_selector"
where
  "rr_mark_result sel auth_idx auth success status_code = sel"

definition ff_mark_result :: "unit \<Rightarrow> nat \<Rightarrow> auth_entry \<Rightarrow> bool \<Rightarrow> nat option \<Rightarrow> unit" where
  "ff_mark_result sel auth_idx auth success status_code = sel"


section \<open>What the selectors scan\<close>

definition usable :: "string \<Rightarrow> auth_entry list \<Rightarrow> instant \<Rightarrow> nat \<Rightarrow> bool" where
  "usable model auths now i \<longleftrightarrow>
     i < length auths \<and> is_blocked_for_model (auths ! i) model now = None"

lemma in_top_available_iff:
  "(i, a) \<in> set (top_available model auths now) \<longleftrightarrow>
     usable model auths now i \<and> a = auths ! i \<and>
     (\<forall>j. usable model auths now j \<longrightarrow> ae_priority (auths ! j) \<le> ae_priority (auths ! i))"
proof -
  define av where "av = filter (\<lambda>(i, a). is_blocked_for_model a model now = None) (enumerate 0 auths)"
  let ?P = "set (map (\<lambda>(i, a). ae_priority a) av)"
  have av: "(j, b) \<in> set av \<longleftrightarrow> usable model auths now j \<and> b = auths ! j" for j b
    by (auto simp: av_def usable_def in_set_enumerate_eq)
  have P: "?P = {ae_priority (auths ! j) | j. usable model auths now j}"
    using av by (force simp: image_iff)
  have "(i, a) \<in> set (top_available model auths now) \<longleftrightarrow> (i, a) \<in> set av \<and> ae_priority a = Max ?P"
    unfolding top_available_def av_def [symmetric] Let_def by (cases "av = []") auto
  also have "\<dots> \<longleftrightarrow> (i, a) \<in> set av \<and> (\<forall>q \<in> ?P. q \<le> ae_priority a)"
  proof (rule conj_cong [OF refl])
    assume "(i, a) \<in> set av"
    then have "ae_priority a \<in> ?P" by force
    then show "(ae_priority a = Max ?P) = (\<forall>q \<in> ?P. q \<le> ae_priority a)"
      by (metis List.finite_set Max_eqI Max_ge)
  qed
  finally show ?thesis unfolding P av by auto
qed

lemma top_available_Nil_iff:
  "top_available model auths now = [] \<longleftrightarrow> (\<forall>i. \<not> usable model auths now i)"
proof
  assume empty: "top_available model auths now = []"
  show "\<forall>i. \<not> usable model auths now i"
  proof (rule ccontr)
    let ?U = "{i. usable model auths now i}"
    assume "\<not> (\<forall>i. \<not> usable model auths now i)"
    then have "?U \<noteq> {}" by auto
    moreover have fin: "finite ?U" by (rule finite_subset [of _ "{..<length auths}"]) (auto simp: usable_def)
    ultimately have "Max ((\<lambda>j. ae_priority (auths ! j)) ` ?U) \<in> (\<lambda>j. ae_priority (auths ! j)) ` ?U"
      by (intro Max_in) auto
    then obtain i where "i \<in> ?U" "ae_priority (auths ! i) = Max ((\<lambda>j. ae_priority (auths ! j)) ` ?U)"
      by auto
    then have "\<forall>j \<in> ?U. ae_priority (auths ! j) \<le> ae_priority (auths ! i)" "i \<in> ?U"
      using fin by auto
    then have "(i, auths ! i) \<in> set (top_available model auths now)"
      by (simp add: in_top_available_iff)
    then show False using empty by simp
  qed
next
  assume none: "\<forall>i. \<not> usable model auths now i"
  then show "top_available model auths now = []"
    using in_top_available_iff [of _ _ model auths now] by (metis list.set_intros(1) neq_Nil_conv surj_pair)
qed

lemma distinct_top_available: "distinct (map fst (top_available model auths now))"
proof -
  have "distinct (map fst (filter P (enumerate 0 auths)))" for P
    by (simp add: distinct_map_filter)
  then have "distinct (map fst (filter Q (filter P (enumerate 0 auths))))" for P Q
    by simp
  moreover have "distinct (map fst (sort_key f xs)) = distinct (map fst xs)"
    for f :: "nat \<times> auth_entry \<Rightarrow> string" and xs
    by (rule mset_eq_imp_distinct_iff) simp
  ultimately show ?thesis by (simp add: top_available_def Let_def del: filter_filter)
qed


section \<open>The selector interface\<close>

locale selector =
  fixes pick :: "'f picker"
  assumes pick_Some: "pick s ctx auths now = (Some i, s') \<Longrightarrow> usable (sx_model ctx) auths now i"
    and pick_None: "pick s ctx auths now = (None, s') \<Longrightarrow> \<not> usable (sx_model ctx) auths now i"
begin

lemma picks_iff_usable:
  "(\<exists>i. fst (pick s ctx auths now) = Some i) \<longleftrightarrow> (\<exists>i. usable (sx_model ctx) auths now i)"
  using pick_Some [of s ctx auths now] pick_None [of s ctx auths now]
  by (cases "pick s ctx auths now"; cases "fst (pick s ctx auths now)") auto

lemma pick_cases:
  "case fst (pick s ctx auths now) of
     Some i \<Rightarrow> usable (sx_model ctx) auths now i
   | None \<Rightarrow> \<forall>i. \<not> usable (sx_model ctx) auths now i"
  using pick_Some [of s ctx auths now] pick_None [of s ctx auths now]
  by (cases "pick s ctx auths now") (auto split: option.split)

end

locale priority_selector = selector pick for pick :: "'f picker" +
  assumes pick_top: "pick s ctx auths now = (Some i, s') \<Longrightarrow> usable (sx_model ctx) auths now j \<Longrightarrow>
    ae_priority (auths ! j) \<le> ae_priority (auths ! i)"
begin

lemma pick_highest:
  "fst (pick s ctx auths now) = Some i \<Longrightarrow> usable (sx_model ctx) auths now j \<Longrightarrow>
     ae_priority (auths ! j) \<le> ae_priority (auths ! i)"
  using pick_top [of s ctx auths now] by (cases "pick s ctx auths now") auto

end

lemma sa_hit_usable: "sa_hit c ctx key auths now = Some i \<Longrightarrow> usable (sx_model ctx) auths now i"
  by (auto simp: sa_hit_def usable_def split: option.splits dest: first_index_SomeD)

lemma rr_pick_top:
  assumes "rr_pick s ctx auths now = (Some i, s')"
  shows "\<exists>a. (i, a) \<in> set (top_available (sx_model ctx) auths now)"
proof -
  let ?av = "top_available (sx_model ctx) auths now"
  let ?k = "rr_cursor s (rr_cursor_key ctx) mod length ?av"
  have "?av \<noteq> []" "i = fst (?av ! ?k)"
    using assms by (auto simp: rr_pick_def Let_def split: if_splits)
  then have "?av ! ?k \<in> set ?av" "fst (?av ! ?k) = i" by auto
  then show ?thesis by (metis prod.collapse)
qed

lemma rr_pick_None: "rr_pick s ctx auths now = (None, s') \<Longrightarrow> top_available (sx_model ctx) auths now = []"
  by (auto simp: rr_pick_def Let_def split: if_splits)

lemma ff_pick_top:
  "ff_pick s ctx auths now = (Some i, s') \<Longrightarrow> \<exists>a. (i, a) \<in> set (top_available (sx_model ctx) auths now)"
  by (cases "top_available (sx_model ctx) auths now") (auto simp: ff_pick_def)

lemma ff_pick_None: "ff_pick s ctx auths now = (None, s') \<Longrightarrow> top_available (sx_model ctx) auths now = []"
  by (cases "top_available (sx_model ctx) auths now") (auto simp: ff_pick_def)

interpretation ff: priority_selector ff_pick
proof unfold_locales
qed (auto simp: in_top_available_iff top_available_Nil_iff dest!: ff_pick_top ff_pick_None)

interpretation rr: priority_selector rr_pick
proof unfold_locales
qed (auto simp: in_top_available_iff top_available_Nil_iff dest!: rr_pick_top rr_pick_None)

context selector
begin

lemma sa_pick_Some:
  "sa_pick pick s ctx auths now = (Some i, s') \<Longrightarrow> usable (sx_model ctx) auths now i"
  by (auto simp: sa_pick_def Let_def split: option.splits prod.splits
      dest: pick_Some sa_hit_usable)

lemma sa_pick_None:
  "sa_pick pick s ctx auths now = (None, s') \<Longrightarrow> \<not> usable (sx_model ctx) auths now i"
  by (auto simp: sa_pick_def Let_def split: option.splits prod.splits dest: pick_None)

lemma sa_selector: "selector (sa_pick pick)"
  by unfold_locales (auto dest: sa_pick_Some sa_pick_None)

end

interpretation sa_rr: selector "sa_pick rr_pick"
  by (rule rr.sa_selector)

interpretation sa_ff: selector "sa_pick ff_pick"
  by (rule ff.sa_selector)

section \<open>Round robin over several requests\<close>

fun rr_picks :: "round_robin_selector \<Rightarrow> selection_context \<Rightarrow> auth_entry list \<Rightarrow> instant list
    \<Rightarrow> nat option list" where
  "rr_picks sel ctx auths [] = []"
| "rr_picks sel ctx auths (now # ts) =
     (case rr_pick sel ctx auths now of (r, sel') \<Rightarrow> r # rr_picks sel' ctx auths ts)"

lemma rr_picks_indices:
  assumes "top_available (sx_model ctx) auths ` set ts \<subseteq> {av}" and "av \<noteq> []"
    and "length (hm_insert (rr_live_cursors sel) (rr_cursor_key ctx) 0) < rr_max_keys sel"
    and "rr_cursor sel (rr_cursor_key ctx) + length ts \<le> cursor_wrap"
  shows "rr_picks sel ctx auths ts =
    map (\<lambda>k. Some (fst (av ! ((rr_cursor sel (rr_cursor_key ctx) + k) mod length av)))) [0..<length ts]"
  using assms
proof (induction ts arbitrary: sel)
  case (Cons now ts)
  let ?key = "rr_cursor_key ctx"
  let ?c = "rr_cursor sel ?key"
  define sel' where
    "sel' = sel\<lparr>rr_cursors := hm_insert (rr_live_cursors sel) ?key (wrap_add 64 ?c 1 mod cursor_wrap)\<rparr>"
  have pick: "rr_pick sel ctx auths now = (Some (fst (av ! (?c mod length av))), sel')"
    using Cons.prems(1,2) by (auto simp: rr_pick_def sel'_def Let_def)
  have len: "length (hm_insert (rr_live_cursors sel) ?key v) < rr_max_keys sel" for v
    using Cons.prems(3) by (simp add: length_hm_insert)
  then have "length (rr_cursors sel') < rr_max_keys sel'" by (simp add: sel'_def)
  then have live: "rr_live_cursors sel' = rr_cursors sel'" by (simp add: rr_live_cursors_def)
  have small: "Suc ?c < 2 ^ 64" using Cons.prems(4) by (simp add: cursor_wrap_def)
  have rest: "rr_picks sel' ctx auths ts =
      map (\<lambda>k. Some (fst (av ! ((Suc ?c + k) mod length av)))) [0..<length ts]"
  proof (cases "ts = []")
    case False
    then have "Suc ?c < cursor_wrap" using Cons.prems(4) by (cases ts) auto
    moreover have "hm_get (rr_cursors sel') ?key = Some (wrap_add 64 ?c 1 mod cursor_wrap)"
      by (simp add: sel'_def)
    ultimately have cur: "rr_cursor sel' ?key = Suc ?c"
      using small by (simp add: rr_cursor_def [of sel'] live wrap_add_exact)
    have "length (hm_insert (rr_live_cursors sel') ?key 0) < rr_max_keys sel'"
      unfolding live using len by (simp add: sel'_def length_hm_insert)
    then show ?thesis
      using Cons.IH [of sel'] Cons.prems(1,2,4) by (simp add: cur)
  qed simp
  have "[0..<length (now # ts)] = 0 # map Suc [0..<length ts]"
    by (simp add: upt_conv_Cons map_Suc_upt del: upt_Suc)
  then show ?case by (simp add: pick rest)
qed simp

lemma mset_cyclic:
  assumes "xs \<noteq> []"
  shows "mset (map (\<lambda>k. xs ! ((c + k) mod length xs)) [0..<length xs]) = mset xs"
proof -
  have "map (\<lambda>k. xs ! ((c + k) mod length xs)) [0..<length xs] = rotate c xs"
    by (rule nth_equalityI) (simp_all add: nth_rotate)
  then show ?thesis
    by (metis append_take_drop_id mset_append rotate_drop_take union_commute)
qed

section \<open>The fingerprint hash\<close>

lemma fnv_prime_inverse: "fnv_prime * 0xce965057aff6957b = 1"
  by (simp add: fnv_prime_def)

lemma fnv_mult_inject:
  assumes "a * fnv_prime = b * fnv_prime"
  shows "a = b"
proof -
  have "a * fnv_prime * 0xce965057aff6957b = b * fnv_prime * 0xce965057aff6957b" by (simp only: assms)
  then show ?thesis by (simp only: mult.assoc fnv_prime_inverse mult_1_right)
qed

lemma xor_right_inject: "(a XOR c) = (b XOR c) \<Longrightarrow> a = (b :: 'a :: len word)"
  by (metis xor.assoc xor_self_eq xor.right_neutral)

lemma fnv_foldl_inject:
  "foldl (\<lambda>hash byte. (hash XOR ucast byte) * fnv_prime) h data =
     foldl (\<lambda>hash byte. (hash XOR ucast byte) * fnv_prime) h' data \<Longrightarrow> h = h'"
  by (induction data arbitrary: h h') (auto dest: fnv_mult_inject xor_right_inject)

section \<open>Examples\<close>

definition example_auth :: "string \<Rightarrow> int \<Rightarrow> auth_entry" where
  "example_auth aid priority =
     (auth_from_record \<lparr>tr_id = aid, tr_provider = Claude, tr_access_token = ''t'',
        tr_refresh_token = None, tr_id_token = None, tr_email = None, tr_expired_at = None,
        tr_last_refresh = None, tr_disabled = False, tr_metadata = [], tr_file_path = None\<rparr>)
       \<lparr>ae_priority := priority\<rparr>"

definition example_ctx :: selection_context where
  "example_ctx = \<lparr>sx_provider = ''claude'', sx_model = ''m'', sx_session_id = Some ''s'',
     sx_is_websocket = False\<rparr>"

lemma example_top: "top_available ''m'' [example_auth ''b'' 0, example_auth ''a'' 0] t =
    [(1, example_auth ''a'' 0), (0, example_auth ''b'' 0)]"
  by (simp add: top_available_def example_auth_def auth_from_record_def is_blocked_for_model_def
      pending_def)

section \<open>Properties\<close>



text \<open>
  Round robin is fair: while the set of credentials it may use stays the same and the cursor
  map has room, as many consecutive requests for one provider and model as there are credentials
  are spread over all of them, each exactly once, wherever the cursor stands.
\<close>

theorem round_robin_fair:
  assumes "\<forall>t \<in> set ts. top_available (sx_model ctx) auths t = av"
    and "length ts = length av" and "av \<noteq> []"
    and "length (hm_insert (rr_live_cursors sel) (rr_cursor_key ctx) 0) < rr_max_keys sel"
    and "rr_cursor sel (rr_cursor_key ctx) + length ts \<le> cursor_wrap"
  shows "mset (rr_picks sel ctx auths ts) = mset (map Some (map fst av)) \<and>
    distinct (rr_picks sel ctx auths ts)"
proof -
  let ?c = "rr_cursor sel (rr_cursor_key ctx)"
  let ?xs = "map Some (map fst av)"
  have "rr_picks sel ctx auths ts = map (\<lambda>k. Some (fst (av ! ((?c + k) mod length av)))) [0..<length ts]"
    by (rule rr_picks_indices) (use assms in auto)
  also have "\<dots> = map (\<lambda>k. ?xs ! ((?c + k) mod length ?xs)) [0..<length ?xs]"
    using assms(2,3) by auto
  finally have m: "mset (rr_picks sel ctx auths ts) = mset ?xs"
    using mset_cyclic [of ?xs ?c] assms(3) by simp
  obtain t where "t \<in> set ts" using assms(2,3) by (cases ts) auto
  then have "distinct (map fst av)" using assms(1) distinct_top_available by metis
  then have "distinct ?xs" by (simp only: distinct_map) simp
  then show ?thesis using m mset_eq_imp_distinct_iff [OF m] by blast
qed


theorem round_robin_fair_witness:
  "mset (rr_picks rr_new example_ctx [example_auth ''b'' 0, example_auth ''a'' 0] [7, 9]) =
     mset [Some 1, Some 0]"
proof -
  let ?auths = "[example_auth ''b'' 0, example_auth ''a'' 0]"
  have "\<forall>t \<in> set [7, 9]. top_available (sx_model example_ctx) ?auths t =
      [(1, example_auth ''a'' 0), (0, example_auth ''b'' 0)]"
    by (simp add: example_ctx_def example_top)
  then show ?thesis
    using round_robin_fair [of "[7, 9]" example_ctx ?auths "[(1, example_auth ''a'' 0), (0, example_auth ''b'' 0)]"
        rr_new]
    by (simp add: rr_new_def rr_with_max_keys_def rr_live_cursors_def rr_cursor_def cursor_wrap_def
        length_hm_insert)
qed

text \<open>
  A session sticks to its credential. After a request of a session that was not bound yet, a
  request of the same session and model before the binding expires gets a credential with the same
  id whenever one is usable, in whatever order the credentials are then listed, and the selector
  does not change. A reported 429 on that credential removes the binding.
\<close>

theorem session_sticks_until_429:
  fixes sel :: "'f session_affinity_selector"
  defines "key ctx sid \<equiv> sa_cache_key (sx_provider ctx) sid (sx_model ctx)"
  assumes "hm_wf (sc_entries (sa_cache sel))" and "sx_session_id ctx = Some sid"
    and "sa_hit (sa_cache sel) ctx (key ctx sid) auths now = None"
    and "sa_pick fp sel ctx auths now = (Some i, sel')"
    and "now' < now + int (chrono_ttl (sc_ttl (sa_cache sel)))"
    and "usable (sx_model ctx) auths' now' j" and "auth_id (auths' ! j) = auth_id (auths ! i)"
  shows "(\<exists>k. sa_pick fp sel' ctx auths' now' = (Some k, sel') \<and>
              auth_id (auths' ! k) = auth_id (auths ! i)) \<and>
    sa_hit (sa_cache (sa_mark_result fm sel' i (auths ! i) False (Some 429))) ctx (key ctx sid)
      auths' now' = None"
proof -
  let ?key = "key ctx sid"
  let ?a = "auth_id (auths ! i)"
  obtain f where f: "fp (sa_fallback sel) ctx auths now = (Some i, f)"
    and sel': "sel' = sel\<lparr>sa_fallback := f, sa_cache := sc_insert (sa_cache sel) ?key ?a now\<rparr>"
    using assms(2-5) by (auto simp: sa_pick_def key_def Let_def split: prod.splits option.splits)
  have get: "sc_get (sa_cache sel') ?key now' = Some ?a"
    using assms(6) by (simp add: sel' sc_get_def sc_insert_def)
  have "first_index (\<lambda>a. auth_id a = ?a \<and> is_blocked_for_model a (sx_model ctx) now' = None) auths' \<noteq> None"
    using assms(7,8) by (auto simp: first_index_None_iff usable_def)
  then obtain k where k:
    "first_index (\<lambda>a. auth_id a = ?a \<and> is_blocked_for_model a (sx_model ctx) now' = None) auths' = Some k"
    by auto
  then have hit: "sa_hit (sa_cache sel') ctx ?key auths' now' = Some k" by (simp add: sa_hit_def get)
  have "sa_pick fp sel' ctx auths' now' = (Some k, sel')"
    using assms(3) hit by (simp add: sa_pick_def key_def)
  moreover have "auth_id (auths' ! k) = ?a" using first_index_SomeD [OF k] by simp
  moreover have "sc_get (sa_cache (sa_mark_result fm sel' i (auths ! i) False (Some 429))) ?key now' = None"
    using assms(2) by (simp add: sa_mark_result_def sc_invalidate_auth_def sel' sc_get_def sc_insert_def
        hm_get_retain)
  ultimately show ?thesis by (simp add: sa_hit_def)
qed

theorem session_sticks_until_429_witness:
  "\<exists>k. sa_pick rr_pick
      (snd (sa_pick rr_pick (sa_new rr_new (from_secs 60)) example_ctx
              [example_auth ''b'' 0, example_auth ''a'' 0] 0))
      example_ctx [example_auth ''b'' 0, example_auth ''a'' 0] 1 =
    (Some k, snd (sa_pick rr_pick (sa_new rr_new (from_secs 60)) example_ctx
              [example_auth ''b'' 0, example_auth ''a'' 0] 0)) \<and>
    auth_id ([example_auth ''b'' 0, example_auth ''a'' 0] ! k) = ''a''"
proof -
  let ?auths = "[example_auth ''b'' 0, example_auth ''a'' 0]"
  let ?sel = "sa_new rr_new (from_secs 60)"
  have hit: "sa_hit (sa_cache ?sel) example_ctx key ?auths 0 = None" for key
    by (simp add: sa_hit_def sc_get_def sa_new_def sc_new_def)
  have pick: "fst (sa_pick rr_pick ?sel example_ctx ?auths 0) = Some 1"
    using hit by (simp add: sa_pick_def example_ctx_def rr_pick_def rr_new_def rr_with_max_keys_def sa_new_def
        example_top rr_cursor_def rr_live_cursors_def)
  have ttl: "(1 :: int) < 0 + int (chrono_ttl (sc_ttl (sa_cache ?sel)))"
    by (simp add: sa_new_def sc_new_def chrono_ttl_def from_secs_def nanos_per_sec_def)
  have u: "usable (sx_model example_ctx) ?auths 1 1"
    by (simp add: usable_def example_auth_def auth_from_record_def is_blocked_for_model_def pending_def)
  show ?thesis
    using session_sticks_until_429 [where sel = ?sel and ctx = example_ctx and sid = "''s''" and auths = ?auths
        and now = 0 and fp = rr_pick and i = 1 and sel' = "snd (sa_pick rr_pick ?sel example_ctx ?auths 0)"
        and now' = 1 and auths' = ?auths and j = 1] hit pick ttl u
    by (simp add: sa_new_def sc_new_def example_ctx_def prod_eq_iff example_auth_def auth_from_record_def)
qed

text \<open>
  The fingerprint hash tells apart any two inputs that differ in exactly one byte.
\<close>

theorem fnv_separates_one_byte:
  assumes "b \<noteq> b'"
  shows "fnv64a_hash (xs @ b # ys) \<noteq> fnv64a_hash (xs @ b' # ys)"
proof
  assume "fnv64a_hash (xs @ b # ys) = fnv64a_hash (xs @ b' # ys)"
  then have "(h XOR ucast b) * fnv_prime = (h XOR ucast b') * fnv_prime"
    if "h = fnv64a_hash xs" for h
    using that by (auto simp: fnv64a_hash_def dest: fnv_foldl_inject)
  then have "(ucast b :: 64 word) XOR fnv64a_hash xs = ucast b' XOR fnv64a_hash xs"
    by (metis fnv_mult_inject xor.commute)
  then have "(ucast b :: 64 word) = ucast b'" by (rule xor_right_inject)
  then have "(ucast (ucast b :: 64 word) :: 8 word) = ucast (ucast b' :: 64 word)" by (rule arg_cong)
  then show False using assms by (simp add: ucast_up_ucast_id is_up)
qed

theorem fnv_separates_one_byte_witness: "fnv64a_hash [1, 2, 3] \<noteq> fnv64a_hash [1, 4, 3]"
  using fnv_separates_one_byte [of 2 4 "[1]" "[3]"] by simp

end
