(* ===== verification/Coalescing.thy ===== *)
theory Coalescing
  imports Prelude
begin

text \<open>
  Request coalescing, \<^verbatim>\<open>crates/crab-cache/src/coalescing.rs\<close>: of the concurrent requests for one
  cache key one becomes the leader, the others wait for it. \<^verbatim>\<open>acquire\<close> is a task with a
  program counter and one step per access to shared state, and \<^verbatim>\<open>co_step\<close> interleaves any number
  of tasks; each method of a guard is one step.

  Entries live in a heap, since the map, the guards and the waiting tasks share them. Cloning the
  \<^verbatim>\<open>DashMap\<close> into a guard copies the map and shares the entries. A \<^verbatim>\<open>Notify\<close> is the
  number of its \<^verbatim>\<open>notify_waiters\<close> calls: a waiting task is woken by a call later than the
  creation of its future. The shard locks that a task holds on to while it waits are left out; they
  only remove interleavings.
\<close>

section \<open>State\<close>

record inflight_entry =
  ie_notified :: nat
  ie_completed :: bool
  ie_failed :: bool

record request_coalescer =
  co_inflight :: "(string, nat) hmap"
  co_heap :: "inflight_entry list"
  co_inflight_count :: nat
  co_max_inflight :: nat
  co_follower_timeout :: duration

record coalesce_guard =
  cg_key :: string
  cg_is_leader :: bool
  cg_inflight :: "(string, nat) hmap"
  cg_inflight_count :: bool \<comment> \<open>whether the guard owns a slot of the counter\<close>
  cg_entry :: nat

datatype coalesce_error = CoTimeout | CoCapacityExceeded

definition co_with_config :: "nat \<Rightarrow> nat \<Rightarrow> request_coalescer" where
  "co_with_config max_inflight follower_timeout_secs =
     \<lparr>co_inflight = [], co_heap = [], co_inflight_count = 0, co_max_inflight = max_inflight,
      co_follower_timeout = from_secs follower_timeout_secs\<rparr>"

definition co_new :: request_coalescer where
  "co_new = co_with_config 1000 60"

definition co_len :: "request_coalescer \<Rightarrow> nat" where
  "co_len c = co_inflight_count c"

definition co_is_empty :: "request_coalescer \<Rightarrow> bool" where
  "co_is_empty c \<longleftrightarrow> co_inflight_count c = 0"

section \<open>Acquiring\<close>

datatype acquire_pc =
    AcqLookup \<comment> \<open>head of the loop\<close>
  | AcqFound nat \<comment> \<open>an entry is in the map\<close>
  | AcqNotDone nat \<comment> \<open>it was not completed\<close>
  | AcqWaiting nat nat \<comment> \<open>waiting, with the notifications at the start of the wait\<close>
  | AcqWoken nat
  | AcqReserve \<comment> \<open>no entry: reserve a slot of the counter\<close>
  | AcqOver \<comment> \<open>over capacity: give the slot back\<close>
  | AcqReserved
  | AcqOccupied nat \<comment> \<open>lost the race for the entry\<close>
  | AcqOccupiedCheck nat
  | AcqOccupiedNotDone nat
  | AcqOccupiedWaiting nat nat
  | AcqGuard coalesce_guard \<comment> \<open>returned \<open>Ok\<close>, the guard is alive\<close>
  | AcqErr coalesce_error
  | AcqReleasing \<comment> \<open>a leader is being dropped, its slot of the counter is still taken\<close>
  | AcqDropped

definition follower_guard :: "request_coalescer \<Rightarrow> string \<Rightarrow> nat \<Rightarrow> coalesce_guard" where
  "follower_guard c key a = \<lparr>cg_key = key, cg_is_leader = False, cg_inflight = co_inflight c,
     cg_inflight_count = False, cg_entry = a\<rparr>"

definition co_claim :: "request_coalescer \<Rightarrow> string \<Rightarrow> request_coalescer \<times> acquire_pc" where
  \<comment> \<open>the entry of the map: insert a new one or find the race lost\<close>
  "co_claim c key =
     (case hm_get (co_inflight c) key of
        Some a \<Rightarrow> (c, AcqOccupied a)
      | None \<Rightarrow>
          let a = length (co_heap c);
              c' = c\<lparr>co_heap := co_heap c @ [\<lparr>ie_notified = 0, ie_completed = False, ie_failed = False\<rparr>],
                     co_inflight := hm_insert (co_inflight c) key a\<rparr>
          in (c', AcqGuard \<lparr>cg_key = key, cg_is_leader = True, cg_inflight = co_inflight c',
                            cg_inflight_count = True, cg_entry = a\<rparr>))"

definition acquire_step ::
  "request_coalescer \<Rightarrow> string \<Rightarrow> acquire_pc \<Rightarrow> (request_coalescer \<times> acquire_pc) option"
where
  \<comment> \<open>the next step of \<open>acquire\<close>; \<open>None\<close> while it waits and once it has returned\<close>
  "acquire_step c key pc =
     (case pc of
        AcqLookup \<Rightarrow>
          Some (c, case hm_get (co_inflight c) key of Some a \<Rightarrow> AcqFound a | None \<Rightarrow> AcqReserve)
      | AcqFound a \<Rightarrow>
          Some (c, if ie_completed (co_heap c ! a) then AcqGuard (follower_guard c key a)
                   else AcqNotDone a)
      | AcqNotDone a \<Rightarrow> Some (c, AcqWaiting a (ie_notified (co_heap c ! a)))
      | AcqWoken a \<Rightarrow>
          Some (c, if ie_completed (co_heap c ! a) then AcqGuard (follower_guard c key a)
                   else AcqLookup)
      | AcqReserve \<Rightarrow>
          Some (c\<lparr>co_inflight_count := wrap_add 64 (co_inflight_count c) 1\<rparr>,
                if co_max_inflight c \<le> co_inflight_count c then AcqOver else AcqReserved)
      | AcqOver \<Rightarrow>
          Some (c\<lparr>co_inflight_count := wrap_sub 64 (co_inflight_count c) 1\<rparr>, AcqErr CoCapacityExceeded)
      | AcqReserved \<Rightarrow> Some (co_claim c key)
      | AcqOccupied a \<Rightarrow>
          Some (c\<lparr>co_inflight_count := wrap_sub 64 (co_inflight_count c) 1\<rparr>, AcqOccupiedCheck a)
      | AcqOccupiedCheck a \<Rightarrow>
          Some (c, if ie_completed (co_heap c ! a) then AcqGuard (follower_guard c key a)
                   else AcqOccupiedNotDone a)
      | AcqOccupiedNotDone a \<Rightarrow> Some (c, AcqOccupiedWaiting a (ie_notified (co_heap c ! a)))
      | _ \<Rightarrow> None)"

fun wake_pc :: "request_coalescer \<Rightarrow> acquire_pc \<Rightarrow> acquire_pc option" where
  \<comment> \<open>the wait ends with a notification\<close>
  "wake_pc c (AcqWaiting a n) = (if n < ie_notified (co_heap c ! a) then Some (AcqWoken a) else None)"
| "wake_pc c (AcqOccupiedWaiting a n) =
     (if n < ie_notified (co_heap c ! a) then Some AcqLookup else None)"
| "wake_pc c _ = None"

fun timeout_pc :: "acquire_pc \<Rightarrow> acquire_pc option" where
  \<comment> \<open>the wait ends with the follower timeout\<close>
  "timeout_pc (AcqWaiting a n) = Some (AcqErr CoTimeout)"
| "timeout_pc (AcqOccupiedWaiting a n) = Some (AcqErr CoTimeout)"
| "timeout_pc _ = None"

section \<open>Guards\<close>

definition update_entry ::
  "request_coalescer \<Rightarrow> nat \<Rightarrow> (inflight_entry \<Rightarrow> inflight_entry) \<Rightarrow> request_coalescer" where
  "update_entry c a f = c\<lparr>co_heap := (co_heap c)[a := f (co_heap c ! a)]\<rparr>"

definition complete_entry :: "inflight_entry \<Rightarrow> inflight_entry" where
  "complete_entry e = e\<lparr>ie_completed := True, ie_notified := ie_notified e + 1\<rparr>"

definition fail_entry :: "inflight_entry \<Rightarrow> inflight_entry" where
  "fail_entry e = complete_entry (e\<lparr>ie_failed := True\<rparr>)"

definition cg_mark_completed :: "request_coalescer \<Rightarrow> coalesce_guard \<Rightarrow> request_coalescer" where
  "cg_mark_completed c g = update_entry c (cg_entry g) complete_entry"

definition cg_mark_failed :: "request_coalescer \<Rightarrow> coalesce_guard \<Rightarrow> request_coalescer" where
  "cg_mark_failed c g = update_entry c (cg_entry g) fail_entry"

definition cg_leader_failed :: "request_coalescer \<Rightarrow> coalesce_guard \<Rightarrow> bool" where
  "cg_leader_failed c g = ie_failed (co_heap c ! cg_entry g)"

definition cg_drop_entry ::
  "request_coalescer \<Rightarrow> coalesce_guard \<Rightarrow> request_coalescer \<times> coalesce_guard \<times> acquire_pc"
where
  \<comment> \<open>dropping a guard up to the release of the counter: a leader that was not completed counts as
    failed, and the key is removed from the guard's own map\<close>
  "cg_drop_entry c g =
     (if cg_is_leader g then
        (if ie_completed (co_heap c ! cg_entry g) then c else update_entry c (cg_entry g) fail_entry,
         g\<lparr>cg_inflight := hm_remove (cg_inflight g) (cg_key g)\<rparr>,
         if cg_inflight_count g then AcqReleasing else AcqDropped)
      else (c, g, AcqDropped))"

definition cg_drop_count :: "request_coalescer \<Rightarrow> request_coalescer" where
  "cg_drop_count c = c\<lparr>co_inflight_count := wrap_sub 64 (co_inflight_count c) 1\<rparr>"

section \<open>Interleaving\<close>

record co_system =
  cs_co :: request_coalescer
  cs_tasks :: "(string \<times> acquire_pc) list"

abbreviation set_pc :: "co_system \<Rightarrow> nat \<Rightarrow> string \<Rightarrow> acquire_pc \<Rightarrow> (string \<times> acquire_pc) list" where
  "set_pc s i key pc \<equiv> (cs_tasks s)[i := (key, pc)]"

inductive co_step :: "co_system \<Rightarrow> nat \<Rightarrow> co_system \<Rightarrow> bool" where
  co_run: "i < length (cs_tasks s) \<Longrightarrow> cs_tasks s ! i = (key, pc) \<Longrightarrow>
     acquire_step (cs_co s) key pc = Some (c, pc') \<Longrightarrow>
     co_step s i \<lparr>cs_co = c, cs_tasks = set_pc s i key pc'\<rparr>"
| co_wake: "i < length (cs_tasks s) \<Longrightarrow> cs_tasks s ! i = (key, pc) \<Longrightarrow>
     wake_pc (cs_co s) pc = Some pc' \<Longrightarrow>
     co_step s i \<lparr>cs_co = cs_co s, cs_tasks = set_pc s i key pc'\<rparr>"
| co_timeout: "i < length (cs_tasks s) \<Longrightarrow> cs_tasks s ! i = (key, pc) \<Longrightarrow>
     timeout_pc pc = Some pc' \<Longrightarrow>
     co_step s i \<lparr>cs_co = cs_co s, cs_tasks = set_pc s i key pc'\<rparr>"
| co_completed: "i < length (cs_tasks s) \<Longrightarrow> cs_tasks s ! i = (key, AcqGuard g) \<Longrightarrow>
     co_step s i \<lparr>cs_co = cg_mark_completed (cs_co s) g, cs_tasks = cs_tasks s\<rparr>"
| co_failed: "i < length (cs_tasks s) \<Longrightarrow> cs_tasks s ! i = (key, AcqGuard g) \<Longrightarrow>
     co_step s i \<lparr>cs_co = cg_mark_failed (cs_co s) g, cs_tasks = cs_tasks s\<rparr>"
| co_drop: "i < length (cs_tasks s) \<Longrightarrow> cs_tasks s ! i = (key, AcqGuard g) \<Longrightarrow>
     cg_drop_entry (cs_co s) g = (c, g', pc') \<Longrightarrow>
     co_step s i \<lparr>cs_co = c, cs_tasks = set_pc s i key pc'\<rparr>"
| co_release: "i < length (cs_tasks s) \<Longrightarrow> cs_tasks s ! i = (key, AcqReleasing) \<Longrightarrow>
     co_step s i \<lparr>cs_co = cg_drop_count (cs_co s), cs_tasks = set_pc s i key AcqDropped\<rparr>"

definition co_init :: "co_system \<Rightarrow> bool" where
  \<comment> \<open>a new coalescer and any number of tasks about to acquire any keys\<close>
  "co_init s \<longleftrightarrow> (\<exists>mx t. cs_co s = co_with_config mx t) \<and>
     (\<forall>(key, pc) \<in> set (cs_tasks s). pc = AcqLookup) \<and> length (cs_tasks s) < 2 ^ 64"


section \<open>Invariant\<close>

fun admitted :: "acquire_pc \<Rightarrow> bool" where
  \<comment> \<open>the task passed the capacity check and still owns its slot of the counter\<close>
  "admitted AcqReserved = True"
| "admitted (AcqOccupied a) = True"
| "admitted AcqReleasing = True"
| "admitted (AcqGuard g) = cg_inflight_count g"
| "admitted _ = False"

definition holds_slot :: "acquire_pc \<Rightarrow> bool" where
  "holds_slot pc \<longleftrightarrow> pc = AcqOver \<or> admitted pc"

fun leads :: "acquire_pc \<Rightarrow> bool" where
  "leads (AcqGuard g) = cg_is_leader g"
| "leads _ = False"

fun task_ok :: "request_coalescer \<Rightarrow> string \<Rightarrow> acquire_pc \<Rightarrow> bool" where
  "task_ok c key (AcqFound a) = (a < length (co_heap c))"
| "task_ok c key (AcqNotDone a) = (a < length (co_heap c))"
| "task_ok c key (AcqWaiting a n) = (a < length (co_heap c))"
| "task_ok c key (AcqWoken a) = (a < length (co_heap c))"
| "task_ok c key (AcqOccupied a) = (a < length (co_heap c))"
| "task_ok c key (AcqOccupiedCheck a) = (a < length (co_heap c))"
| "task_ok c key (AcqOccupiedNotDone a) = (a < length (co_heap c))"
| "task_ok c key (AcqOccupiedWaiting a n) = (a < length (co_heap c))"
| "task_ok c key (AcqGuard g) =
     (cg_key g = key \<and> cg_entry g < length (co_heap c) \<and> cg_inflight_count g = cg_is_leader g \<and>
      (if cg_is_leader g then hm_get (co_inflight c) key = Some (cg_entry g)
       else ie_completed (co_heap c ! cg_entry g)))"
| "task_ok c key _ = True"

definition co_wf :: "request_coalescer \<Rightarrow> bool" where
  "co_wf c \<longleftrightarrow> (\<forall>k a. hm_get (co_inflight c) k = Some a \<longrightarrow> a < length (co_heap c))"

definition co_le :: "request_coalescer \<Rightarrow> request_coalescer \<Rightarrow> bool" where
  \<comment> \<open>what no step undoes: entries stay, stay completed and stay in the map\<close>
  "co_le c c' \<longleftrightarrow> length (co_heap c) \<le> length (co_heap c') \<and> co_max_inflight c' = co_max_inflight c \<and>
     (\<forall>a < length (co_heap c). (ie_completed (co_heap c ! a) \<longrightarrow> ie_completed (co_heap c' ! a)) \<and>
        (ie_failed (co_heap c ! a) \<longrightarrow> ie_failed (co_heap c' ! a))) \<and>
     (\<forall>k a. hm_get (co_inflight c) k = Some a \<longrightarrow> hm_get (co_inflight c') k = Some a)"

abbreviation tasks_in :: "(acquire_pc \<Rightarrow> bool) \<Rightarrow> (string \<times> acquire_pc) list \<Rightarrow> nat" where
  "tasks_in P ts \<equiv> length (filter (\<lambda>t. P (snd t)) ts)"

definition one_leader :: "(string \<times> acquire_pc) list \<Rightarrow> bool" where
  "one_leader ts \<longleftrightarrow> (\<forall>i < length ts. \<forall>j < length ts.
     leads (snd (ts ! i)) \<and> leads (snd (ts ! j)) \<and> fst (ts ! i) = fst (ts ! j) \<longrightarrow> i = j)"

definition co_inv :: "co_system \<Rightarrow> bool" where
  "co_inv s \<longleftrightarrow> co_wf (cs_co s) \<and> (\<forall>(key, pc) \<in> set (cs_tasks s). task_ok (cs_co s) key pc) \<and>
     one_leader (cs_tasks s) \<and> co_inflight_count (cs_co s) = tasks_in holds_slot (cs_tasks s) \<and>
     tasks_in admitted (cs_tasks s) \<le> co_max_inflight (cs_co s) \<and>
     length (cs_tasks s) < 2 ^ 64"

lemma co_le_refl [simp]: "co_le c c"
  by (simp add: co_le_def)

lemma co_le_count [simp]: "co_le c (c\<lparr>co_inflight_count := n\<rparr>)" "co_wf (c\<lparr>co_inflight_count := n\<rparr>) = co_wf c"
  by (simp_all add: co_le_def co_wf_def)

lemma task_ok_count [simp]: "task_ok (c\<lparr>co_inflight_count := n\<rparr>) key pc = task_ok c key pc"
  by (cases pc) simp_all

lemma task_ok_mono: "task_ok c key pc \<Longrightarrow> co_le c c' \<Longrightarrow> task_ok c' key pc"
  by (cases pc) (auto simp: co_le_def)

lemma co_le_update:
  assumes "\<And>e. ie_completed e \<longrightarrow> ie_completed (f e)" and "\<And>e. ie_failed e \<longrightarrow> ie_failed (f e)"
  shows "co_le c (update_entry c a f)"
  using assms by (auto simp: co_le_def update_entry_def nth_update_if)

lemma co_wf_update [simp]: "co_wf (update_entry c a f) = co_wf c"
  by (simp add: co_wf_def update_entry_def)

lemma count_update_entry [simp]: "co_inflight_count (update_entry c a f) = co_inflight_count c"
  by (simp add: update_entry_def)

lemma completes [simp]: "ie_completed (complete_entry e)" "ie_completed (fail_entry e)"
  "ie_failed (complete_entry e) = ie_failed e" "ie_failed (fail_entry e)"
  by (simp_all add: complete_entry_def fail_entry_def)

lemma co_claim_grows:
  assumes "co_wf c" and "co_claim c key = (c', pc')"
  shows "co_le c c' \<and> co_wf c' \<and> task_ok c' key pc' \<and> co_inflight_count c' = co_inflight_count c \<and>
    admitted pc' \<and> (leads pc' \<longrightarrow> hm_get (co_inflight c) key = None)"
  using assms by (auto simp: co_claim_def co_le_def co_wf_def nth_append Let_def less_Suc_eq
      split: option.splits if_splits)

lemma acquire_step_effect:
  assumes "acquire_step c key pc = Some (c', pc')" and "co_wf c" and "task_ok c key pc"
  shows "co_le c c' \<and> co_wf c' \<and> task_ok c' key pc' \<and>
    co_inflight_count c' =
      (if holds_slot pc' \<and> \<not> holds_slot pc then wrap_add 64 (co_inflight_count c) 1
       else if holds_slot pc \<and> \<not> holds_slot pc' then wrap_sub 64 (co_inflight_count c) 1
       else co_inflight_count c) \<and>
    (admitted pc' \<and> \<not> admitted pc \<longrightarrow> co_inflight_count c < co_max_inflight c) \<and>
    (leads pc' \<longrightarrow> hm_get (co_inflight c) key = None)"
proof (cases "pc = AcqReserved")
  case True
  then show ?thesis
    using assms(1) co_claim_grows [OF assms(2), of key c' pc'] by (auto simp: acquire_step_def holds_slot_def)
next
  case False
  then show ?thesis
    using assms
    by (auto simp: acquire_step_def holds_slot_def follower_guard_def co_wf_def
        split: acquire_pc.splits option.splits if_splits)
qed

lemma tasks_in_update:
  assumes "i < length ts"
  shows "tasks_in P (ts[i := t]) + (if P (snd (ts ! i)) then 1 else 0) =
    tasks_in P ts + (if P (snd t) then 1 else 0)"
proof -
  have "tasks_in P ts = tasks_in P (take i ts @ ts ! i # drop (Suc i) ts)"
    by (simp only: id_take_nth_drop [OF assms, symmetric])
  moreover have "ts[i := t] = take i ts @ t # drop (Suc i) ts" using assms by (rule upd_conv_take_nth_drop)
  ultimately show ?thesis by simp
qed


lemma one_leader_update:
  assumes "one_leader ts" and "fst (ts ! i) = key"
    and "leads pc \<Longrightarrow> \<not> leads (snd (ts ! i)) \<Longrightarrow>
      \<forall>j < length ts. leads (snd (ts ! j)) \<longrightarrow> fst (ts ! j) \<noteq> key"
  shows "one_leader (ts[i := (key, pc)])"
  using assms unfolding one_leader_def
  by (simp add: nth_update_if) (metis (no_types, lifting))

lemma co_inv_leader_mapped:
  assumes "co_inv s" and "j < length (cs_tasks s)" and "leads (snd (cs_tasks s ! j))"
  shows "hm_get (co_inflight (cs_co s)) (fst (cs_tasks s ! j)) \<noteq> None"
proof -
  have "case cs_tasks s ! j of (key, pc) \<Rightarrow> task_ok (cs_co s) key pc"
    using assms(1,2) by (auto simp: co_inv_def)
  then show ?thesis using assms(3) by (cases "cs_tasks s ! j"; cases "snd (cs_tasks s ! j)") auto
qed

lemma admitted_le_slots: "tasks_in admitted ts \<le> tasks_in holds_slot ts"
  by (induction ts) (auto simp: holds_slot_def)

lemma slot_count_update:
  assumes "i < length ts" and "ts ! i = (key, pc)" and "length ts < 2 ^ 64"
  shows "tasks_in holds_slot (ts[i := (key, pc')]) =
    (if holds_slot pc' \<and> \<not> holds_slot pc then wrap_add 64 (tasks_in holds_slot ts) 1
     else if holds_slot pc \<and> \<not> holds_slot pc' then wrap_sub 64 (tasks_in holds_slot ts) 1
     else tasks_in holds_slot ts)"
proof -
  have upd: "tasks_in holds_slot (ts[i := (key, pc')]) + (if holds_slot pc then 1 else 0) =
      tasks_in holds_slot ts + (if holds_slot pc' then 1 else 0)"
    using tasks_in_update [OF assms(1), of holds_slot "(key, pc')"] assms(2) by simp
  have le: "tasks_in holds_slot xs \<le> length xs" for xs by simp
  have small: "tasks_in holds_slot ts < 2 ^ 64" "tasks_in holds_slot (ts[i := (key, pc')]) < 2 ^ 64"
    using order.strict_trans1 [OF le [of ts] assms(3)] order.strict_trans1 [OF le, of "ts[i := (key, pc')]"]
      assms(3) by auto
  have "wrap_sub 64 (tasks_in holds_slot ts) 1 = tasks_in holds_slot ts - 1" if "1 \<le> tasks_in holds_slot ts"
    using that small(1) by (rule wrap_sub_exact)
  then show ?thesis
    using upd small by (auto simp: wrap_add_exact split: if_splits)
qed

lemma co_inv_task_step:
  assumes inv: "co_inv s" and i: "i < length (cs_tasks s)" "cs_tasks s ! i = (key, pc)"
    and c: "co_le (cs_co s) c" "co_wf c" and ok: "task_ok c key pc'"
    and count: "co_inflight_count c =
      (if holds_slot pc' \<and> \<not> holds_slot pc then wrap_add 64 (co_inflight_count (cs_co s)) 1
       else if holds_slot pc \<and> \<not> holds_slot pc' then wrap_sub 64 (co_inflight_count (cs_co s)) 1
       else co_inflight_count (cs_co s))"
    and adm: "admitted pc' \<and> \<not> admitted pc \<longrightarrow> co_inflight_count (cs_co s) < co_max_inflight (cs_co s)"
    and lead: "leads pc' \<longrightarrow> leads pc \<or> hm_get (co_inflight (cs_co s)) key = None"
  shows "co_inv \<lparr>cs_co = c, cs_tasks = set_pc s i key pc'\<rparr>"
proof -
  let ?ts = "cs_tasks s" and ?ts' = "set_pc s i key pc'"
  have oks: "\<forall>(k, q) \<in> set ?ts'. task_ok c k q"
  proof clarify
    fix k q assume "(k, q) \<in> set ?ts'"
    then have "(k, q) = (key, pc') \<or> (k, q) \<in> set ?ts" using set_update_subset_insert by fastforce
    then show "task_ok c k q" using ok inv task_ok_mono c(1) by (auto simp: co_inv_def)
  qed
  have "\<forall>j < length ?ts. leads (snd (?ts ! j)) \<longrightarrow> fst (?ts ! j) \<noteq> key" if "leads pc'" "\<not> leads pc"
    using co_inv_leader_mapped [OF inv] lead that by metis
  then have "one_leader ?ts'"
    using inv i by (intro one_leader_update) (simp_all add: co_inv_def)
  moreover have cnt: "co_inflight_count c = tasks_in holds_slot ?ts'"
    using slot_count_update [OF i, of pc'] inv count by (simp add: co_inv_def)
  moreover have "tasks_in admitted ?ts' \<le> co_max_inflight c"
    using tasks_in_update [OF i(1), of admitted "(key, pc')"] i(2) inv adm c(1)
      admitted_le_slots [of ?ts]
    by (auto simp: co_inv_def co_le_def split: if_splits)
  ultimately show ?thesis using oks c(2) inv by (simp add: co_inv_def)
qed


lemma co_inv_guard_step:
  assumes "co_inv s" and "co_le (cs_co s) c" and "co_wf c"
    and "co_inflight_count c = co_inflight_count (cs_co s)"
  shows "co_inv \<lparr>cs_co = c, cs_tasks = cs_tasks s\<rparr>"
  using assms task_ok_mono by (fastforce simp: co_inv_def co_le_def)

lemma co_step_inv:
  assumes "co_inv s" and "co_step s i s'"
  shows "co_inv s'"
  using assms(2)
proof cases
  case (co_run key pc c pc')
  then have "task_ok (cs_co s) key pc" "co_wf (cs_co s)"
    using assms(1) nth_mem [of i "cs_tasks s"] by (auto simp: co_inv_def)
  note eff = acquire_step_effect [OF co_run(4) this(2,1)]
  show ?thesis unfolding co_run(1)
    by (rule co_inv_task_step [OF assms(1) co_run(2,3)]) (use eff in simp_all)
next
  case (co_wake key pc pc')
  then have "task_ok (cs_co s) key pc" "co_wf (cs_co s)"
    using assms(1) nth_mem [of i "cs_tasks s"] by (auto simp: co_inv_def)
  then show ?thesis unfolding co_wake(1)
    by (intro co_inv_task_step [OF assms(1) co_wake(2,3)])
      (use co_wake(4) in \<open>cases pc; auto simp: holds_slot_def split: if_splits\<close>)+
next
  case (co_timeout key pc pc')
  then have "co_wf (cs_co s)" using assms(1) by (auto simp: co_inv_def)
  then show ?thesis unfolding co_timeout(1)
    by (intro co_inv_task_step [OF assms(1) co_timeout(2,3)])
      (use co_timeout(4) in \<open>cases pc; auto simp: holds_slot_def\<close>)+
next
  case (co_completed key g)
  then show ?thesis using assms(1)
    by (auto intro!: co_inv_guard_step co_le_update simp: cg_mark_completed_def co_inv_def [of s])
next
  case (co_failed key g)
  then show ?thesis using assms(1)
    by (auto intro!: co_inv_guard_step co_le_update simp: cg_mark_failed_def co_inv_def [of s])
next
  case (co_drop key g c g' pc')
  then have ok: "task_ok (cs_co s) key (AcqGuard g)" "co_wf (cs_co s)"
    using assms(1) nth_mem [of i "cs_tasks s"] by (auto simp: co_inv_def)
  have "co_le (cs_co s) c \<and> co_wf c \<and> co_inflight_count c = co_inflight_count (cs_co s) \<and>
      holds_slot pc' = holds_slot (AcqGuard g) \<and> admitted pc' = admitted (AcqGuard g) \<and> \<not> leads pc' \<and>
      task_ok c key pc'"
    using co_drop(4) ok by (auto simp: cg_drop_entry_def holds_slot_def intro!: co_le_update split: if_splits)
  then show ?thesis unfolding co_drop(1)
    by (intro co_inv_task_step [OF assms(1) co_drop(2,3)]) auto
next
  case (co_release key)
  then have "co_wf (cs_co s)" using assms(1) by (auto simp: co_inv_def)
  then show ?thesis unfolding co_release(1)
    by (intro co_inv_task_step [OF assms(1) co_release(2,3)]) (auto simp: cg_drop_count_def holds_slot_def)
qed

lemma co_step_grows:
  assumes "co_inv s" and "co_step s i t" and "j < length (cs_tasks s)"
  shows "co_le (cs_co s) (cs_co t) \<and> length (cs_tasks t) = length (cs_tasks s) \<and>
    fst (cs_tasks t ! j) = fst (cs_tasks s ! j) \<and>
    (leads (snd (cs_tasks t ! j)) \<longrightarrow> leads (snd (cs_tasks s ! j)) \<or>
       hm_get (co_inflight (cs_co s)) (fst (cs_tasks s ! j)) = None)"
  using assms(2)
proof cases
  case (co_run key pc c pc')
  then have "task_ok (cs_co s) key pc" "co_wf (cs_co s)"
    using assms(1) nth_mem [of i "cs_tasks s"] by (auto simp: co_inv_def)
  note eff = acquire_step_effect [OF co_run(4) this(2,1)]
  show ?thesis unfolding co_run(1) using eff co_run(2,3) by (auto simp: nth_update_if)
next
  case (co_wake key pc pc')
  then show ?thesis by (cases pc) (auto simp: nth_update_if split: if_splits)
next
  case (co_timeout key pc pc')
  then show ?thesis by (cases pc) (auto simp: nth_update_if)
next
  case (co_drop key g c g' pc')
  then have "\<not> leads pc'" "co_le (cs_co s) c"
    by (auto simp: cg_drop_entry_def intro!: co_le_update split: if_splits)
  then show ?thesis using co_drop(1-3) by (auto simp: nth_update_if)
qed (auto simp: cg_mark_completed_def cg_mark_failed_def cg_drop_count_def nth_update_if intro!: co_le_update)

interpretation co_sys: invariant_system co_init co_step co_inv
proof unfold_locales
  fix s assume init: "co_init s"
  have none: "tasks_in P ts = 0" if "\<forall>(key, pc) \<in> set ts. pc = AcqLookup" "\<not> P AcqLookup" for P ts
    using that by (induction ts) auto
  have lookup: "snd (cs_tasks s ! i) = AcqLookup" if "i < length (cs_tasks s)" for i
    using init nth_mem [OF that] by (fastforce simp: co_init_def)
  show "co_inv s"
    using init none [of "cs_tasks s" holds_slot] none [of "cs_tasks s" admitted]
    by (auto simp: co_init_def co_inv_def co_with_config_def co_wf_def one_leader_def lookup holds_slot_def)
qed (rule co_step_inv)


section \<open>Runs\<close>

inductive co_steps :: "co_system \<Rightarrow> co_system \<Rightarrow> bool" where
  co_done: "co_steps s s"
| co_more: "co_steps s t \<Longrightarrow> co_step t i u \<Longrightarrow> co_steps s u"

lemma co_steps_reachable: "co_steps s t \<Longrightarrow> reachable co_init co_step s \<Longrightarrow> reachable co_init co_step t"
  by (induction rule: co_steps.induct) (auto intro: reach_step)

datatype co_event = EvRun | EvWake | EvTimeout | EvCompleted | EvFailed | EvDrop | EvRelease

fun co_apply :: "co_system \<Rightarrow> nat \<Rightarrow> co_event \<Rightarrow> co_system option" where
  \<comment> \<open>the step relation as a function of the event\<close>
  "co_apply s i ev =
     (if i < length (cs_tasks s) then
        case cs_tasks s ! i of (key, pc) \<Rightarrow>
          (case ev of
             EvRun \<Rightarrow> map_option (\<lambda>(c, pc'). \<lparr>cs_co = c, cs_tasks = set_pc s i key pc'\<rparr>)
                        (acquire_step (cs_co s) key pc)
           | EvWake \<Rightarrow> map_option (\<lambda>pc'. \<lparr>cs_co = cs_co s, cs_tasks = set_pc s i key pc'\<rparr>)
                         (wake_pc (cs_co s) pc)
           | EvTimeout \<Rightarrow> map_option (\<lambda>pc'. \<lparr>cs_co = cs_co s, cs_tasks = set_pc s i key pc'\<rparr>)
                            (timeout_pc pc)
           | EvCompleted \<Rightarrow> (case pc of AcqGuard g \<Rightarrow>
               Some \<lparr>cs_co = cg_mark_completed (cs_co s) g, cs_tasks = cs_tasks s\<rparr> | _ \<Rightarrow> None)
           | EvFailed \<Rightarrow> (case pc of AcqGuard g \<Rightarrow>
               Some \<lparr>cs_co = cg_mark_failed (cs_co s) g, cs_tasks = cs_tasks s\<rparr> | _ \<Rightarrow> None)
           | EvDrop \<Rightarrow> (case pc of AcqGuard g \<Rightarrow>
               (case cg_drop_entry (cs_co s) g of (c, g', pc') \<Rightarrow>
                  Some \<lparr>cs_co = c, cs_tasks = set_pc s i key pc'\<rparr>) | _ \<Rightarrow> None)
           | EvRelease \<Rightarrow> (if pc = AcqReleasing then
               Some \<lparr>cs_co = cg_drop_count (cs_co s), cs_tasks = set_pc s i key AcqDropped\<rparr> else None))
      else None)"

declare co_apply.simps [simp del]

lemma co_step_iff: "co_step s i t \<longleftrightarrow> (\<exists>ev. co_apply s i ev = Some t)"
proof
  show "co_step s i t \<Longrightarrow> \<exists>ev. co_apply s i ev = Some t"
  proof (induction rule: co_step.induct)
    case (co_run i s key pc c pc')
    then show ?case by (intro exI [of _ EvRun]) (simp add: co_apply.simps)
  next
    case (co_wake i s key pc pc')
    then show ?case by (intro exI [of _ EvWake]) (simp add: co_apply.simps)
  next
    case (co_timeout i s key pc pc')
    then show ?case by (intro exI [of _ EvTimeout]) (simp add: co_apply.simps)
  next
    case (co_completed i s key g)
    then show ?case by (intro exI [of _ EvCompleted]) (simp add: co_apply.simps)
  next
    case (co_failed i s key g)
    then show ?case by (intro exI [of _ EvFailed]) (simp add: co_apply.simps)
  next
    case (co_drop i s key g c g' pc')
    then show ?case by (intro exI [of _ EvDrop]) (simp add: co_apply.simps)
  next
    case (co_release i s key)
    then show ?case by (intro exI [of _ EvRelease]) (simp add: co_apply.simps)
  qed
next
  assume "\<exists>ev. co_apply s i ev = Some t"
  then obtain ev where "co_apply s i ev = Some t" ..
  then show "co_step s i t"
    by (cases ev) (auto simp: co_apply.simps split: if_splits prod.splits acquire_pc.splits
        intro: co_step.intros)
qed

fun co_exec :: "co_system \<Rightarrow> (nat \<times> co_event) list \<Rightarrow> co_system option" where
  "co_exec s [] = Some s"
| "co_exec s ((i, ev) # es) =
     (case co_apply s i ev of Some t \<Rightarrow> co_exec t es | None \<Rightarrow> None)"

lemma co_steps_trans: "co_steps t u \<Longrightarrow> co_steps s t \<Longrightarrow> co_steps s u"
  by (induction rule: co_steps.induct) (auto intro: co_more)

lemma co_exec_steps: "co_exec s es = Some t \<Longrightarrow> co_steps s t"
proof (induction s es rule: co_exec.induct)
  case (2 s i ev es)
  then obtain u where "co_apply s i ev = Some u" "co_exec u es = Some t" by (auto split: option.splits)
  moreover have "co_steps s u" if "co_step s i u" using that by (rule co_more [OF co_done])
  ultimately show ?case using 2 co_step_iff co_steps_trans by blast
qed (simp add: co_done)

definition two_requests :: co_system where
  "two_requests = \<lparr>cs_co = co_new, cs_tasks = [(''k'', AcqLookup), (''k'', AcqLookup)]\<rparr>"

lemma two_requests_init: "co_init two_requests"
  by (auto simp: two_requests_def co_init_def co_new_def)

lemma two_requests_reachable: "co_exec two_requests es = Some t \<Longrightarrow> reachable co_init co_step t"
  using co_exec_steps co_steps_reachable reach_init [where init = co_init] two_requests_init by blast

lemmas co_eval = co_apply.simps acquire_step_def co_claim_def follower_guard_def cg_mark_completed_def
  cg_mark_failed_def cg_drop_entry_def cg_drop_count_def update_entry_def complete_entry_def
  fail_entry_def co_new_def co_with_config_def two_requests_def wrap_add_def wrap_sub_def
  hm_get_def hm_insert_def

section \<open>Properties\<close>

text \<open>
  C6. In every interleaving a key has at most one live leader, at most the configured number of
  leaders is alive, and a follower's guard always belongs to an entry its leader has completed.
\<close>

theorem coalescing_single_leader:
  assumes "reachable co_init co_step s"
  shows "(\<forall>i < length (cs_tasks s). \<forall>j < length (cs_tasks s).
       leads (snd (cs_tasks s ! i)) \<and> leads (snd (cs_tasks s ! j)) \<and>
       fst (cs_tasks s ! i) = fst (cs_tasks s ! j) \<longrightarrow> i = j) \<and>
    tasks_in leads (cs_tasks s) \<le> co_max_inflight (cs_co s) \<and>
    (\<forall>(key, pc) \<in> set (cs_tasks s). \<forall>g. pc = AcqGuard g \<and> \<not> cg_is_leader g \<longrightarrow>
       ie_completed (co_heap (cs_co s) ! cg_entry g))"
proof -
  note inv = co_sys.reachable_inv [OF assms]
  have lead_adm: "admitted pc" if "(key, pc) \<in> set (cs_tasks s)" "leads pc" for key pc
    using inv that by (cases pc) (auto simp: co_inv_def)
  have "filter (\<lambda>t. leads (snd t)) (cs_tasks s) =
      filter (\<lambda>t. leads (snd t)) (filter (\<lambda>t. admitted (snd t)) (cs_tasks s))"
    unfolding filter_filter by (rule filter_cong) (use lead_adm in \<open>auto simp: prod_eq_iff\<close>)
  then have "tasks_in leads (cs_tasks s) \<le> tasks_in admitted (cs_tasks s)"
    by (metis length_filter_le)
  then show ?thesis
    using inv unfolding co_inv_def one_leader_def by (auto simp del: length_filter_le)
qed

theorem coalescing_single_leader_witness:
  "\<exists>s. co_exec two_requests [(0, EvRun), (1, EvRun), (0, EvRun), (0, EvRun)] = Some s \<and>
     leads (snd (cs_tasks s ! 0)) \<and> tasks_in leads (cs_tasks s) \<le> 1000"
proof -
  let ?es = "[(0, EvRun), (1, EvRun), (0, EvRun), (0, EvRun)]"
  have "case co_exec two_requests ?es of Some s \<Rightarrow> leads (snd (cs_tasks s ! 0)) \<and>
      co_max_inflight (cs_co s) = 1000 | None \<Rightarrow> False"
    by (simp add: co_eval)
  then obtain s where s: "co_exec two_requests ?es = Some s" "leads (snd (cs_tasks s ! 0))"
    "co_max_inflight (cs_co s) = 1000"
    by (auto split: option.splits)
  show ?thesis
    using s coalescing_single_leader [OF two_requests_reachable [OF s(1)]] by auto
qed

text \<open>
  A key never gets a second leader. Once a key has an entry it keeps that entry in whatever
  happens next, the completion and the drop of its leader included (a guard removes the key from
  its own copy of the map), and no task for the key that does not lead already ever becomes its
  leader; a failed leader leaves its failure to every later request for the key.
\<close>

theorem coalescing_key_never_leads_again:
  assumes "reachable co_init co_step s" and "hm_get (co_inflight (cs_co s)) key = Some a"
    and "j < length (cs_tasks s)" and "fst (cs_tasks s ! j) = key" and "\<not> leads (snd (cs_tasks s ! j))"
    and "co_steps s t"
  shows "hm_get (co_inflight (cs_co t)) key = Some a \<and> \<not> leads (snd (cs_tasks t ! j)) \<and>
    (ie_failed (co_heap (cs_co s) ! a) \<longrightarrow> ie_failed (co_heap (cs_co t) ! a))"
proof -
  have "length (cs_tasks t) = length (cs_tasks s) \<and> fst (cs_tasks t ! j) = key \<and>
    hm_get (co_inflight (cs_co t)) key = Some a \<and> \<not> leads (snd (cs_tasks t ! j)) \<and>
    (ie_failed (co_heap (cs_co s) ! a) \<longrightarrow> ie_failed (co_heap (cs_co t) ! a))"
    using assms(6,1-5)
  proof (induction rule: co_steps.induct)
    case (co_more s t i u)
    then have inv: "co_inv t" using co_sys.reachable_inv co_steps_reachable by blast
    then have "a < length (co_heap (cs_co t))" using co_more by (auto simp: co_inv_def co_wf_def)
    then show ?case using co_step_grows [OF inv co_more.hyps(2), of j] co_more
      by (auto simp: co_le_def)
  qed simp
  then show ?thesis by blast
qed


theorem coalescing_key_never_leads_again_witness:
  "\<exists>s. co_exec two_requests [(0, EvRun), (0, EvRun), (0, EvRun), (0, EvDrop), (0, EvRelease)] = Some s \<and>
     co_is_empty (cs_co s) \<and> (\<forall>t. co_steps s t \<longrightarrow> \<not> leads (snd (cs_tasks t ! 1)))"
proof -
  let ?es = "[(0, EvRun), (0, EvRun), (0, EvRun), (0, EvDrop), (0, EvRelease)]"
  have "case co_exec two_requests ?es of Some s \<Rightarrow> hm_get (co_inflight (cs_co s)) ''k'' = Some 0 \<and>
      cs_tasks s = [(''k'', AcqDropped), (''k'', AcqLookup)] \<and> co_is_empty (cs_co s) | None \<Rightarrow> False"
    by (simp add: co_eval co_is_empty_def)
  then obtain s where s: "co_exec two_requests ?es = Some s" "hm_get (co_inflight (cs_co s)) ''k'' = Some 0"
    "cs_tasks s = [(''k'', AcqDropped), (''k'', AcqLookup)]" "co_is_empty (cs_co s)"
    by (auto split: option.splits)
  have "\<not> leads (snd (cs_tasks t ! 1))" if "co_steps s t" for t
    using coalescing_key_never_leads_again [OF two_requests_reachable [OF s(1)] s(2), of 1 t] s(3) that
    by simp
  then show ?thesis using s(1,4) by blast
qed

text \<open>
  A wake-up can be lost. There is an interleaving in which a follower finds the entry not yet
  completed, the leader completes it, notifies and leaves, and only then the follower starts to
  wait: its request is over successfully, and yet the only step left is the follower's timeout.
\<close>

theorem coalescing_wakeup_lost:
  "\<exists>s. reachable co_init co_step s \<and> snd (cs_tasks s ! 1) = AcqWaiting 0 1 \<and>
     ie_completed (co_heap (cs_co s) ! 0) \<and> \<not> ie_failed (co_heap (cs_co s) ! 0) \<and>
     {(i, cs_tasks t ! 1) | i t. co_step s i t} = {(1, ''k'', AcqErr CoTimeout)}"
proof -
  let ?es = "[(0, EvRun), (0, EvRun), (0, EvRun), (1, EvRun), (1, EvRun), (0, EvCompleted), (0, EvDrop),
    (0, EvRelease), (1, EvRun)]"
  have "case co_exec two_requests ?es of Some s \<Rightarrow>
      co_heap (cs_co s) = [\<lparr>ie_notified = 1, ie_completed = True, ie_failed = False\<rparr>] \<and>
      cs_tasks s = [(''k'', AcqDropped), (''k'', AcqWaiting 0 1)] | None \<Rightarrow> False"
    by (simp add: co_eval)
  then obtain s where s: "co_exec two_requests ?es = Some s"
    "co_heap (cs_co s) = [\<lparr>ie_notified = 1, ie_completed = True, ie_failed = False\<rparr>]"
    "cs_tasks s = [(''k'', AcqDropped), (''k'', AcqWaiting 0 1)]"
    by (auto split: option.splits)
  have "co_apply s 1 EvTimeout \<noteq> None" by (simp add: co_apply.simps s(3))
  then have ex: "\<exists>i t. co_step s i t" using co_step_iff by blast
  have "i = 1 \<and> cs_tasks t ! 1 = (''k'', AcqErr CoTimeout)" if "co_step s i t" for i t
  proof -
    obtain ev where ev: "co_apply s i ev = Some t" using \<open>co_step s i t\<close> co_step_iff by blast
    then have "i < 2" by (auto simp: co_apply.simps s(3) split: if_splits)
    then have "i = 0 \<or> i = 1" by auto
    then show ?thesis
      using ev by (cases ev) (auto simp: co_apply.simps s(2,3) acquire_step_def)
  qed
  note only = this
  obtain i t where "co_step s i t" using ex by blast
  then have "(1, ''k'', AcqErr CoTimeout) \<in> {(i, cs_tasks t ! 1) | i t. co_step s i t}"
    using only [of i t] by (intro CollectI exI [of _ i] exI [of _ t]) simp
  moreover have "{(i, cs_tasks t ! 1) | i t. co_step s i t} \<subseteq> {(1, ''k'', AcqErr CoTimeout)}"
    using only by (clarsimp simp del: One_nat_def)
  ultimately have "{(i, cs_tasks t ! 1) | i t. co_step s i t} = {(1, ''k'', AcqErr CoTimeout)}"
    by (intro subset_antisym) simp_all
  then show ?thesis
    using two_requests_reachable [OF s(1)] s(2,3) by (intro exI [of _ s]) simp
qed

end
