(* ===== verification/CacheKey.thy ===== *)
theory CacheKey
  imports Json
begin

text \<open>
  Cache keys, \<^verbatim>\<open>crates/crab-cache/src/key.rs\<close>: stripping and normalising a request body, the
  canonical serialisation and the hash. Escaping a string and printing a number (serde_json), NFC
  normalisation and the SHA-256 hex digest are not part of the repository: they are the arguments
  \<open>esc\<close>, \<open>num\<close>, \<open>nfc\<close> and \<open>sha\<close>. The canonical form is proved to be injective up to the order of
  object keys.
\<close>

section \<open>Fingerprint configuration\<close>

definition stripped_fields :: "string list" where
  "stripped_fields = [''temperature'', ''top_p'', ''frequency_penalty'', ''presence_penalty'']"

record fingerprint_config =
  fc_version :: nat
  fc_normalize_content :: bool

definition fingerprint_legacy :: fingerprint_config where
  "fingerprint_legacy = \<lparr>fc_version = 0, fc_normalize_content = False\<rparr>"

definition fingerprint_default_v1 :: fingerprint_config where
  "fingerprint_default_v1 = \<lparr>fc_version = 1, fc_normalize_content = True\<rparr>"

section \<open>Normalisation\<close>

fun replace_crlf :: "string \<Rightarrow> string" where
  "replace_crlf (CHR 0x0D # CHR 0x0A # s) = CHR 0x0A # replace_crlf s"
| "replace_crlf (c # s) = c # replace_crlf s"
| "replace_crlf [] = []"

definition normalize_content_string :: "(string \<Rightarrow> string) \<Rightarrow> string \<Rightarrow> string" where
  "normalize_content_string nfc s = nfc (trim (replace_crlf s))"

definition modify_field :: "string \<Rightarrow> (json \<Rightarrow> json) \<Rightarrow> (string \<times> json) list \<Rightarrow> (string \<times> json) list" where
  \<comment> \<open>\<open>get_mut\<close> on an object\<close>
  "modify_field field f = map (\<lambda>(k, v). (k, if k = field then f v else v))"

fun normalize_string :: "(string \<Rightarrow> string) \<Rightarrow> json \<Rightarrow> json" where
  "normalize_string nfc (JStr s) = JStr (normalize_content_string nfc s)"
| "normalize_string nfc v = v"

fun normalize_part :: "(string \<Rightarrow> string) \<Rightarrow> json \<Rightarrow> json" where
  "normalize_part nfc (JObj part) =
     JObj (modify_field ''input_text'' (normalize_string nfc)
       (modify_field ''text'' (normalize_string nfc) part))"
| "normalize_part nfc v = v"

fun normalize_content :: "(string \<Rightarrow> string) \<Rightarrow> json \<Rightarrow> json" where
  "normalize_content nfc (JStr s) = JStr (normalize_content_string nfc s)"
| "normalize_content nfc (JArr parts) = JArr (map (normalize_part nfc) parts)"
| "normalize_content nfc v = v"

fun normalize_message :: "(string \<Rightarrow> string) \<Rightarrow> json \<Rightarrow> json" where
  "normalize_message nfc (JObj msg) = JObj (modify_field ''content'' (normalize_content nfc) msg)"
| "normalize_message nfc v = v"

fun normalize_messages :: "(string \<Rightarrow> string) \<Rightarrow> json \<Rightarrow> json" where
  "normalize_messages nfc (JArr messages) = JArr (map (normalize_message nfc) messages)"
| "normalize_messages nfc v = v"

definition normalize_for_fingerprint :: "(string \<Rightarrow> string) \<Rightarrow> json \<Rightarrow> fingerprint_config \<Rightarrow> json" where
  "normalize_for_fingerprint nfc value config =
     (if \<not> fc_normalize_content config then value
      else case value of
             JObj obj \<Rightarrow> JObj (modify_field ''messages'' (normalize_messages nfc) obj)
           | _ \<Rightarrow> value)"

definition strip_fields :: "json \<Rightarrow> json" where
  "strip_fields value =
     (case value of JObj obj \<Rightarrow> JObj (foldl hm_remove obj stripped_fields) | _ \<Rightarrow> value)"

definition prepare_value_for_fingerprint ::
  "(string \<Rightarrow> string) \<Rightarrow> json \<Rightarrow> fingerprint_config \<Rightarrow> json" where
  "prepare_value_for_fingerprint nfc value config =
     (case normalize_for_fingerprint nfc (strip_fields value) config of
        JObj obj \<Rightarrow> JObj (hm_insert obj ''__crab_fp_version'' (JInt (int (fc_version config))))
      | v \<Rightarrow> v)"

section \<open>Canonical serialisation\<close>

fun sep_concat :: "string list \<Rightarrow> string" where
  \<comment> \<open>a comma before every element but the first\<close>
  "sep_concat [] = []"
| "sep_concat [x] = x"
| "sep_concat (x # y # xs) = x @ '','' @ sep_concat (y # xs)"

fun canonical_write :: "(string \<Rightarrow> string) \<Rightarrow> (json \<Rightarrow> string) \<Rightarrow> json \<Rightarrow> string" where
  "canonical_write esc num (JObj kvs) =
     ''{'' @ sep_concat (map (\<lambda>(k, s). [CHR 0x22] @ butlast (tl (esc k)) @ [CHR 0x22] @ '':'' @ s)
       (sort_key fst (map (\<lambda>(k, v). (k, canonical_write esc num v)) kvs))) @ ''}''"
| "canonical_write esc num (JArr vs) =
     ''['' @ sep_concat (map (canonical_write esc num) vs) @ '']''"
| "canonical_write esc num (JStr s) = esc s"
| "canonical_write esc num (JInt n) = num (JInt n)"
| "canonical_write esc num (JFloat q) = num (JFloat q)"
| "canonical_write esc num (JBool b) = (if b then ''true'' else ''false'')"
| "canonical_write esc num JNull = ''null''"

section \<open>Cache keys\<close>

definition fingerprint_hash_normalized_value ::
  "(string \<Rightarrow> string) \<Rightarrow> (json \<Rightarrow> string) \<Rightarrow> (string \<Rightarrow> string) \<Rightarrow> json \<Rightarrow> string" where
  "fingerprint_hash_normalized_value esc num sha value = sha (canonical_write esc num value)"

definition generate_cache_key_from_value ::
  "(string \<Rightarrow> string) \<Rightarrow> (json \<Rightarrow> string) \<Rightarrow> (string \<Rightarrow> string) \<Rightarrow> (string \<Rightarrow> string) \<Rightarrow> json
     \<Rightarrow> fingerprint_config \<Rightarrow> string"
where
  "generate_cache_key_from_value esc num nfc sha value config =
     fingerprint_hash_normalized_value esc num sha (prepare_value_for_fingerprint nfc value config)"

definition namespaced_fingerprint_key :: "string \<Rightarrow> string option \<Rightarrow> string" where
  "namespaced_fingerprint_key base namespace =
     (case namespace of
        Some ns \<Rightarrow> if ns \<noteq> [] then ns @ '':'' @ base else base
      | None \<Rightarrow> base)"

definition generate_namespaced_cache_key_from_value ::
  "(string \<Rightarrow> string) \<Rightarrow> (json \<Rightarrow> string) \<Rightarrow> (string \<Rightarrow> string) \<Rightarrow> (string \<Rightarrow> string) \<Rightarrow> json
     \<Rightarrow> string option \<Rightarrow> fingerprint_config \<Rightarrow> string"
where
  "generate_namespaced_cache_key_from_value esc num nfc sha value namespace config =
     namespaced_fingerprint_key (generate_cache_key_from_value esc num nfc sha value config) namespace"

definition generate_cache_key_with_fingerprint ::
  "(string \<Rightarrow> string) \<Rightarrow> (json \<Rightarrow> string) \<Rightarrow> (string \<Rightarrow> string) \<Rightarrow> (string \<Rightarrow> string) \<Rightarrow> json_parser
     \<Rightarrow> string \<Rightarrow> fingerprint_config \<Rightarrow> string option"
where
  \<comment> \<open>\<open>None\<close>: the body is not JSON\<close>
  "generate_cache_key_with_fingerprint esc num nfc sha parse body config =
     map_option (\<lambda>value. generate_cache_key_from_value esc num nfc sha value config) (parse body)"

definition generate_namespaced_cache_key_with_fingerprint ::
  "(string \<Rightarrow> string) \<Rightarrow> (json \<Rightarrow> string) \<Rightarrow> (string \<Rightarrow> string) \<Rightarrow> (string \<Rightarrow> string) \<Rightarrow> json_parser
     \<Rightarrow> string \<Rightarrow> string option \<Rightarrow> fingerprint_config \<Rightarrow> string option"
where
  "generate_namespaced_cache_key_with_fingerprint esc num nfc sha parse body namespace config =
     map_option (\<lambda>base. namespaced_fingerprint_key base namespace)
       (generate_cache_key_with_fingerprint esc num nfc sha parse body config)"

definition hash_system_messages ::
  "(string \<Rightarrow> string) \<Rightarrow> (json \<Rightarrow> string) \<Rightarrow> (string \<Rightarrow> string) \<Rightarrow> json \<Rightarrow> string" where
  "hash_system_messages esc num sha value =
     (case Option.bind (json_get value ''messages'') as_array of
        None \<Rightarrow> ''none''
      | Some messages \<Rightarrow>
          let system_msgs = filter (has_role ''system'') messages
          in if system_msgs = [] then ''none''
             else take 12 (sha (concat (map (canonical_write esc num) system_msgs))))"

definition hash_tools ::
  "(string \<Rightarrow> string) \<Rightarrow> (json \<Rightarrow> string) \<Rightarrow> (string \<Rightarrow> string) \<Rightarrow> json \<Rightarrow> string" where
  "hash_tools esc num sha value =
     (case json_get value ''tools'' of
        Some (JArr tools) \<Rightarrow>
          if tools = [] then ''none'' else take 12 (sha (canonical_write esc num (JArr tools)))
      | _ \<Rightarrow> ''none'')"

definition hash_conversation_messages ::
  "(string \<Rightarrow> string) \<Rightarrow> (json \<Rightarrow> string) \<Rightarrow> (string \<Rightarrow> string) \<Rightarrow> json \<Rightarrow> string" where
  "hash_conversation_messages esc num sha value =
     (case Option.bind (json_get value ''messages'') as_array of
        None \<Rightarrow> ''empty''
      | Some messages \<Rightarrow>
          let non_system = filter (\<lambda>m. \<not> has_role ''system'' m) messages
          in if non_system = [] then ''empty''
             else sha (concat (map (canonical_write esc num) non_system)))"

definition generate_composite_cache_key_from_value ::
  "(string \<Rightarrow> string) \<Rightarrow> (json \<Rightarrow> string) \<Rightarrow> (string \<Rightarrow> string) \<Rightarrow> (string \<Rightarrow> string) \<Rightarrow> json
     \<Rightarrow> string option \<Rightarrow> fingerprint_config \<Rightarrow> string"
where
  "generate_composite_cache_key_from_value esc num nfc sha value namespace config =
     (let v = normalize_for_fingerprint nfc (strip_fields value) config;
          key = show_nat (fc_version config) @ '':'' @ hash_system_messages esc num sha v @ '':'' @
                hash_tools esc num sha v @ '':'' @ hash_conversation_messages esc num sha v
      in case namespace of
           Some ns \<Rightarrow> if ns \<noteq> [] then ns @ '':'' @ key else key
         | None \<Rightarrow> key)"


definition generate_cache_key ::
  "(string \<Rightarrow> string) \<Rightarrow> (json \<Rightarrow> string) \<Rightarrow> (string \<Rightarrow> string) \<Rightarrow> (string \<Rightarrow> string) \<Rightarrow> json_parser
     \<Rightarrow> string \<Rightarrow> string option"
where
  "generate_cache_key esc num nfc sha parse body =
     generate_cache_key_with_fingerprint esc num nfc sha parse body fingerprint_legacy"

definition generate_namespaced_cache_key ::
  "(string \<Rightarrow> string) \<Rightarrow> (json \<Rightarrow> string) \<Rightarrow> (string \<Rightarrow> string) \<Rightarrow> (string \<Rightarrow> string) \<Rightarrow> json_parser
     \<Rightarrow> string \<Rightarrow> string option \<Rightarrow> string option"
where
  "generate_namespaced_cache_key esc num nfc sha parse body namespace =
     generate_namespaced_cache_key_with_fingerprint esc num nfc sha parse body namespace fingerprint_legacy"

definition generate_composite_cache_key ::
  "(string \<Rightarrow> string) \<Rightarrow> (json \<Rightarrow> string) \<Rightarrow> (string \<Rightarrow> string) \<Rightarrow> (string \<Rightarrow> string) \<Rightarrow> json_parser
     \<Rightarrow> string \<Rightarrow> string option \<Rightarrow> fingerprint_config \<Rightarrow> string option"
where
  "generate_composite_cache_key esc num nfc sha parse body namespace config =
     map_option (\<lambda>value. generate_composite_cache_key_from_value esc num nfc sha value namespace config)
       (parse body)"

section \<open>Canonical order\<close>

fun json_sorted :: "json \<Rightarrow> json" where
  \<comment> \<open>the value with the keys of every object in order\<close>
  "json_sorted (JObj kvs) = JObj (sort_key fst (map (\<lambda>(k, v). (k, json_sorted v)) kvs))"
| "json_sorted (JArr vs) = JArr (map json_sorted vs)"
| "json_sorted v = v"

fun plain_write :: "(string \<Rightarrow> string) \<Rightarrow> (json \<Rightarrow> string) \<Rightarrow> json \<Rightarrow> string" where
  \<comment> \<open>serialisation in the order of the value itself\<close>
  "plain_write esc num (JObj kvs) =
     ''{'' @ sep_concat (map (\<lambda>(k, v). esc k @ '':'' @ plain_write esc num v) kvs) @ ''}''"
| "plain_write esc num (JArr vs) = ''['' @ sep_concat (map (plain_write esc num) vs) @ '']''"
| "plain_write esc num (JStr s) = esc s"
| "plain_write esc num (JInt n) = num (JInt n)"
| "plain_write esc num (JFloat q) = num (JFloat q)"
| "plain_write esc num (JBool b) = (if b then ''true'' else ''false'')"
| "plain_write esc num JNull = ''null''"

lemma insort_key_fst_map:
  "insort_key fst (k, g v) (map (\<lambda>(k, v). (k, g v)) kvs) =
     map (\<lambda>(k, v). (k, g v)) (insort_key fst (k, v) kvs)"
  by (induction kvs) auto

lemma sort_key_fst_map:
  "sort_key fst (map (\<lambda>(k, v). (k, g v)) kvs) = map (\<lambda>(k, v). (k, g v)) (sort_key fst kvs)"
  by (induction kvs) (auto simp: insort_key_fst_map)

definition quoted :: "string \<Rightarrow> bool" where
  "quoted s \<longleftrightarrow> (\<exists>t. s = [CHR 0x22] @ t @ [CHR 0x22])"

lemma canonical_write_sorted:
  assumes "\<And>s. quoted (esc s)"
  shows "canonical_write esc num v = plain_write esc num (json_sorted v)"
proof (induction v)
  case (JObj kvs)
  have q: "[CHR 0x22] @ butlast (tl (esc k)) @ [CHR 0x22] @ '':'' @ s = esc k @ '':'' @ s" for k s
    using assms [of k] by (auto simp: quoted_def butlast_append)
  have "map (\<lambda>(k, v). (k, canonical_write esc num v)) kvs =
      map (\<lambda>(k, v). (k, plain_write esc num v)) (map (\<lambda>(k, v). (k, json_sorted v)) kvs)"
    using JObj by fastforce
  then show ?case
    unfolding canonical_write.simps json_sorted.simps plain_write.simps q
    by (simp only: sort_key_fst_map) (simp add: comp_def case_prod_beta)
qed (auto simp: comp_def cong: map_cong)

section \<open>Reading back\<close>

definition ends_token :: "string \<Rightarrow> bool" where
  "ends_token s \<longleftrightarrow> s = [] \<or> hd s \<in> {CHR '','', CHR ''}'', CHR '']''}"

definition number_char :: "char \<Rightarrow> bool" where
  "number_char c \<longleftrightarrow> parse_digit c \<noteq> None \<or> c \<in> {CHR ''+'', CHR ''-'', CHR ''.'', CHR ''e'', CHR ''E''}"

fun is_number :: "json \<Rightarrow> bool" where
  "is_number (JInt n) = True"
| "is_number (JFloat q) = True"
| "is_number v = False"

definition serializer_ok :: "(string \<Rightarrow> string) \<Rightarrow> (json \<Rightarrow> string) \<Rightarrow> bool" where
  \<comment> \<open>what serde_json documents: a string is written as a JSON string literal, which ends at its
    closing quote, and a number as a JSON number from which it can be read back\<close>
  "serializer_ok esc num \<longleftrightarrow>
     (\<forall>s. quoted (esc s)) \<and>
     (\<forall>s t x y. esc s @ x = esc t @ y \<longrightarrow> s = t) \<and>
     (\<forall>v. is_number v \<longrightarrow> num v \<noteq> [] \<and> (\<forall>c \<in> set (num v). number_char c)) \<and>
     inj_on num {v. is_number v}"

lemma sep_concat_Cons: "xs \<noteq> [] \<Longrightarrow> sep_concat (x # xs) = x @ '','' @ sep_concat xs"
  by (cases xs) auto

lemma sep_concat_decode:
  assumes "\<And>a b x y. a \<in> set as \<Longrightarrow> ends_token x \<Longrightarrow> ends_token y \<Longrightarrow> f a @ x = f b @ y \<Longrightarrow> a = b \<and> x = y"
    and "\<And>a. f a \<noteq> [] \<and> hd (f a) \<noteq> close" and "close \<in> {CHR ''}'', CHR '']''}"
    and "sep_concat (map f as) @ close # x = sep_concat (map f bs) @ close # y"
  shows "as = bs \<and> x = y"
  using assms(1,4)
proof (induction as arbitrary: bs)
  case Nil
  show ?case
  proof (cases bs)
    case (Cons b bs')
    then have "hd (sep_concat (map f bs) @ close # y) = hd (f b)"
      using assms(2) [of b] by (cases bs') auto
    then show ?thesis using Nil.prems(2) assms(2) [of b] by (metis append_Nil list.sel(1) list.simps(8) sep_concat.simps(1))
  qed (use Nil in simp)
next
  case (Cons a as)
  let ?rest = "\<lambda>zs z. if zs = [] then close # z else '','' @ sep_concat (map f zs) @ close # z"
  have split: "sep_concat (map f (c # zs)) @ close # z = f c @ ?rest zs z" for c zs z
    by (cases "zs = []") (simp_all add: sep_concat_Cons)
  have ends: "ends_token (?rest zs z)" for zs z
    using assms(3) by (auto simp: ends_token_def)
  show ?case
  proof (cases bs)
    case Nil
    then show ?thesis using Cons.prems(2) split [of a as x] assms(2) [of a]
      by (metis append_Nil hd_append2 list.sel(1) list.simps(8) sep_concat.simps(1))
  next
    case (Cons b bs')
    have eq: "f a @ ?rest as x = f b @ ?rest bs' y"
      using Cons.prems(2) \<open>bs = b # bs'\<close> split by metis
    have ab: "a = b" "?rest as x = ?rest bs' y"
      using Cons.prems(1) [OF _ ends ends eq] by simp_all
    have "as = bs' \<and> x = y"
    proof (cases "as = [] \<or> bs' = []")
      case True
      then show ?thesis using ab(2) assms(3) by (auto split: if_splits)
    next
      case False
      then have "sep_concat (map f as) @ close # x = sep_concat (map f bs') @ close # y"
        using ab(2) by simp
      then show ?thesis using Cons.IH Cons.prems(1) by (metis list.set_intros(2))
    qed
    then show ?thesis using ab(1) Cons by simp
  qed
qed


lemma esc_shape:
  assumes "serializer_ok esc num"
  obtains t where "esc s = CHR 0x22 # t"
proof -
  have "quoted (esc s)" using assms by (simp add: serializer_ok_def)
  then show ?thesis using that by (auto simp: quoted_def)
qed

lemma esc_decode:
  assumes "serializer_ok esc num" and "esc s @ x = esc t @ y"
  shows "s = t \<and> x = y"
proof -
  have "s = t" using assms unfolding serializer_ok_def by blast
  then show ?thesis using assms(2) by simp
qed

lemma num_shape:
  assumes "serializer_ok esc num" and "is_number v"
  obtains c t where "num v = c # t" "number_char c"
  using assms by (cases "num v") (auto simp: serializer_ok_def)

lemma num_decode:
  assumes ok: "serializer_ok esc num" and n: "is_number v" "is_number w"
    and e: "ends_token x" "ends_token y" and eq: "num v @ x = num w @ y"
  shows "v = w \<and> x = y"
proof -
  have "takeWhile number_char (num u @ z) = num u" if "is_number u" "ends_token z" for u z
  proof -
    have "\<forall>c \<in> set (num u). number_char c" using ok that by (auto simp: serializer_ok_def)
    moreover have "takeWhile number_char z = []"
      using that(2) by (cases z) (auto simp: ends_token_def number_char_def parse_digit_def less_eq_char_def)
    ultimately show ?thesis by (simp add: takeWhile_append2)
  qed
  then have "num v = num w" using n e eq by metis
  then show ?thesis using ok n eq by (auto simp: serializer_ok_def inj_on_def)
qed

lemma plain_write_lead:
  assumes ok: "serializer_ok esc num"
  shows "\<exists>c t. plain_write esc num v = c # t \<and> c \<notin> {CHR '','', CHR ''}'', CHR '']'', CHR '':''} \<and>
    (case v of JObj _ \<Rightarrow> c = CHR ''{'' | JArr _ \<Rightarrow> c = CHR ''['' | JStr _ \<Rightarrow> c = CHR 0x22
     | JNull \<Rightarrow> c = CHR ''n'' | JBool b \<Rightarrow> c = (if b then CHR ''t'' else CHR ''f'') | _ \<Rightarrow> number_char c)"
proof (cases v)
  case (JStr s)
  obtain t where "esc s = CHR 0x22 # t" using esc_shape [OF ok] .
  then show ?thesis using JStr by simp
next
  case (JInt n)
  obtain c t where "num v = c # t" "number_char c" by (rule num_shape [OF ok, of v]) (use JInt in auto)
  then show ?thesis using JInt by (auto simp: number_char_def parse_digit_def less_eq_char_def)
next
  case (JFloat q)
  obtain c t where "num v = c # t" "number_char c" by (rule num_shape [OF ok, of v]) (use JFloat in auto)
  then show ?thesis using JFloat by (auto simp: number_char_def parse_digit_def less_eq_char_def)
qed auto

lemma same_kind:
  assumes ok: "serializer_ok esc num" and eq: "plain_write esc num v @ x = plain_write esc num w @ y"
  shows "(\<exists>a b. v = JObj a \<and> w = JObj b) \<or> (\<exists>a b. v = JArr a \<and> w = JArr b) \<or>
    (\<exists>a b. v = JStr a \<and> w = JStr b) \<or> (is_number v \<and> is_number w) \<or>
    (\<exists>b. v = JBool b \<and> w = JBool b) \<or> (v = JNull \<and> w = JNull)"
proof -
  obtain c t where c: "plain_write esc num v = c # t"
    "case v of JObj _ \<Rightarrow> c = CHR ''{'' | JArr _ \<Rightarrow> c = CHR ''['' | JStr _ \<Rightarrow> c = CHR 0x22
     | JNull \<Rightarrow> c = CHR ''n'' | JBool b \<Rightarrow> c = (if b then CHR ''t'' else CHR ''f'') | _ \<Rightarrow> number_char c"
    using plain_write_lead [OF ok, of v] by blast
  obtain d u where d: "plain_write esc num w = d # u"
    "case w of JObj _ \<Rightarrow> d = CHR ''{'' | JArr _ \<Rightarrow> d = CHR ''['' | JStr _ \<Rightarrow> d = CHR 0x22
     | JNull \<Rightarrow> d = CHR ''n'' | JBool b \<Rightarrow> d = (if b then CHR ''t'' else CHR ''f'') | _ \<Rightarrow> number_char d"
    using plain_write_lead [OF ok, of w] by blast
  have "c = d" using eq c(1) d(1) by simp
  then show ?thesis using c(2) d(2)
    by (cases v; cases w; simp add: number_char_def parse_digit_def less_eq_char_def split: if_splits)
qed

lemma plain_write_decode:
  assumes ok: "serializer_ok esc num" and "ends_token x" and "ends_token y"
    and "plain_write esc num v @ x = plain_write esc num w @ y"
  shows "v = w \<and> x = y"
  using assms(2-4)
proof (induction v arbitrary: w x y)
  case (JArr vs)
  then obtain ws where w: "w = JArr ws" using same_kind [OF ok JArr.prems(3)] by auto
  have "vs = ws \<and> x = y"
  proof (rule sep_concat_decode [where f = "plain_write esc num" and close = "CHR '']''"])
    show "plain_write esc num a \<noteq> [] \<and> hd (plain_write esc num a) \<noteq> CHR '']''" for a
      using plain_write_lead [OF ok, of a] by auto
  qed (use JArr w in auto)
  then show ?case using w by simp
next
  case (JObj kvs)
  let ?f = "\<lambda>(k, v). esc k @ '':'' @ plain_write esc num v"
  obtain kvs' where w: "w = JObj kvs'" using same_kind [OF ok JObj.prems(3)] by auto
  have "kvs = kvs' \<and> x = y"
  proof (rule sep_concat_decode [where f = ?f and close = "CHR ''}''"])
    fix a :: "string \<times> json"
    obtain t where "esc (fst a) = CHR 0x22 # t" using esc_shape [OF ok] .
    then show "?f a \<noteq> [] \<and> hd (?f a) \<noteq> CHR ''}''" by (auto simp: case_prod_beta)
  next
    fix a b u z
    assume a: "a \<in> set kvs" "ends_token u" "ends_token z" and eq: "?f a @ u = ?f b @ z"
    obtain k v where kv: "a = (k, v)" by (cases a)
    obtain k' v' where kv': "b = (k', v')" by (cases b)
    have "esc k @ '':'' @ plain_write esc num v @ u = esc k' @ '':'' @ plain_write esc num v' @ z"
      using eq kv kv' by simp
    then have "k = k' \<and> '':'' @ plain_write esc num v @ u = '':'' @ plain_write esc num v' @ z"
      by (rule esc_decode [OF ok])
    then have "k = k'" "plain_write esc num v @ u = plain_write esc num v' @ z" by simp_all
    moreover have "v \<in> Basic_BNFs.snds a" using kv by simp
    ultimately show "a = b \<and> u = z" using JObj.IH [OF a(1)] a(2,3) kv kv' by blast
  qed (use JObj.prems w in auto)
  then show ?case using w by simp
next
  case (JStr s)
  then obtain t where "w = JStr t" using same_kind [OF ok JStr.prems(3)] by auto
  then show ?case using JStr esc_decode [OF ok, of s x t y] by simp
next
  case (JInt n)
  then have "is_number w" using same_kind [OF ok JInt.prems(3)] by auto
  then show ?case using JInt num_decode [OF ok, of "JInt n" w x y] by (cases w) auto
next
  case (JFloat q)
  then have "is_number w" using same_kind [OF ok JFloat.prems(3)] by auto
  then show ?case using JFloat num_decode [OF ok, of "JFloat q" w x y] by (cases w) auto
next
  case (JBool b)
  then have "w = JBool b" using same_kind [OF ok JBool.prems(3)] by auto
  then show ?case using JBool by simp
next
  case JNull
  then have "w = JNull" using same_kind [OF ok JNull.prems(3)] by auto
  then show ?case using JNull by simp
qed


lemma key_length_namespaced:
  assumes "length b = length b'"
  shows "namespaced_fingerprint_key b ns = namespaced_fingerprint_key b' ns' \<longleftrightarrow>
    b = b' \<and> (ns = ns' \<or> ns \<in> {None, Some []} \<and> ns' \<in> {None, Some []})"
proof -
  have neq: "n @ c # b \<noteq> b'" "b' \<noteq> n @ c # b" "n @ c # b' \<noteq> b" "b \<noteq> n @ c # b'" for n c
    using assms by (auto dest!: arg_cong [of _ _ length])
  show ?thesis
    using assms neq by (cases ns; cases ns') (auto simp: namespaced_fingerprint_key_def)
qed

lemma canonical_write_eq_iff:
  assumes "serializer_ok esc num"
  shows "canonical_write esc num v = canonical_write esc num w \<longleftrightarrow> json_sorted v = json_sorted w"
proof -
  have q: "quoted (esc s)" for s using assms by (simp add: serializer_ok_def)
  show ?thesis
    using plain_write_decode [OF assms, of "[]" "[]" "json_sorted v" "json_sorted w"]
    by (auto simp: canonical_write_sorted [OF q] ends_token_def)
qed

section \<open>A serialiser\<close>

definition esc_char :: "char \<Rightarrow> string" where
  "esc_char c = (if c \<in> {CHR 0x22, CHR 0x5C} then [CHR 0x5C, c] else [c])"

definition esc_string :: "string \<Rightarrow> string" where
  "esc_string s = [CHR 0x22] @ concat (map esc_char s) @ [CHR 0x22]"

definition show_number :: "json \<Rightarrow> string" where
  "show_number v =
     (case v of
        JInt n \<Rightarrow> show_int n
      | JFloat q \<Rightarrow> (case quotient_of q of (a, b) \<Rightarrow> show_int a @ ''.'' @ show_nat (nat b))
      | _ \<Rightarrow> ''0'')"

lemma show_nat_digits: "c \<in> set (show_nat n) \<Longrightarrow> parse_digit c \<noteq> None"
proof (induction n rule: show_nat.induct)
  case (1 n)
  then show ?case
    by (cases "n < 10") (auto simp: show_nat.simps [of n] parse_digit_digit_char)
qed

lemma show_nat_not_Nil: "show_nat n \<noteq> []"
  by (subst show_nat.simps) auto

lemma not_digits [simp]: "parse_digit CHR ''.'' = None" "parse_digit CHR ''-'' = None"
  by (simp_all add: parse_digit_def less_eq_char_def)

lemma show_nat_no_sign: "CHR ''.'' \<notin> set (show_nat n)" "CHR ''-'' \<notin> set (show_nat n)"
  using show_nat_digits by fastforce+

lemma show_int_chars: "c \<in> set (show_int n) \<Longrightarrow> parse_digit c \<noteq> None \<or> c = CHR ''-''"
  by (auto simp: show_int_def dest: show_nat_digits split: if_splits)

lemma show_nat_no_minus: "show_nat k \<noteq> CHR ''-'' # t"
  using show_nat_no_sign(2) [of k] by auto

lemma show_int_inject: "show_int m = show_int n \<longleftrightarrow> m = n"
  using show_nat_no_minus show_nat_no_minus [symmetric] by (auto simp: show_int_def)

lemma esc_body_decode:
  "concat (map esc_char s) @ CHR 0x22 # x = concat (map esc_char t) @ CHR 0x22 # y \<Longrightarrow> s = t"
proof (induction s arbitrary: t)
  case Nil
  then show ?case by (cases t) (auto simp: esc_char_def split: if_splits)
next
  case (Cons c s)
  then show ?case by (cases t) (auto simp: esc_char_def split: if_splits)
qed


lemma show_number_inj: "inj_on show_number {v. is_number v}"
proof (rule inj_onI)
  fix v w assume vw: "v \<in> {v. is_number v}" "w \<in> {v. is_number v}" "show_number v = show_number w"
  have nodot: "CHR ''.'' \<notin> set (show_int n)" for n using show_int_chars [of _ n] by fastforce
  have tw: "takeWhile (\<lambda>c. c \<noteq> CHR ''.'') (show_int a @ CHR ''.'' # t) = show_int a" for a t
    using nodot [of a] by (subst takeWhile_append2) auto
  have "(CHR ''.'' \<in> set (show_number u)) = (\<exists>q. u = JFloat q)" if "is_number u" for u
    using that nodot by (cases u) (auto simp: show_number_def case_prod_beta)
  then have float: "(\<exists>q. v = JFloat q) = (\<exists>q. w = JFloat q)" using vw by (metis mem_Collect_eq)
  show "v = w"
  proof (cases v)
    case (JInt m)
    then show ?thesis using vw float by (cases w) (auto simp: show_number_def show_int_inject)
  next
    case (JFloat p)
    obtain q where q: "w = JFloat q" using JFloat float by auto
    obtain a b where ab: "quotient_of p = (a, b)" by (cases "quotient_of p")
    obtain c d where cd: "quotient_of q = (c, d)" by (cases "quotient_of q")
    have eq: "show_int a @ CHR ''.'' # show_nat (nat b) = show_int c @ CHR ''.'' # show_nat (nat d)"
      using vw(3) by (simp add: JFloat q show_number_def ab cd)
    then have "show_int a = show_int c" using tw by metis
    moreover then have "nat b = nat d" using eq by simp
    moreover have "0 < b" "0 < d" using ab cd quotient_of_denom_pos by auto
    ultimately have "quotient_of p = quotient_of q" using ab cd by (simp add: show_int_inject)
    then show ?thesis using JFloat q by (simp add: quotient_of_inject)
  qed (use vw in auto)
qed

lemma serializer_exists: "serializer_ok esc_string show_number"
proof -
  have "s = t" if "esc_string s @ x = esc_string t @ y" for s t x y
    using that esc_body_decode [of s x t y] by (simp add: esc_string_def)
  moreover have "quoted (esc_string s)" for s by (auto simp: quoted_def esc_string_def)
  moreover have "show_number v \<noteq> [] \<and> (\<forall>c \<in> set (show_number v). number_char c)" if "is_number v" for v
  proof -
    have "show_int n \<noteq> []" for n by (simp add: show_int_def show_nat_not_Nil)
    moreover have "number_char c" if "c \<in> set (show_int n)" for c n
      using show_int_chars [OF that] by (auto simp: number_char_def)
    moreover have "number_char c" if "c \<in> set (show_nat n)" for c n
      using show_nat_digits [OF that] by (auto simp: number_char_def)
    moreover have "number_char CHR ''.''" by (simp add: number_char_def)
    ultimately show ?thesis using that by (cases v) (auto simp: show_number_def case_prod_beta)
  qed
  ultimately show ?thesis using show_number_inj unfolding serializer_ok_def by blast
qed

section \<open>Properties\<close>

text \<open>
  The canonical serialisation forgets nothing but the order of object keys: two values have the
  same canonical text exactly when they agree once the keys of all objects are sorted.
\<close>

theorem canonical_write_injective:
  assumes "serializer_ok esc num"
  shows "canonical_write esc num v = canonical_write esc num w \<longleftrightarrow> json_sorted v = json_sorted w"
  using assms by (rule canonical_write_eq_iff)

theorem canonical_write_injective_witness:
  "canonical_write esc_string show_number (JObj [(''b'', JInt 1), (''a'', JNull)]) =
     canonical_write esc_string show_number (JObj [(''a'', JNull), (''b'', JInt 1)]) \<and>
   canonical_write esc_string show_number (JArr [JStr ''1'']) \<noteq>
     canonical_write esc_string show_number (JArr [JInt 1])"
  using canonical_write_injective [OF serializer_exists, of "JObj [(''b'', JInt 1), (''a'', JNull)]"
      "JObj [(''a'', JNull), (''b'', JInt 1)]"]
    canonical_write_injective [OF serializer_exists, of "JArr [JStr ''1'']" "JArr [JInt 1]"]
  by simp

text \<open>
  C5. Cache keys keep tenants and requests apart. If the digest does not collide on the two
  canonical texts, two requests get the same namespaced key exactly when they have the same
  namespace (the empty one counts as none) and agree after stripping the sampling fields,
  normalising the message contents and sorting object keys.
\<close>

theorem cache_key_separates:
  assumes "serializer_ok esc num" and "\<And>s. length (sha s) = 64"
    and "sha (canonical_write esc num (prepare_value_for_fingerprint nfc v c)) =
           sha (canonical_write esc num (prepare_value_for_fingerprint nfc w c)) \<Longrightarrow>
         canonical_write esc num (prepare_value_for_fingerprint nfc v c) =
           canonical_write esc num (prepare_value_for_fingerprint nfc w c)"
  shows "generate_namespaced_cache_key_from_value esc num nfc sha v ns c =
      generate_namespaced_cache_key_from_value esc num nfc sha w ns' c \<longleftrightarrow>
    (ns = ns' \<or> ns \<in> {None, Some []} \<and> ns' \<in> {None, Some []}) \<and>
    json_sorted (prepare_value_for_fingerprint nfc v c) = json_sorted (prepare_value_for_fingerprint nfc w c)"
proof -
  let ?t = "\<lambda>v. canonical_write esc num (prepare_value_for_fingerprint nfc v c)"
  note canonical_write_eq_iff [OF assms(1)]
  moreover have "sha (?t v) = sha (?t w) \<longleftrightarrow> ?t v = ?t w" using assms(3) by auto
  moreover have "length (sha (?t v)) = length (sha (?t w))" by (simp add: assms(2))
  ultimately show ?thesis
    using key_length_namespaced [of "sha (?t v)" "sha (?t w)" ns ns']
    by (auto simp: generate_namespaced_cache_key_from_value_def generate_cache_key_from_value_def
        fingerprint_hash_normalized_value_def)
qed


theorem cache_key_separates_witness:
  "generate_namespaced_cache_key_from_value esc_string show_number id (\<lambda>s. take 64 (s @ replicate 64 CHR ''0''))
     (JObj [(''temperature'', JInt 1), (''model'', JStr ''m'')]) (Some ''t'') fingerprint_default_v1 =
   generate_namespaced_cache_key_from_value esc_string show_number id (\<lambda>s. take 64 (s @ replicate 64 CHR ''0''))
     (JObj [(''model'', JStr ''m'')]) (Some ''t'') fingerprint_default_v1"
proof -
  let ?v = "JObj [(''temperature'', JInt 1), (''model'', JStr ''m'')]"
  let ?w = "JObj [(''model'', JStr ''m'')]"
  let ?sha = "\<lambda>s. take 64 (s @ replicate 64 CHR ''0'')"
  have same: "prepare_value_for_fingerprint id ?v fingerprint_default_v1 =
      prepare_value_for_fingerprint id ?w fingerprint_default_v1"
    by (simp add: prepare_value_for_fingerprint_def strip_fields_def stripped_fields_def
        normalize_for_fingerprint_def fingerprint_default_v1_def modify_field_def hm_remove_def)
  show ?thesis
    by (subst cache_key_separates [OF serializer_exists]) (simp_all add: same)
qed

end
