(* ===== verification/CacheStore.thy ===== *)
theory CacheStore
  imports Prelude
begin

text \<open>
  What the cache stores and how long: \<^verbatim>\<open>CacheEntry\<close> and the resolution of its time to live
  (\<^verbatim>\<open>crates/crab-cache/src/types.rs\<close>), and the idempotency store that replays the response of a
  retried request (\<^verbatim>\<open>idempotency.rs\<close>). A body is a byte string.
\<close>

section \<open>Entries\<close>

record usage_info =
  prompt_tokens :: nat
  completion_tokens :: nat
  prompt_cache_hit_tokens :: nat
  prompt_cache_miss_tokens :: nat

record cache_entry =
  ce_response_body :: string
  ce_model :: string
  ce_usage :: usage_info
  ce_created_at :: nat
  ce_ttl_secs :: nat
  ce_sse_body :: "string option"
  ce_is_stream :: bool
  ce_client_display_reasoning :: bool

definition ce_is_stale :: "cache_entry \<Rightarrow> nat \<Rightarrow> bool" where
  \<comment> \<open>the current second is an argument; the sum wraps in the release profile\<close>
  "ce_is_stale e now \<longleftrightarrow> wrap_add 64 (ce_created_at e) (ce_ttl_secs e) < now"

definition ce_stale_age_secs :: "cache_entry \<Rightarrow> nat \<Rightarrow> nat" where
  "ce_stale_age_secs e now = now - wrap_add 64 (ce_created_at e) (ce_ttl_secs e)"

definition ce_estimated_bytes :: "cache_entry \<Rightarrow> nat" where
  "ce_estimated_bytes e =
     min (length (ce_response_body e) + (case ce_sse_body e of Some b \<Rightarrow> length b | None \<Rightarrow> 0) +
          length (ce_model e) + 128) u32_max"

record l0_config =
  l0_max_capacity :: nat
  l0_ttl_secs :: nat
  l0_max_entry_bytes :: nat

definition l0_config_default :: l0_config where
  "l0_config_default = \<lparr>l0_max_capacity = 10000, l0_ttl_secs = 3600, l0_max_entry_bytes = 0\<rparr>"

record ttl_config =
  tc_default_ttl_secs :: nat
  tc_model_overrides :: "(string, nat) hmap"
  tc_consumer_overrides :: "(string, nat) hmap"
  tc_consumer_model_overrides :: "(string, nat) hmap"

definition tc_new :: "nat \<Rightarrow> ttl_config" where
  "tc_new ttl = \<lparr>tc_default_ttl_secs = ttl, tc_model_overrides = [], tc_consumer_overrides = [],
     tc_consumer_model_overrides = []\<rparr>"

definition tc_resolve :: "ttl_config \<Rightarrow> string \<Rightarrow> string option \<Rightarrow> nat" where
  "tc_resolve c model consumer =
     (let combo = Option.bind consumer (\<lambda>cn. hm_get (tc_consumer_model_overrides c) (cn @ '':'' @ model));
          by_model = hm_get (tc_model_overrides c) model;
          by_consumer = Option.bind consumer (hm_get (tc_consumer_overrides c))
      in case or_else combo (or_else by_model by_consumer) of
           Some ttl \<Rightarrow> ttl
         | None \<Rightarrow> tc_default_ttl_secs c)"

section \<open>Idempotency store\<close>

record idempotency_entry =
  id_status :: nat
  id_body :: string
  id_created_at :: instant

record idempotency_store =
  is_entries :: "(string, idempotency_entry) hmap"
  is_window :: duration
  is_max_entries :: nat
  is_hits :: nat
  is_misses :: nat
  is_saves :: nat

definition is_new :: "duration \<Rightarrow> nat \<Rightarrow> idempotency_store" where
  "is_new window max_entries = \<lparr>is_entries = [], is_window = window, is_max_entries = max_entries,
     is_hits = 0, is_misses = 0, is_saves = 0\<rparr>"

definition is_check ::
  "idempotency_store \<Rightarrow> string \<Rightarrow> instant \<Rightarrow> (nat \<times> string) option \<times> idempotency_store"
where
  "is_check s key now =
     (case hm_get (is_entries s) key of
        Some e \<Rightarrow>
          if elapsed now (id_created_at e) < is_window s
          then (Some (id_status e, id_body e), s\<lparr>is_hits := wrap_add 64 (is_hits s) 1\<rparr>)
          else (None, s\<lparr>is_entries := hm_remove (is_entries s) key,
                        is_misses := wrap_add 64 (is_misses s) 1\<rparr>)
      | None \<Rightarrow> (None, s\<lparr>is_misses := wrap_add 64 (is_misses s) 1\<rparr>))"

definition is_save ::
  "idempotency_store \<Rightarrow> string \<Rightarrow> nat \<Rightarrow> string \<Rightarrow> instant \<Rightarrow> idempotency_store"
where
  "is_save s key status body now =
     (if is_max_entries s \<le> length (is_entries s) then s
      else s\<lparr>is_saves := wrap_add 64 (is_saves s) 1,
             is_entries := hm_insert (is_entries s) key
               \<lparr>id_status = status, id_body = body, id_created_at = now\<rparr>\<rparr>)"

definition is_cleanup_expired :: "idempotency_store \<Rightarrow> instant \<Rightarrow> idempotency_store" where
  "is_cleanup_expired s now =
     s\<lparr>is_entries := hm_retain (\<lambda>k e. elapsed now (id_created_at e) < is_window s) (is_entries s)\<rparr>"

definition is_len :: "idempotency_store \<Rightarrow> nat" where
  "is_len s = length (is_entries s)"

definition is_is_empty :: "idempotency_store \<Rightarrow> bool" where
  "is_is_empty s \<longleftrightarrow> is_entries s = []"

section \<open>Operations on the store\<close>

inductive is_step :: "idempotency_store \<Rightarrow> instant \<Rightarrow> idempotency_store \<Rightarrow> bool" where
  is_step_check: "is_step s now (snd (is_check s key now))"
| is_step_save: "is_step s now (is_save s key status body now)"
| is_step_cleanup: "is_step s now (is_cleanup_expired s now)"

inductive is_run :: "string \<Rightarrow> idempotency_store \<Rightarrow> instant \<Rightarrow> idempotency_store \<Rightarrow> instant \<Rightarrow> bool"
  for key :: string where
  \<comment> \<open>operations at non-decreasing times, none of which saves the given key\<close>
  is_run_none: "now \<le> now' \<Longrightarrow> is_run key s now s now'"
| is_run_check: "is_run key s now t now' \<Longrightarrow> now' \<le> now'' \<Longrightarrow> is_run key s now (snd (is_check t k now')) now''"
| is_run_save: "is_run key s now t now' \<Longrightarrow> now' \<le> now'' \<Longrightarrow> k \<noteq> key \<Longrightarrow>
     is_run key s now (is_save t k status body now') now''"
| is_run_cleanup: "is_run key s now t now' \<Longrightarrow> now' \<le> now'' \<Longrightarrow>
     is_run key s now (is_cleanup_expired t now') now''"

definition is_inv :: "idempotency_store \<Rightarrow> bool" where
  "is_inv s \<longleftrightarrow> hm_wf (is_entries s) \<and> length (is_entries s) \<le> is_max_entries s"

definition is_init :: "idempotency_store \<Rightarrow> bool" where
  "is_init s \<longleftrightarrow> (\<exists>w mx. s = is_new w mx)"

lemma is_step_inv: "is_inv s \<Longrightarrow> is_step s now t \<Longrightarrow> is_inv t"
  by (erule is_step.cases)
    (auto simp: is_inv_def is_check_def is_save_def is_cleanup_expired_def length_hm_insert
      split: option.splits if_splits intro: order_trans [OF length_hm_remove_le]
      order_trans [OF length_hm_retain_le])

interpretation is_sys: invariant_system is_init is_step is_inv
proof unfold_locales
  show "is_init s \<Longrightarrow> is_inv s" for s by (auto simp: is_init_def is_inv_def is_new_def)
qed (rule is_step_inv)

lemma is_run_keeps:
  assumes "is_run key s t0 t now" and "hm_wf (is_entries s)"
    and "hm_get (is_entries s) key = Some e" and "id_created_at e \<le> t0"
  shows "hm_wf (is_entries t) \<and> is_window t = is_window s \<and> t0 \<le> now \<and>
    (elapsed now (id_created_at e) < is_window s \<longrightarrow> hm_get (is_entries t) key = Some e) \<and>
    (hm_get (is_entries t) key = None \<or> hm_get (is_entries t) key = Some e)"
  using assms
proof (induction rule: is_run.induct)
  case (is_run_check s now t now' now'' k)
  moreover have "elapsed now' (id_created_at e) \<le> elapsed now'' (id_created_at e)"
    using is_run_check by (intro elapsed_mono)
  ultimately show ?case by (auto simp: is_check_def split: option.splits)
next
  case (is_run_save s now t now' now'' k status body)
  moreover have "elapsed now' (id_created_at e) \<le> elapsed now'' (id_created_at e)"
    using is_run_save by (intro elapsed_mono)
  ultimately show ?case by (auto simp: is_save_def)
next
  case (is_run_cleanup s now t now' now'')
  moreover have "elapsed now' (id_created_at e) \<le> elapsed now'' (id_created_at e)"
    using is_run_cleanup by (intro elapsed_mono)
  ultimately show ?case by (auto simp: is_cleanup_expired_def hm_get_retain)
qed auto

section \<open>Properties\<close>

text \<open>
  A retried request is replayed. If the store has room when a response is saved, then after
  any operations that do not save the same key again a lookup returns exactly the saved status and
  body before the window has passed, and nothing from then on.
\<close>

theorem idempotent_replay:
  assumes "is_inv s" and "length (is_entries s) < is_max_entries s" and "0 < is_window s"
    and "is_run key (is_save s key status body t0) t0 t now"
  shows "fst (is_check t key now) =
    (if now < t0 + int (is_window s) then Some (status, body) else None)"
proof -
  let ?s = "is_save s key status body t0"
  let ?e = "\<lparr>id_status = status, id_body = body, id_created_at = t0\<rparr>"
  have s: "hm_wf (is_entries ?s)" "hm_get (is_entries ?s) key = Some ?e" "is_window ?s = is_window s"
    using assms(1,2) by (auto simp: is_save_def is_inv_def)
  note keep = is_run_keeps [OF assms(4) s(1,2)]
  show ?thesis
    using keep s(3) elapsed_less_iff [OF assms(3), of now t0]
    by (auto simp: is_check_def split: option.split)
qed

theorem idempotent_replay_witness:
  "fst (is_check (is_save (is_new (from_secs 5) 10) ''k'' 200 ''ok'' 0) ''k'' 1) = Some (200, ''ok'')"
proof -
  have "is_inv (is_new (from_secs 5) 10)" by (rule is_sys.inv_init) (auto simp: is_init_def)
  moreover have "is_run ''k'' (is_save (is_new (from_secs 5) 10) ''k'' 200 ''ok'' 0) 0
      (is_save (is_new (from_secs 5) 10) ''k'' 200 ''ok'' 0) 1"
    by (rule is_run_none) simp
  ultimately show ?thesis
    using idempotent_replay [of "is_new (from_secs 5) 10" "''k''" 200 "''ok''" 0
        "is_save (is_new (from_secs 5) 10) ''k'' 200 ''ok'' 0" 1]
    by (simp add: is_new_def from_secs_def nanos_per_sec_def)
qed

end
