(* ===== verification/TieredCache.thy ===== *)
theory TieredCache
  imports CacheStore
begin

text \<open>
  The two-tier response cache, \<^verbatim>\<open>crates/crab-cache/src/tiered.rs\<close>: an in-process cache (L0, moka)
  in front of Redis (L1). Each tier is a map from keys to values with an expiry time. L0 may drop
  any entry at any time, which is a step of its own; whether a connection or a Redis command
  succeeds is an argument of the operation, as are the entry's serialiser and deserialiser and the
  batches a \<^verbatim>\<open>SCAN\<close> returns. The metrics an operation records are part of its result.
\<close>

section \<open>State\<close>

datatype cache_tier = L0Moka | L1Redis | L2Semantic | Miss

datatype cache_get_metrics = Full | HitsOnly | Silent

datatype metric_event = CacheHit cache_tier string | CacheMiss cache_tier

record tiered_cache =
  t_l0 :: "(string, cache_entry \<times> instant) hmap"
  t_l1 :: "(string, string \<times> instant) hmap"
  t_ttl_config :: ttl_config
  t_ttl_config_rwlock :: ttl_config
  t_prefix_index :: "(string, string) hmap"

record l1_io =
  io_conn :: bool \<comment> \<open>a connection can be had from the pool\<close>
  io_cmd :: bool \<comment> \<open>the command succeeds\<close>
  io_del :: bool \<comment> \<open>the deletion of an unreadable entry succeeds\<close>

definition tiered_new :: "ttl_config \<Rightarrow> (string, string \<times> instant) hmap \<Rightarrow> tiered_cache" where
  \<comment> \<open>a new instance finds what is in Redis\<close>
  "tiered_new cfg redis = \<lparr>t_l0 = [], t_l1 = redis, t_ttl_config = cfg, t_ttl_config_rwlock = cfg,
     t_prefix_index = []\<rparr>"

fun record_hits :: "cache_get_metrics \<Rightarrow> bool" where
  "record_hits Full = True"
| "record_hits HitsOnly = True"
| "record_hits Silent = False"

fun record_miss :: "cache_get_metrics \<Rightarrow> bool" where
  "record_miss Full = True"
| "record_miss HitsOnly = False"
| "record_miss Silent = False"

definition live :: "('k, 'v \<times> instant) hmap \<Rightarrow> 'k \<Rightarrow> instant \<Rightarrow> 'v option" where
  "live m key now =
     (case hm_get m key of Some (v, until) \<Rightarrow> if now < until then Some v else None | None \<Rightarrow> None)"

definition expiry_resolve_ttl :: "tiered_cache \<Rightarrow> string \<Rightarrow> duration" where
  \<comment> \<open>the L0 expiry knows the model only\<close>
  "expiry_resolve_ttl c model = from_secs (tc_resolve (t_ttl_config c) model None)"

definition l0_insert :: "tiered_cache \<Rightarrow> string \<Rightarrow> cache_entry \<Rightarrow> instant \<Rightarrow> tiered_cache" where
  "l0_insert c key entry now =
     c\<lparr>t_l0 := hm_insert (t_l0 c) key (entry, now + int (expiry_resolve_ttl c (ce_model entry)))\<rparr>"

definition l1_key :: "string \<Rightarrow> string" where
  "l1_key key = ''cache:'' @ key"

section \<open>Lookup and storage\<close>

definition tiered_get_inner ::
  "(string \<Rightarrow> cache_entry option) \<Rightarrow> tiered_cache \<Rightarrow> string \<Rightarrow> cache_get_metrics \<Rightarrow> l1_io \<Rightarrow> instant
     \<Rightarrow> (cache_entry \<times> cache_tier) option \<times> metric_event list \<times> tiered_cache"
where
  "tiered_get_inner de c key metrics io now =
     (let hit = (\<lambda>tier e. if record_hits metrics then [CacheHit tier (ce_model e)] else []);
          miss = (if record_miss metrics then [CacheMiss Miss] else [])
      in case live (t_l0 c) key now of
           Some e \<Rightarrow> (Some (e, L0Moka), hit L0Moka e, c)
         | None \<Rightarrow>
             if \<not> io_conn io then (None, miss, c)
             else if \<not> io_cmd io then (None, miss, c)
             else case live (t_l1 c) (l1_key key) now of
                    None \<Rightarrow> (None, miss, c)
                  | Some json \<Rightarrow>
                      (case de json of
                         Some e \<Rightarrow> (Some (e, L1Redis), hit L1Redis e, l0_insert c key e now)
                       | None \<Rightarrow>
                           (None, miss,
                            if io_del io then c\<lparr>t_l1 := hm_remove (t_l1 c) (l1_key key)\<rparr> else c)))"

definition tiered_get ::
  "(string \<Rightarrow> cache_entry option) \<Rightarrow> tiered_cache \<Rightarrow> string \<Rightarrow> l1_io \<Rightarrow> instant
     \<Rightarrow> (cache_entry \<times> cache_tier) option \<times> metric_event list \<times> tiered_cache" where
  "tiered_get de c key io now = tiered_get_inner de c key Full io now"

definition tiered_get_defer_miss ::
  "(string \<Rightarrow> cache_entry option) \<Rightarrow> tiered_cache \<Rightarrow> string \<Rightarrow> l1_io \<Rightarrow> instant
     \<Rightarrow> (cache_entry \<times> cache_tier) option \<times> metric_event list \<times> tiered_cache" where
  "tiered_get_defer_miss de c key io now = tiered_get_inner de c key HitsOnly io now"

definition tiered_get_silent ::
  "(string \<Rightarrow> cache_entry option) \<Rightarrow> tiered_cache \<Rightarrow> string \<Rightarrow> l1_io \<Rightarrow> instant
     \<Rightarrow> (cache_entry \<times> cache_tier) option \<times> metric_event list \<times> tiered_cache" where
  "tiered_get_silent de c key io now = tiered_get_inner de c key Silent io now"

definition tiered_put ::
  "(cache_entry \<Rightarrow> string option) \<Rightarrow> tiered_cache \<Rightarrow> string \<Rightarrow> cache_entry \<Rightarrow> string \<Rightarrow> string option
     \<Rightarrow> l1_io \<Rightarrow> instant \<Rightarrow> bool \<times> tiered_cache"
where
  \<comment> \<open>\<open>False\<close> for an \<open>Err\<close>; L0 is written in any case\<close>
  "tiered_put ser c key entry model consumer io now =
     (let ttl = tc_resolve (t_ttl_config c) model consumer;
          c1 = l0_insert c key entry now
      in if \<not> io_conn io then (False, c1)
         else case ser entry of
                None \<Rightarrow> (False, c1)
              | Some json \<Rightarrow>
                  if \<not> io_cmd io then (False, c1)
                  else (True, c1\<lparr>t_l1 := hm_insert (t_l1 c1) (l1_key key)
                               (json, now + int (from_secs ttl))\<rparr>))"

definition tiered_resolve_ttl :: "tiered_cache \<Rightarrow> string \<Rightarrow> string option \<Rightarrow> nat" where
  "tiered_resolve_ttl c model consumer = tc_resolve (t_ttl_config c) model consumer"

definition tiered_sync_ttl :: "tiered_cache \<Rightarrow> tiered_cache" where
  "tiered_sync_ttl c = c\<lparr>t_ttl_config := t_ttl_config_rwlock c\<rparr>"

section \<open>Invalidation\<close>

definition tiered_invalidate :: "tiered_cache \<Rightarrow> string \<Rightarrow> l1_io \<Rightarrow> bool \<times> tiered_cache" where
  "tiered_invalidate c key io =
     (let c1 = c\<lparr>t_l0 := hm_remove (t_l0 c) key\<rparr>
      in if \<not> io_conn io then (False, c1)
         else if \<not> io_cmd io then (False, c1)
         else (True, c1\<lparr>t_l1 := hm_remove (t_l1 c1) (l1_key key)\<rparr>))"

datatype scan_event =
    ScanTimeout \<comment> \<open>the time limit has passed at the head of the loop\<close>
  | ScanFailed \<comment> \<open>the \<open>SCAN\<close> command failed\<close>
  | ScanBatch "string list" bool \<comment> \<open>the keys of a batch and whether their deletion succeeded\<close>

fun scan_delete_l1 ::
  "tiered_cache \<Rightarrow> scan_event list \<Rightarrow> nat \<Rightarrow> (bool \<times> nat) \<times> tiered_cache"
where
  \<comment> \<open>the loop over the scan, one event per round, with the number of deleted keys; the list ends
    when the cursor is zero again\<close>
  "scan_delete_l1 c [] deleted = ((True, deleted), c)"
| "scan_delete_l1 c (ScanTimeout # evs) deleted = ((True, deleted), c)"
| "scan_delete_l1 c (ScanFailed # evs) deleted = ((False, deleted), c)"
| "scan_delete_l1 c (ScanBatch keys ok # evs) deleted =
     (if keys \<noteq> [] \<and> ok
      then scan_delete_l1 (c\<lparr>t_l1 := foldl hm_remove (t_l1 c) keys\<rparr>) evs (deleted + length keys)
      else scan_delete_l1 c evs deleted)"

definition tiered_invalidate_all :: "tiered_cache \<Rightarrow> l1_io \<Rightarrow> scan_event list \<Rightarrow> bool \<times> tiered_cache" where
  "tiered_invalidate_all c io evs =
     (let c1 = c\<lparr>t_l0 := [], t_prefix_index := []\<rparr>
      in if \<not> io_conn io then (False, c1)
         else case scan_delete_l1 c1 evs 0 of ((ok, deleted), c2) \<Rightarrow> (ok, c2))"

definition tiered_invalidate_prefix ::
  "tiered_cache \<Rightarrow> string \<Rightarrow> l1_io \<Rightarrow> scan_event list \<Rightarrow> bool \<times> tiered_cache"
where
  "tiered_invalidate_prefix c prefix io evs =
     (let c1 = c\<lparr>t_l0 := hm_retain (\<lambda>k e. \<not> starts_with k prefix) (t_l0 c)\<rparr>
      in if \<not> io_conn io then (False, c1)
         else case scan_delete_l1 c1 evs 0 of ((ok, deleted), c2) \<Rightarrow> (ok, c2))"

section \<open>Prefix index\<close>

definition update_prefix_index :: "tiered_cache \<Rightarrow> string \<Rightarrow> string \<Rightarrow> tiered_cache" where
  "update_prefix_index c prefix_hash full_key =
     c\<lparr>t_prefix_index := hm_insert (t_prefix_index c) prefix_hash full_key\<rparr>"

definition prefix_l0_lookup :: "tiered_cache \<Rightarrow> string \<Rightarrow> instant \<Rightarrow> cache_entry option" where
  "prefix_l0_lookup c prefix_hash now =
     (case hm_get (t_prefix_index c) prefix_hash of
        None \<Rightarrow> None
      | Some full_key \<Rightarrow> live (t_l0 c) full_key now)"

definition clear_prefix_index :: "tiered_cache \<Rightarrow> tiered_cache" where
  "clear_prefix_index c = c\<lparr>t_prefix_index := []\<rparr>"

section \<open>What happens to one key\<close>

inductive others_step ::
  "(string \<Rightarrow> cache_entry option) \<Rightarrow> (cache_entry \<Rightarrow> string option) \<Rightarrow> string
     \<Rightarrow> tiered_cache \<Rightarrow> instant \<Rightarrow> tiered_cache \<Rightarrow> bool"
  for de :: "string \<Rightarrow> cache_entry option" and ser :: "cache_entry \<Rightarrow> string option" and key :: string
where
  \<comment> \<open>any operation that neither stores nor invalidates the given key\<close>
  os_get: "others_step de ser key c now (snd (snd (tiered_get_inner de c k m io now)))"
| os_put: "k \<noteq> key \<Longrightarrow> others_step de ser key c now (snd (tiered_put ser c k e model consumer io now))"
| os_invalidate: "k \<noteq> key \<Longrightarrow> others_step de ser key c now (snd (tiered_invalidate c k io))"
| os_evict: "others_step de ser key c now (c\<lparr>t_l0 := hm_remove (t_l0 c) k\<rparr>)"
| os_sync: "others_step de ser key c now (tiered_sync_ttl c)"
| os_prefix: "others_step de ser key c now (update_prefix_index c p k)"

inductive others_run ::
  "(string \<Rightarrow> cache_entry option) \<Rightarrow> (cache_entry \<Rightarrow> string option) \<Rightarrow> string
     \<Rightarrow> tiered_cache \<Rightarrow> instant \<Rightarrow> tiered_cache \<Rightarrow> instant \<Rightarrow> bool"
  for de ser key c t0
where
  or_refl: "t0 \<le> now \<Longrightarrow> others_run de ser key c t0 c now"
| or_step: "others_run de ser key c t0 c' now \<Longrightarrow> others_step de ser key c' now c'' \<Longrightarrow> now \<le> now' \<Longrightarrow>
     others_run de ser key c t0 c'' now'"

definition holds_entry :: "tiered_cache \<Rightarrow> string \<Rightarrow> string \<Rightarrow> cache_entry \<Rightarrow> instant \<Rightarrow> bool" where
  "holds_entry c key json e until \<longleftrightarrow>
     hm_get (t_l1 c) (l1_key key) = Some (json, until) \<and>
     (\<forall>f u. hm_get (t_l0 c) key = Some (f, u) \<longrightarrow> f = e)"

lemma l1_key_inject [simp]: "l1_key k = l1_key k' \<longleftrightarrow> k = k'"
  by (simp add: l1_key_def)

lemma live_Some: "live m key now = Some v \<Longrightarrow> \<exists>u. hm_get m key = Some (v, u)"
  by (auto simp: live_def split: option.splits if_splits)

lemma holds_entry_step:
  assumes "others_step de ser key c now c'" and "holds_entry c key json e until" and "de json = Some e"
  shows "holds_entry c' key json e until"
  using assms(1)
proof cases
  case (os_get k m io)
  then show ?thesis using assms(2,3)
    by (auto simp: tiered_get_inner_def l0_insert_def holds_entry_def Let_def
        split: option.splits if_splits dest!: live_Some)
qed (use assms(2) in \<open>auto simp: tiered_put_def tiered_invalidate_def l0_insert_def tiered_sync_ttl_def
    update_prefix_index_def holds_entry_def Let_def split: option.splits if_splits\<close>)

lemma holds_entry_run:
  assumes "others_run de ser key c t0 c' now" and "holds_entry c key json e until" and "de json = Some e"
  shows "holds_entry c' key json e until"
  using assms by (induction rule: others_run.induct) (auto intro: holds_entry_step)

lemma put_holds_entry:
  assumes "tiered_put ser c key e model consumer io t0 = (True, c1)"
  shows "\<exists>json. ser e = Some json \<and>
    holds_entry c1 key json e (t0 + int (from_secs (tc_resolve (t_ttl_config c) model consumer)))"
  using assms
  by (auto simp: tiered_put_def l0_insert_def holds_entry_def Let_def split: if_splits option.splits)

lemma held_entry_found:
  assumes "holds_entry c key json e until" and "de json = Some e" and "now < until"
    and "io_conn io" and "io_cmd io"
  shows "\<exists>tier. fst (tiered_get_inner de c key m io now) = Some (e, tier)"
proof -
  have "live (t_l1 c) (l1_key key) now = Some json" using assms(1,3) by (simp add: holds_entry_def live_def)
  moreover have "f = e" if "live (t_l0 c) key now = Some f" for f
    using live_Some [OF that] assms(1) by (auto simp: holds_entry_def)
  ultimately show ?thesis using assms(2,4,5) by (auto simp: tiered_get_inner_def Let_def split: option.split)
qed

section \<open>Properties\<close>

text \<open>
  A stored response is found. After a successful \<^verbatim>\<open>put\<close>, whatever happens to other keys and
  whatever L0 evicts, a lookup that reaches Redis returns the stored entry until its time to live
  has passed, provided that deserialisation inverts serialisation.
\<close>

theorem cached_entry_found:
  assumes "tiered_put ser c key e model consumer io t0 = (True, c1)"
    and "\<And>json. ser e = Some json \<Longrightarrow> de json = Some e"
    and "others_run de ser key c1 t0 c2 now" and "io_conn io'" and "io_cmd io'"
    and "now < t0 + int (from_secs (tc_resolve (t_ttl_config c) model consumer))"
  shows "\<exists>tier. fst (tiered_get_inner de c2 key m io' now) = Some (e, tier)"
proof -
  obtain json where json: "ser e = Some json"
    and "holds_entry c1 key json e (t0 + int (from_secs (tc_resolve (t_ttl_config c) model consumer)))"
    using put_holds_entry [OF assms(1)] by blast
  then have "holds_entry c2 key json e (t0 + int (from_secs (tc_resolve (t_ttl_config c) model consumer)))"
    using holds_entry_run [OF assms(3)] assms(2) by blast
  then show ?thesis using assms(2) [OF json] assms(6,4,5) by (rule held_entry_found)
qed

definition sample_entry :: cache_entry where
  "sample_entry = \<lparr>ce_response_body = ''ok'', ce_model = ''m'', ce_usage =
     \<lparr>prompt_tokens = 1, completion_tokens = 1, prompt_cache_hit_tokens = 0, prompt_cache_miss_tokens = 1\<rparr>,
     ce_created_at = 0, ce_ttl_secs = 60, ce_sse_body = None, ce_is_stream = False,
     ce_client_display_reasoning = True\<rparr>"

definition all_ok :: l1_io where
  "all_ok = \<lparr>io_conn = True, io_cmd = True, io_del = True\<rparr>"

theorem cached_entry_found_witness:
  "\<exists>tier. fst (tiered_get_inner (\<lambda>s. if s = ''e'' then Some sample_entry else None)
      ((snd (tiered_put (\<lambda>_. Some ''e'') (tiered_new (tc_new 60) []) ''k'' sample_entry ''m'' None all_ok 0))
         \<lparr>t_l0 := hm_remove (t_l0 (snd (tiered_put (\<lambda>_. Some ''e'') (tiered_new (tc_new 60) []) ''k''
            sample_entry ''m'' None all_ok 0))) ''k''\<rparr>)
      ''k'' Full all_ok 5) = Some (sample_entry, tier)"
proof -
  let ?de = "\<lambda>s. if s = ''e'' then Some sample_entry else None" and ?ser = "\<lambda>_ :: cache_entry. Some ''e''"
  let ?c = "tiered_new (tc_new 60) []"
  let ?c1 = "snd (tiered_put ?ser ?c ''k'' sample_entry ''m'' None all_ok 0)"
  have put: "tiered_put ?ser ?c ''k'' sample_entry ''m'' None all_ok 0 = (True, ?c1)"
    by (simp add: tiered_put_def all_ok_def Let_def)
  have run: "others_run ?de ?ser ''k'' ?c1 0 (?c1\<lparr>t_l0 := hm_remove (t_l0 ?c1) ''k''\<rparr>) 5"
    by (rule or_step [OF or_refl [OF order_refl] os_evict]) simp
  have now: "(5 :: int) < 0 + int (from_secs (tc_resolve (t_ttl_config ?c) ''m'' None))"
    by (simp add: tiered_new_def tc_resolve_def tc_new_def or_else_def from_secs_def nanos_per_sec_def)
  show ?thesis
    by (rule cached_entry_found [OF put _ run _ _ now]) (simp_all add: all_ok_def)
qed

text \<open>
  L0 does not know the consumer. When a consumer has a shorter time to live than the entry's
  model, the entry is still served from L0, to every consumer, after the consumer's time to live
  has passed and Redis has dropped it, until the model's time to live is over.
\<close>

theorem consumer_ttl_ignored_by_l0:
  assumes "tiered_put ser c key e model consumer io t0 = (ok, c1)"
    and "t0 + int (from_secs (tc_resolve (t_ttl_config c) model consumer)) \<le> now"
    and "now < t0 + int (from_secs (tc_resolve (t_ttl_config c) (ce_model e) None))"
  shows "fst (tiered_get_inner de c1 key m io' now) = Some (e, L0Moka) \<and>
    (ok \<longrightarrow> live (t_l1 c1) (l1_key key) now = None)"
  using assms
  by (auto simp: tiered_put_def tiered_get_inner_def l0_insert_def live_def expiry_resolve_ttl_def Let_def
      split: if_splits option.splits)

theorem consumer_ttl_ignored_by_l0_witness:
  "fst (tiered_get_inner (\<lambda>_. None)
      (snd (tiered_put (\<lambda>_. Some ''e'')
        (tiered_new ((tc_new 3600)\<lparr>tc_consumer_overrides := [(''acme'', 10)]\<rparr>) []) ''k'' sample_entry ''m''
        (Some ''acme'') all_ok 0))
      ''k'' Full all_ok (int (from_secs 60))) = Some (sample_entry, L0Moka)"
proof -
  let ?c = "tiered_new ((tc_new 3600)\<lparr>tc_consumer_overrides := [(''acme'', 10)]\<rparr>) []"
  have ttl: "tc_resolve (t_ttl_config ?c) ''m'' (Some ''acme'') = 10"
    "tc_resolve (t_ttl_config ?c) (ce_model sample_entry) None = 3600"
    by (simp_all add: tiered_new_def tc_resolve_def tc_new_def or_else_def hm_get_def)
  show ?thesis
    using consumer_ttl_ignored_by_l0 [where now = "int (from_secs 60)" and ser = "\<lambda>_. Some ''e''" and c = ?c
        and key = "''k''" and e = sample_entry and model = "''m''" and consumer = "Some ''acme''" and io = all_ok
        and ?t0.0 = 0 and de = "\<lambda>_. None" and m = Full and io' = all_ok, OF prod.collapse [symmetric]]
    by (simp add: ttl from_secs_def nanos_per_sec_def)
qed

end
