(* ===== verification/ClientKeyRateLimiter.thy ===== *)
theory ClientKeyRateLimiter
  imports Prelude F64
begin

text \<open>
  The token bucket that limits the requests per minute of a client key,
  \<^verbatim>\<open>crates/crab-proxy/src/client_key_rate_limiter.rs\<close>, in the floating-point arithmetic of the
  source. A bucket is locked while it is used, so a check is one operation.
\<close>

section \<open>Buckets\<close>

record token_bucket =
  tb_tokens :: f64
  tb_last_refill :: instant

definition tb_new :: "nat \<Rightarrow> instant \<Rightarrow> token_bucket" where
  "tb_new rpm_limit now = \<lparr>tb_tokens = f64_of_nat rpm_limit, tb_last_refill = now\<rparr>"

definition as_secs_f64 :: "duration \<Rightarrow> f64" where
  \<comment> \<open>\<open>Duration::as_secs_f64\<close>: the seconds plus the nanoseconds over a billion\<close>
  "as_secs_f64 d =
     f64_add (f64_of_nat (as_secs d))
       (f64_div (f64_of_nat (d mod nanos_per_sec)) (f64_of_nat nanos_per_sec))"

definition tb_refill :: "token_bucket \<Rightarrow> nat \<Rightarrow> instant \<Rightarrow> f64" where
  \<comment> \<open>the tokens at the time of a call\<close>
  "tb_refill b rpm_limit now =
     (let rate = f64_div (f64_of_nat rpm_limit) 60;
          max_tokens = f64_of_nat rpm_limit;
          secs = as_secs_f64 (elapsed now (tb_last_refill b))
      in min (f64_add (tb_tokens b) (f64_mul secs rate)) max_tokens)"

definition tb_try_consume :: "token_bucket \<Rightarrow> nat \<Rightarrow> instant \<Rightarrow> bool \<times> token_bucket" where
  "tb_try_consume b rpm_limit now =
     (let tokens = tb_refill b rpm_limit now
      in if 1 \<le> tokens then (True, \<lparr>tb_tokens = f64_sub tokens 1, tb_last_refill = now\<rparr>)
         else (False, \<lparr>tb_tokens = tokens, tb_last_refill = now\<rparr>))"

section \<open>The limiter\<close>

record client_key_rate_limiter =
  rl_buckets :: "(string, token_bucket) hmap"

definition rl_new :: client_key_rate_limiter where
  "rl_new = \<lparr>rl_buckets = []\<rparr>"

definition rl_check_and_consume ::
  "client_key_rate_limiter \<Rightarrow> string \<Rightarrow> nat \<Rightarrow> instant \<Rightarrow> bool \<times> client_key_rate_limiter"
where
  "rl_check_and_consume l token rpm_limit now =
     (if rpm_limit = 0 then (True, l)
      else let bucket = (case hm_get (rl_buckets l) token of
                           Some b \<Rightarrow> b
                         | None \<Rightarrow> tb_new rpm_limit now)
           in case tb_try_consume bucket rpm_limit now of
                (ok, b') \<Rightarrow> (ok, l\<lparr>rl_buckets := hm_insert (rl_buckets l) token b'\<rparr>))"

definition rl_remove_key :: "client_key_rate_limiter \<Rightarrow> string \<Rightarrow> client_key_rate_limiter" where
  "rl_remove_key l token = l\<lparr>rl_buckets := hm_remove (rl_buckets l) token\<rparr>"

definition rl_prune_stale :: "client_key_rate_limiter \<Rightarrow> duration \<Rightarrow> instant \<Rightarrow> client_key_rate_limiter" where
  "rl_prune_stale l max_age now =
     l\<lparr>rl_buckets := hm_retain (\<lambda>k b. elapsed now (tb_last_refill b) < max_age) (rl_buckets l)\<rparr>"

section \<open>Requests at one instant\<close>

fun rl_run :: "client_key_rate_limiter \<Rightarrow> nat \<Rightarrow> instant \<Rightarrow> string list \<Rightarrow> (string \<times> bool) list" where
  "rl_run l rpm_limit now [] = []"
| "rl_run l rpm_limit now (k # ks) =
     (case rl_check_and_consume l k rpm_limit now of (ok, l') \<Rightarrow> (k, ok) # rl_run l' rpm_limit now ks)"

definition allowance :: "client_key_rate_limiter \<Rightarrow> string \<Rightarrow> nat \<Rightarrow> instant \<Rightarrow> f64" where
  "allowance l token rpm_limit now =
     tb_refill (case hm_get (rl_buckets l) token of Some b \<Rightarrow> b | None \<Rightarrow> tb_new rpm_limit now) rpm_limit now"

abbreviation admitted_for :: "string \<Rightarrow> (string \<times> bool) list \<Rightarrow> nat" where
  "admitted_for token rs \<equiv> length (filter (\<lambda>(k, ok). k = token \<and> ok) rs)"

lemma as_secs_f64_0 [simp]: "as_secs_f64 0 = 0"
  by (simp add: as_secs_f64_def as_secs_def f64_add_def f64_div_def f64_of_nat_def)

lemma refill_at_once:
  "tb_refill \<lparr>tb_tokens = t, tb_last_refill = now\<rparr> rpm_limit now = min (f64_round t) (f64_of_nat rpm_limit)"
  by (simp add: tb_refill_def f64_add_def f64_mul_def Let_def)

lemma check_allowance:
  assumes "0 < rpm_limit" and "rl_check_and_consume l k rpm_limit now = (ok, l')"
  shows "ok = (1 \<le> allowance l k rpm_limit now)"
    and "allowance l' token rpm_limit now =
      (if token = k
       then min (f64_round (if ok then f64_sub (allowance l k rpm_limit now) 1 else allowance l k rpm_limit now))
              (f64_of_nat rpm_limit)
       else allowance l token rpm_limit now)"
  using assms
  by (auto simp: rl_check_and_consume_def tb_try_consume_def allowance_def refill_at_once Let_def
      split: if_splits)

lemma allowance_le: "allowance l token rpm_limit now \<le> f64_of_nat rpm_limit"
  by (simp add: allowance_def tb_refill_def Let_def)

lemma run_bounded:
  assumes "0 < rpm_limit" and "allowance l token rpm_limit now \<le> of_nat m" and "m < 2 ^ 53"
  shows "admitted_for token (rl_run l rpm_limit now ks) \<le> m"
  using assms(2,3)
proof (induction ks arbitrary: l m)
  case (Cons k ks)
  obtain ok l' where check: "rl_check_and_consume l k rpm_limit now = (ok, l')"
    by (cases "rl_check_and_consume l k rpm_limit now")
  note eff = check_allowance [OF assms(1) check]
  show ?case
  proof (cases "k = token \<and> ok")
    case True
    then have one: "1 \<le> allowance l token rpm_limit now" using eff(1) by blast
    then obtain m' where m: "m = Suc m'" using Cons.prems(1) by (cases m) auto
    have "f64_sub (allowance l token rpm_limit now) 1 \<le> of_nat m'"
      unfolding f64_sub_def using Cons.prems m by (intro f64_round_le_nat) auto
    then have "allowance l' token rpm_limit now \<le> of_nat m'"
      using eff(2) [of token] True f64_round_le_nat Cons.prems(2) m by (simp add: min_le_iff_disj)
    then have "admitted_for token (rl_run l' rpm_limit now ks) \<le> m'"
      using Cons.IH Cons.prems(2) m by simp
    then show ?thesis using check True m by simp
  next
    case False
    then have "allowance l' token rpm_limit now \<le> of_nat m"
      using eff(2) [of token] f64_round_le_nat [of _ m] Cons.prems by (auto simp: min_le_iff_disj)
    then have "admitted_for token (rl_run l' rpm_limit now ks) \<le> m"
      using Cons.IH Cons.prems(2) by simp
    then show ?thesis using check False by auto
  qed
qed simp

lemma run_exact:
  assumes "0 < rpm_limit" and "rpm_limit < 2 ^ 53" and "allowance l token rpm_limit now = of_nat m"
    and "m \<le> rpm_limit"
  shows "admitted_for token (rl_run l rpm_limit now ks) = min (count_list ks token) m"
  using assms(3,4)
proof (induction ks arbitrary: l m)
  case (Cons k ks)
  obtain ok l' where check: "rl_check_and_consume l k rpm_limit now = (ok, l')"
    by (cases "rl_check_and_consume l k rpm_limit now")
  note eff = check_allowance [OF assms(1) check]
  have exact: "f64_round (of_nat j) = of_nat j" "f64_of_nat j = of_nat j" if "j \<le> rpm_limit" for j
    using that assms(2) by (simp_all add: f64_round_of_nat f64_of_nat_exact)
  show ?case
  proof (cases "k = token \<and> ok")
    case True
    then obtain m' where m: "m = Suc m'" using Cons.prems(1) eff(1) by (cases m) auto
    have "f64_sub (of_nat (Suc m')) 1 = of_nat m'"
      unfolding f64_sub_def using exact(1) [of m'] Cons.prems(2) m by simp
    then have "allowance l' token rpm_limit now = of_nat m'"
      using eff(2) [of token] True Cons.prems m exact [of m'] exact(2) [of rpm_limit] by (simp add: min_def)
    then have "admitted_for token (rl_run l' rpm_limit now ks) = min (count_list ks token) m'"
      using Cons.IH Cons.prems(2) m by simp
    then show ?thesis using check True m by simp
  next
    case False
    then have zero: "k = token \<Longrightarrow> m = 0" using Cons.prems(1) eff(1) by (cases m) auto
    have "allowance l' token rpm_limit now = of_nat m"
      using eff(2) [of token] False Cons.prems exact [of m] exact(2) [of rpm_limit] by (auto simp: min_def)
    then have "admitted_for token (rl_run l' rpm_limit now ks) = min (count_list ks token) m"
      using Cons.IH Cons.prems(2) by simp
    then show ?thesis using check False zero by auto
  qed
qed simp

section \<open>Properties\<close>

text \<open>
  A client key gets no more than its limit at once. Of any number of requests at one instant,
  whatever the state of the limiter and whatever other keys do, at most the limit per minute are
  admitted for a key, rounding errors included; a key seen for the first time gets exactly its
  limit, or all its requests if they are fewer.
\<close>

theorem rate_limit_burst:
  assumes "0 < rpm_limit" and "rpm_limit \<le> u32_max"
  shows "admitted_for token (rl_run l rpm_limit now ks) \<le> rpm_limit \<and>
    (hm_get (rl_buckets l) token = None \<longrightarrow>
       admitted_for token (rl_run l rpm_limit now ks) = min (count_list ks token) rpm_limit)"
proof -
  have small: "rpm_limit < 2 ^ 53" using assms(2) by (simp add: u32_max_def)
  have "admitted_for token (rl_run l rpm_limit now ks) \<le> rpm_limit"
    by (rule run_bounded [OF assms(1) _ small])
      (use allowance_le [of l token rpm_limit now] small in \<open>simp add: f64_of_nat_exact\<close>)
  moreover have "admitted_for token (rl_run l rpm_limit now ks) = min (count_list ks token) rpm_limit"
    if "hm_get (rl_buckets l) token = None"
  proof (rule run_exact [OF assms(1) small])
    show "allowance l token rpm_limit now = of_nat rpm_limit"
      using that small
      by (simp add: allowance_def tb_new_def refill_at_once f64_of_nat_exact f64_round_of_nat)
  qed simp
  ultimately show ?thesis by blast
qed

theorem rate_limit_burst_witness:
  "admitted_for ''a'' (rl_run rl_new 2 0 [''a'', ''b'', ''a'', ''a'']) = 2"
  using rate_limit_burst [of 2 "''a''" rl_new 0 "[''a'', ''b'', ''a'', ''a'']"]
  by (simp add: rl_new_def u32_max_def)

end
