(* ===== verification/RoleNormalization.thy ===== *)
theory RoleNormalization
  imports Json
begin

text \<open>
  Role normalisation of chat messages
  (\<^verbatim>\<open>src/crates/crab-translator/src/role_normalization.rs\<close>): the three passes over the
  message list, the report they return, the shape of the result, the accounting of the report and
  idempotence. A message is any JSON value; only objects have a role.
\<close>

section \<open>The passes\<close>

record normalization_report =
  role_renames :: nat
  role_reorders :: nat
  consecutive_merges :: nat

definition normalize_role_name :: "string \<Rightarrow> string option" where
  "normalize_role_name role =
     (let r = to_lowercase role in
      if r \<in> {''user'', ''human'', ''input''} then Some ''user''
      else if r \<in> {''assistant'', ''bot'', ''ai'', ''model'', ''output''} then Some ''assistant''
      else if r = ''system'' then Some ''system''
      else if r = ''developer'' then Some ''developer''
      else if r \<in> {''tool'', ''function''} then Some ''tool''
      else None)"

definition rename_message :: "json \<Rightarrow> json \<times> nat" where
  \<comment> \<open>the body of the loop of pass 1\<close>
  "rename_message msg =
     (case json_get_str msg ''role'' of
        None \<Rightarrow> (msg, 0)
      | Some role \<Rightarrow>
          (case normalize_role_name role of
             None \<Rightarrow> (msg, 0)
           | Some normalized \<Rightarrow>
               if normalized \<noteq> role
               then (json_insert msg ''role'' (JStr normalized), 1)
               else (msg, 0)))"

definition normalize_role_names :: "json list \<Rightarrow> json list \<times> nat" where
  "normalize_role_names messages =
     (map (fst \<circ> rename_message) messages, sum_list (map (snd \<circ> rename_message) messages))"

definition role_of :: "json \<Rightarrow> string" where
  \<comment> \<open>\<open>msg.get("role").and_then(|r| r.as_str()).unwrap_or("")\<close>\<close>
  "role_of msg = (case json_get_str msg ''role'' of Some r \<Rightarrow> r | None \<Rightarrow> [])"

definition is_system_role :: "string \<Rightarrow> bool" where
  "is_system_role role \<longleftrightarrow> role = ''system'' \<or> role = ''developer''"

definition contents_of :: "json list \<Rightarrow> string list" where
  \<comment> \<open>\<open>iter().filter_map(|m| m.get("content").and_then(|c| c.as_str()))\<close>\<close>
  "contents_of ms = List.map_filter (\<lambda>m. json_get_str m ''content'') ms"

definition ensure_alternating_roles :: "json list \<Rightarrow> json list \<times> nat" where
  "ensure_alternating_roles messages =
     (let system_msgs = filter (\<lambda>m. is_system_role (role_of m)) messages;
          non_system = filter (\<lambda>m. \<not> is_system_role (role_of m)) messages
      in if length system_msgs > 1
         then ([json_insert (hd system_msgs) ''content''
                  (JStr (join (nl @ nl) (contents_of system_msgs)))] @ non_system,
               length system_msgs - 1)
         else (system_msgs @ non_system, 0))"

definition merge_into :: "json \<Rightarrow> json \<Rightarrow> json" where
  \<comment> \<open>the content of \<open>msg\<close> appended to the last message, when that has a string content\<close>
  "merge_into last_msg msg =
     (case json_get_str last_msg ''content'' of
        None \<Rightarrow> last_msg
      | Some existing \<Rightarrow>
          json_insert last_msg ''content''
            (JStr (existing @ nl @
               (case json_get_str msg ''content'' of Some c \<Rightarrow> c | None \<Rightarrow> []))))"

definition dedup_step :: "json list \<times> nat \<Rightarrow> json \<Rightarrow> json list \<times> nat" where
  \<comment> \<open>one iteration of the loop of pass 3 on \<open>merged\<close> and \<open>merges\<close>\<close>
  "dedup_step st msg =
     (let (merged, merges) = st; role = role_of msg in
      if merged \<noteq> [] \<and> role_of (List.last merged) = role \<and> role \<noteq> ''system'' \<and> role \<noteq> ''developer''
      then (butlast merged @ [merge_into (List.last merged) msg], merges + 1)
      else (merged @ [msg], merges))"

definition deduplicate_consecutive_roles :: "json list \<Rightarrow> json list \<times> nat" where
  "deduplicate_consecutive_roles messages =
     (if messages = [] then ([], 0) else foldl dedup_step ([], 0) messages)"

definition normalize_roles :: "json list \<Rightarrow> json list \<times> normalization_report" where
  "normalize_roles messages =
     (let (m1, r1) = normalize_role_names messages;
          (m2, r2) = ensure_alternating_roles m1;
          (m3, r3) = deduplicate_consecutive_roles m2
      in (m3, \<lparr>role_renames = r1, role_reorders = r2, consecutive_merges = r3\<rparr>))"

section \<open>Roles\<close>

lemma role_of_insert_content [simp]: "role_of (json_insert m ''content'' v) = role_of m"
  by (simp add: role_of_def)

lemma role_of_merge_into [simp]: "role_of (merge_into m msg) = role_of m"
  by (simp add: merge_into_def split: option.split)

lemma normalize_role_name_fixed:
  "normalize_role_name r = Some n \<Longrightarrow> normalize_role_name n = Some n"
proof -
  have lits: "normalize_role_name ''user'' = Some ''user''"
    "normalize_role_name ''assistant'' = Some ''assistant''"
    "normalize_role_name ''system'' = Some ''system''"
    "normalize_role_name ''developer'' = Some ''developer''"
    "normalize_role_name ''tool'' = Some ''tool''"
    by code_simp+
  assume "normalize_role_name r = Some n"
  then have "n \<in> {''user'', ''assistant'', ''system'', ''developer'', ''tool''}"
    unfolding normalize_role_name_def Let_def by (simp split: if_splits)
  then show ?thesis using lits by (elim insertE) simp_all
qed

lemma rename_message_idem: "rename_message (fst (rename_message m)) = (fst (rename_message m), 0)"
proof (cases "json_get_str m ''role''")
  case None
  then show ?thesis by (simp add: rename_message_def)
next
  case (Some r)
  then obtain kvs where "m = JObj kvs"
    by (cases m) (auto simp: json_get_str_def)
  then show ?thesis using Some
    by (auto simp: rename_message_def json_get_str_def update_conv'
        dest: normalize_role_name_fixed split: option.split)
qed

section \<open>The third pass\<close>

definition no_repeat :: "json list \<Rightarrow> bool" where
  \<comment> \<open>no message has the role of its predecessor, system messages aside\<close>
  "no_repeat ms \<longleftrightarrow> successively (\<lambda>r s. r = s \<longrightarrow> is_system_role s) (map role_of ms)"

lemma no_repeat_append:
  "no_repeat (ms @ ns) \<longleftrightarrow> no_repeat ms \<and> no_repeat ns \<and>
     (ms = [] \<or> ns = [] \<or>
      (role_of (List.last ms) = role_of (hd ns) \<longrightarrow> is_system_role (role_of (hd ns))))"
  by (cases "ms = []"; cases "ns = []")
    (simp_all add: no_repeat_def successively_append_iff last_map hd_map conj_assoc)

lemma no_repeat_single [simp]: "no_repeat [m]" "no_repeat []"
  by (simp_all add: no_repeat_def)

lemma dedup_step_cases:
  obtains (merge) "fst st \<noteq> []" "role_of (List.last (fst st)) = role_of msg"
      "\<not> is_system_role (role_of msg)"
      "dedup_step st msg = (butlast (fst st) @ [merge_into (List.last (fst st)) msg], snd st + 1)"
  | (push) "fst st = [] \<or> role_of (List.last (fst st)) \<noteq> role_of msg \<or> is_system_role (role_of msg)"
      "dedup_step st msg = (fst st @ [msg], snd st)"
proof (cases "fst st \<noteq> [] \<and> role_of (List.last (fst st)) = role_of msg \<and>
    \<not> is_system_role (role_of msg)")
  case True
  then show ?thesis
    by (intro merge) (auto simp: dedup_step_def is_system_role_def split_beta)
next
  case False
  then show ?thesis
    by (intro push) (auto simp: dedup_step_def is_system_role_def split_beta Let_def)
qed

lemma map_role_merge:
  "ms \<noteq> [] \<Longrightarrow> map role_of (butlast ms @ [merge_into (List.last ms) msg]) = map role_of ms"
  by (metis append_butlast_last_id list.simps(8) list.simps(9) map_append role_of_merge_into)

lemma dedup_step_no_repeat: "no_repeat (fst st) \<Longrightarrow> no_repeat (fst (dedup_step st msg))"
proof (cases rule: dedup_step_cases [of st msg])
  case merge
  assume "no_repeat (fst st)"
  then show ?thesis unfolding no_repeat_def merge(4) fst_conv map_role_merge [OF merge(1)] .
next
  case push
  assume "no_repeat (fst st)"
  then show ?thesis using push by (auto simp: no_repeat_append)
qed

lemma dedup_step_length:
  "length (fst (dedup_step st msg)) + snd (dedup_step st msg) = length (fst st) + snd st + 1"
proof (cases rule: dedup_step_cases [of st msg])
  case merge
  then have "0 < length (fst st)" by simp
  then show ?thesis using merge by simp
next
  case push
  then show ?thesis by simp
qed

lemma dedup_fold:
  assumes "no_repeat (fst st)"
  shows "no_repeat (fst (foldl dedup_step st ms))"
    and "length (fst (foldl dedup_step st ms)) + snd (foldl dedup_step st ms) =
         length (fst st) + snd st + length ms"
  using assms
proof (induction ms arbitrary: st)
  case (Cons m ms)
  case 1
  then show ?case using Cons.IH(1) dedup_step_no_repeat by simp
next
  case (Cons m ms)
  case 2
  then have "no_repeat (fst (dedup_step st m))" by (rule dedup_step_no_repeat)
  from Cons.IH(2) [OF this] show ?case using dedup_step_length [of st m] by simp
qed simp_all

lemma dedup_step_roles:
  "role_of ` set (fst (dedup_step st msg)) \<subseteq> insert (role_of msg) (role_of ` set (fst st))"
proof (cases rule: dedup_step_cases [of st msg])
  case merge
  then have "role_of ` set (fst (dedup_step st msg)) = role_of ` set (fst st)"
    using arg_cong [OF map_role_merge [OF merge(1), of msg], of set] by simp
  then show ?thesis by blast
next
  case push
  then show ?thesis by auto
qed

lemma dedup_fold_id:
  "no_repeat (ns @ ms) \<Longrightarrow> foldl dedup_step (ns, k) ms = (ns @ ms, k)"
proof (induction ms arbitrary: ns)
  case (Cons m ms)
  have m: "no_repeat (ns @ [m])" using Cons.prems by (auto simp: no_repeat_append)
  have "dedup_step (ns, k) m = (ns @ [m], k)"
  proof (cases rule: dedup_step_cases [of "(ns, k)" m])
    case merge
    then show ?thesis using m by (auto simp: no_repeat_append)
  qed simp
  then show ?case using Cons.IH [of "ns @ [m]"] Cons.prems by simp
qed simp

section \<open>The whole normalisation\<close>

lemma ensure_alternating_shape:
  "\<exists>sys rest. fst (ensure_alternating_roles ms) = sys @ rest \<and> length sys \<le> 1 \<and>
     (\<forall>m \<in> set sys. is_system_role (role_of m)) \<and>
     (\<forall>m \<in> set rest. \<not> is_system_role (role_of m)) \<and>
     length (sys @ rest) + snd (ensure_alternating_roles ms) = length ms"
proof -
  define sys where "sys = filter (\<lambda>m. is_system_role (role_of m)) ms"
  define rest where "rest = filter (\<lambda>m. \<not> is_system_role (role_of m)) ms"
  have len: "length sys + length rest = length ms"
    by (simp add: sys_def rest_def sum_length_filter_compl)
  have roles: "\<forall>m \<in> set sys. is_system_role (role_of m)"
    "\<forall>m \<in> set rest. \<not> is_system_role (role_of m)"
    by (auto simp: sys_def rest_def)
  show ?thesis
  proof (cases "length sys > 1")
    case True
    let ?m = "json_insert (hd sys) ''content'' (JStr (join (nl @ nl) (contents_of sys)))"
    have "hd sys \<in> set sys" using True by (intro hd_in_set) auto
    then have "is_system_role (role_of ?m)" using roles(1) by simp
    moreover have "ensure_alternating_roles ms = ([?m] @ rest, length sys - 1)"
      using True by (simp add: ensure_alternating_roles_def sys_def [symmetric] rest_def [symmetric])
    ultimately show ?thesis using roles(2) len True
      by (intro exI [of _ "[?m]"] exI [of _ rest]) auto
  next
    case False
    then have "ensure_alternating_roles ms = (sys @ rest, 0)"
      by (simp add: ensure_alternating_roles_def sys_def [symmetric] rest_def [symmetric])
    then show ?thesis using roles len False
      by (intro exI [of _ sys] exI [of _ rest]) auto
  qed
qed

lemma dedup_fold_prefix:
  "\<forall>m \<in> set rest. \<not> is_system_role (role_of m) \<Longrightarrow>
   \<forall>m \<in> set sys. is_system_role (role_of m) \<Longrightarrow>
   \<exists>rest'. fst (foldl dedup_step (sys @ out, k) rest) = sys @ rest' \<and>
     role_of ` set rest' \<subseteq> role_of ` (set out \<union> set rest)"
proof (induction rest arbitrary: out k)
  case Nil
  then show ?case by auto
next
  case (Cons m rest)
  have "\<exists>out' k'. dedup_step (sys @ out, k) m = (sys @ out', k') \<and>
      role_of ` set out' \<subseteq> role_of ` (set out \<union> {m})"
  proof (cases rule: dedup_step_cases [of "(sys @ out, k)" m])
    case merge
    have out: "out \<noteq> []"
    proof
      assume "out = []"
      then have "List.last sys \<in> set sys" "role_of (List.last sys) = role_of m" using merge by auto
      then show False using Cons.prems(2) merge(3) by auto
    qed
    have "map role_of (butlast out @ [merge_into (List.last out) m]) = map role_of out"
      by (rule map_role_merge [OF out])
    then have "role_of ` set (butlast out @ [merge_into (List.last out) m]) = role_of ` set out"
      by (metis list.set_map)
    then show ?thesis using merge(4) out
      by (intro exI [of _ "butlast out @ [merge_into (List.last out) m]"] exI [of _ "k + 1"])
        (auto simp: butlast_append)
  next
    case push
    then show ?thesis by (intro exI [of _ "out @ [m]"] exI [of _ k]) auto
  qed
  then obtain out' k' where step: "dedup_step (sys @ out, k) m = (sys @ out', k')"
    and sub: "role_of ` set out' \<subseteq> role_of ` (set out \<union> {m})" by blast
  have "\<forall>m \<in> set rest. \<not> is_system_role (role_of m)" using Cons.prems by simp
  from Cons.IH [OF this Cons.prems(2), of out' k'] obtain rest' where
    "fst (foldl dedup_step (sys @ out', k') rest) = sys @ rest'"
    "role_of ` set rest' \<subseteq> role_of ` (set out' \<union> set rest)" by blast
  then show ?case using step sub by (intro exI [of _ rest']) (auto simp: image_Un)
qed

lemma dedup_eq_fold: "deduplicate_consecutive_roles ms = foldl dedup_step ([], 0) ms"
  by (simp add: deduplicate_consecutive_roles_def)

lemma normal_shape:
  "\<exists>sys rest. fst (normalize_roles ms) = sys @ rest \<and> length sys \<le> 1 \<and>
     list_all (\<lambda>m. is_system_role (role_of m)) sys \<and>
     list_all (\<lambda>m. \<not> is_system_role (role_of m)) rest \<and>
     distinct_adj (map role_of rest)"
proof -
  obtain sys rest where sr: "fst (ensure_alternating_roles (fst (normalize_role_names ms))) = sys @ rest"
    and len: "length sys \<le> 1" and sys: "\<forall>m \<in> set sys. is_system_role (role_of m)"
    and rest: "\<forall>m \<in> set rest. \<not> is_system_role (role_of m)"
    using ensure_alternating_shape by blast
  have nr: "no_repeat sys" using len by (cases sys rule: remdups_adj.cases) auto
  then have fold_sys: "foldl dedup_step ([], 0) sys = (sys, 0)" using dedup_fold_id [of "[]" sys 0] by simp
  obtain rest' where r': "fst (foldl dedup_step (sys @ [], 0) rest) = sys @ rest'"
    and sub: "role_of ` set rest' \<subseteq> role_of ` (set [] \<union> set rest)"
    using dedup_fold_prefix [OF rest sys] by blast
  have out: "fst (normalize_roles ms) = sys @ rest'"
    using sr r' fold_sys by (simp add: normalize_roles_def split_beta dedup_eq_fold)
  have nsys: "\<forall>m \<in> set rest'. \<not> is_system_role (role_of m)" using sub rest by auto
  have "no_repeat (sys @ rest')" using dedup_fold(1) [of "(sys, 0)" rest] nr r' by simp
  then have "no_repeat rest'" by (simp add: no_repeat_append)
  then have "distinct_adj (map role_of rest')"
    unfolding no_repeat_def distinct_adj_def
    by (rule successively_mono) (use nsys in auto)
  then show ?thesis using out len sys nsys
    by (intro exI [of _ sys] exI [of _ rest']) (simp add: list_all_iff)
qed

text \<open>
  The normalised list starts with at most one system or developer message, no other message is
  one, and no two neighbours after it have the same role.
\<close>
theorem normalize_roles_shape:
  "\<exists>sys rest. fst (normalize_roles ms) = sys @ rest \<and> length sys \<le> 1 \<and>
     list_all (\<lambda>m. is_system_role (role_of m)) sys \<and>
     list_all (\<lambda>m. \<not> is_system_role (role_of m)) rest \<and>
     distinct_adj (map role_of rest)"
  by (rule normal_shape)

text \<open>
  Every message that disappears is accounted for: the result's length plus the reported
  reorders and merges is the number of messages given.
\<close>
theorem normalize_roles_accounts:
  "length (fst (normalize_roles ms)) + role_reorders (snd (normalize_roles ms)) +
     consecutive_merges (snd (normalize_roles ms)) = length ms"
proof -
  let ?m1 = "fst (normalize_role_names ms)"
  have "length (fst (ensure_alternating_roles ?m1)) + snd (ensure_alternating_roles ?m1) = length ms"
    using ensure_alternating_shape [of ?m1] by (auto simp: normalize_role_names_def)
  then show ?thesis using dedup_fold(2) [of "([], 0)" "fst (ensure_alternating_roles ?m1)"]
    by (simp add: normalize_roles_def split_beta dedup_eq_fold)
qed

lemma rename_message_role:
  "json_get_str (fst (rename_message m)) ''role'' =
     map_option (\<lambda>r. case normalize_role_name r of Some n \<Rightarrow> n | None \<Rightarrow> r) (json_get_str m ''role'')"
proof (cases "json_get_str m ''role''")
  case (Some r)
  then obtain kvs where "m = JObj kvs" by (cases m) (auto simp: json_get_str_def)
  then show ?thesis using Some
    by (cases "normalize_role_name r") (auto simp: rename_message_def json_get_str_def update_conv')
qed (simp add: rename_message_def)

definition normal_role :: "json \<Rightarrow> bool" where
  \<comment> \<open>pass 1 leaves the message as it is\<close>
  "normal_role m \<longleftrightarrow>
     (case json_get_str m ''role'' of
        None \<Rightarrow> True
      | Some r \<Rightarrow> (case normalize_role_name r of None \<Rightarrow> True | Some n \<Rightarrow> n = r))"

lemma normal_role_rename: "normal_role m \<Longrightarrow> rename_message m = (m, 0)"
  unfolding normal_role_def rename_message_def
  by (cases "json_get_str m ''role''"; simp; cases "normalize_role_name (the (json_get_str m ''role''))"; simp)

lemma rename_gives_normal: "normal_role (fst (rename_message m))"
  by (auto simp: normal_role_def rename_message_role dest: normalize_role_name_fixed
      split: option.splits)

lemma normal_role_insert_content [simp]: "normal_role (json_insert m ''content'' v) = normal_role m"
  by (simp add: normal_role_def)

lemma normal_role_merge_into [simp]: "normal_role (merge_into m msg) = normal_role m"
  by (simp add: merge_into_def split: option.split)

lemma dedup_step_normal:
  "list_all normal_role (fst st) \<Longrightarrow> normal_role m \<Longrightarrow> list_all normal_role (fst (dedup_step st m))"
proof (cases rule: dedup_step_cases [of st m])
  case merge
  assume "list_all normal_role (fst st)"
  moreover have "fst st = butlast (fst st) @ [List.last (fst st)]" using merge(1) by simp
  ultimately have "list_all normal_role (butlast (fst st) @ [List.last (fst st)])" by simp
  then show ?thesis using merge(4) by simp
qed auto

lemma dedup_fold_normal:
  "list_all normal_role (fst st) \<Longrightarrow> list_all normal_role ms \<Longrightarrow>
   list_all normal_role (fst (foldl dedup_step st ms))"
  by (induction ms arbitrary: st) (auto simp: dedup_step_normal)

lemma ensure_alternating_normal:
  assumes "list_all normal_role ms"
  shows "list_all normal_role (fst (ensure_alternating_roles ms))"
proof -
  have f: "list_all normal_role (filter P ms)" for P using assms by (auto simp: list_all_iff)
  show ?thesis
  proof (cases "length (filter (\<lambda>m. is_system_role (role_of m)) ms) > 1")
    case True
    then have "hd (filter (\<lambda>m. is_system_role (role_of m)) ms)
        \<in> set (filter (\<lambda>m. is_system_role (role_of m)) ms)" by (intro hd_in_set) auto
    then show ?thesis using assms f True by (auto simp: ensure_alternating_roles_def list_all_iff Let_def)
  qed (simp add: ensure_alternating_roles_def f)
qed

lemma ensure_alternating_id:
  assumes "length sys \<le> 1" "list_all (\<lambda>m. is_system_role (role_of m)) sys"
    "list_all (\<lambda>m. \<not> is_system_role (role_of m)) rest"
  shows "ensure_alternating_roles (sys @ rest) = (sys @ rest, 0)"
proof -
  have "filter (\<lambda>m. is_system_role (role_of m)) (sys @ rest) = sys"
    "filter (\<lambda>m. \<not> is_system_role (role_of m)) (sys @ rest) = rest"
    using assms by (auto simp: list_all_iff filter_empty_conv filter_id_conv)
  then show ?thesis using assms(1) unfolding ensure_alternating_roles_def Let_def by simp
qed

text \<open>
  Normalising a normalised list changes nothing and reports nothing.
\<close>
theorem normalize_roles_idempotent:
  "normalize_roles (fst (normalize_roles ms)) =
     (fst (normalize_roles ms), \<lparr>role_renames = 0, role_reorders = 0, consecutive_merges = 0\<rparr>)"
proof -
  let ?m1 = "fst (normalize_role_names ms)" and ?out = "fst (normalize_roles ms)"
  let ?m2 = "fst (ensure_alternating_roles ?m1)"
  have out: "?out = fst (foldl dedup_step ([], 0) ?m2)"
    by (simp add: normalize_roles_def split_beta dedup_eq_fold)
  have "list_all normal_role ?m1"
    by (simp add: normalize_role_names_def list_all_iff rename_gives_normal)
  then have "list_all normal_role ?out"
    unfolding out by (intro dedup_fold_normal ensure_alternating_normal) simp_all
  then have p1: "normalize_role_names ?out = (?out, 0)"
    by (auto simp: normalize_role_names_def list_all_iff normal_role_rename intro: map_idI)
  obtain sys rest where sr: "?out = sys @ rest" "length sys \<le> 1"
    "list_all (\<lambda>m. is_system_role (role_of m)) sys"
    "list_all (\<lambda>m. \<not> is_system_role (role_of m)) rest"
    using normal_shape [of ms] by blast
  have p2: "ensure_alternating_roles ?out = (?out, 0)"
    using ensure_alternating_id [OF sr(2-4)] sr(1) by simp
  have "no_repeat ?out" unfolding out by (rule dedup_fold(1)) simp
  then have p3: "deduplicate_consecutive_roles ?out = (?out, 0)"
    using dedup_fold_id [of "[]" ?out 0] by (simp add: dedup_eq_fold)
  show ?thesis by (simp add: normalize_roles_def [of ?out] p1 p2 p3)
qed

text \<open>
  When two neighbours have the same role and the first one's content is not a string (a list of
  parts, as images are sent), the second message is dropped with its content.
\<close>
theorem merge_drops_content:
  "normalize_roles [JObj [(''role'', JStr ''user''), (''content'', JArr parts)],
                    JObj [(''role'', JStr ''user''), (''content'', JStr text)]] =
     ([JObj [(''role'', JStr ''user''), (''content'', JArr parts)]],
      \<lparr>role_renames = 0, role_reorders = 0, consecutive_merges = 1\<rparr>)"
proof -
  let ?a = "JObj [(''role'', JStr ''user''), (''content'', JArr parts)]"
  let ?b = "JObj [(''role'', JStr ''user''), (''content'', JStr text)]"
  have u: "normalize_role_name ''user'' = Some ''user''" by code_simp
  have r: "role_of ?a = ''user''" "role_of ?b = ''user''" by (simp_all add: role_of_def json_get_str_def)
  have n: "\<not> is_system_role ''user''" by (simp add: is_system_role_def)
  have "normalize_role_names [?a, ?b] = ([?a, ?b], 0)"
    by (simp add: normalize_role_names_def rename_message_def json_get_str_def u)
  moreover have "ensure_alternating_roles [?a, ?b] = ([?a, ?b], 0)"
    by (simp add: ensure_alternating_roles_def r n)
  moreover have "deduplicate_consecutive_roles [?a, ?b] = ([?a], 1)"
    by (simp add: dedup_eq_fold dedup_step_def r merge_into_def json_get_str_def)
  ultimately show ?thesis by (simp add: normalize_roles_def)
qed

end
