(* ===== verification/Translator.thy ===== *)
theory Translator
  imports Json
begin

text \<open>
  Wire formats and the translator registry
  (\<^verbatim>\<open>src/crates/crab-translator/src/lib.rs\<close>): detection of the format from path and
  method, its textual form, and the registry that sends a payload through the translator registered
  for its format. A translator is a trait object of the caller, so it is a record of functions here.
\<close>

datatype translation_error =
    UnsupportedFormat string
  | MissingField string
  | InvalidStructure string
  | Serialization string

datatype wire_format = ChatCompletions | Responses | AnthropicFormat | Canonical

definition wire_detect :: "string \<Rightarrow> string \<Rightarrow> wire_format" where
  "wire_detect path meth =
     (if meth = ''POST''
      then if ends_with path ''/v1/responses'' \<or> path = ''/v1/responses'' then Responses
           else if ends_with path ''/v1/messages'' \<or> path = ''/v1/messages'' then AnthropicFormat
           else if ends_with path ''/v1/chat/completions'' \<or> path = ''/chat/completions''
           then ChatCompletions
           else ChatCompletions
      else ChatCompletions)"

fun wire_as_str :: "wire_format \<Rightarrow> string" where
  "wire_as_str ChatCompletions = ''chat_completions''"
| "wire_as_str Responses = ''responses''"
| "wire_as_str AnthropicFormat = ''anthropic''"
| "wire_as_str Canonical = ''canonical''"

definition wire_from_str :: "string \<Rightarrow> wire_format" where
  "wire_from_str s =
     (let l = to_lowercase s in
      if l \<in> {''chat_completions'', ''chat'', ''completions''} then ChatCompletions
      else if l = ''responses'' then Responses
      else if l \<in> {''anthropic'', ''messages''} then AnthropicFormat
      else if l = ''canonical'' then Canonical
      else ChatCompletions)"

record request_translator =
  source_format :: wire_format
  rt_translate :: "json \<Rightarrow> translation_error + json"
  can_translate :: "json \<Rightarrow> bool"

record response_translator =
  target_format :: wire_format
  st_translate :: "json \<Rightarrow> translation_error + json"

record translator_registry =
  request_translators :: "(wire_format, request_translator) hmap"
  response_translators :: "(wire_format, response_translator) hmap"

definition registry_new :: translator_registry where
  "registry_new = \<lparr>request_translators = [], response_translators = []\<rparr>"

definition register_request_translator ::
    "translator_registry \<Rightarrow> request_translator \<Rightarrow> translator_registry" where
  "register_request_translator r t =
     r\<lparr>request_translators := hm_insert (request_translators r) (source_format t) t\<rparr>"

definition register_response_translator ::
    "translator_registry \<Rightarrow> response_translator \<Rightarrow> translator_registry" where
  "register_response_translator r t =
     r\<lparr>response_translators := hm_insert (response_translators r) (target_format t) t\<rparr>"

definition translate_request ::
    "translator_registry \<Rightarrow> wire_format \<Rightarrow> json \<Rightarrow> translation_error + json" where
  "translate_request r fmt payload =
     (if fmt = Canonical \<or> fmt = ChatCompletions then Inr payload
      else case hm_get (request_translators r) fmt of
             Some t \<Rightarrow> if can_translate t payload then rt_translate t payload else Inr payload
           | None \<Rightarrow> Inr payload)"

definition translate_response ::
    "translator_registry \<Rightarrow> wire_format \<Rightarrow> json \<Rightarrow> translation_error + json" where
  "translate_response r fmt payload =
     (if fmt = Canonical \<or> fmt = ChatCompletions then Inr payload
      else case hm_get (response_translators r) fmt of
             Some t \<Rightarrow> st_translate t payload
           | None \<Rightarrow> Inr payload)"

lemma wire_from_as_str: "wire_from_str (wire_as_str f) = f"
  by (cases f; hypsubst; code_simp)

lemma wire_detect_responses_iff:
  "wire_detect path meth = Responses \<longleftrightarrow> meth = ''POST'' \<and> ends_with path ''/v1/responses''"
  by (auto simp: wire_detect_def ends_with_iff)

definition registry_ok :: "translator_registry \<Rightarrow> bool" where
  \<comment> \<open>every translator is stored under the format it declares\<close>
  "registry_ok r \<longleftrightarrow>
     (\<forall>f t. hm_get (request_translators r) f = Some t \<longrightarrow> source_format t = f) \<and>
     (\<forall>f t. hm_get (response_translators r) f = Some t \<longrightarrow> target_format t = f)"

lemma registry_ok_new: "registry_ok registry_new"
  by (simp add: registry_ok_def registry_new_def)

lemma registry_ok_register_request:
  "registry_ok r \<Longrightarrow> registry_ok (register_request_translator r t)"
  by (simp add: registry_ok_def register_request_translator_def)

lemma registry_ok_register_response:
  "registry_ok r \<Longrightarrow> registry_ok (register_response_translator r t)"
  by (simp add: registry_ok_def register_response_translator_def)

lemma translate_request_identity:
  "hm_get (request_translators r) f = None \<or> f = Canonical \<or> f = ChatCompletions \<Longrightarrow>
   translate_request r f payload = Inr payload"
  by (auto simp: translate_request_def)

lemma translate_request_registered:
  assumes "source_format t \<noteq> Canonical" "source_format t \<noteq> ChatCompletions" "can_translate t payload"
  shows "translate_request (register_request_translator r t) (source_format t) payload =
         rt_translate t payload"
  using assms by (simp add: translate_request_def register_request_translator_def)

end
