(* ===== verification/PipelineTypes.thy ===== *)
theory PipelineTypes
  imports Translator
begin

text \<open>
  The types of pipeline selection (\<^verbatim>\<open>src/crates/crab-pipeline/src/types.rs\<close>): pipelines,
  providers, overrides, modes and reasons with their textual forms, and the structures that the
  selection reads and returns. The provider enumeration is long; its constructors are kept in the
  groups that the comments of the source make (the last group cut in four), so that a provider is
  \<open>Deepseek\<close> or, say, \<open>China Glm\<close>.
\<close>

section \<open>Pipelines\<close>

datatype request_pipeline =
    CursorDeepSeekV4 | DeepSeekLight | MimoTokenPlanRelay | GenericRelay | CodexRelay
  | CodexDeepSeek | CodexMimo

fun pipeline_as_str :: "request_pipeline \<Rightarrow> string" where
  "pipeline_as_str CursorDeepSeekV4 = ''cursor_deepseek_v4''"
| "pipeline_as_str DeepSeekLight = ''deepseek_light''"
| "pipeline_as_str MimoTokenPlanRelay = ''mimo_token_plan_relay''"
| "pipeline_as_str GenericRelay = ''generic_relay''"
| "pipeline_as_str CodexRelay = ''codex_relay''"
| "pipeline_as_str CodexDeepSeek = ''codex_deepseek''"
| "pipeline_as_str CodexMimo = ''codex_mimo''"

definition pipeline_from_str :: "string \<Rightarrow> request_pipeline" where
  "pipeline_from_str s =
     (let l = to_lowercase s in
      if l = ''cursor_deepseek_v4'' then CursorDeepSeekV4
      else if l = ''deepseek_light'' then DeepSeekLight
      else if l = ''mimo_token_plan_relay'' \<or> l = ''mimo_payg_relay'' then MimoTokenPlanRelay
      else if l = ''generic_relay'' then GenericRelay
      else if l = ''codex_relay'' then CodexRelay
      else if l = ''codex_deepseek'' then CodexDeepSeek
      else if l = ''codex_mimo'' then CodexMimo
      else GenericRelay)"

section \<open>Providers\<close>

datatype international_provider =
    Groq | Xai | Mistral | Gemini | Perplexity | Together | Fireworks | Cerebras | Cohere | Nvidia
   | Nebius | Siliconflow | Hyperbolic | OpenRouter | Reka

datatype cloud_provider =
    AzureOpenai | AzureAi | Bedrock | VertexAi | Watsonx | Oci | Sap

datatype china_provider =
    Alibaba | Qianfan | Glm | Kimi | Minimax | Moonshot | Volcengine | Doubao | Tencent | Iflytek
   | Baichuan | Yi | Stepfun | Ai360 | Sensenova | Sparkdesk | Coze | Baidu

datatype inference_provider_a =
    DeepInfra | LambdaAi | Sambanova | Nscale | Ovhcloud | Baseten | Databricks | Snowflake
   | Wandb | Ai21 | Gigachat | Venice | Codestral | Upstage | Maritalk | Modal | Huggingface
   | GitHubModels | VercelAiGateway | MetaLlama | V0Vercel | Morph | FeatherlessAi

datatype inference_provider_b =
    Llm7 | Lepton | Kluster | Friendliai | Llamagate | Heroku | Galadriel | Datarobot | Clarifai
   | Gitlawb | InferenceNet | Nanogpt | Predibase | Bytez | Aimlapi | Novita | Piapi | Getgoapi
   | Laozhang | Glhf | Cablyai | Thebai | Fenayai

datatype inference_provider_c =
    Empower | NousResearch | Petals | Poe | Gitlab | Chutes | VoyageAi | JinaAi | FalAi
   | StabilityAi | BlackForestLabs | Recraft | Poolside | ArceeAi | Inclusionai | Liquid | Nomic
   | Krutrim | Monsterapi | Byteplus | Bluesminds | FreemodelDev | Blackbox

datatype inference_provider_d =
    Bazaarlink | Completions | Enally | Freetheai | Crof | Longcat | Pollinations | Puter
   | Uncloseai | Replicate | OllamaCloud | Agentrouter | CommandCode | Astraflow | OpencodeZen
   | OpencodeGo | Zai | Phind | Huggingchat | Dify | Publicai | Sapio | Freeaiapikey

datatype upstream_provider =
    Deepseek | Mimo | Openai | Codex | Anthropic | International international_provider
   | Cloud cloud_provider | China china_provider | InferenceA inference_provider_a
   | InferenceB inference_provider_b | InferenceC inference_provider_c
   | InferenceD inference_provider_d | Other

definition provider_names :: "(string \<times> upstream_provider) list" where
  \<comment> \<open>the arms of the match, in order\<close>
  "provider_names =
     [(''deepseek'', Deepseek), (''mimo'', Mimo), (''openai'', Openai), (''codex'', Codex),
      (''anthropic'', Anthropic), (''groq'', International Groq), (''xai'', International Xai),
      (''grok'', International Xai), (''mistral'', International Mistral),
      (''gemini'', International Gemini), (''google'', International Gemini),
      (''perplexity'', International Perplexity), (''pplx'', International Perplexity),
      (''together'', International Together), (''fireworks'', International Fireworks),
      (''cerebras'', International Cerebras), (''cohere'', International Cohere),
      (''nvidia'', International Nvidia), (''nim'', International Nvidia),
      (''nebius'', International Nebius), (''siliconflow'', International Siliconflow),
      (''hyperbolic'', International Hyperbolic), (''hyp'', International Hyperbolic),
      (''openrouter'', International OpenRouter), (''reka'', International Reka),
      (''azure-openai'', Cloud AzureOpenai), (''azure-ai'', Cloud AzureAi),
      (''azure-ai-foundry'', Cloud AzureAi), (''bedrock'', Cloud Bedrock),
      (''aws'', Cloud Bedrock), (''vertex'', Cloud VertexAi), (''vertex-ai'', Cloud VertexAi),
      (''watsonx'', Cloud Watsonx), (''ibm'', Cloud Watsonx), (''oci'', Cloud Oci),
      (''oracle'', Cloud Oci), (''sap'', Cloud Sap), (''alibaba'', China Alibaba),
      (''ali'', China Alibaba), (''qwen'', China Alibaba), (''dashscope'', China Alibaba),
      (''alibaba-cn'', China Alibaba), (''ali-cn'', China Alibaba), (''qianfan'', China Qianfan),
      (''baidu-cloud'', China Qianfan), (''glm'', China Glm), (''zhipu'', China Glm),
      (''bigmodel'', China Glm), (''glm-cn'', China Glm), (''glmcn'', China Glm),
      (''glmt'', China Glm), (''kimi'', China Kimi), (''moonshot-ai'', China Kimi),
      (''kimi-coding-apikey'', China Kimi), (''kmca'', China Kimi), (''minimax'', China Minimax),
      (''minimax-cn'', China Minimax), (''moonshot'', China Moonshot),
      (''volcengine'', China Volcengine), (''volc'', China Volcengine),
      (''doubao'', China Doubao), (''tencent'', China Tencent), (''hunyuan'', China Tencent),
      (''iflytek'', China Iflytek), (''spark'', China Iflytek), (''xinghuo'', China Iflytek),
      (''baichuan'', China Baichuan), (''yi'', China Yi), (''01-ai'', China Yi),
      (''lingyiwanwu'', China Yi), (''stepfun'', China Stepfun), (''step'', China Stepfun),
      (''360ai'', China Ai360), (''360'', China Ai360), (''sensenova'', China Sensenova),
      (''sensetime'', China Sensenova), (''sparkdesk'', China Sparkdesk), (''coze'', China Coze),
      (''baidu'', China Baidu), (''ernie'', China Baidu), (''yiyan'', China Baidu),
      (''deepinfra'', InferenceA DeepInfra), (''lambda'', InferenceA LambdaAi),
      (''lambda-ai'', InferenceA LambdaAi), (''sambanova'', InferenceA Sambanova),
      (''nscale'', InferenceA Nscale), (''ovhcloud'', InferenceA Ovhcloud),
      (''ovh'', InferenceA Ovhcloud), (''baseten'', InferenceA Baseten),
      (''databricks'', InferenceA Databricks), (''snowflake'', InferenceA Snowflake),
      (''wandb'', InferenceA Wandb), (''weights-biases'', InferenceA Wandb),
      (''ai21'', InferenceA Ai21), (''gigachat'', InferenceA Gigachat),
      (''sber'', InferenceA Gigachat), (''venice'', InferenceA Venice),
      (''codestral'', InferenceA Codestral), (''upstage'', InferenceA Upstage),
      (''maritalk'', InferenceA Maritalk), (''maritaca'', InferenceA Maritalk),
      (''modal'', InferenceA Modal), (''huggingface'', InferenceA Huggingface),
      (''hf'', InferenceA Huggingface), (''github-models'', InferenceA GitHubModels),
      (''vercel-ai-gateway'', InferenceA VercelAiGateway),
      (''vercel'', InferenceA VercelAiGateway), (''meta-llama'', InferenceA MetaLlama),
      (''meta'', InferenceA MetaLlama), (''v0-vercel'', InferenceA V0Vercel),
      (''v0'', InferenceA V0Vercel), (''morph'', InferenceA Morph),
      (''featherless'', InferenceA FeatherlessAi),
      (''featherless-ai'', InferenceA FeatherlessAi), (''llm7'', InferenceB Llm7),
      (''lepton'', InferenceB Lepton), (''kluster'', InferenceB Kluster),
      (''friendli'', InferenceB Friendliai), (''friendliai'', InferenceB Friendliai),
      (''llamagate'', InferenceB Llamagate), (''heroku'', InferenceB Heroku),
      (''galadriel'', InferenceB Galadriel), (''datarobot'', InferenceB Datarobot),
      (''clarifai'', InferenceB Clarifai), (''gitlawb'', InferenceB Gitlawb),
      (''inference-net'', InferenceB InferenceNet), (''nanogpt'', InferenceB Nanogpt),
      (''predibase'', InferenceB Predibase), (''bytez'', InferenceB Bytez),
      (''aimlapi'', InferenceB Aimlapi), (''aiml'', InferenceB Aimlapi),
      (''ai/ml-api'', InferenceB Aimlapi), (''novita'', InferenceB Novita),
      (''novita-ai'', InferenceB Novita), (''piapi'', InferenceB Piapi),
      (''getgoapi'', InferenceB Getgoapi), (''goapi'', InferenceB Getgoapi),
      (''laozhang'', InferenceB Laozhang), (''laozhang-ai'', InferenceB Laozhang),
      (''glhf'', InferenceB Glhf), (''cablyai'', InferenceB Cablyai),
      (''thebai'', InferenceB Thebai), (''fenayai'', InferenceB Fenayai),
      (''empower'', InferenceC Empower), (''nous-research'', InferenceC NousResearch),
      (''nous'', InferenceC NousResearch), (''petals'', InferenceC Petals),
      (''poe'', InferenceC Poe), (''gitlab'', InferenceC Gitlab),
      (''gitlab-duo-pat'', InferenceC Gitlab), (''chutes'', InferenceC Chutes),
      (''chutes-ai'', InferenceC Chutes), (''voyage-ai'', InferenceC VoyageAi),
      (''voyage'', InferenceC VoyageAi), (''jina-ai'', InferenceC JinaAi),
      (''jina'', InferenceC JinaAi), (''fal-ai'', InferenceC FalAi), (''fal'', InferenceC FalAi),
      (''stability-ai'', InferenceC StabilityAi), (''stability'', InferenceC StabilityAi),
      (''black-forest-labs'', InferenceC BlackForestLabs), (''bfl'', InferenceC BlackForestLabs),
      (''recraft'', InferenceC Recraft), (''poolside'', InferenceC Poolside),
      (''arcee'', InferenceC ArceeAi), (''arcee-ai'', InferenceC ArceeAi),
      (''inclusionai'', InferenceC Inclusionai), (''inclusion'', InferenceC Inclusionai),
      (''liquid'', InferenceC Liquid), (''liquid-ai'', InferenceC Liquid),
      (''nomic'', InferenceC Nomic), (''krutrim'', InferenceC Krutrim),
      (''monsterapi'', InferenceC Monsterapi), (''monster'', InferenceC Monsterapi),
      (''byteplus'', InferenceC Byteplus), (''bluesminds'', InferenceC Bluesminds),
      (''blues'', InferenceC Bluesminds), (''freemodel-dev'', InferenceC FreemodelDev),
      (''freemodel'', InferenceC FreemodelDev), (''blackbox'', InferenceC Blackbox),
      (''blackbox-ai'', InferenceC Blackbox), (''bazaarlink'', InferenceD Bazaarlink),
      (''completions'', InferenceD Completions), (''completions-me'', InferenceD Completions),
      (''enally'', InferenceD Enally), (''enally-ai'', InferenceD Enally),
      (''freetheai'', InferenceD Freetheai), (''free-the-ai'', InferenceD Freetheai),
      (''crof'', InferenceD Crof), (''crofai'', InferenceD Crof),
      (''longcat'', InferenceD Longcat), (''longcat-ai'', InferenceD Longcat),
      (''pollinations'', InferenceD Pollinations), (''puter'', InferenceD Puter),
      (''puter-ai'', InferenceD Puter), (''uncloseai'', InferenceD Uncloseai),
      (''replicate'', InferenceD Replicate), (''ollama-cloud'', InferenceD OllamaCloud),
      (''ollama'', InferenceD OllamaCloud), (''agentrouter'', InferenceD Agentrouter),
      (''command-code'', InferenceD CommandCode), (''cmd'', InferenceD CommandCode),
      (''astraflow'', InferenceD Astraflow), (''opencode-zen'', InferenceD OpencodeZen),
      (''opencode-go'', InferenceD OpencodeGo), (''zai'', InferenceD Zai),
      (''z-ai'', InferenceD Zai), (''phind'', InferenceD Phind),
      (''huggingchat'', InferenceD Huggingchat), (''dify'', InferenceD Dify),
      (''publicai'', InferenceD Publicai), (''public-ai'', InferenceD Publicai),
      (''sapio'', InferenceD Sapio), (''freeaiapikey'', InferenceD Freeaiapikey),
      (''free-ai-api-key'', InferenceD Freeaiapikey)]"

definition provider_from_str :: "string \<Rightarrow> upstream_provider" where
  "provider_from_str s =
     (case map_of provider_names (to_lowercase s) of Some p \<Rightarrow> p | None \<Rightarrow> Other)"

fun international_provider_as_str :: "international_provider \<Rightarrow> string" where
  "international_provider_as_str Groq = ''groq''"
| "international_provider_as_str Xai = ''xai''"
| "international_provider_as_str Mistral = ''mistral''"
| "international_provider_as_str Gemini = ''gemini''"
| "international_provider_as_str Perplexity = ''perplexity''"
| "international_provider_as_str Together = ''together''"
| "international_provider_as_str Fireworks = ''fireworks''"
| "international_provider_as_str Cerebras = ''cerebras''"
| "international_provider_as_str Cohere = ''cohere''"
| "international_provider_as_str Nvidia = ''nvidia''"
| "international_provider_as_str Nebius = ''nebius''"
| "international_provider_as_str Siliconflow = ''siliconflow''"
| "international_provider_as_str Hyperbolic = ''hyperbolic''"
| "international_provider_as_str OpenRouter = ''openrouter''"
| "international_provider_as_str Reka = ''reka''"

fun cloud_provider_as_str :: "cloud_provider \<Rightarrow> string" where
  "cloud_provider_as_str AzureOpenai = ''azure-openai''"
| "cloud_provider_as_str AzureAi = ''azure-ai''"
| "cloud_provider_as_str Bedrock = ''bedrock''"
| "cloud_provider_as_str VertexAi = ''vertex-ai''"
| "cloud_provider_as_str Watsonx = ''watsonx''"
| "cloud_provider_as_str Oci = ''oci''"
| "cloud_provider_as_str Sap = ''sap''"

fun china_provider_as_str :: "china_provider \<Rightarrow> string" where
  "china_provider_as_str Alibaba = ''alibaba''"
| "china_provider_as_str Qianfan = ''qianfan''"
| "china_provider_as_str Glm = ''glm''"
| "china_provider_as_str Kimi = ''kimi''"
| "china_provider_as_str Minimax = ''minimax''"
| "china_provider_as_str Moonshot = ''moonshot''"
| "china_provider_as_str Volcengine = ''volcengine''"
| "china_provider_as_str Doubao = ''doubao''"
| "china_provider_as_str Tencent = ''tencent''"
| "china_provider_as_str Iflytek = ''iflytek''"
| "china_provider_as_str Baichuan = ''baichuan''"
| "china_provider_as_str Yi = ''yi''"
| "china_provider_as_str Stepfun = ''stepfun''"
| "china_provider_as_str Ai360 = ''360ai''"
| "china_provider_as_str Sensenova = ''sensenova''"
| "china_provider_as_str Sparkdesk = ''sparkdesk''"
| "china_provider_as_str Coze = ''coze''"
| "china_provider_as_str Baidu = ''baidu''"

fun inference_provider_a_as_str :: "inference_provider_a \<Rightarrow> string" where
  "inference_provider_a_as_str DeepInfra = ''deepinfra''"
| "inference_provider_a_as_str LambdaAi = ''lambda-ai''"
| "inference_provider_a_as_str Sambanova = ''sambanova''"
| "inference_provider_a_as_str Nscale = ''nscale''"
| "inference_provider_a_as_str Ovhcloud = ''ovhcloud''"
| "inference_provider_a_as_str Baseten = ''baseten''"
| "inference_provider_a_as_str Databricks = ''databricks''"
| "inference_provider_a_as_str Snowflake = ''snowflake''"
| "inference_provider_a_as_str Wandb = ''wandb''"
| "inference_provider_a_as_str Ai21 = ''ai21''"
| "inference_provider_a_as_str Gigachat = ''gigachat''"
| "inference_provider_a_as_str Venice = ''venice''"
| "inference_provider_a_as_str Codestral = ''codestral''"
| "inference_provider_a_as_str Upstage = ''upstage''"
| "inference_provider_a_as_str Maritalk = ''maritalk''"
| "inference_provider_a_as_str Modal = ''modal''"
| "inference_provider_a_as_str Huggingface = ''huggingface''"
| "inference_provider_a_as_str GitHubModels = ''github-models''"
| "inference_provider_a_as_str VercelAiGateway = ''vercel-ai-gateway''"
| "inference_provider_a_as_str MetaLlama = ''meta-llama''"
| "inference_provider_a_as_str V0Vercel = ''v0-vercel''"
| "inference_provider_a_as_str Morph = ''morph''"
| "inference_provider_a_as_str FeatherlessAi = ''featherless-ai''"

fun inference_provider_b_as_str :: "inference_provider_b \<Rightarrow> string" where
  "inference_provider_b_as_str Llm7 = ''llm7''"
| "inference_provider_b_as_str Lepton = ''lepton''"
| "inference_provider_b_as_str Kluster = ''kluster''"
| "inference_provider_b_as_str Friendliai = ''friendliai''"
| "inference_provider_b_as_str Llamagate = ''llamagate''"
| "inference_provider_b_as_str Heroku = ''heroku''"
| "inference_provider_b_as_str Galadriel = ''galadriel''"
| "inference_provider_b_as_str Datarobot = ''datarobot''"
| "inference_provider_b_as_str Clarifai = ''clarifai''"
| "inference_provider_b_as_str Gitlawb = ''gitlawb''"
| "inference_provider_b_as_str InferenceNet = ''inference-net''"
| "inference_provider_b_as_str Nanogpt = ''nanogpt''"
| "inference_provider_b_as_str Predibase = ''predibase''"
| "inference_provider_b_as_str Bytez = ''bytez''"
| "inference_provider_b_as_str Aimlapi = ''aimlapi''"
| "inference_provider_b_as_str Novita = ''novita''"
| "inference_provider_b_as_str Piapi = ''piapi''"
| "inference_provider_b_as_str Getgoapi = ''getgoapi''"
| "inference_provider_b_as_str Laozhang = ''laozhang''"
| "inference_provider_b_as_str Glhf = ''glhf''"
| "inference_provider_b_as_str Cablyai = ''cablyai''"
| "inference_provider_b_as_str Thebai = ''thebai''"
| "inference_provider_b_as_str Fenayai = ''fenayai''"

fun inference_provider_c_as_str :: "inference_provider_c \<Rightarrow> string" where
  "inference_provider_c_as_str Empower = ''empower''"
| "inference_provider_c_as_str NousResearch = ''nous-research''"
| "inference_provider_c_as_str Petals = ''petals''"
| "inference_provider_c_as_str Poe = ''poe''"
| "inference_provider_c_as_str Gitlab = ''gitlab''"
| "inference_provider_c_as_str Chutes = ''chutes''"
| "inference_provider_c_as_str VoyageAi = ''voyage-ai''"
| "inference_provider_c_as_str JinaAi = ''jina-ai''"
| "inference_provider_c_as_str FalAi = ''fal-ai''"
| "inference_provider_c_as_str StabilityAi = ''stability-ai''"
| "inference_provider_c_as_str BlackForestLabs = ''black-forest-labs''"
| "inference_provider_c_as_str Recraft = ''recraft''"
| "inference_provider_c_as_str Poolside = ''poolside''"
| "inference_provider_c_as_str ArceeAi = ''arcee-ai''"
| "inference_provider_c_as_str Inclusionai = ''inclusionai''"
| "inference_provider_c_as_str Liquid = ''liquid''"
| "inference_provider_c_as_str Nomic = ''nomic''"
| "inference_provider_c_as_str Krutrim = ''krutrim''"
| "inference_provider_c_as_str Monsterapi = ''monsterapi''"
| "inference_provider_c_as_str Byteplus = ''byteplus''"
| "inference_provider_c_as_str Bluesminds = ''bluesminds''"
| "inference_provider_c_as_str FreemodelDev = ''freemodel-dev''"
| "inference_provider_c_as_str Blackbox = ''blackbox''"

fun inference_provider_d_as_str :: "inference_provider_d \<Rightarrow> string" where
  "inference_provider_d_as_str Bazaarlink = ''bazaarlink''"
| "inference_provider_d_as_str Completions = ''completions''"
| "inference_provider_d_as_str Enally = ''enally''"
| "inference_provider_d_as_str Freetheai = ''freetheai''"
| "inference_provider_d_as_str Crof = ''crof''"
| "inference_provider_d_as_str Longcat = ''longcat''"
| "inference_provider_d_as_str Pollinations = ''pollinations''"
| "inference_provider_d_as_str Puter = ''puter''"
| "inference_provider_d_as_str Uncloseai = ''uncloseai''"
| "inference_provider_d_as_str Replicate = ''replicate''"
| "inference_provider_d_as_str OllamaCloud = ''ollama-cloud''"
| "inference_provider_d_as_str Agentrouter = ''agentrouter''"
| "inference_provider_d_as_str CommandCode = ''command-code''"
| "inference_provider_d_as_str Astraflow = ''astraflow''"
| "inference_provider_d_as_str OpencodeZen = ''opencode-zen''"
| "inference_provider_d_as_str OpencodeGo = ''opencode-go''"
| "inference_provider_d_as_str Zai = ''zai''"
| "inference_provider_d_as_str Phind = ''phind''"
| "inference_provider_d_as_str Huggingchat = ''huggingchat''"
| "inference_provider_d_as_str Dify = ''dify''"
| "inference_provider_d_as_str Publicai = ''publicai''"
| "inference_provider_d_as_str Sapio = ''sapio''"
| "inference_provider_d_as_str Freeaiapikey = ''freeaiapikey''"

fun provider_as_str :: "upstream_provider \<Rightarrow> string" where
  "provider_as_str Deepseek = ''deepseek''"
| "provider_as_str Mimo = ''mimo''"
| "provider_as_str Openai = ''openai''"
| "provider_as_str Codex = ''codex''"
| "provider_as_str Anthropic = ''anthropic''"
| "provider_as_str (International p) = international_provider_as_str p"
| "provider_as_str (Cloud p) = cloud_provider_as_str p"
| "provider_as_str (China p) = china_provider_as_str p"
| "provider_as_str (InferenceA p) = inference_provider_a_as_str p"
| "provider_as_str (InferenceB p) = inference_provider_b_as_str p"
| "provider_as_str (InferenceC p) = inference_provider_c_as_str p"
| "provider_as_str (InferenceD p) = inference_provider_d_as_str p"
| "provider_as_str Other = ''other''"

fun uses_oauth :: "upstream_provider \<Rightarrow> bool" where
  "uses_oauth Codex = True"
| "uses_oauth _ = False"

section \<open>Overrides, modes and reasons\<close>

datatype pipeline_override =
    OvAuto | OvCursorDeepSeekV4 | OvDeepSeekLight | OvMimoTokenPlanRelay | OvGenericRelay
  | OvCodexRelay | OvCodexDeepSeek | OvCodexMimo

definition override_from_str :: "string \<Rightarrow> pipeline_override" where
  "override_from_str s =
     (let l = to_lowercase s in
      if l = ''cursor_deepseek_v4'' then OvCursorDeepSeekV4
      else if l = ''deepseek_light'' then OvDeepSeekLight
      else if l = ''mimo_token_plan_relay'' \<or> l = ''mimo_payg_relay'' then OvMimoTokenPlanRelay
      else if l = ''generic_relay'' then OvGenericRelay
      else if l = ''codex_relay'' then OvCodexRelay
      else if l = ''codex_deepseek'' then OvCodexDeepSeek
      else if l = ''codex_mimo'' then OvCodexMimo
      else OvAuto)"

fun override_as_str :: "pipeline_override \<Rightarrow> string" where
  "override_as_str OvAuto = ''auto''"
| "override_as_str OvCursorDeepSeekV4 = ''cursor_deepseek_v4''"
| "override_as_str OvDeepSeekLight = ''deepseek_light''"
| "override_as_str OvMimoTokenPlanRelay = ''mimo_token_plan_relay''"
| "override_as_str OvGenericRelay = ''generic_relay''"
| "override_as_str OvCodexRelay = ''codex_relay''"
| "override_as_str OvCodexDeepSeek = ''codex_deepseek''"
| "override_as_str OvCodexMimo = ''codex_mimo''"

datatype pipeline_mode = ModeAuto | ForceCursorV4

definition mode_from_str :: "string \<Rightarrow> pipeline_mode" where
  "mode_from_str s = (if to_lowercase s = ''force_cursor_v4'' then ForceCursorV4 else ModeAuto)"

fun mode_as_str :: "pipeline_mode \<Rightarrow> string" where
  "mode_as_str ModeAuto = ''auto''"
| "mode_as_str ForceCursorV4 = ''force_cursor_v4''"

datatype selection_reason =
    GlobalForceCursorV4 | KeyOverride | DomainOverride | ProviderDefault | ModelPrefixProfile
  | CursorSignals | DeepSeekNonV4 | MimoProvider | CodexProvider | ModelAlias
  | CodexDeepSeekProvider | CodexMimoProvider | RuleEngine string

fun reason_as_str :: "selection_reason \<Rightarrow> string" where
  "reason_as_str GlobalForceCursorV4 = ''global_force_cursor_v4''"
| "reason_as_str KeyOverride = ''key_override''"
| "reason_as_str DomainOverride = ''domain_override''"
| "reason_as_str ProviderDefault = ''provider_default''"
| "reason_as_str ModelPrefixProfile = ''model_prefix_profile''"
| "reason_as_str CursorSignals = ''cursor_signals''"
| "reason_as_str DeepSeekNonV4 = ''deepseek_non_v4''"
| "reason_as_str MimoProvider = ''mimo_provider''"
| "reason_as_str CodexProvider = ''codex_provider''"
| "reason_as_str ModelAlias = ''model_alias''"
| "reason_as_str CodexDeepSeekProvider = ''codex_deepseek_provider''"
| "reason_as_str CodexMimoProvider = ''codex_mimo_provider''"
| "reason_as_str (RuleEngine name) = name"

definition CODEX_STATIC_MODELS :: "string list" where
  "CODEX_STATIC_MODELS =
     [''gpt-5'', ''gpt-5.5'', ''gpt-5-codex'', ''gpt-5-codex-mini'', ''gpt-5.1'', ''gpt-5.1-codex'',
      ''gpt-5.1-codex-max'', ''gpt-5.1-codex-mini'', ''gpt-5.2'', ''gpt-5.2-codex'',
      ''gpt-5.3-codex'', ''gpt-5.3-codex-spark'', ''gpt-5.4'', ''gpt-5/compact'',
      ''gpt-5-codex/compact'', ''gpt-5-codex-mini/compact'', ''gpt-5.1/compact'',
      ''gpt-5.1-codex/compact'', ''gpt-5.1-codex-max/compact'', ''gpt-5.1-codex-mini/compact'',
      ''gpt-5.2/compact'', ''gpt-5.2-codex/compact'', ''gpt-5.3-codex/compact'',
      ''gpt-5.3-codex-spark/compact'', ''gpt-5.4/compact'']"

datatype routing_strategy = Ketama | P2c | CostOptimized

definition strategy_from_str :: "string \<Rightarrow> routing_strategy" where
  "strategy_from_str s =
     (let l = to_lowercase s in
      if l \<in> {''p2c'', ''power_of_two'', ''power-of-two''} then P2c
      else if l \<in> {''cost_optimized'', ''cost-optimized'', ''eco''} then CostOptimized
      else Ketama)"

fun strategy_as_str :: "routing_strategy \<Rightarrow> string" where
  "strategy_as_str Ketama = ''ketama''"
| "strategy_as_str P2c = ''p2c''"
| "strategy_as_str CostOptimized = ''cost_optimized''"

record profile_descriptor =
  pd_id :: string
  pd_provider :: upstream_provider

end
