(* ===== verification/PipelineNames.thy ===== *)
theory PipelineNames
  imports PipelineTypes
begin

text \<open>
  The textual forms of the enumerations of pipeline selection are read back as what they stand for.
  The provider names are evaluated one constructor at a time against the whole table.
\<close>

section \<open>Round trips\<close>

lemma pipeline_from_as_str: "pipeline_from_str (pipeline_as_str p) = p"
  by (cases p; hypsubst; code_simp)

lemma override_from_as_str: "override_from_str (override_as_str p) = p"
  by (cases p; hypsubst; code_simp)

lemma mode_from_as_str: "mode_from_str (mode_as_str p) = p"
  by (cases p; hypsubst; code_simp)

lemma strategy_from_as_str: "strategy_from_str (strategy_as_str p) = p"
  by (cases p; hypsubst; code_simp)

lemma international_provider_round_trip: "provider_from_str (international_provider_as_str p) = International p"
  by (cases p; hypsubst; code_simp)

lemma cloud_provider_round_trip: "provider_from_str (cloud_provider_as_str p) = Cloud p"
  by (cases p; hypsubst; code_simp)

lemma china_provider_round_trip: "provider_from_str (china_provider_as_str p) = China p"
  by (cases p; hypsubst; code_simp)

lemma inference_provider_a_round_trip: "provider_from_str (inference_provider_a_as_str p) = InferenceA p"
  by (cases p; hypsubst; code_simp)

lemma inference_provider_b_round_trip: "provider_from_str (inference_provider_b_as_str p) = InferenceB p"
  by (cases p; hypsubst; code_simp)

lemma inference_provider_c_round_trip: "provider_from_str (inference_provider_c_as_str p) = InferenceC p"
  by (cases p; hypsubst; code_simp)

lemma inference_provider_d_round_trip: "provider_from_str (inference_provider_d_as_str p) = InferenceD p"
  by (cases p; hypsubst; code_simp)

lemmas provider_round_trips =
  international_provider_round_trip
  cloud_provider_round_trip
  china_provider_round_trip
  inference_provider_a_round_trip
  inference_provider_b_round_trip
  inference_provider_c_round_trip
  inference_provider_d_round_trip

lemma original_round_trips:
  "provider_from_str ''deepseek'' = Deepseek" "provider_from_str ''mimo'' = Mimo"
  "provider_from_str ''openai'' = Openai" "provider_from_str ''codex'' = Codex"
  "provider_from_str ''anthropic'' = Anthropic" "provider_from_str ''other'' = Other"
  by code_simp+

text \<open>
  The textual forms round-trip: every pipeline, provider (all 138 of them), override, mode,
  wire format and routing strategy is read back from its own name.
\<close>
theorem pipeline_names_round_trip:
  "pipeline_from_str (pipeline_as_str rp) = rp \<and>
   provider_from_str (provider_as_str pr) = pr \<and>
   override_from_str (override_as_str ov) = ov \<and>
   mode_from_str (mode_as_str md) = md \<and>
   wire_from_str (wire_as_str fm) = fm \<and>
   strategy_from_str (strategy_as_str rs) = rs"
  by (cases pr) (simp_all add: provider_round_trips original_round_trips pipeline_from_as_str
      override_from_as_str mode_from_as_str strategy_from_as_str wire_from_as_str)

end
