(* ===== verification/ClientKind.thy ===== *)
theory ClientKind
  imports PipelineTypes DeepseekModel
begin

text \<open>
  Client detection and model names: the detector, the payload signals and the model glob
  (\<^verbatim>\<open>src/crates/crab-pipeline/src/client_kind.rs\<close> and \<^verbatim>\<open>signals.rs\<close>), and
  the display aliases (\<^verbatim>\<open>codex_model_aliases.rs\<close>).
\<close>

section \<open>Detection\<close>

datatype client_kind = CkCursor | CkCodex | CkWindsurf | CkAider | CkContinue | CkGeneric

fun client_kind_as_str :: "client_kind \<Rightarrow> string" where
  "client_kind_as_str CkCursor = ''cursor''"
| "client_kind_as_str CkCodex = ''codex''"
| "client_kind_as_str CkWindsurf = ''windsurf''"
| "client_kind_as_str CkAider = ''aider''"
| "client_kind_as_str CkContinue = ''continue''"
| "client_kind_as_str CkGeneric = ''generic''"

definition payload_model :: "json option \<Rightarrow> string option" where
  "payload_model payload = Option.bind payload (\<lambda>p. json_get_str p ''model'')"

definition is_codex_family_model :: "string \<Rightarrow> bool" where
  "is_codex_family_model model =
     (let lower = to_lowercase model in
      starts_with lower ''gpt-'' \<or> starts_with lower ''o1'' \<or> starts_with lower ''o3'' \<or>
      starts_with lower ''chatgpt-'' \<or> starts_with lower ''codex'')"

definition non_blank_field :: "json \<Rightarrow> string \<Rightarrow> bool" where
  \<comment> \<open>\<open>.get(k).and_then(as_str).is_some_and(|s| !s.trim().is_empty())\<close>\<close>
  "non_blank_field v k = (case json_get_str v k of Some s \<Rightarrow> trim s \<noteq> [] | None \<Rightarrow> False)"

definition has_cursor_payload_signals :: "json option \<Rightarrow> bool" where
  "has_cursor_payload_signals payload =
     (case payload of
        None \<Rightarrow> False
      | Some p \<Rightarrow>
          if json_get p ''tools'' \<noteq> None then True
          else if non_blank_field p ''conversation_id'' then True
          else if non_blank_field p ''prompt_cache_key'' then True
          else case Option.bind (json_get p ''messages'') as_array of
                 None \<Rightarrow> False
               | Some msgs \<Rightarrow>
                   list_ex (\<lambda>msg. json_get msg ''tool_calls'' \<noteq> None \<or>
                                  json_get msg ''reasoning_content'' \<noteq> None) msgs)"

definition cursor_agent_signals :: "json option \<Rightarrow> bool" where
  "cursor_agent_signals payload = has_cursor_payload_signals payload"

definition user_agent_suggests_cursor :: "string option \<Rightarrow> bool" where
  "user_agent_suggests_cursor ua =
     (case ua of Some u \<Rightarrow> str_contains (to_lowercase u) ''cursor'' | None \<Rightarrow> False)"

definition kind_from_header :: "string \<Rightarrow> client_kind option" where
  \<comment> \<open>the match on the \<open>X-Client-Kind\<close> header\<close>
  "kind_from_header header =
     (let lower = to_lowercase (trim header) in
      if lower = ''cursor'' then Some CkCursor
      else if lower = ''codex'' then Some CkCodex
      else if lower = ''windsurf'' then Some CkWindsurf
      else if lower = ''aider'' then Some CkAider
      else if lower = ''continue'' then Some CkContinue
      else if lower = ''generic'' then Some CkGeneric
      else None)"

definition kind_from_user_agent :: "string \<Rightarrow> client_kind option" where
  "kind_from_user_agent ua =
     (let ua_lower = to_lowercase ua in
      if str_contains ua_lower ''cursor'' then Some CkCursor
      else if str_contains ua_lower ''codex_cli'' then Some CkCodex
      else if str_contains ua_lower ''windsurf'' then Some CkWindsurf
      else if str_contains ua_lower ''aider'' then Some CkAider
      else if str_contains ua_lower ''continue'' then Some CkContinue
      else None)"

definition responses_wire_is_codex :: "string option \<Rightarrow> string option \<Rightarrow> bool" where
  \<comment> \<open>the returns of the P0 block\<close>
  "responses_wire_is_codex user_agent originator =
     (if (case originator of Some o' \<Rightarrow> eq_ignore_ascii_case (trim o') ''codex_cli_rs'' | None \<Rightarrow> False)
      then True
      else case user_agent of
             Some ua \<Rightarrow>
               (let ua_lower = to_lowercase ua in
                if str_contains ua_lower ''codex_cli'' \<or> str_contains ua_lower ''codex/'' then True
                else \<not> str_contains ua_lower ''cursor'')
           | None \<Rightarrow> True)"

definition detect ::
    "string \<Rightarrow> string option \<Rightarrow> string option \<Rightarrow> string option \<Rightarrow> json option \<Rightarrow> client_kind" where
  "detect path user_agent client_kind_header originator payload =
     (if ends_with path ''/v1/responses'' \<and> responses_wire_is_codex user_agent originator
      then CkCodex
      else if ends_with path ''/v1/responses'' \<and>
              (case payload_model payload of Some m \<Rightarrow> is_codex_family_model m | None \<Rightarrow> False)
      then CkCodex
      else case Option.bind client_kind_header kind_from_header of
             Some k \<Rightarrow> k
           | None \<Rightarrow>
               (case Option.bind user_agent kind_from_user_agent of
                  Some k \<Rightarrow> k
                | None \<Rightarrow>
                    if \<not> ends_with path ''/v1/responses'' \<and> has_cursor_payload_signals payload
                    then CkCursor
                    else CkGeneric))"

definition matches_model_pattern :: "string \<Rightarrow> string \<Rightarrow> bool" where
  "matches_model_pattern model pattern =
     (if pattern = ''*'' then True
      else case strip_suffix pattern ''*'' of
             Some prefix \<Rightarrow> starts_with model prefix
           | None \<Rightarrow>
               (case strip_prefix pattern ''*'' of
                  Some suffix \<Rightarrow> ends_with model suffix
                | None \<Rightarrow> model = pattern))"

section \<open>Display aliases\<close>

definition normalize_client_model_key :: "string \<Rightarrow> string" where
  "normalize_client_model_key model =
     join '' '' (split_whitespace (to_lowercase (trim model)))"

definition CODEX_DISPLAY_ALIASES :: "(string \<times> string) list" where
  "CODEX_DISPLAY_ALIASES =
     [(''gpt-5.5'', ''gpt-5.5''), (''gpt 5.5'', ''gpt-5.5''),
      (''gpt-5.4'', ''gpt-5.4''), (''gpt 5.4'', ''gpt-5.4''),
      (''gpt-5.2'', ''gpt-5.2''), (''gpt 5.2'', ''gpt-5.2''),
      (''gpt-5.3'', ''gpt-5.3-codex''), (''gpt 5.3'', ''gpt-5.3-codex''),
      (''gpt-5.1'', ''gpt-5.1-codex''), (''gpt 5.1'', ''gpt-5.1-codex''),
      (''gpt-5'', ''gpt-5''), (''gpt 5'', ''gpt-5''),
      (''codex 5.3'', ''gpt-5.3-codex''), (''codex 5.2'', ''gpt-5.2-codex''),
      (''codex 5.1 max'', ''gpt-5.1-codex-max''), (''codex 5.1'', ''gpt-5.1-codex''),
      (''codex 5.4'', ''gpt-5.4''), (''codex 5.5'', ''gpt-5.5''),
      (''gpt-5-codex'', ''gpt-5-codex''), (''gpt-5.1-codex'', ''gpt-5.1-codex''),
      (''gpt-5.1-codex-max'', ''gpt-5.1-codex-max''), (''gpt-5.2-codex'', ''gpt-5.2-codex''),
      (''gpt-5.3-codex'', ''gpt-5.3-codex''), (''gpt-5.3-codex-spark'', ''gpt-5.3-codex-spark'')]"

definition resolve_codex_display_alias :: "string \<Rightarrow> string option" where
  "resolve_codex_display_alias model =
     map_option snd
       (List.find (\<lambda>(alias, _). alias = normalize_client_model_key model) CODEX_DISPLAY_ALIASES)"

definition canonicalize_client_model :: "string \<Rightarrow> string" where
  "canonicalize_client_model model =
     (let trimmed = trim model in
      if trimmed = [] then []
      else case resolve_codex_display_alias trimmed of Some slug \<Rightarrow> slug | None \<Rightarrow> trimmed)"

definition is_openai_or_codex_display_model :: "string \<Rightarrow> bool" where
  "is_openai_or_codex_display_model model =
     (let lower = normalize_client_model_key model in
      starts_with lower ''gpt'' \<or> starts_with lower ''gpt-'' \<or> starts_with lower ''o1'' \<or>
      starts_with lower ''o3'' \<or> starts_with lower ''chatgpt-'' \<or> starts_with lower ''codex '' \<or>
      starts_with lower ''codex-'' \<or> lower = ''codex'' \<or>
      resolve_codex_display_alias model \<noteq> None)"

section \<open>Laws of detection\<close>

lemma kind_from_header_as_str: "kind_from_header (client_kind_as_str k) = Some k"
  by (cases k; hypsubst; code_simp)

text \<open>
  On the Responses wire a client is Codex unless its user agent names Cursor: an explicit
  client-kind header, payload signals and the model do not matter then.
\<close>
theorem responses_wire_codex:
  assumes "ends_with path ''/v1/responses''"
    and "\<And>ua. user_agent = Some ua \<Longrightarrow> \<not> str_contains (to_lowercase ua) ''cursor''"
  shows "detect path user_agent header originator payload = CkCodex"
  using assms by (auto simp: detect_def responses_wire_is_codex_def Let_def split: option.split)

theorem responses_wire_codex_witness:
  "detect ''/openai/v1/responses'' (Some ''curl/8.0'') (Some ''cursor'') None None = CkCodex"
proof -
  have a: "ends_with ''/openai/v1/responses'' ''/v1/responses''" by code_simp
  have b: "\<not> str_contains (to_lowercase ''curl/8.0'') ''cursor''" by code_simp
  show ?thesis by (rule responses_wire_codex [OF a]) (use b in auto)
qed

lemma detect_header_wins:
  assumes "\<not> ends_with path ''/v1/responses''" "kind_from_header h = Some k"
  shows "detect path user_agent (Some h) originator payload = k"
  using assms by (simp add: detect_def)

lemma matches_star [simp]: "matches_model_pattern m ''*''"
  by (simp add: matches_model_pattern_def)

lemma matches_prefix: "matches_model_pattern m (p @ ''*'') \<longleftrightarrow> starts_with m p"
proof (cases "p = []")
  case False
  have "strip_suffix (p @ ''*'') ''*'' = Some p" by (simp add: strip_suffix_Some_iff)
  then show ?thesis using False by (simp add: matches_model_pattern_def)
qed (simp add: matches_model_pattern_def)

lemma strip_suffix_None: "strip_suffix s p = None \<longleftrightarrow> (\<forall>t. s \<noteq> t @ p)"
  by (metis not_None_eq strip_suffix_Some_iff)

lemma strip_prefix_None: "strip_prefix s p = None \<longleftrightarrow> (\<forall>t. s \<noteq> p @ t)"
  by (metis not_None_eq strip_prefix_Some_iff)

lemma matches_suffix:
  assumes "\<forall>t. s \<noteq> t @ ''*''" "s \<noteq> []"
  shows "matches_model_pattern m (CHR ''*'' # s) \<longleftrightarrow> ends_with m s"
proof -
  have "strip_suffix (CHR ''*'' # s) ''*'' = None"
    using assms by (auto simp: strip_suffix_None Cons_eq_append_conv)
  moreover have "strip_prefix (CHR ''*'' # s) ''*'' = Some s" by (simp add: strip_prefix_Some_iff)
  ultimately show ?thesis using assms(2) by (simp add: matches_model_pattern_def)
qed

lemma matches_literal:
  assumes "\<forall>t. p \<noteq> t @ ''*''" "\<forall>t. p \<noteq> ''*'' @ t"
  shows "matches_model_pattern m p \<longleftrightarrow> m = p"
proof -
  have "p \<noteq> ''*''" using assms(1) by (metis append_Nil)
  moreover have "strip_suffix p ''*'' = None" "strip_prefix p ''*'' = None"
    using assms by (auto simp: strip_suffix_None strip_prefix_None)
  ultimately show ?thesis by (simp add: matches_model_pattern_def)
qed

section \<open>Laws of the model names\<close>

lemma resolve_alias_slugs:
  assumes "resolve_codex_display_alias m = Some slug"
  shows "slug \<in> set (map snd CODEX_DISPLAY_ALIASES)"
proof -
  from assms obtain x where "List.find (\<lambda>(a, _). a = normalize_client_model_key m)
      CODEX_DISPLAY_ALIASES = Some x" "slug = snd x"
    by (auto simp: resolve_codex_display_alias_def)
  then show ?thesis by (auto simp: find_Some_iff simp flip: in_set_conv_nth intro: image_eqI [OF _ nth_mem])
qed

lemma slugs_fixed:
  "list_all (\<lambda>slug. canonicalize_client_model slug = slug) (map snd CODEX_DISPLAY_ALIASES)"
  by code_simp

text \<open>
  Canonicalising a client model twice is canonicalising it once: every upstream slug the alias
  table produces is itself canonical.
\<close>
theorem canonicalize_client_model_idempotent:
  "canonicalize_client_model (canonicalize_client_model m) = canonicalize_client_model m"
proof (cases "resolve_codex_display_alias (trim m)")
  case None
  then show ?thesis by (simp add: canonicalize_client_model_def Let_def)
next
  case (Some slug)
  then have "slug \<in> set (map snd CODEX_DISPLAY_ALIASES)" by (rule resolve_alias_slugs)
  then have "canonicalize_client_model slug = slug" using slugs_fixed by (simp only: list_all_iff)
  moreover have "canonicalize_client_model m = slug \<or> trim m = []"
    using Some by (simp add: canonicalize_client_model_def Let_def)
  moreover have "trim m = [] \<Longrightarrow> canonicalize_client_model m = []"
    by (simp add: canonicalize_client_model_def)
  moreover have "canonicalize_client_model [] = []" by code_simp
  ultimately show ?thesis by metis
qed

lemma alias_ignores_case:
  "resolve_codex_display_alias (to_lowercase m) = resolve_codex_display_alias m"
  by (simp add: resolve_codex_display_alias_def normalize_client_model_key_def trim_to_lowercase)

lemma alias_ignores_margins: "resolve_codex_display_alias (trim m) = resolve_codex_display_alias m"
  by (simp add: resolve_codex_display_alias_def normalize_client_model_key_def)

end
