(* ===== verification/PipelineProfile.thy ===== *)
theory PipelineProfile
  imports ClientKind "HOL-Library.Product_Lexorder"
begin

text \<open>
  Profile resolution (\<^verbatim>\<open>src/crates/crab-pipeline/src/profile.rs\<close>), the cursor-model
  aliases (\<^verbatim>\<open>cursor_models.rs\<close>) and the declarative rule engine
  (\<^verbatim>\<open>rule_engine.rs\<close>), with the structures of \<^verbatim>\<open>types.rs\<close> they read.
\<close>

section \<open>Cursor models\<close>

record cursor_model_entry =
  cm_upstream :: string
  cm_pipeline :: pipeline_override

record cursor_models_config =
  aliases :: "(string, cursor_model_entry) hmap"
  force_deepseek_profile_for_aliases :: bool
  synthetic_models_enabled :: bool

definition cursor_models_default :: cursor_models_config where
  "cursor_models_default =
     \<lparr>aliases = [], force_deepseek_profile_for_aliases = False, synthetic_models_enabled = False\<rparr>"

definition cm_resolve :: "cursor_models_config \<Rightarrow> string \<Rightarrow> cursor_model_entry option" where
  "cm_resolve cfg client_model = hm_get (aliases cfg) client_model"

definition should_force_deepseek_profile :: "cursor_models_config \<Rightarrow> string \<Rightarrow> bool" where
  "should_force_deepseek_profile cfg client_model \<longleftrightarrow>
     force_deepseek_profile_for_aliases cfg \<and> cm_resolve cfg client_model \<noteq> None"

definition synthetic_models_list_json ::
    "(json \<Rightarrow> string) \<Rightarrow> int \<Rightarrow> cursor_models_config \<Rightarrow> string" where
  \<comment> \<open>the serialiser and the current time in seconds are arguments\<close>
  "synthetic_models_list_json to_vec created cfg =
     (let ids = sort (map fst (aliases cfg));
          data = map (\<lambda>i. JObj [(''created'', JInt created), (''id'', JStr i),
                                 (''object'', JStr ''model''), (''owned_by'', JStr ''deepseek'')]) ids
      in to_vec (JObj [(''data'', JArr data), (''object'', JStr ''list'')]))"

definition validate_cursor_models :: "cursor_models_config \<Rightarrow> string + unit" where
  "validate_cursor_models cfg =
     (case List.find (\<lambda>(_, e). \<not> starts_with (cm_upstream e) ''deepseek-'') (aliases cfg) of
        Some (i, e) \<Rightarrow>
          Inl (''cursor model alias '' @ [CHR 0x27] @ i @ [CHR 0x27] @ '': upstream '' @ [CHR 0x27] @
               cm_upstream e @ [CHR 0x27] @ '' must start with '' @ [CHR 0x27] @ ''deepseek-'' @
               [CHR 0x27])
      | None \<Rightarrow> Inr ())"

section \<open>The rule engine\<close>

record pipeline_match_conditions =
  mc_client :: "client_kind list option"
  mc_provider :: "upstream_provider list option"
  mc_model_pattern :: "string list option"
  mc_wire_format :: "wire_format list option"

record pipeline_rule =
  pr_name :: string
  match_conditions :: pipeline_match_conditions
  pr_pipeline :: request_pipeline
  priority :: nat

definition default_priority :: nat where
  "default_priority = 100"

record rule_match_input =
  ri_client_kind :: client_kind
  ri_provider :: upstream_provider
  ri_model :: string
  ri_wire_format :: wire_format

record pipeline_rule_engine =
  rules :: "pipeline_rule list"

definition option_allows :: "('a \<Rightarrow> bool) \<Rightarrow> 'a list option \<Rightarrow> bool" where
  \<comment> \<open>an absent filter lets everything pass\<close>
  "option_allows P f = (case f of None \<Rightarrow> True | Some xs \<Rightarrow> list_ex P xs)"

definition rule_matches :: "pipeline_match_conditions \<Rightarrow> rule_match_input \<Rightarrow> bool" where
  "rule_matches c inp \<longleftrightarrow>
     option_allows (\<lambda>k. k = ri_client_kind inp) (mc_client c) \<and>
     option_allows (\<lambda>p. p = ri_provider inp) (mc_provider c) \<and>
     option_allows (\<lambda>p. matches_model_pattern (ri_model inp) p) (mc_model_pattern c) \<and>
     option_allows (\<lambda>f. f = ri_wire_format inp) (mc_wire_format c)"

definition engine_new :: "pipeline_rule list \<Rightarrow> pipeline_rule_engine" where
  "engine_new rs = \<lparr>rules = sort_key priority rs\<rparr>"

definition engine_select ::
    "pipeline_rule_engine \<Rightarrow> rule_match_input \<Rightarrow> (request_pipeline \<times> string) option" where
  "engine_select engine inp =
     map_option (\<lambda>r. (pr_pipeline r, pr_name r))
       (List.find (\<lambda>r. rule_matches (match_conditions r) inp) (rules engine))"

definition rule :: "string \<Rightarrow> nat \<Rightarrow> client_kind list option \<Rightarrow> upstream_provider list option \<Rightarrow>
    string list option \<Rightarrow> request_pipeline \<Rightarrow> pipeline_rule" where
  "rule n prio ck pv mp pl =
     \<lparr>pr_name = n,
      match_conditions =
        \<lparr>mc_client = ck, mc_provider = pv, mc_model_pattern = mp, mc_wire_format = None\<rparr>,
      pr_pipeline = pl, priority = prio\<rparr>"

definition default_rules :: pipeline_rule_engine where
  "default_rules = engine_new
     [rule ''cursor_deepseek_v4'' 10 (Some [CkCursor]) (Some [Deepseek]) (Some [''deepseek-v4-*''])
        CursorDeepSeekV4,
      rule ''codex_relay'' 20 (Some [CkCodex]) (Some [Codex]) None CodexRelay,
      rule ''codex_to_deepseek'' 25 (Some [CkCodex]) (Some [Deepseek]) (Some [''deepseek-*''])
        CodexDeepSeek,
      rule ''codex_to_mimo'' 26 (Some [CkCodex]) (Some [Mimo]) (Some [''mimo-*'']) CodexMimo,
      rule ''deepseek_light'' 30 None (Some [Deepseek]) None DeepSeekLight,
      rule ''mimo_relay'' 40 None (Some [Mimo]) None MimoTokenPlanRelay]"

section \<open>Contexts\<close>

record pipeline_globals =
  default_upstream_profile :: string
  g_pipeline_mode :: pipeline_mode
  known_profile_ids :: "string list"
  cursor_models :: cursor_models_config
  rule_engine :: "pipeline_rule_engine option"

definition globals_default :: pipeline_globals where
  "globals_default =
     \<lparr>default_upstream_profile = ''deepseek'', g_pipeline_mode = ModeAuto,
      known_profile_ids = [''deepseek''], cursor_models = cursor_models_default, rule_engine = None\<rparr>"

definition with_profiles_and_mode ::
    "string \<Rightarrow> string list \<Rightarrow> pipeline_mode \<Rightarrow> pipeline_globals" where
  "with_profiles_and_mode default_id profile_ids mode =
     \<lparr>default_upstream_profile = default_id, g_pipeline_mode = mode,
      known_profile_ids =
        (if list_ex (\<lambda>i. i = default_id) profile_ids then profile_ids else profile_ids @ [default_id]),
      cursor_models = cursor_models_default, rule_engine = None\<rparr>"

definition with_profiles_mode_and_cursor_models ::
    "string \<Rightarrow> string list \<Rightarrow> pipeline_mode \<Rightarrow> cursor_models_config \<Rightarrow> pipeline_globals" where
  "with_profiles_mode_and_cursor_models default_id profile_ids mode cm =
     (with_profiles_and_mode default_id profile_ids mode)\<lparr>cursor_models := cm\<rparr>"

definition with_profiles_mode_cursor_models_and_rule_engine ::
    "string \<Rightarrow> string list \<Rightarrow> pipeline_mode \<Rightarrow> cursor_models_config \<Rightarrow>
     pipeline_rule_engine option \<Rightarrow> pipeline_globals" where
  "with_profiles_mode_cursor_models_and_rule_engine default_id profile_ids mode cm re =
     (with_profiles_mode_and_cursor_models default_id profile_ids mode cm)\<lparr>rule_engine := re\<rparr>"

definition with_profiles :: "string \<Rightarrow> string list \<Rightarrow> pipeline_globals" where
  "with_profiles default_id profile_ids = with_profiles_and_mode default_id profile_ids ModeAuto"

record pipeline_request_context =
  model :: string
  payload :: "json option"
  key_pipeline :: "pipeline_override option"
  key_upstream_profile :: "string option"
  domain_pipeline :: "pipeline_override option"
  domain_upstream_profile :: "string option"
  conversation_id_header :: "string option"
  user_agent :: "string option"
  alias_upstream_model :: "string option"
  model_alias_pipeline :: "pipeline_override option"
  ctx_client_kind :: "client_kind option"
  wire_format :: "wire_format option"

section \<open>Profiles\<close>

definition model_prefix_table :: "(string list \<times> string list \<times> string) list" where
  \<comment> \<open>per return of the source, in order: prefixes, whole names, profile\<close>
  "model_prefix_table =
     [([''deepseek-''], [], ''deepseek''),
      ([''mimo''], [], ''mimo''),
      ([''gpt-'', ''gpt '', ''o1'', ''o3'', ''chatgpt-''], [], ''openai''),
      ([''codex '', ''codex-''], [''codex''], ''codex''),
      ([''claude-''], [], ''anthropic''),
      ([''grok-''], [], ''xai''),
      ([''mistral-'', ''codestral-'', ''pixtral-'', ''open-mistral-''], [], ''mistral''),
      ([''gemini-''], [], ''gemini''),
      ([''llama-''], [], ''together''),
      ([''mixtral-''], [], ''fireworks''),
      ([''command-''], [], ''cohere''),
      ([''nemotron-''], [], ''nvidia''),
      ([''reka-''], [], ''reka''),
      ([''qwen-'', ''qwq-''], [], ''alibaba''),
      ([''glm-'', ''chatglm-''], [], ''glm''),
      ([''kimi-''], [], ''kimi''),
      ([''ernie-'', ''yiyan''], [], ''baidu''),
      ([''hunyuan-''], [], ''tencent''),
      ([''spark-'', ''xinghuo''], [], ''iflytek''),
      ([''baichuan-''], [], ''baichuan''),
      ([''yi-''], [], ''yi''),
      ([''step-''], [], ''stepfun''),
      ([''doubao-''], [], ''doubao''),
      ([''minimax-'', ''abab-''], [], ''minimax''),
      ([''sensenova-''], [], ''sensenova''),
      ([''360-''], [], ''360ai''),
      ([''jamba-''], [], ''ai21''),
      ([''gigachat-''], [], ''gigachat''),
      ([''solar-''], [], ''upstage''),
      ([''sabia-'', ''sabiazinho-''], [], ''maritalk''),
      ([''dbrx-''], [], ''databricks''),
      ([''snowflake-''], [], ''snowflake''),
      ([''lfm-''], [], ''liquid''),
      ([''palmyra-''], [], ''writer'')]"

definition model_prefix_to_profile :: "string \<Rightarrow> string" where
  "model_prefix_to_profile m =
     (let lower = to_lowercase m in
      case List.find (\<lambda>(prefixes, names, _). list_ex (starts_with lower) prefixes \<or>
                                            list_ex (\<lambda>n. lower = n) names) model_prefix_table of
        Some (_, _, p) \<Rightarrow> p
      | None \<Rightarrow> ''deepseek'')"

definition provider_for_model_family :: "string \<Rightarrow> upstream_provider" where
  "provider_for_model_family canonical_id =
     (if canonical_id = ''codex'' then Codex else provider_from_str canonical_id)"

definition profile_rank :: "string \<Rightarrow> profile_descriptor \<Rightarrow> nat" where
  "profile_rank canonical p =
     (if pd_id p = canonical then 0 else if starts_with (pd_id p) canonical then 1 else 2)"

definition pick_profile_by_provider ::
    "profile_descriptor list \<Rightarrow> upstream_provider \<Rightarrow> string option \<Rightarrow>
     (string \<times> upstream_provider) option" where
  "pick_profile_by_provider profiles provider preferred =
     (case Option.bind preferred
             (\<lambda>canonical. List.find (\<lambda>p. pd_id p = canonical \<and> pd_provider p = provider) profiles) of
        Some p \<Rightarrow> Some (pd_id p, pd_provider p)
      | None \<Rightarrow>
          (let candidates = filter (\<lambda>p. pd_provider p = provider) profiles in
           if candidates = [] then None
           else if length candidates = 1
           then Some (pd_id (hd candidates), pd_provider (hd candidates))
           else (let sorted_c =
                   (case preferred of
                      Some canonical \<Rightarrow> sort_key (\<lambda>p. (profile_rank canonical p, pd_id p)) candidates
                    | None \<Rightarrow> sort_key pd_id candidates)
                 in Some (pd_id (hd sorted_c), pd_provider (hd sorted_c)))))"

definition resolve_openai_profile_id :: "profile_descriptor list \<Rightarrow> string option" where
  "resolve_openai_profile_id profiles =
     map_option fst (pick_profile_by_provider profiles Openai (Some ''openai''))"

definition resolve_codex_profile_id :: "profile_descriptor list \<Rightarrow> string option" where
  "resolve_codex_profile_id profiles =
     map_option fst (pick_profile_by_provider profiles Codex (Some ''codex''))"

definition explicit_profile_matches_model :: "profile_descriptor \<Rightarrow> string \<Rightarrow> bool" where
  "explicit_profile_matches_model p m \<longleftrightarrow>
     pd_provider p = provider_for_model_family (model_prefix_to_profile m)"

definition pick :: "profile_descriptor list \<Rightarrow> string \<Rightarrow> (string \<times> upstream_provider) option" where
  "pick profiles i =
     map_option (\<lambda>p. (pd_id p, pd_provider p)) (List.find (\<lambda>p. pd_id p = i) profiles)"

definition explicit_choice ::
    "profile_descriptor list \<Rightarrow> string \<Rightarrow> string option \<Rightarrow> (string \<times> upstream_provider) option" where
  \<comment> \<open>the let-chain on a key's or domain's profile id\<close>
  "explicit_choice profiles m wanted =
     (case wanted of
        Some i \<Rightarrow>
          if trim i \<noteq> []
          then (case List.find (\<lambda>p. pd_id p = i) profiles of
                  Some p \<Rightarrow> if explicit_profile_matches_model p m
                            then Some (pd_id p, pd_provider p) else None
                | None \<Rightarrow> None)
          else None
      | None \<Rightarrow> None)"

definition model_choice ::
    "profile_descriptor list \<Rightarrow> string \<Rightarrow> (string \<times> upstream_provider) option" where
  \<comment> \<open>the choice by the model's family\<close>
  "model_choice profiles m =
     (let from_model = model_prefix_to_profile m;
          provider = provider_for_model_family from_model;
          codex_choice = or_else (pick_profile_by_provider profiles Codex (Some ''codex''))
            (Option.bind (resolve_codex_profile_id profiles) (pick profiles))
      in if from_model = ''openai''
         then or_else
                (or_else (pick_profile_by_provider profiles Openai (Some ''openai''))
                   (Option.bind (resolve_openai_profile_id profiles) (pick profiles)))
                codex_choice
         else if from_model = ''codex'' then codex_choice
         else or_else (pick profiles from_model)
                (pick_profile_by_provider profiles provider (Some from_model)))"

definition resolve_upstream_profile_id ::
    "pipeline_globals \<Rightarrow> profile_descriptor list \<Rightarrow> pipeline_request_context \<Rightarrow>
     string \<times> upstream_provider \<times> bool" where
  "resolve_upstream_profile_id globals profiles ctx =
     (case explicit_choice profiles (model ctx) (key_upstream_profile ctx) of
        Some (i, p) \<Rightarrow> (i, p, True)
      | None \<Rightarrow>
     (case explicit_choice profiles (model ctx) (domain_upstream_profile ctx) of
        Some (i, p) \<Rightarrow> (i, p, True)
      | None \<Rightarrow>
     (case (if should_force_deepseek_profile (cursor_models globals) (model ctx)
            then or_else (pick profiles ''deepseek'')
                   (pick_profile_by_provider profiles Deepseek (Some ''deepseek''))
            else None) of
        Some (i, p) \<Rightarrow> (i, p, False)
      | None \<Rightarrow>
     (case model_choice profiles (model ctx) of
        Some (i, p) \<Rightarrow> (i, p, False)
      | None \<Rightarrow>
     (case pick profiles (default_upstream_profile globals) of
        Some (i, p) \<Rightarrow> (i, p, False)
      | None \<Rightarrow>
     (case profiles of
        p # _ \<Rightarrow> (pd_id p, pd_provider p, False)
      | [] \<Rightarrow> (default_upstream_profile globals, Deepseek, False)))))))"

section \<open>Laws of the profile choice\<close>

definition is_profile :: "profile_descriptor list \<Rightarrow> string \<times> upstream_provider \<Rightarrow> bool" where
  \<comment> \<open>the pair is the id and the provider of a configured profile\<close>
  "is_profile profiles ip \<longleftrightarrow> ip \<in> set (map (\<lambda>d. (pd_id d, pd_provider d)) profiles)"

lemma find_in_set: "List.find P xs = Some x \<Longrightarrow> x \<in> set xs \<and> P x"
  by (induction xs) (auto split: if_splits)

lemma or_else_Some: "or_else a b = Some x \<longleftrightarrow> a = Some x \<or> a = None \<and> b = Some x"
  by (auto simp: or_else_def split: option.split)

lemma or_else_None: "or_else a b = None \<longleftrightarrow> a = None \<and> b = None"
  by (auto simp: or_else_def split: option.split)

lemma is_profileI: "d \<in> set profiles \<Longrightarrow> is_profile profiles (pd_id d, pd_provider d)"
  by (auto simp: is_profile_def)

lemma pick_Some: "pick profiles i = Some x \<Longrightarrow> is_profile profiles x \<and> fst x = i"
  by (auto simp: pick_def dest!: find_in_set intro: is_profileI)

lemma explicit_choice_Some:
  "explicit_choice profiles m w = Some (i, p) \<Longrightarrow>
   is_profile profiles (i, p) \<and> p = provider_for_model_family (model_prefix_to_profile m) \<and> w = Some i"
  by (auto simp: explicit_choice_def explicit_profile_matches_model_def
      dest!: find_in_set intro: is_profileI split: option.splits if_splits)

lemma hd_sort_key_in: "xs \<noteq> [] \<Longrightarrow> hd (sort_key f xs) \<in> set xs"
  by (metis hd_in_set set_empty set_sort)

lemma hd_sort_key_least: "x \<in> set xs \<Longrightarrow> f (hd (sort_key f xs)) \<le> f x"
proof -
  assume x: "x \<in> set xs"
  then have "sort_key f xs \<noteq> []" by (metis empty_iff set_empty set_sort)
  then obtain y ys where y: "sort_key f xs = y # ys" by (meson neq_Nil_conv)
  moreover have "sorted (map f (sort_key f xs))" by simp
  moreover have "x \<in> set (sort_key f xs)" using x by simp
  ultimately show ?thesis by auto
qed

lemma pick_by_provider_cases:
  assumes "pick_profile_by_provider profiles provider preferred = Some x"
  shows "\<exists>d \<in> set profiles. x = (pd_id d, pd_provider d) \<and> pd_provider d = provider"
proof -
  let ?c = "filter (\<lambda>p. pd_provider p = provider) profiles"
  have in_c: "d \<in> set profiles \<and> pd_provider d = provider" if "d \<in> set ?c" for d using that by simp
  consider (found) p where "p \<in> set profiles" "pd_provider p = provider" "x = (pd_id p, pd_provider p)"
    | (cand) "?c \<noteq> []" "x = (pd_id (hd ?c), pd_provider (hd ?c))"
    | (best) canonical where "?c \<noteq> []"
      "x = (let d = hd (sort_key (\<lambda>p. (profile_rank canonical p, pd_id p)) ?c)
            in (pd_id d, pd_provider d))"
    | (plain) "?c \<noteq> []" "x = (let d = hd (sort_key pd_id ?c) in (pd_id d, pd_provider d))"
    using assms unfolding pick_profile_by_provider_def Let_def
    by (auto simp: bind_eq_Some_conv dest!: find_in_set split: option.splits if_splits)
  then show ?thesis
  proof cases
    case found
    then show ?thesis by blast
  next
    case cand
    then show ?thesis using in_c [OF hd_in_set] by blast
  next
    case best
    then show ?thesis using in_c [OF hd_sort_key_in] unfolding Let_def by blast
  next
    case plain
    then show ?thesis using in_c [OF hd_sort_key_in] unfolding Let_def by blast
  qed
qed

lemma pick_by_provider_Some:
  "pick_profile_by_provider profiles provider preferred = Some x \<Longrightarrow>
   is_profile profiles x \<and> snd x = provider"
  by (auto dest: pick_by_provider_cases intro: is_profileI)

lemma pick_by_provider_None_iff:
  "pick_profile_by_provider profiles provider preferred = None \<longleftrightarrow>
   (\<forall>d \<in> set profiles. pd_provider d \<noteq> provider)"
  by (auto simp: pick_profile_by_provider_def Let_def filter_empty_conv find_None_iff
      split: option.splits bind_splits dest!: find_in_set)

lemma model_choice_Some: "model_choice profiles m = Some x \<Longrightarrow> is_profile profiles x"
  by (auto simp: model_choice_def Let_def or_else_Some bind_eq_Some_conv
      dest: pick_Some pick_by_provider_Some split: if_splits)

text \<open>
  Whenever profiles are configured, profile resolution returns the id and the provider of one of
  them; a profile marked explicit comes from the key or the domain and its provider is the one the
  model's family asks for.
\<close>
theorem resolved_profile_configured:
  assumes "profiles \<noteq> []" and "resolve_upstream_profile_id globals profiles ctx = (i, p, explicit)"
  shows "is_profile profiles (i, p) \<and>
    (explicit \<longrightarrow> p = provider_for_model_family (model_prefix_to_profile (model ctx)) \<and>
      (key_upstream_profile ctx = Some i \<or> domain_upstream_profile ctx = Some i))"
  using assms unfolding resolve_upstream_profile_id_def
  by (auto simp: or_else_Some neq_Nil_conv intro: is_profileI
      dest: explicit_choice_Some pick_Some pick_by_provider_Some model_choice_Some
      split: option.splits if_splits)

abbreviation sample_context :: "string \<Rightarrow> pipeline_request_context" where
  \<comment> \<open>a request with nothing but its model\<close>
  "sample_context m \<equiv>
     \<lparr>model = m, payload = None, key_pipeline = None, key_upstream_profile = None,
      domain_pipeline = None, domain_upstream_profile = None, conversation_id_header = None,
      user_agent = None, alias_upstream_model = None, model_alias_pipeline = None,
      ctx_client_kind = None, wire_format = None\<rparr>"

theorem resolved_profile_configured_witness:
  "is_profile [\<lparr>pd_id = ''mimo-eu'', pd_provider = Mimo\<rparr>, \<lparr>pd_id = ''ds'', pd_provider = Deepseek\<rparr>]
     (''ds'', Deepseek) \<and>
   Deepseek = provider_for_model_family (model_prefix_to_profile ''deepseek-v4-pro'')"
proof -
  let ?ps = "[\<lparr>pd_id = ''mimo-eu'', pd_provider = Mimo\<rparr>, \<lparr>pd_id = ''ds'', pd_provider = Deepseek\<rparr>]"
  let ?ctx = "(sample_context ''deepseek-v4-pro'')\<lparr>key_upstream_profile := Some ''ds''\<rparr>"
  have "resolve_upstream_profile_id globals_default ?ps ?ctx = (''ds'', Deepseek, True)"
    by code_simp
  from resolved_profile_configured [OF _ this] show ?thesis by simp
qed

section \<open>Laws of the rule engine\<close>

lemma find_filter: "List.find P xs = (case filter P xs of [] \<Rightarrow> None | x # _ \<Rightarrow> Some x)"
  by (induction xs) auto

lemma engine_select_filter:
  "engine_select (engine_new rs) inp =
     (case sort_key priority (filter (\<lambda>r. rule_matches (match_conditions r) inp) rs) of
        [] \<Rightarrow> None
      | r # _ \<Rightarrow> Some (pr_pipeline r, pr_name r))"
  by (simp add: engine_select_def engine_new_def find_filter filter_sort split: list.split)

lemma sort_key_hd_first:
  assumes "sort_key f xs = y # ys"
  shows "hd (filter (\<lambda>x. f x = f y) xs) = y"
proof -
  have "filter (\<lambda>x. f x = f y) (sort_key f xs) = filter (\<lambda>x. f x = f y) xs"
    by (rule sort_key_stable)
  then show ?thesis using assms by (metis (mono_tags, lifting) filter.simps(2) list.sel(1))
qed

text \<open>
  The rule engine returns a rule that matches, whose priority no matching rule undercuts and
  which is the first such rule in configuration order; it returns nothing exactly when no rule
  matches.
\<close>
theorem rule_engine_first_by_priority:
  "case engine_select (engine_new rs) inp of
     None \<Rightarrow> filter (\<lambda>r. rule_matches (match_conditions r) inp) rs = []
   | Some out \<Rightarrow>
       let ms = filter (\<lambda>r. rule_matches (match_conditions r) inp) rs;
           best = hd (filter (\<lambda>r. priority r = Min (priority ` set ms)) ms)
       in best \<in> set ms \<and> priority best = Min (priority ` set ms) \<and>
          out = (pr_pipeline best, pr_name best)"
proof -
  define ms where "ms = filter (\<lambda>r. rule_matches (match_conditions r) inp) rs"
  have sel: "engine_select (engine_new rs) inp =
      (case sort_key priority ms of [] \<Rightarrow> None | r # _ \<Rightarrow> Some (pr_pipeline r, pr_name r))"
    unfolding ms_def by (rule engine_select_filter)
  show ?thesis
  proof (cases "sort_key priority ms")
    case Nil
    then have "ms = []" by (metis length_0_conv length_sort)
    then show ?thesis using sel by (simp add: ms_def)
  next
    case (Cons y ys)
    then have y: "y \<in> set ms" by (metis list.set_intros(1) set_sort)
    have least: "priority y \<le> priority r" if "r \<in> set ms" for r
      using hd_sort_key_least [OF that, of priority] Cons by simp
    then have m: "Min (priority ` set ms) = priority y" using y by (intro Min_eqI) auto
    then have "hd (filter (\<lambda>r. priority r = Min (priority ` set ms)) ms) = y"
      using sort_key_hd_first [OF Cons] by simp
    then show ?thesis using sel Cons y m by (simp add: ms_def [symmetric] Let_def)
  qed
qed

end
