(* ===== verification/PipelineSelect.thy ===== *)
theory PipelineSelect
  imports PipelineProfile
begin

text \<open>
  Pipeline selection (\<^verbatim>\<open>src/crates/crab-pipeline/src/select.rs\<close>): overrides of keys and
  domains, model aliases, the rule engine, the built-in heuristics and the profile that goes with
  the pipeline.
\<close>

section \<open>Selection\<close>

record pipeline_selection =
  sel_pipeline :: request_pipeline
  upstream_profile_id :: string
  sel_provider :: upstream_provider
  sel_reason :: selection_reason
  sel_client_kind :: client_kind

fun pipeline_override_matches_model :: "pipeline_override \<Rightarrow> string \<Rightarrow> bool" where
  "pipeline_override_matches_model OvAuto m = True"
| "pipeline_override_matches_model OvMimoTokenPlanRelay m = (model_prefix_to_profile m = ''mimo'')"
| "pipeline_override_matches_model OvCodexMimo m = (model_prefix_to_profile m = ''mimo'')"
| "pipeline_override_matches_model OvCodexRelay m = (model_prefix_to_profile m = ''openai'')"
| "pipeline_override_matches_model OvCodexDeepSeek m = (model_prefix_to_profile m = ''deepseek'')"
| "pipeline_override_matches_model OvCursorDeepSeekV4 m = (model_prefix_to_profile m = ''deepseek'')"
| "pipeline_override_matches_model OvDeepSeekLight m = (model_prefix_to_profile m = ''deepseek'')"
| "pipeline_override_matches_model OvGenericRelay m = True"

definition normalize_legacy_codex_provider ::
    "upstream_provider \<Rightarrow> string \<Rightarrow> upstream_provider" where
  "normalize_legacy_codex_provider provider profile_id =
     (let id_lower = to_lowercase profile_id in
      if provider = Openai \<and>
         (id_lower = ''codex'' \<or> starts_with id_lower ''codex-'' \<or> starts_with id_lower ''codex_'')
      then Codex else provider)"

fun pipeline_target :: "request_pipeline \<Rightarrow> (upstream_provider \<times> string) option" where
  \<comment> \<open>the provider and canonical profile a pipeline is made for; none for the generic relay\<close>
  "pipeline_target CursorDeepSeekV4 = Some (Deepseek, ''deepseek'')"
| "pipeline_target DeepSeekLight = Some (Deepseek, ''deepseek'')"
| "pipeline_target CodexDeepSeek = Some (Deepseek, ''deepseek'')"
| "pipeline_target MimoTokenPlanRelay = Some (Mimo, ''mimo'')"
| "pipeline_target CodexMimo = Some (Mimo, ''mimo'')"
| "pipeline_target CodexRelay = Some (Codex, ''codex'')"
| "pipeline_target GenericRelay = None"

definition profile_for_pipeline ::
    "request_pipeline \<Rightarrow> profile_descriptor list \<Rightarrow> string option" where
  "profile_for_pipeline pl profiles =
     (case pipeline_target pl of
        None \<Rightarrow> None
      | Some (provider, canonical) \<Rightarrow>
          map_option fst (pick_profile_by_provider profiles provider (Some canonical)))"

fun pipeline_from_override ::
    "pipeline_override \<Rightarrow> upstream_provider \<Rightarrow> request_pipeline option" where
  "pipeline_from_override OvAuto p = None"
| "pipeline_from_override OvCursorDeepSeekV4 p =
     Some (if p = Deepseek then CursorDeepSeekV4 else GenericRelay)"
| "pipeline_from_override OvDeepSeekLight p =
     Some (if p = Deepseek then DeepSeekLight else GenericRelay)"
| "pipeline_from_override OvMimoTokenPlanRelay p =
     Some (if p = Mimo then MimoTokenPlanRelay else GenericRelay)"
| "pipeline_from_override OvGenericRelay p = Some GenericRelay"
| "pipeline_from_override OvCodexRelay p = Some (if p = Codex then CodexRelay else GenericRelay)"
| "pipeline_from_override OvCodexDeepSeek p =
     Some (if p = Deepseek then CodexDeepSeek else GenericRelay)"
| "pipeline_from_override OvCodexMimo p = Some (if p = Mimo then CodexMimo else GenericRelay)"

fun resolve_alias_pipeline :: "pipeline_override \<Rightarrow> request_pipeline option" where
  "resolve_alias_pipeline OvCursorDeepSeekV4 = Some CursorDeepSeekV4"
| "resolve_alias_pipeline OvDeepSeekLight = Some DeepSeekLight"
| "resolve_alias_pipeline OvMimoTokenPlanRelay = Some MimoTokenPlanRelay"
| "resolve_alias_pipeline OvGenericRelay = Some GenericRelay"
| "resolve_alias_pipeline OvCodexRelay = Some CodexRelay"
| "resolve_alias_pipeline OvCodexDeepSeek = Some CodexDeepSeek"
| "resolve_alias_pipeline OvCodexMimo = Some CodexMimo"
| "resolve_alias_pipeline OvAuto = None"

definition cursor_request :: "pipeline_request_context \<Rightarrow> bool" where
  \<comment> \<open>the signals that the built-in heuristics read as a Cursor agent\<close>
  "cursor_request ctx \<longleftrightarrow>
     cursor_agent_signals (payload ctx) \<or>
     (case conversation_id_header ctx of Some s \<Rightarrow> trim s \<noteq> [] | None \<Rightarrow> False) \<or>
     user_agent_suggests_cursor (user_agent ctx)"

definition auto_pipeline_legacy ::
    "pipeline_request_context \<Rightarrow> upstream_provider \<Rightarrow> request_pipeline" where
  "auto_pipeline_legacy ctx provider =
     (case provider of
        Deepseek \<Rightarrow>
          if is_deepseek_v4_model (model ctx) \<and> cursor_request ctx
          then CursorDeepSeekV4 else DeepSeekLight
      | Mimo \<Rightarrow> MimoTokenPlanRelay
      | Codex \<Rightarrow> CodexRelay
      | _ \<Rightarrow> GenericRelay)"

fun legacy_reason :: "request_pipeline \<Rightarrow> selection_reason" where
  "legacy_reason CursorDeepSeekV4 = CursorSignals"
| "legacy_reason DeepSeekLight = DeepSeekNonV4"
| "legacy_reason MimoTokenPlanRelay = MimoProvider"
| "legacy_reason GenericRelay = ProviderDefault"
| "legacy_reason CodexRelay = CodexProvider"
| "legacy_reason CodexDeepSeek = CodexDeepSeekProvider"
| "legacy_reason CodexMimo = CodexMimoProvider"

definition engine_choice ::
    "pipeline_request_context \<Rightarrow> upstream_provider \<Rightarrow> pipeline_globals \<Rightarrow>
     (request_pipeline \<times> string) option" where
  \<comment> \<open>the rule engine runs only when one is configured and the client kind is known\<close>
  "engine_choice ctx provider globals =
     (case (rule_engine globals, ctx_client_kind ctx) of
        (Some engine, Some kind) \<Rightarrow>
          engine_select engine
            \<lparr>ri_client_kind = kind, ri_provider = provider, ri_model = model ctx,
             ri_wire_format = (case wire_format ctx of Some f \<Rightarrow> f | None \<Rightarrow> ChatCompletions)\<rparr>
      | _ \<Rightarrow> None)"

definition auto_pipeline_with_reason ::
    "pipeline_request_context \<Rightarrow> upstream_provider \<Rightarrow> pipeline_globals \<Rightarrow>
     request_pipeline \<times> selection_reason" where
  "auto_pipeline_with_reason ctx provider globals =
     (case Option.bind (model_alias_pipeline ctx) resolve_alias_pipeline of
        Some resolved \<Rightarrow> (resolved, ModelAlias)
      | None \<Rightarrow>
          (case engine_choice ctx provider globals of
             Some (pl, rule_name) \<Rightarrow> (pl, RuleEngine rule_name)
           | None \<Rightarrow>
               (let pl = auto_pipeline_legacy ctx provider in (pl, legacy_reason pl))))"

definition select_request_pipeline ::
    "pipeline_globals \<Rightarrow> profile_descriptor list \<Rightarrow> pipeline_request_context \<Rightarrow>
     pipeline_selection" where
  "select_request_pipeline globals profiles ctx =
     (let kind = (case ctx_client_kind ctx of Some k \<Rightarrow> k | None \<Rightarrow> CkGeneric);
          (profile, provider0, _) = resolve_upstream_profile_id globals profiles ctx;
          provider = normalize_legacy_codex_provider provider0 profile
      in if g_pipeline_mode globals = ForceCursorV4
         then \<lparr>sel_pipeline = CursorDeepSeekV4, upstream_profile_id = profile,
               sel_provider = provider, sel_reason = GlobalForceCursorV4, sel_client_kind = kind\<rparr>
         else
           (let override_pipe =
                  (case or_else (key_pipeline ctx) (domain_pipeline ctx) of
                     Some ov \<Rightarrow> ov | None \<Rightarrow> OvAuto)
            in case (if pipeline_override_matches_model override_pipe (model ctx)
                     then pipeline_from_override override_pipe provider else None) of
                 Some forced \<Rightarrow>
                   \<lparr>sel_pipeline = forced, upstream_profile_id = profile, sel_provider = provider,
                    sel_reason = (if key_pipeline ctx = Some override_pipe
                                  then KeyOverride else DomainOverride),
                    sel_client_kind = kind\<rparr>
               | None \<Rightarrow>
                   (let (pl, reason) = auto_pipeline_with_reason ctx provider globals;
                        profile' =
                          (if reason = ModelAlias \<and> model_alias_pipeline ctx \<noteq> None
                           then (case profile_for_pipeline pl profiles of
                                   Some i \<Rightarrow> i | None \<Rightarrow> profile)
                           else profile)
                    in \<lparr>sel_pipeline = pl, upstream_profile_id = profile', sel_provider = provider,
                        sel_reason = reason, sel_client_kind = kind\<rparr>)))"

definition validate_pipeline_override ::
    "pipeline_override \<Rightarrow> upstream_provider \<Rightarrow> string option" where
  "validate_pipeline_override ov provider =
     (if ov \<in> {OvCursorDeepSeekV4, OvDeepSeekLight, OvCodexDeepSeek} \<and> provider \<noteq> Deepseek
      then Some ''cursor_deepseek_v4, deepseek_light, and codex_deepseek require a deepseek upstream profile''
      else if ov \<in> {OvMimoTokenPlanRelay, OvCodexMimo} \<and> provider \<noteq> Mimo
      then Some ''mimo_token_plan_relay and codex_mimo require a mimo upstream profile''
      else if ov = OvCodexRelay \<and> provider \<noteq> Codex
      then Some ''codex_relay requires a codex upstream profile''
      else None)"

section \<open>Pipelines and providers\<close>

definition pipeline_serves :: "request_pipeline \<Rightarrow> upstream_provider \<Rightarrow> bool" where
  \<comment> \<open>the pipeline is made for the provider, or for any\<close>
  "pipeline_serves pl provider =
     (case pipeline_target pl of None \<Rightarrow> True | Some (p, _) \<Rightarrow> p = provider)"

lemma override_serves: "pipeline_from_override ov p = Some pl \<Longrightarrow> pipeline_serves pl p"
  by (cases ov) (auto simp: pipeline_serves_def split: if_splits)

lemma legacy_serves: "pipeline_serves (auto_pipeline_legacy ctx p) p"
  by (cases p) (auto simp: pipeline_serves_def auto_pipeline_legacy_def)

lemma legacy_reason_not_alias [simp]: "legacy_reason pl \<noteq> ModelAlias"
  by (cases pl) auto

definition rule_serves :: "pipeline_rule \<Rightarrow> bool" where
  \<comment> \<open>the rule sends only providers to its pipeline that the pipeline is made for\<close>
  "rule_serves r =
     (case mc_provider (match_conditions r) of
        Some ps \<Rightarrow> list_all (pipeline_serves (pr_pipeline r)) ps
      | None \<Rightarrow> pipeline_target (pr_pipeline r) = None)"

definition engine_serves :: "pipeline_globals \<Rightarrow> bool" where
  "engine_serves globals =
     (case rule_engine globals of None \<Rightarrow> True | Some e \<Rightarrow> list_all rule_serves (rules e))"

lemma default_rules_serve: "list_all rule_serves (rules default_rules)"
  by code_simp

lemma engine_choice_serves:
  assumes "engine_serves globals" and "engine_choice ctx p globals = Some (pl, n)"
  shows "pipeline_serves pl p"
proof -
  obtain e inp where e: "rule_engine globals = Some e" "engine_select e inp = Some (pl, n)"
    and p: "ri_provider inp = p"
    using assms(2) by (auto simp: engine_choice_def split: option.splits)
  then obtain r where r: "r \<in> set (rules e)" "rule_matches (match_conditions r) inp" "pr_pipeline r = pl"
    by (auto simp: engine_select_def dest!: find_in_set)
  moreover have "rule_serves r" using assms(1) e r(1) by (auto simp: engine_serves_def list_all_iff)
  ultimately show ?thesis using p
    by (auto simp: rule_serves_def rule_matches_def option_allows_def list_all_iff list_ex_iff
        pipeline_serves_def split: option.splits)
qed

lemma auto_serves:
  assumes "engine_serves globals" "Option.bind (model_alias_pipeline ctx) resolve_alias_pipeline = None"
  shows "pipeline_serves (fst (auto_pipeline_with_reason ctx p globals)) p"
  using assms engine_choice_serves [OF assms(1)]
  by (auto simp: auto_pipeline_with_reason_def legacy_serves Let_def split: option.split)

text \<open>
  Without a forced mode and without an alias the selected pipeline is made for the provider of
  the selected profile, whatever overrides the key and the domain ask for, as long as the configured
  rules respect it (the built-in rules do).
\<close>
theorem selected_pipeline_serves_provider:
  assumes "g_pipeline_mode globals \<noteq> ForceCursorV4" and "engine_serves globals"
    and "Option.bind (model_alias_pipeline ctx) resolve_alias_pipeline = None"
  shows "pipeline_serves (sel_pipeline (select_request_pipeline globals profiles ctx))
           (sel_provider (select_request_pipeline globals profiles ctx))"
  using assms(1) auto_serves [OF assms(2,3)]
  by (auto simp: select_request_pipeline_def Let_def override_serves split: option.split prod.split
      dest!: override_serves) (metis fst_conv)+

theorem selected_pipeline_serves_provider_witness:
  "pipeline_serves
     (sel_pipeline (select_request_pipeline (globals_default\<lparr>rule_engine := Some default_rules\<rparr>) []
        ((sample_context ''mimo-v2'')\<lparr>key_pipeline := Some OvCodexRelay\<rparr>)))
     (sel_provider (select_request_pipeline (globals_default\<lparr>rule_engine := Some default_rules\<rparr>) []
        ((sample_context ''mimo-v2'')\<lparr>key_pipeline := Some OvCodexRelay\<rparr>)))"
  by (rule selected_pipeline_serves_provider)
    (simp_all add: globals_default_def engine_serves_def default_rules_serve)

section \<open>The built-in rules\<close>

lemma rules_default:
  "rules default_rules =
     [rule ''cursor_deepseek_v4'' 10 (Some [CkCursor]) (Some [Deepseek]) (Some [''deepseek-v4-*''])
        CursorDeepSeekV4,
      rule ''codex_relay'' 20 (Some [CkCodex]) (Some [Codex]) None CodexRelay,
      rule ''codex_to_deepseek'' 25 (Some [CkCodex]) (Some [Deepseek]) (Some [''deepseek-*''])
        CodexDeepSeek,
      rule ''codex_to_mimo'' 26 (Some [CkCodex]) (Some [Mimo]) (Some [''mimo-*'']) CodexMimo,
      rule ''deepseek_light'' 30 None (Some [Deepseek]) None DeepSeekLight,
      rule ''mimo_relay'' 40 None (Some [Mimo]) None MimoTokenPlanRelay]"
  by (simp add: default_rules_def engine_new_def rule_def)

lemma rule_matches_rule:
  "rule_matches (match_conditions (rule n k ck pv mp pl)) inp \<longleftrightarrow>
     option_allows (\<lambda>c. c = ri_client_kind inp) ck \<and>
     option_allows (\<lambda>p. p = ri_provider inp) pv \<and>
     option_allows (\<lambda>p. matches_model_pattern (ri_model inp) p) mp"
  by (simp add: rule_matches_def rule_def option_allows_def)

lemma default_globs:
  "matches_model_pattern m ''deepseek-v4-*'' = starts_with m ''deepseek-v4-''"
  "matches_model_pattern m ''deepseek-*'' = starts_with m ''deepseek-''"
  "matches_model_pattern m ''mimo-*'' = starts_with m ''mimo-''"
  using matches_prefix [of m "''deepseek-v4-''"] matches_prefix [of m "''deepseek-''"]
    matches_prefix [of m "''mimo-''"] by simp_all

lemma rule_fields [simp]:
  "pr_pipeline (rule n k ck pv mp pl) = pl" "pr_name (rule n k ck pv mp pl) = n"
  by (simp_all add: rule_def)

lemma default_engine_select:
  "map_option fst (engine_select default_rules inp) =
     (if ri_provider inp = Deepseek
      then Some (if ri_client_kind inp = CkCursor \<and> starts_with (ri_model inp) ''deepseek-v4-''
                 then CursorDeepSeekV4
                 else if ri_client_kind inp = CkCodex \<and> starts_with (ri_model inp) ''deepseek-''
                 then CodexDeepSeek else DeepSeekLight)
      else if ri_provider inp = Mimo
      then Some (if ri_client_kind inp = CkCodex \<and> starts_with (ri_model inp) ''mimo-''
                 then CodexMimo else MimoTokenPlanRelay)
      else if ri_provider inp = Codex \<and> ri_client_kind inp = CkCodex then Some CodexRelay
      else None)"
  by (simp add: engine_select_def rules_default rule_matches_rule option_allows_def default_globs)

text \<open>
  With the built-in rules, the automatic choice differs from the built-in heuristics, which the
  rules are said to replicate, in exactly two ways: Codex clients of a DeepSeek or MiMo provider get
  the bridge pipelines for models with that prefix, and on DeepSeek V4 models the detected client
  kind decides instead of the request's signals.
\<close>
theorem default_rules_versus_heuristics:
  assumes "rule_engine globals = Some default_rules" and "ctx_client_kind ctx = Some kind"
    and "Option.bind (model_alias_pipeline ctx) resolve_alias_pipeline = None"
  shows "fst (auto_pipeline_with_reason ctx p globals) =
    (if kind = CkCodex \<and> p = Deepseek \<and> starts_with (model ctx) ''deepseek-'' then CodexDeepSeek
     else if kind = CkCodex \<and> p = Mimo \<and> starts_with (model ctx) ''mimo-'' then CodexMimo
     else if p = Deepseek \<and> is_deepseek_v4_model (model ctx)
     then (if kind = CkCursor then CursorDeepSeekV4 else DeepSeekLight)
     else auto_pipeline_legacy ctx p)"
proof -
  define inp where "inp = \<lparr>ri_client_kind = kind, ri_provider = p, ri_model = model ctx,
      ri_wire_format = (case wire_format ctx of Some f \<Rightarrow> f | None \<Rightarrow> ChatCompletions)\<rparr>"
  have "engine_choice ctx p globals = engine_select default_rules inp"
    using assms by (simp add: engine_choice_def inp_def)
  then have "fst (auto_pipeline_with_reason ctx p globals) =
      (case map_option fst (engine_select default_rules inp) of
         Some pl \<Rightarrow> pl | None \<Rightarrow> auto_pipeline_legacy ctx p)"
    using assms(3) by (auto simp: auto_pipeline_with_reason_def Let_def split: option.split)
  also have "\<dots> =
    (if kind = CkCodex \<and> p = Deepseek \<and> starts_with (model ctx) ''deepseek-'' then CodexDeepSeek
     else if kind = CkCodex \<and> p = Mimo \<and> starts_with (model ctx) ''mimo-'' then CodexMimo
     else if p = Deepseek \<and> is_deepseek_v4_model (model ctx)
     then (if kind = CkCursor then CursorDeepSeekV4 else DeepSeekLight)
     else auto_pipeline_legacy ctx p)"
    unfolding default_engine_select
    by (auto simp: inp_def is_deepseek_v4_model_iff auto_pipeline_legacy_def)
  finally show ?thesis .
qed

theorem default_rules_versus_heuristics_witness:
  "fst (auto_pipeline_with_reason
          ((sample_context ''deepseek-v4-pro'')\<lparr>ctx_client_kind := Some CkCodex\<rparr>) Deepseek
          (globals_default\<lparr>rule_engine := Some default_rules\<rparr>)) = CodexDeepSeek \<and>
   auto_pipeline_legacy
     ((sample_context ''deepseek-v4-pro'')\<lparr>ctx_client_kind := Some CkCodex\<rparr>) Deepseek = DeepSeekLight"
proof -
  let ?ctx = "(sample_context ''deepseek-v4-pro'')\<lparr>ctx_client_kind := Some CkCodex\<rparr>"
  let ?g = "globals_default\<lparr>rule_engine := Some default_rules\<rparr>"
  have "starts_with (model ?ctx) ''deepseek-''" by simp
  then have "fst (auto_pipeline_with_reason ?ctx Deepseek ?g) = CodexDeepSeek"
    using default_rules_versus_heuristics [of ?g ?ctx CkCodex Deepseek] by simp
  moreover have "auto_pipeline_legacy ?ctx Deepseek = DeepSeekLight" by code_simp
  ultimately show ?thesis by blast
qed

section \<open>Model aliases\<close>

text \<open>
  An alias that names a pipeline decides it (unless an override applies or the mode is forced),
  and the profile then is one of the pipeline's own provider whenever one is configured; the
  provider field of the selection still is the one of the profile resolved before.
\<close>
theorem alias_moves_profile_not_provider:
  assumes "g_pipeline_mode globals \<noteq> ForceCursorV4" and "key_pipeline ctx = None"
    and "domain_pipeline ctx = None"
    and "Option.bind (model_alias_pipeline ctx) resolve_alias_pipeline = Some pl"
    and "pipeline_target pl = Some (target, canonical)"
    and "resolve_upstream_profile_id globals profiles ctx = (i, p, e)"
  shows "sel_pipeline (select_request_pipeline globals profiles ctx) = pl \<and>
    sel_provider (select_request_pipeline globals profiles ctx) = normalize_legacy_codex_provider p i \<and>
    (if \<exists>d \<in> set profiles. pd_provider d = target
     then is_profile profiles (upstream_profile_id (select_request_pipeline globals profiles ctx), target)
     else upstream_profile_id (select_request_pipeline globals profiles ctx) = i)"
proof -
  have auto: "auto_pipeline_with_reason ctx q globals = (pl, ModelAlias)" for q
    using assms(4) by (simp add: auto_pipeline_with_reason_def)
  have some: "model_alias_pipeline ctx \<noteq> None" using assms(4) by (auto simp: bind_eq_Some_conv)
  have sel: "select_request_pipeline globals profiles ctx =
      \<lparr>sel_pipeline = pl,
       upstream_profile_id = (case profile_for_pipeline pl profiles of Some j \<Rightarrow> j | None \<Rightarrow> i),
       sel_provider = normalize_legacy_codex_provider p i, sel_reason = ModelAlias,
       sel_client_kind = (case ctx_client_kind ctx of Some k \<Rightarrow> k | None \<Rightarrow> CkGeneric)\<rparr>"
    using assms(1,2,3,6) auto some by (simp add: select_request_pipeline_def or_else_def Let_def)
  show ?thesis
  proof (cases "pick_profile_by_provider profiles target (Some canonical)")
    case None
    then have "\<not> (\<exists>d \<in> set profiles. pd_provider d = target)"
      by (simp add: pick_by_provider_None_iff)
    then show ?thesis using sel assms(5) None by (simp add: profile_for_pipeline_def)
  next
    case (Some x)
    then have x: "is_profile profiles x" "snd x = target" by (auto dest: pick_by_provider_Some)
    have "\<exists>d \<in> set profiles. pd_provider d = target"
      using Some by (metis option.distinct(1) pick_by_provider_None_iff)
    then show ?thesis using sel assms(5) Some x
      by (auto simp: profile_for_pipeline_def)
  qed
qed

theorem alias_moves_profile_not_provider_witness:
  "let ps = [\<lparr>pd_id = ''codex'', pd_provider = Codex\<rparr>, \<lparr>pd_id = ''ds'', pd_provider = Deepseek\<rparr>];
       out = select_request_pipeline globals_default ps
               ((sample_context ''gpt-4o'')\<lparr>model_alias_pipeline := Some OvDeepSeekLight\<rparr>)
   in sel_pipeline out = DeepSeekLight \<and> sel_provider out = Codex \<and>
      is_profile ps (upstream_profile_id out, Deepseek)"
proof -
  let ?ps = "[\<lparr>pd_id = ''codex'', pd_provider = Codex\<rparr>, \<lparr>pd_id = ''ds'', pd_provider = Deepseek\<rparr>]"
  let ?ctx = "(sample_context ''gpt-4o'')\<lparr>model_alias_pipeline := Some OvDeepSeekLight\<rparr>"
  have r: "resolve_upstream_profile_id globals_default ?ps ?ctx = (''codex'', Codex, False)"
    by code_simp
  have n: "normalize_legacy_codex_provider Codex ''codex'' = Codex"
    by (simp add: normalize_legacy_codex_provider_def Let_def)
  have m: "g_pipeline_mode globals_default \<noteq> ForceCursorV4" by (simp add: globals_default_def)
  show ?thesis
    using alias_moves_profile_not_provider [OF m _ _ _ _ r, of DeepSeekLight Deepseek "''deepseek''"] n
    by (simp add: Let_def)
qed

lemma validated_override_applies:
  assumes "validate_pipeline_override ov p = None" "ov \<noteq> OvAuto"
  shows "\<exists>pl. resolve_alias_pipeline ov = Some pl \<and> pipeline_from_override ov p = Some pl"
  using assms by (cases ov) (auto simp: validate_pipeline_override_def split: if_splits)

end
