(* ===== verification/Tenant.thy ===== *)
theory Tenant
  imports Text
begin

text \<open>
  Projects of a multi-tenant gateway (\<^verbatim>\<open>src/crates/crab-proxy/src/tenant.rs\<close>): the
  sanitised project id, its resolution from the key and the request header, the cache namespace it
  gives, and the id derived from a client key. SHA-256 in hexadecimal is an argument.
\<close>

section \<open>Model\<close>

definition USER_ID_MAX_LEN :: nat where
  "USER_ID_MAX_LEN = 512"

definition is_ascii_alphanumeric :: "char \<Rightarrow> bool" where
  "is_ascii_alphanumeric c \<longleftrightarrow>
     (CHR ''0'' \<le> c \<and> c \<le> CHR ''9'') \<or> (CHR ''A'' \<le> c \<and> c \<le> CHR ''Z'') \<or>
     (CHR ''a'' \<le> c \<and> c \<le> CHR ''z'')"

definition is_valid_user_id_char :: "char \<Rightarrow> bool" where
  "is_valid_user_id_char c \<longleftrightarrow> is_ascii_alphanumeric c \<or> c = CHR ''-'' \<or> c = CHR ''_''"

datatype project_resolve_error = Mismatch | InvalidHeader string

fun project_resolve_error_fmt :: "project_resolve_error \<Rightarrow> string" where
  "project_resolve_error_fmt Mismatch = ''project id mismatch''"
| "project_resolve_error_fmt (InvalidHeader e) = ''invalid project id: '' @ e"

definition sanitize_user_id :: "string \<Rightarrow> string + string" where
  "sanitize_user_id raw =
     (let trimmed = trim raw in
      if trimmed = [] then Inl ''project id must not be empty''
      else if length trimmed > USER_ID_MAX_LEN
      then Inl (''project id exceeds maximum length of '' @ show_nat USER_ID_MAX_LEN)
      else if \<not> list_all is_valid_user_id_char trimmed
      then Inl (''project id must match [a-zA-Z0-9'' @ [CHR 0x5C] @
                ''-_]+ and must not contain spaces or other characters'')
      else Inr trimmed)"

definition sanitize_opt :: "string option \<Rightarrow> project_resolve_error + string option" where
  \<comment> \<open>\<open>.filter(non-blank).map(sanitize_user_id).transpose().map_err(InvalidHeader)\<close>\<close>
  "sanitize_opt o' =
     (case non_blank o' of
        None \<Rightarrow> Inr None
      | Some s \<Rightarrow> (case sanitize_user_id s of Inl e \<Rightarrow> Inl (InvalidHeader e) | Inr v \<Rightarrow> Inr (Some v)))"

definition resolve_project_id ::
    "string option \<Rightarrow> string option \<Rightarrow> project_resolve_error + string option" where
  "resolve_project_id key_project_id header =
     (case sanitize_opt key_project_id of
        Inl e \<Rightarrow> Inl e
      | Inr key \<Rightarrow>
          (case sanitize_opt header of
             Inl e \<Rightarrow> Inl e
           | Inr header_val \<Rightarrow>
               (case (key, header_val) of
                  (Some k, None) \<Rightarrow> Inr (Some k)
                | (Some k, Some h) \<Rightarrow> if k = h then Inr (Some k) else Inl Mismatch
                | (None, Some h) \<Rightarrow> Inr (Some h)
                | (None, None) \<Rightarrow> Inr None)))"

definition effective_cache_namespace :: "string option \<Rightarrow> string option \<Rightarrow> string option" where
  "effective_cache_namespace global project =
     (case (non_blank global, non_blank project) of
        (Some g, Some p) \<Rightarrow> Some (g @ '':'' @ p)
      | (None, Some p) \<Rightarrow> Some p
      | (Some g, None) \<Rightarrow> Some g
      | (None, None) \<Rightarrow> None)"

definition derive_project_id_from_client_key ::
    "(string \<Rightarrow> string) \<Rightarrow> string \<Rightarrow> project_resolve_error + string" where
  "derive_project_id_from_client_key sha256_hex client_key =
     (let derived = ''client_'' @ take 16 (sha256_hex client_key) in
      case sanitize_user_id derived of
        Inl e \<Rightarrow> Inl (InvalidHeader e)
      | Inr _ \<Rightarrow> Inr derived)"

section \<open>Laws\<close>

definition valid_project :: "string \<Rightarrow> bool" where
  "valid_project p \<longleftrightarrow> p \<noteq> [] \<and> length p \<le> USER_ID_MAX_LEN \<and> list_all is_valid_user_id_char p"

lemma valid_char_not_space: "is_valid_user_id_char c \<Longrightarrow> \<not> is_space c"
  by (auto simp: is_valid_user_id_char_def is_ascii_alphanumeric_def is_space_of_char less_eq_char_def)

lemma trim_no_space: "list_all (\<lambda>c. \<not> is_space c) s \<Longrightarrow> trim s = s"
proof -
  assume s: "list_all (\<lambda>c. \<not> is_space c) s"
  then have "dropWhile is_space s = s" by (cases s) auto
  moreover have "dropWhile is_space (rev s) = rev s"
    using s by (intro dropWhile_eq_self_iff [THEN iffD2]) (auto simp: list_all_iff hd_rev)
  ultimately show ?thesis by (simp add: trim_def)
qed

lemma valid_project_trim: "valid_project p \<Longrightarrow> trim p = p"
  by (rule trim_no_space) (auto simp: valid_project_def list_all_iff valid_char_not_space)

lemma sanitize_Inr_iff: "sanitize_user_id raw = Inr p \<longleftrightarrow> p = trim raw \<and> valid_project p"
  by (auto simp: sanitize_user_id_def valid_project_def Let_def)

lemma sanitize_valid: "valid_project p \<Longrightarrow> sanitize_user_id p = Inr p"
  by (simp add: sanitize_Inr_iff valid_project_trim)

lemma sanitize_opt_Inr:
  "sanitize_opt o' = Inr r \<Longrightarrow>
     (case r of
        None \<Rightarrow> non_blank o' = None
      | Some p \<Rightarrow> valid_project p \<and> (\<exists>s. o' = Some s \<and> trim s = p))"
  by (auto simp: sanitize_opt_def sanitize_Inr_iff non_blank_def split: option.splits sum.splits if_splits)

text \<open>
  The project of a request is a valid id, and a key that is bound to a project pins it: the
  header can confirm the key's project but never replace it.
\<close>
theorem project_pinned_by_key:
  assumes "resolve_project_id key header = Inr (Some p)"
  shows "valid_project p \<and>
    (case non_blank key of
       Some k \<Rightarrow> p = trim k
     | None \<Rightarrow> (\<exists>h. header = Some h \<and> p = trim h))"
proof -
  obtain k h where k: "sanitize_opt key = Inr k" and h: "sanitize_opt header = Inr h"
    and p: "k = Some p \<and> (h = None \<or> h = Some p) \<or> k = None \<and> h = Some p"
    using assms by (auto simp: resolve_project_id_def split: sum.splits option.splits if_splits)
  show ?thesis
  proof (cases k)
    case None
    then have "non_blank key = None" using sanitize_opt_Inr [OF k] by simp
    then show ?thesis using None p sanitize_opt_Inr [OF h] by auto
  next
    case (Some q)
    then have q: "q = p" "valid_project p" "\<exists>s. key = Some s \<and> trim s = p"
      using p sanitize_opt_Inr [OF k] by auto
    then have "\<exists>s. non_blank key = Some s \<and> trim s = p"
      by (auto simp: non_blank_def valid_project_def)
    then show ?thesis using q by auto
  qed
qed

theorem project_pinned_by_key_witness:
  "valid_project ''team-1'' \<and> ''team-1'' = trim '' team-1 ''"
proof -
  have "resolve_project_id (Some '' team-1 '') (Some ''team-1'') = Inr (Some ''team-1'')"
    by code_simp
  moreover have "trim '' team-1 '' \<noteq> []" by code_simp
  ultimately show ?thesis using project_pinned_by_key by (force simp: non_blank_def)
qed

text \<open>
  Tenants do not share a cache namespace: under one global namespace, equal effective namespaces
  come from the same project (or from no project on both sides).
\<close>
theorem cache_namespace_isolates_projects:
  assumes "effective_cache_namespace global p = effective_cache_namespace global q"
  shows "non_blank p = non_blank q"
proof (cases "non_blank global")
  case None
  then show ?thesis using assms
    by (auto simp: effective_cache_namespace_def split: option.splits)
next
  case (Some g)
  have "g @ CHR '':'' # t \<noteq> g" "g \<noteq> g @ CHR '':'' # t" for t by simp_all
  then show ?thesis using assms Some
    by (auto simp: effective_cache_namespace_def split: option.splits)
qed

theorem cache_namespace_isolates_projects_witness:
  "non_blank (Some ''a'') = non_blank (Some ''a'') \<and>
   effective_cache_namespace (Some ''g'') (Some ''a'') \<noteq> effective_cache_namespace (Some ''g'') (Some ''b'')"
  using cache_namespace_isolates_projects [of "Some ''g''" "Some ''a''" "Some ''b''"]
  by (auto simp: non_blank_def trim_def is_space_of_char)

lemma namespaces_nested_collide:
  \<comment> \<open>two gateways with different global namespaces can meet in one shared store\<close>
  "effective_cache_namespace (Some ''a'') (Some ''b'') = effective_cache_namespace (Some ''a:b'') None"
  by code_simp

definition lower_hex :: "char \<Rightarrow> bool" where
  "lower_hex c \<longleftrightarrow> (CHR ''0'' \<le> c \<and> c \<le> CHR ''9'') \<or> (CHR ''a'' \<le> c \<and> c \<le> CHR ''f'')"

lemma lower_hex_valid: "lower_hex c \<Longrightarrow> is_valid_user_id_char c"
  by (auto simp: lower_hex_def is_valid_user_id_char_def is_ascii_alphanumeric_def less_eq_char_def)

lemma derive_project_id_ok:
  assumes "list_all lower_hex (sha256_hex client_key)"
  shows "derive_project_id_from_client_key sha256_hex client_key =
         Inr (''client_'' @ take 16 (sha256_hex client_key))"
proof -
  let ?d = "''client_'' @ take 16 (sha256_hex client_key)"
  have "list_all is_valid_user_id_char ''client_''" by code_simp
  then have "valid_project ?d" using assms
    by (auto simp: valid_project_def USER_ID_MAX_LEN_def list_all_iff lower_hex_valid dest: in_set_takeD)
  then show ?thesis by (simp add: derive_project_id_from_client_key_def sanitize_valid Let_def)
qed

end
