(* ===== verification/FaultInjection.thy ===== *)
theory FaultInjection
  imports Prelude
begin

text \<open>
  Programmable faults (\<^verbatim>\<open>src/crates/crab-proxy/src/fault_injection.rs\<close>). The counters are
  32-bit atomics; a call of \<open>should_trigger\<close> is one atomic step on the request counter.
\<close>

record fault_injection =
  redis_down :: bool
  force_upstream_429 :: bool
  upstream_delay_ms :: nat
  corrupt_l0_cache :: bool
  force_coalesce_leader_fail :: bool
  force_connection_fail :: bool
  trigger_after_count :: nat
  current_count :: nat

definition fi_default :: fault_injection where
  "fi_default =
     \<lparr>redis_down = False, force_upstream_429 = False, upstream_delay_ms = 0, corrupt_l0_cache = False,
      force_coalesce_leader_fail = False, force_connection_fail = False, trigger_after_count = 0,
      current_count = 0\<rparr>"

definition should_trigger :: "fault_injection \<Rightarrow> fault_injection \<times> bool" where
  "should_trigger f =
     (let count = wrap_add 32 (current_count f) 1; threshold = trigger_after_count f
      in (f\<lparr>current_count := count\<rparr>, threshold = 0 \<or> threshold \<le> count))"

definition fi_reset :: "fault_injection \<Rightarrow> fault_injection" where
  "fi_reset f =
     f\<lparr>redis_down := False, force_upstream_429 := False, upstream_delay_ms := 0,
       corrupt_l0_cache := False, force_coalesce_leader_fail := False,
       force_connection_fail := False, trigger_after_count := 0, current_count := 0\<rparr>"

fun trigger_calls :: "nat \<Rightarrow> fault_injection \<Rightarrow> fault_injection" where
  \<comment> \<open>the state after that many requests\<close>
  "trigger_calls 0 f = f"
| "trigger_calls (Suc n) f = fst (should_trigger (trigger_calls n f))"

lemma fi_reset_default: "fi_reset f = fi_default"
  by (simp add: fi_reset_def fi_default_def)

lemma trigger_calls_count:
  "current_count f < 2 ^ 32 \<Longrightarrow>
   current_count (trigger_calls n f) = (current_count f + n) mod 2 ^ 32 \<and>
   trigger_after_count (trigger_calls n f) = trigger_after_count f"
  by (induction n) (auto simp: should_trigger_def Let_def wrap_add_def mod_Suc_eq)

text \<open>
  The request numbered n since the reset triggers the fault exactly when n, reduced modulo 2^32,
  has reached the configured count (or the count is zero).
\<close>
theorem trigger_from_nth_request:
  assumes "current_count f = 0"
  shows "snd (should_trigger (trigger_calls n f)) \<longleftrightarrow>
    trigger_after_count f = 0 \<or> trigger_after_count f \<le> (n + 1) mod 2 ^ 32"
  using trigger_calls_count [of f n] assms
  by (simp add: should_trigger_def Let_def wrap_add_def mod_Suc_eq)

theorem trigger_from_nth_request_witness:
  "\<not> snd (should_trigger (trigger_calls 1 (fi_default\<lparr>trigger_after_count := 3\<rparr>))) \<and>
   snd (should_trigger (trigger_calls 2 (fi_default\<lparr>trigger_after_count := 3\<rparr>)))"
  using trigger_from_nth_request [of "fi_default\<lparr>trigger_after_count := 3\<rparr>" 1]
    trigger_from_nth_request [of "fi_default\<lparr>trigger_after_count := 3\<rparr>" 2]
  by (simp add: fi_default_def)

end
