(* ===== verification/LbRouter.thy ===== *)
theory LbRouter
  imports Text "HOL-Library.Product_Lexorder" Complex_Main
begin

text \<open>
  Backend routing (\<^verbatim>\<open>src/crates/crab-route/src/ring.rs\<close> and \<^verbatim>\<open>affinity.rs\<close>): the
  router that keeps names and TLS names beside the load balancer of pingora, its four ways to select
  a backend, and the affinity key. What is asked of the load balancer is an argument: which
  registered backends are ready, and which one the hash ring gives for a key. An address is its
  rank in the order of \<^verbatim>\<open>SocketAddr\<close>; scores are finite.
\<close>

section \<open>The router\<close>

datatype route_error = EmptyBackends

type_synonym socket_addr = nat

record backend =
  b_name :: string
  b_addr :: socket_addr
  b_weight :: nat
  b_tls_sni :: string

record backend_meta =
  m_name :: string
  m_tls_sni :: string

record selected_backend =
  s_addr :: socket_addr
  s_name :: string
  s_tls_sni :: string

type_synonym pbackend = "socket_addr \<times> nat"  \<comment> \<open>address and weight\<close>

record lb_router =
  registered :: "pbackend list"  \<comment> \<open>the \<open>BTreeSet\<close> given to the load balancer, in order\<close>
  meta :: "(socket_addr, backend_meta) hmap"

definition collect_backends :: "backend list \<Rightarrow> pbackend list \<times> (socket_addr, backend_meta) hmap" where
  \<comment> \<open>the loop over the configured backends\<close>
  "collect_backends bs =
     (sort (remdups (map (\<lambda>b. (b_addr b, b_weight b)) bs)),
      hm_collect (map (\<lambda>b. (b_addr b, \<lparr>m_name = b_name b, m_tls_sni = b_tls_sni b\<rparr>)) bs))"

definition lb_new :: "backend list \<Rightarrow> route_error + lb_router" where
  "lb_new bs =
     (if bs = [] then Inl EmptyBackends
      else let (reg, m) = collect_backends bs in Inr \<lparr>registered = reg, meta = m\<rparr>)"

definition lb_rebuild :: "lb_router \<Rightarrow> backend list \<Rightarrow> route_error + lb_router" where
  "lb_rebuild r bs =
     (if bs = [] then Inl EmptyBackends
      else let (reg, m) = collect_backends bs in Inr (r\<lparr>registered := reg, meta := m\<rparr>))"

definition backend_from_pingora :: "lb_router \<Rightarrow> pbackend \<Rightarrow> selected_backend option" where
  "backend_from_pingora r pb =
     map_option (\<lambda>m. \<lparr>s_addr = fst pb, s_name = m_name m, s_tls_sni = m_tls_sni m\<rparr>)
       (hm_get (meta r) (fst pb))"

fun select_by_name_loop ::
    "lb_router \<Rightarrow> (pbackend \<Rightarrow> bool) \<Rightarrow> string \<Rightarrow> pbackend list \<Rightarrow> selected_backend option" where
  "select_by_name_loop r ready name [] = None"
| "select_by_name_loop r ready name (pb # pbs) =
     (case hm_get (meta r) (fst pb) of
        None \<Rightarrow> select_by_name_loop r ready name pbs
      | Some m \<Rightarrow>
          if m_name m \<noteq> name then select_by_name_loop r ready name pbs
          else if ready pb
          then Some \<lparr>s_addr = fst pb, s_name = m_name m, s_tls_sni = m_tls_sni m\<rparr>
          else select_by_name_loop r ready name pbs)"

definition select_by_name_if_ready ::
    "lb_router \<Rightarrow> (pbackend \<Rightarrow> bool) \<Rightarrow> string \<Rightarrow> selected_backend option" where
  "select_by_name_if_ready r ready name = select_by_name_loop r ready name (registered r)"

definition select_with_hint ::
    "lb_router \<Rightarrow> (pbackend \<Rightarrow> bool) \<Rightarrow> (string \<Rightarrow> nat \<Rightarrow> pbackend option) \<Rightarrow>
     string \<Rightarrow> string option \<Rightarrow> selected_backend option" where
  "select_with_hint r ready ring_select key preferred_name =
     (case Option.bind preferred_name (select_by_name_if_ready r ready) of
        Some s \<Rightarrow> Some s
      | None \<Rightarrow> Option.bind (ring_select key 5) (backend_from_pingora r))"

definition lb_select ::
    "lb_router \<Rightarrow> (pbackend \<Rightarrow> bool) \<Rightarrow> (string \<Rightarrow> nat \<Rightarrow> pbackend option) \<Rightarrow> string \<Rightarrow>
     selected_backend option" where
  "lb_select r ready ring_select key = select_with_hint r ready ring_select key None"

definition ready_backends :: "lb_router \<Rightarrow> (pbackend \<Rightarrow> bool) \<Rightarrow> backend list" where
  "ready_backends r ready =
     List.map_filter (\<lambda>pb.
       if \<not> ready pb then None
       else map_option (\<lambda>m. \<lparr>b_name = m_name m, b_addr = fst pb, b_weight = snd pb mod 2 ^ 32,
                             b_tls_sni = m_tls_sni m\<rparr>)
              (hm_get (meta r) (fst pb))) (registered r)"

definition weighted_step ::
    "lb_router \<Rightarrow> (pbackend \<Rightarrow> bool) \<Rightarrow> (string \<Rightarrow> rat) \<Rightarrow> (pbackend \<times> rat) option \<Rightarrow> pbackend \<Rightarrow>
     (pbackend \<times> rat) option" where
  \<comment> \<open>one iteration of the scoring loop\<close>
  "weighted_step r ready score best pb =
     (if \<not> ready pb then best
      else case hm_get (meta r) (fst pb) of
             None \<Rightarrow> best
           | Some m \<Rightarrow>
               (let s = score (m_name m) in
                case best of
                  None \<Rightarrow> Some (pb, s)
                | Some (_, prev) \<Rightarrow> if s > prev then Some (pb, s) else best))"

definition select_weighted ::
    "lb_router \<Rightarrow> (pbackend \<Rightarrow> bool) \<Rightarrow> (string \<Rightarrow> rat) \<Rightarrow> selected_backend option" where
  "select_weighted r ready score =
     Option.bind (foldl (weighted_step r ready score) None (registered r))
       (\<lambda>(pb, _). backend_from_pingora r pb)"

definition ready_with_meta ::
    "lb_router \<Rightarrow> (pbackend \<Rightarrow> bool) \<Rightarrow> (pbackend \<times> backend_meta) list" where
  \<comment> \<open>the ready list collected by the power-of-two selection\<close>
  "ready_with_meta r ready =
     List.map_filter (\<lambda>pb.
       if \<not> ready pb then None else map_option (\<lambda>m. (pb, m)) (hm_get (meta r) (fst pb)))
       (registered r)"

definition selected :: "pbackend \<times> backend_meta \<Rightarrow> selected_backend" where
  "selected c = \<lparr>s_addr = fst (fst c), s_name = m_name (snd c), s_tls_sni = m_tls_sni (snd c)\<rparr>"

definition p2c_indices :: "nat \<Rightarrow> nat \<Rightarrow> nat \<Rightarrow> nat \<times> nat" where
  \<comment> \<open>the two hashes reduced to distinct positions\<close>
  "p2c_indices n hash1 hash2 =
     (let idx1 = hash1 mod n; idx2 = hash2 mod n
      in (idx1, if idx2 = idx1 \<and> 1 < n then (idx2 + 1) mod n else idx2))"

definition select_p2c ::
    "lb_router \<Rightarrow> (pbackend \<Rightarrow> bool) \<Rightarrow> (string \<Rightarrow> rat) \<Rightarrow> nat \<Rightarrow> nat \<Rightarrow> selected_backend option" where
  \<comment> \<open>the two hashes of the freshly seeded hasher are arguments\<close>
  "select_p2c r ready score hash1 hash2 =
     (let rd = ready_with_meta r ready in
      if rd = [] then None
      else if length rd = 1 then Some (selected (hd rd))
      else (let (i, j) = p2c_indices (length rd) hash1 hash2;
                a = rd ! i; b = rd ! j
            in Some (selected (if score (m_name (snd a)) \<le> score (m_name (snd b)) then a else b))))"

section \<open>The affinity key\<close>

definition non_empty :: "string option \<Rightarrow> string option" where
  \<comment> \<open>\<open>.filter(|s| !s.is_empty())\<close>\<close>
  "non_empty o' = (case o' of Some s \<Rightarrow> if s \<noteq> [] then Some s else None | None \<Rightarrow> None)"

definition extract_affinity_key ::
    "(string \<Rightarrow> string) \<Rightarrow> (string \<Rightarrow> string option) \<Rightarrow> string \<Rightarrow> string option \<Rightarrow> string option \<Rightarrow>
     string option \<Rightarrow> string option \<Rightarrow> string" where
  \<comment> \<open>the header lookup gives the value when it is visible ASCII (\<open>to_str\<close>)\<close>
  "extract_affinity_key sha256_hex header client_ip body_conversation_id body_prompt_cache_key
       body_user_id session_fingerprint =
     (case non_empty (header ''x-conversation-id'') of
        Some c \<Rightarrow> ''conv:'' @ c
      | None \<Rightarrow>
     (case non_empty body_conversation_id of
        Some c \<Rightarrow> ''conv:'' @ c
      | None \<Rightarrow>
     (case header ''x-prompt-cache-key'' of
        Some k \<Rightarrow> ''pck:'' @ k
      | None \<Rightarrow>
     (case non_empty body_prompt_cache_key of
        Some k \<Rightarrow> ''pck:'' @ k
      | None \<Rightarrow>
     (case non_empty body_user_id of
        Some u \<Rightarrow> ''user:'' @ u
      | None \<Rightarrow>
     (case header ''x-user-id'' of
        Some u \<Rightarrow> ''user:'' @ u
      | None \<Rightarrow>
     (case non_empty session_fingerprint of
        Some fp \<Rightarrow> ''sfp:'' @ fp
      | None \<Rightarrow> ''ip:'' @ take 16 (sha256_hex client_ip))))))))"

section \<open>Laws\<close>

definition router_ok :: "lb_router \<Rightarrow> bool" where
  \<comment> \<open>every registered backend has its metadata, and the set is kept in order\<close>
  "router_ok r \<longleftrightarrow>
     registered r \<noteq> [] \<and> sorted (registered r) \<and> distinct (registered r) \<and>
     (\<forall>pb \<in> set (registered r). hm_get (meta r) (fst pb) \<noteq> None)"

lemma collect_backends_ok:
  assumes "bs \<noteq> []"
  shows "router_ok (r\<lparr>registered := fst (collect_backends bs), meta := snd (collect_backends bs)\<rparr>)"
proof -
  have "hm_get (snd (collect_backends bs)) (b_addr b) \<noteq> None" if "b \<in> set bs" for b
    using that by (simp add: collect_backends_def hm_get_collect map_of_eq_None_iff) force
  moreover have "fst (collect_backends bs) \<noteq> []"
    using assms by (simp add: collect_backends_def flip: set_empty)
  ultimately show ?thesis by (auto simp: router_ok_def collect_backends_def)
qed

text \<open>
  A router that was built, or rebuilt, has metadata for every backend its load balancer knows;
  an empty list of backends is refused and leaves the router as it was.
\<close>
theorem router_build_ok:
  "(case lb_new bs of Inl e \<Rightarrow> bs = [] | Inr r \<Rightarrow> router_ok r) \<and>
   (case lb_rebuild r bs of Inl e \<Rightarrow> bs = [] | Inr r' \<Rightarrow> router_ok r')"
proof (cases "bs = []")
  case True
  then show ?thesis by (simp add: lb_new_def lb_rebuild_def)
next
  case False
  have "router_ok (\<lparr>registered = [], meta = []\<rparr>
      \<lparr>registered := fst (collect_backends bs), meta := snd (collect_backends bs)\<rparr>)"
    by (rule collect_backends_ok [OF False])
  then show ?thesis using False collect_backends_ok [OF False, of r]
    by (simp add: lb_new_def lb_rebuild_def split_beta)
qed

lemma backend_from_pingora_ok:
  "router_ok r \<Longrightarrow> pb \<in> set (registered r) \<Longrightarrow> \<exists>s. backend_from_pingora r pb = Some s \<and> s_addr s = fst pb"
  by (auto simp: router_ok_def backend_from_pingora_def)

lemma ready_with_meta_set:
  "(pb, m) \<in> set (ready_with_meta r ready) \<longleftrightarrow>
     pb \<in> set (registered r) \<and> ready pb \<and> hm_get (meta r) (fst pb) = Some m"
  by (auto simp: ready_with_meta_def set_map_filter split: if_splits)

definition serves_ready :: "lb_router \<Rightarrow> (pbackend \<Rightarrow> bool) \<Rightarrow> selected_backend \<Rightarrow> bool" where
  \<comment> \<open>the selection names a registered, ready backend with its own metadata\<close>
  "serves_ready r ready s \<longleftrightarrow>
     (\<exists>pb m. (pb, m) \<in> set (ready_with_meta r ready) \<and> s = selected (pb, m))"

lemma select_by_name_loop_iff:
  "select_by_name_loop r ready name pbs = None \<longleftrightarrow>
     (\<forall>pb \<in> set pbs. \<forall>m. hm_get (meta r) (fst pb) = Some m \<longrightarrow> m_name m = name \<longrightarrow> \<not> ready pb)"
  by (induction pbs) (auto split: option.splits)

lemma select_by_name_loop_Some:
  "select_by_name_loop r ready name pbs = Some s \<Longrightarrow>
   \<exists>pb \<in> set pbs. \<exists>m. ready pb \<and> hm_get (meta r) (fst pb) = Some m \<and> m_name m = name \<and>
     s = selected (pb, m)"
  by (induction pbs) (auto simp: selected_def split: option.splits if_splits)

text \<open>
  The hint is honoured exactly when it can be: if a ready backend has the preferred name, one of
  that name is selected; otherwise the choice is the hash ring's, with the metadata of its address.
\<close>
theorem hint_preferred_when_ready:
  "select_with_hint r ready ring_select key (Some name) =
     (if \<exists>pb m. (pb, m) \<in> set (ready_with_meta r ready) \<and> m_name m = name
      then select_by_name_if_ready r ready name
      else lb_select r ready ring_select key) \<and>
   (case select_by_name_if_ready r ready name of
      Some s \<Rightarrow> s_name s = name \<and> serves_ready r ready s
    | None \<Rightarrow> True)"
proof (cases "select_by_name_if_ready r ready name")
  case None
  then have e: "(\<exists>pb m. (pb, m) \<in> set (ready_with_meta r ready) \<and> m_name m = name) = False"
    by (auto simp: select_by_name_if_ready_def select_by_name_loop_iff ready_with_meta_set)
  show ?thesis unfolding e using None by (simp add: select_with_hint_def lb_select_def)
next
  case (Some s)
  then obtain pb m where pb: "(pb, m) \<in> set (ready_with_meta r ready)" "m_name m = name"
    "s = selected (pb, m)"
    unfolding select_by_name_if_ready_def
    by (auto dest!: select_by_name_loop_Some simp: ready_with_meta_set)
  then have e: "(\<exists>pb m. (pb, m) \<in> set (ready_with_meta r ready) \<and> m_name m = name) = True" by blast
  have "serves_ready r ready s" unfolding serves_ready_def using pb by blast
  moreover have "s_name s = name" using pb by (simp add: selected_def)
  ultimately show ?thesis unfolding e using Some by (simp add: select_with_hint_def)
qed

lemma weighted_fold:
  "case foldl (weighted_step r ready score) best pbs of
     None \<Rightarrow> best = None \<and> (\<forall>pb \<in> set pbs. ready pb \<longrightarrow> hm_get (meta r) (fst pb) = None)
   | Some (pb, s) \<Rightarrow>
       (best = Some (pb, s) \<or>
        pb \<in> set pbs \<and> ready pb \<and> (\<exists>m. hm_get (meta r) (fst pb) = Some m \<and> s = score (m_name m))) \<and>
       (\<forall>b t. best = Some (b, t) \<longrightarrow> t \<le> s) \<and>
       (\<forall>q \<in> set pbs. \<forall>m. ready q \<longrightarrow> hm_get (meta r) (fst q) = Some m \<longrightarrow> score (m_name m) \<le> s)"
proof (induction pbs arbitrary: best)
  case Nil
  then show ?case by (auto split: option.split)
next
  case (Cons q pbs)
  show ?case using Cons.IH [of "weighted_step r ready score best q"]
    by (auto simp: weighted_step_def Let_def split: option.splits if_splits prod.splits)
qed

text \<open>
  Weighted selection returns nothing only when no backend is ready, and otherwise a ready
  backend whose score no ready backend exceeds.
\<close>
theorem weighted_selects_best_ready:
  "case select_weighted r ready score of
     None \<Rightarrow> ready_with_meta r ready = []
   | Some s \<Rightarrow> serves_ready r ready s \<and>
       list_all (\<lambda>(_, m). score (m_name m) \<le> score (s_name s)) (ready_with_meta r ready)"
proof (cases "foldl (weighted_step r ready score) None (registered r)")
  case None
  then have "(pb, m) \<notin> set (ready_with_meta r ready)" for pb m
    using weighted_fold [where r = r and ready = ready and score = score and best = None
        and pbs = "registered r"] by (auto simp: ready_with_meta_set)
  then have "ready_with_meta r ready = []" by (metis last_in_set prod.collapse)
  then show ?thesis using None by (simp add: select_weighted_def)
next
  case (Some x)
  obtain pb s where x: "x = (pb, s)" by (cases x)
  have f: "pb \<in> set (registered r)" "ready pb"
    and best: "\<forall>q \<in> set (registered r). \<forall>m. ready q \<longrightarrow> hm_get (meta r) (fst q) = Some m \<longrightarrow>
       score (m_name m) \<le> s"
    and "\<exists>m. hm_get (meta r) (fst pb) = Some m \<and> s = score (m_name m)"
    using weighted_fold [where r = r and ready = ready and score = score and best = None and pbs = "registered r"] Some x by auto
  then obtain m where m: "hm_get (meta r) (fst pb) = Some m" "s = score (m_name m)" by blast
  have sel: "select_weighted r ready score = Some (selected (pb, m))"
    using Some x m by (simp add: select_weighted_def backend_from_pingora_def selected_def)
  have "serves_ready r ready (selected (pb, m))"
    using f m ready_with_meta_set [of pb m r ready] unfolding serves_ready_def by blast
  moreover have "list_all (\<lambda>(_, m'). score (m_name m') \<le> score (s_name (selected (pb, m))))
      (ready_with_meta r ready)"
    using best m by (auto simp: list_all_iff ready_with_meta_set selected_def)
  ultimately show ?thesis using sel by simp
qed

lemma p2c_indices_distinct:
  assumes "1 < n" and "p2c_indices n h1 h2 = (i, j)"
  shows "i < n \<and> j < n \<and> i \<noteq> j"
proof -
  have pos: "0 < n" using assms(1) by simp
  have "Suc k mod n \<noteq> k" if "k < n" for k
    using assms(1) that by (cases "Suc k = n") auto
  from this [of "h1 mod n"] show ?thesis using assms pos
    by (auto simp: p2c_indices_def Let_def split: if_splits)
qed

text \<open>
  Power-of-two selection returns nothing exactly when no backend is ready, otherwise a ready one;
  it compares two different backends, so a ready backend that scores worse than every other ready
  one is never selected.
\<close>
theorem p2c_avoids_worst:
  "case select_p2c r ready score h1 h2 of
     None \<Rightarrow> ready_with_meta r ready = []
   | Some s \<Rightarrow> serves_ready r ready s \<and>
       (1 < length (ready_with_meta r ready) \<longrightarrow>
        (\<exists>i < length (ready_with_meta r ready). \<exists>j < length (ready_with_meta r ready). i \<noteq> j \<and>
           s = selected (ready_with_meta r ready ! i) \<and>
           score (s_name s) \<le> score (m_name (snd (ready_with_meta r ready ! j)))))"
proof -
  let ?rd = "ready_with_meta r ready"
  consider (none) "?rd = []" | (one) "length ?rd = 1" | (many) "1 < length ?rd"
    by (metis length_0_conv less_one linorder_neqE_nat)
  then show ?thesis
  proof cases
    case none
    then show ?thesis by (simp add: select_p2c_def)
  next
    case one
    then have "?rd \<noteq> []" by auto
    then have "hd ?rd \<in> set ?rd" by simp
    then have "serves_ready r ready (selected (hd ?rd))"
      unfolding serves_ready_def by (metis prod.collapse)
    then show ?thesis using one \<open>?rd \<noteq> []\<close> by (simp add: select_p2c_def)
  next
    case many
    obtain i j where ij: "p2c_indices (length ?rd) h1 h2 = (i, j)" by (cases "p2c_indices (length ?rd) h1 h2")
    have lt: "i < length ?rd" "j < length ?rd" "i \<noteq> j" using p2c_indices_distinct [OF many ij] by auto
    define w where "w = (if score (m_name (snd (?rd ! i))) \<le> score (m_name (snd (?rd ! j))) then i else j)"
    define l where "l = (if score (m_name (snd (?rd ! i))) \<le> score (m_name (snd (?rd ! j))) then j else i)"
    have sel: "select_p2c r ready score h1 h2 = Some (selected (?rd ! w))"
      using many ij by (auto simp: select_p2c_def Let_def w_def)
    have wl: "w < length ?rd" "l < length ?rd" "w \<noteq> l" using lt by (auto simp: w_def l_def)
    have le: "score (s_name (selected (?rd ! w))) \<le> score (m_name (snd (?rd ! l)))"
      by (auto simp: w_def l_def selected_def)
    have "serves_ready r ready (selected (?rd ! w))"
      unfolding serves_ready_def using wl(1) by (metis nth_mem prod.collapse)
    then show ?thesis using sel wl le by auto
  qed
qed

theorem p2c_avoids_worst_witness:
  "let r = \<lparr>registered = [(1, 1), (2, 1)],
            meta = [(1, \<lparr>m_name = ''a'', m_tls_sni = ''a.x''\<rparr>), (2, \<lparr>m_name = ''b'', m_tls_sni = ''b.x''\<rparr>)]\<rparr>;
       score = (\<lambda>n. if n = ''a'' then 2 else 1)
   in case select_p2c r (\<lambda>_. True) score 7 5 of
        None \<Rightarrow> False
      | Some s \<Rightarrow> serves_ready r (\<lambda>_. True) s \<and> s_name s = ''b''"
proof -
  let ?r = "\<lparr>registered = [(1, 1), (2, 1)],
      meta = [(1, \<lparr>m_name = ''a'', m_tls_sni = ''a.x''\<rparr>), (2, \<lparr>m_name = ''b'', m_tls_sni = ''b.x''\<rparr>)]\<rparr>"
  let ?score = "\<lambda>n :: string. if n = ''a'' then 2 else (1 :: rat)"
  have "select_p2c ?r (\<lambda>_. True) ?score 7 5 = Some \<lparr>s_addr = 2, s_name = ''b'', s_tls_sni = ''b.x''\<rparr>"
    by code_simp
  then show ?thesis
    using p2c_avoids_worst [of ?r "\<lambda>_. True" ?score 7 5] by (simp add: Let_def)
qed

lemma affinity_priority:
  assumes "header ''x-conversation-id'' = Some c" "c \<noteq> []"
  shows "extract_affinity_key h header ip bc bp bu fp = ''conv:'' @ c"
  using assms by (simp add: extract_affinity_key_def non_empty_def)

end
