(* ===== verification/BackendState.thy ===== *)
theory BackendState
  imports Text F64
begin

text \<open>
  Load and health bookkeeping per backend
  (\<^verbatim>\<open>src/crates/crab-proxy/src/backend_state.rs\<close>): slots with permits, moving averages,
  overload and failure locks, the history of 429 responses and the multi-factor score. The clock in
  milliseconds is read once per operation and is an argument; a compare-and-exchange loop on one
  counter is the atomic update it implements. Slots are never removed, so a permit is the key of the
  slot it came from.
\<close>

section \<open>Scores\<close>

record score_weights =
  w_health :: f64
  w_latency_inv :: f64
  w_load_inv :: f64
  w_affinity_hit :: f64
  w_rate_429_inv :: f64

definition DEFAULT_SCORE_WEIGHTS :: score_weights where
  "DEFAULT_SCORE_WEIGHTS =
     \<lparr>w_health = f64_round (30 / 100), w_latency_inv = f64_round (25 / 100),
      w_load_inv = f64_round (20 / 100), w_affinity_hit = f64_round (15 / 100),
      w_rate_429_inv = f64_round (10 / 100)\<rparr>"

definition weights_from_config :: "f64 \<Rightarrow> f64 \<Rightarrow> f64 \<Rightarrow> f64 \<Rightarrow> f64 \<Rightarrow> score_weights" where
  "weights_from_config health latency_inv load_inv affinity_hit rate_429_inv =
     (let tot = f64_add (f64_add (f64_add (f64_add health latency_inv) load_inv) affinity_hit)
                  rate_429_inv
      in if tot \<le> 0 then DEFAULT_SCORE_WEIGHTS
         else \<lparr>w_health = f64_div health tot, w_latency_inv = f64_div latency_inv tot,
               w_load_inv = f64_div load_inv tot, w_affinity_hit = f64_div affinity_hit tot,
               w_rate_429_inv = f64_div rate_429_inv tot\<rparr>)"

record score_factors =
  sf_health :: f64
  sf_latency_inv :: f64
  sf_load_inv :: f64
  sf_affinity_hit :: f64
  sf_rate_429_inv :: f64

record backend_health_score =
  hs_name :: string
  hs_score :: f64
  hs_factors :: score_factors

section \<open>Slots\<close>

record backend_slot =
  bs_profile :: string
  bs_backend :: string
  bs_max_inflight :: nat
  bs_permits :: nat  \<comment> \<open>free permits of the semaphore\<close>
  bs_inflight :: nat
  bs_ewma_prefill_ms :: nat
  bs_ewma_upstream_ms :: nat
  bs_overloaded_until_ms :: nat
  bs_failure_streak :: nat
  bs_locked_until_ms :: nat
  bs_total_429s :: nat
  bs_total_requests :: nat
  bs_last_429_at_ms :: nat
  bs_consecutive_429s :: nat

definition bs_new :: "string \<Rightarrow> string \<Rightarrow> nat \<Rightarrow> backend_slot" where
  "bs_new profile backend max_inflight =
     \<lparr>bs_profile = profile, bs_backend = backend, bs_max_inflight = max_inflight,
      bs_permits = max_inflight, bs_inflight = 0, bs_ewma_prefill_ms = 0, bs_ewma_upstream_ms = 0,
      bs_overloaded_until_ms = 0, bs_failure_streak = 0, bs_locked_until_ms = 0, bs_total_429s = 0,
      bs_total_requests = 0, bs_last_429_at_ms = 0, bs_consecutive_429s = 0\<rparr>"

definition observe_ewma :: "nat \<Rightarrow> nat \<Rightarrow> nat" where
  "observe_ewma current sample_ms =
     (if current = 0 then sample_ms else sat_add 64 (sat_mul 64 current 4) sample_ms div 5)"

definition bs_overload_state :: "backend_slot \<Rightarrow> nat \<Rightarrow> nat \<Rightarrow> string" where
  "bs_overload_state s prefill_threshold_ms now =
     (if bs_locked_until_ms s > now then ''locked''
      else if bs_overloaded_until_ms s > now then ''cooldown''
      else if bs_inflight s \<ge> bs_max_inflight s then ''inflight''
      else if prefill_threshold_ms > 0 \<and> bs_ewma_prefill_ms s \<ge> prefill_threshold_ms then ''latency''
      else ''ready'')"

section \<open>The registry\<close>

type_synonym backend_load_registry = "(string, backend_slot) hmap"

definition bl_key :: "string \<Rightarrow> string \<Rightarrow> string" where
  "bl_key profile backend = profile @ nl @ backend"

definition bl_slot :: "backend_load_registry \<Rightarrow> string \<Rightarrow> string \<Rightarrow> nat \<Rightarrow> backend_slot" where
  \<comment> \<open>the slot that \<open>entry(key).or_insert_with\<close> returns\<close>
  "bl_slot reg profile backend max_inflight =
     (case hm_get reg (bl_key profile backend) of
        Some s \<Rightarrow> s
      | None \<Rightarrow> bs_new profile backend (max max_inflight 1))"

definition bl_store :: "backend_load_registry \<Rightarrow> string \<Rightarrow> string \<Rightarrow> backend_slot \<Rightarrow>
    backend_load_registry" where
  \<comment> \<open>the registry with the slot in it, after its atomics were written\<close>
  "bl_store reg profile backend s = hm_insert reg (bl_key profile backend) s"

definition bl_try_acquire ::
    "backend_load_registry \<Rightarrow> string \<Rightarrow> string \<Rightarrow> nat \<Rightarrow> backend_load_registry \<times> string option" where
  \<comment> \<open>the permit, when there is one, is the key of its slot\<close>
  "bl_try_acquire reg profile backend max_inflight =
     (let s = bl_slot reg profile backend max_inflight in
      if bs_permits s = 0 then (bl_store reg profile backend s, None)
      else (bl_store reg profile backend
              (s\<lparr>bs_permits := bs_permits s - 1, bs_inflight := wrap_add 64 (bs_inflight s) 1\<rparr>),
            Some (bl_key profile backend)))"

definition bl_drop_permit :: "backend_load_registry \<Rightarrow> string \<Rightarrow> backend_load_registry" where
  \<comment> \<open>dropping a permit: the counter, then the semaphore\<close>
  "bl_drop_permit reg permit =
     (case hm_get reg permit of
        Some s \<Rightarrow> hm_insert reg permit
          (s\<lparr>bs_inflight := wrap_sub 64 (bs_inflight s) 1, bs_permits := bs_permits s + 1\<rparr>)
      | None \<Rightarrow> reg)"

definition bl_inflight :: "backend_load_registry \<Rightarrow> string \<Rightarrow> string \<Rightarrow> nat" where
  "bl_inflight reg profile backend =
     (case hm_get reg (bl_key profile backend) of Some s \<Rightarrow> bs_inflight s | None \<Rightarrow> 0)"

definition bl_overload_state ::
    "backend_load_registry \<Rightarrow> string \<Rightarrow> string \<Rightarrow> nat \<Rightarrow> nat \<Rightarrow> nat \<Rightarrow> backend_load_registry \<times> string" where
  "bl_overload_state reg profile backend max_inflight prefill_threshold_ms now =
     (let s = bl_slot reg profile backend max_inflight
      in (bl_store reg profile backend s, bs_overload_state s prefill_threshold_ms now))"

definition bl_is_available ::
    "backend_load_registry \<Rightarrow> string \<Rightarrow> string \<Rightarrow> nat \<Rightarrow> nat \<Rightarrow> nat \<Rightarrow> bool" where
  "bl_is_available reg profile backend max_inflight prefill_threshold_ms now \<longleftrightarrow>
     snd (bl_overload_state reg profile backend max_inflight prefill_threshold_ms now) = ''ready''"

definition round_ms :: "f64 \<Rightarrow> nat" where
  \<comment> \<open>\<open>ms.round() as u64\<close> of a value that is not negative\<close>
  "round_ms ms = f64_to_u64 (of_int \<lfloor>ms + 1 / 2\<rfloor>)"

definition valid_ms :: "f64 option \<Rightarrow> f64 option" where
  \<comment> \<open>\<open>.filter(|v| v.is_finite() && *v >= 0.0)\<close>\<close>
  "valid_ms o' = (case o' of Some v \<Rightarrow> if 0 \<le> v then Some v else None | None \<Rightarrow> None)"

definition obs_prefill :: "f64 option \<Rightarrow> nat \<Rightarrow> nat \<Rightarrow> nat \<Rightarrow> backend_slot \<Rightarrow> backend_slot" where
  "obs_prefill prefill_ms threshold cooldown now s =
     (case valid_ms prefill_ms of
        None \<Rightarrow> s
      | Some ms \<Rightarrow>
          (let sample = round_ms ms;
               s' = s\<lparr>bs_ewma_prefill_ms := observe_ewma (bs_ewma_prefill_ms s) sample\<rparr>
           in if threshold > 0 \<and> sample \<ge> threshold
              then s'\<lparr>bs_overloaded_until_ms := sat_add 64 now cooldown\<rparr> else s'))"

definition obs_upstream :: "f64 option \<Rightarrow> backend_slot \<Rightarrow> backend_slot" where
  "obs_upstream upstream_ms s =
     (case valid_ms upstream_ms of
        None \<Rightarrow> s
      | Some ms \<Rightarrow>
          s\<lparr>bs_ewma_upstream_ms := observe_ewma (bs_ewma_upstream_ms s) (round_ms ms)\<rparr>)"

definition obs_quota :: "nat \<Rightarrow> nat \<Rightarrow> backend_slot \<Rightarrow> backend_slot" where
  "obs_quota status now s =
     (let s' = s\<lparr>bs_total_requests := wrap_add 64 (bs_total_requests s) 1\<rparr> in
      if status = 429
      then s'\<lparr>bs_total_429s := wrap_add 64 (bs_total_429s s) 1, bs_last_429_at_ms := now,
              bs_consecutive_429s := wrap_add 64 (bs_consecutive_429s s) 1\<rparr>
      else if 200 \<le> status \<and> status < 300 then s'\<lparr>bs_consecutive_429s := 0\<rparr>
      else s')"

definition obs_failure :: "nat \<Rightarrow> nat \<Rightarrow> nat \<Rightarrow> backend_slot \<Rightarrow> backend_slot" where
  "obs_failure status cooldown now s =
     (if status = 0 \<or> 500 \<le> status \<or> status = 429 \<or> status = 408
      then (let streak = wrap_add 64 (bs_failure_streak s) 1;
                s' = s\<lparr>bs_failure_streak := streak\<rparr>
            in if streak \<ge> 3
               then s'\<lparr>bs_locked_until_ms := sat_add 64 now (sat_mul 64 cooldown 2)\<rparr> else s')
      else if 200 \<le> status \<and> status < 500
      then s\<lparr>bs_failure_streak := 0, bs_locked_until_ms := 0\<rparr>
      else s)"

definition bl_observe_latency ::
    "backend_load_registry \<Rightarrow> string \<Rightarrow> string \<Rightarrow> nat \<Rightarrow> f64 option \<Rightarrow> f64 option \<Rightarrow> nat option \<Rightarrow>
     nat \<Rightarrow> nat \<Rightarrow> nat \<Rightarrow> backend_load_registry \<times> string" where
  "bl_observe_latency reg profile backend max_inflight prefill_ms upstream_ms status threshold
       cooldown now =
     (let st = (case status of Some c \<Rightarrow> c | None \<Rightarrow> 0);
          s = obs_failure st cooldown now (obs_quota st now (obs_upstream upstream_ms
                (obs_prefill prefill_ms threshold cooldown now
                   (bl_slot reg profile backend max_inflight))))
      in (bl_store reg profile backend s, bs_overload_state s threshold now))"

definition bs_should_skip :: "backend_slot \<Rightarrow> nat \<Rightarrow> nat \<Rightarrow> f64 \<Rightarrow> nat \<Rightarrow> bool" where
  "bs_should_skip s cooldown_ms max_consecutive_429 skip_threshold now =
     (if bs_last_429_at_ms s > 0 \<and> now - bs_last_429_at_ms s < cooldown_ms then True
      else if bs_consecutive_429s s \<ge> max_consecutive_429 then True
      else bs_total_requests s \<ge> 5 \<and>
           f64_div (f64_of_nat (bs_total_429s s)) (f64_of_nat (bs_total_requests s)) \<ge> skip_threshold)"

definition bl_should_skip_backend ::
    "backend_load_registry \<Rightarrow> string \<Rightarrow> string \<Rightarrow> nat \<Rightarrow> nat \<Rightarrow> nat \<Rightarrow> f64 \<Rightarrow> nat \<Rightarrow>
     backend_load_registry \<times> bool" where
  "bl_should_skip_backend reg profile backend max_inflight cooldown_ms max_consecutive_429
       skip_threshold now =
     (let s = bl_slot reg profile backend max_inflight
      in (bl_store reg profile backend s,
          bs_should_skip s cooldown_ms max_consecutive_429 skip_threshold now))"

definition bl_record_429 ::
    "backend_load_registry \<Rightarrow> string \<Rightarrow> string \<Rightarrow> nat \<Rightarrow> nat \<Rightarrow> backend_load_registry" where
  "bl_record_429 reg profile backend max_inflight now =
     (let s = bl_slot reg profile backend max_inflight
      in bl_store reg profile backend
           (s\<lparr>bs_total_requests := wrap_add 64 (bs_total_requests s) 1,
              bs_total_429s := wrap_add 64 (bs_total_429s s) 1, bs_last_429_at_ms := now,
              bs_consecutive_429s := wrap_add 64 (bs_consecutive_429s s) 1\<rparr>))"

definition bl_record_success ::
    "backend_load_registry \<Rightarrow> string \<Rightarrow> string \<Rightarrow> nat \<Rightarrow> backend_load_registry" where
  "bl_record_success reg profile backend max_inflight =
     (let s = bl_slot reg profile backend max_inflight
      in bl_store reg profile backend
           (s\<lparr>bs_total_requests := wrap_add 64 (bs_total_requests s) 1, bs_consecutive_429s := 0\<rparr>))"

definition one_minus_ratio :: "f64 \<Rightarrow> f64 \<Rightarrow> f64" where
  \<comment> \<open>\<open>(1.0 - a / b).max(0.0)\<close>\<close>
  "one_minus_ratio a b = max (f64_sub 1 (f64_div a b)) 0"

definition bs_factors :: "backend_slot \<Rightarrow> nat \<Rightarrow> bool \<Rightarrow> f64 \<Rightarrow> score_factors" where
  "bs_factors s prefill_threshold_ms is_healthy affinity_hit =
     \<lparr>sf_health = (if is_healthy then 1 else 0),
      sf_latency_inv =
        (if bs_ewma_upstream_ms s = 0 then 1 / 2
         else if prefill_threshold_ms > 0
         then one_minus_ratio (f64_of_nat (bs_ewma_upstream_ms s))
                (f64_mul (f64_of_nat prefill_threshold_ms) 2)
         else one_minus_ratio (f64_of_nat (bs_ewma_upstream_ms s)) 30000),
      sf_load_inv =
        (if bs_max_inflight s = 0 then 1 / 2
         else one_minus_ratio (f64_of_nat (bs_inflight s)) (f64_of_nat (bs_max_inflight s))),
      sf_affinity_hit = min (max affinity_hit 0) 1,
      sf_rate_429_inv =
        (if bs_total_requests s = 0 then 1
         else one_minus_ratio (f64_of_nat (bs_total_429s s)) (f64_of_nat (bs_total_requests s)))\<rparr>"

definition bl_score_backend ::
    "backend_load_registry \<Rightarrow> string \<Rightarrow> string \<Rightarrow> nat \<Rightarrow> nat \<Rightarrow> score_weights \<Rightarrow> bool \<Rightarrow> f64 \<Rightarrow>
     backend_load_registry \<times> backend_health_score" where
  "bl_score_backend reg profile backend max_inflight prefill_threshold_ms weights is_healthy
       affinity_hit =
     (let s = bl_slot reg profile backend max_inflight;
          f = bs_factors s prefill_threshold_ms is_healthy affinity_hit;
          score = f64_add (f64_add (f64_add (f64_add
                    (f64_mul (w_health weights) (sf_health f))
                    (f64_mul (w_latency_inv weights) (sf_latency_inv f)))
                    (f64_mul (w_load_inv weights) (sf_load_inv f)))
                    (f64_mul (w_affinity_hit weights) (sf_affinity_hit f)))
                    (f64_mul (w_rate_429_inv weights) (sf_rate_429_inv f))
      in (bl_store reg profile backend s,
          \<lparr>hs_name = bs_backend s, hs_score = score, hs_factors = f\<rparr>))"

section \<open>Moving averages and scores\<close>

text \<open>
  A moving average stays between the old average and the sample, unless the sum saturates at the
  64-bit limit; the first sample is taken as it is.
\<close>
theorem ewma_between:
  assumes "4 * current + sample < 2 ^ 64"
  shows "min current sample \<le> observe_ewma current sample \<and>
    observe_ewma current sample \<le> max current sample"
proof (cases "current = 0")
  case True
  then show ?thesis by (simp add: observe_ewma_def)
next
  case False
  have "observe_ewma current sample = (4 * current + sample) div 5"
    using False assms by (simp add: observe_ewma_def sat_add_def sat_mul_def min_def mult.commute)
  moreover have "min current sample \<le> (4 * current + sample) div 5"
    using div_le_mono [of "5 * min current sample" "4 * current + sample" 5] by simp
  moreover have "(4 * current + sample) div 5 \<le> max current sample"
    using div_le_mono [of "4 * current + sample" "5 * max current sample" 5] by simp
  ultimately show ?thesis by simp
qed

theorem ewma_between_witness:
  "min 100 (200 :: nat) \<le> observe_ewma 100 200 \<and> observe_ewma 100 200 \<le> max 100 200"
  using ewma_between [of 100 200] by simp

lemma f64_div_nonneg: "0 \<le> a \<Longrightarrow> 0 \<le> b \<Longrightarrow> 0 \<le> f64_div a b"
  by (simp add: f64_div_def f64_round_nonneg)

lemma f64_of_nat_nonneg [simp]: "0 \<le> f64_of_nat n"
  by (simp add: f64_of_nat_def f64_round_nonneg)

lemma one_minus_ratio_unit:
  assumes "0 \<le> a" "0 \<le> b"
  shows "0 \<le> one_minus_ratio a b \<and> one_minus_ratio a b \<le> 1"
proof -
  have "1 - f64_div a b \<le> of_nat 1" using f64_div_nonneg [OF assms] by simp
  then have "f64_round (1 - f64_div a b) \<le> of_nat 1" by (rule f64_round_le_nat) simp
  then show ?thesis by (simp add: one_minus_ratio_def f64_sub_def)
qed

text \<open>
  Every factor of a backend's score lies between zero and one, whatever the counters hold.
\<close>
theorem score_factors_in_unit_interval:
  "let f = bs_factors s threshold healthy hit
   in 0 \<le> sf_health f \<and> sf_health f \<le> 1 \<and> 0 \<le> sf_latency_inv f \<and> sf_latency_inv f \<le> 1 \<and>
      0 \<le> sf_load_inv f \<and> sf_load_inv f \<le> 1 \<and> 0 \<le> sf_affinity_hit f \<and> sf_affinity_hit f \<le> 1 \<and>
      0 \<le> sf_rate_429_inv f \<and> sf_rate_429_inv f \<le> 1"
proof -
  have "0 \<le> f64_mul (f64_of_nat threshold) 2" by (simp add: f64_mul_def f64_round_nonneg)
  then show ?thesis by (simp add: bs_factors_def Let_def one_minus_ratio_unit)
qed

section \<open>Permits\<close>

lemma hm_get_store [simp]:
  "hm_get (bl_store reg p b s) k = (if k = bl_key p b then Some s else hm_get reg k)"
  by (simp add: bl_store_def)

lemma bl_key_inject:
  assumes "CHR 0x0A \<notin> set p" "CHR 0x0A \<notin> set q" and "bl_key p a = bl_key q b"
  shows "p = q \<and> a = b"
proof -
  have tw: "takeWhile (\<lambda>c. c \<noteq> CHR 0x0A) (r @ CHR 0x0A # t) = r" if "CHR 0x0A \<notin> set r" for r t
  proof -
    have "\<forall>c \<in> set r. c \<noteq> CHR 0x0A" using that by auto
    then show ?thesis by (simp add: takeWhile_append2)
  qed
  have e: "p @ CHR 0x0A # a = q @ CHR 0x0A # b" using assms(3) by (simp add: bl_key_def nl_def)
  then have "p = q" using tw [OF assms(1), of a] tw [OF assms(2), of b] by simp
  then show ?thesis using e by simp
qed

datatype bl_event =
    BlAcquire string string nat
  | BlDrop string
  | BlObserve string string nat "f64 option" "f64 option" "nat option" nat nat nat
  | BlRecord429 string string nat nat
  | BlRecordSuccess string string nat
  | BlQuery string string nat

type_synonym bl_state = "backend_load_registry \<times> string list"  \<comment> \<open>and the live permits\<close>

definition semaphore_max :: nat where
  \<comment> \<open>\<open>Semaphore::MAX_PERMITS\<close>; a larger number panics\<close>
  "semaphore_max = 2 ^ 61 - 1"

fun bl_step :: "bl_state \<Rightarrow> bl_event \<Rightarrow> bl_state \<Rightarrow> bool" where
  "bl_step (reg, live) (BlAcquire p b mx) t \<longleftrightarrow>
     mx \<le> semaphore_max \<and>
     t = (case bl_try_acquire reg p b mx of
            (reg', Some permit) \<Rightarrow> (reg', permit # live)
          | (reg', None) \<Rightarrow> (reg', live))"
| "bl_step (reg, live) (BlDrop permit) t \<longleftrightarrow>
     permit \<in> set live \<and> t = (bl_drop_permit reg permit, remove1 permit live)"
| "bl_step (reg, live) (BlObserve p b mx pre up st th cd now) t \<longleftrightarrow>
     mx \<le> semaphore_max \<and> t = (fst (bl_observe_latency reg p b mx pre up st th cd now), live)"
| "bl_step (reg, live) (BlRecord429 p b mx now) t \<longleftrightarrow>
     mx \<le> semaphore_max \<and> t = (bl_record_429 reg p b mx now, live)"
| "bl_step (reg, live) (BlRecordSuccess p b mx) t \<longleftrightarrow>
     mx \<le> semaphore_max \<and> t = (bl_record_success reg p b mx, live)"
| "bl_step (reg, live) (BlQuery p b mx) t \<longleftrightarrow>
     mx \<le> semaphore_max \<and> t = (bl_store reg p b (bl_slot reg p b mx), live)"

definition bl_init :: "bl_state \<Rightarrow> bool" where
  "bl_init st \<longleftrightarrow> st = ([], [])"

definition permits_ok :: "nat \<Rightarrow> backend_slot \<Rightarrow> bool" where
  \<comment> \<open>with \<open>n\<close> live permits\<close>
  "permits_ok n s \<longleftrightarrow>
     bs_inflight s = n \<and> bs_inflight s + bs_permits s = bs_max_inflight s \<and>
     1 \<le> bs_max_inflight s \<and> bs_max_inflight s \<le> semaphore_max"

fun slot_ok :: "nat \<Rightarrow> backend_slot option \<Rightarrow> bool" where
  "slot_ok n (Some s) = permits_ok n s"
| "slot_ok n None = (n = 0)"

definition bl_inv :: "bl_state \<Rightarrow> bool" where
  "bl_inv st \<longleftrightarrow> (\<forall>k. slot_ok (count_list (snd st) k) (hm_get (fst st) k))"

lemma permits_ok_new: "mx \<le> semaphore_max \<Longrightarrow> permits_ok 0 (bs_new p b (max mx 1))"
  by (auto simp: permits_ok_def bs_new_def semaphore_max_def)

lemma permits_ok_slot:
  assumes "bl_inv (reg, live)" "mx \<le> semaphore_max"
  shows "permits_ok (count_list live (bl_key p b)) (bl_slot reg p b mx)"
proof -
  have "slot_ok (count_list live (bl_key p b)) (hm_get reg (bl_key p b))"
    using assms(1) by (simp add: bl_inv_def)
  then show ?thesis using permits_ok_new [OF assms(2)]
    by (cases "hm_get reg (bl_key p b)") (simp_all add: bl_slot_def)
qed

lemma permits_ok_observe [simp]:
  "permits_ok n (obs_prefill a th cd now s) = permits_ok n s"
  "permits_ok n (obs_upstream b s) = permits_ok n s"
  "permits_ok n (obs_quota st now s) = permits_ok n s"
  "permits_ok n (obs_failure st cd now s) = permits_ok n s"
  by (simp_all add: permits_ok_def obs_prefill_def obs_upstream_def obs_quota_def obs_failure_def
      Let_def split: option.split)

lemma bl_inv_write:
  assumes "bl_inv (reg, live)" and "permits_ok (count_list live' k) s"
    and "\<And>l. l \<noteq> k \<Longrightarrow> count_list live' l = count_list live l"
  shows "bl_inv (hm_insert reg k s, live')"
  using assms by (simp add: bl_inv_def)

lemma bl_inv_store:
  "bl_inv (reg, live) \<Longrightarrow> permits_ok (count_list live (bl_key p b)) s \<Longrightarrow>
   bl_inv (bl_store reg p b s, live)"
  unfolding bl_store_def by (rule bl_inv_write) simp_all

lemma bl_inv_acquire:
  assumes inv: "bl_inv (reg, live)" and step: "bl_step (reg, live) (BlAcquire p b mx) t"
  shows "bl_inv t"
proof -
  let ?s = "bl_slot reg p b mx" and ?k = "bl_key p b"
  have ok: "permits_ok (count_list live ?k) ?s" using permits_ok_slot [OF inv] step by simp
  show "bl_inv t"
  proof (cases "bs_permits ?s = 0")
    case True
    then have "t = (bl_store reg p b ?s, live)" using step by (simp add: bl_try_acquire_def Let_def)
    then show ?thesis using bl_inv_store [OF inv ok] by simp
  next
    case False
    let ?s' = "?s\<lparr>bs_permits := bs_permits ?s - 1, bs_inflight := wrap_add 64 (bs_inflight ?s) 1\<rparr>"
    have t: "t = (hm_insert reg ?k ?s', ?k # live)"
      using step False by (simp add: bl_try_acquire_def bl_store_def Let_def)
    have "bs_inflight ?s + 1 < 2 ^ 64" using ok by (auto simp: permits_ok_def semaphore_max_def)
    then have "permits_ok (count_list (?k # live) ?k) ?s'"
      using ok False by (auto simp: permits_ok_def wrap_add_exact)
    then show ?thesis unfolding t by (rule bl_inv_write [OF inv]) simp
  qed
qed

lemma count_list_remove1:
  "x \<in> set xs \<Longrightarrow> count_list (remove1 x xs) y = (if y = x then count_list xs y - 1 else count_list xs y)"
proof (induction xs)
  case (Cons a xs)
  then have "a \<noteq> x \<Longrightarrow> x = y \<Longrightarrow> count_list xs y \<noteq> 0" by (simp add: count_list_0_iff)
  then show ?case using Cons by auto
qed simp

lemma bl_inv_drop:
  assumes inv: "bl_inv (reg, live)" and p: "permit \<in> set live"
  shows "bl_inv (bl_drop_permit reg permit, remove1 permit live)"
proof -
  have c: "count_list live permit \<noteq> 0" using p by (simp add: count_list_0_iff)
  have "slot_ok (count_list live permit) (hm_get reg permit)" using inv by (simp add: bl_inv_def)
  then obtain s where s: "hm_get reg permit = Some s" "permits_ok (count_list live permit) s"
    using c by (cases "hm_get reg permit") auto
  have "bs_inflight s < 2 ^ 64" using s(2) by (auto simp: permits_ok_def semaphore_max_def)
  then have "wrap_sub 64 (bs_inflight s) 1 = bs_inflight s - 1"
    using c s(2) by (intro wrap_sub_exact) (auto simp: permits_ok_def)
  then have ok: "permits_ok (count_list (remove1 permit live) permit)
      (s\<lparr>bs_inflight := wrap_sub 64 (bs_inflight s) 1, bs_permits := bs_permits s + 1\<rparr>)"
    using s(2) c by (auto simp: permits_ok_def count_list_remove1 [OF p])
  show ?thesis using bl_inv_write [OF inv ok] s(1)
    by (simp add: bl_drop_permit_def count_list_remove1 [OF p])
qed

interpretation bl_sys: invariant_system bl_init bl_step bl_inv
proof unfold_locales
  fix st :: bl_state
  show "bl_init st \<Longrightarrow> bl_inv st" by (simp add: bl_init_def bl_inv_def)
next
  fix st e t
  assume inv: "bl_inv st" and step: "bl_step st e t"
  obtain reg live where st: "st = (reg, live)" by (cases st)
  show "bl_inv t"
  proof (cases e)
    case (BlAcquire p b mx)
    then show ?thesis using inv step st bl_inv_acquire by blast
  next
    case (BlDrop permit)
    then show ?thesis using inv step st bl_inv_drop by simp
  next
    case (BlObserve p b mx pre up status th cd now)
    then have "mx \<le> semaphore_max" "t = (fst (bl_observe_latency reg p b mx pre up status th cd now), live)"
      using step st by simp_all
    then show ?thesis using permits_ok_slot [of reg live mx p b] inv st
      by (simp add: bl_observe_latency_def Let_def bl_inv_store)
  next
    case (BlRecord429 p b mx now)
    then have "mx \<le> semaphore_max" "t = (bl_record_429 reg p b mx now, live)" using step st by simp_all
    then show ?thesis using permits_ok_slot [of reg live mx p b] inv st
      by (simp add: bl_record_429_def Let_def bl_inv_store permits_ok_def)
  next
    case (BlRecordSuccess p b mx)
    then have "mx \<le> semaphore_max" "t = (bl_record_success reg p b mx, live)" using step st by simp_all
    then show ?thesis using permits_ok_slot [of reg live mx p b] inv st
      by (simp add: bl_record_success_def Let_def bl_inv_store permits_ok_def)
  next
    case (BlQuery p b mx)
    then show ?thesis using permits_ok_slot [of reg live mx p b] inv step st by (simp add: bl_inv_store)
  qed
qed

text \<open>
  In every reachable state the in-flight count of a backend is the number of its live permits,
  which together with the free permits is the limit it was created with; so no interleaving of
  acquisitions, drops and observations exceeds that limit, and no drop underflows the counter.
\<close>
theorem backend_permits_bounded:
  assumes "reachable bl_init bl_step (reg, live)" and "hm_get reg (bl_key p b) = Some s"
  shows "bs_inflight s = count_list live (bl_key p b) \<and>
    count_list live (bl_key p b) + bs_permits s = bs_max_inflight s"
proof -
  have "slot_ok (count_list live (bl_key p b)) (hm_get reg (bl_key p b))"
    using bl_sys.reachable_inv [OF assms(1)] by (simp add: bl_inv_def)
  then show ?thesis using assms(2) by (simp add: permits_ok_def)
qed

theorem backend_permits_bounded_witness:
  "bs_inflight ((bs_new ''p'' ''b'' 2)\<lparr>bs_permits := 1, bs_inflight := 1\<rparr>) =
     count_list [bl_key ''p'' ''b''] (bl_key ''p'' ''b'')"
proof -
  let ?s = "(bs_new ''p'' ''b'' 2)\<lparr>bs_permits := 1, bs_inflight := 1\<rparr>"
  let ?st = "([(bl_key ''p'' ''b'', ?s)], [bl_key ''p'' ''b''])"
  have "bl_step ([], []) (BlAcquire ''p'' ''b'' 2) ?st"
    by (simp add: bl_try_acquire_def bl_slot_def bl_store_def Let_def semaphore_max_def bs_new_def
        wrap_add_def hm_insert_def)
  moreover have "bl_init ([], [])" by (simp add: bl_init_def)
  ultimately have "reachable bl_init bl_step ?st" by (blast intro: reach_init reach_step)
  then show ?thesis using backend_permits_bounded [of _ _ "''p''" "''b''" ?s] by (simp add: hm_get_def)
qed

section \<open>Failure locks and skipped backends\<close>

lemma third_failure_locks:
  assumes "bs_failure_streak s = 2" and "status = 0 \<or> 500 \<le> status \<or> status = 429 \<or> status = 408"
    and "0 < cooldown" "now < 2 ^ 64 - 1" "now \<le> now'" "now' < now + min (2 * cooldown) (2 ^ 64 - 1 - now)"
  shows "bs_overload_state (obs_failure status cooldown now s) threshold now' = ''locked''"
  using assms by (auto simp: obs_failure_def bs_overload_state_def wrap_add_def sat_add_def sat_mul_def
      Let_def min_def split: if_splits)

lemma success_clears_lock:
  assumes "200 \<le> status" "status < 500" "status \<noteq> 429" "status \<noteq> 408"
  shows "bs_failure_streak (obs_failure status cooldown now s) = 0 \<and>
    bs_locked_until_ms (obs_failure status cooldown now s) = 0"
  using assms by (simp add: obs_failure_def)

lemma skip_by_streak:
  "max_consecutive \<le> bs_consecutive_429s s \<Longrightarrow> bs_should_skip s cooldown max_consecutive threshold now"
  by (simp add: bs_should_skip_def)

lemma skip_ends_only_by_traffic:
  \<comment> \<open>time alone lifts only the cooldown, not the streak\<close>
  "bs_should_skip s cooldown max_consecutive threshold (bs_last_429_at_ms s + cooldown) \<longleftrightarrow>
     max_consecutive \<le> bs_consecutive_429s s \<or>
     bs_total_requests s \<ge> 5 \<and>
       f64_div (f64_of_nat (bs_total_429s s)) (f64_of_nat (bs_total_requests s)) \<ge> threshold"
  by (auto simp: bs_should_skip_def)

end
