(* ===== verification/PeerSelection.thy ===== *)
theory PeerSelection
  imports LbRouter BackendState CircuitBreaker ModelLockout "HOL-Library.Multiset"
begin

text \<open>
  Choosing the upstream backend of a request: the ranking of the ready backends and the loop that
  takes the first one that circuit breaker, model lockout, load and permits let through
  (\<^verbatim>\<open>src/crates/crab-proxy/src/phases/upstream_peer.rs\<close>), the route strategies
  (\<^verbatim>\<open>context.rs\<close>) and the quota preflight of the request filter
  (\<^verbatim>\<open>phases/request_filter.rs\<close>). The backend hash (eight bytes of SHA-256) is an argument.
\<close>

section \<open>Ranking\<close>

datatype backend_route_strategy = RsKetama | RsP2c | RsLeastUsed | RsCostOptimized | RsWeightedKetama

definition route_strategy_from_str :: "string \<Rightarrow> backend_route_strategy" where
  "route_strategy_from_str s =
     (let l = to_lowercase s in
      if l = ''p2c'' then RsP2c
      else if l \<in> {''least_used'', ''least-used''} then RsLeastUsed
      else if l \<in> {''cost_optimized'', ''cost-optimized'', ''eco''} then RsCostOptimized
      else if l \<in> {''weighted_ketama'', ''weighted-ketama'', ''weighted''} then RsWeightedKetama
      else RsKetama)"

fun route_strategy_as_str :: "backend_route_strategy \<Rightarrow> string" where
  "route_strategy_as_str RsKetama = ''ketama''"
| "route_strategy_as_str RsP2c = ''p2c''"
| "route_strategy_as_str RsLeastUsed = ''least_used''"
| "route_strategy_as_str RsCostOptimized = ''cost_optimized''"
| "route_strategy_as_str RsWeightedKetama = ''weighted_ketama''"

type_synonym backend_hash = "string \<Rightarrow> string \<Rightarrow> nat"

definition backend_score :: "backend_load_registry \<Rightarrow> string \<Rightarrow> backend \<Rightarrow> f64" where
  "backend_score reg profile_id b =
     f64_div (f64_of_nat (bl_inflight reg profile_id (b_name b))) (f64_of_nat (max (b_weight b) 1))"

definition backend_cost_score :: "backend_load_registry \<Rightarrow> string \<Rightarrow> backend \<Rightarrow> f64" where
  "backend_cost_score reg profile_id b =
     f64_add (f64_mul (backend_score reg profile_id b) (f64_round (9 / 10)))
       (f64_mul (f64_div 1 (f64_of_nat (max (b_weight b) 1))) (f64_round (1 / 10)))"

definition weighted_score ::
    "backend_load_registry \<Rightarrow> string \<Rightarrow> nat \<Rightarrow> score_weights \<Rightarrow> backend \<Rightarrow> f64" where
  "weighted_score reg profile_id max_inflight weights b =
     hs_score (snd (bl_score_backend reg profile_id (b_name b) max_inflight 0 weights True (1 / 2)))"

definition touch_slots :: "backend_load_registry \<Rightarrow> string \<Rightarrow> nat \<Rightarrow> backend list \<Rightarrow> backend_load_registry" where
  \<comment> \<open>scoring creates the slots of the backends that are compared\<close>
  "touch_slots reg profile_id max_inflight bs =
     foldl (\<lambda>r b. bl_store r profile_id (b_name b) (bl_slot r profile_id (b_name b) max_inflight)) reg bs"

definition remove_at :: "nat \<Rightarrow> 'a list \<Rightarrow> 'a list" where
  \<comment> \<open>\<open>Vec::remove\<close> at a valid position\<close>
  "remove_at i xs = take i xs @ drop (Suc i) xs"

definition rank_ketama :: "backend_hash \<Rightarrow> backend list \<Rightarrow> string \<Rightarrow> string option \<Rightarrow> backend list" where
  "rank_ketama hash backends affinity_key selected_name =
     (let by_hash = sort_key (\<lambda>b. (hash affinity_key (b_name b), b_name b)) in
      case Option.bind selected_name (\<lambda>n. first_index (\<lambda>b. b_name b = n) backends) of
        Some idx \<Rightarrow> backends ! idx # by_hash (remove_at idx backends)
      | None \<Rightarrow> by_hash backends)"

definition rank_p2c ::
    "backend_hash \<Rightarrow> backend list \<Rightarrow> string \<Rightarrow> backend_load_registry \<Rightarrow> string \<Rightarrow> backend list" where
  "rank_p2c hash backends affinity_key reg profile_id =
     (if length backends = 1 then backends
      else (let n = length backends;
                first = hash (affinity_key @ '':p2c:first'') affinity_key mod n;
                second0 = hash (affinity_key @ '':p2c:second'') affinity_key mod n;
                second = (if second0 = first then (second0 + 1) mod n else second0);
                a = backends ! first; b = backends ! second;
                winner = (if backend_score reg profile_id a \<le> backend_score reg profile_id b then a else b)
            in winner # filter (\<lambda>c. b_name c \<noteq> b_name winner)
                 (sort_key (\<lambda>c. (backend_score reg profile_id c, b_name c)) backends)))"

definition rank_backends ::
    "backend_hash \<Rightarrow> backend_route_strategy \<Rightarrow> backend list \<Rightarrow> string \<Rightarrow> string option \<Rightarrow>
     backend_load_registry \<Rightarrow> string \<Rightarrow> nat \<Rightarrow> score_weights \<Rightarrow>
     backend list \<times> backend_load_registry" where
  "rank_backends hash strategy ready affinity_key selected_name reg profile_id max_inflight weights =
     (if ready = [] then ([], reg)
      else case strategy of
        RsKetama \<Rightarrow> (rank_ketama hash ready affinity_key selected_name, reg)
      | RsP2c \<Rightarrow> (rank_p2c hash ready affinity_key reg profile_id, reg)
      | RsLeastUsed \<Rightarrow>
          (sort_key (\<lambda>b. (backend_score reg profile_id b, - int (b_weight b), b_name b)) ready, reg)
      | RsCostOptimized \<Rightarrow>
          (sort_key (\<lambda>b. (backend_cost_score reg profile_id b, b_name b)) ready, reg)
      | RsWeightedKetama \<Rightarrow>
          (sort_key (\<lambda>b. (- weighted_score reg profile_id max_inflight weights b, b_name b)) ready,
           if length ready \<ge> 2 then touch_slots reg profile_id max_inflight ready else reg))"

section \<open>The selection loop\<close>

record peer_features =
  load_aware_routing :: bool
  concurrency_limit :: bool
  prefill_threshold :: nat
  per_backend_inflight :: nat

record peer_env =
  pe_features :: peer_features
  pe_profile :: string
  pe_model :: "string option"
  pe_now :: instant      \<comment> \<open>for breakers and lockouts\<close>
  pe_now_ms :: nat       \<comment> \<open>for the backend slots\<close>

record peer_state =
  ps_breakers :: circuit_breaker_registry
  ps_lockouts :: model_lockout_registry
  ps_load :: backend_load_registry

datatype rejection = ModelLockedOut | Overloaded | ConcurrencyLimit | NoBackend

datatype peer_outcome = PeerSelected backend "string option" string | PeerRejected rejection

definition lockout_check :: "peer_env \<Rightarrow> model_lockout_registry \<Rightarrow> string \<Rightarrow> bool \<times> model_lockout_registry" where
  "lockout_check env ml name =
     (case pe_model env of
        None \<Rightarrow> (False, ml)
      | Some m \<Rightarrow> ml_is_locked ml (pe_profile env) name m (pe_now env))"

definition rejection_reason :: "bool \<Rightarrow> bool \<Rightarrow> bool \<Rightarrow> rejection" where
  "rejection_reason saw_lockout saw_overload saw_limit =
     (if saw_lockout then ModelLockedOut
      else if saw_overload then Overloaded
      else if saw_limit then ConcurrencyLimit
      else NoBackend)"

fun peer_loop ::
    "peer_env \<Rightarrow> peer_state \<Rightarrow> bool \<Rightarrow> bool \<Rightarrow> bool \<Rightarrow> backend list \<Rightarrow> (peer_state \<times> peer_outcome) option" where
  \<comment> \<open>None is the panic of a breaker whose cooldown overflows\<close>
  "peer_loop env st lo ov li [] = Some (st, PeerRejected (rejection_reason lo ov li))"
| "peer_loop env st lo ov li (c # cs) =
     (case cbr_can_execute (ps_breakers st) (b_name c) (pe_now env) of
        None \<Rightarrow> None
      | Some False \<Rightarrow> peer_loop env st lo ov li cs
      | Some True \<Rightarrow>
          (let (locked, ml) = lockout_check env (ps_lockouts st) (b_name c);
               st1 = st\<lparr>ps_lockouts := ml\<rparr>
           in if locked then peer_loop env st1 True ov li cs
              else
                (let (reg, state) = bl_overload_state (ps_load st1) (pe_profile env) (b_name c)
                       (per_backend_inflight (pe_features env)) (prefill_threshold (pe_features env))
                       (pe_now_ms env);
                     st2 = st1\<lparr>ps_load := reg\<rparr>
                 in if load_aware_routing (pe_features env) \<and> state \<noteq> ''ready''
                    then peer_loop env st2 lo True li cs
                    else if concurrency_limit (pe_features env)
                    then (case bl_try_acquire (ps_load st2) (pe_profile env) (b_name c)
                                 (per_backend_inflight (pe_features env)) of
                            (reg', None) \<Rightarrow> peer_loop env (st2\<lparr>ps_load := reg'\<rparr>) lo ov True cs
                          | (reg', Some permit) \<Rightarrow>
                              Some (st2\<lparr>ps_load := reg'\<rparr>, PeerSelected c (Some permit) state))
                    else Some (st2, PeerSelected c None state))))"

definition select_peer :: "peer_env \<Rightarrow> peer_state \<Rightarrow> backend list \<Rightarrow> selected_backend option \<Rightarrow>
    (peer_state \<times> peer_outcome) option" where
  \<comment> \<open>an empty ranking falls back to the ring's own choice\<close>
  "select_peer env st ranked ring_choice =
     (let candidates =
        (if ranked = []
         then (case ring_choice of
                 Some s \<Rightarrow> [\<lparr>b_name = s_name s, b_addr = s_addr s, b_weight = 1, b_tls_sni = s_tls_sni s\<rparr>]
               | None \<Rightarrow> [])
         else ranked)
      in if candidates = [] then Some (st, PeerRejected NoBackend)
         else peer_loop env st False False False candidates)"

section \<open>The quota preflight\<close>

record preflight_config =
  pf_enabled :: bool
  pf_cooldown_ms :: nat
  pf_max_consecutive_429 :: nat
  pf_skip_threshold :: f64

datatype preflight_result = PreflightPass | PreflightNoReady nat | PreflightRateLimited nat

fun preflight_filter ::
    "preflight_config \<Rightarrow> string \<Rightarrow> nat \<Rightarrow> nat \<Rightarrow> backend_load_registry \<Rightarrow> backend list \<Rightarrow>
     backend_load_registry \<times> backend list" where
  "preflight_filter cfg profile mx now reg [] = (reg, [])"
| "preflight_filter cfg profile mx now reg (b # bs) =
     (let (reg1, skip) = bl_should_skip_backend reg profile (b_name b) mx (pf_cooldown_ms cfg)
            (pf_max_consecutive_429 cfg) (pf_skip_threshold cfg) now;
          (reg2, rest) = preflight_filter cfg profile mx now reg1 bs
      in (reg2, if skip then rest else b # rest))"

definition preflight ::
    "preflight_config \<Rightarrow> string \<Rightarrow> nat \<Rightarrow> nat \<Rightarrow> backend_load_registry \<Rightarrow> backend list \<Rightarrow>
     backend_load_registry \<times> preflight_result" where
  "preflight cfg profile mx now reg ready =
     (if \<not> pf_enabled cfg then (reg, PreflightPass)
      else if ready = [] then (reg, PreflightNoReady (max (pf_cooldown_ms cfg div 1000) 1))
      else (let (reg', healthy) = preflight_filter cfg profile mx now reg ready
            in (reg', if healthy = [] then PreflightRateLimited (max (pf_cooldown_ms cfg div 1000) 1)
                      else PreflightPass)))"

section \<open>The ranking keeps the backends\<close>

lemma mset_remove_at: "i < length xs \<Longrightarrow> add_mset (xs ! i) (mset (remove_at i xs)) = mset xs"
  by (metis add_mset_add_single id_take_nth_drop mset.simps(2) mset_append remove_at_def union_mset_add_mset_right)

lemma mset_filter_name:
  assumes "distinct (map f xs)" and "w \<in> set xs"
  shows "add_mset w (mset (filter (\<lambda>c. f c \<noteq> f w) xs)) = mset xs"
  using assms
proof (induction xs)
  case (Cons x xs)
  show ?case
  proof (cases "x = w")
    case True
    then have "filter (\<lambda>c. f c \<noteq> f w) xs = xs" using Cons.prems(1) by (auto simp: filter_id_conv rev_image_eqI)
    then show ?thesis using True by simp
  next
    case False
    then have "w \<in> set xs" "f x \<noteq> f w" using Cons.prems by auto
    then show ?thesis using Cons by simp
  qed
qed simp

lemma mset_rank_ketama: "mset (rank_ketama hash bs k n) = mset bs"
proof (cases "Option.bind n (\<lambda>n. first_index (\<lambda>b. b_name b = n) bs)")
  case (Some i)
  then have "i < length bs" by (auto simp: bind_eq_Some_conv dest: first_index_SomeD)
  then show ?thesis using Some by (simp add: rank_ketama_def mset_remove_at)
qed (simp add: rank_ketama_def)

lemma mset_rank_p2c:
  assumes "distinct (map b_name bs)" and "bs \<noteq> []"
  shows "mset (rank_p2c hash bs k reg p) = mset bs"
proof (cases "length bs = 1")
  case False
  then have n: "0 < length bs" using assms(2) by simp
  obtain w where w: "w \<in> set bs" and r: "rank_p2c hash bs k reg p =
      w # filter (\<lambda>c. b_name c \<noteq> b_name w) (sort_key (\<lambda>c. (backend_score reg p c, b_name c)) bs)"
    using False n by (simp add: rank_p2c_def Let_def)
  then show ?thesis using mset_filter_name [OF assms(1) w]
    by (simp add: mset_filter)
qed (simp add: rank_p2c_def)

text \<open>
  Under every strategy the ranking is a permutation of the ready backends (given that their
  names differ): no backend is lost, none is tried twice.
\<close>
theorem rank_backends_permutation:
  assumes "distinct (map b_name ready)"
  shows "mset (fst (rank_backends hash strategy ready k sel reg p mx w)) = mset ready"
  using assms mset_rank_p2c [OF assms]
  by (auto simp: rank_backends_def mset_rank_ketama split: backend_route_strategy.split)

theorem rank_backends_permutation_witness:
  "mset (fst (rank_backends (\<lambda>_ _. 0) RsP2c
      [\<lparr>b_name = ''a'', b_addr = 1, b_weight = 1, b_tls_sni = ''x''\<rparr>,
       \<lparr>b_name = ''b'', b_addr = 2, b_weight = 1, b_tls_sni = ''y''\<rparr>] ''k'' None [] ''p'' 1
      DEFAULT_SCORE_WEIGHTS)) =
   {#\<lparr>b_name = ''a'', b_addr = 1, b_weight = 1, b_tls_sni = ''x''\<rparr>,
     \<lparr>b_name = ''b'', b_addr = 2, b_weight = 1, b_tls_sni = ''y''\<rparr>#}"
  by (subst rank_backends_permutation) simp_all

section \<open>The loop takes the first eligible backend\<close>

definition model_locked :: "peer_env \<Rightarrow> peer_state \<Rightarrow> string \<Rightarrow> bool" where
  "model_locked env st name = fst (lockout_check env (ps_lockouts st) name)"

definition slot_state :: "peer_env \<Rightarrow> peer_state \<Rightarrow> string \<Rightarrow> backend_slot" where
  "slot_state env st name =
     bl_slot (ps_load st) (pe_profile env) name (per_backend_inflight (pe_features env))"

definition eligible :: "peer_env \<Rightarrow> peer_state \<Rightarrow> backend \<Rightarrow> bool" where
  \<comment> \<open>what the state before the selection says of a backend\<close>
  "eligible env st c \<longleftrightarrow>
     cbr_can_execute (ps_breakers st) (b_name c) (pe_now env) = Some True \<and>
     \<not> model_locked env st (b_name c) \<and>
     (load_aware_routing (pe_features env) \<longrightarrow>
        bs_overload_state (slot_state env st (b_name c)) (prefill_threshold (pe_features env))
          (pe_now_ms env) = ''ready'') \<and>
     (concurrency_limit (pe_features env) \<longrightarrow> 0 < bs_permits (slot_state env st (b_name c)))"

definition same_view :: "peer_env \<Rightarrow> peer_state \<Rightarrow> peer_state \<Rightarrow> bool" where
  \<comment> \<open>the states look the same to the selection\<close>
  "same_view env st st' \<longleftrightarrow>
     ps_breakers st' = ps_breakers st \<and>
     (\<forall>n. model_locked env st' n = model_locked env st n) \<and>
     (\<forall>n. slot_state env st' n = slot_state env st n)"

lemma same_view_refl: "same_view env st st"
  by (simp add: same_view_def)

lemma same_view_trans: "same_view env a b \<Longrightarrow> same_view env b c \<Longrightarrow> same_view env a c"
  by (simp add: same_view_def)

lemma same_view_eligible: "same_view env st st' \<Longrightarrow> eligible env st' = eligible env st"
  by (rule ext) (simp add: same_view_def eligible_def)

lemma lockout_key_query:
  assumes "ml_is_locked r p b m now = (l, r')"
  shows "fst (ml_is_locked r' p' b' m' now) = fst (ml_is_locked r p' b' m' now)"
  using assms by (auto simp: ml_is_locked_def Let_def split: option.splits if_splits)

lemma same_view_lockout:
  assumes "lockout_check env (ps_lockouts st) name = (l, ml)"
  shows "same_view env st (st\<lparr>ps_lockouts := ml\<rparr>)"
  using assms lockout_key_query
  by (fastforce simp: same_view_def model_locked_def slot_state_def lockout_check_def split: option.splits)

lemma bl_slot_store_slot:
  "bl_slot (bl_store reg p b (bl_slot reg p b mx)) p' b' mx = bl_slot reg p' b' mx"
  if "\<And>q c. bl_key q c = bl_key p b \<Longrightarrow> bs_new q c (max mx 1) = bs_new p b (max mx 1)"
  using that [of p' b'] by (auto simp: bl_slot_def split: option.split)

lemma bl_slot_store_same_profile:
  "bl_slot (bl_store reg p b (bl_slot reg p b mx)) p c mx = bl_slot reg p c mx"
  by (auto simp: bl_slot_def bl_key_def split: option.split)

lemma same_view_touch:
  "same_view env st (st\<lparr>ps_load :=
     bl_store (ps_load st) (pe_profile env) name (slot_state env st name)\<rparr>)"
  by (simp add: same_view_def model_locked_def slot_state_def bl_slot_store_same_profile)

lemma peer_loop_step:
  assumes can: "cbr_can_execute (ps_breakers st) (b_name c) (pe_now env) = Some ok"
  shows "(\<exists>st' lo' ov' li'. same_view env st st' \<and> \<not> eligible env st c \<and>
            peer_loop env st lo ov li (c # cs) = peer_loop env st' lo' ov' li' cs) \<or>
         (\<exists>st' permit state. eligible env st c \<and>
            peer_loop env st lo ov li (c # cs) = Some (st', PeerSelected c permit state) \<and>
            (permit \<noteq> None \<longleftrightarrow> concurrency_limit (pe_features env)))"
proof -
  let ?f = "pe_features env" and ?n = "b_name c"
  obtain locked ml where lc: "lockout_check env (ps_lockouts st) ?n = (locked, ml)"
    by (cases "lockout_check env (ps_lockouts st) ?n")
  define st1 where "st1 = st\<lparr>ps_lockouts := ml\<rparr>"
  define st2 where "st2 = st1\<lparr>ps_load :=
      bl_store (ps_load st1) (pe_profile env) ?n (slot_state env st1 ?n)\<rparr>"
  define state where "state = bs_overload_state (slot_state env st ?n) (prefill_threshold ?f) (pe_now_ms env)"
  have v1: "same_view env st st1" unfolding st1_def by (rule same_view_lockout [OF lc])
  have v2: "same_view env st st2"
    unfolding st2_def by (rule same_view_trans [OF v1 same_view_touch])
  have ml: "model_locked env st ?n = locked" by (simp add: model_locked_def lc)
  have slot: "slot_state env st1 ?n = slot_state env st ?n" "slot_state env st2 ?n = slot_state env st ?n"
    using v1 v2 by (simp_all add: same_view_def)
  have ov: "bl_overload_state (ps_load st) (pe_profile env) ?n (per_backend_inflight ?f)
      (prefill_threshold ?f) (pe_now_ms env) = (ps_load st2, state)"
    using slot by (simp add: bl_overload_state_def st2_def st1_def state_def slot_state_def Let_def)
  let ?acquire = "bl_try_acquire (ps_load st2) (pe_profile env) ?n (per_backend_inflight ?f)"
  have acq0: "?acquire = (bl_store (ps_load st2) (pe_profile env) ?n (slot_state env st2 ?n), None)"
    if "bs_permits (slot_state env st ?n) = 0"
    using slot that by (auto simp: bl_try_acquire_def slot_state_def Let_def)
  have acq1: "\<exists>reg'. ?acquire = (reg', Some (bl_key (pe_profile env) ?n))"
    if "bs_permits (slot_state env st ?n) \<noteq> 0"
    using slot that by (auto simp: bl_try_acquire_def slot_state_def Let_def)
  have v3: "same_view env st (st2\<lparr>ps_load := bl_store (ps_load st2) (pe_profile env) ?n (slot_state env st2 ?n)\<rparr>)"
    by (rule same_view_trans [OF v2 same_view_touch])
  have st2': "st1\<lparr>ps_load := ps_load st2\<rparr> = st2" by (simp add: st2_def)
  consider (blocked) "ok = False" | (lock) "ok" "locked"
    | (over) "ok" "\<not> locked" "load_aware_routing ?f" "state \<noteq> ''ready''"
    | (full) "ok" "\<not> locked" "\<not> (load_aware_routing ?f \<and> state \<noteq> ''ready'')" "concurrency_limit ?f"
        "bs_permits (slot_state env st ?n) = 0"
    | (take) "ok" "\<not> locked" "\<not> (load_aware_routing ?f \<and> state \<noteq> ''ready'')"
        "concurrency_limit ?f \<longrightarrow> bs_permits (slot_state env st ?n) \<noteq> 0"
    by blast
  then show ?thesis
  proof cases
    case blocked
    then have "\<not> eligible env st c" using can by (simp add: eligible_def)
    moreover have "peer_loop env st lo ov li (c # cs) = peer_loop env st lo ov li cs"
      using can blocked by simp
    ultimately show ?thesis using same_view_refl by blast
  next
    case lock
    then have "\<not> eligible env st c" using ml by (simp add: eligible_def)
    moreover have "peer_loop env st lo ov li (c # cs) = peer_loop env st1 True ov li cs"
      using can lock lc by (simp add: st1_def)
    ultimately show ?thesis using v1 by blast
  next
    case over
    then have "\<not> eligible env st c" by (simp add: eligible_def state_def)
    moreover have "peer_loop env st lo ov li (c # cs) = peer_loop env st2 lo True li cs"
      using can over lc ov st2' by (simp add: st1_def [symmetric] Let_def)
    ultimately show ?thesis using v2 by blast
  next
    case full
    then have "\<not> eligible env st c" by (simp add: eligible_def)
    moreover have "peer_loop env st lo ov li (c # cs) = peer_loop env
        (st2\<lparr>ps_load := bl_store (ps_load st2) (pe_profile env) ?n (slot_state env st2 ?n)\<rparr>) lo ov True cs"
      using can full lc ov st2' acq0 by (auto simp: st1_def [symmetric] Let_def)
    ultimately show ?thesis using v3 by blast
  next
    case take
    then have "eligible env st c" using can ml by (simp add: eligible_def state_def)
    moreover have "\<exists>st' permit. peer_loop env st lo ov li (c # cs) =
        Some (st', PeerSelected c permit state) \<and> (permit \<noteq> None \<longleftrightarrow> concurrency_limit ?f)"
    proof (cases "concurrency_limit ?f")
      case True
      then obtain reg' where "?acquire = (reg', Some (bl_key (pe_profile env) ?n))"
        using acq1 take(4) by blast
      then show ?thesis using True can take(1-3) lc ov st2' by (auto simp: st1_def [symmetric] Let_def)
    next
      case False
      then show ?thesis using can take(1-3) lc ov st2' by (auto simp: st1_def [symmetric] Let_def)
    qed
    ultimately show ?thesis by blast
  qed
qed

definition breakers_answer :: "peer_env \<Rightarrow> peer_state \<Rightarrow> backend list \<Rightarrow> bool" where
  \<comment> \<open>no breaker of a candidate panics on its cooldown\<close>
  "breakers_answer env st cs =
     list_all (\<lambda>c. cbr_can_execute (ps_breakers st) (b_name c) (pe_now env) \<noteq> None) cs"

lemma peer_loop_first_eligible:
  assumes "breakers_answer env st cs"
  shows "case List.find (eligible env st) cs of
      Some c \<Rightarrow> \<exists>st' permit state. peer_loop env st lo ov li cs = Some (st', PeerSelected c permit state) \<and>
         (permit \<noteq> None \<longleftrightarrow> concurrency_limit (pe_features env))
    | None \<Rightarrow> \<exists>st' why. peer_loop env st lo ov li cs = Some (st', PeerRejected why) \<and> same_view env st st'"
  using assms
proof (induction cs arbitrary: st lo ov li)
  case Nil
  then show ?case using same_view_refl by auto
next
  case (Cons c cs)
  obtain ok where can: "cbr_can_execute (ps_breakers st) (b_name c) (pe_now env) = Some ok"
    using Cons.prems by (auto simp: breakers_answer_def)
  from peer_loop_step [OF can, of lo ov li cs] show ?case
  proof (elim disjE exE conjE)
    fix st' lo' ov' li'
    assume v: "same_view env st st'" and ne: "\<not> eligible env st c"
      and eq: "peer_loop env st lo ov li (c # cs) = peer_loop env st' lo' ov' li' cs"
    have "breakers_answer env st' cs"
      using Cons.prems v by (simp add: breakers_answer_def same_view_def)
    from Cons.IH [OF this, of lo' ov' li'] show ?thesis
      unfolding eq same_view_eligible [OF v] using ne same_view_trans [OF v]
      by (auto split: option.splits)
  next
    fix st' permit state
    assume "eligible env st c"
      "peer_loop env st lo ov li (c # cs) = Some (st', PeerSelected c permit state)"
      "(permit \<noteq> None) = concurrency_limit (pe_features env)"
    then show ?thesis by simp
  qed
qed

text \<open>
  C22. Peer selection takes the first backend of the ranking that its circuit breaker, the model
  lockouts, load-aware routing and the permits all let through, as they stood before the selection,
  with a permit exactly when the concurrency limit is on; it rejects the request only when no
  ranked backend is eligible, and a rejection changes nothing that a later selection sees.
\<close>
theorem peer_selection_first_eligible:
  assumes "breakers_answer env st ranked" and "ranked \<noteq> []"
  shows "case List.find (eligible env st) ranked of
      Some c \<Rightarrow> \<exists>st' permit state. select_peer env st ranked ring = Some (st', PeerSelected c permit state) \<and>
         (permit \<noteq> None \<longleftrightarrow> concurrency_limit (pe_features env))
    | None \<Rightarrow> \<exists>st' why. select_peer env st ranked ring = Some (st', PeerRejected why) \<and>
         same_view env st st'"
proof -
  have eq: "select_peer env st ranked ring = peer_loop env st False False False ranked"
    using assms(2) by (simp add: select_peer_def)
  show ?thesis unfolding eq by (rule peer_loop_first_eligible [OF assms(1)])
qed

definition demo_env :: peer_env where
  "demo_env =
     \<lparr>pe_features = \<lparr>load_aware_routing = True, concurrency_limit = True, prefill_threshold = 0,
                     per_backend_inflight = 1\<rparr>,
      pe_profile = ''p'', pe_model = None, pe_now = 0, pe_now_ms = 5\<rparr>"

definition demo_state :: peer_state where
  "demo_state =
     \<lparr>ps_breakers = cbr_new default_circuit_breaker_config, ps_lockouts = ml_new,
      ps_load = [(bl_key ''p'' ''a'', (bs_new ''p'' ''a'' 1)\<lparr>bs_locked_until_ms := 9\<rparr>)]\<rparr>"

theorem peer_selection_first_eligible_witness:
  "\<exists>st' permit state.
     select_peer demo_env demo_state
       [\<lparr>b_name = ''a'', b_addr = 1, b_weight = 1, b_tls_sni = ''x''\<rparr>,
        \<lparr>b_name = ''b'', b_addr = 2, b_weight = 1, b_tls_sni = ''y''\<rparr>] None =
     Some (st', PeerSelected \<lparr>b_name = ''b'', b_addr = 2, b_weight = 1, b_tls_sni = ''y''\<rparr> permit state)"
proof -
  let ?a = "\<lparr>b_name = ''a'', b_addr = 1, b_weight = 1, b_tls_sni = ''x''\<rparr>"
  let ?b = "\<lparr>b_name = ''b'', b_addr = 2, b_weight = 1, b_tls_sni = ''y''\<rparr>"
  have can: "cbr_can_execute (ps_breakers demo_state) n t = Some True" for n t
    by (simp add: demo_state_def cbr_new_def cbr_can_execute_def)
  have free: "\<not> model_locked demo_env demo_state n" for n
    by (simp add: model_locked_def lockout_check_def demo_env_def)
  have slots: "slot_state demo_env demo_state ''a'' = (bs_new ''p'' ''a'' 1)\<lparr>bs_locked_until_ms := 9\<rparr>"
    "slot_state demo_env demo_state ''b'' = bs_new ''p'' ''b'' 1"
    by (simp_all add: slot_state_def demo_env_def demo_state_def bl_slot_def hm_get_def bl_key_def)
  have "breakers_answer demo_env demo_state [?a, ?b]" by (simp add: breakers_answer_def can)
  moreover have "List.find (eligible demo_env demo_state) [?a, ?b] = Some ?b"
    by (simp add: eligible_def can free slots)
      (simp add: demo_env_def bs_overload_state_def bs_new_def)
  ultimately show ?thesis using peer_selection_first_eligible [of demo_env demo_state "[?a, ?b]" None]
    by auto
qed

section \<open>The preflight\<close>

definition skipped :: "preflight_config \<Rightarrow> string \<Rightarrow> nat \<Rightarrow> backend_load_registry \<Rightarrow> nat \<Rightarrow> backend \<Rightarrow> bool" where
  "skipped cfg profile mx reg now b =
     bs_should_skip (bl_slot reg profile (b_name b) mx) (pf_cooldown_ms cfg)
       (pf_max_consecutive_429 cfg) (pf_skip_threshold cfg) now"

lemma preflight_filter_slots:
  "bl_slot (fst (preflight_filter cfg profile mx now reg bs)) profile n mx = bl_slot reg profile n mx"
proof (induction bs arbitrary: reg)
  case (Cons b bs)
  show ?case
    using Cons.IH [of "bl_store reg profile (b_name b) (bl_slot reg profile (b_name b) mx)"]
    by (simp add: bl_should_skip_backend_def Let_def split_beta bl_slot_store_same_profile)
qed simp

lemma preflight_filter_healthy:
  "snd (preflight_filter cfg profile mx now reg bs) = filter (\<lambda>b. \<not> skipped cfg profile mx reg now b) bs"
proof (induction bs arbitrary: reg)
  case (Cons b bs)
  let ?reg = "bl_store reg profile (b_name b) (bl_slot reg profile (b_name b) mx)"
  have "skipped cfg profile mx ?reg now = skipped cfg profile mx reg now"
    by (rule ext) (simp add: skipped_def bl_slot_store_same_profile)
  then show ?case using Cons.IH [of ?reg]
    by (simp add: bl_should_skip_backend_def Let_def split_beta) (simp add: skipped_def)
qed simp

lemma preflight_slots:
  "bl_slot (fst (preflight cfg profile mx now reg ready)) profile n mx = bl_slot reg profile n mx"
  by (simp add: preflight_def split_beta preflight_filter_slots)

lemma preflight_rejects_iff:
  "snd (preflight cfg profile mx now reg ready) \<noteq> PreflightPass \<longleftrightarrow>
     pf_enabled cfg \<and> list_all (skipped cfg profile mx reg now) ready"
  by (auto simp: preflight_def split_beta preflight_filter_healthy filter_empty_conv list_all_iff)

fun preflight_run ::
    "preflight_config \<Rightarrow> string \<Rightarrow> nat \<Rightarrow> backend list \<Rightarrow> (nat \<times> (backend_load_registry \<Rightarrow> backend_load_registry)) list \<Rightarrow>
     backend_load_registry \<Rightarrow> bool list" where
  \<comment> \<open>requests arriving at the given times; one that passes runs and reports back\<close>
  "preflight_run cfg profile mx ready [] reg = []"
| "preflight_run cfg profile mx ready ((now, report) # reqs) reg =
     (let (reg', result) = preflight cfg profile mx now reg ready
      in if result = PreflightPass
         then True # preflight_run cfg profile mx ready reqs (report reg')
         else False # preflight_run cfg profile mx ready reqs reg')"

text \<open>
  A 429 streak never ends by itself: once every ready backend of a profile has reached the
  configured number of consecutive 429 responses, every later request is rejected by the preflight,
  however much time passes, because the streak is reset only by a response of the backend and no
  request is sent to it any more.
\<close>
theorem preflight_outage_permanent:
  assumes "pf_enabled cfg"
    and "list_all (\<lambda>b. pf_max_consecutive_429 cfg \<le>
            bs_consecutive_429s (bl_slot reg profile (b_name b) mx)) ready"
  shows "preflight_run cfg profile mx ready reqs reg = replicate (length reqs) False"
  using assms(2)
proof (induction reqs arbitrary: reg)
  case (Cons r reqs)
  obtain now report where r: "r = (now, report)" by (cases r)
  let ?reg = "fst (preflight cfg profile mx now reg ready)"
  have "list_all (skipped cfg profile mx reg now) ready"
    using Cons.prems by (auto simp: list_all_iff skipped_def intro: skip_by_streak)
  then have rej: "snd (preflight cfg profile mx now reg ready) \<noteq> PreflightPass"
    using assms(1) preflight_rejects_iff by blast
  have "preflight_run cfg profile mx ready reqs ?reg = replicate (length reqs) False"
    by (rule Cons.IH) (use Cons.prems in \<open>simp add: preflight_slots\<close>)
  then show ?case using rej r by (simp add: split_beta)
qed simp

theorem preflight_outage_permanent_witness:
  "preflight_run \<lparr>pf_enabled = True, pf_cooldown_ms = 60000, pf_max_consecutive_429 = 3, pf_skip_threshold = 1\<rparr>
     ''p'' 4 [\<lparr>b_name = ''a'', b_addr = 1, b_weight = 1, b_tls_sni = ''x''\<rparr>]
     [(10 ^ 15, id), (10 ^ 18, id)]
     [(bl_key ''p'' ''a'', (bs_new ''p'' ''a'' 4)\<lparr>bs_consecutive_429s := 3\<rparr>)] = [False, False]"
proof -
  let ?c = "\<lparr>pf_enabled = True, pf_cooldown_ms = 60000, pf_max_consecutive_429 = 3, pf_skip_threshold = 1\<rparr>"
  let ?r = "[(bl_key ''p'' ''a'', (bs_new ''p'' ''a'' 4)\<lparr>bs_consecutive_429s := 3\<rparr>)]"
  let ?b = "[\<lparr>b_name = ''a'', b_addr = 1, b_weight = 1, b_tls_sni = ''x''\<rparr>]"
  have "list_all (\<lambda>b. pf_max_consecutive_429 ?c \<le>
      bs_consecutive_429s (bl_slot ?r ''p'' (b_name b) 4)) ?b"
    by (simp add: bl_slot_def hm_get_def)
  then show ?thesis
    using preflight_outage_permanent [of ?c ?r "''p''" 4 ?b "[(10 ^ 15, id), (10 ^ 18, id)]"] by simp
qed

end
