(* ===== verification/ToolChain.thy ===== *)
theory ToolChain
  imports Json
begin

text \<open>
  Repair of chat histories: the tool-call chain of
  \<^verbatim>\<open>src/crates/crab-proxy/src/responses_wire.rs\<close> (calls without a result and results without
  a call are dropped) and the retirement of old turns of
  \<^verbatim>\<open>src/crates/crab-reasoning/src/normalize.rs\<close>. The length of a printed message enters
  only the token estimates; the printer is an argument.
\<close>

section \<open>Tool calls and tool messages\<close>

definition tool_calls_of :: "json \<Rightarrow> json list option" where
  \<comment> \<open>\<open>msg.get("tool_calls").and_then(|v| v.as_array())\<close>\<close>
  "tool_calls_of m = Option.bind (json_get m ''tool_calls'') as_array"

definition ids_of_calls :: "json list \<Rightarrow> string set" where
  "ids_of_calls tcs = set (List.map_filter (\<lambda>tc. json_get_str tc ''id'') tcs)"

definition call_ids :: "json list \<Rightarrow> string set" where
  "call_ids ms = (\<Union>m \<in> set ms. case tool_calls_of m of Some tcs \<Rightarrow> ids_of_calls tcs | None \<Rightarrow> {})"

definition filter_orphaned_tool_messages :: "json list \<Rightarrow> json list" where
  "filter_orphaned_tool_messages ms =
     filter (\<lambda>m. if has_role ''tool'' m
                 then (case json_get_str m ''tool_call_id'' of Some i \<Rightarrow> i \<in> call_ids ms | None \<Rightarrow> False)
                 else True) ms"

definition tool_ids :: "json list \<Rightarrow> string set" where
  "tool_ids ms = set (List.map_filter (\<lambda>m. json_get_str m ''tool_call_id'') (filter (has_role ''tool'') ms))"

definition strip_message :: "string set \<Rightarrow> json \<Rightarrow> json" where
  \<comment> \<open>the closure applied to every message\<close>
  "strip_message ids m =
     (if \<not> has_role ''assistant'' m then m
      else case tool_calls_of m of
             None \<Rightarrow> m
           | Some tcs \<Rightarrow>
               (let kept = filter (\<lambda>tc. case json_get_str tc ''id'' of Some i \<Rightarrow> i \<in> ids | None \<Rightarrow> False) tcs
                in if kept = [] then json_remove m ''tool_calls''
                   else json_insert m ''tool_calls'' (JArr kept)))"

definition strip_dangling_assistant_tool_calls :: "json list \<Rightarrow> json list" where
  "strip_dangling_assistant_tool_calls ms = map (strip_message (tool_ids ms)) ms"

definition sanitize_tool_message_chain :: "json list \<Rightarrow> json list" where
  "sanitize_tool_message_chain ms =
     filter_orphaned_tool_messages (strip_dangling_assistant_tool_calls ms)"

section \<open>Retirement of old turns\<close>

definition positions :: "('a \<Rightarrow> bool) \<Rightarrow> 'a list \<Rightarrow> nat list" where
  "positions P xs = filter (\<lambda>i. P (xs ! i)) [0..<length xs]"

definition retire_notice :: "nat \<Rightarrow> json" where
  "retire_notice n =
     JObj [(''content'', JStr (''[crabcache] '' @ show_nat n @
              '' older messages retired for prefix cache optimization.'')),
           (''role'', JStr ''system'')]"

definition retire_prefix_messages_by_turns ::
    "(json \<Rightarrow> string) \<Rightarrow> json list \<Rightarrow> nat \<Rightarrow> (json list \<times> nat \<times> nat) option" where
  \<comment> \<open>None is the out-of-range index panic\<close>
  "retire_prefix_messages_by_turns ser messages keep_turns =
     (if messages = [] then Some (messages, 0, 0)
      else
        (let chars = (\<lambda>ms. sum_list (map (length \<circ> ser) ms));
             system_end = (case first_index (\<lambda>m. \<not> has_role ''system'' m) messages of
                             Some i \<Rightarrow> i | None \<Rightarrow> length messages);
             non_system = drop system_end messages;
             user_positions = positions (has_role ''user'') non_system
         in if length user_positions \<le> keep_turns then Some (messages, 0, 0)
            else if length user_positions - keep_turns \<ge> length user_positions then None
            else
              (let cutoff = system_end + user_positions ! (length user_positions - keep_turns);
                   retired_count = cutoff - system_end;
                   result = take system_end messages @
                            (if retired_count > 0 then [retire_notice retired_count] else []) @
                            drop cutoff messages
               in Some (result, chars messages div 4, chars result div 4))))"

section \<open>The repaired chain is closed\<close>

definition chain_closed :: "json list \<Rightarrow> bool" where
  \<comment> \<open>every tool result answers a call of the list, every assistant call has its result\<close>
  "chain_closed ms \<longleftrightarrow>
     (\<forall>m \<in> set ms.
        (has_role ''tool'' m \<longrightarrow> (\<exists>i. json_get_str m ''tool_call_id'' = Some i \<and> i \<in> call_ids ms)) \<and>
        (has_role ''assistant'' m \<longrightarrow>
           (case tool_calls_of m of
              None \<Rightarrow> True
            | Some tcs \<Rightarrow> tcs \<noteq> [] \<and>
                (\<forall>tc \<in> set tcs. \<exists>i. json_get_str tc ''id'' = Some i \<and> i \<in> tool_ids ms))))"

definition no_calls_in_tools :: "json list \<Rightarrow> bool" where
  \<comment> \<open>tool results carry no calls of their own\<close>
  "no_calls_in_tools ms = list_all (\<lambda>m. has_role ''tool'' m \<longrightarrow> tool_calls_of m = None) ms"

lemma strip_message_get_str [simp]:
  "k \<noteq> ''tool_calls'' \<Longrightarrow> json_get_str (strip_message ids m) k = json_get_str m k"
  by (auto simp: strip_message_def Let_def json_get_str_def json_get_remove json_get_insert
      split: option.split)

lemma strip_message_role [simp]: "has_role r (strip_message ids m) = has_role r m"
  by (simp add: has_role_def)

lemma has_role_object: "has_role r m \<Longrightarrow> \<exists>kvs. m = JObj kvs"
  by (cases m) (auto simp: has_role_def json_get_str_def)

lemma strip_message_calls:
  "tool_calls_of (strip_message ids m) =
     (if has_role ''assistant'' m
      then (case tool_calls_of m of
              None \<Rightarrow> None
            | Some tcs \<Rightarrow>
                (let kept = filter (\<lambda>tc. case json_get_str tc ''id'' of Some i \<Rightarrow> i \<in> ids | None \<Rightarrow> False) tcs
                 in if kept = [] then None else Some kept))
      else tool_calls_of m)"
proof (cases "has_role ''assistant'' m")
  case True
  then obtain kvs where "m = JObj kvs" using has_role_object by blast
  then show ?thesis using True
    by (auto simp: strip_message_def tool_calls_of_def Let_def update_conv' delete_conv' split: option.split)
qed (simp add: strip_message_def)

lemma tool_ids_iff:
  "i \<in> tool_ids ms \<longleftrightarrow> (\<exists>m \<in> set ms. has_role ''tool'' m \<and> json_get_str m ''tool_call_id'' = Some i)"
  by (auto simp: tool_ids_def set_map_filter)

lemma ids_of_calls_iff: "i \<in> ids_of_calls tcs \<longleftrightarrow> (\<exists>tc \<in> set tcs. json_get_str tc ''id'' = Some i)"
  by (auto simp: ids_of_calls_def set_map_filter)

lemma call_ids_iff:
  "i \<in> call_ids ms \<longleftrightarrow> (\<exists>m \<in> set ms. \<exists>tcs. tool_calls_of m = Some tcs \<and> i \<in> ids_of_calls tcs)"
  by (auto simp: call_ids_def split: option.splits)

lemma tool_ids_strip [simp]: "tool_ids (strip_dangling_assistant_tool_calls ms) = tool_ids ms"
  by (auto simp: tool_ids_iff strip_dangling_assistant_tool_calls_def)

lemma filter_keeps_calls:
  assumes "no_calls_in_tools ms"
  shows "call_ids (filter_orphaned_tool_messages ms) = call_ids ms"
proof -
  have "m \<in> set (filter_orphaned_tool_messages ms)" if "m \<in> set ms" "tool_calls_of m = Some tcs" for m tcs
    using assms that by (auto simp: filter_orphaned_tool_messages_def no_calls_in_tools_def list_all_iff)
  then show ?thesis by (force simp: call_ids_iff filter_orphaned_tool_messages_def)
qed

lemma tool_ids_filter:
  "tool_ids (filter_orphaned_tool_messages ms) = tool_ids ms \<inter> call_ids ms"
  unfolding tool_ids_iff set_eq_iff Int_iff filter_orphaned_tool_messages_def by force


definition demo_chain :: "json list" where
  "demo_chain =
     [JObj [(''role'', JStr ''assistant''),
            (''tool_calls'', JArr [JObj [(''id'', JStr ''a'')], JObj [(''id'', JStr ''b'')]])],
      JObj [(''role'', JStr ''tool''), (''tool_call_id'', JStr ''a'')],
      JObj [(''role'', JStr ''tool''), (''tool_call_id'', JStr ''c'')]]"


section \<open>What retirement keeps\<close>

lemma positions_less: "i \<in> set (positions P xs) \<Longrightarrow> i < length xs \<and> P (xs ! i)"
  by (auto simp: positions_def)

lemma length_positions: "length (positions P xs) = length (filter P xs)"
  by (simp add: positions_def length_filter_conv_card cong: conj_cong)

lemma positions_suffix:
  \<comment> \<open>from the position of the \<open>j\<close>-th hit on there are all the later hits\<close>
  assumes "j < length (positions P xs)"
  shows "length (filter P (drop (positions P xs ! j) xs)) = length (positions P xs) - j"
  using assms
proof (induction xs arbitrary: j)
  case (Cons x xs)
  have p: "positions P (x # xs) = (if P x then [0] else []) @ map Suc (positions P xs)"
  proof -
    have "[0..<length (x # xs)] = 0 # map Suc [0..<length xs]"
      by (simp add: upt_conv_Cons map_Suc_upt del: upt_Suc)
    then show ?thesis by (simp add: positions_def filter_map comp_def)
  qed
  show ?case
  proof (cases "P x")
    case True
    then show ?thesis using Cons p
      by (cases j) (simp_all add: length_positions)
  next
    case False
    then show ?thesis using Cons p by simp
  qed
qed (simp add: positions_def)

text \<open>
  Retirement with a positive number of turns never fails; it keeps the leading system messages
  and a suffix of the history in which exactly that many user messages are left (all of them, when
  there are no more), with one notice in between when something was dropped.
\<close>
theorem retirement_keeps_recent_turns:
  assumes "0 < keep_turns"
  shows "\<exists>result before after sys rest cut.
    retire_prefix_messages_by_turns ser ms keep_turns = Some (result, before, after) \<and>
    ms = sys @ rest \<and> list_all (has_role ''system'') sys \<and>
    (result = ms \<and> length (filter (has_role ''user'') rest) \<le> keep_turns \<or>
     result = sys @ (if cut = 0 then [] else [retire_notice cut]) @ drop cut rest \<and>
     length (filter (has_role ''user'') (drop cut rest)) = keep_turns)"
proof (cases "ms = []")
  case True
  then show ?thesis
    by (intro exI [of _ "[]"] exI [of _ 0]) (simp add: retire_prefix_messages_by_turns_def)
next
  case False
  define e where "e = (case first_index (\<lambda>m. \<not> has_role ''system'' m) ms of Some i \<Rightarrow> i | None \<Rightarrow> length ms)"
  let ?rest = "drop e ms" and ?chars = "\<lambda>ms. sum_list (map (length \<circ> ser) ms)"
  let ?up = "positions (has_role ''user'') ?rest"
  have sys: "list_all (has_role ''system'') (take e ms)"
  proof (cases "first_index (\<lambda>m. \<not> has_role ''system'' m) ms")
    case None
    then show ?thesis by (auto simp: first_index_None_iff list_all_iff dest: in_set_takeD)
  next
    case (Some i)
    then have "e = i" "i < length ms" "\<forall>j < i. has_role ''system'' (ms ! j)"
      by (auto simp: e_def dest: first_index_SomeD)
    then show ?thesis by (auto simp: list_all_length)
  qed
  have ms: "ms = take e ms @ ?rest" by simp
  show ?thesis
  proof (cases "length ?up \<le> keep_turns")
    case True
    then have "retire_prefix_messages_by_turns ser ms keep_turns = Some (ms, 0, 0)"
      using False by (simp add: retire_prefix_messages_by_turns_def e_def Let_def)
    then show ?thesis using sys ms True by (metis length_positions)
  next
    case ls: False
    let ?j = "length ?up - keep_turns" and ?cut = "?up ! (length ?up - keep_turns)"
    have j: "?j < length ?up" using ls assms by simp
    have users: "length (filter (has_role ''user'') (drop ?cut ?rest)) = keep_turns"
      using positions_suffix [OF j] ls by simp
    let ?res = "take e ms @ (if ?cut = 0 then [] else [retire_notice ?cut]) @ drop ?cut ?rest"
    have "retire_prefix_messages_by_turns ser ms keep_turns =
        Some (?res, ?chars ms div 4, ?chars ?res div 4)"
      using False ls j by (simp add: retire_prefix_messages_by_turns_def e_def [symmetric] Let_def add.commute)
    then show ?thesis using sys ms users by blast
  qed
qed

theorem retirement_keeps_recent_turns_witness:
  "\<exists>result before after sys rest cut.
    retire_prefix_messages_by_turns (\<lambda>_. []) [JObj [(''role'', JStr ''user'')], JObj [(''role'', JStr ''user'')]] 1 =
      Some (result, before, after) \<and>
    [JObj [(''role'', JStr ''user'')], JObj [(''role'', JStr ''user'')]] = sys @ rest \<and>
    list_all (has_role ''system'') sys \<and>
    (result = [JObj [(''role'', JStr ''user'')], JObj [(''role'', JStr ''user'')]] \<and>
       length (filter (has_role ''user'') rest) \<le> 1 \<or>
     result = sys @ (if cut = 0 then [] else [retire_notice cut]) @ drop cut rest \<and>
     length (filter (has_role ''user'') (drop cut rest)) = 1)"
  by (rule retirement_keeps_recent_turns) simp

text \<open>
  Asked to keep no turn at all, retirement panics on every history with a user message after the
  system messages: it reads one position past the end of the user positions.
\<close>
theorem retirement_of_all_turns_panics:
  "retire_prefix_messages_by_turns ser (m # ms) 0 = None" if "has_role ''user'' m"
proof -
  have "\<not> has_role ''system'' m" using that by (simp add: has_role_def)
  moreover have "positions (has_role ''user'') (m # ms) \<noteq> []"
    using that length_positions [of "has_role ''user''" "m # ms"] by auto
  ultimately show ?thesis by (simp add: retire_prefix_messages_by_turns_def Let_def)
qed

theorem retirement_of_all_turns_panics_witness:
  "retire_prefix_messages_by_turns (\<lambda>_. []) [JObj [(''role'', JStr ''user'')]] 0 = None"
  by (rule retirement_of_all_turns_panics) (simp add: has_role_def json_get_str_def)

end
