(* ===== verification/ReasoningKeys.thy ===== *)
theory ReasoningKeys
  imports ToolChain
begin

text \<open>
  Signatures and cache keys of messages
  (\<^verbatim>\<open>src/crates/crab-reasoning/src/keys.rs\<close>) and the reasoning store that is filled and read
  under them (\<^verbatim>\<open>store.rs\<close>, an SQLite table). Printing a JSON value and SHA-256 in
  hexadecimal are arguments; \<open>ser\<close> prints, \<open>sha\<close> hashes.
\<close>

section \<open>Signatures\<close>

definition sha256_json :: "(string \<Rightarrow> string) \<Rightarrow> (json \<Rightarrow> string) \<Rightarrow> json \<Rightarrow> string" where
  "sha256_json sha ser v = sha (ser v)"

definition get_or :: "json \<Rightarrow> string \<Rightarrow> json \<Rightarrow> json" where
  \<comment> \<open>\<open>v.get(k).cloned().unwrap_or(d)\<close>\<close>
  "get_or v k d = (case json_get v k of Some w \<Rightarrow> w | None \<Rightarrow> d)"

definition is_object :: "json \<Rightarrow> bool" where
  "is_object v \<longleftrightarrow> as_object v \<noteq> None"

definition arguments_text :: "(json \<Rightarrow> string) \<Rightarrow> json \<Rightarrow> string" where
  "arguments_text ser function =
     (case json_get function ''arguments'' of
        Some a \<Rightarrow> (case as_str a of Some s \<Rightarrow> s | None \<Rightarrow> ser a)
      | None \<Rightarrow> [])"

definition normalize_tool_call_for_signature :: "(json \<Rightarrow> string) \<Rightarrow> json \<Rightarrow> json" where
  "normalize_tool_call_for_signature ser tool_call =
     (if is_object tool_call
      then JObj
        [(''function'',
          (case json_get tool_call ''function'' of
             Some f \<Rightarrow>
               if is_object f
               then JObj [(''arguments'', JStr (arguments_text ser f)), (''name'', get_or f ''name'' (JStr []))]
               else JObj [(''arguments'', JStr []), (''name'', JStr [])]
           | None \<Rightarrow> JObj [(''arguments'', JStr []), (''name'', JStr [])])),
         (''type'', get_or tool_call ''type'' (JStr ''function''))]
      else JObj [])"

definition tool_call_signature :: "(string \<Rightarrow> string) \<Rightarrow> (json \<Rightarrow> string) \<Rightarrow> json \<Rightarrow> string" where
  "tool_call_signature sha ser tool_call =
     sha256_json sha ser (json_remove (normalize_tool_call_for_signature ser tool_call) ''id'')"

definition tool_call_ids :: "json \<Rightarrow> string list" where
  "tool_call_ids message =
     (case tool_calls_of message of
        Some arr \<Rightarrow> List.map_filter (\<lambda>tc. if is_object tc then json_get_str tc ''id'' else None) arr
      | None \<Rightarrow> [])"

definition tool_call_names :: "json \<Rightarrow> string list" where
  "tool_call_names message =
     (case tool_calls_of message of
        Some arr \<Rightarrow>
          List.map_filter (\<lambda>tc. Option.bind (json_get tc ''function'')
            (\<lambda>f. if is_object f then json_get_str f ''name'' else None)) arr
      | None \<Rightarrow> [])"

definition object_calls :: "json \<Rightarrow> json list" where
  \<comment> \<open>the tool calls that are objects\<close>
  "object_calls message =
     (case tool_calls_of message of Some arr \<Rightarrow> filter is_object arr | None \<Rightarrow> [])"

definition message_signature :: "(string \<Rightarrow> string) \<Rightarrow> (json \<Rightarrow> string) \<Rightarrow> json \<Rightarrow> string" where
  "message_signature sha ser message =
     sha256_json sha ser
       (JObj [(''content'', get_or message ''content'' (JStr [])),
              (''tool_calls'', JArr (map (normalize_tool_call_for_signature ser) (object_calls message)))])"

definition canonical_scope_message :: "(json \<Rightarrow> string) \<Rightarrow> json \<Rightarrow> json" where
  "canonical_scope_message ser message =
     (let field = (\<lambda>k. case json_get message k of Some v \<Rightarrow> [(k, v)] | None \<Rightarrow> []);
          calls = map (normalize_tool_call_for_signature ser) (object_calls message)
      in JObj (field ''content'' @ field ''name'' @ field ''prefix'' @ field ''role'' @
               field ''tool_call_id'' @ (if calls = [] then [] else [(''tool_calls'', JArr calls)])))"

definition conversation_scope ::
    "(string \<Rightarrow> string) \<Rightarrow> (json \<Rightarrow> string) \<Rightarrow> json list \<Rightarrow> string \<Rightarrow> string" where
  "conversation_scope sha ser messages namespace =
     (let scope_messages = map (canonical_scope_message ser) messages
      in sha256_json sha ser
           (if namespace = [] then JArr scope_messages
            else JObj [(''messages'', JArr scope_messages), (''namespace'', JStr namespace)]))"

definition resolve_reasoning_scope ::
    "(string \<Rightarrow> string) \<Rightarrow> (json \<Rightarrow> string) \<Rightarrow> string option \<Rightarrow> json list \<Rightarrow> string \<Rightarrow> string" where
  "resolve_reasoning_scope sha ser stable_session_id messages cache_namespace =
     (case map_option trim stable_session_id of
        Some (c # cs) \<Rightarrow>
          if cache_namespace = [] then ''session:'' @ (c # cs)
          else ''session:'' @ (c # cs) @ '':ns:'' @ take 16 (sha cache_namespace)
      | _ \<Rightarrow> conversation_scope sha ser messages cache_namespace)"

fun back_over_users :: "json list \<Rightarrow> nat \<Rightarrow> nat" where
  \<comment> \<open>the loop that moves the start back while the previous message is a user's\<close>
  "back_over_users ms 0 = 0"
| "back_over_users ms (Suc i) = (if has_role ''user'' (ms ! i) then back_over_users ms i else Suc i)"

definition last_index :: "('a \<Rightarrow> bool) \<Rightarrow> 'a list \<Rightarrow> nat option" where
  \<comment> \<open>\<open>iter().rposition(P)\<close>\<close>
  "last_index P xs = map_option (\<lambda>i. length xs - 1 - i) (first_index P (rev xs))"

definition turn_start :: "json list \<Rightarrow> nat" where
  "turn_start prior =
     (case last_index (has_role ''user'') prior of
        Some idx \<Rightarrow> back_over_users prior idx
      | None \<Rightarrow> 0)"

definition turn_context_signature ::
    "(string \<Rightarrow> string) \<Rightarrow> (json \<Rightarrow> string) \<Rightarrow> json list \<Rightarrow> string" where
  "turn_context_signature sha ser prior =
     sha256_json sha ser
       (JArr (map (canonical_scope_message ser)
                (filter (\<lambda>m. \<not> has_role ''system'' m) (drop (turn_start prior) prior))))"

definition keys_under :: "(string \<Rightarrow> string) \<Rightarrow> (json \<Rightarrow> string) \<Rightarrow> string \<Rightarrow> json \<Rightarrow> string list" where
  \<comment> \<open>the four kinds of keys below one prefix\<close>
  "keys_under sha ser prefix message =
     [prefix @ ''signature:'' @ message_signature sha ser message] @
     map (\<lambda>i. prefix @ ''tool_call:'' @ i) (tool_call_ids message) @
     map (\<lambda>tc. prefix @ ''tool_call_signature:'' @ tool_call_signature sha ser tc) (object_calls message) @
     map (\<lambda>n. prefix @ ''tool_name:'' @ n) (tool_call_names message)"

definition scoped_reasoning_keys ::
    "(string \<Rightarrow> string) \<Rightarrow> (json \<Rightarrow> string) \<Rightarrow> json \<Rightarrow> string \<Rightarrow> string list" where
  "scoped_reasoning_keys sha ser message scope =
     keys_under sha ser (''scope:'' @ scope @ '':'') message"

definition portable_reasoning_keys ::
    "(string \<Rightarrow> string) \<Rightarrow> (json \<Rightarrow> string) \<Rightarrow> json \<Rightarrow> string \<Rightarrow> json list \<Rightarrow> string list" where
  "portable_reasoning_keys sha ser message cache_namespace prior =
     (if cache_namespace = [] then []
      else keys_under sha ser
             (''namespace:'' @ cache_namespace @ '':turn:'' @ turn_context_signature sha ser prior @ '':'')
             message)"

section \<open>The reasoning store\<close>

record reasoning_row =
  rr_key :: string
  rr_reasoning :: string
  rr_message_json :: string
  rr_created_at :: rat

record reasoning_store =
  rs_rows :: "reasoning_row list"
  max_age_seconds :: "nat option"
  max_rows :: "nat option"

type_synonym newest_first = "reasoning_row list \<Rightarrow> reasoning_row list"  \<comment> \<open>ORDER BY created_at DESC\<close>

definition prune_age :: "rat \<Rightarrow> nat option \<Rightarrow> reasoning_row list \<Rightarrow> reasoning_row list" where
  \<comment> \<open>rows older than the maximal age go; times are exact seconds here\<close>
  "prune_age now age rows =
     (case age of
        Some a \<Rightarrow> if a > 0 then filter (\<lambda>r. now - of_nat a \<le> rr_created_at r) rows else rows
      | None \<Rightarrow> rows)"

definition prune_count :: "newest_first \<Rightarrow> nat option \<Rightarrow> reasoning_row list \<Rightarrow> reasoning_row list" where
  "prune_count order limit rows =
     (case limit of
        Some n \<Rightarrow> if n > 0 then filter (\<lambda>r. rr_key r \<in> rr_key ` set (take n (order rows))) rows else rows
      | None \<Rightarrow> rows)"

definition prune_locked :: "newest_first \<Rightarrow> rat \<Rightarrow> reasoning_store \<Rightarrow> reasoning_store" where
  "prune_locked order now s =
     s\<lparr>rs_rows := prune_count order (max_rows s) (prune_age now (max_age_seconds s) (rs_rows s))\<rparr>"

definition rs_new :: "newest_first \<Rightarrow> rat \<Rightarrow> reasoning_row list \<Rightarrow> nat option \<Rightarrow> nat option \<Rightarrow> reasoning_store" where
  \<comment> \<open>opening the table and pruning it\<close>
  "rs_new order now rows age n = prune_locked order now \<lparr>rs_rows = rows, max_age_seconds = age, max_rows = n\<rparr>"

definition upsert_row :: "reasoning_row \<Rightarrow> reasoning_row list \<Rightarrow> reasoning_row list" where
  "upsert_row r rows = filter (\<lambda>q. rr_key q \<noteq> rr_key r) rows @ [r]"

definition rs_put :: "newest_first \<Rightarrow> (json \<Rightarrow> string) \<Rightarrow> rat \<Rightarrow> reasoning_store \<Rightarrow> string \<Rightarrow> string \<Rightarrow> json \<Rightarrow>
    reasoning_store" where
  "rs_put order ser now s key reasoning message =
     prune_locked order now
       (s\<lparr>rs_rows := upsert_row \<lparr>rr_key = key, rr_reasoning = reasoning, rr_message_json = ser message,
                                rr_created_at = now\<rparr> (rs_rows s)\<rparr>)"

definition rs_get :: "reasoning_store \<Rightarrow> string \<Rightarrow> string option" where
  "rs_get s key = map_option rr_reasoning (List.find (\<lambda>r. rr_key r = key) (rs_rows s))"

definition all_keys :: "(string \<Rightarrow> string) \<Rightarrow> (json \<Rightarrow> string) \<Rightarrow> json \<Rightarrow> string \<Rightarrow> string \<Rightarrow> json list \<Rightarrow> string list" where
  "all_keys sha ser message scope cache_namespace prior =
     scoped_reasoning_keys sha ser message scope @
     (if prior \<noteq> [] then portable_reasoning_keys sha ser message cache_namespace prior else [])"

definition store_assistant_message ::
    "newest_first \<Rightarrow> (string \<Rightarrow> string) \<Rightarrow> (json \<Rightarrow> string) \<Rightarrow> rat \<Rightarrow> reasoning_store \<Rightarrow> json \<Rightarrow> string \<Rightarrow>
     string \<Rightarrow> json list \<Rightarrow> reasoning_store \<times> nat" where
  "store_assistant_message order sha ser now s message scope cache_namespace prior =
     (if \<not> has_role ''assistant'' message then (s, 0)
      else case json_get_str message ''reasoning_content'' of
             None \<Rightarrow> (s, 0)
           | Some reasoning \<Rightarrow>
               (let keys = remdups_adj (all_keys sha ser message scope cache_namespace prior)
                in (foldl (\<lambda>st k. rs_put order ser now st k reasoning message) s keys, length keys)))"

definition lookup_for_message ::
    "(string \<Rightarrow> string) \<Rightarrow> (json \<Rightarrow> string) \<Rightarrow> reasoning_store \<Rightarrow> json \<Rightarrow> string \<Rightarrow> string \<Rightarrow> json list \<Rightarrow>
     string option" where
  "lookup_for_message sha ser s message scope cache_namespace prior =
     Option.bind (List.find (\<lambda>k. rs_get s k \<noteq> None) (all_keys sha ser message scope cache_namespace prior))
       (rs_get s)"

definition backfill_portable_aliases ::
    "newest_first \<Rightarrow> (string \<Rightarrow> string) \<Rightarrow> (json \<Rightarrow> string) \<Rightarrow> rat \<Rightarrow> reasoning_store \<Rightarrow> json \<Rightarrow> string \<Rightarrow>
     string \<Rightarrow> json list \<Rightarrow> reasoning_store \<times> nat" where
  "backfill_portable_aliases order sha ser now s message reasoning cache_namespace prior =
     (let keys = portable_reasoning_keys sha ser message cache_namespace prior in
      if keys = [] then (s, 0)
      else (let unique = remdups_adj keys;
                m = json_insert message ''reasoning_content'' (JStr reasoning)
            in (foldl (\<lambda>st k. rs_put order ser now st k reasoning m) s unique, length unique)))"

definition rs_clear :: "reasoning_store \<Rightarrow> reasoning_store \<times> nat" where
  "rs_clear s = (s\<lparr>rs_rows := []\<rparr>, length (rs_rows s))"

section \<open>Laws of the signatures\<close>

text \<open>
  A message's signature does not depend on its role: a user message and an assistant message
  with the same content and calls cannot be told apart by it.
\<close>
theorem signature_ignores_role:
  "message_signature sha ser (json_insert m ''role'' r) = message_signature sha ser m"
  by (simp add: message_signature_def get_or_def object_calls_def tool_calls_of_def json_get_insert)

lemma last_index_append:
  assumes "list_all P us" "us \<noteq> []" "list_all (\<lambda>x. \<not> P x) rest"
  shows "last_index P (pre @ us @ rest) = Some (length pre + length us - 1)"
proof -
  have f: "first_index P (xs @ y # ys) = Some (length xs)" if "list_all (\<lambda>x. \<not> P x) xs" "P y" for xs y ys
    using that by (induction xs) auto
  obtain vs v where us: "us = vs @ [v]" using assms(2) by (metis rev_exhaust)
  have "rev (pre @ us @ rest) = rev rest @ v # rev (pre @ vs)" using us by simp
  moreover have "first_index P (rev rest @ v # rev (pre @ vs)) = Some (length rest)"
    using f [of "rev rest" v "rev (pre @ vs)"] assms us by (simp add: list_all_iff)
  ultimately show ?thesis using us by (simp add: last_index_def)
qed

lemma back_over_users_run:
  assumes "list_all (has_role ''user'') us" "pre = [] \<or> \<not> has_role ''user'' (List.last pre)"
    "k \<le> length us"
  shows "back_over_users (pre @ us @ rest) (length pre + k) = length pre"
  using assms(3)
proof (induction k)
  case 0
  then show ?case
  proof (cases pre rule: rev_cases)
    case (snoc ps p)
    then show ?thesis using assms(2) by (simp add: nth_append)
  qed simp
next
  case (Suc k)
  then have "has_role ''user'' ((pre @ us @ rest) ! (length pre + k))"
    using assms(1) by (simp add: nth_append list_all_length)
  then show ?case using Suc by simp
qed

text \<open>
  The turn signature covers exactly the last run of user messages and what follows it, without
  system messages; nothing before that run matters.
\<close>
theorem turn_signature_covers_last_turn:
  assumes "list_all (has_role ''user'') us" and "us \<noteq> []"
    and "list_all (\<lambda>m. \<not> has_role ''user'' m) rest"
    and "pre = [] \<or> \<not> has_role ''user'' (List.last pre)"
  shows "turn_context_signature sha ser (pre @ us @ rest) =
    sha256_json sha ser
      (JArr (map (canonical_scope_message ser) (filter (\<lambda>m. \<not> has_role ''system'' m) (us @ rest))))"
proof -
  have "turn_start (pre @ us @ rest) = back_over_users (pre @ us @ rest) (length pre + (length us - 1))"
    using last_index_append [OF assms(1-3), of pre] assms(2)
    by (cases us) (simp_all add: turn_start_def)
  also have "\<dots> = length pre" by (rule back_over_users_run [OF assms(1,4)]) simp
  finally show ?thesis by (simp add: turn_context_signature_def)
qed

theorem turn_signature_covers_last_turn_witness:
  "turn_context_signature id (\<lambda>_. ''x'') ([JNull] @ [JObj [(''role'', JStr ''user'')]] @ [JNull]) =
   sha256_json id (\<lambda>_. ''x'') (JArr (map (canonical_scope_message (\<lambda>_. ''x''))
     (filter (\<lambda>m. \<not> has_role ''system'' m) ([JObj [(''role'', JStr ''user'')]] @ [JNull]))))"
  by (rule turn_signature_covers_last_turn) (simp_all add: has_role_def json_get_str_def)

section \<open>Laws of the store\<close>

locale newest_first_order =
  fixes order :: newest_first
  assumes perm: "set (order rows) = set rows" and len: "length (order rows) = length rows"
    and desc: "sorted_wrt (\<lambda>a b. rr_created_at b \<le> rr_created_at a) (order rows)"
begin

lemma newest_taken:
  assumes "r \<in> set rows" "\<And>q. q \<in> set rows \<Longrightarrow> q \<noteq> r \<Longrightarrow> rr_created_at q < rr_created_at r" "0 < n"
  shows "r \<in> set (take n (order rows))"
proof -
  have "order rows \<noteq> []" using assms(1) perm by (metis empty_iff empty_set)
  then obtain h t where o: "order rows = h # t" by (meson neq_Nil_conv)
  have "h = r"
  proof (rule ccontr)
    assume "h \<noteq> r"
    then have "r \<in> set t" using assms(1) perm o by (metis set_ConsD)
    then have "rr_created_at r \<le> rr_created_at h" using desc [of rows] o by simp
    moreover have "h \<in> set rows" using perm o by (metis list.set_intros(1))
    ultimately show False using assms(2) \<open>h \<noteq> r\<close> by force
  qed
  then show ?thesis using o assms(3) by (cases n) simp_all
qed

lemma get_after_put:
  assumes "\<And>q. q \<in> set (rs_rows s) \<Longrightarrow> rr_created_at q < now"
  shows "rs_get (rs_put order ser now s key reasoning message) key = Some reasoning"
proof -
  let ?r = "\<lparr>rr_key = key, rr_reasoning = reasoning, rr_message_json = ser message, rr_created_at = now\<rparr>"
  let ?rows = "upsert_row ?r (rs_rows s)"
  have old: "q = ?r \<or> rr_key q \<noteq> key \<and> rr_created_at q < now" if "q \<in> set ?rows" for q
    using that assms by (auto simp: upsert_row_def)
  define aged where "aged = prune_age now (max_age_seconds s) ?rows"
  have aged: "?r \<in> set aged" "set aged \<subseteq> set ?rows"
    by (auto simp: aged_def prune_age_def upsert_row_def split: option.splits)
  let ?out = "rs_rows (rs_put order ser now s key reasoning message)"
  have out: "?out = prune_count order (max_rows s) aged"
    by (simp add: rs_put_def prune_locked_def aged_def)
  have taken: "?r \<in> set (take n (order aged))" if "0 < n" for n
  proof (rule newest_taken [OF aged(1) _ that])
    fix q assume "q \<in> set aged" "q \<noteq> ?r"
    then show "rr_created_at q < rr_created_at ?r" using old aged(2) by auto
  qed
  have r: "?r \<in> set ?out" "set ?out \<subseteq> set ?rows"
  proof -
    show "set ?out \<subseteq> set ?rows"
      using aged(2) unfolding out prune_count_def by (auto split: option.splits if_splits)
    show "?r \<in> set ?out"
    proof (cases "max_rows s")
      case (Some n)
      then show ?thesis using aged(1) imageI [OF taken, of n rr_key] unfolding out prune_count_def
        by (cases "0 < n") simp_all
    qed (use aged(1) in \<open>simp add: out prune_count_def\<close>)
  qed
  have "List.find (\<lambda>q. rr_key q = key) ?out = Some ?r"
  proof (cases "List.find (\<lambda>q. rr_key q = key) ?out")
    case None
    then show ?thesis using r(1) by (auto simp: find_None_iff)
  next
    case (Some q)
    then have q: "q \<in> set ?out" "rr_key q = key" by (auto simp: find_Some_iff)
    have "q \<in> set ?rows" by (rule subsetD [OF r(2) q(1)])
    then have "q = ?r" using old [of q] q(2) by simp
    then show ?thesis using Some by simp
  qed
  then show ?thesis by (simp add: rs_get_def)
qed

lemma prune_bound:
  assumes "max_rows s = Some n" "0 < n" "distinct (map rr_key (rs_rows s))"
  shows "length (rs_rows (prune_locked order now s)) \<le> n"
proof -
  define aged where "aged = prune_age now (max_age_seconds s) (rs_rows s)"
  have d: "distinct (map rr_key aged)"
    using assms(3) by (auto simp: aged_def prune_age_def distinct_map_filter split: option.split)
  let ?K = "rr_key ` set (take n (order aged))"
  have "length (filter (\<lambda>r. rr_key r \<in> ?K) aged) = card (set (map rr_key (filter (\<lambda>r. rr_key r \<in> ?K) aged)))"
    using distinct_card [OF distinct_map_filter [OF d]] by (metis length_map)
  also have "\<dots> \<le> card ?K" by (rule card_mono) auto
  also have "\<dots> \<le> length (take n (order aged))"
    by (metis card_image_le card_length dual_order.trans finite_set)
  also have "\<dots> \<le> n" by simp
  finally show ?thesis using assms by (simp add: prune_locked_def prune_count_def aged_def)
qed

end

definition sort_newest :: newest_first where
  \<comment> \<open>one of the orders ORDER BY may produce: ties in table order\<close>
  "sort_newest rows = sort_key (\<lambda>r. - rr_created_at r) rows"

interpretation newest: newest_first_order sort_newest
proof
  fix rows
  show "set (sort_newest rows) = set rows" "length (sort_newest rows) = length rows"
    by (simp_all add: sort_newest_def)
  have "sorted (map (\<lambda>r. - rr_created_at r) (sort_newest rows))" by (simp add: sort_newest_def)
  then show "sorted_wrt (\<lambda>a b. rr_created_at b \<le> rr_created_at a) (sort_newest rows)"
    by (simp add: sorted_map)
qed

text \<open>
  A reasoning text is found again under its key right after it was stored, whatever the limits
  on age and rows delete, as long as the clock has moved since the stored rows were written.
\<close>
theorem stored_reasoning_found:
  assumes "list_all (\<lambda>q. rr_created_at q < now) (rs_rows s)"
  shows "rs_get (rs_put sort_newest ser now s key reasoning message) key = Some reasoning"
  by (rule newest.get_after_put) (use assms in \<open>simp add: list_all_iff\<close>)

theorem stored_reasoning_found_witness:
  "rs_get (rs_put sort_newest (\<lambda>_. []) 9
     \<lparr>rs_rows = [\<lparr>rr_key = ''a'', rr_reasoning = ''x'', rr_message_json = [], rr_created_at = 1\<rparr>],
      max_age_seconds = Some 3, max_rows = Some 1\<rparr> ''b'' ''y'' JNull) ''b'' = Some ''y''"
  by (rule stored_reasoning_found) simp

lemma reasoning_rows_bounded:
  "max_rows s = Some n \<Longrightarrow> 0 < n \<Longrightarrow> distinct (map rr_key (rs_rows s)) \<Longrightarrow>
   length (rs_rows (prune_locked sort_newest now s)) \<le> n"
  by (rule newest.prune_bound)

end
