(* ===== verification/SessionStore.thy ===== *)
theory SessionStore
  imports ReasoningKeys
begin

text \<open>
  The MiMo session store (\<^verbatim>\<open>src/crates/crab-proxy/src/session_store.rs\<close>): merging a stored
  history with the client's, capping and shrinking it, and what a request does with it. What Redis
  returns for the session's key is an argument; a write is part of the result. Text is bytes.
\<close>

section \<open>Merging\<close>

datatype session_merge_error = PrefixBreak

record session_entry =
  se_messages :: "json list"
  turn_seq :: nat
  se_prefix_sig :: string
  updated_at :: nat

definition PERSIST_TAIL_CAP :: nat where
  "PERSIST_TAIL_CAP = 48"

definition TAIL_ANCHOR_LEN :: nat where
  "TAIL_ANCHOR_LEN = 4"

definition LONG_SESSION_SKIP_MERGE :: nat where
  "LONG_SESSION_SKIP_MERGE = 96"

definition session_redis_key :: "string option \<Rightarrow> string \<Rightarrow> string" where
  "session_redis_key namespace stable_session_id =
     (let ns = (case namespace of Some n \<Rightarrow> if n \<noteq> [] then n else ''default'' | None \<Rightarrow> ''default'')
      in ''crab:session:'' @ ns @ '':'' @ stable_session_id)"

definition is_ephemeral_session_system :: "json \<Rightarrow> bool" where
  "is_ephemeral_session_system m \<longleftrightarrow>
     has_role ''system'' m \<and>
     (case json_get_str m ''content'' of Some s \<Rightarrow> str_contains s ''[crabcache]'' | None \<Rightarrow> False)"

definition strip_ephemeral_for_merge :: "json list \<Rightarrow> json list" where
  "strip_ephemeral_for_merge ms = filter (\<lambda>m. \<not> is_ephemeral_session_system m) ms"

type_synonym signature = "json \<Rightarrow> string"

definition messages_match :: "signature \<Rightarrow> json list \<Rightarrow> json list \<Rightarrow> bool" where
  "messages_match sig stored client_slice =
     (let a = strip_ephemeral_for_merge stored; b = strip_ephemeral_for_merge client_slice
      in length a = length b \<and> list_all (\<lambda>(x, y). sig x = sig y) (zip a b))"

definition try_tail_anchor_merge :: "signature \<Rightarrow> json list \<Rightarrow> json list \<Rightarrow> json list option" where
  "try_tail_anchor_merge sig stored client =
     (let n = max (min (min (length stored) (length client)) TAIL_ANCHOR_LEN) 1 in
      if length stored < n \<or> length client < n then None
      else if messages_match sig (drop (length stored - n) stored) (drop (length client - n) client)
      then Some client else None)"

definition merge_messages :: "signature \<Rightarrow> json list \<Rightarrow> json list \<Rightarrow> session_merge_error + json list" where
  "merge_messages sig stored client =
     (if stored = [] then Inr client
      else if length client \<ge> length stored \<and> messages_match sig stored (take (length stored) client)
      then Inr (stored @ drop (length stored) client)
      else if length client \<ge> length stored \<and>
              list_ex (\<lambda>offset. messages_match sig stored (take (length stored) (drop offset client)))
                (rev [0..<Suc (length client - length stored)])
      then Inr client
      else case try_tail_anchor_merge sig stored client of
             Some merged \<Rightarrow> Inr merged
           | None \<Rightarrow> Inl PrefixBreak)"

definition prefix_sig :: "signature \<Rightarrow> json list \<Rightarrow> string" where
  "prefix_sig sig ms = (if ms = [] then [] else sig (List.last ms))"

section \<open>Shrinking\<close>

definition cap_messages :: "json list \<Rightarrow> nat \<Rightarrow> json list" where
  "cap_messages messages max_messages =
     (if max_messages = 0 \<or> length messages \<le> max_messages then messages
      else (let system = filter (has_role ''system'') messages;
                non_system = filter (\<lambda>m. \<not> has_role ''system'' m) messages;
                keep = max_messages - length system;
                start = length non_system - keep
            in system @ drop start non_system))"

definition shrink_messages_for_upstream ::
    "(json \<Rightarrow> string) \<Rightarrow> json list \<Rightarrow> bool \<Rightarrow> nat \<Rightarrow> nat \<Rightarrow> json list option" where
  "shrink_messages_for_upstream ser messages retire_prefix keep_recent_turns max_messages =
     (if retire_prefix \<and> keep_recent_turns > 0
      then map_option (\<lambda>(trimmed, _, _). cap_messages trimmed max_messages)
             (retire_prefix_messages_by_turns ser messages keep_recent_turns)
      else Some (cap_messages messages max_messages))"

definition truncate_tool_message :: "nat \<Rightarrow> json \<Rightarrow> json" where
  "truncate_tool_message max_chars m =
     (if \<not> has_role ''tool'' m then m
      else case json_get_str m ''content'' of
             None \<Rightarrow> m
           | Some text \<Rightarrow>
               if length text \<le> max_chars then m
               else json_insert m ''content''
                 (JStr (take max_chars text @ ''... [crabcache: '' @ show_nat (length text - max_chars) @
                        '' chars truncated for upstream]'')))"

definition truncate_oversized_tool_content :: "json list \<Rightarrow> nat \<Rightarrow> json list" where
  "truncate_oversized_tool_content ms max_chars =
     (if max_chars = 0 then ms else map (truncate_tool_message max_chars) ms)"

definition prepare_mimo_upstream_messages ::
    "(json \<Rightarrow> string) \<Rightarrow> json list \<Rightarrow> nat \<Rightarrow> json list option" where
  \<comment> \<open>None is the panic of the retirement\<close>
  "prepare_mimo_upstream_messages ser messages keep_recent_turns =
     map_option (\<lambda>(trimmed, _, _).
         truncate_oversized_tool_content (sanitize_tool_message_chain trimmed) 32768)
       (retire_prefix_messages_by_turns ser messages keep_recent_turns)"

section \<open>A request\<close>

record session_features =
  mimo_session_store :: bool
  mimo_keep_recent_turns :: nat
  mimo_session_store_max_messages :: nat

record session_ctx =
  session_upstream_messages_len :: "nat option"
  session_store_outcome :: "string option"
  session_persist_base :: "json list option"
  session_store_redis_key :: "string option"
  parsed_request_payload :: json

definition set_upstream_messages :: "session_ctx \<Rightarrow> json list \<Rightarrow> session_ctx" where
  "set_upstream_messages ctx upstream =
     ctx\<lparr>session_upstream_messages_len := Some (length upstream),
         parsed_request_payload := json_insert (parsed_request_payload ctx) ''messages'' (JArr upstream)\<rparr>"

definition session_persist ::
    "signature \<Rightarrow> nat \<Rightarrow> json list \<Rightarrow> string option \<Rightarrow> nat \<Rightarrow> session_entry" where
  \<comment> \<open>the entry that the spawned task writes\<close>
  "session_persist sig now base assistant_content max_messages =
     (let msgs = cap_messages
            (base @ (case assistant_content of
                       Some c \<Rightarrow> if c \<noteq> [] then [JObj [(''content'', JStr c), (''role'', JStr ''assistant'')]]
                                else []
                     | None \<Rightarrow> [])) max_messages
      in \<lparr>se_messages = msgs, turn_seq = length msgs, se_prefix_sig = prefix_sig sig msgs, updated_at = now\<rparr>)"

definition finish_len :: "session_ctx \<Rightarrow> session_ctx" where
  \<comment> \<open>the length falls back to that of the history kept for persisting\<close>
  "finish_len ctx =
     ctx\<lparr>session_upstream_messages_len :=
           (case session_upstream_messages_len ctx of
              Some n \<Rightarrow> Some n
            | None \<Rightarrow> map_option length (session_persist_base ctx))\<rparr>"

definition apply_mimo_session_store ::
    "signature \<Rightarrow> (json \<Rightarrow> string) \<Rightarrow> nat \<Rightarrow> (string \<Rightarrow> session_entry option) \<Rightarrow> session_features \<Rightarrow>
     session_ctx \<Rightarrow> string option \<Rightarrow> string option \<Rightarrow>
     (session_ctx \<times> (string \<times> session_entry) option) option" where
  \<comment> \<open>None is a panic; the second component is the entry written to Redis, if any\<close>
  "apply_mimo_session_store sig ser now get features ctx stable_session namespace =
     (if \<not> mimo_session_store features then Some (ctx, None)
      else case map_option trim stable_session of
        None \<Rightarrow> Some (ctx, None)
      | Some session_id \<Rightarrow>
          if session_id = [] then Some (ctx, None)
          else case Option.bind (json_get (parsed_request_payload ctx) ''messages'') as_array of
            None \<Rightarrow> Some (ctx, None)
          | Some client \<Rightarrow>
              (let key = session_redis_key namespace session_id;
                   keep = mimo_keep_recent_turns features;
                   tail = cap_messages client PERSIST_TAIL_CAP;
                   reseed = (\<lambda>outcome up.
                     (set_upstream_messages ctx up)\<lparr>session_store_outcome := Some outcome,
                        session_persist_base := Some tail, session_store_redis_key := Some key\<rparr>);
                   written = session_persist sig now tail None (mimo_session_store_max_messages features)
               in if length client > LONG_SESSION_SKIP_MERGE
                  then map_option (\<lambda>up. (reseed ''long'' up, Some (key, written)))
                         (prepare_mimo_upstream_messages ser client keep)
                  else case get key of
                    None \<Rightarrow>
                      (let ctx1 = ctx\<lparr>session_store_outcome := Some ''miss'',
                             session_persist_base := Some client, session_store_redis_key := Some key\<rparr>
                       in if length client > sat_mul 64 keep 8
                          then map_option (\<lambda>up. (finish_len (set_upstream_messages ctx1 up), None))
                                 (prepare_mimo_upstream_messages ser client keep)
                          else Some (finish_len ctx1, None))
                  | Some entry \<Rightarrow>
                      (case merge_messages sig (se_messages entry) client of
                         Inr merged \<Rightarrow>
                           map_option (\<lambda>up. (finish_len ((set_upstream_messages ctx up)
                                \<lparr>session_store_outcome := Some ''hit'',
                                 session_persist_base := Some merged, session_store_redis_key := Some key\<rparr>), None))
                             (if length merged > LONG_SESSION_SKIP_MERGE
                              then prepare_mimo_upstream_messages ser merged keep
                              else Some (sanitize_tool_message_chain merged))
                       | Inl PrefixBreak \<Rightarrow>
                           map_option (\<lambda>up. (finish_len (reseed ''break'' up), Some (key, written)))
                             (prepare_mimo_upstream_messages ser client keep))))"

section \<open>Laws\<close>

lemma take_drop_window: "offset \<le> length client - n \<Longrightarrow> n \<le> length client \<Longrightarrow>
   length (take n (drop offset client)) = n"
  by simp

text \<open>
  A merge never makes a history longer or shorter than what the client sent, and what it returns
  is the client's history, or the stored one continued by the client's when the client's beginning
  has the stored signatures.
\<close>
theorem merge_keeps_client_length:
  assumes "merge_messages sig stored client = Inr merged"
  shows "length merged = length client \<and>
    (merged = client \<or>
     merged = stored @ drop (length stored) client \<and>
     messages_match sig stored (take (length stored) client))"
  using assms by (auto simp: merge_messages_def try_tail_anchor_merge_def Let_def
      split: if_splits option.splits)

theorem merge_keeps_client_length_witness:
  "length [JInt 1, JInt 2] = length [JInt 1, JInt 2] \<and>
   merge_messages (\<lambda>_. ''s'') [JInt 1] [JInt 1, JInt 2] = Inr [JInt 1, JInt 2]"
proof -
  have "merge_messages (\<lambda>_. ''s'') [JInt 1] [JInt 1, JInt 2] = Inr [JInt 1, JInt 2]" by code_simp
  then show ?thesis using merge_keeps_client_length by blast
qed

lemma filter_partition_length:
  "length (filter P xs) + length (filter (\<lambda>x. \<not> P x) xs) = length xs"
  by (rule sum_length_filter_compl)

text \<open>
  Capping a history keeps every system message and the most recent other ones; the cap holds
  unless the system messages alone exceed it.
\<close>
theorem cap_messages_bound:
  "length (cap_messages ms n) \<le> (if n = 0 then length ms
     else max n (length (filter (has_role ''system'') ms))) \<and>
   filter (has_role ''system'') (cap_messages ms n) = filter (has_role ''system'') ms \<and>
   (\<exists>k. filter (\<lambda>m. \<not> has_role ''system'' m) (cap_messages ms n) =
        drop k (filter (\<lambda>m. \<not> has_role ''system'' m) ms))"
proof (cases "n = 0 \<or> length ms \<le> n")
  case True
  then show ?thesis by (auto simp: cap_messages_def intro: exI [of _ 0])
next
  case False
  let ?sys = "filter (has_role ''system'') ms" and ?rest = "filter (\<lambda>m. \<not> has_role ''system'' m) ms"
  let ?k = "length ?rest - (n - length ?sys)"
  have c: "cap_messages ms n = ?sys @ drop ?k ?rest"
    using False by (simp add: cap_messages_def Let_def)
  have ns: "filter (has_role ''system'') (drop ?k ?rest) = []"
    by (auto simp: filter_empty_conv dest: in_set_dropD)
  have nr: "filter (\<lambda>m. \<not> has_role ''system'' m) (drop ?k ?rest) = drop ?k ?rest"
    by (auto simp: filter_id_conv dest: in_set_dropD)
  have "length ?sys + length ?rest = length ms" by (rule filter_partition_length)
  then have "length (cap_messages ms n) \<le> max n (length ?sys)" using False unfolding c by simp
  moreover have "filter (\<lambda>m. \<not> has_role ''system'' m) ?sys = []" by (simp add: filter_empty_conv)
  ultimately show ?thesis using False ns nr unfolding c by (auto intro: exI [of _ ?k])
qed

text \<open>
  With the session store on and no turn to keep, a first request whose history starts with a
  user message brings the request handler down: the retirement is called without the guard on the
  number of turns and panics.
\<close>
theorem session_store_panics_without_turns:
  assumes "mimo_session_store features" and "mimo_keep_recent_turns features = 0"
    and "json_get (parsed_request_payload ctx) ''messages'' = Some (JArr (m # ms))"
    and "has_role ''user'' m" and "session = Some sid" and "trim sid \<noteq> []"
    and "get (session_redis_key namespace (trim sid)) = None"
  shows "apply_mimo_session_store sig ser now get features ctx session namespace = None"
proof -
  have "\<not> has_role ''system'' m" using assms(4) by (simp add: has_role_def)
  moreover have "positions (has_role ''user'') (m # ms) \<noteq> []"
    using assms(4) length_positions [of "has_role ''user''" "m # ms"] by auto
  ultimately have "prepare_mimo_upstream_messages ser (m # ms) 0 = None"
    by (simp add: prepare_mimo_upstream_messages_def retire_prefix_messages_by_turns_def Let_def)
  then show ?thesis using assms by (simp add: apply_mimo_session_store_def Let_def sat_mul_def)
qed

theorem session_store_panics_without_turns_witness:
  "apply_mimo_session_store (\<lambda>_. []) (\<lambda>_. []) 0 (\<lambda>_. None)
     \<lparr>mimo_session_store = True, mimo_keep_recent_turns = 0, mimo_session_store_max_messages = 10\<rparr>
     \<lparr>session_upstream_messages_len = None, session_store_outcome = None, session_persist_base = None,
      session_store_redis_key = None,
      parsed_request_payload = JObj [(''messages'', JArr [JObj [(''role'', JStr ''user'')]])]\<rparr>
     (Some ''s'') None = None"
proof -
  have "trim ''s'' \<noteq> []" by code_simp
  then show ?thesis
    by (intro session_store_panics_without_turns [where m = "JObj [(''role'', JStr ''user'')]"
          and ms = "[]" and sid = "''s''"]) (simp_all add: has_role_def json_get_str_def)
qed

end
