(* ===== verification/StreamAccumulator.thy ===== *)
theory StreamAccumulator
  imports ReasoningKeys
begin

text \<open>
  The accumulator that rebuilds the assistant's messages from a stream of deltas and files their
  reasoning (\<^verbatim>\<open>src/crates/crab-reasoning/src/streaming.rs\<close>), and the reasoning backend it
  files it in (\<^verbatim>\<open>backend.rs\<close>). The backend is its \<open>put\<close> and \<open>get\<close>: SQLite,
  Redis and PostgreSQL share everything else. The locale \<open>reasoning_backend\<close> states what is
  expected of them; the SQLite table without limits is an interpretation.
\<close>

section \<open>The backend\<close>

type_synonym 'b backend_put = "'b \<Rightarrow> string \<Rightarrow> string \<Rightarrow> json \<Rightarrow> 'b"
type_synonym 'b backend_get = "'b \<Rightarrow> string \<Rightarrow> string option"

definition backend_keys ::
    "(string \<Rightarrow> string) \<Rightarrow> (json \<Rightarrow> string) \<Rightarrow> json \<Rightarrow> string \<Rightarrow> string \<Rightarrow> json list \<Rightarrow> string list" where
  "backend_keys sha ser message scope cache_namespace prior =
     scoped_reasoning_keys sha ser message scope @
     (if prior \<noteq> [] then portable_reasoning_keys sha ser message cache_namespace prior else [])"

definition be_store_assistant_message ::
    "'b backend_put \<Rightarrow> (string \<Rightarrow> string) \<Rightarrow> (json \<Rightarrow> string) \<Rightarrow> 'b \<Rightarrow> json \<Rightarrow> string \<Rightarrow> string \<Rightarrow>
     json list \<Rightarrow> 'b \<times> nat" where
  "be_store_assistant_message put sha ser b message scope cache_namespace prior =
     (if json_get_str message ''role'' \<noteq> Some ''assistant'' then (b, 0)
      else case json_get_str message ''reasoning_content'' of
             None \<Rightarrow> (b, 0)
           | Some reasoning \<Rightarrow>
               (let keys = remdups_adj (backend_keys sha ser message scope cache_namespace prior)
                in (foldl (\<lambda>st k. put st k reasoning message) b keys, length keys)))"

fun first_hit :: "'b backend_get \<Rightarrow> 'b \<Rightarrow> string list \<Rightarrow> string option" where
  "first_hit get b [] = None"
| "first_hit get b (k # ks) = (case get b k of Some r \<Rightarrow> Some r | None \<Rightarrow> first_hit get b ks)"

definition be_lookup_for_message ::
    "'b backend_get \<Rightarrow> (string \<Rightarrow> string) \<Rightarrow> (json \<Rightarrow> string) \<Rightarrow> 'b \<Rightarrow> json \<Rightarrow> string \<Rightarrow> string \<Rightarrow>
     json list \<Rightarrow> string option" where
  "be_lookup_for_message get sha ser b message scope cache_namespace prior =
     first_hit get b (backend_keys sha ser message scope cache_namespace prior)"

definition be_backfill_portable_aliases ::
    "'b backend_put \<Rightarrow> (string \<Rightarrow> string) \<Rightarrow> (json \<Rightarrow> string) \<Rightarrow> 'b \<Rightarrow> json \<Rightarrow> string \<Rightarrow> string \<Rightarrow>
     json list \<Rightarrow> 'b \<times> nat" where
  "be_backfill_portable_aliases put sha ser b message reasoning cache_namespace prior =
     (let keys = portable_reasoning_keys sha ser message cache_namespace prior in
      if keys = [] then (b, 0)
      else (let unique = remdups_adj keys;
                m = json_insert message ''reasoning_content'' (JStr reasoning)
            in (foldl (\<lambda>st k. put st k reasoning m) b unique, length unique)))"

section \<open>Choices\<close>

record streaming_choice =
  sc_role :: string
  sc_content :: string
  sc_reasoning_content :: string
  sc_has_reasoning_content :: bool
  sc_tool_calls :: "json list"
  sc_finish_reason :: "string option"

definition default_choice :: streaming_choice where
  "default_choice =
     \<lparr>sc_role = [], sc_content = [], sc_reasoning_content = [], sc_has_reasoning_content = False,
      sc_tool_calls = [], sc_finish_reason = None\<rparr>"

definition to_message :: "streaming_choice \<Rightarrow> json" where
  \<comment> \<open>the map is ordered by its keys\<close>
  "to_message c =
     JObj ([(''content'', JStr (sc_content c))] @
           (if sc_has_reasoning_content c then [(''reasoning_content'', JStr (sc_reasoning_content c))] else []) @
           [(''role'', JStr (if sc_role c = [] then ''assistant'' else sc_role c))] @
           (if sc_tool_calls c \<noteq> [] then [(''tool_calls'', JArr (sc_tool_calls c))] else []))"

record stream_accumulator =
  acc_choices :: "(nat, streaming_choice) hmap"
  acc_stored_choices :: "(nat \<times> string, string) hmap"

definition acc_new :: stream_accumulator where
  "acc_new = \<lparr>acc_choices = [], acc_stored_choices = []\<rparr>"

section \<open>Ingesting a chunk\<close>

definition str_or_empty :: "json \<Rightarrow> string \<Rightarrow> string" where
  \<comment> \<open>\<open>v.get(k).and_then(|x| x.as_str()).unwrap_or("")\<close>\<close>
  "str_or_empty v k = (case json_get_str v k of Some s \<Rightarrow> s | None \<Rightarrow> [])"

definition empty_function :: json where
  "empty_function = JObj [(''arguments'', JStr []), (''name'', JStr [])]"

definition empty_tool_call :: json where
  "empty_tool_call = JObj [(''function'', empty_function), (''type'', JStr ''function'')]"

definition merge_function_name :: "json \<Rightarrow> json \<Rightarrow> json" where
  "merge_function_name func func_delta =
     (case json_get_str func_delta ''name'' of
        Some name \<Rightarrow>
          (let existing = str_or_empty func ''name''
           in json_insert func ''name'' (JStr (if existing = [] then name else existing @ name)))
      | None \<Rightarrow> func)"

definition merge_function_arguments :: "json \<Rightarrow> json \<Rightarrow> json" where
  "merge_function_arguments func func_delta =
     (case json_get func_delta ''arguments'' of
        Some args \<Rightarrow>
          (let existing = str_or_empty func ''arguments'';
               new_args = (case as_str args of Some s \<Rightarrow> s | None \<Rightarrow> [])
           in json_insert func ''arguments'' (JStr (existing @ new_args)))
      | None \<Rightarrow> func)"

definition copy_field :: "string \<Rightarrow> json \<Rightarrow> json \<Rightarrow> json" where
  \<comment> \<open>\<open>if let Some(x) = delta.get(k) { tc.insert(k, x.clone()) }\<close>\<close>
  "copy_field k delta tc = (case json_get delta k of Some x \<Rightarrow> json_insert tc k x | None \<Rightarrow> tc)"

definition merge_tool_call :: "json \<Rightarrow> json \<Rightarrow> json" where
  "merge_tool_call tc raw_delta =
     (let tc = copy_field ''type'' raw_delta (copy_field ''id'' raw_delta tc)
      in case json_get raw_delta ''function'' of
           Some func_delta \<Rightarrow>
             (let func = get_or tc ''function'' empty_function
              in json_insert tc ''function''
                   (if is_object func
                    then merge_function_arguments (merge_function_name func func_delta) func_delta
                    else func))
         | None \<Rightarrow> tc)"

definition u64_or :: "json \<Rightarrow> string \<Rightarrow> nat \<Rightarrow> nat" where
  \<comment> \<open>\<open>v.get(k).and_then(|i| i.as_u64()).unwrap_or(d) as usize\<close>, a 64-bit platform\<close>
  "u64_or v k d = (case Option.bind (json_get v k) as_u64 of Some n \<Rightarrow> n | None \<Rightarrow> d)"

definition pad_calls :: "json list \<Rightarrow> nat \<Rightarrow> json list" where
  \<comment> \<open>\<open>while tool_calls.len() <= i { push(empty) }\<close>\<close>
  "pad_calls tcs i = tcs @ replicate (Suc i - length tcs) empty_tool_call"

definition ingest_tool_call :: "json list \<Rightarrow> json \<Rightarrow> json list" where
  "ingest_tool_call tcs raw_delta =
     (if \<not> is_object raw_delta then tcs
      else (let i = u64_or raw_delta ''index'' (length tcs);
                tcs = pad_calls tcs i
            in tcs[i := merge_tool_call (tcs ! i) raw_delta]))"

definition ingest_delta :: "streaming_choice \<Rightarrow> json \<Rightarrow> streaming_choice" where
  "ingest_delta c delta =
     (let c = (case json_get_str delta ''role'' of Some r \<Rightarrow> c\<lparr>sc_role := r\<rparr> | None \<Rightarrow> c);
          c = (case json_get_str delta ''content'' of
                 Some t \<Rightarrow> c\<lparr>sc_content := sc_content c @ t\<rparr> | None \<Rightarrow> c);
          c = (case json_get_str delta ''reasoning_content'' of
                 Some t \<Rightarrow> c\<lparr>sc_has_reasoning_content := True,
                            sc_reasoning_content := sc_reasoning_content c @ t\<rparr>
               | None \<Rightarrow> c)
      in case Option.bind (json_get delta ''tool_calls'') as_array of
           Some tcs \<Rightarrow> c\<lparr>sc_tool_calls := foldl ingest_tool_call (sc_tool_calls c) tcs\<rparr>
         | None \<Rightarrow> c)"

definition ingest_choice_into :: "json \<Rightarrow> streaming_choice \<Rightarrow> streaming_choice" where
  "ingest_choice_into raw_choice c =
     (let c = (case json_get_str raw_choice ''finish_reason'' of
                 Some fr \<Rightarrow> c\<lparr>sc_finish_reason := Some fr\<rparr> | None \<Rightarrow> c)
      in case json_get raw_choice ''delta'' of
           Some d \<Rightarrow> if is_object d then ingest_delta c d else c
         | None \<Rightarrow> c)"

definition ingest_choice :: "(nat, streaming_choice) hmap \<Rightarrow> json \<Rightarrow> (nat, streaming_choice) hmap" where
  "ingest_choice m raw_choice =
     (if \<not> is_object raw_choice then m
      else hm_insert m (u64_or raw_choice ''index'' 0)
             (ingest_choice_into raw_choice
                (case hm_get m (u64_or raw_choice ''index'' 0) of Some c \<Rightarrow> c | None \<Rightarrow> default_choice)))"

definition choices_of :: "json \<Rightarrow> json list option" where
  \<comment> \<open>\<open>v.get("choices").and_then(|c| c.as_array())\<close>\<close>
  "choices_of v = Option.bind (json_get v ''choices'') as_array"

definition ingest_chunk :: "stream_accumulator \<Rightarrow> json \<Rightarrow> stream_accumulator" where
  "ingest_chunk acc chunk =
     (case choices_of chunk of
        Some cs \<Rightarrow> acc\<lparr>acc_choices := foldl ingest_choice (acc_choices acc) cs\<rparr>
      | None \<Rightarrow> acc)"

definition acc_messages :: "stream_accumulator \<Rightarrow> json list" where
  "acc_messages acc = map (\<lambda>(_, c). to_message c) (sort_key fst (acc_choices acc))"

section \<open>Filing the reasoning\<close>

definition stage_rank :: "string \<Rightarrow> nat" where
  "stage_rank s = (if s = ''tool_call'' then 1 else if s = ''final'' then 2 else 0)"

definition has_identified_tool_calls :: "streaming_choice \<Rightarrow> bool" where
  "has_identified_tool_calls c =
     (if \<not> sc_has_reasoning_content c \<or> sc_tool_calls c = [] then False
      else list_all (\<lambda>tc. json_get tc ''id'' \<noteq> None) (sc_tool_calls c))"

definition stored_at_least :: "stream_accumulator \<Rightarrow> nat \<times> string \<Rightarrow> string \<Rightarrow> bool" where
  "stored_at_least acc k stage =
     (case hm_get (acc_stored_choices acc) k of
        Some previous \<Rightarrow> stage_rank stage \<le> stage_rank previous
      | None \<Rightarrow> False)"

definition store_at_stage ::
    "('b \<Rightarrow> json \<Rightarrow> 'b \<times> nat) \<Rightarrow> string \<Rightarrow> (nat \<Rightarrow> string option) \<Rightarrow>
     stream_accumulator \<times> 'b \<times> nat \<Rightarrow> nat \<times> json \<Rightarrow> stream_accumulator \<times> 'b \<times> nat" where
  \<comment> \<open>the body of the loops: skip a message that has no stage yet or was stored at this stage\<close>
  "store_at_stage file scope stage_of s im =
     (case s of (acc, b, stored) \<Rightarrow>
      case im of (index, msg) \<Rightarrow>
        (case stage_of index of
           None \<Rightarrow> (acc, b, stored)
         | Some stage \<Rightarrow>
             if stored_at_least acc (index, scope) stage then (acc, b, stored)
             else (case file b msg of (b', n) \<Rightarrow>
               (if 0 < n
                then acc\<lparr>acc_stored_choices := hm_insert (acc_stored_choices acc) (index, scope) stage\<rparr>
                else acc, b', stored + n))))"

definition store_reasoning ::
    "('b \<Rightarrow> json \<Rightarrow> 'b \<times> nat) \<Rightarrow> stream_accumulator \<Rightarrow> 'b \<Rightarrow> string \<Rightarrow> stream_accumulator \<times> 'b \<times> nat" where
  \<comment> \<open>\<open>file\<close> is \<open>store_assistant_message\<close> with scope, namespace and prior messages fixed\<close>
  "store_reasoning file acc b scope =
     foldl (store_at_stage file scope (\<lambda>_. Some ''final'')) (acc, b, 0) (enumerate 0 (acc_messages acc))"

definition ready_stage :: "stream_accumulator \<Rightarrow> nat \<Rightarrow> string option" where
  "ready_stage acc index =
     (case hm_get (acc_choices acc) index of
        None \<Rightarrow> None
      | Some c \<Rightarrow>
          if sc_finish_reason c \<noteq> None then Some ''final''
          else if has_identified_tool_calls c then Some ''tool_call''
          else None)"

definition store_ready_reasoning ::
    "('b \<Rightarrow> json \<Rightarrow> 'b \<times> nat) \<Rightarrow> stream_accumulator \<Rightarrow> 'b \<Rightarrow> string \<Rightarrow> stream_accumulator \<times> 'b \<times> nat" where
  "store_ready_reasoning file acc b scope =
     foldl (store_at_stage file scope (ready_stage acc)) (acc, b, 0) (enumerate 0 (acc_messages acc))"

section \<open>What a backend promises\<close>

lemma backend_keys_cong:
  assumes "json_get m ''content'' = json_get m' ''content''"
    and "json_get m ''tool_calls'' = json_get m' ''tool_calls''"
  shows "backend_keys sha ser m scope ns prior = backend_keys sha ser m' scope ns prior"
  using assms
  by (simp add: backend_keys_def scoped_reasoning_keys_def portable_reasoning_keys_def keys_under_def
      message_signature_def get_or_def object_calls_def tool_call_ids_def tool_call_names_def tool_calls_of_def)

lemma first_hit_first: "get b k = Some r \<Longrightarrow> first_hit get b (k # ks) = Some r"
  by simp

lemma backend_keys_Cons: "\<exists>k ks. backend_keys sha ser m scope ns prior = k # ks"
  by (simp add: backend_keys_def scoped_reasoning_keys_def keys_under_def)

locale reasoning_backend =
  fixes good :: "'b \<Rightarrow> bool" and put :: "'b backend_put" and get :: "'b backend_get"
  assumes good_put: "good b \<Longrightarrow> good (put b k r m)"
    and get_put: "good b \<Longrightarrow> get (put b k r m) k' = (if k' = k then Some r else get b k')"
begin

lemma get_put_all:
  "good b \<Longrightarrow> get (foldl (\<lambda>st k. put st k r m) b ks) k = (if k \<in> set ks then Some r else get b k)"
  by (induction ks arbitrary: b) (auto simp: good_put get_put)

lemma good_store: "good b \<Longrightarrow> good (fst (be_store_assistant_message put sha ser b m scope ns prior))"
proof -
  have "good b \<Longrightarrow> good (foldl (\<lambda>st k. put st k r m) b ks)" for r ks
    by (induction ks arbitrary: b) (auto simp: good_put)
  then show "good b \<Longrightarrow> good (fst (be_store_assistant_message put sha ser b m scope ns prior))"
    by (simp add: be_store_assistant_message_def Let_def split: option.split)
qed

lemma lookup_after_store:
  assumes "good b" "json_get_str m ''role'' = Some ''assistant''"
    and "json_get_str m ''reasoning_content'' = Some r"
    and "json_get m ''content'' = json_get m' ''content''"
    and "json_get m ''tool_calls'' = json_get m' ''tool_calls''"
  shows "be_lookup_for_message get sha ser
           (fst (be_store_assistant_message put sha ser b m scope ns prior)) m' scope ns prior = Some r"
proof -
  obtain k ks where k: "backend_keys sha ser m scope ns prior = k # ks" using backend_keys_Cons by blast
  let ?b = "fst (be_store_assistant_message put sha ser b m scope ns prior)"
  have "?b = foldl (\<lambda>st k. put st k r m) b (remdups_adj (k # ks))"
    using assms(2,3) k by (simp add: be_store_assistant_message_def Let_def)
  then have "get ?b k = Some r" using get_put_all [OF assms(1)] by simp
  then show ?thesis
    using backend_keys_cong [OF assms(4,5)] k by (simp add: be_lookup_for_message_def)
qed

end

definition unlimited :: "reasoning_store \<Rightarrow> bool" where
  "unlimited s \<longleftrightarrow> max_age_seconds s = None \<and> max_rows s = None"

lemma rs_put_unlimited:
  "unlimited s \<Longrightarrow> rs_put order ser now s k r m =
     s\<lparr>rs_rows := upsert_row \<lparr>rr_key = k, rr_reasoning = r, rr_message_json = ser m, rr_created_at = now\<rparr>
                    (rs_rows s)\<rparr>"
  by (simp add: unlimited_def rs_put_def prune_locked_def prune_age_def prune_count_def)

lemma find_upsert:
  "List.find (\<lambda>q. rr_key q = k) (upsert_row r rows) =
     (if k = rr_key r then Some r else List.find (\<lambda>q. rr_key q = k) rows)"
  unfolding upsert_row_def by (induction rows) auto

interpretation sqlite: reasoning_backend unlimited "rs_put sort_newest ser now" rs_get for ser now
proof
  fix b k r m k'
  assume b: "unlimited b"
  then show "unlimited (rs_put sort_newest ser now b k r m)"
    by (simp add: rs_put_unlimited) (simp add: unlimited_def)
  show "rs_get (rs_put sort_newest ser now b k r m) k' = (if k' = k then Some r else rs_get b k')"
    by (simp add: rs_put_unlimited [OF b] rs_get_def find_upsert)
qed

section \<open>What has been accumulated\<close>

definition raw_deltas :: "nat \<Rightarrow> json list \<Rightarrow> json list" where
  \<comment> \<open>the deltas that a list of choices has for one index\<close>
  "raw_deltas i cs = List.map_filter
       (\<lambda>rc. if is_object rc \<and> u64_or rc ''index'' 0 = i
             then (case json_get rc ''delta'' of Some d \<Rightarrow> if is_object d then Some d else None | None \<Rightarrow> None)
             else None) cs"

definition choice_deltas :: "nat \<Rightarrow> json \<Rightarrow> json list" where
  "choice_deltas i chunk = raw_deltas i (case choices_of chunk of Some cs \<Rightarrow> cs | None \<Rightarrow> [])"

definition delta_text :: "string \<Rightarrow> nat \<Rightarrow> json \<Rightarrow> string" where
  "delta_text field i chunk = concat (map (\<lambda>d. str_or_empty d field) (choice_deltas i chunk))"

definition choice_or_default :: "(nat, streaming_choice) hmap \<Rightarrow> nat \<Rightarrow> streaming_choice" where
  "choice_or_default m i = (case hm_get m i of Some c \<Rightarrow> c | None \<Rightarrow> default_choice)"

lemma ingest_delta_text:
  "sc_content (ingest_delta c d) = sc_content c @ str_or_empty d ''content''"
  "sc_reasoning_content (ingest_delta c d) = sc_reasoning_content c @ str_or_empty d ''reasoning_content''"
  by (simp_all add: ingest_delta_def str_or_empty_def Let_def split: option.split)

lemma ingest_choice_deltas:
  "sc_content (choice_or_default (ingest_choice m rc) i) =
     sc_content (choice_or_default m i) @ concat (map (\<lambda>d. str_or_empty d ''content'') (raw_deltas i [rc]))"
  "sc_reasoning_content (choice_or_default (ingest_choice m rc) i) =
     sc_reasoning_content (choice_or_default m i) @
     concat (map (\<lambda>d. str_or_empty d ''reasoning_content'') (raw_deltas i [rc]))"
  by (simp_all add: ingest_choice_def choice_or_default_def raw_deltas_def List.map_filter_def
      ingest_choice_into_def ingest_delta_text Let_def split: option.split)

lemma raw_deltas_Cons: "raw_deltas i (rc # cs) = raw_deltas i [rc] @ raw_deltas i cs"
  by (simp add: raw_deltas_def List.map_filter_def)

lemma ingest_choices_text:
  "sc_content (choice_or_default (foldl ingest_choice m cs) i) =
     sc_content (choice_or_default m i) @ concat (map (\<lambda>d. str_or_empty d ''content'') (raw_deltas i cs))"
  "sc_reasoning_content (choice_or_default (foldl ingest_choice m cs) i) =
     sc_reasoning_content (choice_or_default m i) @
     concat (map (\<lambda>d. str_or_empty d ''reasoning_content'') (raw_deltas i cs))"
proof (induction cs arbitrary: m)
  case Nil
  { case 1 show ?case by (simp add: raw_deltas_def List.map_filter_def) }
  { case 2 show ?case by (simp add: raw_deltas_def List.map_filter_def) }
next
  case (Cons rc cs)
  { case 1 show ?case using Cons(1) [of "ingest_choice m rc"] raw_deltas_Cons [of i rc cs]
      by (simp add: ingest_choice_deltas) }
  { case 2 show ?case using Cons(2) [of "ingest_choice m rc"] raw_deltas_Cons [of i rc cs]
      by (simp add: ingest_choice_deltas) }
qed

lemma ingest_chunk_text:
  "sc_content (choice_or_default (acc_choices (ingest_chunk acc chunk)) i) =
     sc_content (choice_or_default (acc_choices acc) i) @ delta_text ''content'' i chunk"
  "sc_reasoning_content (choice_or_default (acc_choices (ingest_chunk acc chunk)) i) =
     sc_reasoning_content (choice_or_default (acc_choices acc) i) @ delta_text ''reasoning_content'' i chunk"
  by (cases "choices_of chunk"; simp add: ingest_chunk_def ingest_choices_text delta_text_def
      choice_deltas_def raw_deltas_def List.map_filter_def)+

lemma ingest_chunks_text:
  "sc_content (choice_or_default (acc_choices (foldl ingest_chunk acc chunks)) i) =
     sc_content (choice_or_default (acc_choices acc) i) @ concat (map (delta_text ''content'' i) chunks)"
  "sc_reasoning_content (choice_or_default (acc_choices (foldl ingest_chunk acc chunks)) i) =
     sc_reasoning_content (choice_or_default (acc_choices acc) i) @
     concat (map (delta_text ''reasoning_content'' i) chunks)"
  by (induction chunks arbitrary: acc) (simp_all add: ingest_chunk_text)

text \<open>
  Whatever the chunks are, the text accumulated for a choice is the concatenation of its deltas
  in the order they arrived, and likewise its reasoning; chunks for other choices change nothing.
\<close>
theorem accumulated_text_is_concatenation:
  "case hm_get (acc_choices (foldl ingest_chunk acc_new chunks)) i of
     Some c \<Rightarrow> sc_content c = concat (map (delta_text ''content'' i) chunks) \<and>
               sc_reasoning_content c = concat (map (delta_text ''reasoning_content'' i) chunks)
   | None \<Rightarrow> concat (map (delta_text ''content'' i) chunks) = []"
  using ingest_chunks_text [of acc_new chunks i]
  by (auto simp: choice_or_default_def acc_new_def default_choice_def split: option.split)

section \<open>The accumulated tool calls\<close>

definition call_typed :: "json \<Rightarrow> bool" where
  \<comment> \<open>a tool call whose function has a string as its name and a string as its arguments\<close>
  "call_typed tc \<longleftrightarrow>
     (\<exists>f. json_get tc ''function'' = Some f \<and>
          json_get_str f ''name'' \<noteq> None \<and> json_get_str f ''arguments'' \<noteq> None)"

lemma is_object_insert [simp]: "is_object (json_insert v k w) = is_object v"
  by (cases v) (simp_all add: is_object_def)

lemma json_get_is_object: "json_get v k = Some w \<Longrightarrow> is_object v"
  by (cases v) (simp_all add: is_object_def)

lemma json_get_str_insert:
  "json_get_str (json_insert v k (JStr t)) l =
     (if l = k \<and> is_object v then Some t else json_get_str v l)"
  by (auto simp: json_get_str_def json_get_insert is_object_def)

lemma json_get_str_is_object: "json_get_str v k = Some w \<Longrightarrow> is_object v"
  by (auto simp: json_get_str_def bind_eq_Some_conv dest: json_get_is_object)

lemma merge_function_name_get:
  assumes "is_object f"
  shows "json_get_str (merge_function_name f fd) k =
    (if k = ''name'' \<and> json_get_str fd ''name'' \<noteq> None
     then Some (str_or_empty f ''name'' @ str_or_empty fd ''name'') else json_get_str f k)"
  using assms by (cases "json_get_str fd ''name''")
    (simp_all add: merge_function_name_def json_get_str_insert str_or_empty_def Let_def)

lemma merge_function_arguments_get:
  assumes "is_object f"
  shows "json_get_str (merge_function_arguments f fd) k =
    (if k = ''arguments'' \<and> json_get fd ''arguments'' \<noteq> None
     then Some (str_or_empty f ''arguments'' @ str_or_empty fd ''arguments'') else json_get_str f k)"
  using assms by (cases "json_get fd ''arguments''")
    (simp_all add: merge_function_arguments_def json_get_str_insert str_or_empty_def json_get_str_def [of fd] Let_def)

lemma merge_function_typed:
  assumes "json_get_str f k \<noteq> None"
  shows "json_get_str (merge_function_arguments (merge_function_name f fd) fd) k \<noteq> None"
proof -
  have f: "is_object f" using assms json_get_str_is_object by blast
  then have "is_object (merge_function_name f fd)"
    by (simp add: merge_function_name_def Let_def split: option.split)
  then show ?thesis using assms by (simp add: merge_function_arguments_get merge_function_name_get [OF f])
qed

lemma copy_field_function: "k \<noteq> ''function'' \<Longrightarrow> json_get (copy_field k d tc) ''function'' = json_get tc ''function''"
  by (simp add: copy_field_def json_get_insert split: option.split)

lemma merge_tool_call_typed:
  assumes "call_typed tc"
  shows "call_typed (merge_tool_call tc d)"
proof -
  obtain f where f: "json_get tc ''function'' = Some f" "json_get_str f ''name'' \<noteq> None"
    "json_get_str f ''arguments'' \<noteq> None" using assms by (auto simp: call_typed_def)
  let ?tc = "copy_field ''type'' d (copy_field ''id'' d tc)"
  have g: "json_get ?tc ''function'' = Some f" using f(1) by (simp add: copy_field_function)
  then have o: "as_object ?tc \<noteq> None" using json_get_is_object by (simp add: is_object_def)
  show ?thesis
  proof (cases "json_get d ''function''")
    case None
    then show ?thesis using f g by (simp add: merge_tool_call_def call_typed_def)
  next
    case (Some fd)
    have "is_object f" using f(2) json_get_str_is_object by blast
    then have "json_get (merge_tool_call tc d) ''function'' =
        Some (merge_function_arguments (merge_function_name f fd) fd)"
      using Some g o by (simp add: merge_tool_call_def Let_def get_or_def json_get_insert)
    then show ?thesis using merge_function_typed f(2,3) unfolding call_typed_def by blast
  qed
qed

lemma pad_calls_typed: "list_all call_typed tcs \<Longrightarrow> list_all call_typed (pad_calls tcs i)"
  by (auto simp: pad_calls_def list_all_iff call_typed_def empty_tool_call_def empty_function_def json_get_str_def)

lemma length_pad_calls [simp]: "length (pad_calls tcs i) = max (length tcs) (Suc i)"
  by (simp add: pad_calls_def)

lemma ingest_tool_call_typed: "list_all call_typed tcs \<Longrightarrow> list_all call_typed (ingest_tool_call tcs d)"
  using pad_calls_typed [of tcs "u64_or d ''index'' (length tcs)"]
  by (auto simp: ingest_tool_call_def Let_def list_all_length nth_list_update intro!: merge_tool_call_typed)

lemma ingest_delta_typed:
  assumes "list_all call_typed (sc_tool_calls c)"
  shows "list_all call_typed (sc_tool_calls (ingest_delta c d))"
proof -
  have "list_all call_typed tcs \<Longrightarrow> list_all call_typed (foldl ingest_tool_call tcs ds)" for tcs ds
    by (induction ds arbitrary: tcs) (auto intro: ingest_tool_call_typed)
  then show ?thesis using assms by (auto simp: ingest_delta_def Let_def split: option.split)
qed

lemma ingest_chunk_typed:
  assumes "\<And>i c. hm_get (acc_choices acc) i = Some c \<Longrightarrow> list_all call_typed (sc_tool_calls c)"
    and "hm_get (acc_choices (ingest_chunk acc chunk)) i = Some c"
  shows "list_all call_typed (sc_tool_calls c)"
proof -
  define ok where "ok m \<longleftrightarrow> (\<forall>i c. hm_get m i = Some c \<longrightarrow> list_all call_typed (sc_tool_calls c))"
    for m :: "(nat, streaming_choice) hmap"
  have into: "list_all call_typed (sc_tool_calls (ingest_choice_into rc c))"
    if "list_all call_typed (sc_tool_calls c)" for rc c
    using that by (auto simp: ingest_choice_into_def Let_def intro!: ingest_delta_typed split: option.split)
  have step: "ok (ingest_choice m rc)" if "ok m" for m rc
    using that by (auto simp: ok_def ingest_choice_def default_choice_def intro!: into split: option.split)
  have "ok (foldl ingest_choice m cs)" if "ok m" for m cs
    using that by (induction cs arbitrary: m) (auto intro: step)
  then have "ok (acc_choices (ingest_chunk acc chunk))"
    using assms(1) by (auto simp: ingest_chunk_def ok_def split: option.split)
  then show ?thesis using assms(2) by (simp add: ok_def)
qed

text \<open>
  Whatever an upstream sends, every accumulated tool call is an object with a function whose name
  and arguments are strings; calls skipped by an index are filled with empty ones.
\<close>
theorem accumulated_calls_typed:
  "pred_option (\<lambda>c. list_all call_typed (sc_tool_calls c))
     (hm_get (acc_choices (foldl ingest_chunk acc_new chunks)) i)"
proof -
  have "list_all call_typed (sc_tool_calls c)"
    if "hm_get (acc_choices (foldl ingest_chunk acc_new chunks)) i = Some c" for i c
    using that
  proof (induction chunks arbitrary: i c rule: rev_induct)
    case (snoc chunk chunks)
    show ?case by (rule ingest_chunk_typed [OF snoc.IH]) (use snoc.prems in simp_all)
  qed (simp add: acc_new_def)
  then show ?thesis by (cases "hm_get (acc_choices (foldl ingest_chunk acc_new chunks)) i") simp_all
qed

section \<open>From the stream to the next request\<close>

lemma json_get_to_message:
  "json_get_str (to_message c) ''role'' = Some (if sc_role c = [] then ''assistant'' else sc_role c)"
  "json_get (to_message c) ''content'' = Some (JStr (sc_content c))"
  "json_get_str (to_message c) ''reasoning_content'' =
     (if sc_has_reasoning_content c then Some (sc_reasoning_content c) else None)"
  by (simp_all add: to_message_def json_get_str_def)

lemma single_choice_messages:
  assumes "length (acc_choices acc) = 1" "hm_get (acc_choices acc) i = Some c"
  shows "acc_messages acc = [to_message c]"
  using assms by (auto simp: acc_messages_def length_Suc_conv hm_get_def split: if_splits)

text \<open>
  C8. The reasoning of a streamed answer is found again for the next request: once a stream with one
  choice has been accumulated and filed in a store without limits, the lookup for a message that has
  the concatenated text and the same tool calls, but no reasoning, returns the concatenated
  reasoning, whatever the store held before.
\<close>
theorem streamed_reasoning_recovered:
  assumes "acc = foldl ingest_chunk acc_new chunks"
    and "length (acc_choices acc) = 1" and "hm_get (acc_choices acc) 0 = Some c"
    and "sc_has_reasoning_content c" and "sc_role c = [] \<or> sc_role c = ''assistant''"
    and "unlimited s"
    and "json_get client ''content'' = Some (JStr (concat (map (delta_text ''content'' 0) chunks)))"
    and "json_get client ''tool_calls'' = json_get (to_message c) ''tool_calls''"
    and "file = (\<lambda>b m. be_store_assistant_message (rs_put sort_newest ser now) sha ser b m scope ns prior)"
  shows "be_lookup_for_message rs_get sha ser (fst (snd (store_reasoning file acc s scope)))
           client scope ns prior =
         Some (concat (map (delta_text ''reasoning_content'' 0) chunks))"
proof -
  have texts: "sc_content c = concat (map (delta_text ''content'' 0) chunks)"
    "sc_reasoning_content c = concat (map (delta_text ''reasoning_content'' 0) chunks)"
    using ingest_chunks_text [of acc_new chunks 0] assms(1,3)
    by (simp_all add: choice_or_default_def acc_new_def default_choice_def)
  have stored: "acc_stored_choices (foldl ingest_chunk a chunks) = acc_stored_choices a" for a
    by (induction chunks arbitrary: a) (simp_all add: ingest_chunk_def split: option.split)
  then have "acc_stored_choices acc = []" using assms(1) by (simp add: acc_new_def)
  then have "fst (snd (store_reasoning file acc s scope)) = fst (file s (to_message c))"
    by (simp add: store_reasoning_def single_choice_messages [OF assms(2,3)] store_at_stage_def
        stored_at_least_def split: prod.split)
  then show ?thesis
    using sqlite.lookup_after_store [OF assms(6), of "to_message c" "sc_reasoning_content c" client]
      assms(4,5,7,8) texts by (auto simp: assms(9) json_get_to_message)
qed

theorem streamed_reasoning_recovered_witness:
  "be_lookup_for_message rs_get id (\<lambda>_. ''x'')
     (fst (snd (store_reasoning
        (\<lambda>b m. be_store_assistant_message (rs_put sort_newest (\<lambda>_. ''x'') 1) id (\<lambda>_. ''x'') b m ''s'' [] [])
        (foldl ingest_chunk acc_new
           [JObj [(''choices'', JArr [JObj [(''delta'', JObj [(''reasoning_content'', JStr ''r'')])]])],
            JObj [(''choices'', JArr [JObj [(''delta'', JObj [(''reasoning_content'', JStr ''s''),
                                                         (''content'', JStr ''a'')])]])]])
        \<lparr>rs_rows = [], max_age_seconds = None, max_rows = None\<rparr> ''s'')))
     (JObj [(''content'', JStr ''a'')]) ''s'' [] [] =
   Some (concat (map (delta_text ''reasoning_content'' 0)
           [JObj [(''choices'', JArr [JObj [(''delta'', JObj [(''reasoning_content'', JStr ''r'')])]])],
            JObj [(''choices'', JArr [JObj [(''delta'', JObj [(''reasoning_content'', JStr ''s''),
                                                         (''content'', JStr ''a'')])]])]]))"
  by (rule streamed_reasoning_recovered
      [where c = "\<lparr>sc_role = [], sc_content = ''a'', sc_reasoning_content = ''rs'',
         sc_has_reasoning_content = True, sc_tool_calls = [], sc_finish_reason = None\<rparr>", OF refl])
    (rule refl | simp add: unlimited_def; fail | code_simp)+

section \<open>Filing once\<close>

lemma foldl_store_skips:
  assumes "\<And>i m. (i, m) \<in> set ims \<Longrightarrow>
      (case stage_of i of None \<Rightarrow> True | Some stage \<Rightarrow> stored_at_least acc (i, scope) stage) \<or>
      (\<forall>b. file b m = (b, 0))"
  shows "foldl (store_at_stage file scope stage_of) (acc, b, n) ims = (acc, b, n)"
  using assms by (induction ims) (fastforce simp: store_at_stage_def split: option.splits)+

lemma store_at_stage_keeps:
  assumes "store_at_stage file scope (\<lambda>_. Some ''final'') (acc, b, n) im = (acc', b', n')"
  shows "acc_choices acc' = acc_choices acc"
    and "stored_at_least acc k ''final'' \<Longrightarrow> stored_at_least acc' k ''final''"
  using assms by (auto simp: store_at_stage_def stored_at_least_def split: prod.splits if_splits option.splits)

lemma foldl_store_marks:
  assumes "\<And>m b b'. snd (file b m) = 0 \<Longrightarrow> file b' m = (b', 0)"
    and "foldl (store_at_stage file scope (\<lambda>_. Some ''final'')) (acc, b, n) ims = (acc', b', n')"
  shows "acc_choices acc' = acc_choices acc \<and>
    (\<forall>k. stored_at_least acc k ''final'' \<longrightarrow> stored_at_least acc' k ''final'') \<and>
    (\<forall>(i, m) \<in> set ims. stored_at_least acc' (i, scope) ''final'' \<or> (\<forall>b. file b m = (b, 0)))"
  using assms(2)
proof (induction ims arbitrary: acc b n)
  case (Cons im ims)
  obtain acc1 b1 n1 where s: "store_at_stage file scope (\<lambda>_. Some ''final'') (acc, b, n) im = (acc1, b1, n1)"
    by (metis prod_cases3)
  obtain i m where im: "im = (i, m)" by (cases im)
  have "stored_at_least acc1 (i, scope) ''final'' \<or> (\<forall>b. file b m = (b, 0))"
    using s assms(1) [of b m] unfolding im
    by (auto simp: store_at_stage_def stored_at_least_def split: prod.splits if_splits option.splits)
  then show ?case using Cons.IH [of acc1 b1 n1] Cons.prems s store_at_stage_keeps [OF s]
    by (auto simp: im)
qed simp

lemma be_store_nothing:
  "snd (be_store_assistant_message put sha ser b m scope ns prior) = 0 \<Longrightarrow>
   be_store_assistant_message put sha ser b' m scope ns prior = (b', 0)"
  using backend_keys_Cons [of sha ser m scope ns prior]
  by (auto simp: be_store_assistant_message_def Let_def split: option.splits if_splits)

text \<open>
  A message is filed at most once for a scope: after the reasoning of an accumulator has been
  stored, storing it again (when the stream ends after \<^verbatim>\<open>[DONE]\<close>, or the client leaves)
  writes nothing.
\<close>
theorem reasoning_filed_once:
  assumes "file = (\<lambda>b m. be_store_assistant_message put sha ser b m scope ns prior)"
    and "store_reasoning file acc b scope = (acc', b', n)"
  shows "store_reasoning file acc' b'' scope = (acc', b'', 0)"
proof -
  have "acc_choices acc' = acc_choices acc \<and>
    (\<forall>k. stored_at_least acc k ''final'' \<longrightarrow> stored_at_least acc' k ''final'') \<and>
    (\<forall>(i, m) \<in> set (enumerate 0 (acc_messages acc)).
       stored_at_least acc' (i, scope) ''final'' \<or> (\<forall>b. file b m = (b, 0)))"
    by (rule foldl_store_marks [OF _ assms(2) [unfolded store_reasoning_def]])
      (unfold assms(1), rule be_store_nothing)
  then have acc: "acc_choices acc' = acc_choices acc"
    and filed: "(i, m) \<in> set (enumerate 0 (acc_messages acc)) \<Longrightarrow>
      stored_at_least acc' (i, scope) ''final'' \<or> (\<forall>b. file b m = (b, 0))" for i m
    by auto
  show ?thesis unfolding store_reasoning_def
    by (rule foldl_store_skips) (use filed acc in \<open>auto simp: acc_messages_def\<close>)
qed

theorem reasoning_filed_once_witness:
  "store_reasoning (\<lambda>b m. be_store_assistant_message (\<lambda>b k r m. k # b) id (\<lambda>_. ''x'') b m ''s'' [] [])
     \<lparr>acc_choices = [(0, default_choice\<lparr>sc_has_reasoning_content := True\<rparr>)],
      acc_stored_choices = [((0, ''s''), ''final'')]\<rparr> [''y''] ''s'' =
   (\<lparr>acc_choices = [(0, default_choice\<lparr>sc_has_reasoning_content := True\<rparr>)],
     acc_stored_choices = [((0, ''s''), ''final'')]\<rparr>, [''y''], 0)"
  by (rule reasoning_filed_once
      [where b = "[]" and b' = "[''scope:s:signature:x'']" and n = 1
         and acc = "\<lparr>acc_choices = [(0, default_choice\<lparr>sc_has_reasoning_content := True\<rparr>)],
                     acc_stored_choices = []\<rparr>", OF refl]) code_simp

text \<open>
  Reasoning that is ready in mid-stream is looked up by the position of its message instead of the
  index of its choice: a finished choice that is alone but not numbered zero is never stored before
  the end of the stream.
\<close>
theorem ready_reasoning_by_position:
  assumes "length (acc_choices acc) = 1" and "hm_get (acc_choices acc) i = Some c" and "i \<noteq> 0"
  shows "store_ready_reasoning file acc b scope = (acc, b, 0)"
proof -
  have "hm_get (acc_choices acc) 0 = None"
    using assms by (auto simp: length_Suc_conv hm_get_def split: if_splits)
  then show ?thesis
    by (simp add: store_ready_reasoning_def single_choice_messages [OF assms(1,2)] store_at_stage_def ready_stage_def)
qed

theorem ready_reasoning_by_position_witness:
  "store_ready_reasoning (\<lambda>b m. (m # b, 1))
     \<lparr>acc_choices = [(1, default_choice\<lparr>sc_finish_reason := Some ''stop''\<rparr>)], acc_stored_choices = []\<rparr> [] ''s'' =
   (\<lparr>acc_choices = [(1, default_choice\<lparr>sc_finish_reason := Some ''stop''\<rparr>)], acc_stored_choices = []\<rparr>, [], 0)"
  by (rule ready_reasoning_by_position [where i = 1]) (simp_all add: hm_get_def)

end
