(* ===== verification/CodexTools.thy ===== *)
theory CodexTools
  imports StreamAccumulator ToolChain
begin

text \<open>
  The tools of Codex clients: their normalisation for chat upstreams
  (\<^verbatim>\<open>src/crates/crab-reasoning/src/codex_tools.rs\<close>) and the audit of the registered tools
  (\<^verbatim>\<open>src/crates/crab-proxy/src/responses_tool_registry.rs\<close>, without its log lines). The order
  of strings is the order of their bytes.
\<close>

section \<open>File tools\<close>

definition CODEX_FILE_TOOL_NAMES :: "string list" where
  "CODEX_FILE_TOOL_NAMES = [''apply_patch'', ''read_file'', ''list_dir'']"

definition typed :: "string \<Rightarrow> string \<Rightarrow> json" where
  \<comment> \<open>\<open>{ "type": t, "description": d }\<close>\<close>
  "typed t d = JObj [(''description'', JStr d), (''type'', JStr t)]"

definition object_schema :: "(string \<times> json) list \<Rightarrow> string \<Rightarrow> json" where
  "object_schema props req =
     JObj [(''properties'', JObj props), (''required'', JArr [JStr req]), (''type'', JStr ''object'')]"

definition file_tool_parameters :: "string \<Rightarrow> json option" where
  "file_tool_parameters name =
     (if name = ''apply_patch''
      then Some (object_schema [(''input'', typed ''string''
             ''Patch body in Codex apply_patch format between *** Begin Patch and *** End Patch.'')] ''input'')
      else if name = ''read_file''
      then Some (object_schema [(''limit'', typed ''integer'' ''Optional maximum number of lines.''),
                                (''offset'', typed ''integer'' ''Optional 1-based start line.''),
                                (''path'', typed ''string'' ''Absolute or workspace-relative file path.'')] ''path'')
      else if name = ''list_dir''
      then Some (object_schema [(''path'', typed ''string'' ''Directory path to list.'')] ''path'')
      else None)"

definition file_tool_description :: "string \<Rightarrow> string" where
  "file_tool_description name =
     (if name = ''apply_patch''
      then ''Apply a patch to create, update, or delete files using Codex apply_patch syntax.''
      else if name = ''read_file'' then ''Read a file from the workspace.''
      else ''List entries in a workspace directory.'')"

definition function_tool :: "(string \<times> json) list \<Rightarrow> json" where
  "function_tool func = JObj [(''function'', JObj func), (''type'', JStr ''function'')]"

definition default_codex_file_tool :: "string \<Rightarrow> string option \<Rightarrow> json option" where
  "default_codex_file_tool name description =
     map_option
       (\<lambda>parameters. function_tool
          [(''description'', JStr (case description of Some d \<Rightarrow> d | None \<Rightarrow> file_tool_description name)),
           (''name'', JStr name), (''parameters'', parameters)])
       (file_tool_parameters name)"

definition convert_codex_custom_tool_to_chat_function :: "json \<Rightarrow> json option" where
  "convert_codex_custom_tool_to_chat_function tool =
     (if json_get_str tool ''type'' \<noteq> Some ''custom'' then None
      else Option.bind (json_get_str tool ''name'')
             (\<lambda>name. default_codex_file_tool name (json_get_str tool ''description'')))"

section \<open>Normalisation\<close>

definition is_dropped_upstream_tool_type :: "string \<Rightarrow> bool" where
  "is_dropped_upstream_tool_type t \<longleftrightarrow> starts_with t ''tool_search'' \<or> t = ''web_search'' \<or> t = ''namespace''"

definition field_if :: "json \<Rightarrow> string \<Rightarrow> (string \<times> json) list" where
  "field_if v k = (case json_get v k of Some w \<Rightarrow> [(k, w)] | None \<Rightarrow> [])"

definition wrap_flat_function_tool :: "json \<Rightarrow> json" where
  "wrap_flat_function_tool tool =
     function_tool (field_if tool ''description'' @ field_if tool ''name'' @ field_if tool ''parameters'')"

definition normalize_codex_tool :: "json \<Rightarrow> json list" where
  \<comment> \<open>what one tool pushes to \<open>out\<close>\<close>
  "normalize_codex_tool tool =
     (let ty = str_or_empty tool ''type'' in
      if is_dropped_upstream_tool_type ty then []
      else if ty = ''function''
      then (if json_get tool ''function'' \<noteq> None then [tool] else [wrap_flat_function_tool tool])
      else (case convert_codex_custom_tool_to_chat_function tool of Some t \<Rightarrow> [t] | None \<Rightarrow> []))"

definition normalize_codex_tools_for_upstream :: "json list \<Rightarrow> json list" where
  "normalize_codex_tools_for_upstream tools = concat (map normalize_codex_tool tools)"

definition chat_tool_name :: "json \<Rightarrow> string option" where
  "chat_tool_name tool =
     (case Option.bind (json_get tool ''function'') (\<lambda>f. json_get_str f ''name'') of
        Some n \<Rightarrow> Some n
      | None \<Rightarrow> json_get_str tool ''name'')"

section \<open>Tools the instructions mention\<close>

definition mentioned_codex_file_tools :: "string \<Rightarrow> string list" where
  "mentioned_codex_file_tools t = filter (str_contains t) CODEX_FILE_TOOL_NAMES"

definition system_texts :: "json \<Rightarrow> string list" where
  \<comment> \<open>the string contents of the system messages\<close>
  "system_texts payload =
     List.map_filter (\<lambda>m. json_get_str m ''content'')
       (filter (has_role ''system'') (case Option.bind (json_get payload ''messages'') as_array of Some ms \<Rightarrow> ms | None \<Rightarrow> []))"

definition tool_context :: "json \<Rightarrow> string" where
  "tool_context payload =
     concat (map (\<lambda>s. s @ nl)
       ((case json_get_str payload ''instructions'' of Some s \<Rightarrow> [s] | None \<Rightarrow> []) @ system_texts payload))"

definition tool_names :: "json list \<Rightarrow> string set" where
  "tool_names tools = set (List.map_filter chat_tool_name tools)"

definition exec_only_names :: "string set \<Rightarrow> bool" where
  "exec_only_names names \<longleftrightarrow> ''exec_command'' \<in> names \<and> list_all (\<lambda>n. n \<notin> names) CODEX_FILE_TOOL_NAMES"

definition missing_file_tools :: "string \<Rightarrow> string set \<Rightarrow> json list" where
  "missing_file_tools ctx existing =
     List.map_filter (\<lambda>name. if name \<in> existing then None else default_codex_file_tool name None)
       (mentioned_codex_file_tools ctx)"

definition ensure_codex_file_tools_from_context :: "json \<Rightarrow> json" where
  "ensure_codex_file_tools_from_context payload =
     (let ctx = tool_context payload in
      if ctx = [] then payload
      else (let tools = (case json_get payload ''tools'' of Some v \<Rightarrow> v | None \<Rightarrow> JArr []);
                payload = json_insert payload ''tools'' tools
            in case as_array tools of
                 None \<Rightarrow> payload
               | Some arr \<Rightarrow>
                   if exec_only_names (tool_names arr) then payload
                   else json_insert payload ''tools'' (JArr (arr @ missing_file_tools ctx (tool_names arr)))))"

section \<open>The registry audit\<close>

definition NATIVE_FILE_TOOLS :: "string list" where
  "NATIVE_FILE_TOOLS = [''apply_patch'', ''read_file'', ''list_dir'']"

record registry_audit =
  registered_tool_names :: "string list"
  tool_search_count :: nat
  instructions_mention_apply_patch :: bool
  has_apply_patch_tool :: bool
  missing_apply_patch :: bool
  exec_only_surface :: bool

definition build_registry_audit :: "string list \<Rightarrow> nat \<Rightarrow> bool \<Rightarrow> registry_audit" where
  "build_registry_audit names searches mention =
     (let names = remdups_adj (sort names);
          has_apply_patch = ''apply_patch'' \<in> set names
      in \<lparr>registered_tool_names = names, tool_search_count = searches,
          instructions_mention_apply_patch = mention, has_apply_patch_tool = has_apply_patch,
          missing_apply_patch = mention \<and> \<not> has_apply_patch,
          exec_only_surface = ''exec_command'' \<in> set names \<and> list_all (\<lambda>n. n \<notin> set names) NATIVE_FILE_TOOLS\<rparr>)"

definition count_tool_search_tools :: "json list \<Rightarrow> nat" where
  "count_tool_search_tools tools =
     length (filter (\<lambda>t. case json_get_str t ''type'' of Some ty \<Rightarrow> starts_with ty ''tool_search'' | None \<Rightarrow> False) tools)"

definition tool_name_from_responses_tool :: "json \<Rightarrow> string option" where
  "tool_name_from_responses_tool tool =
     (if json_get_str tool ''type'' = Some ''function''
      then (case Option.bind (json_get tool ''function'') (\<lambda>f. json_get_str f ''name'') of
              Some n \<Rightarrow> Some n
            | None \<Rightarrow> json_get_str tool ''name'')
      else json_get_str tool ''name'')"

definition tool_name_from_any_tool :: "json \<Rightarrow> string option" where
  \<comment> \<open>\<open>tool_name_from_chat_tool\<close> is \<open>chat_tool_name\<close> under another name\<close>
  "tool_name_from_any_tool tool =
     (case tool_name_from_responses_tool tool of Some n \<Rightarrow> Some n | None \<Rightarrow> chat_tool_name tool)"

definition responses_tool_name :: "json \<Rightarrow> string option" where
  \<comment> \<open>the closure of \<open>tool_names_from_responses_tools\<close>\<close>
  "responses_tool_name tool =
     (let ty = str_or_empty tool ''type'' in
      if ty = ''function'' then tool_name_from_responses_tool tool
      else if ty = ''custom''
      then (case json_get_str tool ''name'' of
              Some n \<Rightarrow> if n \<in> set CODEX_FILE_TOOL_NAMES then Some n else None
            | None \<Rightarrow> None)
      else None)"

definition tool_names_from_responses_tools :: "json list \<Rightarrow> string list" where
  "tool_names_from_responses_tools tools = List.map_filter responses_tool_name tools"

definition tool_names_from_chat_tools :: "json list \<Rightarrow> string list" where
  "tool_names_from_chat_tools tools =
     List.map_filter chat_tool_name
       (filter (\<lambda>t. case json_get_str t ''type'' of Some ty \<Rightarrow> ty = ''function'' | None \<Rightarrow> True) tools)"

definition tools_of :: "json \<Rightarrow> json list" where
  "tools_of payload = (case Option.bind (json_get payload ''tools'') as_array of Some ts \<Rightarrow> ts | None \<Rightarrow> [])"

definition audit_responses_tool_registry :: "json \<Rightarrow> registry_audit" where
  "audit_responses_tool_registry payload =
     build_registry_audit (tool_names_from_responses_tools (tools_of payload))
       (count_tool_search_tools (tools_of payload))
       (case json_get_str payload ''instructions'' of Some s \<Rightarrow> str_contains s ''apply_patch'' | None \<Rightarrow> False)"

definition audit_chat_tool_registry :: "json \<Rightarrow> registry_audit" where
  "audit_chat_tool_registry payload =
     build_registry_audit (tool_names_from_chat_tools (tools_of payload))
       (count_tool_search_tools (tools_of payload))
       (list_ex (\<lambda>s. str_contains s ''apply_patch'') (system_texts payload))"

record mimo_tool_audit =
  upstream_tool_names :: "string list"
  stripped_non_function_tools :: "string list"

definition stripped_label :: "json \<Rightarrow> string option" where
  "stripped_label tool =
     (let ty = (case json_get_str tool ''type'' of Some t \<Rightarrow> t | None \<Rightarrow> ''unknown'') in
      if ty = ''function'' then None
      else Some (case tool_name_from_any_tool tool of Some n \<Rightarrow> ty @ '':'' @ n | None \<Rightarrow> ty))"

definition audit_mimo_tool_pipeline :: "json \<Rightarrow> json \<Rightarrow> mimo_tool_audit" where
  "audit_mimo_tool_pipeline chat_before chat_after =
     \<lparr>upstream_tool_names = tool_names_from_chat_tools (tools_of chat_after),
      stripped_non_function_tools = remdups_adj (sort (List.map_filter stripped_label (tools_of chat_before)))\<rparr>"

section \<open>What the upstream receives\<close>

definition upstream_tool :: "json \<Rightarrow> bool" where
  \<comment> \<open>a chat function tool\<close>
  "upstream_tool t \<longleftrightarrow> json_get_str t ''type'' = Some ''function'' \<and> json_get t ''function'' \<noteq> None"

lemma upstream_function_tool [simp]: "upstream_tool (function_tool f)"
  by (simp add: upstream_tool_def function_tool_def json_get_str_def)

lemma default_tool_upstream: "default_codex_file_tool name d = Some t \<Longrightarrow> upstream_tool t"
  by (auto simp: default_codex_file_tool_def)

lemma default_tool_named: "default_codex_file_tool name d = Some t \<Longrightarrow> chat_tool_name t = Some name"
  by (auto simp: default_codex_file_tool_def chat_tool_name_def function_tool_def json_get_str_def)

lemma default_tool_exists: "name \<in> set CODEX_FILE_TOOL_NAMES \<Longrightarrow> default_codex_file_tool name d \<noteq> None"
  by (auto simp: CODEX_FILE_TOOL_NAMES_def default_codex_file_tool_def file_tool_parameters_def)

lemma convert_upstream: "convert_codex_custom_tool_to_chat_function tool = Some t \<Longrightarrow> upstream_tool t"
  by (auto simp: convert_codex_custom_tool_to_chat_function_def bind_eq_Some_conv dest: default_tool_upstream
      split: if_splits)

lemma normalize_codex_tool_upstream:
  assumes "t \<in> set (normalize_codex_tool tool)"
  shows "upstream_tool t"
proof -
  from assms consider "t = tool" "str_or_empty tool ''type'' = ''function''" "json_get tool ''function'' \<noteq> None"
    | "t = wrap_flat_function_tool tool" | "convert_codex_custom_tool_to_chat_function tool = Some t"
    by (auto simp: normalize_codex_tool_def Let_def split: if_splits option.splits)
  then show ?thesis
  proof cases
    case 1
    then show ?thesis by (auto simp: upstream_tool_def str_or_empty_def split: option.splits)
  qed (auto simp: wrap_flat_function_tool_def dest: convert_upstream)
qed

lemma normalize_upstream_tool: "upstream_tool t \<Longrightarrow> normalize_codex_tool t = [t]"
  by (auto simp: normalize_codex_tool_def upstream_tool_def str_or_empty_def is_dropped_upstream_tool_type_def)

lemma normalize_upstream_tools:
  "list_all upstream_tool ts \<Longrightarrow> normalize_codex_tools_for_upstream ts = ts"
  by (induction ts) (simp_all add: normalize_codex_tools_for_upstream_def normalize_upstream_tool)

text \<open>
  Whatever tools a client registers, the upstream receives function tools only, and normalising what
  was normalised changes nothing: a request may pass through the conversion of the Responses
  protocol and the preparation for the upstream, which both normalise.
\<close>
theorem codex_tools_normalised:
  "list_all upstream_tool (normalize_codex_tools_for_upstream tools) \<and>
   normalize_codex_tools_for_upstream (normalize_codex_tools_for_upstream tools) =
   normalize_codex_tools_for_upstream tools"
proof (rule conjI)
  show a: "list_all upstream_tool (normalize_codex_tools_for_upstream tools)"
    by (auto simp: list_all_iff normalize_codex_tools_for_upstream_def intro: normalize_codex_tool_upstream)
  then show "normalize_codex_tools_for_upstream (normalize_codex_tools_for_upstream tools) =
      normalize_codex_tools_for_upstream tools"
    by (rule normalize_upstream_tools)
qed

section \<open>The audit and the injection agree\<close>

lemma tool_names_append: "tool_names (a @ b) = tool_names a \<union> tool_names b"
  by (simp add: tool_names_def List.map_filter_def)

lemma set_missing_file_tools:
  "t \<in> set (missing_file_tools ctx existing) \<longleftrightarrow>
     (\<exists>n \<in> set CODEX_FILE_TOOL_NAMES. str_contains ctx n \<and> n \<notin> existing \<and> default_codex_file_tool n None = Some t)"
  by (auto simp: missing_file_tools_def mentioned_codex_file_tools_def set_map_filter split: if_splits)

lemma tool_names_missing:
  "tool_names (missing_file_tools ctx existing) = {n \<in> set CODEX_FILE_TOOL_NAMES. str_contains ctx n} - existing"
proof -
  have "n \<in> tool_names (missing_file_tools ctx existing) \<longleftrightarrow>
      (\<exists>t \<in> set (missing_file_tools ctx existing). chat_tool_name t = Some n)" for n
    by (simp add: tool_names_def set_map_filter)
  also have "\<dots> n \<longleftrightarrow> n \<in> set CODEX_FILE_TOOL_NAMES \<and> str_contains ctx n \<and> n \<notin> existing" for n
    unfolding set_missing_file_tools Bex_def
    using default_tool_named default_tool_exists [of n None] by fastforce
  finally show ?thesis by blast
qed

lemma map_filter_chat_upstream:
  "list_all upstream_tool ts \<Longrightarrow> set (tool_names_from_chat_tools ts) = tool_names ts"
proof -
  assume "list_all upstream_tool ts"
  then have "filter (\<lambda>t. case json_get_str t ''type'' of Some ty \<Rightarrow> ty = ''function'' | None \<Rightarrow> True) ts = ts"
    by (intro filter_True) (auto simp: list_all_iff upstream_tool_def)
  then show ?thesis by (simp add: tool_names_from_chat_tools_def tool_names_def)
qed

lemma audit_exec_only: "exec_only_surface (build_registry_audit names s m) = exec_only_names (set names)"
  by (simp add: build_registry_audit_def exec_only_names_def NATIVE_FILE_TOOLS_def CODEX_FILE_TOOL_NAMES_def Let_def)

lemma audit_missing:
  "missing_apply_patch (build_registry_audit names s m) \<longleftrightarrow> m \<and> ''apply_patch'' \<notin> set names"
  by (simp add: build_registry_audit_def Let_def)

lemma str_contains_concat: "s \<in> set ss \<Longrightarrow> str_contains s p \<Longrightarrow> str_contains (concat (map (\<lambda>s. s @ nl) ss)) p"
proof -
  assume "s \<in> set ss" "str_contains s p"
  then obtain u v a b where "ss = u @ s # v" "s = a @ p @ b" by (auto simp: str_contains_iff dest!: split_list)
  then show ?thesis
    unfolding str_contains_iff
    by (intro exI [of _ "concat (map (\<lambda>s. s @ nl) u) @ a"] exI [of _ "b @ nl @ concat (map (\<lambda>s. s @ nl) v)"]) simp
qed

text \<open>
  After the injection a mentioned but missing patch tool means an exec-only surface: for a payload
  whose tools are chat functions, the audit reports \<^verbatim>\<open>missing_apply_patch\<close> only together
  with \<^verbatim>\<open>exec_only_surface\<close>, and the injection keeps the registered tools.
\<close>
theorem missing_patch_tool_is_exec_only:
  assumes "json_get payload ''tools'' = Some (JArr ts)" "list_all upstream_tool ts"
  shows "missing_apply_patch (audit_chat_tool_registry (ensure_codex_file_tools_from_context payload)) \<longrightarrow>
         exec_only_surface (audit_chat_tool_registry (ensure_codex_file_tools_from_context payload))"
    "\<exists>new. tools_of (ensure_codex_file_tools_from_context payload) = ts @ new \<and> list_all upstream_tool new"
proof -
  let ?ctx = "tool_context payload" and ?out = "ensure_codex_file_tools_from_context payload"
  let ?new = "if ?ctx = [] \<or> exec_only_names (tool_names ts) then [] else missing_file_tools ?ctx (tool_names ts)"
  have obj: "as_object payload \<noteq> None" using assms(1) by (cases payload) auto
  have out: "json_get ?out k = (if k = ''tools'' then Some (JArr (ts @ ?new)) else json_get payload k)" for k
    using assms(1) obj
    by (cases payload) (auto simp: ensure_codex_file_tools_from_context_def Let_def update_conv')
  have new: "list_all upstream_tool ?new"
    by (auto simp: list_all_iff set_missing_file_tools dest: default_tool_upstream)
  have tools: "tools_of ?out = ts @ ?new" by (simp add: tools_of_def out)
  then show "\<exists>new. tools_of ?out = ts @ new \<and> list_all upstream_tool new" using new by blast
  have sys: "system_texts ?out = system_texts payload" by (simp add: system_texts_def out)
  have names: "set (tool_names_from_chat_tools (tools_of ?out)) = tool_names ts \<union> tool_names ?new"
    using map_filter_chat_upstream [of "ts @ ?new"] assms(2) new by (simp add: tools tool_names_append)
  show "missing_apply_patch (audit_chat_tool_registry ?out) \<longrightarrow> exec_only_surface (audit_chat_tool_registry ?out)"
  proof
    assume "missing_apply_patch (audit_chat_tool_registry ?out)"
    then obtain s where s: "s \<in> set (system_texts payload)" "str_contains s ''apply_patch''"
      and no: "''apply_patch'' \<notin> tool_names ts \<union> tool_names ?new"
      unfolding audit_chat_tool_registry_def audit_missing names sys by (auto simp: list_ex_iff)
    have m: "str_contains ?ctx ''apply_patch''"
      unfolding tool_context_def using s by (intro str_contains_concat [of s]) simp_all
    have "?ctx \<noteq> []" using m by auto
    then have "exec_only_names (tool_names ts)"
      using no m by (auto simp: tool_names_missing CODEX_FILE_TOOL_NAMES_def split: if_splits)
    then show "exec_only_surface (audit_chat_tool_registry ?out)"
      unfolding audit_chat_tool_registry_def audit_exec_only names by (simp add: tool_names_def List.map_filter_def)
  qed
qed

definition patch_request :: json where
  "patch_request =
     JObj [(''messages'', JArr [JObj [(''role'', JStr ''system''), (''content'', JStr ''use apply_patch'')]]),
           (''tools'', JArr [function_tool [(''name'', JStr ''exec_command'')]])]"

theorem missing_patch_tool_is_exec_only_witness:
  "missing_apply_patch (audit_chat_tool_registry (ensure_codex_file_tools_from_context patch_request)) \<longrightarrow>
   exec_only_surface (audit_chat_tool_registry (ensure_codex_file_tools_from_context patch_request))"
  by (rule missing_patch_tool_is_exec_only [where ts = "[function_tool [(''name'', JStr ''exec_command'')]]"])
    (simp_all add: patch_request_def)

end
