(* ===== verification/CodexRequest.thy ===== *)
theory CodexRequest
  imports ClientKind StreamAccumulator
begin

text \<open>
  Translation of chat requests for the Codex upstream
  (\<^verbatim>\<open>src/crates/crab-proxy/src/codex.rs\<close>, first half): model slugs, session ids, the
  conversion of messages to input items, tools, and the repair of a request without input. The
  order of the keys of an object is left to the printer. The headers of the upstream request are
  not modelled.
\<close>

section \<open>Models and sessions\<close>

definition LEGACY_CODEX_SLUGS :: "string list" where
  "LEGACY_CODEX_SLUGS =
     [''gpt-5'', ''gpt-5-codex'', ''gpt-5-codex-mini'', ''gpt-5.1'', ''gpt-5.1-codex'',
      ''gpt-5.1-codex-max'', ''gpt-5.1-codex-mini'', ''gpt-5.2'', ''gpt-5.2-codex'',
      ''gpt-5.3-codex'', ''gpt-5.3-codex-spark'']"

definition resolve_codex_upstream_model :: "string \<Rightarrow> string" where
  "resolve_codex_upstream_model model =
     (let m = (case resolve_codex_display_alias model of Some slug \<Rightarrow> slug | None \<Rightarrow> model)
      in if m \<in> set LEGACY_CODEX_SLUGS then ''gpt-5.5'' else m)"

record codex_prepare_options =
  opt_conversation_id :: "string option"
  opt_prompt_cache_key :: "string option"
  opt_stable_session_id :: "string option"

record codex_prepared_request =
  cx_payload :: json
  cx_model :: string
  cx_session_id :: "string option"

definition resolve_codex_session_id :: "json \<Rightarrow> codex_prepare_options \<Rightarrow> string option" where
  "resolve_codex_session_id payload opts =
     or_else (or_else (non_blank (json_get_str payload ''conversation_id'')) (opt_conversation_id opts))
       (or_else (or_else (non_blank (json_get_str payload ''prompt_cache_key'')) (opt_prompt_cache_key opts))
          (opt_stable_session_id opts))"

definition resolve_codex_prompt_cache_key :: "json \<Rightarrow> codex_prepare_options \<Rightarrow> string option" where
  "resolve_codex_prompt_cache_key payload opts =
     or_else (or_else (non_blank (json_get_str payload ''prompt_cache_key'')) (opt_prompt_cache_key opts))
       (or_else (or_else (non_blank (json_get_str payload ''conversation_id'')) (opt_conversation_id opts))
          (opt_stable_session_id opts))"

section \<open>Content\<close>

definition text_or_content :: "json \<Rightarrow> string option" where
  \<comment> \<open>\<open>obj.get("text").or_else(|| obj.get("content")).and_then(|v| v.as_str())\<close>\<close>
  "text_or_content obj = Option.bind (or_else (json_get obj ''text'') (json_get obj ''content'')) as_str"

definition text_item_type :: "string \<Rightarrow> bool" where
  "text_item_type t \<longleftrightarrow> t = ''text'' \<or> t = ''input_text'' \<or> t = ''output_text''"

fun item_text :: "(json \<Rightarrow> string) \<Rightarrow> json \<Rightarrow> string list" where
  \<comment> \<open>what an element of a content array pushes to \<open>parts\<close>\<close>
  "item_text ser (JStr s) = [s]"
| "item_text ser (JObj kvs) =
     (let obj = JObj kvs;
          t = (case text_or_content obj of Some s \<Rightarrow> s | None \<Rightarrow> [])
      in if text_item_type (str_or_empty obj ''type'') \<or> t \<noteq> [] then [t] else [])"
| "item_text ser other = [ser other]"

fun message_content_text :: "(json \<Rightarrow> string) \<Rightarrow> json option \<Rightarrow> string" where
  "message_content_text ser None = []"
| "message_content_text ser (Some (JStr s)) = s"
| "message_content_text ser (Some (JArr items)) =
     join nl (filter (\<lambda>p. p \<noteq> []) (concat (map (item_text ser) items)))"
| "message_content_text ser (Some other) = ser other"

definition text_part :: "string \<Rightarrow> string \<Rightarrow> json" where
  "text_part ty t = JObj [(''text'', JStr t), (''type'', JStr ty)]"

definition image_url_of :: "json \<Rightarrow> string option" where
  "image_url_of obj =
     Option.bind (json_get obj ''image_url'') (\<lambda>v. or_else (as_str v) (json_get_str v ''url''))"

fun item_parts :: "string \<Rightarrow> string \<Rightarrow> json \<Rightarrow> json list" where
  \<comment> \<open>the parts one element of a content array becomes\<close>
  "item_parts role part_type (JStr t) = (if t \<noteq> [] then [text_part part_type t] else [])"
| "item_parts role part_type (JObj kvs) =
     (let obj = JObj kvs; ty = str_or_empty obj ''type''
      in if text_item_type ty
         then (case text_or_content obj of
                 Some t \<Rightarrow>
                   if t \<noteq> []
                   then [text_part (if ty = ''output_text'' \<or> role = ''assistant'' then ''output_text'' else ''input_text'') t]
                   else []
               | None \<Rightarrow> [])
         else if (ty = ''image_url'' \<or> ty = ''input_image'') \<and> role = ''user''
         then (case image_url_of obj of
                 Some url \<Rightarrow>
                   if url \<noteq> [] then [JObj [(''image_url'', JStr url), (''type'', JStr ''input_image'')]] else []
               | None \<Rightarrow> [])
         else [])"
| "item_parts role part_type _ = []"

fun append_content_value :: "json \<Rightarrow> string \<Rightarrow> string \<Rightarrow> json list" where
  "append_content_value (JStr t) role part_type = (if t \<noteq> [] then [text_part part_type t] else [])"
| "append_content_value (JArr items) role part_type = concat (map (item_parts role part_type) items)"
| "append_content_value _ role part_type = []"

definition append_message_content_parts :: "json \<Rightarrow> string \<Rightarrow> json list" where
  "append_message_content_parts msg role =
     (let part_type = (if role = ''assistant'' then ''output_text'' else ''input_text'');
          out = (case json_get msg ''content'' of Some c \<Rightarrow> append_content_value c role part_type | None \<Rightarrow> [])
      in if role = ''assistant'' \<and> out = [] \<and> str_or_empty msg ''reasoning_content'' \<noteq> []
         then [text_part ''output_text'' (str_or_empty msg ''reasoning_content'')]
         else out)"

section \<open>Messages to input items\<close>

definition call_item :: "json \<Rightarrow> json list" where
  \<comment> \<open>calls that are not functions are left out\<close>
  "call_item tc =
     (if json_get_str tc ''type'' \<noteq> Some ''function'' then []
      else [JObj [(''arguments'', JStr (case Option.bind (json_pointer tc [''function'', ''arguments'']) as_str of
                                          Some a \<Rightarrow> a | None \<Rightarrow> [])),
                  (''call_id'', JStr (str_or_empty tc ''id'')),
                  (''name'', JStr (case Option.bind (json_pointer tc [''function'', ''name'']) as_str of
                                     Some n \<Rightarrow> n | None \<Rightarrow> [])),
                  (''type'', JStr ''function_call'')]])"

definition role_or_user :: "json \<Rightarrow> string" where
  "role_or_user msg = (case json_get_str msg ''role'' of Some r \<Rightarrow> r | None \<Rightarrow> ''user'')"

definition message_items :: "(json \<Rightarrow> string) \<Rightarrow> json \<Rightarrow> json list" where
  \<comment> \<open>what one message pushes to \<open>input\<close>\<close>
  "message_items ser msg =
     (let role = role_or_user msg in
      if role = ''tool''
      then [JObj [(''call_id'', JStr (str_or_empty msg ''tool_call_id'')),
                  (''output'', JStr (message_content_text ser (json_get msg ''content''))),
                  (''type'', JStr ''function_call_output'')]]
      else if role = ''system'' \<or> role = ''developer'' then []
      else (let parts = append_message_content_parts msg role in
            (if parts \<noteq> []
             then [JObj [(''content'', JArr parts), (''role'', JStr role), (''type'', JStr ''message'')]]
             else []) @
            (if role = ''assistant''
             then (case tool_calls_of msg of Some tcs \<Rightarrow> concat (map call_item tcs) | None \<Rightarrow> [])
             else [])))"

definition message_instructions :: "(json \<Rightarrow> string) \<Rightarrow> json \<Rightarrow> string list" where
  \<comment> \<open>what one message pushes to \<open>instructions_parts\<close>\<close>
  "message_instructions ser msg =
     (let role = role_or_user msg; t = message_content_text ser (json_get msg ''content'')
      in if (role = ''system'' \<or> role = ''developer'') \<and> t \<noteq> [] then [t] else [])"

definition messages_of :: "json \<Rightarrow> json list option" where
  "messages_of payload = Option.bind (json_get payload ''messages'') as_array"

section \<open>Required input\<close>

definition nonempty_str :: "json \<Rightarrow> string \<Rightarrow> string option" where
  \<comment> \<open>\<open>v.get(k).and_then(|x| x.as_str()).filter(|s| !s.is_empty())\<close>\<close>
  "nonempty_str v k = (case json_get_str v k of Some (c # cs) \<Rightarrow> Some (c # cs) | _ \<Rightarrow> None)"

definition item_counts_as_input :: "json \<Rightarrow> bool" where
  "item_counts_as_input item =
     (case json_get_str item ''type'' of
        None \<Rightarrow> False
      | Some t \<Rightarrow>
          if t = ''message''
          then (case Option.bind (json_get item ''content'') as_array of Some ps \<Rightarrow> ps \<noteq> [] | None \<Rightarrow> False)
          else t \<noteq> ''function_call'' \<and> t \<noteq> ''function_call_output'')"

definition input_of :: "json \<Rightarrow> json list option" where
  "input_of v = Option.bind (json_get v ''input'') as_array"

definition codex_payload_has_required_input :: "json \<Rightarrow> bool" where
  "codex_payload_has_required_input out =
     (nonempty_str out ''prompt'' \<noteq> None \<or> nonempty_str out ''previous_response_id'' \<noteq> None \<or>
      (case input_of out of None \<Rightarrow> False | Some input \<Rightarrow> list_ex item_counts_as_input input))"

definition extract_last_user_prompt :: "(json \<Rightarrow> string) \<Rightarrow> json \<Rightarrow> string option" where
  "extract_last_user_prompt ser payload =
     Option.bind (messages_of payload)
       (\<lambda>ms. List.find (\<lambda>t. t \<noteq> [])
          (map (\<lambda>m. message_content_text ser (json_get m ''content'')) (filter (has_role ''user'') (rev ms))))"

definition fallback_item :: "string \<Rightarrow> json" where
  "fallback_item t =
     JObj [(''content'', JArr [text_part ''input_text'' t]), (''role'', JStr ''user''), (''type'', JStr ''message'')]"

definition ensure_codex_required_input :: "(json \<Rightarrow> string) \<Rightarrow> json \<Rightarrow> json \<Rightarrow> json" where
  "ensure_codex_required_input ser out payload =
     (if codex_payload_has_required_input out then out
      else case nonempty_str payload ''prompt'' of
        Some p \<Rightarrow> json_insert out ''prompt'' (JStr p)
      | None \<Rightarrow>
          (case extract_last_user_prompt ser payload of
             Some p \<Rightarrow> json_insert out ''prompt'' (JStr p)
           | None \<Rightarrow>
               (let t = (case nonempty_str out ''instructions'' of Some s \<Rightarrow> s | None \<Rightarrow> ''Continue'')
                in case input_of out of
                     Some input \<Rightarrow> json_insert out ''input'' (JArr (input @ [fallback_item t]))
                   | None \<Rightarrow> out)))"

section \<open>Requests\<close>

definition set_opt :: "json \<Rightarrow> string \<Rightarrow> json option \<Rightarrow> json" where
  \<comment> \<open>\<open>if let Some(v) = ... { out[k] = v }\<close>\<close>
  "set_opt out k v = (case v of Some w \<Rightarrow> json_insert out k w | None \<Rightarrow> out)"

definition apply_codex_session_fields :: "json \<Rightarrow> string option \<Rightarrow> json" where
  "apply_codex_session_fields out pck =
     (case pck of Some (c # cs) \<Rightarrow> json_insert out ''prompt_cache_key'' (JStr (c # cs)) | _ \<Rightarrow> out)"

definition bool_or :: "json \<Rightarrow> string \<Rightarrow> bool \<Rightarrow> json" where
  "bool_or v k d = JBool (case Option.bind (json_get v k) as_bool of Some b \<Rightarrow> b | None \<Rightarrow> d)"

definition effort_or_medium :: "json option \<Rightarrow> string" where
  "effort_or_medium v = (case Option.bind v as_str of Some e \<Rightarrow> e | None \<Rightarrow> ''medium'')"

definition default_reasoning :: "string \<Rightarrow> json" where
  "default_reasoning effort = JObj [(''effort'', JStr effort), (''summary'', JStr ''auto'')]"

definition default_include :: json where
  "default_include = JArr [JStr ''reasoning.encrypted_content'']"

definition nonempty_tools :: "json \<Rightarrow> json list option" where
  "nonempty_tools payload =
     (case Option.bind (json_get payload ''tools'') as_array of Some (t # ts) \<Rightarrow> Some (t # ts) | _ \<Rightarrow> None)"

definition prepare_codex_responses_passthrough ::
    "(json \<Rightarrow> string) \<Rightarrow> json \<Rightarrow> string \<Rightarrow> codex_prepare_options \<Rightarrow> codex_prepared_request" where
  "prepare_codex_responses_passthrough ser payload upstream_model opts =
     (let model = resolve_codex_upstream_model upstream_model;
          effort = effort_or_medium
            (or_else (json_get payload ''reasoning_effort'') (json_pointer payload [''reasoning'', ''effort'']));
          out = JObj
            [(''include'', get_or payload ''include'' default_include),
             (''input'', get_or payload ''input'' (JArr [])),
             (''instructions'', JStr (str_or_empty payload ''instructions'')),
             (''model'', JStr model),
             (''parallel_tool_calls'', bool_or payload ''parallel_tool_calls'' True),
             (''reasoning'', get_or payload ''reasoning'' (default_reasoning effort)),
             (''store'', bool_or payload ''store'' False),
             (''stream'', JBool True)];
          out = apply_codex_session_fields out (resolve_codex_prompt_cache_key payload opts);
          out = set_opt out ''previous_response_id'' (map_option JStr (nonempty_str payload ''previous_response_id''));
          out = set_opt out ''prompt'' (map_option JStr (nonempty_str payload ''prompt''));
          out = set_opt out ''tools'' (map_option JArr (nonempty_tools payload));
          out = set_opt out ''tool_choice'' (json_get payload ''tool_choice'')
      in \<lparr>cx_payload = ensure_codex_required_input ser out payload, cx_model = model,
          cx_session_id = resolve_codex_session_id payload opts\<rparr>)"

definition field_of :: "json \<Rightarrow> string \<Rightarrow> (string \<times> json) list" where
  "field_of v k = (case json_get v k of Some w \<Rightarrow> [(k, w)] | None \<Rightarrow> [])"

definition map_tool :: "json \<Rightarrow> json list" where
  "map_tool tool =
     (if str_or_empty tool ''type'' \<noteq> ''function'' then [tool]
      else case json_get tool ''function'' of
             Some func \<Rightarrow>
               [JObj (field_of func ''description'' @ field_of func ''name'' @ field_of func ''parameters'' @
                      field_of func ''strict'' @ [(''type'', JStr ''function'')])]
           | None \<Rightarrow> [])"

definition attach_codex_tools_from_chat :: "json \<Rightarrow> json \<Rightarrow> json" where
  "attach_codex_tools_from_chat payload out =
     set_opt out ''tools'' (map_option (\<lambda>ts. JArr (concat (map map_tool ts))) (nonempty_tools payload))"

definition attach_codex_tool_choice :: "json \<Rightarrow> json \<Rightarrow> json" where
  "attach_codex_tool_choice payload out =
     (case json_get payload ''tool_choice'' of
        Some (JStr s) \<Rightarrow> json_insert out ''tool_choice'' (JStr s)
      | Some (JObj m) \<Rightarrow>
          if json_get_str (JObj m) ''type'' = Some ''function''
          then json_insert out ''tool_choice''
                 (JObj [(''name'', JStr (case Option.bind (json_pointer (JObj m) [''function'', ''name'']) as_str of
                                           Some n \<Rightarrow> n | None \<Rightarrow> [])), (''type'', JStr ''function'')])
          else json_insert out ''tool_choice'' (JObj m)
      | _ \<Rightarrow> out)"

definition prepare_codex_from_chat_messages ::
    "(json \<Rightarrow> string) \<Rightarrow> json \<Rightarrow> string \<Rightarrow> codex_prepare_options \<Rightarrow> codex_prepared_request" where
  "prepare_codex_from_chat_messages ser payload upstream_model opts =
     (let model = resolve_codex_upstream_model upstream_model;
          effort = effort_or_medium (json_get payload ''reasoning_effort'');
          ms = (case messages_of payload of Some ms \<Rightarrow> ms | None \<Rightarrow> []);
          out = JObj
            [(''include'', default_include),
             (''input'', JArr (concat (map (message_items ser) ms))),
             (''instructions'', JStr (join (nl @ nl) (concat (map (message_instructions ser) ms)))),
             (''model'', JStr model),
             (''parallel_tool_calls'', JBool True),
             (''reasoning'', default_reasoning effort),
             (''store'', JBool False),
             (''stream'', JBool True)];
          out = apply_codex_session_fields out (resolve_codex_prompt_cache_key payload opts);
          out = set_opt out ''previous_response_id'' (map_option JStr (nonempty_str payload ''previous_response_id''));
          out = attach_codex_tools_from_chat payload out;
          out = attach_codex_tool_choice payload out
      in \<lparr>cx_payload = ensure_codex_required_input ser out payload, cx_model = model,
          cx_session_id = resolve_codex_session_id payload opts\<rparr>)"

definition should_passthrough_responses_input :: "json \<Rightarrow> bool" where
  "should_passthrough_responses_input payload \<longleftrightarrow>
     (case messages_of payload of Some ms \<Rightarrow> ms = [] | None \<Rightarrow> True) \<and>
     (case input_of payload of Some i \<Rightarrow> i \<noteq> [] | None \<Rightarrow> False)"

definition prepare_codex_request ::
    "(json \<Rightarrow> string) \<Rightarrow> json \<Rightarrow> string \<Rightarrow> codex_prepare_options \<Rightarrow> codex_prepared_request" where
  "prepare_codex_request ser payload upstream_model opts =
     (if should_passthrough_responses_input payload
      then prepare_codex_responses_passthrough ser payload upstream_model opts
      else prepare_codex_from_chat_messages ser payload upstream_model opts)"

definition prepare_codex_client_responses ::
    "(json \<Rightarrow> string) \<Rightarrow> json \<Rightarrow> string \<Rightarrow> codex_prepare_options \<Rightarrow> codex_prepared_request" where
  "prepare_codex_client_responses ser payload upstream_model opts =
     prepare_codex_responses_passthrough ser payload upstream_model opts"

section \<open>Every translated request has input\<close>

lemma is_object_set_opt [simp]: "is_object (set_opt out k v) = is_object out"
  by (simp add: set_opt_def split: option.split)

lemma is_object_session [simp]: "is_object (apply_codex_session_fields out p) = is_object out"
  by (simp add: apply_codex_session_fields_def split: option.split list.split)

lemma is_object_tool_choice [simp]: "is_object (attach_codex_tool_choice payload out) = is_object out"
  by (simp add: attach_codex_tool_choice_def split: option.split json.split)

lemma json_get_insert_other: "l \<noteq> k \<Longrightarrow> json_get (json_insert v k w) l = json_get v l"
  by (simp add: json_get_insert)

lemma input_of_updates [simp]:
  "k \<noteq> ''input'' \<Longrightarrow> input_of (json_insert out k w) = input_of out"
  "k \<noteq> ''input'' \<Longrightarrow> input_of (set_opt out k v) = input_of out"
  "input_of (apply_codex_session_fields out p) = input_of out"
  "input_of (attach_codex_tool_choice payload out) = input_of out"
  by (simp_all add: input_of_def set_opt_def apply_codex_session_fields_def attach_codex_tool_choice_def
      json_get_insert_other split: option.split list.split json.split)

lemma has_input_prompt:
  assumes "is_object out" "p \<noteq> []"
  shows "codex_payload_has_required_input (json_insert out ''prompt'' (JStr p))"
  using assms by (cases p) (simp_all add: codex_payload_has_required_input_def nonempty_str_def json_get_str_insert)

lemma ensure_codex_required_input_ok:
  assumes "is_object out" "input_of out = Some input"
  shows "codex_payload_has_required_input (ensure_codex_required_input ser out payload)"
proof (cases "codex_payload_has_required_input out")
  case False
  have p: "p \<noteq> []" if "extract_last_user_prompt ser payload = Some p" for p
    using that by (auto simp: extract_last_user_prompt_def bind_eq_Some_conv find_Some_iff)
  have q: "p \<noteq> []" if "nonempty_str payload ''prompt'' = Some p" for p
    using that by (auto simp: nonempty_str_def split: option.splits list.splits)
  have "item_counts_as_input (fallback_item t)" for t
    by (simp add: item_counts_as_input_def fallback_item_def json_get_str_def)
  then have f: "codex_payload_has_required_input (json_insert out ''input'' (JArr (input @ [fallback_item t])))" for t
    using assms(1) by (simp add: codex_payload_has_required_input_def input_of_def json_get_insert is_object_def)
  show ?thesis using False p q f has_input_prompt [OF assms(1)] assms(2)
    by (simp add: ensure_codex_required_input_def Let_def split: option.split)
qed (simp add: ensure_codex_required_input_def)

text \<open>
  Every chat request leaves the Codex translation with something for the model to answer: a
  prompt, a previous response, or an input item that counts as one, even if it had only system
  messages or none at all.
\<close>
theorem codex_request_has_input:
  "codex_payload_has_required_input (cx_payload (prepare_codex_request ser payload model opts))"
proof (cases "should_passthrough_responses_input payload")
  case True
  then obtain items where "input_of payload = Some items"
    by (auto simp: should_passthrough_responses_input_def split: option.splits)
  then have "get_or payload ''input'' (JArr []) = JArr items"
    by (auto simp: input_of_def get_or_def bind_eq_Some_conv elim: as_array.elims)
  then show ?thesis using True
    by (simp add: prepare_codex_request_def prepare_codex_responses_passthrough_def Let_def)
      (rule ensure_codex_required_input_ok [where input = items],
        simp_all add: is_object_def [of "JObj _"] input_of_def [of "JObj _"])
next
  case False
  show ?thesis using False
    by (simp add: prepare_codex_request_def prepare_codex_from_chat_messages_def Let_def)
      (rule ensure_codex_required_input_ok, simp_all add: attach_codex_tools_from_chat_def
        is_object_def [of "JObj _"] input_of_def [of "JObj _"])
qed

text \<open>
  A client's Responses request whose input is a single string, which that protocol allows, is
  passed on as it is: the repair only extends a list, so the upstream gets a request without input.
\<close>
theorem codex_string_input_unrepaired:
  "\<not> codex_payload_has_required_input
     (cx_payload (prepare_codex_client_responses ser (JObj [(''input'', JStr t)]) model
        \<lparr>opt_conversation_id = None, opt_prompt_cache_key = None, opt_stable_session_id = None\<rparr>))"
  by (simp add: prepare_codex_client_responses_def prepare_codex_responses_passthrough_def Let_def
      ensure_codex_required_input_def codex_payload_has_required_input_def set_opt_def nonempty_str_def
      apply_codex_session_fields_def resolve_codex_prompt_cache_key_def or_else_def non_blank_def json_get_str_def
      nonempty_tools_def input_of_def get_or_def extract_last_user_prompt_def messages_of_def)

section \<open>Calls and their results stay paired\<close>

definition item_ids :: "string \<Rightarrow> json list \<Rightarrow> string set" where
  \<comment> \<open>the call ids of the input items of one type\<close>
  "item_ids ty items = {i. \<exists>it \<in> set items. json_get_str it ''type'' = Some ty \<and> json_get_str it ''call_id'' = Some i}"

definition function_calls_only :: "json list \<Rightarrow> bool" where
  \<comment> \<open>calls are functions with an id and belong to assistant messages; ids of results are strings\<close>
  "function_calls_only ms \<longleftrightarrow>
     (\<forall>m \<in> set ms.
        (case tool_calls_of m of
           Some tcs \<Rightarrow> has_role ''assistant'' m \<and>
             (\<forall>tc \<in> set tcs. json_get_str tc ''type'' = Some ''function'' \<and> json_get_str tc ''id'' \<noteq> None)
         | None \<Rightarrow> True) \<and>
        (has_role ''tool'' m \<longrightarrow> json_get_str m ''tool_call_id'' \<noteq> None))"

lemma role_or_user_iff: "r \<noteq> ''user'' \<Longrightarrow> role_or_user m = r \<longleftrightarrow> has_role r m"
  by (auto simp: role_or_user_def has_role_def split: option.splits)

lemma call_item_ids:
  "item_ids ''function_call'' (call_item tc) =
     (if json_get_str tc ''type'' = Some ''function'' then {str_or_empty tc ''id''} else {})"
  "item_ids ''function_call_output'' (call_item tc) = {}"
  by (auto simp: item_ids_def call_item_def json_get_str_def)

lemma item_ids_concat: "item_ids ty (concat iss) = (\<Union>is \<in> set iss. item_ids ty is)"
  by (auto simp: item_ids_def)

lemma item_ids_append: "item_ids ty (a @ b) = item_ids ty a \<union> item_ids ty b"
  by (auto simp: item_ids_def)

lemma message_items_ids:
  "item_ids ''function_call_output'' (message_items ser m) =
     (if has_role ''tool'' m then {str_or_empty m ''tool_call_id''} else {})"
  "item_ids ''function_call'' (message_items ser m) =
     (if has_role ''assistant'' m
      then (\<Union>tc \<in> set (case tool_calls_of m of Some tcs \<Rightarrow> tcs | None \<Rightarrow> []). item_ids ''function_call'' (call_item tc))
      else {})"
proof -
  have part: "item_ids ty (if ps \<noteq> [] then [JObj [(''content'', JArr ps), (''role'', JStr r), (''type'', JStr ''message'')]] else []) = {}"
    if "ty \<noteq> ''message''" for ty ps r using that by (simp add: item_ids_def json_get_str_def)
  show "item_ids ''function_call_output'' (message_items ser m) =
     (if has_role ''tool'' m then {str_or_empty m ''tool_call_id''} else {})"
    by (auto simp: message_items_def Let_def role_or_user_iff item_ids_append part item_ids_concat call_item_ids
        split: option.split) (auto simp: item_ids_def json_get_str_def)
  show "item_ids ''function_call'' (message_items ser m) =
     (if has_role ''assistant'' m
      then (\<Union>tc \<in> set (case tool_calls_of m of Some tcs \<Rightarrow> tcs | None \<Rightarrow> []). item_ids ''function_call'' (call_item tc))
      else {})"
    by (auto simp: message_items_def Let_def role_or_user_iff item_ids_append part item_ids_concat has_role_def
        split: option.split) (auto simp: item_ids_def json_get_str_def)
qed

text \<open>
  The translation keeps calls and results paired: for a history whose tool chain is closed and
  whose calls are functions, the call ids of the function calls and of their outputs in the
  translated input are the same.
\<close>
theorem codex_input_pairs_calls:
  assumes "chain_closed ms" and "function_calls_only ms"
  shows "item_ids ''function_call'' (concat (map (message_items ser) ms)) =
         item_ids ''function_call_output'' (concat (map (message_items ser) ms))"
proof -
  have out: "item_ids ''function_call_output'' (concat (map (message_items ser) ms)) = tool_ids ms"
    using assms(2) unfolding item_ids_concat
    by (auto simp: message_items_ids tool_ids_iff function_calls_only_def str_or_empty_def split: if_splits) force+
  have "item_ids ''function_call'' (message_items ser m) =
      (case tool_calls_of m of Some tcs \<Rightarrow> ids_of_calls tcs | None \<Rightarrow> {})" if m: "m \<in> set ms" for m
  proof (cases "tool_calls_of m")
    case (Some tcs)
    then have a: "has_role ''assistant'' m"
      and tc: "\<And>tc. tc \<in> set tcs \<Longrightarrow> json_get_str tc ''type'' = Some ''function'' \<and> json_get_str tc ''id'' \<noteq> None"
      using assms(2) m by (force simp: function_calls_only_def)+
    have "{str_or_empty tc ''id''} = {i. json_get_str tc ''id'' = Some i}" if "tc \<in> set tcs" for tc
      using tc [OF that] by (auto simp: str_or_empty_def)
    then show ?thesis using Some a tc
      by (auto simp: message_items_ids call_item_ids ids_of_calls_iff)
  qed (simp add: message_items_ids)
  then have inp: "item_ids ''function_call'' (concat (map (message_items ser) ms)) = call_ids ms"
    unfolding item_ids_concat call_ids_def by simp
  have "call_ids ms = tool_ids ms"
  proof
    show "tool_ids ms \<subseteq> call_ids ms" using assms(1) by (force simp: chain_closed_def tool_ids_iff)
    show "call_ids ms \<subseteq> tool_ids ms"
      using assms by (fastforce simp: chain_closed_def call_ids_iff ids_of_calls_iff function_calls_only_def)
  qed
  then show ?thesis using out inp by simp
qed

definition paired_history :: "json list" where
  "paired_history =
     [JObj [(''role'', JStr ''assistant''),
            (''tool_calls'', JArr [JObj [(''id'', JStr ''c''), (''type'', JStr ''function''),
                                         (''function'', JObj [(''name'', JStr ''f''), (''arguments'', JStr ''{}'')])]])],
      JObj [(''role'', JStr ''tool''), (''tool_call_id'', JStr ''c''), (''content'', JStr ''r'')]]"

theorem codex_input_pairs_calls_witness:
  "item_ids ''function_call'' (concat (map (message_items (\<lambda>_. [])) paired_history)) =
   item_ids ''function_call_output'' (concat (map (message_items (\<lambda>_. [])) paired_history))"
  by (rule codex_input_pairs_calls)
    (simp_all add: paired_history_def chain_closed_def function_calls_only_def has_role_def json_get_str_def
      tool_calls_of_def call_ids_iff ids_of_calls_iff tool_ids_iff)

end
