(* ===== verification/SseTransform.thy ===== *)
theory SseTransform
  imports StreamAccumulator
begin

text \<open>
  Shaping of upstream answers for the client
  (\<^verbatim>\<open>src/crates/crab-reasoning/src/transform.rs\<close>, the display adapter and the folding of
  \<^verbatim>\<open>streaming.rs\<close>): completion bodies and single lines of an event stream. The JSON parser
  and printer and the substitution of the thinking-block regular expression are arguments, as is the
  filing of a message in the reasoning backend. Counters of metrics are left out.
\<close>

section \<open>Updates in place\<close>

definition update_field :: "json \<Rightarrow> string \<Rightarrow> (json \<Rightarrow> json) \<Rightarrow> json" where
  \<comment> \<open>through \<open>v.get_mut(k)\<close>\<close>
  "update_field v k f = (case json_get v k of Some w \<Rightarrow> json_insert v k (f w) | None \<Rightarrow> v)"

fun map_array :: "(json \<Rightarrow> json) \<Rightarrow> json \<Rightarrow> json" where
  "map_array f (JArr xs) = JArr (map f xs)"
| "map_array f v = v"

definition map_choices :: "(json \<Rightarrow> json) \<Rightarrow> json \<Rightarrow> json" where
  \<comment> \<open>\<open>for choice in v.get_mut("choices").and_then(|c| c.as_array_mut())\<close>\<close>
  "map_choices f v = update_field v ''choices'' (map_array f)"

definition map_part :: "string \<Rightarrow> (json \<Rightarrow> json) \<Rightarrow> json \<Rightarrow> json" where
  \<comment> \<open>\<open>choice.get_mut(part).and_then(|d| d.as_object_mut())\<close>\<close>
  "map_part part f choice = update_field choice part (\<lambda>d. if is_object d then f d else d)"

section \<open>Stripping\<close>

definition null_or_absent :: "json \<Rightarrow> string \<Rightarrow> bool" where
  "null_or_absent v k \<longleftrightarrow> json_get v k = None \<or> json_get v k = Some JNull"

definition strip_reasoning_delta :: "json \<Rightarrow> json" where
  "strip_reasoning_delta delta =
     (let delta = json_remove delta ''reasoning_content''
      in if null_or_absent delta ''content'' then json_insert delta ''content'' (JStr []) else delta)"

definition strip_reasoning_delta_for_client :: "json \<Rightarrow> json" where
  "strip_reasoning_delta_for_client chunk = map_choices (map_part ''delta'' strip_reasoning_delta) chunk"

definition strip_cursor_thinking_blocks :: "(string \<Rightarrow> string) \<Rightarrow> string \<Rightarrow> string" where
  \<comment> \<open>\<open>replace\<close> is \<open>CURSOR_THINKING_BLOCK_RE.replace_all(_, "")\<close>\<close>
  "strip_cursor_thinking_blocks replace content =
     dropWhile (\<lambda>c. c = CHR 0x0D \<or> c = CHR 0x0A) (replace content)"

definition sanitize_client_message_content :: "(string \<Rightarrow> string) \<Rightarrow> string \<Rightarrow> bool \<Rightarrow> string" where
  "sanitize_client_message_content replace content display_reasoning =
     (if display_reasoning then content else strip_cursor_thinking_blocks replace content)"

definition sanitize_content_field :: "(string \<Rightarrow> string) \<Rightarrow> json \<Rightarrow> json" where
  \<comment> \<open>\<open>if let Some(content) = obj.get("content").as_str() { insert(sanitized) }\<close>\<close>
  "sanitize_content_field replace obj =
     (case json_get_str obj ''content'' of
        Some content \<Rightarrow>
          json_insert obj ''content'' (JStr (sanitize_client_message_content replace content False))
      | None \<Rightarrow> obj)"

definition strip_silent_sse_chunk_for_client :: "(string \<Rightarrow> string) \<Rightarrow> json \<Rightarrow> json" where
  "strip_silent_sse_chunk_for_client replace chunk =
     map_choices (map_part ''delta'' (sanitize_content_field replace)) (strip_reasoning_delta_for_client chunk)"

definition mirror_reasoning_delta :: "json \<Rightarrow> json" where
  "mirror_reasoning_delta delta =
     (case json_get delta ''reasoning_content'' of
        Some rc \<Rightarrow>
          (let t = (case as_str rc of Some s \<Rightarrow> s | None \<Rightarrow> []);
               delta = json_remove delta ''reasoning_content''
           in if t \<noteq> [] then json_insert delta ''content'' (JStr t)
              else if json_get delta ''role'' \<noteq> None \<and> json_get delta ''content'' = None
              then json_insert delta ''content'' (JStr [])
              else delta)
      | None \<Rightarrow>
          if json_get delta ''content'' = Some JNull then json_insert delta ''content'' (JStr []) else delta)"

definition mirror_reasoning_delta_incremental :: "json \<Rightarrow> json" where
  "mirror_reasoning_delta_incremental chunk = map_choices (map_part ''delta'' mirror_reasoning_delta) chunk"

section \<open>The display adapter\<close>

record display_adapter =
  open_choices :: "(nat, bool) hmap"
  last_chunk_metadata :: "(string \<times> json) list"

definition adapter_new :: display_adapter where
  \<comment> \<open>the block marks are never read and left out\<close>
  "adapter_new = \<lparr>open_choices = [], last_chunk_metadata = []\<rparr>"

definition remember_chunk_metadata :: "display_adapter \<Rightarrow> json \<Rightarrow> display_adapter" where
  "remember_chunk_metadata a chunk =
     a\<lparr>last_chunk_metadata :=
         foldl (\<lambda>m k. case json_get chunk k of Some v \<Rightarrow> hm_insert m k v | None \<Rightarrow> m)
           (last_chunk_metadata a) [''id'', ''object'', ''created'']\<rparr>"

definition adapt_delta :: "json \<Rightarrow> json" where
  "adapt_delta delta =
     (let rc = str_or_empty delta ''reasoning_content'';
          ec = str_or_empty delta ''content'';
          obj = (if rc \<noteq> [] then json_insert delta ''content'' (JStr (if ec = [] then rc else rc @ ec))
                 else if json_get delta ''role'' \<noteq> None \<and> json_get delta ''content'' = None
                 then json_insert delta ''content'' (JStr [])
                 else if ec \<noteq> [] then json_insert delta ''content'' (JStr ec)
                 else delta);
          obj = json_remove obj ''reasoning_content''
      in if json_get obj ''content'' = Some JNull then json_insert obj ''content'' (JStr []) else obj)"

definition adapt_open :: "(nat, bool) hmap \<Rightarrow> json \<Rightarrow> json \<Rightarrow> (nat, bool) hmap" where
  \<comment> \<open>the bookkeeping of the same loop body: a choice opens with reasoning and closes again\<close>
  "adapt_open m choice delta =
     (let i = u64_or choice ''index'' 0;
          m = (if str_or_empty delta ''reasoning_content'' \<noteq> []
               then (case hm_get m i of Some _ \<Rightarrow> m | None \<Rightarrow> hm_insert m i True) else m)
      in if hm_get m i \<noteq> None \<and>
            (json_get delta ''tool_calls'' \<noteq> None \<or> json_get choice ''finish_reason'' \<noteq> None)
         then hm_remove m i else m)"

fun adapt_choices :: "(nat, bool) hmap \<Rightarrow> json list \<Rightarrow> (nat, bool) hmap \<times> json list" where
  "adapt_choices m [] = (m, [])"
| "adapt_choices m (choice # cs) =
     (case json_get choice ''delta'' of
        Some d \<Rightarrow>
          if is_object d
          then (case adapt_choices (adapt_open m choice d) cs of
                  (m', cs') \<Rightarrow> (m', json_insert choice ''delta'' (adapt_delta d) # cs'))
          else (case adapt_choices m cs of (m', cs') \<Rightarrow> (m', choice # cs'))
      | None \<Rightarrow> (case adapt_choices m cs of (m', cs') \<Rightarrow> (m', choice # cs')))"

definition adapter_rewrite_chunk :: "display_adapter \<Rightarrow> json \<Rightarrow> display_adapter \<times> json" where
  "adapter_rewrite_chunk a chunk =
     (let a = remember_chunk_metadata a chunk
      in case choices_of chunk of
           None \<Rightarrow> (a, chunk)
         | Some cs \<Rightarrow>
             (case adapt_choices (open_choices a) cs of
                (m, cs') \<Rightarrow> (a\<lparr>open_choices := m\<rparr>, json_insert chunk ''choices'' (JArr cs'))))"

definition adapter_flush_chunk :: "display_adapter \<Rightarrow> display_adapter \<times> json option" where
  "adapter_flush_chunk a = (if open_choices a = [] then (a, None) else (a\<lparr>open_choices := []\<rparr>, None))"

section \<open>Completion bodies\<close>

definition strip_reasoning_from_completion_value :: "json \<Rightarrow> json" where
  "strip_reasoning_from_completion_value v =
     map_choices (map_part ''message'' (\<lambda>m. json_remove m ''reasoning_content'')) v"

definition block_start :: "bool \<Rightarrow> string" where
  "block_start collapsible =
     (if collapsible then ''<details>'' @ nl @ ''<summary>Thinking</summary>'' @ nl @ nl else ''<think>'' @ nl)"

definition block_end :: "bool \<Rightarrow> string" where
  "block_end collapsible =
     (if collapsible then nl @ ''</details>'' @ nl @ nl else nl @ ''</think>'' @ nl @ nl)"

definition fold_message :: "bool \<Rightarrow> json \<Rightarrow> json" where
  "fold_message collapsible m =
     (let reasoning = str_or_empty m ''reasoning_content''; content = str_or_empty m ''content''
      in if reasoning = [] then m
         else json_insert m ''content''
                (JStr (block_start collapsible @ reasoning @ block_end collapsible @ content)))"

definition fold_reasoning_into_content :: "json \<Rightarrow> bool \<Rightarrow> json" where
  "fold_reasoning_into_content payload collapsible =
     map_choices (map_part ''message'' (fold_message collapsible)) payload"

definition sanitize_client_completion :: "(string \<Rightarrow> string) \<Rightarrow> json \<Rightarrow> bool \<Rightarrow> bool \<Rightarrow> json" where
  "sanitize_client_completion replace v display_reasoning collapsible =
     (if display_reasoning then fold_reasoning_into_content v collapsible
      else map_choices (map_part ''message'' (sanitize_content_field replace))
             (strip_reasoning_from_completion_value v))"

definition completion_message_content_has_thinking_markup :: "(string \<Rightarrow> string) \<Rightarrow> string \<Rightarrow> bool" where
  "completion_message_content_has_thinking_markup replace content \<longleftrightarrow>
     strip_cursor_thinking_blocks replace content \<noteq> content"

definition response_body_has_thinking_markup :: "json_parser \<Rightarrow> (string \<Rightarrow> string) \<Rightarrow> string \<Rightarrow> bool" where
  "response_body_has_thinking_markup parse replace body =
     (case Option.bind (parse body) choices_of of
        None \<Rightarrow> False
      | Some cs \<Rightarrow>
          list_ex (\<lambda>choice.
            case Option.bind (json_get choice ''message'') (\<lambda>m. json_get_str m ''content'') of
              Some t \<Rightarrow> completion_message_content_has_thinking_markup replace t
            | None \<Rightarrow> False) cs)"

type_synonym 'b filing = "'b \<Rightarrow> string \<Rightarrow> json list \<Rightarrow> json \<Rightarrow> 'b \<times> nat"
  \<comment> \<open>\<open>store_assistant_message\<close> in a fixed namespace: scope, prior messages, message\<close>

fun file_in_contexts :: "'b filing \<Rightarrow> json \<Rightarrow> 'b \<times> nat \<Rightarrow> (string \<times> json list) list \<Rightarrow> 'b \<times> nat" where
  "file_in_contexts file m s [] = s"
| "file_in_contexts file m (b, n) ((scope, prior) # ctxs) =
     (case file b scope prior m of (b', k) \<Rightarrow> file_in_contexts file m (b', n + k) ctxs)"

definition record_choice :: "'b filing \<Rightarrow> (string \<times> json list) list \<Rightarrow> 'b \<times> nat \<Rightarrow> json \<Rightarrow> 'b \<times> nat" where
  "record_choice file ctxs s choice =
     (case json_get choice ''message'' of Some m \<Rightarrow> file_in_contexts file m s ctxs | None \<Rightarrow> s)"

definition record_response_reasoning ::
    "'b filing \<Rightarrow> json \<Rightarrow> 'b option \<Rightarrow> (string \<times> json list) list \<Rightarrow> 'b option \<times> nat" where
  "record_response_reasoning file payload store ctxs =
     (case store of
        None \<Rightarrow> (None, 0)
      | Some b \<Rightarrow>
          (case choices_of payload of
             None \<Rightarrow> (Some b, 0)
           | Some cs \<Rightarrow> (case foldl (record_choice file ctxs) (b, 0) cs of (b', n) \<Rightarrow> (Some b', n))))"

fun prefix_first_message :: "string \<Rightarrow> json list \<Rightarrow> (json list) option" where
  \<comment> \<open>the first choice with an object as its message gets the prefix\<close>
  "prefix_first_message prefix [] = None"
| "prefix_first_message prefix (choice # cs) =
     (case json_get choice ''message'' of
        Some m \<Rightarrow>
          if is_object m
          then Some (json_insert choice ''message''
                       (json_insert m ''content'' (JStr (prefix @ str_or_empty m ''content''))) # cs)
          else map_option ((#) choice) (prefix_first_message prefix cs)
      | None \<Rightarrow> map_option ((#) choice) (prefix_first_message prefix cs))"

definition prefix_response_content :: "json \<Rightarrow> string \<Rightarrow> json" where
  "prefix_response_content payload prefix =
     (case choices_of payload of
        None \<Rightarrow> payload
      | Some cs \<Rightarrow>
          (case prefix_first_message prefix cs of
             Some cs' \<Rightarrow> json_insert payload ''choices'' (JArr cs')
           | None \<Rightarrow> payload))"

definition set_model :: "string \<Rightarrow> json \<Rightarrow> json" where
  "set_model original_model v = update_field v ''model'' (\<lambda>_. JStr original_model)"

definition rewrite_response_body ::
    "json_parser \<Rightarrow> (json \<Rightarrow> string) \<Rightarrow> (string \<Rightarrow> string) \<Rightarrow> 'b filing \<Rightarrow> string \<Rightarrow> string \<Rightarrow> 'b option \<Rightarrow>
     string option \<Rightarrow> (string \<times> json list) list \<Rightarrow> bool \<Rightarrow> bool \<Rightarrow> ('b option \<times> string) option" where
  "rewrite_response_body parse ser replace file body original_model store content_prefix ctxs
       display_reasoning collapsible =
     (case parse body of
        None \<Rightarrow> None
      | Some payload \<Rightarrow>
          (let payload = (case content_prefix of
                            Some p \<Rightarrow> prefix_response_content payload p | None \<Rightarrow> payload);
               store = fst (record_response_reasoning file payload store ctxs);
               payload = sanitize_client_completion replace payload display_reasoning collapsible
           in Some (store, ser (set_model original_model payload))))"

section \<open>Laws of the updates\<close>

lemma json_get_update_field:
  "json_get (update_field v k f) l = (if l = k then map_option f (json_get v k) else json_get v l)"
proof (cases "json_get v k")
  case (Some w)
  then have "as_object v \<noteq> None" using json_get_is_object by (simp add: is_object_def)
  then show ?thesis using Some by (simp add: update_field_def json_get_insert)
qed (simp add: update_field_def)

lemma is_object_update_field [simp]: "is_object (update_field v k f) = is_object v"
  by (simp add: update_field_def split: option.split)

lemma choices_of_map_choices [simp]: "choices_of (map_choices f v) = map_option (map f) (choices_of v)"
proof -
  have "as_array (map_array f w) = map_option (map f) (as_array w)" for w by (cases w) simp_all
  then show ?thesis
    by (cases "json_get v ''choices''") (simp_all add: choices_of_def map_choices_def json_get_update_field)
qed

lemma is_object_map_part [simp]: "is_object (map_part p f c) = is_object c"
  by (simp add: map_part_def)

lemma json_get_map_part:
  "json_get (map_part p f c) k =
     (if k = p then map_option (\<lambda>d. if is_object d then f d else d) (json_get c p) else json_get c k)"
  by (simp add: map_part_def json_get_update_field)

lemma u64_or_map_part [simp]: "k \<noteq> p \<Longrightarrow> u64_or (map_part p f c) k d = u64_or c k d"
  by (simp add: u64_or_def json_get_map_part)

lemma raw_deltas_map_part:
  assumes "\<And>d. is_object d \<Longrightarrow> is_object (f d)"
  shows "raw_deltas i (map (map_part ''delta'' f) cs) = map f (raw_deltas i cs)"
proof (induction cs)
  case (Cons c cs)
  have "raw_deltas i [map_part ''delta'' f c] = map f (raw_deltas i [c])"
    using assms by (auto simp: raw_deltas_def List.map_filter_def json_get_map_part split: option.split)
  then show ?case using Cons raw_deltas_Cons [of i c cs]
      raw_deltas_Cons [of i "map_part ''delta'' f c" "map (map_part ''delta'' f) cs"] by simp
qed (simp add: raw_deltas_def List.map_filter_def)

lemma choice_deltas_map:
  assumes "\<And>d. is_object d \<Longrightarrow> is_object (f d)"
  shows "choice_deltas i (map_choices (map_part ''delta'' f) v) = map f (choice_deltas i v)"
  using raw_deltas_map_part [OF assms]
  by (cases "choices_of v") (simp_all add: choice_deltas_def raw_deltas_def List.map_filter_def)

lemma choice_deltas_objects: "d \<in> set (choice_deltas i v) \<Longrightarrow> is_object d"
  by (auto simp: choice_deltas_def raw_deltas_def set_map_filter split: if_splits option.splits)

lemma is_object_remove [simp]: "is_object (json_remove v k) = is_object v"
  by (cases v) (simp_all add: is_object_def)

lemma json_get_str_remove: "json_get_str (json_remove v k) l = (if l = k then None else json_get_str v l)"
  by (simp add: json_get_str_def json_get_remove)

lemma json_get_insert_object:
  "is_object v \<Longrightarrow> json_get (json_insert v k w) l = (if l = k then Some w else json_get v l)"
  by (simp add: json_get_insert is_object_def)

lemma str_or_empty_insert:
  "is_object v \<Longrightarrow> str_or_empty (json_insert v k (JStr t)) l = (if l = k then t else str_or_empty v l)"
  by (simp add: str_or_empty_def json_get_str_insert)

lemma str_or_empty_remove: "l \<noteq> k \<Longrightarrow> str_or_empty (json_remove v k) l = str_or_empty v l"
  by (simp add: str_or_empty_def json_get_str_remove)

lemma str_or_empty_absent: "json_get v k = None \<or> json_get v k = Some JNull \<Longrightarrow> str_or_empty v k = []"
  by (auto simp: str_or_empty_def json_get_str_def)

lemma json_insert_same: "json_get v k = Some w \<Longrightarrow> json_insert v k w = v"
proof (cases v)
  case (JObj kvs)
  have "map_of kvs k = Some w \<Longrightarrow> AList.update k w kvs = kvs" by (induction kvs) (auto split: if_splits)
  then show "json_get v k = Some w \<Longrightarrow> json_insert v k w = v" using JObj by simp
qed simp_all

lemmas delta_simps = Let_def json_get_insert_object json_get_remove str_or_empty_insert str_or_empty_remove

section \<open>What the client sees of a delta\<close>

lemma strip_reasoning_delta_laws:
  assumes "is_object d"
  shows "is_object (strip_reasoning_delta d)"
    and "json_get (strip_reasoning_delta d) ''reasoning_content'' = None"
    and "str_or_empty (strip_reasoning_delta d) ''content'' = str_or_empty d ''content''"
  using assms by (simp_all add: strip_reasoning_delta_def null_or_absent_def delta_simps str_or_empty_absent)

lemma mirror_reasoning_delta_laws:
  assumes "is_object d"
  shows "is_object (mirror_reasoning_delta d)"
    and "json_get (mirror_reasoning_delta d) ''reasoning_content'' = None"
    and "str_or_empty (mirror_reasoning_delta d) ''content'' =
      (if str_or_empty d ''reasoning_content'' \<noteq> [] then str_or_empty d ''reasoning_content''
       else str_or_empty d ''content'')"
proof -
  show "is_object (mirror_reasoning_delta d)" "json_get (mirror_reasoning_delta d) ''reasoning_content'' = None"
    using assms by (simp_all add: mirror_reasoning_delta_def delta_simps split: option.split)
  show "str_or_empty (mirror_reasoning_delta d) ''content'' =
      (if str_or_empty d ''reasoning_content'' \<noteq> [] then str_or_empty d ''reasoning_content''
       else str_or_empty d ''content'')"
  proof (cases "json_get d ''reasoning_content''")
    case None
    then show ?thesis
      using assms by (simp add: mirror_reasoning_delta_def delta_simps str_or_empty_absent)
  next
    case (Some rc)
    then have "str_or_empty d ''reasoning_content'' = (case as_str rc of Some s \<Rightarrow> s | None \<Rightarrow> [])"
      by (simp add: str_or_empty_def json_get_str_def)
    then show ?thesis
      using assms Some by (simp add: mirror_reasoning_delta_def delta_simps str_or_empty_absent)
  qed
qed

lemma adapt_delta_laws:
  assumes "is_object d"
  shows "is_object (adapt_delta d)"
    and "json_get (adapt_delta d) ''reasoning_content'' = None"
    and "str_or_empty (adapt_delta d) ''content'' =
      str_or_empty d ''reasoning_content'' @ str_or_empty d ''content''"
  using assms
  by (simp_all add: adapt_delta_def delta_simps str_or_empty_absent)

lemma adapt_choices_map: "snd (adapt_choices m cs) = map (map_part ''delta'' adapt_delta) cs"
  by (induction m cs rule: adapt_choices.induct)
    (auto simp: map_part_def update_field_def json_insert_same split: option.split prod.split)

lemma strip_deltas:
  "choice_deltas i (strip_reasoning_delta_for_client v) = map strip_reasoning_delta (choice_deltas i v)"
  unfolding strip_reasoning_delta_for_client_def by (rule choice_deltas_map) (rule strip_reasoning_delta_laws)

lemma mirror_deltas:
  "choice_deltas i (mirror_reasoning_delta_incremental v) = map mirror_reasoning_delta (choice_deltas i v)"
  unfolding mirror_reasoning_delta_incremental_def
  by (rule choice_deltas_map) (rule mirror_reasoning_delta_laws)

lemma adapter_deltas:
  "choice_deltas i (snd (adapter_rewrite_chunk a v)) = map adapt_delta (choice_deltas i v)"
proof (cases "choices_of v")
  case (Some cs)
  obtain kvs where "v = JObj kvs"
    using Some by (auto simp: choices_of_def bind_eq_Some_conv dest: json_get_SomeD)
  then have "choices_of (snd (adapter_rewrite_chunk a v)) = Some (map (map_part ''delta'' adapt_delta) cs)"
    using Some adapt_choices_map [of "open_choices (remember_chunk_metadata a v)" cs]
    by (auto simp: adapter_rewrite_chunk_def choices_of_def Let_def update_conv' split: prod.split)
  then show ?thesis
    using Some raw_deltas_map_part [of adapt_delta i cs] adapt_delta_laws(1) by (simp add: choice_deltas_def)
qed (simp add: adapter_rewrite_chunk_def choice_deltas_def remember_chunk_metadata_def raw_deltas_def
    List.map_filter_def Let_def)

text \<open>
  In no display mode does a delta reach the client with a reasoning field: not when reasoning is
  stripped, not when it is mirrored, and not through the display adapter, whatever its state.
\<close>
theorem client_never_sees_reasoning_field:
  "list_all (\<lambda>d. json_get d ''reasoning_content'' = None)
     (choice_deltas i (strip_reasoning_delta_for_client chunk) @
      choice_deltas i (mirror_reasoning_delta_incremental chunk) @
      choice_deltas i (snd (adapter_rewrite_chunk a chunk)))"
  by (auto simp: strip_deltas mirror_deltas adapter_deltas list_all_iff strip_reasoning_delta_laws
      mirror_reasoning_delta_laws adapt_delta_laws dest: choice_deltas_objects)

text \<open>
  The text a client gets for a choice: with reasoning hidden exactly the upstream's text, through
  the display adapter each delta's reasoning followed by its text, and without an adapter the
  reasoning in place of the text, so that a delta with both loses its text.
\<close>
theorem client_text_by_display_mode:
  "delta_text ''content'' i (strip_reasoning_delta_for_client chunk) = delta_text ''content'' i chunk \<and>
   delta_text ''content'' i (snd (adapter_rewrite_chunk a chunk)) =
     concat (map (\<lambda>d. str_or_empty d ''reasoning_content'' @ str_or_empty d ''content'') (choice_deltas i chunk)) \<and>
   delta_text ''content'' i (mirror_reasoning_delta_incremental chunk) =
     concat (map (\<lambda>d. if str_or_empty d ''reasoning_content'' \<noteq> [] then str_or_empty d ''reasoning_content''
                      else str_or_empty d ''content'') (choice_deltas i chunk))"
  unfolding delta_text_def strip_deltas mirror_deltas adapter_deltas map_map o_def
  by (intro conjI arg_cong [where f = concat] map_cong refl)
    (auto simp: strip_reasoning_delta_laws mirror_reasoning_delta_laws adapt_delta_laws
      dest: choice_deltas_objects)

text \<open>
  Silent stripping, which treats each delta as a whole message, removes the line breaks a delta
  starts with: a text sent in deltas loses its line structure although it has no markup at all.
\<close>
theorem silent_strip_drops_line_breaks:
  assumes "replace (nl @ t) = nl @ t" and "replace t = t"
  shows "strip_silent_sse_chunk_for_client replace
      (JObj [(''choices'', JArr [JObj [(''delta'', JObj [(''content'', JStr (nl @ t))])]])]) =
    strip_silent_sse_chunk_for_client replace
      (JObj [(''choices'', JArr [JObj [(''delta'', JObj [(''content'', JStr t)])]])])"
  using assms
  by (simp add: strip_silent_sse_chunk_for_client_def strip_reasoning_delta_for_client_def map_choices_def
      update_field_def map_part_def is_object_def strip_reasoning_delta_def null_or_absent_def Let_def
      sanitize_content_field_def json_get_str_def sanitize_client_message_content_def
      strip_cursor_thinking_blocks_def nl_def)

theorem silent_strip_drops_line_breaks_witness:
  "strip_silent_sse_chunk_for_client id
      (JObj [(''choices'', JArr [JObj [(''delta'', JObj [(''content'', JStr (nl @ ''x''))])]])]) =
    strip_silent_sse_chunk_for_client id
      (JObj [(''choices'', JArr [JObj [(''delta'', JObj [(''content'', JStr ''x'')])]])])"
  by (rule silent_strip_drops_line_breaks) simp_all

section \<open>Completions\<close>

lemma fold_message_content:
  assumes "is_object m"
  shows "str_or_empty (fold_message c m) ''content'' =
    (if str_or_empty m ''reasoning_content'' = [] then str_or_empty m ''content''
     else block_start c @ str_or_empty m ''reasoning_content'' @ block_end c @ str_or_empty m ''content'')"
  using assms by (simp add: fold_message_def delta_simps)

lemma folded_message_keeps_reasoning:
  assumes "is_object m"
  shows "json_get (fold_message c m) ''reasoning_content'' = json_get m ''reasoning_content''"
  using assms by (simp add: fold_message_def delta_simps)

end
