(* ===== verification/SseEvents.thy ===== *)
theory SseEvents
  imports RateLimitPolicy
begin

text \<open>
  Server-sent events (\<^verbatim>\<open>src/crates/crab-proxy/src/sse.rs\<close>): the parser of a chunk, the
  rate-limit and usage readings of an event and the printer. A chunk is a list of bytes, one
  character each; whether it is valid UTF-8 is an argument, as is the JSON parser. Trimming acts on
  ASCII white space.
\<close>

section \<open>Events\<close>

record sse_event =
  ev_event :: "string option"
  ev_data :: string

definition ev_is_done :: "sse_event \<Rightarrow> bool" where
  "ev_is_done e \<longleftrightarrow> trim (ev_data e) = ''[DONE]''"

definition error_is_rate_limit :: "json \<Rightarrow> bool" where
  "error_is_rate_limit error =
     ((case json_get_str error ''type'' of
         Some t \<Rightarrow> str_contains (to_lowercase t) ''rate_limit'' \<or> to_lowercase t = ''insufficient_quota'' \<or>
                   to_lowercase t = ''usage_limit_reached''
       | None \<Rightarrow> False) \<or>
      (case json_get_str error ''code'' of
         Some c \<Rightarrow> str_contains (to_lowercase c) ''rate_limit''
       | None \<Rightarrow> False) \<or>
      (case json_get_str error ''message'' of
         Some msg \<Rightarrow>
           (let m = to_lowercase msg
            in str_contains m ''rate limit'' \<or> str_contains m ''rate_limit'' \<or>
               str_contains m ''too many requests'' \<or> str_contains m ''high demand'' \<or>
               str_contains m ''at capacity'' \<or> str_contains m ''usage limit'')
       | None \<Rightarrow> False))"

definition ev_is_rate_limit_error :: "json_parser \<Rightarrow> sse_event \<Rightarrow> bool" where
  "ev_is_rate_limit_error parse e =
     (if ev_event e = Some ''error'' then True
      else (let data = trim (ev_data e) in
        if data = ''[DONE]'' \<or> data = [] then False
        else if body_indicates_codex_rate_limit parse data then True
        else if length data < 10 then False
        else (case parse data of
                None \<Rightarrow> False
              | Some val \<Rightarrow>
                  (case json_get val ''error'' of None \<Rightarrow> False | Some error \<Rightarrow> error_is_rate_limit error))))"

record usage_data =
  prompt_tokens :: nat
  completion_tokens :: nat
  prompt_cache_hit_tokens :: nat
  prompt_cache_miss_tokens :: nat

definition u64_or_zero :: "json \<Rightarrow> string \<Rightarrow> nat" where
  \<comment> \<open>\<open>v.get(k).and_then(|x| x.as_u64()).unwrap_or(0)\<close>\<close>
  "u64_or_zero v k = (case Option.bind (json_get v k) as_u64 of Some n \<Rightarrow> n | None \<Rightarrow> 0)"

definition ev_parse_usage :: "json_parser \<Rightarrow> sse_event \<Rightarrow> usage_data option" where
  "ev_parse_usage parse e =
     (if trim (ev_data e) = ''[DONE]'' then None
      else case parse (ev_data e) of
        None \<Rightarrow> None
      | Some value \<Rightarrow>
          (case json_get value ''usage'' of
             None \<Rightarrow> None
           | Some usage \<Rightarrow>
               (let prompt = u64_or_zero usage ''prompt_tokens'';
                    completion = u64_or_zero usage ''completion_tokens'';
                    input = u64_or_zero usage ''input_tokens'';
                    output = u64_or_zero usage ''output_tokens'';
                    p = (if 0 < prompt then prompt else input);
                    c = (if 0 < completion then completion else output)
                in if p = 0 \<and> c = 0 then None
                   else Some \<lparr>prompt_tokens = p, completion_tokens = c,
                              prompt_cache_hit_tokens = u64_or_zero usage ''prompt_cache_hit_tokens'',
                              prompt_cache_miss_tokens = u64_or_zero usage ''prompt_cache_miss_tokens''\<rparr>)))"

section \<open>Parsing and printing chunks\<close>

definition is_nl :: "char \<Rightarrow> bool" where
  "is_nl c \<longleftrightarrow> c = CHR 0x0A"

function chunk_lines :: "string \<Rightarrow> string list" where
  \<comment> \<open>the lines of the \<open>memchr\<close> loop, without their line feeds\<close>
  "chunk_lines s =
     (if s = [] then []
      else takeWhile (\<lambda>c. \<not> is_nl c) s # chunk_lines (tl (dropWhile (\<lambda>c. \<not> is_nl c) s)))"
  by pat_completeness auto

termination chunk_lines
proof (relation "measure length", simp)
  fix s :: string
  assume "s \<noteq> []"
  moreover have "length (dropWhile (\<lambda>c. \<not> is_nl c) s) \<le> length s" by (rule length_dropWhile_le)
  ultimately show "(tl (dropWhile (\<lambda>c. \<not> is_nl c) s), s) \<in> measure length"
    by (cases s) (auto simp: length_dropWhile_le less_Suc_eq_le)
qed

declare chunk_lines.simps [simp del]

fun set_last_event :: "string \<Rightarrow> sse_event list \<Rightarrow> sse_event list" where
  \<comment> \<open>\<open>if let Some(last) = events.last_mut() { last.event = Some(event) }\<close>\<close>
  "set_last_event ev [] = []"
| "set_last_event ev [e] = [e\<lparr>ev_event := Some ev\<rparr>]"
| "set_last_event ev (e # f # es) = e # set_last_event ev (f # es)"

definition parse_line :: "sse_event list \<Rightarrow> string \<Rightarrow> sse_event list" where
  \<comment> \<open>\<open>trim_end_matches('\r')\<close> followed by \<open>trim()\<close> is \<open>trim()\<close>\<close>
  "parse_line events line =
     (case strip_prefix (trim line) ''data: '' of
        Some data \<Rightarrow> events @ [\<lparr>ev_event = None, ev_data = data\<rparr>]
      | None \<Rightarrow>
          (case strip_prefix (trim line) ''event: '' of
             Some ev \<Rightarrow> set_last_event ev events
           | None \<Rightarrow> events))"

definition parse_sse_chunk :: "(string \<Rightarrow> bool) \<Rightarrow> string \<Rightarrow> sse_event list" where
  "parse_sse_chunk utf8 chunk =
     (if \<not> utf8 chunk then [] else foldl parse_line [] (chunk_lines chunk))"

definition sse_bytes_contains_event :: "json_parser \<Rightarrow> (string \<Rightarrow> bool) \<Rightarrow> string \<Rightarrow> string \<Rightarrow> bool" where
  "sse_bytes_contains_event parse utf8 bytes event_type =
     list_ex (\<lambda>e. \<not> ev_is_done e \<and>
                  (case parse (ev_data e) of
                     Some val \<Rightarrow> json_get_str val ''type'' = Some event_type
                   | None \<Rightarrow> False))
       (parse_sse_chunk utf8 bytes)"

definition print_event :: "sse_event \<Rightarrow> string" where
  "print_event e =
     (case ev_event e of Some ev \<Rightarrow> ''event: '' @ ev @ nl | None \<Rightarrow> []) @
     ''data: '' @ ev_data e @ nl @ nl"

definition reconstruct_sse_data :: "sse_event list \<Rightarrow> string" where
  "reconstruct_sse_data events = concat (map print_event events)"

definition extract_usage_from_bytes :: "json_parser \<Rightarrow> (string \<Rightarrow> bool) \<Rightarrow> string \<Rightarrow> usage_data option" where
  \<comment> \<open>the first event with usage (\<open>sse_pipeline/mod.rs\<close>)\<close>
  "extract_usage_from_bytes parse utf8 bytes =
     (case List.map_filter (ev_parse_usage parse) (parse_sse_chunk utf8 bytes) of
        u # _ \<Rightarrow> Some u
      | [] \<Rightarrow> None)"

section \<open>Round trip\<close>

lemma chunk_lines_Nil [simp]: "chunk_lines [] = []"
  by (simp add: chunk_lines.simps)

lemma chunk_lines_line:
  assumes "list_all (\<lambda>c. \<not> is_nl c) l"
  shows "chunk_lines (l @ nl @ rest) = l # chunk_lines rest"
proof -
  have "is_nl (CHR 0x0A)" by (simp add: is_nl_def)
  then have "takeWhile (\<lambda>c. \<not> is_nl c) (l @ nl @ rest) = l"
    "dropWhile (\<lambda>c. \<not> is_nl c) (l @ nl @ rest) = nl @ rest"
    using assms by (simp_all add: takeWhile_append dropWhile_append nl_def list_all_iff)
  then show ?thesis by (subst chunk_lines.simps) (simp add: nl_def)
qed

definition printable :: "string \<Rightarrow> bool" where
  \<comment> \<open>a text that survives on a line of its own\<close>
  "printable s \<longleftrightarrow> s \<noteq> [] \<and> list_all (\<lambda>c. \<not> is_nl c) s \<and> trim s = s"

lemma trim_fixed_last:
  assumes "trim d = d" "d \<noteq> []"
  shows "\<not> is_space (List.last d)"
proof -
  let ?b = "dropWhile is_space (rev (dropWhile is_space d))"
  have d: "d = rev ?b" using assms(1) by (simp add: trim_def)
  then have b: "?b \<noteq> []" using assms(2) by (metis rev_is_Nil_conv)
  have "List.last d = hd ?b" using d b by (metis last_rev)
  then show ?thesis using hd_dropWhile [OF b] by simp
qed

lemma trim_fixedI: "s \<noteq> [] \<Longrightarrow> \<not> is_space (hd s) \<Longrightarrow> \<not> is_space (List.last s) \<Longrightarrow> trim s = s"
  unfolding trim_def by (simp add: dropWhile_hd hd_rev)

lemma trim_prefixed:
  assumes "printable d" "p \<noteq> []" "\<not> is_space (hd p)"
  shows "trim (p @ d) = p @ d"
  using assms trim_fixed_last [of d] by (intro trim_fixedI) (auto simp: printable_def)

lemma parse_data_line:
  assumes "printable d"
  shows "parse_line es (''data: '' @ d) = es @ [\<lparr>ev_event = None, ev_data = d\<rparr>]"
proof -
  have "trim (''data: '' @ d) = ''data: '' @ d" by (rule trim_prefixed [OF assms]) (simp_all add: is_space_def)
  then show ?thesis by (simp add: parse_line_def strip_prefix_def)
qed

lemma parse_event_line:
  assumes "printable ev"
  shows "parse_line es (''event: '' @ ev) = set_last_event ev es"
proof -
  have "trim (''event: '' @ ev) = ''event: '' @ ev" by (rule trim_prefixed [OF assms]) (simp_all add: is_space_def)
  then show ?thesis by (simp add: parse_line_def strip_prefix_def)
qed

lemma parse_empty_line [simp]: "parse_line es [] = es"
  by (simp add: parse_line_def strip_prefix_def)

lemma set_last_event_snoc [simp]: "set_last_event ev (es @ [e]) = es @ [e\<lparr>ev_event := Some ev\<rparr>]"
proof (induction es)
  case (Cons f es)
  then show ?case by (cases es) simp_all
qed simp

definition printable_event :: "sse_event \<Rightarrow> bool" where
  "printable_event e \<longleftrightarrow> printable (ev_data e) \<and> (\<forall>ev. ev_event e = Some ev \<longrightarrow> printable ev)"

definition name_last :: "string option \<Rightarrow> sse_event list \<Rightarrow> sse_event list" where
  "name_last n es = (case n of Some ev \<Rightarrow> set_last_event ev es | None \<Rightarrow> es)"

fun shift_names :: "sse_event list \<Rightarrow> sse_event list" where
  \<comment> \<open>every event has the name of its successor\<close>
  "shift_names [] = []"
| "shift_names [e] = [e\<lparr>ev_event := None\<rparr>]"
| "shift_names (e # f # es) = e\<lparr>ev_event := ev_event f\<rparr> # shift_names (f # es)"

lemma unnamed_event: "e\<lparr>ev_event := None\<rparr> = \<lparr>ev_event = None, ev_data = ev_data e\<rparr>"
  by (cases e) simp

lemma parse_printed_event:
  assumes "printable_event e"
  shows "foldl parse_line es (chunk_lines (print_event e @ rest)) =
    foldl parse_line (name_last (ev_event e) es @ [e\<lparr>ev_event := None\<rparr>]) (chunk_lines rest)"
proof -
  have data: "foldl parse_line fs (chunk_lines (''data: '' @ ev_data e @ nl @ nl @ rest)) =
      foldl parse_line (fs @ [e\<lparr>ev_event := None\<rparr>]) (chunk_lines rest)" for fs
    using assms chunk_lines_line [of "''data: '' @ ev_data e" "nl @ rest"] chunk_lines_line [of "[]" rest]
      parse_data_line [of "ev_data e" fs]
    by (simp add: printable_event_def printable_def is_nl_def unnamed_event)
  show ?thesis
  proof (cases "ev_event e")
    case None
    then show ?thesis using data by (simp add: print_event_def name_last_def)
  next
    case (Some ev)
    then have p: "printable ev" using assms by (simp add: printable_event_def)
    then have "chunk_lines (''event: '' @ ev @ nl @ r) = (''event: '' @ ev) # chunk_lines r" for r
      using chunk_lines_line [of "''event: '' @ ev" r] by (simp add: printable_def is_nl_def)
    then show ?thesis using data Some parse_event_line [OF p, of es]
      by (simp add: print_event_def name_last_def)
  qed
qed

lemma name_last_snoc [simp]: "name_last n (es @ [e\<lparr>ev_event := None\<rparr>]) = es @ [e\<lparr>ev_event := n\<rparr>]"
  by (simp add: name_last_def split: option.split)

lemma parse_printed_events:
  assumes "list_all printable_event es"
  shows "foldl parse_line acc (chunk_lines (reconstruct_sse_data es)) =
    name_last (case es of [] \<Rightarrow> None | e # _ \<Rightarrow> ev_event e) acc @ shift_names es"
  using assms
proof (induction es arbitrary: acc)
  case Nil
  then show ?case by (simp add: reconstruct_sse_data_def name_last_def)
next
  case (Cons e es)
  have "foldl parse_line acc (chunk_lines (reconstruct_sse_data (e # es))) =
    foldl parse_line (name_last (ev_event e) acc @ [e\<lparr>ev_event := None\<rparr>]) (chunk_lines (reconstruct_sse_data es))"
    using parse_printed_event [of e acc] Cons.prems by (simp add: reconstruct_sse_data_def)
  also have "\<dots> = name_last (ev_event e) acc @ shift_names (e # es)"
    using Cons by (cases es) (simp_all add: name_last_def [of None])
  finally show ?case by simp
qed

text \<open>
  Printing events and parsing them again returns them, except for their names: the parser gives
  a name to the data line before it while the printer, like the protocol, writes it before its own
  data. So every event comes back with the name of its successor and the first name is lost; events
  without names come back unchanged.
\<close>
theorem printed_events_parse_back:
  assumes "list_all printable_event es" and "utf8 (reconstruct_sse_data es)"
  shows "parse_sse_chunk utf8 (reconstruct_sse_data es) = shift_names es \<and>
    (list_all (\<lambda>e. ev_event e = None) es \<longrightarrow> shift_names es = es)"
proof
  show "parse_sse_chunk utf8 (reconstruct_sse_data es) = shift_names es"
    using parse_printed_events [OF assms(1), of "[]"] assms(2)
    by (simp add: parse_sse_chunk_def name_last_def split: option.split)
  show "list_all (\<lambda>e. ev_event e = None) es \<longrightarrow> shift_names es = es"
    by (induction es rule: shift_names.induct) auto
qed

theorem printed_events_parse_back_witness:
  "parse_sse_chunk (\<lambda>_. True)
     (reconstruct_sse_data [\<lparr>ev_event = Some ''delta'', ev_data = ''{}''\<rparr>, \<lparr>ev_event = Some ''end'', ev_data = ''[]''\<rparr>]) =
   shift_names [\<lparr>ev_event = Some ''delta'', ev_data = ''{}''\<rparr>, \<lparr>ev_event = Some ''end'', ev_data = ''[]''\<rparr>]"
  using printed_events_parse_back
    [of "[\<lparr>ev_event = Some ''delta'', ev_data = ''{}''\<rparr>, \<lparr>ev_event = Some ''end'', ev_data = ''[]''\<rparr>]" "\<lambda>_. True"]
  by (simp add: printable_event_def printable_def is_nl_def trim_def is_space_def)

end
