(* ===== verification/SseRewrite.thy ===== *)
theory SseRewrite
  imports SseTransform SseEvents
begin

text \<open>
  Rewriting of an upstream event stream, line by line:
  \<^verbatim>\<open>rewrite_sse_chunk\<close> (\<^verbatim>\<open>src/crates/crab-reasoning/src/transform.rs\<close>) and the
  buffering around it (\<^verbatim>\<open>src/crates/crab-proxy/src/sse_rewrite.rs\<close>). Shown: the chunks in
  which a stream arrives do not matter to the rewriting with a remainder buffer, and do matter to the
  silent stripping without one.
\<close>

section \<open>Lines\<close>

definition line_space :: "char \<Rightarrow> bool" where
  \<comment> \<open>\<open>b" \t\r\n".contains(&b)\<close>\<close>
  "line_space c \<longleftrightarrow> c = CHR '' '' \<or> c = CHR 0x09 \<or> c = CHR 0x0D \<or> c = CHR 0x0A"

definition strip_line :: "string \<Rightarrow> string" where
  \<comment> \<open>between the first and the last byte that is no white space, the line itself if there is none\<close>
  "strip_line line =
     (if list_all line_space line then line
      else rev (dropWhile line_space (rev (dropWhile line_space line))))"

definition ascii_whitespace :: "char \<Rightarrow> bool" where
  "ascii_whitespace c \<longleftrightarrow> c = CHR '' '' \<or> c = CHR 0x09 \<or> c = CHR 0x0A \<or> c = CHR 0x0C \<or> c = CHR 0x0D"

definition line_data :: "string \<Rightarrow> string option" where
  \<comment> \<open>the payload of a \<open>data:\<close> line\<close>
  "line_data line = map_option (dropWhile ascii_whitespace) (strip_prefix (strip_line line) ''data:'')"

definition line_ending :: "string \<Rightarrow> string" where
  "line_ending line = (if ends_with line [CHR 0x0D, CHR 0x0A] then [CHR 0x0D, CHR 0x0A] else nl)"

definition sse_data :: "(json \<Rightarrow> string) \<Rightarrow> json \<Rightarrow> string" where
  "sse_data ser payload = ''data: '' @ ser payload @ nl @ nl"

section \<open>One line\<close>

definition recovery_notice_chunk :: "nat \<Rightarrow> string \<Rightarrow> string \<Rightarrow> json" where
  "recovery_notice_chunk now model notice =
     JObj [(''choices'', JArr [JObj [(''delta'', JObj [(''content'', JStr notice)]),
                                     (''finish_reason'', JNull), (''index'', JInt 0)]]),
           (''created'', JInt (int now)),
           (''id'', JStr ''chatcmpl-deepseek-cursor-proxy-recovery''),
           (''model'', JStr model),
           (''object'', JStr ''chat.completion.chunk'')]"

fun inject_first :: "string \<Rightarrow> json list \<Rightarrow> (json list) option" where
  \<comment> \<open>the first choice whose delta has content or tool calls gets the notice\<close>
  "inject_first notice [] = None"
| "inject_first notice (choice # cs) =
     (case json_get choice ''delta'' of
        Some d \<Rightarrow>
          if is_object d \<and> (json_get d ''content'' \<noteq> None \<or> json_get d ''tool_calls'' \<noteq> None)
          then Some (json_insert choice ''delta''
                       (json_insert d ''content'' (JStr (notice @ str_or_empty d ''content''))) # cs)
          else map_option ((#) choice) (inject_first notice cs)
      | None \<Rightarrow> map_option ((#) choice) (inject_first notice cs))"

definition inject_recovery_notice :: "json \<Rightarrow> string \<Rightarrow> json option" where
  "inject_recovery_notice chunk notice =
     (case choices_of chunk of
        None \<Rightarrow> None
      | Some cs \<Rightarrow> map_option (\<lambda>cs'. json_insert chunk ''choices'' (JArr cs')) (inject_first notice cs))"

record 'b sse_env =
  se_parse :: json_parser
  se_ser :: "json \<Rightarrow> string"
  se_now :: nat
  se_original_model :: string
  se_contexts :: "(string \<times> json list) list"
  se_display_reasoning :: bool
  se_file :: "'b filing"

record 'b sse_state =
  ss_accumulator :: stream_accumulator
  ss_adapter :: "display_adapter option"
  ss_notice :: "string option"
  ss_store :: "'b option"

record sse_rewrite_result =
  rewritten_line :: string
  sr_finalized :: bool
  chunk_usage :: "json option"

type_synonym 'b storing = "('b \<Rightarrow> json \<Rightarrow> 'b \<times> nat) \<Rightarrow> stream_accumulator \<Rightarrow> 'b \<Rightarrow> string \<Rightarrow> stream_accumulator \<times> 'b \<times> nat"

definition store_in_contexts :: "'b storing \<Rightarrow> 'b sse_env \<Rightarrow> 'b sse_state \<Rightarrow> 'b sse_state" where
  \<comment> \<open>\<open>if let Some(store) = store { contexts.iter().map(store_...).sum() }\<close>\<close>
  "store_in_contexts storing env st =
     (case ss_store st of
        None \<Rightarrow> st
      | Some b \<Rightarrow>
          (case foldl (\<lambda>(acc, b, n) (scope, prior).
                         case storing (\<lambda>b m. se_file env b scope prior m) acc b scope of
                           (acc', b', k) \<Rightarrow> (acc', b', n + k))
                  (ss_accumulator st, b, 0) (se_contexts env) of
             (acc, b, _) \<Rightarrow> st\<lparr>ss_accumulator := acc, ss_store := Some b\<rparr>))"

definition rewrite_done :: "'b sse_env \<Rightarrow> 'b sse_state \<Rightarrow> 'b sse_state \<times> sse_rewrite_result" where
  "rewrite_done env st =
     (let st = store_in_contexts store_reasoning env st;
          closing = (case ss_adapter st of
                       None \<Rightarrow> (None, [])
                     | Some a \<Rightarrow>
                         (case adapter_flush_chunk a of
                            (a', c) \<Rightarrow> (Some a', case c of Some v \<Rightarrow> sse_data (se_ser env) v | None \<Rightarrow> [])));
          notice = (case ss_notice st of
                      Some n \<Rightarrow> sse_data (se_ser env) (recovery_notice_chunk (se_now env) (se_original_model env) n)
                    | None \<Rightarrow> [])
      in (st\<lparr>ss_adapter := fst closing, ss_notice := None\<rparr>,
          \<lparr>rewritten_line = snd closing @ notice @ ''data: [DONE]'' @ nl @ nl, sr_finalized = True,
           chunk_usage = None\<rparr>))"

definition apply_notice :: "string option \<Rightarrow> json \<Rightarrow> string option \<times> json" where
  "apply_notice notice chunk =
     (case notice of
        None \<Rightarrow> (None, chunk)
      | Some n \<Rightarrow>
          (case inject_recovery_notice chunk n of Some c \<Rightarrow> (None, c) | None \<Rightarrow> (Some n, chunk)))"

definition display_chunk :: "bool \<Rightarrow> display_adapter option \<Rightarrow> json \<Rightarrow> display_adapter option \<times> json" where
  "display_chunk display_reasoning adapter chunk =
     (if display_reasoning
      then (case adapter of
              Some a \<Rightarrow> (case adapter_rewrite_chunk a chunk of (a', c) \<Rightarrow> (Some a', c))
            | None \<Rightarrow> (None, mirror_reasoning_delta_incremental chunk))
      else (adapter, strip_reasoning_delta_for_client chunk))"

definition rewrite_data :: "'b sse_env \<Rightarrow> 'b sse_state \<Rightarrow> string \<Rightarrow> json \<Rightarrow> 'b sse_state \<times> sse_rewrite_result" where
  "rewrite_data env st line chunk =
     (case apply_notice (ss_notice st) chunk of
        (notice, chunk) \<Rightarrow>
          (let acc = ingest_chunk (ss_accumulator st) chunk;
               shown = display_chunk (se_display_reasoning env) (ss_adapter st) chunk;
               st = store_in_contexts store_ready_reasoning env
                      (st\<lparr>ss_accumulator := acc, ss_adapter := fst shown, ss_notice := notice\<rparr>)
           in (st, \<lparr>rewritten_line =
                      ''data: '' @ se_ser env (set_model (se_original_model env) (snd shown)) @ line_ending line,
                    sr_finalized = False, chunk_usage = json_get chunk ''usage''\<rparr>)))"

definition unchanged_line :: "string \<Rightarrow> sse_rewrite_result" where
  "unchanged_line line = \<lparr>rewritten_line = line, sr_finalized = False, chunk_usage = None\<rparr>"

definition rewrite_sse_chunk :: "'b sse_env \<Rightarrow> 'b sse_state \<Rightarrow> string \<Rightarrow> 'b sse_state \<times> sse_rewrite_result" where
  "rewrite_sse_chunk env st line =
     (case line_data line of
        None \<Rightarrow> (st, unchanged_line line)
      | Some data \<Rightarrow>
          if data = ''[DONE]'' then rewrite_done env st
          else (case se_parse env data of
                  None \<Rightarrow> (st, unchanged_line line)
                | Some chunk \<Rightarrow>
                    if \<not> is_object chunk then (st, unchanged_line line)
                    else rewrite_data env st line chunk))"

section \<open>Silent stripping of a chunk\<close>

function split_inclusive :: "string \<Rightarrow> string list" where
  \<comment> \<open>\<open>chunk.split_inclusive(|&b| b == b'\n')\<close>\<close>
  "split_inclusive s =
     (if s = [] then []
      else case first_index is_nl s of
             Some i \<Rightarrow> take (Suc i) s # split_inclusive (drop (Suc i) s)
           | None \<Rightarrow> [s])"
  by pat_completeness auto

termination split_inclusive
  by (relation "measure length") auto

declare split_inclusive.simps [simp del]

definition silent_strip_line :: "json_parser \<Rightarrow> (json \<Rightarrow> string) \<Rightarrow> (string \<Rightarrow> string) \<Rightarrow> string \<Rightarrow> string" where
  "silent_strip_line parse ser replace line =
     (case line_data line of
        Some data \<Rightarrow>
          if data \<noteq> ''[DONE]''
          then (case parse data of
                  Some payload \<Rightarrow>
                    if is_object payload
                    then ''data: '' @ ser (strip_silent_sse_chunk_for_client replace payload) @ line_ending line
                    else line
                | None \<Rightarrow> line)
          else line
      | None \<Rightarrow> line)"

definition apply_silent_strip_to_sse_chunk ::
    "json_parser \<Rightarrow> (json \<Rightarrow> string) \<Rightarrow> (string \<Rightarrow> string) \<Rightarrow> string \<Rightarrow> string" where
  "apply_silent_strip_to_sse_chunk parse ser replace chunk =
     concat (map (silent_strip_line parse ser replace) (split_inclusive chunk))"

section \<open>The remainder buffer\<close>

definition next_line :: "string \<Rightarrow> (string \<times> string) option" where
  \<comment> \<open>\<open>remainder.iter().position(b'\n')\<close>, \<open>remainder.drain(..=pos)\<close>\<close>
  "next_line buf =
     (case first_index is_nl buf of Some pos \<Rightarrow> Some (take (Suc pos) buf, drop (Suc pos) buf) | None \<Rightarrow> None)"

function drain_lines :: "('s \<Rightarrow> string \<Rightarrow> 's \<times> string) \<Rightarrow> 's \<Rightarrow> string \<Rightarrow> 's \<times> string \<times> string" where
  \<comment> \<open>the \<open>while let\<close> loop over complete lines: state, output, remainder\<close>
  "drain_lines step st buf =
     (case next_line buf of
        None \<Rightarrow> (st, [], buf)
      | Some (line, rest) \<Rightarrow>
          (case step st line of
             (st', out) \<Rightarrow>
               (case drain_lines step st' rest of (st'', out', r) \<Rightarrow> (st'', out @ out', r))))"
  by pat_completeness auto

termination drain_lines
  by (relation "measure (\<lambda>(step, st, buf). length buf)")
    (auto simp: next_line_def dest: first_index_SomeD split: option.splits)

declare drain_lines.simps [simp del]

definition rewrite_step :: "'b sse_env \<Rightarrow> 'b sse_state \<times> bool \<Rightarrow> string \<Rightarrow> ('b sse_state \<times> bool) \<times> string" where
  \<comment> \<open>the loop body; the state carries the \<open>finalized\<close> flag\<close>
  "rewrite_step env s line =
     (if list_all (\<lambda>c. c = CHR 0x0A \<or> c = CHR 0x0D) line then (s, line)
      else (case s of (st, fin) \<Rightarrow>
              (case rewrite_sse_chunk env st line of
                 (st', r) \<Rightarrow> ((st', fin \<or> sr_finalized r), rewritten_line r))))"

definition rewrite_upstream_sse_bytes ::
    "'b sse_env \<Rightarrow> 'b sse_state \<Rightarrow> string \<Rightarrow> string \<Rightarrow> bool \<Rightarrow> 'b sse_state \<times> string \<times> string \<times> bool" where
  \<comment> \<open>state, remainder, output, finalized\<close>
  "rewrite_upstream_sse_bytes env st remainder chunk flush_remainder =
     (case drain_lines (rewrite_step env) (st, False) (remainder @ chunk) of
        ((st, fin), out, remainder) \<Rightarrow>
          if flush_remainder \<and> remainder \<noteq> []
          then (case rewrite_sse_chunk env st (if ends_with remainder nl then remainder else remainder @ nl) of
                  (st', r) \<Rightarrow> (st', [], out @ rewritten_line r, fin \<or> sr_finalized r))
          else (st, remainder, out, fin))"

definition flush_streaming_reasoning ::
    "'b filing \<Rightarrow> bool \<Rightarrow> (string \<times> json list) list option \<Rightarrow> stream_accumulator option \<Rightarrow> 'b \<Rightarrow>
     stream_accumulator option \<times> 'b \<times> nat" where
  \<comment> \<open>the contexts are those of the prepared request, if there is one\<close>
  "flush_streaming_reasoning file reasoning_finalized ctxs accumulator b =
     (if reasoning_finalized then (accumulator, b, 0)
      else case (ctxs, accumulator) of
        (Some cs, Some acc) \<Rightarrow>
          if acc_messages acc = [] then (Some acc, b, 0)
          else (case foldl (\<lambda>(acc, b, n) (scope, prior).
                              case store_reasoning (\<lambda>b m. file b scope prior m) acc b scope of
                                (acc', b', k) \<Rightarrow> (acc', b', n + k)) (acc, b, 0) cs of
                  (acc, b, n) \<Rightarrow> (Some acc, b, n))
      | _ \<Rightarrow> (accumulator, b, 0))"

section \<open>The chunks of a stream do not matter\<close>

lemma first_index_append:
  "first_index P (xs @ ys) =
     (case first_index P xs of Some i \<Rightarrow> Some i | None \<Rightarrow> map_option (\<lambda>i. i + length xs) (first_index P ys))"
  by (induction xs) (auto simp: option.map_comp o_def option.map_ident split: option.split)

lemma next_line_append: "next_line buf = Some (line, rest) \<Longrightarrow> next_line (buf @ tail) = Some (line, rest @ tail)"
  by (auto simp: next_line_def first_index_append dest: first_index_SomeD split: option.splits)

lemma drain_lines_None: "next_line buf = None \<Longrightarrow> drain_lines step st buf = (st, [], buf)"
  by (simp add: drain_lines.simps)

lemma drain_lines_Some:
  "next_line buf = Some (line, rest) \<Longrightarrow>
   drain_lines step st buf =
     (case step st line of
        (st', out) \<Rightarrow> (case drain_lines step st' rest of (st'', out', r) \<Rightarrow> (st'', out @ out', r)))"
  by (simp add: drain_lines.simps [of step st buf])

lemma drain_lines_append:
  "drain_lines step st (buf @ tail) =
     (case drain_lines step st buf of
        (st', out, r) \<Rightarrow> (case drain_lines step st' (r @ tail) of (st'', out', r') \<Rightarrow> (st'', out @ out', r')))"
proof (induction step st buf rule: drain_lines.induct)
  case (1 step st buf)
  show ?case
  proof (cases "next_line buf")
    case None
    then show ?thesis by (simp add: drain_lines_None split: prod.split)
  next
    case (Some lr)
    then obtain line rest where lr: "next_line buf = Some (line, rest)" by (cases lr) auto
    obtain st' out where s: "step st line = (st', out)" by (metis surj_pair)
    show ?thesis
      using 1 [OF lr refl s [symmetric]]
      by (simp add: drain_lines_Some [OF lr] drain_lines_Some [OF next_line_append [OF lr]] s split: prod.split)
  qed
qed

lemma next_line_shorter: "next_line buf = Some (line, rest) \<Longrightarrow> length rest < length buf"
  by (auto simp: next_line_def dest: first_index_SomeD split: option.splits)

lemma rewrite_step_flag:
  "rewrite_step env (st, fin) line =
     (case rewrite_step env (st, False) line of ((st', fin'), out) \<Rightarrow> ((st', fin \<or> fin'), out))"
  by (simp add: rewrite_step_def split: prod.split)

lemma drain_lines_flag:
  "drain_lines (rewrite_step env) (st, fin) buf =
     (case drain_lines (rewrite_step env) (st, False) buf of ((st', fin'), out, r) \<Rightarrow> ((st', fin \<or> fin'), out, r))"
proof (induction "length buf" arbitrary: buf st fin rule: less_induct)
  case less
  show ?case
  proof (cases "next_line buf")
    case None
    then show ?thesis by (simp add: drain_lines_None)
  next
    case (Some lr)
    then obtain line rest where lr: "next_line buf = Some (line, rest)" by (cases lr) auto
    obtain st' f out where s: "rewrite_step env (st, False) line = ((st', f), out)" by (metis surj_pair)
    then have s': "rewrite_step env (st, fin) line = ((st', fin \<or> f), out)"
      by (simp add: rewrite_step_flag [of env st fin])
    note IH = less [OF next_line_shorter [OF lr]]
    show ?thesis
      unfolding drain_lines_Some [OF lr] s s' prod.case IH [of st' "fin \<or> f"] IH [of st' f]
      by (simp split: prod.split)
  qed
qed

definition feed :: "'b sse_env \<Rightarrow> 'b sse_state \<times> string \<times> string \<times> bool \<Rightarrow> string \<Rightarrow> 'b sse_state \<times> string \<times> string \<times> bool" where
  \<comment> \<open>the calls of a stream in sequence: state, remainder, all output, finalized by any of them\<close>
  "feed env s chunk =
     (case s of (st, remainder, out, fin) \<Rightarrow>
        (case rewrite_upstream_sse_bytes env st remainder chunk False of
           (st', remainder', out', fin') \<Rightarrow> (st', remainder', out @ out', fin \<or> fin')))"

lemma feed_append: "feed env (feed env s c) d = feed env s (c @ d)"
proof -
  obtain st r out fin where s: "s = (st, r, out, fin)" by (metis prod_cases4)
  obtain st' f o' r' where d: "drain_lines (rewrite_step env) (st, False) (r @ c) = ((st', f), o', r')"
    by (metis prod_cases3 surj_pair)
  show ?thesis
    using drain_lines_append [of "rewrite_step env" "(st, False)" "r @ c" d]
    by (simp add: s feed_def rewrite_upstream_sse_bytes_def d drain_lines_flag [of env st' f] split: prod.split)
qed

lemma next_line_remainder: "drain_lines step st buf = (st', out, r) \<Longrightarrow> next_line r = None"
proof (induction step st buf arbitrary: st' out rule: drain_lines.induct)
  case (1 step st buf)
  then show ?case by (auto simp: drain_lines.simps [of step st buf] split: option.splits prod.splits)
qed

lemma next_line_feeds:
  assumes "next_line buf = Some (line, rest)"
  shows "length (filter is_nl buf) = Suc (length (filter is_nl rest))"
proof -
  obtain i where i: "first_index is_nl buf = Some i" "rest = drop (Suc i) buf"
    using assms by (auto simp: next_line_def split: option.splits)
  then have "i < length buf" "is_nl (buf ! i)" "\<forall>j < i. \<not> is_nl (buf ! j)" by (auto dest: first_index_SomeD)
  then have "filter is_nl (take i buf) = []" "filter is_nl (drop i buf) = buf ! i # filter is_nl (drop (Suc i) buf)"
    by (auto simp: filter_empty_conv in_set_conv_nth Cons_nth_drop_Suc [symmetric])
  moreover have "filter is_nl buf = filter is_nl (take i buf) @ filter is_nl (drop i buf)"
    by (simp flip: filter_append)
  ultimately show ?thesis using i(2) by simp
qed

lemma no_next_line: "next_line buf = None \<Longrightarrow> filter is_nl buf = []"
  by (auto simp: next_line_def first_index_None_iff filter_empty_conv split: option.splits)

text \<open>
  The loop over the stream's buffer ends whatever its body does: it runs exactly once for every line
  feed in the buffer and leaves no complete line behind.
\<close>
theorem line_loop_ends:
  "\<exists>st' out r. drain_lines (\<lambda>(st, n) line. case step st line of (st', out) \<Rightarrow> ((st', Suc n), out)) (st, 0) buf =
     ((st', length (filter is_nl buf)), out, r) \<and> next_line r = None"
proof -
  have "\<exists>st' out r. drain_lines (\<lambda>(st, n) line. case step st line of (st', out) \<Rightarrow> ((st', Suc n), out)) (st, k) buf =
      ((st', k + length (filter is_nl buf)), out, r) \<and> next_line r = None" for st k
  proof (induction "length buf" arbitrary: buf st k rule: less_induct)
    case less
    show ?case
    proof (cases "next_line buf")
      case None
      then show ?thesis by (simp add: drain_lines_None no_next_line)
    next
      case (Some lr)
      then obtain line rest where lr: "next_line buf = Some (line, rest)" by (cases lr) auto
      obtain st1 out1 where s: "step st line = (st1, out1)" by fastforce
      from less [OF next_line_shorter [OF lr], of st1 "Suc k"] show ?thesis
        by (auto simp: drain_lines_Some [OF lr] s next_line_feeds [OF lr])
    qed
  qed
  from this [of st 0] show ?thesis by simp
qed

text \<open>
  C9. The way a stream is cut into chunks does not matter: feeding the chunks one after the other
  gives the client the same bytes, accumulates and files the same reasoning and leaves the same
  remainder as feeding the whole stream at once.
\<close>
theorem stream_chunking_irrelevant:
  "chunks \<noteq> [] \<Longrightarrow>
   foldl (feed env) (st, [], [], False) chunks = feed env (st, [], [], False) (concat chunks)"
proof -
  have "foldl (feed env) s (c # cs) = feed env s (concat (c # cs))" for s c cs
    by (induction cs arbitrary: s c) (simp_all add: feed_append)
  then show "chunks \<noteq> [] \<Longrightarrow>
   foldl (feed env) (st, [], [], False) chunks = feed env (st, [], [], False) (concat chunks)"
    by (cases chunks) simp_all
qed

definition sample_env :: "unit sse_env" where
  "sample_env =
     \<lparr>se_parse = (\<lambda>s. if s = ''{}'' then Some (JObj []) else None), se_ser = (\<lambda>_. ''{}''), se_now = 0,
      se_original_model = ''m'', se_contexts = [], se_display_reasoning = False, se_file = (\<lambda>b _ _ _. (b, 0))\<rparr>"

definition sample_state :: "unit sse_state" where
  "sample_state = \<lparr>ss_accumulator = acc_new, ss_adapter = None, ss_notice = Some ''n'', ss_store = None\<rparr>"

theorem stream_chunking_irrelevant_witness:
  "foldl (feed sample_env) (sample_state, [], [], False) [''data: {'', ''}'' @ nl, ''data: [DONE]'' @ nl] =
   feed sample_env (sample_state, [], [], False) (concat [''data: {'', ''}'' @ nl, ''data: [DONE]'' @ nl]) \<and>
   snd (snd (snd (feed sample_env (sample_state, [], [], False)
     (concat [''data: {'', ''}'' @ nl, ''data: [DONE]'' @ nl]))))"
proof
  show "foldl (feed sample_env) (sample_state, [], [], False) [''data: {'', ''}'' @ nl, ''data: [DONE]'' @ nl] =
   feed sample_env (sample_state, [], [], False) (concat [''data: {'', ''}'' @ nl, ''data: [DONE]'' @ nl])"
    by (rule stream_chunking_irrelevant) simp
qed code_simp

section \<open>The chunks of a silently stripped stream do matter\<close>

definition passes_unread :: "json_parser \<Rightarrow> string \<Rightarrow> bool" where
  \<comment> \<open>a piece of a line that is no event of its own\<close>
  "passes_unread parse piece \<longleftrightarrow> (case line_data piece of None \<Rightarrow> True | Some d \<Rightarrow> parse d = None)"

lemma silent_strip_line_unread: "passes_unread parse l \<Longrightarrow> silent_strip_line parse ser replace l = l"
  by (simp add: passes_unread_def silent_strip_line_def split: option.splits)

lemma split_inclusive_single:
  assumes "list_all (\<lambda>c. \<not> is_nl c) t" "t \<noteq> []"
  shows "split_inclusive t = [t]" and "split_inclusive (t @ nl) = [t @ nl]"
proof -
  have n: "first_index is_nl t = None" using assms(1) by (simp add: first_index_None_iff list_all_iff)
  show "split_inclusive t = [t]" using assms(2) n by (simp add: split_inclusive.simps)
  have "first_index is_nl (t @ nl) = Some (length t)"
    using n by (simp add: first_index_append nl_def is_nl_def)
  then show "split_inclusive (t @ nl) = [t @ nl]"
    by (subst split_inclusive.simps) (simp add: nl_def split_inclusive.simps)
qed

text \<open>
  Silent stripping looks at each chunk alone. A line that arrives in two chunks neither of which
  holds a whole event passes to the client as it is, with any reasoning in it.
\<close>
theorem silent_strip_leaks_split_line:
  assumes "list_all (\<lambda>c. \<not> is_nl c) a" "a \<noteq> []" "list_all (\<lambda>c. \<not> is_nl c) b" "b \<noteq> []"
    and "passes_unread parse a" and "passes_unread parse (b @ nl)"
  shows "apply_silent_strip_to_sse_chunk parse ser replace a @
         apply_silent_strip_to_sse_chunk parse ser replace (b @ nl) = a @ b @ nl"
  using split_inclusive_single [OF assms(1,2)] split_inclusive_single [OF assms(3,4)] assms(5,6)
  by (simp add: apply_silent_strip_to_sse_chunk_def silent_strip_line_unread)

theorem silent_strip_leaks_split_line_witness:
  "apply_silent_strip_to_sse_chunk (\<lambda>s. if s = ''{reasoning}'' then Some (JObj []) else None) (\<lambda>_. ''{}'') id ''data: {reas'' @
   apply_silent_strip_to_sse_chunk (\<lambda>s. if s = ''{reasoning}'' then Some (JObj []) else None) (\<lambda>_. ''{}'') id (''oning}'' @ nl) =
     ''data: {reas'' @ ''oning}'' @ nl \<and>
   apply_silent_strip_to_sse_chunk (\<lambda>s. if s = ''{reasoning}'' then Some (JObj []) else None) (\<lambda>_. ''{}'') id
     (''data: {reasoning}'' @ nl) = ''data: {}'' @ nl"
proof
  show "apply_silent_strip_to_sse_chunk (\<lambda>s. if s = ''{reasoning}'' then Some (JObj []) else None) (\<lambda>_. ''{}'') id ''data: {reas'' @
   apply_silent_strip_to_sse_chunk (\<lambda>s. if s = ''{reasoning}'' then Some (JObj []) else None) (\<lambda>_. ''{}'') id (''oning}'' @ nl) =
     ''data: {reas'' @ ''oning}'' @ nl"
    by (rule silent_strip_leaks_split_line) code_simp+
qed code_simp

end
