(* ===== verification/StreamCapture.thy ===== *)
theory StreamCapture
  imports Text
begin

text \<open>
  The bounded capture of a response stream
  (\<^verbatim>\<open>src/crates/crab-proxy/src/stream_capture.rs\<close>). Bytes are characters. Shown: in
  whatever pieces the bytes arrive, the capture holds all of them up to its limit and the last
  \<open>tail_capacity\<close> of them beyond it.
\<close>

section \<open>Operations\<close>

definition DEFAULT_TAIL_CAPACITY :: nat where
  "DEFAULT_TAIL_CAPACITY = 64 * 1024"

record stream_capture =
  sc_buffer :: string
  sc_total_seen :: nat
  sc_max_bytes :: nat
  sc_tail_capacity :: nat
  sc_over_limit :: bool

definition sc_with_tail_capacity :: "nat \<Rightarrow> nat \<Rightarrow> stream_capture" where
  "sc_with_tail_capacity max_bytes tail_capacity =
     \<lparr>sc_buffer = [], sc_total_seen = 0, sc_max_bytes = max_bytes,
      sc_tail_capacity = tail_capacity, sc_over_limit = False\<rparr>"

definition sc_new :: "nat \<Rightarrow> stream_capture" where
  "sc_new max_bytes = sc_with_tail_capacity max_bytes DEFAULT_TAIL_CAPACITY"

definition trim_to_tail :: "stream_capture \<Rightarrow> stream_capture" where
  "trim_to_tail c =
     (if sc_tail_capacity c < length (sc_buffer c)
      then c\<lparr>sc_buffer := drop (length (sc_buffer c) - sc_tail_capacity c) (sc_buffer c)\<rparr>
      else c)"

definition sc_append :: "stream_capture \<Rightarrow> string \<Rightarrow> stream_capture" where
  "sc_append c data = c\<lparr>sc_buffer := sc_buffer c @ data\<rparr>"

definition sc_extend :: "stream_capture \<Rightarrow> string \<Rightarrow> stream_capture" where
  "sc_extend c data =
     (let c = c\<lparr>sc_total_seen := wrap_add 64 (sc_total_seen c) (length data)\<rparr>
      in if sc_max_bytes c = 0 then sc_append c data
         else if sc_over_limit c then trim_to_tail (sc_append c data)
         else if length (sc_buffer c) + length data \<le> sc_max_bytes c then sc_append c data
         else trim_to_tail (sc_append (c\<lparr>sc_over_limit := True\<rparr>) data))"

definition sc_take :: "stream_capture \<Rightarrow> stream_capture \<times> string" where
  "sc_take c = (c\<lparr>sc_total_seen := 0, sc_over_limit := False, sc_buffer := []\<rparr>, sc_buffer c)"

definition sc_reconfigure :: "stream_capture \<Rightarrow> nat \<Rightarrow> stream_capture" where
  "sc_reconfigure c max_bytes =
     (if max_bytes = 0 then c\<lparr>sc_max_bytes := 0, sc_over_limit := False\<rparr>
      else (let c = c\<lparr>sc_max_bytes := max_bytes\<rparr>;
                c = (if sc_max_bytes c < length (sc_buffer c) \<and> \<not> sc_over_limit c
                     then c\<lparr>sc_over_limit := True\<rparr> else c)
            in if sc_over_limit c then trim_to_tail c else c))"

definition sc_default :: stream_capture where
  "sc_default =
     \<lparr>sc_buffer = [], sc_total_seen = 0, sc_max_bytes = 512 * 1024,
      sc_tail_capacity = DEFAULT_TAIL_CAPACITY, sc_over_limit = False\<rparr>"

section \<open>Laws\<close>

definition last_bytes :: "nat \<Rightarrow> string \<Rightarrow> string" where
  "last_bytes n s = drop (length s - n) s"

lemma last_bytes_append: "last_bytes n (last_bytes n s @ t) = last_bytes n (s @ t)"
  by (cases "n \<le> length s") (auto simp: last_bytes_def add.commute)

lemma length_last_bytes [simp]: "length (last_bytes n s) = min n (length s)"
  by (auto simp: last_bytes_def)

lemma trim_to_tail_buffer: "sc_buffer (trim_to_tail c) = last_bytes (sc_tail_capacity c) (sc_buffer c)"
  by (simp add: trim_to_tail_def last_bytes_def)

lemma trim_to_tail_fields [simp]:
  "sc_max_bytes (trim_to_tail c) = sc_max_bytes c" "sc_tail_capacity (trim_to_tail c) = sc_tail_capacity c"
  "sc_over_limit (trim_to_tail c) = sc_over_limit c" "sc_total_seen (trim_to_tail c) = sc_total_seen c"
  by (simp_all add: trim_to_tail_def)

definition captured :: "nat \<Rightarrow> nat \<Rightarrow> string \<Rightarrow> string" where
  \<comment> \<open>what a capture is meant to hold of the bytes seen\<close>
  "captured mx tail seen =
     (if mx = 0 \<or> length seen \<le> mx then seen else last_bytes tail seen)"

definition holds :: "nat \<Rightarrow> nat \<Rightarrow> stream_capture \<Rightarrow> string \<Rightarrow> bool" where
  "holds mx tail c seen \<longleftrightarrow>
     sc_max_bytes c = mx \<and> sc_tail_capacity c = tail \<and> sc_buffer c = captured mx tail seen \<and>
     sc_total_seen c = length seen mod 2 ^ 64 \<and>
     (sc_over_limit c \<longleftrightarrow> mx \<noteq> 0 \<and> mx < length seen)"

lemma holds_extend:
  assumes "holds mx tail c seen"
  shows "holds mx tail (sc_extend c data) (seen @ data)"
proof -
  have seen: "wrap_add 64 (sc_total_seen c) (length data) = (length seen + length data) mod 2 ^ 64"
    using assms by (simp add: holds_def wrap_add_def mod_simps)
  consider "mx = 0" | "mx \<noteq> 0" "mx < length seen" | "mx \<noteq> 0" "length seen \<le> mx" by linarith
  then show ?thesis
  proof cases
    case 2
    then show ?thesis using assms seen last_bytes_append [of tail seen data]
      by (simp add: holds_def sc_extend_def sc_append_def captured_def trim_to_tail_buffer Let_def)
  qed (use assms seen in \<open>auto simp: holds_def sc_extend_def sc_append_def captured_def
      trim_to_tail_buffer Let_def\<close>)
qed

lemma capture_holds_pieces:
  "holds mx tail (foldl sc_extend (sc_with_tail_capacity mx tail) pieces) (concat pieces)"
proof -
  have step: "holds mx tail (foldl sc_extend c ps) (seen @ concat ps)" if "holds mx tail c seen" for c seen ps
    using that
  proof (induction ps arbitrary: c seen)
    case (Cons p ps)
    from Cons.IH [OF holds_extend [OF Cons.prems, of p]] show ?case by simp
  qed simp
  have "holds mx tail (sc_with_tail_capacity mx tail) []"
    by (simp add: holds_def sc_with_tail_capacity_def captured_def)
  from step [OF this, of pieces] show ?thesis by simp
qed

text \<open>
  In whatever pieces a stream arrives, a capture holds all bytes as long as there are no more than
  its limit (or there is none), and otherwise exactly the last \<open>tail_capacity\<close> bytes of the whole
  stream; it knows which of the two is the case.
\<close>
theorem capture_holds_stream:
  "sc_buffer (foldl sc_extend (sc_with_tail_capacity mx tail) pieces) = captured mx tail (concat pieces) \<and>
   (sc_over_limit (foldl sc_extend (sc_with_tail_capacity mx tail) pieces) \<longleftrightarrow>
      mx \<noteq> 0 \<and> mx < length (concat pieces)) \<and>
   length (captured mx tail (concat pieces)) \<le> (if mx = 0 then length (concat pieces) else max mx tail)"
  using capture_holds_pieces [of mx tail pieces] by (auto simp: holds_def captured_def)

end
