(* ===== verification/SsePipeline.thy ===== *)
theory SsePipeline
  imports SseRewrite StreamCapture PipelineTypes
begin

text \<open>
  The pipelines of \<^verbatim>\<open>src/crates/crab-proxy/src/sse_pipeline/\<close>: passthrough, silent
  stripping, reasoning rewriting, Codex translation and the compression wrapper, their dispatch and
  their selection. The translator of a Codex line is an argument here.
\<close>

section \<open>Results\<close>

record chunk_result =
  cr_client_bytes :: "string option"
  cr_usage :: "usage_data option"

definition bytes_of :: "chunk_result \<Rightarrow> string" where
  "bytes_of r = (case cr_client_bytes r of Some b \<Rightarrow> b | None \<Rightarrow> [])"

definition no_output :: chunk_result where
  "no_output = \<lparr>cr_client_bytes = None, cr_usage = None\<rparr>"

record sse_parsers =
  sp_parse :: json_parser
  sp_ser :: "json \<Rightarrow> string"
  sp_utf8 :: "string \<Rightarrow> bool"
  sp_replace :: "string \<Rightarrow> string"

section \<open>Passthrough and silent stripping\<close>

definition passthrough_process :: "sse_parsers \<Rightarrow> string \<Rightarrow> stream_capture \<Rightarrow> stream_capture \<times> chunk_result" where
  "passthrough_process ps data cap =
     (cap, \<lparr>cr_client_bytes = Some data, cr_usage = extract_usage_from_bytes (sp_parse ps) (sp_utf8 ps) data\<rparr>)"

definition silent_process :: "sse_parsers \<Rightarrow> bool \<Rightarrow> string \<Rightarrow> stream_capture \<Rightarrow> bool \<times> stream_capture \<times> chunk_result" where
  \<comment> \<open>the state is the \<open>warned\<close> flag\<close>
  "silent_process ps warned data cap =
     (let bytes = apply_silent_strip_to_sse_chunk (sp_parse ps) (sp_ser ps) (sp_replace ps) data
      in (True, sc_extend cap bytes,
          \<lparr>cr_client_bytes = Some bytes, cr_usage = extract_usage_from_bytes (sp_parse ps) (sp_utf8 ps) bytes\<rparr>))"

section \<open>Reasoning rewriting\<close>

record 'b reasoning_pipeline =
  rp_env :: "'b sse_env"
  rp_state :: "'b sse_state"
  rp_remainder :: string
  rp_finalized :: bool

definition reasoning_run ::
    "bool \<Rightarrow> 'b reasoning_pipeline \<Rightarrow> string \<Rightarrow> stream_capture \<Rightarrow> 'b reasoning_pipeline \<times> stream_capture \<times> string" where
  \<comment> \<open>the part \<open>process_chunk\<close> and \<open>flush_remainder\<close> share\<close>
  "reasoning_run flush p data cap =
     (case rewrite_upstream_sse_bytes (rp_env p) (rp_state p) (rp_remainder p) data flush of
        (st, rem, rewritten, fin) \<Rightarrow>
          (p\<lparr>rp_state := st, rp_remainder := rem, rp_finalized := (if fin then True else rp_finalized p)\<rparr>,
           if rewritten \<noteq> [] then sc_extend cap rewritten else cap, rewritten))"

definition reasoning_process ::
    "sse_parsers \<Rightarrow> 'b reasoning_pipeline \<Rightarrow> string \<Rightarrow> stream_capture \<Rightarrow>
     'b reasoning_pipeline \<times> stream_capture \<times> chunk_result" where
  "reasoning_process ps p data cap =
     (case reasoning_run False p data cap of
        (p, cap, rewritten) \<Rightarrow>
          (p, cap, if rewritten \<noteq> []
                   then \<lparr>cr_client_bytes = Some rewritten,
                         cr_usage = extract_usage_from_bytes (sp_parse ps) (sp_utf8 ps) rewritten\<rparr>
                   else no_output))"

definition reasoning_flush ::
    "'b reasoning_pipeline \<Rightarrow> stream_capture \<Rightarrow> 'b reasoning_pipeline \<times> stream_capture \<times> chunk_result" where
  "reasoning_flush p cap =
     (case reasoning_run True p [] cap of
        (p, cap, rewritten) \<Rightarrow>
          (p, cap, if rewritten \<noteq> [] then \<lparr>cr_client_bytes = Some rewritten, cr_usage = None\<rparr> else no_output))"

definition reasoning_messages :: "'b reasoning_pipeline \<Rightarrow> json list" where
  "reasoning_messages p = acc_messages (ss_accumulator (rp_state p))"

definition reasoning_store_partial :: "'b filing \<Rightarrow> 'b reasoning_pipeline \<Rightarrow> 'b \<Rightarrow> 'b reasoning_pipeline \<times> 'b \<times> nat" where
  "reasoning_store_partial file p b =
     (if rp_finalized p \<or> reasoning_messages p = [] then (p, b, 0)
      else (case foldl (\<lambda>(acc, b, n) (scope, prior).
                          case store_reasoning (\<lambda>b m. file b scope prior m) acc b scope of
                            (acc', b', k) \<Rightarrow> (acc', b', n + k))
                   (ss_accumulator (rp_state p), b, 0) (se_contexts (rp_env p)) of
              (acc, b, n) \<Rightarrow> (p\<lparr>rp_state := (rp_state p)\<lparr>ss_accumulator := acc\<rparr>\<rparr>, b, n)))"

section \<open>Codex translation\<close>

record 't codex_pipeline =
  cp_translator :: 't
  cp_remainder :: string

type_synonym 't translate = "'t \<Rightarrow> string \<Rightarrow> 't \<times> string list"

definition last_usage :: "sse_parsers \<Rightarrow> usage_data option \<Rightarrow> string \<Rightarrow> usage_data option" where
  \<comment> \<open>\<open>for event in parse_sse_chunk(chunk) { if let Some(u) = event.parse_usage() { usage = Some(u) } }\<close>\<close>
  "last_usage ps u chunk =
     foldl (\<lambda>u e. case ev_parse_usage (sp_parse ps) e of Some v \<Rightarrow> Some v | None \<Rightarrow> u) u
       (parse_sse_chunk (sp_utf8 ps) chunk)"

definition codex_line ::
    "sse_parsers \<Rightarrow> 't translate \<Rightarrow> 't \<times> stream_capture \<times> usage_data option \<Rightarrow> string \<Rightarrow>
     ('t \<times> stream_capture \<times> usage_data option) \<times> string" where
  "codex_line ps translate s line =
     (let line_trim = (if ends_with line nl then butlast line else line)
      in if line_trim = [] then (s, [])
         else (case s of (t, cap, u) \<Rightarrow>
                 (case translate t line_trim of
                    (t', chunks) \<Rightarrow>
                      ((t', foldl sc_extend cap chunks, foldl (last_usage ps) u chunks), concat chunks))))"

definition codex_process ::
    "sse_parsers \<Rightarrow> 't translate \<Rightarrow> 't codex_pipeline \<Rightarrow> string \<Rightarrow> stream_capture \<Rightarrow>
     't codex_pipeline \<times> stream_capture \<times> chunk_result" where
  "codex_process ps translate p data cap =
     (case drain_lines (codex_line ps translate) (cp_translator p, cap, None) (cp_remainder p @ data) of
        ((t, cap, u), out, rem) \<Rightarrow>
          (p\<lparr>cp_translator := t, cp_remainder := rem\<rparr>, cap,
           \<lparr>cr_client_bytes = (if out = [] then None else Some out), cr_usage = u\<rparr>))"

definition codex_flush ::
    "sse_parsers \<Rightarrow> 't translate \<Rightarrow> 't codex_pipeline \<Rightarrow> stream_capture \<Rightarrow>
     't codex_pipeline \<times> stream_capture \<times> chunk_result" where
  "codex_flush ps translate p cap =
     (if cp_remainder p = [] then (p, cap, no_output)
      else codex_process ps translate (p\<lparr>cp_remainder := []\<rparr>) (cp_remainder p) cap)"

section \<open>Compression\<close>

record compression_config =
  deduplicate_content_deltas :: bool
  truncate_long_content :: nat

definition default_compression_config :: compression_config where
  "default_compression_config = \<lparr>deduplicate_content_deltas = True, truncate_long_content = 4096\<rparr>"

record compression_state =
  co_config :: compression_config
  co_recent_deltas :: "string list"
  co_max_recent_deltas :: nat
  co_chunks_processed :: nat
  co_chunks_suppressed :: nat

definition compression_new :: "compression_config \<Rightarrow> compression_state" where
  "compression_new config =
     \<lparr>co_config = config, co_recent_deltas = [], co_max_recent_deltas = 8,
      co_chunks_processed = 0, co_chunks_suppressed = 0\<rparr>"

definition extract_delta_content :: "json_parser \<Rightarrow> string \<Rightarrow> string option" where
  "extract_delta_content parse data_str =
     (if trim data_str = ''[DONE]'' then None
      else case parse data_str of
        None \<Rightarrow> None
      | Some data \<Rightarrow>
          (case Option.bind (json_get data ''delta'') (\<lambda>d. json_get_str d ''text'') of
             Some t \<Rightarrow> Some t
           | None \<Rightarrow>
               (case choices_of data of
                  None \<Rightarrow> None
                | Some cs \<Rightarrow>
                    (case List.map_filter
                            (\<lambda>c. case Option.bind (json_get c ''delta'') (\<lambda>d. json_get_str d ''content'') of
                                   Some t \<Rightarrow> if t \<noteq> [] then Some t else None
                                 | None \<Rightarrow> None) cs of
                       t # _ \<Rightarrow> Some t
                     | [] \<Rightarrow> None))))"

definition record_delta :: "compression_state \<Rightarrow> string \<Rightarrow> compression_state" where
  "record_delta c content =
     c\<lparr>co_recent_deltas :=
         (if co_max_recent_deltas c \<le> length (co_recent_deltas c) then tl (co_recent_deltas c)
          else co_recent_deltas c) @ [content]\<rparr>"

fun dedup_events :: "json_parser \<Rightarrow> compression_state \<Rightarrow> sse_event list \<Rightarrow> compression_state \<times> bool" where
  \<comment> \<open>the scan for a repeated delta; \<open>True\<close> suppresses the chunk\<close>
  "dedup_events parse c [] = (c, False)"
| "dedup_events parse c (e # es) =
     (if ev_event e = Some ''content_block_delta'' \<or> ev_event e = Some ''delta''
      then (case extract_delta_content parse (ev_data e) of
              Some content \<Rightarrow>
                if content \<in> set (co_recent_deltas c)
                then (record_delta (c\<lparr>co_chunks_suppressed := wrap_add 64 (co_chunks_suppressed c) 1\<rparr>) content, True)
                else dedup_events parse (record_delta c content) es
            | None \<Rightarrow> dedup_events parse c es)
      else dedup_events parse c es)"

definition truncation_marker :: string where
  "truncation_marker = nl @ ''[... truncated by compression pipeline ...]'' @ nl"

definition truncate_result :: "nat \<Rightarrow> chunk_result \<Rightarrow> chunk_result" where
  "truncate_result n r =
     (case cr_client_bytes r of
        Some b \<Rightarrow> if 0 < n \<and> n < length b then r\<lparr>cr_client_bytes := Some (take n b @ truncation_marker)\<rparr> else r
      | None \<Rightarrow> r)"

section \<open>Dispatch\<close>

datatype ('b, 't) stream_pipeline =
    ReasoningRewrite "'b reasoning_pipeline"
  | SilentStrip bool
  | Passthrough
  | CodexTranslate "'t codex_pipeline"
  | Compressed "('b, 't) stream_pipeline" compression_state

fun process_chunk ::
    "sse_parsers \<Rightarrow> 't translate \<Rightarrow> ('b, 't) stream_pipeline \<Rightarrow> string \<Rightarrow> stream_capture \<Rightarrow>
     ('b, 't) stream_pipeline \<times> stream_capture \<times> chunk_result" where
  "process_chunk ps tr (ReasoningRewrite p) data cap =
     (case reasoning_process ps p data cap of (p, cap, r) \<Rightarrow> (ReasoningRewrite p, cap, r))"
| "process_chunk ps tr (SilentStrip w) data cap =
     (case silent_process ps w data cap of (w, cap, r) \<Rightarrow> (SilentStrip w, cap, r))"
| "process_chunk ps tr Passthrough data cap =
     (case passthrough_process ps data cap of (cap, r) \<Rightarrow> (Passthrough, cap, r))"
| "process_chunk ps tr (CodexTranslate p) data cap =
     (case codex_process ps tr p data cap of (p, cap, r) \<Rightarrow> (CodexTranslate p, cap, r))"
| "process_chunk ps tr (Compressed inner c) data cap =
     (let c = c\<lparr>co_chunks_processed := wrap_add 64 (co_chunks_processed c) 1\<rparr>;
          dd = (if deduplicate_content_deltas (co_config c)
                then dedup_events (sp_parse ps) c (parse_sse_chunk (sp_utf8 ps) data) else (c, False))
      in if snd dd then (Compressed inner (fst dd), cap, no_output)
         else (case process_chunk ps tr inner data cap of
                 (inner, cap, r) \<Rightarrow>
                   (Compressed inner (fst dd), cap, truncate_result (truncate_long_content (co_config c)) r)))"

fun flush_remainder ::
    "sse_parsers \<Rightarrow> 't translate \<Rightarrow> ('b, 't) stream_pipeline \<Rightarrow> stream_capture \<Rightarrow>
     ('b, 't) stream_pipeline \<times> stream_capture \<times> chunk_result" where
  "flush_remainder ps tr (ReasoningRewrite p) cap =
     (case reasoning_flush p cap of (p, cap, r) \<Rightarrow> (ReasoningRewrite p, cap, r))"
| "flush_remainder ps tr (SilentStrip w) cap = (SilentStrip w, cap, no_output)"
| "flush_remainder ps tr Passthrough cap = (Passthrough, cap, no_output)"
| "flush_remainder ps tr (CodexTranslate p) cap =
     (case codex_flush ps tr p cap of (p, cap, r) \<Rightarrow> (CodexTranslate p, cap, r))"
| "flush_remainder ps tr (Compressed inner c) cap =
     (case flush_remainder ps tr inner cap of (inner, cap, r) \<Rightarrow> (Compressed inner c, cap, r))"

fun pipeline_reasoning_finalized :: "('b, 't) stream_pipeline \<Rightarrow> bool" where
  "pipeline_reasoning_finalized (ReasoningRewrite p) = rp_finalized p"
| "pipeline_reasoning_finalized (Compressed inner c) = pipeline_reasoning_finalized inner"
| "pipeline_reasoning_finalized _ = False"

fun pipeline_messages :: "('b, 't) stream_pipeline \<Rightarrow> json list" where
  "pipeline_messages (ReasoningRewrite p) = reasoning_messages p"
| "pipeline_messages (Compressed inner c) = pipeline_messages inner"
| "pipeline_messages _ = []"

fun pipeline_store_partial :: "'b filing \<Rightarrow> ('b, 't) stream_pipeline \<Rightarrow> 'b \<Rightarrow> ('b, 't) stream_pipeline \<times> 'b \<times> nat" where
  "pipeline_store_partial file (ReasoningRewrite p) b =
     (case reasoning_store_partial file p b of (p, b, n) \<Rightarrow> (ReasoningRewrite p, b, n))"
| "pipeline_store_partial file (Compressed inner c) b =
     (case pipeline_store_partial file inner b of (inner, b, n) \<Rightarrow> (Compressed inner c, b, n))"
| "pipeline_store_partial file p b = (p, b, 0)"

section \<open>Selection\<close>

datatype client_wire_api = ChatCompletions | Responses

record prepared_request =
  pr_original_model :: string
  pr_cache_namespace :: string
  pr_retired_prefix_messages :: nat
  pr_record_response_contexts :: "(string \<times> json list) list"

record 't stream_context =
  \<comment> \<open>the fields of \<open>GatewayContext\<close> the selection reads; \<open>sx_translator\<close> is the translator it would build\<close>
  sx_is_streaming :: bool
  sx_prepared_request :: "prepared_request option"
  sx_accumulator :: "stream_accumulator option"
  sx_display_adapter :: "display_adapter option"
  sx_pending_recovery_notice :: "string option"
  sx_retired_prefix_messages :: "nat option"
  sx_request_pipeline :: "request_pipeline option"
  sx_client_wire_api :: client_wire_api
  sx_display_reasoning :: bool
  sx_translator :: 't

definition reasoning_pipeline_new ::
    "sse_parsers \<Rightarrow> nat \<Rightarrow> (string \<Rightarrow> 'b filing) \<Rightarrow> prepared_request \<Rightarrow> stream_accumulator \<Rightarrow> bool \<Rightarrow>
     display_adapter option \<Rightarrow> string option \<Rightarrow> 'b \<Rightarrow> 'b reasoning_pipeline" where
  "reasoning_pipeline_new ps now file prepared accumulator display_reasoning adapter notice store =
     \<lparr>rp_env = \<lparr>se_parse = sp_parse ps, se_ser = sp_ser ps, se_now = now,
                se_original_model = pr_original_model prepared,
                se_contexts = pr_record_response_contexts prepared,
                se_display_reasoning = display_reasoning, se_file = file (pr_cache_namespace prepared)\<rparr>,
      rp_state = \<lparr>ss_accumulator = accumulator, ss_adapter = adapter, ss_notice = notice, ss_store = Some store\<rparr>,
      rp_remainder = [], rp_finalized = False\<rparr>"

definition select_by_pipeline :: "'t stream_context \<Rightarrow> ('b, 't) stream_pipeline" where
  \<comment> \<open>the branches below the reasoning rewrite\<close>
  "select_by_pipeline ctx =
     (if sx_request_pipeline ctx = Some CodexRelay \<and> sx_client_wire_api ctx \<noteq> Responses
      then CodexTranslate \<lparr>cp_translator = sx_translator ctx, cp_remainder = []\<rparr>
      else if sx_request_pipeline ctx = Some CodexRelay \<and> sx_client_wire_api ctx = Responses
      then Passthrough
      else if sx_request_pipeline ctx = Some CodexDeepSeek \<or> sx_request_pipeline ctx = Some CodexMimo
      then Passthrough
      else if sx_request_pipeline ctx = Some CursorDeepSeekV4 \<and> \<not> sx_display_reasoning ctx
      then SilentStrip False
      else Passthrough)"

definition select_sse_pipeline ::
    "sse_parsers \<Rightarrow> nat \<Rightarrow> (string \<Rightarrow> 'b filing) \<Rightarrow> 't stream_context \<Rightarrow> 'b \<Rightarrow>
     't stream_context \<times> ('b, 't) stream_pipeline option" where
  \<comment> \<open>both \<open>take()\<close>s happen before the tuple is matched\<close>
  "select_sse_pipeline ps now file ctx store =
     (if \<not> sx_is_streaming ctx then (ctx, None)
      else (let ctx' = ctx\<lparr>sx_prepared_request := None, sx_accumulator := None\<rparr>
            in case (sx_prepared_request ctx, sx_accumulator ctx) of
                 (Some prepared, Some acc) \<Rightarrow>
                   (ctx'\<lparr>sx_retired_prefix_messages := Some (pr_retired_prefix_messages prepared),
                         sx_display_adapter := None, sx_pending_recovery_notice := None\<rparr>,
                    Some (ReasoningRewrite
                      (reasoning_pipeline_new ps now file prepared acc (sx_display_reasoning ctx)
                         (sx_display_adapter ctx) (sx_pending_recovery_notice ctx) store)))
               | _ \<Rightarrow> (ctx', Some (select_by_pipeline ctx'))))"

section \<open>What a capturing pipeline promises\<close>

fun run_chunks ::
    "('p \<Rightarrow> string \<Rightarrow> stream_capture \<Rightarrow> 'p \<times> stream_capture \<times> chunk_result) \<Rightarrow> 'p \<Rightarrow> stream_capture \<Rightarrow>
     string list \<Rightarrow> 'p \<times> stream_capture \<times> string" where
  \<comment> \<open>a stream through a pipeline, with all bytes that went to the client\<close>
  "run_chunks process p cap [] = (p, cap, [])"
| "run_chunks process p cap (d # ds) =
     (case process p d cap of
        (p', cap', r) \<Rightarrow> (case run_chunks process p' cap' ds of (p'', cap'', out) \<Rightarrow> (p'', cap'', bytes_of r @ out)))"

locale capturing_pipeline =
  fixes process :: "'p \<Rightarrow> string \<Rightarrow> stream_capture \<Rightarrow> 'p \<times> stream_capture \<times> chunk_result"
  assumes captures: "process p data cap = (p', cap', r) \<Longrightarrow>
    \<exists>pieces. cap' = foldl sc_extend cap pieces \<and> concat pieces = bytes_of r"
begin

lemma run_captures:
  "run_chunks process p cap ds = (p', cap', out) \<Longrightarrow>
   \<exists>pieces. cap' = foldl sc_extend cap pieces \<and> concat pieces = out"
proof (induction ds arbitrary: p cap p' cap' out)
  case Nil
  then show ?case by (auto intro: exI [of _ "[]"])
next
  case (Cons d ds)
  obtain q c r where q: "process p d cap = (q, c, r)" by (metis prod_cases3)
  obtain q' c' o' where q': "run_chunks process q c ds = (q', c', o')" by (metis prod_cases3)
  obtain ps where ps: "c = foldl sc_extend cap ps" "concat ps = bytes_of r" using captures [OF q] by blast
  obtain qs where qs: "c' = foldl sc_extend c qs" "concat qs = o'" using Cons.IH [OF q'] by blast
  have "cap' = foldl sc_extend cap (ps @ qs) \<and> concat (ps @ qs) = out"
    using Cons.prems q q' ps qs by simp
  then show ?case by blast
qed

lemma capture_holds_client_stream:
  "sc_buffer (fst (snd (run_chunks process p (sc_with_tail_capacity mx tail) ds))) =
   captured mx tail (snd (snd (run_chunks process p (sc_with_tail_capacity mx tail) ds)))"
proof -
  obtain p' cap out where r: "run_chunks process p (sc_with_tail_capacity mx tail) ds = (p', cap, out)"
    by (metis prod_cases3)
  then show ?thesis
    using run_captures [OF r] capture_holds_pieces [of mx tail] by (auto simp: holds_def)
qed

end

interpretation silent: capturing_pipeline "silent_process ps" for ps
proof
  fix p data cap p' cap' r
  assume "silent_process ps p data cap = (p', cap', r)"
  then have "cap' = foldl sc_extend cap [bytes_of r]"
    by (auto simp: silent_process_def bytes_of_def Let_def)
  then show "\<exists>pieces. cap' = foldl sc_extend cap pieces \<and> concat pieces = bytes_of r"
    by (intro exI [of _ "[bytes_of r]"]) simp
qed

interpretation reasoning: capturing_pipeline "reasoning_process ps" for ps
proof
  fix p :: "'b reasoning_pipeline" and data cap p' cap' r
  assume "reasoning_process ps p data cap = (p', cap', r)"
  then have "cap' = foldl sc_extend cap (if bytes_of r = [] then [] else [bytes_of r])"
    by (auto simp: reasoning_process_def reasoning_run_def bytes_of_def no_output_def split: prod.splits if_splits)
  then show "\<exists>pieces. cap' = foldl sc_extend cap pieces \<and> concat pieces = bytes_of r"
    by (intro exI [of _ "if bytes_of r = [] then [] else [bytes_of r]"]) simp
qed

lemma drain_codex_captures:
  "drain_lines (codex_line ps tr) (t, cap, u) buf = ((t', cap', u'), out, r) \<Longrightarrow>
   \<exists>pieces. cap' = foldl sc_extend cap pieces \<and> concat pieces = out"
proof (induction "length buf" arbitrary: buf t cap u out rule: less_induct)
  case less
  show ?case
  proof (cases "next_line buf")
    case None
    then show ?thesis using less.prems by (auto simp: drain_lines_None intro: exI [of _ "[]"])
  next
    case (Some lr)
    then obtain line rest where lr: "next_line buf = Some (line, rest)" by (cases lr) auto
    obtain t1 c1 u1 o1 where s: "codex_line ps tr (t, cap, u) line = ((t1, c1, u1), o1)" by (metis prod_cases3 surj_pair)
    have "\<exists>ps1. c1 = foldl sc_extend cap ps1 \<and> concat ps1 = o1"
      using s by (auto simp: codex_line_def Let_def simp del: concat_eq_Nil_conv
          intro: exI [of _ "[]"] split: if_splits prod.splits)
    then obtain ps1 where ps1: "c1 = foldl sc_extend cap ps1" "concat ps1 = o1" by blast
    obtain o2 where o2: "drain_lines (codex_line ps tr) (t1, c1, u1) rest = ((t', cap', u'), o2, r)" "out = o1 @ o2"
      using less.prems unfolding drain_lines_Some [OF lr] s by (auto split: prod.splits)
    obtain ps2 where "cap' = foldl sc_extend c1 ps2" "concat ps2 = o2"
      using less.hyps [OF next_line_shorter [OF lr] o2(1)] by blast
    then show ?thesis using ps1 o2(2) by (intro exI [of _ "ps1 @ ps2"]) simp
  qed
qed

interpretation codex: capturing_pipeline "codex_process ps tr" for ps and tr :: "'t translate"
proof
  fix p :: "'t codex_pipeline" and data cap p' cap' r
  assume "codex_process ps tr p data cap = (p', cap', r)"
  then obtain t u out rem where d: "drain_lines (codex_line ps tr) (cp_translator p, cap, None) (cp_remainder p @ data) =
      ((t, cap', u), out, rem)" and r: "bytes_of r = out"
    by (auto simp: codex_process_def bytes_of_def split: prod.splits if_splits)
  from drain_codex_captures [OF d] r show "\<exists>pieces. cap' = foldl sc_extend cap pieces \<and> concat pieces = bytes_of r"
    by simp
qed

text \<open>
  The capture of a stream agrees with what the client was sent: through silent stripping,
  reasoning rewriting and Codex translation, whatever the chunks, it holds the bytes of the client's
  stream up to its limit and their tail beyond it.
\<close>
theorem capture_agrees_with_client_stream:
  "sc_buffer (fst (snd (run_chunks (silent_process ps) w (sc_with_tail_capacity mx tail) ds))) =
     captured mx tail (snd (snd (run_chunks (silent_process ps) w (sc_with_tail_capacity mx tail) ds))) \<and>
   sc_buffer (fst (snd (run_chunks (reasoning_process ps) p (sc_with_tail_capacity mx tail) ds))) =
     captured mx tail (snd (snd (run_chunks (reasoning_process ps) p (sc_with_tail_capacity mx tail) ds))) \<and>
   sc_buffer (fst (snd (run_chunks (codex_process ps tr) q (sc_with_tail_capacity mx tail) ds))) =
     captured mx tail (snd (snd (run_chunks (codex_process ps tr) q (sc_with_tail_capacity mx tail) ds)))"
  by (intro conjI silent.capture_holds_client_stream reasoning.capture_holds_client_stream
      codex.capture_holds_client_stream)

section \<open>The end of a stream\<close>

text \<open>
  Flushing the Codex pipeline never sends anything: the remainder of a processed stream has no
  line break, so its last line, if the upstream did not end it, is put back and lost with its usage.
\<close>
theorem codex_flush_sends_nothing:
  assumes "codex_process ps tr p data cap = (p', cap', r)"
  shows "codex_flush ps tr p' cap'' = (p', cap'', no_output)"
proof -
  have "next_line (cp_remainder p') = None"
    using assms by (auto simp: codex_process_def split: prod.splits dest: next_line_remainder)
  then show ?thesis
    by (simp add: codex_flush_def codex_process_def drain_lines_None no_output_def)
qed

theorem codex_flush_sends_nothing_witness:
  "codex_flush \<lparr>sp_parse = (\<lambda>_. None), sp_ser = (\<lambda>_. []), sp_utf8 = (\<lambda>_. True), sp_replace = id\<rparr>
     (\<lambda>t l. (t, [l])) \<lparr>cp_translator = (), cp_remainder = ''last''\<rparr> (sc_with_tail_capacity 1 1) =
   (\<lparr>cp_translator = (), cp_remainder = ''last''\<rparr>, sc_with_tail_capacity 1 1, no_output)"
  by (rule codex_flush_sends_nothing
      [where p = "\<lparr>cp_translator = (), cp_remainder = []\<rparr>" and data = "''last''"
         and cap = "sc_with_tail_capacity 1 1" and cap' = "sc_with_tail_capacity 1 1" and r = no_output])
    (simp add: codex_process_def drain_lines_None next_line_def is_nl_def no_output_def)

lemma blank_line_unchanged:
  assumes "list_all (\<lambda>c. c = CHR 0x0A \<or> c = CHR 0x0D) line"
  shows "rewrite_sse_chunk env st line = (st, unchanged_line line)"
proof -
  have "list_all line_space line" using assms by (auto simp: list_all_iff line_space_def)
  moreover have "\<not> starts_with line ''data:''" using assms by (cases line) auto
  ultimately show ?thesis by (simp add: rewrite_sse_chunk_def line_data_def strip_line_def strip_prefix_def)
qed

lemma next_line_Nil: "next_line [] = None"
  by (simp add: next_line_def)

text \<open>
  The reasoning pipeline, in contrast, loses nothing: a last line without a line break is
  rewritten when the stream is flushed as if it had one.
\<close>
theorem reasoning_flush_completes_line:
  assumes "reasoning_run False p data cap = (p', cap', out)" and "rp_remainder p' \<noteq> []"
  shows "snd (snd (reasoning_run True p' [] cap')) = snd (snd (reasoning_run False p' nl cap'))"
proof -
  let ?r = "rp_remainder p'"
  have none: "next_line ?r = None"
    using assms(1) by (auto simp: reasoning_run_def rewrite_upstream_sse_bytes_def split: prod.splits if_splits
        dest: next_line_remainder)
  then have i: "first_index is_nl ?r = None" by (simp add: next_line_def split: option.splits)
  then have one: "next_line (?r @ nl) = Some (?r @ nl, [])"
    by (simp add: next_line_def first_index_append nl_def is_nl_def)
  have "\<not> ends_with ?r nl"
    using i by (auto simp: ends_with_iff nl_def first_index_append is_nl_def split: option.splits)
  then show ?thesis using assms(2) none blank_line_unchanged [of "?r @ nl" "rp_env p'" "rp_state p'"]
    by (auto simp: reasoning_run_def rewrite_upstream_sse_bytes_def drain_lines_None drain_lines_Some [OF one]
        rewrite_step_def unchanged_line_def drain_lines_None [OF next_line_Nil] split: prod.split)
qed

section \<open>Compression\<close>

lemma dedup_suppresses_repeat:
  assumes "ev_event e = Some ''delta''" "extract_delta_content parse (ev_data e) = Some t"
    and "t \<in> set (co_recent_deltas c)"
  shows "snd (dedup_events parse c (e # es))"
  using assms by simp

lemma record_delta_remembers: "t \<in> set (co_recent_deltas (record_delta c t))"
  by (simp add: record_delta_def)

lemma record_delta_keeps:
  assumes "t \<in> set (co_recent_deltas c)" "length (co_recent_deltas c) < co_max_recent_deltas c"
  shows "t \<in> set (co_recent_deltas (record_delta c u))"
  using assms by (simp add: record_delta_def)

text \<open>
  The compression wrapper suppresses a repeated delta although another one came in between: the
  third of the deltas \<open>t\<close>, \<open>u\<close>, \<open>t\<close> is dropped from the stream with everything else
  in its chunk, so the text the client gets differs from the answer.
\<close>
theorem compression_drops_separated_repeat:
  assumes "t \<noteq> u"
    and "parse_sse_chunk (sp_utf8 ps) dt = [\<lparr>ev_event = Some ''delta'', ev_data = xt\<rparr>]"
    and "parse_sse_chunk (sp_utf8 ps) du = [\<lparr>ev_event = Some ''delta'', ev_data = xu\<rparr>]"
    and "extract_delta_content (sp_parse ps) xt = Some t"
    and "extract_delta_content (sp_parse ps) xu = Some u"
    and "0 < n" "length dt \<le> n" "length du \<le> n"
  shows "snd (snd (run_chunks (process_chunk ps tr)
      (Compressed Passthrough (compression_new \<lparr>deduplicate_content_deltas = True, truncate_long_content = n\<rparr>))
      cap [dt, du, dt])) = dt @ du"
  using assms
  by (simp add: compression_new_def Let_def passthrough_process_def truncate_result_def record_delta_def
      no_output_def bytes_of_def split: prod.split)

definition sample_parsers :: sse_parsers where
  "sample_parsers =
     \<lparr>sp_parse = (\<lambda>s. if s = ''A'' then Some (JObj [(''delta'', JObj [(''text'', JStr ''a'')])])
                       else if s = ''B'' then Some (JObj [(''delta'', JObj [(''text'', JStr ''b'')])]) else None),
      sp_ser = (\<lambda>_. []), sp_utf8 = (\<lambda>_. True), sp_replace = id\<rparr>"

theorem compression_drops_separated_repeat_witness:
  "snd (snd (run_chunks (process_chunk sample_parsers (\<lambda>t l. (t, [l])))
      (Compressed Passthrough (compression_new \<lparr>deduplicate_content_deltas = True, truncate_long_content = 99\<rparr>))
      (sc_with_tail_capacity 0 0)
      [''data: A'' @ nl @ ''event: delta'', ''data: B'' @ nl @ ''event: delta'', ''data: A'' @ nl @ ''event: delta''])) =
    (''data: A'' @ nl @ ''event: delta'') @ (''data: B'' @ nl @ ''event: delta'')"
  by (rule compression_drops_separated_repeat
      [where t = "''a''" and u = "''b''" and xt = "''A''" and xu = "''B''"]) code_simp+

end
