(* ===== verification/CodexResponse.thy ===== *)
theory CodexResponse
  imports SsePipeline
begin

text \<open>
  Translation of the Codex answer stream to chat-completion chunks
  (\<^verbatim>\<open>src/crates/crab-proxy/src/codex.rs\<close>, second half). A translated event is a JSON value
  before it is printed; the parser and the printer are arguments. The assignments into the chunk
  template (\<^verbatim>\<open>chunk["choices"][0]["delta"][..] = ..\<close>) are arguments of the template here.
  The index of a function call is an \<^typ>\<open>int\<close>; its width of 32 bits is not modelled.
\<close>

section \<open>The translator\<close>

record codex_translator =
  ct_response_id :: string
  ct_created_at :: int
  ct_model :: string
  ct_function_call_index :: int
  ct_has_tool_call_announced :: bool
  ct_has_arguments_delta :: bool
  ct_tool_short_to_orig :: "(string, string) hmap"

definition build_tool_reverse_map :: "json \<Rightarrow> (string, string) hmap" where
  "build_tool_reverse_map original =
     (case Option.bind (json_get original ''tools'') as_array of
        None \<Rightarrow> []
      | Some tools \<Rightarrow>
          foldl (\<lambda>m tool.
             if json_get_str tool ''type'' \<noteq> Some ''function'' then m
             else (case Option.bind (json_pointer tool [''function'', ''name'']) as_str of
                     Some name \<Rightarrow> hm_insert m name name
                   | None \<Rightarrow> m)) [] tools)"

definition restore_tool_name :: "string \<Rightarrow> (string, string) hmap \<Rightarrow> string" where
  "restore_tool_name name reverse = (case hm_get reverse name of Some n \<Rightarrow> n | None \<Rightarrow> name)"

definition ct_new :: "json_parser \<Rightarrow> string \<Rightarrow> string option \<Rightarrow> codex_translator" where
  "ct_new parse client_model original_request =
     \<lparr>ct_response_id = [], ct_created_at = 0, ct_model = client_model, ct_function_call_index = -1,
      ct_has_tool_call_announced = False, ct_has_arguments_delta = False,
      ct_tool_short_to_orig =
        (case Option.bind original_request parse of Some v \<Rightarrow> build_tool_reverse_map v | None \<Rightarrow> [])\<rparr>"

section \<open>Chunks\<close>

definition chat_chunk ::
    "codex_translator \<Rightarrow> (string \<times> json) list \<Rightarrow> json \<Rightarrow> (string \<times> json) list \<Rightarrow> json" where
  \<comment> \<open>\<open>chat_chunk_template\<close> with its delta, finish reason and usage filled in\<close>
  "chat_chunk t delta finish usage =
     JObj ([(''choices'', JArr [JObj [(''delta'', JObj delta), (''finish_reason'', finish), (''index'', JInt 0),
                                      (''native_finish_reason'', finish)]]),
            (''created'', JInt (ct_created_at t)),
            (''id'', JStr (ct_response_id t)),
            (''model'', JStr (ct_model t)),
            (''object'', JStr ''chat.completion.chunk'')] @
           (if usage = [] then [] else [(''usage'', JObj usage)]))"

definition usage_fields :: "json option \<Rightarrow> (string \<times> json) list" where
  \<comment> \<open>\<open>apply_usage\<close>\<close>
  "usage_fields response =
     (case Option.bind response (\<lambda>r. json_get r ''usage'') of
        None \<Rightarrow> []
      | Some usage \<Rightarrow>
          (case json_get usage ''output_tokens'' of Some v \<Rightarrow> [(''completion_tokens'', v)] | None \<Rightarrow> []) @
          (case json_get usage ''input_tokens'' of Some v \<Rightarrow> [(''prompt_tokens'', v)] | None \<Rightarrow> []) @
          (case json_get usage ''total_tokens'' of Some v \<Rightarrow> [(''total_tokens'', v)] | None \<Rightarrow> []))"

definition call_delta :: "int \<Rightarrow> json \<Rightarrow> string \<Rightarrow> string \<Rightarrow> (string \<times> json) list" where
  "call_delta index call_id name args =
     [(''role'', JStr ''assistant''),
      (''tool_calls'', JArr [JObj [(''function'', JObj [(''arguments'', JStr args), (''name'', JStr name)]),
                                   (''id'', call_id), (''index'', JInt index), (''type'', JStr ''function'')]])]"

definition arguments_delta :: "int \<Rightarrow> string \<Rightarrow> (string \<times> json) list" where
  "arguments_delta index args =
     [(''tool_calls'', JArr [JObj [(''function'', JObj [(''arguments'', JStr args)]), (''index'', JInt index)]])]"

definition note_created :: "codex_translator \<Rightarrow> json \<Rightarrow> codex_translator" where
  "note_created t event =
     (case json_get event ''response'' of
        None \<Rightarrow> t
      | Some resp \<Rightarrow>
          t\<lparr>ct_response_id := str_or_empty resp ''id'',
            ct_created_at := (case Option.bind (json_get resp ''created_at'') as_i64 of Some n \<Rightarrow> n | None \<Rightarrow> 0),
            ct_model := (case json_get_str resp ''model'' of Some m \<Rightarrow> m | None \<Rightarrow> ct_model t)\<rparr>)"

definition item_name :: "codex_translator \<Rightarrow> json \<Rightarrow> string" where
  "item_name t item = restore_tool_name (str_or_empty item ''name'') (ct_tool_short_to_orig t)"

definition item_call_id :: "json \<Rightarrow> json" where
  "item_call_id item = get_or item ''call_id'' (JStr [])"

definition translate_item_added :: "codex_translator \<Rightarrow> json \<Rightarrow> codex_translator \<times> json option" where
  "translate_item_added t event =
     (case json_get event ''item'' of
        None \<Rightarrow> (t, None)
      | Some item \<Rightarrow>
          if json_get_str item ''type'' \<noteq> Some ''function_call'' then (t, None)
          else (let t = t\<lparr>ct_function_call_index := ct_function_call_index t + 1,
                          ct_has_tool_call_announced := True, ct_has_arguments_delta := False\<rparr>
                in (t, Some (chat_chunk t (call_delta (ct_function_call_index t) (item_call_id item) (item_name t item) [])
                               JNull []))))"

definition translate_item_done :: "codex_translator \<Rightarrow> json \<Rightarrow> codex_translator \<times> json option" where
  "translate_item_done t event =
     (case json_get event ''item'' of
        None \<Rightarrow> (t, None)
      | Some item \<Rightarrow>
          if json_get_str item ''type'' = Some ''function_call'' \<and> ct_has_tool_call_announced t
          then (t\<lparr>ct_has_tool_call_announced := False\<rparr>, None)
          else if json_get_str item ''type'' \<noteq> Some ''function_call'' then (t, None)
          else (let t = t\<lparr>ct_function_call_index := ct_function_call_index t + 1\<rparr>
                in (t, Some (chat_chunk t (call_delta (ct_function_call_index t) (item_call_id item) (item_name t item)
                                             (str_or_empty item ''arguments'')) JNull []))))"

definition finish_reason_of :: "codex_translator \<Rightarrow> json" where
  "finish_reason_of t = JStr (if 0 \<le> ct_function_call_index t then ''tool_calls'' else ''stop'')"

definition translate_event :: "codex_translator \<Rightarrow> json \<Rightarrow> codex_translator \<times> json option" where
  "translate_event t event =
     (let ty = str_or_empty event ''type'' in
      if ty = ''response.created'' then (note_created t event, None)
      else if ty = ''response.reasoning_summary_text.delta''
      then (t, Some (chat_chunk t
             (case json_get_str event ''delta'' of
                Some d \<Rightarrow> [(''reasoning_content'', JStr d), (''role'', JStr ''assistant'')] | None \<Rightarrow> []) JNull []))
      else if ty = ''response.reasoning_summary_text.done''
      then (t, Some (chat_chunk t [(''reasoning_content'', JStr (nl @ nl)), (''role'', JStr ''assistant'')] JNull []))
      else if ty = ''response.output_text.delta''
      then (t, Some (chat_chunk t
             (case json_get_str event ''delta'' of
                Some d \<Rightarrow> [(''content'', JStr d), (''role'', JStr ''assistant'')] | None \<Rightarrow> []) JNull []))
      else if ty = ''response.output_item.added'' then translate_item_added t event
      else if ty = ''response.function_call_arguments.delta''
      then (let t = t\<lparr>ct_has_arguments_delta := True\<rparr>
            in (t, Some (chat_chunk t (arguments_delta (ct_function_call_index t) (str_or_empty event ''delta'')) JNull [])))
      else if ty = ''response.function_call_arguments.done''
      then (if ct_has_arguments_delta t then (t, None)
            else (t, Some (chat_chunk t (arguments_delta (ct_function_call_index t) (str_or_empty event ''arguments''))
                             JNull [])))
      else if ty = ''response.output_item.done'' then translate_item_done t event
      else if ty = ''response.completed''
      then (t, Some (chat_chunk t [] (finish_reason_of t) (usage_fields (json_get event ''response''))))
      else (t, None))"

fun translate_events :: "codex_translator \<Rightarrow> json list \<Rightarrow> codex_translator \<times> json list" where
  \<comment> \<open>the loop over the events of a chunk\<close>
  "translate_events t [] = (t, [])"
| "translate_events t (e # es) =
     (case translate_event t e of
        (t', c) \<Rightarrow> (case translate_events t' es of (t'', cs) \<Rightarrow> (t'', (case c of Some v \<Rightarrow> v # cs | None \<Rightarrow> cs))))"

definition trim_bytes :: "string \<Rightarrow> string" where
  "trim_bytes s = rev (dropWhile ascii_whitespace (rev (dropWhile ascii_whitespace s)))"

definition codex_line_event :: "json_parser \<Rightarrow> string \<Rightarrow> json option" where
  \<comment> \<open>the event on a line, for the streaming translation\<close>
  "codex_line_event parse line =
     (case map_option trim_bytes (strip_prefix line ''data:'') of
        None \<Rightarrow> None
      | Some l \<Rightarrow> if l = [] \<or> l = ''[DONE]'' then None else parse l)"

definition format_sse_chunk :: "(json \<Rightarrow> string) \<Rightarrow> json \<Rightarrow> string" where
  "format_sse_chunk ser v = ''data: '' @ ser v @ nl @ nl"

definition translate_chunk :: "json_parser \<Rightarrow> (json \<Rightarrow> string) \<Rightarrow> codex_translator translate" where
  "translate_chunk parse ser t chunk =
     (case translate_events t (List.map_filter (codex_line_event parse) (split_on (CHR 0x0A) chunk)) of
        (t', cs) \<Rightarrow> (t', map (format_sse_chunk ser) cs))"

section \<open>Answers that are not streamed\<close>

record non_stream =
  ns_content :: string
  ns_reasoning :: string
  ns_tool_calls :: "json list"
  ns_usage :: json

definition find_part_text :: "json \<Rightarrow> string \<Rightarrow> string \<Rightarrow> string option" where
  \<comment> \<open>the text of the first part of a type in an array field\<close>
  "find_part_text item field ty =
     Option.bind (Option.bind (json_get item field) as_array)
       (\<lambda>arr. Option.bind (List.find (\<lambda>p. json_get_str p ''type'' = Some ty) arr) (\<lambda>p. json_get_str p ''text''))"

definition completed_call :: "codex_translator \<Rightarrow> json \<Rightarrow> json" where
  "completed_call t item =
     JObj [(''function'', JObj [(''arguments'', JStr (str_or_empty item ''arguments'')), (''name'', JStr (item_name t item))]),
           (''id'', item_call_id item), (''type'', JStr ''function'')]"

definition completed_item :: "codex_translator \<Rightarrow> non_stream \<Rightarrow> json \<Rightarrow> non_stream" where
  "completed_item t n item =
     (case json_get_str item ''type'' of
        None \<Rightarrow> n
      | Some ty \<Rightarrow>
          if ty = ''message''
          then (case find_part_text item ''content'' ''output_text'' of Some x \<Rightarrow> n\<lparr>ns_content := x\<rparr> | None \<Rightarrow> n)
          else if ty = ''reasoning''
          then (case find_part_text item ''summary'' ''summary_text'' of Some x \<Rightarrow> n\<lparr>ns_reasoning := x\<rparr> | None \<Rightarrow> n)
          else if ty = ''function_call'' then n\<lparr>ns_tool_calls := ns_tool_calls n @ [completed_call t item]\<rparr>
          else n)"

definition non_stream_event :: "codex_translator \<times> non_stream \<Rightarrow> json \<Rightarrow> codex_translator \<times> non_stream" where
  "non_stream_event s event =
     (case s of (t, n) \<Rightarrow>
      (let ty = str_or_empty event ''type'' in
       if ty = ''response.created'' then (note_created t event, n)
       else if ty = ''response.reasoning_summary_text.delta''
       then (t, n\<lparr>ns_reasoning := ns_reasoning n @ str_or_empty event ''delta''\<rparr>)
       else if ty = ''response.output_text.delta''
       then (t, n\<lparr>ns_content := ns_content n @ str_or_empty event ''delta''\<rparr>)
       else if ty = ''response.completed''
       then (t, foldl (completed_item t)
                  (n\<lparr>ns_usage := (case json_pointer event [''response'', ''usage''] of Some u \<Rightarrow> u | None \<Rightarrow> JNull)\<rparr>)
                  (case Option.bind (json_pointer event [''response'', ''output'']) as_array of
                     Some output \<Rightarrow> output | None \<Rightarrow> []))
       else (t, n)))"

definition u64_field :: "json \<Rightarrow> string \<Rightarrow> string \<Rightarrow> (string \<times> json) list" where
  "u64_field usage src dst =
     (case Option.bind (json_get usage src) as_u64 of Some v \<Rightarrow> [(dst, JInt (int v))] | None \<Rightarrow> [])"

definition non_stream_body :: "codex_translator \<Rightarrow> non_stream \<Rightarrow> json" where
  "non_stream_body t n =
     (let finish = JStr (if ns_tool_calls n = [] then ''stop'' else ''tool_calls'')
      in JObj ([(''choices'', JArr [JObj [(''finish_reason'', finish), (''index'', JInt 0),
                 (''message'', JObj ([(''content'', JStr (ns_content n))] @
                    (if ns_reasoning n = [] then [] else [(''reasoning_content'', JStr (ns_reasoning n))]) @
                    [(''role'', JStr ''assistant'')] @
                    (if ns_tool_calls n = [] then [] else [(''tool_calls'', JArr (ns_tool_calls n))]))),
                 (''native_finish_reason'', finish)]]),
               (''created'', JInt (ct_created_at t)), (''id'', JStr (ct_response_id t)),
               (''model'', JStr (ct_model t)), (''object'', JStr ''chat.completion'')] @
              (if ns_usage n = JNull then []
               else [(''usage'', JObj (u64_field (ns_usage n) ''output_tokens'' ''completion_tokens'' @
                                       u64_field (ns_usage n) ''input_tokens'' ''prompt_tokens'' @
                                       u64_field (ns_usage n) ''total_tokens'' ''total_tokens''))])))"

definition raw_line_event :: "json_parser \<Rightarrow> string \<Rightarrow> json option" where
  \<comment> \<open>here \<open>[DONE]\<close> is left to the parser, which rejects it\<close>
  "raw_line_event parse line =
     (case map_option trim_bytes (strip_prefix line ''data:'') of
        None \<Rightarrow> None
      | Some l \<Rightarrow> if l = [] then None else parse l)"

definition non_stream_new :: non_stream where
  "non_stream_new = \<lparr>ns_content = [], ns_reasoning = [], ns_tool_calls = [], ns_usage = JNull\<rparr>"

definition finalize_non_stream ::
    "json_parser \<Rightarrow> (json \<Rightarrow> string) \<Rightarrow> codex_translator \<Rightarrow> string \<Rightarrow> codex_translator \<times> string" where
  "finalize_non_stream parse ser t raw_sse =
     (case foldl non_stream_event (t, non_stream_new)
             (List.map_filter (raw_line_event parse) (split_on (CHR 0x0A) raw_sse)) of
        (t', n) \<Rightarrow> (t', ser (non_stream_body t' n)))"

section \<open>Usage of a raw stream\<close>

definition usage_of :: "json \<Rightarrow> usage_data option" where
  "usage_of usage =
     (let input = u64_or_zero usage ''input_tokens''; output = u64_or_zero usage ''output_tokens'';
          prompt = u64_or_zero usage ''prompt_tokens''; completion = u64_or_zero usage ''completion_tokens'';
          p = (if 0 < prompt then prompt else input); c = (if 0 < completion then completion else output)
      in if p = 0 \<and> c = 0 then None
         else Some \<lparr>prompt_tokens = p, completion_tokens = c,
                    prompt_cache_hit_tokens = u64_or_zero usage ''prompt_cache_hit_tokens'',
                    prompt_cache_miss_tokens = u64_or_zero usage ''prompt_cache_miss_tokens''\<rparr>)"

fun codex_usage_scan :: "json_parser \<Rightarrow> sse_event list \<Rightarrow> usage_data option" where
  \<comment> \<open>\<open>?\<close> leaves the whole function\<close>
  "codex_usage_scan parse [] = None"
| "codex_usage_scan parse (e # es) =
     (if trim (ev_data e) = ''[DONE]'' then codex_usage_scan parse es
      else case parse (ev_data e) of
        None \<Rightarrow> None
      | Some value \<Rightarrow>
          if json_get_str value ''type'' \<noteq> Some ''response.completed'' then codex_usage_scan parse es
          else (case json_pointer value [''response'', ''usage''] of
                  None \<Rightarrow> None
                | Some usage \<Rightarrow>
                    (case usage_of usage of Some u \<Rightarrow> Some u | None \<Rightarrow> codex_usage_scan parse es)))"

definition extract_codex_usage_from_bytes :: "json_parser \<Rightarrow> (string \<Rightarrow> bool) \<Rightarrow> string \<Rightarrow> usage_data option" where
  "extract_codex_usage_from_bytes parse utf8 bytes = codex_usage_scan parse (parse_sse_chunk utf8 bytes)"

section \<open>Streamed and collected text agree\<close>

lemma delta_text_chat_chunk:
  "delta_text k 0 (chat_chunk t delta finish usage) = str_or_empty (JObj delta) k"
  by (simp add: delta_text_def choice_deltas_def raw_deltas_def choices_of_def chat_chunk_def List.map_filter_def
      is_object_def u64_or_def)

definition output_text :: "json list \<Rightarrow> string" where
  \<comment> \<open>the text of an event stream: its output deltas\<close>
  "output_text es =
     concat (map (\<lambda>e. str_or_empty e ''delta'')
       (filter (\<lambda>e. str_or_empty e ''type'' = ''response.output_text.delta'') es))"

lemma translate_event_text:
  "concat (map (delta_text ''content'' 0) (case snd (translate_event t e) of Some c \<Rightarrow> [c] | None \<Rightarrow> [])) =
   output_text [e]"
proof -
  have n: "str_or_empty (JObj (call_delta i c n a)) ''content'' = []"
    "str_or_empty (JObj (arguments_delta i a)) ''content'' = []"
    "str_or_empty (JObj [(''reasoning_content'', r), (''role'', q)]) ''content'' = []"
    "str_or_empty (JObj []) ''content'' = []" for i c n a r q
    by (simp_all add: str_or_empty_def json_get_str_def call_delta_def arguments_delta_def)
  have a: "concat (map (delta_text ''content'' 0) (case snd (translate_item_added t e) of Some c \<Rightarrow> [c] | None \<Rightarrow> [])) = []"
    by (simp add: translate_item_added_def Let_def delta_text_chat_chunk n split: option.split)
  have d: "concat (map (delta_text ''content'' 0) (case snd (translate_item_done t e) of Some c \<Rightarrow> [c] | None \<Rightarrow> [])) = []"
    by (simp add: translate_item_done_def Let_def delta_text_chat_chunk n split: option.split)
  show ?thesis
  proof (cases "str_or_empty e ''type'' = ''response.output_text.delta''")
    case True
    then show ?thesis
      by (cases "json_get_str e ''delta''")
        (simp_all add: translate_event_def Let_def delta_text_chat_chunk n output_text_def str_or_empty_def json_get_str_def)
  next
    case False
    then show ?thesis using a d
      by (simp add: translate_event_def Let_def delta_text_chat_chunk n output_text_def split: option.split)
  qed
qed

lemma translate_events_append:
  "translate_events t (a @ b) =
     (case translate_events t a of
        (t', cs) \<Rightarrow> (case translate_events t' b of (t'', ds) \<Rightarrow> (t'', cs @ ds)))"
  by (induction a arbitrary: t) (auto split: prod.split option.split)

lemma translate_events_text:
  "concat (map (delta_text ''content'' 0) (snd (translate_events t es))) = output_text es"
proof (induction es arbitrary: t)
  case (Cons e es)
  have "output_text (e # es) = output_text [e] @ output_text es" by (simp add: output_text_def)
  moreover obtain t' c where c: "translate_event t e = (t', c)" by fastforce
  moreover obtain t'' cs where "translate_events t' es = (t'', cs)" by fastforce
  ultimately show ?case using Cons.IH [of t'] translate_event_text [of t e]
    by (cases c) simp_all
qed (simp add: output_text_def)

definition choice0 :: "stream_accumulator \<Rightarrow> streaming_choice" where
  "choice0 acc = choice_or_default (acc_choices acc) 0"

definition no_final_output :: "json \<Rightarrow> bool" where
  "no_final_output e \<longleftrightarrow>
     str_or_empty e ''type'' = ''response.completed'' \<longrightarrow> json_pointer e [''response'', ''output''] = None"

lemma non_stream_text:
  assumes "list_all no_final_output es"
  shows "ns_content (snd (foldl non_stream_event (t, n) es)) = ns_content n @ output_text es"
  using assms
proof (induction es arbitrary: t n)
  case (Cons e es)
  obtain t' n' where s: "non_stream_event (t, n) e = (t', n')" by fastforce
  then have "ns_content n' = ns_content n @ output_text [e]"
    using Cons.prems by (auto simp: non_stream_event_def Let_def output_text_def no_final_output_def split: if_splits)
  moreover have "output_text (e # es) = output_text [e] @ output_text es" by (simp add: output_text_def)
  ultimately show ?case using Cons s by simp
qed (simp add: output_text_def)

text \<open>
  A streamed and a collected Codex answer have the same text: what the accumulator holds after
  the translated chunks is the concatenation of the output deltas, and so is the content of the
  body built from the same events when the closing event carries no output of its own.
\<close>
theorem codex_streamed_text_matches_collected:
  assumes "list_all no_final_output es"
  shows "sc_content (choice0 (foldl ingest_chunk acc_new (snd (translate_events t es)))) = output_text es \<and>
    ns_content (snd (foldl non_stream_event (t, non_stream_new) es)) = output_text es"
  using ingest_chunks_text(1) [of acc_new "snd (translate_events t es)" 0] translate_events_text [of t es]
    non_stream_text [OF assms, of t non_stream_new]
  by (simp add: choice0_def choice_or_default_def acc_new_def default_choice_def non_stream_new_def)

theorem codex_streamed_text_matches_collected_witness:
  "sc_content (choice0 (foldl ingest_chunk acc_new (snd (translate_events (ct_new (\<lambda>_. None) ''m'' None)
      [JObj [(''type'', JStr ''response.output_text.delta''), (''delta'', JStr ''hi'')]])))) =
    output_text [JObj [(''type'', JStr ''response.output_text.delta''), (''delta'', JStr ''hi'')]] \<and>
   ns_content (snd (foldl non_stream_event (ct_new (\<lambda>_. None) ''m'' None, non_stream_new)
      [JObj [(''type'', JStr ''response.output_text.delta''), (''delta'', JStr ''hi'')]])) =
    output_text [JObj [(''type'', JStr ''response.output_text.delta''), (''delta'', JStr ''hi'')]]"
  by (rule codex_streamed_text_matches_collected) (simp add: no_final_output_def str_or_empty_def json_get_str_def)

section \<open>Tool calls\<close>

definition acc_call :: "string \<Rightarrow> string \<Rightarrow> string \<Rightarrow> json" where
  \<comment> \<open>an accumulated call\<close>
  "acc_call i name args =
     JObj [(''function'', JObj [(''arguments'', JStr args), (''name'', JStr name)]),
           (''type'', JStr ''function''), (''id'', JStr i)]"

definition ev_added :: "string \<Rightarrow> string \<Rightarrow> json" where
  "ev_added i name =
     JObj [(''type'', JStr ''response.output_item.added''),
           (''item'', JObj [(''type'', JStr ''function_call''), (''call_id'', JStr i), (''name'', JStr name)])]"

definition ev_args :: "string \<Rightarrow> json" where
  "ev_args d = JObj [(''type'', JStr ''response.function_call_arguments.delta''), (''delta'', JStr d)]"

definition ev_done :: "string \<Rightarrow> string \<Rightarrow> string \<Rightarrow> json" where
  "ev_done i name args =
     JObj [(''type'', JStr ''response.output_item.done''),
           (''item'', JObj [(''type'', JStr ''function_call''), (''call_id'', JStr i), (''name'', JStr name),
                            (''arguments'', JStr args)])]"

definition call_events :: "string \<times> string \<times> string list \<Rightarrow> json list" where
  \<comment> \<open>a call announced, its arguments in pieces, and completed\<close>
  "call_events c = (case c of (i, name, ds) \<Rightarrow> ev_added i name # map ev_args ds @ [ev_done i name (concat ds)])"

lemma choice0_ingest:
  "sc_tool_calls (choice0 (ingest_chunk acc (chat_chunk t delta finish usage))) =
     (case Option.bind (map_of delta ''tool_calls'') as_array of
        Some ds \<Rightarrow> foldl ingest_tool_call (sc_tool_calls (choice0 acc)) ds
      | None \<Rightarrow> sc_tool_calls (choice0 acc))"
proof -
  have d: "sc_tool_calls (ingest_delta c (JObj delta)) =
      (case Option.bind (map_of delta ''tool_calls'') as_array of
         Some ds \<Rightarrow> foldl ingest_tool_call (sc_tool_calls c) ds | None \<Rightarrow> sc_tool_calls c)" for c
    by (simp add: ingest_delta_def Let_def split: option.split)
  have f: "sc_tool_calls (case x of None \<Rightarrow> c | Some fr \<Rightarrow> c\<lparr>sc_finish_reason := Some fr\<rparr>) = sc_tool_calls c" for x c
    by (simp split: option.split)
  show ?thesis
    by (cases "Option.bind (map_of delta ''tool_calls'') as_array")
      (simp_all add: choice0_def ingest_chunk_def chat_chunk_def choices_of_def ingest_choice_def is_object_def
        u64_or_def choice_or_default_def ingest_choice_into_def d f Let_def)
qed

lemma ingest_announced:
  assumes "length tcs < 2 ^ 64"
  shows "foldl ingest_tool_call tcs [JObj [(''function'', JObj [(''arguments'', JStr a), (''name'', JStr name)]),
       (''id'', JStr i), (''index'', JInt (int (length tcs))), (''type'', JStr ''function'')]] =
     tcs @ [acc_call i name a]"
proof -
  have "int (length tcs) < 2 ^ 64" using assms by simp
  then show ?thesis
    by (simp add: ingest_tool_call_def is_object_def u64_or_def pad_calls_def nth_append Let_def
        merge_tool_call_def copy_field_def empty_tool_call_def empty_function_def get_or_def
        merge_function_name_def merge_function_arguments_def str_or_empty_def json_get_str_def acc_call_def)
qed

lemma ingest_argument_piece:
  assumes "length tcs < 2 ^ 64"
  shows "foldl ingest_tool_call (tcs @ [acc_call i name a])
       [JObj [(''function'', JObj [(''arguments'', JStr d)]), (''index'', JInt (int (length tcs)))]] =
     tcs @ [acc_call i name (a @ d)]"
proof -
  have "int (length tcs) < 2 ^ 64" using assms by simp
  then show ?thesis
    by (simp add: ingest_tool_call_def is_object_def u64_or_def pad_calls_def nth_append Let_def
        merge_tool_call_def copy_field_def get_or_def
        merge_function_name_def merge_function_arguments_def str_or_empty_def json_get_str_def acc_call_def)
qed

definition next_call :: "codex_translator \<Rightarrow> stream_accumulator \<Rightarrow> bool" where
  \<comment> \<open>the translator's index is that of the last accumulated call, and names are as sent\<close>
  "next_call t acc \<longleftrightarrow>
     ct_function_call_index t = int (length (sc_tool_calls (choice0 acc))) - 1 \<and> ct_tool_short_to_orig t = []"

lemma str_type_events [simp]:
  "str_or_empty (ev_added i name) ''type'' = ''response.output_item.added''"
  "str_or_empty (ev_args d) ''type'' = ''response.function_call_arguments.delta''"
  "str_or_empty (ev_done i name a) ''type'' = ''response.output_item.done''"
  by (simp_all add: ev_added_def ev_args_def ev_done_def str_or_empty_def json_get_str_def)

lemma translate_added:
  assumes "ct_tool_short_to_orig t = []"
  shows "translate_event t (ev_added i name) =
    (let t = t\<lparr>ct_function_call_index := ct_function_call_index t + 1, ct_has_tool_call_announced := True,
               ct_has_arguments_delta := False\<rparr>
     in (t, Some (chat_chunk t (call_delta (ct_function_call_index t) (JStr i) name []) JNull [])))"
  using assms unfolding translate_event_def str_type_events
  by (simp add: translate_item_added_def ev_added_def json_get_str_def item_call_id_def get_or_def item_name_def
      restore_tool_name_def str_or_empty_def Let_def)

lemma translate_args:
  "translate_event t (ev_args d) =
    (let t = t\<lparr>ct_has_arguments_delta := True\<rparr>
     in (t, Some (chat_chunk t (arguments_delta (ct_function_call_index t) d) JNull [])))"
  unfolding translate_event_def str_type_events by (simp add: ev_args_def str_or_empty_def json_get_str_def)

lemma translate_done:
  assumes "ct_tool_short_to_orig t = []"
  shows "translate_event t (ev_done i name a) =
    (if ct_has_tool_call_announced t then (t\<lparr>ct_has_tool_call_announced := False\<rparr>, None)
     else (let t = t\<lparr>ct_function_call_index := ct_function_call_index t + 1\<rparr>
           in (t, Some (chat_chunk t (call_delta (ct_function_call_index t) (JStr i) name a) JNull []))))"
  using assms unfolding translate_event_def str_type_events
  by (simp add: translate_item_done_def ev_done_def json_get_str_def item_call_id_def get_or_def item_name_def
      restore_tool_name_def str_or_empty_def Let_def)

lemma ingest_call_chunk:
  assumes "length (sc_tool_calls (choice0 acc)) < 2 ^ 64"
  shows "sc_tool_calls (choice0 (ingest_chunk acc
      (chat_chunk t (call_delta (int (length (sc_tool_calls (choice0 acc)))) (JStr i) name a) finish usage))) =
    sc_tool_calls (choice0 acc) @ [acc_call i name a]"
  using ingest_announced [OF assms] by (simp add: choice0_ingest call_delta_def)

lemma ingest_arguments_chunk:
  assumes "sc_tool_calls (choice0 acc) = tcs @ [acc_call i name a]" "length tcs < 2 ^ 64"
  shows "sc_tool_calls (choice0 (ingest_chunk acc
      (chat_chunk t (arguments_delta (int (length tcs)) d) finish usage))) = tcs @ [acc_call i name (a @ d)]"
  using ingest_argument_piece [OF assms(2)] assms(1) by (simp add: choice0_ingest arguments_delta_def)

lemma argument_pieces:
  assumes "sc_tool_calls (choice0 acc) = tcs @ [acc_call i name a]" "length tcs < 2 ^ 64"
    and "ct_function_call_index t = int (length tcs)"
  shows "\<exists>t' cs. translate_events t (map ev_args ds) = (t', cs) \<and>
    sc_tool_calls (choice0 (foldl ingest_chunk acc cs)) = tcs @ [acc_call i name (a @ concat ds)] \<and>
    ct_function_call_index t' = ct_function_call_index t \<and>
    ct_has_tool_call_announced t' = ct_has_tool_call_announced t \<and>
    ct_tool_short_to_orig t' = ct_tool_short_to_orig t"
  using assms(1,3)
proof (induction ds arbitrary: acc a t)
  case (Cons d ds)
  let ?t = "t\<lparr>ct_has_arguments_delta := True\<rparr>"
  let ?acc = "ingest_chunk acc (chat_chunk ?t (arguments_delta (int (length tcs)) d) JNull [])"
  have acc: "sc_tool_calls (choice0 ?acc) = tcs @ [acc_call i name (a @ d)]"
    by (rule ingest_arguments_chunk [OF Cons.prems(1) assms(2)])
  have "ct_function_call_index ?t = int (length tcs)" using Cons.prems(2) by simp
  from Cons.IH [OF acc this] obtain t' cs where "translate_events ?t (map ev_args ds) = (t', cs)"
    "sc_tool_calls (choice0 (foldl ingest_chunk ?acc cs)) = tcs @ [acc_call i name ((a @ d) @ concat ds)]"
    "ct_function_call_index t' = ct_function_call_index t"
    "ct_has_tool_call_announced t' = ct_has_tool_call_announced t"
    "ct_tool_short_to_orig t' = ct_tool_short_to_orig t" by auto
  then show ?case using Cons.prems(2) by (simp add: translate_args Let_def)
qed simp

lemma one_call:
  assumes "next_call t acc" "length (sc_tool_calls (choice0 acc)) < 2 ^ 64"
  shows "\<exists>t' cs. translate_events t (call_events (i, name, ds)) = (t', cs) \<and>
    sc_tool_calls (choice0 (foldl ingest_chunk acc cs)) = sc_tool_calls (choice0 acc) @ [acc_call i name (concat ds)] \<and>
    next_call t' (foldl ingest_chunk acc cs)"
proof -
  let ?n = "length (sc_tool_calls (choice0 acc))"
  let ?t = "t\<lparr>ct_function_call_index := int ?n, ct_has_tool_call_announced := True, ct_has_arguments_delta := False\<rparr>"
  have n: "ct_tool_short_to_orig t = []" "ct_function_call_index t + 1 = int ?n"
    using assms(1) by (simp_all add: next_call_def)
  let ?c = "chat_chunk ?t (call_delta (int ?n) (JStr i) name []) JNull []"
  have added: "translate_event t (ev_added i name) = (?t, Some ?c)"
    using translate_added [OF n(1)] n(2) by (simp add: Let_def)
  have acc: "sc_tool_calls (choice0 (ingest_chunk acc ?c)) = sc_tool_calls (choice0 acc) @ [acc_call i name []]"
    by (rule ingest_call_chunk [OF assms(2)])
  have "ct_function_call_index ?t = int ?n" by simp
  from argument_pieces [OF acc assms(2) this, of ds] n(1)
  obtain t' cs where t': "translate_events ?t (map ev_args ds) = (t', cs)"
    "sc_tool_calls (choice0 (foldl ingest_chunk (ingest_chunk acc ?c) cs)) =
       sc_tool_calls (choice0 acc) @ [acc_call i name ([] @ concat ds)]"
    "ct_function_call_index t' = int ?n" "ct_has_tool_call_announced t'" "ct_tool_short_to_orig t' = []" by auto
  have fin: "translate_event t' (ev_done i name (concat ds)) = (t'\<lparr>ct_has_tool_call_announced := False\<rparr>, None)"
    using translate_done [OF t'(5)] t'(4) by simp
  show ?thesis using added t' fin
    by (simp add: call_events_def translate_events_append next_call_def)
qed

text \<open>
  Calls that come one after the other arrive intact: for any calls, each announced, sent in any
  pieces and completed before the next, the accumulator holds exactly these calls in order, each with
  its id, its name and the concatenation of its pieces.
\<close>
theorem codex_sequential_calls_intact:
  assumes "length calls \<le> 2 ^ 64"
  shows "sc_tool_calls (choice0 (foldl ingest_chunk acc_new
      (snd (translate_events (ct_new parse model None) (concat (map call_events calls)))))) =
    map (\<lambda>(i, name, ds). acc_call i name (concat ds)) calls"
proof -
  have "sc_tool_calls (choice0 (foldl ingest_chunk acc (snd (translate_events t (concat (map call_events calls)))))) =
      sc_tool_calls (choice0 acc) @ map (\<lambda>(i, name, ds). acc_call i name (concat ds)) calls"
    if "next_call t acc" "length (sc_tool_calls (choice0 acc)) + length calls \<le> 2 ^ 64" for t acc
    using that
  proof (induction calls arbitrary: t acc)
    case (Cons c calls)
    obtain i name ds where c: "c = (i, name, ds)" by (metis prod_cases3)
    have len: "length (sc_tool_calls (choice0 acc)) < 2 ^ 64" using Cons.prems(2) by simp
    from one_call [OF Cons.prems(1) len, of i name ds] obtain t' cs where
      t': "translate_events t (call_events (i, name, ds)) = (t', cs)"
      "sc_tool_calls (choice0 (foldl ingest_chunk acc cs)) = sc_tool_calls (choice0 acc) @ [acc_call i name (concat ds)]"
      "next_call t' (foldl ingest_chunk acc cs)" by blast
    from Cons.IH [OF t'(3)] show ?case using Cons.prems(2) t' c
      by (auto simp: translate_events_append split: prod.split)
  qed simp
  from this [of "ct_new parse model None" acc_new] assms show ?thesis
    by (simp add: next_call_def ct_new_def choice0_def choice_or_default_def acc_new_def default_choice_def)
qed

theorem codex_sequential_calls_intact_witness:
  "sc_tool_calls (choice0 (foldl ingest_chunk acc_new
      (snd (translate_events (ct_new (\<lambda>_. None) ''m'' None)
         (concat (map call_events [(''c1'', ''f'', [''{'', ''}'']), (''c2'', ''g'', [''1''])])))))) =
    map (\<lambda>(i, name, ds). acc_call i name (concat ds)) [(''c1'', ''f'', [''{'', ''}'']), (''c2'', ''g'', [''1''])]"
  by (rule codex_sequential_calls_intact) simp

text \<open>
  Calls that overlap do not: when two calls are announced before the first is completed, the
  completion of the first clears the only flag there is, and the second is sent again as a third call.
\<close>
theorem codex_overlapping_calls_duplicated:
  "sc_tool_calls (choice0 (foldl ingest_chunk acc_new
      (snd (translate_events (ct_new parse model None) [ev_added i f, ev_added j g, ev_done i f a, ev_done j g b])))) =
    [acc_call i f [], acc_call j g [], acc_call j g b]"
proof -
  let ?t = "ct_new parse model None"
  have t: "ct_tool_short_to_orig ?t = []" "ct_function_call_index ?t = -1" by (simp_all add: ct_new_def)
  have e: "sc_tool_calls (choice0 acc_new) = []"
    by (simp add: choice0_def choice_or_default_def acc_new_def default_choice_def)
  have step: "sc_tool_calls (choice0 (ingest_chunk acc (chat_chunk t' (call_delta n (JStr k) name args) JNull []))) =
      sc_tool_calls (choice0 acc) @ [acc_call k name args]"
    if "n = int (length (sc_tool_calls (choice0 acc)))" "length (sc_tool_calls (choice0 acc)) < 9" for acc t' n k name args
    using ingest_call_chunk [of acc t' k name args JNull "[]"] that by simp
  show ?thesis
    by (simp add: translate_added translate_done t Let_def step e)
qed

end
