(* ===== verification/ResponsesRequest.thy ===== *)
theory ResponsesRequest
  imports CodexTools CodexRequest CodexResponse TieredCache
begin

text \<open>
  Requests of the Responses protocol (\<^verbatim>\<open>src/crates/crab-proxy/src/responses_wire.rs\<close>, first
  half) and the store of earlier outputs they refer to
  (\<^verbatim>\<open>src/crates/crab-proxy/src/responses_chain_store.rs\<close>): wire profiles, the expansion of a
  response chain, and the conversion of input items to chat messages. Of the gateway context the
  pipeline and the wire format are arguments; the JSON printer is an argument. The task that writes
  an output to Redis is an operation of its own.
\<close>

section \<open>Wire profiles\<close>

datatype responses_wire_profile = WireCodex | WireDeepSeek | WireMimo

fun chain_namespace :: "responses_wire_profile \<Rightarrow> string" where
  "chain_namespace WireCodex = ''codex''"
| "chain_namespace WireDeepSeek = ''deepseek''"
| "chain_namespace WireMimo = ''mimo''"

fun responses_wire_profile_of :: "request_pipeline option \<Rightarrow> responses_wire_profile option" where
  "responses_wire_profile_of (Some CodexRelay) = Some WireCodex"
| "responses_wire_profile_of (Some CodexDeepSeek) = Some WireDeepSeek"
| "responses_wire_profile_of (Some CursorDeepSeekV4) = Some WireDeepSeek"
| "responses_wire_profile_of (Some DeepSeekLight) = Some WireDeepSeek"
| "responses_wire_profile_of (Some CodexMimo) = Some WireMimo"
| "responses_wire_profile_of (Some MimoTokenPlanRelay) = Some WireMimo"
| "responses_wire_profile_of _ = None"

datatype responses_wire_target = TargetDeepSeek | TargetMimo

definition responses_wire_target_of :: "request_pipeline option \<Rightarrow> responses_wire_target" where
  "responses_wire_target_of p =
     (if responses_wire_profile_of p = Some WireMimo then TargetMimo else TargetDeepSeek)"

definition responses_chain_namespace :: "request_pipeline option \<Rightarrow> string" where
  "responses_chain_namespace p =
     (case responses_wire_profile_of p of Some w \<Rightarrow> chain_namespace w | None \<Rightarrow> ''other'')"

definition namespaced_chain_id :: "string \<Rightarrow> string \<Rightarrow> string" where
  "namespaced_chain_id namespace response_id = namespace @ '':'' @ response_id"

definition needs_responses_wire_translate :: "request_pipeline option \<Rightarrow> client_wire_api \<Rightarrow> bool" where
  "needs_responses_wire_translate p wire =
     (case responses_wire_profile_of p of
        Some WireCodex \<Rightarrow> False
      | Some WireDeepSeek \<Rightarrow> p = Some CodexDeepSeek \<or> wire = Responses
      | Some WireMimo \<Rightarrow> wire = Responses
      | None \<Rightarrow> wire = Responses \<and> p \<noteq> Some CodexRelay)"

section \<open>The chain store\<close>

definition KEY_PREFIX :: string where
  "KEY_PREFIX = ''crab:responses_chain:''"

record chain_store =
  cs_l0 :: "(string, json list \<times> instant) hmap"
  cs_redis :: "(string, string \<times> instant) hmap option" \<comment> \<open>\<open>None\<close>: no Redis\<close>
  cs_ttl_secs :: nat
  cs_max_value_bytes :: nat
  cs_max_output_items :: nat

definition default_max_value_bytes :: nat where
  "default_max_value_bytes = 256 * 1024"

definition default_max_output_items :: nat where
  "default_max_output_items = 64"

definition new_l0_only :: "nat \<Rightarrow> chain_store" where
  "new_l0_only ttl_secs =
     \<lparr>cs_l0 = [], cs_redis = None, cs_ttl_secs = ttl_secs, cs_max_value_bytes = default_max_value_bytes,
      cs_max_output_items = default_max_output_items\<rparr>"

definition new_tiered :: "(string, string \<times> instant) hmap \<Rightarrow> nat \<Rightarrow> nat \<Rightarrow> nat \<Rightarrow> chain_store" where
  \<comment> \<open>a new instance finds what is in Redis\<close>
  "new_tiered redis ttl_secs max_value_bytes max_output_items =
     \<lparr>cs_l0 = [], cs_redis = Some redis, cs_ttl_secs = ttl_secs, cs_max_value_bytes = max_value_bytes,
      cs_max_output_items = max_output_items\<rparr>"

definition redis_key :: "string \<Rightarrow> string" where
  "redis_key response_id = KEY_PREFIX @ response_id"

definition chain_l0_insert :: "chain_store \<Rightarrow> string \<Rightarrow> json list \<Rightarrow> instant \<Rightarrow> chain_store" where
  "chain_l0_insert cs k v now =
     cs\<lparr>cs_l0 := hm_insert (cs_l0 cs) k (v, now + int (from_secs (cs_ttl_secs cs)))\<rparr>"

definition chain_get ::
    "json_parser \<Rightarrow> chain_store \<Rightarrow> string \<Rightarrow> l1_io \<Rightarrow> instant \<Rightarrow> json list option \<times> chain_store" where
  "chain_get parse cs response_id io now =
     (case live (cs_l0 cs) response_id now of
        Some v \<Rightarrow> (Some v, cs)
      | None \<Rightarrow>
          (case cs_redis cs of
             None \<Rightarrow> (None, cs)
           | Some redis \<Rightarrow>
               if \<not> io_conn io \<or> \<not> io_cmd io then (None, cs)
               else (case live redis (redis_key response_id) now of
                       None \<Rightarrow> (None, cs)
                     | Some raw \<Rightarrow>
                         (case Option.bind (parse raw) as_array of
                            Some output \<Rightarrow> (Some output, chain_l0_insert cs response_id output now)
                          | None \<Rightarrow> (None, cs)))))"

definition cap_output :: "chain_store \<Rightarrow> json list \<Rightarrow> json list" where
  "cap_output cs output =
     (if 0 < cs_max_output_items cs \<and> cs_max_output_items cs < length output
      then take (cs_max_output_items cs) output else output)"

definition chain_put :: "chain_store \<Rightarrow> string \<Rightarrow> json list \<Rightarrow> instant \<Rightarrow> chain_store \<times> (string \<times> json list) option" where
  \<comment> \<open>the second part is the task that is spawned for Redis\<close>
  "chain_put cs response_id output now =
     (if response_id = [] \<or> output = [] then (cs, None)
      else (let output = cap_output cs output
            in (chain_l0_insert cs response_id output now,
                if cs_redis cs = None then None else Some (redis_key response_id, output))))"

definition chain_persist :: "(json \<Rightarrow> string) \<Rightarrow> chain_store \<Rightarrow> string \<times> json list \<Rightarrow> l1_io \<Rightarrow> instant \<Rightarrow> chain_store" where
  \<comment> \<open>the spawned task\<close>
  "chain_persist ser cs task io now =
     (case task of (key, output) \<Rightarrow>
      (let json = ser (JArr output) in
       if cs_max_value_bytes cs < length json \<or> \<not> io_conn io \<or> \<not> io_cmd io then cs
       else cs\<lparr>cs_redis := map_option (\<lambda>r. hm_insert r key (json, now + int (from_secs (cs_ttl_secs cs)))) (cs_redis cs)\<rparr>))"

section \<open>Expansion of a chain\<close>

definition responses_output_item_to_input :: "json \<Rightarrow> json option" where
  "responses_output_item_to_input item =
     (case json_get_str item ''type'' of
        None \<Rightarrow> None
      | Some t \<Rightarrow>
          if t = ''message''
          then Some (JObj [(''content'', get_or item ''content'' (JArr [])),
                           (''role'', JStr (case json_get_str item ''role'' of Some r \<Rightarrow> r | None \<Rightarrow> ''assistant'')),
                           (''type'', JStr ''message'')])
          else if t = ''function_call''
          then Some (JObj [(''arguments'', JStr (case json_get_str item ''arguments'' of Some a \<Rightarrow> a | None \<Rightarrow> ''{}'')),
                           (''call_id'', get_or item ''call_id'' (JStr [])),
                           (''name'', get_or item ''name'' JNull),
                           (''type'', JStr ''function_call'')])
          else if t = ''reasoning''
          then Some (JObj [(''encrypted_content'', get_or item ''encrypted_content'' JNull),
                           (''id'', get_or item ''id'' JNull),
                           (''summary'', get_or item ''summary'' (JArr [])),
                           (''type'', JStr ''reasoning'')])
          else None)"

definition merge_chain_input :: "json list \<Rightarrow> json option \<Rightarrow> json list" where
  \<comment> \<open>\<open>merged_input\<close>; a longer array is taken for a resent transcript\<close>
  "merge_chain_input prev_inputs input =
     (case input of
        Some (JStr t) \<Rightarrow> if t \<noteq> [] then prev_inputs @ [fallback_item t] else prev_inputs
      | Some (JArr items) \<Rightarrow>
          if items = [] then prev_inputs
          else if sat_add 64 (length prev_inputs) 2 < length items then items
          else prev_inputs @ items
      | _ \<Rightarrow> prev_inputs)"

definition apply_responses_chain ::
    "json_parser \<Rightarrow> json \<Rightarrow> chain_store \<Rightarrow> string \<Rightarrow> l1_io \<Rightarrow> instant \<Rightarrow> json \<times> chain_store" where
  "apply_responses_chain parse payload store namespace io now =
     (case nonempty_str payload ''previous_response_id'' of
        None \<Rightarrow> (payload, store)
      | Some prev_id \<Rightarrow>
          (case chain_get parse store (namespaced_chain_id namespace prev_id) io now of
             (None, store) \<Rightarrow> (payload, store)
           | (Some prev_output, store) \<Rightarrow>
               (let merged = merge_chain_input (List.map_filter responses_output_item_to_input prev_output)
                               (json_get payload ''input'')
                in (json_remove (json_insert payload ''input'' (JArr merged)) ''previous_response_id'', store))))"

definition store_responses_chain_output ::
    "chain_store \<Rightarrow> string \<Rightarrow> string \<Rightarrow> json list \<Rightarrow> instant \<Rightarrow> chain_store \<times> (string \<times> json list) option" where
  "store_responses_chain_output store namespace response_id output now =
     (if response_id = [] then (store, None)
      else chain_put store (namespaced_chain_id namespace response_id) output now)"

section \<open>Input items\<close>

definition is_internal_assistant_message :: "json \<Rightarrow> bool" where
  "is_internal_assistant_message item =
     (case as_object item of
        None \<Rightarrow> False
      | Some _ \<Rightarrow>
          (case json_get_str item ''type'' of
             Some t \<Rightarrow> t = ''message''
           | None \<Rightarrow> json_get item ''role'' \<noteq> None) \<and>
          json_get_str item ''role'' = Some ''assistant'' \<and>
          to_lowercase (trim (str_or_empty item ''phase'')) = ''commentary'')"

definition function_name_char :: "char \<Rightarrow> bool" where
  \<comment> \<open>\<open>c.is_ascii_alphanumeric() || c == '_' || c == '-'\<close>\<close>
  "function_name_char c \<longleftrightarrow>
     (CHR ''a'' \<le> c \<and> c \<le> CHR ''z'') \<or> (CHR ''A'' \<le> c \<and> c \<le> CHR ''Z'') \<or>
     (CHR ''0'' \<le> c \<and> c \<le> CHR ''9'') \<or> c = CHR ''_'' \<or> c = CHR ''-''"

definition sanitize_function_name :: "string \<Rightarrow> string" where
  "sanitize_function_name name = take 128 (map (\<lambda>c. if function_name_char c then c else CHR ''_'') name)"

definition expected_prefix :: "string \<Rightarrow> string" where
  "expected_prefix item_type =
     (if item_type = ''function_call'' then ''fc_'' else if item_type = ''message'' then ''msg_''
      else if item_type = ''reasoning'' then ''rs_'' else [])"

definition needs_name_fix :: "json \<Rightarrow> bool" where
  "needs_name_fix item \<longleftrightarrow>
     (str_or_empty item ''type'' = ''function_call'' \<or> str_or_empty item ''type'' = ''function_call_output'') \<and>
     (case json_get_str item ''name'' of
        Some name \<Rightarrow> \<not> list_all function_name_char name \<or> 128 < length name
      | None \<Rightarrow> False)"

definition needs_id_strip :: "json \<Rightarrow> bool" where
  "needs_id_strip item \<longleftrightarrow>
     expected_prefix (str_or_empty item ''type'') \<noteq> [] \<and>
     (case json_get_str item ''id'' of
        Some i \<Rightarrow> \<not> starts_with i (expected_prefix (str_or_empty item ''type''))
      | None \<Rightarrow> False)"

definition sanitize_responses_input_item_ids :: "json \<Rightarrow> json" where
  "sanitize_responses_input_item_ids item =
     (let next = (if needs_name_fix item
                  then (case json_get_str item ''name'' of
                          Some name \<Rightarrow> json_insert item ''name'' (JStr (sanitize_function_name name))
                        | None \<Rightarrow> item)
                  else item)
      in if needs_id_strip item then json_remove next ''id'' else next)"

definition sanitize_responses_input_items :: "json list \<Rightarrow> json list" where
  "sanitize_responses_input_items items =
     map sanitize_responses_input_item_ids (filter (\<lambda>i. \<not> is_internal_assistant_message i) items)"

definition reasoning_item_text :: "json \<Rightarrow> string" where
  "reasoning_item_text item =
     (case nonempty_str item ''encrypted_content'' of
        Some t \<Rightarrow> t
      | None \<Rightarrow>
          (case Option.bind (json_get item ''summary'') as_array of
             Some parts \<Rightarrow>
               concat (List.map_filter (\<lambda>p. json_get_str p ''text'')
                 (filter (\<lambda>p. json_get_str p ''type'' = Some ''summary_text'') parts))
           | None \<Rightarrow> []))"

section \<open>Content\<close>

fun chat_part :: "json \<Rightarrow> string list" where
  \<comment> \<open>the texts of the parts a content element becomes; both branches of \<open>mapped\<close> are \<open>"text"\<close>\<close>
  "chat_part (JStr s) = (if s \<noteq> [] then [s] else [])"
| "chat_part (JObj kvs) =
     (let t = (case text_or_content (JObj kvs) of Some s \<Rightarrow> s | None \<Rightarrow> []) in if t \<noteq> [] then [t] else [])"
| "chat_part _ = []"

fun responses_content_to_chat :: "json option \<Rightarrow> json" where
  "responses_content_to_chat None = JStr []"
| "responses_content_to_chat (Some JNull) = JStr []"
| "responses_content_to_chat (Some (JStr s)) = JStr s"
| "responses_content_to_chat (Some (JArr parts)) =
     (case concat (map chat_part parts) of
        [t] \<Rightarrow> JStr t
      | ts \<Rightarrow> JArr (map (text_part ''text'') ts))"
| "responses_content_to_chat (Some other) = other"

fun content_value_to_string :: "(json \<Rightarrow> string) \<Rightarrow> json \<Rightarrow> string" where
  "content_value_to_string ser (JStr s) = s"
| "content_value_to_string ser (JArr items) = concat (List.map_filter text_or_content items)"
| "content_value_to_string ser v = ser v"

fun content_is_nonempty :: "json \<Rightarrow> bool" where
  "content_is_nonempty (JStr s) = (s \<noteq> [])"
| "content_is_nonempty (JArr a) = (a \<noteq> [])"
| "content_is_nonempty JNull = False"
| "content_is_nonempty _ = True"

fun function_call_arguments_to_string :: "(json \<Rightarrow> string) \<Rightarrow> json option \<Rightarrow> string" where
  "function_call_arguments_to_string ser (Some (JStr s)) = s"
| "function_call_arguments_to_string ser (Some v) = ser v"
| "function_call_arguments_to_string ser None = ''{}''"

section \<open>Items to messages\<close>

type_synonym conversion = "json list \<times> json option"
  \<comment> \<open>\<open>messages\<close> and \<open>current_assistant\<close>\<close>

definition flush_assistant :: "conversion \<Rightarrow> conversion" where
  "flush_assistant s = (case s of (ms, Some cur) \<Rightarrow> (ms @ [cur], None) | (ms, None) \<Rightarrow> (ms, None))"

definition append_reasoning_to_assistant :: "json option \<Rightarrow> string \<Rightarrow> json option" where
  "append_reasoning_to_assistant cur t =
     (if t = [] then cur
      else (let entry = (case cur of Some e \<Rightarrow> e
                         | None \<Rightarrow> JObj [(''content'', JStr []), (''role'', JStr ''assistant'')])
            in Some (json_insert entry ''reasoning_content'' (JStr (str_or_empty entry ''reasoning_content'' @ t)))))"

definition convert_message_item :: "conversion \<Rightarrow> json \<Rightarrow> conversion" where
  "convert_message_item s item =
     (let role = role_or_user item;
          content = responses_content_to_chat (json_get item ''content'')
      in if role = ''assistant''
         then (let s = (if Option.bind (snd s) (\<lambda>m. json_get m ''content'') \<noteq> None then flush_assistant s else s);
                   entry = (case snd s of Some e \<Rightarrow> e | None \<Rightarrow> JObj [(''role'', JStr ''assistant'')])
               in (fst s, Some (json_insert entry ''content'' content)))
         else (let s = flush_assistant s
               in if content_is_nonempty content
                  then (fst s @ [JObj [(''content'', content), (''role'', JStr role)]], snd s)
                  else s))"

definition chat_call :: "(json \<Rightarrow> string) \<Rightarrow> json \<Rightarrow> json" where
  "chat_call ser item =
     JObj [(''function'', JObj [(''arguments'', JStr (function_call_arguments_to_string ser (json_get item ''arguments''))),
                                (''name'', JStr (trim (str_or_empty item ''name'')))]),
           (''id'', JStr (str_or_empty item ''call_id'')),
           (''type'', JStr ''function'')]"

definition convert_call_item :: "(json \<Rightarrow> string) \<Rightarrow> conversion \<Rightarrow> json \<Rightarrow> conversion" where
  "convert_call_item ser s item =
     (if trim (str_or_empty item ''name'') = [] then s
      else (let entry = (case snd s of Some e \<Rightarrow> e
                         | None \<Rightarrow> JObj [(''content'', JNull), (''role'', JStr ''assistant''), (''tool_calls'', JArr [])]);
                calls = (case tool_calls_of entry of Some tcs \<Rightarrow> tcs | None \<Rightarrow> [])
            in (fst s, Some (json_insert entry ''tool_calls'' (JArr (calls @ [chat_call ser item]))))))"

definition convert_output_item :: "(json \<Rightarrow> string) \<Rightarrow> conversion \<Rightarrow> json \<Rightarrow> conversion" where
  "convert_output_item ser s item =
     (let s = flush_assistant s
      in (fst s @ [JObj [(''content'', JStr (case json_get item ''output'' of
                                              Some v \<Rightarrow> content_value_to_string ser v | None \<Rightarrow> [])),
                         (''role'', JStr ''tool''),
                         (''tool_call_id'', JStr (str_or_empty item ''call_id''))]], snd s))"

definition item_type_of :: "json \<Rightarrow> string option" where
  "item_type_of item =
     (case json_get_str item ''type'' of
        Some t \<Rightarrow> Some t
      | None \<Rightarrow> if json_get item ''role'' \<noteq> None then Some ''message'' else None)"

definition convert_item :: "(json \<Rightarrow> string) \<Rightarrow> conversion \<Rightarrow> json \<Rightarrow> conversion" where
  "convert_item ser s item =
     (if item_type_of item = Some ''reasoning''
      then (fst s, append_reasoning_to_assistant (snd s) (reasoning_item_text item))
      else if item_type_of item = Some ''message'' then convert_message_item s item
      else if item_type_of item = Some ''function_call'' then convert_call_item ser s item
      else if item_type_of item = Some ''function_call_output'' then convert_output_item ser s item
      else s)"

definition convert_responses_input_to_messages :: "(json \<Rightarrow> string) \<Rightarrow> json list \<Rightarrow> json list" where
  "convert_responses_input_to_messages ser items = fst (flush_assistant (foldl (convert_item ser) ([], None) items))"

section \<open>Whole requests\<close>

definition MIXED_MODE_REASONING_PLACEHOLDER :: string where
  "MIXED_MODE_REASONING_PLACEHOLDER = ''(this turn ran without thinking mode)''"

definition backfill_reasoning :: "json \<Rightarrow> json" where
  \<comment> \<open>the loop body of \<open>backfill_missing_assistant_reasoning\<close>\<close>
  "backfill_reasoning msg =
     (if \<not> has_role ''assistant'' msg \<or> nonempty_str msg ''reasoning_content'' \<noteq> None then msg
      else json_insert msg ''reasoning_content'' (JStr MIXED_MODE_REASONING_PLACEHOLDER))"

definition backfill_missing_assistant_reasoning :: "json list \<Rightarrow> json list" where
  "backfill_missing_assistant_reasoning messages = map backfill_reasoning messages"

fun finalize_responses_messages_for_target :: "json list \<Rightarrow> responses_wire_target \<Rightarrow> json list" where
  "finalize_responses_messages_for_target messages TargetDeepSeek = strip_dangling_assistant_tool_calls messages"
| "finalize_responses_messages_for_target messages TargetMimo =
     backfill_missing_assistant_reasoning (filter_orphaned_tool_messages messages)"

definition SKIP_FIELDS :: "string list" where
  "SKIP_FIELDS = [''input'', ''instructions'', ''previous_response_id'', ''prompt'', ''include'', ''background'',
     ''store'', ''reasoning'', ''safety_identifier'', ''max_output_tokens'', ''max_completion_tokens'']"

definition request_messages :: "(json \<Rightarrow> string) \<Rightarrow> json \<Rightarrow> json list" where
  \<comment> \<open>\<open>messages\<close> before the target's repair\<close>
  "request_messages ser payload =
     (case nonempty_str payload ''instructions'' of
        Some i \<Rightarrow> [JObj [(''content'', JStr i), (''role'', JStr ''system'')]] | None \<Rightarrow> []) @
     (case json_get payload ''input'' of
        Some (JStr t) \<Rightarrow> if t \<noteq> [] then [JObj [(''content'', JStr t), (''role'', JStr ''user'')]] else []
      | Some (JArr items) \<Rightarrow> convert_responses_input_to_messages ser (sanitize_responses_input_items items)
      | _ \<Rightarrow> [])"

definition rewrite_tool_choice :: "json \<Rightarrow> json" where
  "rewrite_tool_choice out =
     (case json_get out ''tool_choice'' of
        Some (JObj tc) \<Rightarrow>
          if json_get_str (JObj tc) ''type'' = Some ''function'' \<and> json_get (JObj tc) ''name'' \<noteq> None \<and>
             json_get (JObj tc) ''function'' = None
          then json_insert out ''tool_choice''
                 (JObj [(''function'', JObj [(''name'', get_or (JObj tc) ''name'' JNull)]), (''type'', JStr ''function'')])
          else out
      | _ \<Rightarrow> out)"

definition responses_payload_to_chat_completions_for ::
    "(json \<Rightarrow> string) \<Rightarrow> json \<Rightarrow> responses_wire_target \<Rightarrow> json" where
  "responses_payload_to_chat_completions_for ser payload target =
     (if (case messages_of payload of Some ms \<Rightarrow> ms \<noteq> [] | None \<Rightarrow> False) then payload
      else case as_object payload of
        None \<Rightarrow> payload
      | Some kvs \<Rightarrow>
          (let out = JObj (filter (\<lambda>(k, v). k \<notin> set SKIP_FIELDS) kvs);
               out = json_insert out ''messages''
                       (JArr (finalize_responses_messages_for_target (request_messages ser payload) target));
               out = set_opt out ''max_tokens''
                       (or_else (json_get payload ''max_output_tokens'') (json_get payload ''max_completion_tokens''));
               out = (case Option.bind (json_get payload ''tools'') as_array of
                        Some tools \<Rightarrow> json_insert out ''tools'' (JArr (normalize_codex_tools_for_upstream tools))
                      | None \<Rightarrow> out)
           in ensure_codex_file_tools_from_context (rewrite_tool_choice out)))"

definition responses_payload_to_chat_completions :: "(json \<Rightarrow> string) \<Rightarrow> json \<Rightarrow> json" where
  "responses_payload_to_chat_completions ser payload =
     responses_payload_to_chat_completions_for ser payload TargetDeepSeek"

section \<open>Calls and results keep their order\<close>

datatype tool_step = CallMade json | ResultGiven json

definition message_steps :: "json \<Rightarrow> tool_step list" where
  \<comment> \<open>the calls a chat message makes, then the result it gives\<close>
  "message_steps m =
     map CallMade (case tool_calls_of m of Some tcs \<Rightarrow> tcs | None \<Rightarrow> []) @
     (if json_get m ''tool_call_id'' \<noteq> None then [ResultGiven m] else [])"

definition result_message :: "(json \<Rightarrow> string) \<Rightarrow> json \<Rightarrow> json" where
  "result_message ser item =
     JObj [(''content'', JStr (case json_get item ''output'' of Some v \<Rightarrow> content_value_to_string ser v | None \<Rightarrow> [])),
           (''role'', JStr ''tool''), (''tool_call_id'', JStr (str_or_empty item ''call_id''))]"

definition item_steps :: "(json \<Rightarrow> string) \<Rightarrow> json \<Rightarrow> tool_step list" where
  \<comment> \<open>the same for an input item; a call without a name is no call\<close>
  "item_steps ser item =
     (if item_type_of item = Some ''function_call'' \<and> trim (str_or_empty item ''name'') \<noteq> []
      then [CallMade (chat_call ser item)]
      else if item_type_of item = Some ''function_call_output'' then [ResultGiven (result_message ser item)]
      else [])"

definition turn_wf :: "json option \<Rightarrow> bool" where
  \<comment> \<open>the open assistant turn is an assistant message whose calls, if any, are an array\<close>
  "turn_wf cur =
     (case cur of
        None \<Rightarrow> True
      | Some e \<Rightarrow> is_object e \<and> has_role ''assistant'' e \<and> json_get e ''tool_call_id'' = None \<and>
          (json_get e ''tool_calls'' = None \<or> tool_calls_of e \<noteq> None))"

definition conversion_steps :: "conversion \<Rightarrow> tool_step list" where
  "conversion_steps s =
     concat (map message_steps (fst s)) @ (case snd s of Some e \<Rightarrow> message_steps e | None \<Rightarrow> [])"

lemma flush_assistant_snd [simp]: "snd (flush_assistant s) = None"
  by (simp add: flush_assistant_def split: prod.split option.split)

lemma flush_assistant_steps [simp]: "conversion_steps (flush_assistant s) = conversion_steps s"
  by (simp add: flush_assistant_def conversion_steps_def split: prod.split option.split)

lemma turn_wf_insert:
  assumes "turn_wf (Some e)" "k \<noteq> ''role''" "k \<noteq> ''tool_call_id''" "k = ''tool_calls'' \<Longrightarrow> as_array v \<noteq> None"
  shows "turn_wf (Some (json_insert e k v))"
  using assms by (auto simp: turn_wf_def json_get_insert_object has_role_def json_get_str_def tool_calls_of_def)

lemma message_steps_insert:
  assumes "turn_wf (Some e)" "k \<noteq> ''tool_calls''" "k \<noteq> ''tool_call_id''"
  shows "message_steps (json_insert e k v) = message_steps e"
  using assms by (simp add: message_steps_def tool_calls_of_def json_get_insert_object turn_wf_def)

lemma convert_reasoning_steps:
  assumes "turn_wf (snd s)"
  shows "turn_wf (append_reasoning_to_assistant (snd s) t)"
    "conversion_steps (fst s, append_reasoning_to_assistant (snd s) t) = conversion_steps s"
proof -
  let ?e = "case snd s of Some e \<Rightarrow> e | None \<Rightarrow> JObj [(''content'', JStr []), (''role'', JStr ''assistant'')]"
  have e: "turn_wf (Some ?e)" using assms
    by (auto simp: turn_wf_def is_object_def has_role_def json_get_str_def split: option.split)
  show "turn_wf (append_reasoning_to_assistant (snd s) t)"
    using assms turn_wf_insert [OF e, of "''reasoning_content''"] by (simp add: append_reasoning_to_assistant_def Let_def)
  have "message_steps ?e = (case snd s of Some e \<Rightarrow> message_steps e | None \<Rightarrow> [])"
    by (simp add: message_steps_def tool_calls_of_def split: option.split)
  then show "conversion_steps (fst s, append_reasoning_to_assistant (snd s) t) = conversion_steps s"
    using message_steps_insert [OF e]
    by (simp add: append_reasoning_to_assistant_def Let_def conversion_steps_def)
qed

lemma convert_message_steps:
  assumes "turn_wf (snd s)"
  shows "turn_wf (snd (convert_message_item s item))"
    "conversion_steps (convert_message_item s item) = conversion_steps s"
proof -
  have fl: "conversion_steps (fst (flush_assistant s) @ [JObj [(''content'', c), (''role'', r)]], None) = conversion_steps s" for c r
    using flush_assistant_steps [of s] by (simp add: conversion_steps_def message_steps_def tool_calls_of_def)
  let ?s = "if Option.bind (snd s) (\<lambda>m. json_get m ''content'') \<noteq> None then flush_assistant s else s"
  let ?e = "case snd ?s of Some e \<Rightarrow> e | None \<Rightarrow> JObj [(''role'', JStr ''assistant'')]"
  have e: "turn_wf (Some ?e)" using assms
    by (auto simp: turn_wf_def is_object_def has_role_def json_get_str_def split: option.split)
  have "message_steps ?e = (case snd ?s of Some e \<Rightarrow> message_steps e | None \<Rightarrow> [])"
    by (simp add: message_steps_def tool_calls_of_def split: option.split)
  then have st: "conversion_steps (fst ?s, Some (json_insert ?e ''content'' c)) = conversion_steps s" for c
    using message_steps_insert [OF e, of "''content''" c] flush_assistant_steps [of s]
    by (simp add: conversion_steps_def split: option.split)
  show "turn_wf (snd (convert_message_item s item))"
    using turn_wf_insert [OF e, of "''content''"] by (auto simp: convert_message_item_def Let_def turn_wf_def [of None])
  show "conversion_steps (convert_message_item s item) = conversion_steps s"
    using st fl by (auto simp: convert_message_item_def Let_def)
qed

lemma convert_call_steps:
  assumes "turn_wf (snd s)"
  shows "turn_wf (snd (convert_call_item ser s item))"
    "conversion_steps (convert_call_item ser s item) =
       conversion_steps s @ (if trim (str_or_empty item ''name'') = [] then [] else [CallMade (chat_call ser item)])"
proof -
  let ?e = "case snd s of Some e \<Rightarrow> e
    | None \<Rightarrow> JObj [(''content'', JNull), (''role'', JStr ''assistant''), (''tool_calls'', JArr [])]"
  let ?calls = "case tool_calls_of ?e of Some tcs \<Rightarrow> tcs | None \<Rightarrow> []"
  have e: "turn_wf (Some ?e)" using assms
    by (auto simp: turn_wf_def is_object_def has_role_def json_get_str_def tool_calls_of_def split: option.split)
  then have obj: "is_object ?e" "json_get ?e ''tool_call_id'' = None" by (simp_all add: turn_wf_def)
  show "turn_wf (snd (convert_call_item ser s item))"
    using assms turn_wf_insert [OF e, of "''tool_calls''"] by (simp add: convert_call_item_def Let_def)
  have "map CallMade ?calls = (case snd s of Some e \<Rightarrow> message_steps e | None \<Rightarrow> [])"
    using obj(2) by (auto simp: message_steps_def tool_calls_of_def split: option.split)
  then show "conversion_steps (convert_call_item ser s item) =
      conversion_steps s @ (if trim (str_or_empty item ''name'') = [] then [] else [CallMade (chat_call ser item)])"
    using obj by (simp add: convert_call_item_def Let_def conversion_steps_def message_steps_def tool_calls_of_def
        json_get_insert_object)
qed

lemma convert_output_steps:
  "conversion_steps (convert_output_item ser s item) = conversion_steps s @ [ResultGiven (result_message ser item)]"
  using flush_assistant_steps [of s]
  by (simp add: convert_output_item_def Let_def conversion_steps_def message_steps_def tool_calls_of_def
      result_message_def)

lemma convert_output_wf: "turn_wf (snd (convert_output_item ser s item))"
  by (simp add: convert_output_item_def Let_def turn_wf_def)

lemma convert_item_steps:
  assumes "turn_wf (snd s)"
  shows "turn_wf (snd (convert_item ser s item)) \<and>
    conversion_steps (convert_item ser s item) = conversion_steps s @ item_steps ser item"
  using convert_reasoning_steps [OF assms] convert_message_steps [OF assms] convert_call_steps [OF assms] assms
  by (simp add: convert_item_def item_steps_def convert_output_steps convert_output_wf)

lemma convert_items_steps:
  assumes "turn_wf (snd s)"
  shows "turn_wf (snd (foldl (convert_item ser) s items)) \<and>
    conversion_steps (foldl (convert_item ser) s items) = conversion_steps s @ concat (map (item_steps ser) items)"
  using assms
proof (induction items arbitrary: s)
  case (Cons i items)
  then show ?case using convert_item_steps [OF Cons.prems, of ser i] by simp
qed simp

text \<open>
  C12. Grouping input items into assistant turns loses, invents and reorders nothing: the calls and
  results of the chat messages are those of the items, one by one and in the same order.
\<close>
theorem conversion_keeps_tool_steps:
  "concat (map message_steps (convert_responses_input_to_messages ser items)) = concat (map (item_steps ser) items)"
proof -
  let ?s = "foldl (convert_item ser) ([], None) items"
  have "conversion_steps ?s = concat (map (item_steps ser) items)"
    using convert_items_steps [of "([], None)" ser items] by (simp add: turn_wf_def conversion_steps_def)
  moreover have "concat (map message_steps (fst (flush_assistant ?s))) = conversion_steps (flush_assistant ?s)"
    by (simp add: conversion_steps_def)
  ultimately show ?thesis by (simp add: convert_responses_input_to_messages_def)
qed

section \<open>What each target is sent\<close>

definition calls_answered :: "json list \<Rightarrow> bool" where
  \<comment> \<open>every call of an assistant message has a result\<close>
  "calls_answered ms \<longleftrightarrow>
     (\<forall>m \<in> set ms. has_role ''assistant'' m \<longrightarrow>
        (case tool_calls_of m of
           Some tcs \<Rightarrow> tcs \<noteq> [] \<and> (\<forall>tc \<in> set tcs. \<exists>i \<in> tool_ids ms. json_get_str tc ''id'' = Some i)
         | None \<Rightarrow> True))"

definition results_asked :: "json list \<Rightarrow> bool" where
  \<comment> \<open>every result answers a call\<close>
  "results_asked ms \<longleftrightarrow>
     (\<forall>m \<in> set ms. has_role ''tool'' m \<longrightarrow> (\<exists>i \<in> call_ids ms. json_get_str m ''tool_call_id'' = Some i))"

definition assistants_reasoned :: "json list \<Rightarrow> bool" where
  "assistants_reasoned ms \<longleftrightarrow>
     (\<forall>m \<in> set ms. has_role ''assistant'' m \<longrightarrow> nonempty_str m ''reasoning_content'' \<noteq> None)"

lemma backfill_get:
  "k \<noteq> ''reasoning_content'' \<Longrightarrow> json_get (backfill_reasoning m) k = json_get m k"
  by (cases m) (auto simp: backfill_reasoning_def update_conv')

lemma backfill_role: "has_role r (backfill_reasoning m) = has_role r m"
  by (simp add: has_role_def json_get_str_def backfill_get)

lemma backfill_reasoned: "has_role ''assistant'' m \<Longrightarrow> nonempty_str (backfill_reasoning m) ''reasoning_content'' \<noteq> None"
proof -
  assume r: "has_role ''assistant'' m"
  then obtain kvs where "m = JObj kvs" using has_role_object by blast
  then show ?thesis using r
    by (auto simp: backfill_reasoning_def nonempty_str_def json_get_str_def update_conv' MIXED_MODE_REASONING_PLACEHOLDER_def)
qed

lemma call_ids_backfill: "call_ids (map backfill_reasoning ms) = call_ids ms"
  by (simp add: call_ids_def tool_calls_of_def backfill_get)

lemma results_asked_filter:
  assumes "no_calls_in_tools ms"
  shows "results_asked (filter_orphaned_tool_messages ms)"
  unfolding results_asked_def filter_keeps_calls [OF assms]
  by (auto simp: filter_orphaned_tool_messages_def split: if_splits option.splits)

lemma calls_answered_strip: "calls_answered (strip_dangling_assistant_tool_calls ms)"
  unfolding calls_answered_def tool_ids_strip
  by (auto simp: strip_dangling_assistant_tool_calls_def strip_message_calls Let_def split: option.splits if_splits)

definition no_tool_calls_in_tool :: "json \<Rightarrow> bool" where
  "no_tool_calls_in_tool m \<longleftrightarrow> \<not> (has_role ''tool'' m \<and> tool_calls_of m \<noteq> None)"

lemma convert_item_no_calls:
  assumes "list_all no_tool_calls_in_tool (fst s)" "turn_wf (snd s)"
  shows "list_all no_tool_calls_in_tool (fst (convert_item ser s item))"
proof -
  have e: "no_tool_calls_in_tool e" if "turn_wf (Some e)" for e
    using that by (auto simp: turn_wf_def no_tool_calls_in_tool_def has_role_def)
  have fl: "list_all no_tool_calls_in_tool (fst (flush_assistant s))"
    using assms e by (auto simp: flush_assistant_def split: prod.split option.split)
  have plain: "no_tool_calls_in_tool (JObj [(''content'', c), (''role'', r)])"
    "no_tool_calls_in_tool (JObj [(''content'', c), (''role'', r), (''tool_call_id'', i)])" for c r i
    by (simp_all add: no_tool_calls_in_tool_def tool_calls_of_def)
  show ?thesis using assms(1) fl plain
    by (auto simp: convert_item_def convert_message_item_def convert_call_item_def convert_output_item_def Let_def)
qed

lemma convert_items_no_calls:
  assumes "list_all no_tool_calls_in_tool (fst s)" "turn_wf (snd s)"
  shows "list_all no_tool_calls_in_tool (fst (foldl (convert_item ser) s items))"
  using assms
proof (induction items arbitrary: s)
  case (Cons i items)
  then show ?case using convert_item_steps [OF Cons.prems(2), of ser i] convert_item_no_calls [OF Cons.prems, of ser i]
    by simp
qed simp

lemma request_messages_no_calls: "no_calls_in_tools (request_messages ser payload)"
proof -
  have conv: "list_all no_tool_calls_in_tool (convert_responses_input_to_messages ser items)" for items
  proof -
    let ?s = "foldl (convert_item ser) ([], None) items"
    have "list_all no_tool_calls_in_tool (fst ?s)" "turn_wf (snd ?s)"
      using convert_items_no_calls [of "([], None)"] convert_items_steps [of "([], None)"] by (simp_all add: turn_wf_def)
    then show ?thesis unfolding convert_responses_input_to_messages_def
      by (auto simp: flush_assistant_def turn_wf_def no_tool_calls_in_tool_def has_role_def split: prod.split option.split)
  qed
  have plain: "no_tool_calls_in_tool (JObj [(''content'', c), (''role'', r)])" for c r
    by (simp add: no_tool_calls_in_tool_def tool_calls_of_def)
  have "list_all no_tool_calls_in_tool (request_messages ser payload)"
    using conv plain by (auto simp: request_messages_def split: option.split json.split)
  then show ?thesis by (auto simp: no_calls_in_tools_def no_tool_calls_in_tool_def list_all_iff)
qed

text \<open>
  Each upstream gets a history it accepts, whatever the client sends: for DeepSeek every call of an
  assistant message has a result; for MiMo every result answers a call and every assistant message
  has reasoning.
\<close>
theorem converted_history_fits_target:
  "calls_answered (finalize_responses_messages_for_target (request_messages ser payload) TargetDeepSeek) \<and>
   results_asked (finalize_responses_messages_for_target (request_messages ser payload) TargetMimo) \<and>
   assistants_reasoned (finalize_responses_messages_for_target (request_messages ser payload) TargetMimo)"
proof (intro conjI)
  let ?ms = "filter_orphaned_tool_messages (request_messages ser payload)"
  show "calls_answered (finalize_responses_messages_for_target (request_messages ser payload) TargetDeepSeek)"
    by (simp add: calls_answered_strip)
  have "results_asked ?ms" by (rule results_asked_filter [OF request_messages_no_calls])
  then show "results_asked (finalize_responses_messages_for_target (request_messages ser payload) TargetMimo)"
    by (simp add: results_asked_def backfill_missing_assistant_reasoning_def backfill_role call_ids_backfill
        json_get_str_def backfill_get)
  show "assistants_reasoned (finalize_responses_messages_for_target (request_messages ser payload) TargetMimo)"
    by (auto simp: assistants_reasoned_def backfill_missing_assistant_reasoning_def backfill_role
        simp del: not_None_eq dest: backfill_reasoned)
qed

section \<open>Chains\<close>

lemma namespace_no_colon: "CHR '':'' \<notin> set (responses_chain_namespace p)"
proof (cases "responses_wire_profile_of p")
  case (Some w)
  then show ?thesis by (cases w) (simp_all add: responses_chain_namespace_def)
qed (simp add: responses_chain_namespace_def)

lemma namespaced_id_eq:
  "namespaced_chain_id (responses_chain_namespace p) a = namespaced_chain_id (responses_chain_namespace q) b \<longleftrightarrow>
   responses_chain_namespace p = responses_chain_namespace q \<and> a = b"
  unfolding namespaced_chain_id_def using namespace_no_colon by (auto dest: colon_split)

lemma live_insert_other: "k \<noteq> l \<Longrightarrow> live (hm_insert m l v) k now = live m k now"
  by (simp add: live_def hm_get_def hm_insert_def update_conv')

lemma live_insert: "live (hm_insert m k (v, t)) k now = (if now < t then Some v else None)"
  by (simp add: live_def hm_get_def hm_insert_def update_conv')

definition store_and_persist ::
    "(json \<Rightarrow> string) \<Rightarrow> chain_store \<Rightarrow> string \<Rightarrow> string \<Rightarrow> json list \<Rightarrow> l1_io \<Rightarrow> instant \<Rightarrow> chain_store" where
  \<comment> \<open>an output is stored and the spawned task has run\<close>
  "store_and_persist ser cs namespace response_id output io now =
     (case store_responses_chain_output cs namespace response_id output now of
        (cs', None) \<Rightarrow> cs'
      | (cs', Some task) \<Rightarrow> chain_persist ser cs' task io now)"

lemma chain_get_other:
  assumes "k \<noteq> namespaced_chain_id ns i"
  shows "fst (chain_get parse (store_and_persist ser cs ns i output io now) k io' now') = fst (chain_get parse cs k io' now')"
proof -
  have r: "redis_key k \<noteq> redis_key (namespaced_chain_id ns i)" using assms by (simp add: redis_key_def)
  show ?thesis using assms r
    by (auto simp: store_and_persist_def store_responses_chain_output_def chain_put_def Let_def chain_l0_insert_def
        chain_get_def chain_persist_def live_insert_other split: option.split)
qed

lemma apply_chain_cong:
  assumes "\<And>k. k = namespaced_chain_id ns (case nonempty_str payload ''previous_response_id'' of Some i \<Rightarrow> i | None \<Rightarrow> []) \<Longrightarrow>
      fst (chain_get parse cs k io now) = fst (chain_get parse cs' k io now)"
  shows "fst (apply_responses_chain parse payload cs ns io now) = fst (apply_responses_chain parse payload cs' ns io now)"
  using assms by (auto simp: apply_responses_chain_def Let_def split: option.split prod.split)

text \<open>
  Pipelines never see each other's chains: what one stores, in memory and in Redis, does not change
  what a request of a pipeline with another namespace is expanded to.
\<close>
theorem chain_namespaces_isolated:
  assumes "responses_chain_namespace p \<noteq> responses_chain_namespace q"
  shows "fst (apply_responses_chain parse payload
           (store_and_persist ser cs (responses_chain_namespace p) i output io now) (responses_chain_namespace q) io' now') =
         fst (apply_responses_chain parse payload cs (responses_chain_namespace q) io' now')"
  using assms by (intro apply_chain_cong chain_get_other) (simp add: namespaced_id_eq)

theorem chain_namespaces_isolated_witness:
  "fst (apply_responses_chain (\<lambda>_. None) (JObj [(''previous_response_id'', JStr ''r'')])
      (store_and_persist (\<lambda>_. []) (new_l0_only 60) (responses_chain_namespace (Some CodexMimo)) ''r'' [JNull]
         \<lparr>io_conn = True, io_cmd = True, io_del = True\<rparr> 0) (responses_chain_namespace (Some CodexDeepSeek))
      \<lparr>io_conn = True, io_cmd = True, io_del = True\<rparr> 1) =
   fst (apply_responses_chain (\<lambda>_. None) (JObj [(''previous_response_id'', JStr ''r'')]) (new_l0_only 60)
      (responses_chain_namespace (Some CodexDeepSeek)) \<lparr>io_conn = True, io_cmd = True, io_del = True\<rparr> 1)"
  by (rule chain_namespaces_isolated) (simp add: responses_chain_namespace_def)

lemma cap_output_short:
  "length output \<le> cs_max_output_items cs \<Longrightarrow> cap_output cs output = output"
  by (simp add: cap_output_def)

lemma apply_chain_hit:
  assumes "nonempty_str payload ''previous_response_id'' = Some i"
    and "fst (chain_get parse cs (namespaced_chain_id ns i) io now) = Some output"
  shows "fst (apply_responses_chain parse payload cs ns io now) =
     json_remove (json_insert payload ''input''
       (JArr (merge_chain_input (List.map_filter responses_output_item_to_input output) (json_get payload ''input''))))
       ''previous_response_id''"
  using assms by (auto simp: apply_responses_chain_def Let_def split: prod.split)

lemma persisted_chain_found:
  assumes "i \<noteq> []" "output \<noteq> []" "length output \<le> cs_max_output_items cs" "cs_redis cs = Some redis"
    and "length (ser (JArr output)) \<le> cs_max_value_bytes cs" "parse (ser (JArr output)) = Some (JArr output)"
    and "io_conn io" "io_cmd io" "io_conn io'" "io_cmd io'" "now' < now + int (from_secs (cs_ttl_secs cs))"
  shows "\<exists>redis'. cs_redis (store_and_persist ser cs ns i output io now) = Some redis' \<and>
     fst (chain_get parse (new_tiered redis' t b m) (namespaced_chain_id ns i) io' now') = Some output"
proof -
  have "namespaced_chain_id ns i \<noteq> []" by (simp add: namespaced_chain_id_def)
  then have "cs_redis (store_and_persist ser cs ns i output io now) =
      Some (hm_insert redis (redis_key (namespaced_chain_id ns i))
        (ser (JArr output), now + int (from_secs (cs_ttl_secs cs))))"
    using assms by (simp add: store_and_persist_def store_responses_chain_output_def chain_put_def Let_def
        chain_l0_insert_def chain_persist_def cap_output_short)
  then show ?thesis using assms
    by (simp add: chain_get_def new_tiered_def live_insert live_def [of "[]"])
qed

text \<open>
  A chain survives a restart: an output that fits the limits, stored and persisted by one instance,
  is what a new instance on the same Redis expands a follow-up request with, as long as it has not
  expired; the request's own items follow the stored ones.
\<close>
theorem chain_survives_restart:
  assumes "i \<noteq> []" "output \<noteq> []" "length output \<le> cs_max_output_items cs" "cs_redis cs = Some redis"
    and "length (ser (JArr output)) \<le> cs_max_value_bytes cs" "parse (ser (JArr output)) = Some (JArr output)"
    and "io_conn io" "io_cmd io" "io_conn io'" "io_cmd io'" "now' < now + int (from_secs (cs_ttl_secs cs))"
    and "json_get_str payload ''previous_response_id'' = Some i" "json_get payload ''input'' = Some (JArr items)"
    and "length items \<le> length (List.map_filter responses_output_item_to_input output)"
    and "length items < 2 ^ 64"
  shows "\<exists>redis'. cs_redis (store_and_persist ser cs ns i output io now) = Some redis' \<and>
     json_get (fst (apply_responses_chain parse payload (new_tiered redis' t b m) ns io' now')) ''input'' =
       Some (JArr (List.map_filter responses_output_item_to_input output @ items))"
proof -
  obtain redis' where r: "cs_redis (store_and_persist ser cs ns i output io now) = Some redis'"
    "fst (chain_get parse (new_tiered redis' t b m) (namespaced_chain_id ns i) io' now') = Some output"
    using persisted_chain_found [where parse = parse and ser = ser and io = io and io' = io', OF assms(1-11)] by blast
  have id: "nonempty_str payload ''previous_response_id'' = Some i"
    using assms(1,12) by (simp add: nonempty_str_def split: list.split)
  have obj: "as_object payload \<noteq> None" using assms(13) by (cases payload) auto
  have "merge_chain_input (List.map_filter responses_output_item_to_input output) (Some (JArr items)) =
      List.map_filter responses_output_item_to_input output @ items"
    using assms(14,15) by (auto simp: merge_chain_input_def sat_add_def)
  then show ?thesis
    using r(1) apply_chain_hit [OF id r(2)] assms(13) obj
    by (intro exI [of _ redis']) (simp add: json_get_remove json_get_insert)
qed

theorem chain_survives_restart_witness:
  "\<exists>redis'. cs_redis (store_and_persist (\<lambda>_. ''x'') (new_tiered [] 60 10 10) ''mimo'' ''r''
       [JObj [(''type'', JStr ''message'')]] \<lparr>io_conn = True, io_cmd = True, io_del = True\<rparr> 0) = Some redis' \<and>
     json_get (fst (apply_responses_chain (\<lambda>_. Some (JArr [JObj [(''type'', JStr ''message'')]]))
         (JObj [(''previous_response_id'', JStr ''r''), (''input'', JArr [JNull])]) (new_tiered redis' 60 10 10) ''mimo''
         \<lparr>io_conn = True, io_cmd = True, io_del = True\<rparr> 1)) ''input'' =
       Some (JArr (List.map_filter responses_output_item_to_input [JObj [(''type'', JStr ''message'')]] @ [JNull]))"
  by (rule chain_survives_restart)
    (simp_all add: new_tiered_def from_secs_def nanos_per_sec_def json_get_str_def List.map_filter_def
      responses_output_item_to_input_def)

text \<open>
  The guess that a long input is a resent transcript replaces the chain: a follow-up of more than two
  items beyond the stored ones, as several parallel results and a message can be, loses the stored
  output.
\<close>
theorem long_follow_up_drops_chain:
  assumes "fst (chain_get parse cs (namespaced_chain_id ns i) io now) = Some outp" "i \<noteq> []"
    and "json_get_str payload ''previous_response_id'' = Some i" "json_get payload ''input'' = Some (JArr items)"
    and "length (List.map_filter responses_output_item_to_input outp) + 2 < length items"
  shows "json_get (fst (apply_responses_chain parse payload cs ns io now)) ''input'' = Some (JArr items)"
proof -
  have id: "nonempty_str payload ''previous_response_id'' = Some i"
    using assms(2,3) by (simp add: nonempty_str_def split: list.split)
  have obj: "as_object payload \<noteq> None" using assms(4) by (cases payload) auto
  have "items \<noteq> []" using assms(5) by auto
  moreover have "sat_add 64 (length (List.map_filter responses_output_item_to_input outp)) 2 < length items"
    using assms(5) by (simp add: sat_add_def min_less_iff_disj)
  ultimately show ?thesis using apply_chain_hit [OF id assms(1)] assms(4) obj
    by (simp add: json_get_remove json_get_insert merge_chain_input_def)
qed

theorem long_follow_up_drops_chain_witness:
  "json_get (fst (apply_responses_chain (\<lambda>_. None)
      (JObj [(''previous_response_id'', JStr ''r''), (''input'', JArr [JNull, JNull, JNull, JNull])])
      (fst (store_responses_chain_output (new_l0_only 60) ''mimo'' ''r'' [JObj [(''type'', JStr ''function_call'')]] 0))
      ''mimo'' \<lparr>io_conn = True, io_cmd = True, io_del = True\<rparr> 1)) ''input'' =
   Some (JArr [JNull, JNull, JNull, JNull])"
  by (rule long_follow_up_drops_chain [where i = "''r''" and outp = "[JObj [(''type'', JStr ''function_call'')]]"])
    (simp_all add: store_responses_chain_output_def chain_put_def new_l0_only_def Let_def cap_output_def
      default_max_output_items_def chain_l0_insert_def chain_get_def live_insert from_secs_def nanos_per_sec_def
      namespaced_chain_id_def json_get_str_def List.map_filter_def responses_output_item_to_input_def)

end
