(* ===== verification/ResponsesStream.thy ===== *)
theory ResponsesStream
  imports ResponsesRequest
begin

text \<open>
  The translator from a chat-completion stream to the event stream of the Responses protocol
  (\<^verbatim>\<open>src/crates/crab-proxy/src/responses_wire.rs\<close>, \<^verbatim>\<open>ChatToResponsesSseTranslator\<close>). A method is an
  emitter: it maps the translator to the next one and the frames it appends to the output. What is
  written to the client is the printed frames. The clock is read once per call; the id of a new
  response is an argument. An invariant of all runs is an interpretation of the locale
  \<open>stream_invariant\<close>.
\<close>

section \<open>State and frames\<close>

record tool_call_state =
  tcs_call_id :: string
  tcs_name :: string
  tcs_args_buf :: string
  tcs_item_added :: bool
  tcs_item_done :: bool

record responses_translator =
  rt_seq :: nat
  rt_response_id :: string
  rt_created_at :: int
  rt_started :: bool
  rt_completed_sent :: bool
  rt_msg_index :: int
  rt_msg_text :: string
  rt_msg_item_added :: bool
  rt_msg_content_added :: bool
  rt_msg_item_done :: bool
  rt_reasoning_id :: "string option"
  rt_reasoning_index :: int
  rt_reasoning_text :: string
  rt_reasoning_part_added :: bool
  rt_reasoning_done :: bool
  rt_in_thinking :: bool
  rt_tool_calls :: "(nat, tool_call_state) hmap"
  rt_pending_usage :: "json option"
  rt_model :: string
  rt_last_emit_at :: "instant option"
  rt_remainder :: string
  rt_done_marker_sent :: bool
  rt_exec_only :: bool

datatype rs_frame = RsEvent json | RsDone

type_synonym emitter = "responses_translator \<Rightarrow> responses_translator \<times> rs_frame list"

definition RESPONSES_SSE_KEEPALIVE :: duration where
  "RESPONSES_SSE_KEEPALIVE = from_secs 2"

definition rt_new :: "string \<Rightarrow> int \<Rightarrow> string \<Rightarrow> responses_translator" where
  \<comment> \<open>\<open>uuid\<close> and \<open>created_at\<close> are the fresh id and the time\<close>
  "rt_new uuid created_at model =
     \<lparr>rt_seq = 0, rt_response_id = ''resp_'' @ uuid, rt_created_at = created_at, rt_started = False,
      rt_completed_sent = False, rt_msg_index = 0, rt_msg_text = [], rt_msg_item_added = False,
      rt_msg_content_added = False, rt_msg_item_done = False, rt_reasoning_id = None, rt_reasoning_index = -1,
      rt_reasoning_text = [], rt_reasoning_part_added = False, rt_reasoning_done = False, rt_in_thinking = False,
      rt_tool_calls = [], rt_pending_usage = None, rt_model = model, rt_last_emit_at = None, rt_remainder = [],
      rt_done_marker_sent = False, rt_exec_only = False\<rparr>"

definition skip :: emitter where
  "skip t = (t, [])"

definition modify :: "(responses_translator \<Rightarrow> responses_translator) \<Rightarrow> emitter" where
  "modify u t = (u t, [])"

definition then_emit :: "emitter \<Rightarrow> emitter \<Rightarrow> emitter" where
  "then_emit f g t = (case f t of (t', a) \<Rightarrow> (case g t' of (t'', b) \<Rightarrow> (t'', a @ b)))"

definition when_emit :: "(responses_translator \<Rightarrow> bool) \<Rightarrow> emitter \<Rightarrow> emitter" where
  "when_emit P f t = (if P t then f t else (t, []))"

primrec emit_all :: "emitter list \<Rightarrow> emitter" where
  "emit_all [] = skip"
| "emit_all (f # fs) = then_emit f (emit_all fs)"

definition emit :: "instant \<Rightarrow> (responses_translator \<Rightarrow> json) \<Rightarrow> emitter" where
  \<comment> \<open>\<open>data\<close> reads the state before the call\<close>
  "emit now data t =
     (let seq = wrap_add 64 (rt_seq t) 1
      in (t\<lparr>rt_seq := seq, rt_last_emit_at := Some now\<rparr>,
          [RsEvent (json_insert (data t) ''sequence_number'' (JInt (int seq)))]))"

definition append_done_marker :: emitter where
  "append_done_marker t = (t, [RsDone])"

definition append_responses_event :: "(json \<Rightarrow> string) \<Rightarrow> json \<Rightarrow> string" where
  "append_responses_event ser v =
     ''event: '' @ (case json_get_str v ''type'' of Some e \<Rightarrow> e | None \<Rightarrow> ''message'') @ nl @
     ''data: '' @ ser v @ nl @ nl"

fun print_frame :: "(json \<Rightarrow> string) \<Rightarrow> rs_frame \<Rightarrow> string" where
  "print_frame ser (RsEvent v) = append_responses_event ser v"
| "print_frame ser RsDone = ''data: [DONE]'' @ nl @ nl"

definition print_frames :: "(json \<Rightarrow> string) \<Rightarrow> rs_frame list \<Rightarrow> string" where
  "print_frames ser fs = concat (map (print_frame ser) fs)"

section \<open>Start and keep-alive\<close>

definition created_event :: "responses_translator \<Rightarrow> json" where
  "created_event t =
     JObj [(''response'', JObj [(''background'', JBool False), (''created_at'', JInt (rt_created_at t)), (''error'', JNull),
              (''id'', JStr (rt_response_id t)), (''model'', JStr (rt_model t)), (''object'', JStr ''response''),
              (''output'', JArr []), (''status'', JStr ''in_progress'')]),
           (''type'', JStr ''response.created'')]"

definition in_progress_event :: "responses_translator \<Rightarrow> json" where
  "in_progress_event t =
     JObj [(''response'', JObj [(''created_at'', JInt (rt_created_at t)), (''id'', JStr (rt_response_id t)),
              (''model'', JStr (rt_model t)), (''object'', JStr ''response''), (''status'', JStr ''in_progress'')]),
           (''type'', JStr ''response.in_progress'')]"

definition bootstrap_stream :: "instant \<Rightarrow> emitter" where
  "bootstrap_stream now =
     when_emit (\<lambda>t. \<not> rt_started t)
       (emit_all [modify (\<lambda>t. t\<lparr>rt_started := True\<rparr>), emit now created_event, emit now in_progress_event])"

definition maybe_emit_keepalive :: "instant \<Rightarrow> emitter" where
  "maybe_emit_keepalive now =
     when_emit (\<lambda>t. rt_started t \<and> \<not> rt_completed_sent t \<and>
         (case rt_last_emit_at t of Some l \<Rightarrow> RESPONSES_SSE_KEEPALIVE \<le> elapsed now l | None \<Rightarrow> False))
       (emit now in_progress_event)"

definition poll_keepalive :: "instant \<Rightarrow> emitter" where
  "poll_keepalive now = maybe_emit_keepalive now"

definition set_exec_only_surface :: "bool \<Rightarrow> responses_translator \<Rightarrow> responses_translator" where
  "set_exec_only_surface b t = t\<lparr>rt_exec_only := b\<rparr>"

definition normalize_downstream_tool_name :: "responses_translator \<Rightarrow> string \<Rightarrow> string" where
  "normalize_downstream_tool_name t name =
     (if rt_exec_only t \<and> name \<in> set CODEX_FILE_TOOL_NAMES then ''exec_command'' else name)"

section \<open>Reasoning\<close>

definition item_id :: "string \<Rightarrow> string \<Rightarrow> int \<Rightarrow> string" where
  "item_id prefix response_id idx = prefix @ ''_'' @ response_id @ ''_'' @ show_int idx"

definition msg_id :: "responses_translator \<Rightarrow> int \<Rightarrow> string" where
  "msg_id t idx = item_id ''msg'' (rt_response_id t) idx"

definition the_reasoning_id :: "responses_translator \<Rightarrow> string" where
  "the_reasoning_id t = (case rt_reasoning_id t of Some i \<Rightarrow> i | None \<Rightarrow> [])"

definition summary_text :: "string \<Rightarrow> json" where
  "summary_text s = JObj [(''text'', JStr s), (''type'', JStr ''summary_text'')]"

definition ev_item_added :: "int \<Rightarrow> (string \<times> json) list \<Rightarrow> json" where
  "ev_item_added idx item =
     JObj [(''item'', JObj item), (''output_index'', JInt idx), (''type'', JStr ''response.output_item.added'')]"

definition ev_item_done :: "int \<Rightarrow> (string \<times> json) list \<Rightarrow> json" where
  "ev_item_done idx item =
     JObj [(''item'', JObj item), (''output_index'', JInt idx), (''type'', JStr ''response.output_item.done'')]"

definition ev_summary :: "string \<Rightarrow> string \<Rightarrow> int \<Rightarrow> string \<times> json \<Rightarrow> json" where
  \<comment> \<open>the four events about the reasoning summary differ in their type and one field\<close>
  "ev_summary ty rs_id idx field =
     JObj [field, (''item_id'', JStr rs_id), (''output_index'', JInt idx), (''summary_index'', JInt 0), (''type'', JStr ty)]"

definition start_reasoning :: "instant \<Rightarrow> int \<Rightarrow> emitter" where
  "start_reasoning now idx =
     when_emit (\<lambda>t. rt_reasoning_id t = None)
       (emit_all
          [modify (\<lambda>t. t\<lparr>rt_reasoning_id := Some (item_id ''rs'' (rt_response_id t) idx), rt_reasoning_index := idx\<rparr>),
           emit now (\<lambda>t. ev_item_added idx
             [(''id'', JStr (the_reasoning_id t)), (''summary'', JArr []), (''type'', JStr ''reasoning'')]),
           emit now (\<lambda>t. ev_summary ''response.reasoning_summary_part.added'' (the_reasoning_id t) idx
             (''part'', summary_text [])),
           modify (\<lambda>t. t\<lparr>rt_reasoning_part_added := True\<rparr>)])"

definition emit_reasoning_delta :: "instant \<Rightarrow> string \<Rightarrow> emitter" where
  "emit_reasoning_delta now s =
     (if s = [] then skip
      else emit_all
        [(\<lambda>t. start_reasoning now (rt_msg_index t) t),
         modify (\<lambda>t. t\<lparr>rt_reasoning_text := rt_reasoning_text t @ s\<rparr>),
         when_emit (\<lambda>t. rt_reasoning_id t \<noteq> None)
           (emit now (\<lambda>t. ev_summary ''response.reasoning_summary_text.delta'' (the_reasoning_id t) (rt_reasoning_index t)
              (''delta'', JStr s)))])"

definition close_reasoning :: "instant \<Rightarrow> emitter" where
  "close_reasoning now =
     when_emit (\<lambda>t. \<not> rt_reasoning_done t \<and> rt_reasoning_id t \<noteq> None)
       (emit_all
          [modify (\<lambda>t. t\<lparr>rt_reasoning_done := True\<rparr>),
           emit now (\<lambda>t. ev_summary ''response.reasoning_summary_text.done'' (the_reasoning_id t) (rt_reasoning_index t)
             (''text'', JStr (rt_reasoning_text t))),
           emit now (\<lambda>t. ev_summary ''response.reasoning_summary_part.done'' (the_reasoning_id t) (rt_reasoning_index t)
             (''part'', summary_text (rt_reasoning_text t))),
           emit now (\<lambda>t. ev_item_done (rt_reasoning_index t)
             [(''id'', JStr (the_reasoning_id t)), (''summary'', JArr [summary_text (rt_reasoning_text t)]),
              (''type'', JStr ''reasoning'')])])"

section \<open>The message\<close>

definition output_part :: "string \<Rightarrow> json" where
  "output_part s =
     JObj [(''annotations'', JArr []), (''logprobs'', JArr []), (''text'', JStr s), (''type'', JStr ''output_text'')]"

definition ev_part :: "string \<Rightarrow> string \<Rightarrow> int \<Rightarrow> json \<Rightarrow> json" where
  "ev_part ty i idx part =
     JObj [(''content_index'', JInt 0), (''item_id'', JStr i), (''output_index'', JInt idx), (''part'', part), (''type'', JStr ty)]"

definition ev_text :: "string \<Rightarrow> string \<Rightarrow> int \<Rightarrow> string \<times> json \<Rightarrow> json" where
  "ev_text ty i idx field =
     JObj [(''content_index'', JInt 0), field, (''item_id'', JStr i), (''logprobs'', JArr []), (''output_index'', JInt idx),
           (''type'', JStr ty)]"

definition emit_text_delta :: "instant \<Rightarrow> int \<Rightarrow> string \<Rightarrow> emitter" where
  "emit_text_delta now idx content =
     emit_all
       [when_emit (\<lambda>t. \<not> rt_msg_item_added t)
          (emit_all [modify (\<lambda>t. t\<lparr>rt_msg_item_added := True\<rparr>),
                     emit now (\<lambda>t. ev_item_added idx
                       [(''content'', JArr []), (''id'', JStr (msg_id t idx)), (''role'', JStr ''assistant''),
                        (''type'', JStr ''message'')])]),
        when_emit (\<lambda>t. \<not> rt_msg_content_added t)
          (emit_all [modify (\<lambda>t. t\<lparr>rt_msg_content_added := True\<rparr>),
                     emit now (\<lambda>t. ev_part ''response.content_part.added'' (msg_id t idx) idx (output_part []))]),
        emit now (\<lambda>t. ev_text ''response.output_text.delta'' (msg_id t idx) idx (''delta'', JStr content)),
        modify (\<lambda>t. t\<lparr>rt_msg_text := rt_msg_text t @ content\<rparr>)]"

definition close_message :: "instant \<Rightarrow> int \<Rightarrow> emitter" where
  "close_message now idx =
     when_emit (\<lambda>t. rt_msg_item_added t \<and> \<not> rt_msg_item_done t)
       (emit_all
          [modify (\<lambda>t. t\<lparr>rt_msg_item_done := True\<rparr>),
           emit now (\<lambda>t. ev_text ''response.output_text.done'' (msg_id t idx) idx (''text'', JStr (rt_msg_text t))),
           emit now (\<lambda>t. ev_part ''response.content_part.done'' (msg_id t idx) idx (output_part (rt_msg_text t))),
           emit now (\<lambda>t. ev_item_done idx
             [(''content'', JArr [output_part (rt_msg_text t)]), (''id'', JStr (msg_id t idx)),
              (''role'', JStr ''assistant''), (''type'', JStr ''message'')])])"

section \<open>Tool calls\<close>

definition clean_tool_call_arguments :: "json_parser \<Rightarrow> (json \<Rightarrow> string) \<Rightarrow> string \<Rightarrow> string" where
  "clean_tool_call_arguments parse ser raw =
     (case Option.bind (parse raw) as_object of
        None \<Rightarrow> raw
      | Some kvs \<Rightarrow> ser (JObj (filter (\<lambda>(k, v). \<not> (as_str v = Some [] \<or> as_array v = Some [])) kvs)))"

definition fc_id :: "string \<Rightarrow> string" where
  "fc_id call_id = ''fc_'' @ call_id"

definition call_fields :: "string \<Rightarrow> string \<Rightarrow> string \<Rightarrow> (string \<times> json) list" where
  "call_fields call_id name args =
     [(''arguments'', JStr args), (''call_id'', JStr call_id), (''id'', JStr (fc_id call_id)), (''name'', JStr name),
      (''type'', JStr ''function_call'')]"

definition ev_arguments :: "string \<Rightarrow> nat \<Rightarrow> string \<Rightarrow> string \<times> json \<Rightarrow> json" where
  "ev_arguments ty idx call_id field =
     JObj [field, (''item_id'', JStr (fc_id call_id)), (''output_index'', JInt (int idx)), (''type'', JStr ty)]"

definition final_arguments :: "json_parser \<Rightarrow> (json \<Rightarrow> string) \<Rightarrow> tool_call_state \<Rightarrow> string" where
  "final_arguments parse ser e =
     (if tcs_args_buf e = [] then ''{}'' else clean_tool_call_arguments parse ser (tcs_args_buf e))"

definition close_tool_call :: "json_parser \<Rightarrow> (json \<Rightarrow> string) \<Rightarrow> instant \<Rightarrow> nat \<Rightarrow> emitter" where
  "close_tool_call parse ser now idx t =
     (case hm_get (rt_tool_calls t) idx of
        None \<Rightarrow> (t, [])
      | Some e \<Rightarrow>
          if tcs_item_done e \<or> tcs_call_id e = [] then (t, [])
          else emit_all
            [modify (\<lambda>t. t\<lparr>rt_tool_calls := hm_insert (rt_tool_calls t) idx (e\<lparr>tcs_item_done := True\<rparr>)\<rparr>),
             emit now (\<lambda>_. ev_arguments ''response.function_call_arguments.done'' idx (tcs_call_id e)
               (''arguments'', JStr (final_arguments parse ser e))),
             emit now (\<lambda>_. ev_item_done (int idx)
               (call_fields (tcs_call_id e) (tcs_name e) (final_arguments parse ser e)))] t)"

definition new_call_state :: tool_call_state where
  "new_call_state = \<lparr>tcs_call_id = [], tcs_name = [], tcs_args_buf = [], tcs_item_added = False, tcs_item_done = False\<rparr>"

definition update_call ::
    "string option \<Rightarrow> string option \<Rightarrow> string option \<Rightarrow> tool_call_state \<Rightarrow> tool_call_state" where
  \<comment> \<open>the name, the id where there is none yet, and the piece of arguments\<close>
  "update_call name new_id args e =
     (let e = (case name of Some n \<Rightarrow> e\<lparr>tcs_name := n\<rparr> | None \<Rightarrow> e);
          e = (case new_id of Some i \<Rightarrow> if tcs_call_id e = [] then e\<lparr>tcs_call_id := i\<rparr> else e | None \<Rightarrow> e)
      in case args of Some a \<Rightarrow> e\<lparr>tcs_args_buf := tcs_args_buf e @ a\<rparr> | None \<Rightarrow> e)"

definition tc_index :: "json \<Rightarrow> nat" where
  \<comment> \<open>\<open>as u32\<close>\<close>
  "tc_index tc = u64_or_zero tc ''index'' mod 2 ^ 32"

definition function_field :: "json \<Rightarrow> string \<Rightarrow> string option" where
  "function_field tc k = Option.bind (json_pointer tc [''function'', k]) as_str"

definition replace_call :: "json_parser \<Rightarrow> (json \<Rightarrow> string) \<Rightarrow> instant \<Rightarrow> nat \<Rightarrow> string option \<Rightarrow> emitter" where
  \<comment> \<open>another id at the same index: the entry is closed and dropped\<close>
  "replace_call parse ser now idx new_id =
     when_emit (\<lambda>t. case (hm_get (rt_tool_calls t) idx, new_id) of
                       (Some e, Some i) \<Rightarrow> tcs_call_id e \<noteq> i | _ \<Rightarrow> False)
       (emit_all [close_tool_call parse ser now idx,
                  modify (\<lambda>t. t\<lparr>rt_tool_calls := hm_remove (rt_tool_calls t) idx\<rparr>)])"

definition apply_call_delta :: "instant \<Rightarrow> nat \<Rightarrow> string option \<Rightarrow> string option \<Rightarrow> string option \<Rightarrow> emitter" where
  "apply_call_delta now idx name new_id args t =
     (let e = update_call name new_id args
                (case hm_get (rt_tool_calls t) idx of Some e \<Rightarrow> e | None \<Rightarrow> new_call_state);
          add = \<not> tcs_item_added e \<and> tcs_call_id e \<noteq> [];
          e' = (if add then e\<lparr>tcs_item_added := True\<rparr> else e)
      in emit_all
           [modify (\<lambda>t. t\<lparr>rt_tool_calls := hm_insert (rt_tool_calls t) idx e'\<rparr>),
            (if add then emit now (\<lambda>_. ev_item_added (int idx) (call_fields (tcs_call_id e) (tcs_name e) [])) else skip),
            (case args of
               Some a \<Rightarrow>
                 if tcs_call_id e \<noteq> []
                 then emit now (\<lambda>_. ev_arguments ''response.function_call_arguments.delta'' idx (tcs_call_id e)
                        (''delta'', JStr a))
                 else skip
             | None \<Rightarrow> skip)] t)"

definition nonempty :: "string option \<Rightarrow> string option" where
  "nonempty s = (case s of Some (c # cs) \<Rightarrow> Some (c # cs) | _ \<Rightarrow> None)"

definition handle_tool_call_delta :: "json_parser \<Rightarrow> (json \<Rightarrow> string) \<Rightarrow> instant \<Rightarrow> json \<Rightarrow> emitter" where
  "handle_tool_call_delta parse ser now tc =
     (\<lambda>t. let name = map_option (normalize_downstream_tool_name t) (function_field tc ''name'');
              new_id = nonempty_str tc ''id'';
              args = nonempty (function_field tc ''arguments'')
          in emit_all [replace_call parse ser now (tc_index tc) new_id,
                       apply_call_delta now (tc_index tc) name new_id args] t)"

section \<open>Completion\<close>

definition close_all :: "json_parser \<Rightarrow> (json \<Rightarrow> string) \<Rightarrow> instant \<Rightarrow> emitter" where
  "close_all parse ser now =
     emit_all [close_reasoning now, (\<lambda>t. close_message now (rt_msg_index t) t),
               (\<lambda>t. emit_all (map (close_tool_call parse ser now) (map fst (rt_tool_calls t))) t)]"

definition completed_output :: "responses_translator \<Rightarrow> json list" where
  "completed_output t =
     (case rt_reasoning_id t of
        Some i \<Rightarrow> [JObj [(''encrypted_content'', JStr (rt_reasoning_text t)), (''id'', JStr i),
                         (''summary'', JArr [summary_text (rt_reasoning_text t)]), (''type'', JStr ''reasoning'')]]
      | None \<Rightarrow> []) @
     (if rt_msg_item_added t
      then [JObj [(''content'', JArr [JObj [(''annotations'', JArr []), (''text'', JStr (rt_msg_text t)),
                                            (''type'', JStr ''output_text'')]]),
                  (''id'', JStr (msg_id t (rt_msg_index t))), (''role'', JStr ''assistant''), (''type'', JStr ''message'')]]
      else []) @
     map (\<lambda>e. JObj (call_fields (tcs_call_id e) (tcs_name e) (if tcs_args_buf e = [] then ''{}'' else tcs_args_buf e)))
       (filter (\<lambda>e. tcs_call_id e \<noteq> []) (map snd (rt_tool_calls t)))"

definition u64_at :: "json \<Rightarrow> string list \<Rightarrow> nat option" where
  "u64_at v path = Option.bind (json_pointer v path) as_u64"

definition token_details :: "json \<Rightarrow> string \<Rightarrow> string \<Rightarrow> string \<Rightarrow> string \<Rightarrow> (string \<times> json) list" where
  \<comment> \<open>\<open>or_else\<close> is on the presence of the field, before its type is looked at\<close>
  "token_details usage a b k dst =
     (case Option.bind (or_else (json_pointer usage [a, k]) (json_pointer usage [b, k])) as_u64 of
        Some n \<Rightarrow> if 0 < n then [(dst, JObj [(k, JInt (int n))])] else []
      | None \<Rightarrow> [])"

definition u64_default :: "nat option \<Rightarrow> nat \<Rightarrow> nat" where
  "u64_default v d = (case v of Some n \<Rightarrow> n | None \<Rightarrow> d)"

definition chat_usage_to_responses :: "json \<Rightarrow> json" where
  "chat_usage_to_responses usage =
     (let input = u64_default (or_else (u64_at usage [''prompt_tokens'']) (u64_at usage [''input_tokens''])) 0;
          outp = u64_default (or_else (u64_at usage [''completion_tokens'']) (u64_at usage [''output_tokens''])) 0
      in JObj ([(''input_tokens'', JInt (int input))] @
               token_details usage ''prompt_tokens_details'' ''input_tokens_details'' ''cached_tokens'' ''input_tokens_details'' @
               [(''output_tokens'', JInt (int outp))] @
               token_details usage ''completion_tokens_details'' ''output_tokens_details'' ''reasoning_tokens''
                 ''output_tokens_details'' @
               [(''total_tokens'', JInt (int (u64_default (u64_at usage [''total_tokens'']) (wrap_add 64 input outp))))]))"

definition completed_event :: "responses_translator \<Rightarrow> json" where
  "completed_event t =
     JObj [(''response'', JObj ([(''background'', JBool False), (''created_at'', JInt (rt_created_at t)), (''error'', JNull),
              (''id'', JStr (rt_response_id t)), (''model'', JStr (rt_model t)), (''object'', JStr ''response''),
              (''output'', JArr (completed_output t)), (''status'', JStr ''completed'')] @
              (case rt_pending_usage t of Some u \<Rightarrow> [(''usage'', chat_usage_to_responses u)] | None \<Rightarrow> []))),
           (''type'', JStr ''response.completed'')]"

definition emit_completed :: "instant \<Rightarrow> emitter" where
  "emit_completed now =
     when_emit (\<lambda>t. \<not> rt_completed_sent t)
       (emit_all
          [modify (\<lambda>t. t\<lparr>rt_completed_sent := True\<rparr>),
           emit now completed_event,
           modify (\<lambda>t. t\<lparr>rt_pending_usage := None\<rparr>),
           when_emit (\<lambda>t. \<not> rt_done_marker_sent t)
             (emit_all [append_done_marker, modify (\<lambda>t. t\<lparr>rt_done_marker_sent := True\<rparr>)])])"

definition append_done_if_missing :: emitter where
  "append_done_if_missing =
     when_emit (\<lambda>t. \<not> rt_done_marker_sent t)
       (emit_all [modify (\<lambda>t. t\<lparr>rt_done_marker_sent := True\<rparr>), append_done_marker])"

section \<open>Lines\<close>

fun split_once :: "string \<Rightarrow> string \<Rightarrow> string \<times> string option" where
  \<comment> \<open>\<open>s.splitn(2, p)\<close>: the text before the first occurrence, and the text after it, if there is one\<close>
  "split_once [] p = ([], None)"
| "split_once (c # s) p =
     (if starts_with (c # s) p then ([], Some (drop (length p) (c # s)))
      else (case split_once s p of (a, b) \<Rightarrow> (c # a, b)))"

function remove_all :: "string \<Rightarrow> string \<Rightarrow> string" where
  \<comment> \<open>\<open>s.replace(p, "")\<close> for a \<open>p\<close> that is not empty\<close>
  "remove_all s p =
     (case s of
        [] \<Rightarrow> []
      | c # cs \<Rightarrow> if starts_with s p \<and> p \<noteq> [] then remove_all (drop (length p) s) p else c # remove_all cs p)"
  by pat_completeness auto

termination remove_all
  by (relation "measure (\<lambda>(s, p). length s)") auto

declare remove_all.simps [simp del]

definition as_i32 :: "nat \<Rightarrow> int" where
  \<comment> \<open>\<open>n as i32\<close>\<close>
  "as_i32 n = (let m = n mod 2 ^ 32 in if m < 2 ^ 31 then int m else int m - 2 ^ 32)"

definition think_open :: string where "think_open = ''<think>''"
definition think_close :: string where "think_close = ''</think>''"

definition start_stream :: "instant \<Rightarrow> json \<Rightarrow> emitter" where
  "start_stream now value =
     when_emit (\<lambda>t. \<not> rt_started t)
       (emit_all
          [modify (\<lambda>t. t\<lparr>rt_started := True,
                         rt_response_id := (case nonempty_str value ''id'' of Some i \<Rightarrow> ''resp_'' @ i | None \<Rightarrow> rt_response_id t)\<rparr>),
           emit now created_event, emit now in_progress_event])"

definition delta_field :: "json \<Rightarrow> string \<Rightarrow> json option" where
  "delta_field choice k = Option.bind (json_get choice ''delta'') (\<lambda>d. json_get d k)"

definition translate_reasoning :: "instant \<Rightarrow> int \<Rightarrow> json \<Rightarrow> emitter" where
  "translate_reasoning now idx choice =
     (case nonempty (Option.bind (delta_field choice ''reasoning_content'') as_str) of
        Some r \<Rightarrow> emit_all [start_reasoning now idx, emit_reasoning_delta now r]
      | None \<Rightarrow> skip)"

definition open_thinking :: "instant \<Rightarrow> int \<Rightarrow> string \<Rightarrow> emitter" where
  "open_thinking now idx content =
     (if str_contains content think_open
      then emit_all [modify (\<lambda>t. t\<lparr>rt_in_thinking := True\<rparr>), start_reasoning now idx] else skip)"

definition close_thinking :: "instant \<Rightarrow> string \<Rightarrow> emitter" where
  \<comment> \<open>\<open>emit_reasoning_delta\<close> does nothing for the empty text\<close>
  "close_thinking now content =
     (if str_contains content think_close
      then emit_all [emit_reasoning_delta now (fst (split_once content think_close)), close_reasoning now,
                     modify (\<lambda>t. t\<lparr>rt_in_thinking := False\<rparr>)]
      else skip)"

definition after_thinking :: "string \<Rightarrow> string" where
  "after_thinking content =
     (if str_contains content think_close
      then (case snd (split_once content think_close) of Some r \<Rightarrow> r | None \<Rightarrow> []) else content)"

definition translate_text :: "instant \<Rightarrow> int \<Rightarrow> string \<Rightarrow> emitter" where
  "translate_text now idx content t =
     (if content = [] then (t, [])
      else (let content = (if rt_msg_text t = [] then trim_start content else content)
            in if content = [] then (t, []) else emit_text_delta now idx content t))"

definition translate_rest :: "json_parser \<Rightarrow> (json \<Rightarrow> string) \<Rightarrow> instant \<Rightarrow> int \<Rightarrow> json \<Rightarrow> emitter" where
  \<comment> \<open>tool calls and the finish reason\<close>
  "translate_rest parse ser now idx choice =
     emit_all
       [(case Option.bind (delta_field choice ''tool_calls'') as_array of
           Some tcs \<Rightarrow> then_emit (close_message now idx) (emit_all (map (handle_tool_call_delta parse ser now) tcs))
         | None \<Rightarrow> skip),
        (case json_get_str choice ''finish_reason'' of
           Some f \<Rightarrow> if f \<noteq> [] \<and> f \<noteq> ''null'' then emit_all [close_all parse ser now, emit_completed now] else skip
         | None \<Rightarrow> skip)]"

definition translate_content :: "json_parser \<Rightarrow> (json \<Rightarrow> string) \<Rightarrow> instant \<Rightarrow> int \<Rightarrow> json \<Rightarrow> emitter" where
  \<comment> \<open>text inside a thinking block ends the event: the \<open>continue\<close> skips the rest\<close>
  "translate_content parse ser now idx choice =
     (case Option.bind (delta_field choice ''content'') as_str of
        None \<Rightarrow> translate_rest parse ser now idx choice
      | Some raw \<Rightarrow>
          (let content = remove_all raw think_open;
               rest = after_thinking content
           in emit_all
                [open_thinking now idx raw, close_thinking now content,
                 (\<lambda>t. if rt_in_thinking t \<and> rest \<noteq> [] then emit_reasoning_delta now rest t
                      else emit_all [translate_text now idx rest, translate_rest parse ser now idx choice] t)]))"

definition translate_choice :: "json_parser \<Rightarrow> (json \<Rightarrow> string) \<Rightarrow> instant \<Rightarrow> json \<Rightarrow> json \<Rightarrow> emitter" where
  "translate_choice parse ser now value choice =
     (let idx = as_i32 (u64_or_zero choice ''index'')
      in emit_all
           [modify (\<lambda>t. t\<lparr>rt_msg_index := idx\<rparr>), start_stream now value, translate_reasoning now idx choice,
            translate_content parse ser now idx choice])"

definition note_usage :: "json \<Rightarrow> emitter" where
  "note_usage value =
     modify (\<lambda>t. case json_get value ''usage'' of Some u \<Rightarrow> t\<lparr>rt_pending_usage := Some u\<rparr> | None \<Rightarrow> t)"

definition translate_value :: "json_parser \<Rightarrow> (json \<Rightarrow> string) \<Rightarrow> instant \<Rightarrow> json \<Rightarrow> emitter" where
  "translate_value parse ser now value =
     then_emit (note_usage value)
       (case choices_of value of
          Some (choice # _) \<Rightarrow> translate_choice parse ser now value choice
        | _ \<Rightarrow> skip)"

definition translate_stream_event :: "json_parser \<Rightarrow> (json \<Rightarrow> string) \<Rightarrow> instant \<Rightarrow> sse_event \<Rightarrow> emitter" where
  "translate_stream_event parse ser now e =
     (if ev_is_done e then emit_all [close_all parse ser now, emit_completed now]
      else (case parse (ev_data e) of Some value \<Rightarrow> translate_value parse ser now value | None \<Rightarrow> skip))"

record wire_env =
  we_parse :: json_parser
  we_ser :: "json \<Rightarrow> string"
  we_utf8 :: "string \<Rightarrow> bool"

definition translate_sse_line :: "wire_env \<Rightarrow> instant \<Rightarrow> string \<Rightarrow> emitter" where
  "translate_sse_line env now line =
     emit_all (map (translate_stream_event (we_parse env) (we_ser env) now) (parse_sse_chunk (we_utf8 env) line))"

definition strip_line_end :: "string \<Rightarrow> string" where
  \<comment> \<open>one line feed, then one carriage return\<close>
  "strip_line_end line =
     (let l = (if ends_with line nl then butlast line else line)
      in if ends_with l [CHR 0x0D] then butlast l else l)"

definition line_step :: "wire_env \<Rightarrow> instant \<Rightarrow> string \<Rightarrow> emitter" where
  "line_step env now line =
     (if strip_line_end line = [] then skip else translate_sse_line env now (strip_line_end line))"

fun split_lines :: "string \<Rightarrow> string list \<times> string" where
  \<comment> \<open>the complete lines of the buffer with their line feeds, and what is left\<close>
  "split_lines [] = ([], [])"
| "split_lines (c # s) =
     (case split_lines s of
        (ls, r) \<Rightarrow>
          if is_nl c then ([c] # ls, r)
          else (case ls of [] \<Rightarrow> ([], c # r) | l # ls' \<Rightarrow> ((c # l) # ls', r)))"

definition rt_translate_chunk :: "wire_env \<Rightarrow> instant \<Rightarrow> string \<Rightarrow> emitter" where
  \<comment> \<open>no call of the loop reads or writes the buffer, so it can be split first\<close>
  "rt_translate_chunk env now chunk t =
     (case split_lines (rt_remainder t @ chunk) of
        (ls, r) \<Rightarrow>
          emit_all
            (modify (\<lambda>t. t\<lparr>rt_remainder := r\<rparr>) # maybe_emit_keepalive now # map (line_step env now) ls) t)"

definition flush_upstream_remainder :: "wire_env \<Rightarrow> instant \<Rightarrow> emitter" where
  "flush_upstream_remainder env now t =
     (if rt_remainder t = [] then (t, [])
      else emit_all [modify (\<lambda>t. t\<lparr>rt_remainder := []\<rparr>), translate_sse_line env now (rt_remainder t)] t)"

definition rt_flush :: "wire_env \<Rightarrow> instant \<Rightarrow> emitter" where
  "rt_flush env now =
     emit_all [close_all (we_parse env) (we_ser env) now,
               (\<lambda>t. if \<not> rt_completed_sent t then emit_completed now t else append_done_if_missing t)]"

section \<open>Collected answers\<close>

definition chat_completions_json_to_responses :: "(json \<Rightarrow> string) \<Rightarrow> string \<Rightarrow> int \<Rightarrow> json \<Rightarrow> string \<Rightarrow> json" where
  "chat_completions_json_to_responses ser uuid created_at body model =
     (let message = (case json_get body ''choices'' of
                       Some (JArr (c # _)) \<Rightarrow> json_get c ''message''
                     | Some (JObj kvs) \<Rightarrow> json_pointer (JObj kvs) [''0'', ''message'']
                     | _ \<Rightarrow> None);
          field = (\<lambda>k. Option.bind message (\<lambda>m. json_get m k));
          content = (case field ''content'' of Some v \<Rightarrow> content_value_to_string ser v | None \<Rightarrow> []);
          reasoning = (case nonempty (Option.bind (field ''reasoning_content'') as_str) of
                         Some r \<Rightarrow> [JObj [(''encrypted_content'', JStr r), (''summary'', JArr [summary_text r]),
                                          (''type'', JStr ''reasoning'')]]
                       | None \<Rightarrow> []);
          calls = (case Option.bind (field ''tool_calls'') as_array of Some tcs \<Rightarrow> tcs | None \<Rightarrow> [])
      in JObj [(''created_at'', JInt created_at), (''id'', JStr (''resp_'' @ uuid)),
               (''model'', JStr (case json_get_str body ''model'' of Some m \<Rightarrow> m | None \<Rightarrow> model)),
               (''object'', JStr ''response''),
               (''output'', JArr (reasoning @
                  [JObj [(''content'', JArr [JObj [(''text'', JStr content), (''type'', JStr ''output_text'')]]),
                         (''role'', JStr ''assistant''), (''type'', JStr ''message'')]] @
                  map (\<lambda>tc. JObj [(''arguments'', JStr (case function_field tc ''arguments'' of Some a \<Rightarrow> a | None \<Rightarrow> [])),
                                  (''call_id'', get_or tc ''id'' (JStr [])),
                                  (''name'', (case json_pointer tc [''function'', ''name''] of Some n \<Rightarrow> n | None \<Rightarrow> JNull)),
                                  (''type'', JStr ''function_call'')]) calls)),
               (''status'', JStr ''completed''),
               (''usage'', (case json_get body ''usage'' of
                              Some u \<Rightarrow> chat_usage_to_responses u
                            | None \<Rightarrow> JObj [(''input_tokens'', JInt 0), (''output_tokens'', JInt 0), (''total_tokens'', JInt 0)]))])"

definition chat_completions_bytes_to_responses ::
    "json_parser \<Rightarrow> (json \<Rightarrow> string) \<Rightarrow> string \<Rightarrow> int \<Rightarrow> string \<Rightarrow> string \<Rightarrow> string option" where
  "chat_completions_bytes_to_responses parse ser uuid created_at body model =
     map_option (\<lambda>v. ser (chat_completions_json_to_responses ser uuid created_at v model)) (parse body)"

section \<open>Invariants of a stream\<close>

definition keeps :: "(rs_frame list \<Rightarrow> responses_translator \<Rightarrow> bool) \<Rightarrow> emitter \<Rightarrow> bool" where
  \<comment> \<open>an emitter keeps a relation between what was sent and the state\<close>
  "keeps I f \<longleftrightarrow> (\<forall>h t. I h t \<longrightarrow> I (h @ snd (f t)) (fst (f t)))"

named_theorems keeps_intros \<open>emitters that keep an invariant\<close>

lemma keepsD: "keeps I f \<Longrightarrow> I h t \<Longrightarrow> I (h @ snd (f t)) (fst (f t))"
  by (simp add: keeps_def)

lemma keeps_skip [keeps_intros]: "keeps I skip"
  by (simp add: keeps_def skip_def)

lemma keeps_then [keeps_intros]: "keeps I f \<Longrightarrow> keeps I g \<Longrightarrow> keeps I (then_emit f g)"
  by (force simp: keeps_def then_emit_def split: prod.split)

lemma keeps_when [keeps_intros]: "keeps I f \<Longrightarrow> keeps I (when_emit P f)"
  by (simp add: keeps_def when_emit_def)

lemma keeps_when_guard: "(\<And>h t. I h t \<Longrightarrow> P t \<Longrightarrow> I (h @ snd (f t)) (fst (f t))) \<Longrightarrow> keeps I (when_emit P f)"
  by (simp add: keeps_def when_emit_def)

lemma keeps_all [keeps_intros]: "list_all (keeps I) fs \<Longrightarrow> keeps I (emit_all fs)"
  by (induction fs) (auto intro: keeps_intros)

lemma keeps_state: "(\<And>t. keeps I (F t)) \<Longrightarrow> keeps I (\<lambda>t. F t t)"
  by (simp add: keeps_def)

lemma keeps_if [keeps_intros]: "keeps I f \<Longrightarrow> keeps I g \<Longrightarrow> keeps I (if b then f else g)"
  by simp

definition special :: "string list" where
  \<comment> \<open>the events that carry text or end the response\<close>
  "special = [''response.output_text.delta'', ''response.reasoning_summary_text.delta'', ''response.completed'']"

definition plain_types :: "string list" where
  "plain_types =
     [''response.created'', ''response.in_progress'', ''response.output_item.added'', ''response.output_item.done'',
      ''response.reasoning_summary_part.added'', ''response.reasoning_summary_text.done'',
      ''response.reasoning_summary_part.done'', ''response.content_part.added'', ''response.output_text.done'',
      ''response.content_part.done'', ''response.function_call_arguments.delta'',
      ''response.function_call_arguments.done'']"

definition plain :: "json \<Rightarrow> bool" where
  "plain v \<longleftrightarrow> is_object v \<and> json_get_str v ''type'' \<in> Some ` set plain_types"

lemma plain_not_special: "plain v \<Longrightarrow> json_get_str v ''type'' \<notin> Some ` set special"
  by (auto simp: plain_def plain_types_def special_def)

definition view :: "responses_translator \<Rightarrow> nat \<times> string \<times> string \<times> bool \<times> bool" where
  \<comment> \<open>what the invariants below depend on\<close>
  "view t = (rt_seq t, rt_msg_text t, rt_reasoning_text t, rt_completed_sent t, rt_done_marker_sent t)"

locale stream_invariant =
  fixes I :: "rs_frame list \<Rightarrow> responses_translator \<Rightarrow> bool"
  assumes inv_new: "I [] (rt_new uuid created model)"
    and inv_view: "I h t \<Longrightarrow> view t' = view t \<Longrightarrow> I h t'"
    and inv_plain: "(\<And>t. plain (data t)) \<Longrightarrow> keeps I (emit now data)"
    and inv_text: "keeps I (emit_all [emit now (\<lambda>t. ev_text ''response.output_text.delta'' (f t) idx (''delta'', JStr s)),
          modify (\<lambda>t. t\<lparr>rt_msg_text := rt_msg_text t @ s\<rparr>)])"
    and inv_reasoning: "keeps I (emit_all [modify (\<lambda>t. t\<lparr>rt_reasoning_text := rt_reasoning_text t @ s\<rparr>),
          emit now (\<lambda>t. ev_summary ''response.reasoning_summary_text.delta'' (f t) (g t) (''delta'', JStr s))])"
    and inv_completed: "keeps I (when_emit (\<lambda>t. \<not> rt_completed_sent t)
          (emit_all [modify (\<lambda>t. t\<lparr>rt_completed_sent := True\<rparr>), emit now completed_event]))"
    and inv_done: "keeps I (when_emit (\<lambda>t. \<not> rt_done_marker_sent t)
          (emit_all [append_done_marker, modify (\<lambda>t. t\<lparr>rt_done_marker_sent := True\<rparr>)]))"
begin

lemma keeps_modify: "(\<And>t. view (u t) = view t) \<Longrightarrow> keeps I (modify u)"
  by (auto simp: keeps_def modify_def intro: inv_view)

lemma keeps_plain_events:
  "keeps I (emit now created_event)" "keeps I (emit now in_progress_event)"
  "keeps I (emit now (\<lambda>t. ev_item_added (i t) (fs t)))" "keeps I (emit now (\<lambda>t. ev_item_done (i t) (fs t)))"
  "ty \<in> set plain_types \<Longrightarrow> keeps I (emit now (\<lambda>t. ev_summary ty (r t) (i t) (''part'', x t)))"
  "ty \<in> set plain_types \<Longrightarrow> keeps I (emit now (\<lambda>t. ev_summary ty (r t) (i t) (''text'', x t)))"
  "ty \<in> set plain_types \<Longrightarrow> keeps I (emit now (\<lambda>t. ev_part ty (r t) (i t) (x t)))"
  "ty \<in> set plain_types \<Longrightarrow> keeps I (emit now (\<lambda>t. ev_text ty (r t) (i t) (''text'', x t)))"
  "ty \<in> set plain_types \<Longrightarrow> keeps I (emit now (\<lambda>t. ev_arguments ty (j t) (r t) (''arguments'', x t)))"
  "ty \<in> set plain_types \<Longrightarrow> keeps I (emit now (\<lambda>t. ev_arguments ty (j t) (r t) (''delta'', x t)))"
  by (rule inv_plain; force simp: plain_def plain_types_def created_event_def in_progress_event_def ev_item_added_def
      ev_item_done_def ev_summary_def ev_part_def ev_text_def ev_arguments_def json_get_str_def is_object_def)+

lemmas leaf = keeps_intros keeps_plain_events keeps_modify

lemma keeps_bootstrap: "keeps I (bootstrap_stream now)"
  unfolding bootstrap_stream_def by (intro keeps_intros) (auto intro: leaf simp: view_def)

lemma keeps_start_stream: "keeps I (start_stream now value)"
  unfolding start_stream_def by (intro keeps_intros) (auto intro: leaf simp: view_def)

lemma keeps_keepalive: "keeps I (maybe_emit_keepalive now)"
  unfolding maybe_emit_keepalive_def by (intro leaf)

lemma keeps_start_reasoning: "keeps I (start_reasoning now idx)"
  unfolding start_reasoning_def by (intro keeps_intros) (auto intro!: leaf simp: view_def plain_types_def)

lemma keeps_close_reasoning: "keeps I (close_reasoning now)"
  unfolding close_reasoning_def by (intro keeps_intros) (auto intro!: leaf simp: view_def plain_types_def)

lemma keeps_close_message: "keeps I (close_message now idx)"
  unfolding close_message_def by (intro keeps_intros) (auto intro!: leaf simp: view_def plain_types_def)

lemma keeps_text_delta: "keeps I (emit_text_delta now idx content)"
proof -
  let ?f = "when_emit (\<lambda>t. \<not> rt_msg_item_added t)
          (emit_all [modify (\<lambda>t. t\<lparr>rt_msg_item_added := True\<rparr>),
                     emit now (\<lambda>t. ev_item_added idx
                       [(''content'', JArr []), (''id'', JStr (msg_id t idx)), (''role'', JStr ''assistant''),
                        (''type'', JStr ''message'')])])"
  let ?g = "when_emit (\<lambda>t. \<not> rt_msg_content_added t)
          (emit_all [modify (\<lambda>t. t\<lparr>rt_msg_content_added := True\<rparr>),
                     emit now (\<lambda>t. ev_part ''response.content_part.added'' (msg_id t idx) idx (output_part []))])"
  have "keeps I (then_emit ?f (then_emit ?g
      (emit_all [emit now (\<lambda>t. ev_text ''response.output_text.delta'' (msg_id t idx) idx (''delta'', JStr content)),
          modify (\<lambda>t. t\<lparr>rt_msg_text := rt_msg_text t @ content\<rparr>)])))"
    by (intro keeps_then inv_text keeps_when keeps_all) (auto intro!: leaf simp: view_def plain_types_def)
  then show ?thesis by (simp add: emit_text_delta_def)
qed

lemma reasoning_started: "start_reasoning now i t = (t', fs) \<Longrightarrow> \<exists>y. rt_reasoning_id t' = Some y"
  by (cases "rt_reasoning_id t")
    (auto simp: when_emit_def start_reasoning_def then_emit_def modify_def emit_def skip_def Let_def)

lemma keeps_reasoning_delta: "keeps I (emit_reasoning_delta now s)"
proof (cases "s = []")
  case False
  have "keeps I (then_emit (\<lambda>t. start_reasoning now (rt_msg_index t) t)
      (emit_all [modify (\<lambda>t. t\<lparr>rt_reasoning_text := rt_reasoning_text t @ s\<rparr>),
        emit now (\<lambda>t. ev_summary ''response.reasoning_summary_text.delta'' (the_reasoning_id t) (rt_reasoning_index t)
          (''delta'', JStr s))]))"
    by (rule keeps_then [OF keeps_state [of I "\<lambda>t. start_reasoning now (rt_msg_index t)", OF keeps_start_reasoning] inv_reasoning])
  moreover have "emit_reasoning_delta now s = \<dots>"
    using False by (intro ext)
      (auto simp: emit_reasoning_delta_def then_emit_def when_emit_def modify_def skip_def split: prod.split
        dest!: reasoning_started)
  ultimately show ?thesis by simp
qed (simp add: emit_reasoning_delta_def keeps_skip)

lemma keeps_close_tool_call: "keeps I (close_tool_call parse ser now idx)"
proof -
  have "keeps I (emit_all
      [modify (\<lambda>t. t\<lparr>rt_tool_calls := hm_insert (rt_tool_calls t) idx (e\<lparr>tcs_item_done := True\<rparr>)\<rparr>),
       emit now (\<lambda>_. ev_arguments ''response.function_call_arguments.done'' idx (tcs_call_id e)
         (''arguments'', JStr (final_arguments parse ser e))),
       emit now (\<lambda>_. ev_item_done (int idx) (call_fields (tcs_call_id e) (tcs_name e) (final_arguments parse ser e)))])" for e
    by (intro keeps_all) (auto intro!: leaf simp: view_def plain_types_def)
  then show ?thesis by (auto simp: close_tool_call_def keeps_def split: option.split)
qed

lemma keeps_call_delta: "keeps I (apply_call_delta now idx name new_id args)"
  unfolding apply_call_delta_def Let_def
  by (rule keeps_state, intro keeps_all) (auto intro!: leaf simp: view_def plain_types_def split: option.split)

lemma keeps_handle_call: "keeps I (handle_tool_call_delta parse ser now tc)"
proof -
  have "keeps I (replace_call parse ser now i n)" for i n
    unfolding replace_call_def by (intro keeps_when keeps_all) (auto intro!: leaf keeps_close_tool_call simp: view_def)
  then have "keeps I (emit_all [replace_call parse ser now i n, apply_call_delta now i name n args])" for i n name args
    by (intro keeps_all) (simp add: keeps_call_delta)
  then show ?thesis by (auto simp: handle_tool_call_delta_def keeps_def Let_def simp del: emit_all.simps)
qed

lemma keeps_close_all: "keeps I (close_all parse ser now)"
proof -
  have "keeps I (emit_all (map (close_tool_call parse ser now) is))" for "is"
    by (intro keeps_all) (auto simp: list_all_iff intro: keeps_close_tool_call)
  then have "keeps I (\<lambda>t. emit_all (map (close_tool_call parse ser now) (map fst (rt_tool_calls t))) t)"
    by (rule keeps_state)
  moreover have "keeps I (\<lambda>t. close_message now (rt_msg_index t) t)"
    by (rule keeps_state) (rule keeps_close_message)
  ultimately show ?thesis unfolding close_all_def
    by (intro keeps_all) (simp add: keeps_close_reasoning)
qed

lemma keeps_completed: "keeps I (emit_completed now)"
proof -
  let ?done = "when_emit (\<lambda>t. \<not> rt_done_marker_sent t)
          (emit_all [append_done_marker, modify (\<lambda>t. t\<lparr>rt_done_marker_sent := True\<rparr>)])"
  have "keeps I (then_emit (when_emit (\<lambda>t. \<not> rt_completed_sent t)
          (emit_all [modify (\<lambda>t. t\<lparr>rt_completed_sent := True\<rparr>), emit now completed_event]))
        (then_emit (modify (\<lambda>t. t\<lparr>rt_pending_usage := None\<rparr>)) ?done))"
    by (intro keeps_then inv_completed inv_done keeps_modify) (simp add: view_def)
  note k = keepsD [OF this]
  have eq: "emit_all [modify (\<lambda>t. t\<lparr>rt_completed_sent := True\<rparr>), emit now completed_event,
        modify (\<lambda>t. t\<lparr>rt_pending_usage := None\<rparr>), ?done] t =
      then_emit (when_emit (\<lambda>t. \<not> rt_completed_sent t)
          (emit_all [modify (\<lambda>t. t\<lparr>rt_completed_sent := True\<rparr>), emit now completed_event]))
        (then_emit (modify (\<lambda>t. t\<lparr>rt_pending_usage := None\<rparr>)) ?done) t" if "\<not> rt_completed_sent t" for t
    using that by (simp add: then_emit_def when_emit_def skip_def modify_def split: prod.split)
  show ?thesis unfolding emit_completed_def
  proof (rule keeps_when_guard)
    fix h t
    assume "I h t" and n: "\<not> rt_completed_sent t"
    from k [OF this(1)] show "I (h @ snd (emit_all [modify (\<lambda>t. t\<lparr>rt_completed_sent := True\<rparr>), emit now completed_event,
        modify (\<lambda>t. t\<lparr>rt_pending_usage := None\<rparr>), ?done] t))
      (fst (emit_all [modify (\<lambda>t. t\<lparr>rt_completed_sent := True\<rparr>), emit now completed_event,
        modify (\<lambda>t. t\<lparr>rt_pending_usage := None\<rparr>), ?done] t))"
      unfolding eq [OF n] .
  qed
qed

lemma keeps_done: "keeps I append_done_if_missing"
  unfolding append_done_if_missing_def
proof (rule keeps_when_guard)
  fix h t
  assume "I h t" "\<not> rt_done_marker_sent t"
  with keepsD [OF inv_done this(1)]
  show "I (h @ snd (emit_all [modify (\<lambda>t. t\<lparr>rt_done_marker_sent := True\<rparr>), append_done_marker] t))
      (fst (emit_all [modify (\<lambda>t. t\<lparr>rt_done_marker_sent := True\<rparr>), append_done_marker] t))"
    by (simp add: when_emit_def then_emit_def skip_def modify_def append_done_marker_def)
qed

lemma keeps_text: "keeps I (translate_text now idx content)"
proof -
  have "keeps I (\<lambda>t. if c = [] then (t, []) else emit_text_delta now idx c t)" for c
    using keeps_text_delta [of now idx c] by (cases "c = []") (simp_all add: keeps_def)
  then show ?thesis using keeps_state [of I "\<lambda>t t'. if content = [] then (t', []) else
      (let c = if rt_msg_text t = [] then trim_start content else content in if c = [] then (t', []) else emit_text_delta now idx c t')"]
    by (auto simp: translate_text_def [abs_def] keeps_def Let_def)
qed

lemma keeps_finish: "keeps I (emit_all [close_all parse ser now, emit_completed now])"
  by (intro keeps_all) (simp add: keeps_close_all keeps_completed)

lemma keeps_rest: "keeps I (translate_rest parse ser now idx choice)"
proof -
  have "keeps I (then_emit (close_message now idx) (emit_all (map (handle_tool_call_delta parse ser now) tcs)))" for tcs
    by (intro keeps_then keeps_close_message keeps_all) (simp add: list_all_iff keeps_handle_call)
  then show ?thesis unfolding translate_rest_def
    by (intro keeps_all) (auto intro: keeps_skip keeps_finish simp del: emit_all.simps split: option.split)
qed

lemma keeps_content: "keeps I (translate_content parse ser now idx choice)"
proof -
  have o: "keeps I (open_thinking now idx raw)" for raw
    unfolding open_thinking_def
    by (intro keeps_if keeps_all keeps_skip) (auto intro!: leaf keeps_start_reasoning simp: view_def)
  have c: "keeps I (close_thinking now raw)" for raw
    unfolding close_thinking_def
    by (intro keeps_if keeps_all keeps_skip) (auto intro!: leaf keeps_close_reasoning keeps_reasoning_delta simp: view_def)
  have k: "keeps I (\<lambda>t. if rt_in_thinking t \<and> rest \<noteq> [] then emit_reasoning_delta now rest t
      else emit_all [translate_text now idx rest, translate_rest parse ser now idx choice] t)" for rest
    using keeps_reasoning_delta [of now rest]
      keeps_all [of I "[translate_text now idx rest, translate_rest parse ser now idx choice]"] keeps_text keeps_rest
    by (auto simp: keeps_def simp del: emit_all.simps)
  show ?thesis
  proof (cases "Option.bind (delta_field choice ''content'') as_str")
    case (Some raw)
    then show ?thesis unfolding translate_content_def Let_def
      by (simp only: option.case, intro keeps_all) (simp only: list.pred_inject o c k simp_thms)
  qed (simp add: translate_content_def keeps_rest)
qed

lemma keeps_stream_event: "keeps I (translate_stream_event parse ser now e)"
proof -
  have "keeps I (translate_reasoning now idx choice)" for idx choice
    unfolding translate_reasoning_def
    by (auto split: option.split intro!: leaf keeps_start_reasoning keeps_reasoning_delta)
  then have "keeps I (translate_choice parse ser now v choice)" for v choice
    unfolding translate_choice_def Let_def
    by (intro keeps_all) (auto intro!: keeps_modify keeps_start_stream keeps_content simp: view_def)
  then have "keeps I (translate_value parse ser now v)" for v
    unfolding translate_value_def note_usage_def
    by (intro keeps_then) (auto intro!: keeps_modify keeps_skip simp: view_def split: option.split list.split)
  then show ?thesis unfolding translate_stream_event_def
    by (auto intro: keeps_finish keeps_skip simp del: emit_all.simps split: option.split)
qed

lemma keeps_line: "keeps I (translate_sse_line env now line)"
  unfolding translate_sse_line_def by (intro keeps_all) (simp add: list_all_iff keeps_stream_event)

lemma keeps_chunk: "keeps I (rt_translate_chunk env now chunk)"
proof -
  have "keeps I (emit_all (modify (\<lambda>t. t\<lparr>rt_remainder := r\<rparr>) # maybe_emit_keepalive now # map (line_step env now) ls))" for r ls
    by (intro keeps_all)
      (auto simp: list_all_iff line_step_def view_def intro: keeps_modify keeps_keepalive keeps_skip keeps_line)
  then show ?thesis
    by (auto simp: rt_translate_chunk_def keeps_def simp del: emit_all.simps split: prod.split)
qed

lemma keeps_flush_remainder: "keeps I (flush_upstream_remainder env now)"
proof -
  have "keeps I (emit_all [modify (\<lambda>t. t\<lparr>rt_remainder := []\<rparr>), translate_sse_line env now l])" for l
    by (intro keeps_all) (auto intro: keeps_modify keeps_line simp: view_def)
  then show ?thesis by (auto simp: flush_upstream_remainder_def keeps_def simp del: emit_all.simps)
qed

lemma keeps_flush: "keeps I (rt_flush env now)"
proof -
  have "keeps I (\<lambda>t. if \<not> rt_completed_sent t then emit_completed now t else append_done_if_missing t)"
    using keeps_completed [of now] keeps_done by (simp add: keeps_def)
  then show ?thesis unfolding rt_flush_def by (intro keeps_all) (simp add: keeps_close_all)
qed

lemmas keeps_ops = keeps_bootstrap keeps_chunk keeps_keepalive keeps_flush_remainder keeps_flush keeps_done

end

section \<open>Runs\<close>

datatype wire_op = Bootstrap | Chunk string | Poll | FlushRemainder | Flush | AppendDone

fun run_op :: "wire_env \<Rightarrow> instant \<times> wire_op \<Rightarrow> emitter" where
  "run_op env (now, Bootstrap) = bootstrap_stream now"
| "run_op env (now, Chunk bytes) = rt_translate_chunk env now bytes"
| "run_op env (now, Poll) = poll_keepalive now"
| "run_op env (now, FlushRemainder) = flush_upstream_remainder env now"
| "run_op env (now, Flush) = rt_flush env now"
| "run_op env (now, AppendDone) = append_done_if_missing"

definition run :: "wire_env \<Rightarrow> (instant \<times> wire_op) list \<Rightarrow> emitter" where
  "run env ops = emit_all (map (run_op env) ops)"

context stream_invariant
begin

lemma keeps_run_op: "keeps I (run_op env op)"
  by (cases op; cases "snd op") (auto simp: poll_keepalive_def intro: keeps_ops)

lemma run_invariant:
  "I (snd (run env ops (rt_new uuid created model))) (fst (run env ops (rt_new uuid created model)))"
proof -
  have "keeps I (run env ops)" unfolding run_def by (intro keeps_all) (simp add: list_all_iff keeps_run_op)
  from keepsD [OF this inv_new] show ?thesis by simp
qed

end

section \<open>Sequence numbers\<close>

fun frame_numbers :: "rs_frame list \<Rightarrow> json option list" where
  \<comment> \<open>the sequence numbers of the events, in the order they are sent\<close>
  "frame_numbers [] = []"
| "frame_numbers (RsEvent v # fs) = json_get v ''sequence_number'' # frame_numbers fs"
| "frame_numbers (RsDone # fs) = frame_numbers fs"

definition numbered :: "rs_frame list \<Rightarrow> responses_translator \<Rightarrow> bool" where
  "numbered h t \<longleftrightarrow>
     frame_numbers h = map (\<lambda>i. Some (JInt (int (i mod 2 ^ 64)))) [1..<Suc (length (frame_numbers h))] \<and>
     rt_seq t = length (frame_numbers h) mod 2 ^ 64"

lemma frame_numbers_append [simp]: "frame_numbers (a @ b) = frame_numbers a @ frame_numbers b"
  by (induction a rule: frame_numbers.induct) auto

lemma numbered_emit:
  assumes "numbered h t" "is_object (data t)"
  shows "numbered (h @ snd (emit now data t)) (fst (emit now data t))"
proof -
  let ?n = "length (frame_numbers h)"
  have "wrap_add 64 (rt_seq t) 1 = Suc ?n mod 2 ^ 64"
    using assms(1) by (simp add: numbered_def wrap_add_def mod_Suc_eq)
  then show ?thesis using assms
    by (simp add: numbered_def emit_def Let_def json_get_insert_object)
qed

lemma numbered_view: "numbered h t \<Longrightarrow> view t' = view t \<Longrightarrow> numbered h t'"
  by (simp add: numbered_def view_def)

lemma numbered_emits: "(\<And>t. is_object (data t)) \<Longrightarrow> keeps numbered (emit now data)"
  by (simp add: keeps_def numbered_emit)

lemma numbered_modify: "(\<And>t. rt_seq (u t) = rt_seq t) \<Longrightarrow> keeps numbered (modify u)"
  by (simp add: keeps_def modify_def numbered_def)

lemma numbered_done: "keeps numbered append_done_marker"
  by (simp add: keeps_def append_done_marker_def numbered_def)

lemma event_objects [simp]:
  "is_object (ev_text ty i idx f)" "is_object (ev_summary ty i idx f)" "is_object (completed_event t)"
  by (simp_all add: ev_text_def ev_summary_def completed_event_def is_object_def)

interpretation numbering: stream_invariant numbered
proof
  show "numbered [] (rt_new uuid created model)" for uuid created model by (simp add: numbered_def rt_new_def)
  show "keeps numbered (emit now data)" if "\<And>t. plain (data t)" for now data
    using that by (intro numbered_emits) (simp add: plain_def)
qed (auto intro!: numbered_emits numbered_modify numbered_done keeps_intros intro: numbered_view)

text \<open>
  The events of a response are numbered 1, 2, 3 and so on without a gap, in 64 bits, for every
  sequence of chunks, polls and flushes.
\<close>
theorem responses_events_numbered:
  "frame_numbers (snd (run env ops (rt_new uuid created model))) =
   map (\<lambda>i. Some (JInt (int (i mod 2 ^ 64))))
     [1..<Suc (length (frame_numbers (snd (run env ops (rt_new uuid created model)))))]"
  using numbering.run_invariant [of env ops uuid created model] unfolding numbered_def by blast

section \<open>One completion, one end marker\<close>

fun is_completed_frame :: "rs_frame \<Rightarrow> bool" where
  "is_completed_frame (RsEvent v) = (json_get_str v ''type'' = Some ''response.completed'')"
| "is_completed_frame RsDone = False"

definition completions :: "rs_frame list \<Rightarrow> nat" where
  "completions h = length (filter is_completed_frame h)"

definition end_markers :: "rs_frame list \<Rightarrow> nat" where
  "end_markers h = length (filter (\<lambda>f. f = RsDone) h)"

definition ended_once :: "rs_frame list \<Rightarrow> responses_translator \<Rightarrow> bool" where
  "ended_once h t \<longleftrightarrow>
     completions h = (if rt_completed_sent t then 1 else 0) \<and> end_markers h = (if rt_done_marker_sent t then 1 else 0)"

lemma numbered_type [simp]:
  "is_object v \<Longrightarrow> json_get_str (json_insert v ''sequence_number'' n) ''type'' = json_get_str v ''type''"
  by (simp add: json_get_str_def json_get_insert_object)

lemma ended_once_emits:
  "(\<And>t. is_object (data t) \<and> json_get_str (data t) ''type'' \<noteq> Some ''response.completed'') \<Longrightarrow>
   keeps ended_once (emit now data)"
  by (simp add: keeps_def emit_def Let_def ended_once_def completions_def end_markers_def)

lemma ended_once_modify:
  "(\<And>t. rt_completed_sent (u t) = rt_completed_sent t \<and> rt_done_marker_sent (u t) = rt_done_marker_sent t) \<Longrightarrow>
   keeps ended_once (modify u)"
  by (simp add: keeps_def modify_def ended_once_def)

lemma completed_type [simp]: "json_get_str (completed_event t) ''type'' = Some ''response.completed''"
  by (simp add: completed_event_def json_get_str_def)

interpretation ending: stream_invariant ended_once
proof
  show "ended_once [] (rt_new uuid created model)" for uuid created model
    by (simp add: ended_once_def rt_new_def completions_def end_markers_def)
  show "keeps ended_once (emit now data)" if "\<And>t. plain (data t)" for now data
    using that plain_not_special by (intro ended_once_emits) (auto simp: plain_def special_def)
  show "keeps ended_once (when_emit (\<lambda>t. \<not> rt_completed_sent t)
      (emit_all [modify (\<lambda>t. t\<lparr>rt_completed_sent := True\<rparr>), emit now completed_event]))" for now
    by (rule keeps_when_guard)
      (simp add: then_emit_def modify_def emit_def skip_def Let_def ended_once_def completions_def end_markers_def)
  show "keeps ended_once (when_emit (\<lambda>t. \<not> rt_done_marker_sent t)
      (emit_all [append_done_marker, modify (\<lambda>t. t\<lparr>rt_done_marker_sent := True\<rparr>)]))"
    by (rule keeps_when_guard)
      (simp add: then_emit_def modify_def append_done_marker_def skip_def ended_once_def completions_def end_markers_def)
qed (auto intro!: ended_once_emits ended_once_modify keeps_intros
    simp: ended_once_def view_def ev_text_def ev_summary_def json_get_str_def is_object_def)

lemma run_append: "run env (a @ b) = then_emit (run env a) (run env b)"
proof -
  have "emit_all (fs @ gs) = then_emit (emit_all fs) (emit_all gs)" for fs gs
    by (induction fs) (auto simp: then_emit_def skip_def split: prod.split)
  then show ?thesis by (simp add: run_def)
qed

lemma flush_ends: "rt_completed_sent (fst (rt_flush env now t)) \<and> rt_done_marker_sent (fst (rt_flush env now t))"
proof -
  obtain t1 fs where "close_all (we_parse env) (we_ser env) now t = (t1, fs)" by fastforce
  then show ?thesis
    by (cases "rt_completed_sent t1")
      (auto simp: rt_flush_def then_emit_def emit_completed_def append_done_if_missing_def when_emit_def modify_def
        append_done_marker_def emit_def skip_def Let_def)
qed

text \<open>
  C11. Whatever a stream does, the client gets at most one \<^verbatim>\<open>response.completed\<close> and at most one
  end marker; once the translator is flushed it has got exactly one of each.
\<close>
theorem responses_end_once:
  "completions (snd (run env ops (rt_new uuid created model))) \<le> 1 \<and>
   end_markers (snd (run env ops (rt_new uuid created model))) \<le> 1 \<and>
   completions (snd (run env (ops @ [(now, Flush)]) (rt_new uuid created model))) = 1 \<and>
   end_markers (snd (run env (ops @ [(now, Flush)]) (rt_new uuid created model))) = 1"
proof -
  have "completions (snd (run env ops (rt_new uuid created model))) \<le> 1 \<and>
      end_markers (snd (run env ops (rt_new uuid created model))) \<le> 1"
    using ending.run_invariant [of env ops uuid created model] unfolding ended_once_def by simp
  moreover let ?t = "fst (run env ops (rt_new uuid created model))"
  have "fst (run env (ops @ [(now, Flush)]) (rt_new uuid created model)) = fst (rt_flush env now ?t)"
    by (simp add: run_append) (simp add: run_def then_emit_def skip_def split: prod.split)
  then have "completions (snd (run env (ops @ [(now, Flush)]) (rt_new uuid created model))) = 1 \<and>
      end_markers (snd (run env (ops @ [(now, Flush)]) (rt_new uuid created model))) = 1"
    using ending.run_invariant [of env "ops @ [(now, Flush)]" uuid created model] flush_ends [of env now ?t]
    unfolding ended_once_def by simp
  ultimately show ?thesis by blast
qed

section \<open>The text of the response\<close>

definition sent_text :: "string \<Rightarrow> rs_frame list \<Rightarrow> string" where
  \<comment> \<open>what the deltas of one type add up to\<close>
  "sent_text ty h =
     concat (map (\<lambda>f. case f of RsEvent v \<Rightarrow> if json_get_str v ''type'' = Some ty then str_or_empty v ''delta'' else []
                                | RsDone \<Rightarrow> []) h)"

definition text_conserved :: "rs_frame list \<Rightarrow> responses_translator \<Rightarrow> bool" where
  "text_conserved h t \<longleftrightarrow>
     sent_text ''response.output_text.delta'' h = rt_msg_text t \<and>
     sent_text ''response.reasoning_summary_text.delta'' h = rt_reasoning_text t"

lemma sent_text_append [simp]: "sent_text ty (a @ b) = sent_text ty a @ sent_text ty b"
  by (simp add: sent_text_def)

lemma sent_text_event [simp]:
  "sent_text ty [RsEvent v] = (if json_get_str v ''type'' = Some ty then str_or_empty v ''delta'' else [])"
  "sent_text ty [RsDone] = []" "sent_text ty [] = []"
  by (simp_all add: sent_text_def)

lemma numbered_delta [simp]:
  "is_object v \<Longrightarrow> str_or_empty (json_insert v ''sequence_number'' n) ''delta'' = str_or_empty v ''delta''"
  by (simp add: str_or_empty_def json_get_str_def json_get_insert_object)

lemma text_modify:
  "(\<And>t. rt_msg_text (u t) = rt_msg_text t \<and> rt_reasoning_text (u t) = rt_reasoning_text t) \<Longrightarrow>
   keeps text_conserved (modify u)"
  by (simp add: keeps_def modify_def text_conserved_def)

lemma text_emit:
  "(\<And>t. is_object (data t) \<and> json_get_str (data t) ''type'' \<noteq> Some ''response.output_text.delta'' \<and>
     json_get_str (data t) ''type'' \<noteq> Some ''response.reasoning_summary_text.delta'') \<Longrightarrow>
   keeps text_conserved (emit now data)"
  by (simp add: keeps_def emit_def Let_def text_conserved_def)

lemma text_done: "keeps text_conserved append_done_marker"
  by (simp add: keeps_def append_done_marker_def text_conserved_def)

interpretation texts: stream_invariant text_conserved
proof
  show "text_conserved [] (rt_new uuid created model)" for uuid created model
    by (simp add: text_conserved_def rt_new_def)
  show "keeps text_conserved (emit now data)" if "\<And>t. plain (data t)" for now data
    using that plain_not_special by (intro text_emit) (auto simp: plain_def special_def)
  show "keeps text_conserved (emit_all [emit now (\<lambda>t. ev_text ''response.output_text.delta'' (f t) idx (''delta'', JStr s)),
      modify (\<lambda>t. t\<lparr>rt_msg_text := rt_msg_text t @ s\<rparr>)])" for now f idx s
    by (simp add: keeps_def then_emit_def modify_def emit_def skip_def Let_def text_conserved_def)
      (simp add: ev_text_def json_get_str_def str_or_empty_def)
  show "keeps text_conserved (emit_all [modify (\<lambda>t. t\<lparr>rt_reasoning_text := rt_reasoning_text t @ s\<rparr>),
      emit now (\<lambda>t. ev_summary ''response.reasoning_summary_text.delta'' (f t) (g t) (''delta'', JStr s))])" for now f g s
    by (simp add: keeps_def then_emit_def modify_def emit_def skip_def Let_def text_conserved_def)
      (simp add: ev_summary_def json_get_str_def str_or_empty_def)
qed (auto intro!: text_emit text_modify text_done keeps_intros simp: text_conserved_def view_def)


section \<open>Plain answers\<close>

lemma fst_then_emit [simp]: "fst (then_emit f g t) = fst (g (fst (f t)))"
  by (simp add: then_emit_def split: prod.split)

lemma snd_then_emit: "snd (then_emit f g t) = snd (f t) @ snd (g (fst (f t)))"
  by (simp add: then_emit_def split: prod.split)

lemma fst_modify [simp]: "fst (modify u t) = u t"
  by (simp add: modify_def)

lemma fst_skip [simp]: "fst (skip t) = t"
  by (simp add: skip_def)

lemma fst_when [simp]: "fst (when_emit P f t) = (if P t then fst (f t) else t)"
  by (simp add: when_emit_def)

lemma emit_state [simp]:
  "rt_msg_text (fst (emit now d t)) = rt_msg_text t" "rt_in_thinking (fst (emit now d t)) = rt_in_thinking t"
  by (simp_all add: emit_def Let_def)

lemma start_stream_state [simp]:
  "rt_msg_text (fst (start_stream now v t)) = rt_msg_text t" "rt_in_thinking (fst (start_stream now v t)) = rt_in_thinking t"
  by (simp_all add: start_stream_def)

lemma text_delta_state [simp]:
  "rt_msg_text (fst (emit_text_delta now idx s t)) = rt_msg_text t @ s"
  "rt_in_thinking (fst (emit_text_delta now idx s t)) = rt_in_thinking t"
  by (simp_all add: emit_text_delta_def)

definition content_chunk :: "string \<Rightarrow> json" where
  "content_chunk c = JObj [(''choices'', JArr [JObj [(''delta'', JObj [(''content'', JStr c)]), (''index'', JInt 0)]])]"

definition untagged :: "string \<Rightarrow> bool" where
  "untagged c \<longleftrightarrow> \<not> str_contains c think_open \<and> \<not> str_contains c think_close"

lemma remove_all_none: "\<not> str_contains s p \<Longrightarrow> remove_all s p = s"
proof (induction s)
  case (Cons c s)
  then show ?case by (simp add: remove_all.simps [of "c # s"])
qed (simp add: remove_all.simps)

lemma trim_start_Nil: "trim_start [] = []"
  by (simp add: trim_start_def)

lemma translate_content_chunk:
  assumes "untagged c" "\<not> rt_in_thinking t"
  shows "rt_msg_text (fst (translate_value parse ser now (content_chunk c) t)) =
      (if rt_msg_text t = [] then trim_start c else rt_msg_text t @ c)"
    and "\<not> rt_in_thinking (fst (translate_value parse ser now (content_chunk c) t))"
  using assms
  by (simp_all add: translate_value_def note_usage_def content_chunk_def choices_of_def translate_choice_def
      translate_reasoning_def translate_content_def translate_rest_def translate_text_def delta_field_def nonempty_def
      open_thinking_def close_thinking_def after_thinking_def untagged_def remove_all_none json_get_str_def Let_def
      trim_start_Nil)

text \<open>
  An answer without thinking tags arrives as it is, whatever pieces it is streamed in, except that
  leading white space is dropped.
\<close>
theorem responses_content_preserved:
  assumes "list_all untagged cs"
  shows "rt_msg_text (fst (emit_all (map (\<lambda>c. translate_value parse ser now (content_chunk c)) cs)
      (rt_new uuid created model))) = trim_start (concat cs)"
proof -
  have "rt_msg_text (fst (emit_all (map (\<lambda>c. translate_value parse ser now (content_chunk c)) cs) t)) =
      (if rt_msg_text t = [] then trim_start (concat cs) else rt_msg_text t @ concat cs)"
    if "list_all untagged cs" "\<not> rt_in_thinking t" for t
    using that
  proof (induction cs arbitrary: t)
    case (Cons c cs)
    have "trim_start (c @ d) = (if trim_start c = [] then trim_start d else trim_start c @ d)" for d
      by (auto simp: trim_start_def dropWhile_append dropWhile_is_Nil_iff)
    then show ?case using Cons translate_content_chunk [of c t parse ser now] by simp
  qed (simp add: trim_start_def)
  from this [OF assms, of "rt_new uuid created model"] show ?thesis by (simp add: rt_new_def)
qed

theorem responses_content_preserved_witness:
  "rt_msg_text (fst (emit_all (map (\<lambda>c. translate_value (\<lambda>_. None) (\<lambda>_. []) 0 (content_chunk c)) ['' '', ''hi'', '' you''])
     (rt_new ''u'' 0 ''m''))) = trim_start (concat ['' '', ''hi'', '' you''])"
  by (rule responses_content_preserved) (simp add: untagged_def think_open_def think_close_def)

section \<open>The next turn\<close>

definition call_ok :: "tool_call_state \<Rightarrow> bool" where
  "call_ok e \<longleftrightarrow> tcs_call_id e \<noteq> [] \<and> tcs_name e \<noteq> [] \<and> list_all function_name_char (tcs_name e) \<and> length (tcs_name e) \<le> 128"

definition call_arguments :: "tool_call_state \<Rightarrow> string" where
  "call_arguments e = (if tcs_args_buf e = [] then ''{}'' else tcs_args_buf e)"

definition restored_call :: "tool_call_state \<Rightarrow> json" where
  "restored_call e =
     JObj [(''function'', JObj [(''arguments'', JStr (call_arguments e)), (''name'', JStr (tcs_name e))]),
           (''id'', JStr (tcs_call_id e)), (''type'', JStr ''function'')]"

definition call_input :: "tool_call_state \<Rightarrow> json" where
  "call_input e =
     JObj [(''arguments'', JStr (call_arguments e)), (''call_id'', JStr (tcs_call_id e)), (''name'', JStr (tcs_name e)),
           (''type'', JStr ''function_call'')]"

definition reasoning_input :: "string \<Rightarrow> string \<Rightarrow> json" where
  "reasoning_input i r =
     JObj [(''encrypted_content'', JStr r), (''id'', JStr i), (''summary'', JArr [summary_text r]), (''type'', JStr ''reasoning'')]"

lemma function_name_not_space: "function_name_char c \<Longrightarrow> \<not> is_space c"
  by (auto simp: function_name_char_def is_space_def less_eq_char_def)

lemma trim_function_name: "list_all function_name_char s \<Longrightarrow> trim s = s"
proof -
  have "dropWhile is_space s = s" if "list_all function_name_char s" for s
    using that by (cases s) (auto simp: function_name_not_space)
  moreover have "list_all function_name_char (rev s) = list_all function_name_char s" by (simp add: list_all_iff)
  moreover assume "list_all function_name_char s"
  ultimately show ?thesis by (simp add: trim_def)
qed

lemma update_last: "k \<notin> fst ` set kvs \<Longrightarrow> AList.update k v (kvs @ [(k, w)]) = kvs @ [(k, v)]"
  by (induction kvs) auto

lemma convert_call_input:
  assumes "call_ok e" "''tool_calls'' \<notin> fst ` set kvs"
  shows "convert_item ser (ms, Some (JObj (kvs @ [(''tool_calls'', JArr cs)]))) (sanitize_responses_input_item_ids (call_input e)) =
    (ms, Some (JObj (kvs @ [(''tool_calls'', JArr (cs @ [restored_call e]))])))"
proof -
  have "map_of kvs ''tool_calls'' = None" using assms(2) by (simp add: map_of_eq_None_iff)
  moreover have "sanitize_responses_input_item_ids (call_input e) = call_input e"
    using assms(1) by (simp add: sanitize_responses_input_item_ids_def needs_name_fix_def needs_id_strip_def call_input_def
        call_ok_def json_get_str_def)
  ultimately show ?thesis using assms
    by (simp add: convert_item_def item_type_of_def convert_call_item_def call_input_def str_or_empty_def json_get_str_def
        call_ok_def trim_function_name Let_def tool_calls_of_def map_add_def update_last chat_call_def restored_call_def)
qed

lemma convert_call_inputs:
  assumes "list_all call_ok es" "''tool_calls'' \<notin> fst ` set kvs"
  shows "foldl (convert_item ser) (ms, Some (JObj (kvs @ [(''tool_calls'', JArr cs)])))
      (map (\<lambda>e. sanitize_responses_input_item_ids (call_input e)) es) =
    (ms, Some (JObj (kvs @ [(''tool_calls'', JArr (cs @ map restored_call es))])))"
  using assms(1)
proof (induction es arbitrary: cs)
  case (Cons e es)
  then show ?case using convert_call_input [OF _ assms(2), of e ser ms cs] by simp
qed simp

lemma map_filter_Cons_append:
  "List.map_filter f (x # xs) = (case f x of Some y \<Rightarrow> y # List.map_filter f xs | None \<Rightarrow> List.map_filter f xs)"
  "List.map_filter f (xs @ ys) = List.map_filter f xs @ List.map_filter f ys"
  "List.map_filter f [] = []"
  by (auto simp: List.map_filter_def split: option.split)

definition message_input :: "string \<Rightarrow> json" where
  "message_input m =
     JObj [(''content'', JArr [JObj [(''annotations'', JArr []), (''text'', JStr m), (''type'', JStr ''output_text'')]]),
           (''role'', JStr ''assistant''), (''type'', JStr ''message'')]"

lemma sanitized_message: "sanitize_responses_input_items [message_input m] = [message_input m]"
proof -
  have "\<not> is_internal_assistant_message (message_input m)"
    by (simp add: is_internal_assistant_message_def message_input_def str_or_empty_def json_get_str_def trim_def to_lowercase_def)
  moreover have "\<not> needs_name_fix (message_input m)" "\<not> needs_id_strip (message_input m)"
    by (simp_all add: needs_name_fix_def needs_id_strip_def message_input_def json_get_str_def str_or_empty_def)
  ultimately show ?thesis
    by (simp add: sanitize_responses_input_items_def sanitize_responses_input_item_ids_def)
qed

lemma convert_message_input:
  assumes "m \<noteq> []"
  shows "convert_item ser ([], Some (JObj [(''content'', c), (''role'', r), (''reasoning_content'', x)])) (message_input m) =
    ([JObj [(''content'', c), (''role'', r), (''reasoning_content'', x)]],
     Some (JObj [(''role'', JStr ''assistant''), (''content'', JStr m)]))"
proof -
  have "item_type_of (message_input m) = Some ''message''" by (simp add: item_type_of_def message_input_def json_get_str_def)
  moreover have "role_or_user (message_input m) = ''assistant''" by (simp add: role_or_user_def message_input_def json_get_str_def)
  moreover have "responses_content_to_chat (json_get (message_input m) ''content'') = JStr m"
    using assms by (simp add: message_input_def text_or_content_def or_else_def)
  ultimately show ?thesis by (simp add: convert_item_def convert_message_item_def flush_assistant_def)
qed

lemma stored_items:
  assumes "rt_reasoning_id t = Some i" "list_all call_ok (map snd (rt_tool_calls t))"
  shows "List.map_filter responses_output_item_to_input (completed_output t) =
    reasoning_input i (rt_reasoning_text t) #
    (if rt_msg_item_added t
     then [message_input (rt_msg_text t)] else []) @
    map call_input (map snd (rt_tool_calls t))"
proof -
  have f: "filter (\<lambda>e. tcs_call_id e \<noteq> []) es = es" if "list_all call_ok es" for es
    using that by (intro filter_True) (auto simp: list_all_iff call_ok_def)
  have "List.map_filter responses_output_item_to_input
      (map (\<lambda>e. JObj (call_fields (tcs_call_id e) (tcs_name e) (if tcs_args_buf e = [] then ''{}'' else tcs_args_buf e))) es) =
      map call_input es" for es
    by (induction es) (simp_all add: map_filter_Cons_append responses_output_item_to_input_def call_fields_def json_get_str_def
        get_or_def call_input_def call_arguments_def)
  note calls = this
  show ?thesis using assms(1) unfolding completed_output_def f [OF assms(2)] map_filter_Cons_append calls
    by (simp add: map_filter_Cons_append responses_output_item_to_input_def json_get_str_def get_or_def
        reasoning_input_def message_input_def)
qed

definition next_turn_messages :: "(json \<Rightarrow> string) \<Rightarrow> responses_translator \<Rightarrow> json list" where
  \<comment> \<open>what the stored output becomes in the next request\<close>
  "next_turn_messages ser t =
     convert_responses_input_to_messages ser
       (sanitize_responses_input_items (List.map_filter responses_output_item_to_input (completed_output t)))"

lemma sanitized_calls:
  "sanitize_responses_input_items (map call_input es) = map (\<lambda>e. sanitize_responses_input_item_ids (call_input e)) es"
  by (induction es) (simp_all add: sanitize_responses_input_items_def is_internal_assistant_message_def call_input_def
      json_get_str_def)

lemma sanitized_reasoning:
  "starts_with i ''rs_'' \<Longrightarrow> sanitize_responses_input_items (reasoning_input i r # items) =
     reasoning_input i r # sanitize_responses_input_items items"
  by (simp add: sanitize_responses_input_items_def is_internal_assistant_message_def reasoning_input_def json_get_str_def
      sanitize_responses_input_item_ids_def needs_name_fix_def needs_id_strip_def expected_prefix_def str_or_empty_def)

lemma convert_reasoning_input:
  "r \<noteq> [] \<Longrightarrow> convert_item ser ([], None) (reasoning_input i r) =
     ([], Some (JObj [(''content'', JStr []), (''role'', JStr ''assistant''), (''reasoning_content'', JStr r)]))"
  by (simp add: convert_item_def item_type_of_def reasoning_input_def json_get_str_def append_reasoning_to_assistant_def
      reasoning_item_text_def nonempty_str_def str_or_empty_def Let_def split: list.split)


definition tool_turn :: responses_translator where
  "tool_turn = (rt_new ''u'' 0 ''m'')\<lparr>rt_reasoning_id := Some ''rs_1'', rt_reasoning_text := ''why'',
     rt_tool_calls := [(0, \<lparr>tcs_call_id = ''c'', tcs_name = ''f'', tcs_args_buf = ''{}'', tcs_item_added = True,
                            tcs_item_done = True\<rparr>)]\<rparr>"


text \<open>
  A turn of reasoning and text is torn apart: the reasoning comes back as an assistant message
  without text, and the text as a second one, which for MiMo then gets the placeholder for a turn
  without thinking.
\<close>
theorem text_turn_torn_apart:
  assumes "rt_reasoning_id t = Some i" "starts_with i ''rs_''" "rt_reasoning_text t \<noteq> []" "rt_msg_item_added t"
    and "rt_msg_text t \<noteq> []" "rt_tool_calls t = []"
  shows "finalize_responses_messages_for_target (next_turn_messages ser t) TargetMimo =
    [JObj [(''content'', JStr []), (''role'', JStr ''assistant''), (''reasoning_content'', JStr (rt_reasoning_text t))],
     JObj [(''role'', JStr ''assistant''), (''content'', JStr (rt_msg_text t)),
           (''reasoning_content'', JStr MIXED_MODE_REASONING_PLACEHOLDER)]]"
proof -
  have "sanitize_responses_input_items [message_input (rt_msg_text t)] = [message_input (rt_msg_text t)]"
    by (rule sanitized_message)
  then have "next_turn_messages ser t =
      [JObj [(''content'', JStr []), (''role'', JStr ''assistant''), (''reasoning_content'', JStr (rt_reasoning_text t))],
       JObj [(''role'', JStr ''assistant''), (''content'', JStr (rt_msg_text t))]]"
    using assms stored_items [of t i]
    by (simp add: next_turn_messages_def sanitized_reasoning convert_reasoning_input convert_message_input
        convert_responses_input_to_messages_def flush_assistant_def)
  then show ?thesis using assms(3)
    by (simp add: filter_orphaned_tool_messages_def has_role_def json_get_str_def backfill_missing_assistant_reasoning_def
        backfill_reasoning_def nonempty_str_def split: list.split)
qed

definition text_turn :: responses_translator where
  "text_turn = (rt_new ''u'' 0 ''m'')\<lparr>rt_reasoning_id := Some ''rs_1'', rt_reasoning_text := ''why'',
     rt_msg_item_added := True, rt_msg_text := ''because''\<rparr>"

theorem text_turn_torn_apart_witness:
  "finalize_responses_messages_for_target (next_turn_messages (\<lambda>_. []) text_turn) TargetMimo =
    [JObj [(''content'', JStr []), (''role'', JStr ''assistant''), (''reasoning_content'', JStr (rt_reasoning_text text_turn))],
     JObj [(''role'', JStr ''assistant''), (''content'', JStr (rt_msg_text text_turn)),
           (''reasoning_content'', JStr MIXED_MODE_REASONING_PLACEHOLDER)]]"
  by (rule text_turn_torn_apart [of _ "''rs_1''"]) (simp_all add: text_turn_def rt_new_def)

section \<open>What is lost\<close>

definition finish_chunk :: json where
  "finish_chunk = JObj [(''choices'', JArr [JObj [(''delta'', JObj []), (''finish_reason'', JStr ''stop''), (''index'', JInt 0)]])]"

definition usage_chunk :: "json \<Rightarrow> json" where
  \<comment> \<open>the last chunk of a stream with \<open>include_usage\<close>\<close>
  "usage_chunk u = JObj [(''choices'', JArr []), (''usage'', u)]"

fun frame_usage :: "rs_frame \<Rightarrow> json option" where
  "frame_usage (RsEvent v) = json_pointer v [''response'', ''usage'']"
| "frame_usage RsDone = None"

lemmas emitter_defs = then_emit_def when_emit_def modify_def skip_def emit_def Let_def append_done_marker_def

lemma finish_from_new:
  "translate_value parse ser now finish_chunk (rt_new uuid created model) =
     ((rt_new uuid created model)\<lparr>rt_seq := 3, rt_started := True, rt_completed_sent := True,
        rt_last_emit_at := Some now, rt_done_marker_sent := True\<rparr>,
      [RsEvent (json_insert (created_event (rt_new uuid created model)) ''sequence_number'' (JInt 1)),
       RsEvent (json_insert (in_progress_event (rt_new uuid created model)) ''sequence_number'' (JInt 2)),
       RsEvent (json_insert (completed_event (rt_new uuid created model)) ''sequence_number'' (JInt 3)), RsDone])"
  by (simp add: translate_value_def note_usage_def finish_chunk_def choices_of_def translate_choice_def start_stream_def
      translate_reasoning_def translate_content_def translate_rest_def delta_field_def nonempty_def json_get_str_def
      u64_or_zero_def as_i32_def close_all_def close_reasoning_def close_message_def emit_completed_def emitter_defs
      rt_new_def wrap_add_def nonempty_str_def created_event_def in_progress_event_def completed_event_def
      completed_output_def)

text \<open>
  The usage of a stream is lost when it comes in a chunk of its own after the finish reason, where
  OpenAI-compatible upstreams send it: the response is completed at the finish reason, without usage.
\<close>
theorem late_usage_lost:
  "completions (snd (emit_all [translate_value parse ser now finish_chunk, translate_value parse ser now (usage_chunk u)]
     (rt_new uuid created model))) = 1 \<and>
   list_all (\<lambda>f. frame_usage f = None)
     (snd (emit_all [translate_value parse ser now finish_chunk, translate_value parse ser now (usage_chunk u)]
       (rt_new uuid created model)))"
proof -
  have "snd (translate_value parse ser now (usage_chunk u) t) = []" for t
    by (simp add: translate_value_def note_usage_def usage_chunk_def choices_of_def emitter_defs)
  then have "snd (emit_all [translate_value parse ser now finish_chunk, translate_value parse ser now (usage_chunk u)]
      (rt_new uuid created model)) = snd (translate_value parse ser now finish_chunk (rt_new uuid created model))"
    by (simp add: snd_then_emit skip_def)
  note frames = this
  have "rt_pending_usage (rt_new uuid created model) = None" by (simp add: rt_new_def)
  then show ?thesis unfolding frames finish_from_new
    by (simp add: completions_def created_event_def in_progress_event_def completed_event_def json_get_str_def)
qed

definition call_piece :: "string option \<Rightarrow> string \<Rightarrow> json" where
  "call_piece i a =
     JObj ((case i of Some x \<Rightarrow> [(''id'', JStr x)] | None \<Rightarrow> []) @
           [(''function'', JObj [(''arguments'', JStr a)]), (''index'', JInt 0)])"

text \<open>
  Arguments that arrive before the id of their call are dropped: the id differs from the empty one
  on record, so the entry is replaced and what it had gathered is gone.
\<close>
theorem arguments_before_id_lost:
  assumes "i \<noteq> []" "a \<noteq> []" "b \<noteq> []" "rt_tool_calls t = []"
  shows "rt_tool_calls (fst (emit_all [handle_tool_call_delta parse ser now (call_piece None a),
      handle_tool_call_delta parse ser now (call_piece (Some i) b)] t)) =
    [(0, \<lparr>tcs_call_id = i, tcs_name = [], tcs_args_buf = b, tcs_item_added = True, tcs_item_done = False\<rparr>)]"
proof -
  have s: "nonempty_str (call_piece None a) ''id'' = None" "nonempty_str (call_piece (Some i) b) ''id'' = Some i"
    "tc_index (call_piece x c) = 0" "function_field (call_piece x c) ''name'' = None"
    "function_field (call_piece x c) ''arguments'' = Some c" for x c
    using assms(1) by (auto simp: call_piece_def nonempty_str_def json_get_str_def tc_index_def u64_or_zero_def
        function_field_def split: option.split list.split)
  have n: "nonempty (Some a) = Some a" "nonempty (Some b) = Some b"
    using assms(2,3) by (simp_all add: nonempty_def split: list.split)
  show ?thesis using assms
    by (simp add: handle_tool_call_delta_def s n replace_call_def apply_call_delta_def update_call_def new_call_state_def
        close_tool_call_def hm_get_def hm_insert_def hm_remove_def emitter_defs)
qed

theorem arguments_before_id_lost_witness:
  "rt_tool_calls (fst (emit_all [handle_tool_call_delta (\<lambda>_. None) (\<lambda>_. []) 0 (call_piece None ''1''),
      handle_tool_call_delta (\<lambda>_. None) (\<lambda>_. []) 0 (call_piece (Some ''c'') ''2'')] (rt_new ''u'' 0 ''m''))) =
    [(0, \<lparr>tcs_call_id = ''c'', tcs_name = [], tcs_args_buf = ''2'', tcs_item_added = True, tcs_item_done = False\<rparr>)]"
  by (rule arguments_before_id_lost) (simp_all add: rt_new_def)

end
