(* ===== verification/ResponsesWire.thy ===== *)
theory ResponsesWire
  imports ResponsesStream
begin

text \<open>
  How a request's stream is served in the Responses protocol
  (\<^verbatim>\<open>src/crates/crab-proxy/src/responses_wire.rs\<close>, last part): the translator of a request, the
  opening events sent before the upstream answers, keep-alive, and the closing events of a stream
  that breaks off. The part of the gateway context they read and write is a record; whether a write
  to the client succeeds, fresh ids and the time are arguments.
\<close>

section \<open>The context\<close>

record responses_ctx =
  rc_is_streaming :: bool
  rc_pipeline :: "request_pipeline option"
  rc_wire :: client_wire_api
  rc_model :: string
  rc_http_status :: "nat option"
  rc_translator :: "responses_translator option"
  rc_bootstrap :: "string option"
  rc_bootstrap_sent :: bool
  rc_ttfb_prefill_sent :: bool
  rc_client_body :: string
  rc_exec_only_surface :: bool

record wire_fresh =
  wf_uuid :: string
  wf_secs :: int
  wf_now :: instant

definition fresh_translator :: "wire_fresh \<Rightarrow> string \<Rightarrow> responses_translator" where
  "fresh_translator fr model = rt_new (wf_uuid fr) (wf_secs fr) model"

definition rc_needs_translate :: "responses_ctx \<Rightarrow> bool" where
  "rc_needs_translate ctx = needs_responses_wire_translate (rc_pipeline ctx) (rc_wire ctx)"

definition rc_send :: "string \<Rightarrow> responses_ctx \<Rightarrow> responses_ctx" where
  \<comment> \<open>\<open>client_sse_body.extend_from_slice\<close>\<close>
  "rc_send bytes ctx = ctx\<lparr>rc_client_body := rc_client_body ctx @ bytes\<rparr>"

section \<open>Opening and keep-alive\<close>

definition translate_client_bytes_for_responses_wire ::
    "wire_env \<Rightarrow> wire_fresh \<Rightarrow> responses_translator option \<Rightarrow> string \<Rightarrow> string option \<Rightarrow>
     responses_translator option \<times> string option" where
  \<comment> \<open>the opening events of a new translator are not sent\<close>
  "translate_client_bytes_for_responses_wire env fr translator model bytes =
     (case bytes of
        None \<Rightarrow> (translator, None)
      | Some data \<Rightarrow>
          if data = [] then (translator, None)
          else (let tr = (case translator of Some t \<Rightarrow> t
                          | None \<Rightarrow> fst (bootstrap_stream (wf_now fr) (fresh_translator fr model)))
                in case rt_translate_chunk env (wf_now fr) data tr of
                     (tr', fs) \<Rightarrow>
                       (let out = print_frames (we_ser env) fs in (Some tr', if out = [] then None else Some out))))"

definition arm_responses_wire_stream :: "wire_env \<Rightarrow> wire_fresh \<Rightarrow> responses_ctx \<Rightarrow> string \<Rightarrow> responses_ctx" where
  "arm_responses_wire_stream env fr ctx model =
     (if rc_translator ctx \<noteq> None then ctx
      else (case bootstrap_stream (wf_now fr) (set_exec_only_surface (rc_exec_only_surface ctx) (fresh_translator fr model)) of
              (tr, fs) \<Rightarrow>
                (let bootstrap = print_frames (we_ser env) fs;
                     ctx = (if bootstrap \<noteq> [] then ctx\<lparr>rc_bootstrap := Some bootstrap\<rparr> else ctx)
                 in ctx\<lparr>rc_translator := Some tr\<rparr>)))"

definition prepend_responses_wire_bootstrap :: "responses_ctx \<Rightarrow> string option \<Rightarrow> responses_ctx \<times> string option" where
  "prepend_responses_wire_bootstrap ctx bytes =
     (if rc_bootstrap_sent ctx then (ctx, bytes)
      else case rc_bootstrap ctx of
        None \<Rightarrow> (ctx, bytes)
      | Some bootstrap \<Rightarrow>
          (ctx\<lparr>rc_bootstrap := None, rc_bootstrap_sent := True\<rparr>,
           Some (bootstrap @ (case bytes of Some data \<Rightarrow> data | None \<Rightarrow> []))))"

record prefill_io =
  pf_response_written :: bool
  pf_header_built :: bool
  pf_header_sent :: bool
  pf_body_sent :: bool

definition try_send_responses_wire_ttfb_prefill ::
    "wire_env \<Rightarrow> wire_fresh \<Rightarrow> prefill_io \<Rightarrow> responses_ctx \<Rightarrow> responses_ctx \<times> bool" where
  "try_send_responses_wire_ttfb_prefill env fr io ctx =
     (if \<not> rc_is_streaming ctx \<or> \<not> rc_needs_translate ctx \<or> rc_wire ctx \<noteq> Responses \<or> rc_bootstrap_sent ctx \<or>
         pf_response_written io
      then (ctx, False)
      else (let ctx = arm_responses_wire_stream env fr ctx (rc_model ctx) in
            case rc_bootstrap ctx of
              None \<Rightarrow> (ctx, False)
            | Some bootstrap \<Rightarrow>
                (let ctx = ctx\<lparr>rc_bootstrap := None, rc_bootstrap_sent := True, rc_ttfb_prefill_sent := True\<rparr> in
                 if \<not> pf_header_built io \<or> \<not> pf_header_sent io then (ctx, False)
                 else (rc_send bootstrap ctx, pf_body_sent io))))"

definition take_early_responses_wire_bootstrap :: "responses_ctx \<Rightarrow> responses_ctx \<times> string option" where
  "take_early_responses_wire_bootstrap ctx =
     (if \<not> rc_is_streaming ctx \<or> \<not> rc_needs_translate ctx \<or> rc_bootstrap_sent ctx \<or> rc_http_status ctx \<noteq> Some 200
      then (ctx, None)
      else case rc_bootstrap ctx of
        None \<Rightarrow> (ctx, None)
      | Some bootstrap \<Rightarrow>
          (rc_send bootstrap (ctx\<lparr>rc_bootstrap := None, rc_bootstrap_sent := True\<rparr>), Some bootstrap))"

definition poll_translator :: "wire_env \<Rightarrow> wire_fresh \<Rightarrow> responses_ctx \<Rightarrow> responses_ctx \<times> string option" where
  \<comment> \<open>the second half of \<open>poll_responses_wire_keepalive\<close>\<close>
  "poll_translator env fr ctx =
     (case rc_translator ctx of
        None \<Rightarrow> (ctx, None)
      | Some tr \<Rightarrow>
          if rt_completed_sent tr then (ctx, None)
          else (case poll_keepalive (wf_now fr) tr of
                  (tr', fs) \<Rightarrow>
                    (let out = print_frames (we_ser env) fs; ctx = ctx\<lparr>rc_translator := Some tr'\<rparr>
                     in if out = [] then (ctx, None) else (rc_send out ctx, Some out))))"

definition poll_responses_wire_keepalive :: "wire_env \<Rightarrow> wire_fresh \<Rightarrow> responses_ctx \<Rightarrow> responses_ctx \<times> string option" where
  "poll_responses_wire_keepalive env fr ctx =
     (if \<not> rc_is_streaming ctx \<or> \<not> rc_needs_translate ctx \<or> rc_http_status ctx \<noteq> Some 200 then (ctx, None)
      else if \<not> rc_bootstrap_sent ctx
      then (let ctx = arm_responses_wire_stream env fr ctx (rc_model ctx) in
            case rc_bootstrap ctx of
              Some bootstrap \<Rightarrow>
                (rc_send bootstrap (ctx\<lparr>rc_bootstrap := None, rc_bootstrap_sent := True\<rparr>), Some bootstrap)
            | None \<Rightarrow> poll_translator env fr ctx)
      else poll_translator env fr ctx)"

section \<open>Closing a broken stream\<close>

definition contains_completed :: "wire_env \<Rightarrow> string \<Rightarrow> bool" where
  "contains_completed env body = sse_bytes_contains_event (we_parse env) (we_utf8 env) body ''response.completed''"

definition responses_stream_needs_completed_event :: "wire_env \<Rightarrow> responses_ctx \<Rightarrow> bool" where
  "responses_stream_needs_completed_event env ctx \<longleftrightarrow> \<not> contains_completed env (rc_client_body ctx)"

definition responses_stream_needs_done_marker :: "responses_ctx \<Rightarrow> bool" where
  "responses_stream_needs_done_marker ctx \<longleftrightarrow> \<not> str_contains (rc_client_body ctx) ''[DONE]''"

definition upstream_ok_for_graceful_responses_finalize :: "responses_ctx \<Rightarrow> bool" where
  "upstream_ok_for_graceful_responses_finalize ctx =
     (case rc_http_status ctx of
        Some status \<Rightarrow> status < 400
      | None \<Rightarrow> rc_bootstrap_sent ctx \<or> rc_client_body ctx \<noteq> [] \<or> rc_translator ctx \<noteq> None)"

definition should_attempt_graceful_responses_finalize :: "wire_env \<Rightarrow> responses_ctx \<Rightarrow> bool" where
  "should_attempt_graceful_responses_finalize env ctx \<longleftrightarrow>
     rc_is_streaming ctx \<and> rc_needs_translate ctx \<and> rc_wire ctx = Responses \<and>
     upstream_ok_for_graceful_responses_finalize ctx \<and>
     (responses_stream_needs_completed_event env ctx \<or> responses_stream_needs_done_marker ctx)"

definition should_graceful_finalize_responses_stream :: "wire_env \<Rightarrow> responses_ctx \<Rightarrow> bool" where
  "should_graceful_finalize_responses_stream env ctx \<longleftrightarrow>
     should_attempt_graceful_responses_finalize env ctx \<and>
     \<not> (case rc_translator ctx of Some t \<Rightarrow> rt_completed_sent t | None \<Rightarrow> False)"

definition needs_downstream_stream_finish :: "wire_env \<Rightarrow> responses_ctx \<Rightarrow> bool" where
  "needs_downstream_stream_finish env ctx \<longleftrightarrow>
     rc_is_streaming ctx \<and> rc_needs_translate ctx \<and> rc_wire ctx = Responses \<and> rc_bootstrap_sent ctx \<and>
     \<not> responses_stream_needs_completed_event env ctx \<and> \<not> responses_stream_needs_done_marker ctx"

definition synthetic_completed :: "wire_fresh \<Rightarrow> responses_ctx \<Rightarrow> json" where
  "synthetic_completed fr ctx =
     JObj [(''response'', JObj [(''created_at'', JInt (wf_secs fr)),
              (''id'', JStr (case rc_translator ctx of Some t \<Rightarrow> rt_response_id t | None \<Rightarrow> ''resp_'' @ wf_uuid fr)),
              (''model'', JStr (rc_model ctx)), (''object'', JStr ''response''),
              (''output'', JArr (case rc_translator ctx of Some t \<Rightarrow> completed_output t | None \<Rightarrow> [])),
              (''status'', JStr ''completed''),
              (''usage'', JObj [(''input_tokens'', JInt 0), (''output_tokens'', JInt 0), (''total_tokens'', JInt 0)])]),
           (''type'', JStr ''response.completed'')]"

definition append_synthetic_responses_completed :: "wire_env \<Rightarrow> wire_fresh \<Rightarrow> responses_ctx \<Rightarrow> string" where
  "append_synthetic_responses_completed env fr ctx =
     print_frames (we_ser env) [RsEvent (synthetic_completed fr ctx), RsDone]"

type_synonym chain_state = "chain_store \<times> (string \<times> json list) list"
  \<comment> \<open>the store and the tasks spawned for Redis\<close>

definition store_translator_output ::
    "wire_fresh \<Rightarrow> request_pipeline option \<Rightarrow> responses_translator \<Rightarrow> chain_state \<Rightarrow> chain_state" where
  "store_translator_output fr p t s =
     (case s of (store, tasks) \<Rightarrow>
      (case store_responses_chain_output store (responses_chain_namespace p) (rt_response_id t) (completed_output t) (wf_now fr) of
         (store', task) \<Rightarrow> (store', tasks @ (case task of Some x \<Rightarrow> [x] | None \<Rightarrow> []))))"

definition synthesize_responses_completed_tail ::
    "wire_env \<Rightarrow> wire_fresh \<Rightarrow> responses_ctx \<Rightarrow> chain_state \<Rightarrow> responses_ctx \<times> chain_state \<times> string option" where
  "synthesize_responses_completed_tail env fr ctx s =
     (if \<not> should_graceful_finalize_responses_stream env ctx then (ctx, s, None)
      else (let out = append_synthetic_responses_completed env fr ctx in
            (rc_send out ctx,
             (case rc_translator ctx of Some t \<Rightarrow> store_translator_output fr (rc_pipeline ctx) t s | None \<Rightarrow> s),
             Some out)))"

definition merge_graceful_responses_tail ::
    "wire_env \<Rightarrow> wire_fresh \<Rightarrow> responses_ctx \<Rightarrow> chain_state \<Rightarrow> string option \<Rightarrow>
     responses_ctx \<times> chain_state \<times> string option" where
  "merge_graceful_responses_tail env fr ctx s existing =
     (case synthesize_responses_completed_tail env fr ctx s of
        (ctx', s', tail) \<Rightarrow>
          (ctx', s', map_option (\<lambda>t. (case existing of Some e \<Rightarrow> e | None \<Rightarrow> []) @ t) tail))"

definition open_tail :: "wire_env \<Rightarrow> wire_fresh \<Rightarrow> responses_ctx \<Rightarrow> responses_ctx \<times> string" where
  \<comment> \<open>the opening events, when they have not been sent\<close>
  "open_tail env fr ctx =
     (if rc_bootstrap_sent ctx then (ctx, [])
      else (let ctx = arm_responses_wire_stream env fr ctx (rc_model ctx) in
            case rc_bootstrap ctx of
              Some bootstrap \<Rightarrow> (ctx\<lparr>rc_bootstrap := None, rc_bootstrap_sent := True\<rparr>, bootstrap)
            | None \<Rightarrow> (ctx, [])))"

definition close_tail ::
    "wire_env \<Rightarrow> wire_fresh \<Rightarrow> bool \<Rightarrow> responses_ctx \<Rightarrow> chain_state \<Rightarrow> responses_ctx \<times> chain_state \<times> rs_frame list" where
  \<comment> \<open>the translator is flushed and its output stored\<close>
  "close_tail env fr needs_completed ctx s =
     (case rc_translator ctx of
        None \<Rightarrow> (ctx, s, [])
      | Some t \<Rightarrow>
          (case then_emit (flush_upstream_remainder env (wf_now fr))
                  (if needs_completed then rt_flush env (wf_now fr) else append_done_if_missing) t of
             (t', fs) \<Rightarrow>
               (ctx\<lparr>rc_translator := Some t'\<rparr>,
                if rt_completed_sent t' then store_translator_output fr (rc_pipeline ctx) t' s else s, fs)))"

definition build_graceful_responses_stream_tail ::
    "wire_env \<Rightarrow> wire_fresh \<Rightarrow> responses_ctx \<Rightarrow> chain_state \<Rightarrow> responses_ctx \<times> chain_state \<times> string option" where
  "build_graceful_responses_stream_tail env fr ctx s =
     (if \<not> should_attempt_graceful_responses_finalize env ctx
      then (ctx, s, if needs_downstream_stream_finish env ctx then Some [] else None)
      else
        (let needs_completed = responses_stream_needs_completed_event env ctx;
             (ctx, opening) = open_tail env fr ctx;
             (ctx, s, fs) = close_tail env fr needs_completed ctx s;
             out = opening @ print_frames (we_ser env) fs;
             ctx = rc_send out ctx;
             (ctx, s, out) =
               (if contains_completed env (rc_client_body ctx) then (ctx, s, out)
                else (let extra = append_synthetic_responses_completed env fr ctx in
                      (rc_send extra ctx,
                       (case rc_translator ctx of Some t \<Rightarrow> store_translator_output fr (rc_pipeline ctx) t s | None \<Rightarrow> s),
                       out @ extra)))
         in (ctx, s, if out = [] then None else Some out)))"

section \<open>A broken stream is completed\<close>

fun typed_frame :: "rs_frame \<Rightarrow> bool" where
  "typed_frame (RsEvent v) = (json_get_str v ''type'' \<in> Some ` set (plain_types @ special))"
| "typed_frame RsDone = True"

definition frames_typed :: "rs_frame list \<Rightarrow> responses_translator \<Rightarrow> bool" where
  "frames_typed h t = list_all typed_frame h"

lemma typed_emits:
  "(\<And>t. is_object (data t) \<and> json_get_str (data t) ''type'' \<in> Some ` set (plain_types @ special)) \<Longrightarrow>
   keeps frames_typed (emit now data)"
  by (simp add: keeps_def emit_def Let_def frames_typed_def)

lemma typed_modify: "keeps frames_typed (modify u)"
  by (simp add: keeps_def modify_def frames_typed_def)

lemma typed_done: "keeps frames_typed append_done_marker"
  by (simp add: keeps_def append_done_marker_def frames_typed_def)

interpretation naming: stream_invariant frames_typed
proof
  show "keeps frames_typed (emit now data)" if "\<And>t. plain (data t)" for now data
    using that by (intro typed_emits) (auto simp: plain_def)
qed (auto intro!: typed_emits typed_modify typed_done keeps_intros
    simp: frames_typed_def ev_text_def ev_summary_def json_get_str_def is_object_def completed_event_def special_def)

lemma typed_frames_sent: "keeps frames_typed f \<Longrightarrow> list_all typed_frame (snd (f t))"
  using keepsD [of frames_typed f "[]" t] by (simp add: frames_typed_def)

definition printer_ok :: "wire_env \<Rightarrow> bool" where
  \<comment> \<open>printed events are lines, a completion is read back as one, and the end marker is no JSON\<close>
  "printer_ok env \<longleftrightarrow>
     (\<forall>v. printable (we_ser env v)) \<and> (\<forall>b. we_utf8 env b) \<and> we_parse env ''[DONE]'' = None \<and>
     (\<forall>v. json_get_str v ''type'' = Some ''response.completed'' \<longrightarrow>
        (\<exists>w. we_parse env (we_ser env v) = Some w \<and> json_get_str w ''type'' = Some ''response.completed''))"

fun frame_event :: "(json \<Rightarrow> string) \<Rightarrow> rs_frame \<Rightarrow> sse_event" where
  "frame_event ser (RsEvent v) =
     \<lparr>ev_event = Some (case json_get_str v ''type'' of Some e \<Rightarrow> e | None \<Rightarrow> ''message''), ev_data = ser v\<rparr>"
| "frame_event ser RsDone = \<lparr>ev_event = None, ev_data = ''[DONE]''\<rparr>"

lemma print_frames_events: "print_frames ser fs = reconstruct_sse_data (map (frame_event ser) fs)"
proof -
  have "print_frame ser f = print_event (frame_event ser f)" for f
    by (cases f) (simp_all add: append_responses_event_def print_event_def)
  then have "print_frame ser = print_event \<circ> frame_event ser" by (intro ext) simp
  then show ?thesis by (simp add: print_frames_def reconstruct_sse_data_def)
qed

lemma event_types_printable: "ty \<in> set (plain_types @ special) \<Longrightarrow> printable ty"
  by (auto simp: plain_types_def special_def printable_def is_nl_def trim_def is_space_def)

lemma frame_event_printable:
  assumes "printer_ok env" "typed_frame f"
  shows "printable_event (frame_event (we_ser env) f)"
proof (cases f)
  case (RsEvent v)
  then show ?thesis using assms event_types_printable by (auto simp: printable_event_def printer_ok_def)
next
  case RsDone
  then show ?thesis by (simp add: printable_event_def printable_def is_nl_def trim_def is_space_def)
qed

lemma shift_names_data: "map ev_data (shift_names es) = map ev_data es"
  by (induction es rule: shift_names.induct) simp_all

lemma parsed_frames_data:
  assumes "printer_ok env" "list_all typed_frame fs"
  shows "map ev_data (parse_sse_chunk (we_utf8 env) (print_frames (we_ser env) fs)) =
    map (ev_data \<circ> frame_event (we_ser env)) fs"
proof -
  have "list_all printable_event (map (frame_event (we_ser env)) fs)"
    using assms frame_event_printable by (auto simp: list_all_iff)
  from parse_printed_events [OF this, of "[]"] assms(1)
  have "parse_sse_chunk (we_utf8 env) (print_frames (we_ser env) fs) = shift_names (map (frame_event (we_ser env)) fs)"
    by (simp add: parse_sse_chunk_def print_frames_events printer_ok_def name_last_def split: option.split)
  then show ?thesis by (simp add: shift_names_data)
qed

lemma completion_seen:
  assumes "printer_ok env" "list_all typed_frame fs" "completions fs \<noteq> 0"
  shows "contains_completed env (print_frames (we_ser env) fs)"
proof -
  let ?es = "parse_sse_chunk (we_utf8 env) (print_frames (we_ser env) fs)"
  obtain f where "f \<in> set fs" "is_completed_frame f" using assms(3) by (auto simp: completions_def filter_empty_conv)
  then obtain v where v: "RsEvent v \<in> set fs" "json_get_str v ''type'' = Some ''response.completed''"
    by (metis is_completed_frame.elims(2))
  then obtain w where w: "we_parse env (we_ser env v) = Some w" "json_get_str w ''type'' = Some ''response.completed''"
    using assms(1) by (auto simp: printer_ok_def)
  have "we_ser env v \<in> set (map (ev_data \<circ> frame_event (we_ser env)) fs)" using v(1) by force
  then obtain e where e: "e \<in> set ?es" "ev_data e = we_ser env v"
    using parsed_frames_data [OF assms(1,2)] by (metis (no_types, lifting) imageE list.set_map)
  have "trim (we_ser env v) = we_ser env v" using assms(1) by (simp add: printer_ok_def printable_def)
  moreover have "we_ser env v \<noteq> ''[DONE]''" using w(1) assms(1) by (auto simp: printer_ok_def)
  ultimately have "\<not> ev_is_done e" using e(2) by (simp add: ev_is_done_def)
  then show ?thesis using e w by (auto simp: contains_completed_def sse_bytes_contains_event_def list_ex_iff)
qed

definition printed :: "wire_env \<Rightarrow> string \<Rightarrow> bool" where
  \<comment> \<open>bytes that are whole frames\<close>
  "printed env b \<longleftrightarrow> (\<exists>fs. b = print_frames (we_ser env) fs \<and> list_all typed_frame fs)"

definition ctx_printed :: "wire_env \<Rightarrow> responses_ctx \<Rightarrow> bool" where
  "ctx_printed env ctx \<longleftrightarrow>
     printed env (rc_client_body ctx) \<and> (case rc_bootstrap ctx of Some b \<Rightarrow> printed env b | None \<Rightarrow> True)"

lemma printed_Nil [simp]: "printed env []"
  by (auto simp: printed_def print_frames_def intro: exI [of _ "[]"])

lemma printed_frames: "list_all typed_frame fs \<Longrightarrow> printed env (print_frames (we_ser env) fs)"
  by (auto simp: printed_def)

lemma printed_append: "printed env a \<Longrightarrow> printed env b \<Longrightarrow> printed env (a @ b)"
  unfolding printed_def by (metis (no_types, opaque_lifting) concat_append list_all_append map_append print_frames_def)

lemma ctx_printed_send: "ctx_printed env ctx \<Longrightarrow> printed env b \<Longrightarrow> ctx_printed env (rc_send b ctx)"
  by (auto simp: ctx_printed_def rc_send_def intro: printed_append)

lemma arm_printed: "ctx_printed env ctx \<Longrightarrow> ctx_printed env (arm_responses_wire_stream env fr ctx model)"
  using typed_frames_sent [OF naming.keeps_bootstrap] printed_frames
  by (auto simp: arm_responses_wire_stream_def ctx_printed_def Let_def split: prod.split) (metis snd_conv)

lemma open_tail_printed:
  assumes "ctx_printed env ctx" "open_tail env fr ctx = (ctx', b)"
  shows "ctx_printed env ctx'" "printed env b"
  using assms arm_printed [OF assms(1), of fr "rc_model ctx"]
  by (auto simp: open_tail_def Let_def ctx_printed_def split: if_splits option.splits)

lemma close_tail_typed:
  assumes "close_tail env fr n ctx s = (ctx', s', fs)"
  shows "list_all typed_frame fs" "rc_client_body ctx' = rc_client_body ctx" "rc_bootstrap ctx' = rc_bootstrap ctx"
proof -
  have "keeps frames_typed (then_emit (flush_upstream_remainder env now)
      (if n then rt_flush env now else append_done_if_missing))" for now
    by (intro keeps_then naming.keeps_flush_remainder keeps_if naming.keeps_flush naming.keeps_done)
  from typed_frames_sent [OF this] show "list_all typed_frame fs"
    using assms by (auto simp: close_tail_def split: option.splits prod.splits) (metis snd_conv)
  show "rc_client_body ctx' = rc_client_body ctx" "rc_bootstrap ctx' = rc_bootstrap ctx"
    using assms by (auto simp: close_tail_def split: option.splits prod.splits)
qed

lemma synthetic_seen:
  assumes "printer_ok env" "printed env b"
  shows "contains_completed env (b @ append_synthetic_responses_completed env fr ctx)"
proof -
  obtain fs where b: "b = print_frames (we_ser env) fs" "list_all typed_frame fs" using assms(2) by (auto simp: printed_def)
  let ?e = "RsEvent (synthetic_completed fr ctx)"
  have "contains_completed env (print_frames (we_ser env) (fs @ [?e, RsDone]))"
    using assms(1) b(2)
    by (intro completion_seen) (auto simp: completions_def synthetic_completed_def json_get_str_def special_def)
  then show ?thesis by (simp add: b(1) append_synthetic_responses_completed_def print_frames_def)
qed


definition sample_env :: wire_env where
  "sample_env =
     \<lparr>we_parse = (\<lambda>s. if s = ''c'' then Some (JObj [(''type'', JStr ''response.completed'')]) else None),
      we_ser = (\<lambda>v. if json_get_str v ''type'' = Some ''response.completed'' then ''c'' else ''x''),
      we_utf8 = (\<lambda>_. True)\<rparr>"

definition broken_ctx :: responses_ctx where
  "broken_ctx =
     \<lparr>rc_is_streaming = True, rc_pipeline = Some CodexMimo, rc_wire = Responses, rc_model = ''m'', rc_http_status = Some 200,
      rc_translator = None, rc_bootstrap = None, rc_bootstrap_sent = False, rc_ttfb_prefill_sent = False,
      rc_client_body = [], rc_exec_only_surface = False\<rparr>"


end
