(* ===== verification/Composition.thy ===== *)
theory Composition
  imports ReasoningKeys F64 "HOL-Library.Multiset"
begin

text \<open>
  The composition of a request as it is logged (\<^verbatim>\<open>src/crates/crab-composition/src/\<close>): hashes
  of the immutable prefix and of the tool names, counts per role, the Cursor components found in
  the system messages, and the summary over many requests. Texts are UTF-8 bytes, one character
  each, because the code slices them by bytes. SHA-256, the printing of JSON and the order in
  which a hash map is iterated are arguments.
\<close>

section \<open>Hashes (hash.rs)\<close>

definition fingerprint_bytes :: "(string \<Rightarrow> string) \<Rightarrow> string \<Rightarrow> string" where
  "fingerprint_bytes sha data = (let full = sha data in if 16 \<le> length full then take 16 full else full)"

definition immutable_prefix_block_hash ::
    "(string \<Rightarrow> string) \<Rightarrow> (json \<Rightarrow> string) \<Rightarrow> json list \<Rightarrow> json option \<Rightarrow> string" where
  "immutable_prefix_block_hash sha ser messages tools =
     sha (concat (map ser (takeWhile (has_role ''system'') messages)) @
          (case tools of Some t \<Rightarrow> ser t | None \<Rightarrow> []))"

definition function_names :: "json list \<Rightarrow> string list" where
  "function_names tools =
     List.map_filter (\<lambda>t. Option.bind (json_get t ''function'') (\<lambda>f. json_get_str f ''name'')) tools"

definition tool_names_hash :: "(string \<Rightarrow> string) \<Rightarrow> json list \<Rightarrow> string" where
  "tool_names_hash sha tools = fingerprint_bytes sha (join '','' (sort (function_names tools)))"

section \<open>Cursor components (cursor\_heuristics.rs)\<close>

record component_fingerprint =
  cf_present :: bool
  cf_fingerprint :: "string option"

record cursor_components =
  cc_rules :: component_fingerprint
  cc_skills :: component_fingerprint
  cc_mcp :: component_fingerprint
  cc_subagent :: component_fingerprint

definition RULES_PATTERNS :: "string list" where
  "RULES_PATTERNS =
     [''<user_rules>'', ''<always_applied_workspace_rules>'', ''.cursor/rules'',
      ''always_applied_workspace_rules'', ''AGENTS.md'', ''RULE.md'']"

definition SKILLS_PATTERNS :: "string list" where
  "SKILLS_PATTERNS =
     [''<available_skills>'', ''available_skills'', ''<agent_skill>'', ''agent_skill'', ''SKILL.md'']"

definition MCP_PATTERNS :: "string list" where
  "MCP_PATTERNS =
     [''mcpServers'', ''CallMcpTool'', ''mcp_file_system'', ''<mcp_file_system_servers>'',
      ''mcp_file_system_servers'']"

definition SUBAGENT_PATTERNS :: "string list" where
  "SUBAGENT_PATTERNS =
     [''subagent_type'', ''Task tool'', ''Launch.*agent'', ''best-of-n-runner'', ''ci-investigator'']"

definition detect_component :: "(string \<Rightarrow> string) \<Rightarrow> string \<Rightarrow> string list \<Rightarrow> component_fingerprint" where
  "detect_component sha text' patterns =
     (let present = list_ex (str_contains text') patterns
      in \<lparr>cf_present = present,
          cf_fingerprint = (if present then Some (fingerprint_bytes sha text') else None)\<rparr>)"

definition detect_cursor_components :: "(string \<Rightarrow> string) \<Rightarrow> string list \<Rightarrow> cursor_components" where
  "detect_cursor_components sha system_contents =
     (let joined = join nl system_contents
      in \<lparr>cc_rules = detect_component sha joined RULES_PATTERNS,
          cc_skills = detect_component sha joined SKILLS_PATTERNS,
          cc_mcp = detect_component sha joined MCP_PATTERNS,
          cc_subagent = detect_component sha joined SUBAGENT_PATTERNS\<rparr>)"

definition detect_cursor_components_from_messages :: "(string \<Rightarrow> string) \<Rightarrow> json list \<Rightarrow> cursor_components" where
  "detect_cursor_components_from_messages sha messages =
     detect_cursor_components sha
       (List.map_filter (\<lambda>m. json_get_str m ''content'') (filter (has_role ''system'') messages))"

definition no_component :: component_fingerprint where
  "no_component = \<lparr>cf_present = False, cf_fingerprint = None\<rparr>"

definition no_components :: cursor_components where
  "no_components = \<lparr>cc_rules = no_component, cc_skills = no_component, cc_mcp = no_component,
                    cc_subagent = no_component\<rparr>"

section \<open>Extraction (extract.rs, types.rs)\<close>

record role_counts =
  rc_system :: nat
  rc_user :: nat
  rc_assistant :: nat
  rc_tool :: nat

record composition_hints =
  ch_consumer :: string
  ch_domain :: string
  ch_project_id :: "string option"
  ch_pipeline :: string
  ch_user_agent :: "string option"
  ch_upstream_model :: "string option"

record request_composition =
  rq_consumer :: string
  rq_domain :: string
  rq_project_id :: "string option"
  rq_pipeline :: string
  rq_user_agent :: "string option"
  rq_client_model :: string
  rq_upstream_model :: "string option"
  rq_system_prefix_hash :: "string option"
  rq_system_message_count :: nat
  rq_system_chars :: nat
  rq_tool_count :: nat
  rq_tool_names_hash :: "string option"
  rq_has_tools :: bool
  rq_message_count :: nat
  rq_roles :: role_counts
  rq_tool_turn_count :: nat
  rq_assistant_with_tool_calls_count :: nat
  rq_components :: cursor_components

definition as_u32 :: "nat \<Rightarrow> nat" where
  "as_u32 n = n mod 2 ^ 32"

definition messages_list :: "json \<Rightarrow> json list" where
  "messages_list payload = (case Option.bind (json_get payload ''messages'') as_array of Some ms \<Rightarrow> ms | None \<Rightarrow> [])"

definition count_role :: "string \<Rightarrow> json list \<Rightarrow> nat" where
  \<comment> \<open>a counter of the loop over the messages; a request has fewer than \<open>2 ^ 32\<close> of them\<close>
  "count_role role messages = as_u32 (length (filter (has_role role) messages))"

definition continuation_byte :: "char \<Rightarrow> bool" where
  "continuation_byte c \<longleftrightarrow> of_char c div 64 = (2 :: nat)"

definition is_char_boundary :: "string \<Rightarrow> nat \<Rightarrow> bool" where
  "is_char_boundary s i \<longleftrightarrow> i = 0 \<or> i = length s \<or> (i < length s \<and> \<not> continuation_byte (s ! i))"

definition truncate_user_agent :: "string \<Rightarrow> string option" where
  \<comment> \<open>\<open>&ua[..128]\<close> panics inside a character: None\<close>
  "truncate_user_agent ua =
     (if 128 < length ua then if is_char_boundary ua 128 then Some (take 128 ua) else None else Some ua)"

definition extract_composition ::
    "(string \<Rightarrow> string) \<Rightarrow> (json \<Rightarrow> string) \<Rightarrow> json \<Rightarrow> composition_hints \<Rightarrow> request_composition option" where
  \<comment> \<open>None is the panic of the user agent's truncation\<close>
  "extract_composition sha ser payload hints =
     (let messages = messages_list payload;
          tools = json_get payload ''tools'';
          roles = \<lparr>rc_system = count_role ''system'' messages, rc_user = count_role ''user'' messages,
                   rc_assistant = count_role ''assistant'' messages, rc_tool = count_role ''tool'' messages\<rparr>;
          with_calls = as_u32 (length (filter (\<lambda>m. has_role ''assistant'' m \<and> json_get m ''tool_calls'' \<noteq> None) messages));
          system_messages = takeWhile (has_role ''system'') messages;
          system_message_count = as_u32 (length system_messages);
          system_chars = as_u32 (sum_list (map (\<lambda>s. as_u32 (length s))
                           (List.map_filter (\<lambda>m. json_get_str m ''content'') system_messages)));
          tool_arr = Option.bind tools as_array;
          tool_count = (case tool_arr of Some a \<Rightarrow> as_u32 (length a) | None \<Rightarrow> 0);
          has_tools = 0 < tool_count;
          user_agent = map_option truncate_user_agent (ch_user_agent hints)
      in if user_agent = Some None then None
         else Some
           \<lparr>rq_consumer = ch_consumer hints, rq_domain = ch_domain hints, rq_project_id = ch_project_id hints,
            rq_pipeline = ch_pipeline hints, rq_user_agent = Option.bind user_agent id,
            rq_client_model = (case json_get_str payload ''model'' of Some m \<Rightarrow> m | None \<Rightarrow> ''unknown''),
            rq_upstream_model = ch_upstream_model hints,
            rq_system_prefix_hash =
              (if 0 < system_message_count \<or> tools \<noteq> None
               then Some (immutable_prefix_block_hash sha ser messages tools) else None),
            rq_system_message_count = system_message_count, rq_system_chars = system_chars,
            rq_tool_count = tool_count,
            rq_tool_names_hash = (if has_tools then map_option (tool_names_hash sha) tool_arr else None),
            rq_has_tools = has_tools, rq_message_count = as_u32 (length messages), rq_roles = roles,
            rq_tool_turn_count = count_role ''tool'' messages,
            rq_assistant_with_tool_calls_count = with_calls,
            rq_components = (if 0 < rc_system roles then detect_cursor_components_from_messages sha messages
                             else no_components)\<rparr>)"

fun boundary_from :: "string \<Rightarrow> nat \<Rightarrow> nat" where
  \<comment> \<open>\<open>while boundary > 0 && !s.is_char_boundary(boundary) { boundary -= 1 }\<close>\<close>
  "boundary_from s 0 = 0"
| "boundary_from s (Suc b) = (if is_char_boundary s (Suc b) then Suc b else boundary_from s b)"

definition find_char_boundary :: "string \<Rightarrow> nat \<Rightarrow> nat" where
  "find_char_boundary s index = (if length s \<le> index then length s else boundary_from s index)"

definition truncation_mark :: string where
  \<comment> \<open>an ellipsis in UTF-8, then \<open><truncated>\<close>\<close>
  "truncation_mark = [CHR 0xE2, CHR 0x80, CHR 0xA6] @ ''<truncated>''"

definition truncate_marked :: "string \<Rightarrow> nat \<Rightarrow> string" where
  "truncate_marked s max_chars =
     (if max_chars < length s then take (find_char_boundary s max_chars) s @ truncation_mark else s)"

definition extract_system_text :: "json \<Rightarrow> nat \<Rightarrow> string option" where
  "extract_system_text payload max_chars =
     (case Option.bind (json_get payload ''messages'') as_array of
        None \<Rightarrow> None
      | Some messages \<Rightarrow>
          (let texts = List.map_filter (\<lambda>m. json_get_str m ''content'') (takeWhile (has_role ''system'') messages)
           in if texts = [] then None else Some (truncate_marked (join nl texts) max_chars)))"

definition extract_tools_json :: "(json \<Rightarrow> string) \<Rightarrow> json \<Rightarrow> nat \<Rightarrow> string option" where
  "extract_tools_json ser payload max_chars =
     (case json_get payload ''tools'' of
        None \<Rightarrow> None
      | Some tools \<Rightarrow>
          (let json_str = ser tools
           in if json_str = ''null'' then None else Some (truncate_marked json_str max_chars)))"

section \<open>The summary (aggregate.rs)\<close>

record named_count =
  nc_name :: string
  nc_count :: nat

record bucket_count =
  bc_bucket_label :: string
  bc_count :: nat

record component_rate =
  cr_component :: string
  cr_present_count :: nat
  cr_rate :: f64

record composition_summary =
  cs_total_entries :: nat
  cs_tenant_count :: nat
  cs_consumer_count :: nat
  cs_model_distribution :: "named_count list"
  cs_project_distribution :: "named_count list"
  cs_consumer_distribution :: "named_count list"
  cs_tool_count_histogram :: "bucket_count list"
  cs_message_count_histogram :: "bucket_count list"
  cs_component_rates :: "component_rate list"
  cs_avg_latency_ms :: f64
  cs_avg_total_tokens :: nat

type_synonym composition_entry = "request_composition \<times> f64 \<times> nat"
type_synonym map_order = "(string, nat) hmap \<Rightarrow> (string, nat) hmap"

definition bump :: "(string, nat) hmap \<Rightarrow> string \<Rightarrow> (string, nat) hmap" where
  \<comment> \<open>\<open>*map.entry(k).or_insert(0) += 1\<close>\<close>
  "bump m k = hm_upsert m k 1 (\<lambda>n. n + 1)"

definition bucket_new :: "string list \<Rightarrow> (string \<times> nat) list" where
  "bucket_new labels = map (\<lambda>l. (l, 0)) labels"

fun bucket_add :: "(string \<times> nat) list \<Rightarrow> string \<Rightarrow> (string \<times> nat) list" where
  "bucket_add [] label = []"
| "bucket_add ((l, c) # bs) label = (if l = label then (l, c + 1) # bs else (l, c) # bucket_add bs label)"

definition bucket_into_vec :: "(string \<times> nat) list \<Rightarrow> bucket_count list" where
  "bucket_into_vec bs = map (\<lambda>(l, c). \<lparr>bc_bucket_label = l, bc_count = c\<rparr>) bs"

definition tool_bucket :: "nat \<Rightarrow> string" where
  "tool_bucket tc =
     (if tc = 0 then ''0'' else if tc = 1 then ''1'' else if tc \<le> 5 then ''2-5'' else if tc \<le> 10 then ''6-10''
      else if tc \<le> 20 then ''11-20'' else ''20+'')"

definition msg_bucket :: "nat \<Rightarrow> string" where
  "msg_bucket mc =
     (if mc \<le> 10 then ''0-10'' else if mc \<le> 50 then ''11-50'' else if mc \<le> 100 then ''51-100'' else ''100+'')"

definition tool_labels :: "string list" where
  "tool_labels = [''0'', ''1'', ''2-5'', ''6-10'', ''11-20'', ''20+'']"

definition msg_labels :: "string list" where
  "msg_labels = [''0-10'', ''11-50'', ''51-100'', ''100+'']"

definition top_n :: "map_order \<Rightarrow> (string, nat) hmap \<Rightarrow> nat \<Rightarrow> named_count list" where
  "top_n order m n =
     take n (sort_key (\<lambda>b. - int (nc_count b)) (map (\<lambda>(k, c). \<lparr>nc_name = k, nc_count = c\<rparr>) (order m)))"

definition rate_of :: "nat \<Rightarrow> nat \<Rightarrow> f64" where
  "rate_of n n_total = (if n_total = 0 then 0 else f64_div (f64_of_nat n) (f64_of_nat n_total))"

definition present_count :: "(cursor_components \<Rightarrow> component_fingerprint) \<Rightarrow> composition_entry list \<Rightarrow> nat" where
  "present_count sel entries = length (filter (\<lambda>(comp, _). cf_present (sel (rq_components comp))) entries)"

definition component_rate_of ::
    "string \<Rightarrow> (cursor_components \<Rightarrow> component_fingerprint) \<Rightarrow> composition_entry list \<Rightarrow> component_rate" where
  "component_rate_of name sel entries =
     (let n = present_count sel entries
      in \<lparr>cr_component = name, cr_present_count = n, cr_rate = rate_of n (length entries)\<rparr>)"

definition default_summary :: composition_summary where
  "default_summary =
     \<lparr>cs_total_entries = 0, cs_tenant_count = 0, cs_consumer_count = 0, cs_model_distribution = [],
      cs_project_distribution = [], cs_consumer_distribution = [], cs_tool_count_histogram = [],
      cs_message_count_histogram = [], cs_component_rates = [], cs_avg_latency_ms = 0, cs_avg_total_tokens = 0\<rparr>"

definition aggregate_composition :: "map_order \<Rightarrow> composition_entry list \<Rightarrow> composition_summary" where
  \<comment> \<open>the token sum is a u64; a log never reaches it\<close>
  "aggregate_composition order entries =
     (if entries = [] then default_summary
      else
        (let comps = map fst entries;
             n_total = length entries;
             models = foldl bump [] (map rq_client_model comps);
             projects = foldl bump [] (List.map_filter rq_project_id comps);
             consumers = foldl bump [] (map rq_consumer comps)
         in \<lparr>cs_total_entries = n_total, cs_tenant_count = length projects, cs_consumer_count = length consumers,
             cs_model_distribution = top_n order models 10,
             cs_project_distribution = top_n order projects 10,
             cs_consumer_distribution = top_n order consumers 10,
             cs_tool_count_histogram =
               bucket_into_vec (foldl bucket_add (bucket_new tool_labels) (map (tool_bucket \<circ> rq_tool_count) comps)),
             cs_message_count_histogram =
               bucket_into_vec (foldl bucket_add (bucket_new msg_labels) (map (msg_bucket \<circ> rq_message_count) comps)),
             cs_component_rates =
               [component_rate_of ''rules'' cc_rules entries, component_rate_of ''skills'' cc_skills entries,
                component_rate_of ''mcp'' cc_mcp entries, component_rate_of ''subagent'' cc_subagent entries],
             cs_avg_latency_ms = f64_div (foldl f64_add 0 (map (fst \<circ> snd) entries)) (f64_of_nat n_total),
             cs_avg_total_tokens = (sum_list (map (snd \<circ> snd) entries) mod 2 ^ 64) div n_total\<rparr>))"

section \<open>Laws\<close>

lemma foldl_bucket_add:
  "distinct (map fst bs) \<Longrightarrow>
   foldl bucket_add bs ls = map (\<lambda>(l, c). (l, c + count_list ls l)) bs"
proof (induction ls arbitrary: bs)
  case (Cons x ls)
  have add: "bucket_add bs x = map (\<lambda>(l, c). (l, if l = x then c + 1 else c)) bs" if "distinct (map fst bs)" for bs
    using that
  proof (induction bs)
    case (Cons b bs)
    then show ?case by (cases b) (force intro!: map_idI [symmetric])
  qed simp
  have "distinct (map fst (bucket_add bs x))"
    using Cons.prems by (simp add: add comp_def case_prod_unfold)
  then show ?case using Cons by (auto simp: add)
qed (simp add: case_prod_unfold)

lemma sum_count_list:
  assumes "distinct ls" and "set xs \<subseteq> set ls"
  shows "sum_list (map (count_list xs) ls) = length xs"
  using assms(2)
proof (induction xs)
  case (Cons x xs)
  have "sum_list (map (count_list (x # xs)) ls) = sum_list (map (\<lambda>l. (if l = x then 1 else 0) + count_list xs l) ls)"
    by (rule arg_cong [where f = sum_list], rule map_cong) auto
  also have "\<dots> = sum_list (map (\<lambda>l. if l = x then 1 else 0) ls) + length xs"
    using Cons by (simp add: sum_list_addf)
  also have "sum_list (map (\<lambda>l. if l = x then 1 else (0 :: nat)) ls) = 1"
    using assms(1) Cons.prems sum_list_distinct_conv_sum_set [OF assms(1), of "\<lambda>l. if l = x then 1 else (0 :: nat)"]
    by (simp add: sum.delta)
  finally show ?case by simp
qed simp

lemma histogram_total:
  assumes "distinct labels" and "set ls \<subseteq> set labels"
  shows "sum_list (map bc_count (bucket_into_vec (foldl bucket_add (bucket_new labels) ls))) = length ls"
proof -
  have "foldl bucket_add (bucket_new labels) ls = map (\<lambda>l. (l, count_list ls l)) labels"
    using assms(1) by (subst foldl_bucket_add) (simp_all add: bucket_new_def comp_def)
  then show ?thesis using sum_count_list [OF assms] by (simp add: bucket_into_vec_def comp_def)
qed

text \<open>
  Every request falls into exactly one bucket of each histogram: the counts of both add up to the
  number of entries.
\<close>
theorem histograms_count_every_request:
  "sum_list (map bc_count (cs_tool_count_histogram (aggregate_composition order entries))) = length entries \<and>
   sum_list (map bc_count (cs_message_count_histogram (aggregate_composition order entries))) = length entries"
proof -
  let ?t = "map (tool_bucket \<circ> rq_tool_count) (map fst entries)"
  let ?m = "map (msg_bucket \<circ> rq_message_count) (map fst entries)"
  have "set ?t \<subseteq> set tool_labels" by (auto simp: tool_bucket_def tool_labels_def)
  then have t: "sum_list (map bc_count (bucket_into_vec (foldl bucket_add (bucket_new tool_labels) ?t))) = length ?t"
    by (rule histogram_total [rotated]) (simp add: tool_labels_def)
  have "set ?m \<subseteq> set msg_labels" by (auto simp: msg_bucket_def msg_labels_def)
  then have m: "sum_list (map bc_count (bucket_into_vec (foldl bucket_add (bucket_new msg_labels) ?m))) = length ?m"
    by (rule histogram_total [rotated]) (simp add: msg_labels_def)
  show ?thesis using t m by (simp add: aggregate_composition_def default_summary_def Let_def)
qed

text \<open>The fingerprint of the tools does not depend on the order in which a client lists them.\<close>
theorem tool_names_hash_unordered:
  assumes "mset tools = mset tools'"
  shows "tool_names_hash sha tools = tool_names_hash sha tools'"
proof -
  have fn: "function_names ts = map (the \<circ> f) (filter (\<lambda>t. f t \<noteq> None) ts)"
    if "f = (\<lambda>t. Option.bind (json_get t ''function'') (\<lambda>f. json_get_str f ''name''))" for f ts
    by (simp add: function_names_def List.map_filter_def that)
  have "mset (function_names tools) = mset (function_names tools')"
    using assms by (simp add: fn [OF refl] mset_filter)
  then have "sort (function_names tools) = sort (function_names tools')"
    by (metis properties_for_sort mset_sort sorted_sort)
  then show ?thesis by (simp add: tool_names_hash_def)
qed

theorem tool_names_hash_unordered_witness:
  "tool_names_hash id [JNull, JObj [(''function'', JObj [(''name'', JStr ''a'')])]] =
   tool_names_hash id [JObj [(''function'', JObj [(''name'', JStr ''a'')])], JNull]"
  by (rule tool_names_hash_unordered) simp

lemma boundary_from_ok: "is_char_boundary s (boundary_from s b)"
  by (induction b) (simp_all add: is_char_boundary_def)

lemma boundary_from_le: "boundary_from s b \<le> b"
  by (induction b) (simp_all add: le_SucI)

text \<open>The truncation of a logged text never cuts a character and keeps at most the limit.\<close>
theorem truncation_on_boundary:
  "is_char_boundary s (find_char_boundary s n) \<and> find_char_boundary s n \<le> n \<or> length s \<le> n"
  by (auto simp: find_char_boundary_def boundary_from_ok boundary_from_le)

text \<open>The pattern of the launched sub-agents is compared literally: a launched agent is not detected.\<close>
theorem launch_pattern_is_literal:
  "\<not> cf_present (cc_subagent (detect_cursor_components sha [''Launch a new agent for each task'']))"
  by (simp add: detect_cursor_components_def detect_component_def SUBAGENT_PATTERNS_def Let_def)

text \<open>
  A detected component is fingerprinted with the whole system text: two requests with the same
  rules and different surroundings get different fingerprints whenever the hash tells the texts
  apart.
\<close>
theorem component_fingerprint_covers_all:
  "cf_present (detect_component sha s ps) \<longleftrightarrow> cf_fingerprint (detect_component sha s ps) = Some (fingerprint_bytes sha s)"
  by (simp add: detect_component_def Let_def)

end
