(* ===== verification/MessageNormalize.thy ===== *)
theory MessageNormalize
  imports CodexTools CodexRequest
begin

text \<open>
  Normalisation of the messages of a request and repair of the reasoning they lost
  (\<^verbatim>\<open>src/crates/crab-reasoning/src/normalize.rs\<close>, up to the recovery strategies). Regular
  expressions, SHA-256 and the printing and reading of JSON are not part of the repository; a
  record \<open>norm_env\<close> collects them and is an argument of the definitions that use one.
\<close>

section \<open>Environment and tables\<close>

record norm_env =
  ne_sha :: "string \<Rightarrow> string"            \<comment> \<open>SHA-256 in hexadecimal\<close>
  ne_ser :: "json \<Rightarrow> string"              \<comment> \<open>\<open>serde_json::to_string\<close>\<close>
  ne_read :: "string \<Rightarrow> json option"      \<comment> \<open>\<open>Value::deserialize\<close>: the first value of a text\<close>
  ne_think :: "string \<Rightarrow> string"          \<comment> \<open>\<open>CURSOR_THINKING_BLOCK_RE.replace_all(s, "")\<close>\<close>

type_synonym store_get = "(string \<Rightarrow> string option) option"
  \<comment> \<open>\<open>Option<&ReasoningBackend>\<close>, of which only \<open>get\<close> is used\<close>

definition SUPPORTED_REQUEST_FIELDS :: "string list" where
  "SUPPORTED_REQUEST_FIELDS =
     [''model'', ''messages'', ''stream'', ''stream_options'', ''max_tokens'', ''response_format'',
      ''stop'', ''tools'', ''tool_choice'', ''thinking'', ''reasoning_effort'', ''temperature'',
      ''top_p'', ''presence_penalty'', ''frequency_penalty'', ''logprobs'', ''top_logprobs'', ''user'',
      ''seed'', ''n'', ''logit_bias'', ''user_id'']"

definition MESSAGE_FIELDS :: "string list" where
  "MESSAGE_FIELDS =
     [''role'', ''content'', ''name'', ''tool_call_id'', ''tool_calls'', ''reasoning_content'', ''prefix'']"

definition ROLE_MESSAGE_FIELDS :: "(string \<times> string list) list" where
  "ROLE_MESSAGE_FIELDS =
     [(''system'', [''role'', ''content'', ''name'']),
      (''user'', [''role'', ''content'', ''name'']),
      (''assistant'', [''role'', ''content'', ''name'', ''tool_calls'', ''reasoning_content'', ''prefix'']),
      (''tool'', [''role'', ''content'', ''tool_call_id''])]"

definition EFFORT_ALIASES :: "(string \<times> string) list" where
  "EFFORT_ALIASES =
     [(''low'', ''high''), (''medium'', ''high''), (''high'', ''high''), (''max'', ''max''), (''xhigh'', ''max'')]"

definition RECOVERY_NOTICE_TEXT :: string where
  "RECOVERY_NOTICE_TEXT = ''[crabcache] Refreshed reasoning_content history.''"

definition RECOVERY_NOTICE_CONTENT :: string where
  "RECOVERY_NOTICE_CONTENT = ''[crabcache] Refreshed reasoning_content history.'' @ nl @ nl"

definition LEGACY_RECOVERY_NOTICE_TEXT :: string where
  "LEGACY_RECOVERY_NOTICE_TEXT = ''[deepseek-cursor-proxy] Refreshed reasoning_content history.''"

definition RECOVERY_SYSTEM_CONTENT :: string where
  "RECOVERY_SYSTEM_CONTENT =
     ''CrabCache recovered this request because older DeepSeek thinking-mode tool-call reasoning_content was unavailable. Older unrecoverable tool-call history was omitted; continue using only the remaining recovered context.''"

definition content_starts_with_recovery_notice :: "string \<Rightarrow> bool" where
  "content_starts_with_recovery_notice content \<longleftrightarrow>
     starts_with content RECOVERY_NOTICE_TEXT \<or> starts_with content LEGACY_RECOVERY_NOTICE_TEXT"

definition recovery_notice_strip_prefix_len :: "string \<Rightarrow> nat option" where
  "recovery_notice_strip_prefix_len content =
     (if starts_with content RECOVERY_NOTICE_TEXT then Some (length RECOVERY_NOTICE_TEXT)
      else if starts_with content LEGACY_RECOVERY_NOTICE_TEXT then Some (length LEGACY_RECOVERY_NOTICE_TEXT)
      else None)"

definition get_role_fields :: "string \<Rightarrow> string list" where
  "get_role_fields role =
     (case map_of ROLE_MESSAGE_FIELDS role of Some fs \<Rightarrow> fs | None \<Rightarrow> MESSAGE_FIELDS)"

definition normalize_reasoning_effort :: "string \<Rightarrow> string" where
  "normalize_reasoning_effort v =
     (case map_of EFFORT_ALIASES (to_lowercase (trim v)) of Some t \<Rightarrow> t | None \<Rightarrow> ''high'')"

section \<open>Content and tool calls\<close>

fun content_parts :: "(json \<Rightarrow> string) \<Rightarrow> json \<Rightarrow> string list" where
  \<comment> \<open>what an element of a content array pushes to \<open>parts\<close>\<close>
  "content_parts ser (JStr s) = [s]"
| "content_parts ser (JObj kvs) =
     (let obj = JObj kvs;
          item_type = str_or_empty obj ''type'';
          t = (case text_or_content obj of Some s \<Rightarrow> s | None \<Rightarrow> [])
      in if item_type = ''text'' \<or> item_type = ''input_text'' \<or> t \<noteq> [] then [t] else [])"
| "content_parts ser other = [ser other]"

fun extract_text_content :: "(json \<Rightarrow> string) \<Rightarrow> json \<Rightarrow> string option" where
  "extract_text_content ser JNull = None"
| "extract_text_content ser (JStr s) = Some s"
| "extract_text_content ser (JArr items) =
     (let joined = join nl (filter (\<lambda>p. p \<noteq> []) (concat (map (content_parts ser) items)))
      in if joined = [] then None else Some joined)"
| "extract_text_content ser other = Some (ser other)"

definition trim_line_breaks :: "string \<Rightarrow> string" where
  \<comment> \<open>\<open>trim_start_matches(['\r', '\n'])\<close>\<close>
  "trim_line_breaks s = dropWhile (\<lambda>c. c = CHR 0x0D \<or> c = CHR 0x0A) s"

definition strip_cursor_thinking_blocks :: "norm_env \<Rightarrow> string \<Rightarrow> string" where
  "strip_cursor_thinking_blocks E content = trim_line_breaks (ne_think E content)"

definition empty_value :: "json \<Rightarrow> bool" where
  "empty_value v \<longleftrightarrow> as_str v = Some [] \<or> as_array v = Some []"

fun drop_empty_fields :: "json \<Rightarrow> json" where
  "drop_empty_fields (JObj kvs) = JObj (filter (\<lambda>(k, v). \<not> empty_value v) kvs)"
| "drop_empty_fields v = v"

definition repair_tool_arguments_json :: "norm_env \<Rightarrow> string \<Rightarrow> string" where
  "repair_tool_arguments_json E raw =
     (if trim raw = [] then ''{}''
      else case ne_read E (trim raw) of
             Some v \<Rightarrow> ne_ser E (drop_empty_fields v)
           | None \<Rightarrow> ''{}'')"

definition object_or_empty :: "json \<Rightarrow> json" where
  \<comment> \<open>\<open>v.as_object().cloned().unwrap_or_default()\<close>\<close>
  "object_or_empty v = (if is_object v then v else JObj [])"

definition normalize_function :: "norm_env \<Rightarrow> json \<Rightarrow> json" where
  "normalize_function E func =
     JObj [(''arguments'', JStr (case json_get func ''arguments'' of
              Some a \<Rightarrow> repair_tool_arguments_json E (case as_str a of Some s \<Rightarrow> s | None \<Rightarrow> ne_ser E a)
            | None \<Rightarrow> ''{}'')),
           (''name'', JStr (str_or_empty func ''name''))]"

definition normalize_tool_call :: "norm_env \<Rightarrow> json \<Rightarrow> json" where
  "normalize_tool_call E tool_call =
     (let tc = object_or_empty tool_call;
          func_obj = (case json_get tc ''function'' of
                        Some f \<Rightarrow> if is_object f then normalize_function E f else empty_function
                      | None \<Rightarrow> empty_function);
          i = str_or_empty tc ''id''
      in JObj ([(''function'', func_obj)] @ (if i \<noteq> [] then [(''id'', JStr i)] else []) @
               [(''type'', get_or tc ''type'' (JStr ''function''))]))"

definition call_arguments :: "json \<Rightarrow> string" where
  \<comment> \<open>\<open>tc.pointer("/function/arguments").and_then(|a| a.as_str()).unwrap_or("")\<close>\<close>
  "call_arguments tc =
     (case Option.bind (json_pointer tc [''function'', ''arguments'']) as_str of Some s \<Rightarrow> s | None \<Rightarrow> [])"

definition sanitize_mimo_tool_calls :: "norm_env \<Rightarrow> json \<Rightarrow> json \<times> nat" where
  \<comment> \<open>one message, with the number of its calls that were repaired\<close>
  "sanitize_mimo_tool_calls E msg =
     (case tool_calls_of msg of
        None \<Rightarrow> (msg, 0)
      | Some tcs \<Rightarrow>
          (json_insert msg ''tool_calls'' (JArr (map (normalize_tool_call E) tcs)),
           length (filter (\<lambda>tc. call_arguments tc \<noteq> call_arguments (normalize_tool_call E tc)) tcs)))"

definition sanitize_mimo_tool_calls_in_messages :: "norm_env \<Rightarrow> json list \<Rightarrow> json list \<times> nat" where
  "sanitize_mimo_tool_calls_in_messages E messages =
     (let rs = map (sanitize_mimo_tool_calls E) messages in (map fst rs, sum_list (map snd rs)))"

definition sanitize_mimo_message_content :: "(json \<Rightarrow> string) \<Rightarrow> json \<Rightarrow> json \<times> nat" where
  "sanitize_mimo_message_content ser msg =
     (if \<not> is_object msg then (msg, 0)
      else case json_get msg ''content'' of
             Some (JStr _) \<Rightarrow> (msg, 0)
           | Some JNull \<Rightarrow> (json_insert msg ''content'' (JStr []), 1)
           | None \<Rightarrow> (json_insert msg ''content'' (JStr []), 1)
           | Some other \<Rightarrow>
               (json_insert msg ''content''
                  (JStr (case extract_text_content ser other of Some s \<Rightarrow> s | None \<Rightarrow> [])), 1))"

definition sanitize_mimo_message_content_in_messages ::
    "(json \<Rightarrow> string) \<Rightarrow> json list \<Rightarrow> json list \<times> nat" where
  "sanitize_mimo_message_content_in_messages ser messages =
     (let rs = map (sanitize_mimo_message_content ser) messages in (map fst rs, sum_list (map snd rs)))"

section \<open>Tools and tool choice\<close>

definition normalize_tool :: "json \<Rightarrow> json" where
  "normalize_tool tool =
     (let t = object_or_empty tool in json_insert t ''type'' (get_or t ''type'' (JStr ''function'')))"

definition legacy_function_to_tool :: "json \<Rightarrow> json" where
  "legacy_function_to_tool f =
     JObj [(''function'', object_or_empty f), (''type'', JStr ''function'')]"

definition plain_choice :: "string \<Rightarrow> bool" where
  "plain_choice s \<longleftrightarrow> s = ''auto'' \<or> s = ''none'' \<or> s = ''required''"

definition named_choice :: "json \<Rightarrow> json" where
  "named_choice name = JObj [(''function'', JObj [(''name'', name)]), (''type'', JStr ''function'')]"

fun normalize_tool_choice :: "json \<Rightarrow> json option" where
  "normalize_tool_choice (JStr s) = (if plain_choice s then Some (JStr s) else None)"
| "normalize_tool_choice (JObj kvs) =
     (let obj = JObj kvs in
      case Option.bind (json_get obj ''function'') (\<lambda>f. json_get f ''name'') of
        Some name \<Rightarrow> if json_get_str obj ''type'' = Some ''function'' then Some (named_choice name) else Some obj
      | None \<Rightarrow> Some obj)"
| "normalize_tool_choice _ = None"

definition normalize_tool_choice_for_deepseek :: "json \<Rightarrow> json option" where
  "normalize_tool_choice_for_deepseek tool_choice =
     (if json_get_str tool_choice ''type'' = Some ''function'' then Some (JStr ''auto'')
      else normalize_tool_choice tool_choice)"

fun convert_function_call :: "json \<Rightarrow> json option" where
  "convert_function_call (JStr s) = (if plain_choice s then Some (JStr s) else None)"
| "convert_function_call (JObj kvs) = map_option named_choice (json_get (JObj kvs) ''name'')"
| "convert_function_call _ = None"

section \<open>Reasoning of one message\<close>

definition has_tool_calls :: "json \<Rightarrow> bool" where
  "has_tool_calls msg \<longleftrightarrow> (case tool_calls_of msg of Some tcs \<Rightarrow> tcs \<noteq> [] | None \<Rightarrow> False)"

fun tool_before_turn :: "json list \<Rightarrow> bool" where
  \<comment> \<open>the loop over the prior messages, latest first\<close>
  "tool_before_turn [] = False"
| "tool_before_turn (prior # rest) =
     (let role = str_or_empty prior ''role'' in
      if role = ''tool'' then True
      else if role = ''user'' \<or> role = ''system'' then False
      else tool_before_turn rest)"

definition assistant_needs_reasoning_for_tool_context :: "json \<Rightarrow> json list \<Rightarrow> bool" where
  "assistant_needs_reasoning_for_tool_context message prior \<longleftrightarrow>
     has_tool_calls message \<or> tool_before_turn (rev prior)"

definition REASONING_PLACEHOLDER :: string where
  "REASONING_PLACEHOLDER = ''.''"

definition lookup_entry ::
    "(string \<times> json) list \<Rightarrow> string \<Rightarrow> string \<Rightarrow> bool \<Rightarrow> (string \<times> json) list \<Rightarrow> json" where
  "lookup_entry before key kind portable after =
     JObj (before @ [(''key'', JStr key), (''kind'', JStr kind), (''portable'', JBool portable)] @ after)"

definition call_name :: "json \<Rightarrow> string" where
  "call_name tc =
     (case Option.bind (json_get tc ''function'') (\<lambda>f. json_get_str f ''name'') of Some n \<Rightarrow> n | None \<Rightarrow> [])"

definition lookup_keys_under ::
    "norm_env \<Rightarrow> string \<Rightarrow> string \<Rightarrow> bool \<Rightarrow> (string \<times> json) list \<Rightarrow> json \<Rightarrow> json list" where
  \<comment> \<open>the four groups of keys below one prefix\<close>
  "lookup_keys_under E kind prefix portable after message =
     [lookup_entry [] (prefix @ ''signature:'' @ message_signature (ne_sha E) (ne_ser E) message)
        (kind @ ''message_signature'') portable after] @
     map (\<lambda>i. lookup_entry [] (prefix @ ''tool_call:'' @ i) (kind @ ''tool_call_id'') portable
                [(''tool_call_id'', JStr i)]) (tool_call_ids message) @
     map (\<lambda>tc. lookup_entry [(''function_name'', JStr (call_name tc))]
                (prefix @ ''tool_call_signature:'' @ tool_call_signature (ne_sha E) (ne_ser E) tc)
                (kind @ ''tool_call_signature'') portable []) (object_calls message) @
     map (\<lambda>n. lookup_entry [(''function_name'', JStr n)] (prefix @ ''tool_name:'' @ n)
                (kind @ ''tool_name'') portable []) (tool_call_names message)"

definition is_portable :: "json \<Rightarrow> bool" where
  "is_portable k \<longleftrightarrow> Option.bind (json_get k ''portable'') as_bool = Some True"

definition reasoning_lookup_keys ::
    "norm_env \<Rightarrow> json \<Rightarrow> string \<Rightarrow> string \<Rightarrow> json list \<Rightarrow> bool \<Rightarrow> json list" where
  "reasoning_lookup_keys E message scope cache_namespace prior prefer_portable_first =
     (let turn_sig = turn_context_signature (ne_sha E) (ne_ser E) prior;
          keys = lookup_keys_under E [] (''scope:'' @ scope @ '':'') False [] message @
                 (if cache_namespace \<noteq> [] \<and> prior \<noteq> []
                  then lookup_keys_under E ''portable_''
                         (''namespace:'' @ cache_namespace @ '':turn:'' @ turn_sig @ '':'') True
                         [(''turn_context_signature'', JStr turn_sig)] message
                  else [])
      in if prefer_portable_first then filter is_portable keys @ filter (\<lambda>k. \<not> is_portable k) keys
         else keys)"

fun restore_first :: "(string \<Rightarrow> string option) \<Rightarrow> json list \<Rightarrow> string option" where
  "restore_first get [] = None"
| "restore_first get (k # ks) =
     (case Option.bind (json_get_str k ''key'') get of Some r \<Rightarrow> Some r | None \<Rightarrow> restore_first get ks)"

definition try_restore_reasoning_from_store ::
    "norm_env \<Rightarrow> json \<Rightarrow> (string \<Rightarrow> string option) \<Rightarrow> json list \<Rightarrow> string option \<Rightarrow> string \<Rightarrow> string option" where
  "try_restore_reasoning_from_store E msg get prior stable_session_id cache_namespace =
     restore_first get
       (reasoning_lookup_keys E msg
          (resolve_reasoning_scope (ne_sha E) (ne_ser E) stable_session_id prior cache_namespace)
          cache_namespace prior (non_blank stable_session_id \<noteq> None))"

definition reasoning_stand_in :: "json \<Rightarrow> string" where
  \<comment> \<open>the placeholder of a message whose reasoning is lost\<close>
  "reasoning_stand_in obj =
     (let content = str_or_empty obj ''content''
      in if has_tool_calls obj \<or> content = [] then REASONING_PLACEHOLDER else content)"

definition patch_missing_at ::
    "norm_env \<Rightarrow> store_get \<Rightarrow> string \<Rightarrow> string option \<Rightarrow> json list \<times> nat \<Rightarrow> nat \<Rightarrow> json list \<times> nat" where
  "patch_missing_at E store cache_namespace stable_session_id = (\<lambda>(messages, patched) idx.
     if idx < length messages \<and> is_object (messages ! idx)
     then (let msg = messages ! idx;
               restored = Option.bind store (\<lambda>get. try_restore_reasoning_from_store E msg get
                            (take idx messages) stable_session_id cache_namespace);
               reasoning = (case restored of Some r \<Rightarrow> r | None \<Rightarrow> reasoning_stand_in msg)
           in (messages[idx := json_insert msg ''reasoning_content'' (JStr reasoning)], patched + 1))
     else (messages, patched))"

definition patch_missing_reasoning_inplace ::
    "norm_env \<Rightarrow> json list \<Rightarrow> nat list \<Rightarrow> store_get \<Rightarrow> string \<Rightarrow> string option \<Rightarrow> json list \<times> nat" where
  "patch_missing_reasoning_inplace E messages missing_indexes store cache_namespace stable_session_id =
     foldl (patch_missing_at E store cache_namespace stable_session_id) (messages, 0) missing_indexes"

section \<open>Normalisation of the messages\<close>

fun json_retain :: "(string \<Rightarrow> bool) \<Rightarrow> json \<Rightarrow> json" where
  "json_retain P (JObj kvs) = JObj (filter (\<lambda>(k, v). P k) kvs)"
| "json_retain P v = v"

record normalize_result =
  nr_message :: json
  nr_patched :: bool
  nr_missing :: bool

definition upstream_role :: "string \<Rightarrow> string" where
  "upstream_role role =
     (if role = ''function'' then ''tool'' else if role = ''developer'' then ''system'' else role)"

definition message_role_or_user :: "json \<Rightarrow> string" where
  "message_role_or_user msg = (case json_get_str msg ''role'' of Some r \<Rightarrow> r | None \<Rightarrow> ''user'')"

definition normalize_role :: "json \<Rightarrow> json" where
  "normalize_role msg =
     (let role = message_role_or_user msg;
          msg = json_insert msg ''role'' (JStr role)
      in if upstream_role role \<noteq> role then json_insert msg ''role'' (JStr (upstream_role role)) else msg)"

definition content_to_text :: "norm_env \<Rightarrow> string \<Rightarrow> json \<Rightarrow> json" where
  "content_to_text E role msg =
     (case json_get msg ''content'' of
        Some content \<Rightarrow>
          json_insert msg ''content''
            (JStr (case extract_text_content (ne_ser E) content of Some s \<Rightarrow> s | None \<Rightarrow> []))
      | None \<Rightarrow>
          if role \<in> {''assistant'', ''tool'', ''system'', ''user''}
          then json_insert msg ''content'' (JStr []) else msg)"

definition strip_assistant_thinking :: "norm_env \<Rightarrow> string \<Rightarrow> json \<Rightarrow> json" where
  "strip_assistant_thinking E role msg =
     (case json_get_str msg ''content'' of
        Some content \<Rightarrow>
          if role = ''assistant''
          then json_insert msg ''content'' (JStr (strip_cursor_thinking_blocks E content)) else msg
      | None \<Rightarrow> msg)"

definition normalize_calls :: "norm_env \<Rightarrow> json \<Rightarrow> json" where
  "normalize_calls E msg =
     (case tool_calls_of msg of
        Some tcs \<Rightarrow> json_insert msg ''tool_calls'' (JArr (map (normalize_tool_call E) tcs))
      | None \<Rightarrow> msg)"

definition repair_message ::
    "norm_env \<Rightarrow> store_get \<Rightarrow> json list \<Rightarrow> string \<Rightarrow> string option \<Rightarrow> json \<Rightarrow> json \<times> bool \<times> bool" where
  \<comment> \<open>an assistant message that should carry its reasoning: the message, patched, missing\<close>
  "repair_message E store prior cache_namespace stable_session_id msg =
     (if json_get_str msg ''reasoning_content'' \<noteq> None then (msg, False, False)
      else
        (let msg = json_remove msg ''reasoning_content'' in
         if \<not> assistant_needs_reasoning_for_tool_context msg prior then (msg, False, False)
         else case Option.bind store (\<lambda>get. try_restore_reasoning_from_store E msg get prior
                     stable_session_id cache_namespace) of
                Some restored \<Rightarrow> (json_insert msg ''reasoning_content'' (JStr restored), True, False)
              | None \<Rightarrow> (msg, False, True)))"

definition assistant_reasoning ::
    "norm_env \<Rightarrow> store_get \<Rightarrow> json list \<Rightarrow> string \<Rightarrow> string option \<Rightarrow> bool \<Rightarrow> bool \<Rightarrow> string \<Rightarrow> json \<Rightarrow>
     json \<times> bool \<times> bool" where
  "assistant_reasoning E store prior cache_namespace session repair keep role msg =
     (if role = ''assistant''
      then if \<not> keep then (json_remove msg ''reasoning_content'', False, False)
           else if repair then repair_message E store prior cache_namespace session msg
           else (msg, False, False)
      else (msg, False, False))"

definition normalize_message ::
    "norm_env \<Rightarrow> json \<Rightarrow> store_get \<Rightarrow> json list \<Rightarrow> string \<Rightarrow> string option \<Rightarrow> bool \<Rightarrow> bool \<Rightarrow> normalize_result" where
  "normalize_message E message store prior cache_namespace stable_session_id repair_reasoning keep_reasoning =
     (let msg = json_retain (\<lambda>k. k \<in> set MESSAGE_FIELDS) (object_or_empty message);
          role = upstream_role (message_role_or_user msg);
          msg = normalize_calls E
                  (strip_assistant_thinking E role (content_to_text E role (normalize_role msg)));
          (msg, patched, missing) =
            assistant_reasoning E store prior cache_namespace stable_session_id repair_reasoning
              keep_reasoning role msg
      in \<lparr>nr_message = json_retain (\<lambda>k. k \<in> set (get_role_fields role)) msg,
          nr_patched = patched, nr_missing = missing\<rparr>)"

record normalize_messages_result =
  nm_messages :: "json list"
  nm_patched_count :: nat
  nm_missing_indexes :: "nat list"

definition normalize_next ::
    "norm_env \<Rightarrow> store_get \<Rightarrow> string \<Rightarrow> string option \<Rightarrow> bool \<Rightarrow> bool \<Rightarrow>
     normalize_messages_result \<Rightarrow> json \<Rightarrow> normalize_messages_result" where
  "normalize_next E store cache_namespace stable_session_id repair keep acc message =
     (let r = normalize_message E message store (nm_messages acc) cache_namespace stable_session_id repair keep
      in \<lparr>nm_messages = nm_messages acc @ [nr_message r],
          nm_patched_count = (if nr_patched r then nm_patched_count acc + 1 else nm_patched_count acc),
          nm_missing_indexes = (if nr_missing r then nm_missing_indexes acc @ [length (nm_messages acc)]
                                else nm_missing_indexes acc)\<rparr>)"

definition normalize_messages ::
    "norm_env \<Rightarrow> json list \<Rightarrow> store_get \<Rightarrow> string \<Rightarrow> string option \<Rightarrow> bool \<Rightarrow> bool \<Rightarrow> normalize_messages_result" where
  "normalize_messages E messages store cache_namespace stable_session_id repair keep =
     foldl (normalize_next E store cache_namespace stable_session_id repair keep)
       \<lparr>nm_messages = [], nm_patched_count = 0, nm_missing_indexes = []\<rparr> messages"

section \<open>Recovery\<close>

definition has_recovery_notice :: "json \<Rightarrow> bool" where
  "has_recovery_notice message \<longleftrightarrow>
     has_role ''assistant'' message \<and>
     (case json_get_str message ''content'' of Some c \<Rightarrow> content_starts_with_recovery_notice c | None \<Rightarrow> False)"

definition history_has_recovery_notice :: "json list \<Rightarrow> bool" where
  "history_has_recovery_notice messages \<longleftrightarrow> list_ex has_recovery_notice messages"

definition should_attach_recovery_notice :: "json list \<Rightarrow> bool" where
  "should_attach_recovery_notice messages \<longleftrightarrow> \<not> history_has_recovery_notice messages"

definition strip_notice :: "json \<Rightarrow> json" where
  "strip_notice msg =
     (if \<not> has_role ''assistant'' msg then msg
      else (let content = str_or_empty msg ''content'' in
            case recovery_notice_strip_prefix_len content of
              None \<Rightarrow> msg
            | Some n \<Rightarrow> json_insert msg ''content'' (JStr (trim_line_breaks (drop n content)))))"

definition strip_recovery_notice_for_upstream :: "json list \<Rightarrow> json list" where
  "strip_recovery_notice_for_upstream messages = map strip_notice messages"

definition leading_system_messages :: "json list \<Rightarrow> json list" where
  "leading_system_messages messages = takeWhile (has_role ''system'') messages"

definition recovery_system_message :: json where
  "recovery_system_message = JObj [(''content'', JStr RECOVERY_SYSTEM_CONTENT), (''role'', JStr ''system'')]"

definition from_boundary :: "json list \<Rightarrow> nat \<Rightarrow> json list \<times> nat option \<times> nat" where
  \<comment> \<open>the history kept around a boundary, the user message kept before it, and how many went\<close>
  "from_boundary messages i =
     (let context_user_index = last_index (has_role ''user'') (take i messages);
          leading = leading_system_messages messages;
          recovered_tail = (case context_user_index of Some u \<Rightarrow> [messages ! u] | None \<Rightarrow> []) @ drop i messages;
          kept_context = (if context_user_index \<noteq> None then 1 else 0)
      in (leading @ [recovery_system_message] @ recovered_tail, context_user_index,
          i - (length leading + kept_context)))"

definition json_nat :: "nat \<Rightarrow> json" where
  "json_nat n = JInt (int n)"

definition json_indexes :: "nat list \<Rightarrow> json" where
  "json_indexes is = JArr (map json_nat is)"

definition active_messages_from_recovery_boundary :: "json list \<Rightarrow> (json list \<times> nat \<times> json) option" where
  "active_messages_from_recovery_boundary messages =
     (case last_index has_recovery_notice messages of
        None \<Rightarrow> None
      | Some i \<Rightarrow>
          (case from_boundary messages i of (active, user, retired) \<Rightarrow>
             Some (active, retired,
               JObj [(''context_user_index'', (case user of Some u \<Rightarrow> json_nat u | None \<Rightarrow> JNull)),
                     (''recovery_boundary_index'', json_nat i),
                     (''retired_prefix_messages'', json_nat retired),
                     (''strategy'', JStr ''continued_recovery_boundary'')])))"

definition recover_messages_from_missing_reasoning ::
    "json list \<Rightarrow> nat list \<Rightarrow> json list \<times> nat \<times> string option \<times> json" where
  "recover_messages_from_missing_reasoning messages missing_indexes =
     (case last_index (\<lambda>m. has_recovery_notice m \<and>
             list_ex (\<lambda>idx. idx < length messages \<and> \<not> has_recovery_notice (messages ! idx)) missing_indexes)
             messages of
        Some rbi \<Rightarrow>
          (case from_boundary messages rbi of (recovered, _, omitted) \<Rightarrow>
             (recovered, omitted, None,
              JObj [(''dropped_messages'', json_nat omitted),
                    (''missing_indexes'', json_indexes missing_indexes),
                    (''recovery_boundary_index'', json_nat rbi),
                    (''strategy'', JStr ''recovery_boundary'')]))
      | None \<Rightarrow>
          (case last_index (has_role ''user'') messages of
             Some lui \<Rightarrow>
               (let leading = leading_system_messages messages;
                    omitted = length messages - length leading - 1
                in (leading @ [recovery_system_message] @ [messages ! lui], omitted,
                    (if should_attach_recovery_notice messages then Some RECOVERY_NOTICE_CONTENT else None),
                    JObj [(''dropped_messages'', json_nat omitted),
                          (''last_user_index'', json_nat lui),
                          (''missing_indexes'', json_indexes missing_indexes),
                          (''strategy'', JStr ''latest_user'')]))
           | None \<Rightarrow>
               (messages, 0, None,
                JObj [(''missing_indexes'', json_indexes missing_indexes), (''strategy'', JStr ''none'')])))"

definition force_latest_user_recover :: "json list \<Rightarrow> (json list \<times> nat \<times> string option) option" where
  "force_latest_user_recover messages =
     (case last_index (has_role ''user'') messages of
        None \<Rightarrow> None
      | Some lui \<Rightarrow>
          (let leading = leading_system_messages messages
           in Some (leading @ [recovery_system_message] @ [messages ! lui],
                    length messages - (length leading + 1),
                    if should_attach_recovery_notice messages then Some RECOVERY_NOTICE_CONTENT else None)))"

section \<open>Fields of a normalised message\<close>

named_theorems norm_get \<open>what the steps of the normalisation leave under a key\<close>

lemma json_get_retain [norm_get]: "json_get (json_retain P v) k = (if P k then json_get v k else None)"
proof (cases v)
  case (JObj kvs)
  have "map_of (filter (\<lambda>(k, v). P k) kvs) k = (if P k then map_of kvs k else None)"
    by (induction kvs) auto
  then show ?thesis using JObj by simp
qed simp_all

lemma is_object_retain [simp]: "is_object (json_retain P v) = is_object v"
  by (cases v) (simp_all add: is_object_def)

lemma is_object_or_empty [simp]: "is_object (object_or_empty v)"
  by (simp add: object_or_empty_def is_object_def)

lemma json_get_or_empty [norm_get]: "json_get (object_or_empty v) k = json_get v k"
  by (cases v) (simp_all add: object_or_empty_def is_object_def)

lemma json_get_put [norm_get]:
  "json_get (json_insert v k w) l = (if l = k \<and> is_object v then Some w else json_get v l)"
  by (simp add: json_get_insert is_object_def)

lemma json_get_drop [norm_get]: "json_get (json_remove v k) l = (if l = k then None else json_get v l)"
  by (rule json_get_remove)

lemma is_object_steps [simp]:
  "is_object (normalize_role m) = is_object m"
  "is_object (content_to_text E role m) = is_object m"
  "is_object (strip_assistant_thinking E role m) = is_object m"
  "is_object (normalize_calls E m) = is_object m"
  by (simp_all add: normalize_role_def content_to_text_def strip_assistant_thinking_def
      normalize_calls_def Let_def split: option.split)

lemma json_get_normalize_role [norm_get]:
  "is_object m \<Longrightarrow> json_get (normalize_role m) k =
     (if k = ''role'' then Some (JStr (upstream_role (message_role_or_user m))) else json_get m k)"
  by (auto simp: normalize_role_def Let_def norm_get)

lemma json_get_content_to_text [norm_get]:
  "k \<noteq> ''content'' \<Longrightarrow> json_get (content_to_text E role m) k = json_get m k"
  by (simp add: content_to_text_def norm_get split: option.split)

lemma json_get_strip_thinking [norm_get]:
  "k \<noteq> ''content'' \<Longrightarrow> json_get (strip_assistant_thinking E role m) k = json_get m k"
  by (simp add: strip_assistant_thinking_def norm_get split: option.split)

lemma json_get_normalize_calls [norm_get]:
  "k \<noteq> ''tool_calls'' \<Longrightarrow> json_get (normalize_calls E m) k = json_get m k"
  by (simp add: normalize_calls_def norm_get split: option.split)

lemma tool_calls_normalize_calls:
  "is_object m \<Longrightarrow> tool_calls_of (normalize_calls E m) =
     map_option (map (normalize_tool_call E)) (tool_calls_of m)"
  by (simp add: normalize_calls_def tool_calls_of_def norm_get split: option.split)

lemma has_tool_calls_iff: "has_tool_calls m \<longleftrightarrow> (\<exists>tcs. tool_calls_of m = Some tcs \<and> tcs \<noteq> [])"
  by (simp add: has_tool_calls_def split: option.split)

definition normalized_body :: "norm_env \<Rightarrow> json \<Rightarrow> json" where
  \<comment> \<open>the message before its reasoning is looked at\<close>
  "normalized_body E message =
     (let msg = json_retain (\<lambda>k. k \<in> set MESSAGE_FIELDS) (object_or_empty message);
          role = upstream_role (message_role_or_user message)
      in normalize_calls E (strip_assistant_thinking E role (content_to_text E role (normalize_role msg))))"

lemma message_role_retained:
  "message_role_or_user (json_retain (\<lambda>k. k \<in> set MESSAGE_FIELDS) (object_or_empty message)) =
   message_role_or_user message"
  by (simp add: message_role_or_user_def json_get_str_def norm_get MESSAGE_FIELDS_def)

lemma normalized_body_object [simp]: "is_object (normalized_body E message)"
  by (simp add: normalized_body_def Let_def)

lemma normalized_body_role:
  "json_get (normalized_body E message) ''role'' = Some (JStr (upstream_role (message_role_or_user message)))"
  by (simp add: normalized_body_def Let_def norm_get message_role_retained)

lemma normalized_body_reasoning:
  "json_get (normalized_body E message) ''reasoning_content'' = json_get message ''reasoning_content''"
  by (simp add: normalized_body_def Let_def norm_get MESSAGE_FIELDS_def)

lemma normalized_body_calls:
  "tool_calls_of (normalized_body E message) =
     map_option (map (normalize_tool_call E)) (tool_calls_of message)"
  by (simp add: normalized_body_def Let_def tool_calls_normalize_calls)
     (simp add: tool_calls_of_def norm_get MESSAGE_FIELDS_def)

lemma normalized_body_content:
  "upstream_role (message_role_or_user message) \<in> {''assistant'', ''tool'', ''system'', ''user''} \<Longrightarrow>
   \<exists>c. json_get (normalized_body E message) ''content'' = Some (JStr c)"
  by (auto simp: normalized_body_def Let_def norm_get message_role_retained MESSAGE_FIELDS_def
      content_to_text_def strip_assistant_thinking_def json_get_str_def split: option.split)

lemma normalize_message_eq:
  "normalize_message E message store prior ns session repair keep =
     (case assistant_reasoning E store prior ns session repair keep
             (upstream_role (message_role_or_user message)) (normalized_body E message) of
        (msg, patched, missing) \<Rightarrow>
          \<lparr>nr_message = json_retain (\<lambda>k. k \<in> set (get_role_fields (upstream_role (message_role_or_user message)))) msg,
           nr_patched = patched, nr_missing = missing\<rparr>)"
  by (simp add: normalize_message_def normalized_body_def message_role_retained Let_def)

lemma assistant_reasoning_other [norm_get]:
  "k \<noteq> ''reasoning_content'' \<Longrightarrow>
   json_get (fst (assistant_reasoning E store prior ns session repair keep role msg)) k = json_get msg k"
  by (simp add: assistant_reasoning_def repair_message_def Let_def norm_get split: option.split)

lemma is_object_remove_field [simp]: "is_object (json_remove v k) = is_object v"
  by (cases v) (simp_all add: is_object_def)

lemma assistant_reasoning_object [simp]:
  "is_object (fst (assistant_reasoning E store prior ns session repair keep role msg)) = is_object msg"
  by (simp add: assistant_reasoning_def repair_message_def Let_def split: option.split)

lemma role_field: "k \<in> {''role'', ''content''} \<Longrightarrow> k \<in> set (get_role_fields r)"
  by (auto simp: get_role_fields_def ROLE_MESSAGE_FIELDS_def MESSAGE_FIELDS_def)

lemma nr_message_eq:
  "nr_message (normalize_message E message store prior ns session repair keep) =
     json_retain (\<lambda>k. k \<in> set (get_role_fields (upstream_role (message_role_or_user message))))
       (fst (assistant_reasoning E store prior ns session repair keep
               (upstream_role (message_role_or_user message)) (normalized_body E message)))"
  by (simp add: normalize_message_eq split: prod.split)

lemma normalized_role:
  "json_get_str (nr_message (normalize_message E message store prior ns session repair keep)) ''role'' =
     Some (upstream_role (message_role_or_user message))"
  by (simp add: nr_message_eq json_get_str_def norm_get role_field normalized_body_role)

lemma normalized_object [simp]:
  "is_object (nr_message (normalize_message E message store prior ns session repair keep))"
  by (simp add: nr_message_eq)

lemma normalized_calls:
  "tool_calls_of (nr_message (normalize_message E message store prior ns session repair keep)) =
     (if ''tool_calls'' \<in> set (get_role_fields (upstream_role (message_role_or_user message)))
      then map_option (map (normalize_tool_call E)) (tool_calls_of message) else None)"
  unfolding nr_message_eq tool_calls_of_def
  using normalized_body_calls [of E message]
  by (simp add: norm_get) (simp add: tool_calls_of_def)

section \<open>Which messages lack their reasoning\<close>

definition lacks_reasoning :: "json list \<Rightarrow> nat \<Rightarrow> bool" where
  "lacks_reasoning ms i \<longleftrightarrow>
     has_role ''assistant'' (ms ! i) \<and>
     assistant_needs_reasoning_for_tool_context (ms ! i) (take i ms) \<and>
     json_get_str (ms ! i) ''reasoning_content'' = None"

lemma needs_cong:
  "has_tool_calls m = has_tool_calls m' \<Longrightarrow>
   assistant_needs_reasoning_for_tool_context m prior = assistant_needs_reasoning_for_tool_context m' prior"
  by (simp add: assistant_needs_reasoning_for_tool_context_def)

lemma needs_remove [simp]:
  "assistant_needs_reasoning_for_tool_context (json_remove m ''reasoning_content'') prior =
   assistant_needs_reasoning_for_tool_context m prior"
  by (rule needs_cong) (simp add: has_tool_calls_iff tool_calls_of_def norm_get)

lemma assistant_fields: "''reasoning_content'' \<in> set (get_role_fields ''assistant'')"
  "''tool_calls'' \<in> set (get_role_fields ''assistant'')"
  by (simp_all add: get_role_fields_def ROLE_MESSAGE_FIELDS_def)

lemma normalized_has_calls:
  "has_tool_calls (nr_message (normalize_message E message store prior ns session repair keep)) \<longleftrightarrow>
     ''tool_calls'' \<in> set (get_role_fields (upstream_role (message_role_or_user message))) \<and> has_tool_calls message"
  by (auto simp: has_tool_calls_iff normalized_calls)

lemma body_has_calls: "has_tool_calls (normalized_body E message) = has_tool_calls message"
  by (auto simp: has_tool_calls_iff normalized_body_calls)

lemma normalized_reasoning:
  assumes "upstream_role (message_role_or_user message) = ''assistant''"
  shows "json_get_str (nr_message (normalize_message E message store prior ns session True True)) ''reasoning_content'' =
     (case json_get_str message ''reasoning_content'' of
        Some r \<Rightarrow> Some r
      | None \<Rightarrow>
          if assistant_needs_reasoning_for_tool_context message prior
          then Option.bind store (\<lambda>get. try_restore_reasoning_from_store E
                 (json_remove (normalized_body E message) ''reasoning_content'') get prior session ns)
          else None)"
  using assms needs_cong [OF body_has_calls, of E message prior]
  by (auto simp: nr_message_eq json_get_str_def norm_get assistant_fields assistant_reasoning_def
      repair_message_def Let_def normalized_body_reasoning split: option.splits)

lemma normalized_missing:
  "nr_missing (normalize_message E message store prior ns session True True) \<longleftrightarrow>
     upstream_role (message_role_or_user message) = ''assistant'' \<and>
     assistant_needs_reasoning_for_tool_context message prior \<and>
     json_get_str (nr_message (normalize_message E message store prior ns session True True)) ''reasoning_content'' = None"
proof (cases "upstream_role (message_role_or_user message) = ''assistant''")
  case True
  then show ?thesis
    using needs_cong [OF body_has_calls, of E message prior] normalized_reasoning [OF True, of E store prior ns session]
    by (auto simp: normalize_message_eq assistant_reasoning_def repair_message_def Let_def
        json_get_str_def normalized_body_reasoning split: option.splits)
next
  case False
  then show ?thesis by (simp add: normalize_message_eq assistant_reasoning_def split: prod.split)
qed

lemma normalized_missing_lacks:
  "nr_missing (normalize_message E message store prior ns session True True) \<longleftrightarrow>
   lacks_reasoning (prior @ [nr_message (normalize_message E message store prior ns session True True)]) (length prior)"
proof -
  let ?m = "nr_message (normalize_message E message store prior ns session True True)"
  have role: "has_role ''assistant'' ?m \<longleftrightarrow> upstream_role (message_role_or_user message) = ''assistant''"
    by (simp add: has_role_def normalized_role)
  have "assistant_needs_reasoning_for_tool_context ?m prior =
        assistant_needs_reasoning_for_tool_context message prior"
    if "upstream_role (message_role_or_user message) = ''assistant''"
    by (rule needs_cong) (simp add: normalized_has_calls that assistant_fields)
  then show ?thesis using role by (auto simp: lacks_reasoning_def normalized_missing)
qed

lemma normalize_messages_Nil [simp]:
  "normalize_messages E [] store ns session repair keep =
     \<lparr>nm_messages = [], nm_patched_count = 0, nm_missing_indexes = []\<rparr>"
  by (simp add: normalize_messages_def)

lemma normalize_messages_snoc:
  "normalize_messages E (ms @ [m]) store ns session repair keep =
     normalize_next E store ns session repair keep (normalize_messages E ms store ns session repair keep) m"
  by (simp add: normalize_messages_def)

lemma length_normalize_messages [simp]:
  "length (nm_messages (normalize_messages E ms store ns session repair keep)) = length ms"
  by (induction ms rule: rev_induct) (simp_all add: normalize_messages_snoc normalize_next_def Let_def)

lemma take_normalize_messages:
  "take i (nm_messages (normalize_messages E ms store ns session repair keep)) =
   nm_messages (normalize_messages E (take i ms) store ns session repair keep)"
proof (induction ms rule: rev_induct)
  case (snoc m ms)
  then show ?case
    by (cases "i \<le> length ms")
       (simp_all add: normalize_messages_snoc normalize_next_def Let_def)
qed simp

lemma nth_normalize_messages:
  assumes "i < length ms"
  shows "nm_messages (normalize_messages E ms store ns session repair keep) ! i =
    nr_message (normalize_message E (ms ! i) store
      (nm_messages (normalize_messages E (take i ms) store ns session repair keep)) ns session repair keep)"
proof -
  let ?N = "\<lambda>ms. nm_messages (normalize_messages E ms store ns session repair keep)"
  have "?N ms ! i = take (Suc i) (?N ms) ! i" using assms by simp
  also have "take (Suc i) (?N ms) = ?N (take i ms @ [ms ! i])"
    using assms by (simp add: take_normalize_messages take_Suc_conv_app_nth)
  finally show ?thesis using assms
    by (simp add: normalize_messages_snoc normalize_next_def Let_def nth_append)
qed

lemma lacks_reasoning_append: "i < length ms \<Longrightarrow> lacks_reasoning (ms @ ns) i = lacks_reasoning ms i"
  by (simp add: lacks_reasoning_def nth_append)

lemma filter_upt_cong: "(\<And>i. i < n \<Longrightarrow> P i = Q i) \<Longrightarrow> filter P [0..<n] = filter Q [0..<n]"
  by (rule filter_cong) auto

text \<open>
  With repair on, the indexes reported as missing are exactly those of the assistant messages of
  the result that stand in a tool context and carry no reasoning, in order.
\<close>
theorem missing_indexes_exact:
  "nm_missing_indexes (normalize_messages E ms store ns session True True) =
     filter (lacks_reasoning (nm_messages (normalize_messages E ms store ns session True True))) [0..<length ms]"
proof (induction ms rule: rev_induct)
  case (snoc m ms)
  let ?R = "normalize_messages E ms store ns session True True"
  let ?m = "nr_message (normalize_message E m store (nm_messages ?R) ns session True True)"
  have "filter (lacks_reasoning (nm_messages ?R @ [?m])) [0..<length ms] =
        filter (lacks_reasoning (nm_messages ?R)) [0..<length ms]"
    by (rule filter_upt_cong) (simp add: lacks_reasoning_append)
  then show ?case
    using snoc normalized_missing_lacks [of E m store "nm_messages ?R" ns session]
    by (auto simp: normalize_messages_snoc normalize_next_def Let_def)
qed simp

section \<open>Normalising twice\<close>

definition settled :: "json \<Rightarrow> bool" where
  \<comment> \<open>an object whose role and calls another normalisation leaves as they are\<close>
  "settled m \<longleftrightarrow> is_object m \<and>
     (case json_get_str m ''role'' of
        Some r \<Rightarrow> upstream_role r = r \<and> (has_tool_calls m \<longrightarrow> ''tool_calls'' \<in> set (get_role_fields r))
      | None \<Rightarrow> False)"

lemma upstream_role_idem [simp]: "upstream_role (upstream_role r) = upstream_role r"
  by (simp add: upstream_role_def)

lemma settled_normalized: "settled (nr_message (normalize_message E m store prior ns session repair keep))"
  by (simp add: settled_def normalized_role normalized_has_calls)

lemma settled_normalize_messages:
  "m \<in> set (nm_messages (normalize_messages E ms store ns session repair keep)) \<Longrightarrow> settled m"
  by (auto simp: in_set_conv_nth nth_normalize_messages settled_normalized)

lemma settled_role: "settled m \<Longrightarrow> json_get_str m ''role'' = Some (upstream_role (message_role_or_user m))"
  by (auto simp: settled_def message_role_or_user_def split: option.splits)

lemma settled_keeps:
  assumes "settled m"
  shows "json_get_str (nr_message (normalize_message E m store prior ns session repair keep)) ''role'' =
      json_get_str m ''role''"
    and "has_tool_calls (nr_message (normalize_message E m store prior ns session repair keep)) = has_tool_calls m"
  using assms settled_role [OF assms]
  by (auto simp: normalized_role normalized_has_calls settled_def split: option.splits)

lemma tool_before_turn_cong:
  "map (\<lambda>m. json_get_str m ''role'') ms = map (\<lambda>m. json_get_str m ''role'') ns \<Longrightarrow>
   tool_before_turn ms = tool_before_turn ns"
proof (induction ms arbitrary: ns)
  case (Cons m ms)
  then obtain n ns' where "ns = n # ns'" by (cases ns) auto
  then show ?case using Cons by (simp add: str_or_empty_def)
qed simp

lemma needs_cong_roles:
  assumes "has_tool_calls m = has_tool_calls n"
    and "map (\<lambda>m. json_get_str m ''role'') ms = map (\<lambda>m. json_get_str m ''role'') ns"
  shows "assistant_needs_reasoning_for_tool_context m ms = assistant_needs_reasoning_for_tool_context n ns"
proof -
  have "tool_before_turn (rev ms) = tool_before_turn (rev ns)"
    by (rule tool_before_turn_cong) (simp add: assms(2) rev_map [symmetric])
  then show ?thesis by (simp add: assistant_needs_reasoning_for_tool_context_def assms(1))
qed

lemma settled_roles:
  assumes "\<And>m. m \<in> set ms \<Longrightarrow> settled m"
  shows "map (\<lambda>m. json_get_str m ''role'') (nm_messages (normalize_messages E ms store ns session repair keep)) =
    map (\<lambda>m. json_get_str m ''role'') ms"
  using assms by (auto simp: list_eq_iff_nth_eq nth_normalize_messages settled_keeps)

lemma renormalized_lacks:
  assumes "\<And>m. m \<in> set ms \<Longrightarrow> settled m" and "i < length ms"
    and "lacks_reasoning (nm_messages (normalize_messages E ms store ns session True True)) i"
  shows "lacks_reasoning ms i"
proof -
  let ?N = "nm_messages (normalize_messages E ms store ns session True True)"
  let ?P = "nm_messages (normalize_messages E (take i ms) store ns session True True)"
  have s: "settled (ms ! i)" using assms(1,2) by simp
  have n: "?N ! i = nr_message (normalize_message E (ms ! i) store ?P ns session True True)"
    by (rule nth_normalize_messages [OF assms(2)])
  have role: "json_get_str (?N ! i) ''role'' = json_get_str (ms ! i) ''role''"
    unfolding n by (rule settled_keeps(1) [OF s])
  then have assistant: "has_role ''assistant'' (ms ! i)"
    using assms(3) by (simp add: lacks_reasoning_def has_role_def)
  then have up: "upstream_role (message_role_or_user (ms ! i)) = ''assistant''"
    using settled_role [OF s] by (simp add: has_role_def)
  have "map (\<lambda>m. json_get_str m ''role'') (take i ?N) = map (\<lambda>m. json_get_str m ''role'') (take i ms)"
    using settled_roles [OF assms(1), where E = E and store = store and ns = ns and session = session
        and repair = True and keep = True] by (simp add: take_map [symmetric])
  then have "assistant_needs_reasoning_for_tool_context (ms ! i) (take i ms)"
    using assms(3) needs_cong_roles [of "?N ! i" "ms ! i" "take i ?N" "take i ms"] settled_keeps(2) [OF s] n
    by (simp add: lacks_reasoning_def)
  moreover have "json_get_str (ms ! i) ''reasoning_content'' = None"
    using assms(3) normalized_reasoning [OF up, of E store ?P ns session] n
    by (auto simp: lacks_reasoning_def split: option.splits)
  ultimately show ?thesis using assistant by (simp add: lacks_reasoning_def)
qed

section \<open>Patching in place\<close>

definition reasoned_more :: "json \<Rightarrow> json \<Rightarrow> bool" where
  \<comment> \<open>the second message differs at most by a reasoning it has got\<close>
  "reasoned_more a b \<longleftrightarrow> is_object a = is_object b \<and>
     (\<forall>k. k \<noteq> ''reasoning_content'' \<longrightarrow> json_get a k = json_get b k) \<and>
     (json_get_str a ''reasoning_content'' \<noteq> None \<longrightarrow> json_get_str b ''reasoning_content'' \<noteq> None)"

lemma reasoned_more_refl: "reasoned_more a a"
  by (simp add: reasoned_more_def)

lemma reasoned_more_trans: "reasoned_more a b \<Longrightarrow> reasoned_more b c \<Longrightarrow> reasoned_more a c"
  by (auto simp: reasoned_more_def)

lemma reasoned_more_insert: "is_object a \<Longrightarrow> reasoned_more a (json_insert a ''reasoning_content'' (JStr r))"
  by (simp add: reasoned_more_def json_get_str_def norm_get)

lemma reasoned_more_same:
  assumes "reasoned_more a b"
  shows "has_tool_calls a = has_tool_calls b" "json_get_str a ''role'' = json_get_str b ''role''"
  using assms by (simp_all add: reasoned_more_def json_get_str_def has_tool_calls_iff tool_calls_of_def)

lemma reasoned_more_settled: "reasoned_more a b \<Longrightarrow> settled a \<Longrightarrow> settled b"
  using reasoned_more_same [of a b] by (simp add: settled_def reasoned_more_def split: option.splits)

lemma patch_step_more:
  "list_all2 reasoned_more ms (fst (patch_missing_at E store ns session (ms, n) idx))"
  by (auto simp: patch_missing_at_def Let_def reasoned_more_refl reasoned_more_insert list_all2_conv_all_nth
      nth_list_update)

lemma patch_step_reasoned:
  "idx < length ms \<Longrightarrow> is_object (ms ! idx) \<Longrightarrow>
   json_get_str (fst (patch_missing_at E store ns session (ms, n) idx) ! idx) ''reasoning_content'' \<noteq> None"
  by (simp add: patch_missing_at_def Let_def json_get_str_def norm_get)

lemma patch_all:
  "list_all2 reasoned_more ms (fst (foldl (patch_missing_at E store ns session) (ms, n) is)) \<and>
   (\<forall>i \<in> set is. i < length ms \<longrightarrow> is_object (ms ! i) \<longrightarrow>
      json_get_str (fst (foldl (patch_missing_at E store ns session) (ms, n) is) ! i) ''reasoning_content'' \<noteq> None)"
proof (induction "is" arbitrary: ms n)
  case Nil
  then show ?case by (simp add: list_all2_conv_all_nth reasoned_more_refl)
next
  case (Cons j js)
  obtain ms' n' where p: "patch_missing_at E store ns session (ms, n) j = (ms', n')" by force
  let ?F = "fst (foldl (patch_missing_at E store ns session) (ms', n') js)"
  have more: "list_all2 reasoned_more ms ms'" using patch_step_more [of ms E store ns session n j] p by simp
  have IH: "list_all2 reasoned_more ms' ?F"
    "\<And>i. i \<in> set js \<Longrightarrow> i < length ms' \<Longrightarrow> is_object (ms' ! i) \<Longrightarrow>
       json_get_str (?F ! i) ''reasoning_content'' \<noteq> None"
    using Cons [of ms' n'] by blast+
  have all: "list_all2 reasoned_more ms ?F"
    by (rule list_all2_trans [OF _ more IH(1)]) (rule reasoned_more_trans)
  have "json_get_str (?F ! i) ''reasoning_content'' \<noteq> None"
    if i: "i \<in> set (j # js)" "i < length ms" "is_object (ms ! i)" for i
  proof -
    have len: "i < length ms'" using more i(2) by (simp add: list_all2_lengthD)
    have o: "is_object (ms' ! i)" using more i(2,3) by (auto simp: list_all2_conv_all_nth reasoned_more_def)
    have m: "reasoned_more (ms' ! i) (?F ! i)" using IH(1) len by (simp add: list_all2_conv_all_nth)
    show ?thesis
    proof (cases "i \<in> set js")
      case True
      then show ?thesis using IH(2) len o by blast
    next
      case False
      then have "json_get_str (ms' ! i) ''reasoning_content'' \<noteq> None"
        using i patch_step_reasoned [of i ms E store ns session n] p by auto
      then show ?thesis using m by (simp add: reasoned_more_def)
    qed
  qed
  then show ?case using all p by simp
qed

lemma reasoned_more_lacks:
  assumes "list_all2 reasoned_more ms ns" and "i < length ms" and "lacks_reasoning ns i"
  shows "lacks_reasoning ms i"
proof -
  have same: "json_get (ms ! j) k = json_get (ns ! j) k" if "j < length ms" "k \<noteq> ''reasoning_content''" for j k
    using assms(1) that by (auto simp: list_all2_conv_all_nth reasoned_more_def)
  have calls: "has_tool_calls (ms ! i) = has_tool_calls (ns ! i)"
    by (simp add: has_tool_calls_iff tool_calls_of_def same [OF assms(2)])
  have "map (\<lambda>m. json_get_str m ''role'') (take i ms) = map (\<lambda>m. json_get_str m ''role'') (take i ns)"
    using assms(1,2) by (auto simp: list_eq_iff_nth_eq list_all2_lengthD json_get_str_def same)
  then have "assistant_needs_reasoning_for_tool_context (ms ! i) (take i ms) =
      assistant_needs_reasoning_for_tool_context (ns ! i) (take i ns)"
    by (rule needs_cong_roles [OF calls])
  moreover have "reasoned_more (ms ! i) (ns ! i)" using assms(1,2) by (simp add: list_all2_conv_all_nth)
  ultimately show ?thesis using assms(3)
    by (auto simp: lacks_reasoning_def has_role_def json_get_str_def reasoned_more_def)
qed

text \<open>
  Patching the missing indexes in place and normalising again leaves none missing, and drops no
  message.
\<close>
lemma patched_history_complete:
  fixes E store ns session
  defines "again \<equiv> \<lambda>ms. normalize_messages E ms store ns session True True"
  shows "nm_missing_indexes (again (fst (patch_missing_reasoning_inplace E (nm_messages (again ms))
            (nm_missing_indexes (again ms)) store ns session'))) = [] \<and>
     length (nm_messages (again (fst (patch_missing_reasoning_inplace E (nm_messages (again ms))
            (nm_missing_indexes (again ms)) store ns session')))) = length ms"
proof -
  let ?N = "nm_messages (again ms)"
  define F where "F = fst (patch_missing_reasoning_inplace E ?N (nm_missing_indexes (again ms)) store ns session')"
  have more: "list_all2 reasoned_more ?N F"
    using patch_all [of ?N E store ns session' 0 "nm_missing_indexes (again ms)"]
    by (simp add: F_def patch_missing_reasoning_inplace_def)
  have len: "length F = length ms" using list_all2_lengthD [OF more] by (simp add: again_def)
  have settled: "settled m" if F: "m \<in> set F" for m
  proof -
    obtain i where i: "i < length F" "m = F ! i" using F by (auto simp: in_set_conv_nth)
    have "settled (?N ! i)" using i len by (simp add: again_def nth_normalize_messages settled_normalized)
    then show ?thesis using more i reasoned_more_settled by (auto simp: list_all2_conv_all_nth)
  qed
  have got: "json_get_str (F ! i) ''reasoning_content'' \<noteq> None" if "i \<in> set (nm_missing_indexes (again ms))" for i
  proof -
    have i: "i < length ms" using that by (simp add: again_def missing_indexes_exact)
    then have "is_object (?N ! i)" by (simp add: again_def nth_normalize_messages)
    then show ?thesis
      using patch_all [of ?N E store ns session' 0 "nm_missing_indexes (again ms)"] that i
      by (auto simp: F_def patch_missing_reasoning_inplace_def again_def)
  qed
  have "\<not> lacks_reasoning (nm_messages (again F)) i" if "i < length ms" for i
  proof
    assume "lacks_reasoning (nm_messages (again F)) i"
    then have l: "lacks_reasoning F i" using renormalized_lacks [OF settled] that len by (simp add: again_def)
    then have "lacks_reasoning ?N i" using reasoned_more_lacks [OF more] that by (simp add: again_def)
    then have "i \<in> set (nm_missing_indexes (again ms))" using that by (simp add: again_def missing_indexes_exact)
    then show False using got [of i] l by (simp add: lacks_reasoning_def)
  qed
  then have "nm_missing_indexes (again F) = []"
    using len by (simp add: again_def missing_indexes_exact filter_empty_conv)
  then show ?thesis using len by (simp add: again_def F_def)
qed

section \<open>The shape of the result\<close>

definition well_formed_call :: "json \<Rightarrow> bool" where
  "well_formed_call tc \<longleftrightarrow>
     (case json_get tc ''function'' of
        Some f \<Rightarrow> json_get_str f ''name'' \<noteq> None \<and> json_get_str f ''arguments'' \<noteq> None
      | None \<Rightarrow> False) \<and>
     json_get tc ''type'' \<noteq> None \<and> json_get_str tc ''id'' \<noteq> Some []"

definition only_fields :: "string list \<Rightarrow> json \<Rightarrow> bool" where
  "only_fields fs m \<longleftrightarrow> (case as_object m of Some kvs \<Rightarrow> list_all (\<lambda>(k, v). k \<in> set fs) kvs | None \<Rightarrow> False)"

definition well_formed_message :: "json \<Rightarrow> bool" where
  "well_formed_message m \<longleftrightarrow>
     (case json_get_str m ''role'' of
        None \<Rightarrow> False
      | Some r \<Rightarrow>
          r \<noteq> ''function'' \<and> r \<noteq> ''developer'' \<and> only_fields (get_role_fields r) m \<and>
          (r \<in> {''assistant'', ''tool'', ''system'', ''user''} \<longrightarrow> json_get_str m ''content'' \<noteq> None) \<and>
          (case tool_calls_of m of Some tcs \<Rightarrow> list_all well_formed_call tcs | None \<Rightarrow> True))"

lemma normalized_call_well_formed: "well_formed_call (normalize_tool_call E tc)"
  by (simp add: well_formed_call_def normalize_tool_call_def normalize_function_def empty_function_def
      Let_def json_get_str_def split: option.split)

lemma only_fields_retain: "is_object m \<Longrightarrow> only_fields fs (json_retain (\<lambda>k. k \<in> set fs) m)"
  by (cases m) (auto simp: only_fields_def is_object_def list_all_iff)

lemma upstream_role_known: "upstream_role r \<noteq> ''function'' \<and> upstream_role r \<noteq> ''developer''"
  by (simp add: upstream_role_def)

lemma normalized_well_formed:
  "well_formed_message (nr_message (normalize_message E message store prior ns session repair keep))"
proof -
  let ?r = "upstream_role (message_role_or_user message)"
  let ?m = "nr_message (normalize_message E message store prior ns session repair keep)"
  have "json_get_str ?m ''content'' \<noteq> None" if "?r \<in> {''assistant'', ''tool'', ''system'', ''user''}"
    using normalized_body_content [OF that, of E]
    by (auto simp: nr_message_eq json_get_str_def norm_get role_field)
  moreover have "only_fields (get_role_fields ?r) ?m"
    by (simp add: nr_message_eq only_fields_retain)
  moreover have "list_all well_formed_call tcs" if "tool_calls_of ?m = Some tcs" for tcs
    using that by (auto simp: normalized_calls normalized_call_well_formed list_all_iff split: if_splits)
  ultimately show ?thesis
    by (simp add: well_formed_message_def normalized_role upstream_role_known split: option.split)
qed


section \<open>Finding what the stream accumulator filed\<close>

lemma key_lookup_entry:
  "list_all (\<lambda>(k, v). k \<noteq> ''key'') before \<Longrightarrow> json_get_str (lookup_entry before key kind p after) ''key'' = Some key"
proof -
  assume "list_all (\<lambda>(k, v). k \<noteq> ''key'') before"
  then have "map_of before ''key'' = None" by (induction before) auto
  then show ?thesis by (simp add: lookup_entry_def json_get_str_def map_add_def)
qed

lemma keys_of_lookup_keys_under:
  "map (\<lambda>k. json_get_str k ''key'') (lookup_keys_under E kind prefix p after m) =
     map Some (keys_under (ne_sha E) (ne_ser E) prefix m)"
  by (simp add: lookup_keys_under_def keys_under_def key_lookup_entry)

lemma keys_of_lookup_keys:
  "map (\<lambda>k. json_get_str k ''key'') (reasoning_lookup_keys E m scope ns prior False) =
     map Some (backend_keys (ne_sha E) (ne_ser E) m scope ns prior)"
  by (simp add: reasoning_lookup_keys_def backend_keys_def scoped_reasoning_keys_def
      portable_reasoning_keys_def keys_of_lookup_keys_under Let_def)

lemma set_lookup_keys:
  "set (reasoning_lookup_keys E m scope ns prior prefer) = set (reasoning_lookup_keys E m scope ns prior False)"
  by (auto simp: reasoning_lookup_keys_def Let_def)

lemma lookup_key_strings:
  "(\<lambda>k. json_get_str k ''key'') ` set (reasoning_lookup_keys E m scope ns prior prefer) =
     Some ` set (backend_keys (ne_sha E) (ne_ser E) m scope ns prior)"
  by (metis set_lookup_keys keys_of_lookup_keys set_map)

lemma restore_first_hit:
  "restore_first get ks \<noteq> None \<longleftrightarrow> (\<exists>k \<in> set ks. \<exists>s. json_get_str k ''key'' = Some s \<and> get s \<noteq> None)"
  by (induction ks) (auto split: option.split bind_splits)

lemma restore_first_value:
  "restore_first get ks = Some r \<Longrightarrow> \<exists>k. get k = Some r"
  by (induction ks) (auto split: option.splits bind_splits)

lemma restored_iff:
  "try_restore_reasoning_from_store E m get prior session ns \<noteq> None \<longleftrightarrow>
     (\<exists>k \<in> set (backend_keys (ne_sha E) (ne_ser E) m
        (resolve_reasoning_scope (ne_sha E) (ne_ser E) session prior ns) ns prior). get k \<noteq> None)"
proof -
  let ?K = "reasoning_lookup_keys E m (resolve_reasoning_scope (ne_sha E) (ne_ser E) session prior ns) ns prior
              (non_blank session \<noteq> None)"
  have "(\<exists>k \<in> set ?K. \<exists>s. json_get_str k ''key'' = Some s \<and> get s \<noteq> None) \<longleftrightarrow>
        (\<exists>q \<in> (\<lambda>k. json_get_str k ''key'') ` set ?K. \<exists>s. q = Some s \<and> get s \<noteq> None)" by blast
  then show ?thesis
    unfolding try_restore_reasoning_from_store_def restore_first_hit lookup_key_strings by auto
qed

lemma session_scope:
  "non_blank session \<noteq> None \<Longrightarrow>
   resolve_reasoning_scope sha ser session prior ns = resolve_reasoning_scope sha ser session prior' ns"
  by (auto simp: resolve_reasoning_scope_def non_blank_def split: option.splits list.splits if_splits)

lemma in_tool_call_ids:
  "i \<in> set (tool_call_ids m) \<longleftrightarrow>
     (\<exists>tcs tc. tool_calls_of m = Some tcs \<and> tc \<in> set tcs \<and> is_object tc \<and> json_get_str tc ''id'' = Some i)"
  by (cases "tool_calls_of m") (auto simp: tool_call_ids_def set_map_filter split: if_splits)

lemma normalized_call_ids:
  assumes "i \<in> set (tool_call_ids e)" and "i \<noteq> []"
  shows "i \<in> set (tool_call_ids (json_remove (normalized_body E e) ''reasoning_content''))"
proof -
  obtain tcs tc where tcs: "tool_calls_of e = Some tcs"
    and tc: "tc \<in> set tcs" "is_object tc" "json_get_str tc ''id'' = Some i"
    using assms(1) by (auto simp: in_tool_call_ids)
  have "json_get_str (normalize_tool_call E tc) ''id'' = Some i" "is_object (normalize_tool_call E tc)"
    using tc assms(2)
    by (simp_all add: normalize_tool_call_def Let_def json_get_str_def str_or_empty_def object_or_empty_def is_object_def)
  moreover have "tool_calls_of (json_remove (normalized_body E e) ''reasoning_content'') =
      Some (map (normalize_tool_call E) tcs)"
    using normalized_body_calls [of E e] tcs by (simp add: tool_calls_of_def norm_get)
  ultimately show ?thesis using tc(1) by (auto simp: in_tool_call_ids)
qed

lemma tool_call_key:
  "i \<in> set (tool_call_ids m) \<Longrightarrow>
   ''scope:'' @ scope @ '':'' @ ''tool_call:'' @ i \<in> set (backend_keys sha ser m scope ns prior)"
  by (auto simp: backend_keys_def scoped_reasoning_keys_def keys_under_def)


definition filing_env :: norm_env where
  "filing_env = \<lparr>ne_sha = id, ne_ser = (\<lambda>_. ''?''), ne_read = (\<lambda>_. None), ne_think = id\<rparr>"

definition echoed_turn :: json where
  "echoed_turn = JObj [(''content'', JStr []), (''role'', JStr ''assistant''),
                       (''tool_calls'', JArr [JObj [(''id'', JStr ''c'')]])]"

definition empty_store :: reasoning_store where
  "empty_store = \<lparr>rs_rows = [], max_age_seconds = None, max_rows = None\<rparr>"


section \<open>Repaired arguments\<close>

lemma drop_empty_idem [simp]: "drop_empty_fields (drop_empty_fields v) = drop_empty_fields v"
  by (cases v) simp_all

text \<open>
  Repairing the arguments of a tool call twice gives what repairing them once gives, provided that
  the reader reads back what the printer printed for the repaired value.
\<close>
theorem repaired_arguments_stable:
  assumes "ne_ser E (JObj []) = ''{}''" and "ne_read E ''{}'' = Some (JObj [])"
    and "case ne_read E (trim raw) of
           Some v \<Rightarrow> ne_read E (trim (ne_ser E (drop_empty_fields v))) = Some (drop_empty_fields v)
         | None \<Rightarrow> True"
    and "\<forall>v. trim (ne_ser E v) \<noteq> []"
  shows "repair_tool_arguments_json E (repair_tool_arguments_json E raw) = repair_tool_arguments_json E raw"
proof -
  have t: "trim ''{}'' = ''{}''" by (simp add: trim_def is_space_def)
  have "repair_tool_arguments_json E ''{}'' = ''{}''" using assms(1,2) by (simp add: repair_tool_arguments_json_def t)
  then show ?thesis using assms(3,4) by (auto simp: repair_tool_arguments_json_def split: option.split)
qed

theorem repaired_arguments_stable_witness:
  "repair_tool_arguments_json
     \<lparr>ne_sha = id, ne_ser = (\<lambda>v. if v = JObj [] then ''{}'' else ''1''),
      ne_read = (\<lambda>s. if s = ''{}'' then Some (JObj []) else if s = ''1'' then Some (JInt 1) else None), ne_think = id\<rparr>
     (repair_tool_arguments_json
       \<lparr>ne_sha = id, ne_ser = (\<lambda>v. if v = JObj [] then ''{}'' else ''1''),
        ne_read = (\<lambda>s. if s = ''{}'' then Some (JObj []) else if s = ''1'' then Some (JInt 1) else None), ne_think = id\<rparr> '' 1'') =
   repair_tool_arguments_json
     \<lparr>ne_sha = id, ne_ser = (\<lambda>v. if v = JObj [] then ''{}'' else ''1''),
      ne_read = (\<lambda>s. if s = ''{}'' then Some (JObj []) else if s = ''1'' then Some (JInt 1) else None), ne_think = id\<rparr> '' 1''"
  by (rule repaired_arguments_stable) (simp_all add: trim_def is_space_def)

text \<open>
  A tool call without a function keeps empty arguments, which are no JSON text, although a call
  without arguments gets an empty object.
\<close>
theorem call_without_function_unrepaired:
  "call_arguments (normalize_tool_call E (JObj [(''id'', JStr i)])) = [] \<and>
   call_arguments (normalize_tool_call E (JObj [(''function'', JObj []), (''id'', JStr i)])) = ''{}''"
  by (simp add: call_arguments_def normalize_tool_call_def normalize_function_def empty_function_def Let_def
      object_or_empty_def is_object_def)

end
