(* ===== verification/HistoryCompression.thy ===== *)
theory HistoryCompression
  imports MessageNormalize SseEvents
begin

text \<open>
  The compression of long Codex histories for the MiMo upstream
  (\<^verbatim>\<open>src/crates/crab-reasoning/src/normalize.rs\<close>): noisy tool outputs are reduced to the lines
  that matter, and the older part of the tool chain is replaced by a summary. Texts are lists of
  characters; the regular expression that removes terminal escapes is the argument \<open>ansi\<close>.
\<close>

section \<open>Tool outputs\<close>

definition MIMO_CODEX_TOOL_RESULT_MAX_CHARS :: nat where
  "MIMO_CODEX_TOOL_RESULT_MAX_CHARS = 1200"

definition MIMO_CODEX_TOOL_RESULT_MAX_LINES :: nat where
  "MIMO_CODEX_TOOL_RESULT_MAX_LINES = 36"

definition MIMO_CODEX_TOOL_RESULT_LINE_MAX_CHARS :: nat where
  "MIMO_CODEX_TOOL_RESULT_LINE_MAX_CHARS = 220"

definition MIMO_CODEX_COMPRESSION_TRIGGER_BYTES :: nat where
  "MIMO_CODEX_COMPRESSION_TRIGGER_BYTES = 3000000"

definition MIMO_CODEX_STRUCTURAL_KEEP_RECENT_MESSAGES :: nat where
  "MIMO_CODEX_STRUCTURAL_KEEP_RECENT_MESSAGES = 24"

definition MIMO_CODEX_STRUCTURAL_SUMMARY_MAX_CHARS :: nat where
  "MIMO_CODEX_STRUCTURAL_SUMMARY_MAX_CHARS = 6000"

definition MIMO_CODEX_STRUCTURAL_SUMMARY_MAX_LINES :: nat where
  "MIMO_CODEX_STRUCTURAL_SUMMARY_MAX_LINES = 48"

lemmas mimo_limits =
  MIMO_CODEX_TOOL_RESULT_MAX_CHARS_def MIMO_CODEX_TOOL_RESULT_MAX_LINES_def
  MIMO_CODEX_TOOL_RESULT_LINE_MAX_CHARS_def MIMO_CODEX_COMPRESSION_TRIGGER_BYTES_def
  MIMO_CODEX_STRUCTURAL_KEEP_RECENT_MESSAGES_def MIMO_CODEX_STRUCTURAL_SUMMARY_MAX_CHARS_def
  MIMO_CODEX_STRUCTURAL_SUMMARY_MAX_LINES_def

definition truncate_chars :: "string \<Rightarrow> nat \<Rightarrow> string" where
  "truncate_chars input max_chars = take max_chars input"

definition trim_end :: "string \<Rightarrow> string" where
  "trim_end s = rev (dropWhile is_space (rev s))"

definition ACTIONABLE_WORDS :: "string list" where
  "ACTIONABLE_WORDS =
     [''error'', ''failed'', ''failure'', ''fail '', ''panic'', ''exception'', ''traceback'', ''assert'',
      ''warning'', ''warn'', ''mismatch'', ''expected'', ''actual'', ''diff'', ''modified'', ''created'',
      ''deleted'', ''renamed'', ''exit code'', ''status'', ''request_id'', ''channel closed'']"

definition is_actionable_tool_line :: "string \<Rightarrow> bool" where
  "is_actionable_tool_line line = list_ex (str_contains (to_lowercase line)) ACTIONABLE_WORDS"

record line_squeeze =
  sq_lines :: "string list"
  sq_previous :: string
  sq_repeated :: nat

definition repeated_mark :: "nat \<Rightarrow> string list" where
  "repeated_mark n = (if 0 < n then [''['' @ show_nat n @ '' repeated lines omitted]''] else [])"

definition shorten_line :: "string \<Rightarrow> string" where
  "shorten_line line =
     (if MIMO_CODEX_TOOL_RESULT_LINE_MAX_CHARS < length line
      then truncate_chars line MIMO_CODEX_TOOL_RESULT_LINE_MAX_CHARS @ '' ... [line truncated]''
      else line)"

definition squeeze_line :: "line_squeeze \<Rightarrow> string \<Rightarrow> line_squeeze" where
  \<comment> \<open>the carriage return that \<open>lines()\<close> cuts off is trimmed with the white space\<close>
  "squeeze_line st line =
     (let trimmed_end = trim_end line in
      if trimmed_end = sq_previous st then st\<lparr>sq_repeated := sq_repeated st + 1\<rparr>
      else \<lparr>sq_lines = sq_lines st @ repeated_mark (sq_repeated st) @ [shorten_line trimmed_end],
            sq_previous = trimmed_end, sq_repeated = 0\<rparr>)"

definition squeeze_lines :: "string list \<Rightarrow> string list" where
  "squeeze_lines ls =
     (let st = foldl squeeze_line \<lparr>sq_lines = [], sq_previous = [], sq_repeated = 0\<rparr> ls
      in sq_lines st @ repeated_mark (sq_repeated st))"

definition select_line :: "string list \<Rightarrow> string \<Rightarrow> string list" where
  \<comment> \<open>after the break nothing is selected any more\<close>
  "select_line selected line =
     (if MIMO_CODEX_TOOL_RESULT_MAX_LINES \<le> length selected \<or> line \<in> set selected then selected
      else selected @ [line])"

definition select_lines :: "string list \<Rightarrow> string list" where
  "select_lines ls =
     foldl select_line [] (take 8 ls @ filter is_actionable_tool_line ls @ drop (length ls - 16) ls)"

definition limit_body :: "string \<Rightarrow> string" where
  "limit_body body =
     (if MIMO_CODEX_TOOL_RESULT_MAX_CHARS < length body
      then truncate_chars body MIMO_CODEX_TOOL_RESULT_MAX_CHARS @ nl @ ''...[compressed output truncated]''
      else body)"

definition compress_mimo_codex_tool_output :: "(string \<Rightarrow> string) \<Rightarrow> string \<Rightarrow> string option" where
  "compress_mimo_codex_tool_output ansi content =
     (let no_ansi = ansi content in
      if length no_ansi \<le> MIMO_CODEX_TOOL_RESULT_MAX_CHARS then None
      else
        (let ls = squeeze_lines (chunk_lines no_ansi);
             selected = select_lines ls
         in Some (''[crabcache rtk-compressed tool output]'' @ nl @ ''original_chars='' @ show_nat (length no_ansi) @
                  '' original_lines='' @ show_nat (length ls) @ '' kept_lines='' @ show_nat (length selected) @ nl @
                  limit_body (join nl selected))))"

definition compress_tool_result :: "(string \<Rightarrow> string) \<Rightarrow> json \<Rightarrow> json \<times> nat" where
  "compress_tool_result ansi msg =
     (if is_object msg \<and> has_role ''tool'' msg
      then case Option.bind (json_get_str msg ''content'') (compress_mimo_codex_tool_output ansi) of
             Some compacted \<Rightarrow> (json_insert msg ''content'' (JStr compacted), 1)
           | None \<Rightarrow> (msg, 0)
      else (msg, 0))"

definition compress_mimo_codex_tool_results_in_messages ::
    "(string \<Rightarrow> string) \<Rightarrow> json list \<Rightarrow> json list \<times> nat" where
  "compress_mimo_codex_tool_results_in_messages ansi messages =
     (let rs = map (compress_tool_result ansi) messages in (map fst rs, sum_list (map snd rs)))"

section \<open>The summary of the older history\<close>

definition message_role :: "json \<Rightarrow> string option" where
  "message_role msg = json_get_str msg ''role''"

fun excerpt_lines :: "string list \<Rightarrow> string list \<Rightarrow> string list" where
  \<comment> \<open>the loop over the lines; \<open>acc\<close> is what it has pushed\<close>
  "excerpt_lines acc [] = acc"
| "excerpt_lines acc (line # rest) =
     (let trimmed = trim line in
      if trimmed = [] then excerpt_lines acc rest
      else
        (let acc = (if is_actionable_tool_line trimmed \<or> length acc < 4 then acc @ [trimmed] else acc)
         in if 10 \<le> length acc then acc else excerpt_lines acc rest))"

definition compact_excerpt :: "(string \<Rightarrow> string) \<Rightarrow> string \<Rightarrow> nat \<Rightarrow> string" where
  "compact_excerpt ansi content max_chars =
     (let no_ansi = ansi content;
          ls = excerpt_lines [] (chunk_lines no_ansi);
          joined = (if ls = [] then trim no_ansi else join '' | '' ls)
      in if max_chars < length joined then truncate_chars joined max_chars @ '' ...'' else joined)"

definition summary_truncated :: string where
  "summary_truncated = ''...[historical summary truncated]''"

definition append_summary_line :: "string list \<times> nat \<Rightarrow> string \<Rightarrow> string list \<times> nat" where
  "append_summary_line = (\<lambda>(summary, used_chars) line.
     if MIMO_CODEX_STRUCTURAL_SUMMARY_MAX_LINES \<le> length summary then (summary, used_chars)
     else if MIMO_CODEX_STRUCTURAL_SUMMARY_MAX_CHARS < used_chars + length line
     then (if summary \<noteq> [] \<and> last summary = summary_truncated then summary else summary @ [summary_truncated],
           MIMO_CODEX_STRUCTURAL_SUMMARY_MAX_CHARS)
     else (summary @ [line], used_chars + length line))"

definition collect_call_name :: "(string, string) hmap \<Rightarrow> json \<Rightarrow> (string, string) hmap" where
  "collect_call_name names call =
     (let i = str_or_empty call ''id'' in
      if i = [] then names
      else hm_insert names i
             (case Option.bind (json_pointer call [''function'', ''name'']) as_str of
                Some n \<Rightarrow> n | None \<Rightarrow> ''unknown_tool''))"

definition collect_tool_call_names :: "json \<Rightarrow> (string, string) hmap \<Rightarrow> (string, string) hmap" where
  "collect_tool_call_names msg names =
     (case tool_calls_of msg of None \<Rightarrow> names | Some calls \<Rightarrow> foldl collect_call_name names calls)"

record history_lines =
  hl_names :: "(string, string) hmap"
  hl_user :: "string list"
  hl_assistant :: "string list"
  hl_tool :: "string list"

definition excerpt_of :: "(string \<Rightarrow> string) \<Rightarrow> (json \<Rightarrow> string) \<Rightarrow> json \<Rightarrow> nat \<Rightarrow> string \<Rightarrow> string list" where
  \<comment> \<open>the line a message adds, with its label\<close>
  "excerpt_of ansi ser msg max_chars label =
     (case Option.bind (json_get msg ''content'') (extract_text_content ser) of
        None \<Rightarrow> []
      | Some content \<Rightarrow>
          (let excerpt = compact_excerpt ansi content max_chars
           in if excerpt = [] then [] else [label @ '': '' @ excerpt]))"

definition history_line ::
    "(string \<Rightarrow> string) \<Rightarrow> (json \<Rightarrow> string) \<Rightarrow> history_lines \<Rightarrow> json \<Rightarrow> history_lines" where
  "history_line ansi ser st msg =
     (let st = st\<lparr>hl_names := collect_tool_call_names msg (hl_names st)\<rparr> in
      if message_role msg = Some ''user''
      then st\<lparr>hl_user := hl_user st @ excerpt_of ansi ser msg 700 ''User''\<rparr>
      else if message_role msg = Some ''assistant'' \<and> \<not> has_tool_calls msg
      then st\<lparr>hl_assistant := hl_assistant st @ excerpt_of ansi ser msg 700 ''Assistant''\<rparr>
      else if message_role msg = Some ''tool''
      then (let tool_name = (case hm_get (hl_names st) (str_or_empty msg ''tool_call_id'') of
                               Some n \<Rightarrow> n | None \<Rightarrow> ''tool'')
            in st\<lparr>hl_tool := hl_tool st @ excerpt_of ansi ser msg 900 (''Tool '' @ tool_name)\<rparr>)
      else st)"

definition last_lines :: "nat \<Rightarrow> 'a list \<Rightarrow> 'a list" where
  \<comment> \<open>\<open>iter().rev().take(n)\<close>, turned round again\<close>
  "last_lines n xs = rev (take n (rev xs))"

definition summary_head :: "json list \<Rightarrow> string list" where
  "summary_head messages =
     [''CrabCache MiMo Codex historical tool-chain summary.'',
      ''Older tool-call transcript was structure-compressed to keep the real MiMo upstream stable; current top-level tools/tool_choice were preserved.'',
      ''Compressed historical messages: '' @ show_nat (length messages) @ ''; assistant tool-call turns: '' @
        show_nat (length (filter has_tool_calls messages)) @ ''; tool outputs: '' @
        show_nat (length (filter (\<lambda>m. message_role m = Some ''tool'') messages)) @ ''.'']"

definition bullets :: "string list \<Rightarrow> string list" where
  "bullets ls = map (\<lambda>l. ''- '' @ l) ls"

definition summary_body :: "history_lines \<Rightarrow> string list" where
  "summary_body st =
     [''Recent historical user requests:''] @ bullets (last_lines 8 (hl_user st)) @
     [''Recent historical assistant notes:''] @ bullets (last_lines 8 (hl_assistant st)) @
     [''Important historical tool observations:''] @ bullets (last_lines 20 (hl_tool st))"

definition summary_lines :: "(string \<Rightarrow> string) \<Rightarrow> (json \<Rightarrow> string) \<Rightarrow> json list \<Rightarrow> string list \<times> nat" where
  "summary_lines ansi ser messages =
     (let head = summary_head messages;
          st = foldl (history_line ansi ser) \<lparr>hl_names = [], hl_user = [], hl_assistant = [], hl_tool = []\<rparr> messages
      in foldl append_summary_line (head, sum_list (map length head)) (summary_body st))"

definition summarize_mimo_codex_history :: "(string \<Rightarrow> string) \<Rightarrow> (json \<Rightarrow> string) \<Rightarrow> json list \<Rightarrow> string" where
  "summarize_mimo_codex_history ansi ser messages = join nl (fst (summary_lines ansi ser messages))"

section \<open>Compaction of the chain\<close>

definition system_prefix_end :: "json list \<Rightarrow> nat" where
  "system_prefix_end messages = length (takeWhile (\<lambda>m. message_role m = Some ''system'') messages)"

definition skip_tool_outputs :: "json list \<Rightarrow> nat \<Rightarrow> nat" where
  \<comment> \<open>\<open>while split < len && role(messages[split]) == tool { split += 1 }\<close>\<close>
  "skip_tool_outputs messages split =
     split + length (takeWhile (\<lambda>m. message_role m = Some ''tool'') (drop split messages))"

definition compaction_split :: "json list \<Rightarrow> nat" where
  "compaction_split messages =
     skip_tool_outputs messages
       (max (length messages - MIMO_CODEX_STRUCTURAL_KEEP_RECENT_MESSAGES) (system_prefix_end messages))"

definition compact_mimo_codex_historical_tool_chain ::
    "(string \<Rightarrow> string) \<Rightarrow> (json \<Rightarrow> string) \<Rightarrow> json list \<Rightarrow> json list \<times> nat" where
  "compact_mimo_codex_historical_tool_chain ansi ser messages =
     (let prefix_end = system_prefix_end messages;
          split = compaction_split messages
      in if split \<le> prefix_end \<or> length messages \<le> split then (messages, 0)
         else
           (let historical = drop prefix_end (take split messages)
            in (take prefix_end messages @
                [JObj [(''content'', JStr (summarize_mimo_codex_history ansi ser historical)),
                       (''role'', JStr ''system'')]] @
                drop split messages,
                length historical - 1)))"

section \<open>Bounds\<close>

lemma length_show_nat: "n < 10 ^ k \<Longrightarrow> 0 < k \<Longrightarrow> length (show_nat n) \<le> k"
proof (induction n arbitrary: k rule: show_nat.induct)
  case (1 n)
  show ?case
  proof (cases "n < 10")
    case True
    then show ?thesis using 1(3) by (subst show_nat.simps) simp
  next
    case False
    then obtain j where k: "k = Suc j" "0 < j" using 1 by (cases k; cases "k - 1") auto
    have "n div 10 < 10 ^ j" using 1(2) k by (simp add: less_mult_imp_div_less mult.commute)
    then have "length (show_nat (n div 10)) \<le> j" using 1(1) False k(2) by simp
    then show ?thesis using False k(1) by (subst show_nat.simps) simp
  qed
qed

lemma length_join_nl: "length (join nl ls) = sum_list (map length ls) + (length ls - 1)"
  by (induction nl ls rule: join.induct) (simp_all add: nl_def)

lemma length_select_lines: "length (select_lines ls) \<le> 36"
proof -
  have "length acc \<le> 36 \<Longrightarrow> length (foldl select_line acc xs) \<le> 36" for acc xs
    by (induction xs arbitrary: acc) (auto simp: select_line_def mimo_limits)
  then show ?thesis by (simp add: select_lines_def)
qed

lemma length_limit_body: "length (limit_body b) \<le> 1233"
  by (simp add: limit_body_def truncate_chars_def mimo_limits nl_def)

text \<open>
  A tool output of more than 1200 characters is compressed to at most 1318 characters beside the
  two counts it reports; a shorter one is left alone.
\<close>
theorem compressed_output_bounded:
  "case compress_mimo_codex_tool_output ansi content of
     Some out \<Rightarrow> length out \<le> 1318 + length (show_nat (length (ansi content))) +
       length (show_nat (length (squeeze_lines (chunk_lines (ansi content)))))
   | None \<Rightarrow> length (ansi content) \<le> 1200"
proof -
  let ?sel = "select_lines (squeeze_lines (chunk_lines (ansi content)))"
  have "length (show_nat (length ?sel)) \<le> 2"
    by (rule length_show_nat) (use length_select_lines [of "squeeze_lines (chunk_lines (ansi content))"] in simp_all)
  moreover have "length (limit_body (join nl ?sel)) \<le> 1233" by (rule length_limit_body)
  ultimately show ?thesis
    by (simp add: compress_mimo_codex_tool_output_def Let_def nl_def MIMO_CODEX_TOOL_RESULT_MAX_CHARS_def)
qed

definition summary_inv :: "string list \<times> nat \<Rightarrow> bool" where
  "summary_inv = (\<lambda>(ls, used). used \<le> 6000 \<and> length ls \<le> 48 \<and> ls \<noteq> [] \<and>
     (sum_list (map length ls) \<le> used \<or>
      sum_list (map length ls) \<le> 6033 \<and> last ls = summary_truncated \<and> used = 6000))"

lemma append_summary_line_inv:
  "summary_inv st \<Longrightarrow> line \<noteq> [] \<Longrightarrow> summary_inv (append_summary_line st line)"
  by (cases st) (auto simp: summary_inv_def append_summary_line_def mimo_limits summary_truncated_def Suc_le_eq)

lemma append_summary_lines_inv:
  "summary_inv st \<Longrightarrow> [] \<notin> set ls \<Longrightarrow> summary_inv (foldl append_summary_line st ls)"
proof (induction ls arbitrary: st)
  case (Cons l ls)
  then show ?case using append_summary_line_inv [of st l] by simp metis
qed simp

lemma summary_head_length:
  "length ms < 10 ^ 20 \<Longrightarrow> sum_list (map length (summary_head ms)) \<le> 400"
proof -
  assume n: "length ms < 10 ^ 20"
  then have "length (filter P ms) < 10 ^ 20" for P using length_filter_le [of P ms] by linarith
  then have f: "length (show_nat (length (filter P ms))) \<le> 20" for P by (simp add: length_show_nat)
  have "length (show_nat (length ms)) \<le> 20" using n by (simp add: length_show_nat)
  then show ?thesis
    using f [of has_tool_calls] f [of "\<lambda>m. message_role m = Some ''tool''"] by (simp add: summary_head_def)
qed

text \<open>
  The summary that replaces the older history has at most 48 lines and 6080 characters, for every
  history a machine can hold.
\<close>
theorem summary_bounded:
  assumes "length ms < 10 ^ 20"
  shows "length (fst (summary_lines ansi ser ms)) \<le> 48 \<and>
    length (summarize_mimo_codex_history ansi ser ms) \<le> 6080"
proof -
  have "summary_inv (summary_head ms, sum_list (map length (summary_head ms)))"
    using summary_head_length [OF assms] by (simp add: summary_inv_def) (simp add: summary_head_def)
  moreover have "[] \<notin> set (summary_body st)" for st by (auto simp: summary_body_def bullets_def)
  ultimately have "summary_inv (summary_lines ansi ser ms)"
    by (simp add: summary_lines_def Let_def append_summary_lines_inv)
  then show ?thesis
    by (cases "summary_lines ansi ser ms")
       (auto simp: summary_inv_def summarize_mimo_codex_history_def length_join_nl)
qed

theorem summary_bounded_witness:
  "length (fst (summary_lines id (\<lambda>_. []) [JNull])) \<le> 48 \<and>
   length (summarize_mimo_codex_history id (\<lambda>_. []) [JNull]) \<le> 6080"
  by (rule summary_bounded) simp

section \<open>The compacted chain\<close>

definition answers_call :: "json list \<Rightarrow> nat \<Rightarrow> nat \<Rightarrow> bool" where
  \<comment> \<open>message \<open>j\<close> is the result of a call of message \<open>i\<close>, with only results in between\<close>
  "answers_call ms i j \<longleftrightarrow> i < j \<and> list_all (\<lambda>k. has_role ''tool'' (ms ! k)) [Suc i..<j] \<and>
     (case json_get_str (ms ! j) ''tool_call_id'' of Some t \<Rightarrow> t \<in> set (tool_call_ids (ms ! i)) | None \<Rightarrow> False)"

definition calls_adjacent :: "json list \<Rightarrow> bool" where
  "calls_adjacent ms \<longleftrightarrow>
     list_all (\<lambda>j. has_role ''tool'' (ms ! j) \<longrightarrow> list_ex (\<lambda>i. answers_call ms i j) [0..<j]) [0..<length ms]"

lemma calls_adjacentD:
  "calls_adjacent ms \<Longrightarrow> j < length ms \<Longrightarrow> has_role ''tool'' (ms ! j) \<Longrightarrow> \<exists>i. answers_call ms i j"
  by (auto simp: calls_adjacent_def list_all_iff list_ex_iff)

lemma calls_adjacentI:
  "(\<And>j. j < length ms \<Longrightarrow> has_role ''tool'' (ms ! j) \<Longrightarrow> \<exists>i. answers_call ms i j) \<Longrightarrow> calls_adjacent ms"
  by (fastforce simp: calls_adjacent_def list_all_iff list_ex_iff answers_call_def)

lemma answers_call_within:
  assumes "answers_call ms i j" and "s \<le> j" and "\<not> has_role ''tool'' (ms ! s)" and "has_role ''tool'' (ms ! j)"
  shows "s \<le> i"
proof (rule ccontr)
  assume "\<not> s \<le> i"
  then have "s \<in> set [Suc i..<j] \<or> s = j" using assms(2) by auto
  then show False using assms(1,3,4) by (auto simp: answers_call_def list_all_iff)
qed

lemma answers_call_drop:
  assumes "answers_call ms (s + c) (s + d)" and "s + d < length ms" and "length pre = p"
  shows "answers_call (pre @ drop s ms) (p + c) (p + d)"
proof -
  have at: "(pre @ drop s ms) ! (p + k) = ms ! (s + k)" if "s + k < length ms" for k
    using that assms(3) by (simp add: nth_append)
  have "has_role ''tool'' ((pre @ drop s ms) ! k)" if "Suc (p + c) \<le> k" "k < p + d" for k
  proof -
    define e where "e = k - p"
    then have e: "k = p + e" using that(1) by simp
    then have "s + e \<in> set [Suc (s + c)..<s + d]" using that by simp
    then show ?thesis using assms(1,2) at [of e] e by (auto simp: answers_call_def list_all_iff)
  qed
  moreover have "c < d" using assms(1) by (simp add: answers_call_def)
  ultimately show ?thesis using assms(1,2) at [of c] at [of d]
    by (simp add: answers_call_def list_all_iff split: option.splits)
qed

lemma compaction_split_not_tool:
  "compaction_split ms < length ms \<Longrightarrow> \<not> has_role ''tool'' (ms ! compaction_split ms)"
proof -
  define b where "b = max (length ms - MIMO_CODEX_STRUCTURAL_KEEP_RECENT_MESSAGES) (system_prefix_end ms)"
  let ?t = "takeWhile (\<lambda>m. message_role m = Some ''tool'') (drop b ms)"
  assume "compaction_split ms < length ms"
  then have "length ?t < length (drop b ms)"
    by (simp add: compaction_split_def skip_tool_outputs_def b_def)
  then have "message_role (drop b ms ! length ?t) \<noteq> Some ''tool''" by (rule nth_length_takeWhile)
  moreover have "drop b ms ! length ?t = ms ! compaction_split ms"
    using \<open>compaction_split ms < length ms\<close> by (simp add: compaction_split_def skip_tool_outputs_def b_def)
  ultimately show ?thesis by (simp add: message_role_def has_role_def)
qed

lemma system_prefix_role:
  "i < system_prefix_end ms \<Longrightarrow> has_role ''system'' (ms ! i)"
  using nth_mem [of i "takeWhile (\<lambda>m. message_role m = Some ''system'') ms"]
  by (auto simp: system_prefix_end_def has_role_def message_role_def takeWhile_nth dest: set_takeWhileD)

lemma system_prefix_end_le: "system_prefix_end ms \<le> length ms"
  by (simp add: system_prefix_end_def length_takeWhile_le)

text \<open>
  C20. Compaction never separates a tool result from its call: when every result follows the message
  that called for it, with only results in between, this still holds for the compacted history.
\<close>
theorem compaction_keeps_results_with_calls:
  assumes "calls_adjacent ms"
  shows "calls_adjacent (fst (compact_mimo_codex_historical_tool_chain ansi ser ms))"
proof (cases "compaction_split ms \<le> system_prefix_end ms \<or> length ms \<le> compaction_split ms")
  case True
  then show ?thesis using assms by (simp add: compact_mimo_codex_historical_tool_chain_def Let_def)
next
  case False
  define s where "s = compaction_split ms"
  define p where "p = system_prefix_end ms"
  obtain t where R: "fst (compact_mimo_codex_historical_tool_chain ansi ser ms) =
      (take p ms @ [JObj [(''content'', JStr t), (''role'', JStr ''system'')]]) @ drop s ms"
    using False by (simp add: compact_mimo_codex_historical_tool_chain_def Let_def s_def p_def)
  let ?pre = "take p ms @ [JObj [(''content'', JStr t), (''role'', JStr ''system'')]]"
  have p: "p \<le> length ms" "length ?pre = Suc p" using system_prefix_end_le [of ms] by (simp_all add: p_def)
  show ?thesis unfolding R
  proof (rule calls_adjacentI)
    fix j assume j: "j < length (?pre @ drop s ms)" "has_role ''tool'' ((?pre @ drop s ms) ! j)"
    have "Suc p \<le> j"
    proof (rule ccontr)
      assume "\<not> Suc p \<le> j"
      then have "has_role ''system'' ((?pre @ drop s ms) ! j)"
        using p system_prefix_role [of j ms]
        by (cases "j = p") (simp_all add: nth_append p_def has_role_def json_get_str_def)
      then show False using j(2) by (simp add: has_role_def)
    qed
    then obtain d where d: "j = Suc p + d" by (auto simp: le_iff_add)
    have sd: "s + d < length ms" using j(1) d p by simp
    have tool: "has_role ''tool'' (ms ! (s + d))" using j(2) d p sd by (simp add: nth_append)
    obtain i where i: "answers_call ms i (s + d)" using calls_adjacentD [OF assms sd tool] by blast
    have "s \<le> i"
      using answers_call_within [OF i _ _ tool] compaction_split_not_tool [of ms] False by (simp add: s_def)
    then obtain c where "i = s + c" by (auto simp: le_iff_add)
    then have "answers_call (?pre @ drop s ms) (Suc p + c) (Suc p + d)"
      using answers_call_drop [of ms s c d ?pre] i sd p by simp
    then show "\<exists>i. answers_call (?pre @ drop s ms) i j" using d by blast
  qed
qed

definition adjacent_history :: "json list" where
  "adjacent_history =
     [JObj [(''role'', JStr ''assistant''), (''tool_calls'', JArr [JObj [(''id'', JStr ''c'')]])],
      JObj [(''role'', JStr ''tool''), (''tool_call_id'', JStr ''c'')]]"

theorem compaction_keeps_results_with_calls_witness:
  "calls_adjacent (fst (compact_mimo_codex_historical_tool_chain id (\<lambda>_. []) adjacent_history))"
  by (rule compaction_keeps_results_with_calls)
     (simp add: adjacent_history_def calls_adjacent_def answers_call_def has_role_def json_get_str_def
        tool_call_ids_def tool_calls_of_def is_object_def List.map_filter_simps)

text \<open>At most 24 messages follow the summary, and the system messages at the start stay in front of it.\<close>
theorem compaction_keeps_recent:
  "snd (compact_mimo_codex_historical_tool_chain ansi ser ms) = 0 \<and>
     fst (compact_mimo_codex_historical_tool_chain ansi ser ms) = ms \<or>
   length (fst (compact_mimo_codex_historical_tool_chain ansi ser ms)) \<le> system_prefix_end ms + 25 \<and>
     take (system_prefix_end ms) (fst (compact_mimo_codex_historical_tool_chain ansi ser ms)) =
       take (system_prefix_end ms) ms"
  using system_prefix_end_le [of ms]
  by (auto simp: compact_mimo_codex_historical_tool_chain_def Let_def compaction_split_def
      skip_tool_outputs_def mimo_limits)

end
