(* ===== verification/RequestPrepare.thy ===== *)
theory RequestPrepare
  imports CacheKey DeepseekModel Composition HistoryCompression
begin

text \<open>
  The requests that leave for the upstream (\<^verbatim>\<open>src/crates/crab-reasoning/src/normalize.rs\<close>):
  the cache namespace, the tracking of message prefixes, the filter of request fields, and the
  four preparations: light, MiMo, generic and DeepSeek V4 with its repair of lost reasoning.
\<close>

section \<open>Namespace and prefix tracking\<close>

definition reasoning_model_family :: "string \<Rightarrow> string" where
  "reasoning_model_family upstream_model =
     (if upstream_model = ''deepseek-v4-pro'' \<or> upstream_model = ''deepseek-v4-flash''
      then ''deepseek-v4'' else upstream_model)"

definition non_empty :: "string option \<Rightarrow> string option" where
  \<comment> \<open>\<open>.filter(|s| !s.is_empty())\<close>\<close>
  "non_empty s = (case s of Some t \<Rightarrow> if t \<noteq> [] then Some t else None | None \<Rightarrow> None)"

definition reasoning_cache_namespace ::
    "norm_env \<Rightarrow> string \<Rightarrow> string \<Rightarrow> json \<Rightarrow> string \<Rightarrow> string option \<Rightarrow> string option \<Rightarrow> string" where
  "reasoning_cache_namespace E base_url upstream_model thinking effort authorization project_id =
     ne_sha E (ne_ser E
       (JObj [(''authorization_hash'', JStr (case authorization of Some a \<Rightarrow> ne_sha E a | None \<Rightarrow> [])),
              (''base_url'', JStr base_url),
              (''model'', JStr (reasoning_model_family upstream_model)),
              (''project_id'', (case non_empty project_id of Some p \<Rightarrow> JStr p | None \<Rightarrow> JNull)),
              (''reasoning_effort'', JStr effort),
              (''thinking'', thinking)]))"

record prefix_snapshot =
  ps_message_count :: nat
  ps_hash :: string

record prefix_state =
  px_snapshots :: "(string, prefix_snapshot) hmap"   \<comment> \<open>\<open>PREFIX_SNAPSHOTS\<close>\<close>
  px_blocks :: "(string, string) hmap"               \<comment> \<open>\<open>IMMUTABLE_PREFIX_BLOCKS\<close>\<close>
  px_breaks :: nat                                   \<comment> \<open>\<open>record_prefix_break\<close>\<close>
  px_drifts :: nat                                   \<comment> \<open>\<open>record_prefix_block_drift\<close>\<close>
  px_summaries :: nat                                \<comment> \<open>\<open>record_context_summary_appended\<close>\<close>

definition messages_prefix_hash :: "norm_env \<Rightarrow> json list \<Rightarrow> nat \<Rightarrow> string" where
  "messages_prefix_hash E messages len = ne_sha E (ne_ser E (JArr (take (min len (length messages)) messages)))"

definition prefix_broken :: "norm_env \<Rightarrow> prefix_state \<Rightarrow> string \<Rightarrow> json list \<Rightarrow> bool" where
  "prefix_broken E st scope messages \<longleftrightarrow>
     (case hm_get (px_snapshots st) scope of
        Some snap \<Rightarrow> ps_message_count snap < length messages \<and>
                     messages_prefix_hash E messages (ps_message_count snap) \<noteq> ps_hash snap
      | None \<Rightarrow> False)"

definition validate_prefix_append_only :: "norm_env \<Rightarrow> prefix_state \<Rightarrow> string \<Rightarrow> json list \<Rightarrow> prefix_state" where
  "validate_prefix_append_only E st scope messages =
     (let st = (if prefix_broken E st scope messages then st\<lparr>px_breaks := px_breaks st + 1\<rparr> else st)
      in if messages = [] then st
         else st\<lparr>px_snapshots := hm_insert (px_snapshots st) scope
                  \<lparr>ps_message_count = length messages,
                   ps_hash = messages_prefix_hash E messages (length messages)\<rparr>\<rparr>)"

definition track_immutable_prefix_block :: "prefix_state \<Rightarrow> string \<Rightarrow> string \<Rightarrow> prefix_state" where
  "track_immutable_prefix_block st scope block_hash =
     (let drift = (case hm_get (px_blocks st) scope of Some prev \<Rightarrow> prev \<noteq> block_hash | None \<Rightarrow> False)
      in st\<lparr>px_drifts := (if drift then px_drifts st + 1 else px_drifts st),
             px_blocks := hm_insert (px_blocks st) scope block_hash\<rparr>)"

definition context_summary :: "nat \<Rightarrow> json" where
  "context_summary n =
     JObj [(''content'', JStr (''[CrabCache] Long context ('' @ show_nat n @
              '' messages). Earlier turns are preserved above for upstream prefix cache; continue from this summary if needed.'')),
           (''role'', JStr ''user'')]"

definition maybe_append_context_summary :: "json list \<Rightarrow> nat \<Rightarrow> json list" where
  "maybe_append_context_summary messages threshold =
     (if threshold = 0 \<or> length messages \<le> threshold then messages
      else messages @ [context_summary (length messages)])"

definition upstream_model_for :: "string \<Rightarrow> string \<Rightarrow> string" where
  "upstream_model_for original_model fallback_model =
     (if starts_with original_model ''deepseek-'' then original_model else fallback_model)"

definition resolve_upstream_model :: "string \<Rightarrow> string option \<Rightarrow> string" where
  "resolve_upstream_model computed alias_upstream = (case alias_upstream of Some s \<Rightarrow> s | None \<Rightarrow> computed)"

definition apply_effective_user_id :: "json \<Rightarrow> string option \<Rightarrow> json" where
  "apply_effective_user_id prepared effective_user_id =
     (case non_empty effective_user_id of
        Some i \<Rightarrow> json_insert prepared ''user_id'' (JStr i)
      | None \<Rightarrow> json_remove prepared ''user_id'')"

section \<open>Request fields\<close>

definition supported_fields :: "json \<Rightarrow> json" where
  "supported_fields payload = json_retain (\<lambda>k. k \<in> set SUPPORTED_REQUEST_FIELDS) (object_or_empty payload)"

definition alias_max_tokens :: "json \<Rightarrow> json \<Rightarrow> json" where
  "alias_max_tokens payload prepared =
     (case json_get payload ''max_completion_tokens'' of
        Some mct \<Rightarrow> if json_get prepared ''max_tokens'' = None then json_insert prepared ''max_tokens'' mct else prepared
      | None \<Rightarrow> prepared)"

definition rename_role :: "json \<Rightarrow> json" where
  "rename_role msg =
     (case json_get_str msg ''role'' of
        Some role \<Rightarrow>
          if role = ''developer'' then json_insert msg ''role'' (JStr ''system'')
          else if role = ''function'' then json_insert msg ''role'' (JStr ''tool'')
          else msg
      | None \<Rightarrow> msg)"

definition normalize_message_roles_in_place :: "json \<Rightarrow> json" where
  "normalize_message_roles_in_place obj =
     (let obj = (case Option.bind (json_get obj ''messages'') as_array of
                   Some ms \<Rightarrow> json_insert obj ''messages'' (JArr (map rename_role ms))
                 | None \<Rightarrow> obj);
          obj = (case Option.bind (json_get obj ''tools'') as_array of
                   Some tools \<Rightarrow> json_insert obj ''tools'' (JArr (normalize_codex_tools_for_upstream tools))
                 | None \<Rightarrow> obj)
      in ensure_codex_file_tools_from_context obj)"

definition filter_supported_request_fields :: "json \<Rightarrow> json" where
  "filter_supported_request_fields payload =
     normalize_message_roles_in_place (alias_max_tokens payload (supported_fields payload))"

definition model_or :: "json \<Rightarrow> string \<Rightarrow> string" where
  "model_or payload d = (case json_get_str payload ''model'' of Some m \<Rightarrow> m | None \<Rightarrow> d)"

definition normalize_request_tools :: "json \<Rightarrow> json \<Rightarrow> json" where
  "normalize_request_tools payload prepared =
     (case Option.bind (json_get prepared ''tools'') as_array of
        Some tools \<Rightarrow> json_insert prepared ''tools'' (JArr (map normalize_tool tools))
      | None \<Rightarrow>
          (case Option.bind (json_get payload ''functions'') as_array of
             Some fs \<Rightarrow> json_insert prepared ''tools'' (JArr (map legacy_function_to_tool fs))
           | None \<Rightarrow> prepared))"

definition normalize_request_tool_choice :: "json \<Rightarrow> json \<Rightarrow> json" where
  "normalize_request_tool_choice payload prepared =
     (case json_get prepared ''tool_choice'' of
        Some tool_choice \<Rightarrow>
          (case normalize_tool_choice_for_deepseek tool_choice of
             Some normalized \<Rightarrow> json_insert prepared ''tool_choice'' normalized
           | None \<Rightarrow> json_remove prepared ''tool_choice'')
      | None \<Rightarrow>
          (case Option.bind (json_get payload ''function_call'') convert_function_call of
             Some converted \<Rightarrow> json_insert prepared ''tool_choice'' converted
           | None \<Rightarrow> prepared))"

section \<open>Light, generic and MiMo requests\<close>

record light_prepared_request =
  lp_payload :: json
  lp_original_model :: string
  lp_upstream_model :: string

definition prepare_light_request ::
    "norm_env \<Rightarrow> json \<Rightarrow> string \<Rightarrow> string option \<Rightarrow> string option \<Rightarrow> light_prepared_request" where
  "prepare_light_request E payload fallback_model alias_upstream effective_user_id =
     (let original_model = model_or payload fallback_model;
          computed = (if starts_with original_model ''deepseek-'' then original_model else fallback_model);
          upstream_model = resolve_upstream_model computed alias_upstream;
          prepared = json_insert (filter_supported_request_fields payload) ''model'' (JStr upstream_model);
          prepared = normalize_request_tool_choice payload (normalize_request_tools payload prepared);
          normalized = normalize_messages E (messages_list payload) None [] None False False;
          prepared = json_insert prepared ''messages'' (JArr (nm_messages normalized))
      in \<lparr>lp_payload = apply_effective_user_id prepared effective_user_id,
          lp_original_model = original_model, lp_upstream_model = upstream_model\<rparr>)"

record generic_prepared_request =
  gp_payload :: json
  gp_model :: string
  gp_retired_prefix_messages :: nat
  gp_tool_calls_repaired :: nat
  gp_serialized_body :: "string option"

definition prepare_generic_request :: "(json \<Rightarrow> string) \<Rightarrow> json \<Rightarrow> generic_prepared_request" where
  "prepare_generic_request ser payload =
     (let model = model_or payload ''gpt-4'';
          prepared = filter_supported_request_fields payload;
          prepared = (if json_get prepared ''model'' = None then json_insert prepared ''model'' (JStr model) else prepared)
      in \<lparr>gp_payload = prepared, gp_model = model, gp_retired_prefix_messages = 0,
          gp_tool_calls_repaired = 0, gp_serialized_body = Some (ser prepared)\<rparr>)"

definition normalize_mimo_model :: "string \<Rightarrow> string" where
  "normalize_mimo_model model =
     (if trim model = [] then []
      else map (\<lambda>c. if c = CHR ''_'' then CHR ''-'' else c) (to_lowercase (trim model)))"

definition mimo_model_defaults_to_thinking_enabled :: "string \<Rightarrow> bool" where
  "mimo_model_defaults_to_thinking_enabled model \<longleftrightarrow> \<not> ends_with (to_lowercase (trim model)) ''mimo-v2-flash''"

definition mimo_model_fixes_temperature_in_thinking :: "string \<Rightarrow> bool" where
  "mimo_model_fixes_temperature_in_thinking model \<longleftrightarrow>
     ends_with (to_lowercase (trim model)) ''mimo-v2.5-pro'' \<or> ends_with (to_lowercase (trim model)) ''mimo-v2.5''"

definition estimated_prepared_body_bytes :: "(json \<Rightarrow> string) \<Rightarrow> json \<Rightarrow> nat" where
  "estimated_prepared_body_bytes ser prepared = length (ser prepared)"

definition json_same :: "json option \<Rightarrow> json option \<Rightarrow> bool" where
  \<comment> \<open>equality of values: the order of an object's keys does not matter\<close>
  "json_same a b \<longleftrightarrow> map_option json_sorted a = map_option json_sorted b"

definition mimo_prepare_changes_wire_body :: "json \<Rightarrow> json \<Rightarrow> bool" where
  "mimo_prepare_changes_wire_body payload prepared \<longleftrightarrow>
     (case as_object payload of
        None \<Rightarrow> True
      | Some kvs \<Rightarrow>
          list_ex (\<lambda>(k, v). k \<notin> set SUPPORTED_REQUEST_FIELDS) kvs \<or>
          json_get_str payload ''model'' \<noteq> Some (normalize_mimo_model (model_or payload [])) \<or>
          (json_get payload ''max_completion_tokens'' \<noteq> None \<and> json_get payload ''max_tokens'' = None) \<or>
          \<not> json_same (json_get payload ''messages'') (json_get prepared ''messages'') \<or>
          \<not> json_same (json_get payload ''tools'') (json_get prepared ''tools''))"

definition mimo_thinking :: "bool \<Rightarrow> string \<Rightarrow> json \<Rightarrow> json" where
  "mimo_thinking codex model prepared =
     (if codex \<and> json_get prepared ''thinking'' = None \<and> mimo_model_defaults_to_thinking_enabled model
      then json_insert prepared ''thinking'' (JObj [(''type'', JStr ''enabled'')]) else prepared)"

definition mimo_temperature :: "string \<Rightarrow> json \<Rightarrow> json" where
  "mimo_temperature model prepared =
     (if Option.bind (json_get prepared ''thinking'') (\<lambda>v. json_get_str v ''type'') = Some ''enabled'' \<and>
         mimo_model_fixes_temperature_in_thinking model
      then json_remove prepared ''temperature'' else prepared)"

definition mimo_retire :: "(json \<Rightarrow> string) \<Rightarrow> bool \<Rightarrow> nat \<Rightarrow> json \<Rightarrow> (json \<times> nat) option" where
  \<comment> \<open>None is the panic of the retirement\<close>
  "mimo_retire ser retire keep_recent_turns prepared =
     (case Option.bind (json_get prepared ''messages'') as_array of
        Some messages \<Rightarrow>
          if retire \<and> 48 < length messages
          then (case retire_prefix_messages_by_turns ser messages keep_recent_turns of
                  None \<Rightarrow> None
                | Some (trimmed, _, _) \<Rightarrow>
                    (let n = length messages - length trimmed
                     in Some (if 0 < n then json_insert prepared ''messages'' (JArr trimmed) else prepared, n)))
          else Some (prepared, 0)
      | None \<Rightarrow> Some (prepared, 0))"

record mimo_messages =
  mm_messages :: "json list"
  mm_calls_repaired :: nat
  mm_content_repaired :: nat
  mm_results_compressed :: nat
  mm_compacted :: nat

definition mimo_rewrite_messages ::
    "norm_env \<Rightarrow> (string \<Rightarrow> string) \<Rightarrow> bool \<Rightarrow> bool \<Rightarrow> json list \<Rightarrow> mimo_messages" where
  "mimo_rewrite_messages E ansi codex compress messages =
     (let (ms1, n1) = (if compress then compress_mimo_codex_tool_results_in_messages ansi messages else (messages, 0));
          (ms2, compacted) = (if codex then compact_mimo_codex_historical_tool_chain ansi (ne_ser E) ms1 else (ms1, 0));
          (ms3, n3) = (if codex \<and> 0 < compacted then compress_mimo_codex_tool_results_in_messages ansi ms2 else (ms2, 0));
          (ms4, contents) = sanitize_mimo_message_content_in_messages (ne_ser E) ms3;
          (ms5, calls) = sanitize_mimo_tool_calls_in_messages E ms4
      in \<lparr>mm_messages = ms5, mm_calls_repaired = calls, mm_content_repaired = contents,
          mm_results_compressed = n1 + n3, mm_compacted = compacted\<rparr>)"

definition prepare_mimo_request_inner ::
    "norm_env \<Rightarrow> (string \<Rightarrow> string) \<Rightarrow> json \<Rightarrow> string \<Rightarrow> bool \<Rightarrow> nat \<Rightarrow> bool \<Rightarrow> generic_prepared_request option" where
  "prepare_mimo_request_inner E ansi payload fallback_model retire_prefix keep_recent_turns codex =
     (let normalized = normalize_mimo_model (model_or payload fallback_model);
          model = (if normalized = [] then normalize_mimo_model fallback_model else normalized);
          prepared = json_insert (filter_supported_request_fields payload) ''model'' (JStr model);
          prepared = mimo_temperature model (mimo_thinking codex model prepared)
      in case mimo_retire (ne_ser E) (retire_prefix \<and> \<not> codex) keep_recent_turns prepared of
           None \<Rightarrow> None
         | Some (prepared, retired) \<Rightarrow>
             (let compress = codex \<and> MIMO_CODEX_COMPRESSION_TRIGGER_BYTES <
                               estimated_prepared_body_bytes (ne_ser E) prepared;
                  rewritten = map_option (mimo_rewrite_messages E ansi codex compress)
                                (Option.bind (json_get prepared ''messages'') as_array);
                  final = (case rewritten of
                             Some mm \<Rightarrow> json_insert prepared ''messages'' (JArr (mm_messages mm))
                           | None \<Rightarrow> prepared);
                  changed = (case rewritten of
                               Some mm \<Rightarrow> 0 < mm_calls_repaired mm \<or> 0 < mm_content_repaired mm \<or>
                                          0 < mm_results_compressed mm \<or> 0 < mm_compacted mm
                             | None \<Rightarrow> False)
              in Some \<lparr>gp_payload = final, gp_model = model, gp_retired_prefix_messages = retired,
                       gp_tool_calls_repaired = (case rewritten of Some mm \<Rightarrow> mm_calls_repaired mm | None \<Rightarrow> 0),
                       gp_serialized_body =
                         (if 0 < retired \<or> changed \<or> mimo_prepare_changes_wire_body payload final
                          then Some (ne_ser E final) else None)\<rparr>))"

definition prepare_mimo_request ::
    "norm_env \<Rightarrow> (string \<Rightarrow> string) \<Rightarrow> json \<Rightarrow> string \<Rightarrow> bool \<Rightarrow> nat \<Rightarrow> generic_prepared_request option" where
  "prepare_mimo_request E ansi payload fallback_model retire_prefix keep_recent_turns =
     prepare_mimo_request_inner E ansi payload fallback_model retire_prefix keep_recent_turns False"

definition prepare_codex_mimo_request ::
    "norm_env \<Rightarrow> (string \<Rightarrow> string) \<Rightarrow> json \<Rightarrow> string \<Rightarrow> bool \<Rightarrow> nat \<Rightarrow> generic_prepared_request option" where
  "prepare_codex_mimo_request E ansi payload fallback_model retire_prefix keep_recent_turns =
     prepare_mimo_request_inner E ansi payload fallback_model retire_prefix keep_recent_turns True"

definition mimo_outbound_body :: "string \<Rightarrow> generic_prepared_request \<Rightarrow> string" where
  \<comment> \<open>\<open>ctx.new_request_body.clone().unwrap_or_else(|| full_body.clone())\<close>\<close>
  "mimo_outbound_body full_body prepared =
     (case gp_serialized_body prepared of Some b \<Rightarrow> b | None \<Rightarrow> full_body)"

section \<open>DeepSeek V4 requests\<close>

record upstream_args =
  ua_upstream_base_url :: string
  ua_fallback_model :: string
  ua_thinking_mode :: string
  ua_reasoning_effort :: string
  ua_missing_reasoning_strategy :: string
  ua_context_summary_message_threshold :: nat
  ua_prefix_validate :: bool
  ua_authorization :: "string option"
  ua_stable_session_id :: "string option"
  ua_alias_upstream :: "string option"
  ua_effective_user_id :: "string option"

record prepared_request =
  pr_payload :: json
  pr_original_model :: string
  pr_upstream_model :: string
  pr_cache_namespace :: string
  pr_patched_reasoning_messages :: nat
  pr_missing_reasoning_messages :: nat
  pr_recovered_reasoning_messages :: nat
  pr_recovery_dropped_messages :: nat
  pr_retired_prefix_messages :: nat
  pr_prefix_tokens_before :: nat
  pr_prefix_tokens_after :: nat
  pr_recovery_notice :: "string option"
  pr_record_response_scope :: string
  pr_record_response_messages :: "json list"
  pr_record_response_contexts :: "(string \<times> json list) list"

definition include_stream_usage :: "json \<Rightarrow> json" where
  "include_stream_usage prepared =
     (if Option.bind (json_get prepared ''stream'') as_bool = Some True
      then json_insert prepared ''stream_options''
             (json_insert (object_or_empty (get_or prepared ''stream_options'' (JObj []))) ''include_usage'' (JBool True))
      else prepared)"

definition set_thinking :: "string \<Rightarrow> json \<Rightarrow> json" where
  "set_thinking thinking_mode prepared =
     json_insert prepared ''thinking'' (JObj [(''type'', JStr thinking_mode)])"

definition set_effort :: "json \<Rightarrow> string \<Rightarrow> string \<Rightarrow> json \<Rightarrow> json" where
  "set_effort payload thinking_mode reasoning_effort prepared =
     (if thinking_mode = ''enabled''
      then json_insert prepared ''reasoning_effort''
             (JStr (normalize_reasoning_effort
                (case json_get_str payload ''reasoning_effort'' of Some e \<Rightarrow> e | None \<Rightarrow> reasoning_effort)))
      else prepared)"

definition upstream_fields :: "json \<Rightarrow> string \<Rightarrow> string \<Rightarrow> string \<Rightarrow> json" where
  \<comment> \<open>the prepared request before its messages are set\<close>
  "upstream_fields payload upstream_model thinking_mode reasoning_effort =
     set_effort payload thinking_mode reasoning_effort
       (set_thinking thinking_mode
         (normalize_request_tool_choice payload
           (normalize_request_tools payload
             (include_stream_usage
               (json_insert (alias_max_tokens payload (supported_fields payload)) ''model'' (JStr upstream_model))))))"

definition MIN_MESSAGES_FOR_TURN_RETIREMENT :: nat where
  "MIN_MESSAGES_FOR_TURN_RETIREMENT = 20"

definition KEEP_RECENT_TURNS :: nat where
  "KEEP_RECENT_TURNS = 5"

record retirement =
  rt_messages :: "json list"
  rt_retired :: nat
  rt_tokens_before :: nat
  rt_tokens_after :: nat

definition boundary_retirement :: "bool \<Rightarrow> json list \<Rightarrow> retirement" where
  "boundary_retirement applies messages =
     (case (if applies then active_messages_from_recovery_boundary messages else None) of
        Some (active, retired, _) \<Rightarrow>
          \<lparr>rt_messages = active, rt_retired = retired, rt_tokens_before = 0, rt_tokens_after = 0\<rparr>
      | None \<Rightarrow> \<lparr>rt_messages = messages, rt_retired = 0, rt_tokens_before = 0, rt_tokens_after = 0\<rparr>)"

definition turn_retirement :: "(json \<Rightarrow> string) \<Rightarrow> retirement \<Rightarrow> retirement option" where
  "turn_retirement ser rt =
     (if rt_retired rt = 0 \<and> MIN_MESSAGES_FOR_TURN_RETIREMENT \<le> length (rt_messages rt)
      then (case retire_prefix_messages_by_turns ser (rt_messages rt) KEEP_RECENT_TURNS of
              None \<Rightarrow> None
            | Some (trimmed, before, after) \<Rightarrow>
                Some (if length trimmed < length (rt_messages rt)
                      then \<lparr>rt_messages = trimmed, rt_retired = rt_retired rt + (length (rt_messages rt) - length trimmed),
                            rt_tokens_before = before, rt_tokens_after = after\<rparr>
                      else rt))
      else Some rt)"

record recovery_state =
  rv_result :: normalize_messages_result
  rv_recovered :: nat
  rv_dropped :: nat
  rv_notice :: "string option"

definition open_history :: "json list \<Rightarrow> json list" where
  \<comment> \<open>what follows the system messages at the start\<close>
  "open_history ms = dropWhile (has_role ''system'') ms"

lemma open_history_leading: "length (open_history ms) = length ms - length (leading_system_messages ms)"
  unfolding open_history_def leading_system_messages_def
  by (metis add_diff_cancel_left' length_append takeWhile_dropWhile_id)

lemma open_history_mono:
  assumes "list_all2 (\<lambda>a b. has_role ''system'' a \<longrightarrow> has_role ''system'' b) as bs"
  shows "length (open_history bs) \<le> length (open_history as)"
  using assms unfolding open_history_def
proof (induction rule: list_all2_induct)
  case (Cons a as b bs)
  then show ?case
    using length_dropWhile_le [of "has_role ''system''" bs] list_all2_lengthD [OF Cons(2)] by auto
qed simp

lemma open_history_normalized:
  "length (open_history (nm_messages (normalize_messages E ms store ns session repair keep))) \<le> length (open_history ms)"
proof (rule open_history_mono, rule list_all2_all_nthI)
  fix i assume "i < length ms"
  then show "has_role ''system'' (ms ! i) \<longrightarrow>
      has_role ''system'' (nm_messages (normalize_messages E ms store ns session repair keep) ! i)"
    by (simp add: nth_normalize_messages has_role_def normalized_role message_role_or_user_def upstream_role_def)
qed simp

lemma open_history_recovered:
  "open_history (leading_system_messages ms @ recovery_system_message # rest) = open_history rest"
proof -
  have "dropWhile P (takeWhile P xs @ ys) = dropWhile P ys" for P and xs ys :: "json list"
    by (induction xs) auto
  then show ?thesis
    by (simp add: open_history_def leading_system_messages_def recovery_system_message_def has_role_def json_get_str_def)
qed

lemma length_open_history_le: "length (open_history ms) \<le> length ms"
  by (simp add: open_history_def length_dropWhile_le)

lemma from_boundary_shrinks:
  assumes "from_boundary ms i = (recovered, u, d)" and "0 < d" and "i < length ms"
  shows "length (open_history recovered) < length (open_history ms)"
proof -
  define tail where "tail = (case last_index (has_role ''user'') (take i ms) of Some u \<Rightarrow> [ms ! u] | None \<Rightarrow> []) @ drop i ms"
  define k where "k = (if last_index (has_role ''user'') (take i ms) \<noteq> None then 1 else 0 :: nat)"
  have r: "recovered = leading_system_messages ms @ recovery_system_message # tail"
    and d: "d = i - (length (leading_system_messages ms) + k)"
    using assms(1) by (auto simp: from_boundary_def Let_def tail_def k_def)
  have "length tail = k + (length ms - i)" by (simp add: tail_def k_def split: option.split)
  then have "length (open_history recovered) \<le> k + (length ms - i)"
    using length_open_history_le [of tail] by (simp add: r open_history_recovered)
  then show ?thesis using d assms(2,3) by (simp add: open_history_leading)
qed

lemma last_index_less: "last_index P xs = Some i \<Longrightarrow> i < length xs"
  using first_index_SomeD by (fastforce simp: last_index_def)

lemma recovery_shrinks:
  assumes "recover_messages_from_missing_reasoning ms missing = (recovered, d, notice, step)" and "0 < d"
  shows "length (open_history recovered) < length (open_history ms)"
proof -
  let ?b = "last_index (\<lambda>m. has_recovery_notice m \<and>
             list_ex (\<lambda>idx. idx < length ms \<and> \<not> has_recovery_notice (ms ! idx)) missing) ms"
  show ?thesis
  proof (cases ?b)
    case (Some i)
    then obtain u where "from_boundary ms i = (recovered, u, d)"
      using assms(1) by (auto simp: recover_messages_from_missing_reasoning_def split: prod.splits)
    then show ?thesis using from_boundary_shrinks assms(2) last_index_less [OF Some] by blast
  next
    case None
    then obtain lui where "recovered = leading_system_messages ms @ recovery_system_message # [ms ! lui]"
        "d = length ms - length (leading_system_messages ms) - 1"
      using assms by (auto simp: recover_messages_from_missing_reasoning_def Let_def split: option.splits)
    then show ?thesis
      using assms(2) length_open_history_le [of "[ms ! lui]"]
      by (simp add: open_history_recovered open_history_leading [of ms])
  qed
qed

function recovery_loop ::
    "norm_env \<Rightarrow> store_get \<Rightarrow> string \<Rightarrow> string option \<Rightarrow> bool \<Rightarrow> bool \<Rightarrow> recovery_state \<Rightarrow> recovery_state" where
  \<comment> \<open>the \<open>while\<close> loop of \<open>prepare_upstream_request\<close>; whether it is entered does not change inside\<close>
  "recovery_loop E store ns session repair keep st =
     (if nm_missing_indexes (rv_result st) = [] then st
      else case recover_messages_from_missing_reasoning (nm_messages (rv_result st))
                  (nm_missing_indexes (rv_result st)) of
             (recovered, dropped, notice, step) \<Rightarrow>
               if dropped = 0 then st
               else recovery_loop E store ns session repair keep
                 \<lparr>rv_result = normalize_messages E recovered store ns session repair keep,
                  rv_recovered = rv_recovered st + length (nm_missing_indexes (rv_result st)),
                  rv_dropped = rv_dropped st + dropped,
                  rv_notice = or_else notice (rv_notice st)\<rparr>)"
  by pat_completeness auto

termination recovery_loop
proof (relation "measure (\<lambda>(E, store, ns, session, repair, keep, st). length (open_history (nm_messages (rv_result st))))",
    goal_cases)
  case 1
  show ?case by simp
next
  case 2
  then show ?case
    by (auto intro!: le_less_trans [OF open_history_normalized] elim!: recovery_shrinks [OF sym])
qed

declare recovery_loop.simps [simp del]

definition session_repair ::
    "norm_env \<Rightarrow> store_get \<Rightarrow> string \<Rightarrow> string option \<Rightarrow> bool \<Rightarrow> bool \<Rightarrow> normalize_messages_result \<Rightarrow>
     json list \<Rightarrow> normalize_messages_result \<times> json list" where
  \<comment> \<open>in a session the missing reasoning is patched in place; with the messages to record\<close>
  "session_repair E store ns session enabled keep result record_messages =
     (if non_blank session \<noteq> None \<and> enabled \<and> nm_missing_indexes result \<noteq> []
      then (case patch_missing_reasoning_inplace E (nm_messages result) (nm_missing_indexes result) store ns
                   (non_blank session) of
              (repaired, inline_patched) \<Rightarrow>
                (let again = normalize_messages E repaired store ns session enabled keep
                 in (again\<lparr>nm_patched_count := nm_patched_count again + inline_patched\<rparr>,
                     if 0 < inline_patched then nm_messages again else record_messages)))
      else (result, record_messages))"

definition effective_thinking :: "json \<Rightarrow> upstream_args \<Rightarrow> string" where
  "effective_thinking payload A =
     (case thinking_mode_override (parse_deepseek_v4_thinking_suffix (model_or payload (ua_fallback_model A))) of
        Some t \<Rightarrow> t | None \<Rightarrow> ua_thinking_mode A)"

definition effective_effort :: "json \<Rightarrow> upstream_args \<Rightarrow> string" where
  "effective_effort payload A =
     (case reasoning_effort_override (parse_deepseek_v4_thinking_suffix (model_or payload (ua_fallback_model A))) of
        Some e \<Rightarrow> e | None \<Rightarrow> ua_reasoning_effort A)"

definition effective_upstream_model :: "json \<Rightarrow> upstream_args \<Rightarrow> string" where
  "effective_upstream_model payload A =
     resolve_upstream_model
       (upstream_model_for (base_model (parse_deepseek_v4_thinking_suffix (model_or payload (ua_fallback_model A))))
          (ua_fallback_model A))
       (ua_alias_upstream A)"

definition request_namespace :: "norm_env \<Rightarrow> json \<Rightarrow> string \<Rightarrow> string \<Rightarrow> upstream_args \<Rightarrow> string" where
  "request_namespace E prepared upstream_model reasoning_effort A =
     reasoning_cache_namespace E (ua_upstream_base_url A) upstream_model (get_or prepared ''thinking'' JNull)
       (case json_get_str prepared ''reasoning_effort'' of Some e \<Rightarrow> e | None \<Rightarrow> reasoning_effort)
       (ua_authorization A) (ua_effective_user_id A)"

record upstream_history =
  uh_pre :: "json list"                 \<comment> \<open>\<open>pre_repair.messages\<close>\<close>
  uh_retirement :: retirement
  uh_record :: "json list"              \<comment> \<open>\<open>record_response_messages\<close>\<close>
  uh_recovery :: recovery_state

definition repair_history ::
    "norm_env \<Rightarrow> string \<Rightarrow> string \<Rightarrow> json list \<Rightarrow> store_get \<Rightarrow> upstream_args \<Rightarrow> upstream_history option" where
  \<comment> \<open>the messages of \<open>prepare_upstream_request\<close>; None would be the panic of the retirement\<close>
  "repair_history E thinking_mode ns raw store A =
     (let enabled = (thinking_mode = ''enabled'');
          keep = (thinking_mode \<noteq> ''disabled'');
          session = ua_stable_session_id A;
          recover = (ua_missing_reasoning_strategy A = ''recover'' \<and> non_blank session = None);
          pre = nm_messages (normalize_messages E (strip_recovery_notice_for_upstream raw) None ns session False keep)
      in case turn_retirement (ne_ser E) (boundary_retirement (enabled \<and> recover) pre) of
           None \<Rightarrow> None
         | Some rt \<Rightarrow>
             (let result = normalize_messages E (rt_messages rt) store ns session enabled keep;
                  repaired = session_repair E store ns session enabled keep result pre;
                  rv = \<lparr>rv_result = fst repaired, rv_recovered = 0, rv_dropped = 0, rv_notice = None\<rparr>
              in Some \<lparr>uh_pre = pre, uh_retirement = rt, uh_record = snd repaired,
                       uh_recovery = (if recover then recovery_loop E store ns session enabled keep rv else rv)\<rparr>))"

definition final_messages :: "upstream_args \<Rightarrow> upstream_history \<Rightarrow> json list" where
  "final_messages A h =
     maybe_append_context_summary (nm_messages (rv_result (uh_recovery h))) (ua_context_summary_message_threshold A)"

definition assemble_request ::
    "norm_env \<Rightarrow> json \<Rightarrow> upstream_args \<Rightarrow> json \<Rightarrow> string \<Rightarrow> upstream_history \<Rightarrow> prepared_request" where
  \<comment> \<open>the value \<open>prepare_upstream_request\<close> returns, from its parts\<close>
  "assemble_request E payload A prepared ns h =
     (let rv = uh_recovery h;
          final = final_messages A h;
          scope = resolve_reasoning_scope (ne_sha E) (ne_ser E) (ua_stable_session_id A) (uh_pre h) ns;
          active_scope = resolve_reasoning_scope (ne_sha E) (ne_ser E) (ua_stable_session_id A) final ns;
          prepared = json_insert prepared ''messages'' (JArr (strip_recovery_notice_for_upstream final))
      in \<lparr>pr_payload = apply_effective_user_id prepared (ua_effective_user_id A),
          pr_original_model = model_or payload (ua_fallback_model A),
          pr_upstream_model = effective_upstream_model payload A, pr_cache_namespace = ns,
          pr_patched_reasoning_messages = nm_patched_count (rv_result rv),
          pr_missing_reasoning_messages = length (nm_missing_indexes (rv_result rv)),
          pr_recovered_reasoning_messages = rv_recovered rv,
          pr_recovery_dropped_messages = rv_dropped rv,
          pr_retired_prefix_messages = rt_retired (uh_retirement h),
          pr_prefix_tokens_before = rt_tokens_before (uh_retirement h),
          pr_prefix_tokens_after = rt_tokens_after (uh_retirement h),
          pr_recovery_notice = (if history_has_recovery_notice (messages_list payload) then None else rv_notice rv),
          pr_record_response_scope = scope, pr_record_response_messages = uh_record h,
          pr_record_response_contexts =
            (scope, uh_record h) # (if active_scope \<noteq> scope then [(active_scope, final)] else [])\<rparr>)"

definition track_prefix ::
    "norm_env \<Rightarrow> upstream_args \<Rightarrow> json \<Rightarrow> string \<Rightarrow> upstream_history \<Rightarrow> prefix_state \<Rightarrow> prefix_state" where
  \<comment> \<open>what \<open>prepare_upstream_request\<close> does to the process-wide tables and counters\<close>
  "track_prefix E A prepared ns h st =
     (let scope = resolve_reasoning_scope (ne_sha E) (ne_ser E) (ua_stable_session_id A) (uh_pre h) ns;
          st = track_immutable_prefix_block st scope
                 (immutable_prefix_block_hash (ne_sha E) (ne_ser E) (uh_pre h) (json_get prepared ''tools''));
          st = (if ua_prefix_validate A then validate_prefix_append_only E st scope (uh_pre h) else st)
      in if length (final_messages A h) = length (nm_messages (rv_result (uh_recovery h))) then st
         else st\<lparr>px_summaries := px_summaries st + 1\<rparr>)"

definition prepared_fields :: "json \<Rightarrow> upstream_args \<Rightarrow> json" where
  "prepared_fields payload A =
     upstream_fields payload (effective_upstream_model payload A) (effective_thinking payload A) (effective_effort payload A)"

definition prepare_upstream_request ::
    "norm_env \<Rightarrow> prefix_state \<Rightarrow> json \<Rightarrow> store_get \<Rightarrow> upstream_args \<Rightarrow> (prepared_request \<times> prefix_state) option" where
  "prepare_upstream_request E st payload store A =
     (let prepared = prepared_fields payload A;
          ns = request_namespace E prepared (effective_upstream_model payload A) (effective_effort payload A) A
      in map_option (\<lambda>h. (assemble_request E payload A prepared ns h, track_prefix E A prepared ns h st))
           (repair_history E (effective_thinking payload A) ns (messages_list payload) store A))"

section \<open>Repaired histories\<close>

lemma lacks_reasoning_cong:
  assumes "length ms = length ns" and "i < length ms"
    and "\<And>j. j < length ms \<Longrightarrow> json_get (ms ! j) ''role'' = json_get (ns ! j) ''role''"
    and "json_get (ms ! i) ''tool_calls'' = json_get (ns ! i) ''tool_calls''"
    and "json_get (ms ! i) ''reasoning_content'' = json_get (ns ! i) ''reasoning_content''"
  shows "lacks_reasoning ms i = lacks_reasoning ns i"
proof -
  have "map (\<lambda>m. json_get_str m ''role'') (take i ms) = map (\<lambda>m. json_get_str m ''role'') (take i ns)"
    using assms(1-3) by (auto simp: list_eq_iff_nth_eq json_get_str_def)
  moreover have "has_tool_calls (ms ! i) = has_tool_calls (ns ! i)"
    by (simp add: has_tool_calls_iff tool_calls_of_def assms(4))
  ultimately have "assistant_needs_reasoning_for_tool_context (ms ! i) (take i ms) =
      assistant_needs_reasoning_for_tool_context (ns ! i) (take i ns)" by (rule needs_cong_roles [rotated])
  then show ?thesis using assms(2,3,5) by (simp add: lacks_reasoning_def has_role_def json_get_str_def)
qed

lemma strip_notice_get: "k \<noteq> ''content'' \<Longrightarrow> json_get (strip_notice m) k = json_get m k"
  by (simp add: strip_notice_def Let_def norm_get split: option.split)

lemma length_strip_notice [simp]: "length (strip_recovery_notice_for_upstream ms) = length ms"
  by (simp add: strip_recovery_notice_for_upstream_def)

lemma stripped_lacks:
  "i < length ms \<Longrightarrow> lacks_reasoning (strip_recovery_notice_for_upstream ms) i = lacks_reasoning ms i"
  by (rule lacks_reasoning_cong) (simp_all add: strip_recovery_notice_for_upstream_def strip_notice_get)

definition reasoning_complete :: "json list \<Rightarrow> bool" where
  \<comment> \<open>every assistant message of a tool context carries its reasoning\<close>
  "reasoning_complete ms \<longleftrightarrow> list_all (\<lambda>i. \<not> lacks_reasoning ms i) [0..<length ms]"

lemma reasoning_complete_iff: "reasoning_complete ms \<longleftrightarrow> (\<forall>i < length ms. \<not> lacks_reasoning ms i)"
  by (auto simp: reasoning_complete_def list_all_iff)

lemma reasoning_complete_strip [simp]:
  "reasoning_complete (strip_recovery_notice_for_upstream ms) = reasoning_complete ms"
  by (simp add: reasoning_complete_iff stripped_lacks)

lemma reasoning_complete_summary [simp]:
  "reasoning_complete (maybe_append_context_summary ms n) = reasoning_complete ms"
proof -
  have "\<not> lacks_reasoning (ms @ [context_summary k]) (length ms)" for k
    by (simp add: lacks_reasoning_def context_summary_def has_role_def json_get_str_def)
  then show ?thesis
    by (auto simp: maybe_append_context_summary_def reasoning_complete_iff less_Suc_eq lacks_reasoning_append)
qed

lemma no_missing_complete:
  "nm_missing_indexes (normalize_messages E ms store ns session True True) = [] \<longleftrightarrow>
   reasoning_complete (nm_messages (normalize_messages E ms store ns session True True))"
  by (auto simp: missing_indexes_exact filter_empty_conv reasoning_complete_iff)

lemma session_repair_complete:
  assumes "non_blank session \<noteq> None"
    and "session_repair E store ns session True True (normalize_messages E ms store ns session True True) rec = (result, rec')"
  shows "nm_missing_indexes result = []" and "reasoning_complete (nm_messages result)"
    and "length (nm_messages result) = length ms"
proof -
  let ?N = "normalize_messages E ms store ns session True True"
  let ?P = "patch_missing_reasoning_inplace E (nm_messages ?N) (nm_missing_indexes ?N) store ns (non_blank session)"
  have "nm_missing_indexes result = [] \<and> reasoning_complete (nm_messages result) \<and> length (nm_messages result) = length ms"
  proof (cases "nm_missing_indexes ?N = []")
    case True
    then show ?thesis using assms by (auto simp: session_repair_def no_missing_complete)
  next
    case False
    then have "\<exists>n. result = (normalize_messages E (fst ?P) store ns session True True)\<lparr>nm_patched_count := n\<rparr>"
      using assms by (auto simp: session_repair_def Let_def split: prod.splits)
    moreover have "length (fst ?P) = length ms"
      using patched_history_complete [of E ms store ns session "non_blank session"] by simp
    ultimately show ?thesis
      using patched_history_complete [of E ms store ns session "non_blank session"]
      by (auto simp: no_missing_complete)
  qed
  then show "nm_missing_indexes result = []" "reasoning_complete (nm_messages result)"
    "length (nm_messages result) = length ms" by auto
qed

lemma messages_list_prepared:
  "messages_list (apply_effective_user_id (json_insert v ''messages'' (JArr ms)) u) = (if is_object v then ms else messages_list v)"
  by (simp add: messages_list_def apply_effective_user_id_def norm_get split: option.split)

lemma is_object_request_steps [simp]:
  "is_object (set_effort payload t e v) = is_object v"
  "is_object (set_thinking t v) = is_object v"
  "is_object (normalize_request_tool_choice payload v) = is_object v"
  "is_object (normalize_request_tools payload v) = is_object v"
  "is_object (include_stream_usage v) = is_object v"
  "is_object (alias_max_tokens payload v) = is_object v"
  by (simp_all add: set_effort_def set_thinking_def normalize_request_tool_choice_def
      normalize_request_tools_def include_stream_usage_def alias_max_tokens_def split: option.split)

lemma upstream_fields_object: "is_object (upstream_fields payload m t e)"
  by (simp add: upstream_fields_def supported_fields_def)

lemma prepare_upstream_SomeE:
  assumes "prepare_upstream_request E st payload store A = Some (pr, st')"
  obtains ns h where "repair_history E (effective_thinking payload A) ns (messages_list payload) store A = Some h"
    and "pr = assemble_request E payload A (prepared_fields payload A) ns h"
  using assms by (auto simp: prepare_upstream_request_def Let_def)

lemma assembled_messages:
  "messages_list (pr_payload (assemble_request E payload A (prepared_fields payload A) ns h)) =
     strip_recovery_notice_for_upstream (final_messages A h)"
  by (simp add: assemble_request_def Let_def messages_list_prepared prepared_fields_def upstream_fields_object)

lemma repair_history_session:
  assumes "repair_history E ''enabled'' ns raw store A = Some h" and "non_blank (ua_stable_session_id A) \<noteq> None"
  shows "nm_missing_indexes (rv_result (uh_recovery h)) = [] \<and> rv_dropped (uh_recovery h) = 0 \<and>
    reasoning_complete (nm_messages (rv_result (uh_recovery h))) \<and>
    length (nm_messages (rv_result (uh_recovery h))) = length (rt_messages (uh_retirement h))"
proof -
  let ?N = "normalize_messages E (rt_messages (uh_retirement h)) store ns (ua_stable_session_id A) True True"
  have rv: "uh_recovery h = \<lparr>rv_result = fst (session_repair E store ns (ua_stable_session_id A) True True ?N (uh_pre h)),
      rv_recovered = 0, rv_dropped = 0, rv_notice = None\<rparr>"
    using assms by (auto simp: repair_history_def Let_def split: option.splits)
  show ?thesis
    using session_repair_complete [OF assms(2) prod.collapse [symmetric]] unfolding rv by simp
qed


section \<open>The preparation always returns\<close>

lemma retire_total: "0 < keep \<Longrightarrow> retire_prefix_messages_by_turns ser ms keep \<noteq> None"
  by (auto simp: retire_prefix_messages_by_turns_def Let_def)

lemma turn_retirement_total: "turn_retirement ser rt \<noteq> None"
  using retire_total [of KEEP_RECENT_TURNS ser "rt_messages rt"]
  by (auto simp: turn_retirement_def KEEP_RECENT_TURNS_def)

lemma prepare_upstream_total: "\<exists>pr st'. prepare_upstream_request E st payload store A = Some (pr, st')"
proof -
  have "repair_history E t ns raw store A \<noteq> None" for t ns raw
    using turn_retirement_total by (auto simp: repair_history_def Let_def split: option.split)
  then show ?thesis by (auto simp: prepare_upstream_request_def Let_def)
qed

text \<open>
  C16. The preparation of a DeepSeek V4 request returns for every request, store and configuration:
  its recovery loop ends and the retirement of turns does not panic.
\<close>
theorem upstream_preparation_returns:
  "\<exists>pr st'. prepare_upstream_request E st payload store A = Some (pr, st')"
  by (rule prepare_upstream_total)

section \<open>Recovery without a session\<close>

lemma lacks_in_open_history:
  assumes "i < length ms" and "lacks_reasoning ms i"
  shows "length (leading_system_messages ms) \<le> i"
proof (rule ccontr)
  assume "\<not> ?thesis"
  then have "ms ! i \<in> set (takeWhile (has_role ''system'') ms)"
    by (metis leading_system_messages_def not_le nth_mem takeWhile_nth)
  then have "has_role ''system'' (ms ! i)" by (rule set_takeWhileD [THEN conjunct2])
  then show False using assms(2) by (simp add: lacks_reasoning_def has_role_def)
qed

lemma last_index_SomeD:
  assumes "last_index P xs = Some i"
  shows "P (xs ! i)"
proof -
  obtain j where j: "first_index P (rev xs) = Some j" "i = length xs - 1 - j" using assms by (auto simp: last_index_def)
  have "j < length xs" "P (rev xs ! j)" using first_index_SomeD [OF j(1)] by auto
  then show ?thesis using j(2) by (simp add: rev_nth)
qed

lemma last_index_None: "last_index P xs = None \<longleftrightarrow> (\<forall>x \<in> set xs. \<not> P x)"
  by (simp add: last_index_def first_index_None_iff list_all_iff)

lemma no_assistant_complete: "(\<And>m. m \<in> set ms \<Longrightarrow> \<not> has_role ''assistant'' m) \<Longrightarrow> reasoning_complete ms"
  by (auto simp: reasoning_complete_iff lacks_reasoning_def)

lemma latest_user_recovery:
  assumes "list_ex (has_role ''user'') ms" and "\<not> history_has_recovery_notice ms"
    and "\<And>m. m \<in> set ms \<Longrightarrow> settled m" and "i < length ms" and "lacks_reasoning ms i"
  obtains recovered d notice step where
    "recover_messages_from_missing_reasoning ms missing = (recovered, d, notice, step)" and "0 < d"
    and "list_all (\<lambda>m. has_role ''system'' m \<or> has_role ''user'' m) recovered"
proof -
  have b: "last_index (\<lambda>m. has_recovery_notice m \<and>
      list_ex (\<lambda>idx. idx < length ms \<and> \<not> has_recovery_notice (ms ! idx)) missing) ms = None"
    using assms(2) by (auto simp: last_index_None history_has_recovery_notice_def list_ex_iff)
  obtain u where u: "last_index (has_role ''user'') ms = Some u"
    using assms(1) last_index_None [of "has_role ''user''" ms] by (cases "last_index (has_role ''user'') ms") (auto simp: list_ex_iff)
  have user: "has_role ''user'' (ms ! u)" by (rule last_index_SomeD [OF u])
  let ?L = "length (leading_system_messages ms)"
  have "?L \<le> i" by (rule lacks_in_open_history [OF assms(4,5)])
  moreover have "?L \<le> u"
  proof (rule ccontr)
    assume "\<not> ?L \<le> u"
    then have "ms ! u \<in> set (takeWhile (has_role ''system'') ms)"
      by (metis leading_system_messages_def not_le nth_mem takeWhile_nth)
    then have "has_role ''system'' (ms ! u)" by (rule set_takeWhileD [THEN conjunct2])
    then show False using user by (simp add: has_role_def)
  qed
  moreover have "i \<noteq> u" using user assms(5) by (auto simp: lacks_reasoning_def has_role_def)
  ultimately have d: "0 < length ms - ?L - 1" using assms(4) last_index_less [OF u] by linarith
  have roles: "list_all (\<lambda>m. has_role ''system'' m \<or> has_role ''user'' m)
      (leading_system_messages ms @ [recovery_system_message] @ [ms ! u])"
    using user set_takeWhileD [of _ "has_role ''system''" ms]
    by (auto simp: leading_system_messages_def recovery_system_message_def has_role_def json_get_str_def list_all_iff)
  show thesis
    using that [OF _ d roles] b u by (simp add: recover_messages_from_missing_reasoning_def Let_def)
qed

lemma normalized_system_or_user:
  assumes "list_all (\<lambda>m. has_role ''system'' m \<or> has_role ''user'' m) ms"
  shows "reasoning_complete (nm_messages (normalize_messages E ms store ns session repair keep))"
proof (rule no_assistant_complete)
  fix m assume "m \<in> set (nm_messages (normalize_messages E ms store ns session repair keep))"
  then obtain i where i: "i < length ms" "m = nm_messages (normalize_messages E ms store ns session repair keep) ! i"
    by (auto simp: in_set_conv_nth)
  then have "has_role ''system'' (ms ! i) \<or> has_role ''user'' (ms ! i)" using assms by (simp add: list_all_length)
  then show "\<not> has_role ''assistant'' m"
    using i by (auto simp: nth_normalize_messages has_role_def normalized_role message_role_or_user_def upstream_role_def)
qed

text \<open>
  C15. Without a session, recovery leaves no reasoning missing as long as the history has a user
  message and shows no earlier recovery notice.
\<close>
theorem recovery_completes:
  assumes "rv_result st = normalize_messages E ms store ns session True True"
    and "list_ex (has_role ''user'') (nm_messages (rv_result st))"
    and "\<not> history_has_recovery_notice (nm_messages (rv_result st))"
  shows "nm_missing_indexes (rv_result (recovery_loop E store ns session True True st)) = []"
proof (cases "nm_missing_indexes (rv_result st) = []")
  case True
  then show ?thesis by (simp add: recovery_loop.simps)
next
  case False
  let ?M = "nm_messages (rv_result st)"
  obtain i where i: "i < length ?M" "lacks_reasoning ?M i"
    using False assms(1) by (auto simp: missing_indexes_exact filter_empty_conv)
  have settled: "settled m" if "m \<in> set ?M" for m using that assms(1) settled_normalize_messages by simp
  obtain recovered d notice step where r:
      "recover_messages_from_missing_reasoning ?M (nm_missing_indexes (rv_result st)) = (recovered, d, notice, step)"
      "0 < d" "list_all (\<lambda>m. has_role ''system'' m \<or> has_role ''user'' m) recovered"
    by (rule latest_user_recovery [OF assms(2,3) settled i, where missing = "nm_missing_indexes (rv_result st)"]) blast
  have "nm_missing_indexes (normalize_messages E recovered store ns session True True) = []"
    using normalized_system_or_user [OF r(3)] by (simp add: no_missing_complete)
  then show ?thesis using r(1,2) False
    by (subst recovery_loop.simps) (simp add: recovery_loop.simps [of _ _ _ _ _ _ "\<lparr>rv_result = _, rv_recovered = _, rv_dropped = _, rv_notice = _\<rparr>"])
qed

section \<open>Only supported fields leave\<close>

lemma only_fields_iff: "only_fields fs v \<longleftrightarrow> is_object v \<and> (\<forall>k. json_get v k \<noteq> None \<longrightarrow> k \<in> set fs)"
proof (cases v)
  case (JObj kvs)
  have "(\<forall>k. map_of kvs k \<noteq> None \<longrightarrow> k \<in> set fs) \<longleftrightarrow> (\<forall>(k, x) \<in> set kvs. k \<in> set fs)"
    by (force simp: map_of_eq_None_iff)
  then show ?thesis using JObj by (simp add: only_fields_def is_object_def list_all_iff)
qed (simp_all add: only_fields_def is_object_def)

lemma only_fields_insert: "only_fields fs v \<Longrightarrow> k \<in> set fs \<Longrightarrow> only_fields fs (json_insert v k w)"
  by (auto simp: only_fields_iff norm_get)

lemma only_fields_remove: "only_fields fs v \<Longrightarrow> only_fields fs (json_remove v k)"
  by (auto simp: only_fields_iff norm_get)

abbreviation supported :: "json \<Rightarrow> bool" where
  "supported v \<equiv> only_fields SUPPORTED_REQUEST_FIELDS v"

lemma supported_keys:
  "set [''model'', ''messages'', ''tools'', ''tool_choice'', ''user_id'', ''max_tokens'', ''thinking'',
    ''reasoning_effort'', ''stream_options''] \<subseteq> set SUPPORTED_REQUEST_FIELDS"
  by (simp add: SUPPORTED_REQUEST_FIELDS_def)

lemma supported_insert:
  "supported v \<Longrightarrow> k \<in> set [''model'', ''messages'', ''tools'', ''tool_choice'', ''user_id'', ''max_tokens'',
     ''thinking'', ''reasoning_effort'', ''stream_options''] \<Longrightarrow> supported (json_insert v k w)"
  using supported_keys only_fields_insert by blast

lemma supported_steps:
  "supported (supported_fields payload)"
  "supported v \<Longrightarrow> supported (alias_max_tokens payload v)"
  "supported v \<Longrightarrow> supported (normalize_request_tools payload v)"
  "supported v \<Longrightarrow> supported (normalize_request_tool_choice payload v)"
  "supported v \<Longrightarrow> supported (apply_effective_user_id v u)"
  "supported v \<Longrightarrow> supported (include_stream_usage v)"
  "supported v \<Longrightarrow> supported (set_thinking t v)"
  "supported v \<Longrightarrow> supported (set_effort payload t e v)"
  by (simp_all add: supported_fields_def only_fields_retain alias_max_tokens_def normalize_request_tools_def
      normalize_request_tool_choice_def apply_effective_user_id_def include_stream_usage_def set_thinking_def
      set_effort_def supported_insert only_fields_remove split: option.split)

lemma supported_ensure: "supported v \<Longrightarrow> supported (ensure_codex_file_tools_from_context v)"
  by (simp add: ensure_codex_file_tools_from_context_def Let_def supported_insert split: option.split)

lemma supported_roles: "supported v \<Longrightarrow> supported (normalize_message_roles_in_place v)"
  by (simp add: normalize_message_roles_in_place_def Let_def supported_insert supported_ensure split: option.split)

lemma supported_filter: "supported (filter_supported_request_fields payload)"
  by (simp add: filter_supported_request_fields_def supported_roles supported_steps)

lemma supported_upstream: "supported (upstream_fields payload m t e)"
  by (simp add: upstream_fields_def supported_steps supported_insert)

lemma supported_mimo:
  assumes "prepare_mimo_request_inner E ansi payload fb retire turns codex = Some p"
  shows "supported (gp_payload p)"
proof -
  have "supported v \<Longrightarrow> supported (mimo_temperature m (mimo_thinking c m v))" for v c m
    by (simp add: mimo_temperature_def mimo_thinking_def supported_insert only_fields_remove)
  moreover have "supported v \<Longrightarrow> mimo_retire ser r turns v = Some (v', n) \<Longrightarrow> supported v'" for ser r v v' n
    by (auto simp: mimo_retire_def Let_def supported_insert split: option.splits if_splits)
  ultimately have "supported v'"
    if "mimo_retire ser r turns (mimo_temperature m (mimo_thinking c m
          (json_insert (filter_supported_request_fields payload) ''model'' w))) = Some (v', n)" for ser r m c w v' n
    using that supported_insert [OF supported_filter] by (metis list.set_intros(1))
  then show ?thesis using assms
    by (auto simp: prepare_mimo_request_inner_def Let_def supported_insert split: option.splits)
qed

text \<open>
  C17. Whatever a client sends, every prepared request, on all four paths, has only fields of the
  supported list.
\<close>
theorem only_supported_fields_leave:
  "only_fields SUPPORTED_REQUEST_FIELDS (lp_payload (prepare_light_request E payload fb alias uid)) \<and>
   only_fields SUPPORTED_REQUEST_FIELDS (gp_payload (prepare_generic_request ser payload)) \<and>
   (case prepare_mimo_request_inner E ansi payload fb retire turns codex of
      Some p \<Rightarrow> only_fields SUPPORTED_REQUEST_FIELDS (gp_payload p) | None \<Rightarrow> True) \<and>
   (case prepare_upstream_request E st payload store A of
      Some (p, st') \<Rightarrow> only_fields SUPPORTED_REQUEST_FIELDS (pr_payload p) | None \<Rightarrow> True)"
proof (intro conjI)
  show "supported (lp_payload (prepare_light_request E payload fb alias uid))"
    by (simp add: prepare_light_request_def Let_def supported_steps supported_insert supported_filter)
  show "supported (gp_payload (prepare_generic_request ser payload))"
    by (simp add: prepare_generic_request_def Let_def supported_insert supported_filter)
  show "case prepare_mimo_request_inner E ansi payload fb retire turns codex of
      Some p \<Rightarrow> supported (gp_payload p) | None \<Rightarrow> True"
    by (simp add: supported_mimo split: option.split)
  show "case prepare_upstream_request E st payload store A of
      Some (p, st') \<Rightarrow> supported (pr_payload p) | None \<Rightarrow> True"
    by (auto simp: prepare_upstream_request_def assemble_request_def prepared_fields_def Let_def supported_steps
        supported_insert supported_upstream split: option.split)
qed

section \<open>Prefix tracking\<close>

lemma snapshot_after_validate:
  "ms \<noteq> [] \<Longrightarrow> hm_get (px_snapshots (validate_prefix_append_only E st scope ms)) scope =
     Some \<lparr>ps_message_count = length ms, ps_hash = messages_prefix_hash E ms (length ms)\<rparr>"
  by (simp add: validate_prefix_append_only_def Let_def)

lemma breaks_after_validate:
  "px_breaks (validate_prefix_append_only E st scope ms) =
     (if prefix_broken E st scope ms then px_breaks st + 1 else px_breaks st)"
  by (simp add: validate_prefix_append_only_def Let_def)

text \<open>
  A conversation that only grows is never reported as broken. A conversation that grew and whose
  earlier part changed is reported, when hash and printing tell the two parts apart; one that
  changed without growing is not looked at.
\<close>
theorem prefix_breaks_detected:
  assumes "ms \<noteq> []"
  shows "\<not> prefix_broken E (validate_prefix_append_only E st scope ms) scope (ms @ later) \<and>
    (length ms < length ms' \<longrightarrow>
       messages_prefix_hash E ms' (length ms) \<noteq> messages_prefix_hash E ms (length ms) \<longrightarrow>
       px_breaks (validate_prefix_append_only E (validate_prefix_append_only E st scope ms) scope ms') =
         Suc (px_breaks (validate_prefix_append_only E st scope ms))) \<and>
    (length ms' \<le> length ms \<longrightarrow> \<not> prefix_broken E (validate_prefix_append_only E st scope ms) scope ms')"
  by (simp add: breaks_after_validate prefix_broken_def snapshot_after_validate [OF assms])
     (simp add: messages_prefix_hash_def)

definition plain_env :: norm_env where
  \<comment> \<open>a printer of texts only and an identity hash, for concrete examples\<close>
  "plain_env = \<lparr>ne_sha = id, ne_ser = (\<lambda>v. case v of JStr s \<Rightarrow> s | JArr (JStr s # _) \<Rightarrow> s | _ \<Rightarrow> ''?''),
                ne_read = (\<lambda>_. None), ne_think = id\<rparr>"

definition no_prefixes :: prefix_state where
  "no_prefixes = \<lparr>px_snapshots = [], px_blocks = [], px_breaks = 0, px_drifts = 0, px_summaries = 0\<rparr>"

theorem prefix_breaks_detected_witness:
  "\<not> prefix_broken plain_env (validate_prefix_append_only plain_env no_prefixes ''s'' [JStr ''a'']) ''s'' ([JStr ''a''] @ [JStr ''b'']) \<and>
   px_breaks (validate_prefix_append_only plain_env (validate_prefix_append_only plain_env no_prefixes ''s'' [JStr ''a''])
      ''s'' [JStr ''x'', JStr ''b'']) =
     Suc (px_breaks (validate_prefix_append_only plain_env no_prefixes ''s'' [JStr ''a''])) \<and>
   \<not> prefix_broken plain_env (validate_prefix_append_only plain_env no_prefixes ''s'' [JStr ''a'']) ''s'' [JStr ''x'']"
proof -
  have "messages_prefix_hash plain_env [JStr ''x'', JStr ''b''] 1 \<noteq> messages_prefix_hash plain_env [JStr ''a''] 1"
    by (simp add: messages_prefix_hash_def plain_env_def)
  then show ?thesis
    using prefix_breaks_detected [of "[JStr ''a'']" plain_env no_prefixes "''s''" "[JStr ''b'']" "[JStr ''x'', JStr ''b'']"]
      prefix_breaks_detected [of "[JStr ''a'']" plain_env no_prefixes "''s''" "[JStr ''b'']" "[JStr ''x'']"]
    by simp
qed

section \<open>The MiMo body\<close>

definition simple_message :: json where
  "simple_message = JObj [(''content'', JStr ''hi''), (''role'', JStr ''user'')]"

definition simple_mimo_request :: json where
  "simple_mimo_request =
     JObj [(''messages'', JArr [simple_message]), (''model'', JStr ''mimo-v2.5-pro''), (''temperature'', JFloat 1)]"

definition simple_mimo_prepared :: json where
  "simple_mimo_prepared =
     JObj [(''messages'', JArr [simple_message]), (''model'', JStr ''mimo-v2.5-pro''),
           (''thinking'', JObj [(''type'', JStr ''enabled'')])]"

lemma simple_mimo_fields:
  "mimo_temperature ''mimo-v2.5-pro'' (mimo_thinking True ''mimo-v2.5-pro''
     (json_insert (filter_supported_request_fields simple_mimo_request) ''model'' (JStr ''mimo-v2.5-pro''))) =
   simple_mimo_prepared"
  by code_simp

lemma simple_mimo_messages:
  "mimo_rewrite_messages plain_env id True False [simple_message] =
     \<lparr>mm_messages = [simple_message], mm_calls_repaired = 0, mm_content_repaired = 0,
      mm_results_compressed = 0, mm_compacted = 0\<rparr>"
  by code_simp

lemma simple_mimo_unchanged: "\<not> mimo_prepare_changes_wire_body simple_mimo_request simple_mimo_prepared"
  by code_simp

text \<open>
  The thinking that is switched on for a Codex client, and the temperature that is taken out with
  it, do not reach the upstream when nothing else of the request changes: no body is serialised
  and the client's own is forwarded.
\<close>
theorem mimo_thinking_not_sent:
  "\<exists>p. prepare_codex_mimo_request plain_env id simple_mimo_request ''mimo-v2.5-pro'' False 5 = Some p \<and>
     json_get (gp_payload p) ''thinking'' = Some (JObj [(''type'', JStr ''enabled'')]) \<and>
     json_get (gp_payload p) ''temperature'' = None \<and>
     mimo_outbound_body full_body p = full_body"
proof -
  have model: "normalize_mimo_model (model_or simple_mimo_request ''mimo-v2.5-pro'') = ''mimo-v2.5-pro''"
    by code_simp
  have insert: "json_insert simple_mimo_prepared ''messages'' (JArr [simple_message]) = simple_mimo_prepared"
    by code_simp
  have messages: "json_get simple_mimo_prepared ''messages'' = Some (JArr [simple_message])" by code_simp
  have "estimated_prepared_body_bytes (ne_ser plain_env) simple_mimo_prepared = 1" by code_simp
  then have "prepare_codex_mimo_request plain_env id simple_mimo_request ''mimo-v2.5-pro'' False 5 =
      Some \<lparr>gp_payload = simple_mimo_prepared, gp_model = ''mimo-v2.5-pro'', gp_retired_prefix_messages = 0,
            gp_tool_calls_repaired = 0, gp_serialized_body = None\<rparr>"
    by (simp add: prepare_codex_mimo_request_def prepare_mimo_request_inner_def Let_def model simple_mimo_fields
        mimo_retire_def messages simple_mimo_messages simple_mimo_unchanged insert mimo_limits)
  then show ?thesis
    by (simp add: mimo_outbound_body_def simple_mimo_prepared_def)
qed

section \<open>Concrete requests\<close>

definition tool_turn :: json where
  "tool_turn = JObj [(''role'', JStr ''assistant''), (''tool_calls'', JArr [JObj [(''id'', JStr ''c'')]])]"

definition lost_history :: "json list" where
  "lost_history = [JObj [(''content'', JStr ''hi''), (''role'', JStr ''user'')], tool_turn]"

definition session_args :: upstream_args where
  "session_args =
     \<lparr>ua_upstream_base_url = ''u'', ua_fallback_model = ''deepseek-chat'', ua_thinking_mode = ''enabled'',
      ua_reasoning_effort = ''high'', ua_missing_reasoning_strategy = ''recover'',
      ua_context_summary_message_threshold = 0, ua_prefix_validate = True, ua_authorization = None,
      ua_stable_session_id = Some ''s'', ua_alias_upstream = None, ua_effective_user_id = None\<rparr>"


theorem recovery_completes_witness:
  "let r = normalize_messages plain_env lost_history None [] None True True
   in nm_missing_indexes r \<noteq> [] \<and>
      nm_missing_indexes (rv_result (recovery_loop plain_env None [] None True True
        \<lparr>rv_result = r, rv_recovered = 0, rv_dropped = 0, rv_notice = None\<rparr>)) = []"
proof -
  let ?r = "normalize_messages plain_env lost_history None [] None True True"
  have "nm_missing_indexes ?r \<noteq> []" "list_ex (has_role ''user'') (nm_messages ?r)"
    "\<not> history_has_recovery_notice (nm_messages ?r)" by code_simp+
  then show ?thesis
    using recovery_completes [of "\<lparr>rv_result = ?r, rv_recovered = 0, rv_dropped = 0, rv_notice = None\<rparr>"
        plain_env lost_history None "[]" None] by (simp add: Let_def)
qed

definition hidden_notice :: json where
  "hidden_notice =
     JObj [(''content'', JArr [JObj [(''text'', JStr RECOVERY_NOTICE_TEXT), (''type'', JStr ''text'')]]),
           (''role'', JStr ''assistant'')]"

definition noticed_history :: "json list" where
  "noticed_history = [JObj [(''content'', JStr ''hi''), (''role'', JStr ''user'')], hidden_notice, tool_turn]"

text \<open>
  An earlier notice that the client sends back inside an array of content parts is not stripped
  and becomes the boundary of the recovery: nothing is dropped, and the request leaves with its
  reasoning still missing.
\<close>
theorem hidden_notice_blocks_recovery:
  "map_option (\<lambda>h. (nm_missing_indexes (rv_result (uh_recovery h)), rv_dropped (uh_recovery h)))
     (repair_history plain_env ''enabled'' ''n'' noticed_history None (session_args\<lparr>ua_stable_session_id := None\<rparr>)) =
   Some ([3], 0)"
  by code_simp

end
