(* ===== verification/Admission.thy ===== *)
theory Admission
  imports ClientLockout ClientKeyRateLimiter ClientKeyLimiter Tenant SsePipeline
begin

text \<open>
  The admission of a request: the routing gate and the authorisation and limits of
  \<^verbatim>\<open>crab-proxy/src/phases/request_filter.rs\<close> (phases 1 and 2), with the authorisation of
  \<^verbatim>\<open>proxy.rs\<close> and the domain quotas of \<^verbatim>\<open>runtime.rs\<close>. It composes the client lockout,
  the rate limiter, the project resolution and the concurrency limiter. What the request holds
  (a slot of its key, a permit of the gateway) is part of its context and given back when the
  context is dropped. A reply is its status, its retry hint and the code in its body; whether the
  client is still there to read it is not modelled, and neither are metrics, the observed public
  URL and the reading of the body. SHA-256 in hexadecimal is an argument.
\<close>

section \<open>Domains\<close>

record domain_policy =
  dp_monthly_token_budget :: nat
  dp_monthly_cost_budget_usd :: f64
  dp_min_hit_rate :: f64
  dp_enabled :: bool
  dp_pipeline :: "string option"
  dp_upstream_profile :: "string option"

record domain_usage =
  du_tokens :: nat
  du_spend_usd :: f64

definition effective_domain_label :: "string option \<Rightarrow> string" where
  "effective_domain_label domain = (case domain of Some d \<Rightarrow> d | None \<Rightarrow> ''unclassified'')"

definition domain_within_quota ::
    "(string, domain_policy) hmap \<Rightarrow> (string, domain_usage) hmap \<Rightarrow> string option \<Rightarrow> bool" where
  "domain_within_quota policies usage domain =
     (let label = effective_domain_label domain in
      case hm_get policies label of
        None \<Rightarrow> True
      | Some policy \<Rightarrow>
          if \<not> dp_enabled policy then True
          else (let (tokens, spend_usd) = (case hm_get usage label of
                      Some u \<Rightarrow> (du_tokens u, du_spend_usd u) | None \<Rightarrow> (0, 0))
                in if 0 < dp_monthly_token_budget policy \<and> dp_monthly_token_budget policy \<le> tokens then False
                   else if 0 < dp_monthly_cost_budget_usd policy \<and> dp_monthly_cost_budget_usd policy \<le> spend_usd
                   then False else True))"

definition record_domain_usage ::
    "(string, domain_usage) hmap \<Rightarrow> string option \<Rightarrow> nat \<Rightarrow> f64 \<Rightarrow> (string, domain_usage) hmap" where
  "record_domain_usage usage domain tokens spend_usd =
     (if tokens = 0 \<and> spend_usd \<le> 0 then usage
      else hm_upsert usage (effective_domain_label domain) \<lparr>du_tokens = 0, du_spend_usd = 0\<rparr>
             (\<lambda>u. \<lparr>du_tokens = sat_add 64 (du_tokens u) tokens, du_spend_usd = f64_add (du_spend_usd u) spend_usd\<rparr>))"

definition domain_policy_fields ::
    "(string, domain_policy) hmap \<Rightarrow> string option \<Rightarrow> string option \<times> string option" where
  "domain_policy_fields policies domain =
     (case hm_get policies (effective_domain_label domain) of
        Some p \<Rightarrow> (dp_pipeline p, dp_upstream_profile p)
      | None \<Rightarrow> (None, None))"

section \<open>State, request and context\<close>

record admission_state =
  ad_keys :: "(string, stored_key) hmap"
  ad_legacy_api_key_as_client_auth :: bool
  ad_legacy_client_tokens :: "string list"
  ad_auto_project_id_from_client_key :: bool
  ad_default_upstream_profile_id :: string
  ad_cors_enabled :: bool
  ad_domain_policies :: "(string, domain_policy) hmap"
  ad_domain_usage :: "(string, domain_usage) hmap"
  ad_client_lockouts :: client_lockout_registry
  ad_client_key_rate_limiter :: client_key_rate_limiter
  ad_client_key_limiter :: client_key_limiter
  ad_request_permits :: nat

record request_head =
  \<comment> \<open>a header is none when it is absent or not text\<close>
  rq_path :: string
  rq_method :: string
  rq_authorization :: "string option"
  rq_consumer :: "string option"
  rq_project_id :: "string option"

record readiness =
  \<comment> \<open>what the probes answer: Redis, the default key pool, and the sending of a CORS answer\<close>
  rd_redis_ok :: bool
  rd_keys_available :: bool
  rd_preflight_sent :: bool

record admission_ctx =
  ac_client_wire_api :: client_wire_api
  ac_authorization :: "string option"
  ac_client_key_fingerprint :: "string option"
  ac_consumer :: "string option"
  ac_domain :: "string option"
  ac_project_id :: "string option"
  ac_is_models_list :: bool
  ac_upstream_profile_id :: "string option"
  ac_client_key_guard :: "client_key_guard option"
  ac_request_permit :: bool
  ac_key_pipeline :: "string option"
  ac_key_upstream_profile :: "string option"
  ac_domain_pipeline :: "string option"
  ac_domain_upstream_profile :: "string option"

definition new_admission_ctx :: admission_ctx where
  "new_admission_ctx =
     \<lparr>ac_client_wire_api = ChatCompletions, ac_authorization = None, ac_client_key_fingerprint = None,
      ac_consumer = None, ac_domain = None, ac_project_id = None, ac_is_models_list = False,
      ac_upstream_profile_id = None, ac_client_key_guard = None, ac_request_permit = False,
      ac_key_pipeline = None, ac_key_upstream_profile = None, ac_domain_pipeline = None,
      ac_domain_upstream_profile = None\<rparr>"

datatype admission = Replied nat "nat option" string | Proceed

definition drop_admission_ctx :: "admission_state \<Rightarrow> admission_ctx \<Rightarrow> admission_state" where
  \<comment> \<open>the guard and the permit are released when the context goes out of scope\<close>
  "drop_admission_ctx st ctx =
     (let st = (case ac_client_key_guard ctx of
                  Some g \<Rightarrow> st\<lparr>ad_client_key_limiter := ck_release (ad_client_key_limiter st) g\<rparr> | None \<Rightarrow> st)
      in if ac_request_permit ctx then st\<lparr>ad_request_permits := ad_request_permits st + 1\<rparr> else st)"

section \<open>Paths\<close>

definition is_client_responses_path :: "string \<Rightarrow> bool" where
  "is_client_responses_path path \<longleftrightarrow> path = ''/v1/responses'' \<or> ends_with path ''/v1/responses''"

definition is_llm_completion_path :: "string \<Rightarrow> bool" where
  "is_llm_completion_path path \<longleftrightarrow>
     path = ''/v1/chat/completions'' \<or> path = ''/chat/completions'' \<or> is_client_responses_path path"

definition wire_api_from_request_path :: "string \<Rightarrow> client_wire_api" where
  "wire_api_from_request_path path = (if is_client_responses_path path then Responses else ChatCompletions)"

definition is_models_endpoint :: "string \<Rightarrow> string \<Rightarrow> bool" where
  "is_models_endpoint path request_method \<longleftrightarrow> request_method = ''GET'' \<and> (path = ''/models'' \<or> path = ''/v1/models'')"

section \<open>Authorisation\<close>

definition provided_key :: "string \<Rightarrow> string" where
  "provided_key auth = (case strip_prefix auth ''Bearer '' of Some t \<Rightarrow> t | None \<Rightarrow> auth)"

definition is_legacy_client_token :: "admission_state \<Rightarrow> string \<Rightarrow> string \<Rightarrow> bool" where
  "is_legacy_client_token st token full_auth \<longleftrightarrow>
     ad_legacy_api_key_as_client_auth st \<and>
     (token \<in> set (ad_legacy_client_tokens st) \<or> list_ex (ends_with full_auth) (ad_legacy_client_tokens st))"

record client_authorization =
  au_authorized :: bool
  au_consumer :: "string option"
  au_domain :: "string option"
  au_project_id :: "string option"
  au_pipeline :: "string option"
  au_upstream_profile :: "string option"

definition anonymous_authorization :: "bool \<Rightarrow> client_authorization" where
  "anonymous_authorization ok =
     \<lparr>au_authorized = ok, au_consumer = None, au_domain = None, au_project_id = None, au_pipeline = None,
      au_upstream_profile = None\<rparr>"

definition authorize_client :: "admission_state \<Rightarrow> string \<Rightarrow> string \<Rightarrow> client_authorization" where
  "authorize_client st key auth =
     (case hm_get (ad_keys st) key of
        Some k \<Rightarrow>
          \<lparr>au_authorized = sk_enabled k, au_consumer = Some (sk_name k), au_domain = sk_domain k,
           au_project_id = sk_project_id k, au_pipeline = sk_pipeline k,
           au_upstream_profile = sk_upstream_profile k\<rparr>
      | None \<Rightarrow> anonymous_authorization (is_legacy_client_token st key auth))"

definition lockout_reply :: "lockout_status \<Rightarrow> admission" where
  "lockout_reply status = Replied 429 (Some (max (ls_remaining_ms status div 1000) 1)) ''client_lockout''"

definition authenticate ::
    "admission_state \<Rightarrow> string \<Rightarrow> string \<Rightarrow> instant \<Rightarrow> (admission + client_authorization) \<times> admission_state" where
  \<comment> \<open>the lockout check, the authorisation and the record of its outcome\<close>
  "authenticate st key auth now =
     (case cl_check_lockout (ad_client_lockouts st) key now of
        (status, lockouts) \<Rightarrow>
          (let st = st\<lparr>ad_client_lockouts := lockouts\<rparr> in
           if ls_locked status then (Inl (lockout_reply status), st)
           else let au = authorize_client st key auth in
                if \<not> au_authorized au then
                  (case cl_record_failed_attempt (ad_client_lockouts st) key now of
                     (failed, lockouts') \<Rightarrow>
                       (Inl (if ls_locked failed then lockout_reply failed else Replied 401 None []),
                        st\<lparr>ad_client_lockouts := lockouts'\<rparr>))
                else (Inr au, st\<lparr>ad_client_lockouts := cl_record_success (ad_client_lockouts st) key\<rparr>)))"

section \<open>Limits\<close>

definition limit_rate :: "admission_state \<Rightarrow> string \<Rightarrow> instant \<Rightarrow> bool \<times> admission_state" where
  "limit_rate st key now =
     (case hm_get (ad_keys st) key of
        Some k \<Rightarrow>
          if 0 < sk_rpm_limit k then
            (case rl_check_and_consume (ad_client_key_rate_limiter st) key (sk_rpm_limit k) now of
               (ok, limiter) \<Rightarrow> (ok, st\<lparr>ad_client_key_rate_limiter := limiter\<rparr>))
          else (True, st)
      | None \<Rightarrow> (True, st))"

definition project_of_request ::
    "(string \<Rightarrow> string) \<Rightarrow> admission_state \<Rightarrow> string \<Rightarrow> client_authorization \<Rightarrow> request_head \<Rightarrow>
     admission + string option" where
  "project_of_request sha st key au rq =
     (case resolve_project_id (au_project_id au) (rq_project_id rq) of
        Inr project \<Rightarrow>
          Inr (if project = None \<and> ad_auto_project_id_from_client_key st \<and> key \<noteq> []
               then (case derive_project_id_from_client_key sha key of Inr derived \<Rightarrow> Some derived | Inl _ \<Rightarrow> None)
               else project)
      | Inl Mismatch \<Rightarrow> Inl (Replied 403 None ''project_mismatch'')
      | Inl (InvalidHeader _) \<Rightarrow> Inl (Replied 400 None ''invalid_project_id''))"

definition take_client_slot ::
    "admission_state \<Rightarrow> string \<Rightarrow> admission_ctx \<Rightarrow> (bool \<times> admission_ctx \<times> admission_state) option" where
  "take_client_slot st key ctx =
     (case hm_get (ad_keys st) key of
        Some k \<Rightarrow>
          (case ck_try_acquire (ad_client_key_limiter st) key k of
             Some (Inr g, limiter) \<Rightarrow>
               Some (True, ctx\<lparr>ac_client_key_guard := Some g\<rparr>, st\<lparr>ad_client_key_limiter := limiter\<rparr>)
           | Some (Inl CkExceeded, limiter) \<Rightarrow> Some (False, ctx, st\<lparr>ad_client_key_limiter := limiter\<rparr>)
           | None \<Rightarrow> None)
      | None \<Rightarrow> Some (True, ctx, st))"

definition take_request_permit :: "admission_state \<Rightarrow> admission_ctx \<Rightarrow> bool \<times> admission_ctx \<times> admission_state" where
  "take_request_permit st ctx =
     (if ad_request_permits st = 0 then (False, ctx, st)
      else (True, ctx\<lparr>ac_request_permit := True\<rparr>, st\<lparr>ad_request_permits := ad_request_permits st - 1\<rparr>))"

definition fingerprint_client_key :: "(string \<Rightarrow> string) \<Rightarrow> string \<Rightarrow> string" where
  "fingerprint_client_key sha token = take 16 (sha token)"

definition admitted_ctx ::
    "(string \<Rightarrow> string) \<Rightarrow> admission_state \<Rightarrow> string \<Rightarrow> string \<Rightarrow> client_authorization \<Rightarrow> request_head \<Rightarrow>
     admission_ctx \<Rightarrow> admission_ctx" where
  \<comment> \<open>what the context records of an admitted client\<close>
  "admitted_ctx sha st key auth au rq ctx =
     (let (domain_pipeline, domain_profile) = domain_policy_fields (ad_domain_policies st) (au_domain au)
      in ctx\<lparr>ac_authorization := Some auth,
             ac_client_key_fingerprint := (if key \<noteq> [] then Some (fingerprint_client_key sha key) else None),
             ac_consumer := (case au_consumer au of Some c \<Rightarrow> Some c | None \<Rightarrow>
                              (case rq_consumer rq of Some c \<Rightarrow> Some c | None \<Rightarrow> ac_project_id ctx)),
             ac_domain := au_domain au, ac_key_pipeline := au_pipeline au,
             ac_key_upstream_profile := au_upstream_profile au,
             ac_domain_pipeline := domain_pipeline, ac_domain_upstream_profile := domain_profile\<rparr>)"

definition admit_client ::
    "(string \<Rightarrow> string) \<Rightarrow> admission_state \<Rightarrow> string \<Rightarrow> string \<Rightarrow> client_authorization \<Rightarrow> request_head \<Rightarrow>
     admission_ctx \<Rightarrow> instant \<Rightarrow> (admission \<times> admission_ctx \<times> admission_state) option" where
  \<comment> \<open>the limits of an authorised client, in their order\<close>
  "admit_client sha st key auth au rq ctx now =
     (case limit_rate st key now of
        (False, st) \<Rightarrow> Some (Replied 429 (Some 60) ''rate_limit_exceeded'', ctx, st)
      | (True, st) \<Rightarrow>
          (case project_of_request sha st key au rq of
             Inl reply \<Rightarrow> Some (reply, ctx, st)
           | Inr project \<Rightarrow>
               (case take_client_slot st key (ctx\<lparr>ac_project_id := project\<rparr>) of
                  None \<Rightarrow> None
                | Some (False, ctx, st) \<Rightarrow> Some (Replied 429 None ''client_concurrency_exceeded'', ctx, st)
                | Some (True, ctx, st) \<Rightarrow>
                    (case take_request_permit st ctx of
                       (False, ctx, st) \<Rightarrow> Some (Replied 503 None [], ctx, st)
                     | (True, ctx, st) \<Rightarrow>
                         (let ctx = admitted_ctx sha st key auth au rq ctx in
                          if domain_within_quota (ad_domain_policies st) (ad_domain_usage st) (ac_domain ctx)
                          then Some (Proceed, ctx, st)
                          else Some (Replied 429 None [], ctx, st))))))"

section \<open>The phases\<close>

definition models_phase ::
    "admission_state \<Rightarrow> string \<Rightarrow> string \<Rightarrow> admission_ctx \<Rightarrow> instant \<Rightarrow> admission \<times> admission_ctx \<times> admission_state" where
  \<comment> \<open>the list of models; what answers it (the synthetic list or an upstream) comes after\<close>
  "models_phase st key auth ctx now =
     (case authenticate st key auth now of
        (Inl reply, st) \<Rightarrow> (reply, ctx, st)
      | (Inr au, st) \<Rightarrow>
          (Proceed, ctx\<lparr>ac_consumer := au_consumer au, ac_domain := au_domain au, ac_is_models_list := True,
             ac_upstream_profile_id := Some (case au_upstream_profile au of
                Some p \<Rightarrow> p | None \<Rightarrow> ad_default_upstream_profile_id st)\<rparr>, st))"

definition probe_reply :: "readiness \<Rightarrow> admission_state \<Rightarrow> request_head \<Rightarrow> admission option" where
  \<comment> \<open>the CORS, health and readiness probes\<close>
  "probe_reply rd st rq =
     (if ad_cors_enabled st \<and> rq_method rq = ''OPTIONS'' \<and> rd_preflight_sent rd then Some (Replied 204 None [])
      else if rq_path rq = ''/health'' \<or> rq_path rq = ''/healthz'' \<or> rq_path rq = ''/v1/healthz''
      then Some (Replied 200 None [])
      else if rq_path rq = ''/ready''
      then Some (Replied (if rd_redis_ok rd \<and> rd_keys_available rd then 200 else 503) None [])
      else None)"

definition request_admission ::
    "(string \<Rightarrow> string) \<Rightarrow> readiness \<Rightarrow> admission_state \<Rightarrow> request_head \<Rightarrow> instant \<Rightarrow>
     (admission \<times> admission_ctx \<times> admission_state) option" where
  "request_admission sha rd st rq now =
     (let ctx = new_admission_ctx;
          auth = (case rq_authorization rq of Some a \<Rightarrow> a | None \<Rightarrow> []);
          key = provided_key auth
      in case probe_reply rd st rq of
           Some reply \<Rightarrow> Some (reply, ctx, st)
         | None \<Rightarrow>
             if is_models_endpoint (rq_path rq) (rq_method rq) then Some (models_phase st key auth ctx now)
             else if \<not> is_llm_completion_path (rq_path rq) then Some (Replied 404 None [], ctx, st)
             else let ctx = ctx\<lparr>ac_client_wire_api := wire_api_from_request_path (rq_path rq)\<rparr> in
                  if rq_method rq \<noteq> ''POST'' then Some (Replied 405 None [], ctx, st)
                  else (case authenticate st key auth now of
                          (Inl reply, st) \<Rightarrow> Some (reply, ctx, st)
                        | (Inr au, st) \<Rightarrow> admit_client sha st key auth au rq ctx now))"

lemma probe_reply_not_Proceed: "probe_reply rd st rq \<noteq> Some Proceed"
  by (simp add: probe_reply_def)

section \<open>What the parts change\<close>

lemma authenticate_cases:
  obtains (locked) lockouts where "ls_locked (fst (cl_check_lockout (ad_client_lockouts st) key now))"
      "authenticate st key auth now =
         (Inl (lockout_reply (fst (cl_check_lockout (ad_client_lockouts st) key now))), st\<lparr>ad_client_lockouts := lockouts\<rparr>)"
  | (refused) failed lockouts where "\<not> ls_locked (fst (cl_check_lockout (ad_client_lockouts st) key now))"
      "\<not> au_authorized (authorize_client st key auth)"
      "cl_record_failed_attempt (snd (cl_check_lockout (ad_client_lockouts st) key now)) key now = (failed, lockouts)"
      "authenticate st key auth now =
         (Inl (if ls_locked failed then lockout_reply failed else Replied 401 None []), st\<lparr>ad_client_lockouts := lockouts\<rparr>)"
  | (accepted) lockouts where "\<not> ls_locked (fst (cl_check_lockout (ad_client_lockouts st) key now))"
      "au_authorized (authorize_client st key auth)"
      "authenticate st key auth now = (Inr (authorize_client st key auth), st\<lparr>ad_client_lockouts := lockouts\<rparr>)"
proof -
  have same: "authorize_client (st\<lparr>ad_client_lockouts := l\<rparr>) key auth = authorize_client st key auth" for l
    by (simp add: authorize_client_def is_legacy_client_token_def cong: option.case_cong)
  obtain status l where c: "cl_check_lockout (ad_client_lockouts st) key now = (status, l)" by fastforce
  obtain failed l' where f: "cl_record_failed_attempt l key now = (failed, l')" by fastforce
  show thesis
  proof (cases "ls_locked status")
    case True
    then show thesis using locked [of l] c by (simp add: authenticate_def)
  next
    case False
    then show thesis
      using refused [of failed l'] accepted [of "cl_record_success l key"] c f
      by (cases "au_authorized (authorize_client st key auth)") (simp_all add: authenticate_def same)
  qed
qed

lemma limit_rate_eq:
  assumes "limit_rate st key now = (ok, st1)"
  shows "st1 = st\<lparr>ad_client_key_rate_limiter := ad_client_key_rate_limiter st1\<rparr>"
    and "ok \<longleftrightarrow> (\<forall>k. hm_get (ad_keys st) key = Some k \<longrightarrow> 0 < sk_rpm_limit k \<longrightarrow>
           fst (rl_check_and_consume (ad_client_key_rate_limiter st) key (sk_rpm_limit k) now))"
  using assms by (auto simp: limit_rate_def split: option.splits if_splits prod.splits)

lemma take_client_slot_eq:
  assumes "take_client_slot st key ctx = Some (ok, ctx', st')"
  shows "st' = st\<lparr>ad_client_key_limiter := ad_client_key_limiter st'\<rparr>"
    and "ctx' = ctx\<lparr>ac_client_key_guard := ac_client_key_guard ctx'\<rparr>"
    and "case hm_get (ad_keys st) key of
           None \<Rightarrow> ok \<and> ctx' = ctx \<and> st' = st
         | Some k \<Rightarrow> if ok then \<exists>g. ac_client_key_guard ctx' = Some g \<and>
                       ck_try_acquire (ad_client_key_limiter st) key k = Some (Inr g, ad_client_key_limiter st')
                     else ctx' = ctx \<and>
                       ck_try_acquire (ad_client_key_limiter st) key k = Some (Inl CkExceeded, ad_client_key_limiter st')"
  using assms
  by (auto simp: take_client_slot_def split: option.splits prod.splits sum.splits client_key_limit_error.splits)

lemma take_request_permit_eq:
  assumes "take_request_permit st ctx = (ok, ctx', st')"
  shows "if ok then ctx' = ctx\<lparr>ac_request_permit := True\<rparr> \<and> ad_request_permits st = Suc (ad_request_permits st') \<and>
             st' = st\<lparr>ad_request_permits := ad_request_permits st'\<rparr>
         else ctx' = ctx \<and> st' = st"
  using assms by (auto simp: take_request_permit_def split: if_splits)

lemma ck_try_acquire_total: "ck_try_acquire l token k \<noteq> None"
  by (auto simp: ck_try_acquire_def ck_sync_key_def ck_alloc_def Let_def split: option.splits)

lemma take_client_slot_total: "take_client_slot st key ctx \<noteq> None"
proof (cases "hm_get (ad_keys st) key")
  case (Some k)
  then show ?thesis
    using ck_try_acquire_total [of "ad_client_key_limiter st" key k]
    by (auto simp: take_client_slot_def split: sum.splits client_key_limit_error.splits)
qed (simp add: take_client_slot_def)

lemma admit_client_ProceedE:
  assumes "admit_client sha st key auth au rq ctx now = Some (Proceed, ctx', st')"
  obtains st1 p ctx2 st2 ctx3 where "limit_rate st key now = (True, st1)"
    "project_of_request sha st1 key au rq = Inr p"
    "take_client_slot st1 key (ctx\<lparr>ac_project_id := p\<rparr>) = Some (True, ctx2, st2)"
    "take_request_permit st2 ctx2 = (True, ctx3, st')" "ctx' = admitted_ctx sha st' key auth au rq ctx3"
    "domain_within_quota (ad_domain_policies st') (ad_domain_usage st') (ac_domain ctx')"
proof -
  have no: "project_of_request sha s key au rq \<noteq> Inl Proceed" for s
    by (auto simp: project_of_request_def split: sum.splits project_resolve_error.splits)
  show thesis
    using assms that unfolding admit_client_def Let_def
    by (auto simp: no split: prod.splits option.splits sum.splits bool.splits if_splits)
qed

section \<open>Properties\<close>


definition limiter_ok :: "client_key_limiter \<Rightarrow> bool" where
  \<comment> \<open>every token has a slot of its own, below the wrap-around\<close>
  "limiter_ok l \<longleftrightarrow>
     (\<forall>t a. hm_get (ck_slots l) t = Some a \<longrightarrow> a < length (ck_heap l) \<and> ck_inflight (ck_heap l ! a) + 1 < 2 ^ 64) \<and>
     (\<forall>t u a. hm_get (ck_slots l) t = Some a \<longrightarrow> hm_get (ck_slots l) u = Some a \<longrightarrow> t = u)"

lemma sync_limiter_ok: "limiter_ok l \<Longrightarrow> limiter_ok (ck_sync_key l t k)"
  by (auto simp: limiter_ok_def ck_defs nth_append nth_update_if less_Suc_eq split: option.split if_splits)

lemma sync_get_inflight:
  "limiter_ok l \<Longrightarrow> ck_get_inflight (ck_sync_key l t k) u = ck_get_inflight l u"
  by (auto simp: limiter_ok_def ck_get_inflight_def ck_defs nth_append nth_update_if split: option.splits)

lemma wrap_add_sub: "n + 1 < 2 ^ 64 \<Longrightarrow> wrap_sub 64 (wrap_add 64 n 1) 1 = n"
  by (simp add: wrap_add_exact wrap_sub_exact)

lemma acquire_release_inflight:
  assumes "limiter_ok l" and "ck_try_acquire l t k = Some (Inr g, l')"
  shows "ck_get_inflight (ck_release l' g) u = ck_get_inflight l u"
proof -
  let ?l = "ck_sync_key l t k"
  have ok: "limiter_ok ?l" by (rule sync_limiter_ok [OF assms(1)])
  obtain a where a: "hm_get (ck_slots ?l) t = Some a" "g = \<lparr>ckg_token = t, ckg_slot = a\<rparr>"
      "l' = ?l\<lparr>ck_heap := (ck_heap ?l)[a := (ck_heap ?l ! a)\<lparr>ck_inflight := wrap_add 64 (ck_inflight (ck_heap ?l ! a)) 1\<rparr>]\<rparr>"
    using assms(2) by (auto simp: ck_try_acquire_def Let_def split: option.splits if_splits)
  have "ck_inflight (ck_heap ?l ! a) + 1 < 2 ^ 64" "a < length (ck_heap ?l)"
    using ok a(1) by (auto simp: limiter_ok_def)
  then have "ck_get_inflight (ck_release l' g) u = ck_get_inflight ?l u"
    using wrap_add_sub [of "ck_inflight (ck_heap ?l ! a)"]
    by (simp add: a(2,3) ck_release_def ck_get_inflight_def nth_update_if del: One_nat_def split: option.split)
  then show ?thesis using sync_get_inflight [OF assms(1)] by simp
qed

lemma exceeded_inflight:
  assumes "limiter_ok l" and "ck_try_acquire l t k = Some (Inl e, l')"
  shows "ck_get_inflight l' u = ck_get_inflight l u"
proof -
  have "l' = ck_sync_key l t k"
    using assms(2) by (auto simp: ck_try_acquire_def Let_def split: option.splits if_splits)
  then show ?thesis using sync_get_inflight [OF assms(1)] by simp
qed

definition same_load :: "admission_state \<Rightarrow> admission_state \<Rightarrow> bool" where
  \<comment> \<open>the same free permits and the same requests in flight for every key\<close>
  "same_load st st' \<longleftrightarrow> ad_request_permits st' = ad_request_permits st \<and>
     (\<forall>k. ck_get_inflight (ad_client_key_limiter st') k = ck_get_inflight (ad_client_key_limiter st) k)"

lemma same_load_slot:
  assumes "limiter_ok (ad_client_key_limiter st)" and "ac_client_key_guard ctx = None" and "\<not> ac_request_permit ctx"
    and "take_client_slot st key ctx = Some (ok, ctx', st')"
  shows "same_load st (drop_admission_ctx st' ctx')" and "\<not> ac_request_permit ctx'"
proof -
  note t = take_client_slot_eq [OF assms(4)]
  have p: "ad_request_permits st' = ad_request_permits st" by (subst t(1)) simp
  show np: "\<not> ac_request_permit ctx'" by (subst t(2)) (simp add: assms(3))
  show "same_load st (drop_admission_ctx st' ctx')"
  proof (cases "hm_get (ad_keys st) key")
    case None
    then show ?thesis using t(3) assms(2,3) by (simp add: same_load_def drop_admission_ctx_def)
  next
    case (Some k)
    then show ?thesis
      using t(3) assms(2) np p exceeded_inflight [OF assms(1)] acquire_release_inflight [OF assms(1)]
      by (cases ok) (auto simp: same_load_def drop_admission_ctx_def)
  qed
qed

lemma drop_after_permit:
  assumes "take_request_permit st ctx = (ok, ctx', st')" and "\<not> ac_request_permit ctx"
    and "ac_client_key_guard ctx'' = ac_client_key_guard ctx'" and "ac_request_permit ctx'' = ac_request_permit ctx'"
  shows "same_load (drop_admission_ctx st ctx) (drop_admission_ctx st' ctx'')"
  using assms by (auto simp: take_request_permit_def same_load_def drop_admission_ctx_def Let_def split: if_splits option.split)

lemma same_load_trans: "same_load a b \<Longrightarrow> same_load b c \<Longrightarrow> same_load a c"
  by (simp add: same_load_def)

lemma admit_client_returns_load:
  assumes "limiter_ok (ad_client_key_limiter st)" and "ac_client_key_guard ctx = None" and "\<not> ac_request_permit ctx"
    and "admit_client sha st key auth au rq ctx now = Some (r, ctx', st')"
  shows "same_load st (drop_admission_ctx st' ctx')"
proof -
  obtain ok st1 where rate: "limit_rate st key now = (ok, st1)" by fastforce
  have st1: "ad_client_key_limiter st1 = ad_client_key_limiter st" "ad_request_permits st1 = ad_request_permits st"
    by (subst limit_rate_eq(1) [OF rate], simp)+
  have idle: "same_load st (drop_admission_ctx st1 ctx)"
    using assms(2,3) by (simp add: same_load_def drop_admission_ctx_def st1)
  show ?thesis
  proof (cases "ok \<and> (\<exists>p. project_of_request sha st1 key au rq = Inr p)")
    case False
    then show ?thesis using assms(4) rate idle by (auto simp: admit_client_def split: sum.splits bool.splits)
  next
    case True
    then obtain p where ok: ok and p: "project_of_request sha st1 key au rq = Inr p" by blast
    let ?ctx = "ctx\<lparr>ac_project_id := p\<rparr>"
    obtain ok2 ctx2 st2 where slot: "take_client_slot st1 key ?ctx = Some (ok2, ctx2, st2)"
      using take_client_slot_total [of st1 key ?ctx] by (cases "take_client_slot st1 key ?ctx") auto
    obtain ok3 ctx3 st3 where permit: "take_request_permit st2 ctx2 = (ok3, ctx3, st3)" by (metis surj_pair)
    have two: "same_load st (drop_admission_ctx st2 ctx2)" "\<not> ac_request_permit ctx2"
      using same_load_slot [OF _ _ _ slot] assms(1-3) st1 by (auto simp: same_load_def)
    have three: "same_load st (drop_admission_ctx st3 c)"
      if "ac_client_key_guard c = ac_client_key_guard ctx3" "ac_request_permit c = ac_request_permit ctx3" for c
      using two(1) drop_after_permit [OF permit two(2) that] by (rule same_load_trans)
    have r: "(ctx' = ctx2 \<and> st' = st2) \<or> st' = st3 \<and> (ctx' = ctx3 \<or> ctx' = admitted_ctx sha st3 key auth au rq ctx3)"
      using assms(4) rate ok p slot permit
      by (auto simp: admit_client_def Let_def split: bool.splits if_splits)
    have "ac_client_key_guard (admitted_ctx sha st3 key auth au rq ctx3) = ac_client_key_guard ctx3"
      "ac_request_permit (admitted_ctx sha st3 key auth au rq ctx3) = ac_request_permit ctx3"
      by (simp_all add: admitted_ctx_def Let_def split: prod.split)
    then show ?thesis using r two(1) three by auto
  qed
qed

lemma request_admission_cases:
  assumes "request_admission sha rd st rq now = Some (r, ctx, st')"
  obtains (idle) l where "ac_client_key_guard ctx = None" "\<not> ac_request_permit ctx"
      "st' = st\<lparr>ad_client_lockouts := l\<rparr>"
  | (limits) l k a au w where "admit_client sha (st\<lparr>ad_client_lockouts := l\<rparr>) k a au rq
      (new_admission_ctx\<lparr>ac_client_wire_api := w\<rparr>) now = Some (r, ctx, st')"
proof -
  define auth where "auth = (case rq_authorization rq of Some a \<Rightarrow> a | None \<Rightarrow> [])"
  define ctx1 where "ctx1 = new_admission_ctx\<lparr>ac_client_wire_api := wire_api_from_request_path (rq_path rq)\<rparr>"
  have new: "ac_client_key_guard new_admission_ctx = None" "\<not> ac_request_permit new_admission_ctx"
    "ac_client_key_guard ctx1 = None" "\<not> ac_request_permit ctx1"
    by (simp_all add: new_admission_ctx_def ctx1_def)
  have stay: thesis if "st' = st" "ctx = new_admission_ctx \<or> ctx = ctx1"
    using that new by (intro idle [of "ad_client_lockouts st"]) auto
  show thesis
  proof (cases "probe_reply rd st rq")
    case (Some reply)
    then show thesis using assms stay by (simp add: request_admission_def)
  next
    case None
    note run = assms [unfolded request_admission_def Let_def None option.case auth_def [symmetric] ctx1_def [symmetric]]
    show thesis
    proof (cases "is_models_endpoint (rq_path rq) (rq_method rq)")
      case True
      then have "models_phase st (provided_key auth) auth new_admission_ctx now = (r, ctx, st')" using run by simp
      then have "\<exists>l. ac_client_key_guard ctx = None \<and> \<not> ac_request_permit ctx \<and> st' = st\<lparr>ad_client_lockouts := l\<rparr>"
        by (cases rule: authenticate_cases [of st "provided_key auth" now auth]) (auto simp: models_phase_def new)
      then show thesis using idle by blast
    next
      case False
      show thesis
      proof (cases "is_llm_completion_path (rq_path rq) \<and> rq_method rq = ''POST''")
        case True
        then have run: "(case authenticate st (provided_key auth) auth now of (Inl reply, st) \<Rightarrow> Some (reply, ctx1, st)
            | (Inr au, st) \<Rightarrow> admit_client sha st (provided_key auth) auth au rq ctx1 now) = Some (r, ctx, st')"
          using run False by simp
        show thesis
        proof (cases rule: authenticate_cases [of st "provided_key auth" now auth])
          case (accepted l)
          show thesis by (rule limits) (use run accepted(3) in \<open>simp add: ctx1_def\<close>)
        next
          case (locked l)
          show thesis by (rule idle [of l]) (use run locked(2) new in auto)
        next
          case (refused failed l)
          show thesis by (rule idle [of l]) (use run refused(4) new in auto)
        qed
      next
        case no: False
        then show thesis using run stay False by (simp split: if_split_asm)
      qed
    qed
  qed
qed

text \<open>
  C31. Whatever happens to a request, dropping its context gives back exactly what its admission took:
  the permits of the gateway and the requests in flight of every key are as before.
\<close>
theorem admission_returns_load:
  assumes "limiter_ok (ad_client_key_limiter st)"
    and "request_admission sha rd st rq now = Some (r, ctx, st')"
  shows "same_load st (drop_admission_ctx st' ctx)"
  using assms(2)
proof (cases rule: request_admission_cases)
  case (idle l)
  then show ?thesis by (simp add: same_load_def drop_admission_ctx_def)
next
  case (limits l k a au w)
  then show ?thesis
    using admit_client_returns_load [OF _ _ _ limits] assms(1) by (simp add: same_load_def new_admission_ctx_def)
qed

section \<open>Guessing keys\<close>

fun answers ::
    "(string \<Rightarrow> string) \<Rightarrow> readiness \<Rightarrow> admission_state \<Rightarrow> (request_head \<times> instant) list \<Rightarrow> admission list" where
  \<comment> \<open>requests one after the other, each ended before the next\<close>
  "answers sha rd st [] = []"
| "answers sha rd st ((rq, now) # rqs) =
     (case request_admission sha rd st rq now of
        None \<Rightarrow> []
      | Some (r, ctx, st') \<Rightarrow> r # answers sha rd (drop_admission_ctx st' ctx) rqs)"

definition bearer :: "string \<Rightarrow> string" where
  "bearer key = ''Bearer '' @ key"

definition completion_request :: "string \<Rightarrow> request_head" where
  "completion_request key =
     \<lparr>rq_path = ''/v1/chat/completions'', rq_method = ''POST'', rq_authorization = Some (bearer key),
      rq_consumer = None, rq_project_id = None\<rparr>"

lemma provided_key_bearer [simp]: "provided_key (bearer key) = key"
proof -
  have "strip_prefix (bearer key) ''Bearer '' = Some key" by (simp only: strip_prefix_Some_iff bearer_def)
  then show ?thesis by (simp add: provided_key_def)
qed

lemma completion_request_admission:
  "request_admission sha rd st (completion_request key) now =
     (case authenticate st key (bearer key) now of
        (Inl reply, st) \<Rightarrow> Some (reply, new_admission_ctx, st)
      | (Inr au, st) \<Rightarrow> admit_client sha st key (bearer key) au (completion_request key) new_admission_ctx now)"
proof -
  have wire: "new_admission_ctx\<lparr>ac_client_wire_api := ChatCompletions\<rparr> = new_admission_ctx"
    by (simp add: new_admission_ctx_def)
  have path: "wire_api_from_request_path ''/v1/chat/completions'' = ChatCompletions"
    by code_simp
  have fields: "rq_path (completion_request key) = ''/v1/chat/completions''" "rq_method (completion_request key) = ''POST''"
    "rq_authorization (completion_request key) = Some (bearer key)"
    by (simp_all add: completion_request_def)
  show ?thesis
    by (cases "authenticate st key (bearer key) now")
       (simp split: sum.split add: request_admission_def fields probe_reply_def is_models_endpoint_def is_llm_completion_path_def path wire Let_def)
qed

lemma wrong_key_answer:
  assumes "\<not> au_authorized (authorize_client st key (bearer key))"
    and "hm_get (cl_state (ad_client_lockouts st)) key = None" and "1 < cl_max_attempts (cl_config (ad_client_lockouts st))"
  obtains e where "request_admission sha rd st (completion_request key) now =
    Some (Replied 401 None [], new_admission_ctx, st\<lparr>ad_client_lockouts := (ad_client_lockouts st)\<lparr>cl_state :=
      hm_insert (cl_state (ad_client_lockouts st)) key e\<rparr>\<rparr>)"
proof -
  have check: "cl_check_lockout (ad_client_lockouts st) key now = (cl_unlocked 0, ad_client_lockouts st)"
    using assms(2) by (simp add: cl_check_lockout_def)
  obtain e where failed: "cl_record_failed_attempt (ad_client_lockouts st) key now =
      (cl_unlocked 1, (ad_client_lockouts st)\<lparr>cl_state := hm_insert (cl_state (ad_client_lockouts st)) key e\<rparr>)"
    using assms(2,3) by (simp add: cl_record_failed_attempt_def cl_fail_entry_def)
  show thesis
    by (rule that [of e])
       (use check failed assms(1) in \<open>simp add: completion_request_admission authenticate_def cl_unlocked_def\<close>)
qed

text \<open>
  C33. The lockout counts failures by the key that was tried, not by the client: a client that tries a
  different key each time is answered 401 for ever and never locked out.
\<close>
theorem guessing_never_locked:
  assumes "distinct (map fst guesses)"
    and "\<forall>k \<in> set (map fst guesses). \<not> au_authorized (authorize_client st k (bearer k)) \<and>
           hm_get (cl_state (ad_client_lockouts st)) k = None"
    and "1 < cl_max_attempts (cl_config (ad_client_lockouts st))"
  shows "answers sha rd st (map (\<lambda>(k, t). (completion_request k, t)) guesses) =
    replicate (length guesses) (Replied 401 None [])"
  using assms
proof (induction guesses arbitrary: st)
  case (Cons g guesses)
  obtain k t where g: "g = (k, t)" by (cases g)
  obtain e where run: "request_admission sha rd st (completion_request k) t =
    Some (Replied 401 None [], new_admission_ctx, st\<lparr>ad_client_lockouts := (ad_client_lockouts st)\<lparr>cl_state :=
      hm_insert (cl_state (ad_client_lockouts st)) k e\<rparr>\<rparr>)"
    by (rule wrong_key_answer [of st k sha rd t]) (use Cons.prems in \<open>simp_all add: g\<close>)
  let ?st = "st\<lparr>ad_client_lockouts := (ad_client_lockouts st)\<lparr>cl_state :=
      hm_insert (cl_state (ad_client_lockouts st)) k e\<rparr>\<rparr>"
  have drop: "drop_admission_ctx ?st new_admission_ctx = ?st"
    by (simp add: drop_admission_ctx_def new_admission_ctx_def)
  have same: "authorize_client ?st k' a = authorize_client st k' a" for k' a
    by (simp add: authorize_client_def is_legacy_client_token_def cong: option.case_cong)
  have "answers sha rd ?st (map (\<lambda>(k, t). (completion_request k, t)) guesses) =
      replicate (length guesses) (Replied 401 None [])"
    using Cons.prems by (intro Cons.IH) (auto simp: g same)
  then show ?case by (simp add: g run drop)
qed simp

section \<open>A concrete gateway\<close>

definition sample_key :: stored_key where
  "sample_key = \<lparr>sk_id = ''k'', sk_name = ''n'', sk_key_hash = [], sk_enabled = True, sk_domain = None,
     sk_project_id = None, sk_pipeline = None, sk_upstream_profile = None, sk_max_concurrent = 2, sk_rpm_limit = 0\<rparr>"

definition sample_gateway :: admission_state where
  "sample_gateway = \<lparr>ad_keys = [(''sk'', sample_key)], ad_legacy_api_key_as_client_auth = False,
     ad_legacy_client_tokens = [], ad_auto_project_id_from_client_key = False, ad_default_upstream_profile_id = ''d'',
     ad_cors_enabled = False, ad_domain_policies = [], ad_domain_usage = [],
     ad_client_lockouts = cl_new default_client_lockout_config, ad_client_key_rate_limiter = rl_new,
     ad_client_key_limiter = ck_new, ad_request_permits = 1\<rparr>"

definition sample_readiness :: readiness where
  "sample_readiness = \<lparr>rd_redis_ok = True, rd_keys_available = True, rd_preflight_sent = False\<rparr>"

lemma sample_admitted:
  obtains ctx st' where "request_admission id sample_readiness sample_gateway (completion_request ''sk'') 0 =
    Some (Proceed, ctx, st')" and "\<not> ac_is_models_list ctx"
proof -
  have "\<exists>ctx st'. request_admission id sample_readiness sample_gateway (completion_request ''sk'') 0 =
      Some (Proceed, ctx, st') \<and> \<not> ac_is_models_list ctx"
    unfolding completion_request_admission
    by (simp add: authenticate_def sample_gateway_def cl_check_lockout_def cl_new_def
      cl_unlocked_def authorize_client_def sample_key_def admit_client_def limit_rate_def project_of_request_def
      completion_request_def resolve_project_id_def sanitize_opt_def non_blank_def take_client_slot_def
      ck_try_acquire_def ck_sync_key_def ck_alloc_def ck_new_def take_request_permit_def admitted_ctx_def
      domain_policy_fields_def domain_within_quota_def hm_get_def hm_insert_def cl_record_success_def new_admission_ctx_def)
  then show thesis using that by blast
qed


theorem admission_returns_load_witness:
  "\<exists>ctx st'. request_admission id sample_readiness sample_gateway (completion_request ''sk'') 0 =
     Some (Proceed, ctx, st') \<and> same_load sample_gateway (drop_admission_ctx st' ctx)"
proof -
  obtain ctx st' where run: "request_admission id sample_readiness sample_gateway (completion_request ''sk'') 0 =
    Some (Proceed, ctx, st')"
    by (rule sample_admitted)
  then show ?thesis
    using admission_returns_load [OF _ run] by (auto simp: sample_gateway_def limiter_ok_def ck_new_def)
qed

theorem guessing_never_locked_witness:
  "answers id sample_readiness sample_gateway (map (\<lambda>(k, t). (completion_request k, t))
     [(''a'', 0), (''b'', 1), (''c'', 2), (''d'', 3), (''e'', 4), (''f'', 5)]) = replicate 6 (Replied 401 None [])"
  using guessing_never_locked [of "[(''a'', 0), (''b'', 1), (''c'', 2), (''d'', 3), (''e'', 4), (''f'', 5)]"
      sample_gateway id sample_readiness]
  by (simp add: sample_gateway_def authorize_client_def hm_get_def anonymous_authorization_def
      is_legacy_client_token_def cl_new_def default_client_lockout_config_def numeral_eq_Suc)

text \<open>
  A legacy token is accepted behind any other text, so that one token authenticates under as many
  keys as a client likes, and with automatic projects as many projects.
\<close>
theorem legacy_token_as_suffix:
  assumes "ad_legacy_api_key_as_client_auth st" and "token \<in> set (ad_legacy_client_tokens st)"
    and "hm_get (ad_keys st) (noise @ token) = None"
  shows "au_authorized (authorize_client st (noise @ token) (bearer (noise @ token)))"
proof -
  have "ends_with (bearer (noise @ token)) token"
    by (auto simp: ends_with_iff bearer_def)
  then have "list_ex (ends_with (bearer (noise @ token))) (ad_legacy_client_tokens st)"
    using assms(2) by (auto simp: list_ex_iff)
  then show ?thesis
    using assms(1,3) by (simp add: authorize_client_def anonymous_authorization_def is_legacy_client_token_def)
qed

theorem legacy_token_as_suffix_witness:
  "au_authorized (authorize_client (sample_gateway\<lparr>ad_legacy_api_key_as_client_auth := True,
     ad_legacy_client_tokens := [''t'']\<rparr>) (''x'' @ ''t'') (bearer (''x'' @ ''t'')))"
  by (rule legacy_token_as_suffix) (simp_all add: sample_gateway_def hm_get_def)

end
