(* ===== verification/CacheResponse.thy ===== *)
theory CacheResponse
  imports SseTransform TieredCache
begin

text \<open>
  Cache entries as answers: what is stored of an answer
  (\<^verbatim>\<open>crab-proxy/src/cache_helpers.rs\<close>) and what is sent for an entry
  (\<^verbatim>\<open>crab-proxy/src/cache_response.rs\<close>). A refused entry is no answer. Headers are not
  modelled, nor is a failed write to the client, which the source ignores. The JSON parser and
  printer, the substitution of the thinking blocks and fresh ids are arguments.
\<close>

section \<open>Storing\<close>

definition prepare_response_body_for_cache ::
    "json_parser \<Rightarrow> (json \<Rightarrow> string) \<Rightarrow> (string \<Rightarrow> string) \<Rightarrow> string \<Rightarrow> bool \<Rightarrow> string" where
  "prepare_response_body_for_cache parse ser replace body display_reasoning =
     (case parse body of
        None \<Rightarrow> body
      | Some v \<Rightarrow> ser (sanitize_client_completion replace v display_reasoning True))"

definition build_cache_entry ::
    "string \<Rightarrow> string \<Rightarrow> nat \<Rightarrow> bool \<Rightarrow> bool \<Rightarrow> usage_info \<Rightarrow> nat \<Rightarrow> cache_entry" where
  "build_cache_entry response_body model ttl_secs is_stream client_display_reasoning usage now_secs =
     \<lparr>ce_response_body = response_body, ce_model = model, ce_usage = usage, ce_created_at = now_secs,
      ce_ttl_secs = ttl_secs, ce_sse_body = None, ce_is_stream = is_stream,
      ce_client_display_reasoning = client_display_reasoning\<rparr>"

definition build_cache_entry_with_sse ::
    "string \<Rightarrow> string \<Rightarrow> string \<Rightarrow> nat \<Rightarrow> bool \<Rightarrow> bool \<Rightarrow> usage_info \<Rightarrow> nat \<Rightarrow> cache_entry" where
  "build_cache_entry_with_sse response_body sse_body model ttl_secs is_stream client_display_reasoning usage now_secs =
     \<lparr>ce_response_body = response_body, ce_model = model, ce_usage = usage, ce_created_at = now_secs,
      ce_ttl_secs = ttl_secs, ce_sse_body = Some sse_body, ce_is_stream = is_stream,
      ce_client_display_reasoning = client_display_reasoning\<rparr>"

definition should_store_sse_body :: "nat \<Rightarrow> nat \<Rightarrow> bool" where
  "should_store_sse_body sse_len max_sse_cache_bytes \<longleftrightarrow> 0 < max_sse_cache_bytes \<and> sse_len \<le> max_sse_cache_bytes"

definition cache_entry_matches_stream_mode :: "cache_entry \<Rightarrow> bool \<Rightarrow> bool" where
  "cache_entry_matches_stream_mode entry is_streaming \<longleftrightarrow> ce_is_stream entry = is_streaming"

definition tiered_exact_lookup ::
    "(string \<Rightarrow> cache_entry option) \<Rightarrow> tiered_cache \<Rightarrow> string \<Rightarrow> bool \<Rightarrow> l1_io \<Rightarrow> instant \<Rightarrow>
     (cache_entry \<times> cache_tier) option \<times> metric_event list \<times> tiered_cache" where
  "tiered_exact_lookup de c cache_key is_streaming io now =
     (case tiered_get de c cache_key io now of
        (Some (entry, tier), ms, c) \<Rightarrow>
          (if cache_entry_matches_stream_mode entry is_streaming then Some (entry, tier) else None, ms, c)
      | (None, ms, c) \<Rightarrow> (None, ms, c))"

definition message_query_text :: "json \<Rightarrow> string option" where
  \<comment> \<open>the text a message contributes to the query\<close>
  "message_query_text msg =
     (if str_or_empty msg ''role'' \<in> {''system'', ''user'', ''assistant''} then
        (case json_get msg ''content'' of
           Some (JStr s) \<Rightarrow> if s = [] then None else Some s
         | Some (JArr arr) \<Rightarrow>
             (let sub = List.map_filter (\<lambda>p. json_get_str p ''text'') arr in
              if sub = [] then None else if join '' '' sub = [] then None else Some (join '' '' sub))
         | _ \<Rightarrow> None)
      else None)"

definition build_semantic_query_text :: "json list \<Rightarrow> string option" where
  "build_semantic_query_text messages =
     (let parts = List.map_filter message_query_text messages in
      if parts = [] then None else Some (join nl parts))"

section \<open>Answering\<close>

definition message_to_cursor_safe_delta :: "(string \<Rightarrow> string) \<Rightarrow> json option \<Rightarrow> bool \<Rightarrow> json" where
  "message_to_cursor_safe_delta replace message display_reasoning =
     (case message of
        None \<Rightarrow> JObj []
      | Some msg \<Rightarrow>
          if \<not> is_object msg then msg
          else (let content_str = str_or_empty msg ''content''; reasoning_str = str_or_empty msg ''reasoning_content'';
                    effective = (if display_reasoning \<and> content_str = [] \<and> reasoning_str \<noteq> [] then reasoning_str
                                 else sanitize_client_message_content replace content_str display_reasoning)
                in JObj ((if effective \<noteq> [] \<or> json_get msg ''content'' \<noteq> None \<or> json_get msg ''reasoning_content'' \<noteq> None
                          then [(''content'', JStr effective)] else []) @
                         (case json_get msg ''role'' of Some r \<Rightarrow> [(''role'', r)] | None \<Rightarrow> []) @
                         (case json_get msg ''tool_calls'' of Some t \<Rightarrow> [(''tool_calls'', t)] | None \<Rightarrow> []))))"

definition delta_visible :: "json \<Rightarrow> bool" where
  "delta_visible delta \<longleftrightarrow>
     (case json_get_str delta ''content'' of Some s \<Rightarrow> s \<noteq> [] | None \<Rightarrow> False) \<or>
     (case Option.bind (json_get delta ''tool_calls'') as_array of Some a \<Rightarrow> a \<noteq> [] | None \<Rightarrow> False)"

definition completion_json_has_visible_client_content ::
    "json_parser \<Rightarrow> (string \<Rightarrow> string) \<Rightarrow> string \<Rightarrow> bool \<Rightarrow> bool" where
  "completion_json_has_visible_client_content parse replace body display_reasoning =
     (case Option.bind (parse body) choices_of of
        None \<Rightarrow> False
      | Some choices \<Rightarrow>
          list_ex (\<lambda>choice. delta_visible
            (message_to_cursor_safe_delta replace (json_get choice ''message'') display_reasoning)) choices)"

definition is_ascii_space :: "char \<Rightarrow> bool" where
  "is_ascii_space c \<longleftrightarrow> c \<in> {CHR '' '', CHR 0x09, CHR 0x0A, CHR 0x0C, CHR 0x0D}"

definition trim_ascii :: "string \<Rightarrow> string" where
  "trim_ascii s = rev (dropWhile is_ascii_space (rev (dropWhile is_ascii_space s)))"

definition sse_line_choices :: "json_parser \<Rightarrow> string \<Rightarrow> json list" where
  \<comment> \<open>the choices of a data line, none for every other line\<close>
  "sse_line_choices parse line =
     (let stripped = trim_ascii line in
      case strip_prefix stripped ''data:'' of
        None \<Rightarrow> []
      | Some rest \<Rightarrow>
          (let data = trim_ascii rest in
           if data = ''[DONE]'' then []
           else case Option.bind (parse data) choices_of of Some cs \<Rightarrow> cs | None \<Rightarrow> []))"

definition sse_choices :: "json_parser \<Rightarrow> string \<Rightarrow> json list" where
  "sse_choices parse sse = concat (map (sse_line_choices parse) (split_on (CHR 0x0A) sse))"

definition cached_sse_has_thinking_markup :: "json_parser \<Rightarrow> (string \<Rightarrow> string) \<Rightarrow> string \<Rightarrow> bool" where
  "cached_sse_has_thinking_markup parse replace sse \<longleftrightarrow>
     list_ex (\<lambda>choice.
       case or_else (Option.bind (json_get choice ''delta'') (\<lambda>d. json_get_str d ''content''))
                    (Option.bind (json_get choice ''message'') (\<lambda>m. json_get_str m ''content'')) of
         Some t \<Rightarrow> completion_message_content_has_thinking_markup replace t
       | None \<Rightarrow> False) (sse_choices parse sse)"

definition cached_sse_has_nonempty_content :: "json_parser \<Rightarrow> string \<Rightarrow> bool" where
  "cached_sse_has_nonempty_content parse sse \<longleftrightarrow>
     list_ex (\<lambda>choice.
       case Option.bind (json_get choice ''delta'') (\<lambda>d. json_get_str d ''content'') of
         Some t \<Rightarrow> t \<noteq> [] | None \<Rightarrow> False) (sse_choices parse sse)"

definition sanitize_cached_json_body ::
    "json_parser \<Rightarrow> (json \<Rightarrow> string) \<Rightarrow> (string \<Rightarrow> string) \<Rightarrow> string \<Rightarrow> bool \<Rightarrow> string" where
  "sanitize_cached_json_body parse ser replace body display_reasoning =
     (case parse body of
        None \<Rightarrow> body
      | Some v \<Rightarrow> ser (sanitize_client_completion replace v display_reasoning True))"

definition cache_chunk :: "string \<Rightarrow> nat \<Rightarrow> string \<Rightarrow> json list \<Rightarrow> (string \<times> json) list \<Rightarrow> json" where
  "cache_chunk fresh created model choices usage =
     JObj ([(''choices'', JArr choices), (''created'', JInt (int created)),
            (''id'', JStr (''chatcmpl-cache-'' @ fresh)), (''model'', JStr model),
            (''object'', JStr ''chat.completion.chunk'')] @ usage)"

definition cache_choice :: "(string \<Rightarrow> string) \<Rightarrow> bool \<Rightarrow> nat \<Rightarrow> json \<Rightarrow> json" where
  "cache_choice replace display_reasoning idx choice =
     JObj [(''delta'', message_to_cursor_safe_delta replace (json_get choice ''message'') display_reasoning),
           (''finish_reason'', case json_get choice ''finish_reason'' of Some r \<Rightarrow> r | None \<Rightarrow> JNull),
           (''index'', JInt (int idx))]"

definition cache_data_line :: "(json \<Rightarrow> string) \<Rightarrow> json \<Rightarrow> string" where
  "cache_data_line ser v = ''data: '' @ ser v @ nl @ nl"

definition json_to_sse_stream ::
    "json_parser \<Rightarrow> (json \<Rightarrow> string) \<Rightarrow> (string \<Rightarrow> string) \<Rightarrow> (nat \<Rightarrow> string) \<Rightarrow> nat \<Rightarrow> string \<Rightarrow> string \<Rightarrow> bool \<Rightarrow> string" where
  \<comment> \<open>\<open>fresh i\<close> is the i-th fresh id\<close>
  "json_to_sse_stream parse ser replace fresh created json_body model display_reasoning =
     (let sanitized = sanitize_cached_json_body parse ser replace json_body display_reasoning in
      case parse sanitized of
        None \<Rightarrow> sanitized
      | Some value \<Rightarrow>
          (let choices = (case choices_of value of Some cs \<Rightarrow> cs | None \<Rightarrow> []) in
           concat (map (\<lambda>(idx, choice). cache_data_line ser
               (cache_chunk (fresh idx) created model [cache_choice replace display_reasoning idx choice] []))
             (enumerate 0 choices)) @
           (case json_get value ''usage'' of
              Some usage \<Rightarrow> cache_data_line ser (cache_chunk (fresh (length choices)) created model [] [(''usage'', usage)])
            | None \<Rightarrow> []) @
           ''data: [DONE]'' @ nl @ nl))"

definition force_regen :: "json_parser \<Rightarrow> (string \<Rightarrow> string) \<Rightarrow> cache_entry \<Rightarrow> bool \<Rightarrow> bool" where
  "force_regen parse replace entry display_reasoning \<longleftrightarrow>
     ce_client_display_reasoning entry \<noteq> display_reasoning \<or>
     (case ce_sse_body entry of Some s \<Rightarrow> str_contains s ''reasoning_content'' | None \<Rightarrow> False) \<or>
     (case ce_sse_body entry of Some s \<Rightarrow> \<not> cached_sse_has_nonempty_content parse s | None \<Rightarrow> False) \<or>
     (\<not> display_reasoning \<and> response_body_has_thinking_markup parse replace (ce_response_body entry)) \<or>
     (\<not> display_reasoning \<and>
        (case ce_sse_body entry of Some s \<Rightarrow> cached_sse_has_thinking_markup parse replace s | None \<Rightarrow> False))"

definition cached_stream ::
    "json_parser \<Rightarrow> (json \<Rightarrow> string) \<Rightarrow> (string \<Rightarrow> string) \<Rightarrow> (nat \<Rightarrow> string) \<Rightarrow> nat \<Rightarrow> cache_entry \<Rightarrow> string \<Rightarrow> bool \<Rightarrow> string" where
  "cached_stream parse ser replace fresh created entry model display_reasoning =
     (case ce_sse_body entry of
        Some s \<Rightarrow>
          if force_regen parse replace entry display_reasoning
          then json_to_sse_stream parse ser replace fresh created (ce_response_body entry) model display_reasoning
          else s
      | None \<Rightarrow> json_to_sse_stream parse ser replace fresh created (ce_response_body entry) model display_reasoning)"

definition send_cached_response ::
    "json_parser \<Rightarrow> (json \<Rightarrow> string) \<Rightarrow> (string \<Rightarrow> string) \<Rightarrow> (nat \<Rightarrow> string) \<Rightarrow> nat \<Rightarrow> cache_entry \<Rightarrow> string \<Rightarrow> bool \<Rightarrow> bool \<Rightarrow>
     string option" where
  \<comment> \<open>the body sent, none when the entry is refused\<close>
  "send_cached_response parse ser replace fresh created entry model is_streaming display_reasoning =
     (if is_streaming then
        (let sse_body = cached_stream parse ser replace fresh created entry model display_reasoning in
         if \<not> cached_sse_has_nonempty_content parse sse_body \<and>
            \<not> completion_json_has_visible_client_content parse replace (ce_response_body entry) display_reasoning
         then None else Some sse_body)
      else
        (let json_body = sanitize_cached_json_body parse ser replace (ce_response_body entry) display_reasoning in
         if \<not> completion_json_has_visible_client_content parse replace json_body display_reasoning then None
         else Some json_body))"

section \<open>Properties\<close>

lemma delta_no_reasoning:
  "json_get (message_to_cursor_safe_delta replace message display) ''reasoning_content'' = None"
proof (cases message)
  case (Some msg)
  show ?thesis
  proof (cases "is_object msg")
    case True
    then show ?thesis using Some by (auto simp: message_to_cursor_safe_delta_def Let_def split: option.split)
  next
    case False
    then show ?thesis using Some by (cases msg) (simp_all add: message_to_cursor_safe_delta_def is_object_def)
  qed
qed (simp add: message_to_cursor_safe_delta_def)

definition chunk_without_reasoning :: "json \<Rightarrow> bool" where
  "chunk_without_reasoning chunk \<longleftrightarrow>
     (case choices_of chunk of
        Some cs \<Rightarrow> list_all (\<lambda>c. case json_get c ''delta'' of
                     Some d \<Rightarrow> json_get d ''reasoning_content'' = None | None \<Rightarrow> True) cs
      | None \<Rightarrow> True)"

lemma cache_chunk_without_reasoning:
  "chunk_without_reasoning (cache_chunk f t m [cache_choice replace display i c] [])"
  "chunk_without_reasoning (cache_chunk f t m [] u)"
  by (simp_all add: chunk_without_reasoning_def choices_of_def cache_chunk_def cache_choice_def delta_no_reasoning)

lemma json_to_sse_stream_chunks:
  assumes "parse (sanitize_cached_json_body parse ser replace body display) = Some value"
  obtains chunks where "json_to_sse_stream parse ser replace fresh created body model display =
      concat (map (cache_data_line ser) chunks) @ ''data: [DONE]'' @ nl @ nl"
    "list_all chunk_without_reasoning chunks"
proof -
  let ?cs = "case choices_of value of Some cs \<Rightarrow> cs | None \<Rightarrow> []"
  let ?chunks = "map (\<lambda>(i, c). cache_chunk (fresh i) created model [cache_choice replace display i c] []) (enumerate 0 ?cs) @
    (case json_get value ''usage'' of
       Some u \<Rightarrow> [cache_chunk (fresh (length ?cs)) created model [] [(''usage'', u)]] | None \<Rightarrow> [])"
  have "json_to_sse_stream parse ser replace fresh created body model display =
      concat (map (cache_data_line ser) ?chunks) @ ''data: [DONE]'' @ nl @ nl"
    by (simp add: json_to_sse_stream_def assms Let_def comp_def case_prod_unfold split: option.split)
  moreover have "list_all chunk_without_reasoning ?chunks"
    by (auto simp: list_all_iff cache_chunk_without_reasoning split: option.splits)
  ultimately show thesis by (rule that)
qed


definition hello_completion :: json where
  "hello_completion = JObj [(''choices'', JArr [JObj [(''message'', JObj [(''content'', JStr ''hi'')])]])]"

definition hello_entry :: cache_entry where
  "hello_entry = build_cache_entry ''h'' ''m'' 60 True False
     \<lparr>prompt_tokens = 1, completion_tokens = 1, prompt_cache_hit_tokens = 0, prompt_cache_miss_tokens = 1\<rparr> 0"

lemma hello_sent:
  obtains out where "send_cached_response (\<lambda>s. if s = ''h'' then Some hello_completion else None)
    (\<lambda>v. if v = hello_completion then ''h'' else ''c'') id (\<lambda>_. []) 0 hello_entry ''m'' True False = Some out"
proof -
  have "send_cached_response (\<lambda>s. if s = ''h'' then Some hello_completion else None)
    (\<lambda>v. if v = hello_completion then ''h'' else ''c'') id (\<lambda>_. []) 0 hello_entry ''m'' True False \<noteq> None"
    by code_simp
  then show thesis using that by blast
qed


section \<open>Reasoning shown with the answer\<close>

definition first_content :: "json \<Rightarrow> string option" where
  "first_content v =
     (case choices_of v of
        Some (c # _) \<Rightarrow> Option.bind (json_get c ''message'') (\<lambda>m. json_get_str m ''content'')
      | _ \<Rightarrow> None)"

lemma folded_message:
  assumes "is_object m" and "json_get_str m ''reasoning_content'' = Some r" and "r \<noteq> []"
    and "json_get_str m ''content'' = Some c"
  shows "is_object (fold_message True m)"
    and "json_get_str (fold_message True m) ''reasoning_content'' = Some r"
    and "json_get_str (fold_message True m) ''content'' = Some (block_start True @ r @ block_end True @ c)"
  using assms
  by (cases m; auto simp: fold_message_def Let_def str_or_empty_def is_object_def json_get_str_def json_get_insert update_conv')+

text \<open>
  With the display of reasoning on, the thinking block is put in front of the content once for the
  client, once more for the cache and once more for every answer from the cache: the reasoning
  field stays, so each round folds it in again. A client that asks twice sees the block three times.
\<close>
theorem cached_answer_repeats_thinking:
  assumes "parse body = Some v" and "choices_of v = Some [choice]" and "json_get choice ''message'' = Some m"
    and "is_object m" and "json_get_str m ''reasoning_content'' = Some r" and "r \<noteq> []"
    and "json_get_str m ''content'' = Some c"
    and "v1 = sanitize_client_completion replace v True True" and "parse (ser v1) = Some v1"
    and "v2 = sanitize_client_completion replace v1 True True" and "parse (ser v2) = Some v2"
  shows "\<exists>w. sanitize_cached_json_body parse ser replace (prepare_response_body_for_cache parse ser replace (ser v1) True) True =
      ser w \<and> first_content v1 = Some (block_start True @ r @ block_end True @ c) \<and>
      first_content w = Some (concat (replicate 3 (block_start True @ r @ block_end True)) @ c)"
proof -
  let ?f = "map_choices (map_part ''message'' (fold_message True))"
  let ?m1 = "fold_message True m"
  let ?m2 = "fold_message True ?m1"
  have san: "sanitize_client_completion replace u True True = ?f u" for u
    by (simp add: sanitize_client_completion_def fold_reasoning_into_content_def)
  note m1 = folded_message [OF assms(4-7)]
  note m2 = folded_message [OF m1(1,2) assms(6) m1(3)]
  note m3 = folded_message [OF m2(1,2) assms(6) m2(3)]
  have v1: "first_content v1 = json_get_str ?m1 ''content''"
    using assms(2-4) by (simp add: assms(8) san first_content_def json_get_map_part)
  have w: "first_content (?f v2) = json_get_str (fold_message True ?m2) ''content''"
    using assms(2-4) m1(1) m2(1) by (simp add: assms(8,10) san first_content_def json_get_map_part)
  show ?thesis
    using assms(9,11) m1(3) m3(3) v1 w
    by (auto simp: prepare_response_body_for_cache_def sanitize_cached_json_body_def san assms(10) [symmetric, unfolded san]
        numeral_eq_Suc intro!: exI [of _ "?f v2"])
qed

definition thinking_message :: json where
  "thinking_message = JObj [(''content'', JStr ''hi''), (''reasoning_content'', JStr ''r'')]"

definition thinking_completion :: json where
  "thinking_completion = JObj [(''choices'', JArr [JObj [(''message'', thinking_message)]])]"

definition folded_completion :: json where
  "folded_completion = sanitize_client_completion id thinking_completion True True"

definition refolded_completion :: json where
  "refolded_completion = sanitize_client_completion id folded_completion True True"

definition small_ser :: "json \<Rightarrow> string" where
  "small_ser v = (if v = folded_completion then ''1'' else if v = refolded_completion then ''2'' else ''3'')"

definition small_parse :: json_parser where
  "small_parse s = (if s = ''0'' then Some thinking_completion else if s = ''1'' then Some folded_completion
     else if s = ''2'' then Some refolded_completion else None)"

theorem cached_answer_repeats_thinking_witness:
  "\<exists>w. sanitize_cached_json_body small_parse small_ser id
       (prepare_response_body_for_cache small_parse small_ser id (small_ser folded_completion) True) True = small_ser w \<and>
     first_content w = Some (concat (replicate 3 (block_start True @ ''r'' @ block_end True)) @ ''hi'')"
proof -
  have "small_parse (small_ser refolded_completion) = Some refolded_completion" by code_simp
  then show ?thesis
    using cached_answer_repeats_thinking [of small_parse "''0''" thinking_completion
        "JObj [(''message'', thinking_message)]" thinking_message "''r''" "''hi''" folded_completion id small_ser refolded_completion]
    by (auto simp: small_parse_def small_ser_def thinking_completion_def thinking_message_def choices_of_def
        is_object_def json_get_str_def folded_completion_def refolded_completion_def)
qed

end
