(* ===== verification/CachePhase.thy ===== *)
theory CachePhase
  imports CacheResponse Coalescing CacheKey Tenant SsePipeline
begin

text \<open>
  The cache phase of a request (\<^verbatim>\<open>crab-proxy/src/phases/cache_coalesce.rs\<close>,
  \<^verbatim>\<open>try_early_exact_cache\<close> of \<^verbatim>\<open>proxy.rs\<close> and
  \<^verbatim>\<open>maybe_spawn_swr\<close> of \<^verbatim>\<open>cache_revalidate.rs\<close>): the key, the exact lookup, the
  prefix index, and what a request does with the outcome of the coalescer. The phase waits in
  \<^verbatim>\<open>acquire\<close>, so it is given as the part before and the part after; the caches may change in
  between. The libraries the parts call, the semantic cache's answer, the outcome of Redis commands
  and the clock are arguments; metrics and log lines are left out.
\<close>

section \<open>State\<close>

record cache_libs =
  cl_esc :: "string \<Rightarrow> string"
  cl_num :: "json \<Rightarrow> string"
  cl_nfc :: "string \<Rightarrow> string"
  cl_sha :: "string \<Rightarrow> string"
  cl_parse :: json_parser
  cl_ser :: "json \<Rightarrow> string"
  cl_replace :: "string \<Rightarrow> string" \<comment> \<open>the substitution of the thinking blocks\<close>
  cl_fresh :: "nat \<Rightarrow> string" \<comment> \<open>fresh ids\<close>
  cl_de :: "string \<Rightarrow> cache_entry option" \<comment> \<open>entries stored in Redis\<close>

record cache_config =
  cf_cache_key_namespace :: "string option"
  cf_fingerprint :: fingerprint_config
  cf_prefix_aware_cache :: bool

record cache_ctx =
  cc_client_wire_api :: client_wire_api
  cc_project_id :: "string option"
  cc_parsed_request_payload :: "json option"
  cc_original_request_body :: "string option"
  cc_request_pipeline :: "request_pipeline option"
  cc_model :: string
  cc_is_streaming :: bool
  cc_display_reasoning :: bool
  cc_exact_cache_probed :: bool
  cc_cache_key :: "string option"
  cc_cache_tier :: "cache_tier option"
  cc_cache_hit :: "cache_entry option"
  cc_last_input :: nat
  cc_last_output :: nat
  cc_is_coalesced_follower :: bool
  cc_coalesce_guard :: "coalesce_guard option"
  cc_revalidating :: bool \<comment> \<open>a subrequest that refreshes the entry was spawned\<close>

datatype phase_outcome =
    Answered string \<comment> \<open>a cached answer was sent\<close>
  | AnsweredBySemanticCache
  | RefusedWith nat
  | GoUpstream
  | PhasePanics

section \<open>Answering a hit\<close>

definition maybe_spawn_swr :: "cache_entry \<Rightarrow> nat \<Rightarrow> bool" where
  "maybe_spawn_swr entry now_secs \<longleftrightarrow>
     ce_is_stale entry now_secs \<and> \<not> 86400 < ce_stale_age_secs entry now_secs"

definition answer_hit ::
    "cache_libs \<Rightarrow> nat \<Rightarrow> bool \<Rightarrow> cache_ctx \<Rightarrow> cache_entry \<Rightarrow> cache_tier \<Rightarrow> (string \<times> cache_ctx) option" where
  \<comment> \<open>sends an entry and notes it in the context; none for a hollow entry\<close>
  "answer_hit libs now_secs display_reasoning ctx entry tier =
     (case send_cached_response (cl_parse libs) (cl_ser libs) (cl_replace libs) (cl_fresh libs) now_secs
             entry (cc_model ctx) (cc_is_streaming ctx) display_reasoning of
        None \<Rightarrow> None
      | Some body \<Rightarrow>
          Some (body, ctx\<lparr>cc_cache_tier := Some tier, cc_cache_hit := Some entry,
                         cc_last_input := usage_info.prompt_tokens (ce_usage entry),
                         cc_last_output := usage_info.completion_tokens (ce_usage entry),
                         cc_revalidating := cc_original_request_body ctx \<noteq> None \<and> maybe_spawn_swr entry now_secs\<rparr>))"

definition try_early_exact_cache ::
    "cache_libs \<Rightarrow> tiered_cache \<Rightarrow> cache_ctx \<Rightarrow> string \<Rightarrow> bool \<Rightarrow> l1_io \<Rightarrow> instant \<Rightarrow> nat \<Rightarrow>
     string option \<times> cache_ctx \<times> tiered_cache" where
  "try_early_exact_cache libs c ctx cache_key display_reasoning io now now_secs =
     (let ctx = ctx\<lparr>cc_exact_cache_probed := True\<rparr> in
      case tiered_exact_lookup (cl_de libs) c cache_key (cc_is_streaming ctx) io now of
        (None, ms, c) \<Rightarrow> (None, ctx, c)
      | (Some (entry, tier), ms, c) \<Rightarrow>
          (case answer_hit libs now_secs display_reasoning ctx entry tier of
             None \<Rightarrow> (None, ctx, c)
           | Some (body, ctx) \<Rightarrow> (Some body, ctx, c)))"

section \<open>Before the coalescer\<close>

definition phase_namespace :: "cache_config \<Rightarrow> cache_ctx \<Rightarrow> string option" where
  "phase_namespace cfg ctx = effective_cache_namespace (cf_cache_key_namespace cfg) (cc_project_id ctx)"

datatype key_result = CacheKey string | NoCacheKey | BodyMissing

definition phase_key :: "cache_libs \<Rightarrow> cache_config \<Rightarrow> cache_ctx \<Rightarrow> key_result" where
  "phase_key libs cfg ctx =
     (case cc_parsed_request_payload ctx of
        Some payload \<Rightarrow>
          CacheKey (generate_namespaced_cache_key_from_value (cl_esc libs) (cl_num libs) (cl_nfc libs) (cl_sha libs)
                      payload (phase_namespace cfg ctx) (cf_fingerprint cfg))
      | None \<Rightarrow>
          (case cc_original_request_body ctx of
             None \<Rightarrow> BodyMissing
           | Some body \<Rightarrow>
               (case generate_namespaced_cache_key_with_fingerprint (cl_esc libs) (cl_num libs) (cl_nfc libs)
                       (cl_sha libs) (cl_parse libs) body (phase_namespace cfg ctx) (cf_fingerprint cfg) of
                  Some key \<Rightarrow> CacheKey key
                | None \<Rightarrow> NoCacheKey)))"

definition is_mimo_pipeline :: "request_pipeline \<Rightarrow> bool" where
  "is_mimo_pipeline p \<longleftrightarrow> p \<in> {MimoTokenPlanRelay, CodexMimo}"

definition before_last_colon :: "string \<Rightarrow> string option" where
  "before_last_colon s =
     (if CHR '':'' \<in> set s then Some (rev (tl (dropWhile (\<lambda>c. c \<noteq> CHR '':'') (rev s)))) else None)"

definition register_prefix ::
    "cache_libs \<Rightarrow> cache_config \<Rightarrow> cache_ctx \<Rightarrow> string \<Rightarrow> bool \<Rightarrow> tiered_cache \<Rightarrow> tiered_cache" where
  \<comment> \<open>what the lookup of the prefix finds is only counted\<close>
  "register_prefix libs cfg ctx cache_key tiered_was_absent c =
     (if tiered_was_absent \<and>
         (cf_prefix_aware_cache cfg \<or> (case cc_request_pipeline ctx of Some p \<Rightarrow> is_mimo_pipeline p | None \<Rightarrow> False)) then
        (case cc_parsed_request_payload ctx of
           None \<Rightarrow> c
         | Some payload \<Rightarrow>
             (case before_last_colon (generate_composite_cache_key_from_value (cl_esc libs) (cl_num libs)
                     (cl_nfc libs) (cl_sha libs) payload (phase_namespace cfg ctx) (cf_fingerprint cfg)) of
                Some prefix_hash \<Rightarrow> update_prefix_index c prefix_hash cache_key
              | None \<Rightarrow> c))
      else c)"

definition may_try_l2 :: "cache_ctx \<Rightarrow> bool" where
  "may_try_l2 ctx \<longleftrightarrow> cc_request_pipeline ctx = Some CursorDeepSeekV4"

definition exact_probe ::
    "cache_libs \<Rightarrow> tiered_cache \<Rightarrow> cache_ctx \<Rightarrow> string \<Rightarrow> l1_io \<Rightarrow> instant \<Rightarrow>
     (cache_entry \<times> cache_tier) option \<times> tiered_cache" where
  "exact_probe libs c ctx key io now =
     (if cc_exact_cache_probed ctx then (None, c)
      else case (if may_try_l2 ctx then tiered_get_defer_miss (cl_de libs) c key io now
                 else tiered_get (cl_de libs) c key io now) of
             (r, ms, c) \<Rightarrow> (r, c))"

datatype lookup_outcome =
    Finished phase_outcome
  | AcquireFor string \<comment> \<open>go on with the coalescer, for this key\<close>

definition matching_hit ::
    "cache_libs \<Rightarrow> nat \<Rightarrow> cache_ctx \<Rightarrow> (cache_entry \<times> cache_tier) option \<Rightarrow> (string \<times> cache_ctx) option" where
  \<comment> \<open>an entry found answers the request when it has its stream mode and is not hollow\<close>
  "matching_hit libs now_secs ctx found =
     (case found of
        None \<Rightarrow> None
      | Some (entry, tier) \<Rightarrow>
          if cache_entry_matches_stream_mode entry (cc_is_streaming ctx)
          then answer_hit libs now_secs (cc_display_reasoning ctx) ctx entry tier else None)"

definition cache_lookup ::
    "cache_libs \<Rightarrow> cache_config \<Rightarrow> tiered_cache \<Rightarrow> cache_ctx \<Rightarrow> bool \<Rightarrow> l1_io \<Rightarrow> instant \<Rightarrow> nat \<Rightarrow>
     lookup_outcome \<times> cache_ctx \<times> tiered_cache" where
  \<comment> \<open>the phase up to the coalescer; \<open>semantic\<close>: the semantic cache answers\<close>
  "cache_lookup libs cfg c ctx semantic io now now_secs =
     (if cc_client_wire_api ctx = Responses then (Finished GoUpstream, ctx, c)
      else case phase_key libs cfg ctx of
        BodyMissing \<Rightarrow> (Finished PhasePanics, ctx, c)
      | NoCacheKey \<Rightarrow> (Finished GoUpstream, ctx, c)
      | CacheKey key \<Rightarrow>
          (let ctx = ctx\<lparr>cc_cache_key := Some key\<rparr> in
           case exact_probe libs c ctx key io now of
             (found, c) \<Rightarrow>
               (case matching_hit libs now_secs ctx found of
                  Some (body, ctx) \<Rightarrow> (Finished (Answered body), ctx, c)
                | None \<Rightarrow>
                    (let c = register_prefix libs cfg ctx key (found = None) c in
                     if may_try_l2 ctx \<and> semantic then (Finished AnsweredBySemanticCache, ctx, c)
                     else (AcquireFor key, ctx, c)))))"

section \<open>After the coalescer\<close>

definition after_acquire ::
    "cache_libs \<Rightarrow> tiered_cache \<Rightarrow> cache_ctx \<Rightarrow> string \<Rightarrow> request_coalescer \<Rightarrow> coalesce_error + coalesce_guard \<Rightarrow>
     l1_io \<Rightarrow> instant \<Rightarrow> nat \<Rightarrow> phase_outcome \<times> cache_ctx \<times> tiered_cache" where
  "after_acquire libs c ctx key co acquired io now now_secs =
     (case acquired of
        Inl CoCapacityExceeded \<Rightarrow> (RefusedWith 503, ctx, c)
      | Inl CoTimeout \<Rightarrow> (GoUpstream, ctx, c)
      | Inr guard \<Rightarrow>
          if cg_is_leader guard then (GoUpstream, ctx\<lparr>cc_coalesce_guard := Some guard\<rparr>, c)
          else let ctx = ctx\<lparr>cc_is_coalesced_follower := True\<rparr> in
               case tiered_get_silent (cl_de libs) c key io now of
                 (found, ms, c) \<Rightarrow>
                   (case matching_hit libs now_secs ctx found of
                      Some (body, ctx) \<Rightarrow> (Answered body, ctx, c)
                    | None \<Rightarrow>
                        if found = None \<and> cg_leader_failed co guard then (RefusedWith 502, ctx, c)
                        else (GoUpstream, ctx, c)))"

fun acquire_outcome :: "acquire_pc \<Rightarrow> (coalesce_error + coalesce_guard) option" where
  \<comment> \<open>what \<open>acquire\<close> returned to a task, once it has\<close>
  "acquire_outcome (AcqGuard g) = Some (Inr g)"
| "acquire_outcome (AcqErr e) = Some (Inl e)"
| "acquire_outcome _ = None"

section \<open>A key whose leader failed\<close>

definition failed_key :: "request_coalescer \<Rightarrow> string \<Rightarrow> nat \<Rightarrow> bool" where
  "failed_key c key a \<longleftrightarrow> hm_get (co_inflight c) key = Some a \<and> a < length (co_heap c) \<and>
     ie_completed (co_heap c ! a) \<and> ie_failed (co_heap c ! a)"

fun follows_failed :: "nat \<Rightarrow> acquire_pc \<Rightarrow> bool" where
  \<comment> \<open>where a request for such a key can be\<close>
  "follows_failed a AcqLookup = True"
| "follows_failed a (AcqFound b) = (b = a)"
| "follows_failed a (AcqGuard g) = (\<not> cg_is_leader g \<and> cg_entry g = a)"
| "follows_failed a AcqDropped = True"
| "follows_failed a _ = False"

lemma failed_key_grows: "failed_key c key a \<Longrightarrow> co_le c c' \<Longrightarrow> failed_key c' key a"
  by (auto simp: failed_key_def co_le_def)

lemma follower_step:
  assumes "failed_key (cs_co s) key a" and "co_step s j t" and "i < length (cs_tasks s)"
    and "cs_tasks s ! i = (key, pc)" and "follows_failed a pc"
  shows "\<exists>pc'. cs_tasks t ! i = (key, pc') \<and> follows_failed a pc'"
  using assms(2)
proof cases
  case (co_run k q c q')
  then show ?thesis using assms(1,3,4,5)
    by (cases "i = j"; cases pc)
      (auto simp: acquire_step_def failed_key_def follower_guard_def split: option.splits if_splits)
next
  case (co_wake k q q')
  then show ?thesis using assms(1,3,4,5) by (cases "i = j"; cases pc) auto
next
  case (co_timeout k q q')
  then show ?thesis using assms(1,3,4,5) by (cases "i = j"; cases pc) auto
next
  case (co_drop k g c g' q')
  then show ?thesis using assms(1,3,4,5) by (cases "i = j"; cases pc) (auto simp: cg_drop_entry_def)
next
  case (co_release k)
  then show ?thesis using assms(1,3,4,5) by (cases "i = j"; cases pc) auto
qed (use assms(3-5) in auto)

lemma failed_key_run:
  assumes "co_steps s t" and "reachable co_init co_step s" and "failed_key (cs_co s) key a"
    and "i < length (cs_tasks s)" and "cs_tasks s ! i = (key, AcqLookup)"
  shows "failed_key (cs_co t) key a \<and> i < length (cs_tasks t) \<and>
    (\<exists>pc. cs_tasks t ! i = (key, pc) \<and> follows_failed a pc)"
  using assms
proof (induction rule: co_steps.induct)
  case (co_more s t j u)
  then have inv: "co_inv t" and failed: "failed_key (cs_co t) key a" and i: "i < length (cs_tasks t)"
    using co_sys.reachable_inv co_steps_reachable by blast+
  note grow = co_step_grows [OF inv co_more.hyps(2) i]
  show ?case using failed_key_grows [OF failed] follower_step [OF failed co_more.hyps(2) i] grow i co_more by auto
qed simp

lemma failed_key_returns:
  assumes "failed_key (cs_co s) key a" and "i < length (cs_tasks s)" and "cs_tasks s ! i = (key, AcqLookup)"
  shows "\<exists>t. co_steps s t \<and> acquire_outcome (snd (cs_tasks t ! i)) \<noteq> None"
proof -
  let ?t = "s\<lparr>cs_tasks := set_pc s i key (AcqFound a)\<rparr>"
  let ?u = "?t\<lparr>cs_tasks := set_pc ?t i key (AcqGuard (follower_guard (cs_co s) key a))\<rparr>"
  have "co_exec s [(i, EvRun), (i, EvRun)] = Some ?u"
    using assms by (simp add: failed_key_def co_apply.simps acquire_step_def)
  then have "co_steps s ?u" by (rule co_exec_steps)
  moreover have "acquire_outcome (snd (cs_tasks ?u ! i)) \<noteq> None" using assms(2) by simp
  ultimately show ?thesis by blast
qed

text \<open>
  C37. One failure of the upstream makes a cache key unusable for good. Once the leader of a key has
  failed, whatever any number of other requests do, each later request for the key is answered by
  the coalescer with a guard of the failed leader's entry, and with nothing cached it is refused with
  status 502; no request for the key is sent upstream again.
\<close>

theorem failed_leader_poisons_key:
  assumes "reachable co_init co_step s" and "failed_key (cs_co s) key a"
    and "i < length (cs_tasks s)" and "cs_tasks s ! i = (key, AcqLookup)"
    and "\<And>now. fst (tiered_get_silent (cl_de libs) c key io now) = None"
  shows "(\<exists>t. co_steps s t \<and> acquire_outcome (snd (cs_tasks t ! i)) \<noteq> None) \<and>
    (\<forall>t r now now_secs. co_steps s t \<longrightarrow> acquire_outcome (snd (cs_tasks t ! i)) = Some r \<longrightarrow>
       fst (after_acquire libs c ctx key (cs_co t) r io now now_secs) = RefusedWith 502)"
proof (intro conjI allI impI)
  show "\<exists>t. co_steps s t \<and> acquire_outcome (snd (cs_tasks t ! i)) \<noteq> None"
    using assms(2-4) by (rule failed_key_returns)
next
  fix t r now now_secs
  assume t: "co_steps s t" and r: "acquire_outcome (snd (cs_tasks t ! i)) = Some r"
  obtain pc where failed: "failed_key (cs_co t) key a" and pc: "cs_tasks t ! i = (key, pc)" "follows_failed a pc"
    using failed_key_run [OF t assms(1-4)] by blast
  then obtain g where "pc = AcqGuard g" "r = Inr g" "\<not> cg_is_leader g" "cg_entry g = a"
    using r by (cases pc) auto
  moreover obtain ms c' where "tiered_get_silent (cl_de libs) c key io now = (None, ms, c')"
    using assms(5) by (metis prod.collapse)
  ultimately show "fst (after_acquire libs c ctx key (cs_co t) r io now now_secs) = RefusedWith 502"
    using failed by (simp add: after_acquire_def matching_hit_def failed_key_def cg_leader_failed_def)
qed

definition no_libs :: cache_libs where
  "no_libs = \<lparr>cl_esc = id, cl_num = (\<lambda>_. []), cl_nfc = id, cl_sha = id, cl_parse = (\<lambda>s. if s = ''h'' then Some hello_completion else None),
     cl_ser = (\<lambda>v. if v = hello_completion then ''h'' else ''c''), cl_replace = id, cl_fresh = (\<lambda>_. []),
     cl_de = (\<lambda>s. if s = ''e'' then Some hello_entry else None)\<rparr>"

definition chat_ctx :: cache_ctx where
  "chat_ctx = \<lparr>cc_client_wire_api = ChatCompletions, cc_project_id = Some ''p'', cc_parsed_request_payload = Some JNull,
     cc_original_request_body = None, cc_request_pipeline = Some GenericRelay, cc_model = ''m'', cc_is_streaming = True,
     cc_display_reasoning = False, cc_exact_cache_probed = False, cc_cache_key = None, cc_cache_tier = None,
     cc_cache_hit = None, cc_last_input = 0, cc_last_output = 0, cc_is_coalesced_follower = False,
     cc_coalesce_guard = None, cc_revalidating = False\<rparr>"

theorem failed_leader_poisons_key_witness:
  "\<exists>s. co_exec two_requests [(0, EvRun), (0, EvRun), (0, EvRun), (0, EvDrop)] = Some s \<and>
     (\<exists>t. co_steps s t \<and> acquire_outcome (snd (cs_tasks t ! 1)) \<noteq> None) \<and>
     (\<forall>t r now now_secs. co_steps s t \<longrightarrow> acquire_outcome (snd (cs_tasks t ! 1)) = Some r \<longrightarrow>
       fst (after_acquire no_libs (tiered_new (tc_new 60) []) chat_ctx ''k'' (cs_co t) r all_ok now now_secs) = RefusedWith 502)"
proof -
  let ?es = "[(0, EvRun), (0, EvRun), (0, EvRun), (0, EvDrop)]"
  obtain s where s: "co_exec two_requests ?es = Some s" and failed: "failed_key (cs_co s) ''k'' 0"
    and task: "1 < length (cs_tasks s)" "cs_tasks s ! 1 = (''k'', AcqLookup)"
    by (simp add: co_eval failed_key_def)
  have "fst (tiered_get_silent (cl_de no_libs) (tiered_new (tc_new 60) []) ''k'' all_ok now) = None" for now
    by (simp add: tiered_get_silent_def tiered_get_inner_def tiered_new_def live_def all_ok_def Let_def)
  note poisoned = failed_leader_poisons_key [OF two_requests_reachable [OF s] failed task this, where ctx = chat_ctx]
  show ?thesis by (rule exI [of _ s]) (use s poisoned in blast)
qed

section \<open>Stored answers\<close>

lemma exact_probe_inner:
  "\<not> cc_exact_cache_probed ctx \<Longrightarrow> fst (exact_probe libs c ctx key io now) =
     fst (tiered_get_inner (cl_de libs) c key (if may_try_l2 ctx then HitsOnly else Full) io now)"
  by (simp add: exact_probe_def tiered_get_def tiered_get_defer_miss_def split: prod.split)

text \<open>
  C7. A stored answer is served. Once an answer has been stored under the key of a request, a later
  request with the same key and stream mode is answered with it and does not go upstream, whatever
  happened to other keys and whatever L0 evicted, until its time to live has passed, provided that
  Redis answers and the entry has something to show.
\<close>

theorem stored_answer_served:
  assumes "phase_key libs cfg ctx = CacheKey key" and "cc_client_wire_api ctx = ChatCompletions"
    and "\<not> cc_exact_cache_probed ctx"
    and "tiered_put ser c key e model consumer io t0 = (True, c1)"
    and "\<And>json. ser e = Some json \<Longrightarrow> cl_de libs json = Some e"
    and "others_run (cl_de libs) ser key c1 t0 c2 now" and "io_conn io'" and "io_cmd io'"
    and "now < t0 + int (from_secs (tc_resolve (t_ttl_config c) model consumer))"
    and "ce_is_stream e = cc_is_streaming ctx"
    and "send_cached_response (cl_parse libs) (cl_ser libs) (cl_replace libs) (cl_fresh libs) now_secs e
      (cc_model ctx) (cc_is_streaming ctx) (cc_display_reasoning ctx) = Some body"
  shows "fst (cache_lookup libs cfg c2 ctx semantic io' now now_secs) = Finished (Answered body)"
proof -
  obtain json where json: "ser e = Some json"
    and "holds_entry c1 key json e (t0 + int (from_secs (tc_resolve (t_ttl_config c) model consumer)))"
    using put_holds_entry [OF assms(4)] by blast
  then have held: "holds_entry c2 key json e (t0 + int (from_secs (tc_resolve (t_ttl_config c) model consumer)))"
    using holds_entry_run [OF assms(6)] assms(5) by blast
  have "\<exists>tier. fst (tiered_get_inner (cl_de libs) c2 key m io' now) = Some (e, tier)" for m
    using held assms(5) [OF json] assms(9,7,8) by (rule held_entry_found)
  then obtain tier where "fst (exact_probe libs c2 (ctx\<lparr>cc_cache_key := Some key\<rparr>) key io' now) = Some (e, tier)"
    using exact_probe_inner assms(3) by fastforce
  then obtain c3 where probe: "exact_probe libs c2 (ctx\<lparr>cc_cache_key := Some key\<rparr>) key io' now = (Some (e, tier), c3)"
    by (metis prod.collapse)
  show ?thesis
    using assms(1,2,10,11) probe
    by (simp add: cache_lookup_def matching_hit_def answer_hit_def cache_entry_matches_stream_mode_def)
qed

definition redis_only :: tiered_cache where
  \<comment> \<open>the entry was stored and then evicted from L0\<close>
  "redis_only = \<lparr>t_l0 = [], t_l1 = [(''cache:p:null'', ''e'', 60000000000)], t_ttl_config = tc_new 60,
     t_ttl_config_rwlock = tc_new 60, t_prefix_index = []\<rparr>"

theorem stored_answer_served_witness:
  "\<exists>body. fst (cache_lookup no_libs \<lparr>cf_cache_key_namespace = None, cf_fingerprint = fingerprint_legacy,
      cf_prefix_aware_cache = False\<rparr> redis_only chat_ctx False all_ok 5 0) = Finished (Answered body)"
proof -
  let ?cfg = "\<lparr>cf_cache_key_namespace = None, cf_fingerprint = fingerprint_legacy, cf_prefix_aware_cache = False\<rparr>"
  let ?ser = "\<lambda>_ :: cache_entry. Some ''e''" and ?c = "tiered_new (tc_new 60) []"
  let ?c1 = "snd (tiered_put ?ser ?c ''p:null'' hello_entry ''m'' None all_ok 0)"
  obtain body where body: "send_cached_response (cl_parse no_libs) (cl_ser no_libs) (cl_replace no_libs) (cl_fresh no_libs) 0
      hello_entry (cc_model chat_ctx) (cc_is_streaming chat_ctx) (cc_display_reasoning chat_ctx) = Some body"
    using hello_sent by (auto simp: no_libs_def chat_ctx_def)
  have key: "phase_key no_libs ?cfg chat_ctx = CacheKey ''p:null''" by code_simp
  have ctx: "cc_client_wire_api chat_ctx = ChatCompletions" "\<not> cc_exact_cache_probed chat_ctx"
    "ce_is_stream hello_entry = cc_is_streaming chat_ctx"
    by (simp_all add: chat_ctx_def hello_entry_def build_cache_entry_def)
  have put: "tiered_put ?ser ?c ''p:null'' hello_entry ''m'' None all_ok 0 = (True, ?c1)"
    by (simp add: tiered_put_def all_ok_def Let_def)
  have "?c1\<lparr>t_l0 := hm_remove (t_l0 ?c1) ''p:null''\<rparr> = redis_only"
    by (simp add: tiered_put_def l0_insert_def redis_only_def tiered_new_def all_ok_def l1_key_def hm_insert_def
        hm_remove_def tc_resolve_def tc_new_def or_else_def from_secs_def nanos_per_sec_def Let_def)
  then have run: "others_run (cl_de no_libs) ?ser ''p:null'' ?c1 0 redis_only 5"
    using or_step [OF or_refl [OF order_refl] os_evict, of 0 5 "cl_de no_libs" ?ser "''p:null''" ?c1 "''p:null''"] by simp
  have now: "(5 :: int) < 0 + int (from_secs (tc_resolve (t_ttl_config ?c) ''m'' None))"
    by (simp add: tiered_new_def tc_resolve_def tc_new_def or_else_def from_secs_def nanos_per_sec_def)
  show ?thesis
    by (rule exI, rule stored_answer_served [OF key ctx(1,2) put _ run _ _ now ctx(3) body])
      (simp_all add: no_libs_def all_ok_def)
qed

section \<open>Idempotency keys\<close>

definition idem_key :: "(string, string option) hmap \<Rightarrow> string option" where
  \<comment> \<open>\<open>headers\<close>: the values of the headers by name, none for a value that is no text\<close>
  "idem_key headers = Option.bind (or_else (hm_get headers ''idempotency-key'') (hm_get headers ''x-request-id'')) id"

definition idempotency_phase ::
    "idempotency_store \<Rightarrow> (string, string option) hmap \<Rightarrow> instant \<Rightarrow>
     (nat \<times> string) option \<times> string option \<times> idempotency_store" where
  \<comment> \<open>the replayed answer, else the key under which the answer will be saved\<close>
  "idempotency_phase s headers now =
     (case idem_key headers of
        None \<Rightarrow> (None, None, s)
      | Some key \<Rightarrow>
          (case is_check s key now of
             (Some (status, body), s) \<Rightarrow> (Some (if status < 100 \<or> 999 < status then 200 else status, body), None, s)
           | (None, s) \<Rightarrow> (None, Some key, s)))"

definition idempotency_save ::
    "idempotency_store \<Rightarrow> string option \<Rightarrow> nat option \<Rightarrow> string \<Rightarrow> instant \<Rightarrow> idempotency_store" where
  \<comment> \<open>at the end of a request that did not fail with an error of the proxy\<close>
  "idempotency_save s idempotency_key http_status accumulated_body now =
     (case (idempotency_key, http_status) of
        (Some key, Some status) \<Rightarrow> is_save s key status accumulated_body now
      | _ \<Rightarrow> s)"

text \<open>
  An idempotency key belongs to nobody. Whoever repeats the header of an earlier request within
  the window, from any project and for any path and body, is sent the bytes the upstream returned to
  that request, with its status: a retry after a failure is sent the failure again.
\<close>

theorem idempotency_key_shared:
  assumes "is_inv s" and "length (is_entries s) < is_max_entries s" and "100 \<le> status" and "status \<le> 999"
    and "idem_key theirs = Some key" and "idem_key mine = Some key"
    and "idempotency_phase s theirs t0 = (None, saved_key, s1)"
    and "is_run key (idempotency_save s1 saved_key (Some status) raw t0) t0 s2 now"
    and "now < t0 + int (is_window s)"
  shows "fst (idempotency_phase s2 mine now) = Some (status, raw)"
proof -
  let ?e = "\<lparr>id_status = status, id_body = raw, id_created_at = t0\<rparr>"
  have s1: "saved_key = Some key" "is_window s1 = is_window s" "is_max_entries s1 = is_max_entries s"
    "hm_wf (is_entries s1)" "length (is_entries s1) \<le> length (is_entries s)"
    using assms(1,5,7) length_hm_remove_le [of "is_entries s" key]
    by (auto simp: idempotency_phase_def is_check_def is_inv_def split: option.splits if_splits)
  let ?s = "is_save s1 key status raw t0"
  have save: "hm_wf (is_entries ?s)" "hm_get (is_entries ?s) key = Some ?e" "is_window ?s = is_window s"
    using s1 assms(2) by (auto simp: is_save_def)
  have run: "is_run key ?s t0 s2 now" using assms(8) s1(1) by (simp add: idempotency_save_def)
  note keep = is_run_keeps [OF run save(1,2)]
  have "0 < is_window s" using assms(9) keep by auto
  then have "elapsed now t0 < is_window s" using elapsed_less_iff assms(9) by blast
  then show ?thesis using keep save(3) assms(3,4,6) by (simp add: idempotency_phase_def is_check_def)
qed

theorem idempotency_key_shared_witness:
  "fst (idempotency_phase (idempotency_save (snd (snd (idempotency_phase (is_new (from_secs 5) 10)
      [(''idempotency-key'', Some ''1'')] 0))) (Some ''1'') (Some 429) ''slow down'' 0)
    [(''x-request-id'', Some ''1'')] 1) = Some (429, ''slow down'')"
proof -
  let ?s1 = "snd (snd (idempotency_phase (is_new (from_secs 5) 10) [(''idempotency-key'', Some ''1'')] 0))"
  have "is_inv (is_new (from_secs 5) 10)" by (rule is_sys.inv_init) (auto simp: is_init_def)
  moreover have "idempotency_phase (is_new (from_secs 5) 10) [(''idempotency-key'', Some ''1'')] 0 = (None, Some ''1'', ?s1)"
    by (simp add: idempotency_phase_def idem_key_def or_else_def hm_get_def is_check_def is_new_def)
  moreover have "is_run ''1'' (idempotency_save ?s1 (Some ''1'') (Some 429) ''slow down'' 0) 0
      (idempotency_save ?s1 (Some ''1'') (Some 429) ''slow down'' 0) 1"
    by (rule is_run_none) simp
  ultimately show ?thesis
    by (intro idempotency_key_shared [where theirs = "[(''idempotency-key'', Some ''1'')]" and key = "''1''"
          and saved_key = "Some ''1''" and ?t0.0 = 0])
      (auto simp: idem_key_def or_else_def hm_get_def is_new_def from_secs_def nanos_per_sec_def)
qed

end
