(* ===== verification/UpstreamRetry.thy ===== *)
theory UpstreamRetry
  imports UpstreamPoolSelect KeyBinding ModelLockout CircuitBreaker RateLimitPolicy CachePhase
begin

text \<open>
  Retries of one request: fallback profiles, key rotation after 401, 429 and a broken upload, and what
  an upstream status does to the pool, the bindings, the lockouts and the breakers
  (\<^verbatim>\<open>crab-proxy/src/proxy.rs\<close>, \<^verbatim>\<open>phases/response_filter.rs\<close>,
  \<^verbatim>\<open>phases/rate_limit_retry.rs\<close>, and the key header of
  \<^verbatim>\<open>phases/upstream_request.rs\<close>). Each callback runs on the gateway as it finds it; other requests may
  have changed it since. A guard is given with the profile whose pool it came from, and profiles are
  not removed while a request holds one of their keys. \<^const>\<open>None\<close> is a panic. Metrics, log lines
  and response headers are left out.
\<close>

section \<open>State\<close>

record profile_runtime =
  pr_provider :: upstream_provider
  pr_upstream_pool :: upstream_key_pool
  pr_fallback_profile_id :: "string option"
  pr_fallback_max_retries :: nat

record retry_gateway =
  rg_upstream_profiles :: "(string, profile_runtime) hmap"
  rg_default_upstream_profile_id :: string
  rg_semaphores :: sem_store
  rg_key_binding_store :: "key_binding_store option"
  rg_model_lockouts :: model_lockout_registry
  rg_circuit_breakers :: circuit_breaker_registry
  rg_coalescer :: request_coalescer
  rg_codex_retry_budget_max :: nat
  rg_codex_acquire_fill_first :: bool
  rg_mimo_key_binding :: bool
  rg_codex_key_binding :: bool

type_synonym pool_guard = "string \<times> upstream_key_guard"

record retry_ctx =
  rc_request_pipeline :: "request_pipeline option"
  rc_model :: string
  rc_upstream_model :: "string option"
  rc_is_streaming :: bool
  rc_is_models_list :: bool
  rc_conversation_id :: "string option"
  rc_prompt_cache_key :: "string option"
  rc_session_fingerprint :: "string option"
  rc_client_key_fingerprint :: "string option"
  rc_coalesce_guard :: "coalesce_guard option"
  rc_upstream_profile_id :: "string option"
  rc_profile_fallback_chain :: "string list"
  rc_profile_fallback_attempt :: nat
  rc_key_guard :: "pool_guard option"
  rc_retry_budget :: nat
  rc_prepared_body_for_retry :: "string option"
  rc_retry_buffer_truncated :: bool
  rc_new_request_body :: "string option"
  rc_backend_name :: "string option"
  rc_http_status :: "nat option"
  rc_error_passthrough :: bool

record clock =
  ck_ms :: nat \<comment> \<open>milliseconds since the epoch\<close>
  ck_instant :: instant

definition default_profile :: "retry_gateway \<Rightarrow> (string \<times> profile_runtime) option" where
  \<comment> \<open>without the configured one, any profile\<close>
  "default_profile g =
     (case hm_get (rg_upstream_profiles g) (rg_default_upstream_profile_id g) of
        Some p \<Rightarrow> Some (rg_default_upstream_profile_id g, p)
      | None \<Rightarrow> (case rg_upstream_profiles g of [] \<Rightarrow> None | ip # _ \<Rightarrow> Some ip))"

definition active_upstream_profile :: "retry_gateway \<Rightarrow> retry_ctx \<Rightarrow> (string \<times> profile_runtime) option" where
  "active_upstream_profile g ctx =
     (case Option.bind (rc_upstream_profile_id ctx)
             (\<lambda>i. map_option (Pair i) (hm_get (rg_upstream_profiles g) i)) of
        Some ip \<Rightarrow> Some ip
      | None \<Rightarrow> default_profile g)"

definition update_pool :: "retry_gateway \<Rightarrow> string \<Rightarrow> (upstream_key_pool \<Rightarrow> upstream_key_pool) \<Rightarrow> retry_gateway" where
  "update_pool g i f =
     (case hm_get (rg_upstream_profiles g) i of
        None \<Rightarrow> g
      | Some p \<Rightarrow> g\<lparr>rg_upstream_profiles := hm_insert (rg_upstream_profiles g) i
                      (p\<lparr>pr_upstream_pool := f (pr_upstream_pool p)\<rparr>)\<rparr>)"

definition acquire_in ::
    "retry_gateway \<Rightarrow> string \<Rightarrow>
     (upstream_key_pool \<Rightarrow> sem_store \<Rightarrow> upstream_key_guard option \<times> upstream_key_pool \<times> sem_store) \<Rightarrow>
     pool_guard option \<times> retry_gateway" where
  \<comment> \<open>an acquisition on the pool of a profile\<close>
  "acquire_in g i f =
     (case hm_get (rg_upstream_profiles g) i of
        None \<Rightarrow> (None, g)
      | Some p \<Rightarrow>
          (case f (pr_upstream_pool p) (rg_semaphores g) of
             (r, pool, sems) \<Rightarrow>
               (map_option (Pair i) r, (update_pool g i (\<lambda>_. pool))\<lparr>rg_semaphores := sems\<rparr>)))"

definition guard_slot :: "retry_gateway \<Rightarrow> pool_guard \<Rightarrow> upstream_key_slot option" where
  "guard_slot g pg =
     map_option (\<lambda>p. up_slots (pr_upstream_pool p) ! ukg_index (snd pg)) (hm_get (rg_upstream_profiles g) (fst pg))"

definition held_slot :: "retry_gateway \<Rightarrow> retry_ctx \<Rightarrow> upstream_key_slot option" where
  "held_slot g ctx = Option.bind (rc_key_guard ctx) (guard_slot g)"

definition drop_key_guard :: "retry_gateway \<Rightarrow> retry_ctx \<Rightarrow> retry_gateway" where
  \<comment> \<open>what dropping the guard of the context does to its pool\<close>
  "drop_key_guard g ctx =
     (case rc_key_guard ctx of
        None \<Rightarrow> g
      | Some (i, kg) \<Rightarrow>
          (case hm_get (rg_upstream_profiles g) i of
             None \<Rightarrow> g
           | Some p \<Rightarrow>
               (case drop_guard (pr_upstream_pool p) (rg_semaphores g) kg of
                  (pool, sems) \<Rightarrow> (update_pool g i (\<lambda>_. pool))\<lparr>rg_semaphores := sems\<rparr>)))"

section \<open>Fallback profiles\<close>

fun fallback_from :: "retry_gateway \<Rightarrow> string list \<Rightarrow> string \<Rightarrow> nat \<Rightarrow> string list" where
  \<comment> \<open>the loop, with the visited profiles and the remaining hops\<close>
  "fallback_from g visited cur 0 = (if cur \<in> set visited then [] else [cur])"
| "fallback_from g visited cur (Suc hops) =
     (if cur \<in> set visited then []
      else cur # (case Option.bind (hm_get (rg_upstream_profiles g) cur) pr_fallback_profile_id of
                    None \<Rightarrow> []
                  | Some nxt \<Rightarrow> if trim nxt = [] then [] else fallback_from g (cur # visited) (trim nxt) hops))"

definition initialize_profile_fallback_state :: "retry_gateway \<Rightarrow> retry_ctx \<Rightarrow> retry_ctx" where
  "initialize_profile_fallback_state g ctx =
     ctx\<lparr>rc_profile_fallback_attempt := 0,
         rc_profile_fallback_chain :=
           (case rc_upstream_profile_id ctx of
              None \<Rightarrow> []
            | Some i \<Rightarrow> fallback_from g [] i
                (case hm_get (rg_upstream_profiles g) i of Some p \<Rightarrow> pr_fallback_max_retries p | None \<Rightarrow> 0))\<rparr>"

definition is_codex_upstream_pipeline :: "request_pipeline option \<Rightarrow> bool" where
  "is_codex_upstream_pipeline pipeline \<longleftrightarrow> pipeline \<in> {Some CodexRelay, Some CodexDeepSeek}"

definition mimo_request :: "retry_ctx \<Rightarrow> bool" where
  "mimo_request ctx \<longleftrightarrow> (case rc_request_pipeline ctx of Some p \<Rightarrow> is_mimo_pipeline p | None \<Rightarrow> False)"

definition uses_pool_scaled_retry_budget :: "retry_ctx \<Rightarrow> bool" where
  "uses_pool_scaled_retry_budget ctx \<longleftrightarrow>
     is_codex_upstream_pipeline (rc_request_pipeline ctx) \<or> mimo_request ctx"

definition refresh_retry_budget_for_active_profile :: "retry_gateway \<Rightarrow> retry_ctx \<Rightarrow> retry_ctx" where
  \<comment> \<open>called with a profile that exists\<close>
  "refresh_retry_budget_for_active_profile g ctx =
     (if \<not> uses_pool_scaled_retry_budget ctx then ctx
      else case active_upstream_profile g ctx of
             None \<Rightarrow> ctx
           | Some (i, p) \<Rightarrow>
               ctx\<lparr>rc_retry_budget := pool_scaled_retry_budget (length (up_slots (pr_upstream_pool p)))
                     (rg_codex_retry_budget_max g)\<rparr>)"

definition reset_upstream_state_for_retry :: "retry_gateway \<Rightarrow> retry_ctx \<Rightarrow> retry_gateway \<times> retry_ctx" where
  "reset_upstream_state_for_retry g ctx =
     (drop_key_guard g ctx,
      ctx\<lparr>rc_key_guard := None, rc_backend_name := None, rc_http_status := None, rc_error_passthrough := False,
          rc_retry_buffer_truncated := False, rc_new_request_body := rc_prepared_body_for_retry ctx\<rparr>)"

definition try_profile_fallback_retry :: "retry_gateway \<Rightarrow> retry_ctx \<Rightarrow> (retry_gateway \<times> retry_ctx) option" where
  \<comment> \<open>the state for the retry, none when there is no fallback\<close>
  "try_profile_fallback_retry g ctx =
     (if rc_prepared_body_for_retry ctx = None \<or> rc_retry_buffer_truncated ctx then None
      else do {
        current_id \<leftarrow> rc_upstream_profile_id ctx;
        current_profile \<leftarrow> hm_get (rg_upstream_profiles g) current_id;
        let next_index = rc_profile_fallback_attempt ctx + 1;
        next_id \<leftarrow> (if next_index < length (rc_profile_fallback_chain ctx)
                   then Some (rc_profile_fallback_chain ctx ! next_index) else None);
        if next_id = current_id then None
        else do {
          next_profile \<leftarrow> hm_get (rg_upstream_profiles g) next_id;
          if pr_provider next_profile \<noteq> pr_provider current_profile then None
          else case reset_upstream_state_for_retry g
                 (ctx\<lparr>rc_profile_fallback_attempt := sat_add 32 (rc_profile_fallback_attempt ctx) 1,
                      rc_upstream_profile_id := Some next_id\<rparr>) of
                 (g, ctx) \<Rightarrow> Some (g, refresh_retry_budget_for_active_profile g ctx)
        }
      })"

section \<open>Rotation\<close>

definition on_bindings :: "retry_gateway \<Rightarrow> (key_binding_store \<Rightarrow> key_binding_store) \<Rightarrow> retry_gateway" where
  "on_bindings g f = g\<lparr>rg_key_binding_store := map_option f (rg_key_binding_store g)\<rparr>"

definition mimo_bind_key :: "retry_ctx \<Rightarrow> string option" where
  "mimo_bind_key ctx =
     resolve_mimo_binding_key (rc_conversation_id ctx) (rc_prompt_cache_key ctx) (rc_session_fingerprint ctx)"

definition codex_session :: "retry_ctx \<Rightarrow> string option" where
  "codex_session ctx = or_else (rc_conversation_id ctx) (or_else (rc_prompt_cache_key ctx) (rc_session_fingerprint ctx))"

definition lock_model :: "retry_gateway \<Rightarrow> retry_ctx \<Rightarrow> string \<Rightarrow> duration \<Rightarrow> nat \<Rightarrow> instant \<Rightarrow> retry_gateway" where
  \<comment> \<open>the lockout of the model on the backend, when both are known\<close>
  "lock_model g ctx reason cooldown level now =
     (case (rc_upstream_model ctx, rc_backend_name ctx) of
        (Some model, Some backend) \<Rightarrow>
          g\<lparr>rg_model_lockouts := ml_record_failure (rg_model_lockouts g)
              (case rc_upstream_profile_id ctx of Some i \<Rightarrow> i | None \<Rightarrow> ''default'') backend model reason cooldown level now\<rparr>
      | _ \<Rightarrow> g)"

definition record_mimo_transient_failure ::
    "retry_gateway \<Rightarrow> retry_ctx \<Rightarrow> string \<Rightarrow> string \<Rightarrow> clock \<Rightarrow> (nat \<times> retry_gateway) option" where
  "record_mimo_transient_failure g ctx key_id reason ck =
     (if \<not> mimo_request ctx then Some (0, g)
      else let (failures, g) =
             (case (rg_key_binding_store g, mimo_bind_key ctx) of
                (Some bs, Some bind_key) \<Rightarrow>
                  (case kbs_record_failure bs bind_key key_id (ck_ms ck) of
                     (n, bs) \<Rightarrow> (case n of Some n \<Rightarrow> n | None \<Rightarrow> 0, g\<lparr>rg_key_binding_store := Some bs\<rparr>))
              | _ \<Rightarrow> (0, g))
           in if failures < 3 then Some (failures, g)
              else case active_upstream_profile g ctx of
                     None \<Rightarrow> None
                   | Some (i, p) \<Rightarrow>
                       (let g = update_pool g i (\<lambda>pool. up_report_rate_limited_for pool key_id 30 None (ck_ms ck));
                            g = (case mimo_bind_key ctx of Some b \<Rightarrow> on_bindings g (\<lambda>bs. kbs_remove bs b) | None \<Rightarrow> g)
                        in Some (failures, lock_model g ctx reason (from_secs 30) 1 (ck_instant ck))))"

definition rotation_scope :: "retry_ctx \<Rightarrow> string option" where
  "rotation_scope ctx =
     upstream_rate_limit_scope (is_codex_upstream_pipeline (rc_request_pipeline ctx)) (mimo_request ctx)
       (case rc_upstream_model ctx of Some m \<Rightarrow> m | None \<Rightarrow> rc_model ctx)"

definition replacement_key ::
    "retry_gateway \<Rightarrow> string \<Rightarrow> (string \<times> string) option \<Rightarrow> bool \<Rightarrow> nat \<Rightarrow> clock \<Rightarrow> pool_guard option \<times> retry_gateway" where
  \<comment> \<open>\<open>old_key\<close>: id and account of the key given up\<close>
  "replacement_key g i old_key disable_current failures ck =
     (if \<not> disable_current \<and> failures < 3 then
        (case old_key of
           None \<Rightarrow> (None, g)
         | Some (old_id, account) \<Rightarrow> acquire_in g i (\<lambda>pool sems. up_acquire_specific pool sems old_id (ck_ms ck)))
      else case acquire_in g i (\<lambda>pool sems. up_acquire_excluding_account pool sems (map_option snd old_key) (ck_ms ck) (ck_instant ck)) of
             (Some pg, g) \<Rightarrow> (Some pg, g)
           | (None, g) \<Rightarrow>
               if disable_current then (None, g)
               else acquire_in g i (\<lambda>pool sems. up_acquire pool sems (ck_ms ck) (ck_instant ck)))"

definition unbind_session :: "retry_gateway \<Rightarrow> retry_ctx \<Rightarrow> retry_gateway" where
  "unbind_session g ctx =
     (let g = (case mimo_bind_key ctx of Some b \<Rightarrow> on_bindings g (\<lambda>bs. kbs_remove bs b) | None \<Rightarrow> g)
      in case codex_session ctx of Some sid \<Rightarrow> on_bindings g (\<lambda>bs. kbs_remove bs (codex_session_key sid)) | None \<Rightarrow> g)"

definition punish_key ::
    "retry_gateway \<Rightarrow> retry_ctx \<Rightarrow> string \<Rightarrow> (string \<times> string) option \<Rightarrow> bool \<Rightarrow> nat \<Rightarrow> nat option \<Rightarrow> nat \<Rightarrow> retry_gateway" where
  "punish_key g ctx i old_key disable_current failures cooldown now =
     (case old_key of
        None \<Rightarrow> g
      | Some (old_id, account) \<Rightarrow>
          if disable_current then update_pool g i (\<lambda>pool. up_report_unauthorized pool old_id)
          else if 3 \<le> failures then
            (case cooldown of
               Some c \<Rightarrow> update_pool g i (\<lambda>pool. up_report_rate_limited_for pool old_id (max c 1) (rotation_scope ctx) now)
             | None \<Rightarrow> g)
          else g)"

definition adopt_replacement ::
    "retry_ctx \<Rightarrow> string \<Rightarrow> bool \<Rightarrow> pool_guard option \<times> retry_gateway \<Rightarrow> bool \<times> retry_gateway \<times> retry_ctx" where
  \<comment> \<open>\<open>unbind\<close>: the session is not to come back to the old key\<close>
  "adopt_replacement ctx prepared_body unbind acquired =
     (case acquired of
        (None, g) \<Rightarrow> (False, g, ctx)
      | (Some pg, g) \<Rightarrow>
          (True, if unbind then unbind_session g ctx else g,
           ctx\<lparr>rc_retry_budget := rc_retry_budget ctx - 1, rc_key_guard := Some pg,
               rc_new_request_body := Some prepared_body, rc_error_passthrough := False,
               rc_http_status := None, rc_backend_name := None\<rparr>))"

definition rotate_upstream_key_for_same_request_retry ::
    "retry_gateway \<Rightarrow> retry_ctx \<Rightarrow> bool \<Rightarrow> nat option \<Rightarrow> clock \<Rightarrow> (bool \<times> retry_gateway \<times> retry_ctx) option" where
  \<comment> \<open>whether the request is retried with another key\<close>
  "rotate_upstream_key_for_same_request_retry g ctx disable_current cooldown ck =
     (case rc_prepared_body_for_retry ctx of
        None \<Rightarrow> Some (False, g, ctx)
      | Some prepared_body \<Rightarrow>
          if rc_retry_budget ctx = 0 then Some (False, g, ctx)
          else do {
            (i, p) \<leftarrow> active_upstream_profile g ctx;
            let old_key = map_option (\<lambda>s. (uk_id s, uk_account_id s)) (held_slot g ctx);
            (failures, g) \<leftarrow> (case old_key of
                Some (old_id, account) \<Rightarrow> record_mimo_transient_failure g ctx old_id ''same_request_retry'' ck
              | None \<Rightarrow> Some (0, g));
            let g = drop_key_guard (punish_key g ctx i old_key disable_current failures cooldown (ck_ms ck)) ctx;
            Some (adopt_replacement (ctx\<lparr>rc_key_guard := None\<rparr>) prepared_body (disable_current \<or> 3 \<le> failures)
                    (replacement_key g i old_key disable_current failures ck))
          })"

section \<open>Rate limits\<close>

definition cooldown_secs :: "rate_limit_classification \<Rightarrow> upstream_key_pool \<Rightarrow> nat" where
  "cooldown_secs c pool =
     (case rl_cooldown c of Some d \<Rightarrow> max (as_secs d) 1 | None \<Rightarrow> max (up_cooldown_secs pool) 1)"

definition fail_leader :: "retry_gateway \<Rightarrow> retry_ctx \<Rightarrow> retry_gateway" where
  "fail_leader g ctx =
     (case rc_coalesce_guard ctx of
        Some cg \<Rightarrow> if cg_is_leader cg then g\<lparr>rg_coalescer := cg_mark_failed (rg_coalescer g) cg\<rparr> else g
      | None \<Rightarrow> g)"

definition forget_limited_binding :: "json_parser \<Rightarrow> retry_gateway \<Rightarrow> retry_ctx \<Rightarrow> nat \<Rightarrow> string \<Rightarrow> string option \<Rightarrow> string \<Rightarrow> instant \<Rightarrow> retry_gateway" where
  \<comment> \<open>after a 429 the session is not bound to the key any longer\<close>
  "forget_limited_binding from_str g ctx status i body key_id now =
     (let g = (if mimo_request ctx \<and> status = 429 \<and> rg_mimo_key_binding g then
                 (case mimo_bind_key ctx of Some b \<Rightarrow> on_bindings g (\<lambda>bs. kbs_remove bs b) | None \<Rightarrow> g)
               else g)
      in if is_codex_upstream_pipeline (rc_request_pipeline ctx) \<and> \<not> mimo_request ctx \<and> status = 429 \<and>
            body_indicates_codex_rate_limit from_str (case body of Some b \<Rightarrow> b | None \<Rightarrow> []) then
           (let g = update_pool g i (\<lambda>pool. pool\<lparr>up_quota_cache :=
                      map_option (\<lambda>q. qc_mark_exhausted_from_429 q key_id now) (up_quota_cache pool)\<rparr>)
            in if rg_codex_key_binding g then
                 (case or_else (codex_session ctx) (rc_client_key_fingerprint ctx) of
                    Some sid \<Rightarrow> on_bindings g (\<lambda>bs. kbs_remove bs (codex_session_key sid))
                  | None \<Rightarrow> g)
               else g)
         else g)"

definition limited_replacement ::
    "retry_gateway \<Rightarrow> retry_ctx \<Rightarrow> string \<Rightarrow> string \<Rightarrow> clock \<Rightarrow> pool_guard option \<times> retry_gateway" where
  "limited_replacement g ctx i key_id ck =
     acquire_in g i (\<lambda>pool sems.
       let excluded = map_option st_account_id (List.find (\<lambda>s. st_id s = key_id) (up_list_status pool (ck_ms ck)))
       in if is_codex_upstream_pipeline (rc_request_pipeline ctx) \<and> \<not> mimo_request ctx
          then up_acquire_codex_for_model pool sems
                 (case rc_upstream_model ctx of Some m \<Rightarrow> m | None \<Rightarrow> rc_model ctx) excluded
                 (rg_codex_acquire_fill_first g) (ck_ms ck) (ck_instant ck)
          else up_acquire_excluding_account pool sems excluded (ck_ms ck) (ck_instant ck))"

definition give_up_limited ::
    "retry_gateway \<Rightarrow> retry_ctx \<Rightarrow> rate_limit_classification \<Rightarrow> string option \<Rightarrow> string option \<Rightarrow> instant \<Rightarrow> retry_gateway" where
  \<comment> \<open>no replacement: the model is locked and the followers are told\<close>
  "give_up_limited g ctx c body retry_after now =
     (if effective_status c = 429 then
        (let d = check_fallback_error 429 body retry_after
         in fail_leader (lock_model g ctx (fd_reason d) (fd_cooldown d) 4 now) ctx)
      else g)"

definition try_upstream_rate_limit_rotation ::
    "json_parser \<Rightarrow> retry_gateway \<Rightarrow> retry_ctx \<Rightarrow> string \<Rightarrow> upstream_key_pool \<Rightarrow> nat \<Rightarrow> string option \<Rightarrow> string option \<Rightarrow> clock \<Rightarrow>
     bool \<times> retry_gateway \<times> retry_ctx" where
  "try_upstream_rate_limit_rotation from_str g ctx i pool status body retry_after ck =
     (let c = classify_upstream_rate_limit from_str status body retry_after
                (is_codex_upstream_pipeline (rc_request_pipeline ctx)) (mimo_request ctx) (up_cooldown_secs pool)
                (1000000 * int (ck_ms ck))
      in if \<not> is_rate_limit c then (False, g, ctx)
         else case held_slot g ctx of
           None \<Rightarrow> (False, g, ctx)
         | Some slot \<Rightarrow>
             (let g = update_pool g i (\<lambda>pool. up_report_rate_limited_for pool (uk_id slot) (cooldown_secs c pool)
                        (rotation_scope ctx) (ck_ms ck));
                  g = forget_limited_binding from_str g ctx status i body (uk_id slot) (ck_instant ck)
              in if rc_retry_budget ctx = 0
                 then (False, give_up_limited g ctx c body retry_after (ck_instant ck), ctx)
                 else let ctx = ctx\<lparr>rc_retry_budget := rc_retry_budget ctx - 1\<rparr> in
                   case limited_replacement g ctx i (uk_id slot) ck of
                     (Some pg, g) \<Rightarrow>
                       (True, drop_key_guard g ctx,
                        ctx\<lparr>rc_key_guard := Some pg, rc_new_request_body := rc_prepared_body_for_retry ctx,
                            rc_error_passthrough := False\<rparr>)
                   | (None, g) \<Rightarrow> (False, give_up_limited g ctx c body retry_after (ck_instant ck), ctx)))"

section \<open>The status of a response\<close>

datatype filter_outcome =
    RetryRequest
  | Deliver nat \<comment> \<open>the status the client sees\<close>

definition record_backend_failure ::
    "retry_gateway \<Rightarrow> retry_ctx \<Rightarrow> nat \<Rightarrow> string option \<Rightarrow> instant \<Rightarrow> retry_gateway option" where
  "record_backend_failure g ctx status retry_after now =
     (if status \<notin> {408, 500, 502, 503, 504} then Some g
      else case rc_backend_name ctx of
        None \<Rightarrow> Some g
      | Some backend \<Rightarrow> do {
          cbs \<leftarrow> cbr_on_failure (rg_circuit_breakers g) backend (classify_failure status None) now;
          let d = check_fallback_error status None retry_after;
          Some (lock_model (g\<lparr>rg_circuit_breakers := cbs\<rparr>) ctx (fd_reason d) (fd_cooldown d) 4 now)
        })"

definition settle_key :: "retry_gateway \<Rightarrow> retry_ctx \<Rightarrow> string \<Rightarrow> nat \<Rightarrow> nat \<Rightarrow> retry_gateway" where
  \<comment> \<open>a status other than 401 and 429 counts as a success of the key\<close>
  "settle_key g ctx i status now =
     (case held_slot g ctx of
        None \<Rightarrow> g
      | Some slot \<Rightarrow>
          (let g = update_pool g i (\<lambda>pool. up_record_key_success pool (uk_id slot))
           in if mimo_request ctx then
                (case mimo_bind_key ctx of
                   Some b \<Rightarrow> on_bindings g (\<lambda>bs. kbs_reset_failures bs b (uk_id slot) now) | None \<Rightarrow> g)
              else if is_codex_upstream_pipeline (rc_request_pipeline ctx) then
                (case codex_session ctx of
                   Some sid \<Rightarrow> on_bindings g (\<lambda>bs. kbs_reset_failures bs (codex_session_key sid) (uk_id slot) now)
                 | None \<Rightarrow> g)
              else g))"

definition finish_response ::
    "retry_gateway \<Rightarrow> retry_ctx \<Rightarrow> string \<Rightarrow> nat \<Rightarrow> clock \<Rightarrow> retry_gateway" where
  \<comment> \<open>the part after the rotation\<close>
  "finish_response g ctx i status ck =
     (if status = 429 then g
      else if status = 401 then
        (let g = (case held_slot g ctx of
                    Some slot \<Rightarrow> update_pool g i (\<lambda>pool. up_report_unauthorized pool (uk_id slot)) | None \<Rightarrow> g)
         in lock_model g ctx ''upstream key unauthorized'' (from_secs 86400) 4 (ck_instant ck))
      else let g = settle_key g ctx i status (ck_ms ck) in
           if rc_is_models_list ctx then g
           else if 400 \<le> status then fail_leader g ctx
           else if rc_is_streaming ctx then g
           else case rc_backend_name ctx of
                  Some backend \<Rightarrow> g\<lparr>rg_circuit_breakers := cbr_on_success (rg_circuit_breakers g) backend\<rparr>
                | None \<Rightarrow> g)"

definition limit_or_deliver ::
    "json_parser \<Rightarrow> retry_gateway \<Rightarrow> retry_ctx \<Rightarrow> nat \<Rightarrow> string option \<Rightarrow> clock \<Rightarrow>
     (filter_outcome \<times> retry_gateway \<times> retry_ctx) option" where
  \<comment> \<open>a streaming client is sent an error as an event stream with status 200\<close>
  "limit_or_deliver from_str g ctx status retry_after ck =
     (let passed = 400 \<le> status \<and> rc_is_streaming ctx;
          ctx = (if passed then ctx\<lparr>rc_error_passthrough := True\<rparr> else ctx)
      in case active_upstream_profile g ctx of
           None \<Rightarrow> None
         | Some (i, p) \<Rightarrow>
             (case try_upstream_rate_limit_rotation from_str g ctx i (pr_upstream_pool p) status None retry_after ck of
                (retried, g, ctx) \<Rightarrow>
                  if retried then Some (RetryRequest, g, ctx)
                  else Some (Deliver (if passed then 200 else status), finish_response g ctx i status ck, ctx)))"

definition filter_status ::
    "json_parser \<Rightarrow> retry_gateway \<Rightarrow> retry_ctx \<Rightarrow> nat \<Rightarrow> string option \<Rightarrow> clock \<Rightarrow>
     (filter_outcome \<times> retry_gateway \<times> retry_ctx) option" where
  \<comment> \<open>after the retry of a 401 was not possible or not asked for\<close>
  "filter_status from_str g ctx status retry_after ck =
     (case (if 400 \<le> status then record_backend_failure g ctx status retry_after (ck_instant ck) else Some g) of
        None \<Rightarrow> None
      | Some g \<Rightarrow>
          (case (if status \<in> {408, 429, 500, 502, 503, 504} then try_profile_fallback_retry g ctx else None) of
             Some (g, ctx) \<Rightarrow> Some (RetryRequest, g, ctx)
           | None \<Rightarrow> limit_or_deliver from_str g ctx status retry_after ck))"

definition response_filter ::
    "json_parser \<Rightarrow> retry_gateway \<Rightarrow> retry_ctx \<Rightarrow> nat \<Rightarrow> bool \<Rightarrow> string option \<Rightarrow> clock \<Rightarrow>
     (filter_outcome \<times> retry_gateway \<times> retry_ctx) option" where
  \<comment> \<open>\<open>event_stream\<close>: the content type of the response\<close>
  "response_filter from_str g ctx status event_stream retry_after ck =
     (let ctx = ctx\<lparr>rc_http_status := Some status,
                     rc_is_streaming := rc_is_streaming ctx \<or> (status = 200 \<and> event_stream)\<rparr>
      in if status = 401 then
           (case rotate_upstream_key_for_same_request_retry g ctx True None ck of
              None \<Rightarrow> None
            | Some (True, g, ctx) \<Rightarrow> Some (RetryRequest, g, ctx)
            | Some (False, g, ctx) \<Rightarrow> filter_status from_str g ctx status retry_after ck)
         else filter_status from_str g ctx status retry_after ck)"

section \<open>Connection failures\<close>

record proxy_error =
  pe_from_upstream :: bool
  pe_upload_pipe_closed :: bool \<comment> \<open>its text names the closed pipe of the upload\<close>

definition should_retry_mimo_upload_error :: "bool \<Rightarrow> proxy_error \<Rightarrow> retry_ctx \<Rightarrow> bool" where
  "should_retry_mimo_upload_error response_written e ctx \<longleftrightarrow>
     \<not> response_written \<and> mimo_request ctx \<and> rc_prepared_body_for_retry ctx \<noteq> None \<and>
     rc_retry_budget ctx \<noteq> 0 \<and> pe_upload_pipe_closed e"

definition record_lost_upload ::
    "retry_gateway \<Rightarrow> retry_ctx \<Rightarrow> proxy_error \<Rightarrow> clock \<Rightarrow> retry_gateway option" where
  "record_lost_upload g ctx e ck =
     (if pe_upload_pipe_closed e \<and> mimo_request ctx then
        (case held_slot g ctx of
           Some slot \<Rightarrow> map_option snd (record_mimo_transient_failure g ctx (uk_id slot) ''mimo_upload_pipe_closed'' ck)
         | None \<Rightarrow> Some g)
      else Some g)"

definition error_while_proxy ::
    "retry_gateway \<Rightarrow> retry_ctx \<Rightarrow> bool \<Rightarrow> proxy_error \<Rightarrow> clock \<Rightarrow> (bool \<times> retry_gateway \<times> retry_ctx) option" where
  \<comment> \<open>whether the gateway asks for a retry; otherwise pingora may still repeat the request on a reused connection\<close>
  "error_while_proxy g ctx response_written e ck =
     (case (if pe_from_upstream e \<and> \<not> response_written then try_profile_fallback_retry g ctx else None) of
        Some (g, ctx) \<Rightarrow> Some (True, g, ctx)
      | None \<Rightarrow> do {
          (rotated, g, ctx) \<leftarrow> (if should_retry_mimo_upload_error response_written e ctx
                              then rotate_upstream_key_for_same_request_retry g ctx False (Some 30) ck
                              else Some (False, g, ctx));
          if rotated then Some (True, g, ctx)
          else map_option (\<lambda>g. (False, g, ctx)) (record_lost_upload g ctx e ck)
        })"

section \<open>The key of an attempt\<close>

record upstream_head =
  uh_authorization :: "string option"
  uh_api_key :: "string option"

definition inject_upstream_key :: "retry_gateway \<Rightarrow> retry_ctx \<Rightarrow> upstream_head \<Rightarrow> upstream_head" where
  \<comment> \<open>the header of an attempt starts as the client's\<close>
  "inject_upstream_key g ctx h =
     (case held_slot g ctx of
        None \<Rightarrow> h
      | Some slot \<Rightarrow>
          if starts_with (uk_secret slot) ''tp-'' then h\<lparr>uh_authorization := None, uh_api_key := Some (uk_secret slot)\<rparr>
          else h\<lparr>uh_authorization := Some (''Bearer '' @ uk_secret slot)\<rparr>)"

section \<open>Attempts\<close>

definition same_retry_state :: "retry_ctx \<Rightarrow> retry_ctx \<Rightarrow> bool" where
  \<comment> \<open>what the callbacks between two attempts leave alone\<close>
  "same_retry_state c d \<longleftrightarrow> rc_profile_fallback_chain d = rc_profile_fallback_chain c \<and>
     rc_profile_fallback_attempt d = rc_profile_fallback_attempt c \<and> rc_retry_budget d = rc_retry_budget c"

inductive retries :: "json_parser \<Rightarrow> nat \<Rightarrow> retry_ctx \<Rightarrow> nat \<Rightarrow> retry_ctx \<Rightarrow> bool" for from_str m c where
  \<comment> \<open>a context after that many retries asked for by the gateway, whatever state it finds for each\<close>
  first_attempt: "retries from_str m c 0 c"
| after_status: "retries from_str m c n d \<Longrightarrow> same_retry_state d d1 \<Longrightarrow> rg_codex_retry_budget_max g \<le> m \<Longrightarrow>
     response_filter from_str g d1 status event_stream retry_after ck = Some (RetryRequest, g', e) \<Longrightarrow>
     retries from_str m c (Suc n) e"
| after_error: "retries from_str m c n d \<Longrightarrow> same_retry_state d d1 \<Longrightarrow> rg_codex_retry_budget_max g \<le> m \<Longrightarrow>
     error_while_proxy g d1 response_written err ck = Some (True, g', e) \<Longrightarrow>
     retries from_str m c (Suc n) e"

definition retry_bound :: "nat \<Rightarrow> retry_ctx \<Rightarrow> nat" where
  "retry_bound m c = rc_retry_budget c +
     (length (rc_profile_fallback_chain c) - 1 - rc_profile_fallback_attempt c) * (m + 1)"

lemma budget_le: "1 \<le> m \<Longrightarrow> k \<le> m \<Longrightarrow> pool_scaled_retry_budget n k \<le> m"
  unfolding pool_scaled_retry_budget_def codex_retry_budget_def
  by (auto intro: order_trans [OF mod_less_eq_dividend])

lemma refresh_fields [simp]:
  "rc_profile_fallback_chain (refresh_retry_budget_for_active_profile g c) = rc_profile_fallback_chain c"
  "rc_profile_fallback_attempt (refresh_retry_budget_for_active_profile g c) = rc_profile_fallback_attempt c"
  "rc_key_guard (refresh_retry_budget_for_active_profile g c) = rc_key_guard c"
  "rc_upstream_profile_id (refresh_retry_budget_for_active_profile g c) = rc_upstream_profile_id c"
  by (simp_all add: refresh_retry_budget_for_active_profile_def split: option.split)

lemma refresh_budget:
  assumes "1 \<le> m" and "rg_codex_retry_budget_max g \<le> m"
  shows "rc_retry_budget (refresh_retry_budget_for_active_profile g c) \<le> max m (rc_retry_budget c)"
  using budget_le [OF assms] unfolding refresh_retry_budget_for_active_profile_def
  by (auto split: option.split intro: max.coboundedI1)

lemma drop_key_guard_max [simp]: "rg_codex_retry_budget_max (drop_key_guard g c) = rg_codex_retry_budget_max g"
  by (simp add: drop_key_guard_def update_pool_def split: option.split prod.split)

lemma fallback_progress:
  assumes "try_profile_fallback_retry g c = Some (g', d)"
  shows "rc_key_guard d = None \<and> rc_profile_fallback_chain d = rc_profile_fallback_chain c \<and>
    rc_profile_fallback_attempt c + 1 < length (rc_profile_fallback_chain c) \<and>
    rc_profile_fallback_attempt d = sat_add 32 (rc_profile_fallback_attempt c) 1 \<and>
    rc_upstream_profile_id d \<noteq> rc_upstream_profile_id c \<and>
    (\<exists>g1 c1. d = refresh_retry_budget_for_active_profile g1 c1 \<and> rc_retry_budget c1 = rc_retry_budget c \<and>
       rg_codex_retry_budget_max g1 = rg_codex_retry_budget_max g)"
  using assms
  by (auto simp: try_profile_fallback_retry_def reset_upstream_state_for_retry_def Option.bind_eq_Some_conv
      Let_def split: if_splits intro!: exI)

lemma fallback_decreases:
  assumes "try_profile_fallback_retry g c = Some (g', d)" and "1 \<le> m" and "rg_codex_retry_budget_max g \<le> m"
    and "length (rc_profile_fallback_chain c) \<le> 2 ^ 32"
  shows "retry_bound m d < retry_bound m c \<and> rc_profile_fallback_chain d = rc_profile_fallback_chain c"
proof -
  note p = fallback_progress [OF assms(1)]
  let ?k = "length (rc_profile_fallback_chain c) - 1 - rc_profile_fallback_attempt c"
  have d: "rc_profile_fallback_attempt d = rc_profile_fallback_attempt c + 1"
    using p assms(4) by (auto simp: sat_add_def)
  have "rc_retry_budget d \<le> max m (rc_retry_budget c)"
    using p refresh_budget [OF assms(2)] assms(3) by metis
  then have "rc_retry_budget d + (?k - 1) * (m + 1) < rc_retry_budget c + (?k - 1) * (m + 1) + (m + 1)" by simp
  also have "\<dots> = rc_retry_budget c + ?k * (m + 1)"
    using p by (cases ?k) auto
  finally show ?thesis using p d by (simp add: retry_bound_def)
qed

lemma rotate_effect:
  assumes "rotate_upstream_key_for_same_request_retry g c disable cooldown ck = Some (r, g', d)"
  shows "rc_profile_fallback_chain d = rc_profile_fallback_chain c \<and>
    rc_profile_fallback_attempt d = rc_profile_fallback_attempt c \<and>
    rc_upstream_profile_id d = rc_upstream_profile_id c \<and>
    (if r then rc_retry_budget d < rc_retry_budget c else rc_retry_budget d = rc_retry_budget c)"
proof (cases "rc_prepared_body_for_retry c = None \<or> rc_retry_budget c = 0")
  case True
  then show ?thesis using assms by (auto simp: rotate_upstream_key_for_same_request_retry_def split: option.splits)
next
  case False
  then obtain body where "rc_prepared_body_for_retry c = Some body" "0 < rc_retry_budget c" by auto
  moreover from this have "\<exists>unbind acquired. adopt_replacement (c\<lparr>rc_key_guard := None\<rparr>) body unbind acquired = (r, g', d)"
    using assms unfolding rotate_upstream_key_for_same_request_retry_def Let_def
    by (simp only: option.case if_not_P not_gr_zero [symmetric] not_not Option.bind_eq_Some_conv split_beta option.inject) blast
  ultimately show ?thesis by (auto simp: adopt_replacement_def split: prod.splits option.splits)
qed

lemma limit_rotation_effect:
  assumes "try_upstream_rate_limit_rotation from_str g c i pool status body ra ck = (True, g', d)"
  shows "rc_profile_fallback_chain d = rc_profile_fallback_chain c \<and>
    rc_profile_fallback_attempt d = rc_profile_fallback_attempt c \<and>
    rc_upstream_profile_id d = rc_upstream_profile_id c \<and> rc_retry_budget d < rc_retry_budget c"
  using assms unfolding try_upstream_rate_limit_rotation_def
  by (auto simp: Let_def split: option.splits if_splits prod.splits)

lemma record_backend_failure_max:
  "record_backend_failure g c status ra now = Some g' \<Longrightarrow> rg_codex_retry_budget_max g' = rg_codex_retry_budget_max g"
  by (auto simp: record_backend_failure_def lock_model_def Option.bind_eq_Some_conv Let_def
      split: if_splits option.splits)

lemma limit_or_deliver_retry:
  assumes "limit_or_deliver from_str g c status ra ck = Some (RetryRequest, g', d)"
  shows "rc_profile_fallback_chain d = rc_profile_fallback_chain c \<and>
    rc_profile_fallback_attempt d = rc_profile_fallback_attempt c \<and>
    rc_upstream_profile_id d = rc_upstream_profile_id c \<and> rc_retry_budget d < rc_retry_budget c"
  using assms unfolding limit_or_deliver_def Let_def
  by (auto split: option.splits prod.splits if_splits dest!: limit_rotation_effect)

lemma filter_status_retry:
  assumes "filter_status from_str g c status ra ck = Some (RetryRequest, g', d)"
  shows "(\<exists>g1. rg_codex_retry_budget_max g1 = rg_codex_retry_budget_max g \<and> try_profile_fallback_retry g1 c = Some (g', d)) \<or>
    rc_profile_fallback_chain d = rc_profile_fallback_chain c \<and>
    rc_profile_fallback_attempt d = rc_profile_fallback_attempt c \<and>
    rc_upstream_profile_id d = rc_upstream_profile_id c \<and> rc_retry_budget d < rc_retry_budget c"
proof -
  obtain g1 where g1: "(if 400 \<le> status then record_backend_failure g c status ra (ck_instant ck) else Some g) = Some g1"
    using assms by (auto simp: filter_status_def split: option.splits)
  then have m: "rg_codex_retry_budget_max g1 = rg_codex_retry_budget_max g"
    using record_backend_failure_max by (auto split: if_splits)
  show ?thesis
  proof (cases "if status \<in> {408, 429, 500, 502, 503, 504} then try_profile_fallback_retry g1 c else None")
    case None
    then show ?thesis using assms g1 limit_or_deliver_retry by (simp add: filter_status_def del: insert_iff)
  next
    case (Some r)
    then have "try_profile_fallback_retry g1 c = Some r" by (meson option.distinct(1))
    then show ?thesis using assms g1 m Some by (auto simp: filter_status_def simp del: insert_iff)
  qed
qed

lemma response_retry:
  assumes "response_filter from_str g c status es ra ck = Some (RetryRequest, g', d)"
  shows "(\<exists>g1 c1. same_retry_state c c1 \<and> rc_upstream_profile_id c1 = rc_upstream_profile_id c \<and>
      rg_codex_retry_budget_max g1 = rg_codex_retry_budget_max g \<and> try_profile_fallback_retry g1 c1 = Some (g', d)) \<or>
    rc_profile_fallback_chain d = rc_profile_fallback_chain c \<and>
    rc_profile_fallback_attempt d = rc_profile_fallback_attempt c \<and>
    rc_upstream_profile_id d = rc_upstream_profile_id c \<and> rc_retry_budget d < rc_retry_budget c"
  (is "?fallback \<or> ?rotated")
proof -
  let ?c = "c\<lparr>rc_http_status := Some status, rc_is_streaming := rc_is_streaming c \<or> (status = 200 \<and> es)\<rparr>"
  have same: "same_retry_state c ?c" "rc_upstream_profile_id ?c = rc_upstream_profile_id c"
    by (simp_all add: same_retry_state_def)
  show ?thesis
  proof (cases "status = 401")
    case True
    then obtain r g1 c1 where rot: "rotate_upstream_key_for_same_request_retry g ?c True None ck = Some (r, g1, c1)"
      using assms by (auto simp: response_filter_def Let_def split: option.splits)
    show ?thesis
    proof (cases r)
      case True
      then show ?thesis using assms \<open>status = 401\<close> rot rotate_effect [OF rot] by (simp add: response_filter_def)
    next
      case False
      then have "filter_status from_str g1 c1 status ra ck = Some (RetryRequest, g', d)"
        using assms \<open>status = 401\<close> rot by (simp add: response_filter_def)
      then have "limit_or_deliver from_str g1 c1 status ra ck = Some (RetryRequest, g', d)"
        using \<open>status = 401\<close> by (simp add: filter_status_def record_backend_failure_def)
      then show ?thesis using limit_or_deliver_retry rotate_effect [OF rot] False by fastforce
    qed
  next
    case False
    then have "filter_status from_str g ?c status ra ck = Some (RetryRequest, g', d)"
      using assms by (simp add: response_filter_def)
    then show ?thesis using filter_status_retry [of from_str g ?c] same by fastforce
  qed
qed

lemma error_retry:
  assumes "error_while_proxy g c written e ck = Some (True, g', d)"
  shows "try_profile_fallback_retry g c = Some (g', d) \<or>
    rc_profile_fallback_chain d = rc_profile_fallback_chain c \<and>
    rc_profile_fallback_attempt d = rc_profile_fallback_attempt c \<and>
    rc_upstream_profile_id d = rc_upstream_profile_id c \<and> rc_retry_budget d < rc_retry_budget c"
proof (cases "if pe_from_upstream e \<and> \<not> written then try_profile_fallback_retry g c else None")
  case None
  then have "rotate_upstream_key_for_same_request_retry g c False (Some 30) ck = Some (True, g', d)"
    using assms by (auto simp: error_while_proxy_def Option.bind_eq_Some_conv split: if_splits)
  then show ?thesis using rotate_effect by fastforce
next
  case (Some r)
  then show ?thesis using assms by (auto simp: error_while_proxy_def split: if_splits)
qed

lemma same_bound: "same_retry_state c d \<Longrightarrow> retry_bound m d = retry_bound m c"
  by (simp add: same_retry_state_def retry_bound_def)

lemma retry_decreases:
  assumes "(\<exists>g1 c1. same_retry_state c c1 \<and> rg_codex_retry_budget_max g1 \<le> m \<and> try_profile_fallback_retry g1 c1 = Some (g', d)) \<or>
    rc_profile_fallback_chain d = rc_profile_fallback_chain c \<and>
    rc_profile_fallback_attempt d = rc_profile_fallback_attempt c \<and> rc_retry_budget d < rc_retry_budget c"
    and "1 \<le> m" and "length (rc_profile_fallback_chain c) \<le> 2 ^ 32"
  shows "retry_bound m d < retry_bound m c \<and> rc_profile_fallback_chain d = rc_profile_fallback_chain c"
  using assms(1)
proof
  assume "\<exists>g1 c1. same_retry_state c c1 \<and> rg_codex_retry_budget_max g1 \<le> m \<and> try_profile_fallback_retry g1 c1 = Some (g', d)"
  then obtain g1 c1 where c1: "same_retry_state c c1" "rg_codex_retry_budget_max g1 \<le> m"
    "try_profile_fallback_retry g1 c1 = Some (g', d)" by blast
  then have "length (rc_profile_fallback_chain c1) \<le> 2 ^ 32" using assms(3) by (simp add: same_retry_state_def)
  from fallback_decreases [OF c1(3) assms(2) c1(2) this] show ?thesis
    using c1(1) same_bound [OF c1(1), of m] by (simp add: same_retry_state_def)
qed (simp add: retry_bound_def)

lemma retries_decrease:
  assumes "retries from_str m c n d" and "1 \<le> m" and "length (rc_profile_fallback_chain c) \<le> 2 ^ 32"
  shows "n + retry_bound m d \<le> retry_bound m c \<and> rc_profile_fallback_chain d = rc_profile_fallback_chain c"
  using assms(1)
proof induction
  case (after_status n d d1 g status event_stream retry_after ck g' e)
  then have len: "length (rc_profile_fallback_chain d1) \<le> 2 ^ 32" using assms(3) by (simp add: same_retry_state_def)
  have "retry_bound m e < retry_bound m d1 \<and> rc_profile_fallback_chain e = rc_profile_fallback_chain d1"
    by (rule retry_decreases [OF _ assms(2) len, of g'])
      (use response_retry [OF after_status.hyps(4)] after_status.hyps(3) in metis)
  then show ?case using after_status same_bound [OF after_status.hyps(2), of m] by (simp add: same_retry_state_def)
next
  case (after_error n d d1 g written err ck g' e)
  then have len: "length (rc_profile_fallback_chain d1) \<le> 2 ^ 32" using assms(3) by (simp add: same_retry_state_def)
  have "same_retry_state d1 d1" by (simp add: same_retry_state_def)
  then have "retry_bound m e < retry_bound m d1 \<and> rc_profile_fallback_chain e = rc_profile_fallback_chain d1"
    by (intro retry_decreases [OF _ assms(2) len, of g'])
      (use error_retry [OF after_error.hyps(4)] after_error.hyps(3) in metis)
  then show ?case using after_error same_bound [OF after_error.hyps(2), of m] by (simp add: same_retry_state_def)
qed simp

lemma fallback_from_length: "length (fallback_from g visited cur hops) \<le> hops + 1"
  by (induction g visited cur hops rule: fallback_from.induct) (auto split: option.split)

text \<open>
  C23. A request is retried a bounded number of times. Whatever the upstreams answer and whatever other
  requests do to the gateway in between, the retries the gateway asks for are at most the initial
  budget of the request and, for each fallback profile its profile allows, one and the largest budget.
\<close>

theorem retries_bounded:
  assumes "retries from_str m (initialize_profile_fallback_state g ctx) n d" and "1 \<le> m"
    and "rc_upstream_profile_id ctx = Some i" and "hm_get (rg_upstream_profiles g) i = Some p"
    and "pr_fallback_max_retries p < 2 ^ 32"
  shows "n \<le> rc_retry_budget ctx + pr_fallback_max_retries p * (m + 1)"
proof -
  let ?c = "initialize_profile_fallback_state g ctx" and ?k = "pr_fallback_max_retries p"
  have len: "length (rc_profile_fallback_chain ?c) \<le> ?k + 1"
    using assms(3,4) fallback_from_length [of g "[]" i ?k] by (simp add: initialize_profile_fallback_state_def)
  then have "n \<le> retry_bound m ?c"
    using retries_decrease [OF assms(1,2)] assms(5) by simp
  also have "\<dots> \<le> rc_retry_budget ctx + ?k * (m + 1)"
    using len by (simp add: retry_bound_def initialize_profile_fallback_state_def del: mult_Suc_right)
  finally show ?thesis .
qed

text \<open>
  C39. A fallback forgets the key. Whenever a retry goes to another profile the context holds no upstream
  key and none is taken before the attempt is sent, so its header is the client's: the upstream of the
  fallback profile is sent the client's own key for the gateway.
\<close>

theorem fallback_sends_client_key:
  assumes "response_filter from_str g ctx status event_stream retry_after ck = Some (RetryRequest, g', ctx')"
    and "rc_upstream_profile_id ctx' \<noteq> rc_upstream_profile_id ctx"
  shows "rc_key_guard ctx' = None \<and> inject_upstream_key g'' ctx' head = head"
proof -
  obtain g1 c1 where "try_profile_fallback_retry g1 c1 = Some (g', ctx')"
    using response_retry [OF assms(1)] assms(2) by metis
  then show ?thesis using fallback_progress by (fastforce simp: inject_upstream_key_def held_slot_def)
qed

definition sample_profile :: "string option \<Rightarrow> profile_runtime" where
  "sample_profile fallback = \<lparr>pr_provider = Deepseek, pr_upstream_pool = fst (up_from_secrets id [''sk-up''] 60 0 []),
     pr_fallback_profile_id = fallback, pr_fallback_max_retries = 1\<rparr>"

definition sample_retry_gateway :: retry_gateway where
  \<comment> \<open>profile \<open>a\<close> falls back to \<open>b\<close>\<close>
  "sample_retry_gateway = \<lparr>rg_upstream_profiles = [(''a'', sample_profile (Some ''b'')), (''b'', sample_profile None)],
     rg_default_upstream_profile_id = ''a'', rg_semaphores = [1], rg_key_binding_store = None, rg_model_lockouts = ml_new,
     rg_circuit_breakers = cbr_new default_circuit_breaker_config, rg_coalescer = co_new, rg_codex_retry_budget_max = 3,
     rg_codex_acquire_fill_first = False, rg_mimo_key_binding = False, rg_codex_key_binding = False\<rparr>"

definition sample_retry_ctx :: retry_ctx where
  "sample_retry_ctx = \<lparr>rc_request_pipeline = Some DeepSeekLight, rc_model = ''m'', rc_upstream_model = None, rc_is_streaming = False,
     rc_is_models_list = False, rc_conversation_id = None, rc_prompt_cache_key = None, rc_session_fingerprint = None,
     rc_client_key_fingerprint = None, rc_coalesce_guard = None, rc_upstream_profile_id = Some ''a'',
     rc_profile_fallback_chain = [], rc_profile_fallback_attempt = 0,
     rc_key_guard = Some (''a'', \<lparr>ukg_index = 0, ukg_permit = 0\<rparr>), rc_retry_budget = 1,
     rc_prepared_body_for_retry = Some ''body'', rc_retry_buffer_truncated = False, rc_new_request_body = None,
     rc_backend_name = None, rc_http_status = None, rc_error_passthrough = False\<rparr>"

lemma sample_chain:
  "initialize_profile_fallback_state sample_retry_gateway sample_retry_ctx =
     sample_retry_ctx\<lparr>rc_profile_fallback_chain := [''a'', ''b'']\<rparr>"
  by (simp add: initialize_profile_fallback_state_def sample_retry_ctx_def sample_retry_gateway_def sample_profile_def
      hm_get_def trim_def is_space_def numeral_eq_Suc)

lemma sample_fallback:
  obtains g' ctx' where "response_filter (\<lambda>_. None) sample_retry_gateway
      (initialize_profile_fallback_state sample_retry_gateway sample_retry_ctx) 500 False None \<lparr>ck_ms = 0, ck_instant = 0\<rparr> =
      Some (RetryRequest, g', ctx')"
    "rc_upstream_profile_id ctx' = Some ''b''"
proof -
  have "\<exists>g' ctx'. response_filter (\<lambda>_. None) sample_retry_gateway
      (initialize_profile_fallback_state sample_retry_gateway sample_retry_ctx) 500 False None \<lparr>ck_ms = 0, ck_instant = 0\<rparr> =
      Some (RetryRequest, g', ctx') \<and> rc_upstream_profile_id ctx' = Some ''b''"
    unfolding sample_chain
    by (simp add: response_filter_def filter_status_def record_backend_failure_def try_profile_fallback_retry_def
        reset_upstream_state_for_retry_def sample_retry_ctx_def sample_retry_gateway_def sample_profile_def hm_get_def)
  then show thesis using that by blast
qed

theorem retries_bounded_witness:
  "\<exists>d. retries (\<lambda>_. None) 3 (initialize_profile_fallback_state sample_retry_gateway sample_retry_ctx) 1 d \<and>
     1 \<le> rc_retry_budget sample_retry_ctx + 1 * (3 + 1)"
proof -
  let ?c = "initialize_profile_fallback_state sample_retry_gateway sample_retry_ctx"
  obtain g' d where run: "response_filter (\<lambda>_. None) sample_retry_gateway ?c 500 False None \<lparr>ck_ms = 0, ck_instant = 0\<rparr> =
      Some (RetryRequest, g', d)"
    by (rule sample_fallback)
  have "retries (\<lambda>_. None) 3 ?c (Suc 0) d"
    by (rule after_status [OF first_attempt _ _ run]) (simp_all add: same_retry_state_def sample_retry_gateway_def)
  moreover have "hm_get (rg_upstream_profiles sample_retry_gateway) ''a'' = Some (sample_profile (Some ''b''))"
    by (simp add: sample_retry_gateway_def hm_get_def)
  ultimately show ?thesis
    using retries_bounded [of "\<lambda>_. None" 3 sample_retry_gateway sample_retry_ctx "Suc 0" d "''a''" "sample_profile (Some ''b'')"]
    by (auto simp: sample_retry_ctx_def sample_profile_def)
qed

theorem fallback_sends_client_key_witness:
  "\<exists>g' ctx'. response_filter (\<lambda>_. None) sample_retry_gateway
      (initialize_profile_fallback_state sample_retry_gateway sample_retry_ctx) 500 False None \<lparr>ck_ms = 0, ck_instant = 0\<rparr> =
      Some (RetryRequest, g', ctx') \<and>
    inject_upstream_key g' ctx' \<lparr>uh_authorization = Some ''Bearer sk-cc-1'', uh_api_key = None\<rparr> =
      \<lparr>uh_authorization = Some ''Bearer sk-cc-1'', uh_api_key = None\<rparr>"
proof -
  obtain g' ctx' where run: "response_filter (\<lambda>_. None) sample_retry_gateway
      (initialize_profile_fallback_state sample_retry_gateway sample_retry_ctx) 500 False None \<lparr>ck_ms = 0, ck_instant = 0\<rparr> =
      Some (RetryRequest, g', ctx')" "rc_upstream_profile_id ctx' = Some ''b''"
    by (rule sample_fallback)
  have "rc_upstream_profile_id ctx' \<noteq>
      rc_upstream_profile_id (initialize_profile_fallback_state sample_retry_gateway sample_retry_ctx)"
    unfolding sample_chain run(2) by (simp add: sample_retry_ctx_def)
  from fallback_sends_client_key [OF run(1) this] show ?thesis using run(1) by blast
qed

end
