(* ===== verification/KeyAcquire.thy ===== *)
theory KeyAcquire
  imports UpstreamRetry UpstreamPoolState CodexRequest ClientKind
begin

text \<open>
  How a request gets its upstream key (\<^verbatim>\<open>try_acquire_upstream_key\<close>,
  \<^verbatim>\<open>try_acquire_codex_with_preflight\<close> and \<^verbatim>\<open>ensure_mimo_pool_inflight_cap\<close> of
  \<^verbatim>\<open>crab-proxy/src/proxy.rs\<close>, and the acquisition before the cache phase in
  \<^verbatim>\<open>phases/request_filter.rs\<close>): session bindings first, then the pool. Replacing the pool of a
  profile leaves the old one to those who hold it, so pools have addresses. The usage service, the
  outcome of a wait for a permit, the digest for generated accounts and the clock are arguments; the
  steps of one acquisition are not interleaved with other requests.
\<close>

section \<open>State\<close>

record key_features =
  kf_mimo_key_binding :: bool
  kf_mimo_key_max_inflight :: nat
  kf_mimo_key_max_sessions_per_key :: nat
  kf_codex_key_binding :: bool
  kf_codex_key_max_inflight :: nat
  kf_codex_acquire_fill_first :: bool
  kf_codex_quota_preflight :: bool
  kf_codex_quota_min_remaining_percent :: f64

record key_world =
  kw_pools :: "upstream_key_pool list"
  kw_current :: nat \<comment> \<open>the address of the profile's pool\<close>
  kw_semaphores :: sem_store
  kw_bindings :: "key_binding_store option"

record key_guard =
  kg_pool :: nat
  kg_guard :: upstream_key_guard

type_synonym acquired = "key_guard option \<times> key_world"

abbreviation current_pool :: "key_world \<Rightarrow> upstream_key_pool" where
  "current_pool w \<equiv> kw_pools w ! kw_current w"

definition on_pool ::
    "nat \<Rightarrow> (upstream_key_pool \<Rightarrow> sem_store \<Rightarrow> upstream_key_guard option \<times> upstream_key_pool \<times> sem_store) \<Rightarrow>
     key_world \<Rightarrow> acquired" where
  "on_pool a f w =
     (case f (kw_pools w ! a) (kw_semaphores w) of
        (r, pool, sems) \<Rightarrow>
          (map_option (\<lambda>g. \<lparr>kg_pool = a, kg_guard = g\<rparr>) r,
           w\<lparr>kw_pools := (kw_pools w)[a := pool], kw_semaphores := sems\<rparr>))"

definition or_acquire :: "(key_world \<Rightarrow> acquired) \<Rightarrow> (key_world \<Rightarrow> acquired) \<Rightarrow> key_world \<Rightarrow> acquired" where
  \<comment> \<open>\<open>or_else\<close> of two acquisitions\<close>
  "or_acquire f h w = (case f w of (Some g, w) \<Rightarrow> (Some g, w) | (None, w) \<Rightarrow> h w)"

definition with_bindings :: "(key_binding_store \<Rightarrow> key_binding_store) \<Rightarrow> key_world \<Rightarrow> key_world" where
  "with_bindings f w = w\<lparr>kw_bindings := map_option f (kw_bindings w)\<rparr>"

definition guarded_slot :: "key_world \<Rightarrow> key_guard \<Rightarrow> upstream_key_slot" where
  "guarded_slot w g = up_slots (kw_pools w ! kg_pool g) ! ukg_index (kg_guard g)"

definition drop_guarded :: "key_guard \<Rightarrow> key_world \<Rightarrow> key_world" where
  "drop_guarded g w =
     (case drop_guard (kw_pools w ! kg_pool g) (kw_semaphores w) (kg_guard g) of
        (pool, sems) \<Rightarrow> w\<lparr>kw_pools := (kw_pools w)[kg_pool g := pool], kw_semaphores := sems\<rparr>)"

definition get_binding :: "key_world \<Rightarrow> string \<Rightarrow> nat \<Rightarrow> key_binding option \<times> key_world" where
  "get_binding w bind_key now =
     (case kw_bindings w of
        None \<Rightarrow> (None, w)
      | Some bs \<Rightarrow> (case kbs_get bs bind_key now of (b, bs) \<Rightarrow> (b, w\<lparr>kw_bindings := Some bs\<rparr>)))"

section \<open>The pool's cap\<close>

definition ensure_mimo_pool_inflight_cap :: "(string \<Rightarrow> string) \<Rightarrow> nat \<Rightarrow> key_world \<Rightarrow> key_world" where
  "ensure_mimo_pool_inflight_cap digest max_inflight w =
     (if max_inflight = 0 \<or> up_max_inflight (current_pool w) = max_inflight \<or> 0 < up_max_inflight (current_pool w) then w
      else case up_rebuild_with_max_inflight digest (current_pool w) max_inflight (kw_semaphores w) of
             (pool, sems) \<Rightarrow>
               w\<lparr>kw_pools := kw_pools w @ [pool], kw_current := length (kw_pools w), kw_semaphores := sems\<rparr>)"

section \<open>Acquisition\<close>

definition key_model :: "upstream_provider \<Rightarrow> retry_ctx \<Rightarrow> string" where
  "key_model provider ctx =
     (let canonical = canonicalize_client_model (case rc_upstream_model ctx of Some m \<Rightarrow> m | None \<Rightarrow> rc_model ctx)
      in if provider = Codex then resolve_codex_upstream_model canonical else canonical)"

definition acquire_any :: "nat \<Rightarrow> string \<Rightarrow> clock \<Rightarrow> key_world \<Rightarrow> acquired" where
  "acquire_any a model ck =
     or_acquire (on_pool a (\<lambda>p s. up_acquire_for_upstream_model p s model False (ck_ms ck) (ck_instant ck)))
                (on_pool a (\<lambda>p s. up_acquire p s (ck_ms ck) (ck_instant ck)))"

definition acquire_codex :: "nat \<Rightarrow> string \<Rightarrow> bool \<Rightarrow> clock \<Rightarrow> key_world \<Rightarrow> acquired" where
  "acquire_codex a model fill_first ck =
     or_acquire (on_pool a (\<lambda>p s. up_acquire_codex_for_model p s model None fill_first (ck_ms ck) (ck_instant ck)))
                (on_pool a (\<lambda>p s. up_acquire_codex_oauth p s (ck_ms ck) (ck_instant ck)))"

definition spill_from :: "nat \<Rightarrow> string \<Rightarrow> string \<Rightarrow> clock \<Rightarrow> key_world \<Rightarrow> acquired" where
  "spill_from a bound_id model ck =
     or_acquire (on_pool a (\<lambda>p s. up_acquire_excluding_key p s bound_id (ck_ms ck) (ck_instant ck)))
                (acquire_any a model ck)"

definition bind_acquired :: "string \<Rightarrow> nat \<Rightarrow> acquired \<Rightarrow> acquired" where
  "bind_acquired bind_key now r =
     (case r of
        (None, w) \<Rightarrow> (None, w)
      | (Some g, w) \<Rightarrow> (Some g, with_bindings (\<lambda>bs. kbs_put bs bind_key (uk_id (guarded_slot w g)) now) w))"

definition acquire_bound :: "nat \<Rightarrow> string \<Rightarrow> string \<Rightarrow> string option \<Rightarrow> nat \<Rightarrow> clock \<Rightarrow> key_world \<Rightarrow> acquired" where
  \<comment> \<open>the bound key itself, below the cap of the feature\<close>
  "acquire_bound a bind_key bound_id scope max_inflight ck w =
     (if max_inflight = 0 \<or> up_inflight_of (kw_pools w ! a) bound_id < max_inflight then
        (case on_pool a (\<lambda>p s. up_acquire_specific_scoped p s bound_id scope (ck_ms ck)) w of
           (Some g, w) \<Rightarrow> (Some g, with_bindings (\<lambda>bs. kbs_touch bs bind_key (ck_ms ck)) w)
         | (None, w) \<Rightarrow> (None, w))
      else (None, w))"

definition acquire_mimo :: "key_features \<Rightarrow> string \<Rightarrow> string \<Rightarrow> clock \<Rightarrow> key_world \<Rightarrow> acquired" where
  "acquire_mimo feats bind_key model ck w =
     (let a = kw_current w in
      case get_binding w bind_key (ck_ms ck) of
        (Some b, w) \<Rightarrow>
          or_acquire (acquire_bound a bind_key (kb_key_id b) None (kf_mimo_key_max_inflight feats) ck)
                     (spill_from a (kb_key_id b) model ck) w
      | (None, w) \<Rightarrow>
          bind_acquired bind_key (ck_ms ck)
            (or_acquire
              (\<lambda>w. case Option.bind (kw_bindings w) (\<lambda>bs. kbs_least_loaded_key bs
                        (up_available_key_ids (kw_pools w ! a) (ck_ms ck)) (kf_mimo_key_max_sessions_per_key feats)) of
                     Some kid \<Rightarrow> on_pool a (\<lambda>p s. up_acquire_specific p s kid (ck_ms ck)) w
                   | None \<Rightarrow> (None, w))
              (acquire_any a model ck) w))"

definition acquire_codex_bound :: "key_features \<Rightarrow> nat \<Rightarrow> string \<Rightarrow> string \<Rightarrow> clock \<Rightarrow> key_world \<Rightarrow> acquired" where
  "acquire_codex_bound feats a bind_key model ck w =
     (case get_binding w bind_key (ck_ms ck) of
        (Some b, w) \<Rightarrow>
          acquire_bound a bind_key (kb_key_id b) (Some (codex_model_scope model)) (kf_codex_key_max_inflight feats) ck w
      | (None, w) \<Rightarrow>
          bind_acquired bind_key (ck_ms ck) (acquire_codex a model (kf_codex_acquire_fill_first feats) ck w))"

definition stable_session :: "retry_ctx \<Rightarrow> string option" where
  "stable_session ctx = or_else (codex_session ctx) (rc_client_key_fingerprint ctx)"

definition prepare_pool :: "(string \<Rightarrow> string) \<Rightarrow> key_features \<Rightarrow> retry_ctx \<Rightarrow> key_world \<Rightarrow> key_world" where
  "prepare_pool digest feats ctx w =
     (if mimo_request ctx \<and> kf_mimo_key_binding feats \<and> 0 < kf_mimo_key_max_inflight feats
      then ensure_mimo_pool_inflight_cap digest (kf_mimo_key_max_inflight feats) w else w)"

definition try_acquire_upstream_key ::
    "(string \<Rightarrow> string) \<Rightarrow> key_features \<Rightarrow> upstream_provider \<Rightarrow> retry_ctx \<Rightarrow> clock \<Rightarrow> key_world \<Rightarrow> acquired" where
  \<comment> \<open>for a request that holds no key\<close>
  "try_acquire_upstream_key digest feats provider ctx ck w =
     (let a = kw_current w; model = key_model provider ctx;
          w = prepare_pool digest feats ctx w;
          default = (if provider = Codex then acquire_codex a model (kf_codex_acquire_fill_first feats) ck
                     else acquire_any a model ck)
      in case (if mimo_request ctx \<and> kf_mimo_key_binding feats \<and> kw_bindings w \<noteq> None then mimo_bind_key ctx else None) of
           Some bind_key \<Rightarrow> acquire_mimo feats bind_key model ck w
         | None \<Rightarrow>
             (case (if is_codex_upstream_pipeline (rc_request_pipeline ctx) \<and> kf_codex_key_binding feats \<and> kw_bindings w \<noteq> None
                    then stable_session ctx else None) of
                Some sid \<Rightarrow> acquire_codex_bound feats a (codex_session_key sid) model ck w
              | None \<Rightarrow> default w))"

section \<open>Quota preflight\<close>

type_synonym usage_service = "string \<Rightarrow> bool \<times> codex_quota_snapshot option"

definition preflight_candidate ::
    "nat \<Rightarrow> string \<Rightarrow> bool \<Rightarrow> string list \<Rightarrow> string option \<Rightarrow> clock \<Rightarrow> key_world \<Rightarrow> acquired" where
  "preflight_candidate a model fill_first exclude_keys exclude_account ck =
     on_pool a (\<lambda>p s.
       case exclude_account of
         Some acct \<Rightarrow> up_acquire_codex_for_model_excluding p s model (Some acct) fill_first exclude_keys (ck_ms ck) (ck_instant ck)
       | None \<Rightarrow> up_acquire_codex_for_model p s model None fill_first (ck_ms ck) (ck_instant ck))"

definition exclude_account_of :: "string \<Rightarrow> string option \<Rightarrow> string option" where
  "exclude_account_of account old =
     (if account \<noteq> [] \<and> account \<noteq> default_upstream_account_id then Some account else old)"

datatype preflight_step =
    Accept acquired
  | NextKey "string list" "string option" key_world

definition fetch_quota :: "usage_service \<Rightarrow> nat \<Rightarrow> string \<Rightarrow> clock \<Rightarrow> key_world \<Rightarrow> codex_quota_snapshot option \<times> key_world" where
  "fetch_quota wham a key_id ck w =
     (case up_quota_cache (kw_pools w ! a) of
        None \<Rightarrow> (None, w)
      | Some cache \<Rightarrow>
          (case qc_fetch_and_update cache key_id (fst (wham key_id)) (snd (wham key_id)) (ck_instant ck) of
             (snap, cache) \<Rightarrow>
               (snap, w\<lparr>kw_pools := (kw_pools w)[a := (kw_pools w ! a)\<lparr>up_quota_cache := Some cache\<rparr>]\<rparr>)))"

definition preflight_once ::
    "usage_service \<Rightarrow> key_features \<Rightarrow> nat \<Rightarrow> string \<Rightarrow> clock \<Rightarrow> string list \<Rightarrow> string option \<Rightarrow> key_world \<Rightarrow> preflight_step" where
  \<comment> \<open>the body of the loop\<close>
  "preflight_once wham feats a model ck exclude_keys exclude_account w =
     (let min_remaining = kf_codex_quota_min_remaining_percent feats in
      case preflight_candidate a model (kf_codex_acquire_fill_first feats) exclude_keys exclude_account ck w of
        (None, w) \<Rightarrow> Accept (None, w)
      | (Some g, w) \<Rightarrow>
          (let key_id = uk_id (guarded_slot w g); account = uk_account_id (guarded_slot w g);
               reacquire = on_pool a (\<lambda>p s. up_acquire_specific p s key_id (ck_ms ck))
           in case Option.bind (up_quota_cache (kw_pools w ! a)) (\<lambda>c. qc_headroom_percent c key_id) of
                Some headroom \<Rightarrow>
                  if headroom \<le> min_remaining
                  then NextKey (key_id # exclude_keys) (exclude_account_of account exclude_account) (drop_guarded g w)
                  else Accept (Some g, w)
              | None \<Rightarrow>
                  (case fetch_quota wham a key_id ck (drop_guarded g w) of
                     (snap, w) \<Rightarrow>
                       if (case snap of
                             None \<Rightarrow> False
                           | Some s \<Rightarrow> snapshot_is_exhausted s min_remaining \<or>
                                      (case min_remaining_percent s of Some r \<Rightarrow> r | None \<Rightarrow> 100) \<le> min_remaining)
                       then NextKey (key_id # exclude_keys) (exclude_account_of account exclude_account) w
                       else (case reacquire w of
                               (Some g, w) \<Rightarrow> Accept (Some g, w)
                             | (None, w) \<Rightarrow> NextKey (key_id # exclude_keys) exclude_account w))))"

fun preflight_loop ::
    "usage_service \<Rightarrow> key_features \<Rightarrow> nat \<Rightarrow> string \<Rightarrow> clock \<Rightarrow> nat \<Rightarrow> string list \<Rightarrow> string option \<Rightarrow> key_world \<Rightarrow>
     acquired option" where
  \<comment> \<open>with a bound on the iterations\<close>
  "preflight_loop wham feats a model ck 0 keys acct w = None"
| "preflight_loop wham feats a model ck (Suc n) keys acct w =
     (case preflight_once wham feats a model ck keys acct w of
        Accept r \<Rightarrow> Some r
      | NextKey keys acct w \<Rightarrow> preflight_loop wham feats a model ck n keys acct w)"

definition acquire_unexhausted_binding ::
    "key_features \<Rightarrow> retry_ctx \<Rightarrow> nat \<Rightarrow> string \<Rightarrow> codex_quota_cache \<Rightarrow> clock \<Rightarrow> key_world \<Rightarrow> acquired" where
  "acquire_unexhausted_binding feats ctx a model cache ck w =
     (case (if is_codex_upstream_pipeline (rc_request_pipeline ctx) \<and> kf_codex_key_binding feats then stable_session ctx else None) of
        None \<Rightarrow> (None, w)
      | Some sid \<Rightarrow>
          (case get_binding w (codex_session_key sid) (ck_ms ck) of
             (None, w) \<Rightarrow> (None, w)
           | (Some b, w) \<Rightarrow>
               if qc_is_exhausted cache (kb_key_id b) (kf_codex_quota_min_remaining_percent feats) (ck_instant ck) then (None, w)
               else acquire_bound a (codex_session_key sid) (kb_key_id b) (Some (codex_model_scope model)) 0 ck w))"

definition try_acquire_codex_with_preflight ::
    "(string \<Rightarrow> string) \<Rightarrow> usage_service \<Rightarrow> key_features \<Rightarrow> upstream_provider \<Rightarrow> retry_ctx \<Rightarrow> clock \<Rightarrow> nat \<Rightarrow> key_world \<Rightarrow>
     acquired option" where
  "try_acquire_codex_with_preflight digest wham feats provider ctx ck n w =
     (let a = kw_current w;
          model = resolve_codex_upstream_model (canonicalize_client_model
                    (case rc_upstream_model ctx of Some m \<Rightarrow> m | None \<Rightarrow> rc_model ctx))
      in case up_quota_cache (current_pool w) of
           None \<Rightarrow> Some (try_acquire_upstream_key digest feats provider ctx ck w)
         | Some cache \<Rightarrow>
             (case acquire_unexhausted_binding feats ctx a model cache ck w of
                (Some g, w) \<Rightarrow> Some (Some g, w)
              | (None, w) \<Rightarrow> preflight_loop wham feats a model ck n [] None w))"

datatype upstream_key_acquire_strategy = CodexQuotaPreflight | StandardUpstreamPool

definition key_acquire_strategy :: "request_pipeline option \<Rightarrow> bool \<Rightarrow> upstream_key_acquire_strategy" where
  "key_acquire_strategy pipeline codex_quota_preflight =
     (if is_codex_upstream_pipeline pipeline \<and> codex_quota_preflight then CodexQuotaPreflight else StandardUpstreamPool)"

section \<open>Usable keys\<close>

definition usable :: "upstream_key_pool \<Rightarrow> nat \<Rightarrow> nat \<Rightarrow> bool" where
  "usable p now i \<longleftrightarrow> i < length (up_slots p) \<and> uk_enabled (up_slots p ! i) \<and> uk_cooldown_until_ms (up_slots p ! i) \<le> now"

lemma passes_cooldown_global: "slot_passes_cooldown s scope model now \<Longrightarrow> uk_cooldown_until_ms s \<le> now"
  by (auto simp: slot_passes_cooldown_def split: if_splits)

lemma passes_cooldown_unscoped: "slot_passes_cooldown s scope model now \<Longrightarrow> slot_passes_cooldown s None None now"
  by (auto simp: slot_passes_cooldown_def active_scope_def split: if_splits)

lemma usable_core [simp]: "same_core p q \<Longrightarrow> usable q = usable p"
  by (simp add: usable_def same_core_def fun_eq_iff)

lemma eligible_usable: "eligible_at p ap now inst i \<Longrightarrow> usable p now i"
  by (auto simp: eligible_at_def slot_eligible_def usable_def intro: passes_cooldown_global)

abbreviation picks_usable :: "nat \<Rightarrow> upstream_key_pool \<Rightarrow> sem_store \<Rightarrow>
    upstream_key_guard option \<times> upstream_key_pool \<times> sem_store \<Rightarrow> bool" where
  "picks_usable now p sems r \<equiv> attempt p sems (usable p now) r"

lemma usable_scored: "picks_usable now p sems (acquire_scored p sems ex sc mo ff req acc now inst)"
  by (rule attempt_mono [OF attempt_acquire_scored]) (rule eligible_usable)

lemma usable_retry:
  assumes "picks_usable now p sems r" and "\<And>q. picks_usable now q sems (F q sems)"
  shows "picks_usable now p sems (case r of (Some g, p', s') \<Rightarrow> (Some g, p', s') | (None, p', s') \<Rightarrow> F p' s')"
  by (rule attempt_retry [OF assms(1)]) (metis assms(2) usable_core)

lemma usable_if: "picks_usable now p sems r \<Longrightarrow> picks_usable now p sems q \<Longrightarrow> picks_usable now p sems (if b then r else q)"
  by simp

lemma attempt_in_range: "attempt p sems ok r \<Longrightarrow> attempt p sems (\<lambda>i. ok i \<and> i < length (up_slots p)) r"
  by (auto simp: attempt_def)

lemma usable_specific: "picks_usable now p sems (up_acquire_specific_scoped p sems k scope now)"
proof (rule attempt_mono [OF attempt_in_range [OF attempt_specific]])
  fix i assume "(uk_id (up_slots p ! i) = k \<and> uk_enabled (up_slots p ! i) \<and>
    slot_passes_cooldown (up_slots p ! i) scope None now) \<and> i < length (up_slots p)"
  then show "usable p now i" using passes_cooldown_global by (auto simp: usable_def)
qed

lemma usable_acquire: "picks_usable now p sems (up_acquire p sems now inst)"
  "picks_usable now p sems (up_acquire_excluding_key p sems k now inst)"
  "picks_usable now p sems (up_acquire_specific p sems k now)"
  by (simp_all add: up_acquire_def up_acquire_excluding_account_def up_acquire_excluding_key_def up_acquire_specific_def
      usable_scored usable_specific)

lemma usable_for_model: "picks_usable now p sems (up_acquire_for_upstream_model p sems model oauth now inst)"
  unfolding up_acquire_for_upstream_model_def acquire_with_model_policy_def Let_def
  by (intro usable_if usable_retry usable_scored)

lemma usable_codex: "picks_usable now p sems (up_acquire_codex_for_model p sems model ex ff now inst)"
  "picks_usable now p sems (up_acquire_codex_for_model_excluding p sems model ex ff keys now inst)"
  "picks_usable now p sems (up_acquire_codex_oauth p sems now inst)"
  unfolding up_acquire_codex_for_model_def up_acquire_codex_for_model_excluding_def up_acquire_codex_oauth_def Let_def
  by (intro usable_if usable_retry usable_scored usable_for_model)+

lemmas picks = usable_scored usable_specific usable_acquire usable_for_model usable_codex

section \<open>Acquisitions as a whole\<close>

definition same_world :: "key_world \<Rightarrow> key_world \<Rightarrow> bool" where
  \<comment> \<open>nothing but rotation counters and bindings changed\<close>
  "same_world w v \<longleftrightarrow> list_all2 same_core (kw_pools w) (kw_pools v) \<and> kw_semaphores v = kw_semaphores w \<and>
     kw_current v = kw_current w"

definition grants :: "nat \<Rightarrow> key_world \<Rightarrow> acquired \<Rightarrow> bool" where
  "grants now w r \<longleftrightarrow>
     (case r of
        (None, v) \<Rightarrow> same_world w v
      | (Some g, v) \<Rightarrow> kg_pool g < length (kw_pools w) \<and>
          usable (kw_pools w ! kg_pool g) now (ukg_index (kg_guard g)) \<and>
          0 < kw_semaphores w ! uk_semaphore (guarded_slot w g))"

lemma same_world_refl [simp]: "same_world w w"
  by (simp add: same_world_def list_all2_same)

lemma same_world_trans: "same_world u v \<Longrightarrow> same_world v w \<Longrightarrow> same_world u w"
  unfolding same_world_def using list_all2_trans [of same_core same_core same_core] same_core_trans by fastforce

lemma same_world_nth: "same_world w v \<Longrightarrow> a < length (kw_pools w) \<Longrightarrow> same_core (kw_pools w ! a) (kw_pools v ! a)"
  by (simp add: same_world_def list_all2_nthD)

lemma same_world_length: "same_world w v \<Longrightarrow> length (kw_pools v) = length (kw_pools w)"
  by (auto simp: same_world_def dest: list_all2_lengthD)

lemma grants_same:
  assumes "same_world w v" and "grants now v r"
  shows "grants now w r"
proof (cases r)
  case (Pair x u)
  show ?thesis
  proof (cases x)
    case None
    then show ?thesis using assms Pair same_world_trans by (auto simp: grants_def)
  next
    case (Some g)
    then have g: "kg_pool g < length (kw_pools w)" using assms Pair same_world_length by (fastforce simp: grants_def)
    have core: "same_core (kw_pools w ! kg_pool g) (kw_pools v ! kg_pool g)" using assms(1) g by (rule same_world_nth)
    have "up_slots (kw_pools v ! kg_pool g) = up_slots (kw_pools w ! kg_pool g)" using core by (simp add: same_core_def)
    moreover have "kw_semaphores v = kw_semaphores w" using assms(1) by (simp add: same_world_def)
    ultimately show ?thesis
      using assms(2) g unfolding grants_def guarded_slot_def usable_def Pair Some by simp
  qed
qed

lemma grants_on_pool:
  assumes "a < length (kw_pools w)" and "\<And>p s. picks_usable now p s (f p s)"
  shows "grants now w (on_pool a f w)"
proof -
  obtain r p' s' where f: "f (kw_pools w ! a) (kw_semaphores w) = (r, p', s')" by (metis prod_cases3)
  have at: "picks_usable now (kw_pools w ! a) (kw_semaphores w) (r, p', s')"
    using assms(2) [of "kw_pools w ! a" "kw_semaphores w"] by (simp add: f)
  show ?thesis
  proof (cases r)
    case None
    then have "same_core (kw_pools w ! a) p'" "s' = kw_semaphores w" using at attempt_NoneD by blast+
    moreover from this have "list_all2 same_core (kw_pools w) ((kw_pools w)[a := p'])"
      using assms(1) by (auto simp: list_all2_conv_all_nth nth_list_update)
    ultimately show ?thesis using f None by (simp add: grants_def on_pool_def same_world_def)
  next
    case (Some g)
    note d = attempt_SomeD [OF at [unfolded Some]]
    show ?thesis using f Some d(1-4) assms(1) by (simp add: grants_def on_pool_def guarded_slot_def)
  qed
qed

lemma grants_or:
  assumes "grants now w (f w)" and "\<And>v. same_world w v \<Longrightarrow> grants now v (h v)"
  shows "grants now w (or_acquire f h w)"
proof (cases "f w")
  case (Pair r v)
  then show ?thesis
    using assms grants_same [of w v now "h v"] by (cases r) (auto simp: or_acquire_def grants_def)
qed

lemma grants_bind: "grants now w r \<Longrightarrow> grants now w (bind_acquired k t r)"
  by (auto simp: grants_def bind_acquired_def with_bindings_def same_world_def split: prod.splits option.splits)

lemma grants_any: "a < length (kw_pools w) \<Longrightarrow> grants (ck_ms ck) w (acquire_any a model ck w)"
  unfolding acquire_any_def by (intro grants_or grants_on_pool picks) (auto dest: same_world_length)

lemma grants_codex: "a < length (kw_pools w) \<Longrightarrow> grants (ck_ms ck) w (acquire_codex a model ff ck w)"
  unfolding acquire_codex_def by (intro grants_or grants_on_pool picks) (auto dest: same_world_length)

lemma grants_spill: "a < length (kw_pools w) \<Longrightarrow> grants (ck_ms ck) w (spill_from a bound model ck w)"
  unfolding spill_from_def by (intro grants_or grants_on_pool grants_any picks) (auto dest: same_world_length)

lemma grants_bound:
  assumes "a < length (kw_pools w)"
  shows "grants (ck_ms ck) w (acquire_bound a bind_key bound scope mx ck w)"
  using grants_on_pool [OF assms usable_specific, of "ck_ms ck" "\<lambda>_ _. bound" "\<lambda>_ _. scope"]
  by (auto simp: acquire_bound_def grants_def with_bindings_def split: prod.splits option.splits)

lemma get_binding_same: "get_binding w k now = (b, v) \<Longrightarrow> same_world w v"
  by (auto simp: get_binding_def same_world_def list_all2_same split: option.splits prod.splits)

lemma grants_mimo:
  assumes "kw_current w < length (kw_pools w)"
  shows "grants (ck_ms ck) w (acquire_mimo feats bind_key model ck w)"
proof -
  obtain b v where b: "get_binding w bind_key (ck_ms ck) = (b, v)" by (cases "get_binding w bind_key (ck_ms ck)")
  then have v: "same_world w v" "kw_current w < length (kw_pools v)"
    using get_binding_same same_world_length assms by fastforce+
  have "grants (ck_ms ck) v (acquire_mimo feats bind_key model ck w)"
  proof (cases b)
    case None
    show ?thesis unfolding acquire_mimo_def b None Let_def prod.case option.case
      by (rule grants_bind, rule grants_or)
        (use v in \<open>auto intro!: grants_on_pool grants_any picks split: option.split dest: same_world_length simp: grants_def [of _ _ "(None, _)"]\<close>)
  next
    case (Some x)
    show ?thesis unfolding acquire_mimo_def b Some Let_def prod.case option.case
      by (rule grants_or) (use v in \<open>auto intro!: grants_bound grants_spill dest: same_world_length\<close>)
  qed
  then show ?thesis using v(1) by (rule grants_same [rotated])
qed

lemma grants_codex_bound:
  assumes "a < length (kw_pools w)"
  shows "grants (ck_ms ck) w (acquire_codex_bound feats a bind_key model ck w)"
proof -
  obtain b v where b: "get_binding w bind_key (ck_ms ck) = (b, v)" by (cases "get_binding w bind_key (ck_ms ck)")
  then have v: "same_world w v" "a < length (kw_pools v)"
    using get_binding_same same_world_length assms by fastforce+
  have "grants (ck_ms ck) v (acquire_codex_bound feats a bind_key model ck w)"
    unfolding acquire_codex_bound_def b prod.case
    by (cases b) (use v(2) in \<open>auto intro: grants_bound grants_bind grants_codex\<close>)
  then show ?thesis using v(1) by (rule grants_same [rotated])
qed

lemma prepare_pool_bounds:
  "kw_current w < length (kw_pools w) \<Longrightarrow> kw_current (prepare_pool digest feats ctx w) < length (kw_pools (prepare_pool digest feats ctx w)) \<and>
     kw_current w < length (kw_pools (prepare_pool digest feats ctx w))"
  by (simp add: prepare_pool_def ensure_mimo_pool_inflight_cap_def split: prod.split)

section \<open>The preflight loop\<close>

definition codex_key :: "nat \<Rightarrow> string list \<Rightarrow> upstream_key_slot \<Rightarrow> bool" where
  "codex_key now keys s \<longleftrightarrow> slot_is_oauth s \<and> uk_id s \<notin> set keys \<and> uk_enabled s \<and> slot_passes_cooldown s None None now"

abbreviation picks_codex :: "nat \<Rightarrow> string list \<Rightarrow> upstream_key_pool \<Rightarrow> sem_store \<Rightarrow>
    upstream_key_guard option \<times> upstream_key_pool \<times> sem_store \<Rightarrow> bool" where
  "picks_codex now keys p sems r \<equiv> attempt p sems (\<lambda>i. codex_key now keys (up_slots p ! i)) r"

lemma codex_scored:
  assumes "\<And>s. acc s \<Longrightarrow> slot_is_oauth s \<and> uk_id s \<notin> set keys"
  shows "picks_codex now keys p sems (acquire_scored p sems ex sc mo ff req acc now inst)"
proof (rule attempt_mono [OF attempt_acquire_scored])
  fix i assume "eligible_at p (base_policy ex sc mo ff req acc (up_quota_cache p)) now inst i"
  then show "codex_key now keys (up_slots p ! i)"
    using assms by (auto simp: eligible_at_def slot_eligible_def base_policy_def codex_key_def intro: passes_cooldown_unscoped)
qed

lemma codex_retry:
  assumes "picks_codex now keys p sems r" and "\<And>q. picks_codex now keys q sems (F q sems)"
  shows "picks_codex now keys p sems (case r of (Some g, p', s') \<Rightarrow> (Some g, p', s') | (None, p', s') \<Rightarrow> F p' s')"
proof (rule attempt_retry [OF assms(1)])
  fix q assume "same_core p q"
  then have "up_slots q = up_slots p" by (simp add: same_core_def)
  then show "attempt q sems (\<lambda>i. codex_key now keys (up_slots p ! i)) (F q sems)" using assms(2) [of q] by simp
qed

lemma codex_picks:
  "picks_codex now [] p sems (up_acquire_codex_for_model p sems model ex ff now inst)"
  "picks_codex now keys p sems (up_acquire_codex_for_model_excluding p sems model ex ff keys now inst)"
proof -
  show "picks_codex now [] p sems (up_acquire_codex_for_model p sems model ex ff now inst)"
    unfolding up_acquire_codex_for_model_def Let_def
    by (cases "explicit_catalog_mode p (trim model)") (auto intro!: codex_retry codex_scored)
  show "picks_codex now keys p sems (up_acquire_codex_for_model_excluding p sems model ex ff keys now inst)"
    unfolding up_acquire_codex_for_model_excluding_def Let_def
    by (cases "explicit_catalog_mode p (trim model)") (auto intro!: codex_retry codex_scored)
qed

definition alike :: "upstream_key_pool \<Rightarrow> upstream_key_pool \<Rightarrow> bool" where
  \<comment> \<open>the same keys, whatever is in flight\<close>
  "alike p q \<longleftrightarrow> map (\<lambda>s. s\<lparr>uk_inflight := 0\<rparr>) (up_slots q) = map (\<lambda>s. s\<lparr>uk_inflight := 0\<rparr>) (up_slots p)"

definition pool_ready :: "nat \<Rightarrow> key_world \<Rightarrow> bool" where
  "pool_ready a w \<longleftrightarrow> a < length (kw_pools w) \<and> distinct (map uk_id (up_slots (kw_pools w ! a))) \<and>
     (\<forall>s \<in> set (up_slots (kw_pools w ! a)). uk_semaphore s < length (kw_semaphores w))"

definition settled :: "nat \<Rightarrow> key_world \<Rightarrow> key_world \<Rightarrow> bool" where
  "settled a w v \<longleftrightarrow> length (kw_pools v) = length (kw_pools w) \<and> kw_semaphores v = kw_semaphores w \<and>
     alike (kw_pools w ! a) (kw_pools v ! a)"

lemma alike_trans: "alike p q \<Longrightarrow> alike q r \<Longrightarrow> alike p r"
  by (simp add: alike_def)

lemma alike_nth:
  assumes "alike p q" and "i < length (up_slots p)"
  shows "i < length (up_slots q) \<and> (up_slots q ! i)\<lparr>uk_inflight := 0\<rparr> = (up_slots p ! i)\<lparr>uk_inflight := 0\<rparr>"
  using assms unfolding alike_def by (metis length_map nth_map)

lemma alike_update:
  "i < length (up_slots p) \<Longrightarrow> up_slots q = (up_slots p)[i := (up_slots p ! i)\<lparr>uk_inflight := n\<rparr>] \<Longrightarrow> alike p q"
  unfolding alike_def by (simp add: map_update) (simp add: list_update_same_conv)

lemma same_key_fields:
  assumes "(s :: upstream_key_slot)\<lparr>uk_inflight := 0\<rparr> = t\<lparr>uk_inflight := 0\<rparr>"
  shows "uk_id s = uk_id t \<and> uk_account_id s = uk_account_id t \<and> uk_secret s = uk_secret t \<and> uk_semaphore s = uk_semaphore t \<and>
    uk_enabled s = uk_enabled t \<and> slot_passes_cooldown s scope model now = slot_passes_cooldown t scope model now"
proof -
  have passes: "slot_passes_cooldown (u\<lparr>uk_inflight := 0\<rparr>) scope model now = slot_passes_cooldown u scope model now" for u
    by (simp add: slot_passes_cooldown_def cong: option.case_cong)
  show ?thesis
    using arg_cong [OF assms, of uk_id] arg_cong [OF assms, of uk_account_id] arg_cong [OF assms, of uk_secret]
      arg_cong [OF assms, of uk_semaphore] arg_cong [OF assms, of uk_enabled]
      arg_cong [OF assms, of "\<lambda>u. slot_passes_cooldown u scope model now"] passes by simp
qed

lemma alike_ids: "alike p q \<Longrightarrow> map uk_id (up_slots q) = map uk_id (up_slots p)"
  by (rule nth_equalityI) (auto simp: alike_def dest: map_eq_imp_length_eq, metis alike_def alike_nth nth_map same_key_fields length_map)

lemma candidate_picked:
  assumes "pool_ready a w" and "acct = None \<longrightarrow> keys = []"
    and "preflight_candidate a model ff keys acct ck w = (Some g, v)"
  defines "p \<equiv> kw_pools w ! a" and "i \<equiv> ukg_index (kg_guard g)"
  shows "kg_pool g = a \<and> i < length (up_slots p) \<and> codex_key (ck_ms ck) keys (up_slots p ! i) \<and>
    guarded_slot v g = (up_slots p ! i)\<lparr>uk_inflight := wrap_add 64 (uk_inflight (up_slots p ! i)) 1\<rparr> \<and>
    settled a w (drop_guarded g v) \<and> 0 < kw_semaphores w ! uk_semaphore (up_slots p ! i)"
proof -
  obtain r p' s' where f: "(case acct of
         Some acct \<Rightarrow> up_acquire_codex_for_model_excluding p (kw_semaphores w) model (Some acct) ff keys (ck_ms ck) (ck_instant ck)
       | None \<Rightarrow> up_acquire_codex_for_model p (kw_semaphores w) model None ff (ck_ms ck) (ck_instant ck)) = (r, p', s')"
    by (metis prod_cases3)
  have at: "picks_codex (ck_ms ck) keys p (kw_semaphores w) (r, p', s')"
  proof (cases acct)
    case None
    then show ?thesis
      using f assms(2) codex_picks(1) [where p = p and sems = "kw_semaphores w" and now = "ck_ms ck" and model = model and ex = None and ff = ff and inst = "ck_instant ck"] by simp
  next
    case (Some x)
    then show ?thesis
      using f codex_picks(2) [where p = p and sems = "kw_semaphores w" and now = "ck_ms ck" and keys = keys and model = model and ex = "Some x" and ff = ff and inst = "ck_instant ck"] by simp
  qed
  obtain u where u: "r = Some u" "g = \<lparr>kg_pool = a, kg_guard = u\<rparr>"
    and v: "v = w\<lparr>kw_pools := (kw_pools w)[a := p'], kw_semaphores := s'\<rparr>"
    using assms(3) f unfolding preflight_candidate_def on_pool_def p_def by auto
  note d = attempt_SomeD [OF at [unfolded u(1)]]
  have a: "a < length (kw_pools w)" and sem: "ukg_permit u < length (kw_semaphores w)"
    using assms(1) d(2,3) by (auto simp: pool_ready_def p_def)
  have i: "i = ukg_index u" by (simp add: i_def u(2))
  let ?q = "up_release p' (ukg_index u)"
  have "up_slots ?q = (up_slots p)[i := (up_slots p ! i)\<lparr>uk_inflight :=
      wrap_sub 64 (wrap_add 64 (uk_inflight (up_slots p ! i)) 1) 1\<rparr>]"
    using d(2,6) by (simp add: up_release_def update_slot_def i)
  then have "alike p ?q" using d(2) i by (intro alike_update) auto
  moreover have "s'[ukg_permit u := s' ! ukg_permit u + 1] = kw_semaphores w"
    using d(4,5) sem by simp
  ultimately have "settled a w (drop_guarded g v)"
    using a by (simp add: settled_def drop_guarded_def drop_guard_def u(2) v p_def)
  then show ?thesis using d(1-4,6) a i u(2) v by (simp add: guarded_slot_def)
qed

lemma settled_trans: "settled a u v \<Longrightarrow> settled a v w \<Longrightarrow> settled a u w"
  unfolding settled_def by (auto intro: alike_trans)

lemma settled_ready:
  assumes "settled a w v" and "pool_ready a w"
  shows "pool_ready a v"
proof -
  let ?p = "kw_pools w ! a" and ?q = "kw_pools v ! a"
  have al: "alike ?p ?q" using assms(1) by (simp add: settled_def)
  have "uk_semaphore s < length (kw_semaphores v)" if s: "s \<in> set (up_slots ?q)" for s
  proof -
    obtain j where j: "j < length (up_slots ?q)" "s = up_slots ?q ! j" using s by (auto simp: in_set_conv_nth)
    then have "j < length (up_slots ?p)" using al by (metis alike_def length_map)
    then show ?thesis
      using j alike_nth [OF al] same_key_fields assms by (metis (no_types, lifting) nth_mem pool_ready_def settled_def)
  qed
  then show ?thesis using assms alike_ids [OF al] by (simp add: pool_ready_def settled_def)
qed

lemma fetch_settled: "fetch_quota wham a k ck w = (snap, v) \<Longrightarrow> a < length (kw_pools w) \<Longrightarrow> settled a w v"
  by (auto simp: fetch_quota_def settled_def alike_def split: option.splits prod.splits)

lemma specific_taken:
  assumes "distinct (map uk_id (up_slots p))" and "i < length (up_slots p)" and "uk_enabled (up_slots p ! i)"
    and "slot_passes_cooldown (up_slots p ! i) scope None now" and "0 < sems ! uk_semaphore (up_slots p ! i)"
  shows "fst (up_acquire_specific_scoped p sems (uk_id (up_slots p ! i)) scope now) =
    Some \<lparr>ukg_index = i, ukg_permit = uk_semaphore (up_slots p ! i)\<rparr>"
proof -
  let ?P = "\<lambda>s. uk_id s = uk_id (up_slots p ! i) \<and> uk_enabled s \<and> slot_passes_cooldown s scope None now"
  obtain j where j: "first_index ?P (up_slots p) = Some j"
    using first_index_None_iff [of ?P "up_slots p"] assms(2-4) by (cases "first_index ?P (up_slots p)") auto
  then have "j < length (up_slots p)" "uk_id (up_slots p ! j) = uk_id (up_slots p ! i)" using first_index_SomeD [OF j] by auto
  then have "j = i" using assms(1,2) by (simp add: distinct_conv_nth) metis
  then show ?thesis using j assms(5) by (simp add: up_acquire_specific_scoped_def take_permit_def Let_def)
qed

lemma on_pool_fst: "fst (on_pool a f w) = map_option (\<lambda>g. \<lparr>kg_pool = a, kg_guard = g\<rparr>) (fst (f (kw_pools w ! a) (kw_semaphores w)))"
  by (simp add: on_pool_def split: prod.split)

lemma reacquire_succeeds:
  assumes "pool_ready a v" and "i < length (up_slots (kw_pools v ! a))"
    and "codex_key now keys (up_slots (kw_pools v ! a) ! i)"
    and "0 < kw_semaphores v ! uk_semaphore (up_slots (kw_pools v ! a) ! i)"
  shows "fst (on_pool a (\<lambda>p s. up_acquire_specific p s (uk_id (up_slots (kw_pools v ! a) ! i)) now) v) \<noteq> None"
  using specific_taken [of "kw_pools v ! a" i None now "kw_semaphores v"] assms
  by (simp add: on_pool_fst up_acquire_specific_def codex_key_def pool_ready_def)

lemma oauth_account: "slot_is_oauth s \<Longrightarrow> exclude_account_of (uk_account_id s) old = Some (uk_account_id s)"
  by (auto simp: slot_is_oauth_def looks_like_codex_oauth_key_def exclude_account_of_def Let_def trim_def
      default_upstream_account_id_def is_space_def)

lemma preflight_once_progress:
  assumes "pool_ready a w" and "acct = None \<longrightarrow> keys = []"
    and "preflight_once wham feats a model ck keys acct w = NextKey keys' acct' w'"
  shows "\<exists>k \<in> uk_id ` set (up_slots (kw_pools w ! a)). k \<notin> set keys \<and> keys' = k # keys \<and> acct' \<noteq> None \<and> settled a w w'"
proof -
  obtain g v where cand: "preflight_candidate a model (kf_codex_acquire_fill_first feats) keys acct ck w = (Some g, v)"
    using assms(3) unfolding preflight_once_def Let_def by (auto split: prod.splits option.splits)
  let ?s = "up_slots (kw_pools w ! a) ! ukg_index (kg_guard g)"
  note p = candidate_picked [OF assms(1,2) cand]
  then have id: "uk_id (guarded_slot v g) = uk_id ?s" "uk_account_id (guarded_slot v g) = uk_account_id ?s" by simp_all
  have k: "uk_id ?s \<in> uk_id ` set (up_slots (kw_pools w ! a))" "uk_id ?s \<notin> set keys"
    using p by (auto simp: codex_key_def)
  have acct: "exclude_account_of (uk_account_id ?s) acct = Some (uk_account_id ?s)"
    using p oauth_account by (simp add: codex_key_def)
  obtain snap u where fetch: "fetch_quota wham a (uk_id ?s) ck (drop_guarded g v) = (snap, u)"
    by (cases "fetch_quota wham a (uk_id ?s) ck (drop_guarded g v)")
  have drop: "settled a w (drop_guarded g v)" using p by blast
  have len: "a < length (kw_pools (drop_guarded g v))" using settled_ready [OF drop assms(1)] by (simp add: pool_ready_def)
  have u: "settled a w u" using settled_trans [OF drop fetch_settled [OF fetch len]] .
  let ?t = "up_slots (kw_pools u ! a) ! ukg_index (kg_guard g)"
  have t: "ukg_index (kg_guard g) < length (up_slots (kw_pools u ! a))" "?t\<lparr>uk_inflight := 0\<rparr> = ?s\<lparr>uk_inflight := 0\<rparr>"
    using alike_nth [of "kw_pools w ! a" "kw_pools u ! a"] u p by (auto simp: settled_def)
  have "fst (on_pool a (\<lambda>p s. up_acquire_specific p s (uk_id ?s) (ck_ms ck)) u) \<noteq> None"
    using reacquire_succeeds [OF settled_ready [OF u assms(1)] t(1), of "ck_ms ck" keys] same_key_fields [OF t(2)] p u
    by (simp add: codex_key_def settled_def slot_is_oauth_def)
  then obtain g' x where again: "on_pool a (\<lambda>p s. up_acquire_specific p s (uk_id ?s) (ck_ms ck)) u = (Some g', x)"
    by (metis option.exhaust prod.collapse)
  show ?thesis
    using assms(3) k drop u unfolding preflight_once_def Let_def cand prod.case option.case id acct fetch again
    by (auto split: option.splits if_splits)
qed

lemma bound_binding_same:
  assumes "a < length (kw_pools w)" and "acquire_unexhausted_binding feats ctx a model cache ck w = (None, v)"
  shows "same_world w v"
proof (cases "if is_codex_upstream_pipeline (rc_request_pipeline ctx) \<and> kf_codex_key_binding feats then stable_session ctx else None")
  case None
  then show ?thesis using assms(2) by (simp add: acquire_unexhausted_binding_def)
next
  case (Some sid)
  obtain b u where b: "get_binding w (codex_session_key sid) (ck_ms ck) = (b, u)"
    by (cases "get_binding w (codex_session_key sid) (ck_ms ck)")
  have u: "same_world w u" using b by (rule get_binding_same)
  have "grants (ck_ms ck) u (acquire_bound a (codex_session_key sid) k scope 0 ck u)" for k scope
    using grants_bound assms(1) same_world_length [OF u] by simp
  then have "same_world u v"
    using assms(2) unfolding acquire_unexhausted_binding_def Some option.case b prod.case
    by (cases b) (auto simp: grants_def split: if_splits, metis (no_types, lifting) case_prod_conv option.simps(4))
  then show ?thesis by (rule same_world_trans [OF u])
qed

lemma preflight_loop_returns:
  assumes "pool_ready a w" and "acct = None \<longrightarrow> keys = []" and "distinct keys"
    and "set keys \<subseteq> uk_id ` set (up_slots (kw_pools w ! a))" and "length (up_slots (kw_pools w ! a)) < n + length keys"
  shows "\<exists>r. preflight_loop wham feats a model ck n keys acct w = Some r"
  using assms
proof (induction n arbitrary: keys acct w)
  case 0
  have "length keys \<le> card (uk_id ` set (up_slots (kw_pools w ! a)))"
    using 0(3,4) by (metis card_mono distinct_card finite_imageI finite_set)
  also have "\<dots> \<le> length (up_slots (kw_pools w ! a))"
    using card_image_le card_length order_trans by (metis List.finite_set)
  finally show ?case using 0(5) by simp
next
  case (Suc n)
  show ?case
  proof (cases "preflight_once wham feats a model ck keys acct w")
    case (Accept r)
    then show ?thesis by simp
  next
    case (NextKey keys' acct' w')
    then obtain k where k: "k \<in> uk_id ` set (up_slots (kw_pools w ! a))" "k \<notin> set keys" "keys' = k # keys" "acct' \<noteq> None"
      and w': "settled a w w'"
      using preflight_once_progress [OF Suc.prems(1,2)] by metis
    have ids: "map uk_id (up_slots (kw_pools w' ! a)) = map uk_id (up_slots (kw_pools w ! a))"
      using w' alike_ids by (simp add: settled_def)
    have "uk_id ` set (up_slots (kw_pools w' ! a)) = uk_id ` set (up_slots (kw_pools w ! a))"
      "length (up_slots (kw_pools w' ! a)) = length (up_slots (kw_pools w ! a))"
      using arg_cong [OF ids, of set] arg_cong [OF ids, of length] by simp_all
    then have "\<exists>r. preflight_loop wham feats a model ck n keys' acct' w' = Some r"
      using k Suc.prems settled_ready [OF w' Suc.prems(1)] by (intro Suc.IH) auto
    then show ?thesis using NextKey by simp
  qed
qed

section \<open>Properties\<close>

text \<open>
  The key a request gets can be used: whichever way it was found (the binding of its session, the
  least loaded key, a spill or the pool), it is enabled, out of its cooldown and had a free permit.
\<close>

theorem request_key_usable:
  assumes "kw_current w < length (kw_pools w)"
    and "try_acquire_upstream_key digest feats provider ctx ck w = (Some g, w')"
  defines "v \<equiv> prepare_pool digest feats ctx w"
  shows "ukg_index (kg_guard g) < length (up_slots (kw_pools v ! kg_pool g)) \<and> uk_enabled (guarded_slot v g) \<and>
    uk_cooldown_until_ms (guarded_slot v g) \<le> ck_ms ck \<and> 0 < kw_semaphores v ! uk_semaphore (guarded_slot v g)"
proof -
  have v: "kw_current v < length (kw_pools v)" "kw_current w < length (kw_pools v)"
    using prepare_pool_bounds [OF assms(1)] by (simp_all add: v_def)
  have "grants (ck_ms ck) v (try_acquire_upstream_key digest feats provider ctx ck w)"
    unfolding try_acquire_upstream_key_def Let_def v_def [symmetric]
    by (auto intro: grants_mimo [OF v(1)] grants_codex_bound [OF v(2)] grants_codex [OF v(2)] grants_any [OF v(2)]
        split: option.split)
  then show ?thesis using assms(2) by (simp add: grants_def usable_def guarded_slot_def)
qed


text \<open>
  C29. A MiMo conversation keeps its key. As long as the key its session is bound to is enabled, out of
  its cooldown and below its limits, each request of the session gets exactly this key.
\<close>

theorem bound_session_keeps_key:
  assumes "mimo_request ctx" and "kf_mimo_key_binding feats" and "mimo_bind_key ctx = Some bind_key"
    and "v = prepare_pool digest feats ctx w" and "pool_ready (kw_current v) v"
    and "kw_bindings v = Some bs" and "fst (kbs_get bs bind_key (ck_ms ck)) = Some b"
    and "i < length (up_slots (current_pool v))" and "slot = up_slots (current_pool v) ! i" and "uk_id slot = kb_key_id b"
    and "uk_enabled slot" and "slot_passes_cooldown slot None None (ck_ms ck)" and "0 < kw_semaphores v ! uk_semaphore slot"
    and "kf_mimo_key_max_inflight feats = 0 \<or> uk_inflight slot < kf_mimo_key_max_inflight feats"
  shows "fst (try_acquire_upstream_key digest feats provider ctx ck w) =
    Some \<lparr>kg_pool = kw_current v, kg_guard = \<lparr>ukg_index = i, ukg_permit = uk_semaphore slot\<rparr>\<rparr>"
proof -
  let ?a = "kw_current v" and ?k = "kb_key_id b"
  obtain bs' where get: "kbs_get bs bind_key (ck_ms ck) = (Some b, bs')" using assms(7) by (metis prod.collapse)
  let ?u = "v\<lparr>kw_bindings := Some bs'\<rparr>"
  have bound: "get_binding v bind_key (ck_ms ck) = (Some b, ?u)" using assms(6) get by (simp add: get_binding_def)
  have ready: "distinct (map uk_id (up_slots (kw_pools v ! ?a)))" using assms(5) by (simp add: pool_ready_def)
  have idx: "slot_index (kw_pools v ! ?a) ?k = Some i"
    using first_index_distinct [OF ready assms(8)] assms(9,10) by (simp add: slot_index_def)
  have "fst (on_pool ?a (\<lambda>p s. up_acquire_specific_scoped p s ?k None (ck_ms ck)) ?u) =
      Some \<lparr>kg_pool = ?a, kg_guard = \<lparr>ukg_index = i, ukg_permit = uk_semaphore slot\<rparr>\<rparr>"
    using specific_taken [OF ready assms(8)] assms(9-13) by (simp add: on_pool_fst)
  moreover have "kf_mimo_key_max_inflight feats = 0 \<or> up_inflight_of (kw_pools ?u ! ?a) ?k < kf_mimo_key_max_inflight feats"
    using assms(9,14) idx by (simp add: up_inflight_of_def)
  ultimately have "fst (acquire_bound ?a bind_key ?k None (kf_mimo_key_max_inflight feats) ck ?u) =
      Some \<lparr>kg_pool = ?a, kg_guard = \<lparr>ukg_index = i, ukg_permit = uk_semaphore slot\<rparr>\<rparr>"
    unfolding acquire_bound_def by (auto split: prod.split option.split)
  then have "fst (acquire_mimo feats bind_key (key_model provider ctx) ck v) =
      Some \<lparr>kg_pool = ?a, kg_guard = \<lparr>ukg_index = i, ukg_permit = uk_semaphore slot\<rparr>\<rparr>"
    unfolding acquire_mimo_def Let_def bound prod.case option.case or_acquire_def by (auto split: prod.split option.split)
  then show ?thesis
    using assms(1-3,6) unfolding try_acquire_upstream_key_def Let_def assms(4) [symmetric] by simp
qed

text \<open>
  C40. A bound Codex session does not spill: while its key is in cooldown or full, its requests are refused
  although other keys of the pool are free.
\<close>

theorem codex_binding_never_spills:
  assumes "is_codex_upstream_pipeline (rc_request_pipeline ctx)" and "\<not> mimo_request ctx" and "kf_codex_key_binding feats"
    and "stable_session ctx = Some sid" and "kw_bindings w = Some bs"
    and "fst (kbs_get bs (codex_session_key sid) (ck_ms ck)) = Some b"
    and "\<forall>s \<in> set (up_slots (current_pool w)). uk_id s = kb_key_id b \<longrightarrow> ck_ms ck < uk_cooldown_until_ms s"
  shows "fst (try_acquire_upstream_key digest feats provider ctx ck w) = None"
proof -
  obtain bs' where get: "kbs_get bs (codex_session_key sid) (ck_ms ck) = (Some b, bs')" using assms(6) by (metis prod.collapse)
  have "first_index (\<lambda>s. uk_id s = kb_key_id b \<and> uk_enabled s \<and> slot_passes_cooldown s scope None (ck_ms ck))
      (up_slots (current_pool w)) = None" for scope
    using assms(7) passes_cooldown_global by (fastforce simp: first_index_None_iff)
  then have "up_acquire_specific_scoped (current_pool w) sems (kb_key_id b) scope (ck_ms ck) = (None, current_pool w, sems)" for sems scope
    by (simp add: up_acquire_specific_scoped_def)
  then show ?thesis
    using assms(1-5) get
    by (simp add: try_acquire_upstream_key_def prepare_pool_def acquire_codex_bound_def get_binding_def
        acquire_bound_def on_pool_def Let_def)
qed

section \<open>Witnesses\<close>

definition sample_features :: key_features where
  "sample_features = \<lparr>kf_mimo_key_binding = True, kf_mimo_key_max_inflight = 0, kf_mimo_key_max_sessions_per_key = 0,
     kf_codex_key_binding = True, kf_codex_key_max_inflight = 0, kf_codex_acquire_fill_first = False,
     kf_codex_quota_preflight = True, kf_codex_quota_min_remaining_percent = 5\<rparr>"

definition sample_world :: "nat \<Rightarrow> string \<Rightarrow> key_world" where
  \<comment> \<open>two keys; a session is bound to the second one, which may be in cooldown\<close>
  "sample_world until bind_key = \<lparr>kw_pools = [(demo_pool [demo_slot ''a'' 0 0 0, (demo_slot ''b'' 1 0 1)\<lparr>uk_cooldown_until_ms := until\<rparr>])
        \<lparr>up_quota_cache := Some qc_new\<rparr>],
     kw_current = 0, kw_semaphores = [1, 1], kw_bindings = Some (kbs_put (kbs_new 60) bind_key ''b'' 0)\<rparr>"

definition conversation_ctx :: "request_pipeline \<Rightarrow> retry_ctx" where
  "conversation_ctx pipeline = sample_retry_ctx\<lparr>rc_request_pipeline := Some pipeline, rc_conversation_id := Some ''c''\<rparr>"

lemma sample_bind_key: "mimo_bind_key (conversation_ctx MimoTokenPlanRelay) = Some ''conv:c''"
  by (simp add: mimo_bind_key_def conversation_ctx_def resolve_mimo_binding_key_def non_blank_def trim_def is_space_def)

lemma sample_ready: "pool_ready 0 (sample_world until k)"
  by (simp add: pool_ready_def sample_world_def demo_pool_def demo_slot_def)

lemma sample_binding: "fst (kbs_get (kbs_put (kbs_new 60) k ''b'' 0) k 5) =
    Some \<lparr>kb_key_id = ''b'', kb_bound_at_ms = 0, kb_last_used_ms = 0, kb_transient_failures = 0\<rparr>"
  by (simp add: kbs_get_def kbs_put_def kbs_new_def kbs_increment_key_count_def sat_mul_def)

lemma sample_prepared: "prepare_pool id sample_features ctx w = w"
  by (simp add: prepare_pool_def sample_features_def)

lemma sample_mimo: "mimo_request (conversation_ctx MimoTokenPlanRelay)"
  by (simp add: mimo_request_def conversation_ctx_def is_mimo_pipeline_def)

theorem bound_session_keeps_key_witness:
  "fst (try_acquire_upstream_key id sample_features Mimo (conversation_ctx MimoTokenPlanRelay)
      \<lparr>ck_ms = 5, ck_instant = 0\<rparr> (sample_world 0 ''conv:c'')) =
    Some \<lparr>kg_pool = 0, kg_guard = \<lparr>ukg_index = 1, ukg_permit = 1\<rparr>\<rparr>"
proof -
  let ?w = "sample_world 0 ''conv:c''"
  have slot: "demo_slot ''b'' 1 0 1 = up_slots (current_pool ?w) ! 1" "1 < length (up_slots (current_pool ?w))"
    by (simp_all add: sample_world_def demo_pool_def demo_slot_def)
  have ready: "pool_ready (kw_current ?w) ?w" using sample_ready by (simp add: sample_world_def)
  have bs: "kw_bindings ?w = Some (kbs_put (kbs_new 60) ''conv:c'' ''b'' 0)" by (simp add: sample_world_def)
  have bound: "fst (kbs_get (kbs_put (kbs_new 60) ''conv:c'' ''b'' 0) ''conv:c'' (ck_ms \<lparr>ck_ms = 5, ck_instant = 0\<rparr>)) =
      Some \<lparr>kb_key_id = ''b'', kb_bound_at_ms = 0, kb_last_used_ms = 0, kb_transient_failures = 0\<rparr>"
    using sample_binding by simp
  show ?thesis
    using bound_session_keeps_key [OF sample_mimo _ sample_bind_key sample_prepared [symmetric] ready bs bound slot(2,1), where provider = Mimo]
    by (simp add: sample_features_def sample_world_def demo_slot_def slot_passes_cooldown_def active_scope_def)
qed

lemma sample_acquired:
  obtains w' where "try_acquire_upstream_key id sample_features Mimo (conversation_ctx MimoTokenPlanRelay)
      \<lparr>ck_ms = 5, ck_instant = 0\<rparr> (sample_world 0 ''conv:c'') =
    (Some \<lparr>kg_pool = 0, kg_guard = \<lparr>ukg_index = 1, ukg_permit = 1\<rparr>\<rparr>, w')"
proof -
  obtain bs where get: "kbs_get (kbs_put (kbs_new 60) ''conv:c'' ''b'' 0) ''conv:c'' 5 =
      (Some \<lparr>kb_key_id = ''b'', kb_bound_at_ms = 0, kb_last_used_ms = 0, kb_transient_failures = 0\<rparr>, bs)"
    using sample_binding by (metis prod.collapse)
  have "\<exists>w'. try_acquire_upstream_key id sample_features Mimo (conversation_ctx MimoTokenPlanRelay)
      \<lparr>ck_ms = 5, ck_instant = 0\<rparr> (sample_world 0 ''conv:c'') =
    (Some \<lparr>kg_pool = 0, kg_guard = \<lparr>ukg_index = 1, ukg_permit = 1\<rparr>\<rparr>, w')"
    using sample_mimo sample_bind_key get unfolding try_acquire_upstream_key_def sample_prepared Let_def
    by (simp add: acquire_mimo_def get_binding_def acquire_bound_def or_acquire_def
        sample_features_def sample_world_def on_pool_def up_acquire_specific_scoped_def demo_pool_def demo_slot_def
        slot_passes_cooldown_def active_scope_def take_permit_def Let_def)
  then show thesis using that by blast
qed

theorem request_key_usable_witness:
  "uk_cooldown_until_ms (guarded_slot (sample_world 0 ''conv:c'') \<lparr>kg_pool = 0, kg_guard = \<lparr>ukg_index = 1, ukg_permit = 1\<rparr>\<rparr>) \<le> 5"
proof -
  obtain w' where "try_acquire_upstream_key id sample_features Mimo (conversation_ctx MimoTokenPlanRelay)
      \<lparr>ck_ms = 5, ck_instant = 0\<rparr> (sample_world 0 ''conv:c'') =
    (Some \<lparr>kg_pool = 0, kg_guard = \<lparr>ukg_index = 1, ukg_permit = 1\<rparr>\<rparr>, w')"
    by (rule sample_acquired)
  from request_key_usable [OF _ this] show ?thesis by (simp add: sample_prepared) (simp add: sample_world_def)
qed


theorem codex_binding_never_spills_witness:
  "fst (try_acquire_upstream_key id sample_features Codex (conversation_ctx CodexRelay)
      \<lparr>ck_ms = 5, ck_instant = 0\<rparr> (sample_world 100 ''codex:c'')) = None"
proof (rule codex_binding_never_spills [where sid = "''c''" and bs = "kbs_put (kbs_new 60) ''codex:c'' ''b'' 0"
      and b = "\<lparr>kb_key_id = ''b'', kb_bound_at_ms = 0, kb_last_used_ms = 0, kb_transient_failures = 0\<rparr>"])
  show "fst (kbs_get (kbs_put (kbs_new 60) ''codex:c'' ''b'' 0) (codex_session_key ''c'') (ck_ms \<lparr>ck_ms = 5, ck_instant = 0\<rparr>)) =
    Some \<lparr>kb_key_id = ''b'', kb_bound_at_ms = 0, kb_last_used_ms = 0, kb_transient_failures = 0\<rparr>"
    using sample_binding by (simp add: codex_session_key_def)
qed (simp_all add: conversation_ctx_def is_codex_upstream_pipeline_def mimo_request_def is_mimo_pipeline_def sample_features_def
    stable_session_def codex_session_def or_else_def sample_world_def demo_pool_def demo_slot_def)

end
