(* ===== verification/ErrorBodies.thy ===== *)
theory ErrorBodies
  imports ResponsesWire UpstreamPool "HOL-Library.Countable"
begin

text \<open>
  The error bodies the gateway writes (\<^verbatim>\<open>src/crates/crab-proxy/src/error_jsons.rs\<close>): an upstream's
  error as an OpenAI error, as a chat stream and as a Responses stream, and the gateway's own refusals.
  The JSON library, the lossy decoding of bytes, fresh ids and the clock are arguments.
\<close>

section \<open>Errors of the upstream\<close>

record error_env =
  ee_parse :: json_parser
  ee_ser :: "json \<Rightarrow> string"
  ee_lossy :: "string \<Rightarrow> string" \<comment> \<open>\<open>from_utf8_lossy\<close>\<close>

definition error_field :: "json \<Rightarrow> string \<Rightarrow> string option" where
  "error_field v k = Option.bind (json_get v ''error'') (\<lambda>e. json_get_str e k)"

definition upstream_error_preview :: "error_env \<Rightarrow> string \<Rightarrow> string" where
  "upstream_error_preview E body =
     (let s = ee_lossy E body in
      take 300
        (case ee_parse E s of
           None \<Rightarrow> s
         | Some v \<Rightarrow>
             (case or_else (error_field v ''message'') (or_else (json_get_str v ''detail'') (json_get_str v ''message'')) of
                Some msg \<Rightarrow> msg
              | None \<Rightarrow> s)))"

definition status_code :: "nat \<Rightarrow> string" where
  "status_code status =
     (if status = 401 then ''invalid_api_key'' else if status = 403 then ''permission_denied''
      else if status = 429 then ''rate_limit_exceeded'' else ''invalid_request_error'')"

definition status_type :: "nat \<Rightarrow> string" where
  "status_type status =
     (if status = 429 then ''rate_limit_error'' else if 500 \<le> status then ''server_error'' else ''invalid_request_error'')"

definition error_json :: "string \<Rightarrow> string \<Rightarrow> string \<Rightarrow> json" where
  "error_json message ty code =
     JObj [(''error'', JObj [(''code'', JStr code), (''message'', JStr message), (''type'', JStr ty)])]"

definition format_upstream_error_for_client :: "error_env \<Rightarrow> string \<Rightarrow> nat \<Rightarrow> string" where
  "format_upstream_error_for_client E body status =
     (let wrap = (\<lambda>msg. ee_ser E (error_json msg (status_type status) (status_code status)));
          previewed = (let p = upstream_error_preview E body in if p = [] then body else wrap p)
      in case ee_parse E body of
           None \<Rightarrow> previewed
         | Some v \<Rightarrow>
             if json_get v ''error'' \<noteq> None then body
             else (case or_else (json_get_str v ''detail'') (json_get_str v ''message'') of
                     Some msg \<Rightarrow> wrap msg
                   | None \<Rightarrow> previewed))"

definition parsed_error :: "error_env \<Rightarrow> string \<Rightarrow> json" where
  "parsed_error E body = (case ee_parse E body of Some v \<Rightarrow> v | None \<Rightarrow> JObj [])"

definition error_message :: "json \<Rightarrow> string" where
  "error_message v = (case error_field v ''message'' of Some m \<Rightarrow> m | None \<Rightarrow> ''Upstream request failed'')"

definition error_code :: "json \<Rightarrow> string" where
  "error_code v = (case error_field v ''code'' of Some c \<Rightarrow> c | None \<Rightarrow> ''upstream_error'')"

section \<open>Errors in a stream\<close>

definition error_chunk :: "string \<Rightarrow> int \<Rightarrow> string \<Rightarrow> (string \<times> json) list \<Rightarrow> json \<Rightarrow> json" where
  "error_chunk fresh created model delta finish_reason =
     JObj [(''choices'', JArr [JObj [(''delta'', JObj delta), (''finish_reason'', finish_reason), (''index'', JInt 0)]]),
           (''created'', JInt created), (''id'', JStr fresh), (''model'', JStr model),
           (''object'', JStr ''chat.completion.chunk'')]"

definition format_openai_error_sse_for_client :: "error_env \<Rightarrow> wire_fresh \<Rightarrow> string \<Rightarrow> string \<Rightarrow> string" where
  "format_openai_error_sse_for_client E fr body model =
     (let v = parsed_error E body;
          display = ''[CrabCache] '' @ error_message v @ '' (code: '' @ error_code v @ '')'';
          chunk = error_chunk (''chatcmpl-err-'' @ take 8 (wf_uuid fr)) (wf_secs fr) model
      in ''data: '' @ ee_ser E (chunk [(''content'', JStr display), (''role'', JStr ''assistant'')] JNull) @ nl @ nl @
         ''data: '' @ ee_ser E (chunk [] (JStr ''stop'')) @ nl @ nl @ ''data: [DONE]'' @ nl @ nl)"

definition format_responses_error_sse_for_client :: "error_env \<Rightarrow> string \<Rightarrow> string" where
  "format_responses_error_sse_for_client E body =
     ''event: error'' @ nl @ ''data: '' @ trim (ee_lossy E body) @ nl @ nl"

definition response_created :: "wire_fresh \<Rightarrow> string \<Rightarrow> json" where
  "response_created fr model =
     JObj [(''response'', JObj [(''background'', JBool False), (''created_at'', JInt (wf_secs fr)), (''error'', JNull),
              (''id'', JStr (''resp_'' @ wf_uuid fr)), (''model'', JStr model), (''object'', JStr ''response''),
              (''output'', JArr []), (''status'', JStr ''in_progress'')]),
           (''type'', JStr ''response.created'')]"

definition response_failed :: "wire_fresh \<Rightarrow> string \<Rightarrow> string \<Rightarrow> string \<Rightarrow> json" where
  "response_failed fr model message code =
     JObj [(''response'', JObj [(''created_at'', JInt (wf_secs fr)),
              (''error'', JObj [(''code'', JStr code), (''message'', JStr message)]),
              (''id'', JStr (''resp_'' @ wf_uuid fr)), (''model'', JStr model), (''object'', JStr ''response''),
              (''output'', JArr []), (''status'', JStr ''failed'')]),
           (''type'', JStr ''response.completed'')]"

definition format_upstream_error_responses_stream :: "error_env \<Rightarrow> wire_fresh \<Rightarrow> string \<Rightarrow> nat \<Rightarrow> string \<Rightarrow> string" where
  "format_upstream_error_responses_stream E fr body status model =
     (let v = parsed_error E (format_upstream_error_for_client E body status)
      in print_frames (ee_ser E) [RsEvent (response_created fr model),
           RsEvent (response_failed fr model (error_message v) (error_code v)), RsDone])"

definition format_client_error_sse :: "error_env \<Rightarrow> wire_fresh \<Rightarrow> string \<Rightarrow> string \<Rightarrow> client_wire_api \<Rightarrow> string" where
  "format_client_error_sse E fr body model wire =
     (case wire of
        Responses \<Rightarrow> format_responses_error_sse_for_client E body
      | ChatCompletions \<Rightarrow> format_openai_error_sse_for_client E fr body model)"

definition format_upstream_error_sse_for_client :: "error_env \<Rightarrow> wire_fresh \<Rightarrow> string \<Rightarrow> nat \<Rightarrow> string \<Rightarrow> string" where
  "format_upstream_error_sse_for_client E fr body status model =
     format_openai_error_sse_for_client E fr (format_upstream_error_for_client E body status) model"

definition upstream_error_body_for_client ::
    "error_env \<Rightarrow> wire_fresh \<Rightarrow> request_pipeline option \<Rightarrow> client_wire_api \<Rightarrow> string \<Rightarrow> string \<Rightarrow> nat \<Rightarrow> string" where
  \<comment> \<open>of \<open>response_body.rs\<close>: the accumulated body of an error for a streaming client\<close>
  "upstream_error_body_for_client E fr pipeline wire model body status =
     (if pipeline \<in> {Some CodexDeepSeek, Some CodexMimo} then format_upstream_error_responses_stream E fr body status model
      else if wire = Responses then format_upstream_error_for_client E body status
      else format_upstream_error_sse_for_client E fr body status model)"

section \<open>Refusals of the gateway\<close>

definition pool_exhausted_details :: "pool_acquire_failure \<Rightarrow> string \<times> string \<times> nat" where
  "pool_exhausted_details failure =
     (case failure of
        PoolEmpty \<Rightarrow> (''upstream_key_exhausted'',
          ''No upstream API keys configured. Add keys via the Management API (PUT /v1/upstream/keys) or CRABCACHE_UPSTREAM_KEYS.'', 60)
      | AllDisabled \<Rightarrow> (''upstream_keys_disabled'',
          ''All upstream API keys are disabled. Re-enable keys via the Management API (PATCH /v1/upstream/keys/{id}).'', 60)
      | AllInCooldown min_retry_secs \<Rightarrow> (''upstream_keys_in_cooldown'',
          ''All upstream API keys are rate-limited and in cooldown. Retry after the cooldown expires.'', max min_retry_secs 1)
      | AllInflightFull \<Rightarrow> (''upstream_keys_busy'',
          ''All upstream API keys are at maximum concurrent requests. Retry after in-flight requests complete.'', 5)
      | NoModelSupport \<Rightarrow> (''upstream_no_model_support'',
          ''No upstream API key supports the requested model. Check key supported_models configuration.'', 60)
      | AllAccountsExcluded \<Rightarrow> (''upstream_accounts_excluded'',
          ''All upstream API keys belong to excluded accounts. Check key account_id configuration.'', 10)
      | Unavailable \<Rightarrow> (''upstream_key_exhausted'',
          ''No upstream API keys available. Keys may be disabled, in cooldown, or missing. Check the Management API (GET /v1/upstream/keys).'', 60))"

definition upstream_pool_exhausted_error_details :: "error_env \<Rightarrow> pool_acquire_failure \<Rightarrow> string \<times> string \<times> nat" where
  "upstream_pool_exhausted_error_details E failure =
     (case pool_exhausted_details failure of
        (code, message, retry_after) \<Rightarrow>
          (ee_ser E (error_json message ''upstream_key_exhausted'' code), code, retry_after))"

definition upstream_pool_exhausted_error_json :: "error_env \<Rightarrow> string" where
  "upstream_pool_exhausted_error_json E = fst (upstream_pool_exhausted_error_details E Unavailable)"

definition client_concurrency_exceeded_error_json :: "error_env \<Rightarrow> string" where
  "client_concurrency_exceeded_error_json E = ee_ser E (error_json
     ''Too many concurrent requests for this API key. Retry when in-flight requests complete or raise max_concurrent via the Management API.''
     ''rate_limit_error'' ''client_concurrency_exceeded'')"

definition deepseek_user_concurrency_exceeded_error_json :: "error_env \<Rightarrow> string" where
  "deepseek_user_concurrency_exceeded_error_json E = ee_ser E (error_json
     ''Too many concurrent DeepSeek requests for this project_id (user_id). Retry when in-flight requests complete or raise limits in [upstream.deepseek_user_concurrency].''
     ''rate_limit_error'' ''deepseek_user_concurrency_exceeded'')"

definition coalesce_leader_failed_error_json :: "error_env \<Rightarrow> string" where
  "coalesce_leader_failed_error_json E = ee_ser E (error_json
     ''Upstream request failed while coalesced peers were waiting; no duplicate upstream call was made.''
     ''upstream_error'' ''coalesce_leader_failed'')"

definition missing_reasoning_error_json :: "error_env \<Rightarrow> nat \<Rightarrow> string" where
  "missing_reasoning_error_json E missing_count = ee_ser E (JObj [(''error'', JObj
     [(''code'', JStr ''missing_reasoning_content''),
      (''message'', JStr (''CrabCache cannot satisfy DeepSeek thinking-mode requirements: reasoning_content is still missing for '' @
         show_nat missing_count @
         '' assistant message(s) after ReasoningStore fill and history recover. Clear the reasoning cache (DELETE /v1/reasoning/cache), '' @
         ''retry once so the gateway can store reasoning from a successful response, or temporarily set missing_reasoning_strategy to '' @
         [CHR 0x22] @ ''recover'' @ [CHR 0x22] @ ''. Ensure [reasoning].backend = '' @ [CHR 0x22] @ ''redis'' @ [CHR 0x22] @
         '' for multi-instance/sub-agent retries.'')),
      (''missing_reasoning_messages'', JInt (int missing_count)), (''type'', JStr ''missing_reasoning_content'')])])"

section \<open>What a client is told\<close>

definition printer_reads_back :: "error_env \<Rightarrow> bool" where
  "printer_reads_back E \<longleftrightarrow> (\<forall>v. ee_parse E (ee_ser E v) = Some v)"

lemma wrapped_error:
  assumes "printer_reads_back E"
  shows "ee_parse E (ee_ser E (error_json m ty c)) = Some (error_json m ty c)"
  using assms by (simp add: printer_reads_back_def)

lemma error_json_fields [simp]:
  "error_field (error_json m ty c) ''message'' = Some m" "error_field (error_json m ty c) ''code'' = Some c"
  "json_get (error_json m ty c) ''error'' \<noteq> None"
  by (simp_all add: error_field_def error_json_def json_get_str_def)

text \<open>
  A client is always told of an error in the shape of OpenAI's: whatever text an upstream sent with its
  error, what the gateway passes on is an object with an error field, unless the upstream sent nothing.
\<close>

theorem upstream_error_is_openai:
  assumes "printer_reads_back E" and "body \<noteq> []" and "ee_lossy E body = body"
  shows "\<exists>v. ee_parse E (format_upstream_error_for_client E body status) = Some v \<and> json_get v ''error'' \<noteq> None"
proof -
  have "format_upstream_error_for_client E body status = body \<and> (\<exists>v. ee_parse E body = Some v \<and> json_get v ''error'' \<noteq> None) \<or>
    (\<exists>m. format_upstream_error_for_client E body status = ee_ser E (error_json m (status_type status) (status_code status)))"
    using assms(2,3)
    by (auto simp: format_upstream_error_for_client_def upstream_error_preview_def error_field_def or_else_def Let_def
        split: option.split)
  then show ?thesis using wrapped_error [OF assms(1)] error_json_fields(3) by metis
qed

text \<open>
  A Codex client over a chat upstream always sees its response end: the body it is sent for an upstream
  error contains the completion of a response, whatever the upstream answered.
\<close>

theorem failed_stream_completes:
  assumes "printer_ok env" and "ee_ser E = we_ser env" and "pipeline \<in> {Some CodexDeepSeek, Some CodexMimo}"
  shows "contains_completed env (upstream_error_body_for_client E fr pipeline wire model body status)"
proof -
  have "contains_completed env (print_frames (we_ser env) [RsEvent (response_created fr model),
      RsEvent (response_failed fr model m c), RsDone])" for m c
    by (rule completion_seen [OF assms(1)])
      (simp_all add: response_created_def response_failed_def json_get_str_def completions_def plain_types_def special_def)
  then show ?thesis using assms(2,3)
    by (auto simp: upstream_error_body_for_client_def format_upstream_error_responses_stream_def Let_def)
qed

text \<open>
  The relayed Codex client does not: its error is sent as bare JSON in a stream of events, where a line
  that is no data line means nothing, so the client sees a stream without a single event.
\<close>

lemma no_event_in_object:
  assumes "x = CHR ''{'' # xs" and "printable x"
  shows "parse_sse_chunk utf8 x = []"
proof -
  have "takeWhile (\<lambda>c. \<not> is_nl c) x = x" "dropWhile (\<lambda>c. \<not> is_nl c) x = []"
    using assms(2) by (auto simp: printable_def list_all_iff takeWhile_eq_all_conv dropWhile_eq_Nil_conv)
  then have "chunk_lines x = [x]" using assms(1) chunk_lines.simps [of x] chunk_lines.simps [of "[]"] by simp
  moreover have "trim x = x" using assms(2) by (simp add: printable_def)
  ultimately show ?thesis
    using assms(1) by (simp add: parse_sse_chunk_def parse_line_def strip_prefix_def)
qed

theorem relayed_error_is_no_event:
  assumes "\<And>m ty c. printable (ee_ser E (error_json m ty c)) \<and> (\<exists>xs. ee_ser E (error_json m ty c) = CHR ''{'' # xs)"
    and "ee_parse E body = None" and "body \<noteq> []" and "ee_lossy E body = body"
  shows "parse_sse_chunk utf8 (upstream_error_body_for_client E fr (Some CodexRelay) Responses model body status) = []"
proof -
  have "\<exists>m. upstream_error_body_for_client E fr (Some CodexRelay) Responses model body status =
      ee_ser E (error_json m (status_type status) (status_code status))"
    using assms(2-4) by (simp add: upstream_error_body_for_client_def format_upstream_error_for_client_def
        upstream_error_preview_def Let_def) blast
  then show ?thesis using assms(1) no_event_in_object by metis
qed

section \<open>Witnesses\<close>

instance json :: countable
  by countable_datatype

definition counting_env :: error_env where
  \<comment> \<open>some printer whose every value is read back\<close>
  "counting_env = \<lparr>ee_parse = (\<lambda>s. Some (from_nat (length s))), ee_ser = (\<lambda>v. replicate (to_nat v) (CHR ''x'')), ee_lossy = id\<rparr>"

theorem upstream_error_is_openai_witness:
  "\<exists>v. ee_parse counting_env (format_upstream_error_for_client counting_env ''busy'' 503) = Some v \<and> json_get v ''error'' \<noteq> None"
  by (rule upstream_error_is_openai) (simp_all add: printer_reads_back_def counting_env_def)

definition bracket_env :: error_env where
  "bracket_env = \<lparr>ee_parse = we_parse sample_env, ee_ser = we_ser sample_env, ee_lossy = id\<rparr>"

theorem failed_stream_completes_witness:
  "contains_completed sample_env (upstream_error_body_for_client bracket_env \<lparr>wf_uuid = ''u'', wf_secs = 0, wf_now = 0\<rparr>
     (Some CodexMimo) Responses ''m'' ''busy'' 503)"
  by (rule failed_stream_completes)
    (simp_all add: printer_ok_def sample_env_def bracket_env_def printable_def is_nl_def trim_def is_space_def json_get_str_def)

theorem relayed_error_is_no_event_witness:
  "parse_sse_chunk (\<lambda>_. True) (upstream_error_body_for_client \<lparr>ee_parse = (\<lambda>_. None), ee_ser = (\<lambda>_. ''{}''), ee_lossy = id\<rparr>
     \<lparr>wf_uuid = ''u'', wf_secs = 0, wf_now = 0\<rparr> (Some CodexRelay) Responses ''m'' ''busy'' 503) = []"
  by (rule relayed_error_is_no_event) (simp_all add: printable_def is_nl_def trim_def is_space_def)

end
