(* ===== verification/ResponseBody.thy ===== *)
theory ResponseBody
  imports ErrorBodies UpstreamRetry CacheResponse BackendState
begin

text \<open>
  The body of an upstream's response (\<^verbatim>\<open>src/crates/crab-proxy/src/phases/response_body.rs\<close> with
  \<^verbatim>\<open>upstream_response_decompress.rs\<close>): decompression, the bounded buffer, the stream pipelines and
  the Responses translation chunk by chunk, and what happens at the end of the body. One call is
  \<open>body_filter\<close>; it takes the chunk, if there is one, and gives what the client is sent in its place.
  Writes to the caches are spawned tasks, so the model collects them. Metrics, log lines, time stamps and
  the copies kept for traces are left out; codecs, ids and latencies are arguments.
\<close>

section \<open>Decompression\<close>

datatype content_encoding = Identity | Gzip | Deflate | Br

type_synonym decoder = "content_encoding \<Rightarrow> string \<Rightarrow> string option"

record decompress_state =
  ds_encoding :: "content_encoding option"
  ds_compressed :: string
  ds_plaintext_pending :: string
  ds_finished :: bool

definition ds_default :: decompress_state where
  "ds_default = \<lparr>ds_encoding = None, ds_compressed = [], ds_plaintext_pending = [], ds_finished = False\<rparr>"

definition token_encoding :: "string \<Rightarrow> content_encoding option" where
  "token_encoding part =
     (let token = to_lowercase (trim part) in
      if str_contains token ''gzip'' then Some Gzip
      else if token = ''deflate'' \<or> str_contains token ''deflate'' then Some Deflate
      else if token = ''br'' \<or> str_contains token ''br'' then Some Br
      else if token = ''identity'' then Some Identity else None)"

definition parse_content_encoding :: "string \<Rightarrow> content_encoding" where
  \<comment> \<open>the first codec of the list that is known\<close>
  "parse_content_encoding value =
     (case List.map_filter token_encoding (split_on (CHR '','') value) of [] \<Rightarrow> Identity | e # _ \<Rightarrow> e)"

definition looks_gzip_magic :: "string \<Rightarrow> bool" where
  "looks_gzip_magic data \<longleftrightarrow> take 2 data = [CHR 0x1F, CHR 0x8B]"

definition ds_finish :: "decoder \<Rightarrow> decompress_state \<Rightarrow> string \<times> decompress_state" where
  \<comment> \<open>bytes that cannot be decoded are passed through\<close>
  "ds_finish decode st =
     (if ds_finished st then (ds_plaintext_pending st, st\<lparr>ds_plaintext_pending := []\<rparr>)
      else let st' = st\<lparr>ds_finished := True, ds_compressed := []\<rparr> in
           (case ds_encoding st of
              None \<Rightarrow> ds_compressed st
            | Some enc \<Rightarrow>
                if enc = Identity \<or> ds_compressed st = [] then ds_compressed st
                else (case decode enc (ds_compressed st) of Some v \<Rightarrow> v | None \<Rightarrow> ds_compressed st), st'))"

definition decompress_upstream_chunk :: "decoder \<Rightarrow> decompress_state \<Rightarrow> string \<Rightarrow> bool \<Rightarrow> string \<times> decompress_state" where
  "decompress_upstream_chunk decode st chunk end_of_stream =
     (let identity = (ds_encoding st \<in> {None, Some Identity}) in
      if identity \<and> \<not> looks_gzip_magic chunk then (chunk, st)
      else let st = (if identity then st\<lparr>ds_encoding := Some Gzip\<rparr> else st);
               st = st\<lparr>ds_compressed := ds_compressed st @ chunk\<rparr>
           in if \<not> end_of_stream then ([], st) else ds_finish decode st)"

section \<open>State\<close>

record token_counts =
  tk_total :: nat
  tk_last_input :: nat
  tk_last_output :: nat
  tk_last_hit :: nat
  tk_last_miss :: nat
  tk_pure_miss_streak :: nat
  tk_affinity_hits :: nat
  tk_affinity_misses :: nat

record 'b body_ctx =
  bx_request :: retry_ctx \<comment> \<open>what earlier phases left; this one only reads it\<close>
  bx_wire_api :: client_wire_api
  bx_decompress :: decompress_state
  bx_accumulated_body :: string
  bx_truncated :: bool
  bx_pipeline :: "('b, codex_translator) stream_pipeline option"
  bx_capture :: stream_capture \<comment> \<open>\<open>client_sse_body\<close>\<close>
  bx_translator :: "responses_translator option"
  bx_bootstrap :: "string option"
  bx_bootstrap_sent :: bool
  bx_exec_only_surface :: bool
  bx_force_downstream_eos :: bool
  bx_prepared_request :: "prepared_request option"
  bx_accumulator :: "stream_accumulator option"
  bx_display_adapter :: "display_adapter option"
  bx_pending_recovery_notice :: "string option"
  bx_retired_prefix_messages :: "nat option"
  bx_reasoning_finalized :: bool
  bx_sse_rate_limited :: bool
  bx_tokens :: token_counts
  bx_original_request_body :: "string option"
  bx_cache_key :: "string option"
  bx_consumer :: "string option"
  bx_project_id :: "string option"
  bx_display_reasoning :: bool
  bx_collapsible_reasoning :: bool

abbreviation bx_is_streaming :: "'b body_ctx \<Rightarrow> bool" where
  "bx_is_streaming ctx \<equiv> retry_ctx.rc_is_streaming (bx_request ctx)"

abbreviation bx_model :: "'b body_ctx \<Rightarrow> string" where
  "bx_model ctx \<equiv> retry_ctx.rc_model (bx_request ctx)"

abbreviation bx_status :: "'b body_ctx \<Rightarrow> nat option" where
  "bx_status ctx \<equiv> retry_ctx.rc_http_status (bx_request ctx)"

abbreviation bx_request_pipeline :: "'b body_ctx \<Rightarrow> request_pipeline option" where
  "bx_request_pipeline ctx \<equiv> rc_request_pipeline (bx_request ctx)"

definition upstream_error :: "'b body_ctx \<Rightarrow> bool" where
  "upstream_error ctx \<longleftrightarrow> (case bx_status ctx of Some s \<Rightarrow> 400 \<le> s | None \<Rightarrow> False)"

definition bx_needs_translate :: "'b body_ctx \<Rightarrow> bool" where
  "bx_needs_translate ctx = needs_responses_wire_translate (bx_request_pipeline ctx) (bx_wire_api ctx)"

record cache_write =
  cw_key :: string
  cw_entry :: cache_entry
  cw_model :: string
  cw_consumer :: "string option"

record semantic_write =
  sw_query :: string
  sw_entry :: cache_entry
  sw_project :: "string option"

record 'b body_world =
  bw_gateway :: retry_gateway
  bw_backend_load :: backend_load_registry
  bw_reasoning_store :: 'b
  bw_chain :: chain_state
  bw_cache_writes :: "cache_write list" \<comment> \<open>spawned \<open>tiered_cache.put\<close>s\<close>
  bw_semantic_writes :: "semantic_write list"

record body_config =
  bc_max_sse_cache_bytes :: nat
  bc_stream_cache_enabled :: bool
  bc_semantic_cache :: bool
  bc_ttl_config :: ttl_config
  bc_affinity_prompt_cache_feedback :: bool
  bc_max_inflight_per_backend :: nat
  bc_prefill_overload_threshold_ms :: nat
  bc_overload_cooldown_ms :: nat

record 'b body_env =
  bv_parsers :: sse_parsers
  bv_lossy :: "string \<Rightarrow> string"
  bv_decode :: decoder
  bv_file :: "string \<Rightarrow> 'b filing"

record body_call =
  bn_end_of_stream :: bool
  bn_fresh :: wire_fresh
  bn_completion_id :: string
  bn_clock :: clock
  bn_latency :: "(f64 \<times> f64) option" \<comment> \<open>prefill and upstream milliseconds, once the headers have arrived\<close>

definition wire_env_of :: "sse_parsers \<Rightarrow> wire_env" where
  "wire_env_of ps = \<lparr>we_parse = sp_parse ps, we_ser = sp_ser ps, we_utf8 = sp_utf8 ps\<rparr>"

definition error_env_of :: "'b body_env \<Rightarrow> error_env" where
  "error_env_of E = \<lparr>ee_parse = sp_parse (bv_parsers E), ee_ser = sp_ser (bv_parsers E), ee_lossy = bv_lossy E\<rparr>"

definition wire_view :: "'b body_ctx \<Rightarrow> responses_ctx" where
  \<comment> \<open>the part of the context the Responses protocol works on\<close>
  "wire_view ctx = responses_ctx.make (bx_is_streaming ctx) (bx_request_pipeline ctx) (bx_wire_api ctx) (bx_model ctx)
     (bx_status ctx) (bx_translator ctx) (bx_bootstrap ctx) (bx_bootstrap_sent ctx) False (sc_buffer (bx_capture ctx))
     (bx_exec_only_surface ctx)"

definition with_wire :: "'b body_ctx \<Rightarrow> responses_ctx \<Rightarrow> 'b body_ctx" where
  \<comment> \<open>what was appended to the client's body goes through the capture\<close>
  "with_wire ctx r =
     ctx\<lparr>bx_translator := rc_translator r, bx_bootstrap := rc_bootstrap r, bx_bootstrap_sent := rc_bootstrap_sent r,
         bx_capture := (let sent = drop (length (sc_buffer (bx_capture ctx))) (rc_client_body r)
                        in if sent = [] then bx_capture ctx else sc_extend (bx_capture ctx) sent)\<rparr>"

definition capture_bytes :: "string \<Rightarrow> 'b body_ctx \<Rightarrow> 'b body_ctx" where
  "capture_bytes bytes ctx = ctx\<lparr>bx_capture := sc_extend (bx_capture ctx) bytes\<rparr>"

section \<open>Usage, latency and rate limits\<close>

definition apply_usage_to_ctx :: "body_config \<Rightarrow> usage_data \<Rightarrow> 'b body_ctx \<Rightarrow> 'b body_ctx" where
  "apply_usage_to_ctx cfg u ctx =
     (let hit = usage_data.prompt_cache_hit_tokens u; miss = usage_data.prompt_cache_miss_tokens u;
          t = (bx_tokens ctx)
            \<lparr>tk_total := wrap_add 64 (tk_total (bx_tokens ctx))
               (wrap_add 64 (usage_data.prompt_tokens u) (usage_data.completion_tokens u)),
             tk_last_input := usage_data.prompt_tokens u, tk_last_output := usage_data.completion_tokens u,
             tk_last_hit := hit, tk_last_miss := miss\<rparr>;
          t = (if \<not> bc_affinity_prompt_cache_feedback cfg then t
               else t\<lparr>tk_pure_miss_streak := (if 0 < hit then 0 else if 0 < miss then sat_add 32 (tk_pure_miss_streak t) 1
                                              else tk_pure_miss_streak t),
                      tk_affinity_hits := sat_add 64 (tk_affinity_hits t) hit,
                      tk_affinity_misses := sat_add 64 (tk_affinity_misses t) miss\<rparr>)
      in ctx\<lparr>bx_tokens := t\<rparr>)"

definition apply_usage :: "body_config \<Rightarrow> usage_data option \<Rightarrow> 'b body_ctx \<Rightarrow> 'b body_ctx" where
  "apply_usage cfg u ctx = (case u of Some u \<Rightarrow> apply_usage_to_ctx cfg u ctx | None \<Rightarrow> ctx)"

definition scan_eos_usage_fallback :: "sse_parsers \<Rightarrow> body_config \<Rightarrow> 'b body_ctx \<Rightarrow> 'b body_ctx" where
  "scan_eos_usage_fallback ps cfg ctx =
     (if 0 < tk_last_input (bx_tokens ctx) \<or> 0 < tk_last_output (bx_tokens ctx) then ctx
      else apply_usage cfg
             (or_else (extract_usage_from_bytes (sp_parse ps) (sp_utf8 ps) (sc_buffer (bx_capture ctx)))
               (or_else (if bx_request_pipeline ctx = Some CodexRelay
                         then extract_codex_usage_from_bytes (sp_parse ps) (sp_utf8 ps) (bx_accumulated_body ctx) else None)
                  (extract_usage_from_bytes (sp_parse ps) (sp_utf8 ps) (bx_accumulated_body ctx)))) ctx)"

definition profile_or_default :: "'b body_ctx \<Rightarrow> string" where
  "profile_or_default ctx = (case rc_upstream_profile_id (bx_request ctx) of Some i \<Rightarrow> i | None \<Rightarrow> ''default'')"

definition record_backend_latency ::
    "body_config \<Rightarrow> body_call \<Rightarrow> 'b body_ctx \<Rightarrow> 'b body_world \<Rightarrow> 'b body_world" where
  "record_backend_latency cfg call ctx w =
     (case (bn_latency call, rc_backend_name (bx_request ctx)) of
        (Some (prefill, upstream), Some backend) \<Rightarrow>
          w\<lparr>bw_backend_load := fst (bl_observe_latency (bw_backend_load w) (profile_or_default ctx) backend
              (max (bc_max_inflight_per_backend cfg) 1) (Some prefill) (Some upstream) (bx_status ctx)
              (bc_prefill_overload_threshold_ms cfg) (bc_overload_cooldown_ms cfg) (ck_ms (bn_clock call)))\<rparr>
      | _ \<Rightarrow> w)"

definition complete_coalescing :: "'b body_ctx \<Rightarrow> 'b body_world \<Rightarrow> 'b body_world" where
  "complete_coalescing ctx w =
     (case rc_coalesce_guard (bx_request ctx) of
        Some cg \<Rightarrow> w\<lparr>bw_gateway := (bw_gateway w)\<lparr>rg_coalescer := cg_mark_completed (rg_coalescer (bw_gateway w)) cg\<rparr>\<rparr>
      | None \<Rightarrow> w)"

definition cool_limited_stream_key ::
    "sse_parsers \<Rightarrow> (string \<Rightarrow> string) \<Rightarrow> body_call \<Rightarrow> string \<Rightarrow> 'b body_ctx \<Rightarrow> 'b body_world \<Rightarrow> 'b body_ctx \<times> 'b body_world" where
  \<comment> \<open>a rate limit reported inside the stream; the key is cooled down once\<close>
  "cool_limited_stream_key ps lossy call data ctx w =
     (if bx_sse_rate_limited ctx \<or> \<not> list_ex (ev_is_rate_limit_error (sp_parse ps)) (parse_sse_chunk (sp_utf8 ps) data)
      then (ctx, w)
      else (ctx\<lparr>bx_sse_rate_limited := True\<rparr>,
        case (held_slot (bw_gateway w) (bx_request ctx), active_upstream_profile (bw_gateway w) (bx_request ctx)) of
          (Some slot, Some (i, p)) \<Rightarrow>
            w\<lparr>bw_gateway := update_pool (bw_gateway w) i (\<lambda>pool. up_report_rate_limited_for pool (uk_id slot)
                (resolve_codex_cooldown_secs (sp_parse ps) (lossy data) (up_cooldown_secs pool)
                   (1000000 * int (ck_ms (bn_clock call))))
                (rotation_scope (bx_request ctx)) (ck_ms (bn_clock call)))\<rparr>
        | _ \<Rightarrow> w))"

section \<open>The buffer\<close>

definition NON_STREAMING_TAIL :: nat where "NON_STREAMING_TAIL = 256"

definition STREAMING_TAIL_CAP :: nat where "STREAMING_TAIL_CAP = 64 * 1024"

definition accumulate_plain :: "body_config \<Rightarrow> string \<Rightarrow> 'b body_ctx \<Rightarrow> 'b body_ctx" where
  "accumulate_plain cfg data ctx =
     (if bx_truncated ctx then ctx
      else let acc = bx_accumulated_body ctx @ data; mx = bc_max_sse_cache_bytes cfg in
           if \<not> upstream_error ctx \<and> 0 < mx \<and> mx < length acc
           then ctx\<lparr>bx_truncated := True, bx_accumulated_body := last_bytes NON_STREAMING_TAIL acc\<rparr>
           else ctx\<lparr>bx_accumulated_body := acc\<rparr>)"

definition accumulate_error :: "body_config \<Rightarrow> string \<Rightarrow> 'b body_ctx \<Rightarrow> 'b body_ctx" where
  "accumulate_error cfg data ctx =
     (let acc = bx_accumulated_body ctx @ data; mx = bc_max_sse_cache_bytes cfg;
          truncated = (bx_truncated ctx \<or> 0 < mx \<and> mx < length acc)
      in ctx\<lparr>bx_truncated := truncated,
             bx_accumulated_body := (if truncated then last_bytes STREAMING_TAIL_CAP acc else acc)\<rparr>)"

definition accumulate_stream :: "body_config \<Rightarrow> string \<Rightarrow> 'b body_ctx \<Rightarrow> 'b body_ctx" where
  "accumulate_stream cfg data ctx =
     (let acc = bx_accumulated_body ctx @ data; mx = bc_max_sse_cache_bytes cfg in
      if 0 < mx \<and> mx < length acc
      then ctx\<lparr>bx_truncated := True, bx_accumulated_body := last_bytes STREAMING_TAIL_CAP acc\<rparr>
      else ctx\<lparr>bx_accumulated_body := acc\<rparr>)"

section \<open>A chunk of a stream\<close>

definition stream_view :: "sse_parsers \<Rightarrow> 'b body_ctx \<Rightarrow> codex_translator stream_context" where
  "stream_view ps ctx =
     \<lparr>sx_is_streaming = bx_is_streaming ctx, sx_prepared_request = bx_prepared_request ctx,
      sx_accumulator = bx_accumulator ctx, sx_display_adapter = bx_display_adapter ctx,
      sx_pending_recovery_notice = bx_pending_recovery_notice ctx,
      sx_retired_prefix_messages = bx_retired_prefix_messages ctx, sx_request_pipeline = bx_request_pipeline ctx,
      sx_client_wire_api = bx_wire_api ctx, sx_display_reasoning = bx_display_reasoning ctx,
      sx_translator = ct_new (sp_parse ps) (bx_model ctx) (bx_original_request_body ctx)\<rparr>"

definition select_pipeline :: "'b body_env \<Rightarrow> body_call \<Rightarrow> 'b body_world \<Rightarrow> 'b body_ctx \<Rightarrow> 'b body_ctx" where
  "select_pipeline E call w ctx =
     (if bx_pipeline ctx \<noteq> None then ctx
      else case select_sse_pipeline (bv_parsers E) (ck_ms (bn_clock call) div 1000) (bv_file E) (stream_view (bv_parsers E) ctx)
             (bw_reasoning_store w) of
             (v, p) \<Rightarrow>
               ctx\<lparr>bx_pipeline := p, bx_prepared_request := sx_prepared_request v, bx_accumulator := sx_accumulator v,
                   bx_display_adapter := sx_display_adapter v,
                   bx_pending_recovery_notice := sx_pending_recovery_notice v,
                   bx_retired_prefix_messages := sx_retired_prefix_messages v\<rparr>)"

fun attach_store :: "'b \<Rightarrow> ('b, 't) stream_pipeline \<Rightarrow> ('b, 't) stream_pipeline" where
  \<comment> \<open>a pipeline shares the reasoning store with the rest of the gateway\<close>
  "attach_store b (ReasoningRewrite p) = ReasoningRewrite (p\<lparr>rp_state := (rp_state p)\<lparr>ss_store := Some b\<rparr>\<rparr>)"
| "attach_store b (Compressed inner c) = Compressed (attach_store b inner) c"
| "attach_store b p = p"

fun attached_store :: "'b \<Rightarrow> ('b, 't) stream_pipeline \<Rightarrow> 'b" where
  "attached_store b (ReasoningRewrite p) = (case ss_store (rp_state p) of Some b' \<Rightarrow> b' | None \<Rightarrow> b)"
| "attached_store b (Compressed inner c) = attached_store b inner"
| "attached_store b p = b"

definition translate_for_responses ::
    "sse_parsers \<Rightarrow> body_call \<Rightarrow> 'b body_ctx \<Rightarrow> string option \<Rightarrow> 'b body_ctx \<times> string option" where
  "translate_for_responses ps call ctx bytes =
     (if \<not> bx_needs_translate ctx then (ctx, bytes)
      else case translate_client_bytes_for_responses_wire (wire_env_of ps) (bn_fresh call) (bx_translator ctx) (bx_model ctx) bytes of
        (tr, bytes) \<Rightarrow>
          (case prepend_responses_wire_bootstrap (wire_view (ctx\<lparr>bx_translator := tr\<rparr>)) bytes of
             (r, bytes) \<Rightarrow>
               (let ctx = with_wire ctx r;
                    ctx = (case bytes of Some b \<Rightarrow> capture_bytes b ctx | None \<Rightarrow> ctx);
                    done = (case bx_translator ctx of Some t \<Rightarrow> rt_done_marker_sent t | None \<Rightarrow> False)
                in (ctx\<lparr>bx_force_downstream_eos := bx_force_downstream_eos ctx \<or> done\<rparr>, bytes))))"

definition stream_chunk ::
    "'b body_env \<Rightarrow> body_config \<Rightarrow> body_call \<Rightarrow> string \<Rightarrow> 'b body_ctx \<Rightarrow> 'b body_world \<Rightarrow>
     string option \<times> 'b body_ctx \<times> 'b body_world" where
  "stream_chunk E cfg call data ctx w =
     (let ps = bv_parsers E; ctx = select_pipeline E call w ctx;
          ctx = ctx\<lparr>bx_capture := sc_reconfigure (bx_capture ctx) (bc_max_sse_cache_bytes cfg)\<rparr>;
          (ctx, w) = cool_limited_stream_key ps (bv_lossy E) call data ctx w
      in case bx_pipeline ctx of
           None \<Rightarrow> (Some data, ctx, w)
         | Some p \<Rightarrow>
             (let ctx = accumulate_stream cfg data ctx in
              case process_chunk ps (translate_chunk (sp_parse ps) (sp_ser ps)) (attach_store (bw_reasoning_store w) p) data
                     (bx_capture ctx) of
                (p, cap, r) \<Rightarrow>
                  (let w = w\<lparr>bw_reasoning_store := attached_store (bw_reasoning_store w) p\<rparr>;
                       ctx = apply_usage cfg (cr_usage r) (ctx\<lparr>bx_pipeline := Some p, bx_capture := cap\<rparr>) in
                   case translate_for_responses ps call ctx (cr_client_bytes r) of (ctx, bytes) \<Rightarrow> (bytes, ctx, w))))"

section \<open>The end of a plain body\<close>

definition completion_usage :: "json \<Rightarrow> usage_data option" where
  "completion_usage v =
     map_option (\<lambda>usage.
       let prompt = u64_or_zero usage ''prompt_tokens''; completion = u64_or_zero usage ''completion_tokens''
       in usage_data.make (if 0 < prompt then prompt else u64_or_zero usage ''input_tokens'')
            (if 0 < completion then completion else u64_or_zero usage ''output_tokens'')
            (u64_or_zero usage ''prompt_cache_hit_tokens'') (u64_or_zero usage ''prompt_cache_miss_tokens''))
       (json_get v ''usage'')"

definition usage_info_of :: "token_counts \<Rightarrow> usage_info" where
  "usage_info_of t = usage_info.make (tk_last_input t) (tk_last_output t) (tk_last_hit t) (tk_last_miss t)"

definition body_ttl :: "body_config \<Rightarrow> 'b body_ctx \<Rightarrow> nat" where
  "body_ttl cfg ctx = tc_resolve (bc_ttl_config cfg) (bx_model ctx) (bx_consumer ctx)"

definition entry_for :: "body_config \<Rightarrow> body_call \<Rightarrow> 'b body_ctx \<Rightarrow> string \<Rightarrow> cache_entry" where
  "entry_for cfg call ctx body =
     build_cache_entry body (bx_model ctx) (body_ttl cfg ctx) (bx_is_streaming ctx) (bx_display_reasoning ctx)
       (usage_info_of (bx_tokens ctx)) (nat (wf_secs (bn_fresh call)))"

definition write_cache :: "string \<Rightarrow> cache_entry \<Rightarrow> 'b body_ctx \<Rightarrow> 'b body_world \<Rightarrow> 'b body_world" where
  "write_cache key entry ctx w =
     w\<lparr>bw_cache_writes := bw_cache_writes w @
         [\<lparr>cw_key = key, cw_entry = entry, cw_model = bx_model ctx, cw_consumer = bx_consumer ctx\<rparr>]\<rparr>"

definition semantic_query :: "sse_parsers \<Rightarrow> body_config \<Rightarrow> 'b body_ctx \<Rightarrow> string option" where
  "semantic_query ps cfg ctx =
     (if \<not> bc_semantic_cache cfg then None
      else do {
        original \<leftarrow> bx_original_request_body ctx;
        payload \<leftarrow> sp_parse ps original;
        messages \<leftarrow> Option.bind (json_get payload ''messages'') as_array;
        build_semantic_query_text messages
      })"

definition write_semantic :: "sse_parsers \<Rightarrow> body_config \<Rightarrow> cache_entry \<Rightarrow> 'b body_ctx \<Rightarrow> 'b body_world \<Rightarrow> 'b body_world" where
  "write_semantic ps cfg entry ctx w =
     (case semantic_query ps cfg ctx of
        Some q \<Rightarrow> w\<lparr>bw_semantic_writes := bw_semantic_writes w @
                    [\<lparr>sw_query = q, sw_entry = entry, sw_project = bx_project_id ctx\<rparr>]\<rparr>
      | None \<Rightarrow> w)"

definition buffers_whole_body :: "'b body_ctx \<Rightarrow> bool" where
  \<comment> \<open>the client is sent nothing before the end\<close>
  "buffers_whole_body ctx \<longleftrightarrow>
     bx_prepared_request ctx \<noteq> None \<or> bx_request_pipeline ctx = Some CodexRelay \<or> bx_needs_translate ctx"

definition rewritten_body :: "'b body_env \<Rightarrow> 'b body_ctx \<Rightarrow> 'b body_world \<Rightarrow> string \<times> 'b body_world" where
  "rewritten_body E ctx w =
     (let ps = bv_parsers E; acc = bx_accumulated_body ctx in
      case bx_prepared_request ctx of
        Some prepared \<Rightarrow>
          (case rewrite_response_body (sp_parse ps) (sp_ser ps) (sp_replace ps) (bv_file E (pr_cache_namespace prepared)) acc
                  (pr_original_model prepared) (Some (bw_reasoning_store w)) (bx_pending_recovery_notice ctx)
                  (pr_record_response_contexts prepared) (bx_display_reasoning ctx) (bx_collapsible_reasoning ctx) of
             None \<Rightarrow> (acc, w)
           | Some (store, rewritten) \<Rightarrow>
               (rewritten, w\<lparr>bw_reasoning_store := (case store of Some b \<Rightarrow> b | None \<Rightarrow> bw_reasoning_store w)\<rparr>))
      | None \<Rightarrow>
          if bx_request_pipeline ctx = Some CodexRelay \<and> bx_wire_api ctx \<noteq> Responses
          then (snd (finalize_non_stream (sp_parse ps) (sp_ser ps)
                  (ct_new (sp_parse ps) (bx_model ctx) (bx_original_request_body ctx)) acc), w)
          else (acc, w))"

definition responses_form :: "sse_parsers \<Rightarrow> body_call \<Rightarrow> 'b body_ctx \<Rightarrow> string \<Rightarrow> string" where
  "responses_form ps call ctx body =
     (if \<not> bx_needs_translate ctx then body
      else case chat_completions_bytes_to_responses (sp_parse ps) (sp_ser ps) (wf_uuid (bn_fresh call)) (wf_secs (bn_fresh call))
                  body (bx_model ctx) of
             Some b \<Rightarrow> b | None \<Rightarrow> body)"

definition store_plain ::
    "'b body_env \<Rightarrow> body_config \<Rightarrow> body_call \<Rightarrow> string \<Rightarrow> 'b body_ctx \<Rightarrow> 'b body_world \<Rightarrow> 'b body_ctx \<times> 'b body_world" where
  \<comment> \<open>usage and caches, for a body that is JSON\<close>
  "store_plain E cfg call client_body ctx w =
     (let ps = bv_parsers E in
      case sp_parse ps client_body of
        None \<Rightarrow> (ctx, w)
      | Some v \<Rightarrow>
          (let ctx = apply_usage cfg (completion_usage v) ctx in
           case bx_cache_key ctx of
             None \<Rightarrow> (ctx, w)
           | Some key \<Rightarrow>
               (let entry = entry_for cfg call ctx (prepare_response_body_for_cache (sp_parse ps) (sp_ser ps) (sp_replace ps)
                              client_body (bx_display_reasoning ctx))
                in (ctx, write_semantic ps cfg entry ctx (write_cache key entry ctx w)))))"

definition too_large_json :: json where
  "too_large_json = error_json ''upstream response body too large'' ''server_error'' ''upstream_body_too_large''"

definition finish_plain ::
    "'b body_env \<Rightarrow> body_config \<Rightarrow> body_call \<Rightarrow> string option \<Rightarrow> 'b body_ctx \<Rightarrow> 'b body_world \<Rightarrow>
     string option \<times> 'b body_ctx \<times> 'b body_world" where
  "finish_plain E cfg call body ctx w =
     (let ps = bv_parsers E in
      if bx_truncated ctx then (Some (sp_ser ps too_large_json), ctx, complete_coalescing ctx w)
      else if upstream_error ctx
      then (Some (format_upstream_error_for_client (error_env_of E) (bx_accumulated_body ctx)
                   (case bx_status ctx of Some s \<Rightarrow> s | None \<Rightarrow> 500)), ctx, w)
      else let w = record_backend_latency cfg call ctx (complete_coalescing ctx w);
               (b, w) = rewritten_body E ctx w;
               client_body = responses_form ps call ctx b;
               (ctx, w) = store_plain E cfg call client_body ctx w;
               ctx = scan_eos_usage_fallback ps cfg ctx
           in (if buffers_whole_body ctx then Some client_body else body, ctx, w))"

section \<open>The end of a stream\<close>

definition send_bootstrap :: "string option \<Rightarrow> 'b body_ctx \<Rightarrow> string option \<times> 'b body_ctx" where
  "send_bootstrap body ctx =
     (if bx_needs_translate ctx \<and> \<not> bx_bootstrap_sent ctx then
        (case bx_bootstrap ctx of
           Some bootstrap \<Rightarrow> (Some bootstrap, ctx\<lparr>bx_bootstrap := None, bx_bootstrap_sent := True\<rparr>)
         | None \<Rightarrow> (body, ctx))
      else (body, ctx))"

definition flush_pipeline ::
    "sse_parsers \<Rightarrow> body_config \<Rightarrow> string option \<Rightarrow> 'b body_ctx \<Rightarrow> 'b body_world \<Rightarrow>
     string option \<times> 'b body_ctx \<times> 'b body_world" where
  "flush_pipeline ps cfg body ctx w =
     (case bx_pipeline ctx of
        None \<Rightarrow> (body, ctx, w)
      | Some p \<Rightarrow>
          (case flush_remainder ps (translate_chunk (sp_parse ps) (sp_ser ps)) (attach_store (bw_reasoning_store w) p)
                  (bx_capture ctx) of
             (p, cap, r) \<Rightarrow>
               (or_else (cr_client_bytes r) body,
                apply_usage cfg (cr_usage r)
                  (ctx\<lparr>bx_pipeline := Some p, bx_capture := cap,
                       bx_reasoning_finalized := bx_reasoning_finalized ctx \<or> pipeline_reasoning_finalized p\<rparr>),
                w\<lparr>bw_reasoning_store := attached_store (bw_reasoning_store w) p\<rparr>)))"

definition send_part :: "(json \<Rightarrow> string) \<Rightarrow> rs_frame list \<Rightarrow> string option \<times> 'b body_ctx \<Rightarrow> string option \<times> 'b body_ctx" where
  \<comment> \<open>frames that are not empty become the body\<close>
  "send_part ser fs s =
     (let out = print_frames ser fs in
      if out = [] then s else (Some out, capture_bytes out (snd s)))"

definition close_translator ::
    "sse_parsers \<Rightarrow> body_call \<Rightarrow> responses_translator \<Rightarrow> string option \<Rightarrow> 'b body_ctx \<Rightarrow> 'b body_world \<Rightarrow>
     string option \<times> 'b body_ctx \<times> 'b body_world" where
  "close_translator ps call tr body ctx w =
     (let env = wire_env_of ps; now = wf_now (bn_fresh call);
          (tr, remainder) = flush_upstream_remainder env now tr;
          s = send_part (sp_ser ps) remainder (body, ctx);
          (tr, tail) = rt_flush env now tr;
          (body, ctx) = send_part (sp_ser ps) tail s
      in (body, ctx\<lparr>bx_translator := Some tr\<rparr>,
          if rt_completed_sent tr
          then w\<lparr>bw_chain := store_translator_output (bn_fresh call) (bx_request_pipeline ctx) tr (bw_chain w)\<rparr> else w))"

definition close_responses ::
    "sse_parsers \<Rightarrow> body_call \<Rightarrow> string option \<Rightarrow> 'b body_ctx \<Rightarrow> 'b body_world \<Rightarrow>
     string option \<times> 'b body_ctx \<times> 'b body_world" where
  "close_responses ps call body ctx w =
     (if \<not> bx_needs_translate ctx then (body, ctx, w)
      else case bx_translator ctx of
        Some tr \<Rightarrow> close_translator ps call tr body ctx w
      | None \<Rightarrow>
          if bx_status ctx \<noteq> Some 200 then (body, ctx, w)
          else let ctx = with_wire ctx (arm_responses_wire_stream (wire_env_of ps) (bn_fresh call) (wire_view ctx) (bx_model ctx)) in
               (case bx_translator ctx of Some tr \<Rightarrow> close_translator ps call tr body ctx w | None \<Rightarrow> (body, ctx, w)))"

definition merge_tail ::
    "sse_parsers \<Rightarrow> body_call \<Rightarrow> string option \<Rightarrow> 'b body_ctx \<Rightarrow> 'b body_world \<Rightarrow>
     string option \<times> 'b body_ctx \<times> 'b body_world" where
  "merge_tail ps call body ctx w =
     (case merge_graceful_responses_tail (wire_env_of ps) (bn_fresh call) (wire_view ctx) (bw_chain w) body of
        (r, chain, merged) \<Rightarrow> (or_else merged body, with_wire ctx r, w\<lparr>bw_chain := chain\<rparr>))"

definition relay_completed :: "wire_fresh \<Rightarrow> string \<Rightarrow> json" where
  "relay_completed fr model =
     JObj [(''response'', JObj [(''created_at'', JInt (wf_secs fr)), (''id'', JStr (''resp_'' @ wf_uuid fr)),
              (''model'', JStr model), (''object'', JStr ''response''), (''status'', JStr ''completed''),
              (''usage'', JObj [(''input_tokens'', JInt 0), (''output_tokens'', JInt 0), (''total_tokens'', JInt 0)])]),
           (''type'', JStr ''response.completed'')]"

definition complete_relay :: "sse_parsers \<Rightarrow> body_call \<Rightarrow> 'b body_ctx \<Rightarrow> string option \<Rightarrow> string option" where
  "complete_relay ps call ctx body =
     (if bx_request_pipeline ctx = Some CodexRelay \<and> bx_wire_api ctx = Responses \<and>
         \<not> contains_completed (wire_env_of ps) (bx_accumulated_body ctx)
      then Some ((case body of Some b \<Rightarrow> b | None \<Rightarrow> []) @
                 print_frames (sp_ser ps) [RsEvent (relay_completed (bn_fresh call) (bx_model ctx))])
      else body)"

definition stream_completion :: "body_call \<Rightarrow> string \<Rightarrow> json list \<Rightarrow> json" where
  "stream_completion call model messages =
     JObj [(''choices'', JArr (map (\<lambda>(i, m). JObj [(''finish_reason'', JStr ''stop''), (''index'', JInt (int i)), (''message'', m)])
              (enumerate 0 messages))),
           (''created'', JInt (wf_secs (bn_fresh call))), (''id'', JStr (''chatcmpl-'' @ bn_completion_id call)),
           (''model'', JStr model), (''object'', JStr ''chat.completion''),
           (''usage'', JObj [(''completion_tokens'', JInt 0), (''prompt_tokens'', JInt 0), (''total_tokens'', JInt 0)])]"

definition store_stream ::
    "'b body_env \<Rightarrow> body_config \<Rightarrow> body_call \<Rightarrow> 'b body_ctx \<Rightarrow> 'b body_world \<Rightarrow> 'b body_ctx \<times> 'b body_world" where
  "store_stream E cfg call ctx w =
     (let ps = bv_parsers E; messages = (case bx_pipeline ctx of Some p \<Rightarrow> pipeline_messages p | None \<Rightarrow> []) in
      case bx_cache_key ctx of
        None \<Rightarrow> (ctx, w)
      | Some key \<Rightarrow>
          if messages = [] then (ctx, w)
          else (let response = sp_ser ps (sanitize_client_completion (sp_replace ps)
                      (stream_completion call (bx_model ctx) messages) (bx_display_reasoning ctx) (bx_collapsible_reasoning ctx));
                    visible = completion_json_has_visible_client_content (sp_parse ps) (sp_replace ps) response
                      (bx_display_reasoning ctx);
                    (ctx', w) =
                      (if bc_stream_cache_enabled cfg \<and> visible then
                         (case sc_take (bx_capture ctx) of
                            (cap, sse) \<Rightarrow>
                              (ctx\<lparr>bx_capture := cap\<rparr>,
                               write_cache key
                                 (if should_store_sse_body (length sse) (bc_max_sse_cache_bytes cfg)
                                  then build_cache_entry_with_sse response sse (bx_model ctx) (body_ttl cfg ctx) True
                                         (bx_display_reasoning ctx) (usage_info_of (bx_tokens ctx)) (nat (wf_secs (bn_fresh call)))
                                  else entry_for cfg call ctx response) ctx w))
                       else (ctx, w))
                in (ctx', if visible then write_semantic ps cfg (entry_for cfg call ctx response) ctx w else w)))"

definition finish_stream ::
    "'b body_env \<Rightarrow> body_config \<Rightarrow> body_call \<Rightarrow> string option \<Rightarrow> 'b body_ctx \<Rightarrow> 'b body_world \<Rightarrow>
     string option \<times> 'b body_ctx \<times> 'b body_world" where
  "finish_stream E cfg call body ctx w =
     (let ps = bv_parsers E;
          (body, ctx) = send_bootstrap body ctx;
          (body, ctx, w) = flush_pipeline ps cfg body ctx w;
          (body, ctx, w) = close_responses ps call body ctx w;
          (body, ctx, w) = merge_tail ps call body ctx w;
          body = complete_relay ps call ctx body;
          w = complete_coalescing ctx w;
          ctx = scan_eos_usage_fallback ps cfg ctx;
          w = record_backend_latency cfg call ctx w;
          (ctx, w) = store_stream E cfg call ctx w
      in (body, ctx, w))"

section \<open>The callback\<close>

definition streamed_error :: "'b body_env \<Rightarrow> body_call \<Rightarrow> 'b body_ctx \<Rightarrow> string" where
  "streamed_error E call ctx =
     upstream_error_body_for_client (error_env_of E) (bn_fresh call) (bx_request_pipeline ctx) (bx_wire_api ctx) (bx_model ctx)
       (bx_accumulated_body ctx) (case bx_status ctx of Some s \<Rightarrow> s | None \<Rightarrow> 500)"

definition finish_body ::
    "'b body_env \<Rightarrow> body_config \<Rightarrow> body_call \<Rightarrow> string option \<times> 'b body_ctx \<times> 'b body_world \<Rightarrow>
     string option \<times> 'b body_ctx \<times> 'b body_world" where
  \<comment> \<open>the part after the chunk\<close>
  "finish_body E cfg call r =
     (case r of
        (body, ctx, w) \<Rightarrow>
          if bn_end_of_stream call
          then (if bx_is_streaming ctx then finish_stream E cfg call body ctx w else finish_plain E cfg call body ctx w)
          else if \<not> bx_is_streaming ctx \<and> buffers_whole_body ctx then (None, ctx, w)
          else (body, ctx, w))"

definition filter_data ::
    "'b body_env \<Rightarrow> body_config \<Rightarrow> body_call \<Rightarrow> string \<Rightarrow> 'b body_ctx \<Rightarrow> 'b body_world \<Rightarrow>
     string option \<times> 'b body_ctx \<times> 'b body_world" where
  \<comment> \<open>a chunk after decompression\<close>
  "filter_data E cfg call data ctx w =
     (if data = [] \<and> \<not> bn_end_of_stream call then (None, ctx, w)
      else let ctx = (if bx_is_streaming ctx then ctx else accumulate_plain cfg data ctx) in
           if bx_is_streaming ctx \<and> retry_ctx.rc_error_passthrough (bx_request ctx) then
             (let ctx = accumulate_error cfg data ctx in
              (if bn_end_of_stream call then Some (streamed_error E call ctx) else None, ctx, w))
           else finish_body E cfg call
             (if bx_is_streaming ctx then stream_chunk E cfg call data ctx w
              else (if bx_request_pipeline ctx = Some CodexRelay \<and> bx_wire_api ctx \<noteq> Responses \<or> bx_needs_translate ctx
                    then None else Some data, ctx, w)))"

definition body_filter ::
    "'b body_env \<Rightarrow> body_config \<Rightarrow> body_call \<Rightarrow> string option \<Rightarrow> 'b body_ctx \<Rightarrow> 'b body_world \<Rightarrow>
     string option \<times> 'b body_ctx \<times> 'b body_world" where
  "body_filter E cfg call body ctx w =
     (if rc_is_models_list (bx_request ctx) then (body, ctx, w)
      else if bn_end_of_stream call \<and> upstream_error ctx \<and> bx_is_streaming ctx \<and>
              retry_ctx.rc_error_passthrough (bx_request ctx) \<and> body = None \<and> bx_accumulated_body ctx \<noteq> []
      then (Some (streamed_error E call ctx), ctx, w)
      else case body of
        None \<Rightarrow> finish_body E cfg call (None, ctx, w)
      | Some data \<Rightarrow>
          if ds_encoding (bx_decompress ctx) = None then filter_data E cfg call data ctx w
          else (case decompress_upstream_chunk (bv_decode E) (bx_decompress ctx) data (bn_end_of_stream call) of
                  (data, st) \<Rightarrow> filter_data E cfg call data (ctx\<lparr>bx_decompress := st\<rparr>) w))"

section \<open>What the steps leave alone\<close>

definition same_frame :: "'b body_ctx \<Rightarrow> 'b body_ctx \<Rightarrow> bool" where
  "same_frame c d \<longleftrightarrow>
     bx_request d = bx_request c \<and> bx_wire_api d = bx_wire_api c \<and> bx_decompress d = bx_decompress c \<and>
     bx_accumulated_body d = bx_accumulated_body c \<and> bx_truncated d = bx_truncated c"

lemma same_frame_refl [simp]: "same_frame c c"
  by (simp add: same_frame_def)

lemma same_frame_trans: "same_frame c d \<Longrightarrow> same_frame d e \<Longrightarrow> same_frame c e"
  by (simp add: same_frame_def)

lemma same_frame_update [simp]:
  "same_frame c (d\<lparr>bx_pipeline := p\<rparr>) = same_frame c d" "same_frame c (d\<lparr>bx_capture := x\<rparr>) = same_frame c d"
  "same_frame c (d\<lparr>bx_translator := t\<rparr>) = same_frame c d" "same_frame c (d\<lparr>bx_bootstrap := b\<rparr>) = same_frame c d"
  "same_frame c (d\<lparr>bx_bootstrap_sent := y\<rparr>) = same_frame c d" "same_frame c (d\<lparr>bx_force_downstream_eos := y\<rparr>) = same_frame c d"
  "same_frame c (d\<lparr>bx_reasoning_finalized := y\<rparr>) = same_frame c d" "same_frame c (d\<lparr>bx_sse_rate_limited := y\<rparr>) = same_frame c d"
  "same_frame c (d\<lparr>bx_tokens := k\<rparr>) = same_frame c d" "same_frame c (d\<lparr>bx_prepared_request := q\<rparr>) = same_frame c d"
  "same_frame c (d\<lparr>bx_accumulator := a\<rparr>) = same_frame c d" "same_frame c (d\<lparr>bx_display_adapter := z\<rparr>) = same_frame c d"
  "same_frame c (d\<lparr>bx_pending_recovery_notice := n\<rparr>) = same_frame c d"
  "same_frame c (d\<lparr>bx_retired_prefix_messages := r\<rparr>) = same_frame c d"
  by (simp_all add: same_frame_def)

lemma same_frame_steps [simp]:
  "same_frame c (apply_usage cfg u d) = same_frame c d" "same_frame c (scan_eos_usage_fallback ps cfg d) = same_frame c d"
  "same_frame c (with_wire d r) = same_frame c d" "same_frame c (capture_bytes bytes d) = same_frame c d"
  "same_frame c (select_pipeline E call w d) = same_frame c d"
  by (simp_all add: apply_usage_def apply_usage_to_ctx_def scan_eos_usage_fallback_def with_wire_def capture_bytes_def
      select_pipeline_def Let_def split: option.split prod.split)

lemma same_frame_cool: "same_frame c (fst (cool_limited_stream_key ps lossy call data d w)) = same_frame c d"
  by (simp add: cool_limited_stream_key_def)

lemma same_frame_translate: "same_frame c (fst (translate_for_responses ps call d bytes)) = same_frame c d"
  by (simp add: translate_for_responses_def Let_def split: prod.split option.split)

lemma same_frame_send_part: "same_frame c (snd (send_part ser fs s)) = same_frame c (snd s)"
  by (simp add: send_part_def Let_def)

lemma same_frame_close: "same_frame c (fst (snd (close_translator ps call tr body d w))) = same_frame c d"
  by (simp add: close_translator_def Let_def split: prod.split)
    (metis same_frame_send_part snd_conv)

lemma same_frame_bootstrap: "same_frame c (snd (send_bootstrap body d)) = same_frame c d"
  by (simp add: send_bootstrap_def split: option.split)

lemma same_frame_flush: "same_frame c (fst (snd (flush_pipeline ps cfg body d w))) = same_frame c d"
  by (simp add: flush_pipeline_def split: option.split prod.split)

lemma same_frame_responses: "same_frame c (fst (snd (close_responses ps call body d w))) = same_frame c d"
  by (simp add: close_responses_def same_frame_close Let_def split: option.split)

lemma same_frame_merge: "same_frame c (fst (snd (merge_tail ps call body d w))) = same_frame c d"
  by (simp add: merge_tail_def split: prod.split)

lemma same_frame_store_stream: "same_frame c (fst (store_stream E cfg call d w)) = same_frame c d"
  by (auto simp: store_stream_def Let_def split: option.split prod.split)

lemma same_frame_finish_stream: "same_frame c (fst (snd (finish_stream E cfg call body c w)))"
proof -
  obtain b1 c1 where 1: "send_bootstrap body c = (b1, c1)" by (metis surj_pair)
  obtain b2 c2 w2 where 2: "flush_pipeline (bv_parsers E) cfg b1 c1 w = (b2, c2, w2)" by (metis prod_cases3)
  obtain b3 c3 w3 where 3: "close_responses (bv_parsers E) call b2 c2 w2 = (b3, c3, w3)" by (metis prod_cases3)
  obtain b4 c4 w4 where 4: "merge_tail (bv_parsers E) call b3 c3 w3 = (b4, c4, w4)" by (metis prod_cases3)
  have "same_frame c c1" "same_frame c1 c2" "same_frame c2 c3" "same_frame c3 c4"
    using same_frame_bootstrap [of c body c] same_frame_flush [of c1 _ _ b1 c1 w] same_frame_responses [of c2 _ _ b2 c2 w2]
      same_frame_merge [of c3 _ _ b3 c3 w3] 1 2 3 4 by (metis fst_conv snd_conv same_frame_refl)+
  then have "same_frame c c4" using same_frame_trans by blast
  then show ?thesis
    by (simp add: finish_stream_def 1 2 3 4 Let_def same_frame_store_stream split: prod.split)
qed

lemma same_frame_finish_plain: "same_frame c (fst (snd (finish_plain E cfg call body c w)))"
proof -
  have "same_frame c (fst (store_plain E cfg call b c w))" for b w
    by (simp add: store_plain_def Let_def split: option.split)
  then show ?thesis
    by (auto simp: finish_plain_def Let_def split: prod.split) (metis fst_conv)
qed

lemma same_frame_finish:
  assumes "same_frame c d"
  shows "same_frame c (fst (snd (finish_body E cfg call (body, d, w))))"
  using same_frame_trans [OF assms same_frame_finish_stream] same_frame_trans [OF assms same_frame_finish_plain] assms
  by (simp add: finish_body_def)

lemma stream_chunk_frame:
  "same_frame ctx (fst (snd (stream_chunk E cfg call data ctx w))) \<or>
   same_frame (accumulate_stream cfg data ctx) (fst (snd (stream_chunk E cfg call data ctx w)))"
proof -
  let ?c = "(select_pipeline E call w ctx)\<lparr>bx_capture := sc_reconfigure (bx_capture (select_pipeline E call w ctx))
    (bc_max_sse_cache_bytes cfg)\<rparr>"
  obtain c1 w1 where cool: "cool_limited_stream_key (bv_parsers E) (bv_lossy E) call data ?c w = (c1, w1)" by (metis surj_pair)
  have c1: "same_frame ctx c1" using same_frame_cool [of ctx _ _ call data ?c w] cool by (metis fst_conv same_frame_refl same_frame_steps(5) same_frame_update(2))
  then have acc: "same_frame (accumulate_stream cfg data ctx) (accumulate_stream cfg data c1)"
    by (simp add: same_frame_def accumulate_stream_def Let_def)
  show ?thesis
  proof (cases "bx_pipeline c1")
    case None
    then show ?thesis using c1 by (simp add: stream_chunk_def cool Let_def)
  next
    case (Some p)
    have "same_frame (accumulate_stream cfg data ctx) (fst (snd (stream_chunk E cfg call data ctx w)))"
      using acc by (simp add: stream_chunk_def cool Some Let_def split: prod.split)
        (metis fst_conv same_frame_translate same_frame_steps(1) same_frame_update(1,2))
    then show ?thesis by blast
  qed
qed

section \<open>Runs\<close>

fun run_body ::
    "'b body_env \<Rightarrow> body_config \<Rightarrow> (body_call \<times> string option) list \<Rightarrow> 'b body_ctx \<Rightarrow> 'b body_world \<Rightarrow>
     string option list \<times> 'b body_ctx \<times> 'b body_world" where
  \<comment> \<open>the calls for one response, with what the client is sent by each\<close>
  "run_body E cfg [] ctx w = ([], ctx, w)"
| "run_body E cfg ((call, body) # calls) ctx w =
     (case body_filter E cfg call body ctx w of
        (out, ctx, w) \<Rightarrow> (case run_body E cfg calls ctx w of (outs, ctx, w) \<Rightarrow> (out # outs, ctx, w)))"

definition buffer_limit :: "body_config \<Rightarrow> nat" where
  "buffer_limit cfg = max (bc_max_sse_cache_bytes cfg) STREAMING_TAIL_CAP"

definition within_limit :: "body_config \<Rightarrow> 'b body_ctx \<Rightarrow> bool" where
  "within_limit cfg ctx \<longleftrightarrow> length (bx_accumulated_body ctx) \<le> buffer_limit cfg"

definition bounded_kind :: "'b body_ctx \<Rightarrow> bool" where
  "bounded_kind ctx \<longleftrightarrow> bx_is_streaming ctx \<or> \<not> upstream_error ctx"

definition bounded :: "body_config \<Rightarrow> 'b body_ctx \<Rightarrow> bool" where
  "bounded cfg ctx \<longleftrightarrow> within_limit cfg ctx \<and> bounded_kind ctx"

lemma same_frame_bounded: "same_frame c d \<Longrightarrow> bounded cfg d = bounded cfg c"
  by (simp add: same_frame_def bounded_def within_limit_def bounded_kind_def upstream_error_def)

lemma accumulate_bounded:
  assumes "bounded cfg ctx" and "0 < bc_max_sse_cache_bytes cfg"
  shows "bounded cfg (accumulate_stream cfg data ctx)" "bounded cfg (accumulate_error cfg data ctx)"
    "\<not> bx_is_streaming ctx \<Longrightarrow> bounded cfg (accumulate_plain cfg data ctx)"
  using assms
  by (auto simp: bounded_def within_limit_def buffer_limit_def bounded_kind_def upstream_error_def accumulate_stream_def
      accumulate_error_def accumulate_plain_def STREAMING_TAIL_CAP_def NON_STREAMING_TAIL_def Let_def)

lemma finish_bounded: "bounded cfg d \<Longrightarrow> bounded cfg (fst (snd (finish_body E cfg call (b, d, v))))"
  using same_frame_bounded [OF same_frame_finish [OF same_frame_refl]] by blast

lemma stream_chunk_bounded:
  assumes "bounded cfg c" and "0 < bc_max_sse_cache_bytes cfg"
  shows "bounded cfg (fst (snd (finish_body E cfg call (stream_chunk E cfg call data c w))))"
proof -
  obtain b d v where chunk: "stream_chunk E cfg call data c w = (b, d, v)" by (metis prod_cases3)
  have "bounded cfg d"
    using stream_chunk_frame [of c E cfg call data w] same_frame_bounded [of c d cfg]
      same_frame_bounded [of "accumulate_stream cfg data c" d cfg] assms(1) accumulate_bounded(1) [OF assms] chunk by auto
  then show ?thesis using finish_bounded chunk by metis
qed

lemma filter_data_bounded:
  assumes "bounded cfg ctx" and "0 < bc_max_sse_cache_bytes cfg"
  shows "bounded cfg (fst (snd (filter_data E cfg call data ctx w)))"
proof (cases "bx_is_streaming ctx")
  case True
  then show ?thesis
    using assms accumulate_bounded(2) [OF assms] stream_chunk_bounded [OF assms] by (simp add: filter_data_def Let_def)
next
  case False
  have "\<not> bx_is_streaming (accumulate_plain cfg data ctx)" using False by (simp add: accumulate_plain_def Let_def)
  then show ?thesis
    using assms(1) False finish_bounded [OF accumulate_bounded(3) [OF assms False]] by (simp add: filter_data_def Let_def)
qed

lemma body_filter_bounded:
  assumes "bounded cfg ctx" and "0 < bc_max_sse_cache_bytes cfg"
  shows "bounded cfg (fst (snd (body_filter E cfg call body ctx w)))"
proof (cases body)
  case None
  then show ?thesis using assms(1) finish_bounded [OF assms(1)] by (simp add: body_filter_def)
next
  case (Some data)
  have "bounded cfg (ctx\<lparr>bx_decompress := st\<rparr>)" for st
    using assms(1) by (simp add: bounded_def within_limit_def bounded_kind_def upstream_error_def)
  from filter_data_bounded [OF this assms(2)] filter_data_bounded [OF assms] show ?thesis
    using assms(1) Some by (simp add: body_filter_def split: prod.split)
qed

text \<open>
  C21. The gateway's copy of an answer is bounded. However an upstream cuts up its answer and however long
  it goes on, the buffer of a streamed or successful response never exceeds the configured limit, or the
  64 KiB kept of a longer one.
\<close>

theorem answer_buffer_bounded:
  assumes "0 < bc_max_sse_cache_bytes cfg" and "bx_accumulated_body ctx = []"
    and "bx_is_streaming ctx \<or> \<not> upstream_error ctx"
  shows "length (bx_accumulated_body (fst (snd (run_body E cfg calls ctx w)))) \<le> max (bc_max_sse_cache_bytes cfg) (64 * 1024)"
proof -
  have "bounded cfg (fst (snd (run_body E cfg calls c v)))" if "bounded cfg c" for c v
    using that
  proof (induction calls arbitrary: c v)
    case (Cons x calls)
    obtain call body where x: "x = (call, body)" by (metis surj_pair)
    obtain out c1 v1 where step: "body_filter E cfg call body c v = (out, c1, v1)" by (metis prod_cases3)
    have "bounded cfg c1" using body_filter_bounded [OF Cons.prems assms(1), of E call body v] step by simp
    from Cons.IH [OF this, of v1] show ?case by (simp add: x step split: prod.split) (metis fst_conv snd_conv)
  qed simp
  from this [of ctx w] assms(2,3) show ?thesis
    by (simp add: bounded_def within_limit_def bounded_kind_def buffer_limit_def STREAMING_TAIL_CAP_def)
qed

section \<open>Errors\<close>

definition chunk_calls :: "body_call \<Rightarrow> string list \<Rightarrow> (body_call \<times> string option) list" where
  \<comment> \<open>chunks before the end\<close>
  "chunk_calls call cs = map (\<lambda>c. (call\<lparr>bn_end_of_stream := False\<rparr>, Some c)) cs"

definition end_call :: "body_call \<Rightarrow> string option \<Rightarrow> body_call \<times> string option" where
  "end_call call body = (call\<lparr>bn_end_of_stream := True\<rparr>, body)"

definition of_body :: "string option \<Rightarrow> string" where
  "of_body b = (case b of Some x \<Rightarrow> x | None \<Rightarrow> [])"

lemma run_body_append:
  "run_body E cfg (xs @ ys) ctx w =
     (case run_body E cfg xs ctx w of (o1, c1, w1) \<Rightarrow> (case run_body E cfg ys c1 w1 of (o2, c2, w2) \<Rightarrow> (o1 @ o2, c2, w2)))"
  by (induction E cfg xs ctx w rule: run_body.induct) (auto split: prod.split)

definition passes_error :: "'b body_ctx \<Rightarrow> bool" where
  "passes_error ctx \<longleftrightarrow> \<not> rc_is_models_list (bx_request ctx) \<and> upstream_error ctx \<and> bx_is_streaming ctx \<and>
     retry_ctx.rc_error_passthrough (bx_request ctx) \<and> ds_encoding (bx_decompress ctx) = None \<and> \<not> bx_truncated ctx"

lemma error_chunk_kept:
  assumes "passes_error ctx" and "bc_max_sse_cache_bytes cfg = 0 \<or>
      length (bx_accumulated_body ctx) + length c \<le> bc_max_sse_cache_bytes cfg"
  shows "body_filter E cfg (call\<lparr>bn_end_of_stream := False\<rparr>) (Some c) ctx w =
    (None, ctx\<lparr>bx_accumulated_body := bx_accumulated_body ctx @ c\<rparr>, w)"
  using assms by (auto simp: passes_error_def body_filter_def filter_data_def accumulate_error_def Let_def)

lemma error_chunks_kept:
  assumes "passes_error ctx" and "bc_max_sse_cache_bytes cfg = 0 \<or>
      length (bx_accumulated_body ctx) + length (concat cs) \<le> bc_max_sse_cache_bytes cfg"
  shows "run_body E cfg (chunk_calls call cs) ctx w =
    (replicate (length cs) None, ctx\<lparr>bx_accumulated_body := bx_accumulated_body ctx @ concat cs\<rparr>, w)"
  using assms
proof (induction cs arbitrary: ctx)
  case (Cons c cs)
  let ?d = "ctx\<lparr>bx_accumulated_body := bx_accumulated_body ctx @ c\<rparr>"
  have "passes_error ?d" using Cons.prems(1) by (simp add: passes_error_def upstream_error_def)
  then have "run_body E cfg (chunk_calls call cs) ?d w =
      (replicate (length cs) None, ?d\<lparr>bx_accumulated_body := bx_accumulated_body ?d @ concat cs\<rparr>, w)"
    using Cons.prems(2) by (intro Cons.IH) auto
  moreover have "body_filter E cfg (call\<lparr>bn_end_of_stream := False\<rparr>) (Some c) ctx w = (None, ?d, w)"
    using Cons.prems by (intro error_chunk_kept) auto
  ultimately show ?case by (simp add: chunk_calls_def)
qed (simp add: chunk_calls_def)

text \<open>
  C32. How an upstream cuts up its error does not matter. A streaming client is sent nothing until the
  error is complete and then one body that depends on the whole error only, whether the end comes with
  the last bytes or after them.
\<close>

theorem error_chunks_irrelevant:
  assumes "passes_error ctx" and "bx_accumulated_body ctx = []"
    and "bc_max_sse_cache_bytes cfg = 0 \<or> length (concat cs @ of_body rest) \<le> bc_max_sse_cache_bytes cfg"
    and "concat cs @ of_body rest \<noteq> []" and "bx_status ctx = Some status"
  shows "fst (run_body E cfg (chunk_calls call cs @ [end_call call rest]) ctx w) =
    replicate (length cs) None @
    [Some (upstream_error_body_for_client (error_env_of E) (bn_fresh call) (bx_request_pipeline ctx) (bx_wire_api ctx)
       (bx_model ctx) (concat cs @ of_body rest) status)]"
proof -
  let ?d = "ctx\<lparr>bx_accumulated_body := concat cs\<rparr>"
  have run: "run_body E cfg (chunk_calls call cs) ctx w = (replicate (length cs) None, ?d, w)"
    using error_chunks_kept [OF assms(1), of cfg cs E call w] assms(2,3) by auto
  have "fst (body_filter E cfg (call\<lparr>bn_end_of_stream := True\<rparr>) rest ?d w) =
    Some (upstream_error_body_for_client (error_env_of E) (bn_fresh call) (bx_request_pipeline ctx) (bx_wire_api ctx)
       (bx_model ctx) (concat cs @ of_body rest) status)"
    using assms by (cases rest)
      (auto simp: passes_error_def body_filter_def filter_data_def accumulate_error_def streamed_error_def of_body_def
        upstream_error_def Let_def)
  then show ?thesis
    by (simp add: run_body_append run end_call_def split: prod.split) (metis fst_conv)
qed

section \<open>What is cached\<close>

lemma same_frame_store_plain: "same_frame c (fst (store_plain E cfg call b d w)) = same_frame c d"
  by (simp add: store_plain_def Let_def split: option.split)

lemma prepared_store_plain [simp]:
  "bx_prepared_request (fst (store_plain E cfg call b c w)) = bx_prepared_request c"
  "bx_prepared_request (scan_eos_usage_fallback ps cfg c) = bx_prepared_request c"
  by (simp_all add: store_plain_def scan_eos_usage_fallback_def apply_usage_def apply_usage_to_ctx_def Let_def split: option.split)

lemma same_frame_buffers: "same_frame c d \<Longrightarrow> bx_prepared_request d = bx_prepared_request c \<Longrightarrow> buffers_whole_body d = buffers_whole_body c"
  by (simp add: same_frame_def buffers_whole_body_def bx_needs_translate_def)

lemma buffers_after_store:
  assumes "store_plain E cfg call b ctx w = (c, v)"
  shows "buffers_whole_body (scan_eos_usage_fallback ps cfg c) = buffers_whole_body ctx"
proof (rule same_frame_buffers)
  show "same_frame ctx (scan_eos_usage_fallback ps cfg c)"
    using same_frame_store_plain [of ctx E cfg call b ctx w] assms by simp
  show "bx_prepared_request (scan_eos_usage_fallback ps cfg c) = bx_prepared_request ctx"
    using prepared_store_plain(1) [of E cfg call b ctx w] assms by simp
qed

lemma finish_plain_sends:
  assumes "\<not> bx_truncated ctx" and "\<not> upstream_error ctx" and "buffers_whole_body ctx"
  shows "fst (finish_plain E cfg call body ctx w) = Some (responses_form (bv_parsers E) call ctx
    (fst (rewritten_body E ctx (record_backend_latency cfg call ctx (complete_coalescing ctx w)))))"
proof -
  obtain r w1 where r: "rewritten_body E ctx (record_backend_latency cfg call ctx (complete_coalescing ctx w)) = (r, w1)"
    by (metis surj_pair)
  obtain c2 w2 where s: "store_plain E cfg call (responses_form (bv_parsers E) call ctx r) ctx w1 = (c2, w2)" by (metis surj_pair)
  show ?thesis using assms buffers_after_store [OF s] by (simp add: finish_plain_def r s Let_def)
qed

lemma writes_kept [simp]:
  "bw_cache_writes (complete_coalescing c w) = bw_cache_writes w" "bw_cache_writes (record_backend_latency cfg call c w) = bw_cache_writes w"
  "bw_cache_writes (snd (rewritten_body E c w)) = bw_cache_writes w" "bw_cache_writes (write_semantic ps cfg e c w) = bw_cache_writes w"
  by (simp_all add: complete_coalescing_def record_backend_latency_def rewritten_body_def write_semantic_def Let_def
      split: option.split prod.split)


section \<open>What is lost\<close>

definition plain_relay :: "'b body_ctx \<Rightarrow> bool" where
  \<comment> \<open>a successful answer that is passed on chunk by chunk\<close>
  "plain_relay ctx \<longleftrightarrow> \<not> rc_is_models_list (bx_request ctx) \<and> \<not> bx_is_streaming ctx \<and> \<not> upstream_error ctx \<and>
     \<not> bx_truncated ctx \<and> \<not> buffers_whole_body ctx"

lemma finish_plain_relay:
  assumes "plain_relay ctx"
  shows "fst (finish_plain E cfg call body ctx w) = body"
proof -
  let ?w = "record_backend_latency cfg call ctx (complete_coalescing ctx w)"
  obtain r w1 where r: "rewritten_body E ctx ?w = (r, w1)" by (metis surj_pair)
  obtain c2 w2 where s: "store_plain E cfg call (responses_form (bv_parsers E) call ctx r) ctx w1 = (c2, w2)" by (metis surj_pair)
  show ?thesis using assms buffers_after_store [OF s] by (simp add: plain_relay_def finish_plain_def r s Let_def)
qed

text \<open>
  C38. A compressed answer is lost when its end comes on its own. Compressed chunks are kept back until one
  arrives with the end of the body; when the end arrives without a chunk, as after chunked encoding,
  nothing is decompressed and the client of a relayed answer gets an empty body.
\<close>

theorem compressed_answer_lost:
  assumes "plain_relay ctx" and "ds_encoding (bx_decompress ctx) = Some enc" and "enc \<noteq> Identity"
  shows "fst (run_body E cfg (chunk_calls call cs @ [end_call call None]) ctx w) = replicate (Suc (length cs)) None"
proof -
  define held where "held x = ctx\<lparr>bx_decompress := (bx_decompress ctx)\<lparr>ds_compressed := ds_compressed (bx_decompress ctx) @ x\<rparr>\<rparr>" for x
  have chunk: "body_filter E cfg (call\<lparr>bn_end_of_stream := False\<rparr>) (Some c) (held x) w = (None, held (x @ c), w)" for c x
    using assms by (simp add: held_def plain_relay_def body_filter_def decompress_upstream_chunk_def filter_data_def Let_def)
  have run: "run_body E cfg (chunk_calls call cs) (held x) w = (replicate (length cs) None, held (x @ concat cs), w)" for x
    by (induction cs arbitrary: x) (simp_all add: chunk_calls_def chunk)
  have relay: "plain_relay (held x)" for x
    using assms(1) by (simp add: held_def plain_relay_def upstream_error_def buffers_whole_body_def bx_needs_translate_def)
  have last: "fst (body_filter E cfg (call\<lparr>bn_end_of_stream := True\<rparr>) None (held x) w) = None" for x
    using finish_plain_relay [OF relay] relay [of x] by (simp add: body_filter_def finish_body_def plain_relay_def)
  have "ctx = held []" by (simp add: held_def)
  then have "run_body E cfg (chunk_calls call cs) ctx w = (replicate (length cs) None, held (concat cs), w)"
    using run [of "[]"] by simp
  moreover obtain d v where "body_filter E cfg (call\<lparr>bn_end_of_stream := True\<rparr>) None (held (concat cs)) w = (None, d, v)"
    using last [of "concat cs"] by (metis prod.collapse)
  ultimately show ?thesis by (simp add: run_body_append end_call_def replicate_append_same)
qed

text \<open>
  An answer beyond the limit is not refused but corrupted: in a relayed answer its chunks have been sent
  when the limit is found to be exceeded, and the JSON of the error is sent after them.
\<close>

theorem oversized_answer_corrupted:
  assumes "plain_relay ctx" and "ds_encoding (bx_decompress ctx) = None" and "c \<noteq> []"
    and "0 < bc_max_sse_cache_bytes cfg" and "bc_max_sse_cache_bytes cfg < length c"
  shows "fst (run_body E cfg (chunk_calls call [c] @ [end_call call None]) ctx w) =
    [Some c, Some (sp_ser (bv_parsers E) too_large_json)]"
proof -
  let ?d = "accumulate_plain cfg c ctx"
  have d: "bx_request ?d = bx_request ctx" "bx_truncated ?d" "buffers_whole_body ?d = buffers_whole_body ctx"
    "bx_needs_translate ?d = bx_needs_translate ctx" "bx_wire_api ?d = bx_wire_api ctx"
    using assms by (simp_all add: plain_relay_def accumulate_plain_def buffers_whole_body_def bx_needs_translate_def Let_def)
  have "body_filter E cfg (call\<lparr>bn_end_of_stream := False\<rparr>) (Some c) ctx w = (Some c, ?d, w)"
    using assms(1-3) d by (auto simp: body_filter_def filter_data_def finish_body_def plain_relay_def buffers_whole_body_def Let_def)
  moreover have "fst (body_filter E cfg (call\<lparr>bn_end_of_stream := True\<rparr>) None ?d w) = Some (sp_ser (bv_parsers E) too_large_json)"
    using assms(1) d by (simp add: body_filter_def finish_body_def finish_plain_def plain_relay_def upstream_error_def Let_def)
  ultimately show ?thesis by (simp add: chunk_calls_def end_call_def split: prod.split) (metis fst_conv)
qed

text \<open>
  The end of a translated stream replaces what its last chunk gave. When the translator still has
  something to close, it does not matter what was due to the client: it is dropped.
\<close>

theorem stream_end_drops_last_chunk:
  assumes "bx_needs_translate ctx" and "bx_translator ctx = Some tr"
    and "print_frames (sp_ser (bv_parsers E)) (snd (rt_flush (wire_env_of (bv_parsers E)) (wf_now (bn_fresh call))
           (fst (flush_upstream_remainder (wire_env_of (bv_parsers E)) (wf_now (bn_fresh call)) tr)))) \<noteq> []"
  shows "finish_stream E cfg call (Some b) ctx w = finish_stream E cfg call None ctx w"
proof -
  let ?ps = "bv_parsers E"
  have send: "send_part ser fs (x, c) = send_part ser fs (y, c)" if "print_frames ser fs \<noteq> []" for ser fs c and x y :: "string option"
    using that by (simp add: send_part_def)
  have snd_send: "snd (send_part ser fs (x, c)) = snd (send_part ser fs (y, c))" for ser fs c and x y :: "string option"
    by (simp add: send_part_def Let_def)
  have close: "close_translator ?ps call tr x c v = close_translator ?ps call tr y c v" for x y c v
    using assms(3) snd_send [of "sp_ser ?ps" "snd (flush_upstream_remainder (wire_env_of ?ps) (wf_now (bn_fresh call)) tr)" x c y]
    by (auto simp: close_translator_def send_part_def Let_def split: prod.split)
  have boot: "snd (send_bootstrap x ctx) = snd (send_bootstrap y ctx)" "bx_translator (snd (send_bootstrap x ctx)) = Some tr"
    "bx_needs_translate (snd (send_bootstrap x ctx))" for x y
    using assms(1,2) by (simp_all add: send_bootstrap_def bx_needs_translate_def split: option.split)
  have flush: "snd (flush_pipeline ?ps cfg x c v) = snd (flush_pipeline ?ps cfg y c v)"
    "bx_translator (fst (snd (flush_pipeline ?ps cfg x c v))) = bx_translator c"
    "bx_needs_translate (fst (snd (flush_pipeline ?ps cfg x c v))) = bx_needs_translate c" for x y c v
    by (simp_all add: flush_pipeline_def bx_needs_translate_def apply_usage_def apply_usage_to_ctx_def Let_def
        split: option.split prod.split)
  obtain x1 c1 where 1: "send_bootstrap (Some b) ctx = (x1, c1)" by (metis surj_pair)
  obtain y1 where n1: "send_bootstrap None ctx = (y1, c1)" using boot(1) [of "Some b" None] 1 by (metis prod.collapse snd_conv)
  obtain x2 c2 w2 where 2: "flush_pipeline ?ps cfg x1 c1 w = (x2, c2, w2)" by (metis prod_cases3)
  obtain y2 where n2: "flush_pipeline ?ps cfg y1 c1 w = (y2, c2, w2)" using flush(1) [of x1 c1 w y1] 2 by (metis prod.collapse snd_conv)
  have "bx_translator c2 = Some tr" "bx_needs_translate c2"
    using boot(2,3) [of "Some b"] flush(2,3) [of x1 c1 w] 1 2 by simp_all
  then have "close_responses ?ps call x2 c2 w2 = close_responses ?ps call y2 c2 w2"
    using close by (simp add: close_responses_def)
  then show ?thesis by (simp add: finish_stream_def 1 n1 2 n2 Let_def)
qed

section \<open>Witnesses\<close>

definition sample_request :: "bool \<Rightarrow> nat \<Rightarrow> retry_ctx" where
  "sample_request streaming status = sample_retry_ctx
     \<lparr>retry_ctx.rc_is_streaming := streaming, retry_ctx.rc_http_status := Some status,
      retry_ctx.rc_error_passthrough := streaming \<and> 400 \<le> status\<rparr>"

definition sample_prepared :: prepared_request where
  "sample_prepared = \<lparr>pr_original_model = ''m'', pr_cache_namespace = ''n'', pr_retired_prefix_messages = 0,
     pr_record_response_contexts = []\<rparr>"

definition sample_body_ctx :: "retry_ctx \<Rightarrow> unit body_ctx" where
  "sample_body_ctx request =
     \<lparr>bx_request = request, bx_wire_api = ChatCompletions, bx_decompress = ds_default, bx_accumulated_body = [],
      bx_truncated = False, bx_pipeline = None, bx_capture = sc_default, bx_translator = None, bx_bootstrap = None,
      bx_bootstrap_sent = False, bx_exec_only_surface = False, bx_force_downstream_eos = False, bx_prepared_request = None,
      bx_accumulator = None, bx_display_adapter = None, bx_pending_recovery_notice = None, bx_retired_prefix_messages = None,
      bx_reasoning_finalized = False, bx_sse_rate_limited = False,
      bx_tokens = \<lparr>tk_total = 0, tk_last_input = 0, tk_last_output = 0, tk_last_hit = 0, tk_last_miss = 0,
                   tk_pure_miss_streak = 0, tk_affinity_hits = 0, tk_affinity_misses = 0\<rparr>,
      bx_original_request_body = None, bx_cache_key = Some ''key'', bx_consumer = None, bx_project_id = None,
      bx_display_reasoning = True, bx_collapsible_reasoning = False\<rparr>"

definition sample_body_world :: "unit body_world" where
  "sample_body_world = \<lparr>bw_gateway = sample_retry_gateway, bw_backend_load = [], bw_reasoning_store = (),
     bw_chain = (new_l0_only 60, []), bw_cache_writes = [], bw_semantic_writes = []\<rparr>"

definition sample_body_config :: body_config where
  "sample_body_config = \<lparr>bc_max_sse_cache_bytes = 4, bc_stream_cache_enabled = True, bc_semantic_cache = False,
     bc_ttl_config = tc_new 60, bc_affinity_prompt_cache_feedback = False, bc_max_inflight_per_backend = 1,
     bc_prefill_overload_threshold_ms = 0, bc_overload_cooldown_ms = 0\<rparr>"

definition sample_body_env :: "unit body_env" where
  \<comment> \<open>a parser that knows one value\<close>
  "sample_body_env = \<lparr>bv_parsers = \<lparr>sp_parse = (\<lambda>s. if s = ''{}'' then Some (JObj []) else None), sp_ser = (\<lambda>_. ''{}''),
       sp_utf8 = (\<lambda>_. True), sp_replace = id\<rparr>,
     bv_lossy = id, bv_decode = (\<lambda>_. Some), bv_file = (\<lambda>_ b _ _ _. (b, 0))\<rparr>"

definition sample_call :: body_call where
  "sample_call = \<lparr>bn_end_of_stream = True, bn_fresh = \<lparr>wf_uuid = ''u'', wf_secs = 0, wf_now = 0\<rparr>, bn_completion_id = ''c'',
     bn_clock = \<lparr>ck_ms = 0, ck_instant = 0\<rparr>, bn_latency = None\<rparr>"

lemmas sample_body_defs = sample_body_ctx_def sample_request_def sample_retry_ctx_def sample_body_config_def sample_call_def
  ds_default_def

theorem answer_buffer_bounded_witness:
  "length (bx_accumulated_body (fst (snd (run_body sample_body_env sample_body_config
     (chunk_calls sample_call [''ab'', ''cdef''] @ [end_call sample_call None]) (sample_body_ctx (sample_request False 200))
     sample_body_world)))) \<le> max (bc_max_sse_cache_bytes sample_body_config) (64 * 1024)"
  by (rule answer_buffer_bounded) (simp_all add: sample_body_defs upstream_error_def)

theorem error_chunks_irrelevant_witness:
  "fst (run_body sample_body_env sample_body_config (chunk_calls sample_call [''a'', ''b''] @ [end_call sample_call (Some ''c'')])
     (sample_body_ctx (sample_request True 503)) sample_body_world) =
   replicate 2 None @ [Some (upstream_error_body_for_client (error_env_of sample_body_env) (bn_fresh sample_call)
     (Some DeepSeekLight) ChatCompletions ''m'' ''abc'' 503)]"
  using error_chunks_irrelevant [of "sample_body_ctx (sample_request True 503)" sample_body_config "[''a'', ''b'']" "Some ''c''" 503
      sample_body_env sample_call sample_body_world]
  by (simp add: sample_body_defs passes_error_def upstream_error_def of_body_def numeral_2_eq_2)

definition relayed_ctx :: "unit body_ctx" where
  "relayed_ctx = (sample_body_ctx (sample_request False 200))\<lparr>bx_prepared_request := Some sample_prepared, bx_accumulated_body := ''{}''\<rparr>"


lemma sample_plain_relay: "plain_relay (sample_body_ctx (sample_request False 200))"
  by (simp add: plain_relay_def sample_body_defs upstream_error_def buffers_whole_body_def bx_needs_translate_def
      needs_responses_wire_translate_def)

theorem compressed_answer_lost_witness:
  "fst (run_body sample_body_env sample_body_config (chunk_calls sample_call [''gz''] @ [end_call sample_call None])
     ((sample_body_ctx (sample_request False 200))\<lparr>bx_decompress := ds_default\<lparr>ds_encoding := Some Gzip\<rparr>\<rparr>) sample_body_world) =
   [None, None]"
  using compressed_answer_lost [of "(sample_body_ctx (sample_request False 200))\<lparr>bx_decompress := ds_default\<lparr>ds_encoding := Some Gzip\<rparr>\<rparr>"
      Gzip sample_body_env sample_body_config sample_call "[''gz'']" sample_body_world] sample_plain_relay
  by (simp add: plain_relay_def upstream_error_def buffers_whole_body_def bx_needs_translate_def)

theorem oversized_answer_corrupted_witness:
  "fst (run_body sample_body_env sample_body_config (chunk_calls sample_call [''[1,2]''] @ [end_call sample_call None])
     (sample_body_ctx (sample_request False 200)) sample_body_world) =
   [Some ''[1,2]'', Some (sp_ser (bv_parsers sample_body_env) too_large_json)]"
  by (rule oversized_answer_corrupted [OF sample_plain_relay]) (simp_all add: sample_body_defs)

end
