(* ===== verification/QuotaParse.thy ===== *)
theory QuotaParse
  imports QuotaCache CodexTools Tenant
begin

text \<open>
  The parser of the usage service's answer (\<^verbatim>\<open>src/crates/crab-control/src/codex_wham.rs\<close>): the
  quota snapshot of the preflight, the list of windows and the summary of the dashboard. Windows are told
  apart by where they stand, as the source does by their addresses. The clock and the range of
  \<^verbatim>\<open>chrono\<close> time stamps are arguments; texts for infinities and NaN are taken for no numbers.
\<close>

section \<open>Numbers in JSON\<close>

definition parse_sign :: "string \<Rightarrow> bool \<times> string" where
  "parse_sign s =
     (case s of c # cs \<Rightarrow> if c = CHR ''-'' then (True, cs) else if c = CHR ''+'' then (False, cs) else (False, s) | [] \<Rightarrow> (False, []))"

definition parse_exponent :: "string \<Rightarrow> int option" where
  \<comment> \<open>what follows the letter\<close>
  "parse_exponent s =
     (case parse_sign s of
        (neg, ds) \<Rightarrow> if ds = [] then None else map_option (\<lambda>n. if neg then - int n else int n) (parse_digits 0 ds))"

definition ten_to :: "int \<Rightarrow> rat" where
  "ten_to k = (if 0 \<le> k then 10 ^ nat k else 1 / 10 ^ nat (- k))"

definition parse_f64 :: "string \<Rightarrow> f64 option" where
  \<comment> \<open>\<open>str::parse::<f64>\<close> of a finite decimal\<close>
  "parse_f64 s =
     (case parse_sign s of
        (neg, t) \<Rightarrow>
          (let is_e = (\<lambda>c. c = CHR ''e'' \<or> c = CHR ''E''); mant = takeWhile (Not \<circ> is_e) t; rest = dropWhile (Not \<circ> is_e) t;
               ip = takeWhile (\<lambda>c. c \<noteq> CHR ''.'') mant; fp = tl (dropWhile (\<lambda>c. c \<noteq> CHR ''.'') mant)
           in if ip = [] \<and> fp = [] then None
              else do {
                e \<leftarrow> (if rest = [] then Some 0 else parse_exponent (tl rest));
                n \<leftarrow> parse_digits 0 (ip @ fp);
                Some (f64_round ((if neg then - 1 else 1) * of_nat n * ten_to (e - int (length fp))))
              }))"

fun as_f64 :: "json \<Rightarrow> f64 option" where
  "as_f64 (JInt n) = Some (f64_round (of_int n))"
| "as_f64 (JFloat q) = Some q"
| "as_f64 _ = None"

definition get_f64 :: "json \<Rightarrow> string \<Rightarrow> f64 option" where
  "get_f64 v k =
     Option.bind (json_get v k) (\<lambda>x. case as_f64 x of Some n \<Rightarrow> Some n | None \<Rightarrow> Option.bind (as_str x) parse_f64)"

definition get_bool :: "json \<Rightarrow> string \<Rightarrow> bool option" where
  "get_bool v k = Option.bind (json_get v k) as_bool"

definition get2 :: "(json \<Rightarrow> string \<Rightarrow> 'a option) \<Rightarrow> json \<Rightarrow> string \<Rightarrow> string \<Rightarrow> 'a option" where
  \<comment> \<open>a field under either spelling\<close>
  "get2 get v k l = or_else (get v k) (get v l)"

section \<open>Windows\<close>

definition FIVE_HOUR_SECONDS :: f64 where "FIVE_HOUR_SECONDS = 18000"

definition WEEK_SECONDS :: f64 where "WEEK_SECONDS = 604800"

datatype window_pos = Primary | Secondary

definition window_seconds :: "json \<Rightarrow> f64 option" where
  "window_seconds w = get2 get_f64 w ''limit_window_seconds'' ''limitWindowSeconds''"

definition classify_step ::
    "window_pos option \<times> window_pos option \<Rightarrow> window_pos \<times> json option \<Rightarrow> window_pos option \<times> window_pos option" where
  "classify_step s x =
     (case (s, x) of
        ((five_hour, weekly), (pos, Some w)) \<Rightarrow>
          (case window_seconds w of
             Some secs \<Rightarrow>
               if secs = FIVE_HOUR_SECONDS \<and> five_hour = None then (Some pos, weekly)
               else if secs = WEEK_SECONDS \<and> weekly = None then (five_hour, Some pos) else (five_hour, weekly)
           | None \<Rightarrow> (five_hour, weekly))
      | (s, (pos, None)) \<Rightarrow> s)"

definition classify_windows :: "json option \<Rightarrow> json option \<Rightarrow> window_pos option \<times> window_pos option" where
  \<comment> \<open>by duration, then by position\<close>
  "classify_windows primary secondary =
     (let (five_hour, weekly) = foldl classify_step (None, None) [(Primary, primary), (Secondary, secondary)];
          five_hour = (if five_hour = None \<and> primary \<noteq> None \<and> weekly \<noteq> Some Primary then Some Primary else five_hour);
          weekly = (if weekly = None \<and> secondary \<noteq> None \<and> five_hour \<noteq> Some Secondary then Some Secondary else weekly)
      in (five_hour, weekly))"

record wham_env =
  wh_now :: int \<comment> \<open>Unix seconds\<close>
  wh_in_range :: "int \<Rightarrow> bool" \<comment> \<open>\<open>DateTime::from_timestamp\<close> has a value\<close>

definition f64_to_i64 :: "f64 \<Rightarrow> int" where
  \<comment> \<open>of a positive value\<close>
  "f64_to_i64 x = min \<lfloor>x\<rfloor> (2 ^ 63 - 1)"

definition add_i64 :: "int \<Rightarrow> int \<Rightarrow> int" where
  "add_i64 a b = (a + b + 2 ^ 63) mod 2 ^ 64 - 2 ^ 63"

definition parse_window_reset_secs :: "wham_env \<Rightarrow> json \<Rightarrow> int option" where
  "parse_window_reset_secs E w =
     (let reset_at = get2 get_f64 w ''reset_at'' ''resetAt'';
          reset_after = get2 get_f64 w ''reset_after_seconds'' ''resetAfterSeconds''
      in case reset_at of
           Some t \<Rightarrow>
             if 0 < t then Some (f64_to_i64 t)
             else (case reset_after of Some d \<Rightarrow> if 0 < d then Some (add_i64 (wh_now E) (f64_to_i64 d)) else None | None \<Rightarrow> None)
         | None \<Rightarrow>
             (case reset_after of Some d \<Rightarrow> if 0 < d then Some (add_i64 (wh_now E) (f64_to_i64 d)) else None | None \<Rightarrow> None))"

definition parse_window_reset_datetime :: "wham_env \<Rightarrow> json \<Rightarrow> int option" where
  "parse_window_reset_datetime E w =
     Option.bind (parse_window_reset_secs E w) (\<lambda>secs. if wh_in_range E secs then Some secs else None)"

definition rate_limit_of :: "json \<Rightarrow> json option" where
  "rate_limit_of body = get2 json_get body ''rate_limit'' ''rateLimit''"

definition primary_window :: "json \<Rightarrow> json option" where
  "primary_window rl = get2 json_get rl ''primary_window'' ''primaryWindow''"

definition secondary_window :: "json \<Rightarrow> json option" where
  "secondary_window rl = get2 json_get rl ''secondary_window'' ''secondaryWindow''"

definition window_at :: "json \<Rightarrow> window_pos \<Rightarrow> json option" where
  "window_at rl pos = (case pos of Primary \<Rightarrow> primary_window rl | Secondary \<Rightarrow> secondary_window rl)"

definition five_hour_window :: "json \<Rightarrow> json option" where
  "five_hour_window rl = Option.bind (fst (classify_windows (primary_window rl) (secondary_window rl))) (window_at rl)"

definition weekly_window :: "json \<Rightarrow> json option" where
  "weekly_window rl = Option.bind (snd (classify_windows (primary_window rl) (secondary_window rl))) (window_at rl)"

definition flag_limit_reached :: "json \<Rightarrow> bool" where
  "flag_limit_reached rl = (get2 get_bool rl ''limit_reached'' ''limitReached'' = Some True)"

definition window_used_percent_from_window :: "json \<Rightarrow> f64 option" where
  "window_used_percent_from_window w = get2 get_f64 w ''used_percent'' ''usedPercent''"

definition used_or_blocked :: "wham_env \<Rightarrow> bool \<Rightarrow> json option \<Rightarrow> f64 option" where
  \<comment> \<open>a blocked window that says when it resets counts as used up\<close>
  "used_or_blocked E blocked window =
     Option.bind window (\<lambda>w.
       case window_used_percent_from_window w of
         Some u \<Rightarrow> Some u
       | None \<Rightarrow> if blocked \<and> parse_window_reset_secs E w \<noteq> None then Some 100 else None)"

definition window_used_percent :: "wham_env \<Rightarrow> json option \<Rightarrow> json \<Rightarrow> f64 option" where
  "window_used_percent E window rl =
     used_or_blocked E (flag_limit_reached rl \<or> get_bool rl ''allowed'' = Some False) window"

section \<open>The snapshot\<close>

definition parse_wham_json :: "wham_env \<Rightarrow> json \<Rightarrow> codex_quota_snapshot option" where
  "parse_wham_json E body =
     (case rate_limit_of body of
        None \<Rightarrow> None
      | Some rl \<Rightarrow>
          if primary_window rl = None \<and> secondary_window rl = None then None
          else Some \<lparr>session_used_percent = window_used_percent E (five_hour_window rl) rl,
                     weekly_used_percent = window_used_percent E (weekly_window rl) rl,
                     session_reset_at = Option.bind (five_hour_window rl) (parse_window_reset_datetime E),
                     weekly_reset_at = Option.bind (weekly_window rl) (parse_window_reset_datetime E),
                     limit_reached = flag_limit_reached rl\<rparr>)"

section \<open>The list of windows\<close>

record window_item =
  wi_id :: string
  wi_label :: string
  wi_used_percent :: "f64 option"
  wi_reset_at_secs :: "int option"

definition window_item_for :: "wham_env \<Rightarrow> bool \<Rightarrow> string \<Rightarrow> string \<Rightarrow> json option \<Rightarrow> window_item list" where
  "window_item_for E blocked i label window =
     (case window of
        None \<Rightarrow> []
      | Some w \<Rightarrow> [\<lparr>wi_id = i, wi_label = label, wi_used_percent = used_or_blocked E blocked window,
                   wi_reset_at_secs = parse_window_reset_secs E w\<rparr>])"

definition add_rate_limit_windows ::
    "wham_env \<Rightarrow> json \<Rightarrow> string \<times> string \<Rightarrow> string \<times> string \<Rightarrow> bool \<Rightarrow> bool option \<Rightarrow> window_item list" where
  \<comment> \<open>each pair is id and label\<close>
  "add_rate_limit_windows E rl five_hour weekly limited allowed =
     (let blocked = (limited \<or> allowed = Some False) in
      window_item_for E blocked (fst five_hour) (snd five_hour) (five_hour_window rl) @
      window_item_for E blocked (fst weekly) (snd weekly) (weekly_window rl))"

fun kebab :: "bool \<Rightarrow> string \<Rightarrow> string" where
  \<comment> \<open>the flag: the last character was a dash\<close>
  "kebab last_dash [] = []"
| "kebab last_dash (c # cs) =
     (let l = hd (to_lowercase [c]) in
      if is_ascii_alphanumeric l then l # kebab False cs
      else if last_dash then kebab True cs else CHR ''-'' # kebab True cs)"

definition normalize_window_id :: "string \<Rightarrow> string" where
  "normalize_window_id raw =
     (let s = kebab False raw; dash = (\<lambda>c. c = CHR ''-'') in rev (dropWhile dash (rev (dropWhile dash s))))"

definition additional_windows :: "wham_env \<Rightarrow> bool \<Rightarrow> bool option \<Rightarrow> nat \<times> json \<Rightarrow> window_item list" where
  "additional_windows E limited allowed x =
     (case x of
        (idx, item) \<Rightarrow>
          (case rate_limit_of item of
             None \<Rightarrow> []
           | Some rl \<Rightarrow>
               (let name = (case get2 json_get_str item ''limit_name'' ''limitName'' of Some n \<Rightarrow> n | None \<Rightarrow> ''Additional'');
                    normalized = normalize_window_id name
                in add_rate_limit_windows E rl
                     (normalized @ ''-five-hour-'' @ show_nat idx, name @ '' 5h'') (normalized @ ''-weekly-'' @ show_nat idx, name @ '' 7d'')
                     (limited \<or> flag_limit_reached rl) (or_else allowed (get_bool rl ''allowed'')))))"

definition build_codex_quota_windows :: "wham_env \<Rightarrow> json \<Rightarrow> window_item list" where
  "build_codex_quota_windows E body =
     (let rate_limit = rate_limit_of body;
          limited = (case rate_limit of Some rl \<Rightarrow> flag_limit_reached rl | None \<Rightarrow> False);
          allowed = Option.bind rate_limit (\<lambda>rl. get_bool rl ''allowed'');
          main = (case rate_limit of
                    Some rl \<Rightarrow> add_rate_limit_windows E rl (''five-hour'', ''5h window'') (''weekly'', ''7d window'') limited allowed
                  | None \<Rightarrow> []);
          review = (case get2 json_get body ''code_review_rate_limit'' ''codeReviewRateLimit'' of
                      Some rl \<Rightarrow> add_rate_limit_windows E rl (''code-review-five-hour'', ''Code Review 5h'')
                        (''code-review-weekly'', ''Code Review 7d'') (limited \<or> flag_limit_reached rl)
                        (or_else allowed (get_bool rl ''allowed''))
                    | None \<Rightarrow> []);
          additional = (case Option.bind (get2 json_get body ''additional_rate_limits'' ''additionalRateLimits'') as_array of
                          Some xs \<Rightarrow> concat (map (additional_windows E limited allowed) (enumerate 0 xs))
                        | None \<Rightarrow> [])
      in main @ review @ additional)"

section \<open>The summary\<close>

record key_quota_info =
  qi_is_available :: "bool option"
  qi_balance :: "f64 option"
  qi_total_granted :: "f64 option"
  qi_total_used :: "f64 option"
  qi_plan_type :: "string option"
  qi_primary_used_percent :: "f64 option"
  qi_secondary_used_percent :: "f64 option"
  qi_primary_reset_after_secs :: "nat option"
  qi_secondary_reset_after_secs :: "nat option"
  qi_primary_reset_at_secs :: "int option"
  qi_secondary_reset_at_secs :: "int option"
  qi_codex_windows :: "window_item list option"

definition reset_after_secs :: "json option \<Rightarrow> nat option" where
  "reset_after_secs window =
     map_option f64_to_u64 (Option.bind window (\<lambda>w. get2 get_f64 w ''reset_after_seconds'' ''resetAfterSeconds''))"

definition wham_to_key_quota_info :: "wham_env \<Rightarrow> json \<Rightarrow> key_quota_info option" where
  "wham_to_key_quota_info E body =
     (let rate_limit = rate_limit_of body;
          plan_type = get2 json_get_str body ''plan_type'' ''planType'';
          balance = get2 get_f64 body ''credit_balance'' ''balance'';
          total_used = or_else (get2 get_f64 body ''used'' ''total_used'') (get_f64 body ''totalUsed'');
          limited = (case rate_limit of Some rl \<Rightarrow> flag_limit_reached rl | None \<Rightarrow> False);
          is_available = or_else (Option.bind rate_limit (\<lambda>rl. get_bool rl ''allowed''))
                           (if limited then Some False else None);
          five_hour = Option.bind rate_limit five_hour_window; weekly = Option.bind rate_limit weekly_window;
          primary_used = used_or_blocked E limited five_hour;
          secondary_used = used_or_blocked E limited weekly;
          windows = build_codex_quota_windows E body
      in if plan_type = None \<and> primary_used = None \<and> secondary_used = None \<and> balance = None \<and> total_used = None \<and>
            is_available = None then None
         else Some \<lparr>qi_is_available = is_available, qi_balance = balance, qi_total_granted = None, qi_total_used = total_used,
                    qi_plan_type = plan_type, qi_primary_used_percent = primary_used, qi_secondary_used_percent = secondary_used,
                    qi_primary_reset_after_secs = reset_after_secs five_hour,
                    qi_secondary_reset_after_secs = reset_after_secs weekly,
                    qi_primary_reset_at_secs = Option.bind five_hour (parse_window_reset_secs E),
                    qi_secondary_reset_at_secs = Option.bind weekly (parse_window_reset_secs E),
                    qi_codex_windows = (if windows = [] then None else Some windows)\<rparr>)"

section \<open>Properties\<close>

definition usage_body :: "json \<Rightarrow> json \<Rightarrow> (string \<times> json) list \<Rightarrow> json" where
  \<comment> \<open>an answer with two windows\<close>
  "usage_body primary secondary flags =
     JObj [(''rate_limit'', JObj ((''primary_window'', primary) # (''secondary_window'', secondary) # flags))]"

lemma usage_body_windows:
  assumes "rl = JObj ((''primary_window'', a) # (''secondary_window'', b) # flags)"
  shows "primary_window rl = Some a" "secondary_window rl = Some b" "rate_limit_of (usage_body a b flags) = Some rl"
  using assms by (simp_all add: primary_window_def secondary_window_def rate_limit_of_def usage_body_def get2_def or_else_def)

lemma classify_by_duration:
  assumes "window_seconds a = Some FIVE_HOUR_SECONDS" and "window_seconds b = Some WEEK_SECONDS"
  shows "classify_windows (Some a) (Some b) = (Some Primary, Some Secondary)"
    "classify_windows (Some b) (Some a) = (Some Secondary, Some Primary)"
  using assms by (simp_all add: classify_windows_def classify_step_def FIVE_HOUR_SECONDS_def WEEK_SECONDS_def)

text \<open>
  The order of the windows does not matter: when one lasts five hours and the other a week, the snapshot
  is the same in whichever order the service lists them.
\<close>

theorem window_order_irrelevant:
  assumes "window_seconds a = Some FIVE_HOUR_SECONDS" and "window_seconds b = Some WEEK_SECONDS"
  shows "parse_wham_json E (usage_body a b flags) = parse_wham_json E (usage_body b a flags)"
proof -
  let ?rl = "JObj ((''primary_window'', a) # (''secondary_window'', b) # flags)"
  let ?lr = "JObj ((''primary_window'', b) # (''secondary_window'', a) # flags)"
  have "five_hour_window ?rl = Some a" "weekly_window ?rl = Some b" "five_hour_window ?lr = Some a" "weekly_window ?lr = Some b"
    using classify_by_duration [OF assms] usage_body_windows [OF refl, of a b flags] usage_body_windows [OF refl, of b a flags]
    by (simp_all add: five_hour_window_def weekly_window_def window_at_def)
  moreover have "flag_limit_reached ?rl = flag_limit_reached ?lr" "get_bool ?rl ''allowed'' = get_bool ?lr ''allowed''"
    by (simp_all add: flag_limit_reached_def get_bool_def get2_def or_else_def)
  ultimately show ?thesis
    using usage_body_windows [OF refl, of a b flags] usage_body_windows [OF refl, of b a flags]
    by (simp add: parse_wham_json_def window_used_percent_def)
qed

lemma indexed_ids:
  "n @ ''-five-hour-'' @ k \<noteq> ''five-hour''" "n @ ''-five-hour-'' @ k \<noteq> ''weekly''"
  "n @ ''-weekly-'' @ k \<noteq> ''five-hour''" "n @ ''-weekly-'' @ k \<noteq> ''weekly''"
  by (auto simp: append_eq_Cons_conv)

lemma other_ids:
  assumes "i \<in> set (additional_windows E l al x)"
  shows "wi_id i \<noteq> ''five-hour'' \<and> wi_id i \<noteq> ''weekly''"
proof -
  obtain idx item where x: "x = (idx, item)" by (metis surj_pair)
  let ?n = "normalize_window_id (case get2 json_get_str item ''limit_name'' ''limitName'' of Some n \<Rightarrow> n | None \<Rightarrow> ''Additional'')"
  have "wi_id i \<in> {?n @ ''-five-hour-'' @ show_nat idx, ?n @ ''-weekly-'' @ show_nat idx}"
    using assms unfolding x additional_windows_def add_rate_limit_windows_def window_item_for_def Let_def prod.case fst_conv snd_conv
    by (cases "rate_limit_of item") (auto split: option.splits)
  then show ?thesis using indexed_ids by (metis insertE singletonD)
qed

lemma used_or_blocked_None [simp]: "used_or_blocked E b None = None"
  by (simp add: used_or_blocked_def)

text \<open>
  The preflight and the dashboard agree: the used percentages of the snapshot are the ones the list of
  windows shows for the five hours and the week.
\<close>

theorem snapshot_agrees_with_windows:
  assumes "parse_wham_json E body = Some snap"
  shows "Option.bind (List.find (\<lambda>i. wi_id i = ''five-hour'') (build_codex_quota_windows E body)) wi_used_percent = session_used_percent snap \<and>
    Option.bind (List.find (\<lambda>i. wi_id i = ''weekly'') (build_codex_quota_windows E body)) wi_used_percent = weekly_used_percent snap"
proof -
  obtain rl where rl: "rate_limit_of body = Some rl" using assms by (auto simp: parse_wham_json_def split: option.splits)
  let ?main = "add_rate_limit_windows E rl (''five-hour'', ''5h window'') (''weekly'', ''7d window'') (flag_limit_reached rl)
    (get_bool rl ''allowed'')"
  obtain rest where build: "build_codex_quota_windows E body = ?main @ rest"
    and rest: "\<forall>i \<in> set rest. wi_id i \<noteq> ''five-hour'' \<and> wi_id i \<noteq> ''weekly''"
  proof
    show "build_codex_quota_windows E body = ?main @ drop (length ?main) (build_codex_quota_windows E body)"
      by (simp add: build_codex_quota_windows_def rl Let_def)
    show "\<forall>i \<in> set (drop (length ?main) (build_codex_quota_windows E body)). wi_id i \<noteq> ''five-hour'' \<and> wi_id i \<noteq> ''weekly''"
      using other_ids by (fastforce simp: build_codex_quota_windows_def rl Let_def add_rate_limit_windows_def window_item_for_def
          split: option.splits)
  qed
  have none: "List.find (\<lambda>i. wi_id i = ''five-hour'') rest = None" "List.find (\<lambda>i. wi_id i = ''weekly'') rest = None"
    using rest by (simp_all add: find_None_iff)
  have snap: "session_used_percent snap = window_used_percent E (five_hour_window rl) rl"
    "weekly_used_percent snap = window_used_percent E (weekly_window rl) rl"
    using assms rl by (auto simp: parse_wham_json_def split: if_splits)
  show ?thesis
    unfolding build snap using none
    by (cases "five_hour_window rl"; cases "weekly_window rl")
      (simp_all add: add_rate_limit_windows_def window_item_for_def window_used_percent_def Let_def)
qed

text \<open>
  The summary does not: an account that is not allowed, with a window that only says when it resets, is
  used up for the preflight and in the list of windows, while the summary has no percentage for it.
\<close>

theorem summary_misses_block:
  assumes "window_used_percent_from_window a = None" and "parse_window_reset_secs E a \<noteq> None"
    and "window_seconds a = Some FIVE_HOUR_SECONDS" and "window_seconds b = Some WEEK_SECONDS"
  defines "body \<equiv> usage_body a b [(''allowed'', JBool False)]"
  shows "map_option session_used_percent (parse_wham_json E body) = Some (Some 100) \<and>
    map_option qi_primary_used_percent (wham_to_key_quota_info E body) = Some None"
proof -
  let ?rl = "JObj [(''primary_window'', a), (''secondary_window'', b), (''allowed'', JBool False)]"
  have rl: "rate_limit_of body = Some ?rl" "primary_window ?rl = Some a" "secondary_window ?rl = Some b"
    using usage_body_windows [OF refl, of a b "[(''allowed'', JBool False)]"] by (simp_all add: body_def)
  have "five_hour_window ?rl = Some a" using classify_by_duration(1) [OF assms(3,4)] rl by (simp add: five_hour_window_def window_at_def)
  moreover have "flag_limit_reached ?rl = False" "get_bool ?rl ''allowed'' = Some False"
    by (simp_all add: flag_limit_reached_def get_bool_def get2_def or_else_def)
  ultimately show ?thesis
    using rl assms(1,2)
    by (simp add: parse_wham_json_def wham_to_key_quota_info_def window_used_percent_def used_or_blocked_def or_else_def Let_def)
qed

text \<open>
  A second window of unknown length is dropped when the first one lasts a week: however much of it is used,
  the account counts as unused in the short term.
\<close>

theorem second_window_dropped:
  assumes "window_seconds a = Some WEEK_SECONDS" and "window_seconds b = None"
  shows "map_option session_used_percent (parse_wham_json E (usage_body a b flags)) = Some None"
proof -
  let ?rl = "JObj ((''primary_window'', a) # (''secondary_window'', b) # flags)"
  have "classify_windows (Some a) (Some b) = (None, Some Primary)"
    using assms by (simp add: classify_windows_def classify_step_def FIVE_HOUR_SECONDS_def WEEK_SECONDS_def)
  then show ?thesis
    using usage_body_windows [OF refl, of a b flags]
    by (simp add: parse_wham_json_def five_hour_window_def window_used_percent_def used_or_blocked_def)
qed

section \<open>Witnesses\<close>

definition sample_window :: "rat \<Rightarrow> (string \<times> json) list \<Rightarrow> json" where
  "sample_window secs rest = JObj ((''limit_window_seconds'', JFloat secs) # rest)"

definition sample_wham_env :: wham_env where
  "sample_wham_env = \<lparr>wh_now = 0, wh_in_range = (\<lambda>_. True)\<rparr>"

lemma sample_window_seconds:
  "window_seconds (sample_window 18000 xs) = Some FIVE_HOUR_SECONDS"
  "window_seconds (sample_window 604800 xs) = Some WEEK_SECONDS"
  by (simp_all add: window_seconds_def sample_window_def get2_def or_else_def get_f64_def
      FIVE_HOUR_SECONDS_def WEEK_SECONDS_def)

theorem window_order_irrelevant_witness:
  "parse_wham_json sample_wham_env (usage_body (sample_window 18000 []) (sample_window 604800 []) []) =
   parse_wham_json sample_wham_env (usage_body (sample_window 604800 []) (sample_window 18000 []) [])"
  by (rule window_order_irrelevant) (rule sample_window_seconds)+

theorem snapshot_agrees_with_windows_witness:
  "\<exists>snap. parse_wham_json sample_wham_env (usage_body (sample_window 18000 []) (sample_window 604800 []) []) = Some snap \<and>
     Option.bind (List.find (\<lambda>i. wi_id i = ''five-hour'') (build_codex_quota_windows sample_wham_env
       (usage_body (sample_window 18000 []) (sample_window 604800 []) []))) wi_used_percent = session_used_percent snap"
proof -
  obtain snap where "parse_wham_json sample_wham_env (usage_body (sample_window 18000 []) (sample_window 604800 []) []) = Some snap"
    using usage_body_windows [OF refl, of "sample_window 18000 []" "sample_window 604800 []" "[]"] by (simp add: parse_wham_json_def)
  then show ?thesis using snapshot_agrees_with_windows by blast
qed

theorem summary_misses_block_witness:
  "map_option session_used_percent (parse_wham_json sample_wham_env
      (usage_body (sample_window 18000 [(''reset_at'', JFloat 5)]) (sample_window 604800 []) [(''allowed'', JBool False)])) = Some (Some 100) \<and>
   map_option qi_primary_used_percent (wham_to_key_quota_info sample_wham_env
      (usage_body (sample_window 18000 [(''reset_at'', JFloat 5)]) (sample_window 604800 []) [(''allowed'', JBool False)])) = Some None"
  by (rule summary_misses_block [OF _ _ sample_window_seconds])
    (simp_all add: window_used_percent_from_window_def parse_window_reset_secs_def sample_window_def get2_def or_else_def get_f64_def)

theorem second_window_dropped_witness:
  "map_option session_used_percent (parse_wham_json sample_wham_env
     (usage_body (sample_window 604800 []) (JObj [(''used_percent'', JInt 100)]) [])) = Some None"
  by (rule second_window_dropped [OF sample_window_seconds(2)]) (simp add: window_seconds_def get2_def or_else_def get_f64_def)

end
