(* ===== verification/Spec2Isabelle.thy ===== *)
theory Spec2Isabelle
  imports CircuitBreaker ClientLockout ModelLockout RateLimitPolicy ClientKeyLimiter UserIdLimiter
    UpstreamPoolSelect UpstreamPoolState KeyBinding Selector Coalescing CacheKey CacheStore
    TieredCache ClientKeyRateLimiter RoleNormalization Translator PipelineNames PipelineSelect Tenant
    FaultInjection PeerSelection SessionStore ResponsesWire RequestPrepare Admission KeyAcquire ResponseBody QuotaParse
begin

text \<open>
  \<^bold>\<open>CrabCache: a verification development.\<close>

  CrabCache is a caching reverse proxy for large-language-model services. A request comes in with a
  client key; the gateway checks the client's lockout and its concurrency limit, looks for a cached
  answer, chooses an upstream profile, takes an upstream key from a pool (bound to the session where
  there is a binding), and forwards the request. The response feeds back: a rate limit cools the key
  down and rotates to another account, a failure is recorded by the circuit breaker of the backend
  and the lockout of the model; a streamed answer is rewritten for the client while its reasoning is
  filed for the next request. The development models the components that take these decisions and, of
  the callbacks of the HTTP server that call them, the admission of a request, its cache phase, the
  acquisition of its upstream key, the choice of a backend and the filter of the upstream's status
  with the retries it asks for.

  \<^bold>\<open>Theories and sources\<close> (under \<^verbatim>\<open>src/crates/crab-proxy/src/\<close> unless a crate is named).

  \<^item> \<^verbatim>\<open>Prelude\<close>: machine arithmetic with its wrap-around and saturation, ASCII strings,
    hash maps as association lists with the map laws as a locale, reachable states and the
    locale \<^verbatim>\<open>invariant_system\<close> every state machine below interprets.
  \<^item> \<^verbatim>\<open>F64\<close>, \<^verbatim>\<open>Json\<close>: binary64 arithmetic on finite values as exact operations followed
    by rounding, and JSON values as far as the components read them; the JSON parser itself is an
    argument.
  \<^item> \<^verbatim>\<open>CircuitBreaker\<close>: \<^verbatim>\<open>circuit_breaker.rs\<close>. The breaker is the record
    \<^verbatim>\<open>circuit_breaker\<close>, \<^verbatim>\<open>cb_on_failure\<close>, \<^verbatim>\<open>cb_on_success\<close> and the rest its methods,
    and the registry a hash map of breakers. Shown: the state agrees with the counter in every
    reachable state; which state a run of failures leads to; an open breaker blocks exactly until
    its cooldown ends and its retry hint is honest; gradual recovery; the backoff never escalates.
  \<^item> \<^verbatim>\<open>ClientLockout\<close>, \<^verbatim>\<open>ModelLockout\<close>: \<^verbatim>\<open>client_lockout.rs\<close>,
    \<^verbatim>\<open>model_lockout.rs\<close>. Shown: enough failures inside one window lock the client for the
    lockout duration and too few never do, whatever other clients do; a model failure locks exactly
    its model for its backoff step; a quota lock ends at the next UTC midnight.
  \<^item> \<^verbatim>\<open>RateLimitPolicy\<close>: \<^verbatim>\<open>fallback_policy.rs\<close> and \<^verbatim>\<open>codex_rate_limit.rs\<close>,
    the classification of upstream responses and the cooldown they lead to.
  \<^item> \<^verbatim>\<open>LimiterSpec\<close>, \<^verbatim>\<open>ClientKeyLimiter\<close>, \<^verbatim>\<open>UserIdLimiter\<close>: the locale
    \<^verbatim>\<open>concurrency_limiter\<close> states what a concurrency limiter promises;
    \<^verbatim>\<open>client_key_limiter.rs\<close> and \<^verbatim>\<open>upstream_user_id_limiter.rs\<close> are interpretations of
    it. \<^verbatim>\<open>LimiterSpec\<close> also proves the compare-and-swap loop both use correct in every
    interleaving, which justifies taking the loop at its successful swap. Slots live in an explicit
    heap, because a guard keeps the slot it was given while the map may get another one.
  \<^item> \<^verbatim>\<open>ClientKeyRateLimiter\<close>: \<^verbatim>\<open>client_key_rate_limiter.rs\<close>, the token bucket in the
    arithmetic of \<^verbatim>\<open>F64\<close>. Shown: at most the limit is admitted at one instant, rounding
    included.
  \<^item> \<^verbatim>\<open>QuotaCache\<close>: \<^verbatim>\<open>codex_quota_cache.rs\<close> and the snapshot it stores
    (\<^verbatim>\<open>crab-control/src/codex_wham.rs\<close>).
  \<^item> \<^verbatim>\<open>UpstreamKey\<close>, \<^verbatim>\<open>UpstreamPool\<close>, \<^verbatim>\<open>UpstreamPoolSelect\<close>,
    \<^verbatim>\<open>UpstreamPoolState\<close>: \<^verbatim>\<open>upstream_pool.rs\<close>. Specifications and id assignment; the
    pool, its slots, semaphores and guards with every operation; the theorems on selection (a key
    handed out is usable, the best key is taken, permits are conserved, rotation leaves the
    account); export and restoration of states and the replacement of a pool.
  \<^item> \<^verbatim>\<open>KeyBinding\<close>: \<^verbatim>\<open>key_binding.rs\<close>. Shown: the reverse index counts exactly as
    long as nothing is evicted, an eviction drifts until the next reconciliation, the least loaded
    key is minimal.
  \<^item> \<^verbatim>\<open>Selector\<close>: \<^verbatim>\<open>crab-auth/src/selector/\<close>. The trait is the locale
    \<^verbatim>\<open>selector\<close>, extended by \<^verbatim>\<open>priority_selector\<close>; fill-first and round-robin
    interpret both, session affinity makes a selector of any selector. Shown: every selector picks
    a usable credential exactly when there is one, round robin is fair, a session sticks to its
    credential, the fingerprint hash separates inputs that differ in one byte.
  \<^item> \<^verbatim>\<open>CacheKey\<close>: \<^verbatim>\<open>crab-cache/src/key.rs\<close>. Shown: canonical serialisation is
    injective up to the order of object keys, and cache keys agree exactly for requests of one
    namespace that agree after normalisation, as long as the digest does not collide.
  \<^item> \<^verbatim>\<open>Coalescing\<close>: \<^verbatim>\<open>crab-cache/src/coalescing.rs\<close> as an interleaving of tasks.
    Shown: one leader per key and at most the configured number of leaders; a key is never led
    again; a wake-up can be lost.
  \<^item> \<^verbatim>\<open>CacheStore\<close>: \<^verbatim>\<open>crab-cache/src/types.rs\<close> and \<^verbatim>\<open>idempotency.rs\<close>. Shown:
    a saved response is replayed exactly during its window.
  \<^item> \<^verbatim>\<open>TieredCache\<close>: \<^verbatim>\<open>crab-cache/src/tiered.rs\<close>, the two tiers with every failure of
    Redis. Shown: a stored entry is found until its time to live has passed, whatever L0 evicts;
    L0 ignores the consumer's time to live.
  \<^item> \<^verbatim>\<open>Text\<close>: more operations of \<^verbatim>\<open>str\<close> with their laws, shared by the theories
    below.
  \<^item> \<^verbatim>\<open>PipelineTypes\<close>, \<^verbatim>\<open>PipelineNames\<close>, \<^verbatim>\<open>ClientKind\<close>,
    \<^verbatim>\<open>DeepseekModel\<close>, \<^verbatim>\<open>PipelineProfile\<close>, \<^verbatim>\<open>PipelineSelect\<close>:
    \<^verbatim>\<open>crab-pipeline/src/\<close>. Providers, pipelines and modes with their textual forms, the
    recognition of clients, model aliases, profile resolution, the rule engine and the selection.
    Shown: the textual forms round-trip, the rule engine takes the first matching rule by priority,
    the selected pipeline is made for its provider unless an alias moves the profile.
  \<^item> \<^verbatim>\<open>RoleNormalization\<close>, \<^verbatim>\<open>Translator\<close>: \<^verbatim>\<open>crab-translator/src/\<close>. Shown: the
    shape of a normalised list, that every dropped message is accounted for, idempotence.
  \<^item> \<^verbatim>\<open>Tenant\<close>, \<^verbatim>\<open>FaultInjection\<close>: \<^verbatim>\<open>tenant.rs\<close>,
    \<^verbatim>\<open>fault_injection.rs\<close>. Shown: a key pins its project, projects do not share a cache
    namespace, a fault triggers from its request on.
  \<^item> \<^verbatim>\<open>LbRouter\<close>, \<^verbatim>\<open>BackendState\<close>, \<^verbatim>\<open>PeerSelection\<close>:
    \<^verbatim>\<open>crab-route/src/\<close>, \<^verbatim>\<open>backend_state.rs\<close>,
    \<^verbatim>\<open>phases/upstream_peer.rs\<close> with the preflight of \<^verbatim>\<open>request_filter.rs\<close>. The
    composition of ranking, circuit breaker, model lockout and load. Shown: a ranking is a
    permutation, the first eligible backend is taken, permits are bounded, a 429 streak can shut a
    profile for good.
  \<^item> \<^verbatim>\<open>ToolChain\<close>, \<^verbatim>\<open>SessionStore\<close>: the repair of tool chains
    (\<^verbatim>\<open>responses_wire.rs\<close>), the retirement of old turns
    (\<^verbatim>\<open>crab-reasoning/src/normalize.rs\<close>) and the session store
    (\<^verbatim>\<open>session_store.rs\<close>).
  \<^item> \<^verbatim>\<open>ReasoningKeys\<close>, \<^verbatim>\<open>StreamAccumulator\<close>: \<^verbatim>\<open>crab-reasoning/src/keys.rs\<close>,
    \<^verbatim>\<open>store.rs\<close>, \<^verbatim>\<open>backend.rs\<close> and \<^verbatim>\<open>streaming.rs\<close>. What a backend promises
    is the locale \<^verbatim>\<open>reasoning_backend\<close>, interpreted by the SQLite table. Shown: streamed text
    is concatenated, accumulated calls are well typed, the reasoning of a streamed answer is found
    again by the next request, a message is filed once.
  \<^item> \<^verbatim>\<open>SseEvents\<close>, \<^verbatim>\<open>SseTransform\<close>, \<^verbatim>\<open>SseRewrite\<close>, \<^verbatim>\<open>StreamCapture\<close>,
    \<^verbatim>\<open>SsePipeline\<close>: \<^verbatim>\<open>sse.rs\<close>, \<^verbatim>\<open>crab-reasoning/src/transform.rs\<close>,
    \<^verbatim>\<open>sse_rewrite.rs\<close>, \<^verbatim>\<open>stream_capture.rs\<close> and \<^verbatim>\<open>sse_pipeline/\<close>. The
    pipelines that send what they capture interpret the locale \<^verbatim>\<open>capturing_pipeline\<close>. Shown:
    the chunks a stream arrives in do not matter to the rewriting, no display mode lets the
    reasoning field through, the capture agrees with the client's stream, the Codex pipeline loses
    an unterminated last line.
  \<^item> \<^verbatim>\<open>CodexRequest\<close>, \<^verbatim>\<open>CodexResponse\<close>: \<^verbatim>\<open>codex.rs\<close>, the translation of chat
    requests to Codex input and of the Codex answer stream back to chat chunks. Shown: every
    translated chat request has input, calls and their results stay paired, the streamed and the
    collected text of an answer agree, calls sent one after the other arrive intact, calls that
    overlap are sent twice.
  \<^item> \<^verbatim>\<open>CodexTools\<close>, \<^verbatim>\<open>ResponsesRequest\<close>, \<^verbatim>\<open>ResponsesStream\<close>,
    \<^verbatim>\<open>ResponsesWire\<close>: \<^verbatim>\<open>crab-reasoning/src/codex_tools.rs\<close>,
    \<^verbatim>\<open>responses_tool_registry.rs\<close>, \<^verbatim>\<open>responses_chain_store.rs\<close> and
    \<^verbatim>\<open>responses_wire.rs\<close>, the Responses protocol over chat upstreams. The translator of the
    answer is a state with emitters; what holds after every run is an interpretation of the locale
    \<^verbatim>\<open>stream_invariant\<close>. Shown: tool calls and results keep their order in the converted
    history, which fits its upstream; chains of different pipelines are isolated and survive a
    restart; events are numbered without a gap, a response ends once, the deltas add up to the final
    text, a turn of tool calls is restored in the next request, a broken stream is completed.

  \<^item> \<^verbatim>\<open>MessageNormalize\<close>, \<^verbatim>\<open>HistoryCompression\<close>, \<^verbatim>\<open>RequestPrepare\<close>:
    \<^verbatim>\<open>crab-reasoning/src/normalize.rs\<close>, the normalisation of messages and tools, the compression
    of long histories, and the four ways a request is prepared for its upstream. Shown: normalised
    messages are typed, filed reasoning is restored, compaction keeps results with their calls and is
    bounded, only supported fields leave the gateway, a session's history lacks no reasoning, and the
    preparation returns.
  \<^item> \<^verbatim>\<open>Composition\<close>: \<^verbatim>\<open>crab-composition/src/\<close>, what requests are composed of, and the
    histograms over many.
  \<^item> \<^verbatim>\<open>Admission\<close>: the first phases of \<^verbatim>\<open>phases/request_filter.rs\<close>. Shown: what is
    checked of a request before it is let through, that its context gives back the load it took, and
    that guessing keys is not locked out.
  \<^item> \<^verbatim>\<open>CacheResponse\<close>, \<^verbatim>\<open>CachePhase\<close>: \<^verbatim>\<open>cache_helpers.rs\<close>,
    \<^verbatim>\<open>cache_response.rs\<close>, \<^verbatim>\<open>cache_revalidate.rs\<close> and
    \<^verbatim>\<open>phases/cache_coalesce.rs\<close>: what is stored and sent, and the phase that looks an answer
    up or waits for the leader, over \<^verbatim>\<open>CacheKey\<close>, \<^verbatim>\<open>TieredCache\<close> and
    \<^verbatim>\<open>Coalescing\<close>. Shown: a stored answer is served, a cached stream hides the reasoning, a
    failed leader poisons its key.
  \<^item> \<^verbatim>\<open>UpstreamRetry\<close>, \<^verbatim>\<open>KeyAcquire\<close>: the retries of \<^verbatim>\<open>proxy.rs\<close>,
    \<^verbatim>\<open>phases/response_filter.rs\<close> and \<^verbatim>\<open>phases/rate_limit_retry.rs\<close>, and the
    acquisition of the upstream key with its bindings and quota preflight, over the pool, the binding
    store, the lockouts and the breakers. Shown: retries are bounded whatever happens in between, an
    acquired key is usable, the preflight ends, a bound session keeps its key; a fallback sends the
    client's key.

  \<^bold>\<open>Arguments for code outside the repository.\<close> The JSON parser and printer, NFC, SHA-256, the
  choice of the entry a bounded cache evicts and the outcome of Redis commands are arguments. The
  only hypotheses on them are \<^verbatim>\<open>serializer_ok\<close> (string literals and numbers can be read back;
  \<^verbatim>\<open>serializer_exists\<close> gives an instance), that a cache entry can be read back from Redis, the
  length of a digest and the absence of a collision on the two texts compared.

  \<^bold>\<open>Conventions and bounds.\<close> The release profile leaves overflow checks off, so counters are
  natural numbers with the wrap-around written out; \<^verbatim>\<open>Instant\<close>s are integers and their
  representable range is not bounded, except where the source uses a checked or saturating
  operation. The clock and every random draw are arguments. All loops are structural recursions over
  the data they scan or total functions with a measure, but for the quota preflight, which takes a
  bound on its rounds; one more than the pool has keys is shown to be enough. A \<^verbatim>\<open>DashMap\<close> is
  an association list with distinct keys; cloning it copies its entries. Operations of the maps and
  of atomics are interleaved one call at a time; where a component relies on more (the limiter
  loop, the removal of idle slots) the steps are modelled separately. The bound of
  \<^verbatim>\<open>Semaphore::new\<close> on its permits and non-ASCII case mapping are not modelled.

  \<^bold>\<open>Not modelled.\<close> Network, file and Redis I/O, metrics and logging, the OAuth flows, the admin
  API, its database and the dashboard, which hold no decisions of the data path; the semantic cache
  and the control plane, which are calls of services; of the request lifecycle the plumbing of headers
  and bodies around the modelled pipelines.
\<close>

end
